(* ===== verification/Prelude.thy ===== *)
theory Prelude
  imports Main "HOL-Library.Word" "HOL-Library.AList" "HOL-Library.List_Lexorder"
    "HOL-Library.Char_ord"
begin

section \<open>Prelude: error results, checks and association lists\<close>

text \<open>
  Shared by every component: the two shapes a Go error return takes in the model, the
  characterisations that let \<open>simp\<close> and \<open>auto\<close> read them, and lemmas on lists and maps.

  A Go function that returns only an \<open>error\<close> is an \<open>'e option\<close>, \<open>None\<close> for \<open>nil\<close>. The
  idiom \<open>if err := f(); err != nil { return err }\<close>, repeated, is \<open>first_err\<close> of the list
  of the checks in the code's order. A Go function that returns a value and an error is an
  \<open>'e + 'a\<close>; \<open>guardE\<close> puts checks in front of it and \<open>bindE\<close> continues with the value.
\<close>

named_theorems chk \<open>a check passes exactly when\<close>
named_theorems okE \<open>a result is a success exactly when\<close>

subsection \<open>Checks\<close>

definition fail_if :: "bool \<Rightarrow> 'e \<Rightarrow> 'e option" where
  "fail_if b e = (if b then Some e else None)"

fun first_err :: "'e option list \<Rightarrow> 'e option" where
  "first_err [] = None"
| "first_err (c # cs) = (case c of Some e \<Rightarrow> Some e | None \<Rightarrow> first_err cs)"

lemma fail_if_simps [simp]: "fail_if True e = Some e" "fail_if False e = None"
  by (simp_all add: fail_if_def)

lemma fail_if_None [chk, simp]: "fail_if b e = None \<longleftrightarrow> \<not> b"
  by (simp add: fail_if_def)

lemma fail_if_Some [simp]: "fail_if b e = Some e' \<longleftrightarrow> b \<and> e' = e"
  by (auto simp: fail_if_def)

lemma first_err_None [chk]: "first_err cs = None \<longleftrightarrow> (\<forall>c \<in> set cs. c = None)"
  by (induction cs) (auto split: option.splits)

lemma first_err_Cons_None [chk, simp]:
  "first_err (c # cs) = None \<longleftrightarrow> c = None \<and> first_err cs = None"
  by (auto split: option.splits)

lemma first_err_map_None [chk]:
  "first_err (map f xs) = None \<longleftrightarrow> (\<forall>x \<in> set xs. f x = None)"
  by (auto simp: first_err_None)

lemma first_err_Some: "first_err cs = Some e \<Longrightarrow> Some e \<in> set cs"
  by (induction cs) (auto split: option.splits)

declare first_err.simps(2) [simp del]

lemma first_err_Cons_Nil [simp]: "first_err (None # cs) = first_err cs"
  by (simp add: first_err.simps)

lemma first_err_Cons_Some [simp]: "first_err (Some e # cs) = Some e"
  by (simp add: first_err.simps)

subsection \<open>Results\<close>

definition guardE :: "'e option \<Rightarrow> 'e + 'a \<Rightarrow> 'e + 'a" where
  "guardE c k = (case c of Some e \<Rightarrow> Inl e | None \<Rightarrow> k)"

definition bindE :: "'e + 'a \<Rightarrow> ('a \<Rightarrow> 'e + 'b) \<Rightarrow> 'e + 'b" where
  "bindE m f = (case m of Inl e \<Rightarrow> Inl e | Inr x \<Rightarrow> f x)"

definition of_opt :: "'e \<Rightarrow> 'a option \<Rightarrow> 'e + 'a" where
  "of_opt e x = (case x of None \<Rightarrow> Inl e | Some y \<Rightarrow> Inr y)"

definition err_of :: "'e + 'a \<Rightarrow> 'e option" where
  "err_of m = (case m of Inl e \<Rightarrow> Some e | Inr _ \<Rightarrow> None)"

lemma guardE_Inr [okE, simp]: "guardE c k = Inr x \<longleftrightarrow> c = None \<and> k = Inr x"
  by (simp add: guardE_def split: option.splits)

lemma guardE_None [simp]: "guardE None k = k"
  by (simp add: guardE_def)

lemma guardE_Some [simp]: "guardE (Some e) k = Inl e"
  by (simp add: guardE_def)

lemma bindE_Inr [okE]: "bindE m f = Inr y \<longleftrightarrow> (\<exists>x. m = Inr x \<and> f x = Inr y)"
  by (cases m) (simp_all add: bindE_def)

lemma bindE_simps [simp]: "bindE (Inl e) f = Inl e" "bindE (Inr x) f = f x"
  by (simp_all add: bindE_def)

lemma of_opt_Inr [okE, simp]: "of_opt e x = Inr y \<longleftrightarrow> x = Some y"
  by (cases x) (simp_all add: of_opt_def)

lemma of_opt_simps [simp]: "of_opt e None = Inl e" "of_opt e (Some x) = Inr x"
  by (simp_all add: of_opt_def)

lemma err_of_None [chk]: "err_of m = None \<longleftrightarrow> (\<exists>x. m = Inr x)"
  by (cases m) (simp_all add: err_of_def)

subsection \<open>Lists\<close>

lemma set_list_update_distinct:
  "i < length xs \<Longrightarrow> distinct xs \<Longrightarrow> set (xs[i := x]) = insert x (set xs - {xs ! i})"
  by (auto simp: set_conv_nth nth_list_update nth_eq_iff_index_eq)

lemma list_update_map_same:
  "i < length xs \<Longrightarrow> f y = f (xs ! i) \<Longrightarrow> map f (xs[i := y]) = map f xs"
  by (simp add: map_update list_update_same_conv)

text \<open>The first element with a property, and its index: the shape of the code's \<open>find\<close> loops.\<close>

fun find_idx :: "('a \<Rightarrow> bool) \<Rightarrow> 'a list \<Rightarrow> ('a \<times> nat) option" where
  "find_idx P [] = None"
| "find_idx P (x # xs) =
     (if P x then Some (x, 0) else map_option (\<lambda>(y, i). (y, Suc i)) (find_idx P xs))"

lemma all_less_Suc_shift: "(\<forall>j < Suc n. Q j) \<longleftrightarrow> Q 0 \<and> (\<forall>j < n. Q (Suc j))"
  by (metis less_Suc_eq_0_disj)

lemma find_idx_Some:
  "find_idx P xs = Some (x, i) \<longleftrightarrow> i < length xs \<and> xs ! i = x \<and> P x \<and> (\<forall>j < i. \<not> P (xs ! j))"
proof (induction xs arbitrary: i)
  case Nil
  then show ?case by simp
next
  case (Cons a xs)
  show ?case
  proof (cases "P a")
    case True
    then show ?thesis by (cases i) (auto dest: spec [of _ 0])
  next
    case False
    then show ?thesis using Cons.IH by (cases i) (auto simp: all_less_Suc_shift)
  qed
qed

lemma find_idx_SomeD:
  "find_idx P xs = Some (x, i) \<Longrightarrow> i < length xs \<and> xs ! i = x \<and> x \<in> set xs \<and> P x"
  by (auto simp: find_idx_Some)

lemma find_idx_None [simp]: "find_idx P xs = None \<longleftrightarrow> (\<forall>x \<in> set xs. \<not> P x)"
  by (induction xs) auto

lemma find_idx_find: "map_option fst (find_idx P xs) = find P xs"
  by (induction xs) (auto simp: option.map_comp comp_def case_prod_beta)

lemma find_idx_key:
  assumes "distinct (map f xs)" "x \<in> set xs"
  shows "\<exists>i. find_idx (\<lambda>y. f y = f x) xs = Some (x, i)"
  using assms by (induction xs) auto

text \<open>The map from keys that a loop over a list of keyed values fills.\<close>

definition key_map :: "('a \<Rightarrow> 'k) \<Rightarrow> 'a list \<Rightarrow> 'k \<rightharpoonup> 'a" where
  "key_map f xs = map_of (map (\<lambda>x. (f x, x)) xs)"

lemma key_map_simps [simp]:
  "key_map f [] = Map.empty" "key_map f (x # xs) = (key_map f xs)(f x \<mapsto> x)"
  by (simp_all add: key_map_def)

lemma key_map_None [simp]: "key_map f xs k = None \<longleftrightarrow> k \<notin> f ` set xs"
  by (induction xs) auto

lemma dom_key_map [simp]: "dom (key_map f xs) = f ` set xs"
  using key_map_None [of f xs] by (auto simp: dom_def)

lemma key_map_SomeD: "key_map f xs k = Some x \<Longrightarrow> x \<in> set xs \<and> f x = k"
  by (induction xs) (auto split: if_splits)

lemma key_map_Some: "distinct (map f xs) \<Longrightarrow> key_map f xs k = Some x \<longleftrightarrow> x \<in> set xs \<and> f x = k"
  by (auto simp: key_map_def map_of_eq_Some_iff comp_def)

lemma key_map_distinct: "distinct (map f xs) \<Longrightarrow> x \<in> set xs \<Longrightarrow> key_map f xs (f x) = Some x"
  by (simp add: key_map_Some)

lemma map_add_key_map:
  "k \<notin> f ` set xs \<Longrightarrow> m(k \<mapsto> x) ++ key_map f xs = m ++ (key_map f xs)(k \<mapsto> x)"
proof (induction xs)
  case Nil
  show ?case unfolding key_map_simps map_add_upd map_add_empty ..
next
  case (Cons y ys)
  then have k: "k \<notin> f ` set ys" "k \<noteq> f y" by auto
  show ?case
    unfolding key_map_simps map_add_upd Cons.IH [OF k(1)] using k(2) by (rule fun_upd_twist)
qed

lemma key_map_append_new:
  "f x \<notin> f ` set xs \<Longrightarrow> key_map f (xs @ [x]) = (key_map f xs)(f x \<mapsto> x)"
proof (induction xs)
  case (Cons y ys)
  then have "f x \<notin> f ` set ys" "f x \<noteq> f y" by auto
  then show ?case unfolding append_Cons key_map_simps Cons.IH [OF \<open>f x \<notin> f ` set ys\<close>]
    by (metis fun_upd_twist)
qed simp

lemma key_map_update:
  "i < length xs \<Longrightarrow> distinct (map f xs) \<Longrightarrow> f x = f (xs ! i) \<Longrightarrow>
     key_map f (xs[i := x]) = (key_map f xs)(f x \<mapsto> x)"
proof (induction xs arbitrary: i)
  case (Cons y ys)
  show ?case
  proof (cases i)
    case 0
    then have "f x = f y" using Cons.prems by simp
    then show ?thesis unfolding 0 list_update_code key_map_simps by (metis fun_upd_upd)
  next
    case (Suc j)
    with Cons.prems have "f x \<noteq> f y" by (metis distinct.simps(2) image_eqI length_Cons list.simps(9)
        list.set_map nth_Cons_Suc nth_mem Suc_less_eq)
    moreover have "key_map f (ys[j := x]) = (key_map f ys)(f x \<mapsto> x)"
      using Cons.prems Suc by (intro Cons.IH) auto
    ultimately show ?thesis using Suc by (metis fun_upd_twist key_map_simps(2) list_update_code(3))
  qed
qed simp

lemma find_idx_key_map: "map_option fst (find_idx (\<lambda>x. f x = k) xs) = key_map f xs k"
  by (induction xs) (auto simp: option.map_comp comp_def case_prod_beta)

end
