(* ===== verification/GoBase.thy ===== *)
theory GoBase
  imports Prelude
begin

section \<open>The Go library as the source uses it\<close>

text \<open>
  Strings and byte slices are byte lists (\<open>string\<close>), \<open>uint64\<close> is \<open>64 word\<close>, \<open>int\<close> is \<open>int\<close>
  where a checked bound keeps it far from overflow. \<open>time.Time\<close> is an instant, in
  nanoseconds after the zero time, and a zone offset. The functions below are what
  \<open>strings.TrimSpace\<close>, \<open>encoding/hex\<close>, \<open>encoding/json.Valid\<close> and the package's safe-ID
  regular expression compute on bytes.
\<close>

type_synonym u64 = "64 word"

lemma unat_position: "i < 2 ^ 64 \<Longrightarrow> unat (of_nat i :: u64) = i"
  by (simp only: unat_of_nat len_num0 len_bit0 mod_less mult_2 [symmetric]) simp

subsection \<open>Time\<close>

datatype gtime = GTime (instant: int) (zone: int)

definition zero_time :: gtime where
  "zero_time = GTime 0 0"

definition isZero :: "gtime \<Rightarrow> bool" where
  "isZero t \<longleftrightarrow> instant t = 0"

definition before :: "gtime \<Rightarrow> gtime \<Rightarrow> bool" where
  "before a b \<longleftrightarrow> instant a < instant b"

definition after :: "gtime \<Rightarrow> gtime \<Rightarrow> bool" where
  "after a b \<longleftrightarrow> instant b < instant a"

definition sameInstant :: "gtime \<Rightarrow> gtime \<Rightarrow> bool" where
  "sameInstant a b \<longleftrightarrow> instant a = instant b"

definition utc :: "gtime \<Rightarrow> gtime" where
  "utc t = GTime (instant t) 0"

lemma utc_simps [simp]: "instant (utc t) = instant t" "zone (utc t) = 0" "utc (utc t) = utc t"
  by (simp_all add: utc_def)

instantiation gtime :: preorder
begin

definition less_eq_gtime :: "gtime \<Rightarrow> gtime \<Rightarrow> bool" where
  "less_eq_gtime a b \<longleftrightarrow> instant a \<le> instant b"

definition less_gtime :: "gtime \<Rightarrow> gtime \<Rightarrow> bool" where
  "less_gtime a b \<longleftrightarrow> instant a < instant b"

instance
  by standard (auto simp: less_eq_gtime_def less_gtime_def)

end

lemma before_less: "before a b \<longleftrightarrow> a < b"
  by (simp add: before_def less_gtime_def)

lemma not_before_le [simp]: "\<not> before a b \<longleftrightarrow> b \<le> a"
  by (auto simp: before_def less_eq_gtime_def)

lemma isZero_utc [simp]: "isZero (utc t) = isZero t"
  by (simp add: isZero_def)

lemma le_utc [simp]: "a \<le> utc t \<longleftrightarrow> a \<le> t" "utc t \<le> a \<longleftrightarrow> t \<le> a"
  by (simp_all add: less_eq_gtime_def)

subsection \<open>Bytes\<close>

abbreviation code :: "char \<Rightarrow> nat" where
  "code c \<equiv> of_char c"

definition len :: "'a list \<Rightarrow> int" where
  "len xs = int (length xs)"

lemma len_simps [simp]: "len [] = 0" "len (x # xs) = len xs + 1" "0 \<le> len xs"
    "len (xs @ ys) = len xs + len ys"
  by (simp_all add: len_def)

definition is_digit :: "char \<Rightarrow> bool" where
  "is_digit c \<longleftrightarrow> 48 \<le> code c \<and> code c \<le> 57"

definition is_alnum :: "char \<Rightarrow> bool" where
  "is_alnum c \<longleftrightarrow> is_digit c \<or> 65 \<le> code c \<and> code c \<le> 90 \<or> 97 \<le> code c \<and> code c \<le> 122"

definition is_hex :: "char \<Rightarrow> bool" where
  "is_hex c \<longleftrightarrow> is_digit c \<or> 65 \<le> code c \<and> code c \<le> 70 \<or> 97 \<le> code c \<and> code c \<le> 102"

text \<open>The pattern \<^verbatim>\<open>^[A-Za-z0-9][A-Za-z0-9._-]{0,127}$\<close> on bytes.\<close>

definition safe_char :: "char \<Rightarrow> bool" where
  "safe_char c \<longleftrightarrow> is_alnum c \<or> c = CHR ''.'' \<or> c = CHR ''_'' \<or> c = CHR ''-''"

definition safeID :: "string \<Rightarrow> bool" where
  "safeID s = (case s of [] \<Rightarrow> False
     | c # cs \<Rightarrow> is_alnum c \<and> length cs \<le> 127 \<and> list_all safe_char cs)"

lemma safeID_nonempty [simp]: "\<not> safeID []"
  by (simp add: safeID_def)

lemma safeID_length: "safeID s \<Longrightarrow> 1 \<le> length s \<and> length s \<le> 128"
  by (auto simp: safeID_def split: list.splits)

text \<open>
  \<^verbatim>\<open>strings.TrimSpace(s) == ""\<close>: every rune of \<open>s\<close> is Unicode white space, in its UTF-8
  encoding. White space outside ASCII has encodings of two and of three bytes.
\<close>

definition space1 :: "char \<Rightarrow> bool" where
  "space1 c \<longleftrightarrow> 9 \<le> code c \<and> code c \<le> 13 \<or> code c = 32"

definition space2 :: "char \<Rightarrow> char \<Rightarrow> bool" where
  "space2 c d \<longleftrightarrow> code c = 0xC2 \<and> (code d = 0x85 \<or> code d = 0xA0)"

definition space3 :: "char \<Rightarrow> char \<Rightarrow> char \<Rightarrow> bool" where
  "space3 c d e \<longleftrightarrow>
     code c = 0xE1 \<and> code d = 0x9A \<and> code e = 0x80
   \<or> code c = 0xE2 \<and> code d = 0x80 \<and>
       (0x80 \<le> code e \<and> code e \<le> 0x8A \<or> code e = 0xA8 \<or> code e = 0xA9 \<or> code e = 0xAF)
   \<or> code c = 0xE2 \<and> code d = 0x81 \<and> code e = 0x9F
   \<or> code c = 0xE3 \<and> code d = 0x80 \<and> code e = 0x80"

fun blank :: "string \<Rightarrow> bool" where
  "blank [] = True"
| "blank [c] = space1 c"
| "blank [c, d] = (space1 c \<and> blank [d] \<or> space2 c d)"
| "blank (c # d # e # s) =
     (space1 c \<and> blank (d # e # s) \<or> space2 c d \<and> blank (e # s) \<or> space3 c d e \<and> blank s)"

definition hex_ok :: "string \<Rightarrow> bool" where
  "hex_ok s \<longleftrightarrow> even (length s) \<and> list_all is_hex s"

subsection \<open>JSON validity\<close>

text \<open>
  \<open>json.Valid\<close> runs a byte-at-a-time scanner with a stack of open objects and arrays; the
  states and transitions below are the scanner's, with its nesting limit.
\<close>

datatype parse_state = ParseObjectKey | ParseObjectValue | ParseArrayValue

datatype scan_state =
    SBeginValue | SBeginValueOrEmpty | SBeginStringOrEmpty | SBeginString
  | SEndValue | SEndTop
  | SInString | SInStringEsc | SInStringU nat
  | SNeg | SInt | SZero | SDot | SDot0 | SExp | SExpSign | SExp0
  | SLit string
  | SError

type_synonym scanner = "scan_state \<times> parse_state list"

definition json_space :: "char \<Rightarrow> bool" where
  "json_space c \<longleftrightarrow> code c = 32 \<or> code c = 9 \<or> code c = 13 \<or> code c = 10"

definition pop_state :: "parse_state list \<Rightarrow> scanner" where
  "pop_state st = (case st of [] \<Rightarrow> (SError, []) | [p] \<Rightarrow> (SEndTop, []) | p # q # r \<Rightarrow> (SEndValue, q # r))"

definition push_state :: "scan_state \<Rightarrow> parse_state \<Rightarrow> parse_state list \<Rightarrow> scanner" where
  "push_state s p st = (if length st + 1 \<le> 10000 then (s, p # st) else (SError, st))"

definition end_value :: "parse_state list \<Rightarrow> char \<Rightarrow> scanner" where
  "end_value st c =
     (case st of
        [] \<Rightarrow> if json_space c then (SEndTop, []) else (SError, [])
      | p # r \<Rightarrow>
          if json_space c then (SEndValue, st)
          else (case p of
              ParseObjectKey \<Rightarrow>
                if c = CHR '':'' then (SBeginValue, ParseObjectValue # r) else (SError, st)
            | ParseObjectValue \<Rightarrow>
                if c = CHR '','' then (SBeginString, ParseObjectKey # r)
                else if c = CHR ''}'' then pop_state st else (SError, st)
            | ParseArrayValue \<Rightarrow>
                if c = CHR '','' then (SBeginValue, st)
                else if c = CHR '']'' then pop_state st else (SError, st)))"

definition begin_value :: "parse_state list \<Rightarrow> char \<Rightarrow> scanner" where
  "begin_value st c =
     (if json_space c then (SBeginValue, st)
      else if c = CHR ''{'' then push_state SBeginStringOrEmpty ParseObjectKey st
      else if c = CHR ''['' then push_state SBeginValueOrEmpty ParseArrayValue st
      else if code c = 34 then (SInString, st)
      else if c = CHR ''-'' then (SNeg, st)
      else if c = CHR ''0'' then (SZero, st)
      else if is_digit c then (SInt, st)
      else if c = CHR ''t'' then (SLit ''rue'', st)
      else if c = CHR ''f'' then (SLit ''alse'', st)
      else if c = CHR ''n'' then (SLit ''ull'', st)
      else (SError, st))"

definition begin_string :: "parse_state list \<Rightarrow> char \<Rightarrow> scanner" where
  "begin_string st c =
     (if json_space c then (SBeginString, st)
      else if code c = 34 then (SInString, st) else (SError, st))"

definition scan_zero :: "parse_state list \<Rightarrow> char \<Rightarrow> scanner" where
  "scan_zero st c =
     (if c = CHR ''.'' then (SDot, st)
      else if c = CHR ''e'' \<or> c = CHR ''E'' then (SExp, st) else end_value st c)"

fun scan_step :: "scanner \<Rightarrow> char \<Rightarrow> scanner" where
  "scan_step (SBeginValue, st) c = begin_value st c"
| "scan_step (SBeginValueOrEmpty, st) c =
     (if json_space c then (SBeginValueOrEmpty, st)
      else if c = CHR '']'' then end_value st c else begin_value st c)"
| "scan_step (SBeginStringOrEmpty, st) c =
     (if json_space c then (SBeginStringOrEmpty, st)
      else if c = CHR ''}'' then end_value (ParseObjectValue # tl st) c else begin_string st c)"
| "scan_step (SBeginString, st) c = begin_string st c"
| "scan_step (SEndValue, st) c = end_value st c"
| "scan_step (SEndTop, st) c = (if json_space c then (SEndTop, st) else (SError, st))"
| "scan_step (SInString, st) c =
     (if code c = 34 then (SEndValue, st)
      else if code c = 92 then (SInStringEsc, st)
      else if code c < 32 then (SError, st) else (SInString, st))"
| "scan_step (SInStringEsc, st) c =
     (if c \<in> set [CHR ''b'', CHR ''f'', CHR ''n'', CHR ''r'', CHR ''t'', CHR ''/''] \<or> code c = 92 \<or> code c = 34
      then (SInString, st)
      else if c = CHR ''u'' then (SInStringU 3, st) else (SError, st))"
| "scan_step (SInStringU n, st) c =
     (if is_hex c then (if n = 0 then (SInString, st) else (SInStringU (n - 1), st))
      else (SError, st))"
| "scan_step (SNeg, st) c =
     (if c = CHR ''0'' then (SZero, st) else if is_digit c then (SInt, st) else (SError, st))"
| "scan_step (SInt, st) c = (if is_digit c then (SInt, st) else scan_zero st c)"
| "scan_step (SZero, st) c = scan_zero st c"
| "scan_step (SDot, st) c = (if is_digit c then (SDot0, st) else (SError, st))"
| "scan_step (SDot0, st) c =
     (if is_digit c then (SDot0, st)
      else if c = CHR ''e'' \<or> c = CHR ''E'' then (SExp, st) else end_value st c)"
| "scan_step (SExp, st) c =
     (if c = CHR ''+'' \<or> c = CHR ''-'' then (SExpSign, st)
      else if is_digit c then (SExp0, st) else (SError, st))"
| "scan_step (SExpSign, st) c = (if is_digit c then (SExp0, st) else (SError, st))"
| "scan_step (SExp0, st) c = (if is_digit c then (SExp0, st) else end_value st c)"
| "scan_step (SLit lit, st) c =
     (case lit of [] \<Rightarrow> (SError, st)
      | d # ds \<Rightarrow> if c = d then (if ds = [] then (SEndValue, st) else (SLit ds, st)) else (SError, st))"
| "scan_step (SError, st) c = (SError, st)"

text \<open>At the end of the input one more space is fed, as the scanner's \<open>eof\<close> does.\<close>

definition json_valid :: "string \<Rightarrow> bool" where
  "json_valid s = (fst (scan_step (foldl scan_step (SBeginValue, []) s) (CHR '' '')) = SEndTop)"

lemma json_valid_examples:
  "json_valid ''{}''" "json_valid '' [1, -0.5e3, true, {}] ''" "\<not> json_valid ''[1,]''"
  "\<not> json_valid ''''" "json_valid ''null''" "\<not> json_valid ''01''"
  by code_simp+

end
