(* ===== verification/TeamTypes.thy ===== *)
theory TeamTypes
  imports GoBase
begin

section \<open>Team: data model, errors and limits\<close>

text \<open>
  The types of \<^verbatim>\<open>agent/team/types.go\<close>, \<^verbatim>\<open>errors.go\<close> and \<^verbatim>\<open>limits.go\<close>. The string enumerations
  of the code are open (a stored record may hold any string), so each datatype has, besides the
  code's constants, a constructor for every other string: \<open>default\<close> branches stay reachable.
  The empty string, where the code compares with it, is \<open>...Other []\<close>. Identifiers are strings.
  Values are immutable here, so the \<^verbatim>\<open>clone\<close> functions of the code are identities. An error keeps
  what the code inspects of it (its sentinel and the revisions of a conflict), not its text.
  \<open>Foreign\<close> is an error of a collaborator (a clock source, a context, a codec), \<open>Panic\<close> a run-time
  panic of the Go program.
\<close>

datatype team_status =
  StatusActive | StatusCompleted | StatusFailed | StatusCancelled | StatusOther string

datatype member_status = MemberStatusActive | MemberStatusDisabled | MemberStatusOther string

datatype task_status =
    TaskStatusPending | TaskStatusReady | TaskStatusClaimed | TaskStatusRunning
  | TaskStatusCompleted | TaskStatusFailed | TaskStatusCancelled | TaskStatusOther string

datatype attempt_status =
    AttemptStatusRunning | AttemptStatusCompleted | AttemptStatusFailed | AttemptStatusCancelled
  | AttemptStatusOther string

datatype attempt_outcome =
  AttemptOutcomeCompleted | AttemptOutcomeFailed | AttemptOutcomeOther string

datatype actor_kind = ActorKindCoordinator | ActorKindMember | ActorKindOther string

datatype cause =
    CauseCreate | CauseMemberRegistered | CauseMemberDisabled | CauseMemberEnabled
  | CauseTaskCreated | CauseTaskAssigned | CauseTaskUnassigned | CauseTaskClaimed
  | CauseTaskReleased | CauseTaskAttemptStarted | CauseTaskAttemptCompleted
  | CauseTaskAttemptFailed | CauseTaskRetried | CauseTaskCancelled | CauseMessageSent
  | CauseMessagesAcknowledged | CauseTeamCompleted | CauseTeamFailed | CauseTeamCancelled
  | CauseOther string

record actor =
  acKind :: actor_kind
  acID :: string

record command_metadata =
  cmdID :: string
  cmdExpected :: u64
  cmdActor :: actor

record team_limits =
  MaxMembers :: int
  MaxTasks :: int
  MaxDependenciesPerTask :: int
  MaxMessages :: int
  MaxActiveTasks :: int
  MaxAttemptsPerTask :: int
  MaxArtifactsPerResult :: int
  MaxJSONBytes :: int

record artifact =
  arKind :: string
  arReference :: string
  arDigest :: string
  arMediaType :: string

record member_spec =
  msID :: string
  msName :: string
  msRole :: string
  msCapability :: string

record member =
  mID :: string
  mName :: string
  mRole :: string
  mCapability :: string
  mStatus :: member_status
  mDelivered :: u64
  mAcknowledged :: u64
  mRegisteredAt :: gtime
  mDisabledAt :: gtime

record attempt =
  atID :: string
  atNumber :: int
  atStatus :: attempt_status
  atMember :: string
  atContinuation :: string
  atResult :: "string option"
  atArtifacts :: "artifact list"
  atReason :: string
  atStartedAt :: gtime
  atFinishedAt :: gtime

record task =
  tID :: string
  tTitle :: string
  tDescription :: string
  tPayload :: "string option"
  tDeps :: "string list"
  tAssigned :: string
  tClaimed :: string
  tStatus :: task_status
  tAttemptLimit :: int
  tAttempts :: "attempt list"
  tReason :: string
  tCreatedAt :: gtime
  tUpdatedAt :: gtime

record message =
  gID :: string
  gSequence :: u64
  gSender :: string
  gRecipient :: string
  gTask :: string
  gReplyTo :: string
  gBody :: "string option"
  gSentAt :: gtime

record team =
  teSchema :: int
  teID :: string
  teRevision :: u64
  teStatus :: team_status
  teObjective :: string
  teLead :: string
  teMembers :: "member list"
  teTasks :: "task list"
  teNextSeq :: u64
  teLimits :: team_limits
  teReason :: string
  teOutput :: "string option"
  teArtifacts :: "artifact list"
  teCreatedAt :: gtime
  teUpdatedAt :: gtime

record transition =
  trSchema :: int
  trID :: string
  trTeamID :: string
  trRevision :: u64
  trAt :: gtime
  trActor :: actor
  trCommandID :: string
  trCommandHash :: string
  trCause :: cause
  trTaskID :: string
  trMemberID :: string
  trAttemptID :: string
  trMessageID :: string
  trFrom :: team_status
  trTo :: team_status
  trReason :: string

record team_record =
  rcSchema :: int
  rcTeam :: team
  rcTransition :: transition
  rcMessage :: "message option"

definition schemaVersion :: int where "schemaVersion = 2"

abbreviation no_status :: team_status where "no_status \<equiv> StatusOther []"

text \<open>The zero values Go returns where a lookup finds nothing.\<close>

definition zero_member :: member where
  "zero_member = \<lparr>mID = [], mName = [], mRole = [], mCapability = [], mStatus = MemberStatusOther [],
     mDelivered = 0, mAcknowledged = 0, mRegisteredAt = zero_time, mDisabledAt = zero_time\<rparr>"

definition zero_task :: task where
  "zero_task = \<lparr>tID = [], tTitle = [], tDescription = [], tPayload = None, tDeps = [],
     tAssigned = [], tClaimed = [], tStatus = TaskStatusOther [], tAttemptLimit = 0, tAttempts = [],
     tReason = [], tCreatedAt = zero_time, tUpdatedAt = zero_time\<rparr>"

subsection \<open>Errors\<close>

datatype team_error =
    ErrNotFound | ErrExists | ErrConflict | ErrCommandConflict | ErrInvalid | ErrTooLarge
  | ErrUnauthorized | ErrInvalidState | ErrDependencyBlocked | ErrMemberBusy | ErrStaleAttempt
  | ErrAttemptLimit | ErrTerminal | ErrCorruptStore | ErrStoreFull
  | ConflictError u64 u64
  | StateError string team_status "task_status option" team_error
  | CorruptStoreError string "team_error option"
  | ConflictLimit team_error
  | Foreign string
  | Panic string

text \<open>\<open>errors.Is\<close>: an error matches itself and what it unwraps to.\<close>

fun errorsIs :: "team_error \<Rightarrow> team_error \<Rightarrow> bool" where
  "errorsIs (ConflictError a b) t = (t = ConflictError a b \<or> t = ErrConflict)"
| "errorsIs (StateError op s k e) t = (t = StateError op s k e \<or> errorsIs e t)"
| "errorsIs (CorruptStoreError p e) t = (t = CorruptStoreError p e \<or> t = ErrCorruptStore)"
| "errorsIs (ConflictLimit e) t = (t = ConflictLimit e \<or> errorsIs e t)"
| "errorsIs e t = (t = e)"

definition corruptStoreValue :: "string \<Rightarrow> team_error option \<Rightarrow> team_error" where
  "corruptStoreValue tid e = CorruptStoreError tid e"

subsection \<open>Requests\<close>

record create_request =
  crID :: string
  crObjective :: string
  crLead :: member_spec
  crLimits :: team_limits

text \<open>
  What a command means, the value the code hashes for replay detection: one constructor per
  operation, with the fields of its anonymous \<open>semantic\<close> struct.
\<close>

datatype semantic =
    SemCreate string member_spec team_limits
  | SemRegister member_spec
  | SemDisable string string
  | SemEnable string
  | SemCreateTask string string string "string option" "string list" int
  | SemAssign string string
  | SemUnassign string
  | SemClaim string
  | SemRelease string string
  | SemRetry string string
  | SemCancelTask string string
  | SemStart string string string
  | SemFinish string string string attempt_outcome "string option" "artifact list" string
  | SemSend string string string string "string option"
  | SemAck u64
  | SemComplete "string option" "artifact list" string
  | SemTerminal team_status string

text \<open>
  The parts of the environment that are data or cryptography rather than program: the Unicode
  case-folding comparison \<open>strings.EqualFold\<close>, the SHA-256 of the encoded command (an error
  where encoding fails) and the length of a record's JSON encoding.
\<close>

record team_env =
  equalFold :: "string \<Rightarrow> string \<Rightarrow> bool"
  hashCommand :: "string \<Rightarrow> string \<Rightarrow> actor \<Rightarrow> semantic \<Rightarrow> team_error + string"
  encodedLen :: "team_record \<Rightarrow> team_error + int"

definition commandHash ::
    "team_env \<Rightarrow> string \<Rightarrow> string \<Rightarrow> actor \<Rightarrow> semantic \<Rightarrow> team_error + string" where
  "commandHash E operation tid a sem = hashCommand E operation tid a sem"

subsection \<open>Limits\<close>

definition default_limits :: team_limits where
  "default_limits = \<lparr>MaxMembers = 32, MaxTasks = 1024, MaxDependenciesPerTask = 64,
     MaxMessages = 4096, MaxActiveTasks = 32, MaxAttemptsPerTask = 16,
     MaxArtifactsPerResult = 64, MaxJSONBytes = 262144\<rparr>"

definition hard_limits :: team_limits where
  "hard_limits = \<lparr>MaxMembers = 1024, MaxTasks = 100000, MaxDependenciesPerTask = 1024,
     MaxMessages = 100000, MaxActiveTasks = 1024, MaxAttemptsPerTask = 1000,
     MaxArtifactsPerResult = 1024, MaxJSONBytes = 4194304\<rparr>"

text \<open>One round of the loop over the fields: the default for zero, then the bound.\<close>

definition resolve_one :: "int \<Rightarrow> int \<Rightarrow> int" where
  "resolve_one v d = (if v = 0 then d else v)"

definition limit_bad :: "int \<Rightarrow> int \<Rightarrow> team_error option" where
  "limit_bad v h = fail_if (v < 1 \<or> v > h) ErrInvalid"

definition resolveLimits :: "team_limits \<Rightarrow> team_error + team_limits" where
  "resolveLimits l =
     (let r = \<lparr>MaxMembers = resolve_one (MaxMembers l) (MaxMembers default_limits),
               MaxTasks = resolve_one (MaxTasks l) (MaxTasks default_limits),
               MaxDependenciesPerTask =
                 resolve_one (MaxDependenciesPerTask l) (MaxDependenciesPerTask default_limits),
               MaxMessages = resolve_one (MaxMessages l) (MaxMessages default_limits),
               MaxActiveTasks = resolve_one (MaxActiveTasks l) (MaxActiveTasks default_limits),
               MaxAttemptsPerTask =
                 resolve_one (MaxAttemptsPerTask l) (MaxAttemptsPerTask default_limits),
               MaxArtifactsPerResult =
                 resolve_one (MaxArtifactsPerResult l) (MaxArtifactsPerResult default_limits),
               MaxJSONBytes = resolve_one (MaxJSONBytes l) (MaxJSONBytes default_limits)\<rparr>
      in guardE (first_err
           [limit_bad (MaxMembers r) (MaxMembers hard_limits),
            limit_bad (MaxTasks r) (MaxTasks hard_limits),
            limit_bad (MaxDependenciesPerTask r) (MaxDependenciesPerTask hard_limits),
            limit_bad (MaxMessages r) (MaxMessages hard_limits),
            limit_bad (MaxActiveTasks r) (MaxActiveTasks hard_limits),
            limit_bad (MaxAttemptsPerTask r) (MaxAttemptsPerTask hard_limits),
            limit_bad (MaxArtifactsPerResult r) (MaxArtifactsPerResult hard_limits),
            limit_bad (MaxJSONBytes r) (MaxJSONBytes hard_limits),
            fail_if (MaxActiveTasks r > MaxMembers r) ErrInvalid])
         (Inr r))"

definition limits_ok :: "team_limits \<Rightarrow> bool" where
  "limits_ok l \<longleftrightarrow>
     1 \<le> MaxMembers l \<and> MaxMembers l \<le> 1024 \<and> 1 \<le> MaxTasks l \<and> MaxTasks l \<le> 100000 \<and>
     1 \<le> MaxDependenciesPerTask l \<and> MaxDependenciesPerTask l \<le> 1024 \<and>
     1 \<le> MaxMessages l \<and> MaxMessages l \<le> 100000 \<and>
     1 \<le> MaxActiveTasks l \<and> MaxActiveTasks l \<le> 1024 \<and>
     1 \<le> MaxAttemptsPerTask l \<and> MaxAttemptsPerTask l \<le> 1000 \<and>
     1 \<le> MaxArtifactsPerResult l \<and> MaxArtifactsPerResult l \<le> 1024 \<and>
     1 \<le> MaxJSONBytes l \<and> MaxJSONBytes l \<le> 4194304 \<and>
     MaxActiveTasks l \<le> MaxMembers l"

lemma resolveLimits_ok: "resolveLimits l = Inr r \<Longrightarrow> limits_ok r"
  by (auto simp: resolveLimits_def limit_bad_def limits_ok_def hard_limits_def Let_def)

lemma resolveLimits_fixed: "limits_ok l \<Longrightarrow> resolveLimits l = Inr l"
  by (cases l)
    (simp add: resolveLimits_def limit_bad_def limits_ok_def hard_limits_def Let_def
      resolve_one_def)

lemma resolveLimits_self_iff: "resolveLimits l = Inr l \<longleftrightarrow> limits_ok l"
  using resolveLimits_ok resolveLimits_fixed by blast

end
