(* ===== verification/TeamGraph.thy ===== *)
theory TeamGraph
  imports TeamTypes
begin

section \<open>Team: the dependency graph check\<close>

text \<open>
  \<open>validateDependencyGraph\<close> of \<^verbatim>\<open>agent/team/validate.go\<close>: a depth-first search over the task map
  with the three marks of the code. \<open>visits\<close> is the recursive closure \<open>visit\<close> run over a list
  of task IDs, one after the other, as the loop over the dependencies runs it; the outer loop
  over all tasks is a call on all IDs (it skips visited tasks, as \<open>visit\<close> returns at once for
  them, and never meets a task that is being visited). A missing ID has no dependencies: the
  map yields the zero task for it. The search fails exactly on a cycle.
\<close>

datatype mark = Unvisited | Visiting | Visited

definition taskOf :: "task list \<Rightarrow> string \<Rightarrow> task option" where
  "taskOf ts d = find (\<lambda>t. tID t = d) ts"

definition depsOf :: "task list \<Rightarrow> string \<Rightarrow> string list" where
  "depsOf ts d = (case taskOf ts d of None \<Rightarrow> [] | Some t \<Rightarrow> tDeps t)"

function visits ::
    "task list \<Rightarrow> (string \<Rightarrow> mark) \<Rightarrow> string list \<Rightarrow> team_error + (string \<Rightarrow> mark)" where
  "visits ts st [] = Inr st"
| "visits ts st (d # ds) =
     (case st d of
        Visiting \<Rightarrow> Inl ErrInvalid
      | Visited \<Rightarrow> visits ts st ds
      | Unvisited \<Rightarrow>
          (case visits ts (st(d := Visiting)) (depsOf ts d) of
             Inl e \<Rightarrow> Inl e
           | Inr st' \<Rightarrow> visits ts (st'(d := Visited)) ds))"
  by pat_completeness auto

lemma visits_marks:
  "visits_dom (ts, st, ds) \<Longrightarrow> visits ts st ds = Inr st' \<Longrightarrow>
     (st' x = Unvisited \<longrightarrow> st x = Unvisited)"
proof (induction ts st ds arbitrary: st' rule: visits.pinduct)
  case (1 ts st)
  then show ?case by (simp add: visits.psimps)
next
  case (2 ts st d ds)
  then show ?case
    by (fastforce simp: visits.psimps split: mark.splits sum.splits if_splits)
qed

lemma depsOf_missing: "d \<notin> set (map tID ts) \<Longrightarrow> depsOf ts d = []"
  by (auto simp: depsOf_def taskOf_def find_None_iff split: option.splits
      dest: find_Some_iff [THEN iffD1])

termination visits
proof (relation "measures
    [\<lambda>(ts, st, ds). card {x \<in> set (map tID ts). st x = Unvisited}, \<lambda>(ts, st, ds). length ds]")
  show "wf (measures [\<lambda>(ts, st, ds). card {x \<in> set (map tID ts). st x = Unvisited},
      \<lambda>(ts, st, ds). length ds])" by simp
next
  fix ts :: "task list" and st :: "string \<Rightarrow> mark" and d ds
  assume "st d = Visited"
  then show "((ts, st, ds), ts, st, d # ds) \<in> measures
      [\<lambda>(ts, st, ds). card {x \<in> set (map tID ts). st x = Unvisited}, \<lambda>(ts, st, ds). length ds]"
    by simp
next
  fix ts :: "task list" and st :: "string \<Rightarrow> mark" and d ds
  assume st: "st d = Unvisited"
  let ?U = "\<lambda>st. {x \<in> set (map tID ts). st x = Unvisited}"
  have sub: "?U (st(d := Visiting)) \<subseteq> ?U st" by auto
  show "((ts, st(d := Visiting), depsOf ts d), ts, st, d # ds) \<in> measures
      [\<lambda>(ts, st, ds). card {x \<in> set (map tID ts). st x = Unvisited}, \<lambda>(ts, st, ds). length ds]"
  proof (cases "d \<in> set (map tID ts)")
    case True
    then have "?U (st(d := Visiting)) \<subset> ?U st" using st by auto
    then have "card (?U (st(d := Visiting))) < card (?U st)"
      by (intro psubset_card_mono) auto
    then show ?thesis by simp
  next
    case False
    then show ?thesis using card_mono [OF _ sub] depsOf_missing [OF False]
      by (auto simp: le_less)
  qed
next
  fix ts :: "task list" and st :: "string \<Rightarrow> mark" and d ds st'
  assume st: "st d = Unvisited"
    and r: "visits ts (st(d := Visiting)) (depsOf ts d) = Inr st'"
    and dom: "visits_dom (ts, st(d := Visiting), depsOf ts d)"
  have "{x \<in> set (map tID ts). (st'(d := Visited)) x = Unvisited}
      \<subseteq> {x \<in> set (map tID ts). st x = Unvisited}"
  proof safe
    fix x assume x: "(st'(d := Visited)) x = Unvisited"
    then have "x \<noteq> d" by auto
    with x visits_marks [OF dom r, of x] show "st x = Unvisited" by simp
  qed
  from card_mono [OF _ this]
  show "((ts, st'(d := Visited), ds), ts, st, d # ds) \<in> measures
      [\<lambda>(ts, st, ds). card {x \<in> set (map tID ts). st x = Unvisited}, \<lambda>(ts, st, ds). length ds]"
    by (auto simp: le_less)
qed

definition validateDependencyGraph :: "task list \<Rightarrow> team_error option" where
  "validateDependencyGraph ts = err_of (visits ts (\<lambda>_. Unvisited) (map tID ts))"

subsection \<open>The search succeeds exactly on acyclic graphs\<close>

definition depRel :: "task list \<Rightarrow> (string \<times> string) set" where
  "depRel ts = {(a, b). b \<in> set (depsOf ts a)}"

lemma visits_visiting:
  "visits ts st ds = Inr st' \<Longrightarrow> st' x = Visiting \<longleftrightarrow> st x = Visiting"
proof (induction ts st ds arbitrary: st' rule: visits.induct)
  case (1 ts st)
  then show ?case by simp
next
  case (2 ts st d ds)
  then show ?case by (fastforce split: mark.splits sum.splits if_splits)
qed

lemma acyclic_extend:
  assumes "acyclic r" and r: "r \<subseteq> B \<times> B" and d: "d \<notin> B" and s: "s \<subseteq> {d} \<times> B"
  shows "acyclic (r \<union> s)"
proof (rule acyclicI, intro allI notI)
  have *: "(x, y) \<in> (r \<union> s)\<^sup>+ \<Longrightarrow> y \<in> B \<and> (x \<in> B \<longrightarrow> (x, y) \<in> r\<^sup>+)" for x y
  proof (induction rule: trancl_induct)
    case (base y)
    then show ?case using r s d by auto
  next
    case (step y z)
    then show ?case using r s d by (auto intro: trancl_into_trancl)
  qed
  fix x
  assume "(x, x) \<in> (r \<union> s)\<^sup>+"
  then have "(x, x) \<in> r\<^sup>+" using * by blast
  with \<open>acyclic r\<close> show False by (auto simp: acyclic_def)
qed

definition black :: "(string \<Rightarrow> mark) \<Rightarrow> string set" where
  "black st = {x. st x = Visited}"

definition black_ok :: "task list \<Rightarrow> (string \<Rightarrow> mark) \<Rightarrow> bool" where
  "black_ok ts st \<longleftrightarrow> (\<forall>x \<in> black st. set (depsOf ts x) \<subseteq> black st)
     \<and> acyclic {(a, b) \<in> depRel ts. a \<in> black st}"

lemma black_ok_finish:
  assumes ok: "black_ok ts st" and d: "st d \<noteq> Visited" and sub: "set (depsOf ts d) \<subseteq> black st"
  shows "black_ok ts (st(d := Visited))"
proof -
  let ?r = "{(a, b) \<in> depRel ts. a \<in> black st}" and ?s = "{d} \<times> set (depsOf ts d)"
  have b: "black (st(d := Visited)) = insert d (black st)" by (auto simp: black_def)
  have "acyclic (?r \<union> ?s)"
  proof (rule acyclic_extend [where B = "black st"])
    show "acyclic ?r" using ok by (simp add: black_ok_def)
    show "?r \<subseteq> black st \<times> black st" using ok by (auto simp: black_ok_def depRel_def)
    show "d \<notin> black st" using d by (simp add: black_def)
    show "?s \<subseteq> {d} \<times> black st" using sub by auto
  qed
  moreover have "{(a, c) \<in> depRel ts. a \<in> insert d (black st)} = ?r \<union> ?s"
    by (auto simp: depRel_def)
  ultimately show ?thesis using ok sub by (auto simp: black_ok_def b)
qed

lemma visits_sound:
  "visits ts st ds = Inr st' \<Longrightarrow> black_ok ts st \<Longrightarrow>
     black_ok ts st' \<and> set ds \<subseteq> black st' \<and> black st \<subseteq> black st'"
proof (induction ts st ds arbitrary: st' rule: visits.induct)
  case (1 ts st)
  then show ?case by auto
next
  case (2 ts st d ds)
  show ?case
  proof (cases "st d")
    case Visited
    then show ?thesis using 2 by (auto simp: black_def)
  next
    case Visiting
    then show ?thesis using "2.prems" by simp
  next
    case Unvisited
    then obtain s1 where s1: "visits ts (st(d := Visiting)) (depsOf ts d) = Inr s1"
      and rest: "visits ts (s1(d := Visited)) ds = Inr st'"
      using "2.prems" by (auto split: sum.splits)
    have same: "black (st(d := Visiting)) = black st" using Unvisited by (auto simp: black_def)
    have "black_ok ts (st(d := Visiting))" using "2.prems"(2) by (simp add: black_ok_def same)
    from "2.IH"(1) [OF Unvisited s1 this]
    have a: "black_ok ts s1" "set (depsOf ts d) \<subseteq> black s1" "black st \<subseteq> black s1"
      unfolding same by simp_all
    have "s1 d = Visiting" using visits_visiting [OF s1, of d] by simp
    then have "black_ok ts (s1(d := Visited))" using black_ok_finish a by simp
    from "2.IH"(2) [OF Unvisited s1 rest this]
    have "black_ok ts st'" "set ds \<subseteq> black st'" "black (s1(d := Visited)) \<subseteq> black st'"
      by blast+
    moreover have "insert d (black s1) = black (s1(d := Visited))" by (auto simp: black_def)
    ultimately show ?thesis using a(3) by auto
  qed
qed

lemma visits_complete:
  "visits ts st ds = Inl e \<Longrightarrow> (\<And>g x. st g = Visiting \<Longrightarrow> x \<in> set ds \<Longrightarrow> (g, x) \<in> (depRel ts)\<^sup>+) \<Longrightarrow>
     e = ErrInvalid \<and> (\<exists>x. (x, x) \<in> (depRel ts)\<^sup>+)"
proof (induction ts st ds arbitrary: e rule: visits.induct)
  case (1 ts st)
  then show ?case by simp
next
  case (2 ts st d ds)
  show ?case
  proof (cases "st d")
    case Visited
    then have "visits ts st ds = Inl e" using "2.prems"(1) by simp
    moreover have "(g, x) \<in> (depRel ts)\<^sup>+" if "st g = Visiting" "x \<in> set ds" for g x
      using "2.prems"(2) that by simp
    ultimately show ?thesis using "2.IH"(3) [OF Visited] by blast
  next
    case Visiting
    then show ?thesis using "2.prems"(2) [of d d] "2.prems"(1) by auto
  next
    case Unvisited
    show ?thesis
    proof (cases "visits ts (st(d := Visiting)) (depsOf ts d)")
      case (Inl e')
      have "(g, x) \<in> (depRel ts)\<^sup>+" if "(st(d := Visiting)) g = Visiting" "x \<in> set (depsOf ts d)" for g x
      proof -
        have dx: "(d, x) \<in> depRel ts" using that by (simp add: depRel_def)
        show ?thesis
        proof (cases "g = d")
          case False
          then have "(g, d) \<in> (depRel ts)\<^sup>+" using that "2.prems"(2) [of g d] by simp
          from this dx show ?thesis by (rule trancl_into_trancl)
        qed (use dx in auto)
      qed
      from "2.IH"(1) [OF Unvisited Inl this] show ?thesis
        using "2.prems"(1) Unvisited Inl by simp
    next
      case (Inr s1)
      have "visits ts (s1(d := Visited)) ds = Inl e" using "2.prems"(1) Unvisited Inr by simp
      moreover have "(g, x) \<in> (depRel ts)\<^sup>+" if "(s1(d := Visited)) g = Visiting" "x \<in> set ds" for g x
        using that visits_visiting [OF Inr, of g] "2.prems"(2) [of g x] by (auto split: if_splits)
      ultimately show ?thesis using "2.IH"(2) [OF Unvisited Inr] by blast
    qed
  qed
qed

lemma depRel_nodes: "(a, b) \<in> depRel ts \<Longrightarrow> a \<in> set (map tID ts)"
  using depsOf_missing by (fastforce simp: depRel_def)

lemma validateDependencyGraph_iff [chk]:
  "validateDependencyGraph ts = None \<longleftrightarrow> acyclic (depRel ts)"
proof
  assume "validateDependencyGraph ts = None"
  then obtain st where r: "visits ts (\<lambda>_. Unvisited) (map tID ts) = Inr st"
    by (auto simp: validateDependencyGraph_def err_of_None)
  have "black_ok ts (\<lambda>_. Unvisited)" by (simp add: black_ok_def black_def acyclic_def)
  from visits_sound [OF r this] have s: "black_ok ts st" "set (map tID ts) \<subseteq> black st" by auto
  have "{(a, b) \<in> depRel ts. a \<in> black st} = depRel ts"
    using s(2) depRel_nodes by auto
  then show "acyclic (depRel ts)" using s(1) by (simp add: black_ok_def)
next
  assume ac: "acyclic (depRel ts)"
  show "validateDependencyGraph ts = None"
  proof (cases "visits ts (\<lambda>_. Unvisited) (map tID ts)")
    case (Inl e)
    from visits_complete [OF Inl] ac show ?thesis by (auto simp: acyclic_def)
  qed (simp add: validateDependencyGraph_def err_of_def)
qed

lemma taskOf_Some: "taskOf ts d = Some t \<Longrightarrow> t \<in> set ts \<and> tID t = d"
  unfolding taskOf_def by (auto simp: find_Some_iff)

lemma taskOf_None [simp]: "taskOf ts d = None \<longleftrightarrow> d \<notin> set (map tID ts)"
  unfolding taskOf_def by (auto simp: find_None_iff)

lemma taskOf_append:
  "taskOf (ts @ us) d = (case taskOf ts d of None \<Rightarrow> taskOf us d | Some t \<Rightarrow> Some t)"
  by (induction ts) (auto simp: taskOf_def)

lemma depsOf_append_new:
  assumes "tID t \<notin> set (map tID ts)"
  shows "depsOf (ts @ [t]) d = (if d = tID t then tDeps t else depsOf ts d)"
proof (cases "taskOf ts d")
  case None
  have one: "taskOf [t] d = (if d = tID t then Some t else None)" by (simp add: taskOf_def)
  from None show ?thesis by (simp add: depsOf_def taskOf_append one del: taskOf_None)
next
  case (Some u)
  then have "d \<in> set (map tID ts)" by (auto dest: taskOf_Some)
  with assms have "d \<noteq> tID t" by metis
  with Some show ?thesis by (simp add: depsOf_def taskOf_append)
qed

lemma depsOf_mem: "b \<in> set (depsOf ts a) \<Longrightarrow> \<exists>u \<in> set ts. tID u = a \<and> b \<in> set (tDeps u)"
  using taskOf_Some [of ts a] by (cases "taskOf ts a") (auto simp: depsOf_def simp del: taskOf_None)

text \<open>A new task whose dependencies are all older tasks closes no cycle.\<close>

lemma acyclic_new_task:
  assumes ac: "acyclic (depRel ts)" and new: "tID t \<notin> set (map tID ts)"
    and deps: "set (tDeps t) \<subseteq> set (map tID ts)"
    and old: "\<And>u. u \<in> set ts \<Longrightarrow> set (tDeps u) \<subseteq> set (map tID ts)"
  shows "acyclic (depRel (ts @ [t]))"
proof -
  have nodes: "depRel ts \<subseteq> set (map tID ts) \<times> set (map tID ts)"
    using old depsOf_mem unfolding depRel_def by fastforce
  have "depRel (ts @ [t]) = depRel ts \<union> {tID t} \<times> set (tDeps t)"
    using new depsOf_missing [OF new]
    by (auto simp: depRel_def depsOf_append_new [OF new] split: if_splits)
  then show ?thesis
    using acyclic_extend [OF ac nodes new, of "{tID t} \<times> set (tDeps t)"] deps by auto
qed

text \<open>Updating tasks in place, with the same IDs and dependencies, keeps the graph.\<close>

lemma depRel_map:
  assumes "\<And>t. t \<in> set ts \<Longrightarrow> tID (f t) = tID t \<and> tDeps (f t) = tDeps t"
  shows "depRel (map f ts) = depRel ts"
proof -
  have "depsOf (map f ts) d = depsOf ts d" for d
    using assms by (induction ts) (auto simp: depsOf_def taskOf_def)
  then show ?thesis by (simp add: depRel_def)
qed

lemma depRel_update:
  assumes "i < length ts" "tID t = tID (ts ! i)" "tDeps t = tDeps (ts ! i)"
  shows "depRel (ts[i := t]) = depRel ts"
proof -
  have "depsOf (ts[i := t]) d = depsOf ts d" for d
    using assms by (induction ts arbitrary: i)
      (auto simp: depsOf_def taskOf_def nth_Cons split: nat.splits)
  then show ?thesis by (simp add: depRel_def)
qed

end
