(* ===== verification/TeamValidate.thy ===== *)
theory TeamValidate
  imports TeamGraph
begin

section \<open>Team: lookups, authority and validation of a snapshot\<close>

text \<open>
  \<^verbatim>\<open>agent/team/authority.go\<close> and the snapshot half of \<^verbatim>\<open>agent/team/validate.go\<close>: the checks of
  single values, of a member, an attempt, a task and of the whole \<open>Team\<close>. The loops that fill maps
  while they check keep their accumulators as arguments.
\<close>

subsection \<open>Values\<close>

definition validateSafeID :: "string \<Rightarrow> team_error option" where
  "validateSafeID v = fail_if (\<not> safeID v) ErrInvalid"

definition validateText :: "string \<Rightarrow> int \<Rightarrow> bool \<Rightarrow> team_error option" where
  "validateText v maxBytes required = first_err
     [fail_if (required \<and> blank v) ErrInvalid, fail_if (len v > maxBytes) ErrTooLarge]"

definition validateJSON :: "string option \<Rightarrow> int \<Rightarrow> team_error option" where
  "validateJSON v maxBytes = (case v of None \<Rightarrow> None
     | Some s \<Rightarrow> first_err
         [fail_if (len s > maxBytes) ErrTooLarge, fail_if (\<not> json_valid s) ErrInvalid])"

definition validateReason :: "string \<Rightarrow> bool \<Rightarrow> team_error option" where
  "validateReason r required = validateText r 4096 required"

definition validateActor :: "actor \<Rightarrow> team_error option" where
  "validateActor a = (case acKind a of
       ActorKindCoordinator \<Rightarrow> validateText (acID a) 128 True
     | ActorKindMember \<Rightarrow> validateSafeID (acID a)
     | ActorKindOther _ \<Rightarrow> Some ErrInvalid)"

definition validateCommand :: "command_metadata \<Rightarrow> bool \<Rightarrow> team_error option" where
  "validateCommand c create = first_err
     [validateSafeID (cmdID c), validateActor (cmdActor c),
      fail_if (create \<and> cmdExpected c \<noteq> 0) ErrInvalid,
      fail_if (\<not> create \<and> cmdExpected c = 0) ErrInvalid]"

definition validateMemberSpec :: "member_spec \<Rightarrow> team_error option" where
  "validateMemberSpec s = first_err
     [validateSafeID (msID s), validateText (msName s) 128 True,
      validateText (msRole s) 4096 True, validateText (msCapability s) 512 False]"

definition validateArtifact :: "artifact \<Rightarrow> team_error option" where
  "validateArtifact a = first_err
     [validateText (arKind a) 128 True, validateText (arReference a) 2048 True,
      validateText (arDigest a) 256 False, validateText (arMediaType a) 256 False]"

definition validateArtifacts :: "artifact list \<Rightarrow> int \<Rightarrow> team_error option" where
  "validateArtifacts as maximum = first_err
     (fail_if (len as > maximum) ErrTooLarge # map validateArtifact as)"

definition validStatus :: "team_status \<Rightarrow> bool" where
  "validStatus s = (case s of StatusOther _ \<Rightarrow> False | _ \<Rightarrow> True)"

definition validCause :: "cause \<Rightarrow> bool" where
  "validCause c = (case c of CauseOther _ \<Rightarrow> False | _ \<Rightarrow> True)"

subsection \<open>Lookups and authority\<close>

definition findMember :: "team \<Rightarrow> string \<Rightarrow> (member \<times> nat) option" where
  "findMember t k = find_idx (\<lambda>m. mID m = k) (teMembers t)"

definition findTask :: "team \<Rightarrow> string \<Rightarrow> (task \<times> nat) option" where
  "findTask t k = find_idx (\<lambda>x. tID x = k) (teTasks t)"

definition findAttempt :: "task \<Rightarrow> string \<Rightarrow> attempt option" where
  "findAttempt x k = find (\<lambda>a. atID a = k) (tAttempts x)"

definition memberOrZero :: "team \<Rightarrow> string \<Rightarrow> member" where
  "memberOrZero t k = (case findMember t k of None \<Rightarrow> zero_member | Some (m, _) \<Rightarrow> m)"

definition taskOrZero :: "team \<Rightarrow> string \<Rightarrow> task" where
  "taskOrZero t k = (case findTask t k of None \<Rightarrow> zero_task | Some (x, _) \<Rightarrow> x)"

definition lastAttempt :: "task \<Rightarrow> attempt option" where
  "lastAttempt x = (case tAttempts x of [] \<Rightarrow> None | _ \<Rightarrow> Some (last (tAttempts x)))"

definition requireActive :: "team \<Rightarrow> string \<Rightarrow> team_error option" where
  "requireActive t op =
     fail_if (teStatus t \<noteq> StatusActive) (StateError op (teStatus t) None ErrTerminal)"

definition requireCoordinator :: "actor \<Rightarrow> team_error option" where
  "requireCoordinator a = fail_if (acKind a \<noteq> ActorKindCoordinator) ErrUnauthorized"

definition activeActorMember :: "team \<Rightarrow> actor \<Rightarrow> team_error + member" where
  "activeActorMember t a =
     (if acKind a \<noteq> ActorKindMember then Inl ErrUnauthorized
      else (case findMember t (acID a) of
          None \<Rightarrow> Inl ErrUnauthorized
        | Some (m, _) \<Rightarrow>
            if mStatus m \<noteq> MemberStatusActive then Inl ErrUnauthorized else Inr m))"

definition requireLeadOrCoordinator :: "team \<Rightarrow> actor \<Rightarrow> team_error option" where
  "requireLeadOrCoordinator t a =
     (if acKind a = ActorKindCoordinator then None
      else (case activeActorMember t a of
          Inl e \<Rightarrow> Some e
        | Inr m \<Rightarrow> fail_if (mID m \<noteq> teLead t) ErrUnauthorized))"

definition sameConversation :: "message \<Rightarrow> string \<Rightarrow> string \<Rightarrow> bool" where
  "sameConversation g s r \<longleftrightarrow>
     gSender g = s \<and> gRecipient g = r \<or> gSender g = r \<and> gRecipient g = s"

subsection \<open>Members\<close>

definition memberSpecOf :: "member \<Rightarrow> member_spec" where
  "memberSpecOf m = \<lparr>msID = mID m, msName = mName m, msRole = mRole m,
     msCapability = mCapability m\<rparr>"

definition validateMemberStatus :: "member \<Rightarrow> team_error option" where
  "validateMemberStatus m = (case mStatus m of
       MemberStatusActive \<Rightarrow> fail_if (\<not> isZero (mDisabledAt m)) ErrInvalid
     | MemberStatusDisabled \<Rightarrow>
         fail_if (isZero (mDisabledAt m) \<or> before (mDisabledAt m) (mRegisteredAt m)) ErrInvalid
     | MemberStatusOther _ \<Rightarrow> Some ErrInvalid)"

fun membersLoop ::
    "team_env \<Rightarrow> (string \<rightharpoonup> member) \<Rightarrow> string list \<Rightarrow> member list \<Rightarrow> team_error + (string \<rightharpoonup> member)" where
  "membersLoop E mm names [] = Inr mm"
| "membersLoop E mm names (m # ms) =
     guardE (first_err
       [validateMemberSpec (memberSpecOf m),
        fail_if (mm (mID m) \<noteq> None) ErrInvalid,
        fail_if (list_ex (\<lambda>n. equalFold E n (mName m)) names) ErrInvalid,
        fail_if (isZero (mRegisteredAt m)) ErrInvalid,
        validateMemberStatus m])
       (membersLoop E (mm(mID m \<mapsto> m)) (names @ [mName m]) ms)"

definition validateMembers :: "team_env \<Rightarrow> team \<Rightarrow> team_error + (string \<rightharpoonup> member)" where
  "validateMembers E t =
     guardE (fail_if (teMembers t = [] \<or> len (teMembers t) > MaxMembers (teLimits t)) ErrInvalid)
       (bindE (membersLoop E Map.empty [] (teMembers t))
          (\<lambda>mm. (case mm (teLead t) of
              None \<Rightarrow> Inl ErrInvalid
            | Some lead \<Rightarrow>
                if mStatus lead \<noteq> MemberStatusActive then Inl ErrInvalid else Inr mm)))"

subsection \<open>Attempts and tasks\<close>

definition validateAttempt :: "team \<Rightarrow> attempt \<Rightarrow> int \<Rightarrow> (string \<rightharpoonup> member) \<Rightarrow> team_error option" where
  "validateAttempt t a number mm = first_err
     [validateSafeID (atID a), validateSafeID (atContinuation a),
      fail_if (atNumber a \<noteq> number) ErrInvalid,
      fail_if (mm (atMember a) = None) ErrInvalid,
      fail_if (isZero (atStartedAt a)) ErrInvalid,
      validateJSON (atResult a) (MaxJSONBytes (teLimits t)),
      validateArtifacts (atArtifacts a) (MaxArtifactsPerResult (teLimits t)),
      validateReason (atReason a)
        (atStatus a = AttemptStatusFailed \<or> atStatus a = AttemptStatusCancelled),
      (case atStatus a of
         AttemptStatusRunning \<Rightarrow>
           fail_if (\<not> isZero (atFinishedAt a) \<or> atResult a \<noteq> None \<or> atArtifacts a \<noteq> []) ErrInvalid
       | AttemptStatusOther _ \<Rightarrow> Some ErrInvalid
       | _ \<Rightarrow> fail_if (isZero (atFinishedAt a) \<or> before (atFinishedAt a) (atStartedAt a)) ErrInvalid)]"

definition allDependenciesCompleted :: "task \<Rightarrow> (string \<rightharpoonup> task) \<Rightarrow> bool" where
  "allDependenciesCompleted x tt \<longleftrightarrow>
     list_all (\<lambda>d. tStatus (case tt d of None \<Rightarrow> zero_task | Some y \<Rightarrow> y) = TaskStatusCompleted)
       (tDeps x)"

definition lastIs :: "task \<Rightarrow> attempt_status \<Rightarrow> bool" where
  "lastIs x s = (case lastAttempt x of None \<Rightarrow> False | Some a \<Rightarrow> atStatus a = s)"

definition validateTaskState :: "task \<Rightarrow> (string \<rightharpoonup> task) \<Rightarrow> team_error option" where
  "validateTaskState x tt =
     (let complete = allDependenciesCompleted x tt; claimed = tClaimed x \<noteq> []
      in case tStatus x of
         TaskStatusPending \<Rightarrow> fail_if (claimed \<or> complete) ErrInvalid
       | TaskStatusReady \<Rightarrow> fail_if (claimed \<or> \<not> complete) ErrInvalid
       | TaskStatusClaimed \<Rightarrow>
           fail_if (\<not> claimed \<or> \<not> complete \<or> lastIs x AttemptStatusRunning) ErrInvalid
       | TaskStatusRunning \<Rightarrow>
           fail_if (\<not> claimed \<or>
             (case lastAttempt x of None \<Rightarrow> True
              | Some a \<Rightarrow> atStatus a \<noteq> AttemptStatusRunning \<or> atMember a \<noteq> tClaimed x)) ErrInvalid
       | TaskStatusCompleted \<Rightarrow>
           fail_if (claimed \<or> \<not> lastIs x AttemptStatusCompleted) ErrInvalid
       | TaskStatusFailed \<Rightarrow> fail_if (claimed \<or> \<not> lastIs x AttemptStatusFailed) ErrInvalid
       | TaskStatusCancelled \<Rightarrow> fail_if (claimed \<or> lastIs x AttemptStatusRunning) ErrInvalid
       | TaskStatusOther _ \<Rightarrow> Some ErrInvalid)"

fun dependenciesLoop ::
    "string \<Rightarrow> (string \<rightharpoonup> task) \<Rightarrow> string list \<Rightarrow> string list \<Rightarrow> team_error option" where
  "dependenciesLoop self tt seen [] = None"
| "dependenciesLoop self tt seen (d # ds) = first_err
     [fail_if (d = self \<or> d \<in> set seen) ErrInvalid,
      fail_if (tt d = None) ErrInvalid,
      dependenciesLoop self tt (seen @ [d]) ds]"

text \<open>\<open>used\<close> holds the attempt IDs and the continuation IDs of all attempts checked before.\<close>

fun attemptsLoop ::
    "team \<Rightarrow> (string \<rightharpoonup> member) \<Rightarrow> int \<Rightarrow> string list \<times> string list \<Rightarrow> attempt list
       \<Rightarrow> team_error + (string list \<times> string list)" where
  "attemptsLoop t mm i used [] = Inr used"
| "attemptsLoop t mm i used (a # as) =
     guardE (first_err
       [validateAttempt t a (i + 1) mm,
        fail_if (atID a \<in> set (fst used) \<or> atContinuation a \<in> set (snd used)) ErrInvalid])
       (attemptsLoop t mm (i + 1) (fst used @ [atID a], snd used @ [atContinuation a]) as)"

definition validateTask ::
    "team \<Rightarrow> task \<Rightarrow> (string \<rightharpoonup> task) \<Rightarrow> (string \<rightharpoonup> member) \<Rightarrow> string list \<times> string list
       \<Rightarrow> team_error + (string list \<times> string list)" where
  "validateTask t x tt mm used =
     guardE (first_err
       [validateSafeID (tID x), validateText (tTitle x) 1024 True,
        validateText (tDescription x) 32768 False,
        validateJSON (tPayload x) (MaxJSONBytes (teLimits t)),
        fail_if (len (tDeps x) > MaxDependenciesPerTask (teLimits t)) ErrTooLarge,
        dependenciesLoop (tID x) tt [] (tDeps x),
        fail_if (tAssigned x \<noteq> [] \<and> mm (tAssigned x) = None) ErrInvalid,
        fail_if (tClaimed x \<noteq> [] \<and>
          (case mm (tClaimed x) of None \<Rightarrow> True | Some m \<Rightarrow> mStatus m \<noteq> MemberStatusActive)) ErrInvalid,
        fail_if (tAttemptLimit x < 1 \<or> tAttemptLimit x > MaxAttemptsPerTask (teLimits t) \<or>
          len (tAttempts x) > tAttemptLimit x) ErrInvalid,
        fail_if (isZero (tCreatedAt x) \<or> isZero (tUpdatedAt x) \<or>
          before (tUpdatedAt x) (tCreatedAt x)) ErrInvalid,
        validateReason (tReason x) False])
       (bindE (attemptsLoop t mm 0 used (tAttempts x))
         (\<lambda>used'. guardE (validateTaskState x tt) (Inr used')))"

definition isActiveTask :: "task \<Rightarrow> bool" where
  "isActiveTask x \<longleftrightarrow> tStatus x = TaskStatusClaimed \<or> tStatus x = TaskStatusRunning"

fun tasksMapLoop :: "(string \<rightharpoonup> task) \<Rightarrow> task list \<Rightarrow> team_error + (string \<rightharpoonup> task)" where
  "tasksMapLoop tt [] = Inr tt"
| "tasksMapLoop tt (x # xs) =
     guardE (fail_if (tt (tID x) \<noteq> None) ErrInvalid) (tasksMapLoop (tt(tID x \<mapsto> x)) xs)"

fun tasksLoop ::
    "team \<Rightarrow> (string \<rightharpoonup> task) \<Rightarrow> (string \<rightharpoonup> member) \<Rightarrow> string list \<times> string list \<Rightarrow> (string \<Rightarrow> nat)
       \<Rightarrow> int \<Rightarrow> task list \<Rightarrow> team_error + ((string \<Rightarrow> nat) \<times> int)" where
  "tasksLoop t tt mm used act n [] = Inr (act, n)"
| "tasksLoop t tt mm used act n (x # xs) =
     bindE (validateTask t x tt mm used)
       (\<lambda>used'. if isActiveTask x
          then tasksLoop t tt mm used' (act(tClaimed x := act (tClaimed x) + 1)) (n + 1) xs
          else tasksLoop t tt mm used' act n xs)"

text \<open>
  The keys of \<open>activeByMember\<close> are the claimants of the active tasks, so the loop over that map
  is a loop over those tasks.
\<close>

definition validateTasks ::
    "team \<Rightarrow> (string \<rightharpoonup> member) \<Rightarrow> team_error + (string \<rightharpoonup> task)" where
  "validateTasks t mm =
     guardE (fail_if (len (teTasks t) > MaxTasks (teLimits t)) ErrTooLarge)
      (bindE (tasksMapLoop Map.empty (teTasks t))
        (\<lambda>tt. bindE (tasksLoop t tt mm ([], []) (\<lambda>_. 0) 0 (teTasks t))
          (\<lambda>(act, n). guardE (first_err
             [fail_if (list_ex (\<lambda>x. isActiveTask x \<and> act (tClaimed x) > 1) (teTasks t)) ErrInvalid,
              fail_if (n > MaxActiveTasks (teLimits t)) ErrInvalid,
              validateDependencyGraph (teTasks t)])
            (Inr tt))))"

subsection \<open>The whole snapshot\<close>

definition validateMailboxState :: "team \<Rightarrow> team_error option" where
  "validateMailboxState t = first_err
     (fail_if (teNextSeq t < 1 \<or> teNextSeq t > word_of_int (MaxMessages (teLimits t)) + 1) ErrInvalid
      # map (\<lambda>m. fail_if (mAcknowledged m > mDelivered m \<or> mDelivered m \<ge> teNextSeq t) ErrInvalid)
          (teMembers t))"

definition validateTeamLifecycle :: "team \<Rightarrow> team_error option" where
  "validateTeamLifecycle t =
     (if teStatus t = StatusActive then None
      else first_err (map (\<lambda>x. case tStatus x of
             TaskStatusCompleted \<Rightarrow> None
           | TaskStatusCancelled \<Rightarrow> None
           | TaskStatusFailed \<Rightarrow> fail_if (teStatus t = StatusCompleted) ErrInvalid
           | _ \<Rightarrow> Some ErrInvalid) (teTasks t)))"

definition validateTeam :: "team_env \<Rightarrow> team \<Rightarrow> team_error option" where
  "validateTeam E t = first_err
     [fail_if (teSchema t \<noteq> schemaVersion) ErrInvalid,
      validateSafeID (teID t),
      fail_if (teRevision t = 0 \<or> \<not> validStatus (teStatus t)) ErrInvalid,
      validateText (teObjective t) 16384 True,
      (case resolveLimits (teLimits t) of
         Inl e \<Rightarrow> Some e
       | Inr limits \<Rightarrow> first_err
          [fail_if (limits \<noteq> teLimits t) ErrInvalid,
           fail_if (isZero (teCreatedAt t) \<or> isZero (teUpdatedAt t) \<or>
             before (teUpdatedAt t) (teCreatedAt t)) ErrInvalid,
           validateReason (teReason t) (teStatus t = StatusFailed \<or> teStatus t = StatusCancelled),
           validateJSON (teOutput t) (MaxJSONBytes limits),
           validateArtifacts (teArtifacts t) (MaxArtifactsPerResult limits),
           fail_if (teStatus t = StatusActive \<and> (teOutput t \<noteq> None \<or> teArtifacts t \<noteq> [])) ErrInvalid,
           (case validateMembers E t of
              Inl e \<Rightarrow> Some e
            | Inr mm \<Rightarrow> first_err
               [err_of (validateTasks t mm), validateMailboxState t, validateTeamLifecycle t])])]"

end
