(* ===== verification/TeamMember.thy ===== *)
theory TeamMember
  imports TeamValidate
begin

section \<open>Team: member operations\<close>

text \<open>
  The mutations of \<^verbatim>\<open>agent/team/member.go\<close>: what each command does to the cloned snapshot, and the
  checks each method makes before it applies the command. A mutation gets the command's actor,
  the snapshot and the time, and yields the new snapshot and the transition's fields.
\<close>

record transition_fields =
  tfCause :: cause
  tfTask :: string
  tfMember :: string
  tfAttempt :: string
  tfMessage :: string
  tfReason :: string
  tfDelta :: "message option"

definition causeFields :: "cause \<Rightarrow> transition_fields" where
  "causeFields c = \<lparr>tfCause = c, tfTask = [], tfMember = [], tfAttempt = [], tfMessage = [],
     tfReason = [], tfDelta = None\<rparr>"

type_synonym mutation = "team \<Rightarrow> gtime \<Rightarrow> team_error + (team \<times> transition_fields)"

definition setMember :: "team \<Rightarrow> nat \<Rightarrow> member \<Rightarrow> team" where
  "setMember t i m = t\<lparr>teMembers := (teMembers t)[i := m]\<rparr>"

definition setTask :: "team \<Rightarrow> nat \<Rightarrow> task \<Rightarrow> team" where
  "setTask t i x = t\<lparr>teTasks := (teTasks t)[i := x]\<rparr>"

definition newMember :: "member_spec \<Rightarrow> gtime \<Rightarrow> member" where
  "newMember s now = \<lparr>mID = msID s, mName = msName s, mRole = msRole s,
     mCapability = msCapability s, mStatus = MemberStatusActive, mDelivered = 0,
     mAcknowledged = 0, mRegisteredAt = now, mDisabledAt = zero_time\<rparr>"

definition registerMember_check :: "member_spec \<Rightarrow> team_error option" where
  "registerMember_check spec = validateMemberSpec spec"

definition registerMember :: "team_env \<Rightarrow> actor \<Rightarrow> member_spec \<Rightarrow> mutation" where
  "registerMember E a spec t now =
     guardE (first_err
       ([requireActive t ''register member'', requireCoordinator a,
         fail_if (len (teMembers t) \<ge> MaxMembers (teLimits t)) ErrTooLarge]
        @ map (\<lambda>m. first_err
             [fail_if (mID m = msID spec) ErrExists,
              fail_if (equalFold E (mName m) (msName spec)) ErrExists]) (teMembers t)))
       (Inr (t\<lparr>teMembers := teMembers t @ [newMember spec now]\<rparr>,
             (causeFields CauseMemberRegistered)\<lparr>tfMember := msID spec\<rparr>))"

definition disableMember_check :: "string \<Rightarrow> string \<Rightarrow> team_error option" where
  "disableMember_check k reason = first_err [validateSafeID k, validateReason reason True]"

definition disableMember :: "actor \<Rightarrow> string \<Rightarrow> string \<Rightarrow> mutation" where
  "disableMember a k reason t now =
     guardE (first_err
       [requireActive t ''disable member'', requireCoordinator a,
        fail_if (k = teLead t) ErrUnauthorized])
       (case findMember t k of
          None \<Rightarrow> Inl ErrNotFound
        | Some (m, i) \<Rightarrow>
            guardE (first_err
              (fail_if (mStatus m \<noteq> MemberStatusActive)
                 (StateError ''disable member'' (teStatus t) None ErrInvalidState)
               # map (\<lambda>x. fail_if (tClaimed x = k \<and> isActiveTask x) ErrMemberBusy) (teTasks t)))
              (Inr (setMember t i (m\<lparr>mStatus := MemberStatusDisabled, mDisabledAt := now\<rparr>),
                    (causeFields CauseMemberDisabled)\<lparr>tfMember := k, tfReason := reason\<rparr>)))"

definition enableMember_check :: "string \<Rightarrow> team_error option" where
  "enableMember_check k = validateSafeID k"

definition enableMember :: "actor \<Rightarrow> string \<Rightarrow> mutation" where
  "enableMember a k t now =
     guardE (first_err [requireActive t ''enable member'', requireCoordinator a])
       (case findMember t k of
          None \<Rightarrow> Inl ErrNotFound
        | Some (m, i) \<Rightarrow>
            guardE (fail_if (mStatus m \<noteq> MemberStatusDisabled)
                (StateError ''enable member'' (teStatus t) None ErrInvalidState))
              (Inr (setMember t i (m\<lparr>mStatus := MemberStatusActive, mDisabledAt := zero_time\<rparr>),
                    (causeFields CauseMemberEnabled)\<lparr>tfMember := k\<rparr>)))"

end
