(* ===== verification/TeamTask.thy ===== *)
theory TeamTask
  imports TeamMember
begin

section \<open>Team: task operations\<close>

text \<open>The mutations and helpers of \<^verbatim>\<open>agent/team/task.go\<close>.\<close>

definition taskStateError :: "string \<Rightarrow> team \<Rightarrow> task \<Rightarrow> team_error" where
  "taskStateError op t x = StateError op (teStatus t) (Some (tStatus x)) ErrInvalidState"

definition requireTaskCount :: "team \<Rightarrow> team_error option" where
  "requireTaskCount t = fail_if (len (teTasks t) \<ge> MaxTasks (teLimits t)) ErrTooLarge"

definition requireTaskOperator :: "team \<Rightarrow> actor \<Rightarrow> string \<Rightarrow> team_error option" where
  "requireTaskOperator t a claimant =
     (if acKind a = ActorKindCoordinator then None
      else (case activeActorMember t a of
          Inl e \<Rightarrow> Some e
        | Inr m \<Rightarrow> fail_if (mID m \<noteq> claimant \<and> mID m \<noteq> teLead t) ErrUnauthorized))"

definition memberHasActiveTask :: "team \<Rightarrow> string \<Rightarrow> bool" where
  "memberHasActiveTask t k = list_ex (\<lambda>x. tClaimed x = k \<and> isActiveTask x) (teTasks t)"

definition activeTaskCount :: "team \<Rightarrow> int" where
  "activeTaskCount t = len (filter isActiveTask (teTasks t))"

definition dependencyStatus :: "task \<Rightarrow> team \<Rightarrow> task_status" where
  "dependencyStatus x t =
     (if list_all (\<lambda>d. tStatus (taskOrZero t d) = TaskStatusCompleted) (tDeps x)
      then TaskStatusReady else TaskStatusPending)"

subsection \<open>Create\<close>

record create_task_request =
  ctTaskID :: string
  ctTitle :: string
  ctDescription :: string
  ctPayload :: "string option"
  ctDeps :: "string list"
  ctAttemptLimit :: int

fun requestDependencies :: "string \<Rightarrow> string list \<Rightarrow> string list \<Rightarrow> team_error option" where
  "requestDependencies self prior [] = None"
| "requestDependencies self prior (d # ds) = first_err
     [validateSafeID d, fail_if (d \<in> set prior) ErrInvalid, fail_if (d = self) ErrInvalid,
      requestDependencies self (prior @ [d]) ds]"

definition createTask_check :: "create_task_request \<Rightarrow> team_error option" where
  "createTask_check r = first_err
     [validateSafeID (ctTaskID r), validateText (ctTitle r) 1024 True,
      validateText (ctDescription r) 32768 False,
      validateJSON (ctPayload r) (MaxJSONBytes hard_limits),
      fail_if (len (ctDeps r) > MaxDependenciesPerTask hard_limits) ErrTooLarge,
      fail_if (ctAttemptLimit r < 1 \<or> ctAttemptLimit r > MaxAttemptsPerTask hard_limits) ErrInvalid,
      requestDependencies (ctTaskID r) [] (ctDeps r)]"

definition newTask :: "create_task_request \<Rightarrow> task_status \<Rightarrow> gtime \<Rightarrow> task" where
  "newTask r s now = \<lparr>tID = ctTaskID r, tTitle = ctTitle r, tDescription = ctDescription r,
     tPayload = ctPayload r, tDeps = ctDeps r, tAssigned = [], tClaimed = [], tStatus = s,
     tAttemptLimit = ctAttemptLimit r, tAttempts = [], tReason = [], tCreatedAt = now,
     tUpdatedAt = now\<rparr>"

definition createTask :: "actor \<Rightarrow> create_task_request \<Rightarrow> mutation" where
  "createTask a r t now =
     guardE (first_err
       ([requireActive t ''create task'', requireLeadOrCoordinator t a, requireTaskCount t,
         fail_if (len (ctDeps r) > MaxDependenciesPerTask (teLimits t)) ErrTooLarge,
         fail_if (ctAttemptLimit r > MaxAttemptsPerTask (teLimits t)) ErrInvalid,
         validateJSON (ctPayload r) (MaxJSONBytes (teLimits t)),
         fail_if (findTask t (ctTaskID r) \<noteq> None) ErrExists]
        @ map (\<lambda>d. fail_if (findTask t d = None) ErrInvalid) (ctDeps r)))
       (let complete = list_all (\<lambda>d. tStatus (taskOrZero t d) = TaskStatusCompleted) (ctDeps r);
            status = (if complete then TaskStatusReady else TaskStatusPending)
        in Inr (t\<lparr>teTasks := teTasks t @ [newTask r status now]\<rparr>,
                (causeFields CauseTaskCreated)\<lparr>tfTask := ctTaskID r\<rparr>))"

subsection \<open>Assign and unassign\<close>

definition assignTask_check :: "string \<Rightarrow> string \<Rightarrow> team_error option" where
  "assignTask_check k mk = first_err [validateSafeID k, validateSafeID mk]"

definition assignTask :: "actor \<Rightarrow> string \<Rightarrow> string \<Rightarrow> mutation" where
  "assignTask a k mk t now =
     guardE (first_err [requireActive t ''assign task'', requireLeadOrCoordinator t a])
       (case findMember t mk of
          None \<Rightarrow> Inl ErrNotFound
        | Some (m, _) \<Rightarrow>
            guardE (fail_if (mStatus m \<noteq> MemberStatusActive) ErrUnauthorized)
              (case findTask t k of
                 None \<Rightarrow> Inl ErrNotFound
               | Some (x, i) \<Rightarrow>
                   guardE (first_err
                     [fail_if (tStatus x \<noteq> TaskStatusPending \<and> tStatus x \<noteq> TaskStatusReady)
                        (taskStateError ''assign task'' t x),
                      fail_if (tAssigned x = mk) ErrExists])
                     (Inr (setTask t i (x\<lparr>tAssigned := mk, tUpdatedAt := now\<rparr>),
                        (causeFields CauseTaskAssigned)\<lparr>tfTask := tID x, tfMember := mk\<rparr>))))"

definition unassignTask_check :: "string \<Rightarrow> team_error option" where
  "unassignTask_check k = validateSafeID k"

definition unassignTask :: "actor \<Rightarrow> string \<Rightarrow> mutation" where
  "unassignTask a k t now =
     guardE (first_err [requireActive t ''unassign task'', requireLeadOrCoordinator t a])
       (case findTask t k of
          None \<Rightarrow> Inl ErrNotFound
        | Some (x, i) \<Rightarrow>
            guardE (fail_if (tStatus x \<noteq> TaskStatusPending \<and> tStatus x \<noteq> TaskStatusReady
                \<or> tAssigned x = []) (taskStateError ''unassign task'' t x))
              (Inr (setTask t i (x\<lparr>tAssigned := [], tUpdatedAt := now\<rparr>),
                 (causeFields CauseTaskUnassigned)\<lparr>tfTask := tID x, tfMember := tAssigned x\<rparr>)))"

subsection \<open>Claim and release\<close>

definition claimTask_check :: "string \<Rightarrow> team_error option" where
  "claimTask_check k = validateSafeID k"

definition claimTask :: "actor \<Rightarrow> string \<Rightarrow> mutation" where
  "claimTask a k t now =
     guardE (requireActive t ''claim task'')
       (bindE (activeActorMember t a)
         (\<lambda>m. case findTask t k of
            None \<Rightarrow> Inl ErrNotFound
          | Some (x, i) \<Rightarrow>
              guardE (first_err
                [fail_if (tStatus x = TaskStatusPending) ErrDependencyBlocked,
                 fail_if (tStatus x \<noteq> TaskStatusReady) (taskStateError ''claim task'' t x),
                 fail_if (tAssigned x \<noteq> [] \<and> tAssigned x \<noteq> mID m) ErrUnauthorized,
                 fail_if (memberHasActiveTask t (mID m)) ErrMemberBusy,
                 fail_if (activeTaskCount t \<ge> MaxActiveTasks (teLimits t)) ErrMemberBusy])
                (Inr (setTask t i (x\<lparr>tStatus := TaskStatusClaimed, tClaimed := mID m,
                       tReason := [], tUpdatedAt := now\<rparr>),
                   (causeFields CauseTaskClaimed)\<lparr>tfTask := tID x, tfMember := mID m\<rparr>))))"

definition releaseTask_check :: "string \<Rightarrow> string \<Rightarrow> team_error option" where
  "releaseTask_check k reason = first_err [validateSafeID k, validateReason reason False]"

definition releaseTask :: "actor \<Rightarrow> string \<Rightarrow> string \<Rightarrow> mutation" where
  "releaseTask a k reason t now =
     guardE (requireActive t ''release task'')
       (case findTask t k of
          None \<Rightarrow> Inl ErrNotFound
        | Some (x, i) \<Rightarrow>
            guardE (first_err
              [fail_if (tStatus x \<noteq> TaskStatusClaimed) (taskStateError ''release task'' t x),
               requireTaskOperator t a (tClaimed x)])
              (Inr (setTask t i (x\<lparr>tStatus := TaskStatusReady, tClaimed := [], tUpdatedAt := now\<rparr>),
                 (causeFields CauseTaskReleased)\<lparr>tfTask := tID x, tfMember := tClaimed x,
                    tfReason := reason\<rparr>)))"

subsection \<open>Retry and cancel\<close>

definition retryTask_check :: "string \<Rightarrow> string \<Rightarrow> team_error option" where
  "retryTask_check k reason = first_err [validateSafeID k, validateReason reason False]"

definition retryTask :: "actor \<Rightarrow> string \<Rightarrow> string \<Rightarrow> mutation" where
  "retryTask a k reason t now =
     guardE (first_err [requireActive t ''retry task'', requireLeadOrCoordinator t a])
       (case findTask t k of
          None \<Rightarrow> Inl ErrNotFound
        | Some (x, i) \<Rightarrow>
            guardE (first_err
              [fail_if (tStatus x \<noteq> TaskStatusFailed) (taskStateError ''retry task'' t x),
               fail_if (len (tAttempts x) \<ge> tAttemptLimit x) ErrAttemptLimit])
              (Inr (setTask t i (x\<lparr>tStatus := dependencyStatus x t, tReason := [], tUpdatedAt := now\<rparr>),
                 (causeFields CauseTaskRetried)\<lparr>tfTask := tID x, tfReason := reason\<rparr>)))"

definition cancelTask_check :: "string \<Rightarrow> string \<Rightarrow> team_error option" where
  "cancelTask_check k reason = first_err [validateSafeID k, validateReason reason True]"

definition cancelAttempt :: "string \<Rightarrow> gtime \<Rightarrow> attempt \<Rightarrow> attempt" where
  "cancelAttempt reason now a =
     a\<lparr>atStatus := AttemptStatusCancelled, atReason := reason, atFinishedAt := now\<rparr>"

text \<open>Indexing the last attempt of an empty slice panics.\<close>

definition cancelLastAttempt :: "string \<Rightarrow> gtime \<Rightarrow> task \<Rightarrow> team_error + task" where
  "cancelLastAttempt reason now x =
     (if tAttempts x = [] then Inl (Panic ''index out of range'')
      else Inr (x\<lparr>tAttempts := butlast (tAttempts x) @ [cancelAttempt reason now (last (tAttempts x))]\<rparr>))"

definition cancelledTask :: "string \<Rightarrow> gtime \<Rightarrow> task \<Rightarrow> task" where
  "cancelledTask reason now x =
     x\<lparr>tStatus := TaskStatusCancelled, tClaimed := [], tReason := reason, tUpdatedAt := now\<rparr>"

definition cancelTask :: "actor \<Rightarrow> string \<Rightarrow> string \<Rightarrow> mutation" where
  "cancelTask a k reason t now =
     guardE (first_err [requireActive t ''cancel task'', requireLeadOrCoordinator t a])
       (case findTask t k of
          None \<Rightarrow> Inl ErrNotFound
        | Some (x, i) \<Rightarrow>
            guardE (fail_if (tStatus x = TaskStatusCompleted \<or> tStatus x = TaskStatusCancelled)
                (taskStateError ''cancel task'' t x))
              (bindE (if tStatus x = TaskStatusRunning
                      then bindE (cancelLastAttempt reason now x)
                             (\<lambda>x'. Inr (x', atID (last (tAttempts x))))
                      else Inr (x, []))
                (\<lambda>(x', attemptID).
                   Inr (setTask t i (cancelledTask reason now x'),
                     (causeFields CauseTaskCancelled)\<lparr>tfTask := tID x, tfMember := tClaimed x,
                        tfAttempt := attemptID, tfReason := reason\<rparr>))))"

end
