(* ===== verification/TeamAttempt.thy ===== *)
theory TeamAttempt
  imports TeamTask
begin

section \<open>Team: attempts, messages and the Team lifecycle\<close>

text \<open>
  The mutations of \<^verbatim>\<open>agent/team/attempt.go\<close>, \<^verbatim>\<open>mailbox.go\<close> and \<^verbatim>\<open>lifecycle.go\<close>. Sending a message
  reads the store inside the mutation; the two lookups are an argument here.
\<close>

subsection \<open>Starting an attempt\<close>

definition startTaskAttempt_check :: "string \<Rightarrow> string \<Rightarrow> string \<Rightarrow> team_error option" where
  "startTaskAttempt_check k ak ck = first_err [validateSafeID k, validateSafeID ak, validateSafeID ck]"

definition newAttempt :: "task \<Rightarrow> string \<Rightarrow> string \<Rightarrow> gtime \<Rightarrow> attempt" where
  "newAttempt x ak ck now = \<lparr>atID = ak, atNumber = len (tAttempts x) + 1,
     atStatus = AttemptStatusRunning, atMember = tClaimed x, atContinuation = ck,
     atResult = None, atArtifacts = [], atReason = [], atStartedAt = now,
     atFinishedAt = zero_time\<rparr>"

definition startTaskAttempt :: "actor \<Rightarrow> string \<Rightarrow> string \<Rightarrow> string \<Rightarrow> mutation" where
  "startTaskAttempt a k ak ck t now =
     guardE (first_err [requireActive t ''start task attempt'', requireCoordinator a])
       (case findTask t k of
          None \<Rightarrow> Inl ErrNotFound
        | Some (x, i) \<Rightarrow>
            guardE (first_err
              [fail_if (tStatus x \<noteq> TaskStatusClaimed) (taskStateError ''start task attempt'' t x),
               fail_if (len (tAttempts x) \<ge> tAttemptLimit x) ErrAttemptLimit,
               fail_if (list_ex (\<lambda>y. list_ex (\<lambda>b. atID b = ak \<or> atContinuation b = ck) (tAttempts y))
                  (teTasks t)) ErrExists])
              (Inr (setTask t i (x\<lparr>tStatus := TaskStatusRunning,
                      tAttempts := tAttempts x @ [newAttempt x ak ck now], tUpdatedAt := now\<rparr>),
                 (causeFields CauseTaskAttemptStarted)\<lparr>tfTask := tID x, tfMember := tClaimed x,
                    tfAttempt := ak\<rparr>)))"

subsection \<open>Finishing an attempt\<close>

record finish_request =
  frTaskID :: string
  frAttemptID :: string
  frContinuationID :: string
  frOutcome :: attempt_outcome
  frResult :: "string option"
  frArtifacts :: "artifact list"
  frReason :: string

definition finishTaskAttempt_check :: "finish_request \<Rightarrow> team_error option" where
  "finishTaskAttempt_check r = first_err
     [validateSafeID (frTaskID r), validateSafeID (frAttemptID r),
      validateSafeID (frContinuationID r),
      fail_if (frOutcome r \<noteq> AttemptOutcomeCompleted \<and> frOutcome r \<noteq> AttemptOutcomeFailed) ErrInvalid,
      validateReason (frReason r) (frOutcome r = AttemptOutcomeFailed),
      validateJSON (frResult r) (MaxJSONBytes hard_limits),
      validateArtifacts (frArtifacts r) (MaxArtifactsPerResult hard_limits)]"

text \<open>The loop of \<open>promoteReadyTasks\<close> updates the tasks in place, one index after the other.\<close>

definition promoteAt :: "gtime \<Rightarrow> team \<Rightarrow> nat \<Rightarrow> team" where
  "promoteAt now t i =
     (let x = teTasks t ! i
      in if tStatus x = TaskStatusPending \<and> dependencyStatus x t = TaskStatusReady
         then setTask t i (x\<lparr>tStatus := TaskStatusReady, tUpdatedAt := now\<rparr>) else t)"

definition promoteReadyTasks :: "team \<Rightarrow> gtime \<Rightarrow> team" where
  "promoteReadyTasks t now = foldl (promoteAt now) t [0..<length (teTasks t)]"

definition finishAuthority :: "team \<Rightarrow> actor \<Rightarrow> task \<Rightarrow> attempt \<Rightarrow> team_error option" where
  "finishAuthority t a x at =
     (if acKind a = ActorKindMember
      then (case activeActorMember t a of
              Inl _ \<Rightarrow> Some ErrUnauthorized
            | Inr m \<Rightarrow> fail_if (mID m \<noteq> atMember at \<or> mID m \<noteq> tClaimed x) ErrUnauthorized)
      else requireCoordinator a)"

definition finishedAttempt :: "finish_request \<Rightarrow> gtime \<Rightarrow> attempt \<Rightarrow> attempt" where
  "finishedAttempt r now at = at\<lparr>atResult := frResult r, atArtifacts := frArtifacts r,
     atReason := frReason r, atFinishedAt := now,
     atStatus := (if frOutcome r = AttemptOutcomeCompleted then AttemptStatusCompleted
                  else AttemptStatusFailed)\<rparr>"

definition finishedTask :: "finish_request \<Rightarrow> gtime \<Rightarrow> task \<Rightarrow> task" where
  "finishedTask r now x = x\<lparr>tClaimed := [], tReason := frReason r, tUpdatedAt := now,
     tAttempts := butlast (tAttempts x) @ [finishedAttempt r now (last (tAttempts x))],
     tStatus := (if frOutcome r = AttemptOutcomeCompleted then TaskStatusCompleted
                 else TaskStatusFailed)\<rparr>"

definition finishTaskAttempt :: "actor \<Rightarrow> finish_request \<Rightarrow> mutation" where
  "finishTaskAttempt a r t now =
     guardE (first_err
       [requireActive t ''finish task attempt'',
        validateJSON (frResult r) (MaxJSONBytes (teLimits t)),
        validateArtifacts (frArtifacts r) (MaxArtifactsPerResult (teLimits t))])
       (case findTask t (frTaskID r) of
          None \<Rightarrow> Inl ErrNotFound
        | Some (x, i) \<Rightarrow>
            if tStatus x \<noteq> TaskStatusRunning \<or> tAttempts x = [] then Inl ErrStaleAttempt
            else (let at = last (tAttempts x) in
              guardE (first_err
                [fail_if (atStatus at \<noteq> AttemptStatusRunning \<or> atID at \<noteq> frAttemptID r
                   \<or> atContinuation at \<noteq> frContinuationID r) ErrStaleAttempt,
                 finishAuthority t a x at])
                (let t' = setTask t i (finishedTask r now x);
                     f = (causeFields (if frOutcome r = AttemptOutcomeCompleted
                            then CauseTaskAttemptCompleted else CauseTaskAttemptFailed))
                          \<lparr>tfTask := tID x, tfMember := atMember at, tfAttempt := atID at,
                           tfReason := frReason r\<rparr>
                 in Inr (if frOutcome r = AttemptOutcomeCompleted then promoteReadyTasks t' now else t',
                         f))))"

subsection \<open>Dispatches\<close>

record dispatch =
  dpTeamID :: string
  dpRevision :: u64
  dpObjective :: string
  dpMemberID :: string
  dpMemberName :: string
  dpMemberRole :: string
  dpCapability :: string
  dpTaskID :: string
  dpAttemptID :: string
  dpContinuationID :: string
  dpTitle :: string
  dpDescription :: string
  dpPayload :: "string option"
  dpDeps :: "string list"

definition dispatchFor :: "team \<Rightarrow> task \<Rightarrow> attempt \<Rightarrow> dispatch" where
  "dispatchFor t x a =
     (let m = memberOrZero t (atMember a)
      in \<lparr>dpTeamID = teID t, dpRevision = teRevision t, dpObjective = teObjective t,
          dpMemberID = mID m, dpMemberName = mName m, dpMemberRole = mRole m,
          dpCapability = mCapability m, dpTaskID = tID x, dpAttemptID = atID a,
          dpContinuationID = atContinuation a, dpTitle = tTitle x,
          dpDescription = tDescription x, dpPayload = tPayload x, dpDeps = tDeps x\<rparr>)"

definition activeDispatches :: "team \<Rightarrow> dispatch list" where
  "activeDispatches t =
     map (\<lambda>x. dispatchFor t x (last (tAttempts x)))
       (filter (\<lambda>x. tStatus x = TaskStatusRunning \<and> tAttempts x \<noteq> []) (teTasks t))"

definition cancellationDispatches :: "team \<Rightarrow> dispatch list" where
  "cancellationDispatches t =
     map (\<lambda>x. dispatchFor t x (last (tAttempts x)))
       (filter (\<lambda>x. tAttempts x \<noteq> [] \<and> atStatus (last (tAttempts x)) = AttemptStatusCancelled)
          (teTasks t))"

subsection \<open>Messages\<close>

record send_request =
  srMessageID :: string
  srRecipientID :: string
  srTaskID :: string
  srReplyToID :: string
  srBody :: "string option"

definition sendMessage_check :: "send_request \<Rightarrow> team_error option" where
  "sendMessage_check r = first_err
     [validateSafeID (srMessageID r), validateSafeID (srRecipientID r),
      (if srTaskID r \<noteq> [] then validateSafeID (srTaskID r) else None),
      (if srReplyToID r \<noteq> [] then validateSafeID (srReplyToID r) else None),
      fail_if (srBody r = None) ErrInvalid,
      validateJSON (srBody r) (MaxJSONBytes hard_limits)]"

definition newMessage :: "team \<Rightarrow> member \<Rightarrow> send_request \<Rightarrow> gtime \<Rightarrow> message" where
  "newMessage t sender r now = \<lparr>gID = srMessageID r, gSequence = teNextSeq t,
     gSender = mID sender, gRecipient = srRecipientID r, gTask = srTaskID r,
     gReplyTo = srReplyToID r, gBody = srBody r, gSentAt = now\<rparr>"

text \<open>\<open>load\<close> is \<open>store.LoadMessage\<close> for this Team.\<close>

definition messageFresh :: "(string \<Rightarrow> team_error + message) \<Rightarrow> string \<Rightarrow> team_error option" where
  "messageFresh load k = (case load k of
       Inr _ \<Rightarrow> Some ErrExists
     | Inl e \<Rightarrow> fail_if (\<not> errorsIs e ErrNotFound) e)"

definition replyTarget ::
    "(string \<Rightarrow> team_error + message) \<Rightarrow> string \<Rightarrow> string \<Rightarrow> string \<Rightarrow> team_error option" where
  "replyTarget load k sender recipient =
     (if k = [] then None
      else (case load k of
          Inl e \<Rightarrow> Some (if errorsIs e ErrNotFound then ErrInvalid else e)
        | Inr parent \<Rightarrow> fail_if (\<not> sameConversation parent sender recipient) ErrInvalid))"

definition sendMessage ::
    "(string \<Rightarrow> team_error + message) \<Rightarrow> actor \<Rightarrow> send_request \<Rightarrow> mutation" where
  "sendMessage load a r t now =
     guardE (requireActive t ''send message'')
       (bindE (activeActorMember t a)
         (\<lambda>sender. guardE (first_err
            [fail_if (teNextSeq t - 1 \<ge> word_of_int (MaxMessages (teLimits t))) ErrTooLarge,
             validateJSON (srBody r) (MaxJSONBytes (teLimits t))])
            (case findMember t (srRecipientID r) of
               None \<Rightarrow> Inl ErrNotFound
             | Some (recipient, i) \<Rightarrow>
                 guardE (first_err
                   [fail_if (srTaskID r \<noteq> [] \<and> findTask t (srTaskID r) = None) ErrNotFound,
                    messageFresh load (srMessageID r),
                    replyTarget load (srReplyToID r) (mID sender) (srRecipientID r)])
                   (let g = newMessage t sender r now
                    in Inr (setMember (t\<lparr>teNextSeq := teNextSeq t + 1\<rparr>) i
                              (recipient\<lparr>mDelivered := gSequence g\<rparr>),
                            (causeFields CauseMessageSent)\<lparr>tfMember := mID sender,
                               tfMessage := srMessageID r, tfDelta := Some g\<rparr>)))))"

definition acknowledgeMessages :: "actor \<Rightarrow> u64 \<Rightarrow> mutation" where
  "acknowledgeMessages a through t now =
     guardE (requireActive t ''acknowledge messages'')
       (bindE (activeActorMember t a)
         (\<lambda>m. let i = (case findMember t (mID m) of None \<Rightarrow> 0 | Some (_, j) \<Rightarrow> j)
           in guardE (first_err
             [fail_if (through \<le> mAcknowledged m)
                (StateError ''acknowledge messages'' (teStatus t) None ErrInvalidState),
              fail_if (through > mDelivered m) ErrInvalid])
             (Inr (setMember t i (m\<lparr>mAcknowledged := through\<rparr>),
                   (causeFields CauseMessagesAcknowledged)\<lparr>tfMember := mID m\<rparr>))))"

subsection \<open>The Team lifecycle\<close>

definition completeTeam_check :: "string option \<Rightarrow> artifact list \<Rightarrow> string \<Rightarrow> team_error option" where
  "completeTeam_check out as reason = first_err
     [validateReason reason False, validateJSON out (MaxJSONBytes hard_limits),
      validateArtifacts as (MaxArtifactsPerResult hard_limits)]"

definition completeTeam :: "actor \<Rightarrow> string option \<Rightarrow> artifact list \<Rightarrow> string \<Rightarrow> mutation" where
  "completeTeam a out as reason t now =
     guardE (first_err
       ([requireActive t ''complete Team'', requireLeadOrCoordinator t a,
         validateJSON out (MaxJSONBytes (teLimits t)),
         validateArtifacts as (MaxArtifactsPerResult (teLimits t))]
        @ map (\<lambda>x. fail_if (tStatus x \<noteq> TaskStatusCompleted \<and> tStatus x \<noteq> TaskStatusCancelled)
              (taskStateError ''complete Team'' t x)) (teTasks t)))
       (Inr (t\<lparr>teStatus := StatusCompleted, teOutput := out, teArtifacts := as, teReason := reason\<rparr>,
             (causeFields CauseTeamCompleted)\<lparr>tfReason := reason\<rparr>))"

definition terminateTask :: "string \<Rightarrow> gtime \<Rightarrow> task \<Rightarrow> team_error + task" where
  "terminateTask reason now x = (case tStatus x of
       TaskStatusCompleted \<Rightarrow> Inr x
     | TaskStatusCancelled \<Rightarrow> Inr x
     | TaskStatusFailed \<Rightarrow> Inr x
     | TaskStatusRunning \<Rightarrow>
         bindE (cancelLastAttempt reason now x) (\<lambda>x'. Inr (cancelledTask reason now x'))
     | TaskStatusOther _ \<Rightarrow> Inl ErrInvalid
     | _ \<Rightarrow> Inr (cancelledTask reason now x))"

fun terminateTasks :: "string \<Rightarrow> gtime \<Rightarrow> task list \<Rightarrow> team_error + task list" where
  "terminateTasks reason now [] = Inr []"
| "terminateTasks reason now (x # xs) =
     bindE (terminateTask reason now x)
       (\<lambda>x'. bindE (terminateTasks reason now xs) (\<lambda>xs'. Inr (x' # xs')))"

definition terminalizeTeam_check :: "string \<Rightarrow> team_error option" where
  "terminalizeTeam_check reason = validateReason reason True"

definition terminalizeTeam :: "string \<Rightarrow> team_status \<Rightarrow> cause \<Rightarrow> actor \<Rightarrow> string \<Rightarrow> mutation" where
  "terminalizeTeam op status c a reason t now =
     guardE (first_err [requireActive t op, requireLeadOrCoordinator t a])
       (bindE (terminateTasks reason now (teTasks t))
         (\<lambda>xs. Inr (t\<lparr>teTasks := xs, teStatus := status, teReason := reason\<rparr>,
                    (causeFields c)\<lparr>tfReason := reason\<rparr>)))"

definition failTeam :: "actor \<Rightarrow> string \<Rightarrow> mutation" where
  "failTeam a reason = terminalizeTeam ''fail_team'' StatusFailed CauseTeamFailed a reason"

definition cancelTeam :: "actor \<Rightarrow> string \<Rightarrow> mutation" where
  "cancelTeam a reason = terminalizeTeam ''cancel_team'' StatusCancelled CauseTeamCancelled a reason"

end
