(* ===== verification/TeamInvariant.thy ===== *)
theory TeamInvariant
  imports TeamAttempt
begin

section \<open>Team: what a valid snapshot is\<close>

text \<open>
  \<open>validateTeam\<close> checks with loops that fill maps. Here the same property as a conjunction of
  facts about the member and task lists; \<open>validateTeam_iff\<close> says the two agree. A task's part
  depends on the other tasks only through the set \<open>D\<close> of their IDs and the set \<open>C\<close> of the IDs of
  completed ones, which is what makes updates of single tasks easy to check.
\<close>

abbreviation memberMap :: "member list \<Rightarrow> string \<rightharpoonup> member" where
  "memberMap \<equiv> key_map mID"

abbreviation taskMap :: "task list \<Rightarrow> string \<rightharpoonup> task" where
  "taskMap \<equiv> key_map tID"

lemma findMember_map: "map_option fst (findMember t k) = memberMap (teMembers t) k"
  by (simp add: findMember_def find_idx_key_map)

lemma findTask_map: "map_option fst (findTask t k) = taskMap (teTasks t) k"
  by (simp add: findTask_def find_idx_key_map)

subsection \<open>Members\<close>

definition member_ok :: "member \<Rightarrow> bool" where
  "member_ok m \<longleftrightarrow> validateMemberSpec (memberSpecOf m) = None \<and> \<not> isZero (mRegisteredAt m)
     \<and> validateMemberStatus m = None"

lemma membersLoop_iff:
  "membersLoop E mm names ms = Inr mm' \<longleftrightarrow>
     (\<forall>m \<in> set ms. member_ok m) \<and> distinct (map mID ms) \<and> mID ` set ms \<inter> dom mm = {} \<and>
     (\<forall>m \<in> set ms. \<forall>n \<in> set names. \<not> equalFold E n (mName m)) \<and>
     sorted_wrt (\<lambda>m n. \<not> equalFold E (mName m) (mName n)) ms \<and> mm' = mm ++ memberMap ms"
  by (induction ms arbitrary: mm names)
    (auto simp: member_ok_def list_ex_iff map_add_key_map)

definition members_ok :: "team_env \<Rightarrow> team_limits \<Rightarrow> string \<Rightarrow> member list \<Rightarrow> bool" where
  "members_ok E L lead ms \<longleftrightarrow> ms \<noteq> [] \<and> len ms \<le> MaxMembers L \<and> (\<forall>m \<in> set ms. member_ok m) \<and>
     distinct (map mID ms) \<and> sorted_wrt (\<lambda>m n. \<not> equalFold E (mName m) (mName n)) ms \<and>
     (\<exists>m \<in> set ms. mID m = lead \<and> mStatus m = MemberStatusActive)"

lemma validateMembers_iff:
  "validateMembers E t = Inr mm \<longleftrightarrow>
     members_ok E (teLimits t) (teLead t) (teMembers t) \<and> mm = memberMap (teMembers t)"
proof (cases "\<exists>mm'. membersLoop E Map.empty [] (teMembers t) = Inr mm'")
  case True
  then have loop: "membersLoop E Map.empty [] (teMembers t) = Inr (memberMap (teMembers t))"
    and d: "distinct (map mID (teMembers t))"
    by (auto simp: membersLoop_iff)
  have "(\<exists>m \<in> set (teMembers t). mID m = teLead t \<and> mStatus m = MemberStatusActive) \<longleftrightarrow>
      (\<exists>m. memberMap (teMembers t) (teLead t) = Some m \<and> mStatus m = MemberStatusActive)"
    using key_map_Some [OF d, of "teLead t"] by blast
  moreover have "\<forall>m \<in> set (teMembers t). member_ok m"
      "sorted_wrt (\<lambda>m n. \<not> equalFold E (mName m) (mName n)) (teMembers t)"
    using loop by (auto simp: membersLoop_iff)
  ultimately show ?thesis
    unfolding validateMembers_def loop bindE_simps members_ok_def using d
    by (cases "memberMap (teMembers t) (teLead t)") (auto simp del: key_map_None)
next
  case False
  then show ?thesis
    by (auto simp: validateMembers_def members_ok_def bindE_Inr membersLoop_iff)
qed

subsection \<open>Attempts\<close>

definition attempt_state_ok :: "attempt \<Rightarrow> bool" where
  "attempt_state_ok a = (case atStatus a of
       AttemptStatusRunning \<Rightarrow> isZero (atFinishedAt a) \<and> atResult a = None \<and> atArtifacts a = []
     | AttemptStatusOther _ \<Rightarrow> False
     | _ \<Rightarrow> \<not> isZero (atFinishedAt a) \<and> atStartedAt a \<le> atFinishedAt a)"

definition attempt_ok :: "team_limits \<Rightarrow> (string \<rightharpoonup> member) \<Rightarrow> int \<Rightarrow> attempt \<Rightarrow> bool" where
  "attempt_ok L M n a \<longleftrightarrow>
     safeID (atID a) \<and> safeID (atContinuation a) \<and> atNumber a = n \<and> atMember a \<in> dom M \<and>
     \<not> isZero (atStartedAt a) \<and> validateJSON (atResult a) (MaxJSONBytes L) = None \<and>
     validateArtifacts (atArtifacts a) (MaxArtifactsPerResult L) = None \<and>
     validateReason (atReason a)
       (atStatus a = AttemptStatusFailed \<or> atStatus a = AttemptStatusCancelled) = None \<and>
     attempt_state_ok a"

lemma validateAttempt_iff [chk]:
  "validateAttempt t a n mm = None \<longleftrightarrow> attempt_ok (teLimits t) mm n a"
  by (auto simp: validateAttempt_def attempt_ok_def attempt_state_ok_def validateSafeID_def dom_def
      split: attempt_status.splits)

fun attempts_ok :: "team_limits \<Rightarrow> (string \<rightharpoonup> member) \<Rightarrow> int \<Rightarrow> attempt list \<Rightarrow> bool" where
  "attempts_ok L M n [] = True"
| "attempts_ok L M n (a # as) = (attempt_ok L M (n + 1) a \<and> attempts_ok L M (n + 1) as)"

lemma attempts_ok_append [simp]:
  "attempts_ok L M n (as @ bs) \<longleftrightarrow> attempts_ok L M n as \<and> attempts_ok L M (n + len as) bs"
  by (induction as arbitrary: n) (auto simp: ac_simps)

lemma attemptsLoop_iff:
  "attemptsLoop t mm n used as = Inr used' \<longleftrightarrow>
     attempts_ok (teLimits t) mm n as \<and>
     distinct (map atID as) \<and> atID ` set as \<inter> set (fst used) = {} \<and>
     distinct (map atContinuation as) \<and> atContinuation ` set as \<inter> set (snd used) = {} \<and>
     used' = (fst used @ map atID as, snd used @ map atContinuation as)"
  by (induction as arbitrary: n used) (auto simp: validateAttempt_iff)

subsection \<open>Tasks\<close>

definition lastRunning :: "task \<Rightarrow> bool" where
  "lastRunning x \<longleftrightarrow> lastIs x AttemptStatusRunning"

definition task_state_ok :: "string set \<Rightarrow> task \<Rightarrow> bool" where
  "task_state_ok C x = (let complete = set (tDeps x) \<subseteq> C; claimed = tClaimed x \<noteq> [] in
     case tStatus x of
       TaskStatusPending \<Rightarrow> \<not> claimed \<and> \<not> complete
     | TaskStatusReady \<Rightarrow> \<not> claimed \<and> complete
     | TaskStatusClaimed \<Rightarrow> claimed \<and> complete \<and> \<not> lastIs x AttemptStatusRunning
     | TaskStatusRunning \<Rightarrow> claimed \<and> tAttempts x \<noteq> [] \<and>
         atStatus (last (tAttempts x)) = AttemptStatusRunning \<and> atMember (last (tAttempts x)) = tClaimed x
     | TaskStatusCompleted \<Rightarrow> \<not> claimed \<and> lastIs x AttemptStatusCompleted
     | TaskStatusFailed \<Rightarrow> \<not> claimed \<and> lastIs x AttemptStatusFailed
     | TaskStatusCancelled \<Rightarrow> \<not> claimed \<and> \<not> lastIs x AttemptStatusRunning
     | TaskStatusOther _ \<Rightarrow> False)"

definition completedIDs :: "task list \<Rightarrow> string set" where
  "completedIDs xs = {tID x |x. x \<in> set xs \<and> tStatus x = TaskStatusCompleted}"

lemma allDependenciesCompleted_iff:
  assumes "distinct (map tID xs)"
  shows "allDependenciesCompleted x (taskMap xs) \<longleftrightarrow> set (tDeps x) \<subseteq> completedIDs xs"
proof -
  have "tStatus (case taskMap xs d of None \<Rightarrow> zero_task | Some y \<Rightarrow> y) = TaskStatusCompleted
      \<longleftrightarrow> d \<in> completedIDs xs" for d
  proof (cases "taskMap xs d")
    case None
    then have "d \<notin> completedIDs xs" by (auto simp: completedIDs_def)
    then show ?thesis unfolding None by (simp add: zero_task_def)
  next
    case (Some y)
    have "d \<in> completedIDs xs \<longleftrightarrow> tStatus y = TaskStatusCompleted"
    proof
      assume "d \<in> completedIDs xs"
      then obtain z where "z \<in> set xs" "tID z = d" "tStatus z = TaskStatusCompleted"
        by (auto simp: completedIDs_def)
      with key_map_distinct [OF assms] Some show "tStatus y = TaskStatusCompleted" by force
    next
      assume "tStatus y = TaskStatusCompleted"
      with key_map_SomeD [OF Some] show "d \<in> completedIDs xs" by (auto simp: completedIDs_def)
    qed
    then show ?thesis unfolding Some by simp
  qed
  then show ?thesis by (auto simp: allDependenciesCompleted_def list_all_iff)
qed

lemma lastAttempt_if:
  "lastAttempt x = (if tAttempts x = [] then None else Some (last (tAttempts x)))"
  by (simp add: lastAttempt_def split: list.splits)

lemma lastIs_iff: "lastIs x s \<longleftrightarrow> tAttempts x \<noteq> [] \<and> atStatus (last (tAttempts x)) = s"
  by (simp add: lastIs_def lastAttempt_if)

lemma validateTaskState_iff:
  assumes "distinct (map tID xs)"
  shows "validateTaskState x (taskMap xs) = None \<longleftrightarrow> task_state_ok (completedIDs xs) x"
  using allDependenciesCompleted_iff [OF assms, of x]
  by (cases "tAttempts x = []"; cases "tStatus x")
    (auto simp: validateTaskState_def task_state_ok_def Let_def lastAttempt_if)

lemma dependenciesLoop_iff [chk]:
  "dependenciesLoop self tt seen ds = None \<longleftrightarrow>
     self \<notin> set ds \<and> distinct ds \<and> set ds \<inter> set seen = {} \<and> set ds \<subseteq> dom tt"
  by (induction ds arbitrary: seen) auto

definition task_base ::
    "team_limits \<Rightarrow> (string \<rightharpoonup> member) \<Rightarrow> string set \<Rightarrow> task \<Rightarrow> bool" where
  "task_base L M D x \<longleftrightarrow>
     safeID (tID x) \<and> validateText (tTitle x) 1024 True = None \<and>
     validateText (tDescription x) 32768 False = None \<and>
     validateJSON (tPayload x) (MaxJSONBytes L) = None \<and>
     len (tDeps x) \<le> MaxDependenciesPerTask L \<and>
     tID x \<notin> set (tDeps x) \<and> distinct (tDeps x) \<and> set (tDeps x) \<subseteq> D \<and>
     (tAssigned x \<noteq> [] \<longrightarrow> tAssigned x \<in> dom M) \<and>
     (tClaimed x \<noteq> [] \<longrightarrow> (\<exists>m. M (tClaimed x) = Some m \<and> mStatus m = MemberStatusActive)) \<and>
     1 \<le> tAttemptLimit x \<and> tAttemptLimit x \<le> MaxAttemptsPerTask L \<and>
     len (tAttempts x) \<le> tAttemptLimit x \<and>
     \<not> isZero (tCreatedAt x) \<and> \<not> isZero (tUpdatedAt x) \<and> tCreatedAt x \<le> tUpdatedAt x \<and>
     validateReason (tReason x) False = None \<and> attempts_ok L M 0 (tAttempts x)"

definition task_ok ::
    "team_limits \<Rightarrow> (string \<rightharpoonup> member) \<Rightarrow> string set \<Rightarrow> string set \<Rightarrow> task \<Rightarrow> bool" where
  "task_ok L M D C x \<longleftrightarrow> task_base L M D x \<and> task_state_ok C x"

definition attemptIDs :: "task \<Rightarrow> string list" where
  "attemptIDs x = map atID (tAttempts x)"

definition continuationIDs :: "task \<Rightarrow> string list" where
  "continuationIDs x = map atContinuation (tAttempts x)"

lemma validateTask_iff:
  assumes "distinct (map tID xs)"
  shows "validateTask t x (taskMap xs) mm used = Inr used' \<longleftrightarrow>
     task_ok (teLimits t) mm (tID ` set xs) (completedIDs xs) x \<and>
     distinct (attemptIDs x) \<and> set (attemptIDs x) \<inter> set (fst used) = {} \<and>
     distinct (continuationIDs x) \<and> set (continuationIDs x) \<inter> set (snd used) = {} \<and>
     used' = (fst used @ attemptIDs x, snd used @ continuationIDs x)"
proof -
  have none: "\<not> (case mm k of None \<Rightarrow> True | Some m \<Rightarrow> mStatus m \<noteq> MemberStatusActive) \<longleftrightarrow>
      (\<exists>m. mm k = Some m \<and> mStatus m = MemberStatusActive)" for k
    by (auto split: option.splits)
  show ?thesis
    by (simp add: validateTask_def bindE_Inr attemptsLoop_iff validateTaskState_iff [OF assms]
        dependenciesLoop_iff validateSafeID_def task_ok_def task_base_def attemptIDs_def continuationIDs_def)
      (auto simp: none simp del: not_None_eq)
qed

lemma tasksMapLoop_iff:
  "tasksMapLoop tt xs = Inr tt' \<longleftrightarrow>
     distinct (map tID xs) \<and> tID ` set xs \<inter> dom tt = {} \<and> tt' = tt ++ taskMap xs"
  by (induction xs arbitrary: tt) (auto simp: map_add_key_map)

definition claims :: "task list \<Rightarrow> string \<Rightarrow> nat" where
  "claims xs k = length (filter (\<lambda>x. isActiveTask x \<and> tClaimed x = k) xs)"

lemma claims_Cons [simp]:
  "claims (x # xs) k = (if isActiveTask x \<and> tClaimed x = k then 1 else 0) + claims xs k"
  "claims [] k = 0"
  by (simp_all add: claims_def)

lemma tasksLoop_iff:
  assumes "distinct (map tID ys)"
  shows "tasksLoop t (taskMap ys) mm used act n xs = Inr (act', n') \<longleftrightarrow>
     (\<forall>x \<in> set xs. task_ok (teLimits t) mm (tID ` set ys) (completedIDs ys) x) \<and>
     distinct (concat (map attemptIDs xs)) \<and>
     set (concat (map attemptIDs xs)) \<inter> set (fst used) = {} \<and>
     distinct (concat (map continuationIDs xs)) \<and>
     set (concat (map continuationIDs xs)) \<inter> set (snd used) = {} \<and>
     act' = (\<lambda>k. act k + claims xs k) \<and> n' = n + len (filter isActiveTask xs)"
proof (induction xs arbitrary: used act n)
  case Nil
  then show ?case by auto
next
  case (Cons x xs)
  have act: "(act(tClaimed x := act (tClaimed x) + 1)) k + claims xs k =
      act k + (if tClaimed x = k then 1 else 0) + claims xs k" for k by simp
  show ?case
    by (auto simp: bindE_Inr validateTask_iff [OF assms] Cons.IH fun_eq_iff)
qed

definition tasks_ok :: "team_limits \<Rightarrow> (string \<rightharpoonup> member) \<Rightarrow> task list \<Rightarrow> bool" where
  "tasks_ok L M xs \<longleftrightarrow> len xs \<le> MaxTasks L \<and> distinct (map tID xs) \<and>
     (\<forall>x \<in> set xs. task_ok L M (tID ` set xs) (completedIDs xs) x) \<and>
     distinct (concat (map attemptIDs xs)) \<and> distinct (concat (map continuationIDs xs)) \<and>
     (\<forall>k. claims xs k \<le> 1) \<and> len (filter isActiveTask xs) \<le> MaxActiveTasks L \<and>
     acyclic (depRel xs)"

lemma claims_le_iff:
  "(\<forall>x \<in> set xs. isActiveTask x \<longrightarrow> claims xs (tClaimed x) \<le> 1) \<longleftrightarrow> (\<forall>k. claims xs k \<le> 1)"
proof
  assume h: "\<forall>x \<in> set xs. isActiveTask x \<longrightarrow> claims xs (tClaimed x) \<le> 1"
  show "\<forall>k. claims xs k \<le> 1"
  proof
    fix k
    show "claims xs k \<le> 1"
    proof (cases "filter (\<lambda>x. isActiveTask x \<and> tClaimed x = k) xs")
      case (Cons x ys)
      then have "x \<in> set (filter (\<lambda>x. isActiveTask x \<and> tClaimed x = k) xs)" by simp
      with h show ?thesis by auto
    qed (simp add: claims_def)
  qed
qed blast

lemma validateTasks_iff:
  "(\<exists>tt. validateTasks t mm = Inr tt) \<longleftrightarrow> tasks_ok (teLimits t) mm (teTasks t)"
proof -
  have ex: "list_ex (\<lambda>x. isActiveTask x \<and> Suc 0 < claims (teTasks t) (tClaimed x)) (teTasks t) \<longleftrightarrow>
      \<not> (\<forall>k. claims (teTasks t) k \<le> Suc 0)"
    unfolding claims_le_iff [unfolded One_nat_def, symmetric] by (auto simp: list_ex_iff not_le)
  show ?thesis
    by (auto simp: validateTasks_def bindE_Inr tasksMapLoop_iff tasksLoop_iff tasks_ok_def
        validateDependencyGraph_iff ex)
qed

subsection \<open>The whole snapshot\<close>

definition header_ok :: "team \<Rightarrow> bool" where
  "header_ok t \<longleftrightarrow>
     teSchema t = schemaVersion \<and> safeID (teID t) \<and> teRevision t \<noteq> 0 \<and> validStatus (teStatus t) \<and>
     validateText (teObjective t) 16384 True = None \<and> limits_ok (teLimits t) \<and>
     \<not> isZero (teCreatedAt t) \<and> \<not> isZero (teUpdatedAt t) \<and> teCreatedAt t \<le> teUpdatedAt t \<and>
     validateReason (teReason t) (teStatus t = StatusFailed \<or> teStatus t = StatusCancelled) = None \<and>
     validateJSON (teOutput t) (MaxJSONBytes (teLimits t)) = None \<and>
     validateArtifacts (teArtifacts t) (MaxArtifactsPerResult (teLimits t)) = None \<and>
     (teStatus t = StatusActive \<longrightarrow> teOutput t = None \<and> teArtifacts t = [])"

definition mailbox_ok :: "team_limits \<Rightarrow> u64 \<Rightarrow> member list \<Rightarrow> bool" where
  "mailbox_ok L s ms \<longleftrightarrow> s \<noteq> 0 \<and> s \<le> word_of_int (MaxMessages L) + 1 \<and>
     (\<forall>m \<in> set ms. mAcknowledged m \<le> mDelivered m \<and> mDelivered m < s)"

definition lifecycle_ok :: "team_status \<Rightarrow> task list \<Rightarrow> bool" where
  "lifecycle_ok s xs \<longleftrightarrow> s = StatusActive \<or> (\<forall>x \<in> set xs.
     tStatus x = TaskStatusCompleted \<or> tStatus x = TaskStatusCancelled \<or>
     tStatus x = TaskStatusFailed \<and> s \<noteq> StatusCompleted)"

lemma validateMailboxState_iff [chk]:
  "validateMailboxState t = None \<longleftrightarrow> mailbox_ok (teLimits t) (teNextSeq t) (teMembers t)"
  by (auto simp: validateMailboxState_def mailbox_ok_def first_err_map_None not_less not_le word_less_1)

lemma validateTeamLifecycle_iff [chk]:
  "validateTeamLifecycle t = None \<longleftrightarrow> lifecycle_ok (teStatus t) (teTasks t)"
proof (cases "teStatus t = StatusActive")
  case False
  have "(case s of TaskStatusCompleted \<Rightarrow> None | TaskStatusCancelled \<Rightarrow> None
      | TaskStatusFailed \<Rightarrow> fail_if (teStatus t = StatusCompleted) ErrInvalid
      | _ \<Rightarrow> Some ErrInvalid) = None \<longleftrightarrow> s = TaskStatusCompleted \<or> s = TaskStatusCancelled \<or>
      s = TaskStatusFailed \<and> teStatus t \<noteq> StatusCompleted" for s
    by (cases s) auto
  with False show ?thesis
    by (simp add: validateTeamLifecycle_def lifecycle_ok_def first_err_map_None)
qed (simp add: validateTeamLifecycle_def lifecycle_ok_def)

definition team_ok :: "team_env \<Rightarrow> team \<Rightarrow> bool" where
  "team_ok E t \<longleftrightarrow> header_ok t \<and> members_ok E (teLimits t) (teLead t) (teMembers t) \<and>
     tasks_ok (teLimits t) (memberMap (teMembers t)) (teTasks t) \<and>
     mailbox_ok (teLimits t) (teNextSeq t) (teMembers t) \<and> lifecycle_ok (teStatus t) (teTasks t)"

lemma validateTeam_iff: "validateTeam E t = None \<longleftrightarrow> team_ok E t"
proof (cases "limits_ok (teLimits t)")
  case True
  then have r: "resolveLimits (teLimits t) = Inr (teLimits t)" by (rule resolveLimits_fixed)
  show ?thesis
  proof (cases "validateMembers E t")
    case (Inl e)
    then have "\<not> members_ok E (teLimits t) (teLead t) (teMembers t)"
      using validateMembers_iff [of E t "memberMap (teMembers t)"] by auto
    with Inl True show ?thesis by (simp add: validateTeam_def r team_ok_def)
  next
    case (Inr mm)
    then have "members_ok E (teLimits t) (teLead t) (teMembers t)" "mm = memberMap (teMembers t)"
      using validateMembers_iff by auto
    then show ?thesis using True Inr
      by (auto simp: validateTeam_def r team_ok_def header_ok_def err_of_None validateTasks_iff
          validateSafeID_def validateMailboxState_iff validateTeamLifecycle_iff)
  qed
next
  case False
  then have "resolveLimits (teLimits t) \<noteq> Inr (teLimits t)" by (simp add: resolveLimits_self_iff)
  with False show ?thesis
    by (auto simp: validateTeam_def team_ok_def header_ok_def split: sum.splits)
qed

end
