(* ===== verification/TeamPreserve.thy ===== *)
theory TeamPreserve
  imports TeamInvariant
begin

section \<open>Team: the invariant and its preservation\<close>

text \<open>
  \<open>team_inv\<close> is \<open>team_ok\<close> and what a snapshot built by commands has beside it: time stamps not
  after the last update, and no running attempt but the last one of a running task (the
  validator alone accepts more: a failed attempt list with a running one in the middle). Each
  mutation, applied at a time that is not before the last update, yields a snapshot that again
  satisfies it, so the validation a store runs on the new record never refuses one.
\<close>

definition settled :: "task \<Rightarrow> bool" where
  "settled x \<longleftrightarrow> (\<forall>a \<in> set (butlast (tAttempts x)). atStatus a \<noteq> AttemptStatusRunning) \<and>
     (lastIs x AttemptStatusRunning \<longrightarrow> tStatus x = TaskStatusRunning)"

definition task_stamps :: "gtime \<Rightarrow> task \<Rightarrow> bool" where
  "task_stamps u x \<longleftrightarrow> tCreatedAt x \<le> u \<and> (\<forall>a \<in> set (tAttempts x). atStartedAt a \<le> u)"

definition members_inv :: "team_env \<Rightarrow> team_limits \<Rightarrow> string \<Rightarrow> u64 \<Rightarrow> gtime \<Rightarrow> member list \<Rightarrow> bool" where
  "members_inv E L lead s u ms \<longleftrightarrow> members_ok E L lead ms \<and> mailbox_ok L s ms \<and>
     (\<forall>m \<in> set ms. mRegisteredAt m \<le> u)"

definition tasks_inv :: "team_limits \<Rightarrow> (string \<rightharpoonup> member) \<Rightarrow> gtime \<Rightarrow> task list \<Rightarrow> bool" where
  "tasks_inv L M u xs \<longleftrightarrow> tasks_ok L M xs \<and> (\<forall>x \<in> set xs. settled x \<and> task_stamps u x)"

definition team_inv :: "team_env \<Rightarrow> team \<Rightarrow> bool" where
  "team_inv E t \<longleftrightarrow> header_ok t \<and> lifecycle_ok (teStatus t) (teTasks t) \<and>
     members_inv E (teLimits t) (teLead t) (teNextSeq t) (teUpdatedAt t) (teMembers t) \<and>
     tasks_inv (teLimits t) (memberMap (teMembers t)) (teUpdatedAt t) (teTasks t)"

lemma team_inv_ok: "team_inv E t \<Longrightarrow> team_ok E t"
  by (auto simp: team_inv_def team_ok_def members_inv_def tasks_inv_def)

text \<open>What \<open>apply\<close> sets beside the mutation, and when it can.\<close>

definition stamp :: "gtime \<Rightarrow> team \<Rightarrow> team" where
  "stamp now t = t\<lparr>teRevision := teRevision t + 1, teUpdatedAt := now\<rparr>"

definition later :: "team \<Rightarrow> gtime \<Rightarrow> bool" where
  "later t now \<longleftrightarrow> \<not> isZero now \<and> teUpdatedAt t \<le> now \<and> teRevision t + 1 \<noteq> 0"

lemma stamp_simps [simp]:
  "teSchema (stamp now t) = teSchema t" "teID (stamp now t) = teID t"
  "teStatus (stamp now t) = teStatus t" "teObjective (stamp now t) = teObjective t"
  "teLead (stamp now t) = teLead t" "teMembers (stamp now t) = teMembers t"
  "teTasks (stamp now t) = teTasks t" "teNextSeq (stamp now t) = teNextSeq t"
  "teLimits (stamp now t) = teLimits t" "teReason (stamp now t) = teReason t"
  "teOutput (stamp now t) = teOutput t" "teArtifacts (stamp now t) = teArtifacts t"
  "teCreatedAt (stamp now t) = teCreatedAt t" "teUpdatedAt (stamp now t) = now"
  "teRevision (stamp now t) = teRevision t + 1"
  by (simp_all add: stamp_def)

lemma members_inv_later:
  "members_inv E L lead s u ms \<Longrightarrow> u \<le> v \<Longrightarrow> members_inv E L lead s v ms"
  by (meson members_inv_def order_trans)

lemma tasks_inv_later: "tasks_inv L M u xs \<Longrightarrow> u \<le> v \<Longrightarrow> tasks_inv L M v xs"
  unfolding tasks_inv_def task_stamps_def by (meson order_trans)

lemma header_stamp:
  assumes "header_ok t" "later t now" "teStatus t = StatusActive"
  shows "header_ok (stamp now (t\<lparr>teMembers := ms, teNextSeq := s, teTasks := xs\<rparr>))"
  using assms order_trans [of "teCreatedAt t" "teUpdatedAt t" now]
  by (auto simp: header_ok_def later_def)

subsection \<open>Updates of the member list\<close>

lemma attempt_ok_dom: "attempt_ok L M n a \<Longrightarrow> dom M \<subseteq> dom M' \<Longrightarrow> attempt_ok L M' n a"
  by (auto simp: attempt_ok_def)

lemma attempts_ok_dom: "attempts_ok L M n as \<Longrightarrow> dom M \<subseteq> dom M' \<Longrightarrow> attempts_ok L M' n as"
  by (induction as arbitrary: n) (auto intro: attempt_ok_dom)

lemma tasks_inv_members:
  assumes ok: "tasks_inv L M u xs" and d: "dom M \<subseteq> dom M'"
    and active: "\<And>x m. x \<in> set xs \<Longrightarrow> tClaimed x \<noteq> [] \<Longrightarrow> M (tClaimed x) = Some m \<Longrightarrow>
      mStatus m = MemberStatusActive \<Longrightarrow>
      \<exists>m'. M' (tClaimed x) = Some m' \<and> mStatus m' = MemberStatusActive"
  shows "tasks_inv L M' u xs"
proof -
  have "task_ok L M' D C x" if x: "x \<in> set xs" and t: "task_ok L M D C x" for D C x
  proof -
    from t have b: "task_base L M D x" by (simp add: task_ok_def)
    then have "attempts_ok L M 0 (tAttempts x)" by (simp add: task_base_def)
    then have "attempts_ok L M' 0 (tAttempts x)" using d by (rule attempts_ok_dom)
    moreover have "tAssigned x \<noteq> [] \<longrightarrow> tAssigned x \<in> dom M'"
      using b d by (auto simp: task_base_def)
    moreover have "tClaimed x \<noteq> [] \<longrightarrow> (\<exists>m. M' (tClaimed x) = Some m \<and> mStatus m = MemberStatusActive)"
      using b active [OF x] by (auto simp: task_base_def)
    ultimately have "task_base L M' D x" using b by (simp add: task_base_def)
    with t show ?thesis by (simp add: task_ok_def)
  qed
  with ok show ?thesis by (simp add: tasks_inv_def tasks_ok_def)
qed

lemma team_inv_members:
  assumes inv: "team_inv E t" and l: "later t now" and st: "teStatus t = StatusActive"
    and ms: "members_inv E (teLimits t) (teLead t) s now ms"
    and d: "mID ` set (teMembers t) \<subseteq> mID ` set ms"
    and active: "\<And>x m. x \<in> set (teTasks t) \<Longrightarrow> tClaimed x \<noteq> [] \<Longrightarrow>
      memberMap (teMembers t) (tClaimed x) = Some m \<Longrightarrow> mStatus m = MemberStatusActive \<Longrightarrow>
      \<exists>m'. memberMap ms (tClaimed x) = Some m' \<and> mStatus m' = MemberStatusActive"
  shows "team_inv E (stamp now (t\<lparr>teMembers := ms, teNextSeq := s\<rparr>))"
proof -
  have "tasks_inv (teLimits t) (memberMap ms) (teUpdatedAt t) (teTasks t)"
  proof (rule tasks_inv_members [where M = "memberMap (teMembers t)"])
    show "tasks_inv (teLimits t) (memberMap (teMembers t)) (teUpdatedAt t) (teTasks t)"
      using inv by (simp add: team_inv_def)
    show "dom (memberMap (teMembers t)) \<subseteq> dom (memberMap ms)" using d by simp
  qed (rule active)
  then have "tasks_inv (teLimits t) (memberMap ms) now (teTasks t)"
    using l by (auto simp: later_def intro: tasks_inv_later)
  moreover have "header_ok (stamp now (t\<lparr>teMembers := ms, teNextSeq := s\<rparr>))"
    using header_stamp [where t = t and now = now and ms = ms and s = s and xs = "teTasks t"] inv l st by (simp add: team_inv_def)
  ultimately show ?thesis using ms st by (simp add: team_inv_def lifecycle_ok_def)
qed

text \<open>One member replaced by another version of itself.\<close>

lemma sorted_wrt_update:
  assumes "sorted_wrt P xs" "i < length xs" "\<And>z. P (xs ! i) z = P x z" "\<And>z. P z (xs ! i) = P z x"
  shows "sorted_wrt P (xs[i := x])"
  using assms by (auto simp: sorted_wrt_iff_nth_less nth_list_update)

lemma members_inv_update:
  assumes inv: "members_inv E L lead s u ms" and i: "i < length ms" and m: "member_ok m"
    and same: "mID m = mID (ms ! i)" "mName m = mName (ms ! i)"
      "mRegisteredAt m = mRegisteredAt (ms ! i)"
    and lead: "mStatus m = mStatus (ms ! i) \<or> mID m \<noteq> lead \<or> mStatus m = MemberStatusActive"
    and box: "mAcknowledged m \<le> mDelivered m" "mDelivered m < s'" "s \<le> s'"
      "s' \<le> word_of_int (MaxMessages L) + 1"
  shows "members_inv E L lead s' u (ms[i := m])"
proof -
  from inv have ok: "members_ok E L lead ms" by (simp add: members_inv_def)
  then have d: "distinct (map mID ms)" by (simp add: members_ok_def)
  have ids: "map mID (ms[i := m]) = map mID ms" using i same by (simp add: list_update_map_same)
  have mem: "z \<in> set (ms[i := m]) \<Longrightarrow> z = m \<or> z \<in> set ms" for z
    using set_update_subset_insert [of ms i m] by auto
  obtain l where l: "l \<in> set ms" "mID l = lead" "mStatus l = MemberStatusActive"
    using ok by (auto simp: members_ok_def)
  have "\<exists>z \<in> set (ms[i := m]). mID z = lead \<and> mStatus z = MemberStatusActive"
  proof (cases "mID m = lead")
    case True
    with same d l i have "ms ! i = l"
      by (metis distinct_map inj_on_eq_iff nth_mem)
    with True lead l i show ?thesis by (metis set_update_memI)
  next
    case False
    with l same i have "l \<in> set (ms[i := m])"
      by (metis in_set_conv_nth length_list_update nth_list_update_neq)
    with l show ?thesis by blast
  qed
  moreover have "sorted_wrt (\<lambda>m n. \<not> equalFold E (mName m) (mName n)) (ms[i := m])"
    using ok i same by (intro sorted_wrt_update) (auto simp: members_ok_def)
  moreover have "\<forall>z \<in> set (ms[i := m]). member_ok z" using ok m mem by (auto simp: members_ok_def)
  ultimately have "members_ok E L lead (ms[i := m])"
    using ok ids by (simp add: members_ok_def len_def)
  moreover have "mailbox_ok L s' (ms[i := m])"
    using inv box mem unfolding members_inv_def mailbox_ok_def
    by (metis (no_types, lifting) less_le_trans linorder_not_less word_gt_0)
  moreover have "\<forall>z \<in> set (ms[i := m]). mRegisteredAt z \<le> u"
    using inv mem same(3) i by (metis members_inv_def nth_mem)
  ultimately show ?thesis by (simp add: members_inv_def)
qed

text \<open>One member replaced, seen from the whole snapshot.\<close>

lemma findMemberD:
  "findMember t k = Some (m, i) \<Longrightarrow>
     i < length (teMembers t) \<and> teMembers t ! i = m \<and> m \<in> set (teMembers t) \<and> mID m = k"
  unfolding findMember_def by (drule find_idx_SomeD) simp

lemma findTaskD:
  "findTask t k = Some (x, i) \<Longrightarrow>
     i < length (teTasks t) \<and> teTasks t ! i = x \<and> x \<in> set (teTasks t) \<and> tID x = k"
  unfolding findTask_def by (drule find_idx_SomeD) simp

lemma team_invD:
  assumes "team_inv E t"
  shows "header_ok t" "distinct (map mID (teMembers t))" "distinct (map tID (teTasks t))"
    "members_inv E (teLimits t) (teLead t) (teNextSeq t) (teUpdatedAt t) (teMembers t)"
    "tasks_inv (teLimits t) (memberMap (teMembers t)) (teUpdatedAt t) (teTasks t)"
    "mailbox_ok (teLimits t) (teNextSeq t) (teMembers t)"
    "\<And>m. m \<in> set (teMembers t) \<Longrightarrow> member_ok m \<and> mRegisteredAt m \<le> teUpdatedAt t"
  using assms
  by (simp_all add: team_inv_def members_inv_def members_ok_def tasks_inv_def tasks_ok_def)

lemma team_inv_member_update:
  assumes inv: "team_inv E t" and l: "later t now" and st: "teStatus t = StatusActive"
    and i: "i < length (teMembers t)" and m: "member_ok m"
    and same: "mID m = mID (teMembers t ! i)" "mName m = mName (teMembers t ! i)"
      "mRegisteredAt m = mRegisteredAt (teMembers t ! i)"
    and status: "mStatus m = mStatus (teMembers t ! i) \<or> mStatus m = MemberStatusActive \<or>
      mID m \<noteq> teLead t \<and> (\<forall>x \<in> set (teTasks t). tClaimed x \<noteq> mID m)"
    and box: "mAcknowledged m \<le> mDelivered m" "mDelivered m < s'" "teNextSeq t \<le> s'"
      "s' \<le> word_of_int (MaxMessages (teLimits t)) + 1"
  shows "team_inv E (stamp now (t\<lparr>teMembers := (teMembers t)[i := m], teNextSeq := s'\<rparr>))"
proof (rule team_inv_members [OF inv l st])
  note d = team_invD(2) [OF inv]
  have "members_inv E (teLimits t) (teLead t) (teNextSeq t) now (teMembers t)"
    using inv l members_inv_later by (auto simp: team_inv_def later_def)
  then show "members_inv E (teLimits t) (teLead t) s' now ((teMembers t)[i := m])"
    using i m same status box by (intro members_inv_update) auto
  show "mID ` set (teMembers t) \<subseteq> mID ` set ((teMembers t)[i := m])"
    using list_update_map_same [of i "teMembers t" mID m] i same by (metis list.set_map order_refl)
  fix x n
  assume x: "x \<in> set (teTasks t)" and n: "memberMap (teMembers t) (tClaimed x) = Some n"
    and act: "mStatus n = MemberStatusActive"
  show "\<exists>m'. memberMap ((teMembers t)[i := m]) (tClaimed x) = Some m' \<and> mStatus m' = MemberStatusActive"
  proof (cases "tClaimed x = mID m")
    case True
    with n same i d have "n = teMembers t ! i" by (metis key_map_distinct nth_mem option.inject)
    with True act status x have "mStatus m = MemberStatusActive" by auto
    with True show ?thesis by (simp add: key_map_update [OF i d same(1)])
  next
    case False
    with n act show ?thesis by (simp add: key_map_update [OF i d same(1)])
  qed
qed

subsection \<open>Member and mailbox mutations\<close>

lemma new_member_ok:
  "validateMemberSpec s = None \<Longrightarrow> \<not> isZero now \<Longrightarrow> member_ok (newMember s now)"
  by (simp add: member_ok_def newMember_def validateMemberStatus_def isZero_def zero_time_def)
    (simp add: memberSpecOf_def validateMemberSpec_def)

lemma registerMember_inv:
  assumes inv: "team_inv E t" and c: "registerMember_check s = None"
    and run: "registerMember E a s t now = Inr (t', f)" and l: "later t now"
  shows "team_inv E (stamp now t')"
proof -
  let ?m = "newMember s now"
  have st: "teStatus t = StatusActive" and n: "len (teMembers t) < MaxMembers (teLimits t)"
    and new: "\<forall>m \<in> set (teMembers t). mID m \<noteq> msID s \<and> \<not> equalFold E (mName m) (msName s)"
    and t': "t' = t\<lparr>teMembers := teMembers t @ [?m]\<rparr>"
    using run by (auto simp: registerMember_def requireActive_def first_err_None)
  have id: "mID ?m = msID s" "mName ?m = msName s" "mRegisteredAt ?m = now" "mDelivered ?m = 0"
      "mAcknowledged ?m = 0"
    by (simp_all add: newMember_def)
  have ok: "member_ok ?m" using c l by (simp add: registerMember_check_def later_def new_member_ok)
  have old: "members_inv E (teLimits t) (teLead t) (teNextSeq t) now (teMembers t)"
    using inv l members_inv_later by (auto simp: team_inv_def later_def)
  then have "members_ok E (teLimits t) (teLead t) (teMembers t @ [?m])"
    using n new ok by (auto simp: members_inv_def members_ok_def id sorted_wrt_append)
  then have ms: "members_inv E (teLimits t) (teLead t) (teNextSeq t) now (teMembers t @ [?m])"
    using old by (auto simp: members_inv_def mailbox_ok_def id word_gt_0)
  have map: "memberMap (teMembers t @ [?m]) = (memberMap (teMembers t))(msID s \<mapsto> ?m)"
    using new by (intro key_map_append_new [of mID ?m "teMembers t", unfolded id]) auto
  have "team_inv E (stamp now (t\<lparr>teMembers := teMembers t @ [?m], teNextSeq := teNextSeq t\<rparr>))"
  proof (rule team_inv_members [OF inv l st ms])
    fix x m
    assume m: "memberMap (teMembers t) (tClaimed x) = Some m" "mStatus m = MemberStatusActive"
    then have "tClaimed x \<noteq> msID s" using new key_map_SomeD [OF m(1)] by auto
    with m show "\<exists>m'. memberMap (teMembers t @ [?m]) (tClaimed x) = Some m' \<and>
        mStatus m' = MemberStatusActive" by (simp add: map)
  qed auto
  then show ?thesis by (simp add: t')
qed

text \<open>The bounds on the cursors of a member that stays as it was.\<close>

lemma box_same:
  assumes "team_inv E t" "m \<in> set (teMembers t)"
  shows "mAcknowledged m \<le> mDelivered m" "mDelivered m < teNextSeq t"
    "teNextSeq t \<le> word_of_int (MaxMessages (teLimits t)) + 1"
  using team_invD(6) [OF assms(1)] assms(2) by (auto simp: mailbox_ok_def)

lemma setMember_seq: "setMember t i m = t\<lparr>teMembers := (teMembers t)[i := m], teNextSeq := teNextSeq t\<rparr>"
  by (simp add: setMember_def)

lemma disableMember_inv:
  assumes inv: "team_inv E t" and c: "disableMember_check k r = None"
    and run: "disableMember a k r t now = Inr (t', f)" and l: "later t now"
  shows "team_inv E (stamp now t')"
proof -
  obtain m i where m: "findMember t k = Some (m, i)" and st: "teStatus t = StatusActive"
    and k: "k \<noteq> teLead t" "mStatus m = MemberStatusActive"
    and idle: "\<forall>x \<in> set (teTasks t). \<not> (tClaimed x = k \<and> isActiveTask x)"
    and t': "t' = setMember t i (m\<lparr>mStatus := MemberStatusDisabled, mDisabledAt := now\<rparr>)"
    using run by (auto simp: disableMember_def requireActive_def first_err_map_None
        split: option.splits)
  note f = findMemberD [OF m]
  have mm: "member_ok m" "mRegisteredAt m \<le> teUpdatedAt t" using team_invD(7) [OF inv] f by auto
  have "mRegisteredAt m \<le> now" using mm l by (auto simp: later_def intro: order_trans)
  then have ok: "member_ok (m\<lparr>mStatus := MemberStatusDisabled, mDisabledAt := now\<rparr>)"
    using mm l by (simp add: member_ok_def validateMemberStatus_def memberSpecOf_def later_def)
  have free: "\<forall>x \<in> set (teTasks t). tClaimed x \<noteq> k"
  proof
    fix x assume x: "x \<in> set (teTasks t)"
    then have "task_state_ok (completedIDs (teTasks t)) x" "k \<noteq> []"
      using inv f mm(1) by (auto simp: team_inv_def tasks_inv_def tasks_ok_def task_ok_def member_ok_def
          validateMemberSpec_def memberSpecOf_def validateSafeID_def)
    then show "tClaimed x \<noteq> k"
      using idle x by (auto simp: task_state_ok_def isActiveTask_def Let_def split: task_status.splits)
  qed
  show ?thesis unfolding t' setMember_seq
    using f k free box_same [OF inv] ok
    by (intro team_inv_member_update [OF inv l st]) auto
qed

lemma enableMember_inv:
  assumes inv: "team_inv E t" and run: "enableMember a k t now = Inr (t', f)" and l: "later t now"
  shows "team_inv E (stamp now t')"
proof -
  obtain m i where m: "findMember t k = Some (m, i)" and st: "teStatus t = StatusActive"
    and t': "t' = setMember t i (m\<lparr>mStatus := MemberStatusActive, mDisabledAt := zero_time\<rparr>)"
    using run by (auto simp: enableMember_def requireActive_def split: option.splits)
  note f = findMemberD [OF m]
  have "member_ok m" using team_invD(7) [OF inv] f by auto
  then have ok: "member_ok (m\<lparr>mStatus := MemberStatusActive, mDisabledAt := zero_time\<rparr>)"
    by (simp add: member_ok_def validateMemberStatus_def memberSpecOf_def isZero_def zero_time_def)
  show ?thesis unfolding t' setMember_seq
    using f box_same [OF inv] ok by (intro team_inv_member_update [OF inv l st]) auto
qed

lemma seq_step:
  fixes s w :: u64
  assumes "w \<le> 100000" "s \<noteq> 0" "s - 1 < w"
  shows "s < s + 1" "s + 1 \<le> w + 1" "s \<le> s + 1"
proof -
  have w: "uint w \<le> 100000" using assms(1) by (simp add: word_le_def)
  have "uint s \<noteq> 0" using assms(2) by (simp add: uint_0_iff)
  then have "1 \<le> uint s" using uint_ge_0 [of s] by linarith
  then have "uint (s - 1) = uint s - 1" using uint_sub_lem [of 1 s] by simp
  then have s: "uint s \<le> uint w" using assms(3) by (simp add: word_less_def)
  then have "uint (s + 1) = uint s + 1" using w uint_add_lem [of s 1] by simp
  moreover have "uint (w + 1) = uint w + 1" using w uint_add_lem [of w 1] by simp
  ultimately show "s < s + 1" "s + 1 \<le> w + 1" "s \<le> s + 1"
    using s by (simp_all add: word_le_def word_less_def)
qed

lemma member_ok_cursors [simp]:
  "member_ok (m\<lparr>mDelivered := d\<rparr>) = member_ok m"
  "member_ok (m\<lparr>mAcknowledged := d\<rparr>) = member_ok m"
  by (cases "mStatus m"; simp add: member_ok_def validateMemberStatus_def memberSpecOf_def)+

lemma max_messages_word: "limits_ok L \<Longrightarrow> (word_of_int (MaxMessages L) :: u64) \<le> 100000"
  by (simp add: limits_ok_def word_le_def uint_word_of_int)

lemma sendMessage_inv:
  assumes inv: "team_inv E t" and run: "sendMessage load a r t now = Inr (t', f)" and l: "later t now"
  shows "team_inv E (stamp now t')"
proof -
  obtain m i where m: "findMember t (srRecipientID r) = Some (m, i)"
    and st: "teStatus t = StatusActive"
    and lt: "teNextSeq t - 1 < word_of_int (MaxMessages (teLimits t))"
    and t': "t' = setMember (t\<lparr>teNextSeq := teNextSeq t + 1\<rparr>) i (m\<lparr>mDelivered := teNextSeq t\<rparr>)"
    using run by (auto simp: sendMessage_def requireActive_def bindE_Inr newMessage_def
        split: option.splits)
  note f = findMemberD [OF m]
  have lim: "limits_ok (teLimits t)" using team_invD(1) [OF inv] by (simp add: header_ok_def)
  have nz: "teNextSeq t \<noteq> 0" using team_invD(6) [OF inv] by (simp add: mailbox_ok_def)
  note seq = seq_step [OF max_messages_word [OF lim] nz lt]
  have ok: "member_ok (m\<lparr>mDelivered := teNextSeq t\<rparr>)"
    using team_invD(7) [OF inv] f by simp
  have "mAcknowledged m \<le> teNextSeq t" using box_same [OF inv] f by (meson less_imp_le order_trans)
  then have "team_inv E (stamp now (t\<lparr>teMembers := (teMembers t)[i := m\<lparr>mDelivered := teNextSeq t\<rparr>],
      teNextSeq := teNextSeq t + 1\<rparr>))"
    using f ok seq by (intro team_inv_member_update [OF inv l st]) auto
  moreover have "t' = t\<lparr>teMembers := (teMembers t)[i := m\<lparr>mDelivered := teNextSeq t\<rparr>],
      teNextSeq := teNextSeq t + 1\<rparr>" by (simp add: t' setMember_def)
  ultimately show ?thesis by simp
qed

lemma activeActorMember_Inr:
  "activeActorMember t a = Inr m \<longleftrightarrow> acKind a = ActorKindMember \<and>
     (\<exists>i. findMember t (acID a) = Some (m, i)) \<and> mStatus m = MemberStatusActive"
  by (auto simp: activeActorMember_def split: option.splits)

lemma acknowledgeMessages_inv:
  assumes inv: "team_inv E t" and run: "acknowledgeMessages a n t now = Inr (t', f)"
    and l: "later t now"
  shows "team_inv E (stamp now t')"
proof -
  obtain m i where m: "findMember t (acID a) = Some (m, i)" and st: "teStatus t = StatusActive" and n: "n \<le> mDelivered m"
    and t': "t' = setMember t i (m\<lparr>mAcknowledged := n\<rparr>)"
  proof -
    obtain m j where m: "findMember t (acID a) = Some (m, j)" and st: "teStatus t = StatusActive"
      and n: "n \<le> mDelivered m" and t': "t' = setMember t
        (case findMember t (mID m) of None \<Rightarrow> 0 | Some (_, j) \<Rightarrow> j) (m\<lparr>mAcknowledged := n\<rparr>)"
      using run by (auto simp: acknowledgeMessages_def requireActive_def bindE_Inr
          activeActorMember_Inr Let_def not_less)
    from findMemberD [OF m] m have "findMember t (mID m) = Some (m, j)" by simp
    with that m st n t' show thesis by simp
  qed
  note f = findMemberD [OF m]
  have ok: "member_ok (m\<lparr>mAcknowledged := n\<rparr>)"
    using team_invD(7) [OF inv] f by simp
  show ?thesis unfolding t' setMember_seq
    using f box_same [OF inv] ok n by (intro team_inv_member_update [OF inv l st]) auto
qed

subsection \<open>Updates of the task list\<close>

text \<open>
  A step of the task list that keeps IDs and dependencies, as a relation between the old and the
  new tasks in their order.
\<close>

definition task_step :: "task list \<Rightarrow> task list \<Rightarrow> bool" where
  "task_step xs ys \<longleftrightarrow> list_all2 (\<lambda>x y. tID y = tID x \<and> tDeps y = tDeps x) xs ys"

lemma task_step_update:
  "i < length xs \<Longrightarrow> tID y = tID (xs ! i) \<Longrightarrow> tDeps y = tDeps (xs ! i) \<Longrightarrow> task_step xs (xs[i := y])"
  by (simp add: task_step_def list_all2_conv_all_nth nth_list_update)

lemma task_step_map:
  "(\<And>x. x \<in> set xs \<Longrightarrow> tID (g x) = tID x \<and> tDeps (g x) = tDeps x) \<Longrightarrow> task_step xs (map g xs)"
  by (simp add: task_step_def list_all2_conv_all_nth)

lemma task_step_ids:
  assumes "task_step xs ys"
  shows "map tID ys = map tID xs" "length ys = length xs" "depRel ys = depRel xs"
proof -
  show ids: "map tID ys = map tID xs" and "length ys = length xs"
    using assms by (auto simp: task_step_def list_all2_conv_all_nth list_eq_iff_nth_eq)
  have "depsOf ys d = depsOf xs d" for d
    using assms unfolding task_step_def
    by (induction xs ys rule: list_all2_induct) (auto simp: depsOf_def taskOf_def)
  then show "depRel ys = depRel xs" by (simp add: depRel_def)
qed

lemma tasks_inv_step:
  assumes inv: "tasks_inv L M u xs" and step: "task_step xs ys"
    and each: "\<And>y. y \<in> set ys \<Longrightarrow>
      task_base L M (tID ` set xs) y \<and> task_state_ok (completedIDs ys) y \<and> settled y \<and> task_stamps v y"
    and ids: "distinct (concat (map attemptIDs ys))" "distinct (concat (map continuationIDs ys))"
    and active: "\<forall>k. claims ys k \<le> 1" "len (filter isActiveTask ys) \<le> MaxActiveTasks L"
  shows "tasks_inv L M v ys"
proof -
  note s = task_step_ids [OF step]
  have "tID ` set ys = tID ` set xs" using s(1) by (metis list.set_map)
  then show ?thesis
    using inv each ids active s by (auto simp: tasks_inv_def tasks_ok_def task_ok_def len_def)
qed

end
