(* ===== verification/TeamPreserveTask.thy ===== *)
theory TeamPreserveTask
  imports TeamPreserve
begin

section \<open>Team: task mutations preserve the invariant\<close>

text \<open>
  Single-task updates, promotion of pending tasks and termination of all tasks. The counting and
  distinctness facts about a list with one element replaced come first.
\<close>

lemma filter_update_length:
  "i < length xs \<Longrightarrow> length (filter P (xs[i := y])) + (if P (xs ! i) then 1 else 0) =
     length (filter P xs) + (if P y then 1 else 0)"
proof (induction xs arbitrary: i)
  case (Cons x xs)
  then show ?case
    by (cases i) (use Cons.IH in fastforce)+
qed simp

lemma distinct_concat_update:
  "distinct (concat (map f xs)) \<Longrightarrow> i < length xs \<Longrightarrow> distinct (f y) \<Longrightarrow>
     set (f y) \<inter> set (concat (map f xs)) \<subseteq> set (f (xs ! i)) \<Longrightarrow> distinct (concat (map f (xs[i := y])))"
proof (induction xs arbitrary: i)
  case (Cons x xs)
  show ?case
  proof (cases i)
    case 0
    with Cons.prems show ?thesis by auto
  next
    case (Suc j)
    with Cons.prems have j: "j < length xs" by simp
    have "set (f (xs ! j)) \<subseteq> set (concat (map f xs))" using nth_mem [OF j] by auto
    with Cons.prems Suc have *: "set (f y) \<inter> set (f x) = {}" by auto
    have "distinct (concat (map f (xs[j := y])))" using Cons.prems Suc j by (intro Cons.IH) auto
    moreover have "set (f x) \<inter> set (concat (map f (xs[j := y]))) = {}"
      using Cons.prems(1) * set_update_subset_insert [of xs j y] by fastforce
    ultimately show ?thesis using Suc Cons.prems(1) by auto
  qed
qed simp

lemma completedIDs_nth:
  "d \<in> completedIDs xs \<longleftrightarrow> (\<exists>j < length xs. tID (xs ! j) = d \<and> tStatus (xs ! j) = TaskStatusCompleted)"
  by (auto simp: completedIDs_def in_set_conv_nth)

lemma completedIDs_update:
  assumes "i < length xs" "tID y = tID (xs ! i)"
    and "tStatus y = TaskStatusCompleted \<longleftrightarrow> tStatus (xs ! i) = TaskStatusCompleted"
  shows "completedIDs (xs[i := y]) = completedIDs xs"
proof -
  have "tID (xs[i := y] ! j) = tID (xs ! j) \<and>
      (tStatus (xs[i := y] ! j) = TaskStatusCompleted \<longleftrightarrow> tStatus (xs ! j) = TaskStatusCompleted)"
    if "j < length xs" for j
    using assms that by (simp add: nth_list_update)
  then show ?thesis by (intro set_eqI) (auto simp: completedIDs_nth)
qed

lemma completedIDs_complete:
  assumes "i < length xs" "tID y = tID (xs ! i)" "tStatus y = TaskStatusCompleted"
  shows "completedIDs (xs[i := y]) = insert (tID y) (completedIDs xs)"
proof (rule set_eqI)
  fix d
  have "(\<exists>j < length xs. tID (xs[i := y] ! j) = d \<and> tStatus (xs[i := y] ! j) = TaskStatusCompleted) \<longleftrightarrow>
      d = tID y \<or> (\<exists>j < length xs. tID (xs ! j) = d \<and> tStatus (xs ! j) = TaskStatusCompleted)"
    using assms by (metis nth_list_update_eq nth_list_update_neq)
  then show "d \<in> completedIDs (xs[i := y]) \<longleftrightarrow> d \<in> insert (tID y) (completedIDs xs)"
    by (simp add: completedIDs_nth)
qed

lemma claims_update:
  assumes "\<forall>k. claims xs k \<le> 1" "len (filter isActiveTask xs) \<le> n" "i < length xs"
    and "isActiveTask y \<Longrightarrow> isActiveTask (xs ! i) \<and> tClaimed y = tClaimed (xs ! i) \<or>
      claims xs (tClaimed y) = 0 \<and> len (filter isActiveTask xs) < n"
  shows "\<forall>k. claims (xs[i := y]) k \<le> 1" "len (filter isActiveTask (xs[i := y])) \<le> n"
proof -
  have "claims (xs[i := y]) k \<le> 1" for k
    using filter_update_length [OF assms(3), of "\<lambda>x. isActiveTask x \<and> tClaimed x = k" y] assms(1,4)
    unfolding claims_def by (auto split: if_splits dest: spec [of _ k])
  then show "\<forall>k. claims (xs[i := y]) k \<le> 1" ..
  show "len (filter isActiveTask (xs[i := y])) \<le> n"
    using filter_update_length [OF assms(3), of isActiveTask y] assms(2,4)
    by (auto simp: len_def split: if_splits)
qed

text \<open>The parts of the invariant for one task of the list.\<close>

lemma tasks_invD:
  assumes "tasks_inv L M u xs" "x \<in> set xs"
  shows "task_base L M (tID ` set xs) x" "task_state_ok (completedIDs xs) x" "settled x"
    "task_stamps u x"
  using assms by (auto simp: tasks_inv_def tasks_ok_def task_ok_def)

lemma task_stamps_later: "task_stamps u x \<Longrightarrow> u \<le> v \<Longrightarrow> task_stamps v x"
  unfolding task_stamps_def by (meson order_trans)

lemma tasks_inv_update:
  assumes inv: "tasks_inv L M u xs" and uv: "u \<le> v" and i: "i < length xs"
    and same: "tID y = tID (xs ! i)" "tDeps y = tDeps (xs ! i)"
    and fin: "tStatus y = TaskStatusCompleted \<longleftrightarrow> tStatus (xs ! i) = TaskStatusCompleted"
    and base: "task_base L M (tID ` set xs) y" and state: "task_state_ok (completedIDs xs) y"
    and y: "settled y" "task_stamps v y"
    and ids: "distinct (attemptIDs y)" "distinct (continuationIDs y)"
      "set (attemptIDs y) \<inter> set (concat (map attemptIDs xs)) \<subseteq> set (attemptIDs (xs ! i))"
      "set (continuationIDs y) \<inter> set (concat (map continuationIDs xs)) \<subseteq> set (continuationIDs (xs ! i))"
    and active: "isActiveTask y \<Longrightarrow> isActiveTask (xs ! i) \<and> tClaimed y = tClaimed (xs ! i) \<or>
      claims xs (tClaimed y) = 0 \<and> len (filter isActiveTask xs) < MaxActiveTasks L"
  shows "tasks_inv L M v (xs[i := y])"
proof (rule tasks_inv_step [OF inv])
  have ok: "tasks_ok L M xs" using inv by (simp add: tasks_inv_def)
  have C: "completedIDs (xs[i := y]) = completedIDs xs"
    using i same(1) fin by (rule completedIDs_update)
  show "task_step xs (xs[i := y])" using i same by (rule task_step_update)
  fix z
  assume "z \<in> set (xs[i := y])"
  then have "z = y \<or> z \<in> set xs" using set_update_subset_insert [of xs i y] by auto
  then show "task_base L M (tID ` set xs) z \<and> task_state_ok (completedIDs (xs[i := y])) z \<and>
      settled z \<and> task_stamps v z"
    using tasks_invD [OF inv, of z] base state y C task_stamps_later [OF _ uv] by auto
next
  have ok: "tasks_ok L M xs" using inv by (simp add: tasks_inv_def)
  show "distinct (concat (map attemptIDs (xs[i := y])))"
    "distinct (concat (map continuationIDs (xs[i := y])))"
    using ok i ids by (auto simp: tasks_ok_def intro!: distinct_concat_update)
  show "\<forall>k. claims (xs[i := y]) k \<le> 1" "len (filter isActiveTask (xs[i := y])) \<le> MaxActiveTasks L"
    using ok i active claims_update [of xs "MaxActiveTasks L" i y] by (auto simp: tasks_ok_def)
qed

lemma team_inv_tasks:
  assumes inv: "team_inv E t" and l: "later t now" and st: "teStatus t = StatusActive"
    and ts: "tasks_inv (teLimits t) (memberMap (teMembers t)) now xs"
  shows "team_inv E (stamp now (t\<lparr>teTasks := xs\<rparr>))"
proof -
  have "header_ok (stamp now (t\<lparr>teTasks := xs\<rparr>))"
    using header_stamp [where t = t and now = now and ms = "teMembers t" and s = "teNextSeq t" and xs = xs]
      inv l st by (simp add: team_inv_def)
  moreover have "members_inv E (teLimits t) (teLead t) (teNextSeq t) now (teMembers t)"
    using inv l members_inv_later by (auto simp: team_inv_def later_def)
  ultimately show ?thesis using ts st by (simp add: team_inv_def lifecycle_ok_def)
qed

lemma team_inv_setTask:
  assumes inv: "team_inv E t" and l: "later t now" and st: "teStatus t = StatusActive"
    and x: "findTask t k = Some (x, i)"
    and same: "tID y = tID x" "tDeps y = tDeps x"
    and fin: "tStatus y = TaskStatusCompleted \<longleftrightarrow> tStatus x = TaskStatusCompleted"
    and base: "task_base (teLimits t) (memberMap (teMembers t)) (tID ` set (teTasks t)) y"
    and state: "task_state_ok (completedIDs (teTasks t)) y"
    and y: "settled y" "task_stamps now y"
    and ids: "distinct (attemptIDs y)" "distinct (continuationIDs y)"
      "set (attemptIDs y) \<inter> set (concat (map attemptIDs (teTasks t))) \<subseteq> set (attemptIDs x)"
      "set (continuationIDs y) \<inter> set (concat (map continuationIDs (teTasks t))) \<subseteq>
         set (continuationIDs x)"
    and active: "isActiveTask y \<Longrightarrow> isActiveTask x \<and> tClaimed y = tClaimed x \<or>
      claims (teTasks t) (tClaimed y) = 0 \<and>
      len (filter isActiveTask (teTasks t)) < MaxActiveTasks (teLimits t)"
  shows "team_inv E (stamp now (setTask t i y))"
proof -
  from findTaskD [OF x] have i: "i < length (teTasks t)" and n: "teTasks t ! i = x" by auto
  have "tasks_inv (teLimits t) (memberMap (teMembers t)) now ((teTasks t)[i := y])"
    by (rule tasks_inv_update [OF team_invD(5) [OF inv] _ i])
      (use l base state y active ids in \<open>simp_all add: n same fin later_def\<close>)
  then show ?thesis using team_inv_tasks [OF inv l st] by (simp add: setTask_def)
qed

lemma setTask_same_attempts:
  assumes inv: "team_inv E t" and l: "later t now" and st: "teStatus t = StatusActive"
    and x: "findTask t k = Some (x, i)"
    and same: "tID y = tID x" "tDeps y = tDeps x" "tAttempts y = tAttempts x"
      "tCreatedAt y = tCreatedAt x" "tAttemptLimit y = tAttemptLimit x" "tTitle y = tTitle x"
      "tDescription y = tDescription x" "tPayload y = tPayload x" "tUpdatedAt y = now"
    and fin: "tStatus y = TaskStatusCompleted \<longleftrightarrow> tStatus x = TaskStatusCompleted"
      "tStatus x \<noteq> TaskStatusRunning"
    and who: "tAssigned y = tAssigned x \<or> tAssigned y = [] \<or> tAssigned y \<in> mID ` set (teMembers t)"
      "tClaimed y = tClaimed x \<or> tClaimed y = [] \<or>
         (\<exists>m. memberMap (teMembers t) (tClaimed y) = Some m \<and> mStatus m = MemberStatusActive)"
    and reason: "validateReason (tReason y) False = None"
    and state: "task_state_ok (completedIDs (teTasks t)) y"
    and active: "isActiveTask y \<Longrightarrow> isActiveTask x \<and> tClaimed y = tClaimed x \<or>
      claims (teTasks t) (tClaimed y) = 0 \<and>
      len (filter isActiveTask (teTasks t)) < MaxActiveTasks (teLimits t)"
  shows "team_inv E (stamp now (setTask t i y))"
proof (rule team_inv_setTask [OF inv l st x same(1,2) fin(1) _ state _ _ _ _ _ _ active])
  from findTaskD [OF x] have mem: "x \<in> set (teTasks t)" by simp
  note d = tasks_invD [OF team_invD(5) [OF inv] mem]
  have "tCreatedAt x \<le> now" using d(4) l by (auto simp: task_stamps_def later_def intro: order_trans)
  then show "task_base (teLimits t) (memberMap (teMembers t)) (tID ` set (teTasks t)) y"
    using d(1) who l unfolding task_base_def same later_def by (auto simp: reason)
  show "settled y" using d(3) fin(2) by (auto simp: settled_def lastIs_iff same)
  show "task_stamps now y" using d(4) l by (auto simp: task_stamps_def same later_def intro: order_trans)
  have "tasks_ok (teLimits t) (memberMap (teMembers t)) (teTasks t)"
    using team_invD(5) [OF inv] by (simp add: tasks_inv_def)
  then show "distinct (attemptIDs y)" "distinct (continuationIDs y)"
    using mem unfolding tasks_ok_def attemptIDs_def continuationIDs_def same
    by (auto simp: distinct_concat_iff)
qed (auto simp: attemptIDs_def continuationIDs_def same)

subsection \<open>Creating, assigning, claiming and retrying tasks\<close>

lemma findTask_None: "findTask t k = None \<longleftrightarrow> k \<notin> tID ` set (teTasks t)"
  by (auto simp: findTask_def)

lemma findMember_None: "findMember t k = None \<longleftrightarrow> k \<notin> mID ` set (teMembers t)"
  by (auto simp: findMember_def)

lemma taskOrZero_completed:
  assumes "distinct (map tID (teTasks t))"
  shows "tStatus (taskOrZero t d) = TaskStatusCompleted \<longleftrightarrow> d \<in> completedIDs (teTasks t)"
proof (cases "findTask t d")
  case None
  then have "d \<notin> completedIDs (teTasks t)" by (auto simp: findTask_None completedIDs_def)
  with None show ?thesis by (simp add: taskOrZero_def zero_task_def)
next
  case (Some p)
  then obtain x i where x: "findTask t d = Some (x, i)" by (cases p) auto
  from findTaskD [OF x] have "x \<in> set (teTasks t)" "tID x = d" by auto
  then have "d \<in> completedIDs (teTasks t) \<longleftrightarrow> tStatus x = TaskStatusCompleted"
    using assms by (auto simp: completedIDs_def distinct_map inj_on_def)
  with x show ?thesis by (simp add: taskOrZero_def)
qed

lemma dependencyStatus_iff:
  assumes "distinct (map tID (teTasks t))"
  shows "dependencyStatus x t = (if set (tDeps x) \<subseteq> completedIDs (teTasks t)
    then TaskStatusReady else TaskStatusPending)"
  by (auto simp: dependencyStatus_def list_all_iff taskOrZero_completed [OF assms])

lemma requestDependencies_None:
  "requestDependencies self prior ds = None \<longleftrightarrow>
     (\<forall>d \<in> set ds. safeID d) \<and> distinct ds \<and> set ds \<inter> set prior = {} \<and> self \<notin> set ds"
  by (induction ds arbitrary: prior) (auto simp: validateSafeID_def)

lemma task_base_mono: "task_base L M D x \<Longrightarrow> D \<subseteq> D' \<Longrightarrow> task_base L M D' x"
  by (auto simp: task_base_def)

lemma tasks_inv_append:
  assumes inv: "tasks_inv L M u xs" and uv: "u \<le> v" and n: "len xs < MaxTasks L"
    and new: "tID y \<notin> tID ` set xs" and base: "task_base L M (tID ` set xs) y"
    and state: "task_state_ok (completedIDs xs) y" and none: "tAttempts y = []"
    and idle: "\<not> isActiveTask y" "tStatus y \<noteq> TaskStatusCompleted" and st: "task_stamps v y"
  shows "tasks_inv L M v (xs @ [y])"
proof -
  have ok: "tasks_ok L M xs" using inv by (simp add: tasks_inv_def)
  have C: "completedIDs (xs @ [y]) = completedIDs xs" using idle by (auto simp: completedIDs_def)
  have "acyclic (depRel (xs @ [y]))"
    using ok new base by (intro acyclic_new_task) (auto simp: tasks_ok_def task_ok_def task_base_def)
  moreover have "task_ok L M (tID ` set (xs @ [y])) (completedIDs xs) z" if "z \<in> set (xs @ [y])" for z
    using that ok base state
    by (auto simp: tasks_ok_def task_ok_def intro: task_base_mono [OF _ subset_insertI])
  moreover have "settled y" using none by (simp add: settled_def lastIs_iff)
  ultimately show ?thesis
    using inv ok n new idle none st C task_stamps_later [OF _ uv]
    by (auto simp: tasks_inv_def tasks_ok_def attemptIDs_def continuationIDs_def claims_def len_def)
qed

lemma createTask_inv:
  assumes inv: "team_inv E t" and c: "createTask_check r = None"
    and run: "createTask a r t now = Inr (t', f)" and l: "later t now"
  shows "team_inv E (stamp now t')"
proof -
  let ?s = "if list_all (\<lambda>d. tStatus (taskOrZero t d) = TaskStatusCompleted) (ctDeps r)
    then TaskStatusReady else TaskStatusPending"
  have st: "teStatus t = StatusActive" and n: "len (teTasks t) < MaxTasks (teLimits t)"
    and lim: "len (ctDeps r) \<le> MaxDependenciesPerTask (teLimits t)"
      "ctAttemptLimit r \<le> MaxAttemptsPerTask (teLimits t)"
      "validateJSON (ctPayload r) (MaxJSONBytes (teLimits t)) = None"
    and new: "ctTaskID r \<notin> tID ` set (teTasks t)" and deps: "set (ctDeps r) \<subseteq> tID ` set (teTasks t)"
    and t': "t' = t\<lparr>teTasks := teTasks t @ [newTask r ?s now]\<rparr>"
    using run by (auto simp: createTask_def requireActive_def first_err_None requireTaskCount_def
        findTask_None Let_def not_less not_le)
  let ?y = "newTask r ?s now"
  have y: "tID ?y = ctTaskID r" "tStatus ?y = ?s" "tDeps ?y = ctDeps r" "tAttempts ?y = []"
      "tClaimed ?y = []" by (simp_all add: newTask_def)
  note d = team_invD(3) [OF inv]
  have now: "\<not> isZero now" using l by (simp add: later_def)
  have base: "task_base (teLimits t) (memberMap (teMembers t)) (tID ` set (teTasks t)) ?y"
    using c lim deps now unfolding task_base_def newTask_def createTask_check_def
    by (auto simp: validateSafeID_def requestDependencies_None validateReason_def validateText_def)
  have state: "task_state_ok (completedIDs (teTasks t)) ?y"
    unfolding task_state_ok_def y
    by (auto simp: list_all_iff taskOrZero_completed [OF d])
  have "tasks_inv (teLimits t) (memberMap (teMembers t)) now (teTasks t @ [?y])"
    using l n new base state
    by (intro tasks_inv_append [OF team_invD(5) [OF inv]])
      (auto simp: y later_def isActiveTask_def task_stamps_def newTask_def)
  then show ?thesis using team_inv_tasks [OF inv l st] by (simp add: t')
qed

lemma assignTask_inv:
  assumes inv: "team_inv E t" and run: "assignTask a k mk t now = Inr (t', f)" and l: "later t now"
  shows "team_inv E (stamp now t')"
proof -
  obtain m j x i where m: "findMember t mk = Some (m, j)" and x: "findTask t k = Some (x, i)"
    and st: "teStatus t = StatusActive" and s: "tStatus x = TaskStatusPending \<or> tStatus x = TaskStatusReady"
    and t': "t' = setTask t i (x\<lparr>tAssigned := mk, tUpdatedAt := now\<rparr>)"
    using run by (auto simp: assignTask_def requireActive_def split: option.splits)
  from findTaskD [OF x] have mem: "x \<in> set (teTasks t)" by simp
  note d = tasks_invD [OF team_invD(5) [OF inv] mem]
  show ?thesis unfolding t'
    by (rule setTask_same_attempts [OF inv l st x])
      (use s d findMemberD [OF m] in \<open>auto simp: task_base_def task_state_ok_def isActiveTask_def
        lastIs_iff lastAttempt_if\<close>)
qed

lemma unassignTask_inv:
  assumes inv: "team_inv E t" and run: "unassignTask a k t now = Inr (t', f)" and l: "later t now"
  shows "team_inv E (stamp now t')"
proof -
  obtain x i where x: "findTask t k = Some (x, i)" and st: "teStatus t = StatusActive"
    and s: "tStatus x = TaskStatusPending \<or> tStatus x = TaskStatusReady"
    and t': "t' = setTask t i (x\<lparr>tAssigned := [], tUpdatedAt := now\<rparr>)"
    using run by (auto simp: unassignTask_def requireActive_def split: option.splits)
  from findTaskD [OF x] have mem: "x \<in> set (teTasks t)" by simp
  note d = tasks_invD [OF team_invD(5) [OF inv] mem]
  show ?thesis unfolding t'
    by (rule setTask_same_attempts [OF inv l st x])
      (use s d in \<open>auto simp: task_base_def task_state_ok_def isActiveTask_def\<close>)
qed

lemma no_claims:
  assumes "\<not> memberHasActiveTask t k"
  shows "claims (teTasks t) k = 0"
  using assms by (auto simp: memberHasActiveTask_def claims_def list_ex_iff filter_empty_conv)

lemma claimTask_inv:
  assumes inv: "team_inv E t" and run: "claimTask a k t now = Inr (t', f)" and l: "later t now"
  shows "team_inv E (stamp now t')"
proof -
  obtain m j x i where m: "findMember t (acID a) = Some (m, j)" "mStatus m = MemberStatusActive"
    and x: "findTask t k = Some (x, i)" and st: "teStatus t = StatusActive"
    and s: "tStatus x = TaskStatusReady" and busy: "\<not> memberHasActiveTask t (mID m)"
    and n: "activeTaskCount t < MaxActiveTasks (teLimits t)"
    and t': "t' = setTask t i (x\<lparr>tStatus := TaskStatusClaimed, tClaimed := mID m, tReason := [],
      tUpdatedAt := now\<rparr>)"
    using run by (auto simp: claimTask_def requireActive_def bindE_Inr activeActorMember_Inr
        split: option.splits)
  note fm = findMemberD [OF m(1)]
  from findTaskD [OF x] have mem: "x \<in> set (teTasks t)" by simp
  note d = tasks_invD [OF team_invD(5) [OF inv] mem]
  have mm: "memberMap (teMembers t) (mID m) = Some m"
    using fm by (simp add: key_map_Some [OF team_invD(2) [OF inv]])
  have "member_ok m" using team_invD(7) [OF inv] fm by simp
  then have id: "mID m \<noteq> []"
    by (auto simp: member_ok_def validateMemberSpec_def memberSpecOf_def validateSafeID_def)
  have run': "\<not> lastIs x AttemptStatusRunning" using d(3) s by (auto simp: settled_def)
  show ?thesis unfolding t'
    by (rule setTask_same_attempts [OF inv l st x])
      (use s d m mm id run' n no_claims [OF busy] in \<open>auto simp: task_state_ok_def lastIs_iff
        activeTaskCount_def validateReason_def validateText_def\<close>)
qed

lemma releaseTask_inv:
  assumes inv: "team_inv E t" and run: "releaseTask a k r t now = Inr (t', f)" and l: "later t now"
  shows "team_inv E (stamp now t')"
proof -
  obtain x i where x: "findTask t k = Some (x, i)" and st: "teStatus t = StatusActive"
    and s: "tStatus x = TaskStatusClaimed"
    and t': "t' = setTask t i (x\<lparr>tStatus := TaskStatusReady, tClaimed := [], tUpdatedAt := now\<rparr>)"
    using run by (auto simp: releaseTask_def requireActive_def split: option.splits)
  from findTaskD [OF x] have mem: "x \<in> set (teTasks t)" by simp
  note d = tasks_invD [OF team_invD(5) [OF inv] mem]
  show ?thesis unfolding t'
    by (rule setTask_same_attempts [OF inv l st x])
      (use s d in \<open>auto simp: task_base_def task_state_ok_def isActiveTask_def\<close>)
qed

lemma retryTask_inv:
  assumes inv: "team_inv E t" and run: "retryTask a k r t now = Inr (t', f)" and l: "later t now"
  shows "team_inv E (stamp now t')"
proof -
  obtain x i where x: "findTask t k = Some (x, i)" and st: "teStatus t = StatusActive"
    and s: "tStatus x = TaskStatusFailed"
    and t': "t' = setTask t i (x\<lparr>tStatus := dependencyStatus x t, tReason := [], tUpdatedAt := now\<rparr>)"
    using run by (auto simp: retryTask_def requireActive_def split: option.splits)
  from findTaskD [OF x] have mem: "x \<in> set (teTasks t)" by simp
  note d = tasks_invD [OF team_invD(5) [OF inv] mem]
  show ?thesis unfolding t' dependencyStatus_iff [OF team_invD(3) [OF inv]]
    by (rule setTask_same_attempts [OF inv l st x])
      (use s d in \<open>auto simp: task_state_ok_def isActiveTask_def validateReason_def validateText_def
        split: if_splits\<close>)
qed

subsection \<open>Attempts\<close>

text \<open>The last attempt replaced: what stays.\<close>

lemma attempts_ok_last:
  assumes "attempts_ok L M 0 as" "as \<noteq> []" "attempt_ok L M (atNumber (last as)) b"
  shows "attempts_ok L M 0 (butlast as @ [b])" "attempt_ok L M (atNumber (last as)) (last as)"
proof -
  have "attempts_ok L M 0 (butlast as @ [last as])" using assms by simp
  then show "attempt_ok L M (atNumber (last as)) (last as)"
    by (simp add: attempt_ok_def)
  with \<open>attempts_ok L M 0 (butlast as @ [last as])\<close> assms(3) show "attempts_ok L M 0 (butlast as @ [b])"
    by (simp add: attempt_ok_def)
qed

lemma attempts_ok_lastD:
  "attempts_ok L M 0 as \<Longrightarrow> as \<noteq> [] \<Longrightarrow> attempt_ok L M (atNumber (last as)) (last as)"
  using attempts_ok_append [of L M 0 "butlast as" "[last as]"] by (simp add: attempt_ok_def)

lemma replace_last_map: "as \<noteq> [] \<Longrightarrow> f b = f (last as) \<Longrightarrow> map f (butlast as @ [b]) = map f as"
  by (metis append_butlast_last_id list.simps(8,9) map_append)

text \<open>A task that leaves the state \<open>Running\<close> with its last attempt ended, or that is cancelled.\<close>

definition ended :: "team_limits \<Rightarrow> (string \<rightharpoonup> member) \<Rightarrow> gtime \<Rightarrow> task \<Rightarrow> task \<Rightarrow> bool" where
  "ended L M now x y \<longleftrightarrow> tID y = tID x \<and> tDeps y = tDeps x \<and> tTitle y = tTitle x \<and>
     tDescription y = tDescription x \<and> tPayload y = tPayload x \<and> tAssigned y = tAssigned x \<and>
     tAttemptLimit y = tAttemptLimit x \<and> tCreatedAt y = tCreatedAt x \<and> tUpdatedAt y = now \<and>
     tClaimed y = [] \<and> validateReason (tReason y) False = None \<and>
     (tAttempts y = tAttempts x \<and> \<not> lastIs x AttemptStatusRunning \<or>
      tAttempts x \<noteq> [] \<and> (\<exists>b. tAttempts y = butlast (tAttempts x) @ [b] \<and>
        attempt_ok L M (atNumber (last (tAttempts x))) b \<and> atID b = atID (last (tAttempts x)) \<and>
        atContinuation b = atContinuation (last (tAttempts x)) \<and>
        atStartedAt b = atStartedAt (last (tAttempts x)) \<and> atStatus b \<noteq> AttemptStatusRunning))"

lemma ended_props:
  assumes e: "ended L M now x y" and b: "task_base L M D x" and s: "settled x" "task_stamps now x"
    and now: "\<not> isZero now"
  shows "task_base L M D y" "settled y" "task_stamps now y" "attemptIDs y = attemptIDs x"
    "continuationIDs y = continuationIDs x" "\<not> lastIs y AttemptStatusRunning"
proof -
  have at: "attempts_ok L M 0 (tAttempts x)" using b by (simp add: task_base_def)
  have "attempts_ok L M 0 (tAttempts y) \<and> len (tAttempts y) = len (tAttempts x) \<and>
      attemptIDs y = attemptIDs x \<and> continuationIDs y = continuationIDs x \<and>
      \<not> lastIs y AttemptStatusRunning \<and> butlast (tAttempts y) = butlast (tAttempts x) \<and>
      (\<forall>c \<in> set (tAttempts y). atStartedAt c \<le> now)"
  proof (cases "tAttempts y = tAttempts x \<and> \<not> lastIs x AttemptStatusRunning")
    case True
    with at s(2) show ?thesis
      by (simp add: attemptIDs_def continuationIDs_def lastIs_iff task_stamps_def)
  next
    case False
    with e obtain b where b: "tAttempts x \<noteq> []" "tAttempts y = butlast (tAttempts x) @ [b]"
        "attempt_ok L M (atNumber (last (tAttempts x))) b" "atID b = atID (last (tAttempts x))"
        "atContinuation b = atContinuation (last (tAttempts x))"
        "atStartedAt b = atStartedAt (last (tAttempts x))" "atStatus b \<noteq> AttemptStatusRunning"
      by (auto simp: ended_def)
    have "\<forall>c \<in> set (tAttempts y). atStartedAt c \<le> now"
      using s(2) b(1,2,6) by (auto simp: task_stamps_def dest: in_set_butlastD)
    then show ?thesis using b attempts_ok_last(1) [OF at b(1,3)]
      by (simp add: attemptIDs_def continuationIDs_def replace_last_map lastIs_iff len_def
          butlast_append del: map_append)
  qed
  note * = this
  then show "settled y" "task_stamps now y" "attemptIDs y = attemptIDs x"
      "continuationIDs y = continuationIDs x" "\<not> lastIs y AttemptStatusRunning"
    using s e by (auto simp: settled_def task_stamps_def ended_def)
  have "tCreatedAt x \<le> now" using s(2) by (simp add: task_stamps_def)
  with * b e now show "task_base L M D y" by (simp add: task_base_def ended_def)
qed

lemma setTask_ended:
  assumes inv: "team_inv E t" and l: "later t now" and st: "teStatus t = StatusActive"
    and x: "findTask t k = Some (x, i)"
    and e: "ended (teLimits t) (memberMap (teMembers t)) now x y"
    and fin: "tStatus y \<noteq> TaskStatusCompleted" "tStatus x \<noteq> TaskStatusCompleted" "\<not> isActiveTask y"
    and state: "task_state_ok (completedIDs (teTasks t)) y"
  shows "team_inv E (stamp now (setTask t i y))"
proof -
  from findTaskD [OF x] have mem: "x \<in> set (teTasks t)" by simp
  note d = tasks_invD [OF team_invD(5) [OF inv] mem]
  have now: "\<not> isZero now" "task_stamps now x"
    using l task_stamps_later [OF d(4)] by (auto simp: later_def)
  note p = ended_props [OF e d(1,3) now(2,1)]
  have ok: "tasks_ok (teLimits t) (memberMap (teMembers t)) (teTasks t)"
    using team_invD(5) [OF inv] by (simp add: tasks_inv_def)
  have ids: "distinct (attemptIDs x)" "distinct (continuationIDs x)"
    using ok mem by (auto simp: tasks_ok_def distinct_concat_iff)
  show ?thesis
    by (rule team_inv_setTask [OF inv l st x _ _ _ p(1) state p(2,3)])
      (use fin e ids in \<open>simp_all add: p(4,5) ended_def\<close>)
qed

lemma cancelAttempt_ok:
  assumes "attempt_ok L M n a" "atStatus a = AttemptStatusRunning" "validateReason r True = None"
    and "\<not> isZero now" "atStartedAt a \<le> now"
  shows "attempt_ok L M n (cancelAttempt r now a)"
  using assms by (auto simp: attempt_ok_def attempt_state_ok_def cancelAttempt_def)

lemma reason_weaken: "validateReason r b = None \<Longrightarrow> validateReason r False = None"
  by (simp add: validateReason_def validateText_def)

lemma ended_cancelled:
  assumes base: "task_base L M D x" and s: "settled x" "task_stamps now x"
    and r: "validateReason r True = None" and now: "\<not> isZero now"
    and x': "if tStatus x = TaskStatusRunning then cancelLastAttempt r now x = Inr x' else x' = x"
    and run: "tStatus x = TaskStatusRunning \<Longrightarrow> lastIs x AttemptStatusRunning"
  shows "ended L M now x (cancelledTask r now x')"
proof (cases "tStatus x = TaskStatusRunning")
  case True
  let ?a = "last (tAttempts x)"
  from True run have a: "tAttempts x \<noteq> []" "atStatus ?a = AttemptStatusRunning"
    by (simp_all add: lastIs_iff)
  have "attempt_ok L M (atNumber ?a) ?a" using base a(1) attempts_ok_lastD by (simp add: task_base_def)
  moreover have "atStartedAt ?a \<le> now" using s(2) a(1) by (simp add: task_stamps_def)
  ultimately have "attempt_ok L M (atNumber ?a) (cancelAttempt r now ?a)"
    using a(2) r now by (intro cancelAttempt_ok)
  with True a x' reason_weaken [OF r] show ?thesis
    by (auto simp: ended_def cancelledTask_def cancelLastAttempt_def cancelAttempt_def)
next
  case False
  with s(1) x' reason_weaken [OF r] show ?thesis
    by (auto simp: ended_def cancelledTask_def settled_def)
qed

lemma task_state_running: "task_state_ok C x \<Longrightarrow> tStatus x = TaskStatusRunning \<Longrightarrow> lastIs x AttemptStatusRunning"
  by (simp add: task_state_ok_def lastIs_iff)

lemma cancelTask_inv:
  assumes inv: "team_inv E t" and c: "cancelTask_check k r = None"
    and run: "cancelTask a k r t now = Inr (t', f)" and l: "later t now"
  shows "team_inv E (stamp now t')"
proof -
  obtain x i x' where x: "findTask t k = Some (x, i)" and st: "teStatus t = StatusActive"
    and s: "tStatus x \<noteq> TaskStatusCompleted"
    and x': "if tStatus x = TaskStatusRunning then cancelLastAttempt r now x = Inr x' else x' = x"
    and t': "t' = setTask t i (cancelledTask r now x')"
    using run by (auto simp: cancelTask_def requireActive_def bindE_Inr split: option.splits if_splits)
  from findTaskD [OF x] have mem: "x \<in> set (teTasks t)" by simp
  note d = tasks_invD [OF team_invD(5) [OF inv] mem]
  have now: "\<not> isZero now" "task_stamps now x"
    using l task_stamps_later [OF d(4)] by (auto simp: later_def)
  have r: "validateReason r True = None" using c by (simp add: cancelTask_check_def)
  note e = ended_cancelled [OF d(1,3) now(2) r now(1) x' task_state_running [OF d(2)]]
  note p = ended_props [OF e d(1,3) now(2,1)]
  show ?thesis unfolding t'
    by (rule setTask_ended [OF inv l st x e])
      (use s p(6) in \<open>simp_all add: cancelledTask_def isActiveTask_def task_state_ok_def Let_def lastIs_iff\<close>)
qed

lemma startTaskAttempt_inv:
  assumes inv: "team_inv E t" and c: "startTaskAttempt_check k ak ck = None"
    and run: "startTaskAttempt a k ak ck t now = Inr (t', f)" and l: "later t now"
  shows "team_inv E (stamp now t')"
proof -
  obtain x i where x: "findTask t k = Some (x, i)" and st: "teStatus t = StatusActive"
    and s: "tStatus x = TaskStatusClaimed" and n: "len (tAttempts x) < tAttemptLimit x"
    and new: "\<forall>y \<in> set (teTasks t). \<forall>b \<in> set (tAttempts y). atID b \<noteq> ak \<and> atContinuation b \<noteq> ck"
    and t': "t' = setTask t i (x\<lparr>tStatus := TaskStatusRunning,
      tAttempts := tAttempts x @ [newAttempt x ak ck now], tUpdatedAt := now\<rparr>)"
    using run by (auto simp: startTaskAttempt_def requireActive_def list_ex_iff split: option.splits)
  let ?b = "newAttempt x ak ck now"
  from findTaskD [OF x] have mem: "x \<in> set (teTasks t)" by simp
  note d = tasks_invD [OF team_invD(5) [OF inv] mem]
  have now: "\<not> isZero now" "task_stamps now x"
    using l task_stamps_later [OF d(4)] by (auto simp: later_def)
  have cl: "tClaimed x \<noteq> []" "\<not> lastIs x AttemptStatusRunning"
    using d(2) s by (simp_all add: task_state_ok_def)
  have "tClaimed x \<in> dom (memberMap (teMembers t))" using d(1) cl(1) unfolding task_base_def by blast
  moreover have "1 \<le> MaxArtifactsPerResult (teLimits t)"
    using team_invD(1) [OF inv] by (simp add: header_ok_def limits_ok_def)
  ultimately have b: "attempt_ok (teLimits t) (memberMap (teMembers t)) (len (tAttempts x) + 1) ?b"
    using c now(1) by (simp add: attempt_ok_def attempt_state_ok_def newAttempt_def
        startTaskAttempt_check_def validateSafeID_def validateJSON_def validateArtifacts_def
        validateReason_def validateText_def isZero_def zero_time_def del: dom_key_map)
  have base: "task_base (teLimits t) (memberMap (teMembers t)) (tID ` set (teTasks t))
      (x\<lparr>tStatus := TaskStatusRunning, tAttempts := tAttempts x @ [?b], tUpdatedAt := now\<rparr>)"
    using d(1) b n now unfolding task_base_def task_stamps_def by simp
  have ok: "tasks_ok (teLimits t) (memberMap (teMembers t)) (teTasks t)"
    using team_invD(5) [OF inv] by (simp add: tasks_inv_def)
  have ids: "distinct (attemptIDs x)" "distinct (continuationIDs x)"
    using ok mem by (auto simp: tasks_ok_def distinct_concat_iff)
  have fresh: "ak \<notin> set (concat (map attemptIDs (teTasks t)))"
      "ck \<notin> set (concat (map continuationIDs (teTasks t)))"
    using new by (auto simp: attemptIDs_def continuationIDs_def)
  have none: "\<forall>a \<in> set (tAttempts x). atStatus a \<noteq> AttemptStatusRunning"
  proof (cases "tAttempts x = []")
    case False
    with d(3) cl(2) show ?thesis unfolding settled_def lastIs_iff
      by (metis append_butlast_last_id in_set_conv_decomp rotate1.simps(2) set_ConsD set_rotate1)
  qed simp
  show ?thesis unfolding t'
  proof (rule team_inv_setTask [OF inv l st x _ _ _ base])
    show "settled (x\<lparr>tStatus := TaskStatusRunning, tAttempts := tAttempts x @ [?b], tUpdatedAt := now\<rparr>)"
      using none by (simp add: settled_def)
  qed (use s ids fresh cl now mem in \<open>auto simp: attemptIDs_def continuationIDs_def isActiveTask_def
      task_state_ok_def newAttempt_def task_stamps_def\<close>)
qed

end
