(* ===== verification/TeamPromote.thy ===== *)
theory TeamPromote
  imports TeamPreserveTask
begin

section \<open>Team: promotion, completion and termination preserve the invariant\<close>

subsection \<open>Promotion as a map\<close>

text \<open>
  \<open>promoteReadyTasks\<close> looks each task's dependencies up in the snapshot it is updating. A
  promotion completes no task, so the loop is the map \<open>promoted\<close> with the completed IDs of the
  start.
\<close>

definition promoted :: "gtime \<Rightarrow> string set \<Rightarrow> task \<Rightarrow> task" where
  "promoted now C x = (if tStatus x = TaskStatusPending \<and> set (tDeps x) \<subseteq> C
     then x\<lparr>tStatus := TaskStatusReady, tUpdatedAt := now\<rparr> else x)"

lemma promoted_simps [simp]:
  "tID (promoted now C x) = tID x" "tDeps (promoted now C x) = tDeps x"
  "tAttempts (promoted now C x) = tAttempts x" "tClaimed (promoted now C x) = tClaimed x"
  "tStatus (promoted now C x) = TaskStatusCompleted \<longleftrightarrow> tStatus x = TaskStatusCompleted"
  "isActiveTask (promoted now C x) = isActiveTask x"
  by (auto simp: promoted_def isActiveTask_def)

lemma promoted_ids [simp]:
  "attemptIDs (promoted now C x) = attemptIDs x"
  "continuationIDs (promoted now C x) = continuationIDs x"
  by (simp_all add: attemptIDs_def continuationIDs_def)

lemma completedIDs_promoted [simp]: "completedIDs (map (promoted now C) xs) = completedIDs xs"
  by (auto simp: completedIDs_def image_iff) (metis promoted_simps(1,5))+

lemma completedIDs_append: "completedIDs (xs @ ys) = completedIDs xs \<union> completedIDs ys"
  by (auto simp: completedIDs_def)

lemma promoteAt_step:
  assumes "distinct (map tID xs)" "k < length xs"
  shows "promoteAt now (t\<lparr>teTasks := map (promoted now (completedIDs xs)) (take k xs) @ drop k xs\<rparr>) k =
    t\<lparr>teTasks := map (promoted now (completedIDs xs)) (take (Suc k) xs) @ drop (Suc k) xs\<rparr>"
proof -
  let ?g = "promoted now (completedIDs xs)"
  let ?ys = "map ?g (take k xs) @ drop k xs"
  have "map tID ?ys = map tID (take k xs) @ map tID (drop k xs)" by (simp add: comp_def)
  then have d: "distinct (map tID ?ys)" using assms(1) by (metis append_take_drop_id map_append)
  have C: "completedIDs ?ys = completedIDs xs"
    by (metis append_take_drop_id completedIDs_append completedIDs_promoted)
  have y: "?ys ! k = xs ! k" using assms(2) by (simp add: nth_append)
  have "?ys[k := ?g (xs ! k)] = map ?g (take (Suc k) xs) @ drop (Suc k) xs"
    using assms(2) by (simp add: list_update_append take_Suc_conv_app_nth Cons_nth_drop_Suc [symmetric])
  moreover have "?ys[k := xs ! k] = ?ys" using y by (metis list_update_id)
  moreover have "promoteAt now (t\<lparr>teTasks := ?ys\<rparr>) k = t\<lparr>teTasks := ?ys[k := ?g (xs ! k)]\<rparr>"
  proof -
    have "dependencyStatus (xs ! k) (t\<lparr>teTasks := ?ys\<rparr>) =
        (if set (tDeps (xs ! k)) \<subseteq> completedIDs xs then TaskStatusReady else TaskStatusPending)"
      using dependencyStatus_iff [of "t\<lparr>teTasks := ?ys\<rparr>" "xs ! k"] d C by simp
    then show ?thesis
      using y calculation(2) by (simp add: promoteAt_def setTask_def promoted_def [of _ _ "xs ! k"] Let_def)
  qed
  ultimately show ?thesis by simp
qed

lemma promoteReadyTasks_map:
  assumes "distinct (map tID (teTasks t))"
  shows "promoteReadyTasks t now =
    t\<lparr>teTasks := map (promoted now (completedIDs (teTasks t))) (teTasks t)\<rparr>"
proof -
  let ?xs = "teTasks t" and ?g = "promoted now (completedIDs (teTasks t))"
  have "foldl (promoteAt now) t [0..<k] = t\<lparr>teTasks := map ?g (take k ?xs) @ drop k ?xs\<rparr>"
    if "k \<le> length ?xs" for k
    using that
  proof (induction k)
    case (Suc k)
    then show ?case using promoteAt_step [OF assms, of k now t] by simp
  qed simp
  from this [of "length ?xs"] show ?thesis by (simp add: promoteReadyTasks_def)
qed

subsection \<open>Finishing an attempt\<close>

lemma finishedAttempt_ok:
  assumes "attempt_ok L M n a" "atStatus a = AttemptStatusRunning"
    and "validateReason (frReason r) (frOutcome r = AttemptOutcomeFailed) = None"
    and "frOutcome r = AttemptOutcomeCompleted \<or> frOutcome r = AttemptOutcomeFailed"
    and "validateJSON (frResult r) (MaxJSONBytes L) = None"
    and "validateArtifacts (frArtifacts r) (MaxArtifactsPerResult L) = None"
    and "\<not> isZero now" "atStartedAt a \<le> now"
  shows "attempt_ok L M n (finishedAttempt r now a)"
  using assms by (auto simp: attempt_ok_def attempt_state_ok_def finishedAttempt_def)

lemma task_state_mono:
  assumes "task_state_ok C x" "C \<subseteq> C'"
  shows "task_state_ok C' (promoted now C' x)"
  using assms
  by (cases "tStatus x") (auto simp: task_state_ok_def promoted_def Let_def lastIs_iff)

lemma promoted_base:
  "task_base L M D x \<Longrightarrow> \<not> isZero now \<Longrightarrow> tCreatedAt x \<le> now \<Longrightarrow> task_base L M D (promoted now C x)"
  by (auto simp: promoted_def task_base_def)

lemma promoted_settled: "settled x \<Longrightarrow> settled (promoted now C x)"
  by (auto simp: promoted_def settled_def lastIs_iff)

lemma finishTaskAttempt_inv:
  assumes inv: "team_inv E t" and c: "finishTaskAttempt_check r = None"
    and run: "finishTaskAttempt a r t now = Inr (t', f)" and l: "later t now"
  shows "team_inv E (stamp now t')"
proof -
  let ?L = "teLimits t" and ?M = "memberMap (teMembers t)" and ?xs = "teTasks t"
  obtain x i where x: "findTask t (frTaskID r) = Some (x, i)" and st: "teStatus t = StatusActive"
    and s: "tStatus x = TaskStatusRunning" and ne: "tAttempts x \<noteq> []"
    and v: "validateJSON (frResult r) (MaxJSONBytes ?L) = None"
      "validateArtifacts (frArtifacts r) (MaxArtifactsPerResult ?L) = None"
    and t': "t' = (if frOutcome r = AttemptOutcomeCompleted
      then promoteReadyTasks (setTask t i (finishedTask r now x)) now
      else setTask t i (finishedTask r now x))"
    using run by (auto simp: finishTaskAttempt_def requireActive_def Let_def
        split: option.splits if_splits)
  let ?y = "finishedTask r now x" and ?a = "last (tAttempts x)"
  from findTaskD [OF x] have i: "i < length ?xs" "?xs ! i = x" and mem: "x \<in> set ?xs" by auto
  note inv' = team_invD(5) [OF inv]
  note d = tasks_invD [OF inv' mem]
  have now: "\<not> isZero now" "task_stamps now x" "teUpdatedAt t \<le> now"
    using l task_stamps_later [OF d(4)] by (auto simp: later_def)
  have a: "atStatus ?a = AttemptStatusRunning" using d(2) s by (simp add: task_state_ok_def)
  have chk: "validateReason (frReason r) (frOutcome r = AttemptOutcomeFailed) = None"
      "frOutcome r = AttemptOutcomeCompleted \<or> frOutcome r = AttemptOutcomeFailed"
    using c by (auto simp: finishTaskAttempt_check_def)
  have "attempt_ok ?L ?M (atNumber ?a) ?a" "atStartedAt ?a \<le> now"
    using d(1) now(2) ne attempts_ok_lastD by (auto simp: task_base_def task_stamps_def)
  then have "attempt_ok ?L ?M (atNumber ?a) (finishedAttempt r now ?a)"
    using a chk v now(1) by (intro finishedAttempt_ok)
  then have e: "ended ?L ?M now x ?y"
    using ne reason_weaken [OF chk(1)] by (auto simp: ended_def finishedTask_def finishedAttempt_def)
  note p = ended_props [OF e d(1,3) now(2,1)]
  have step: "tID ?y = tID x" "tDeps ?y = tDeps x" "\<not> isActiveTask ?y" "tClaimed ?y = []"
    by (simp_all add: finishedTask_def isActiveTask_def)
  show ?thesis
  proof (cases "frOutcome r = AttemptOutcomeCompleted")
    case False
    then have "tStatus ?y = TaskStatusFailed" "lastIs ?y AttemptStatusFailed"
      using chk(2) by (simp_all add: finishedTask_def lastIs_iff finishedAttempt_def)
    then have "team_inv E (stamp now (setTask t i ?y))"
      using s step by (intro setTask_ended [OF inv l st x e]) (auto simp: task_state_ok_def)
    with False show ?thesis by (simp add: t')
  next
    case True
    then have y: "tStatus ?y = TaskStatusCompleted" "lastIs ?y AttemptStatusCompleted"
      by (simp_all add: finishedTask_def lastIs_iff finishedAttempt_def)
    let ?ys = "?xs[i := ?y]" and ?C = "insert (tID x) (completedIDs ?xs)"
    have ok: "tasks_ok ?L ?M ?xs" using inv' by (simp add: tasks_inv_def)
    have C: "completedIDs ?ys = ?C"
      using completedIDs_complete [OF i(1), of ?y] y step i(2) by simp
    have st1: "task_step ?xs ?ys" using i step by (intro task_step_update) auto
    then have dist: "distinct (map tID ?ys)"
      using ok task_step_ids(1) [OF st1] by (simp add: tasks_ok_def)
    have "task_step ?xs (map (promoted now ?C) ?ys)"
      using st1 by (auto simp: task_step_def list_all2_conv_all_nth)
    moreover have "task_base ?L ?M (tID ` set ?xs) z \<and> task_state_ok ?C z \<and> settled z \<and> task_stamps now z"
      if zin: "z \<in> set (map (promoted now ?C) ?ys)" for z
    proof -
      obtain w where z: "z = promoted now ?C w" and w: "w = ?y \<or> w \<in> set ?xs"
        using zin set_update_subset_insert [of ?xs i ?y] unfolding set_map by blast
      have w1: "task_base ?L ?M (tID ` set ?xs) w \<and> settled w \<and> task_stamps now w"
        using w p(1-3) tasks_invD [OF inv'] task_stamps_later [OF _ now(3)] by blast
      have w2: "task_state_ok ?C z"
      proof (cases "w = ?y")
        case True
        then show ?thesis using y step by (simp add: z promoted_def task_state_ok_def)
      next
        case False
        then show ?thesis using w tasks_invD(2) [OF inv'] unfolding z
          by (intro task_state_mono [of "completedIDs ?xs"]) auto
      qed
      have "task_stamps now z" using w1 by (auto simp: z task_stamps_def promoted_def)
      with w1 w2 now(1) show ?thesis
        by (simp add: z promoted_base promoted_settled task_stamps_def)
    qed
    moreover have "map attemptIDs (map (promoted now ?C) ?ys) = map attemptIDs ?xs"
      "map continuationIDs (map (promoted now ?C) ?ys) = map continuationIDs ?xs"
      using i p(4,5) list_update_map_same [OF i(1), of attemptIDs ?y]
        list_update_map_same [OF i(1), of continuationIDs ?y]
      by (simp_all add: comp_def)
    moreover have "claims (map (promoted now ?C) ?ys) k = claims ?ys k" for k
      by (induction ?ys) (auto simp: claims_def filter_map comp_def)
    moreover have "len (filter isActiveTask (map (promoted now ?C) ?ys)) = len (filter isActiveTask ?ys)"
      by (simp add: filter_map comp_def len_def)
    moreover have "\<forall>k. claims ?ys k \<le> 1" "len (filter isActiveTask ?ys) \<le> MaxActiveTasks ?L"
      using ok step claims_update [of ?xs "MaxActiveTasks ?L" i ?y] i(1) by (auto simp: tasks_ok_def)
    ultimately have "tasks_inv ?L ?M now (map (promoted now ?C) ?ys)"
      using ok by (intro tasks_inv_step [OF inv']) (auto simp: tasks_ok_def C)
    then have "team_inv E (stamp now (t\<lparr>teTasks := map (promoted now ?C) ?ys\<rparr>))"
      by (rule team_inv_tasks [OF inv l st])
    moreover have "t' = t\<lparr>teTasks := map (promoted now ?C) ?ys\<rparr>"
      using True promoteReadyTasks_map [of "setTask t i ?y" now] dist C by (simp add: t' setTask_def)
    ultimately show ?thesis by simp
  qed
qed

subsection \<open>Completing and terminating the Team\<close>

lemma completeTeam_inv:
  assumes inv: "team_inv E t" and c: "completeTeam_check out as r = None"
    and run: "completeTeam a out as r t now = Inr (t', f)" and l: "later t now"
  shows "team_inv E (stamp now t')"
proof -
  have st: "teStatus t = StatusActive"
    and v: "validateJSON out (MaxJSONBytes (teLimits t)) = None"
      "validateArtifacts as (MaxArtifactsPerResult (teLimits t)) = None"
    and all: "\<forall>x \<in> set (teTasks t). tStatus x = TaskStatusCompleted \<or> tStatus x = TaskStatusCancelled"
    and t': "t' = t\<lparr>teStatus := StatusCompleted, teOutput := out, teArtifacts := as, teReason := r\<rparr>"
    using run by (auto simp: completeTeam_def requireActive_def first_err_None)
  have "header_ok (stamp now t')"
    using team_invD(1) [OF inv] c v l order_trans [of "teCreatedAt t" "teUpdatedAt t" now]
    by (auto simp: t' header_ok_def later_def completeTeam_check_def validStatus_def)
  moreover have "members_inv E (teLimits t) (teLead t) (teNextSeq t) now (teMembers t)"
    "tasks_inv (teLimits t) (memberMap (teMembers t)) now (teTasks t)"
    using inv l members_inv_later tasks_inv_later by (auto simp: team_inv_def later_def)
  moreover have "lifecycle_ok StatusCompleted (teTasks t)" using all by (auto simp: lifecycle_ok_def)
  ultimately show ?thesis by (simp add: team_inv_def t')
qed

lemma terminateTask_Inr:
  assumes "terminateTask r now x = Inr y"
  shows "tStatus x \<in> {TaskStatusCompleted, TaskStatusCancelled, TaskStatusFailed} \<and> y = x \<or>
    tStatus x \<notin> {TaskStatusCompleted, TaskStatusCancelled, TaskStatusFailed} \<and>
    (\<exists>x'. (if tStatus x = TaskStatusRunning then cancelLastAttempt r now x = Inr x' else x' = x) \<and>
       y = cancelledTask r now x')"
  using assms by (auto simp: terminateTask_def bindE_Inr split: task_status.splits)

lemma terminateTasks_Inr:
  "terminateTasks r now xs = Inr ys \<longleftrightarrow> list_all2 (\<lambda>x y. terminateTask r now x = Inr y) xs ys"
proof (induction xs arbitrary: ys)
  case (Cons x xs)
  then show ?case by (cases ys) (auto simp: bindE_Inr)
qed (auto split: list.splits)

lemma list_all2_filter_none: "list_all (\<lambda>y. \<not> P y) ys \<Longrightarrow> filter P ys = []"
  by (auto simp: list_all_iff filter_empty_conv)

definition finalStatus :: "task_status \<Rightarrow> bool" where
  "finalStatus s \<longleftrightarrow> s = TaskStatusCompleted \<or> s = TaskStatusCancelled \<or> s = TaskStatusFailed"

lemma terminate_each:
  assumes inv: "tasks_inv L M u xs" and x: "x \<in> set xs" and run: "terminateTask r now x = Inr y"
    and r: "validateReason r True = None" and now: "\<not> isZero now" "u \<le> now"
  shows "task_base L M (tID ` set xs) y \<and> task_state_ok (completedIDs xs) y \<and> settled y \<and>
    task_stamps now y \<and> tID y = tID x \<and> tDeps y = tDeps x \<and> finalStatus (tStatus y) \<and>
    attemptIDs y = attemptIDs x \<and> continuationIDs y = continuationIDs x \<and>
    (tStatus y = TaskStatusCompleted \<longleftrightarrow> tStatus x = TaskStatusCompleted)"
  using terminateTask_Inr [OF run]
proof (elim disjE conjE exE)
  assume "tStatus x \<in> {TaskStatusCompleted, TaskStatusCancelled, TaskStatusFailed}" "y = x"
  with tasks_invD [OF inv x] task_stamps_later [OF _ now(2)] show ?thesis
    by (auto simp: finalStatus_def)
next
  fix x'
  assume s: "tStatus x \<notin> {TaskStatusCompleted, TaskStatusCancelled, TaskStatusFailed}"
    and x': "if tStatus x = TaskStatusRunning then cancelLastAttempt r now x = Inr x' else x' = x"
    and y: "y = cancelledTask r now x'"
  note d = tasks_invD [OF inv x]
  note st = task_stamps_later [OF d(4) now(2)]
  note e = ended_cancelled [OF d(1,3) st r now(1) x' task_state_running [OF d(2)]]
  note p = ended_props [OF e d(1,3) st now(1)]
  have "tID y = tID x" "tDeps y = tDeps x" "tClaimed y = []" using e by (simp_all add: y ended_def)
  moreover have "tStatus y = TaskStatusCancelled" by (simp add: y cancelledTask_def)
  ultimately show ?thesis using p s by (simp add: y finalStatus_def task_state_ok_def)
qed

lemma list_all2_map_eq: "list_all2 (\<lambda>x y. f y = f x) xs ys \<Longrightarrow> map f ys = map f xs"
  by (induction rule: list_all2_induct) auto

lemma terminalizeTeam_inv:
  assumes inv: "team_inv E t" and c: "terminalizeTeam_check r = None"
    and run: "terminalizeTeam op s k a r t now = Inr (t', f)" and l: "later t now"
    and s: "s = StatusFailed \<or> s = StatusCancelled"
  shows "team_inv E (stamp now t')"
proof -
  let ?L = "teLimits t" and ?M = "memberMap (teMembers t)"
  obtain ys where st: "teStatus t = StatusActive" and ys: "terminateTasks r now (teTasks t) = Inr ys"
    and t': "t' = t\<lparr>teTasks := ys, teStatus := s, teReason := r\<rparr>"
    using run by (auto simp: terminalizeTeam_def requireActive_def bindE_Inr)
  have r: "validateReason r True = None" using c by (simp add: terminalizeTeam_check_def)
  have now: "\<not> isZero now" "teUpdatedAt t \<le> now" using l by (auto simp: later_def)
  note inv' = team_invD(5) [OF inv]
  have all: "list_all2 (\<lambda>x y. x \<in> set (teTasks t) \<and> terminateTask r now x = Inr y) (teTasks t) ys"
    using ys by (auto simp: terminateTasks_Inr list_all2_conv_all_nth)
  have each: "list_all2 (\<lambda>x y. task_base ?L ?M (tID ` set (teTasks t)) y \<and>
      task_state_ok (completedIDs (teTasks t)) y \<and> settled y \<and> task_stamps now y \<and> tID y = tID x \<and>
      tDeps y = tDeps x \<and> finalStatus (tStatus y) \<and> attemptIDs y = attemptIDs x \<and>
      continuationIDs y = continuationIDs x \<and>
      (tStatus y = TaskStatusCompleted \<longleftrightarrow> tStatus x = TaskStatusCompleted)) (teTasks t) ys"
    by (rule list_all2_mono [OF all]) (use terminate_each [OF inv' _ _ r now] in blast)
  have "completedIDs ys = completedIDs (teTasks t)"
    using each by (intro set_eqI) (auto simp: completedIDs_nth list_all2_conv_all_nth)
  moreover have "map attemptIDs ys = map attemptIDs (teTasks t)"
    "map continuationIDs ys = map continuationIDs (teTasks t)"
    by (rule list_all2_map_eq, rule list_all2_mono [OF each], simp)+
  moreover have ps: "\<forall>y \<in> set ys. task_base ?L ?M (tID ` set (teTasks t)) y \<and>
      task_state_ok (completedIDs (teTasks t)) y \<and> settled y \<and> task_stamps now y \<and> finalStatus (tStatus y)"
    using each by (auto simp: list_all2_conv_all_nth in_set_conv_nth)
  moreover have "filter (\<lambda>x. isActiveTask x \<and> P x) ys = []" for P
    using ps by (auto simp: filter_empty_conv isActiveTask_def finalStatus_def)
  then have "claims ys k = 0" "filter isActiveTask ys = []" for k
    using ps by (auto simp: claims_def filter_empty_conv isActiveTask_def finalStatus_def)
  moreover have "task_step (teTasks t) ys" unfolding task_step_def
    by (rule list_all2_mono [OF each]) simp
  moreover have lim: "limits_ok ?L" and ok: "tasks_ok ?L ?M (teTasks t)"
    using team_invD(1) [OF inv] inv' by (simp_all add: header_ok_def tasks_inv_def)
  ultimately have "tasks_inv ?L ?M now ys"
    by (intro tasks_inv_step [OF inv']) (auto simp: tasks_ok_def limits_ok_def)
  moreover have "header_ok (stamp now t')"
    using team_invD(1) [OF inv] r l s st order_trans [of "teCreatedAt t" "teUpdatedAt t" now]
    by (auto simp: t' header_ok_def later_def validStatus_def)
  moreover have "members_inv E ?L (teLead t) (teNextSeq t) now (teMembers t)"
    using inv l members_inv_later by (auto simp: team_inv_def later_def)
  moreover have "lifecycle_ok s ys" using ps s by (auto simp: lifecycle_ok_def finalStatus_def)
  ultimately show ?thesis by (simp add: team_inv_def t')
qed

end
