(* ===== verification/TeamRecord.thy ===== *)
theory TeamRecord
  imports TeamAttempt
begin

section \<open>Team: validation of records, histories and pages\<close>

text \<open>
  The record half of \<^verbatim>\<open>agent/team/validate.go\<close>, the options' checks, and
  \<^verbatim>\<open>agent/team/store_validation.go\<close>. The loops over Go maps of four checks all fail with the same
  error, so their order does not show.
\<close>

subsection \<open>Transitions\<close>

definition requireRef :: "string \<Rightarrow> team_error option" where
  "requireRef k = fail_if (k = []) ErrInvalid"

definition validateCauseReferences :: "transition \<Rightarrow> team_error option" where
  "validateCauseReferences r = (case trCause r of
       CauseCreate \<Rightarrow> requireRef (trMemberID r)
     | CauseMemberRegistered \<Rightarrow> requireRef (trMemberID r)
     | CauseMemberDisabled \<Rightarrow> requireRef (trMemberID r)
     | CauseMemberEnabled \<Rightarrow> requireRef (trMemberID r)
     | CauseMessagesAcknowledged \<Rightarrow> requireRef (trMemberID r)
     | CauseTaskCreated \<Rightarrow> requireRef (trTaskID r)
     | CauseTaskRetried \<Rightarrow> requireRef (trTaskID r)
     | CauseTaskAssigned \<Rightarrow> first_err [requireRef (trTaskID r), requireRef (trMemberID r)]
     | CauseTaskUnassigned \<Rightarrow> first_err [requireRef (trTaskID r), requireRef (trMemberID r)]
     | CauseTaskClaimed \<Rightarrow> first_err [requireRef (trTaskID r), requireRef (trMemberID r)]
     | CauseTaskReleased \<Rightarrow> first_err [requireRef (trTaskID r), requireRef (trMemberID r)]
     | CauseTaskAttemptStarted \<Rightarrow> first_err
         [requireRef (trTaskID r), requireRef (trMemberID r), requireRef (trAttemptID r)]
     | CauseTaskAttemptCompleted \<Rightarrow> first_err
         [requireRef (trTaskID r), requireRef (trMemberID r), requireRef (trAttemptID r)]
     | CauseTaskAttemptFailed \<Rightarrow> first_err
         [requireRef (trTaskID r), requireRef (trMemberID r), requireRef (trAttemptID r)]
     | CauseTaskCancelled \<Rightarrow> requireRef (trTaskID r)
     | CauseMessageSent \<Rightarrow> first_err [requireRef (trMemberID r), requireRef (trMessageID r)]
     | CauseTeamCompleted \<Rightarrow> None
     | CauseTeamFailed \<Rightarrow> None
     | CauseTeamCancelled \<Rightarrow> None
     | CauseOther _ \<Rightarrow> Some ErrInvalid)"

definition optionalID :: "string \<Rightarrow> team_error option" where
  "optionalID k = (if k \<noteq> [] then validateSafeID k else None)"

definition validateStoredTransition :: "transition \<Rightarrow> team_error option" where
  "validateStoredTransition r = first_err
     [fail_if (trSchema r \<noteq> schemaVersion \<or> trRevision r = 0 \<or> \<not> validStatus (trTo r) \<or>
        isZero (trAt r)) ErrInvalid,
      fail_if (zone (trAt r) \<noteq> 0) ErrInvalid,
      (if trCause r = CauseCreate
       then fail_if (trRevision r \<noteq> 1 \<or> trFrom r \<noteq> no_status) ErrInvalid
       else fail_if (trRevision r = 1 \<or> \<not> validStatus (trFrom r)) ErrInvalid),
      validateSafeID (trTeamID r), validateSafeID (trID r), validateActor (trActor r),
      validateSafeID (trCommandID r),
      fail_if (len (trCommandHash r) \<noteq> 64) ErrInvalid,
      fail_if (\<not> hex_ok (trCommandHash r)) ErrInvalid,
      fail_if (\<not> validCause (trCause r)) ErrInvalid,
      validateReason (trReason r) False,
      optionalID (trMemberID r), optionalID (trTaskID r), optionalID (trAttemptID r),
      optionalID (trMessageID r),
      validateCauseReferences r]"

definition validateTransitionAuthority :: "team \<Rightarrow> transition \<Rightarrow> team_error option" where
  "validateTransitionAuthority t r =
     (let coordinator = acKind (trActor r) = ActorKindCoordinator;
          k = acID (trActor r);
          leadOrCoordinator = coordinator \<or> k = teLead t;
          onlyCoordinator = fail_if (\<not> coordinator) ErrInvalid;
          onlyLead = fail_if (\<not> leadOrCoordinator) ErrInvalid;
          onlyMember = fail_if (acKind (trActor r) \<noteq> ActorKindMember \<or> k \<noteq> trMemberID r) ErrInvalid;
          attemptMember = fail_if (\<not> coordinator \<and> k \<noteq> trMemberID r) ErrInvalid
      in case trCause r of
           CauseCreate \<Rightarrow> onlyCoordinator
         | CauseMemberRegistered \<Rightarrow> onlyCoordinator
         | CauseMemberDisabled \<Rightarrow> onlyCoordinator
         | CauseMemberEnabled \<Rightarrow> onlyCoordinator
         | CauseTaskAttemptStarted \<Rightarrow> onlyCoordinator
         | CauseTaskCreated \<Rightarrow> onlyLead
         | CauseTaskAssigned \<Rightarrow> onlyLead
         | CauseTaskUnassigned \<Rightarrow> onlyLead
         | CauseTaskRetried \<Rightarrow> onlyLead
         | CauseTaskCancelled \<Rightarrow> onlyLead
         | CauseTeamCompleted \<Rightarrow> onlyLead
         | CauseTeamFailed \<Rightarrow> onlyLead
         | CauseTeamCancelled \<Rightarrow> onlyLead
         | CauseTaskClaimed \<Rightarrow> onlyMember
         | CauseMessageSent \<Rightarrow> onlyMember
         | CauseMessagesAcknowledged \<Rightarrow> onlyMember
         | CauseTaskReleased \<Rightarrow>
             fail_if (\<not> coordinator \<and> k \<noteq> teLead t \<and> k \<noteq> trMemberID r) ErrInvalid
         | CauseTaskAttemptCompleted \<Rightarrow> attemptMember
         | CauseTaskAttemptFailed \<Rightarrow> attemptMember
         | CauseOther _ \<Rightarrow> Some ErrInvalid)"

definition validateAttemptTransitionState :: "task \<Rightarrow> transition \<Rightarrow> team_error option" where
  "validateAttemptTransitionState x r = (case findAttempt x (trAttemptID r) of
       None \<Rightarrow> Some ErrInvalid
     | Some a \<Rightarrow> first_err
         [fail_if (atMember a \<noteq> trMemberID r) ErrInvalid,
          (case trCause r of
             CauseTaskAttemptCompleted \<Rightarrow>
               fail_if (atStatus a \<noteq> AttemptStatusCompleted \<or> tStatus x \<noteq> TaskStatusCompleted) ErrInvalid
           | CauseTaskAttemptFailed \<Rightarrow>
               fail_if (atStatus a \<noteq> AttemptStatusFailed \<or> tStatus x \<noteq> TaskStatusFailed) ErrInvalid
           | CauseTaskAttemptStarted \<Rightarrow>
               fail_if (atStatus a \<noteq> AttemptStatusRunning \<or> tStatus x \<noteq> TaskStatusRunning) ErrInvalid
           | _ \<Rightarrow> Some ErrInvalid)])"

text \<open>The map of the code, filled in list order: a later task with the same ID wins.\<close>

definition taskTable :: "task list \<Rightarrow> string \<rightharpoonup> task" where
  "taskTable xs = map_of (map (\<lambda>x. (tID x, x)) (rev xs))"

definition validateCauseState ::
    "team \<Rightarrow> (string \<rightharpoonup> task) \<Rightarrow> message option \<Rightarrow> transition \<Rightarrow> team_error option" where
  "validateCauseState t tt g r =
     (let x = (case tt (trTaskID r) of None \<Rightarrow> zero_task | Some y \<Rightarrow> y);
          m = memberOrZero t (trMemberID r);
          open = fail_if (tStatus x \<noteq> TaskStatusPending \<and> tStatus x \<noteq> TaskStatusReady) ErrInvalid
      in case trCause r of
           CauseCreate \<Rightarrow> fail_if (teStatus t \<noteq> StatusActive \<or> trMemberID r \<noteq> teLead t) ErrInvalid
         | CauseMemberRegistered \<Rightarrow> fail_if (mStatus m \<noteq> MemberStatusActive) ErrInvalid
         | CauseMemberEnabled \<Rightarrow> fail_if (mStatus m \<noteq> MemberStatusActive) ErrInvalid
         | CauseMemberDisabled \<Rightarrow> fail_if (mStatus m \<noteq> MemberStatusDisabled) ErrInvalid
         | CauseTaskCreated \<Rightarrow> open
         | CauseTaskRetried \<Rightarrow> open
         | CauseTaskAssigned \<Rightarrow> first_err [open, fail_if (tAssigned x \<noteq> trMemberID r) ErrInvalid]
         | CauseTaskUnassigned \<Rightarrow> first_err [open, fail_if (tAssigned x \<noteq> []) ErrInvalid]
         | CauseTaskClaimed \<Rightarrow>
             fail_if (tStatus x \<noteq> TaskStatusClaimed \<or> tClaimed x \<noteq> trMemberID r) ErrInvalid
         | CauseTaskReleased \<Rightarrow> fail_if (tStatus x \<noteq> TaskStatusReady \<or> tClaimed x \<noteq> []) ErrInvalid
         | CauseTaskAttemptStarted \<Rightarrow> validateAttemptTransitionState x r
         | CauseTaskAttemptCompleted \<Rightarrow> validateAttemptTransitionState x r
         | CauseTaskAttemptFailed \<Rightarrow> validateAttemptTransitionState x r
         | CauseTaskCancelled \<Rightarrow> fail_if (tStatus x \<noteq> TaskStatusCancelled) ErrInvalid
         | CauseMessageSent \<Rightarrow> (case g of
               None \<Rightarrow> Some ErrInvalid
             | Some msg \<Rightarrow> first_err
                 [fail_if (gID msg \<noteq> trMessageID r) ErrInvalid,
                  fail_if (gSender msg \<noteq> trMemberID r) ErrInvalid])
         | CauseMessagesAcknowledged \<Rightarrow> None
         | CauseTeamCompleted \<Rightarrow> fail_if (teStatus t \<noteq> StatusCompleted) ErrInvalid
         | CauseTeamFailed \<Rightarrow> fail_if (teStatus t \<noteq> StatusFailed) ErrInvalid
         | CauseTeamCancelled \<Rightarrow> fail_if (teStatus t \<noteq> StatusCancelled) ErrInvalid
         | CauseOther _ \<Rightarrow> Some ErrInvalid)"

definition validateTransitionReferences ::
    "team \<Rightarrow> transition \<Rightarrow> message option \<Rightarrow> team_error option" where
  "validateTransitionReferences t r g =
     (let members = mID ` set (teMembers t); tt = taskTable (teTasks t);
          attempts = atID ` (\<Union>x \<in> set (teTasks t). set (tAttempts x))
      in first_err
        [fail_if (acKind (trActor r) = ActorKindMember \<and> acID (trActor r) \<notin> members) ErrInvalid,
         fail_if (trMemberID r \<noteq> [] \<and> trMemberID r \<notin> members) ErrInvalid,
         fail_if (trTaskID r \<noteq> [] \<and> tt (trTaskID r) = None) ErrInvalid,
         fail_if (trAttemptID r \<noteq> [] \<and> trAttemptID r \<notin> attempts) ErrInvalid,
         fail_if (trMessageID r \<noteq> [] \<and>
           (case g of None \<Rightarrow> True | Some msg \<Rightarrow> gID msg \<noteq> trMessageID r)) ErrInvalid,
         validateCauseReferences r,
         validateTransitionAuthority t r,
         validateCauseState t tt g r])"

subsection \<open>Records\<close>

definition validateRecordMessage :: "team_record \<Rightarrow> team_error option" where
  "validateRecordMessage rc =
     (let t = rcTeam rc; r = rcTransition rc; members = mID ` set (teMembers t)
      in if trCause r \<noteq> CauseMessageSent then fail_if (rcMessage rc \<noteq> None) ErrInvalid
         else (case rcMessage rc of
             None \<Rightarrow> Some ErrInvalid
           | Some g \<Rightarrow> first_err
              [validateSafeID (gID g),
               fail_if (gID g \<noteq> trMessageID r \<or> gSender g \<noteq> trMemberID r \<or> gSentAt g \<noteq> trAt r \<or>
                 gSequence g + 1 \<noteq> teNextSeq t) ErrInvalid,
               fail_if (gSender g \<notin> members \<or> gRecipient g \<notin> members) ErrInvalid,
               fail_if (mDelivered (memberOrZero t (gRecipient g)) \<noteq> gSequence g) ErrInvalid,
               fail_if (gTask g \<noteq> [] \<and> findTask t (gTask g) = None) ErrInvalid,
               fail_if (gBody g = None) ErrInvalid,
               validateJSON (gBody g) (MaxJSONBytes (teLimits t))]))"

definition validateRecord :: "team_env \<Rightarrow> team_record \<Rightarrow> team_error option" where
  "validateRecord E rc =
     (let t = rcTeam rc; r = rcTransition rc
      in first_err
        [fail_if (rcSchema rc \<noteq> schemaVersion \<or> trSchema r \<noteq> schemaVersion) ErrInvalid,
         validateStoredTransition r,
         validateTeam E t,
         validateSafeID (trID r),
         fail_if (trTeamID r \<noteq> teID t \<or> trRevision r \<noteq> teRevision t \<or> trTo r \<noteq> teStatus t \<or>
           isZero (trAt r) \<or> trAt r \<noteq> teUpdatedAt t) ErrInvalid,
         validateActor (trActor r),
         validateSafeID (trCommandID r),
         fail_if (len (trCommandHash r) \<noteq> 64) ErrInvalid,
         fail_if (\<not> hex_ok (trCommandHash r)) ErrInvalid,
         fail_if (\<not> validCause (trCause r)) ErrInvalid,
         validateReason (trReason r) False,
         validateRecordMessage rc,
         validateTransitionReferences t r (rcMessage rc)])"

definition validateCreateRecord :: "team_env \<Rightarrow> team_record \<Rightarrow> team_error option" where
  "validateCreateRecord E rc = first_err
     [validateRecord E rc,
      fail_if (teRevision (rcTeam rc) \<noteq> 1 \<or> trRevision (rcTransition rc) \<noteq> 1 \<or>
        trFrom (rcTransition rc) \<noteq> no_status \<or> trCause (rcTransition rc) \<noteq> CauseCreate \<or>
        teStatus (rcTeam rc) \<noteq> StatusActive) ErrInvalid]"

text \<open>The table of the previous members, filled in list order.\<close>

definition memberTable :: "member list \<Rightarrow> string \<rightharpoonup> member" where
  "memberTable ms = map_of (map (\<lambda>m. (mID m, m)) (rev ms))"

definition mailboxMember :: "(string \<rightharpoonup> member) \<Rightarrow> team_record \<Rightarrow> member \<Rightarrow> team_error option" where
  "mailboxMember prev next m = (case prev (mID m) of
       None \<Rightarrow> fail_if (mDelivered m \<noteq> 0 \<or> mAcknowledged m \<noteq> 0) ErrInvalid
     | Some b \<Rightarrow>
         (let expected = (case rcMessage next of
                None \<Rightarrow> mDelivered b
              | Some g \<Rightarrow> if gRecipient g = mID m then gSequence g else mDelivered b)
          in first_err
            [fail_if (mDelivered m \<noteq> expected) ErrInvalid,
             (if trCause (rcTransition next) = CauseMessagesAcknowledged \<and>
                 trMemberID (rcTransition next) = mID m
              then fail_if (mAcknowledged m < mAcknowledged b) ErrInvalid
              else fail_if (mAcknowledged m \<noteq> mAcknowledged b) ErrInvalid)]))"

definition validateMailboxTransition :: "team \<Rightarrow> team_record \<Rightarrow> team_error option" where
  "validateMailboxTransition prev next =
     (let expected = (if rcMessage next \<noteq> None then teNextSeq prev + 1 else teNextSeq prev)
      in first_err
        ([fail_if (teNextSeq (rcTeam next) \<noteq> expected) ErrInvalid]
         @ map (mailboxMember (memberTable (teMembers prev)) next) (teMembers (rcTeam next))
         @ map (\<lambda>m. fail_if (mID m \<notin> mID ` set (teMembers (rcTeam next))) ErrInvalid)
             (teMembers prev)))"

definition validateNextRecord ::
    "team_env \<Rightarrow> team_record \<Rightarrow> u64 \<Rightarrow> team_record \<Rightarrow> team_error option" where
  "validateNextRecord E previous expected next =
     (let p = rcTeam previous; n = rcTeam next
      in first_err
        [fail_if (teRevision p \<noteq> expected) (ConflictError expected (teRevision p)),
         validateRecord E next,
         fail_if (teID n \<noteq> teID p \<or> teRevision n \<noteq> expected + 1 \<or>
           trRevision (rcTransition next) \<noteq> expected + 1 \<or>
           trFrom (rcTransition next) \<noteq> teStatus p \<or> before (teUpdatedAt n) (teUpdatedAt p)) ErrInvalid,
         validateMailboxTransition p next])"

subsection \<open>Options and pages\<close>

record list_options =
  loLimit :: int
  loCursor :: string

record list_page =
  lpTeams :: "team list"
  lpNext :: string

record mailbox_options =
  moAfter :: u64
  moLimit :: int

record message_page =
  mpMessages :: "message list"
  mpNext :: u64

record change_options =
  coAfter :: u64
  coLimit :: int

record change =
  chTransition :: transition
  chMessage :: "message option"

record change_page =
  cpChanges :: "change list"
  cpNext :: u64

definition validateListOptions :: "list_options \<Rightarrow> int \<Rightarrow> team_error option" where
  "validateListOptions opt maxPage =
     (if loLimit opt \<le> 0 \<or> loLimit opt > maxPage then Some ErrInvalid
      else if loCursor opt \<noteq> [] then validateSafeID (loCursor opt) else None)"

definition validateMailboxOptions :: "mailbox_options \<Rightarrow> team_error + mailbox_options" where
  "validateMailboxOptions opt =
     (let opt' = (if moLimit opt = 0 then opt\<lparr>moLimit := 100\<rparr> else opt)
      in guardE (fail_if (moLimit opt' < 1 \<or> moLimit opt' > 1000) ErrInvalid) (Inr opt'))"

definition validateChangeOptions :: "change_options \<Rightarrow> team_error + change_options" where
  "validateChangeOptions opt =
     (let opt' = (if coLimit opt = 0 then opt\<lparr>coLimit := 100\<rparr> else opt)
      in guardE (fail_if (coLimit opt' < 1 \<or> coLimit opt' > 1000) ErrInvalid) (Inr opt'))"

definition validateStoredMessage :: "message \<Rightarrow> team_error option" where
  "validateStoredMessage g = first_err
     [validateSafeID (gID g), validateSafeID (gSender g), validateSafeID (gRecipient g),
      optionalID (gTask g), optionalID (gReplyTo g),
      fail_if (gSequence g = 0 \<or> isZero (gSentAt g) \<or> gBody g = None) ErrInvalid,
      fail_if (zone (gSentAt g) \<noteq> 0) ErrInvalid,
      validateJSON (gBody g) (MaxJSONBytes hard_limits)]"

fun messagesLoop :: "string \<Rightarrow> string \<Rightarrow> u64 \<Rightarrow> u64 \<Rightarrow> message list \<Rightarrow> team_error option" where
  "messagesLoop tid mk delivered previous [] = None"
| "messagesLoop tid mk delivered previous (g # gs) =
     (if gRecipient g \<noteq> mk \<or> gSequence g \<le> previous \<or> gSequence g > delivered
      then Some (corruptStoreValue tid None)
      else (case validateStoredMessage g of
          Some e \<Rightarrow> Some (corruptStoreValue tid (Some e))
        | None \<Rightarrow> messagesLoop tid mk delivered (gSequence g) gs))"

definition memberIndex :: "team \<Rightarrow> string \<Rightarrow> nat" where
  "memberIndex t mk = (case findMember t mk of None \<Rightarrow> 0 | Some (_, i) \<Rightarrow> i)"

definition validateMessagePage ::
    "team \<Rightarrow> string \<Rightarrow> message_page \<Rightarrow> mailbox_options \<Rightarrow> team_error option" where
  "validateMessagePage t mk page opt =
     (let corrupt = corruptStoreValue (teID t) None;
          delivered = mDelivered (teMembers t ! memberIndex t mk)
      in first_err
        [fail_if (len (mpMessages page) > moLimit opt) corrupt,
         messagesLoop (teID t) mk delivered (moAfter opt) (mpMessages page),
         fail_if (mpNext page \<noteq>
           (if mpMessages page = [] then moAfter opt else gSequence (last (mpMessages page)))) corrupt])"

definition changeMessage :: "string \<Rightarrow> change \<Rightarrow> team_error option" where
  "changeMessage tid c =
     (let r = chTransition c; corrupt = corruptStoreValue tid None
      in if trCause r \<noteq> CauseMessageSent then fail_if (chMessage c \<noteq> None) corrupt
         else (case chMessage c of
             None \<Rightarrow> Some corrupt
           | Some g \<Rightarrow>
               if gID g \<noteq> trMessageID r then Some corrupt
               else (case validateStoredMessage g of
                   Some e \<Rightarrow> Some (corruptStoreValue tid (Some e))
                 | None \<Rightarrow> fail_if (acKind (trActor r) \<noteq> ActorKindMember \<or>
                     acID (trActor r) \<noteq> gSender g \<or> trMemberID r \<noteq> gSender g \<or>
                     \<not> sameInstant (trAt r) (gSentAt g)) corrupt)))"

fun changesLoop :: "string \<Rightarrow> u64 \<Rightarrow> change list \<Rightarrow> team_error option" where
  "changesLoop tid next [] = None"
| "changesLoop tid next (c # cs) =
     (let r = chTransition c
      in if trTeamID r \<noteq> tid \<or> trRevision r \<noteq> next + 1 then Some (corruptStoreValue tid None)
         else (case validateStoredTransition r of
             Some e \<Rightarrow> Some (corruptStoreValue tid (Some e))
           | None \<Rightarrow> first_err [changeMessage tid c, changesLoop tid (next + 1) cs]))"

definition validateChangePage :: "string \<Rightarrow> change_page \<Rightarrow> change_options \<Rightarrow> team_error option" where
  "validateChangePage tid page opt = first_err
     [fail_if (len (cpChanges page) > coLimit opt) (corruptStoreValue tid None),
      changesLoop tid (coAfter opt) (cpChanges page),
      fail_if (cpNext page \<noteq> (if cpChanges page = [] then coAfter opt
         else trRevision (chTransition (last (cpChanges page))))) (corruptStoreValue tid None)]"

fun listLoop :: "team_env \<Rightarrow> string \<Rightarrow> team list \<Rightarrow> team_error option" where
  "listLoop E previous [] = None"
| "listLoop E previous (t # ts) =
     (case validateTeam E t of
        Some e \<Rightarrow> Some (corruptStoreValue (teID t) (Some e))
      | None \<Rightarrow> if teID t \<le> previous then Some (corruptStoreValue (teID t) None)
               else listLoop E (teID t) ts)"

definition validateListPage :: "team_env \<Rightarrow> list_page \<Rightarrow> list_options \<Rightarrow> team_error option" where
  "validateListPage E page opt = first_err
     [fail_if (len (lpTeams page) > loLimit opt) (corruptStoreValue ''list'' None),
      listLoop E (loCursor opt) (lpTeams page),
      fail_if (lpNext page \<noteq> [] \<and>
        (lpTeams page = [] \<or> lpNext page \<noteq> teID (last (lpTeams page)))) (corruptStoreValue ''list'' None)]"

subsection \<open>Loaded records and histories\<close>

definition validateLoadedRecord :: "team_env \<Rightarrow> string \<Rightarrow> team_record \<Rightarrow> team_error option" where
  "validateLoadedRecord E tid rc = (case validateRecord E rc of
       Some e \<Rightarrow> Some (corruptStoreValue tid (Some e))
     | None \<Rightarrow> fail_if (teID (rcTeam rc) \<noteq> tid) (corruptStoreValue tid None))"

text \<open>What the history loop carries: the last record, the IDs seen, the messages, the next number.\<close>

record history_state =
  hsPrev :: "team_record option"
  hsCommands :: "string list"
  hsEvents :: "string list"
  hsMessages :: "(string \<times> message) list"
  hsNext :: u64

definition historyMessage ::
    "string \<Rightarrow> history_state \<Rightarrow> message option \<Rightarrow> team_error + ((string \<times> message) list \<times> u64)" where
  "historyMessage tid h go = (case go of
       None \<Rightarrow> Inr (hsMessages h, hsNext h)
     | Some g \<Rightarrow>
         (let corrupt = corruptStoreValue tid None
          in guardE (first_err
            [fail_if (gSequence g \<noteq> hsNext h) corrupt,
             fail_if (map_of (hsMessages h) (gID g) \<noteq> None) corrupt,
             fail_if (gReplyTo g \<noteq> [] \<and> (case map_of (hsMessages h) (gReplyTo g) of
                 None \<Rightarrow> True
               | Some parent \<Rightarrow> \<not> sameConversation parent (gSender g) (gRecipient g))) corrupt])
            (Inr ((gID g, g) # hsMessages h, hsNext h + 1))))"

definition historySequence :: "team_env \<Rightarrow> history_state \<Rightarrow> team_record \<Rightarrow> team_error option" where
  "historySequence E h rc = (case hsPrev h of
       None \<Rightarrow> validateCreateRecord E rc
     | Some p \<Rightarrow> validateNextRecord E p (teRevision (rcTeam p)) rc)"

definition historyStep ::
    "team_env \<Rightarrow> string \<Rightarrow> history_state \<Rightarrow> team_record \<Rightarrow> team_error + history_state" where
  "historyStep E tid h rc =
     (let r = rcTransition rc; corrupt = corruptStoreValue tid None
      in guardE (first_err
        [validateLoadedRecord E tid rc,
         fail_if (trCommandID r \<in> set (hsCommands h)) corrupt,
         fail_if (trID r \<in> set (hsEvents h)) corrupt,
         map_option (\<lambda>e. corruptStoreValue tid (Some e)) (historySequence E h rc)])
        (bindE (historyMessage tid h (rcMessage rc))
          (\<lambda>(ms, nx). guardE (fail_if (teNextSeq (rcTeam rc) \<noteq> nx) corrupt)
            (Inr \<lparr>hsPrev = Some rc, hsCommands = trCommandID r # hsCommands h,
                 hsEvents = trID r # hsEvents h, hsMessages = ms, hsNext = nx\<rparr>))))"

fun historyLoop ::
    "team_env \<Rightarrow> string \<Rightarrow> history_state \<Rightarrow> team_record list \<Rightarrow> team_error + history_state" where
  "historyLoop E tid h [] = Inr h"
| "historyLoop E tid h (rc # rcs) = bindE (historyStep E tid h rc) (\<lambda>h'. historyLoop E tid h' rcs)"

definition historyStart :: history_state where
  "historyStart = \<lparr>hsPrev = None, hsCommands = [], hsEvents = [], hsMessages = [], hsNext = 1\<rparr>"

definition validateLoadedHistory :: "team_env \<Rightarrow> string \<Rightarrow> team_record list \<Rightarrow> team_error option" where
  "validateLoadedHistory E tid rcs =
     (if rcs = [] then Some (corruptStoreValue tid None)
      else err_of (historyLoop E tid historyStart rcs))"

lemma historyLoop_append:
  "historyLoop E tid h (xs @ ys) = bindE (historyLoop E tid h xs) (\<lambda>h'. historyLoop E tid h' ys)"
proof (induction xs arbitrary: h)
  case (Cons x xs)
  then show ?case by (cases "historyStep E tid h x") auto
qed simp

end
