(* ===== verification/TeamStore.thy ===== *)
theory TeamStore
  imports TeamRecord
begin

section \<open>Team: the store interface and the in-memory store\<close>

text \<open>
  \<^verbatim>\<open>agent/team/store.go\<close> and \<^verbatim>\<open>memory_store.go\<close>. The Go interface \<open>Store\<close> is the record \<open>store_ops\<close>
  of operations on a store state; the error of a call's context is an argument, \<open>None\<close> while the
  context is live. Each operation holds the store's mutex throughout, so it is one step. The maps
  of the store are association lists; \<open>List\<close> sorts the IDs, so their order does not show.
\<close>

type_synonym ctx = "team_error option"

record 'st store_ops =
  opCreate :: "ctx \<Rightarrow> team_record \<Rightarrow> 'st \<Rightarrow> team_error option \<times> 'st"
  opLoad :: "ctx \<Rightarrow> string \<Rightarrow> 'st \<Rightarrow> team_error + team_record"
  opCas :: "ctx \<Rightarrow> string \<Rightarrow> u64 \<Rightarrow> team_record \<Rightarrow> 'st \<Rightarrow> team_error option \<times> 'st"
  opLoadCommand :: "ctx \<Rightarrow> string \<Rightarrow> string \<Rightarrow> 'st \<Rightarrow> team_error + team_record"
  opList :: "ctx \<Rightarrow> list_options \<Rightarrow> 'st \<Rightarrow> team_error + list_page"
  opHistory :: "ctx \<Rightarrow> string \<Rightarrow> 'st \<Rightarrow> team_error + team_record list"
  opChanges :: "ctx \<Rightarrow> string \<Rightarrow> change_options \<Rightarrow> 'st \<Rightarrow> team_error + change_page"
  opLoadMessage :: "ctx \<Rightarrow> string \<Rightarrow> string \<Rightarrow> 'st \<Rightarrow> team_error + message"
  opMailbox :: "ctx \<Rightarrow> string \<Rightarrow> string \<Rightarrow> mailbox_options \<Rightarrow> 'st \<Rightarrow> team_error + message_page"

subsection \<open>Limits\<close>

record store_limits =
  MaxRecordBytes :: int
  MaxFileBytes :: int
  MaxTransitions :: int
  MaxListPage :: int

definition withStoreLimits :: "store_limits \<Rightarrow> store_limits \<Rightarrow> team_error + store_limits" where
  "withStoreLimits l config =
     (if MaxRecordBytes l \<le> 0 \<or> MaxFileBytes l \<le> 0 \<or> MaxTransitions l \<le> 0 \<or> MaxListPage l \<le> 0
      then Inl ErrInvalid else Inr l)"

definition default_store_limits :: store_limits where
  "default_store_limits = \<lparr>MaxRecordBytes = 2097152, MaxFileBytes = 67108864,
     MaxTransitions = 10000, MaxListPage = 1000\<rparr>"

text \<open>An option is a function on the configuration, \<open>None\<close> a nil one.\<close>

type_synonym store_option = "(store_limits \<Rightarrow> team_error + store_limits) option"

fun storeOptions :: "store_limits \<Rightarrow> store_option list \<Rightarrow> team_error + store_limits" where
  "storeOptions c [] = Inr c"
| "storeOptions c (opt # opts) = (case opt of
       None \<Rightarrow> Inl ErrInvalid
     | Some f \<Rightarrow> bindE (f c) (\<lambda>c'. storeOptions c' opts))"

definition defaultStoreConfig :: "store_option list \<Rightarrow> team_error + store_limits" where
  "defaultStoreConfig opts = storeOptions default_store_limits opts"

text \<open>The length of the encoding stands for the encoding.\<close>

definition encodedRecord :: "team_env \<Rightarrow> team_record \<Rightarrow> store_limits \<Rightarrow> team_error + int" where
  "encodedRecord E rc l =
     guardE (validateRecord E rc)
       (bindE (encodedLen E rc)
         (\<lambda>n. guardE (fail_if (n > MaxRecordBytes l) ErrTooLarge) (Inr n)))"

subsection \<open>The in-memory store\<close>

record mem_store =
  msLimits :: store_limits
  msRecords :: "(string \<times> team_record list) list"
  msCommands :: "(string \<times> (string \<times> nat) list) list"
  msEvents :: "(string \<times> string list) list"
  msBytes :: "(string \<times> int) list"

definition newMemoryStore :: "store_option list \<Rightarrow> team_error + mem_store" where
  "newMemoryStore opts = bindE (defaultStoreConfig opts)
     (\<lambda>l. Inr \<lparr>msLimits = l, msRecords = [], msCommands = [], msEvents = [], msBytes = []\<rparr>)"

text \<open>A lookup in a nil or missing inner map yields the zero value.\<close>

definition commandsOf :: "mem_store \<Rightarrow> string \<Rightarrow> (string \<times> nat) list" where
  "commandsOf s k = (case map_of (msCommands s) k of None \<Rightarrow> [] | Some c \<Rightarrow> c)"

definition eventsOf :: "mem_store \<Rightarrow> string \<Rightarrow> string list" where
  "eventsOf s k = (case map_of (msEvents s) k of None \<Rightarrow> [] | Some c \<Rightarrow> c)"

definition bytesOf :: "mem_store \<Rightarrow> string \<Rightarrow> int" where
  "bytesOf s k = (case map_of (msBytes s) k of None \<Rightarrow> 0 | Some n \<Rightarrow> n)"

definition memCreate ::
    "team_env \<Rightarrow> ctx \<Rightarrow> team_record \<Rightarrow> mem_store \<Rightarrow> team_error option \<times> mem_store" where
  "memCreate E c rc s =
     (case c of Some e \<Rightarrow> (Some e, s) | None \<Rightarrow>
      (case encodedRecord E rc (msLimits s) of Inl e \<Rightarrow> (Some e, s) | Inr n \<Rightarrow>
       (case validateCreateRecord E rc of Some e \<Rightarrow> (Some e, s) | None \<Rightarrow>
        (let k = teID (rcTeam rc)
         in if map_of (msRecords s) k \<noteq> None then (Some ErrExists, s)
            else if n + 1 > MaxFileBytes (msLimits s) then (Some ErrStoreFull, s)
            else (None, s\<lparr>msRecords := AList.update k [rc] (msRecords s),
                   msCommands := AList.update k [(trCommandID (rcTransition rc), 0)] (msCommands s),
                   msEvents := AList.update k [trID (rcTransition rc)] (msEvents s),
                   msBytes := AList.update k (n + 1) (msBytes s)\<rparr>)))))"

text \<open>Indexing the last record of an empty list panics.\<close>

definition lastRecord :: "team_record list \<Rightarrow> team_error + team_record" where
  "lastRecord rs = (if rs = [] then Inl (Panic ''index out of range'') else Inr (last rs))"

definition memLoad :: "ctx \<Rightarrow> string \<Rightarrow> mem_store \<Rightarrow> team_error + team_record" where
  "memLoad c k s = guardE c
     (case map_of (msRecords s) k of None \<Rightarrow> Inl ErrNotFound | Some rs \<Rightarrow> lastRecord rs)"

definition memCas ::
    "team_env \<Rightarrow> ctx \<Rightarrow> string \<Rightarrow> u64 \<Rightarrow> team_record \<Rightarrow> mem_store \<Rightarrow> team_error option \<times> mem_store" where
  "memCas E c k expected next s =
     (case c of Some e \<Rightarrow> (Some e, s) | None \<Rightarrow>
      (case encodedRecord E next (msLimits s) of Inl e \<Rightarrow> (Some e, s) | Inr n \<Rightarrow>
       (case map_of (msRecords s) k of None \<Rightarrow> (Some ErrNotFound, s) | Some rs \<Rightarrow>
        (case lastRecord rs of Inl e \<Rightarrow> (Some e, s) | Inr previous \<Rightarrow>
         (case validateNextRecord E previous expected next of Some e \<Rightarrow> (Some e, s) | None \<Rightarrow>
          (let cmd = trCommandID (rcTransition next); ev = trID (rcTransition next)
           in if map_of (commandsOf s k) cmd \<noteq> None then (Some ErrCommandConflict, s)
              else if ev \<in> set (eventsOf s k) then (Some ErrInvalid, s)
              else if len rs \<ge> MaxTransitions (msLimits s) \<or>
                  bytesOf s k + (n + 1) > MaxFileBytes (msLimits s) then (Some ErrStoreFull, s)
              else (None, s\<lparr>msRecords := AList.update k (rs @ [next]) (msRecords s),
                 msCommands := AList.update k (AList.update cmd (length rs) (commandsOf s k)) (msCommands s),
                 msEvents := AList.update k (ev # eventsOf s k) (msEvents s),
                 msBytes := AList.update k (bytesOf s k + (n + 1)) (msBytes s)\<rparr>)))))))"

definition memLoadCommand :: "ctx \<Rightarrow> string \<Rightarrow> string \<Rightarrow> mem_store \<Rightarrow> team_error + team_record" where
  "memLoadCommand c k cmd s = guardE c
     (case map_of (msCommands s) k of None \<Rightarrow> Inl ErrNotFound
      | Some cs \<Rightarrow> (case map_of cs cmd of None \<Rightarrow> Inl ErrNotFound
          | Some i \<Rightarrow>
              (let rs = (case map_of (msRecords s) k of None \<Rightarrow> [] | Some rs \<Rightarrow> rs)
               in if i < length rs then Inr (rs ! i) else Inl (Panic ''index out of range''))))"

fun pageTeams :: "mem_store \<Rightarrow> string list \<Rightarrow> team_error + team list" where
  "pageTeams s [] = Inr []"
| "pageTeams s (k # ks) =
     bindE (lastRecord (case map_of (msRecords s) k of None \<Rightarrow> [] | Some rs \<Rightarrow> rs))
       (\<lambda>rc. bindE (pageTeams s ks) (\<lambda>ts. Inr (rcTeam rc # ts)))"

definition memList :: "ctx \<Rightarrow> list_options \<Rightarrow> mem_store \<Rightarrow> team_error + list_page" where
  "memList c opt s = guardE c (guardE (validateListOptions opt (MaxListPage (msLimits s)))
     (let ids = sort (filter (\<lambda>k. k > loCursor opt) (remdups (map fst (msRecords s))));
          count = min (length ids) (nat (loLimit opt))
      in bindE (pageTeams s (take count ids))
          (\<lambda>ts. Inr \<lparr>lpTeams = ts, lpNext = (if length ids > count then ids ! (count - 1) else [])\<rparr>)))"

definition memHistory :: "ctx \<Rightarrow> string \<Rightarrow> mem_store \<Rightarrow> team_error + team_record list" where
  "memHistory c k s = guardE c (of_opt ErrNotFound (map_of (msRecords s) k))"

text \<open>The two paging loops: skip, stop at the limit, collect and move the cursor.\<close>

fun changesPage :: "change_options \<Rightarrow> change list \<Rightarrow> u64 \<Rightarrow> team_record list \<Rightarrow> change_page" where
  "changesPage opt cs next [] = \<lparr>cpChanges = cs, cpNext = next\<rparr>"
| "changesPage opt cs next (rc # rcs) =
     (if teRevision (rcTeam rc) \<le> coAfter opt then changesPage opt cs next rcs
      else if len cs = coLimit opt then \<lparr>cpChanges = cs, cpNext = next\<rparr>
      else changesPage opt (cs @ [\<lparr>chTransition = rcTransition rc, chMessage = rcMessage rc\<rparr>])
             (teRevision (rcTeam rc)) rcs)"

definition memChanges :: "ctx \<Rightarrow> string \<Rightarrow> change_options \<Rightarrow> mem_store \<Rightarrow> team_error + change_page" where
  "memChanges c k opt s = guardE c (bindE (validateChangeOptions opt)
     (\<lambda>opt'. case map_of (msRecords s) k of
        None \<Rightarrow> Inl ErrNotFound
      | Some rs \<Rightarrow> Inr (changesPage opt' [] (coAfter opt') rs)))"

definition recordMessage :: "team_record list \<Rightarrow> string \<Rightarrow> message option" where
  "recordMessage rs mk = find (\<lambda>g. gID g = mk) (List.map_filter rcMessage rs)"

definition memLoadMessage :: "ctx \<Rightarrow> string \<Rightarrow> string \<Rightarrow> mem_store \<Rightarrow> team_error + message" where
  "memLoadMessage c k mk s = guardE c
     (case map_of (msRecords s) k of
        None \<Rightarrow> Inl ErrNotFound
      | Some rs \<Rightarrow> of_opt ErrNotFound (recordMessage rs mk))"

fun mailboxPage ::
    "string \<Rightarrow> mailbox_options \<Rightarrow> message list \<Rightarrow> u64 \<Rightarrow> team_record list \<Rightarrow> message_page" where
  "mailboxPage mk opt gs next [] = \<lparr>mpMessages = gs, mpNext = next\<rparr>"
| "mailboxPage mk opt gs next (rc # rcs) =
     (case rcMessage rc of
        None \<Rightarrow> mailboxPage mk opt gs next rcs
      | Some g \<Rightarrow>
          if gRecipient g \<noteq> mk \<or> gSequence g \<le> moAfter opt then mailboxPage mk opt gs next rcs
          else if len gs = moLimit opt then \<lparr>mpMessages = gs, mpNext = next\<rparr>
          else mailboxPage mk opt (gs @ [g]) (gSequence g) rcs)"

definition memMailbox ::
    "ctx \<Rightarrow> string \<Rightarrow> string \<Rightarrow> mailbox_options \<Rightarrow> mem_store \<Rightarrow> team_error + message_page" where
  "memMailbox c k mk opt s = guardE c (bindE (validateMailboxOptions opt)
     (\<lambda>opt'. case map_of (msRecords s) k of
        None \<Rightarrow> Inl ErrNotFound
      | Some rs \<Rightarrow> Inr (mailboxPage mk opt' [] (moAfter opt') rs)))"

definition memory_ops :: "team_env \<Rightarrow> mem_store store_ops" where
  "memory_ops E = \<lparr>opCreate = memCreate E, opLoad = memLoad, opCas = memCas E,
     opLoadCommand = memLoadCommand, opList = memList, opHistory = memHistory,
     opChanges = memChanges, opLoadMessage = memLoadMessage, opMailbox = memMailbox\<rparr>"

end
