(* ===== verification/TeamStoreLaws.thy ===== *)
theory TeamStoreLaws
  imports TeamStore
begin

section \<open>Team: what a store promises, and the in-memory store keeps it\<close>

text \<open>
  A store is, for each Team, an append-only log of records. \<open>log_ok\<close> says what a log looks like:
  a create record, then records each of which continues the one before, with distinct command
  and event IDs. The locale \<open>team_store\<close> is the contract of the interface \<open>Store\<close> the engine
  relies on; it is interpreted on the in-memory store at the end.
\<close>

subsection \<open>Logs\<close>

abbreviation recCommand :: "team_record \<Rightarrow> string" where
  "recCommand rc \<equiv> trCommandID (rcTransition rc)"

abbreviation recEvent :: "team_record \<Rightarrow> string" where
  "recEvent rc \<equiv> trID (rcTransition rc)"

abbreviation recRevision :: "team_record \<Rightarrow> u64" where
  "recRevision rc \<equiv> teRevision (rcTeam rc)"

definition log_ok :: "team_env \<Rightarrow> string \<Rightarrow> team_record list \<Rightarrow> bool" where
  "log_ok E k rs \<longleftrightarrow> rs \<noteq> [] \<and> validateCreateRecord E (hd rs) = None \<and> teID (rcTeam (hd rs)) = k \<and>
     (\<forall>i. Suc i < length rs \<longrightarrow> validateNextRecord E (rs ! i) (recRevision (rs ! i)) (rs ! Suc i) = None) \<and>
     distinct (map recCommand rs) \<and> distinct (map recEvent rs)"

lemma validateNextRecordD:
  assumes "validateNextRecord E p n rc = None"
  shows "recRevision p = n" "validateRecord E rc = None" "teID (rcTeam rc) = teID (rcTeam p)"
    "recRevision rc = n + 1" "trFrom (rcTransition rc) = teStatus (rcTeam p)"
    "teUpdatedAt (rcTeam p) \<le> teUpdatedAt (rcTeam rc)"
    "validateMailboxTransition (rcTeam p) rc = None"
  using assms by (simp_all add: validateNextRecord_def Let_def)

lemma validateRecordD:
  assumes "validateRecord E rc = None"
  shows "validateTeam E (rcTeam rc) = None" "validateStoredTransition (rcTransition rc) = None"
    "validateRecordMessage rc = None" "recRevision rc \<noteq> 0"
  using assms by (simp_all add: validateRecord_def Let_def validateTeam_def)

lemma log_ok_single: "log_ok E k [rc] \<longleftrightarrow> validateCreateRecord E rc = None \<and> teID (rcTeam rc) = k"
  by (simp add: log_ok_def)

lemma log_ok_append:
  assumes "log_ok E k rs"
  shows "log_ok E k (rs @ [rc]) \<longleftrightarrow>
    validateNextRecord E (last rs) (recRevision (last rs)) rc = None \<and>
    recCommand rc \<notin> recCommand ` set rs \<and> recEvent rc \<notin> recEvent ` set rs"
proof -
  have ne: "rs \<noteq> []" using assms by (simp add: log_ok_def)
  let ?P = "\<lambda>xs i. validateNextRecord E (xs ! i) (recRevision (xs ! i)) (xs ! Suc i) = None"
  have "(\<forall>i. Suc i < length (rs @ [rc]) \<longrightarrow> ?P (rs @ [rc]) i) \<longleftrightarrow>
      (\<forall>i. Suc i < length rs \<longrightarrow> ?P rs i) \<and> ?P (rs @ [rc]) (length rs - 1)"
  proof -
    have "?P (rs @ [rc]) i = ?P rs i" if "Suc i < length rs" for i
      using that by (simp add: nth_append)
    moreover have "Suc i < length (rs @ [rc]) \<longleftrightarrow> Suc i < length rs \<or> i = length rs - 1" for i
      using ne by (cases rs) auto
    ultimately show ?thesis by metis
  qed
  moreover have "?P (rs @ [rc]) (length rs - 1) \<longleftrightarrow>
      validateNextRecord E (last rs) (recRevision (last rs)) rc = None"
    using ne by (simp add: nth_append last_conv_nth)
  ultimately show ?thesis using assms ne by (auto simp: log_ok_def)
qed

lemma log_ok_nth:
  assumes ok: "log_ok E k rs" and i: "i < length rs"
  shows "validateRecord E (rs ! i) = None" "teID (rcTeam (rs ! i)) = k"
    "recRevision (rs ! i) = of_nat (Suc i)"
proof -
  have "validateRecord E (rs ! i) = None \<and> teID (rcTeam (rs ! i)) = k \<and>
      recRevision (rs ! i) = of_nat (Suc i)"
    using i
  proof (induction i)
    case 0
    then have "rs ! 0 = hd rs" using ok by (simp add: hd_conv_nth log_ok_def)
    with ok show ?case by (simp add: log_ok_def validateCreateRecord_def)
  next
    case (Suc i)
    have "validateNextRecord E (rs ! i) (recRevision (rs ! i)) (rs ! Suc i) = None"
      using ok Suc.prems unfolding log_ok_def by blast
    note d = validateNextRecordD [OF this]
    from Suc d show ?case by simp
  qed
  then show "validateRecord E (rs ! i) = None" "teID (rcTeam (rs ! i)) = k"
    "recRevision (rs ! i) = of_nat (Suc i)" by auto
qed

lemma log_ok_mem:
  assumes "log_ok E k rs" "rc \<in> set rs"
  shows "validateRecord E rc = None" "teID (rcTeam rc) = k"
  using assms log_ok_nth [OF assms(1)] by (auto simp: in_set_conv_nth)

text \<open>The revision of a log's last record tells its length: revisions never wrap.\<close>

lemma log_ok_length:
  assumes ok: "log_ok E k rs"
  shows "length rs < 2 ^ 64" "recRevision (last rs) = of_nat (length rs)"
proof -
  have rev: "recRevision (rs ! i) = of_nat (Suc i) \<and> recRevision (rs ! i) \<noteq> 0" if "i < length rs" for i
    using log_ok_nth [OF ok that] validateRecordD(4) by blast
  show "length rs < 2 ^ 64"
  proof (rule ccontr)
    assume "\<not> length rs < 2 ^ 64"
    then have "2 ^ 64 - 1 < length rs" by simp
    from rev [OF this] have "(of_nat (Suc (2 ^ 64 - 1)) :: u64) \<noteq> 0" by metis
    then show False by (simp only: word_of_nat_eq_0_iff) simp
  qed
  have "rs \<noteq> []" using ok by (simp add: log_ok_def)
  then show "recRevision (last rs) = of_nat (length rs)"
    using rev [of "length rs - 1"] by (simp add: last_conv_nth)
qed

lemma log_revision_inj:
  assumes "log_ok E k rs" "log_ok E k (rs @ ext)"
    "recRevision (last (rs @ ext)) = recRevision (last rs)"
  shows "ext = []"
proof -
  have "(of_nat (length rs) :: u64) = of_nat (length (rs @ ext))"
    using assms log_ok_length(2) by metis
  then have "length rs mod 2 ^ 64 = length (rs @ ext) mod 2 ^ 64"
    by (simp only: word_of_nat_eq_iff take_bit_eq_mod len_num0 len_bit0) simp
  then have "length rs = length (rs @ ext)"
    using log_ok_length(1) [OF assms(1)] log_ok_length(1) [OF assms(2)] by simp
  then show ?thesis by simp
qed

subsection \<open>The contract\<close>

definition findCommand :: "team_record list \<Rightarrow> string \<Rightarrow> team_record option" where
  "findCommand rs c = find (\<lambda>rc. recCommand rc = c) rs"

text \<open>
  \<open>room\<close> says that the store's limits admit one more record. \<open>Load\<close>, \<open>LoadCommand\<close>,
  \<open>LoadMessage\<close> and \<open>History\<close> read the log; \<open>Create\<close> and \<open>CompareAndSwap\<close> start and extend it,
  or leave the store as it was.
\<close>

locale team_store =
  fixes E :: team_env
    and S :: "'st store_ops"
    and sinv :: "'st \<Rightarrow> bool"
    and log :: "'st \<Rightarrow> string \<Rightarrow> team_record list"
    and room :: "'st \<Rightarrow> string \<Rightarrow> team_record \<Rightarrow> bool"
  assumes log_inv: "sinv s \<Longrightarrow> log s k \<noteq> [] \<Longrightarrow> log_ok E k (log s k)"
    and load: "sinv s \<Longrightarrow> opLoad S c k s =
      guardE c (if log s k = [] then Inl ErrNotFound else Inr (last (log s k)))"
    and load_command: "sinv s \<Longrightarrow> opLoadCommand S c k cmd s =
      guardE c (of_opt ErrNotFound (findCommand (log s k) cmd))"
    and load_message: "sinv s \<Longrightarrow> opLoadMessage S c k mk s =
      guardE c (of_opt ErrNotFound (recordMessage (log s k) mk))"
    and history: "sinv s \<Longrightarrow> opHistory S c k s =
      guardE c (if log s k = [] then Inl ErrNotFound else Inr (log s k))"
    and create_fail: "sinv s \<Longrightarrow> opCreate S c rc s = (Some e, s') \<Longrightarrow> s' = s"
    and create_ok: "sinv s \<Longrightarrow> opCreate S c rc s = (None, s') \<Longrightarrow>
      sinv s' \<and> log s (teID (rcTeam rc)) = [] \<and> log s' = (log s)(teID (rcTeam rc) := [rc])"
    and cas_fail: "sinv s \<Longrightarrow> opCas S c k n rc s = (Some e, s') \<Longrightarrow> s' = s"
    and cas_ok: "sinv s \<Longrightarrow> opCas S c k n rc s = (None, s') \<Longrightarrow>
      sinv s' \<and> log s k \<noteq> [] \<and> recRevision (last (log s k)) = n \<and> log s' = (log s)(k := log s k @ [rc])"
    and cas_accepts: "sinv s \<Longrightarrow> log s k \<noteq> [] \<Longrightarrow> log_ok E k (log s k @ [rc]) \<Longrightarrow>
      n = recRevision (last (log s k)) \<Longrightarrow> room s k rc \<Longrightarrow> fst (opCas S None k n rc s) = None"
    and create_accepts: "sinv s \<Longrightarrow> log s k = [] \<Longrightarrow> log_ok E k [rc] \<Longrightarrow> room s k rc \<Longrightarrow>
      fst (opCreate S None rc s) = None"

subsection \<open>The in-memory store\<close>

definition memLog :: "mem_store \<Rightarrow> string \<Rightarrow> team_record list" where
  "memLog s k = (case map_of (msRecords s) k of None \<Rightarrow> [] | Some rs \<Rightarrow> rs)"

definition commandIndex :: "team_record list \<Rightarrow> string \<rightharpoonup> nat" where
  "commandIndex rs c = map_option snd (find_idx (\<lambda>rc. recCommand rc = c) rs)"

definition entry_ok ::
    "team_env \<Rightarrow> string \<Rightarrow> team_record list option \<Rightarrow> (string \<times> nat) list option \<Rightarrow>
       string list option \<Rightarrow> bool" where
  "entry_ok E k r c e \<longleftrightarrow> (case r of
       None \<Rightarrow> c = None \<and> e = None
     | Some rs \<Rightarrow> log_ok E k rs \<and>
         (\<exists>cs. c = Some cs \<and> map_of cs = commandIndex rs) \<and>
         (\<exists>es. e = Some es \<and> set es = recEvent ` set rs))"

definition mem_inv :: "team_env \<Rightarrow> mem_store \<Rightarrow> bool" where
  "mem_inv E s \<longleftrightarrow> (\<forall>k. entry_ok E k (map_of (msRecords s) k) (map_of (msCommands s) k)
     (map_of (msEvents s) k))"

definition mem_room :: "team_env \<Rightarrow> mem_store \<Rightarrow> string \<Rightarrow> team_record \<Rightarrow> bool" where
  "mem_room E s k rc \<longleftrightarrow> (\<exists>n. encodedLen E rc = Inr n \<and> n \<le> MaxRecordBytes (msLimits s) \<and>
     len (memLog s k) < MaxTransitions (msLimits s) \<and>
     (if memLog s k = [] then 0 else bytesOf s k) + (n + 1) \<le> MaxFileBytes (msLimits s))"

lemma mem_inv_empty: "mem_inv E \<lparr>msLimits = l, msRecords = [], msCommands = [], msEvents = [], msBytes = []\<rparr>"
  by (simp add: mem_inv_def entry_ok_def)

lemma mem_inv_entry:
  "mem_inv E s \<Longrightarrow> entry_ok E k (map_of (msRecords s) k) (map_of (msCommands s) k) (map_of (msEvents s) k)"
  by (simp add: mem_inv_def)

lemma mem_inv_None:
  "mem_inv E s \<Longrightarrow> map_of (msRecords s) k = None \<Longrightarrow>
     map_of (msCommands s) k = None \<and> map_of (msEvents s) k = None"
  using mem_inv_entry [of E s k] by (simp add: entry_ok_def)

lemma mem_inv_Some:
  "mem_inv E s \<Longrightarrow> map_of (msRecords s) k = Some rs \<Longrightarrow>
     log_ok E k rs \<and> map_of (msCommands s) k = Some (commandsOf s k) \<and>
     map_of (commandsOf s k) = commandIndex rs \<and> set (eventsOf s k) = recEvent ` set rs"
  using mem_inv_entry [of E s k] by (auto simp: entry_ok_def commandsOf_def eventsOf_def)

lemma mem_inv_update:
  assumes inv: "mem_inv E s" and ok: "log_ok E k rs" and cs: "map_of cs = commandIndex rs"
    and evs: "set evs = recEvent ` set rs"
  shows "mem_inv E (s\<lparr>msRecords := AList.update k rs (msRecords s),
    msCommands := AList.update k cs (msCommands s), msEvents := AList.update k evs (msEvents s),
    msBytes := bs\<rparr>)"
proof -
  have "entry_ok E k (Some rs) (Some cs) (Some evs)" using ok cs evs by (simp add: entry_ok_def)
  with mem_inv_entry [OF inv] show ?thesis by (simp add: mem_inv_def update_conv')
qed

lemma memLog_update:
  "memLog (s\<lparr>msRecords := AList.update k rs (msRecords s), msCommands := a, msEvents := b,
     msBytes := c\<rparr>) = (memLog s)(k := rs)"
  by (auto simp: memLog_def update_conv' fun_eq_iff)

lemma find_idx_append_Some: "find_idx P xs = Some p \<Longrightarrow> find_idx P (xs @ ys) = Some p"
  by (induction xs arbitrary: p) (auto split: if_splits)

lemma find_idx_append_new:
  "\<forall>x \<in> set xs. \<not> P x \<Longrightarrow> find_idx P (xs @ [y]) = (if P y then Some (y, length xs) else None)"
  by (induction xs) auto

lemma commandIndex_append:
  assumes "recCommand rc \<notin> recCommand ` set rs"
  shows "commandIndex (rs @ [rc]) = (commandIndex rs)(recCommand rc \<mapsto> length rs)"
proof (rule ext)
  fix c
  show "commandIndex (rs @ [rc]) c = ((commandIndex rs)(recCommand rc \<mapsto> length rs)) c"
  proof (cases "find_idx (\<lambda>rc. recCommand rc = c) rs")
    case None
    then show ?thesis by (auto simp: commandIndex_def find_idx_append_new)
  next
    case (Some p)
    obtain r i where "p = (r, i)" by (cases p)
    with Some have "r \<in> set rs" "recCommand r = c" by (auto dest: find_idx_SomeD)
    with assms have "c \<noteq> recCommand rc" by (metis imageI)
    with Some show ?thesis by (simp add: commandIndex_def find_idx_append_Some)
  qed
qed

lemma commandIndex_None: "commandIndex rs c = None \<longleftrightarrow> c \<notin> recCommand ` set rs"
  by (auto simp: commandIndex_def)

lemma commandIndex_Some:
  "commandIndex rs c = Some i \<Longrightarrow> i < length rs \<and> findCommand rs c = Some (rs ! i)"
proof -
  assume "commandIndex rs c = Some i"
  then obtain rc where f: "find_idx (\<lambda>rc. recCommand rc = c) rs = Some (rc, i)"
    by (auto simp: commandIndex_def)
  then have "findCommand rs c = Some rc"
    unfolding findCommand_def find_idx_find [symmetric] by simp
  with find_idx_SomeD [OF f] show ?thesis by simp
qed

lemma findCommand_None: "findCommand rs c = None \<longleftrightarrow> c \<notin> recCommand ` set rs"
  by (auto simp: findCommand_def find_None_iff)

lemma memLog_Some: "map_of (msRecords s) k = Some rs \<Longrightarrow> memLog s k = rs"
  by (simp add: memLog_def)

lemma memLog_cases:
  assumes "mem_inv E s"
  shows "memLog s k = [] \<longleftrightarrow> map_of (msRecords s) k = None"
    "memLog s k \<noteq> [] \<Longrightarrow> map_of (msRecords s) k = Some (memLog s k)"
proof -
  have "rs \<noteq> []" if "map_of (msRecords s) k = Some rs" for rs
    using mem_inv_Some [OF assms that] by (simp add: log_ok_def)
  then show "memLog s k = [] \<longleftrightarrow> map_of (msRecords s) k = None"
    "memLog s k \<noteq> [] \<Longrightarrow> map_of (msRecords s) k = Some (memLog s k)"
    by (auto simp: memLog_def split: option.splits)
qed

lemma mem_log_inv: "mem_inv E s \<Longrightarrow> memLog s k \<noteq> [] \<Longrightarrow> log_ok E k (memLog s k)"
  using mem_inv_Some memLog_cases(2) by blast

lemma memLoad_eq:
  assumes "mem_inv E s"
  shows "memLoad c k s = guardE c (if memLog s k = [] then Inl ErrNotFound else Inr (last (memLog s k)))"
proof (cases "memLog s k = []")
  case True
  then show ?thesis using memLog_cases(1) [OF assms] by (simp add: memLoad_def)
next
  case False
  then show ?thesis using memLog_cases(2) [OF assms False] by (simp add: memLoad_def lastRecord_def)
qed

lemma memLoadCommand_eq:
  assumes "mem_inv E s"
  shows "memLoadCommand c k cmd s = guardE c (of_opt ErrNotFound (findCommand (memLog s k) cmd))"
proof (cases "memLog s k = []")
  case True
  then have "map_of (msCommands s) k = None" using memLog_cases(1) [OF assms] mem_inv_None [OF assms] by simp
  with True show ?thesis by (simp add: memLoadCommand_def findCommand_def)
next
  case False
  note r = memLog_cases(2) [OF assms False]
  note i = mem_inv_Some [OF assms r]
  show ?thesis
  proof (cases "commandIndex (memLog s k) cmd")
    case None
    then have "findCommand (memLog s k) cmd = None" by (simp add: commandIndex_None findCommand_None)
    with None i show ?thesis by (simp add: memLoadCommand_def)
  next
    case (Some j)
    with i r commandIndex_Some [OF Some] show ?thesis by (simp add: memLoadCommand_def)
  qed
qed

lemma memLoadMessage_eq:
  assumes "mem_inv E s"
  shows "memLoadMessage c k mk s = guardE c (of_opt ErrNotFound (recordMessage (memLog s k) mk))"
proof (cases "memLog s k = []")
  case True
  then have "map_of (msRecords s) k = None" using memLog_cases(1) [OF assms] by simp
  then show ?thesis unfolding True by (simp add: memLoadMessage_def recordMessage_def map_filter_def)
next
  case False
  then show ?thesis using memLog_cases(2) [OF assms] by (simp add: memLoadMessage_def)
qed

lemma memHistory_eq:
  assumes "mem_inv E s"
  shows "memHistory c k s = guardE c (if memLog s k = [] then Inl ErrNotFound else Inr (memLog s k))"
  using memLog_cases [OF assms, of k] by (cases "memLog s k = []") (simp_all add: memHistory_def)

lemma memCreate_fail: "memCreate E c rc s = (Some e, s') \<Longrightarrow> s' = s"
  by (auto simp: memCreate_def Let_def split: option.splits sum.splits if_splits)

lemma memCreate_ok:
  assumes inv: "mem_inv E s" and run: "memCreate E c rc s = (None, s')"
  shows "mem_inv E s' \<and> memLog s (teID (rcTeam rc)) = [] \<and> memLog s' = (memLog s)(teID (rcTeam rc) := [rc])"
proof -
  let ?k = "teID (rcTeam rc)"
  obtain n where v: "validateCreateRecord E rc = None" and none: "map_of (msRecords s) ?k = None"
    and s': "s' = s\<lparr>msRecords := AList.update ?k [rc] (msRecords s),
      msCommands := AList.update ?k [(recCommand rc, 0)] (msCommands s),
      msEvents := AList.update ?k [recEvent rc] (msEvents s),
      msBytes := AList.update ?k (n + 1) (msBytes s)\<rparr>"
    using run by (auto simp: memCreate_def Let_def split: option.splits sum.splits if_splits)
  have "map_of [(recCommand rc, 0)] = commandIndex [rc]"
    by (auto simp: commandIndex_def fun_eq_iff)
  then show ?thesis unfolding s' memLog_update
    using v none by (auto intro!: mem_inv_update [OF inv] simp: log_ok_single memLog_def)
qed

lemma memCas_fail: "memCas E c k n rc s = (Some e, s') \<Longrightarrow> s' = s"
  by (auto simp: memCas_def Let_def split: option.splits sum.splits if_splits)

lemma memCas_ok:
  assumes inv: "mem_inv E s" and run: "memCas E c k n rc s = (None, s')"
  shows "mem_inv E s' \<and> memLog s k \<noteq> [] \<and> recRevision (last (memLog s k)) = n \<and>
    memLog s' = (memLog s)(k := memLog s k @ [rc])"
proof -
  obtain rs m where r: "map_of (msRecords s) k = Some rs"
    and v: "validateNextRecord E (last rs) n rc = None"
    and cmd: "map_of (commandsOf s k) (recCommand rc) = None" and ev: "recEvent rc \<notin> set (eventsOf s k)"
    and s': "s' = s\<lparr>msRecords := AList.update k (rs @ [rc]) (msRecords s),
      msCommands := AList.update k (AList.update (recCommand rc) (length rs) (commandsOf s k)) (msCommands s),
      msEvents := AList.update k (recEvent rc # eventsOf s k) (msEvents s),
      msBytes := AList.update k (bytesOf s k + (m + 1)) (msBytes s)\<rparr>"
    using run by (auto simp: memCas_def Let_def lastRecord_def split: option.splits sum.splits if_splits)
  note i = mem_inv_Some [OF inv r]
  note rev = validateNextRecordD(1) [OF v]
  have new: "recCommand rc \<notin> recCommand ` set rs" "recEvent rc \<notin> recEvent ` set rs"
    using cmd ev i by (simp_all add: commandIndex_None)
  have "log_ok E k (rs @ [rc])" using i v new rev by (simp add: log_ok_append)
  moreover have "map_of (AList.update (recCommand rc) (length rs) (commandsOf s k)) = commandIndex (rs @ [rc])"
    using i by (simp add: update_conv' commandIndex_append [OF new(1)])
  moreover have "rs \<noteq> []" using i by (simp add: log_ok_def)
  ultimately show ?thesis unfolding s' memLog_update
    using i rev memLog_Some [OF r] by (auto intro!: mem_inv_update [OF inv])
qed

lemma memCas_accepts:
  assumes inv: "mem_inv E s" and ne: "memLog s k \<noteq> []" and ok: "log_ok E k (memLog s k @ [rc])"
    and n: "n = recRevision (last (memLog s k))" and room: "mem_room E s k rc"
  shows "fst (memCas E None k n rc s) = None"
proof -
  note r = memLog_cases(2) [OF inv ne]
  note i = mem_inv_Some [OF inv r]
  have v: "validateNextRecord E (last (memLog s k)) n rc = None"
    and new: "recCommand rc \<notin> recCommand ` set (memLog s k)" "recEvent rc \<notin> recEvent ` set (memLog s k)"
    using ok i n by (simp_all add: log_ok_append)
  obtain m where "encodedLen E rc = Inr m" "m \<le> MaxRecordBytes (msLimits s)"
    "len (memLog s k) < MaxTransitions (msLimits s)" "bytesOf s k + (m + 1) \<le> MaxFileBytes (msLimits s)"
    using room ne by (auto simp: mem_room_def)
  with r i v new ne validateNextRecordD(2) [OF v] show ?thesis
    by (simp add: memCas_def encodedRecord_def lastRecord_def commandIndex_None not_le)
qed

lemma memCreate_accepts:
  assumes inv: "mem_inv E s" and none: "memLog s k = []" and ok: "log_ok E k [rc]"
    and room: "mem_room E s k rc"
  shows "fst (memCreate E None rc s) = None"
proof -
  have "map_of (msRecords s) k = None" using memLog_cases(1) [OF inv] none by simp
  with ok room none show ?thesis
    by (auto simp: memCreate_def encodedRecord_def log_ok_single mem_room_def validateCreateRecord_def Let_def)
qed

interpretation mem: team_store E "memory_ops E" "mem_inv E" memLog "mem_room E" for E
proof
  fix s :: mem_store and c :: ctx and k cmd mk :: string and rc n e s'
  show "mem_inv E s \<Longrightarrow> memLog s k \<noteq> [] \<Longrightarrow> log_ok E k (memLog s k)" by (rule mem_log_inv)
  show "mem_inv E s \<Longrightarrow> opLoad (memory_ops E) c k s =
      guardE c (if memLog s k = [] then Inl ErrNotFound else Inr (last (memLog s k)))"
    by (simp add: memory_ops_def memLoad_eq)
  show "mem_inv E s \<Longrightarrow> opLoadCommand (memory_ops E) c k cmd s =
      guardE c (of_opt ErrNotFound (findCommand (memLog s k) cmd))"
    by (simp add: memory_ops_def memLoadCommand_eq)
  show "mem_inv E s \<Longrightarrow> opLoadMessage (memory_ops E) c k mk s =
      guardE c (of_opt ErrNotFound (recordMessage (memLog s k) mk))"
    by (simp add: memory_ops_def memLoadMessage_eq)
  show "mem_inv E s \<Longrightarrow> opHistory (memory_ops E) c k s =
      guardE c (if memLog s k = [] then Inl ErrNotFound else Inr (memLog s k))"
    by (simp add: memory_ops_def memHistory_eq)
  show "opCreate (memory_ops E) c rc s = (Some e, s') \<Longrightarrow> s' = s"
    by (simp add: memory_ops_def memCreate_fail)
  show "mem_inv E s \<Longrightarrow> opCreate (memory_ops E) c rc s = (None, s') \<Longrightarrow>
      mem_inv E s' \<and> memLog s (teID (rcTeam rc)) = [] \<and> memLog s' = (memLog s)(teID (rcTeam rc) := [rc])"
    by (simp add: memory_ops_def memCreate_ok)
  show "opCas (memory_ops E) c k n rc s = (Some e, s') \<Longrightarrow> s' = s"
    by (simp add: memory_ops_def memCas_fail)
  show "mem_inv E s \<Longrightarrow> opCas (memory_ops E) c k n rc s = (None, s') \<Longrightarrow> mem_inv E s' \<and>
      memLog s k \<noteq> [] \<and> recRevision (last (memLog s k)) = n \<and> memLog s' = (memLog s)(k := memLog s k @ [rc])"
    by (simp add: memory_ops_def memCas_ok)
  show "mem_inv E s \<Longrightarrow> memLog s k \<noteq> [] \<Longrightarrow> log_ok E k (memLog s k @ [rc]) \<Longrightarrow>
      n = recRevision (last (memLog s k)) \<Longrightarrow> mem_room E s k rc \<Longrightarrow>
      fst (opCas (memory_ops E) None k n rc s) = None"
    by (simp add: memory_ops_def memCas_accepts)
  show "mem_inv E s \<Longrightarrow> memLog s k = [] \<Longrightarrow> log_ok E k [rc] \<Longrightarrow> mem_room E s k rc \<Longrightarrow>
      fst (opCreate (memory_ops E) None rc s) = None"
    by (simp add: memory_ops_def memCreate_accepts)
qed

end
