(* ===== verification/TeamEngine.thy ===== *)
theory TeamEngine
  imports TeamStoreLaws
begin

section \<open>Team: the engine\<close>

text \<open>
  \<^verbatim>\<open>agent/team/engine.go\<close> and the methods of \<^verbatim>\<open>member.go\<close>, \<^verbatim>\<open>task.go\<close>, \<^verbatim>\<open>attempt.go\<close>, \<^verbatim>\<open>mailbox.go\<close>
  and \<^verbatim>\<open>lifecycle.go\<close> over it. The engine holds no state of its own: it reads and writes a store that
  other engines use as well. Between two of its store calls anything may happen to the store;
  \<open>ceItf\<close> is what happens, one function per call. \<open>ceCtx\<close> is the state of the call's context at
  each store call, \<open>ceNow\<close> and \<open>ceIDs\<close> are the clock and the event ID source.
\<close>

datatype phase = PReplay | PLoad | PMutate | PCommit | PReplay2 | PRead | PRead2

record 'st call_env =
  ceCtx :: "phase \<Rightarrow> ctx"
  ceNow :: gtime
  ceIDs :: "gtime \<Rightarrow> team_error + string"
  ceItf :: "phase \<Rightarrow> 'st \<Rightarrow> 'st"

subsection \<open>Applying a command\<close>

text \<open>\<open>Inr None\<close> is the code's \<open>found = false\<close> without an error.\<close>

definition engineReplay ::
    "team_env \<Rightarrow> 'st store_ops \<Rightarrow> ctx \<Rightarrow> string \<Rightarrow> string \<Rightarrow> string \<Rightarrow> 'st
       \<Rightarrow> team_error + team_record option" where
  "engineReplay E S c k cmd hash s =
     (case opLoadCommand S c k cmd s of
        Inl e \<Rightarrow> if errorsIs e ErrNotFound then Inr None else Inl e
      | Inr rc \<Rightarrow> guardE (first_err
          [validateLoadedRecord E k rc,
           fail_if (recCommand rc \<noteq> cmd) (corruptStoreValue k None),
           fail_if (trCommandHash (rcTransition rc) \<noteq> hash) ErrCommandConflict])
          (Inr (Some rc)))"

definition loadRecord ::
    "team_env \<Rightarrow> 'st store_ops \<Rightarrow> ctx \<Rightarrow> string \<Rightarrow> 'st \<Rightarrow> team_error + team_record" where
  "loadRecord E S c k s =
     bindE (opLoad S c k s) (\<lambda>rc. guardE (validateLoadedRecord E k rc) (Inr rc))"

definition newEventID :: "(gtime \<Rightarrow> team_error + string) \<Rightarrow> gtime \<Rightarrow> team_error + string" where
  "newEventID ids now = bindE (ids now) (\<lambda>k. guardE (validateSafeID k) (Inr k))"

definition nextTeam :: "team \<Rightarrow> team \<Rightarrow> gtime \<Rightarrow> team" where
  "nextTeam cur t now = t\<lparr>teRevision := teRevision cur + 1, teUpdatedAt := now\<rparr>"

definition nextRecord ::
    "string \<Rightarrow> command_metadata \<Rightarrow> string \<Rightarrow> team \<Rightarrow> gtime \<Rightarrow> team \<Rightarrow> transition_fields \<Rightarrow> string
       \<Rightarrow> team_record" where
  "nextRecord k c hash cur now t f ev =
     (let n = nextTeam cur t now
      in \<lparr>rcSchema = schemaVersion, rcTeam = n,
          rcTransition = \<lparr>trSchema = schemaVersion, trID = ev, trTeamID = k,
            trRevision = teRevision n, trAt = now, trActor = cmdActor c, trCommandID = cmdID c,
            trCommandHash = hash, trCause = tfCause f, trTaskID = tfTask f, trMemberID = tfMember f,
            trAttemptID = tfAttempt f, trMessageID = tfMessage f, trFrom = teStatus cur,
            trTo = teStatus n, trReason = tfReason f\<rparr>,
          rcMessage = tfDelta f\<rparr>)"

type_synonym loader = "string \<Rightarrow> team_error + message"

definition commitRecord ::
    "team_env \<Rightarrow> 'st store_ops \<Rightarrow> 'st call_env \<Rightarrow> string \<Rightarrow> command_metadata \<Rightarrow> string \<Rightarrow> team_record \<Rightarrow> 'st
       \<Rightarrow> (team_error + team_record) \<times> 'st" where
  "commitRecord E S ce k c hash next s =
     (case opCas S (ceCtx ce PCommit) k (cmdExpected c) next (ceItf ce PCommit s) of
        (None, s1) \<Rightarrow> (Inr next, s1)
      | (Some e, s1) \<Rightarrow>
          if errorsIs e ErrConflict \<or> errorsIs e ErrCommandConflict
          then (let s2 = ceItf ce PReplay2 s1
                in (case engineReplay E S (ceCtx ce PReplay2) k (cmdID c) hash s2 of
                      Inl e' \<Rightarrow> (Inl e', s2)
                    | Inr (Some rc) \<Rightarrow> (Inr rc, s2)
                    | Inr None \<Rightarrow> (Inl e, s2)))
          else (Inl e, s1))"

definition mutateRecord ::
    "team_env \<Rightarrow> 'st store_ops \<Rightarrow> 'st call_env \<Rightarrow> string \<Rightarrow> command_metadata \<Rightarrow> string \<Rightarrow>
       (loader \<Rightarrow> mutation) \<Rightarrow> team \<Rightarrow> 'st \<Rightarrow> team_error + team_record" where
  "mutateRecord E S ce k c hash mutate cur s =
     (let now = utc (ceNow ce)
      in bindE (mutate (\<lambda>mk. opLoadMessage S (ceCtx ce PMutate) k mk s) cur now)
        (\<lambda>(t, f). bindE (newEventID (ceIDs ce) now)
          (\<lambda>ev. Inr (nextRecord k c hash cur now t f ev))))"

definition applyCommand ::
    "team_env \<Rightarrow> 'st store_ops \<Rightarrow> 'st call_env \<Rightarrow> string \<Rightarrow> command_metadata \<Rightarrow> string \<Rightarrow> semantic \<Rightarrow>
       (loader \<Rightarrow> mutation) \<Rightarrow> 'st \<Rightarrow> (team_error + team_record) \<times> 'st" where
  "applyCommand E S ce k c operation sem mutate s =
     (case guardE (first_err [validateSafeID k, validateCommand c False])
         (commandHash E operation k (cmdActor c) sem) of
        Inl e \<Rightarrow> (Inl e, s)
      | Inr hash \<Rightarrow>
         (let s1 = ceItf ce PReplay s
          in case engineReplay E S (ceCtx ce PReplay) k (cmdID c) hash s1 of
            Inl e \<Rightarrow> (Inl e, s1)
          | Inr (Some rc) \<Rightarrow> (Inr rc, s1)
          | Inr None \<Rightarrow>
             (let s2 = ceItf ce PLoad s1
              in case loadRecord E S (ceCtx ce PLoad) k s2 of
                Inl e \<Rightarrow> (Inl e, s2)
              | Inr cur \<Rightarrow>
                  if recRevision cur \<noteq> cmdExpected c
                  then (Inl (ConflictError (cmdExpected c) (recRevision cur)), s2)
                  else (let s3 = ceItf ce PMutate s2
                    in case mutateRecord E S ce k c hash mutate (rcTeam cur) s3 of
                      Inl e \<Rightarrow> (Inl e, s3)
                    | Inr next \<Rightarrow> commitRecord E S ce k c hash next s3))))"

subsection \<open>The commands\<close>

text \<open>
  One constructor per method of the engine that changes a Team. A method checks its request,
  applies its mutation under an operation name and a semantic value, and returns the snapshot.
\<close>

datatype team_command =
    RegisterMember member_spec
  | DisableMember string string
  | EnableMember string
  | CreateTask create_task_request
  | AssignTask string string
  | UnassignTask string
  | ClaimTask string
  | ReleaseTask string string
  | RetryTask string string
  | CancelTask string string
  | StartTaskAttempt string string string
  | FinishTaskAttempt finish_request
  | SendMessage send_request
  | AcknowledgeMessages u64
  | CompleteTeam "string option" "artifact list" string
  | FailTeam string
  | CancelTeam string

fun commandCheck :: "team_command \<Rightarrow> team_error option" where
  "commandCheck (RegisterMember spec) = registerMember_check spec"
| "commandCheck (DisableMember k r) = disableMember_check k r"
| "commandCheck (EnableMember k) = enableMember_check k"
| "commandCheck (CreateTask r) = createTask_check r"
| "commandCheck (AssignTask k m) = assignTask_check k m"
| "commandCheck (UnassignTask k) = unassignTask_check k"
| "commandCheck (ClaimTask k) = claimTask_check k"
| "commandCheck (ReleaseTask k r) = releaseTask_check k r"
| "commandCheck (RetryTask k r) = retryTask_check k r"
| "commandCheck (CancelTask k r) = cancelTask_check k r"
| "commandCheck (StartTaskAttempt k a c) = startTaskAttempt_check k a c"
| "commandCheck (FinishTaskAttempt r) = finishTaskAttempt_check r"
| "commandCheck (SendMessage r) = sendMessage_check r"
| "commandCheck (AcknowledgeMessages n) = None"
| "commandCheck (CompleteTeam out as r) = completeTeam_check out as r"
| "commandCheck (FailTeam r) = terminalizeTeam_check r"
| "commandCheck (CancelTeam r) = terminalizeTeam_check r"

fun commandMutation :: "team_env \<Rightarrow> team_command \<Rightarrow> actor \<Rightarrow> loader \<Rightarrow> mutation" where
  "commandMutation E (RegisterMember spec) a load = registerMember E a spec"
| "commandMutation E (DisableMember k r) a load = disableMember a k r"
| "commandMutation E (EnableMember k) a load = enableMember a k"
| "commandMutation E (CreateTask r) a load = createTask a r"
| "commandMutation E (AssignTask k m) a load = assignTask a k m"
| "commandMutation E (UnassignTask k) a load = unassignTask a k"
| "commandMutation E (ClaimTask k) a load = claimTask a k"
| "commandMutation E (ReleaseTask k r) a load = releaseTask a k r"
| "commandMutation E (RetryTask k r) a load = retryTask a k r"
| "commandMutation E (CancelTask k r) a load = cancelTask a k r"
| "commandMutation E (StartTaskAttempt k ak ck) a load = startTaskAttempt a k ak ck"
| "commandMutation E (FinishTaskAttempt r) a load = finishTaskAttempt a r"
| "commandMutation E (SendMessage r) a load = sendMessage load a r"
| "commandMutation E (AcknowledgeMessages n) a load = acknowledgeMessages a n"
| "commandMutation E (CompleteTeam out as r) a load = completeTeam a out as r"
| "commandMutation E (FailTeam r) a load = failTeam a r"
| "commandMutation E (CancelTeam r) a load = cancelTeam a r"

fun commandOperation :: "team_command \<Rightarrow> string" where
  "commandOperation (RegisterMember _) = ''register_member''"
| "commandOperation (DisableMember _ _) = ''disable_member''"
| "commandOperation (EnableMember _) = ''enable_member''"
| "commandOperation (CreateTask _) = ''create_task''"
| "commandOperation (AssignTask _ _) = ''assign_task''"
| "commandOperation (UnassignTask _) = ''unassign_task''"
| "commandOperation (ClaimTask _) = ''claim_task''"
| "commandOperation (ReleaseTask _ _) = ''release_task''"
| "commandOperation (RetryTask _ _) = ''retry_task''"
| "commandOperation (CancelTask _ _) = ''cancel_task''"
| "commandOperation (StartTaskAttempt _ _ _) = ''start_task_attempt''"
| "commandOperation (FinishTaskAttempt _) = ''finish_task_attempt''"
| "commandOperation (SendMessage _) = ''send_message''"
| "commandOperation (AcknowledgeMessages _) = ''acknowledge_messages''"
| "commandOperation (CompleteTeam _ _ _) = ''complete_team''"
| "commandOperation (FailTeam _) = ''fail_team''"
| "commandOperation (CancelTeam _) = ''cancel_team''"

fun commandSemantic :: "team_command \<Rightarrow> semantic" where
  "commandSemantic (RegisterMember spec) = SemRegister spec"
| "commandSemantic (DisableMember k r) = SemDisable k r"
| "commandSemantic (EnableMember k) = SemEnable k"
| "commandSemantic (CreateTask r) = SemCreateTask (ctTaskID r) (ctTitle r) (ctDescription r)
     (ctPayload r) (ctDeps r) (ctAttemptLimit r)"
| "commandSemantic (AssignTask k m) = SemAssign k m"
| "commandSemantic (UnassignTask k) = SemUnassign k"
| "commandSemantic (ClaimTask k) = SemClaim k"
| "commandSemantic (ReleaseTask k r) = SemRelease k r"
| "commandSemantic (RetryTask k r) = SemRetry k r"
| "commandSemantic (CancelTask k r) = SemCancelTask k r"
| "commandSemantic (StartTaskAttempt k a c) = SemStart k a c"
| "commandSemantic (FinishTaskAttempt r) = SemFinish (frTaskID r) (frAttemptID r)
     (frContinuationID r) (frOutcome r) (frResult r) (frArtifacts r) (frReason r)"
| "commandSemantic (SendMessage r) = SemSend (srMessageID r) (srRecipientID r) (srTaskID r)
     (srReplyToID r) (srBody r)"
| "commandSemantic (AcknowledgeMessages n) = SemAck n"
| "commandSemantic (CompleteTeam out as r) = SemComplete out as r"
| "commandSemantic (FailTeam r) = SemTerminal StatusFailed r"
| "commandSemantic (CancelTeam r) = SemTerminal StatusCancelled r"

definition execute ::
    "team_env \<Rightarrow> 'st store_ops \<Rightarrow> 'st call_env \<Rightarrow> string \<Rightarrow> command_metadata \<Rightarrow> team_command \<Rightarrow> 'st
       \<Rightarrow> (team_error + team_record) \<times> 'st" where
  "execute E S ce k c cmd s =
     (case commandCheck cmd of
        Some e \<Rightarrow> (Inl e, s)
      | None \<Rightarrow> applyCommand E S ce k c (commandOperation cmd) (commandSemantic cmd)
          (commandMutation E cmd (cmdActor c)) s)"

text \<open>The results two methods read off the committed record, after \<open>execute\<close>.\<close>

definition startResult :: "string \<Rightarrow> string \<Rightarrow> team_record \<Rightarrow> team_error + (team \<times> dispatch)" where
  "startResult k ak rc = (case findTask (rcTeam rc) k of
       None \<Rightarrow> Inl ErrCorruptStore
     | Some (x, _) \<Rightarrow> (case findAttempt x ak of
           None \<Rightarrow> Inl ErrCorruptStore
         | Some a \<Rightarrow> Inr (rcTeam rc, dispatchFor (rcTeam rc) x a)))"

definition sendResult :: "string \<Rightarrow> team_record \<Rightarrow> team_error + (team \<times> message)" where
  "sendResult mk rc = (case rcMessage rc of
       None \<Rightarrow> Inl ErrCorruptStore
     | Some g \<Rightarrow> if gID g \<noteq> mk then Inl ErrCorruptStore else Inr (rcTeam rc, g))"

subsection \<open>Creating a Team\<close>

definition createCheck :: "command_metadata \<Rightarrow> create_request \<Rightarrow> team_error + team_limits" where
  "createCheck c r =
     guardE (first_err
       [validateCommand c True,
        fail_if (acKind (cmdActor c) \<noteq> ActorKindCoordinator) ErrUnauthorized,
        validateSafeID (crID r), validateText (crObjective r) 16384 True,
        validateMemberSpec (crLead r)])
       (resolveLimits (crLimits r))"

definition newTeam :: "create_request \<Rightarrow> team_limits \<Rightarrow> gtime \<Rightarrow> team" where
  "newTeam r limits now = \<lparr>teSchema = schemaVersion, teID = crID r, teRevision = 1,
     teStatus = StatusActive, teObjective = crObjective r, teLead = msID (crLead r),
     teMembers = [newMember (crLead r) now], teTasks = [], teNextSeq = 1, teLimits = limits,
     teReason = [], teOutput = None, teArtifacts = [], teCreatedAt = now, teUpdatedAt = now\<rparr>"

definition createRecord ::
    "command_metadata \<Rightarrow> create_request \<Rightarrow> team_limits \<Rightarrow> string \<Rightarrow> gtime \<Rightarrow> string \<Rightarrow> team_record" where
  "createRecord c r limits hash now ev =
     \<lparr>rcSchema = schemaVersion, rcTeam = newTeam r limits now,
      rcTransition = \<lparr>trSchema = schemaVersion, trID = ev, trTeamID = crID r, trRevision = 1,
        trAt = now, trActor = cmdActor c, trCommandID = cmdID c, trCommandHash = hash,
        trCause = CauseCreate, trTaskID = [], trMemberID = msID (crLead r), trAttemptID = [],
        trMessageID = [], trFrom = no_status, trTo = StatusActive, trReason = []\<rparr>,
      rcMessage = None\<rparr>"

definition engineCreate ::
    "team_env \<Rightarrow> 'st store_ops \<Rightarrow> 'st call_env \<Rightarrow> command_metadata \<Rightarrow> create_request \<Rightarrow> 'st
       \<Rightarrow> (team_error + team) \<times> 'st" where
  "engineCreate E S ce c r s =
     (case bindE (createCheck c r)
         (\<lambda>limits. bindE (commandHash E ''create_team'' (crID r) (cmdActor c)
            (SemCreate (crObjective r) (crLead r) limits)) (\<lambda>hash. Inr (limits, hash))) of
        Inl e \<Rightarrow> (Inl e, s)
      | Inr (limits, hash) \<Rightarrow>
         (let s1 = ceItf ce PReplay s
          in case engineReplay E S (ceCtx ce PReplay) (crID r) (cmdID c) hash s1 of
            Inl e \<Rightarrow> (Inl e, s1)
          | Inr (Some rc) \<Rightarrow> (Inr (rcTeam rc), s1)
          | Inr None \<Rightarrow>
             (let now = utc (ceNow ce)
              in case newEventID (ceIDs ce) now of
                Inl e \<Rightarrow> (Inl e, s1)
              | Inr ev \<Rightarrow>
                 (case opCreate S (ceCtx ce PCommit) (createRecord c r limits hash now ev)
                     (ceItf ce PCommit s1) of
                    (None, s2) \<Rightarrow> (Inr (newTeam r limits now), s2)
                  | (Some e, s2) \<Rightarrow>
                      if errorsIs e ErrExists
                      then (let s3 = ceItf ce PReplay2 s2
                        in (case engineReplay E S (ceCtx ce PReplay2) (crID r) (cmdID c) hash s3 of
                              Inl e' \<Rightarrow> (Inl e', s3)
                            | Inr (Some rc) \<Rightarrow> (Inr (rcTeam rc), s3)
                            | Inr None \<Rightarrow> (Inl e, s3)))
                      else (Inl e, s2)))))"

subsection \<open>Reading\<close>

definition engineGet ::
    "team_env \<Rightarrow> 'st store_ops \<Rightarrow> ctx \<Rightarrow> string \<Rightarrow> 'st \<Rightarrow> team_error + team" where
  "engineGet E S c k s =
     guardE (validateSafeID k) (bindE (loadRecord E S c k s) (\<lambda>rc. Inr (rcTeam rc)))"

definition engineList ::
    "team_env \<Rightarrow> 'st store_ops \<Rightarrow> ctx \<Rightarrow> list_options \<Rightarrow> 'st \<Rightarrow> team_error + list_page" where
  "engineList E S c opt s =
     guardE (validateListOptions opt 1000)
       (bindE (opList S c opt s) (\<lambda>page. guardE (validateListPage E page opt) (Inr page)))"

definition engineHistory ::
    "team_env \<Rightarrow> 'st store_ops \<Rightarrow> ctx \<Rightarrow> string \<Rightarrow> 'st \<Rightarrow> team_error + team_record list" where
  "engineHistory E S c k s =
     guardE (validateSafeID k)
       (bindE (opHistory S c k s) (\<lambda>rs. guardE (validateLoadedHistory E k rs) (Inr rs)))"

definition engineChanges ::
    "'st store_ops \<Rightarrow> ctx \<Rightarrow> string \<Rightarrow> change_options \<Rightarrow> 'st \<Rightarrow> team_error + change_page" where
  "engineChanges S c k opt s =
     guardE (validateSafeID k)
       (bindE (validateChangeOptions opt)
         (\<lambda>opt'. bindE (opChanges S c k opt' s)
           (\<lambda>page. guardE (validateChangePage k page opt') (Inr page))))"

text \<open>\<open>Mailbox\<close> makes three store calls, so the store may change between them.\<close>

definition engineMailbox ::
    "team_env \<Rightarrow> 'st store_ops \<Rightarrow> 'st call_env \<Rightarrow> string \<Rightarrow> string \<Rightarrow> mailbox_options \<Rightarrow> 'st
       \<Rightarrow> team_error + message_page" where
  "engineMailbox E S ce k mk opt s =
     (let s1 = ceItf ce PLoad s; s2 = ceItf ce PRead s1; s3 = ceItf ce PRead2 s2
      in guardE (validateSafeID mk)
       (bindE (validateMailboxOptions opt)
         (\<lambda>opt'. bindE (engineGet E S (ceCtx ce PLoad) k s1)
           (\<lambda>t. guardE (fail_if (findMember t mk = None) ErrNotFound)
             (bindE (opMailbox S (ceCtx ce PRead) k mk opt' s2)
               (\<lambda>page. bindE (engineGet E S (ceCtx ce PRead2) k s3)
                 (\<lambda>latest. guardE (validateMessagePage latest mk page opt') (Inr page))))))))"

definition engineActiveDispatches ::
    "team_env \<Rightarrow> 'st store_ops \<Rightarrow> ctx \<Rightarrow> string \<Rightarrow> 'st \<Rightarrow> team_error + dispatch list" where
  "engineActiveDispatches E S c k s =
     bindE (engineGet E S c k s) (\<lambda>t. Inr (activeDispatches t))"

definition engineCancellationDispatches ::
    "team_env \<Rightarrow> 'st store_ops \<Rightarrow> ctx \<Rightarrow> string \<Rightarrow> 'st \<Rightarrow> team_error + dispatch list" where
  "engineCancellationDispatches E S c k s =
     bindE (engineGet E S c k s) (\<lambda>t. Inr (cancellationDispatches t))"

end
