(* ===== verification/TeamTransition.thy ===== *)
theory TeamTransition
  imports TeamPromote TeamEngine
begin

section \<open>Team: the record of a command is valid\<close>

text \<open>
  What each mutation says of itself in the transition's fields agrees with the snapshot it makes:
  the references exist, the actor has the authority, the state is the one the cause promises.
\<close>

subsection \<open>Lookups in the new snapshot\<close>

lemma map_of_rev_distinct: "distinct (map fst ys) \<Longrightarrow> map_of (rev ys) = map_of ys"
  using map_of_inject_set [of "rev ys" ys] by (simp add: rev_map [symmetric])

lemma key_map_rev: "distinct (map f xs) \<Longrightarrow> map_of (map (\<lambda>x. (f x, x)) (rev xs)) = key_map f xs"
  using map_of_rev_distinct [of "map (\<lambda>x. (f x, x)) xs"] by (simp add: key_map_def rev_map comp_def)

lemma taskTable_eq: "distinct (map tID xs) \<Longrightarrow> taskTable xs = taskMap xs"
  by (simp add: taskTable_def key_map_rev)

lemma memberTable_eq: "distinct (map mID ms) \<Longrightarrow> memberTable ms = memberMap ms"
  by (simp add: memberTable_def key_map_rev)

lemma taskTable_mem:
  "distinct (map tID xs) \<Longrightarrow> x \<in> set xs \<Longrightarrow> taskTable xs (tID x) = Some x"
  by (simp add: taskTable_eq key_map_distinct)

lemma memberOrZero_mem:
  "distinct (map mID (teMembers t)) \<Longrightarrow> m \<in> set (teMembers t) \<Longrightarrow> memberOrZero t (mID m) = m"
  using find_idx_key [of mID "teMembers t" m] by (auto simp: memberOrZero_def findMember_def)

definition tr_of :: "transition_fields \<Rightarrow> actor \<Rightarrow> transition \<Rightarrow> bool" where
  "tr_of f a r \<longleftrightarrow> trActor r = a \<and> trCause r = tfCause f \<and> trTaskID r = tfTask f \<and>
     trMemberID r = tfMember f \<and> trAttemptID r = tfAttempt f \<and> trMessageID r = tfMessage f \<and>
     trReason r = tfReason f"

lemma causeFields_simps [simp]:
  "tfCause (causeFields c) = c" "tfTask (causeFields c) = []" "tfMember (causeFields c) = []"
  "tfAttempt (causeFields c) = []" "tfMessage (causeFields c) = []" "tfReason (causeFields c) = []"
  "tfDelta (causeFields c) = None"
  by (simp_all add: causeFields_def)

text \<open>The fields a snapshot keeps whatever the command.\<close>

definition frame :: "team \<Rightarrow> team \<Rightarrow> bool" where
  "frame t t' \<longleftrightarrow> teID t' = teID t \<and> teRevision t' = teRevision t \<and> teLead t' = teLead t \<and>
     teLimits t' = teLimits t \<and> teSchema t' = teSchema t \<and> teObjective t' = teObjective t \<and>
     teCreatedAt t' = teCreatedAt t"

lemma frame_simps [simp]:
  "frame t (setTask t i x)" "frame t (setMember t i m)"
  "frame t (t\<lparr>teMembers := ms\<rparr>)" "frame t (t\<lparr>teTasks := xs\<rparr>)"
  by (simp_all add: frame_def setTask_def setMember_def)

lemma promoteAt_frame: "frame t u \<Longrightarrow> frame t (promoteAt now u i)"
  by (simp add: promoteAt_def frame_def setTask_def Let_def)

lemma foldl_promote_frame: "frame t u \<Longrightarrow> frame t (foldl (promoteAt now) u is)"
  by (induction "is" arbitrary: u) (simp_all add: promoteAt_frame)

lemma command_frame:
  assumes "commandMutation E cmd a load t now = Inr (t', f)"
  shows "frame t t'"
  using assms foldl_promote_frame [of t]
  by (cases cmd)
    (auto simp: registerMember_def disableMember_def enableMember_def createTask_def assignTask_def
      unassignTask_def claimTask_def releaseTask_def retryTask_def cancelTask_def bindE_Inr
      startTaskAttempt_def finishTaskAttempt_def sendMessage_def acknowledgeMessages_def
      completeTeam_def failTeam_def cancelTeam_def terminalizeTeam_def Let_def
      promoteReadyTasks_def frame_def setTask_def setMember_def
      split: option.splits if_splits)

text \<open>The cause a command records, and the messages it carries.\<close>

lemma command_active:
  assumes "commandMutation E cmd a load t now = Inr (t', f)"
  shows "teStatus t = StatusActive"
  using assms
  by (cases cmd)
    (auto simp: registerMember_def disableMember_def enableMember_def createTask_def assignTask_def
      unassignTask_def claimTask_def releaseTask_def retryTask_def cancelTask_def bindE_Inr
      startTaskAttempt_def finishTaskAttempt_def sendMessage_def acknowledgeMessages_def
      completeTeam_def failTeam_def cancelTeam_def terminalizeTeam_def Let_def requireActive_def
      split: option.splits if_splits)

lemma command_cause:
  assumes "commandMutation E cmd a load t now = Inr (t', f)" "commandCheck cmd = None"
  shows "tfCause f \<noteq> CauseCreate" "validCause (tfCause f)" "validateReason (tfReason f) False = None"
proof -
  have empty: "validateReason [] False = None" by (simp add: validateReason_def validateText_def)
  show "tfCause f \<noteq> CauseCreate" "validCause (tfCause f)" "validateReason (tfReason f) False = None"
    using assms empty
    by (cases cmd; auto simp: registerMember_def disableMember_def enableMember_def createTask_def
        assignTask_def unassignTask_def claimTask_def releaseTask_def retryTask_def cancelTask_def
        bindE_Inr startTaskAttempt_def finishTaskAttempt_def sendMessage_def acknowledgeMessages_def
        completeTeam_def failTeam_def cancelTeam_def terminalizeTeam_def Let_def validCause_def
        disableMember_check_def releaseTask_check_def retryTask_check_def cancelTask_check_def
        finishTaskAttempt_check_def completeTeam_check_def terminalizeTeam_check_def
        dest: reason_weaken split: option.splits if_splits)+
qed

subsection \<open>Every command keeps the invariant\<close>

theorem command_inv:
  assumes inv: "team_inv E t" and c: "commandCheck cmd = None"
    and run: "commandMutation E cmd a load t now = Inr (t', f)" and l: "later t now"
  shows "team_inv E (stamp now t')"
  using assms
  by (cases cmd)
    (simp_all add: failTeam_def cancelTeam_def registerMember_inv disableMember_inv enableMember_inv
      createTask_inv assignTask_inv unassignTask_inv claimTask_inv releaseTask_inv retryTask_inv
      cancelTask_inv startTaskAttempt_inv finishTaskAttempt_inv sendMessage_inv
      acknowledgeMessages_inv completeTeam_inv terminalizeTeam_inv)

subsection \<open>References, authority and state of the transition\<close>

lemma activeActor_mem:
  assumes "activeActorMember t a = Inr m"
  shows "acKind a = ActorKindMember" "m \<in> set (teMembers t)" "mID m = acID a"
    "acID a \<in> mID ` set (teMembers t)"
proof -
  show k: "acKind a = ActorKindMember" and m: "m \<in> set (teMembers t)" and i: "mID m = acID a"
    using assms by (auto simp: activeActorMember_Inr dest: findMemberD)
  from m i show "acID a \<in> mID ` set (teMembers t)" by (metis imageI)
qed

lemma leadOrCoordinator_None:
  assumes "requireLeadOrCoordinator t a = None"
  shows "acKind a = ActorKindMember \<longrightarrow> acID a \<in> mID ` set (teMembers t)"
    "acKind a \<noteq> ActorKindCoordinator \<longrightarrow> acID a = teLead t"
  using assms activeActor_mem [of t a]
  by (auto simp: requireLeadOrCoordinator_def split: if_splits sum.splits)

lemma taskOperator_None:
  assumes "requireTaskOperator t a cl = None"
  shows "acKind a = ActorKindMember \<longrightarrow> acID a \<in> mID ` set (teMembers t)"
    "acKind a \<noteq> ActorKindCoordinator \<longrightarrow> acID a = cl \<or> acID a = teLead t"
  using assms activeActor_mem [of t a]
  by (auto simp: requireTaskOperator_def split: if_splits sum.splits)

lemma safe_ids:
  assumes "team_inv E t"
  shows "m \<in> set (teMembers t) \<Longrightarrow> safeID (mID m)" "x \<in> set (teTasks t) \<Longrightarrow> safeID (tID x)"
    "x \<in> set (teTasks t) \<Longrightarrow> b \<in> set (tAttempts x) \<Longrightarrow> safeID (atID b)"
proof -
  show "m \<in> set (teMembers t) \<Longrightarrow> safeID (mID m)"
    using team_invD(7) [OF assms, of m]
    by (auto simp: member_ok_def validateMemberSpec_def memberSpecOf_def validateSafeID_def)
  show "x \<in> set (teTasks t) \<Longrightarrow> safeID (tID x)"
    using tasks_invD(1) [OF team_invD(5) [OF assms]] by (simp add: task_base_def)
  have "attempts_ok L M n bs \<Longrightarrow> b \<in> set bs \<Longrightarrow> safeID (atID b)" for L M n bs
    by (induction bs arbitrary: n) (auto simp: attempt_ok_def)
  then show "x \<in> set (teTasks t) \<Longrightarrow> b \<in> set (tAttempts x) \<Longrightarrow> safeID (atID b)"
    using tasks_invD(1) [OF team_invD(5) [OF assms]] unfolding task_base_def by blast
qed

lemma found_task:
  assumes "team_inv E t" "findTask t k = Some (x, i)"
  shows "x \<in> set (teTasks t)" "tID x \<noteq> []"
proof -
  show "x \<in> set (teTasks t)" using findTaskD [OF assms(2)] by simp
  from safe_ids(2) [OF assms(1) this] show "tID x \<noteq> []" by auto
qed

lemma found_member:
  assumes "team_inv E t" "findMember t k = Some (m, i)"
  shows "k \<noteq> []" "k \<in> mID ` set (teMembers t)"
proof -
  have m: "m \<in> set (teMembers t)" "mID m = k" using findMemberD [OF assms(2)] by auto
  from safe_ids(1) [OF assms(1) m(1)] m show "k \<noteq> []" by auto
  from m show "k \<in> mID ` set (teMembers t)" by (metis imageI)
qed

lemma claimant_mem:
  assumes "team_inv E t" "x \<in> set (teTasks t)" "tClaimed x \<noteq> []"
  shows "tClaimed x \<in> mID ` set (teMembers t)"
proof -
  obtain m where "memberMap (teMembers t) (tClaimed x) = Some m"
    using tasks_invD(1) [OF team_invD(5) [OF assms(1)] assms(2)] assms(3)
    unfolding task_base_def by blast
  from key_map_SomeD [OF this] show ?thesis by (metis imageI)
qed

lemma setTask_mem:
  "findTask t k = Some (x, i) \<Longrightarrow> y \<in> set (teTasks (setTask t i y))"
  using findTaskD [of t k x i] by (auto simp: setTask_def intro: set_update_memI)

lemma setTask_members [simp]:
  "teMembers (setTask t i y) = teMembers t" "teLead (setTask t i y) = teLead t"
  "teStatus (setTask t i y) = teStatus t"
  by (simp_all add: setTask_def)

lemma setMember_mem:
  "findMember t k = Some (m, i) \<Longrightarrow> n \<in> set (teMembers (setMember t i n))"
  using findMemberD [of t k m i] by (auto simp: setMember_def intro: set_update_memI)

lemmas refs_defs = validateTransitionReferences_def validateCauseReferences_def requireRef_def
  validateTransitionAuthority_def validateCauseState_def validateAttemptTransitionState_def Let_def

text \<open>A task command names a task \<open>y\<close> of the new snapshot.\<close>

lemma task_lookup:
  assumes "team_inv E (stamp now t')" "y \<in> set (teTasks t')" "tID y = k"
  shows "taskTable (teTasks t') k = Some y"
  using taskTable_mem [of "teTasks t'" y] team_invD(3) [OF assms(1)] assms(2,3) by simp

lemma member_lookup:
  assumes "team_inv E (stamp now t')" "m \<in> set (teMembers t')" "mID m = k"
  shows "memberOrZero t' k = m"
  using memberOrZero_mem [of t' m] team_invD(2) [OF assms(1)] assms(2,3) by simp

lemma member_refs:
  assumes inv: "team_inv E t" and c: "commandCheck cmd = None"
    and run: "commandMutation E cmd a load t now = Inr (t', f)" and l: "later t now"
    and cmd: "cmd = RegisterMember spec \<or> cmd = DisableMember k rs \<or> cmd = EnableMember k"
    and r: "tr_of f a r"
  shows "validateTransitionReferences t' r (tfDelta f) = None"
proof -
  note inv' = command_inv [OF inv c run l]
  have coord: "acKind a = ActorKindCoordinator"
    using run cmd by (auto simp: registerMember_def disableMember_def enableMember_def
        requireCoordinator_def)
  obtain m where m: "m \<in> set (teMembers t')" "mID m = tfMember f"
    and st: "if tfCause f = CauseMemberDisabled then mStatus m = MemberStatusDisabled
      else mStatus m = MemberStatusActive"
    and f: "tfCause f \<in> {CauseMemberRegistered, CauseMemberDisabled, CauseMemberEnabled}"
      "tfTask f = []" "tfAttempt f = []" "tfMessage f = []"
    using cmd
  proof (elim disjE)
    assume "cmd = RegisterMember spec"
    with run have "newMember spec now \<in> set (teMembers t')"
        "f = (causeFields CauseMemberRegistered)\<lparr>tfMember := msID spec\<rparr>"
      by (auto simp: registerMember_def)
    then show thesis using that [of "newMember spec now"] by (simp add: newMember_def)
  next
    assume cmd: "cmd = DisableMember k rs"
    with run obtain m i where m: "findMember t k = Some (m, i)"
      and t': "t' = setMember t i (m\<lparr>mStatus := MemberStatusDisabled, mDisabledAt := now\<rparr>)"
      and f: "f = (causeFields CauseMemberDisabled)\<lparr>tfMember := k, tfReason := rs\<rparr>"
      by (auto simp: disableMember_def split: option.splits)
    show thesis
      by (rule that [of "m\<lparr>mStatus := MemberStatusDisabled, mDisabledAt := now\<rparr>"])
        (use setMember_mem [OF m] findMemberD [OF m] in \<open>auto simp: t' f\<close>)
  next
    assume cmd: "cmd = EnableMember k"
    with run obtain m i where m: "findMember t k = Some (m, i)"
      and t': "t' = setMember t i (m\<lparr>mStatus := MemberStatusActive, mDisabledAt := zero_time\<rparr>)"
      and f: "f = (causeFields CauseMemberEnabled)\<lparr>tfMember := k\<rparr>"
      by (auto simp: enableMember_def split: option.splits)
    show thesis
      by (rule that [of "m\<lparr>mStatus := MemberStatusActive, mDisabledAt := zero_time\<rparr>"])
        (use setMember_mem [OF m] findMemberD [OF m] in \<open>auto simp: t' f\<close>)
  qed
  have "memberOrZero t' (tfMember f) = m" by (rule member_lookup [OF inv' m])
  moreover have "tfMember f \<noteq> []" using safe_ids(1) [OF inv', of m] m by auto
  moreover have "tfMember f \<in> mID ` set (teMembers t')" using m by (metis imageI)
  ultimately show ?thesis
    using r m st f coord by (auto simp: refs_defs tr_of_def)
qed

text \<open>The common part of the commands on one task.\<close>

definition actor_known :: "team \<Rightarrow> actor \<Rightarrow> bool" where
  "actor_known t a \<longleftrightarrow> (acKind a = ActorKindMember \<longrightarrow> acID a \<in> mID ` set (teMembers t))"

lemma task_refs_step:
  assumes inv': "team_inv E (stamp now t')" and y: "y \<in> set (teTasks t')" "tID y = tfTask f"
    and r: "tr_of f a r" and msg: "tfMessage f = []" and a: "actor_known t' a"
    and m: "tfMember f \<noteq> [] \<Longrightarrow> tfMember f \<in> mID ` set (teMembers t')"
    and at: "tfAttempt f \<noteq> [] \<Longrightarrow> tfAttempt f \<in> atID ` set (tAttempts y)"
    and refs: "validateCauseReferences r = None" and auth: "validateTransitionAuthority t' r = None"
    and state: "\<And>tt. tt (tfTask f) = Some y \<Longrightarrow> validateCauseState t' tt (tfDelta f) r = None"
  shows "validateTransitionReferences t' r (tfDelta f) = None"
proof -
  have tt: "taskTable (teTasks t') (tfTask f) = Some y" by (rule task_lookup [OF inv' y])
  have "tfAttempt f \<noteq> [] \<Longrightarrow> tfAttempt f \<in> atID ` (\<Union>x \<in> set (teTasks t'). set (tAttempts x))"
    using at y(1) by blast
  with tt r msg a m refs auth state [where tt = "taskTable (teTasks t')", OF tt] show ?thesis
    by (cases "tfMember f = []"; cases "tfAttempt f = []")
      (simp_all add: validateTransitionReferences_def Let_def tr_of_def actor_known_def)
qed

lemma known_lead: "requireLeadOrCoordinator t a = None \<Longrightarrow> actor_known t a"
  using leadOrCoordinator_None(1) by (simp add: actor_known_def)

lemma known_coord: "acKind a = ActorKindCoordinator \<Longrightarrow> actor_known t a"
  by (simp add: actor_known_def)

lemma known_active: "activeActorMember t a = Inr m \<Longrightarrow> actor_known t a"
  using activeActor_mem(4) by (simp add: actor_known_def)

lemma known_same: "actor_known t a \<Longrightarrow> teMembers t' = teMembers t \<Longrightarrow> actor_known t' a"
  by (simp add: actor_known_def)

lemmas step_defs = validateCauseReferences_def requireRef_def validateTransitionAuthority_def
  validateCauseState_def validateAttemptTransitionState_def Let_def tr_of_def

lemma createTask_refs:
  assumes inv: "team_inv E t" and inv': "team_inv E (stamp now t')"
    and run: "createTask a q t now = Inr (t', f)" and r: "tr_of f a r"
  shows "validateTransitionReferences t' r (tfDelta f) = None"
proof -
  let ?s = "if list_all (\<lambda>d. tStatus (taskOrZero t d) = TaskStatusCompleted) (ctDeps q)
    then TaskStatusReady else TaskStatusPending"
  let ?y = "newTask q ?s now"
  have a: "requireLeadOrCoordinator t a = None"
    and t': "t' = t\<lparr>teTasks := teTasks t @ [?y]\<rparr>"
    and f: "f = (causeFields CauseTaskCreated)\<lparr>tfTask := ctTaskID q\<rparr>"
    using run by (auto simp: createTask_def Let_def)
  have y: "?y \<in> set (teTasks t')" "tID ?y = tfTask f" "tStatus ?y = ?s"
    by (simp_all add: t' f newTask_def)
  have "ctTaskID q \<noteq> []" using safe_ids(2) [OF inv', of ?y] y by (auto simp: f)
  then show ?thesis
    using r y(3) leadOrCoordinator_None(2) [OF a] known_lead [OF a]
    by (intro task_refs_step [OF inv' y(1,2) r]) (auto simp: step_defs f t' actor_known_def)
qed

lemma assignTask_refs:
  assumes inv: "team_inv E t" and inv': "team_inv E (stamp now t')"
    and run: "assignTask a k mk t now = Inr (t', f)" and r: "tr_of f a r"
  shows "validateTransitionReferences t' r (tfDelta f) = None"
proof -
  obtain m j x i where m: "findMember t mk = Some (m, j)" and x: "findTask t k = Some (x, i)"
    and a: "requireLeadOrCoordinator t a = None"
    and s: "tStatus x = TaskStatusPending \<or> tStatus x = TaskStatusReady"
    and t': "t' = setTask t i (x\<lparr>tAssigned := mk, tUpdatedAt := now\<rparr>)"
    and f: "f = (causeFields CauseTaskAssigned)\<lparr>tfTask := tID x, tfMember := mk\<rparr>"
    using run by (auto simp: assignTask_def split: option.splits)
  note y = setTask_mem [OF x, of "x\<lparr>tAssigned := mk, tUpdatedAt := now\<rparr>", folded t']
  show ?thesis
    using r s found_task(2) [OF inv x] found_member [OF inv m] leadOrCoordinator_None(2) [OF a] known_lead [OF a]
    by (intro task_refs_step [OF inv' y _ r]) (auto simp: step_defs f t' actor_known_def)
qed

lemma unassignTask_refs:
  assumes inv: "team_inv E t" and inv': "team_inv E (stamp now t')"
    and run: "unassignTask a k t now = Inr (t', f)" and r: "tr_of f a r"
  shows "validateTransitionReferences t' r (tfDelta f) = None"
proof -
  obtain x i where x: "findTask t k = Some (x, i)" and a: "requireLeadOrCoordinator t a = None"
    and s: "tStatus x = TaskStatusPending \<or> tStatus x = TaskStatusReady" "tAssigned x \<noteq> []"
    and t': "t' = setTask t i (x\<lparr>tAssigned := [], tUpdatedAt := now\<rparr>)"
    and f: "f = (causeFields CauseTaskUnassigned)\<lparr>tfTask := tID x, tfMember := tAssigned x\<rparr>"
    using run by (auto simp: unassignTask_def split: option.splits)
  note y = setTask_mem [OF x, of "x\<lparr>tAssigned := [], tUpdatedAt := now\<rparr>", folded t']
  have mem: "x \<in> set (teTasks t)" using findTaskD [OF x] by simp
  have "tID x \<noteq> []" using safe_ids(2) [OF inv mem] by auto
  moreover have "tAssigned x \<in> mID ` set (teMembers t)"
    using tasks_invD(1) [OF team_invD(5) [OF inv] mem] s(2) by (simp add: task_base_def)
  ultimately show ?thesis
    using r s leadOrCoordinator_None(2) [OF a] known_lead [OF a]
    by (intro task_refs_step [OF inv' y _ r]) (auto simp: step_defs f t' actor_known_def)
qed

lemma claimTask_refs:
  assumes inv: "team_inv E t" and inv': "team_inv E (stamp now t')"
    and run: "claimTask a k t now = Inr (t', f)" and r: "tr_of f a r"
  shows "validateTransitionReferences t' r (tfDelta f) = None"
proof -
  obtain m x i where m: "activeActorMember t a = Inr m" and x: "findTask t k = Some (x, i)"
    and t': "t' = setTask t i (x\<lparr>tStatus := TaskStatusClaimed, tClaimed := mID m, tReason := [],
      tUpdatedAt := now\<rparr>)"
    and f: "f = (causeFields CauseTaskClaimed)\<lparr>tfTask := tID x, tfMember := mID m\<rparr>"
    using run by (auto simp: claimTask_def bindE_Inr split: option.splits)
  note y = setTask_mem [OF x, of "x\<lparr>tStatus := TaskStatusClaimed, tClaimed := mID m, tReason := [],
      tUpdatedAt := now\<rparr>", folded t']
  have "mID m \<noteq> []" using safe_ids(1) [OF inv activeActor_mem(2) [OF m]] by auto
  then show ?thesis
    using r found_task(2) [OF inv x] activeActor_mem [OF m] known_active [OF m]
    by (intro task_refs_step [OF inv' y _ r]) (auto simp: step_defs f t' actor_known_def)
qed

lemma releaseTask_refs:
  assumes inv: "team_inv E t" and inv': "team_inv E (stamp now t')"
    and run: "releaseTask a k rs t now = Inr (t', f)" and r: "tr_of f a r"
  shows "validateTransitionReferences t' r (tfDelta f) = None"
proof -
  obtain x i where x: "findTask t k = Some (x, i)" and a: "requireTaskOperator t a (tClaimed x) = None"
    and s: "tStatus x = TaskStatusClaimed"
    and t': "t' = setTask t i (x\<lparr>tStatus := TaskStatusReady, tClaimed := [], tUpdatedAt := now\<rparr>)"
    and f: "f = (causeFields CauseTaskReleased)\<lparr>tfTask := tID x, tfMember := tClaimed x, tfReason := rs\<rparr>"
    using run by (auto simp: releaseTask_def split: option.splits)
  note y = setTask_mem [OF x, of "x\<lparr>tStatus := TaskStatusReady, tClaimed := [], tUpdatedAt := now\<rparr>",
      folded t']
  have mem: "x \<in> set (teTasks t)" using findTaskD [OF x] by simp
  have cl: "tClaimed x \<noteq> []" using tasks_invD(2) [OF team_invD(5) [OF inv] mem] s
    by (simp add: task_state_ok_def)
  have "tID x \<noteq> []" using safe_ids(2) [OF inv mem] by auto
  then show ?thesis
    using r cl claimant_mem [OF inv mem cl] taskOperator_None [OF a]
    by (intro task_refs_step [OF inv' y _ r]) (auto simp: step_defs f t' actor_known_def)
qed

lemma retryTask_refs:
  assumes inv: "team_inv E t" and inv': "team_inv E (stamp now t')"
    and run: "retryTask a k rs t now = Inr (t', f)" and r: "tr_of f a r"
  shows "validateTransitionReferences t' r (tfDelta f) = None"
proof -
  obtain x i where x: "findTask t k = Some (x, i)" and a: "requireLeadOrCoordinator t a = None"
    and t': "t' = setTask t i (x\<lparr>tStatus := dependencyStatus x t, tReason := [], tUpdatedAt := now\<rparr>)"
    and f: "f = (causeFields CauseTaskRetried)\<lparr>tfTask := tID x, tfReason := rs\<rparr>"
    using run by (auto simp: retryTask_def split: option.splits)
  note y = setTask_mem [OF x, of "x\<lparr>tStatus := dependencyStatus x t, tReason := [], tUpdatedAt := now\<rparr>",
      folded t']
  have "dependencyStatus x t = TaskStatusReady \<or> dependencyStatus x t = TaskStatusPending"
    by (simp add: dependencyStatus_def)
  then show ?thesis
    using r found_task(2) [OF inv x] leadOrCoordinator_None(2) [OF a] known_lead [OF a]
    by (intro task_refs_step [OF inv' y _ r]) (auto simp: step_defs f t' actor_known_def)
qed

subsection \<open>Attempts, messages and the Team\<close>

lemma cancelTask_refs:
  assumes inv: "team_inv E t" and inv': "team_inv E (stamp now t')"
    and run: "cancelTask a k rs t now = Inr (t', f)" and r: "tr_of f a r"
  shows "validateTransitionReferences t' r (tfDelta f) = None"
proof -
  obtain x i x' ak where x: "findTask t k = Some (x, i)" and a: "requireLeadOrCoordinator t a = None"
    and x': "if tStatus x = TaskStatusRunning
        then cancelLastAttempt rs now x = Inr x' \<and> ak = atID (last (tAttempts x)) else x' = x \<and> ak = []"
    and t': "t' = setTask t i (cancelledTask rs now x')"
    and f: "f = (causeFields CauseTaskCancelled)\<lparr>tfTask := tID x, tfMember := tClaimed x,
      tfAttempt := ak, tfReason := rs\<rparr>"
    using run by (auto simp: cancelTask_def bindE_Inr split: option.splits if_splits)
  note y = setTask_mem [OF x, of "cancelledTask rs now x'", folded t']
  have id: "tID (cancelledTask rs now x') = tID x"
    using x' by (auto simp: cancelledTask_def cancelLastAttempt_def split: if_splits)
  have "ak \<noteq> [] \<Longrightarrow> ak \<in> atID ` set (tAttempts (cancelledTask rs now x'))"
    using x' by (auto simp: cancelledTask_def cancelLastAttempt_def cancelAttempt_def split: if_splits)
  then show ?thesis
    using r id found_task [OF inv x] leadOrCoordinator_None(2) [OF a] known_lead [OF a]
      claimant_mem [OF inv]
    by (intro task_refs_step [OF inv' y _ r])
      (auto simp: step_defs f t' actor_known_def cancelledTask_def)
qed

lemma find_last: "\<forall>x \<in> set xs. \<not> P x \<Longrightarrow> P b \<Longrightarrow> find P (xs @ [b]) = Some b"
  by (induction xs) auto

lemma findAttempt_last:
  assumes "distinct (attemptIDs y)" "tAttempts y = bs @ [b]"
  shows "findAttempt y (atID b) = Some b"
proof -
  have "atID b \<notin> atID ` set bs" using assms by (simp add: attemptIDs_def)
  then have "\<forall>x \<in> set bs. atID x \<noteq> atID b" by (metis imageI)
  then show ?thesis by (simp add: findAttempt_def assms(2) find_last)
qed

lemma attempt_ids_distinct:
  assumes "team_inv E t" "x \<in> set (teTasks t)"
  shows "distinct (attemptIDs x)"
  using team_invD(5) [OF assms(1)] assms(2)
  by (auto simp: tasks_inv_def tasks_ok_def distinct_concat_iff)

lemma startTaskAttempt_refs:
  assumes inv: "team_inv E t" and inv': "team_inv E (stamp now t')"
    and run: "startTaskAttempt a k ak ck t now = Inr (t', f)" and r: "tr_of f a r"
    and ak: "ak \<noteq> []"
  shows "validateTransitionReferences t' r (tfDelta f) = None"
proof -
  obtain x i where x: "findTask t k = Some (x, i)" and a: "acKind a = ActorKindCoordinator"
    and s: "tStatus x = TaskStatusClaimed"
    and t': "t' = setTask t i (x\<lparr>tStatus := TaskStatusRunning,
      tAttempts := tAttempts x @ [newAttempt x ak ck now], tUpdatedAt := now\<rparr>)"
    and f: "f = (causeFields CauseTaskAttemptStarted)\<lparr>tfTask := tID x, tfMember := tClaimed x,
      tfAttempt := ak\<rparr>"
    using run by (auto simp: startTaskAttempt_def requireCoordinator_def split: option.splits)
  let ?y = "x\<lparr>tStatus := TaskStatusRunning, tAttempts := tAttempts x @ [newAttempt x ak ck now],
      tUpdatedAt := now\<rparr>"
  note y = setTask_mem [OF x, of ?y, folded t']
  note mem = found_task(1) [OF inv x]
  have cl: "tClaimed x \<noteq> []" using tasks_invD(2) [OF team_invD(5) [OF inv] mem] s
    by (simp add: task_state_ok_def)
  have at: "findAttempt ?y ak = Some (newAttempt x ak ck now)"
    using findAttempt_last [of ?y "tAttempts x" "newAttempt x ak ck now"]
      attempt_ids_distinct [OF inv', of ?y] y by (simp add: newAttempt_def)
  show ?thesis
    using r at ak found_task(2) [OF inv x] cl claimant_mem [OF inv mem cl] a
    by (intro task_refs_step [OF inv' y _ r])
      (auto simp: step_defs f t' actor_known_def newAttempt_def)
qed

lemma promote_mem:
  assumes "distinct (map tID (teTasks u))" "y \<in> set (teTasks u)" "tStatus y \<noteq> TaskStatusPending"
  shows "y \<in> set (teTasks (promoteReadyTasks u now))" "teMembers (promoteReadyTasks u now) = teMembers u"
    "teLead (promoteReadyTasks u now) = teLead u"
proof -
  have "promoted now (completedIDs (teTasks u)) y = y" using assms(3) by (simp add: promoted_def)
  then show "y \<in> set (teTasks (promoteReadyTasks u now))"
    using assms(2) by (simp add: promoteReadyTasks_map [OF assms(1)]) (metis imageI)
qed (simp_all add: promoteReadyTasks_map [OF assms(1)])

lemma finishTaskAttempt_refs:
  assumes inv: "team_inv E t" and inv': "team_inv E (stamp now t')"
    and run: "finishTaskAttempt a q t now = Inr (t', f)" and r: "tr_of f a r"
  shows "validateTransitionReferences t' r (tfDelta f) = None"
proof -
  let ?done = "frOutcome q = AttemptOutcomeCompleted"
  obtain x i where x: "findTask t (frTaskID q) = Some (x, i)" and s: "tStatus x = TaskStatusRunning"
    and ne: "tAttempts x \<noteq> []" and a: "finishAuthority t a x (last (tAttempts x)) = None"
    and t': "t' = (if ?done then promoteReadyTasks (setTask t i (finishedTask q now x)) now
      else setTask t i (finishedTask q now x))"
    and f: "f = (causeFields (if ?done then CauseTaskAttemptCompleted else CauseTaskAttemptFailed))
      \<lparr>tfTask := tID x, tfMember := atMember (last (tAttempts x)), tfAttempt := atID (last (tAttempts x)),
       tfReason := frReason q\<rparr>"
    using run by (auto simp: finishTaskAttempt_def Let_def split: option.splits if_splits)
  let ?y = "finishedTask q now x" and ?a = "last (tAttempts x)"
  note mem = found_task(1) [OF inv x]
  from findTaskD [OF x] have i: "i < length (teTasks t)" "teTasks t ! i = x" by auto
  have id: "tID ?y = tID x" "tStatus ?y = (if ?done then TaskStatusCompleted else TaskStatusFailed)"
    "tAttempts ?y = butlast (tAttempts x) @ [finishedAttempt q now ?a]"
    by (simp_all add: finishedTask_def)
  have dist: "distinct (map tID (teTasks (setTask t i ?y)))"
    using team_invD(3) [OF inv] list_update_map_same [OF i(1), of tID ?y] i(2) id(1)
    by (simp add: setTask_def)
  have y: "?y \<in> set (teTasks t')" and mt: "teMembers t' = teMembers t" "teLead t' = teLead t"
    using setTask_mem [OF x, of ?y] promote_mem [OF dist, of ?y now] id(2) by (auto simp: t')
  have run': "atMember ?a = tClaimed x" "tClaimed x \<noteq> []"
    using tasks_invD(2) [OF team_invD(5) [OF inv] mem] s by (simp_all add: task_state_ok_def)
  have at: "findAttempt ?y (atID ?a) = Some (finishedAttempt q now ?a)"
    using findAttempt_last [of ?y _ "finishedAttempt q now ?a", OF _ id(3)]
      attempt_ids_distinct [OF inv', of ?y] y by (simp add: finishedAttempt_def)
  have "atID ?a \<noteq> []" using safe_ids(3) [OF inv mem, of ?a] ne by auto
  moreover have "acKind a = ActorKindCoordinator \<or> acKind a = ActorKindMember \<and> acID a = atMember ?a"
    using a activeActor_mem [of t a]
    by (auto simp: finishAuthority_def requireCoordinator_def split: if_splits sum.splits)
  ultimately show ?thesis
    using r at id mt found_task(2) [OF inv x] run' claimant_mem [OF inv mem run'(2)]
    by (intro task_refs_step [OF inv' y _ r])
      (auto simp: step_defs f actor_known_def finishedAttempt_def id(3))
qed

lemma acknowledgeMessages_refs:
  assumes inv: "team_inv E t" and run: "acknowledgeMessages a n t now = Inr (t', f)" and r: "tr_of f a r"
    and ids: "mID ` set (teMembers t) \<subseteq> mID ` set (teMembers t')"
  shows "validateTransitionReferences t' r (tfDelta f) = None"
proof -
  obtain m where m: "activeActorMember t a = Inr m"
    and f: "f = (causeFields CauseMessagesAcknowledged)\<lparr>tfMember := mID m\<rparr>"
    using run by (auto simp: acknowledgeMessages_def bindE_Inr Let_def)
  note mm = activeActor_mem [OF m]
  have "mID m \<noteq> []" using safe_ids(1) [OF inv mm(2)] by auto
  with r mm ids show ?thesis by (auto simp: refs_defs tr_of_def f)
qed

lemma sendMessage_refs:
  assumes inv: "team_inv E t" and c: "sendMessage_check q = None"
    and run: "sendMessage load a q t now = Inr (t', f)" and r: "tr_of f a r"
    and ids: "mID ` set (teMembers t) \<subseteq> mID ` set (teMembers t')"
  shows "validateTransitionReferences t' r (tfDelta f) = None"
proof -
  obtain m where m: "activeActorMember t a = Inr m"
    and f: "f = (causeFields CauseMessageSent)\<lparr>tfMember := mID m, tfMessage := srMessageID q,
      tfDelta := Some (newMessage t m q now)\<rparr>"
    using run by (auto simp: sendMessage_def bindE_Inr Let_def split: option.splits)
  note mm = activeActor_mem [OF m]
  have "mID m \<noteq> []" using safe_ids(1) [OF inv mm(2)] by auto
  moreover have "srMessageID q \<noteq> []" using c by (auto simp: sendMessage_check_def validateSafeID_def)
  ultimately show ?thesis using r mm ids by (auto simp: refs_defs tr_of_def f newMessage_def)
qed

lemma lifecycle_refs:
  assumes run: "completeTeam a out as rs t now = Inr (t', f) \<or>
      terminalizeTeam op st c a rs t now = Inr (t', f) \<and>
      (st = StatusFailed \<and> c = CauseTeamFailed \<or> st = StatusCancelled \<and> c = CauseTeamCancelled)"
    and r: "tr_of f a r"
  shows "validateTransitionReferences t' r (tfDelta f) = None"
proof -
  have a: "requireLeadOrCoordinator t a = None" and same: "teMembers t' = teMembers t" "teLead t' = teLead t"
    using run by (auto simp: completeTeam_def terminalizeTeam_def bindE_Inr)
  have f: "f = (causeFields CauseTeamCompleted)\<lparr>tfReason := rs\<rparr> \<and> teStatus t' = StatusCompleted \<or>
      f = (causeFields CauseTeamFailed)\<lparr>tfReason := rs\<rparr> \<and> teStatus t' = StatusFailed \<or>
      f = (causeFields CauseTeamCancelled)\<lparr>tfReason := rs\<rparr> \<and> teStatus t' = StatusCancelled"
    using run by (auto simp: completeTeam_def terminalizeTeam_def bindE_Inr)
  then show ?thesis using r same leadOrCoordinator_None [OF a]
    by (elim disjE conjE) (auto simp: refs_defs tr_of_def)
qed

subsection \<open>The whole record\<close>

lemma promote_members [simp]:
  "teMembers (promoteReadyTasks u now) = teMembers u" "teNextSeq (promoteReadyTasks u now) = teNextSeq u"
proof -
  have "teMembers (foldl (promoteAt now) u is) = teMembers u \<and>
      teNextSeq (foldl (promoteAt now) u is) = teNextSeq u" for "is"
    by (induction "is" arbitrary: u) (simp_all add: promoteAt_def setTask_def Let_def)
  then show "teMembers (promoteReadyTasks u now) = teMembers u"
    "teNextSeq (promoteReadyTasks u now) = teNextSeq u"
    by (simp_all add: promoteReadyTasks_def)
qed

text \<open>What a command does to the members: one of five things.\<close>

definition keeps_members :: "team \<Rightarrow> team \<Rightarrow> transition_fields \<Rightarrow> bool" where
  "keeps_members t t' f \<longleftrightarrow> teMembers t' = teMembers t \<and> teNextSeq t' = teNextSeq t \<and>
     tfDelta f = None \<and> tfCause f \<notin> {CauseMessageSent, CauseMessagesAcknowledged}"

definition adds_member :: "team \<Rightarrow> team \<Rightarrow> transition_fields \<Rightarrow> bool" where
  "adds_member t t' f \<longleftrightarrow> (\<exists>m. teMembers t' = teMembers t @ [m] \<and> mID m \<notin> mID ` set (teMembers t) \<and>
     mDelivered m = 0 \<and> mAcknowledged m = 0) \<and> teNextSeq t' = teNextSeq t \<and> tfDelta f = None \<and>
     tfCause f = CauseMemberRegistered"

definition switches_member :: "team \<Rightarrow> team \<Rightarrow> transition_fields \<Rightarrow> bool" where
  "switches_member t t' f \<longleftrightarrow> (\<exists>k m i n. findMember t k = Some (m, i) \<and>
     teMembers t' = (teMembers t)[i := n] \<and> mID n = mID m \<and> mDelivered n = mDelivered m \<and>
     mAcknowledged n = mAcknowledged m) \<and> teNextSeq t' = teNextSeq t \<and> tfDelta f = None \<and>
     tfCause f \<in> {CauseMemberDisabled, CauseMemberEnabled}"

definition sends_message :: "team \<Rightarrow> team \<Rightarrow> transition_fields \<Rightarrow> bool" where
  "sends_message t t' f \<longleftrightarrow> (\<exists>g m i. tfDelta f = Some g \<and> findMember t (gRecipient g) = Some (m, i) \<and>
     teMembers t' = (teMembers t)[i := m\<lparr>mDelivered := gSequence g\<rparr>] \<and> gSequence g = teNextSeq t) \<and>
     teNextSeq t' = teNextSeq t + 1 \<and> tfCause f = CauseMessageSent"

definition acknowledges :: "team \<Rightarrow> team \<Rightarrow> transition_fields \<Rightarrow> bool" where
  "acknowledges t t' f \<longleftrightarrow> (\<exists>m i n. findMember t (tfMember f) = Some (m, i) \<and>
     teMembers t' = (teMembers t)[i := m\<lparr>mAcknowledged := n\<rparr>] \<and> mAcknowledged m < n \<and>
     n \<le> mDelivered m) \<and> teNextSeq t' = teNextSeq t \<and> tfDelta f = None \<and>
     tfCause f = CauseMessagesAcknowledged"

lemma registerMember_members:
  assumes "registerMember E a s t now = Inr (t', f)"
  shows "adds_member t t' f"
  using assms by (force simp: registerMember_def adds_member_def newMember_def first_err_None)

lemma enableMember_members:
  assumes "enableMember a k t now = Inr (t', f)"
  shows "switches_member t t' f"
proof -
  obtain m i where "findMember t k = Some (m, i)"
    "t' = setMember t i (m\<lparr>mStatus := MemberStatusActive, mDisabledAt := zero_time\<rparr>)"
    "f = (causeFields CauseMemberEnabled)\<lparr>tfMember := k\<rparr>"
    using assms by (auto simp: enableMember_def split: option.splits)
  then show ?thesis unfolding switches_member_def setMember_def
    by (intro conjI exI [of _ k] exI [of _ m] exI [of _ i]
        exI [of _ "m\<lparr>mStatus := MemberStatusActive, mDisabledAt := zero_time\<rparr>"]) auto
qed

lemma disableMember_members:
  assumes "disableMember a k r t now = Inr (t', f)"
  shows "switches_member t t' f"
proof -
  obtain m i where "findMember t k = Some (m, i)"
    "t' = setMember t i (m\<lparr>mStatus := MemberStatusDisabled, mDisabledAt := now\<rparr>)"
    "f = (causeFields CauseMemberDisabled)\<lparr>tfMember := k, tfReason := r\<rparr>"
    using assms by (auto simp: disableMember_def split: option.splits)
  then show ?thesis unfolding switches_member_def setMember_def
    by (intro conjI exI [of _ k] exI [of _ m] exI [of _ i]
        exI [of _ "m\<lparr>mStatus := MemberStatusDisabled, mDisabledAt := now\<rparr>"]) auto
qed

lemma sendMessage_members:
  assumes "sendMessage load a q t now = Inr (t', f)"
  shows "sends_message t t' f"
proof -
  obtain s m i where "findMember t (srRecipientID q) = Some (m, i)"
    "t' = setMember (t\<lparr>teNextSeq := teNextSeq t + 1\<rparr>) i (m\<lparr>mDelivered := teNextSeq t\<rparr>)"
    "f = (causeFields CauseMessageSent)\<lparr>tfMember := mID s, tfMessage := srMessageID q,
       tfDelta := Some (newMessage t s q now)\<rparr>"
    using assms by (auto simp: sendMessage_def bindE_Inr Let_def newMessage_def split: option.splits)
  then show ?thesis by (auto simp: sends_message_def setMember_def newMessage_def)
qed

lemma acknowledgeMessages_members:
  assumes "acknowledgeMessages a n t now = Inr (t', f)"
  shows "acknowledges t t' f"
proof -
  obtain m j where m: "findMember t (acID a) = Some (m, j)"
    and n: "mAcknowledged m < n" "n \<le> mDelivered m" and t': "t' = setMember t
      (case findMember t (mID m) of None \<Rightarrow> 0 | Some (_, j) \<Rightarrow> j) (m\<lparr>mAcknowledged := n\<rparr>)"
    and f: "f = (causeFields CauseMessagesAcknowledged)\<lparr>tfMember := mID m\<rparr>"
    using assms by (auto simp: acknowledgeMessages_def bindE_Inr activeActorMember_Inr Let_def not_le)
  have "findMember t (mID m) = Some (m, j)" using findMemberD [OF m] m by simp
  with n show ?thesis by (auto simp: acknowledges_def setMember_def t' f)
qed

lemma task_commands_members:
  assumes "commandMutation E cmd a load t now = Inr (t', f)"
    and "\<nexists>s. cmd = RegisterMember s" "\<nexists>k r. cmd = DisableMember k r" "\<nexists>k. cmd = EnableMember k"
      "\<nexists>q. cmd = SendMessage q" "\<nexists>n. cmd = AcknowledgeMessages n"
  shows "keeps_members t t' f"
  using assms
  by (cases cmd)
    (auto simp: createTask_def assignTask_def unassignTask_def claimTask_def releaseTask_def
      retryTask_def cancelTask_def bindE_Inr startTaskAttempt_def finishTaskAttempt_def
      completeTeam_def failTeam_def cancelTeam_def terminalizeTeam_def Let_def setTask_def
      keeps_members_def split: option.splits if_splits)

lemma command_members:
  assumes "commandMutation E cmd a load t now = Inr (t', f)"
  shows "keeps_members t t' f \<or> adds_member t t' f \<or> switches_member t t' f \<or> sends_message t t' f
    \<or> acknowledges t t' f"
proof (cases "\<exists>k. cmd = RegisterMember k \<or> (\<exists>s r. cmd = DisableMember s r) \<or> (\<exists>s. cmd = EnableMember s)
    \<or> (\<exists>q. cmd = SendMessage q) \<or> (\<exists>n. cmd = AcknowledgeMessages n)")
  case True
  with assms show ?thesis
    by (auto dest: registerMember_members disableMember_members enableMember_members
        sendMessage_members acknowledgeMessages_members)
next
  case False
  with task_commands_members [OF assms] show ?thesis by blast
qed

lemma update_ids:
  "findMember t k = Some (m, i) \<Longrightarrow> mID n = mID m \<Longrightarrow>
     mID ` set ((teMembers t)[i := n]) = mID ` set (teMembers t)"
  using list_update_map_same [of i "teMembers t" mID n] findMemberD [of t k m i] by (metis list.set_map)

lemma members_kept:
  assumes "commandMutation E cmd a load t now = Inr (t', f)"
  shows "mID ` set (teMembers t) \<subseteq> mID ` set (teMembers t')"
  using command_members [OF assms] update_ids [of t]
  by (auto simp: keeps_members_def adds_member_def switches_member_def sends_message_def
      acknowledges_def)

lemma command_refs:
  assumes inv: "team_inv E t" and c: "commandCheck cmd = None"
    and run: "commandMutation E cmd a load t now = Inr (t', f)" and l: "later t now"
    and r: "tr_of f a r"
  shows "validateTransitionReferences t' r (tfDelta f) = None"
proof -
  note inv' = command_inv [OF inv c run l]
  note kept = members_kept [OF run]
  show ?thesis
  proof (cases cmd)
    case (CreateTask q)
    with run createTask_refs [OF inv inv' _ r] show ?thesis by simp
  next
    case (AssignTask k m)
    with run assignTask_refs [OF inv inv' _ r] show ?thesis by simp
  next
    case (UnassignTask k)
    with run unassignTask_refs [OF inv inv' _ r] show ?thesis by simp
  next
    case (ClaimTask k)
    with run claimTask_refs [OF inv inv' _ r] show ?thesis by simp
  next
    case (ReleaseTask k rs)
    with run releaseTask_refs [OF inv inv' _ r] show ?thesis by simp
  next
    case (RetryTask k rs)
    with run retryTask_refs [OF inv inv' _ r] show ?thesis by simp
  next
    case (CancelTask k rs)
    with run cancelTask_refs [OF inv inv' _ r] show ?thesis by simp
  next
    case (StartTaskAttempt k ak ck)
    with c have "ak \<noteq> []" by (auto simp: startTaskAttempt_check_def validateSafeID_def)
    with StartTaskAttempt run startTaskAttempt_refs [OF inv inv' _ r] show ?thesis by simp
  next
    case (FinishTaskAttempt q)
    with run finishTaskAttempt_refs [OF inv inv' _ r] show ?thesis by simp
  next
    case (SendMessage q)
    with run c sendMessage_refs [OF inv _ _ r kept] show ?thesis by simp
  next
    case (AcknowledgeMessages n)
    with run acknowledgeMessages_refs [OF inv _ r kept] show ?thesis by simp
  next
    case (CompleteTeam out as rs)
    with run show ?thesis by (intro lifecycle_refs [OF _ r]) auto
  next
    case (FailTeam rs)
    with run have "terminalizeTeam ''fail_team'' StatusFailed CauseTeamFailed a rs t now = Inr (t', f)"
      by (simp add: failTeam_def)
    then show ?thesis by (intro lifecycle_refs [OF disjI2 [OF conjI] r]) auto
  next
    case (CancelTeam rs)
    with run have "terminalizeTeam ''cancel_team'' StatusCancelled CauseTeamCancelled a rs t now = Inr (t', f)"
      by (simp add: cancelTeam_def)
    then show ?thesis by (intro lifecycle_refs [OF disjI2 [OF conjI] r]) auto
  qed (use member_refs [OF inv c run l _ r] in auto)
qed

lemma refs_safe:
  assumes inv: "team_inv E (stamp now t')" and refs: "validateTransitionReferences t' r g = None"
    and g: "\<And>m. g = Some m \<Longrightarrow> safeID (gID m)"
  shows "optionalID (trMemberID r) = None" "optionalID (trTaskID r) = None"
    "optionalID (trAttemptID r) = None" "optionalID (trMessageID r) = None"
    "validateCauseReferences r = None"
proof -
  note s = safe_ids [OF inv, simplified]
  have d: "distinct (map tID (teTasks t'))" using team_invD(3) [OF inv] by simp
  show "optionalID (trMemberID r) = None" "validateCauseReferences r = None"
    "optionalID (trMessageID r) = None"
    using refs s g by (auto simp: validateTransitionReferences_def Let_def optionalID_def
        validateSafeID_def split: option.splits)
  show "optionalID (trTaskID r) = None"
    using refs s(2) by (auto simp: validateTransitionReferences_def Let_def optionalID_def
        validateSafeID_def taskTable_eq [OF d])
  show "optionalID (trAttemptID r) = None"
    using refs s(3) by (auto simp: validateTransitionReferences_def Let_def optionalID_def
        validateSafeID_def)
qed

lemma nextTeam_stamp: "frame t t' \<Longrightarrow> nextTeam t t' now = stamp now t'"
  by (simp add: nextTeam_def stamp_def frame_def)

lemma nextRecord_simps [simp]:
  "rcTeam (nextRecord k c h cur now t f ev) = nextTeam cur t now"
  "rcMessage (nextRecord k c h cur now t f ev) = tfDelta f"
  "rcSchema (nextRecord k c h cur now t f ev) = schemaVersion"
  "recCommand (nextRecord k c h cur now t f ev) = cmdID c"
  "recEvent (nextRecord k c h cur now t f ev) = ev"
  "trCommandHash (rcTransition (nextRecord k c h cur now t f ev)) = h"
  "trCause (rcTransition (nextRecord k c h cur now t f ev)) = tfCause f"
  "trAt (rcTransition (nextRecord k c h cur now t f ev)) = now"
  "trMemberID (rcTransition (nextRecord k c h cur now t f ev)) = tfMember f"
  "trMessageID (rcTransition (nextRecord k c h cur now t f ev)) = tfMessage f"
  "trReason (rcTransition (nextRecord k c h cur now t f ev)) = tfReason f"
  "trActor (rcTransition (nextRecord k c h cur now t f ev)) = cmdActor c"
  "trSchema (rcTransition (nextRecord k c h cur now t f ev)) = schemaVersion"
  "trTeamID (rcTransition (nextRecord k c h cur now t f ev)) = k"
  "trRevision (rcTransition (nextRecord k c h cur now t f ev)) = teRevision cur + 1"
  "trFrom (rcTransition (nextRecord k c h cur now t f ev)) = teStatus cur"
  "trTo (rcTransition (nextRecord k c h cur now t f ev)) = teStatus t"
  by (simp_all add: nextRecord_def nextTeam_def Let_def)

lemma tr_of_next: "tr_of f (cmdActor c) (rcTransition (nextRecord k c h cur now t f ev))"
  by (simp add: tr_of_def nextRecord_def Let_def)

lemma refs_stamp:
  "validateTransitionReferences (stamp now t) r g = validateTransitionReferences t r g"
  by (cases "trCause r") (simp_all add: refs_defs memberOrZero_def findMember_def)

lemma sendMessage_message:
  assumes inv: "team_inv E t" and c: "sendMessage_check q = None"
    and run: "sendMessage load a q t now = Inr (t', f)" and fr: "frame t t'"
  shows "validateRecordMessage (nextRecord k cm h t now t' f ev) = None"
proof -
  obtain s m i where s: "activeActorMember t a = Inr s"
    and m: "findMember t (srRecipientID q) = Some (m, i)"
    and j: "validateJSON (srBody q) (MaxJSONBytes (teLimits t)) = None"
    and x: "srTaskID q = [] \<or> findTask t (srTaskID q) \<noteq> None"
    and t': "t' = setMember (t\<lparr>teNextSeq := teNextSeq t + 1\<rparr>) i (m\<lparr>mDelivered := teNextSeq t\<rparr>)"
    and f: "f = (causeFields CauseMessageSent)\<lparr>tfMember := mID s, tfMessage := srMessageID q,
       tfDelta := Some (newMessage t s q now)\<rparr>"
    using run by (auto simp: sendMessage_def bindE_Inr Let_def newMessage_def split: option.splits)
  have ids: "mID ` set (teMembers t') = mID ` set (teMembers t)"
    using update_ids [OF m, of "m\<lparr>mDelivered := teNextSeq t\<rparr>"] by (simp add: t' setMember_def)
  have "m\<lparr>mDelivered := teNextSeq t\<rparr> \<in> set (teMembers t')"
    using findMemberD [OF m] by (auto simp: t' setMember_def intro: set_update_memI)
  moreover have "distinct (map mID (teMembers t'))"
    using team_invD(2) [OF inv] findMemberD [OF m]
      list_update_map_same [of i "teMembers t" mID "m\<lparr>mDelivered := teNextSeq t\<rparr>"]
    by (simp add: t' setMember_def)
  ultimately have "memberOrZero t' (srRecipientID q) = m\<lparr>mDelivered := teNextSeq t\<rparr>"
    using memberOrZero_mem [of t' "m\<lparr>mDelivered := teNextSeq t\<rparr>"] findMemberD [OF m] by simp
  then have del: "mDelivered (memberOrZero (stamp now t') (srRecipientID q)) = teNextSeq t"
    by (simp add: memberOrZero_def findMember_def)
  have "findTask (stamp now t') d = findTask t d" for d
    by (simp add: findTask_def t' setMember_def)
  moreover have "teNextSeq t' = teNextSeq t + 1" "teLimits t' = teLimits t"
    by (simp_all add: t' setMember_def)
  moreover have "mID s \<in> mID ` set (teMembers t)" using activeActor_mem [OF s] by (metis imageI)
  ultimately show ?thesis
    using c x j del ids found_member(2) [OF inv m]
    by (auto simp: validateRecordMessage_def Let_def nextTeam_stamp [OF fr] f newMessage_def
        sendMessage_check_def validateSafeID_def)
qed

lemma command_message:
  assumes inv: "team_inv E t" and c: "commandCheck cmd = None"
    and run: "commandMutation E cmd a load t now = Inr (t', f)"
  shows "validateRecordMessage (nextRecord k cm h t now t' f ev) = None"
proof (cases "\<exists>q. cmd = SendMessage q")
  case True
  with sendMessage_message [OF inv] c run command_frame [OF run] show ?thesis by auto
next
  case False
  have "\<not> sends_message t t' f"
  proof
    assume "sends_message t t' f"
    then have "tfCause f = CauseMessageSent" by (simp add: sends_message_def)
    with False run show False
      by (cases cmd) (auto simp: registerMember_def disableMember_def enableMember_def createTask_def
          assignTask_def unassignTask_def claimTask_def releaseTask_def retryTask_def cancelTask_def
          bindE_Inr startTaskAttempt_def finishTaskAttempt_def acknowledgeMessages_def
          completeTeam_def failTeam_def cancelTeam_def terminalizeTeam_def Let_def
          split: option.splits if_splits)
  qed
  with command_members [OF run] have "tfDelta f = None \<and> tfCause f \<noteq> CauseMessageSent"
    by (auto simp: keeps_members_def adds_member_def switches_member_def acknowledges_def)
  then show ?thesis by (simp add: validateRecordMessage_def Let_def)
qed

lemma delta_safe:
  assumes c: "commandCheck cmd = None" and run: "commandMutation E cmd a load t now = Inr (t', f)"
    and g: "tfDelta f = Some g"
  shows "safeID (gID g)"
proof -
  have "sends_message t t' f" using command_members [OF run] g
    by (auto simp: keeps_members_def adds_member_def switches_member_def acknowledges_def)
  then have "tfCause f = CauseMessageSent" by (simp add: sends_message_def)
  with run g c show ?thesis
    by (cases cmd) (auto simp: registerMember_def disableMember_def enableMember_def createTask_def
          assignTask_def unassignTask_def claimTask_def releaseTask_def retryTask_def cancelTask_def
          bindE_Inr startTaskAttempt_def finishTaskAttempt_def acknowledgeMessages_def sendMessage_def
          completeTeam_def failTeam_def cancelTeam_def terminalizeTeam_def Let_def newMessage_def
          sendMessage_check_def validateSafeID_def
          split: option.splits if_splits)
qed

subsection \<open>The record continues the one before\<close>

lemma mailbox_transition:
  assumes inv: "team_inv E t" and run: "commandMutation E cmd a load t now = Inr (t', f)"
  shows "validateMailboxTransition t (nextRecord k cm h t now t' f ev) = None"
proof -
  let ?n = "nextRecord k cm h t now t' f ev"
  have fr: "nextTeam t t' now = stamp now t'" by (rule nextTeam_stamp [OF command_frame [OF run]])
  note d = team_invD(2) [OF inv]
  have tab: "memberTable (teMembers t) = memberMap (teMembers t)" by (rule memberTable_eq [OF d])
  have old: "memberMap (teMembers t) (mID m) = Some m" if "m \<in> set (teMembers t)" for m
    using key_map_distinct [OF d that] .
  have seq: "teNextSeq t' = (if tfDelta f \<noteq> None then teNextSeq t + 1 else teNextSeq t)"
    using command_members [OF run] by (auto simp: keeps_members_def adds_member_def
        switches_member_def sends_message_def acknowledges_def)
  have each: "mailboxMember (memberMap (teMembers t)) ?n m = None" if m: "m \<in> set (teMembers t')" for m
    using command_members [OF run]
  proof (elim disjE)
    assume "keeps_members t t' f"
    with m old show ?thesis by (simp add: mailboxMember_def keeps_members_def)
  next
    assume add: "adds_member t t' f"
    with m have "m \<in> set (teMembers t) \<or>
        mID m \<notin> mID ` set (teMembers t) \<and> mDelivered m = 0 \<and> mAcknowledged m = 0"
      by (auto simp: adds_member_def)
    moreover have "mID m \<notin> mID ` set (teMembers t) \<Longrightarrow> memberMap (teMembers t) (mID m) = None"
      by simp
    ultimately show ?thesis using old add
      by (elim disjE) (simp_all add: mailboxMember_def adds_member_def del: key_map_None)
  next
    assume sw: "switches_member t t' f"
    then obtain k' b i n where b: "findMember t k' = Some (b, i)"
      and t': "teMembers t' = (teMembers t)[i := n]"
      and n: "mID n = mID b" "mDelivered n = mDelivered b" "mAcknowledged n = mAcknowledged b"
      by (auto simp: switches_member_def)
    from m t' have "m = n \<or> m \<in> set (teMembers t)" using set_update_subset_insert by fastforce
    then obtain c where "memberMap (teMembers t) (mID m) = Some c" "mDelivered m = mDelivered c"
        "mAcknowledged m = mAcknowledged c"
      using old findMemberD [OF b] n by metis
    with sw show ?thesis by (auto simp: mailboxMember_def switches_member_def)
  next
    assume "sends_message t t' f"
    then obtain g b i where g: "tfDelta f = Some g" and b: "findMember t (gRecipient g) = Some (b, i)"
      and t': "teMembers t' = (teMembers t)[i := b\<lparr>mDelivered := gSequence g\<rparr>]"
      and f: "tfCause f = CauseMessageSent"
      by (auto simp: sends_message_def)
    note fb = findMemberD [OF b]
    from m t' fb d have "m = b\<lparr>mDelivered := gSequence g\<rparr> \<or> m \<in> set (teMembers t) \<and> m \<noteq> b"
      by (auto simp: set_list_update_distinct distinct_map)
    then show ?thesis
    proof
      assume "m = b\<lparr>mDelivered := gSequence g\<rparr>"
      with old [of b] fb g f show ?thesis by (simp add: mailboxMember_def)
    next
      assume mm: "m \<in> set (teMembers t) \<and> m \<noteq> b"
      then have "mID m \<noteq> gRecipient g" using fb d by (auto simp: distinct_map inj_on_def)
      with mm old g f show ?thesis by (simp add: mailboxMember_def)
    qed
  next
    assume "acknowledges t t' f"
    then obtain b i n where b: "findMember t (tfMember f) = Some (b, i)"
      and t': "teMembers t' = (teMembers t)[i := b\<lparr>mAcknowledged := n\<rparr>]"
      and n: "mAcknowledged b < n" and f: "tfDelta f = None" "tfCause f = CauseMessagesAcknowledged"
      by (auto simp: acknowledges_def)
    note fb = findMemberD [OF b]
    from m t' have "m = b\<lparr>mAcknowledged := n\<rparr> \<or> m \<in> set (teMembers t)"
      using set_update_subset_insert by fastforce
    then show ?thesis
    proof
      assume "m = b\<lparr>mAcknowledged := n\<rparr>"
      with old [of b] fb n f show ?thesis by (auto simp: mailboxMember_def not_less)
    next
      assume "m \<in> set (teMembers t)"
      with old f show ?thesis by (simp add: mailboxMember_def)
    qed
  qed
  have "mID m \<in> mID ` set (teMembers t')" if "m \<in> set (teMembers t)" for m
    using members_kept [OF run] that by blast
  with seq each show ?thesis
    by (auto simp: validateMailboxTransition_def Let_def fr tab first_err_None)
qed

text \<open>What is assumed of the hash and of the event ID source: what SHA-256 in hexadecimal gives.\<close>

definition hash_ok :: "team_env \<Rightarrow> bool" where
  "hash_ok E \<longleftrightarrow> (\<forall>op k a sem h. hashCommand E op k a sem = Inr h \<longrightarrow> len h = 64 \<and> hex_ok h)"


theorem nextRecord_valid:
  assumes inv: "team_inv E t" and c: "commandCheck cmd = None"
    and run: "commandMutation E cmd (cmdActor cm) load t now = Inr (t', f)" and l: "later t now"
    and cm: "validateCommand cm False = None" and ev: "safeID ev" and k: "k = teID t"
    and h: "len h = 64" "hex_ok h" and z: "zone now = 0"
  shows "validateRecord E (nextRecord k cm h t now t' f ev) = None"
proof -
  let ?n = "nextRecord k cm h t now t' f ev"
  note fr = command_frame [OF run]
  have st: "nextTeam t t' now = stamp now t'" by (rule nextTeam_stamp [OF fr])
  note inv' = command_inv [OF inv c run l]
  note refs = command_refs [OF inv c run l tr_of_next [of f cm k h t now t' ev]]
  note safe = refs_safe [OF inv' refs delta_safe [OF c run]]
  have team: "validateTeam E (stamp now t') = None"
    using team_inv_ok [OF inv'] by (simp add: validateTeam_iff)
  have t: "safeID k" using team_invD(1) [OF inv] by (simp add: header_ok_def k)
  have rev: "teRevision t \<noteq> 0" using team_invD(1) [OF inv] by (simp add: header_ok_def)
  have vs: "validStatus (teStatus t')" "validStatus (teStatus t)"
    using team_invD(1) [OF inv'] team_invD(1) [OF inv] by (simp_all add: header_ok_def)
  have now: "\<not> isZero now" "teRevision t + 1 \<noteq> 0" using l by (auto simp: later_def)
  have ft: "teID t' = k" "teRevision t' = teRevision t" using fr by (simp_all add: frame_def k)
  have one: "teRevision t + 1 \<noteq> 1" using rev by simp
  have stored: "validateStoredTransition (rcTransition ?n) = None"
    using command_cause [OF run c] safe cm ev t vs now h z one
    by (simp add: validateStoredTransition_def validateSafeID_def validateCommand_def)
  show ?thesis
    using stored team refs command_message [OF inv c run] command_cause [OF run c] cm ev now h ft
    by (simp add: validateRecord_def Let_def st validateSafeID_def validateCommand_def refs_stamp)
qed

theorem nextRecord_continues:
  assumes inv: "team_inv E (rcTeam p)" and c: "commandCheck cmd = None"
    and run: "commandMutation E cmd (cmdActor cm) load (rcTeam p) now = Inr (t', f)"
    and l: "later (rcTeam p) now" and cm: "validateCommand cm False = None" and ev: "safeID ev"
    and k: "k = teID (rcTeam p)" and h: "len h = 64" "hex_ok h" and z: "zone now = 0"
  shows "validateNextRecord E p (recRevision p) (nextRecord k cm h (rcTeam p) now t' f ev) = None"
proof -
  note fr = command_frame [OF run]
  have "teUpdatedAt (rcTeam p) \<le> now" using l by (simp add: later_def)
  then show ?thesis
    using nextRecord_valid [OF inv c run l cm ev k h z] mailbox_transition [OF inv run] fr
    by (simp add: validateNextRecord_def Let_def nextTeam_stamp [OF fr] frame_def)
qed

end
