(* ===== verification/TeamHistory.thy ===== *)
theory TeamHistory
  imports TeamTransition
begin

section \<open>Team: histories\<close>

text \<open>
  What the loop of \<open>validateLoadedHistory\<close> carries after a prefix of the history, and from it when
  a history may be extended. \<open>hist_ok\<close> is the invariant of the logs the engine writes: the loaded
  history passes the validator, and every snapshot in it satisfies \<open>team_inv\<close>.
\<close>

definition messagesOf :: "team_record list \<Rightarrow> message list" where
  "messagesOf rs = List.map_filter rcMessage rs"

lemma messagesOf_append [simp]: "messagesOf (xs @ ys) = messagesOf xs @ messagesOf ys"
  by (simp add: messagesOf_def map_filter_def)

lemma messagesOf_simps [simp]:
  "messagesOf [] = []" "messagesOf (rc # rs) = (case rcMessage rc of None \<Rightarrow> [] | Some g \<Rightarrow> [g]) @ messagesOf rs"
  by (simp_all add: messagesOf_def map_filter_def split: option.split)

definition stateAfter :: "team_record list \<Rightarrow> history_state" where
  "stateAfter rs = \<lparr>hsPrev = (if rs = [] then None else Some (last rs)),
     hsCommands = rev (map recCommand rs), hsEvents = rev (map recEvent rs),
     hsMessages = rev (map (\<lambda>g. (gID g, g)) (messagesOf rs)),
     hsNext = (if rs = [] then 1 else teNextSeq (rcTeam (last rs)))\<rparr>"

lemma historyStep_after:
  assumes "historyStep E k (stateAfter rs) rc = Inr h"
  shows "h = stateAfter (rs @ [rc])"
  using assms
  by (auto simp: historyStep_def bindE_Inr historyMessage_def Let_def stateAfter_def
      split: option.splits)

lemma historyLoop_after:
  "historyLoop E k historyStart rs = Inr h \<Longrightarrow> h = stateAfter rs"
proof (induction rs arbitrary: h rule: rev_induct)
  case Nil
  then show ?case by (simp add: historyStart_def stateAfter_def)
next
  case (snoc rc rs)
  then obtain h' where "historyLoop E k historyStart rs = Inr h'" "historyStep E k h' rc = Inr h"
    by (auto simp: historyLoop_append bindE_Inr)
  with snoc.IH historyStep_after show ?case by blast
qed

definition history_valid :: "team_env \<Rightarrow> string \<Rightarrow> team_record list \<Rightarrow> bool" where
  "history_valid E k rs \<longleftrightarrow> historyLoop E k historyStart rs = Inr (stateAfter rs)"

lemma history_valid_iff:
  "validateLoadedHistory E k rs = None \<longleftrightarrow> rs \<noteq> [] \<and> history_valid E k rs"
  using historyLoop_after by (auto simp: validateLoadedHistory_def history_valid_def err_of_None)

lemma history_valid_Nil: "history_valid E k []"
  by (simp add: history_valid_def historyStart_def stateAfter_def)

lemma history_valid_append:
  "history_valid E k (rs @ [rc]) \<longleftrightarrow>
     history_valid E k rs \<and> historyStep E k (stateAfter rs) rc = Inr (stateAfter (rs @ [rc]))"
proof
  assume "history_valid E k (rs @ [rc])"
  then obtain h where h: "historyLoop E k historyStart rs = Inr h"
      "historyStep E k h rc = Inr (stateAfter (rs @ [rc]))"
    by (auto simp: history_valid_def historyLoop_append bindE_Inr)
  with historyLoop_after show "history_valid E k rs \<and>
      historyStep E k (stateAfter rs) rc = Inr (stateAfter (rs @ [rc]))"
    by (metis history_valid_def)
qed (simp add: history_valid_def historyLoop_append)

text \<open>Message lookups in the store and in the history loop agree.\<close>

lemma map_of_messages:
  "map_of (rev (map (\<lambda>g. (gID g, g)) gs)) k \<noteq> None \<longleftrightarrow> k \<in> gID ` set gs"
  by (induction gs) (auto simp: map_add_def split: option.splits)

lemma recordMessage_None: "recordMessage rs k = None \<longleftrightarrow> k \<notin> gID ` set (messagesOf rs)"
  by (auto simp: recordMessage_def messagesOf_def find_None_iff)

lemma history_messages_distinct:
  "history_valid E k rs \<Longrightarrow> distinct (map gID (messagesOf rs))"
proof (induction rs rule: rev_induct)
  case (snoc rc rs)
  then have v: "history_valid E k rs" "historyStep E k (stateAfter rs) rc = Inr (stateAfter (rs @ [rc]))"
    by (simp_all add: history_valid_append)
  show ?case
  proof (cases "rcMessage rc")
    case None
    with snoc.IH [OF v(1)] show ?thesis by simp
  next
    case (Some g)
    with v(2) have "map_of (rev (map (\<lambda>g. (gID g, g)) (messagesOf rs))) (gID g) = None"
      by (auto simp: historyStep_def bindE_Inr historyMessage_def Let_def stateAfter_def)
    with map_of_messages [of "messagesOf rs" "gID g"] snoc.IH [OF v(1)] Some show ?thesis by simp
  qed
qed simp

lemma map_of_messages_distinct:
  assumes "distinct (map gID gs)"
  shows "map_of (rev (map (\<lambda>g. (gID g, g)) gs)) k = find (\<lambda>g. gID g = k) gs"
proof -
  have "map_of (map (\<lambda>g. (gID g, g)) gs) k = find (\<lambda>g. gID g = k) gs"
    by (induction gs) auto
  with map_of_rev_distinct [of "map (\<lambda>g. (gID g, g)) gs"] assms show ?thesis by (simp add: comp_def)
qed

text \<open>One more record.\<close>

definition message_extends :: "team_record list \<Rightarrow> team_record \<Rightarrow> bool" where
  "message_extends rs rc \<longleftrightarrow> (case rcMessage rc of None \<Rightarrow> True
     | Some g \<Rightarrow> recordMessage rs (gID g) = None \<and>
         (gReplyTo g = [] \<or> (\<exists>p. recordMessage rs (gReplyTo g) = Some p \<and>
            sameConversation p (gSender g) (gRecipient g))))"

lemma record_delta:
  assumes "validateRecord E rc = None" "rcMessage rc = Some g"
  shows "gSequence g + 1 = teNextSeq (rcTeam rc)" "trCause (rcTransition rc) = CauseMessageSent"
  using validateRecordD(3) [OF assms(1)] assms(2)
  by (auto simp: validateRecordMessage_def Let_def split: if_splits)

lemma next_sequence:
  assumes "validateMailboxTransition t rc = None"
  shows "teNextSeq (rcTeam rc) = (if rcMessage rc \<noteq> None then teNextSeq t + 1 else teNextSeq t)"
  using assms unfolding validateMailboxTransition_def Let_def by simp

lemma sequence_extends:
  assumes ok: "log_ok E k (rs @ [rc])" and one: "rs = [] \<longrightarrow> teNextSeq (rcTeam rc) = 1"
  shows "historySequence E (stateAfter rs) rc = None"
    "teNextSeq (rcTeam rc) = (if rcMessage rc = None then hsNext (stateAfter rs) else hsNext (stateAfter rs) + 1)"
    "rcMessage rc = Some g \<Longrightarrow> gSequence g = hsNext (stateAfter rs)"
proof -
  have rec: "validateRecord E rc = None" using log_ok_mem [OF ok, of rc] by simp
  have "historySequence E (stateAfter rs) rc = None \<and>
      teNextSeq (rcTeam rc) = (if rcMessage rc = None then hsNext (stateAfter rs) else hsNext (stateAfter rs) + 1)"
  proof (cases "rs = []")
    case True
    then have c: "validateCreateRecord E rc = None" using ok by (simp add: log_ok_single)
    then have "trCause (rcTransition rc) = CauseCreate" by (simp add: validateCreateRecord_def)
    then have "rcMessage rc = None" using record_delta(2) [OF rec] by (cases "rcMessage rc") auto
    with True c one show ?thesis by (simp add: historySequence_def stateAfter_def)
  next
    case False
    then have n: "length rs - 1 < length rs" "Suc (length rs - 1) < length (rs @ [rc])" by auto
    have "(rs @ [rc]) ! (length rs - 1) = last rs" "(rs @ [rc]) ! Suc (length rs - 1) = rc"
      using False by (simp_all add: nth_append last_conv_nth)
    with ok n(2) have v: "validateNextRecord E (last rs) (recRevision (last rs)) rc = None"
      unfolding log_ok_def by metis
    with False next_sequence [OF validateNextRecordD(7) [OF v]] show ?thesis
      by (auto simp: historySequence_def stateAfter_def)
  qed
  then show "historySequence E (stateAfter rs) rc = None"
    and n: "teNextSeq (rcTeam rc) = (if rcMessage rc = None then hsNext (stateAfter rs) else hsNext (stateAfter rs) + 1)"
    by auto
  show "rcMessage rc = Some g \<Longrightarrow> gSequence g = hsNext (stateAfter rs)"
    using n record_delta(1) [OF rec] by simp
qed

lemma history_extend:
  assumes valid: "history_valid E k rs" and ok: "log_ok E k (rs @ [rc])"
    and msg: "message_extends rs rc" and one: "rs = [] \<longrightarrow> teNextSeq (rcTeam rc) = 1"
  shows "history_valid E k (rs @ [rc])"
proof -
  note d = map_of_messages_distinct [OF history_messages_distinct [OF valid]]
  note sq = sequence_extends [OF ok one]
  have rec: "validateLoadedRecord E k rc = None"
    using log_ok_mem [OF ok, of rc] by (simp add: validateLoadedRecord_def)
  have new: "recCommand rc \<notin> recCommand ` set rs" "recEvent rc \<notin> recEvent ` set rs"
    using ok by (auto simp: log_ok_def)
  have look: "map_of (hsMessages (stateAfter rs)) j = recordMessage rs j" for j
    unfolding recordMessage_def messagesOf_def [symmetric] by (simp add: stateAfter_def d)
  have "\<exists>h. historyStep E k (stateAfter rs) rc = Inr h"
  proof (cases "rcMessage rc")
    case None
    with rec new sq(1,2) show ?thesis
      by (simp add: historyStep_def historyMessage_def Let_def stateAfter_def)
  next
    case (Some g)
    have "historyMessage k (stateAfter rs) (Some g) =
        Inr ((gID g, g) # hsMessages (stateAfter rs), hsNext (stateAfter rs) + 1)"
      using msg Some sq(3) [OF Some]
      by (auto simp: historyMessage_def Let_def look message_extends_def)
    with rec new sq(1,2) Some show ?thesis
      by (simp add: historyStep_def Let_def stateAfter_def)
  qed
  with historyStep_after valid show ?thesis unfolding history_valid_append by blast
qed

subsection \<open>The abstract state machine\<close>

text \<open>
  One step of a Team, without store, replay or conflicts: some checked command, applied to the
  snapshot of a record at a time not before it, makes the next record. The logs are its runs.
\<close>

inductive team_step :: "team_env \<Rightarrow> team_record \<Rightarrow> team_record \<Rightarrow> bool" for E where
  step: "commandCheck cmd = None \<Longrightarrow>
    commandMutation E cmd (cmdActor cm) load (rcTeam p) now = Inr (t', f) \<Longrightarrow> later (rcTeam p) now \<Longrightarrow>
    team_step E p (nextRecord k cm h (rcTeam p) now t' f ev)"

inductive_cases team_stepE: "team_step E p rc"

definition hist_ok :: "team_env \<Rightarrow> string \<Rightarrow> team_record list \<Rightarrow> bool" where
  "hist_ok E k rs \<longleftrightarrow> history_valid E k rs \<and> (\<forall>rc \<in> set rs. team_inv E (rcTeam rc)) \<and>
     successively (team_step E) rs"

lemma hist_ok_Nil: "hist_ok E k []"
  by (simp add: hist_ok_def history_valid_Nil)

lemma hist_ok_validate: "hist_ok E k rs \<Longrightarrow> rs \<noteq> [] \<Longrightarrow> validateLoadedHistory E k rs = None"
  by (simp add: hist_ok_def history_valid_iff)

lemma team_step_inv: "team_step E p rc \<Longrightarrow> team_inv E (rcTeam p) \<Longrightarrow> team_inv E (rcTeam rc)"
  by (erule team_stepE) (auto simp: nextTeam_stamp [OF command_frame] intro: command_inv)

lemma hist_ok_extend:
  assumes hist: "hist_ok E k rs" and ok: "log_ok E k (rs @ [rc])" and msg: "message_extends rs rc"
    and ne: "rs \<noteq> []" and step: "team_step E (last rs) rc"
  shows "hist_ok E k (rs @ [rc])"
proof -
  have "team_inv E (rcTeam rc)"
    using hist ne step team_step_inv by (auto simp: hist_ok_def)
  with hist history_extend [OF _ ok msg] ne step show ?thesis
    by (auto simp: hist_ok_def successively_append_iff)
qed

end
