(* ===== verification/TeamEngineLaws.thy ===== *)
theory TeamEngineLaws
  imports TeamHistory
begin

section \<open>Team: the engine over any store that keeps the contract\<close>

text \<open>
  Engines share a store. \<open>system_ok\<close> is what all of them maintain; \<open>extends\<close> is what a call may do
  to the store: append valid records to logs. An engine call under interference that only extends
  the store only extends it (rely and guarantee are the same relation, so any number of engines
  compose), and what it returns is a record of the log.
\<close>

definition system_ok ::
    "team_env \<Rightarrow> ('st \<Rightarrow> bool) \<Rightarrow> ('st \<Rightarrow> string \<Rightarrow> team_record list) \<Rightarrow> 'st \<Rightarrow> bool" where
  "system_ok E sinv log s \<longleftrightarrow> sinv s \<and> (\<forall>k. hist_ok E k (log s k))"

definition extends ::
    "team_env \<Rightarrow> ('st \<Rightarrow> bool) \<Rightarrow> ('st \<Rightarrow> string \<Rightarrow> team_record list) \<Rightarrow> 'st \<Rightarrow> 'st \<Rightarrow> bool" where
  "extends E sinv log s s' \<longleftrightarrow> system_ok E sinv log s' \<and> (\<forall>k. \<exists>ext. log s' k = log s k @ ext)"

definition rely ::
    "team_env \<Rightarrow> ('st \<Rightarrow> bool) \<Rightarrow> ('st \<Rightarrow> string \<Rightarrow> team_record list) \<Rightarrow> 'st call_env \<Rightarrow> bool" where
  "rely E sinv log ce \<longleftrightarrow> (\<forall>p s. system_ok E sinv log s \<longrightarrow> extends E sinv log s (ceItf ce p s))"

text \<open>A context's error is one of the context package, none of this package's.\<close>

definition ctx_ok :: "'st call_env \<Rightarrow> bool" where
  "ctx_ok ce \<longleftrightarrow> (\<forall>p e. ceCtx ce p = Some e \<longrightarrow> \<not> errorsIs e ErrNotFound \<and> \<not> errorsIs e ErrConflict \<and>
     \<not> errorsIs e ErrCommandConflict \<and> \<not> errorsIs e ErrExists)"

lemma extends_refl: "system_ok E sinv log s \<Longrightarrow> extends E sinv log s s"
  by (simp add: extends_def)

lemma extends_trans:
  assumes "extends E sinv log s t" "extends E sinv log t u"
  shows "extends E sinv log s u"
proof -
  have "\<exists>ext. log u k = log s k @ ext" for k
  proof -
    obtain a b where "log t k = log s k @ a" "log u k = log t k @ b"
      using assms unfolding extends_def by blast
    then show ?thesis by simp
  qed
  with assms(2) show ?thesis by (simp add: extends_def)
qed

lemma extends_sys: "extends E sinv log s t \<Longrightarrow> system_ok E sinv log t"
  by (simp add: extends_def)

lemma sameConversation_parent:
  assumes "replyTarget load k s r = None" "k \<noteq> []"
  obtains p where "load k = Inr p" "sameConversation p s r"
  using assms by (auto simp: replyTarget_def split: sum.splits if_splits)

text \<open>What the two lookups inside \<open>SendMessage\<close> establish about the log they read.\<close>

lemma command_message_extends:
  assumes run: "commandMutation E cmd a (\<lambda>mk. guardE c (of_opt ErrNotFound (recordMessage rs mk))) t now
      = Inr (t', f)"
    and c: "\<And>e. c = Some e \<Longrightarrow> \<not> errorsIs e ErrNotFound"
  shows "message_extends rs (nextRecord k cm h t now t' f ev)"
proof (cases "tfDelta f")
  case None
  then show ?thesis by (simp add: message_extends_def)
next
  case (Some g)
  obtain q where q: "cmd = SendMessage q"
  proof -
    have "sends_message t t' f" using command_members [OF run] Some
      by (auto simp: keeps_members_def adds_member_def switches_member_def acknowledges_def)
    with task_commands_members [OF run] registerMember_members enableMember_members
      disableMember_members acknowledgeMessages_members run that show thesis
      by (cases cmd) (force simp: keeps_members_def sends_message_def adds_member_def
          switches_member_def acknowledges_def)+
  qed
  let ?load = "\<lambda>mk. guardE c (of_opt ErrNotFound (recordMessage rs mk))"
  obtain s where g: "g = newMessage t s q now"
    and fresh: "messageFresh ?load (srMessageID q) = None"
    and reply: "replyTarget ?load (srReplyToID q) (mID s) (srRecipientID q) = None"
    using run Some by (auto simp: q sendMessage_def bindE_Inr Let_def split: option.splits)
  have ids: "gID g = srMessageID q" "gReplyTo g = srReplyToID q" "gSender g = mID s"
      "gRecipient g = srRecipientID q" by (simp_all add: g newMessage_def)
  have "recordMessage rs (srMessageID q) = None"
    using fresh c by (cases c; cases "recordMessage rs (srMessageID q)") (auto simp: messageFresh_def)
  moreover have "gReplyTo g = [] \<or>
      (\<exists>p. recordMessage rs (gReplyTo g) = Some p \<and> sameConversation p (gSender g) (gRecipient g))"
    using reply ids by (auto elim: sameConversation_parent)
  ultimately show ?thesis using Some ids by (simp add: message_extends_def)
qed

context team_store
begin

lemma replay_Some:
  assumes "sinv s" "engineReplay E S c k cmd h s = Inr (Some rc)"
  shows "rc \<in> set (log s k)" "recCommand rc = cmd" "trCommandHash (rcTransition rc) = h"
  using assms load_command [OF assms(1), of c k cmd]
  by (auto simp: engineReplay_def findCommand_def find_Some_iff split: sum.splits if_splits)

lemma replay_None:
  assumes "sinv s" "engineReplay E S c k cmd h s = Inr None" "\<And>e. c = Some e \<Longrightarrow> \<not> errorsIs e ErrNotFound"
  shows "cmd \<notin> recCommand ` set (log s k)"
proof (cases c)
  case None
  with assms load_command [OF assms(1), of c k cmd] show ?thesis
    by (cases "findCommand (log s k) cmd") (auto simp: engineReplay_def findCommand_None)
next
  case (Some e)
  with assms load_command [OF assms(1), of c k cmd] show ?thesis
    by (auto simp: engineReplay_def guardE_def)
qed

text \<open>A command in the log, under its own hash, is replayed: the same record, no error.\<close>

lemma replay_found:
  assumes "sinv s" "rc \<in> set (log s k)" "trCommandHash (rcTransition rc) = h"
  shows "engineReplay E S None k (recCommand rc) h s = Inr (Some rc)"
proof -
  have ok: "log_ok E k (log s k)" using log_inv assms by (metis empty_iff list.set(1))
  have d: "distinct (map recCommand (log s k))" using ok by (simp add: log_ok_def)
  obtain i where "find_idx (\<lambda>x. recCommand x = recCommand rc) (log s k) = Some (rc, i)"
    using find_idx_key [of recCommand "log s k" rc] d assms(2) by blast
  then have "findCommand (log s k) (recCommand rc) = Some rc"
    unfolding findCommand_def find_idx_find [symmetric] by simp
  moreover have "validateLoadedRecord E k rc = None"
    using log_ok_mem [OF ok assms(2)] by (simp add: validateLoadedRecord_def)
  ultimately show ?thesis using assms load_command [OF assms(1)]
    by (simp add: engineReplay_def)
qed

text \<open>The same command ID under another hash is refused.\<close>

lemma replay_conflict:
  assumes "sinv s" "rc \<in> set (log s k)" "trCommandHash (rcTransition rc) \<noteq> h"
  shows "engineReplay E S None k (recCommand rc) h s = Inl ErrCommandConflict"
proof -
  have ok: "log_ok E k (log s k)" using log_inv assms by (metis empty_iff list.set(1))
  have d: "distinct (map recCommand (log s k))" using ok by (simp add: log_ok_def)
  obtain i where "find_idx (\<lambda>x. recCommand x = recCommand rc) (log s k) = Some (rc, i)"
    using find_idx_key [of recCommand "log s k" rc] d assms(2) by blast
  then have "findCommand (log s k) (recCommand rc) = Some rc"
    unfolding findCommand_def find_idx_find [symmetric] by simp
  moreover have "validateLoadedRecord E k rc = None"
    using log_ok_mem [OF ok assms(2)] by (simp add: validateLoadedRecord_def)
  ultimately show ?thesis using assms load_command [OF assms(1)]
    by (simp add: engineReplay_def)
qed

lemma loadRecord_Inr:
  assumes "sinv s"
  shows "loadRecord E S c k s = Inr rc \<longleftrightarrow> c = None \<and> log s k \<noteq> [] \<and> rc = last (log s k)"
proof -
  have "validateLoadedRecord E k (last (log s k)) = None" if "log s k \<noteq> []"
    using log_ok_mem [OF log_inv [OF assms that], of "last (log s k)"] that
    by (simp add: validateLoadedRecord_def)
  then show ?thesis by (auto simp: loadRecord_def bindE_Inr load [OF assms])
qed

text \<open>
  A successful compare-and-swap of a record built from the head of the log: the head is still
  the head, the log grows by that record and stays a valid history.
\<close>

lemma commit_extends:
  assumes sys2: "system_ok E sinv log s2" and ext3: "extends E sinv log s2 s3"
    and ext: "extends E sinv log s3 s4"
    and cur: "log s2 k \<noteq> []" "cur = last (log s2 k)" "recRevision cur = cmdExpected cm"
    and c: "commandCheck cmd = None" and ctx: "\<And>e. c = Some e \<Longrightarrow> \<not> errorsIs e ErrNotFound"
    and run: "commandMutation E cmd (cmdActor cm) (\<lambda>mk. opLoadMessage S c k mk s3) (rcTeam cur) now
      = Inr (t', f)"
    and nx: "next = nextRecord k cm h (rcTeam cur) now t' f ev"
    and cas: "opCas S c' k (cmdExpected cm) next s4 = (None, s5)"
  shows "log s4 k = log s2 k" "log s5 = (log s4)(k := log s2 k @ [next])" "extends E sinv log s4 s5"
proof -
  have inv2: "sinv s2" and inv3: "sinv s3" and inv4: "sinv s4"
    using sys2 ext3 ext by (simp_all add: extends_def system_ok_def)
  have hist2: "hist_ok E k (log s2 k)" using sys2 by (simp add: system_ok_def)
  from cas_ok [OF inv4 cas] have inv5: "sinv s5"
    and rev: "recRevision (last (log s4 k)) = cmdExpected cm"
    and log5: "log s5 = (log s4)(k := log s4 k @ [next])" by auto
  obtain e e' where e: "log s3 k = log s2 k @ e" "log s4 k = log s2 k @ e @ e'"
    using ext3 ext by (metis append.assoc extends_def)
  have ok2: "log_ok E k (log s2 k)" by (rule log_inv [OF inv2 cur(1)])
  have ok4: "log_ok E k (log s2 k @ e @ e')" using log_inv [OF inv4, of k] e cur(1) by simp
  have "e @ e' = []"
    by (rule log_revision_inj [OF ok2 ok4]) (use rev cur e in simp)
  with e show same: "log s4 k = log s2 k" by simp
  from \<open>e @ e' = []\<close> e have same3: "log s3 k = log s2 k" by simp
  from log5 same show log5': "log s5 = (log s4)(k := log s2 k @ [next])" by simp
  have ok5: "log_ok E k (log s2 k @ [next])" using log_inv [OF inv5, of k] log5' by simp
  then have v: "validateNextRecord E cur (recRevision cur) next = None"
    using log_ok_append [OF ok2] cur by simp
  have inv_t: "team_inv E (rcTeam cur)" using hist2 cur by (simp add: hist_ok_def)
  have fr: "nextTeam (rcTeam cur) t' now = stamp now t'"
    by (rule nextTeam_stamp [OF command_frame [OF run]])
  have "header_ok (stamp now t')"
    using validateRecordD(1) [OF validateNextRecordD(2) [OF v]]
    by (simp add: nx fr validateTeam_iff team_ok_def)
  then have "\<not> isZero now" "recRevision cur + 1 \<noteq> 0"
    using command_frame [OF run] by (simp_all add: header_ok_def frame_def)
  moreover have "teUpdatedAt (rcTeam cur) \<le> now"
    using validateNextRecordD(6) [OF v] by (simp add: nx nextTeam_def)
  ultimately have l: "later (rcTeam cur) now" by (simp add: later_def)
  have step: "team_step E (last (log s2 k)) next"
    unfolding nx cur(2) [symmetric] by (rule team_step.step [OF c _ l]) (rule run)
  have "message_extends (log s3 k) next" unfolding nx
    by (rule command_message_extends [OF run [unfolded load_message [OF inv3]] ctx])
  then have "hist_ok E k (log s2 k @ [next])"
    using hist_ok_extend [OF hist2 ok5 _ cur(1) step] same3 by simp
  then show "extends E sinv log s4 s5"
    using ext inv5 same by (auto simp: extends_def system_ok_def log5')
qed

end

end
