(* ===== verification/TeamEngineSpec.thy ===== *)
theory TeamEngineSpec
  imports TeamEngineLaws
begin

section \<open>Team: what a command returns and what it leaves in the store\<close>

text \<open>
  \<open>committed\<close>: a record of the log, of this command, with the hash of this request.
\<close>

definition committed ::
    "(string \<Rightarrow> team_record list) \<Rightarrow> string \<Rightarrow> string \<Rightarrow> string \<Rightarrow> team_record \<Rightarrow> bool" where
  "committed lg k cmd h rc \<longleftrightarrow> rc \<in> set (lg k) \<and> recCommand rc = cmd \<and>
     trCommandHash (rcTransition rc) = h"

context team_store
begin

abbreviation "ext \<equiv> extends E sinv log"
abbreviation "sys \<equiv> system_ok E sinv log"

lemma sys_inv: "sys s \<Longrightarrow> sinv s"
  by (simp add: system_ok_def)

lemma rely_step: "rely E sinv log ce \<Longrightarrow> sys s \<Longrightarrow> ext s (ceItf ce p s)"
  by (simp add: rely_def)

lemma commit_spec:
  assumes sys2: "sys s2" and e3: "ext s2 s3" and rel: "rely E sinv log ce" and ctx: "ctx_ok ce"
    and cur: "log s2 k \<noteq> []" "cur = last (log s2 k)" "recRevision cur = cmdExpected cm"
    and c: "commandCheck cmd = None"
    and m: "mutateRecord E S ce k cm h (commandMutation E cmd (cmdActor cm)) (rcTeam cur) s3 = Inr nx"
    and run: "commitRecord E S ce k cm h nx s3 = (r, s')"
  shows "ext s3 s' \<and> (\<forall>rc. r = Inr rc \<longrightarrow> committed (log s') k (cmdID cm) h rc)"
proof -
  obtain t' f ev where mu: "commandMutation E cmd (cmdActor cm)
        (\<lambda>mk. opLoadMessage S (ceCtx ce PMutate) k mk s3) (rcTeam cur) (utc (ceNow ce)) = Inr (t', f)"
    and nx: "nx = nextRecord k cm h (rcTeam cur) (utc (ceNow ce)) t' f ev"
    using m by (auto simp: mutateRecord_def bindE_Inr Let_def)
  let ?s4 = "ceItf ce PCommit s3"
  note sys3 = extends_sys [OF e3]
  have e4: "ext s3 ?s4" by (rule rely_step [OF rel sys3])
  note sys4 = extends_sys [OF e4]
  show ?thesis
  proof (cases "opCas S (ceCtx ce PCommit) k (cmdExpected cm) nx ?s4")
    case (Pair eo s5)
    show ?thesis
    proof (cases eo)
      case None
      with Pair have cas: "opCas S (ceCtx ce PCommit) k (cmdExpected cm) nx ?s4 = (None, s5)" by simp
      have ctx': "\<And>e. ceCtx ce PMutate = Some e \<Longrightarrow> \<not> errorsIs e ErrNotFound"
        using ctx by (simp add: ctx_ok_def)
      note x = commit_extends [OF sys2 e3 e4 cur c ctx' mu nx cas]
      from run cas have "r = Inr nx" "s' = s5" by (auto simp: commitRecord_def)
      with x extends_trans [OF e4 x(3)] show ?thesis by (simp add: committed_def nx)
    next
      case (Some e)
      with Pair have s5: "s5 = ?s4" using cas_fail [OF sys_inv [OF sys4]] by blast
      let ?s6 = "ceItf ce PReplay2 s5"
      have e6: "ext s3 ?s6" using extends_trans [OF e4 rely_step [OF rel sys4]] by (simp add: s5)
      have rp: "\<And>rc. engineReplay E S (ceCtx ce PReplay2) k (cmdID cm) h ?s6 = Inr (Some rc) \<Longrightarrow>
          committed (log ?s6) k (cmdID cm) h rc"
        using replay_Some [OF sys_inv [OF extends_sys [OF e6]]] by (simp add: committed_def)
      from run Pair Some e4 e6 rp show ?thesis
        by (auto simp: commitRecord_def Let_def s5 split: if_splits sum.splits option.splits)
    qed
  qed
qed

theorem execute_spec:
  assumes sys: "sys s" and rel: "rely E sinv log ce" and ctx: "ctx_ok ce"
    and run: "execute E S ce k cm cmd s = (r, s')"
  shows "ext s s' \<and> (\<forall>rc. r = Inr rc \<longrightarrow> (\<exists>h. commandHash E (commandOperation cmd) k (cmdActor cm)
    (commandSemantic cmd) = Inr h \<and> committed (log s') k (cmdID cm) h rc))"
proof (cases "commandCheck cmd = None \<and> first_err [validateSafeID k, validateCommand cm False] = None")
  case False
  with run have "s' = s" "\<exists>e. r = Inl e"
    by (auto simp: execute_def applyCommand_def guardE_def split: option.splits sum.splits)
  with extends_refl [OF sys] show ?thesis by auto
next
  case True
  show ?thesis
  proof (cases "commandHash E (commandOperation cmd) k (cmdActor cm) (commandSemantic cmd)")
    case (Inl e)
    with True run have "s' = s" "r = Inl e" by (auto simp: execute_def applyCommand_def)
    with extends_refl [OF sys] show ?thesis by auto
  next
    case (Inr h)
    note hash = Inr
    have chk: "commandCheck cmd = None" using True by simp
    let ?s1 = "ceItf ce PReplay s"
    have e1: "ext s ?s1" by (rule rely_step [OF rel sys])
    note sys1 = extends_sys [OF e1]
    have step1: "execute E S ce k cm cmd s =
        (case engineReplay E S (ceCtx ce PReplay) k (cmdID cm) h ?s1 of
            Inl e \<Rightarrow> (Inl e, ?s1)
          | Inr (Some rc) \<Rightarrow> (Inr rc, ?s1)
          | Inr None \<Rightarrow>
             (let s2 = ceItf ce PLoad ?s1
              in case loadRecord E S (ceCtx ce PLoad) k s2 of
                Inl e \<Rightarrow> (Inl e, s2)
              | Inr cur \<Rightarrow>
                  if recRevision cur \<noteq> cmdExpected cm
                  then (Inl (ConflictError (cmdExpected cm) (recRevision cur)), s2)
                  else (let s3 = ceItf ce PMutate s2
                    in case mutateRecord E S ce k cm h (commandMutation E cmd (cmdActor cm)) (rcTeam cur) s3 of
                      Inl e \<Rightarrow> (Inl e, s3)
                    | Inr next \<Rightarrow> commitRecord E S ce k cm h next s3)))"
      using True Inr by (simp add: execute_def applyCommand_def guardE_def Let_def)
    let ?s2 = "ceItf ce PLoad ?s1"
    have e2: "ext ?s1 ?s2" by (rule rely_step [OF rel sys1])
    note sys2 = extends_sys [OF e2]
    let ?s3 = "ceItf ce PMutate ?s2"
    have e3: "ext ?s2 ?s3" by (rule rely_step [OF rel sys2])
    note sys3 = extends_sys [OF e3]
    note e12 = extends_trans [OF e1 e2]
    note e13 = extends_trans [OF e12 e3]
    show ?thesis
    proof (cases "engineReplay E S (ceCtx ce PReplay) k (cmdID cm) h ?s1")
      case (Inl e)
      with run step1 e1 show ?thesis by auto
    next
      case (Inr o1)
      note replay = Inr
      show ?thesis
      proof (cases o1)
        case (Some rc)
        with run step1 Inr have "r = Inr rc" "s' = ?s1" by auto
        with replay_Some [OF sys_inv [OF sys1]] Inr Some e1 hash
        show ?thesis by (auto simp: committed_def)
      next
        case None
        show ?thesis
        proof (cases "loadRecord E S (ceCtx ce PLoad) k ?s2")
          case (Inl e)
          with run step1 Inr None e12 show ?thesis by auto
        next
          case (Inr cur)
          note load = Inr
          note cur = Inr [unfolded loadRecord_Inr [OF sys_inv [OF sys2]]]
          let ?m = "mutateRecord E S ce k cm h (commandMutation E cmd (cmdActor cm)) (rcTeam cur) ?s3"
          show ?thesis
          proof (cases "recRevision cur = cmdExpected cm")
            case False
            with run step1 replay None load e12 show ?thesis by auto
          next
            case True
            show ?thesis
            proof (cases ?m)
              case (Inl e)
              with run step1 replay None load True e13 show ?thesis by (auto simp: Let_def)
            next
              case (Inr nx)
              have "commitRecord E S ce k cm h nx ?s3 = (r, s')"
                using run step1 replay None load True Inr by (simp add: Let_def)
              from commit_spec [OF sys2 e3 rel ctx _ _ True _ Inr this] cur chk
              have "ext ?s3 s' \<and> (\<forall>rc. r = Inr rc \<longrightarrow> committed (log s') k (cmdID cm) h rc)" by blast
              with hash extends_trans [OF e13] show ?thesis by auto
            qed
          qed
        qed
      qed
    qed
  qed
qed

text \<open>A command ID the log holds is replayed, from any later state, without a write.\<close>

theorem execute_replays:
  assumes sys: "sys s" and q: "\<And>p s. ceItf ce p s = s" "\<And>p. ceCtx ce p = None"
    and c: "commandCheck cmd = None" "validateSafeID k = None" "validateCommand cm False = None"
    and h: "commandHash E (commandOperation cmd) k (cmdActor cm) (commandSemantic cmd) = Inr h"
    and rc: "rc \<in> set (log s k)" "recCommand rc = cmdID cm"
  shows "execute E S ce k cm cmd s =
    (if trCommandHash (rcTransition rc) = h then Inr rc else Inl ErrCommandConflict, s)"
  using replay_found [OF sys_inv [OF sys] rc(1), of h] replay_conflict [OF sys_inv [OF sys] rc(1), of h]
    c h rc(2) q by (auto simp: execute_def applyCommand_def guardE_def Let_def)

text \<open>Without interference a failed command leaves the store as it was.\<close>

theorem execute_fails:
  assumes sys: "sys s" and q: "\<And>p s. ceItf ce p s = s"
    and run: "execute E S ce k cm cmd s = (Inl e, s')"
  shows "s' = s"
proof -
  have "s2 = s" if "commitRecord E S ce k cm h nx s = (Inl e, s2)" for h nx s2
    using that cas_fail [OF sys_inv [OF sys]] q
    by (auto simp: commitRecord_def Let_def split: prod.splits option.splits if_splits sum.splits)
  with run q show ?thesis
    by (auto simp: execute_def applyCommand_def Let_def split: option.splits sum.splits if_splits)
qed

text \<open>
  A command that passes its checks at the expected revision is committed, provided the clock has
  not gone back, the event ID is new and the store has room: the validation of the new record
  never refuses it.
\<close>

theorem execute_commits:
  assumes sys: "sys s" and q: "\<And>p s. ceItf ce p s = s" "\<And>p. ceCtx ce p = None"
    and hk: "hash_ok E"
    and c: "commandCheck cmd = None" "validateSafeID k = None" "validateCommand cm False = None"
    and h: "commandHash E (commandOperation cmd) k (cmdActor cm) (commandSemantic cmd) = Inr h"
    and new: "log s k \<noteq> []" "cmdID cm \<notin> recCommand ` set (log s k)"
    and cur: "cur = last (log s k)" "recRevision cur = cmdExpected cm"
    and mu: "commandMutation E cmd (cmdActor cm) (\<lambda>mk. of_opt ErrNotFound (recordMessage (log s k) mk))
      (rcTeam cur) (utc (ceNow ce)) = Inr (t', f)"
    and ev: "ceIDs ce (utc (ceNow ce)) = Inr ev" "safeID ev" "ev \<notin> recEvent ` set (log s k)"
    and l: "later (rcTeam cur) (ceNow ce)"
    and nx: "nx = nextRecord k cm h (rcTeam cur) (utc (ceNow ce)) t' f ev" and room: "room s k nx"
  shows "\<exists>s'. execute E S ce k cm cmd s = (Inr nx, s') \<and> log s' = (log s)(k := log s k @ [nx])"
proof -
  note si = sys_inv [OF sys]
  have ok: "log_ok E k (log s k)" by (rule log_inv [OF si new(1)])
  have mem: "cur \<in> set (log s k)" using new(1) cur(1) by simp
  have inv: "team_inv E (rcTeam cur)" using sys mem by (auto simp: system_ok_def hist_ok_def)
  have tid: "k = teID (rcTeam cur)" using log_ok_mem [OF ok mem] by simp
  have l': "later (rcTeam cur) (utc (ceNow ce))" using l by (simp add: later_def)
  have hh: "len h = 64" "hex_ok h" using hk h by (auto simp: hash_ok_def commandHash_def)
  have v: "validateNextRecord E cur (recRevision cur) nx = None" unfolding nx
    by (rule nextRecord_continues [OF inv c(1) mu l' c(3) ev(2) tid hh]) simp
  then have ok': "log_ok E k (log s k @ [nx])"
    unfolding log_ok_append [OF ok] using cur new(2) ev(3) by (simp add: nx)
  have acc: "fst (opCas S None k (cmdExpected cm) nx s) = None"
    by (rule cas_accepts [OF si new(1) ok' _ room]) (simp add: cur [symmetric])
  then obtain s' where cas: "opCas S None k (cmdExpected cm) nx s = (None, s')"
    by (cases "opCas S None k (cmdExpected cm) nx s") auto
  have "findCommand (log s k) (cmdID cm) = None" using new(2) by (simp add: findCommand_None)
  then have rp: "engineReplay E S None k (cmdID cm) h s = Inr None"
    using load_command [OF si, of None k "cmdID cm"] by (simp add: engineReplay_def)
  have ld: "loadRecord E S None k s = Inr cur" using loadRecord_Inr [OF si] new(1) cur(1) by simp
  have "mutateRecord E S ce k cm h (commandMutation E cmd (cmdActor cm)) (rcTeam cur) s = Inr nx"
    using mu ev q by (simp add: mutateRecord_def load_message [OF si] newEventID_def validateSafeID_def nx)
  with rp ld cas c h q cur(2) have "execute E S ce k cm cmd s = (Inr nx, s')"
    by (simp add: execute_def applyCommand_def commitRecord_def Let_def)
  with cas_ok [OF si cas] show ?thesis by blast
qed

end

end
