(* ===== verification/TeamCreate.thy ===== *)
theory TeamCreate
  imports TeamEngineSpec
begin

section \<open>Team: creating a Team\<close>

lemma newTeam_inv:
  assumes c: "createCheck cm r = Inr L" and now: "\<not> isZero now"
  shows "team_inv E (newTeam r L now)"
proof -
  let ?m = "newMember (crLead r) now"
  have spec: "validateMemberSpec (crLead r) = None" and L: "limits_ok L"
    and k: "safeID (crID r)" and obj: "validateText (crObjective r) 16384 True = None"
    using c resolveLimits_ok by (auto simp: createCheck_def validateSafeID_def)
  have m: "member_ok ?m" by (rule new_member_ok [OF spec now])
  have f: "mID ?m = msID (crLead r)" "mStatus ?m = MemberStatusActive" "mDelivered ?m = 0"
    "mAcknowledged ?m = 0" "mRegisteredAt ?m = now" by (simp_all add: newMember_def)
  have "validateReason [] False = None" by (simp add: validateReason_def validateText_def)
  moreover have "(1 :: u64) \<le> word_of_int (MaxMessages L) + 1"
  proof -
    have "uint (word_of_int (MaxMessages L) + 1 :: u64) = MaxMessages L + 1"
    proof -
      have u: "uint (word_of_int (MaxMessages L) :: u64) = MaxMessages L"
        using L by (simp add: limits_ok_def uint_word_of_int)
      have "uint (word_of_int (MaxMessages L) :: u64) + uint (1 :: u64) < 2 ^ LENGTH(64)"
        using L by (simp add: u limits_ok_def)
      from uint_add_lem [THEN iffD1, OF this] u show ?thesis by simp
    qed
    with L show ?thesis by (simp add: word_le_def limits_ok_def)
  qed
  ultimately show ?thesis
    using L k obj m f now
    by (auto simp: team_inv_def header_ok_def newTeam_def lifecycle_ok_def members_inv_def
        members_ok_def mailbox_ok_def tasks_inv_def tasks_ok_def validStatus_def validateJSON_def
        validateArtifacts_def limits_ok_def claims_def depRel_def depsOf_def taskOf_def acyclic_def)
qed

lemma createRecord_valid:
  assumes c: "createCheck cm r = Inr L" and now: "\<not> isZero now" "zone now = 0"
    and h: "len h = 64" "hex_ok h" and ev: "safeID ev"
  shows "validateCreateRecord E (createRecord cm r L h now ev) = None"
proof -
  let ?t = "newTeam r L now"
  have a: "acKind (cmdActor cm) = ActorKindCoordinator" "validateActor (cmdActor cm) = None"
    "safeID (cmdID cm)" "safeID (crID r)" and spec: "validateMemberSpec (crLead r) = None"
    using c by (auto simp: createCheck_def validateSafeID_def validateCommand_def)
  have s: "safeID (msID (crLead r))" "msID (crLead r) \<noteq> []"
    using spec by (auto simp: validateMemberSpec_def validateSafeID_def)
  have t: "validateTeam E ?t = None" using team_inv_ok [OF newTeam_inv [OF c now(1)]]
    by (simp add: validateTeam_iff)
  have "validateReason [] False = None" by (simp add: validateReason_def validateText_def)
  then have "validateRecord E (createRecord cm r L h now ev) = None"
    using a s t now h ev
    by (simp add: validateRecord_def createRecord_def Let_def validateStoredTransition_def
        validateSafeID_def validStatus_def validCause_def optionalID_def refs_defs
        validateRecordMessage_def newTeam_def newMember_def)
  then show ?thesis by (simp add: validateCreateRecord_def createRecord_def newTeam_def)
qed

lemma createRecord_simps [simp]:
  "rcTeam (createRecord cm r L h now ev) = newTeam r L now"
  "recCommand (createRecord cm r L h now ev) = cmdID cm"
  "recEvent (createRecord cm r L h now ev) = ev"
  "trCommandHash (rcTransition (createRecord cm r L h now ev)) = h"
  "rcMessage (createRecord cm r L h now ev) = None"
  by (simp_all add: createRecord_def)

lemma newTeam_simps [simp]:
  "teID (newTeam r L now) = crID r" "teNextSeq (newTeam r L now) = 1"
  by (simp_all add: newTeam_def)

context team_store
begin

theorem create_spec:
  assumes sys: "sys s" and rel: "rely E sinv log ce" and ctx: "ctx_ok ce"
    and run: "engineCreate E S ce cm r s = (res, s')"
  shows "ext s s' \<and> (\<forall>t. res = Inr t \<longrightarrow> (\<exists>rc. rcTeam rc = t \<and> rc \<in> set (log s' (crID r)) \<and>
    recCommand rc = cmdID cm))"
proof (cases "bindE (createCheck cm r) (\<lambda>limits. bindE (commandHash E ''create_team'' (crID r) (cmdActor cm)
    (SemCreate (crObjective r) (crLead r) limits)) (\<lambda>hash. Inr (limits, hash)))")
  case (Inl e)
  with run have "s' = s" "res = Inl e" by (simp_all add: engineCreate_def)
  with extends_refl [OF sys] show ?thesis by simp
next
  case (Inr p)
  note create = Inr
  obtain L h where p: "p = (L, h)" by (cases p)
  have chk: "createCheck cm r = Inr L" using Inr by (auto simp: p bindE_Inr)
  let ?s1 = "ceItf ce PReplay s" and ?now = "utc (ceNow ce)"
  have e1: "ext s ?s1" by (rule rely_step [OF rel sys])
  note sys1 = extends_sys [OF e1]
  let ?s2 = "ceItf ce PCommit ?s1"
  have e2: "ext ?s1 ?s2" by (rule rely_step [OF rel sys1])
  note sys2 = extends_sys [OF e2]
  note e12 = extends_trans [OF e1 e2]
  show ?thesis
  proof (cases "engineReplay E S (ceCtx ce PReplay) (crID r) (cmdID cm) h ?s1")
    case Inl1: (Inl e)
    with run Inr p e1 show ?thesis by (auto simp: engineCreate_def Let_def)
  next
    case rep: (Inr o1)
    show ?thesis
    proof (cases o1)
      case (Some rc)
      with run Inr p rep have "res = Inr (rcTeam rc)" "s' = ?s1" by (auto simp: engineCreate_def Let_def)
      with replay_Some [OF sys_inv [OF sys1]] rep Some e1 show ?thesis by auto
    next
      case None
      show ?thesis
      proof (cases "newEventID (ceIDs ce) ?now")
        case (Inl e)
        with run p rep None e1 create show ?thesis by (auto simp: engineCreate_def Let_def)
      next
        case ev: (Inr ev)
        let ?rc = "createRecord cm r L h ?now ev"
        obtain eo s3 where cr: "opCreate S (ceCtx ce PCommit) ?rc ?s2 = (eo, s3)"
          by (cases "opCreate S (ceCtx ce PCommit) ?rc ?s2")
        show ?thesis
        proof (cases eo)
          case none: None
          note cr' = cr [unfolded none]
          from create_ok [OF sys_inv [OF sys2] cr'] have i3: "sinv s3"
            and l2: "log ?s2 (crID r) = []" and l3: "log s3 = (log ?s2)(crID r := [?rc])" by simp_all
          have ok: "log_ok E (crID r) [?rc]" using log_inv [OF i3, of "crID r"] l3 by simp
          then have "validateRecord E ?rc = None" by (simp add: log_ok_single validateCreateRecord_def)
          from validateRecordD(1) [OF this] have "\<not> isZero ?now" by (simp add: validateTeam_iff team_ok_def header_ok_def newTeam_def)
          then have "team_inv E (newTeam r L ?now)" by (rule newTeam_inv [OF chk])
          then have "hist_ok E (crID r) [?rc]"
            using history_extend [OF history_valid_Nil, of E "crID r" ?rc] ok
            by (auto simp: hist_ok_def message_extends_def)
          then have "ext ?s2 s3" using sys2 i3 l2 by (auto simp: extends_def system_ok_def l3)
          note e = extends_trans [OF e12 this]
          have "engineCreate E S ce cm r s = (Inr (newTeam r L ?now), s3)"
            by (simp only: engineCreate_def create p sum.case prod.case Let_def rep None ev cr none option.case)
          with run have "res = Inr (newTeam r L ?now)" "s' = s3" by simp_all
          moreover have "?rc \<in> set (log s3 (crID r))" by (simp add: l3)
          ultimately show ?thesis using e by (auto intro!: exI [of _ ?rc])
        next
          case (Some e)
          with cr have s3: "s3 = ?s2" using create_fail [OF sys_inv [OF sys2]] by blast
          let ?s4 = "ceItf ce PReplay2 s3"
          have e4: "ext s ?s4" using extends_trans [OF e12 rely_step [OF rel sys2]] by (simp add: s3)
          have rp: "\<And>rc. engineReplay E S (ceCtx ce PReplay2) (crID r) (cmdID cm) h ?s4 = Inr (Some rc) \<Longrightarrow>
              rc \<in> set (log ?s4 (crID r)) \<and> recCommand rc = cmdID cm"
            using replay_Some [OF sys_inv [OF extends_sys [OF e4]]] by simp
          from run Inr p rep None ev cr Some e12 e4 rp show ?thesis
            by (auto simp: engineCreate_def Let_def s3 split: if_splits sum.splits option.splits)
        qed
      qed
    qed
  qed
qed

text \<open>A valid request for a free ID creates the Team, if the store has room.\<close>

theorem create_commits:
  assumes sys: "sys s" and q: "\<And>p s. ceItf ce p s = s" "\<And>p. ceCtx ce p = None"
    and hk: "hash_ok E" and c: "createCheck cm r = Inr L" and free: "log s (crID r) = []"
    and h: "commandHash E ''create_team'' (crID r) (cmdActor cm)
      (SemCreate (crObjective r) (crLead r) L) = Inr h"
    and now: "\<not> isZero (ceNow ce)" and ev: "ceIDs ce (utc (ceNow ce)) = Inr ev" "safeID ev"
    and rc: "rc = createRecord cm r L h (utc (ceNow ce)) ev" and room: "room s (crID r) rc"
  shows "\<exists>s'. engineCreate E S ce cm r s = (Inr (newTeam r L (utc (ceNow ce))), s') \<and>
    log s' = (log s)(crID r := [rc])"
proof -
  note si = sys_inv [OF sys]
  have hh: "len h = 64" "hex_ok h" using hk h by (auto simp: hash_ok_def commandHash_def)
  have "\<not> isZero (utc (ceNow ce))" using now by (simp add: isZero_def)
  from createRecord_valid [OF c this _ hh ev(2)] have "log_ok E (crID r) [rc]"
    by (simp add: log_ok_single rc)
  from create_accepts [OF si free this room] obtain s' where cr: "opCreate S None rc s = (None, s')"
    by (cases "opCreate S None rc s") auto
  have "findCommand (log s (crID r)) (cmdID cm) = None" using free by (simp add: findCommand_None)
  then have rp: "engineReplay E S None (crID r) (cmdID cm) h s = Inr None"
    using load_command [OF si, of None "crID r" "cmdID cm"] by (simp add: engineReplay_def)
  have "engineCreate E S ce cm r s = (Inr (newTeam r L (utc (ceNow ce))), s')"
    using c h q ev rp cr by (simp add: engineCreate_def newEventID_def validateSafeID_def Let_def rc)
  with create_ok [OF si cr] show ?thesis by (simp add: rc)
qed

end

end
