(* ===== verification/TeamMachine.thy ===== *)
theory TeamMachine
  imports TeamEngineSpec
begin

section \<open>Team: the task and member state machines\<close>

text \<open>
  The abstract specification of the aggregate: how one task and one member may evolve. Every
  command, whatever it does, moves each task by one step of \<open>task_next\<close> and each member by one
  step of \<open>member_next\<close>; what a history can never do is read off these two relations.
\<close>

subsection \<open>Tasks\<close>

inductive task_next :: "gtime \<Rightarrow> task \<Rightarrow> task \<Rightarrow> bool" for now where
  keep: "task_next now x x"
| assign: "tStatus x \<in> {TaskStatusPending, TaskStatusReady} \<Longrightarrow>
    task_next now x (x\<lparr>tAssigned := m, tUpdatedAt := now\<rparr>)"
| promote: "tStatus x = TaskStatusPending \<Longrightarrow>
    task_next now x (x\<lparr>tStatus := TaskStatusReady, tUpdatedAt := now\<rparr>)"
| claim: "tStatus x = TaskStatusReady \<Longrightarrow> tAssigned x \<in> {[], m} \<Longrightarrow>
    task_next now x (x\<lparr>tStatus := TaskStatusClaimed, tClaimed := m, tReason := [], tUpdatedAt := now\<rparr>)"
| release: "tStatus x = TaskStatusClaimed \<Longrightarrow>
    task_next now x (x\<lparr>tStatus := TaskStatusReady, tClaimed := [], tUpdatedAt := now\<rparr>)"
| start: "tStatus x = TaskStatusClaimed \<Longrightarrow> len (tAttempts x) < tAttemptLimit x \<Longrightarrow>
    task_next now x (x\<lparr>tStatus := TaskStatusRunning,
      tAttempts := tAttempts x @ [newAttempt x ak ck now], tUpdatedAt := now\<rparr>)"
| finish: "tStatus x = TaskStatusRunning \<Longrightarrow> lastIs x AttemptStatusRunning \<Longrightarrow>
    frOutcome r \<in> {AttemptOutcomeCompleted, AttemptOutcomeFailed} \<Longrightarrow>
    atID (last (tAttempts x)) = frAttemptID r \<Longrightarrow>
    atContinuation (last (tAttempts x)) = frContinuationID r \<Longrightarrow>
    task_next now x (finishedTask r now x)"
| retry: "tStatus x = TaskStatusFailed \<Longrightarrow> len (tAttempts x) < tAttemptLimit x \<Longrightarrow>
    s \<in> {TaskStatusPending, TaskStatusReady} \<Longrightarrow>
    task_next now x (x\<lparr>tStatus := s, tReason := [], tUpdatedAt := now\<rparr>)"
| drop: "tStatus x \<in> {TaskStatusPending, TaskStatusReady, TaskStatusClaimed, TaskStatusFailed} \<Longrightarrow>
    task_next now x (cancelledTask r now x)"
| abort: "tStatus x = TaskStatusRunning \<Longrightarrow> lastIs x AttemptStatusRunning \<Longrightarrow>
    cancelLastAttempt r now x = Inr x' \<Longrightarrow> task_next now x (cancelledTask r now x')"

inductive_cases task_nextE: "task_next now x y"

definition fresh_task :: "gtime \<Rightarrow> task \<Rightarrow> bool" where
  "fresh_task now x \<longleftrightarrow> tStatus x \<in> {TaskStatusPending, TaskStatusReady} \<and> tAttempts x = [] \<and>
     tClaimed x = [] \<and> tAssigned x = [] \<and> tCreatedAt x = now \<and> tUpdatedAt x = now"

definition tasks_next :: "gtime \<Rightarrow> task list \<Rightarrow> task list \<Rightarrow> bool" where
  "tasks_next now xs zs \<longleftrightarrow> (\<exists>ys new. zs = ys @ new \<and> list_all2 (task_next now) xs ys \<and>
     (new = [] \<or> (\<exists>x. new = [x] \<and> fresh_task now x)))"

lemma tasks_next_all2: "list_all2 (task_next now) xs ys \<Longrightarrow> tasks_next now xs ys"
  by (auto simp: tasks_next_def)

lemma tasks_next_same [simp]: "tasks_next now xs xs"
  by (rule tasks_next_all2) (simp add: list.rel_refl task_next.keep)

lemma list_all2_update:
  "(\<And>x. R x x) \<Longrightarrow> i < length xs \<Longrightarrow> R (xs ! i) y \<Longrightarrow> list_all2 R xs (xs[i := y])"
  by (simp add: list_all2_conv_all_nth nth_list_update)

lemma setTask_next:
  assumes "findTask t k = Some (x, i)" "task_next now x y"
  shows "tasks_next now (teTasks t) (teTasks (setTask t i y))"
  using findTaskD [OF assms(1)] assms(2)
  by (auto simp: setTask_def intro!: tasks_next_all2 list_all2_update task_next.keep)

text \<open>In the invariant a known status is one of seven, and a running task runs an attempt.\<close>

lemma task_known:
  assumes "team_inv E t" "x \<in> set (teTasks t)"
  shows "tStatus x \<noteq> TaskStatusOther q" "tStatus x = TaskStatusRunning \<Longrightarrow> lastIs x AttemptStatusRunning"
  using tasks_invD(2) [OF team_invD(5) [OF assms(1)] assms(2)]
  by (auto simp: task_state_ok_def lastIs_iff split: task_status.splits)

lemma finish_next:
  assumes run: "finishTaskAttempt a r t now = Inr (t', f)" and c: "finishTaskAttempt_check r = None"
    and d: "distinct (map tID (teTasks t))"
  shows "tasks_next now (teTasks t) (teTasks t')"
proof -
  obtain x i where x: "findTask t (frTaskID r) = Some (x, i)" and s: "tStatus x = TaskStatusRunning"
      "tAttempts x \<noteq> []" "atStatus (last (tAttempts x)) = AttemptStatusRunning"
      "atID (last (tAttempts x)) = frAttemptID r" "atContinuation (last (tAttempts x)) = frContinuationID r"
    and t': "t' = (if frOutcome r = AttemptOutcomeCompleted
        then promoteReadyTasks (setTask t i (finishedTask r now x)) now
        else setTask t i (finishedTask r now x))"
    using run by (auto simp: finishTaskAttempt_def Let_def split: option.splits if_splits)
  let ?y = "finishedTask r now x" and ?xs = "teTasks t"
  have "frOutcome r \<in> {AttemptOutcomeCompleted, AttemptOutcomeFailed}"
    using c by (auto simp: finishTaskAttempt_check_def)
  with s have n: "task_next now x ?y" by (auto intro!: task_next.finish simp: lastIs_iff)
  show ?thesis
  proof (cases "frOutcome r = AttemptOutcomeCompleted")
    case False
    with t' setTask_next [OF x n] show ?thesis by simp
  next
    case True
    note i = findTaskD [OF x]
    let ?ys = "?xs[i := ?y]"
    have "distinct (map tID (teTasks (setTask t i ?y)))"
      using d i list_update_map_same [of i ?xs tID ?y] by (simp add: setTask_def finishedTask_def)
    from promoteReadyTasks_map [OF this, of now] True
    have "teTasks t' = map (promoted now (completedIDs ?ys)) ?ys" by (simp add: t' setTask_def)
    moreover have "task_next now (?xs ! j) (promoted now (completedIDs ?ys) (?ys ! j))"
      if "j < length ?xs" for j
    proof (cases "j = i")
      case True
      with i n s show ?thesis
        by (auto simp: promoted_def finishedTask_def \<open>frOutcome r = AttemptOutcomeCompleted\<close>)
    next
      case False
      then have "?ys ! j = ?xs ! j" by simp
      then show ?thesis by (auto simp: promoted_def intro: task_next.keep task_next.promote)
    qed
    ultimately show ?thesis
      by (auto simp: list_all2_conv_all_nth intro!: tasks_next_all2)
  qed
qed

lemma terminateTask_next:
  assumes "team_inv E t" "x \<in> set (teTasks t)" "terminateTask r now x = Inr y"
  shows "task_next now x y"
  using terminateTask_Inr [OF assms(3)] task_known [OF assms(1,2)]
  by (cases "tStatus x") (auto intro: task_next.intros)

lemma terminate_next:
  assumes "team_inv E t" "terminateTasks r now (teTasks t) = Inr ys"
  shows "tasks_next now (teTasks t) ys"
proof (rule tasks_next_all2)
  have "list_all2 (\<lambda>x y. terminateTask r now x = Inr y) (teTasks t) ys"
    using assms(2) by (simp add: terminateTasks_Inr)
  then show "list_all2 (task_next now) (teTasks t) ys"
    by (rule list.rel_mono_strong) (blast intro: terminateTask_next [OF assms(1)])
qed

lemma tasks_next_append: "fresh_task now x \<Longrightarrow> tasks_next now xs (xs @ [x])"
  unfolding tasks_next_def by (rule exI [of _ xs]) (simp add: list.rel_refl task_next.keep)

lemma createTask_next:
  "createTask a r t now = Inr (t', f) \<Longrightarrow> tasks_next now (teTasks t) (teTasks t')"
  by (auto simp: createTask_def Let_def fresh_task_def newTask_def intro!: tasks_next_append)

lemma operator_next:
  "assignTask a k m t now = Inr (t', f) \<Longrightarrow> tasks_next now (teTasks t) (teTasks t')"
  "unassignTask a k t now = Inr (t', f) \<Longrightarrow> tasks_next now (teTasks t) (teTasks t')"
  "claimTask a k t now = Inr (t', f) \<Longrightarrow> tasks_next now (teTasks t) (teTasks t')"
  "releaseTask a k r t now = Inr (t', f) \<Longrightarrow> tasks_next now (teTasks t) (teTasks t')"
  "startTaskAttempt a k ak ck t now = Inr (t', f) \<Longrightarrow> tasks_next now (teTasks t) (teTasks t')"
  by (auto simp: assignTask_def unassignTask_def claimTask_def releaseTask_def
      startTaskAttempt_def bindE_Inr split: option.splits intro!: setTask_next task_next.intros)

lemma retryTask_next:
  "retryTask a k r t now = Inr (t', f) \<Longrightarrow> tasks_next now (teTasks t) (teTasks t')"
proof -
  assume run: "retryTask a k r t now = Inr (t', f)"
  then obtain x i where x: "findTask t k = Some (x, i)" and s: "tStatus x = TaskStatusFailed"
      "len (tAttempts x) < tAttemptLimit x"
    and t': "t' = setTask t i (x\<lparr>tStatus := dependencyStatus x t, tReason := [], tUpdatedAt := now\<rparr>)"
    by (auto simp: retryTask_def split: option.splits)
  have "dependencyStatus x t \<in> {TaskStatusPending, TaskStatusReady}" by (simp add: dependencyStatus_def)
  from setTask_next [OF x task_next.retry [OF s this]] show ?thesis by (simp add: t')
qed

lemma cancelTask_next:
  assumes inv: "team_inv E t" and run: "cancelTask a k r t now = Inr (t', f)"
  shows "tasks_next now (teTasks t) (teTasks t')"
proof -
  obtain x i x' where x: "findTask t k = Some (x, i)"
    and s: "tStatus x \<noteq> TaskStatusCompleted" "tStatus x \<noteq> TaskStatusCancelled"
    and x': "if tStatus x = TaskStatusRunning then cancelLastAttempt r now x = Inr x' else x' = x"
    and t': "t' = setTask t i (cancelledTask r now x')"
    using run by (auto simp: cancelTask_def bindE_Inr split: option.splits if_splits)
  have "task_next now x (cancelledTask r now x')"
    using s x' task_known [OF inv found_task(1) [OF inv x]]
    by (cases "tStatus x") (auto intro: task_next.intros)
  with setTask_next [OF x] show ?thesis by (simp add: t')
qed

theorem command_tasks:
  assumes inv: "team_inv E t" and c: "commandCheck cmd = None"
    and run: "commandMutation E cmd a load t now = Inr (t', f)"
  shows "tasks_next now (teTasks t) (teTasks t')"
proof (cases cmd)
  case (FinishTaskAttempt r)
  with assms finish_next team_invD(3) [OF inv] show ?thesis by auto
next
  case (FailTeam r)
  with run terminate_next [OF inv] show ?thesis by (auto simp: failTeam_def terminalizeTeam_def bindE_Inr)
next
  case (CancelTeam r)
  with run terminate_next [OF inv] show ?thesis by (auto simp: cancelTeam_def terminalizeTeam_def bindE_Inr)
qed (use run createTask_next operator_next retryTask_next cancelTask_next [OF inv] in
  \<open>auto simp: registerMember_def disableMember_def enableMember_def sendMessage_def Let_def
    acknowledgeMessages_def completeTeam_def bindE_Inr setMember_def split: option.splits if_splits\<close>)

subsection \<open>What a task keeps\<close>

text \<open>Its definition, every attempt it has finished, and all of itself once it is completed.\<close>

definition task_fixed :: "task \<Rightarrow> task \<Rightarrow> bool" where
  "task_fixed x y \<longleftrightarrow> tID y = tID x \<and> tTitle y = tTitle x \<and> tDescription y = tDescription x \<and>
     tPayload y = tPayload x \<and> tDeps y = tDeps x \<and> tAttemptLimit y = tAttemptLimit x \<and>
     tCreatedAt y = tCreatedAt x"

definition attempt_kept :: "attempt \<Rightarrow> attempt \<Rightarrow> bool" where
  "attempt_kept a b \<longleftrightarrow> atID b = atID a \<and> atNumber b = atNumber a \<and> atMember b = atMember a \<and>
     atContinuation b = atContinuation a \<and> atStartedAt b = atStartedAt a \<and>
     (atStatus a \<noteq> AttemptStatusRunning \<longrightarrow> b = a)"

text \<open>A list that only grows at its end, every element related to the one it was.\<close>

definition grows :: "('a \<Rightarrow> 'a \<Rightarrow> bool) \<Rightarrow> 'a list \<Rightarrow> 'a list \<Rightarrow> bool" where
  "grows R xs ys \<longleftrightarrow> length xs \<le> length ys \<and> (\<forall>i < length xs. R (xs ! i) (ys ! i))"

lemma grows_refl: "(\<And>x. R x x) \<Longrightarrow> grows R xs xs"
  by (simp add: grows_def)

lemma grows_trans:
  assumes "\<And>x y z. R x y \<Longrightarrow> R y z \<Longrightarrow> R x z" "grows R xs ys" "grows R ys zs"
  shows "grows R xs zs"
proof -
  have "i < length ys" if "i < length xs" for i
    using that assms(2) by (simp add: grows_def)
  with assms show ?thesis unfolding grows_def by (meson order_trans)
qed

lemma grows_append: "(\<And>x. R x x) \<Longrightarrow> grows R xs (xs @ ys)"
  by (simp add: grows_def nth_append)

lemma grows_all2: "list_all2 R xs ys \<Longrightarrow> grows R xs (ys @ zs)"
  by (simp add: grows_def list_all2_conv_all_nth nth_append)

lemma grows_update: "(\<And>x. R x x) \<Longrightarrow> i < length xs \<Longrightarrow> R (xs ! i) y \<Longrightarrow> grows R xs (xs[i := y])"
  by (simp add: grows_def nth_list_update)

lemma grows_last:
  assumes "xs \<noteq> []" "\<And>x. R x x" "R (last xs) y"
  shows "grows R xs (butlast xs @ [y])"
  using assms by (cases xs rule: rev_cases) (auto simp: grows_def nth_append less_Suc_eq)

definition task_kept :: "task \<Rightarrow> task \<Rightarrow> bool" where
  "task_kept x y \<longleftrightarrow> task_fixed x y \<and> grows attempt_kept (tAttempts x) (tAttempts y) \<and>
     (tStatus x \<in> {TaskStatusCompleted, TaskStatusCancelled} \<longrightarrow> y = x)"

lemma attempt_kept_refl [simp]: "attempt_kept a a"
  by (simp add: attempt_kept_def)

lemma attempt_kept_trans: "attempt_kept a b \<Longrightarrow> attempt_kept b c \<Longrightarrow> attempt_kept a c"
  by (auto simp: attempt_kept_def)

lemma task_kept_refl [simp]: "task_kept x x"
  by (simp add: task_kept_def task_fixed_def grows_refl)

lemma task_kept_trans: "task_kept x y \<Longrightarrow> task_kept y z \<Longrightarrow> task_kept x z"
  by (auto simp: task_kept_def task_fixed_def intro: grows_trans [OF attempt_kept_trans])

lemma cancelLast_kept:
  assumes "lastIs x AttemptStatusRunning" "cancelLastAttempt r now x = Inr x'"
  shows "task_fixed x x' \<and> grows attempt_kept (tAttempts x) (tAttempts x') \<and> tStatus x' = tStatus x"
  using assms
  by (auto simp: cancelLastAttempt_def task_fixed_def lastIs_iff cancelAttempt_def attempt_kept_def
      intro!: grows_last split: if_splits)

theorem task_next_kept:
  assumes "task_next now x y"
  shows "task_kept x y"
  using assms
proof cases
  case (finish r)
  then have "grows attempt_kept (tAttempts x) (tAttempts y)"
    by (auto simp: finishedTask_def lastIs_iff finishedAttempt_def attempt_kept_def intro!: grows_last)
  with finish show ?thesis by (auto simp: task_kept_def task_fixed_def finishedTask_def)
next
  case (abort r x')
  with cancelLast_kept [OF abort(3,4)] show ?thesis
    by (auto simp: task_kept_def task_fixed_def cancelledTask_def)
qed (auto simp: task_kept_def task_fixed_def cancelledTask_def grows_refl grows_append)

lemma tasks_next_grows: "tasks_next now xs zs \<Longrightarrow> grows task_kept xs zs"
  unfolding tasks_next_def by (auto intro!: grows_all2 elim: list.rel_mono_strong task_next_kept)


subsection \<open>Members and the Team\<close>

definition member_kept :: "member \<Rightarrow> member \<Rightarrow> bool" where
  "member_kept m n \<longleftrightarrow> mID n = mID m \<and> mName n = mName m \<and> mRole n = mRole m \<and>
     mCapability n = mCapability m \<and> mRegisteredAt n = mRegisteredAt m \<and>
     mDelivered m \<le> mDelivered n \<and> mAcknowledged m \<le> mAcknowledged n"

definition team_kept :: "team \<Rightarrow> team \<Rightarrow> bool" where
  "team_kept t u \<longleftrightarrow> teID u = teID t \<and> teLead u = teLead t \<and> teLimits u = teLimits t \<and>
     teObjective u = teObjective t \<and> teCreatedAt u = teCreatedAt t \<and> teUpdatedAt t \<le> teUpdatedAt u \<and>
     teNextSeq t \<le> teNextSeq u \<and> grows member_kept (teMembers t) (teMembers u) \<and>
     grows task_kept (teTasks t) (teTasks u)"

lemma member_kept_refl [simp]: "member_kept m m"
  by (simp add: member_kept_def)

lemma member_kept_trans: "member_kept l m \<Longrightarrow> member_kept m n \<Longrightarrow> member_kept l n"
  by (auto simp: member_kept_def)

lemma team_kept_refl [simp]: "team_kept t t"
  by (simp add: team_kept_def grows_refl)

lemma team_kept_trans:
  assumes "team_kept t u" "team_kept u v"
  shows "team_kept t v"
proof -
  have "teUpdatedAt t \<le> teUpdatedAt v" "teNextSeq t \<le> teNextSeq v"
    using assms unfolding team_kept_def by (meson order_trans)+
  with assms show ?thesis
    by (auto simp: team_kept_def intro: grows_trans [OF member_kept_trans] grows_trans [OF task_kept_trans])
qed

lemma setMember_grows:
  "findMember t k = Some (m, i) \<Longrightarrow> member_kept m n \<Longrightarrow>
     grows member_kept (teMembers t) ((teMembers t)[i := n])"
  using findMemberD [of t k m i] by (auto intro!: grows_update)

lemma box_bound:
  assumes "team_inv E t" "findMember t k = Some (m, i)"
  shows "mDelivered m \<le> teNextSeq t" "mAcknowledged m \<le> mDelivered m"
  using team_invD(6) [OF assms(1)] findMemberD [OF assms(2)] by (auto simp: mailbox_ok_def)

lemma send_grows:
  assumes inv: "team_inv E t" and run: "sendMessage load a r t now = Inr (t', f)"
  shows "teNextSeq t \<le> teNextSeq t'" "grows member_kept (teMembers t) (teMembers t')"
proof -
  obtain m i where m: "findMember t (srRecipientID r) = Some (m, i)"
    and lt: "teNextSeq t - 1 < word_of_int (MaxMessages (teLimits t))"
    and t': "t' = setMember (t\<lparr>teNextSeq := teNextSeq t + 1\<rparr>) i (m\<lparr>mDelivered := teNextSeq t\<rparr>)"
    using run by (auto simp: sendMessage_def requireActive_def bindE_Inr newMessage_def
        split: option.splits)
  have lim: "limits_ok (teLimits t)" using team_invD(1) [OF inv] by (simp add: header_ok_def)
  have nz: "teNextSeq t \<noteq> 0" using team_invD(6) [OF inv] by (simp add: mailbox_ok_def)
  from seq_step(3) [OF max_messages_word [OF lim] nz lt] show "teNextSeq t \<le> teNextSeq t'"
    by (simp add: t' setMember_def)
  show "grows member_kept (teMembers t) (teMembers t')"
    using setMember_grows [OF m] box_bound [OF inv m] by (simp add: t' setMember_def member_kept_def)
qed

lemma disable_grows:
  assumes "disableMember a k r t now = Inr (t', f)"
  shows "grows member_kept (teMembers t) (teMembers t')" "teNextSeq t' = teNextSeq t"
proof -
  obtain m i where "findMember t k = Some (m, i)"
      "t' = setMember t i (m\<lparr>mStatus := MemberStatusDisabled, mDisabledAt := now\<rparr>)"
    using assms by (auto simp: disableMember_def split: option.splits)
  with setMember_grows [OF this(1)] show "grows member_kept (teMembers t) (teMembers t')"
    and "teNextSeq t' = teNextSeq t" by (simp_all add: setMember_def member_kept_def)
qed

lemma enable_grows:
  assumes "enableMember a k t now = Inr (t', f)"
  shows "grows member_kept (teMembers t) (teMembers t')" "teNextSeq t' = teNextSeq t"
proof -
  obtain m i where "findMember t k = Some (m, i)"
      "t' = setMember t i (m\<lparr>mStatus := MemberStatusActive, mDisabledAt := zero_time\<rparr>)"
    using assms by (auto simp: enableMember_def split: option.splits)
  with setMember_grows [OF this(1)] show "grows member_kept (teMembers t) (teMembers t')"
    and "teNextSeq t' = teNextSeq t" by (simp_all add: setMember_def member_kept_def)
qed

lemma acknowledge_grows:
  assumes "acknowledgeMessages a n t now = Inr (t', f)"
  shows "grows member_kept (teMembers t) (teMembers t')" "teNextSeq t' = teNextSeq t"
  using acknowledgeMessages_members [OF assms] setMember_grows
  by (force simp: acknowledges_def member_kept_def)+

lemma register_grows:
  assumes "registerMember E a s t now = Inr (t', f)"
  shows "grows member_kept (teMembers t) (teMembers t')" "teNextSeq t' = teNextSeq t"
  using registerMember_members [OF assms] by (auto simp: adds_member_def grows_append)

lemma command_grows:
  assumes inv: "team_inv E t" and run: "commandMutation E cmd a load t now = Inr (t', f)"
  shows "teNextSeq t \<le> teNextSeq t' \<and> grows member_kept (teMembers t) (teMembers t')"
proof (cases "teMembers t' = teMembers t \<and> teNextSeq t' = teNextSeq t")
  case True
  then show ?thesis by (simp add: grows_refl)
next
  case False
  with run task_commands_members [OF run] send_grows [OF inv] disable_grows enable_grows
    acknowledge_grows register_grows show ?thesis
    by (cases cmd) (auto simp: keeps_members_def)
qed

theorem team_step_kept:
  assumes step: "team_step E p rc" and inv: "team_inv E (rcTeam p)"
  shows "team_kept (rcTeam p) (rcTeam rc)" "teStatus (rcTeam p) = StatusActive"
    "teRevision (rcTeam rc) = teRevision (rcTeam p) + 1"
proof -
  obtain cmd load now t' f k cm h ev where rc: "rc = nextRecord k cm h (rcTeam p) now t' f ev"
    and c: "commandCheck cmd = None" and l: "later (rcTeam p) now"
    and mu: "commandMutation E cmd (cmdActor cm) load (rcTeam p) now = Inr (t', f)"
    using step by (elim team_stepE) blast
  note fr = command_frame [OF mu]
  show "teStatus (rcTeam p) = StatusActive" by (rule command_active [OF mu])
  have rc: "rcTeam rc = stamp now t'" by (simp add: rc nextTeam_stamp [OF fr])
  with fr show "teRevision (rcTeam rc) = teRevision (rcTeam p) + 1" by (simp add: frame_def)
  from fr rc l command_grows [OF inv mu] tasks_next_grows [OF command_tasks [OF inv c mu]]
  show "team_kept (rcTeam p) (rcTeam rc)" by (simp add: team_kept_def frame_def later_def)
qed

subsection \<open>What a history can never do\<close>

theorem history_kept:
  assumes hist: "hist_ok E k rs" and ij: "i \<le> j" "j < length rs"
  shows "team_kept (rcTeam (rs ! i)) (rcTeam (rs ! j))"
  using ij
proof (induction j)
  case (Suc j)
  show ?case
  proof (cases "i = Suc j")
    case False
    have "team_step E (rs ! j) (rs ! Suc j)" "team_inv E (rcTeam (rs ! j))"
      using hist Suc.prems by (auto simp: hist_ok_def successively_conv_nth)
    from team_step_kept(1) [OF this] Suc False show ?thesis by (auto intro: team_kept_trans)
  qed simp
qed simp

theorem history_active:
  assumes hist: "hist_ok E k rs" and j: "Suc j < length rs"
  shows "teStatus (rcTeam (rs ! j)) = StatusActive"
proof -
  have "team_step E (rs ! j) (rs ! Suc j)" "team_inv E (rcTeam (rs ! j))"
    using hist j by (auto simp: hist_ok_def successively_conv_nth)
  from team_step_kept(2) [OF this] show ?thesis .
qed

end
