(* ===== verification/TeamScenario.thy ===== *)
theory TeamScenario
  imports TeamCreate TeamMachine
begin

section \<open>Team: a concrete run\<close>

text \<open>
  A small Team on the in-memory store, with a clock, hash and event IDs one can compute with: a
  lead and a worker, two tasks of which the second depends on the first, one attempt, one message.
  The witnesses of the properties evaluate the model on it.
\<close>

definition demoEnv :: team_env where
  "demoEnv = \<lparr>equalFold = (=),
     hashCommand = (\<lambda>op k a sem. Inr (replicate 64 (if op = ''claim_task'' \<or> sem = SemAck 2 then CHR ''1'' else CHR ''0''))),
     encodedLen = (\<lambda>rc. Inr 100)\<rparr>"

definition coordinator :: actor where
  "coordinator = \<lparr>acKind = ActorKindCoordinator, acID = ''host''\<rparr>"

definition asMember :: "string \<Rightarrow> actor" where
  "asMember k = \<lparr>acKind = ActorKindMember, acID = k\<rparr>"

definition demoSpec :: "string \<Rightarrow> member_spec" where
  "demoSpec k = \<lparr>msID = k, msName = k, msRole = ''dev'', msCapability = ''basic''\<rparr>"

definition demoLimits :: team_limits where
  "demoLimits = \<lparr>MaxMembers = 0, MaxTasks = 0, MaxDependenciesPerTask = 0,
     MaxMessages = 0, MaxActiveTasks = 0, MaxAttemptsPerTask = 0, MaxArtifactsPerResult = 0, MaxJSONBytes = 0\<rparr>"

definition demoRequest :: create_request where
  "demoRequest = \<lparr>crID = ''team'', crObjective = ''ship'', crLead = demoSpec ''lead'', crLimits = demoLimits\<rparr>"

text \<open>A call without interference, at second \<open>n\<close>, whose event ID is \<open>ev\<close>.\<close>

definition quiet :: "int \<Rightarrow> string \<Rightarrow> 'st call_env" where
  "quiet n ev = \<lparr>ceCtx = (\<lambda>_. None), ceNow = GTime n 0, ceIDs = (\<lambda>_. Inr ev), ceItf = (\<lambda>_ s. s)\<rparr>"

definition meta :: "string \<Rightarrow> actor \<Rightarrow> u64 \<Rightarrow> command_metadata" where
  "meta c a n = \<lparr>cmdID = c, cmdExpected = n, cmdActor = a\<rparr>"

definition emptyStore :: mem_store where
  "emptyStore = \<lparr>msLimits = default_store_limits, msRecords = [], msCommands = [], msEvents = [], msBytes = []\<rparr>"

definition createdStore :: mem_store where
  "createdStore = snd (engineCreate demoEnv (memory_ops demoEnv) (quiet 10 ''e1'')
     (meta ''c1'' coordinator 0) demoRequest emptyStore)"

definition taskRequest :: "string \<Rightarrow> string list \<Rightarrow> create_task_request" where
  "taskRequest k ds = \<lparr>ctTaskID = k, ctTitle = ''work'', ctDescription = [], ctPayload = None,
     ctDeps = ds, ctAttemptLimit = 2\<rparr>"

definition demoMessage :: send_request where
  "demoMessage = \<lparr>srMessageID = ''m1'', srRecipientID = ''w'', srTaskID = [], srReplyToID = [],
     srBody = Some ''1''\<rparr>"

definition demoFinish :: finish_request where
  "demoFinish = \<lparr>frTaskID = ''a'', frAttemptID = ''a1'', frContinuationID = ''k1'',
     frOutcome = AttemptOutcomeCompleted, frResult = Some ''2'', frArtifacts = [], frReason = []\<rparr>"

text \<open>Command \<open>i\<close> runs at revision \<open>i\<close> and time \<open>10 * (i + 1)\<close>.\<close>

definition demoCommands :: "(string \<times> string \<times> actor \<times> team_command) list" where
  "demoCommands =
    [(''c2'', ''e2'', coordinator, RegisterMember (demoSpec ''w'')),
     (''c3'', ''e3'', asMember ''lead'', CreateTask (taskRequest ''a'' [])),
     (''c4'', ''e4'', asMember ''lead'', CreateTask (taskRequest ''b'' [''a''])),
     (''c5'', ''e5'', asMember ''w'', ClaimTask ''a''),
     (''c6'', ''e6'', coordinator, StartTaskAttempt ''a'' ''a1'' ''k1''),
     (''c7'', ''e7'', asMember ''lead'', SendMessage demoMessage),
     (''c8'', ''e8'', asMember ''w'', AcknowledgeMessages 1),
     (''c9'', ''e9'', coordinator, FinishTaskAttempt demoFinish)]"

fun demoRun :: "int \<Rightarrow> u64 \<Rightarrow> (string \<times> string \<times> actor \<times> team_command) list \<Rightarrow> mem_store \<Rightarrow> mem_store" where
  "demoRun n v [] s = s"
| "demoRun n v ((c, ev, a, cmd) # cs) s = demoRun (n + 10) (v + 1) cs
     (snd (execute demoEnv (memory_ops demoEnv) (quiet n ev) ''team'' (meta c a v) cmd s))"

definition demoStore :: "nat \<Rightarrow> mem_store" where
  "demoStore i = demoRun 20 1 (take i demoCommands) createdStore"


text \<open>The same run on the snapshots alone.\<close>

fun demoSteps :: "int \<Rightarrow> (string \<times> string \<times> actor \<times> team_command) list \<Rightarrow> team \<Rightarrow> team_error + team" where
  "demoSteps n [] t = Inr t"
| "demoSteps n ((c, ev, a, cmd) # cs) t =
     guardE (first_err [fail_if (teRevision t + 1 = 0) ErrInvalid, commandCheck cmd])
       (bindE (commandMutation demoEnv cmd a (\<lambda>k. Inl ErrNotFound) t (GTime n 0))
         (\<lambda>(t', f). demoSteps (n + 10) cs (stamp (GTime n 0) t')))"

definition demoStart :: team where
  "demoStart = newTeam demoRequest default_limits (GTime 10 0)"

definition demoTeam :: "nat \<Rightarrow> team" where
  "demoTeam i = (case demoSteps 20 (take i demoCommands) demoStart of Inr t \<Rightarrow> t | Inl e \<Rightarrow> demoStart)"

subsection \<open>The invariants hold along the run\<close>

lemma demoSteps_inv:
  "demoSteps n cs t = Inr t' \<Longrightarrow> team_inv demoEnv t \<Longrightarrow> 0 < n \<Longrightarrow> instant (teUpdatedAt t) \<le> n \<Longrightarrow>
     team_inv demoEnv t'"
proof (induction n cs t rule: demoSteps.induct)
  case (2 n c ev a cmd cs t)
  then obtain u f where u: "commandMutation demoEnv cmd a (\<lambda>k. Inl ErrNotFound) t (GTime n 0) = Inr (u, f)"
    and c: "commandCheck cmd = None" and r: "teRevision t + 1 \<noteq> 0"
    and rest: "demoSteps (n + 10) cs (stamp (GTime n 0) u) = Inr t'" by (auto simp: bindE_Inr)
  have "later t (GTime n 0)" using 2 r by (simp add: later_def isZero_def less_eq_gtime_def)
  from command_inv [OF 2(3) c u this] 2 rest u c r show ?case by simp
qed simp

lemma demoStart_inv: "team_inv demoEnv demoStart"
  unfolding demoStart_def
  by (rule newTeam_inv [of "meta ''c1'' coordinator 0"]) code_simp+

lemma demoTeam_inv: "team_inv demoEnv (demoTeam i)"
proof -
  have "instant (teUpdatedAt demoStart) \<le> 20" by (simp add: demoStart_def newTeam_def)
  with demoSteps_inv [OF _ demoStart_inv] demoStart_inv show ?thesis
    by (auto simp: demoTeam_def split: sum.splits)
qed

lemma quiet_simps [simp]:
  "ceCtx (quiet n ev) p = None" "ceNow (quiet n ev) = GTime n 0" "ceIDs (quiet n ev) t = Inr ev"
  "ceItf (quiet n ev) p s = s"
  by (simp_all add: quiet_def)

lemma quiet_ok: "rely E sinv log (quiet n ev)" "ctx_ok (quiet n ev)"
  by (simp_all add: rely_def ctx_ok_def extends_refl)

lemma emptyStore_ok: "system_ok demoEnv (mem_inv demoEnv) memLog emptyStore"
  by (simp add: system_ok_def emptyStore_def mem_inv_empty memLog_def hist_ok_Nil)

lemma createdStore_ok: "system_ok demoEnv (mem_inv demoEnv) memLog createdStore"
  using mem.create_spec [OF emptyStore_ok quiet_ok, of 10 "''e1''" "meta ''c1'' coordinator 0" demoRequest]
  unfolding createdStore_def by (metis extends_sys prod.collapse)

lemma demoRun_ok:
  "system_ok demoEnv (mem_inv demoEnv) memLog s \<Longrightarrow> system_ok demoEnv (mem_inv demoEnv) memLog (demoRun n v cs s)"
proof (induction n v cs s rule: demoRun.induct)
  case (2 n v c ev a cmd cs s)
  from mem.execute_spec [OF 2(2) quiet_ok, of n ev "''team''" "meta c a v" cmd]
  have "system_ok demoEnv (mem_inv demoEnv) memLog
      (snd (execute demoEnv (memory_ops demoEnv) (quiet n ev) ''team'' (meta c a v) cmd s))"
    by (metis extends_sys prod.collapse)
  from 2(1) [OF this] show ?case by simp
qed simp

lemma demoStore_ok: "system_ok demoEnv (mem_inv demoEnv) memLog (demoStore i)"
  unfolding demoStore_def by (rule demoRun_ok [OF createdStore_ok])

text \<open>One more command on a snapshot of the run.\<close>

definition demoOut :: "team \<Rightarrow> actor \<Rightarrow> team_command \<Rightarrow> int \<Rightarrow> team_error + (team \<times> transition_fields)" where
  "demoOut t a cmd n = commandMutation demoEnv cmd a (\<lambda>k. Inl ErrNotFound) t (GTime n 0)"

lemma demoOut_ok:
  "\<not> isl (demoOut t a cmd n) \<Longrightarrow> commandMutation demoEnv cmd a (\<lambda>k. Inl ErrNotFound) t (GTime n 0) =
     Inr (fst (projr (demoOut t a cmd n)), snd (projr (demoOut t a cmd n)))"
  by (cases "demoOut t a cmd n") (auto simp: demoOut_def)

lemma demo_hash_ok: "hash_ok demoEnv"
proof -
  have "hex_ok (replicate 64 (CHR ''0''))" "hex_ok (replicate 64 (CHR ''1''))" by code_simp+
  then show ?thesis by (auto simp: hash_ok_def demoEnv_def len_def)
qed

subsection \<open>The first two records of the log\<close>

definition demoHash :: string where
  "demoHash = replicate 64 (CHR ''0'')"

definition demoRec1 :: team_record where
  "demoRec1 = createRecord (meta ''c1'' coordinator 0) demoRequest default_limits demoHash (GTime 10 0) ''e1''"

abbreviation demoJoin :: team_command where
  "demoJoin \<equiv> RegisterMember (demoSpec ''w'')"

definition demoRec2 :: team_record where
  "demoRec2 = nextRecord ''team'' (meta ''c2'' coordinator 1) demoHash demoStart (GTime 20 0)
     (fst (projr (demoOut demoStart coordinator demoJoin 20)))
     (snd (projr (demoOut demoStart coordinator demoJoin 20))) ''e2''"

lemma emptyStore_log: "memLog emptyStore k = []"
  by (simp add: memLog_def emptyStore_def)

lemma emptyStore_room: "mem_room demoEnv emptyStore k rc"
  by (simp add: mem_room_def demoEnv_def emptyStore_log)
    (simp add: emptyStore_def default_store_limits_def len_def)

lemma demo_create_check:
  "createCheck (meta ''c1'' coordinator 0) demoRequest = Inr default_limits"
  "commandHash demoEnv ''create_team'' (crID demoRequest) (cmdActor (meta ''c1'' coordinator 0))
     (SemCreate (crObjective demoRequest) (crLead demoRequest) default_limits) = Inr demoHash"
  "crID demoRequest = ''team''"
  by code_simp+

lemma created_logs: "memLog createdStore = (\<lambda>k. if k = ''team'' then [demoRec1] else [])"
proof -
  have "safeID ''e1''" by code_simp
  with mem.create_commits [OF emptyStore_ok _ _ demo_hash_ok demo_create_check(1) emptyStore_log
      demo_create_check(2), of "quiet 10 ''e1''" "''e1''"] emptyStore_room
  have "\<exists>s'. engineCreate demoEnv (memory_ops demoEnv) (quiet 10 ''e1'') (meta ''c1'' coordinator 0)
      demoRequest emptyStore = (Inr (newTeam demoRequest default_limits (GTime 10 0)), s') \<and>
      memLog s' = (memLog emptyStore)(''team'' := [demoRec1])"
    by (simp add: isZero_def utc_def demoRec1_def demo_create_check(3))
  then show ?thesis by (auto simp: createdStore_def emptyStore_log)
qed

lemma created_log: "memLog createdStore ''team'' = [demoRec1]"
  by (simp add: created_logs)

lemma demoRec1_simps [simp]: "rcTeam demoRec1 = demoStart" "recCommand demoRec1 = ''c1''"
  "recEvent demoRec1 = ''e1''" "rcMessage demoRec1 = None"
  by (simp_all add: demoRec1_def demoStart_def meta_def)

lemma demoRec2_simps [simp]: "recCommand demoRec2 = ''c2''" "recEvent demoRec2 = ''e2''"
  "trCommandHash (rcTransition demoRec2) = demoHash"
  by (simp_all add: demoRec2_def meta_def)

lemma createdStore_room: "mem_room demoEnv createdStore ''team'' rc"
proof -
  have "bytesOf createdStore ''team'' + 101 \<le> MaxFileBytes (msLimits createdStore) \<and>
    100 \<le> MaxRecordBytes (msLimits createdStore) \<and> 1 < MaxTransitions (msLimits createdStore)" by code_simp
  then show ?thesis by (simp add: mem_room_def demoEnv_def created_log)
qed

lemma demoJoin_checks:
  "commandHash demoEnv (commandOperation demoJoin) ''team'' (cmdActor (meta ''c2'' coordinator 1))
     (commandSemantic demoJoin) = Inr demoHash"
  "commandCheck demoJoin = None" "validateSafeID ''team'' = None"
  "n \<noteq> 0 \<Longrightarrow> validateCommand (meta ''c2'' coordinator n) False = None"
  "later demoStart (GTime 20 0)" "safeID ''e2''"
proof -
  show "later demoStart (GTime 20 0)" unfolding later_def less_eq_gtime_def by code_simp
  have "validateActor coordinator = None" "validateSafeID ''c2'' = None" by code_simp+
  then show "n \<noteq> 0 \<Longrightarrow> validateCommand (meta ''c2'' coordinator n) False = None"
    by (simp add: validateCommand_def meta_def)
qed code_simp+

lemma demoJoin_run:
  "commandMutation demoEnv demoJoin coordinator (\<lambda>mk. of_opt ErrNotFound (recordMessage (memLog createdStore ''team'') mk))
     demoStart (GTime 20 0) =
   Inr (fst (projr (demoOut demoStart coordinator demoJoin 20)), snd (projr (demoOut demoStart coordinator demoJoin 20)))"
proof -
  have "\<not> isl (demoOut demoStart coordinator demoJoin 20)" by code_simp
  from demoOut_ok [OF this] show ?thesis by simp
qed

definition joinedStore :: mem_store where
  "joinedStore = demoStore 1"

lemma joinedStore_ok: "system_ok demoEnv (mem_inv demoEnv) memLog joinedStore"
  unfolding joinedStore_def by (rule demoStore_ok)

lemma joinedStore_step: "joinedStore = snd (execute demoEnv (memory_ops demoEnv) (quiet 20 ''e2'') ''team''
    (meta ''c2'' coordinator 1) demoJoin createdStore)"
  by (simp add: joinedStore_def demoStore_def demoCommands_def)

lemma joined_logs: "memLog joinedStore = (\<lambda>k. if k = ''team'' then [demoRec1, demoRec2] else [])"
proof -
  from mem.execute_commits [OF createdStore_ok _ _ demo_hash_ok demoJoin_checks(2,3) demoJoin_checks(4) [of 1]
      demoJoin_checks(1), of "quiet 20 ''e2''" demoRec1 _ _ "''e2''" demoRec2]
  have "\<exists>s'. execute demoEnv (memory_ops demoEnv) (quiet 20 ''e2'') ''team'' (meta ''c2'' coordinator 1)
      demoJoin createdStore = (Inr demoRec2, s') \<and>
      memLog s' = (memLog createdStore)(''team'' := memLog createdStore ''team'' @ [demoRec2])"
    using demoJoin_run demoJoin_checks(5,6) createdStore_room
    by (simp add: created_log demoRec2_def meta_def utc_def demoStart_def newTeam_def)
  then show ?thesis by (auto simp: joinedStore_step created_logs)
qed

lemma joined_log: "memLog joinedStore ''team'' = [demoRec1, demoRec2]"
  by (simp add: joined_logs)

end
