(* ===== verification/TeamPages.thy ===== *)
theory TeamPages
  imports TeamCreate TeamMachine
begin

section \<open>Team: what the paged reads return\<close>

text \<open>
  \<open>Changes\<close>, \<open>Mailbox\<close> and \<open>List\<close> scan, skip and stop at a limit; the engine then checks the page it
  was given. Each page is a slice of the log, of a mailbox, of the sorted IDs, and on a store the
  engines have written the checks never refuse it.
\<close>

subsection \<open>Messages of a history\<close>

lemma history_message_step:
  assumes "historyStep E k (stateAfter rs) rc = Inr h" "rcMessage rc = Some g"
  shows "gSequence g = hsNext (stateAfter rs)"
    "gReplyTo g = [] \<or> gReplyTo g \<in> gID ` set (messagesOf rs)"
    "hsNext h = hsNext (stateAfter rs) + 1"
  using assms map_of_messages [of "messagesOf rs" "gReplyTo g"]
  by (auto simp: historyStep_def bindE_Inr historyMessage_def Let_def stateAfter_def split: option.splits)

lemma history_next:
  assumes "historyStep E k (stateAfter rs) rc = Inr h"
  shows "hsNext h = (if rcMessage rc = None then hsNext (stateAfter rs) else hsNext (stateAfter rs) + 1)"
  using assms
  by (auto simp: historyStep_def bindE_Inr historyMessage_def Let_def split: option.splits)

text \<open>A message's sequence number is its position among the messages of the log.\<close>

lemma message_positions:
  assumes "history_valid E k rs"
  shows "hsNext (stateAfter rs) = of_nat (Suc (length (messagesOf rs))) \<and>
    (\<forall>i < length (messagesOf rs). gSequence (messagesOf rs ! i) = of_nat (Suc i))"
  using assms
proof (induction rs rule: rev_induct)
  case Nil
  then show ?case by (simp add: stateAfter_def)
next
  case (snoc rc rs)
  then have v: "history_valid E k rs" "historyStep E k (stateAfter rs) rc = Inr (stateAfter (rs @ [rc]))"
    by (simp_all add: history_valid_append)
  note IH = snoc.IH [OF v(1)]
  show ?case
  proof (cases "rcMessage rc")
    case None
    with IH history_next [OF v(2)] show ?thesis by simp
  next
    case (Some g)
    with IH history_next [OF v(2)] history_message_step(1) [OF v(2) Some] show ?thesis
      by (simp add: nth_append less_Suc_eq)
  qed
qed

lemma message_record:
  "g \<in> set (messagesOf rs) \<Longrightarrow> \<exists>rc \<in> set rs. rcMessage rc = Some g"
  by (auto simp: messagesOf_def List.map_filter_def)

lemma record_member:
  assumes "validateTeam E t = None"
  shows "m \<in> set (teMembers t) \<Longrightarrow> safeID (mID m)" "x \<in> set (teTasks t) \<Longrightarrow> safeID (tID x)"
    "MaxJSONBytes (teLimits t) \<le> MaxJSONBytes hard_limits" "teNextSeq t \<noteq> 0"
    "MaxMessages (teLimits t) \<le> 100000" "teNextSeq t \<le> word_of_int (MaxMessages (teLimits t)) + 1"
proof -
  have ok: "team_ok E t" using assms by (simp add: validateTeam_iff)
  show "m \<in> set (teMembers t) \<Longrightarrow> safeID (mID m)"
    using ok by (auto simp: team_ok_def members_ok_def member_ok_def validateMemberSpec_def
        memberSpecOf_def validateSafeID_def)
  show "x \<in> set (teTasks t) \<Longrightarrow> safeID (tID x)"
    using ok by (auto simp: team_ok_def tasks_ok_def task_ok_def task_base_def)
  show "MaxJSONBytes (teLimits t) \<le> MaxJSONBytes hard_limits" "teNextSeq t \<noteq> 0"
    "MaxMessages (teLimits t) \<le> 100000" "teNextSeq t \<le> word_of_int (MaxMessages (teLimits t)) + 1"
    using ok by (auto simp: team_ok_def header_ok_def limits_ok_def hard_limits_def mailbox_ok_def)
qed

lemma json_weaken: "validateJSON b n = None \<Longrightarrow> n \<le> m \<Longrightarrow> validateJSON b m = None"
  by (auto simp: validateJSON_def split: option.splits if_splits)

lemma record_message:
  assumes rec: "validateRecord E rc = None" and g: "rcMessage rc = Some g"
  shows "safeID (gID g)" "safeID (gSender g)" "safeID (gRecipient g)" "gTask g = [] \<or> safeID (gTask g)"
    "gBody g \<noteq> None" "validateJSON (gBody g) (MaxJSONBytes hard_limits) = None"
    "\<not> isZero (gSentAt g)" "zone (gSentAt g) = 0" "trCause (rcTransition rc) = CauseMessageSent"
    "gID g = trMessageID (rcTransition rc)" "gSentAt g = trAt (rcTransition rc)"
    "acKind (trActor (rcTransition rc)) = ActorKindMember" "acID (trActor (rcTransition rc)) = gSender g"
    "trMemberID (rcTransition rc) = gSender g" "gRecipient g \<in> mID ` set (teMembers (rcTeam rc))"
    "mDelivered (memberOrZero (rcTeam rc) (gRecipient g)) = gSequence g"
proof -
  let ?t = "rcTeam rc" and ?r = "rcTransition rc"
  note d = validateRecordD [OF rec]
  note m = record_member [OF d(1)]
  have c: "trCause ?r = CauseMessageSent" using d(3) g
    by (auto simp: validateRecordMessage_def Let_def split: if_splits)
  have v: "safeID (gID g)" "gID g = trMessageID ?r" "gSender g = trMemberID ?r" "gSentAt g = trAt ?r"
    "gTask g = [] \<or> findTask ?t (gTask g) \<noteq> None" "gBody g \<noteq> None"
    "validateJSON (gBody g) (MaxJSONBytes (teLimits ?t)) = None"
    "mDelivered (memberOrZero ?t (gRecipient g)) = gSequence g"
    using d(3) g c by (auto simp: validateRecordMessage_def Let_def validateSafeID_def)
  have mem: "gSender g \<in> mID ` set (teMembers ?t)" "gRecipient g \<in> mID ` set (teMembers ?t)"
    using d(3) g c by (simp_all add: validateRecordMessage_def Let_def) metis
  have img: "k \<in> mID ` set (teMembers ?t) \<Longrightarrow> safeID k" for k using m(1) by auto
  have "validateTransitionAuthority ?t ?r = None"
    using rec by (simp add: validateRecord_def Let_def validateTransitionReferences_def)
  with c have a: "acKind (trActor ?r) = ActorKindMember" "acID (trActor ?r) = trMemberID ?r"
    by (auto simp: validateTransitionAuthority_def Let_def)
  have z: "\<not> isZero (trAt ?r)" "zone (trAt ?r) = 0"
    using d(2) by (simp_all add: validateStoredTransition_def)
  show "safeID (gID g)" "gBody g \<noteq> None" "trCause ?r = CauseMessageSent" "gID g = trMessageID ?r"
    "gSentAt g = trAt ?r" "acKind (trActor ?r) = ActorKindMember" "trMemberID ?r = gSender g"
    "gRecipient g \<in> mID ` set (teMembers ?t)" "mDelivered (memberOrZero ?t (gRecipient g)) = gSequence g"
    using v(1,6,2,4,8) c a(1) v(3) mem(2) by (simp_all only: simp_thms)
  show "safeID (gSender g)" "safeID (gRecipient g)" using img mem by blast+
  show "\<not> isZero (gSentAt g)" "zone (gSentAt g) = 0" using z v(4) by simp_all
  show "acID (trActor ?r) = gSender g" using a(2) by (simp only: v(3))
  show "gTask g = [] \<or> safeID (gTask g)" using v(5) m(2) findTaskD by fastforce
  show "validateJSON (gBody g) (MaxJSONBytes hard_limits) = None" by (rule json_weaken [OF v(7) m(3)])
qed

lemma stored_messages:
  assumes "history_valid E k rs" "g \<in> set (messagesOf rs)"
  shows "validateStoredMessage g = None"
  using assms
proof (induction rs arbitrary: g rule: rev_induct)
  case (snoc rc rs)
  then have v: "history_valid E k rs" "historyStep E k (stateAfter rs) rc = Inr (stateAfter (rs @ [rc]))"
    by (simp_all add: history_valid_append)
  show ?case
  proof (cases "g \<in> set (messagesOf rs)")
    case True
    with snoc.IH v show ?thesis by blast
  next
    case False
    with snoc.prems have g: "rcMessage rc = Some g" by (auto split: option.splits)
    have rec: "validateRecord E rc = None"
      using v(2) by (auto simp: historyStep_def Let_def validateLoadedRecord_def split: option.splits)
    note r = record_message [OF rec g]
    have "hsNext (stateAfter rs) \<noteq> 0"
    proof (cases rs rule: rev_cases)
      case Nil
      then show ?thesis by (simp add: stateAfter_def)
    next
      case (snoc rs' rc')
      with v(1) have "historyStep E k (stateAfter rs') rc' = Inr (stateAfter rs)"
        by (simp add: history_valid_append)
      then have "validateRecord E rc' = None"
        by (auto simp: historyStep_def Let_def validateLoadedRecord_def split: option.splits)
      from record_member(4) [OF validateRecordD(1) [OF this]] snoc show ?thesis
        by (simp add: stateAfter_def)
    qed
    moreover have "gReplyTo g = [] \<or> safeID (gReplyTo g)"
    proof -
      { fix p assume p: "p \<in> set (messagesOf rs)"
        then have "safeID (gID p)" using snoc.IH [OF v(1) p]
          by (simp add: validateStoredMessage_def validateSafeID_def) }
      with history_message_step(2) [OF v(2) g] show ?thesis by auto
    qed
    ultimately show ?thesis using r history_message_step(1) [OF v(2) g]
      by (auto simp: validateStoredMessage_def validateSafeID_def optionalID_def)
  qed
qed simp

subsection \<open>Changes\<close>

definition changeOf :: "team_record \<Rightarrow> change" where
  "changeOf rc = \<lparr>chTransition = rcTransition rc, chMessage = rcMessage rc\<rparr>"

lemma changeOf_simps [simp]: "chTransition (changeOf rc) = rcTransition rc" "chMessage (changeOf rc) = rcMessage rc"
  by (simp_all add: changeOf_def)

lemma len_snoc: "len (xs @ [x]) = len xs + 1"
  by (simp add: len_def)

lemma changesPage_skip:
  "\<forall>rc \<in> set xs. recRevision rc \<le> coAfter opt \<Longrightarrow>
     changesPage opt cs n (xs @ ys) = changesPage opt cs n ys"
  by (induction xs) auto

lemma changesPage_take:
  "\<forall>rc \<in> set ys. coAfter opt < recRevision rc \<Longrightarrow> len cs \<le> coLimit opt \<Longrightarrow>
     changesPage opt cs n ys = (let zs = take (nat (coLimit opt - len cs)) ys in
       \<lparr>cpChanges = cs @ map changeOf zs, cpNext = (if zs = [] then n else recRevision (last zs))\<rparr>)"
proof (induction ys arbitrary: cs n)
  case (Cons rc ys)
  show ?case
  proof (cases "len cs = coLimit opt")
    case True
    moreover have "\<not> recRevision rc \<le> coAfter opt" using Cons.prems by auto
    ultimately show ?thesis by simp
  next
    case False
    with Cons.prems have l: "len cs + 1 \<le> coLimit opt" "\<not> recRevision rc \<le> coAfter opt" by auto
    then have n: "nat (coLimit opt - len cs) = Suc (nat (coLimit opt - (len cs + 1)))" by simp
    have "changesPage opt cs n (rc # ys) = changesPage opt (cs @ [changeOf rc]) (recRevision rc) ys"
      using l False by (simp add: changeOf_def)
    also have "\<dots> = (let zs = take (nat (coLimit opt - (len cs + 1))) ys in
        \<lparr>cpChanges = (cs @ [changeOf rc]) @ map changeOf zs,
         cpNext = (if zs = [] then recRevision rc else recRevision (last zs))\<rparr>)"
      using Cons.IH [of "cs @ [changeOf rc]" "recRevision rc"] Cons.prems l
      by (simp only: len_snoc) simp
    finally show ?thesis using l(1) by (auto simp: n Let_def add.commute)
  qed
qed simp

lemma log_revision_le:
  assumes "log_ok E k rs" "i < length rs"
  shows "recRevision (rs ! i) \<le> a \<longleftrightarrow> Suc i \<le> unat a"
proof -
  have "Suc i < 2 ^ 64" using assms(2) log_ok_length(1) [OF assms(1)] by linarith
  then have "unat (of_nat (Suc i) :: u64) = Suc i mod 2 ^ 64" "Suc i mod 2 ^ 64 = Suc i"
    by (simp_all only: unat_of_nat) simp_all
  then have "unat (of_nat (Suc i) :: u64) = Suc i" by simp
  then show ?thesis using log_ok_nth(3) [OF assms] by (simp add: word_le_nat_alt)
qed

lemma changesPage_log:
  assumes ok: "log_ok E k rs" and l: "0 \<le> coLimit opt"
  shows "changesPage opt [] (coAfter opt) rs =
    (let zs = take (nat (coLimit opt)) (drop (unat (coAfter opt)) rs) in
      \<lparr>cpChanges = map changeOf zs, cpNext = (if zs = [] then coAfter opt else recRevision (last zs))\<rparr>)"
proof -
  let ?a = "unat (coAfter opt)"
  have pre: "\<forall>rc \<in> set (take ?a rs). recRevision rc \<le> coAfter opt"
    using log_revision_le [OF ok] by (auto simp: in_set_conv_nth)
  have post: "\<forall>rc \<in> set (drop ?a rs). coAfter opt < recRevision rc"
  proof
    fix rc assume "rc \<in> set (drop ?a rs)"
    then obtain i where i: "i < length (drop ?a rs)" "drop ?a rs ! i = rc" by (auto simp: in_set_conv_nth)
    then have "?a + i < length rs" by simp
    from log_revision_le [OF ok this, of "coAfter opt"] i show "coAfter opt < recRevision rc"
      by (simp add: not_le [symmetric])
  qed
  have "changesPage opt [] (coAfter opt) rs = changesPage opt [] (coAfter opt) (drop ?a rs)"
    using changesPage_skip [OF pre, of "[]" "coAfter opt" "drop ?a rs"] by simp
  with changesPage_take [OF post, of "[]"] l show ?thesis by (simp add: len_def Let_def)
qed

lemma changeOf_valid:
  assumes hist: "hist_ok E k rs" and ok: "log_ok E k rs" and rc: "rc \<in> set rs"
  shows "changeMessage k (changeOf rc) = None" "validateStoredTransition (rcTransition rc) = None"
    "trTeamID (rcTransition rc) = k" "trRevision (rcTransition rc) = recRevision rc"
proof -
  have rec: "validateRecord E rc = None" and k: "teID (rcTeam rc) = k" using log_ok_mem [OF ok rc] .
  show "validateStoredTransition (rcTransition rc) = None" by (rule validateRecordD(2) [OF rec])
  show "trTeamID (rcTransition rc) = k" "trRevision (rcTransition rc) = recRevision rc"
    using rec k by (simp_all add: validateRecord_def Let_def)
  show "changeMessage k (changeOf rc) = None"
  proof (cases "rcMessage rc")
    case None
    with validateRecordD(3) [OF rec] have "trCause (rcTransition rc) \<noteq> CauseMessageSent"
      by (auto simp: validateRecordMessage_def Let_def split: if_splits)
    with None show ?thesis by (simp add: changeMessage_def changeOf_def)
  next
    case (Some g)
    note r = record_message [OF rec Some]
    have "g \<in> set (messagesOf rs)" using rc Some by (force simp: messagesOf_def List.map_filter_def)
    then have "validateStoredMessage g = None" using stored_messages hist by (auto simp: hist_ok_def)
    with r(9-14) Some show ?thesis
      by (simp add: changeMessage_def changeOf_def Let_def sameInstant_def)
  qed
qed

lemma changesLoop_log:
  assumes hist: "hist_ok E k rs" and ok: "log_ok E k rs"
  shows "j \<le> length rs \<Longrightarrow> changesLoop k (of_nat j) (map changeOf (take m (drop j rs))) = None"
proof (induction m arbitrary: j)
  case (Suc m)
  show ?case
  proof (cases "j < length rs")
    case True
    let ?rc = "rs ! j"
    have d: "drop j rs = ?rc # drop (Suc j) rs" using True by (rule Cons_nth_drop_Suc [symmetric])
    have "?rc \<in> set rs" using True by simp
    note v = changeOf_valid [OF hist ok this]
    have "changesLoop k (of_nat (Suc j)) (map changeOf (take m (drop (Suc j) rs))) = None"
      using Suc.IH [of "Suc j"] True by simp
    with v log_ok_nth(3) [OF ok True] show ?thesis
      by (simp add: d Let_def add.commute)
  qed simp
qed simp

theorem changes_page:
  assumes sys: "system_ok E (mem_inv E) memLog s" and ne: "memLog s k \<noteq> []"
    and k: "validateSafeID k = None" and opt: "validateChangeOptions opt = Inr opt'"
    and a: "unat (coAfter opt) \<le> length (memLog s k)"
    and zs: "zs = take (nat (coLimit opt')) (drop (unat (coAfter opt)) (memLog s k))"
  shows "engineChanges (memory_ops E) None k opt s =
    Inr \<lparr>cpChanges = map changeOf zs, cpNext = coAfter opt + of_nat (length zs)\<rparr>"
proof -
  let ?rs = "memLog s k" and ?a = "unat (coAfter opt)"
  have hist: "hist_ok E k ?rs" and inv: "mem_inv E s" using sys by (auto simp: system_ok_def)
  have ok: "log_ok E k ?rs" by (rule mem.log_inv [OF inv ne])
  have o: "coAfter opt' = coAfter opt" "1 \<le> coLimit opt'" "validateChangeOptions opt' = Inr opt'"
    using opt by (auto simp: validateChangeOptions_def Let_def split: if_splits)
  obtain rs where rs: "map_of (msRecords s) k = Some rs" "rs = ?rs"
    using ne by (auto simp: memLog_def split: option.splits)
  let ?p = "\<lparr>cpChanges = map changeOf zs, cpNext = if zs = [] then coAfter opt' else recRevision (last zs)\<rparr>"
  have read: "opChanges (memory_ops E) None k opt' s = Inr ?p"
    using rs o changesPage_log [OF ok, of opt'] by (simp add: memory_ops_def memChanges_def Let_def zs)
  have loop: "changesLoop k (coAfter opt') (cpChanges ?p) = None"
    using changesLoop_log [OF hist ok a] o by (simp add: zs)
  have nx: "cpNext ?p = coAfter opt + of_nat (length zs)"
  proof (cases "zs = []")
    case False
    let ?i = "?a + (length zs - 1)"
    have i: "?i < length ?rs" using False a by (auto simp: zs min_def)
    have "last zs = zs ! (length zs - 1)" using False by (rule last_conv_nth)
    also have "\<dots> = ?rs ! ?i" using False a by (subst zs) (subst nth_take, auto simp: zs)
    finally have "recRevision (last zs) = of_nat (Suc ?i)" using log_ok_nth(3) [OF ok i] by simp
    moreover have "Suc ?i = ?a + length zs" using False by (cases zs) auto
    ultimately show ?thesis using False by simp
  qed (simp add: o)
  have tr: "trRevision (chTransition (last (map changeOf zs))) = recRevision (last zs)" if "zs \<noteq> []"
  proof -
    have "last zs \<in> set ?rs" using that by (metis in_set_dropD in_set_takeD last_in_set zs)
    from changeOf_valid(4) [OF hist ok this] that show ?thesis by (simp add: last_map)
  qed
  have "len zs \<le> coLimit opt'" using o by (simp add: zs len_def)
  with loop tr o have "validateChangePage k ?p opt' = None"
    by (auto simp: validateChangePage_def len_def)
  with read opt k nx show ?thesis by (simp add: engineChanges_def)
qed

subsection \<open>Mailboxes\<close>

definition inbox :: "string \<Rightarrow> u64 \<Rightarrow> team_record list \<Rightarrow> message list" where
  "inbox mk n rs = filter (\<lambda>g. gRecipient g = mk \<and> n < gSequence g) (messagesOf rs)"

lemma inbox_Cons: "inbox mk n (rc # rs) = (case rcMessage rc of
    Some g \<Rightarrow> if gRecipient g = mk \<and> n < gSequence g then g # inbox mk n rs else inbox mk n rs
  | None \<Rightarrow> inbox mk n rs)"
  by (simp add: inbox_def split: option.split)

lemma mailboxPage_take:
  "len gs \<le> moLimit opt \<Longrightarrow> mailboxPage mk opt gs n rs =
     (let zs = take (nat (moLimit opt - len gs)) (inbox mk (moAfter opt) rs) in
       \<lparr>mpMessages = gs @ zs, mpNext = (if zs = [] then n else gSequence (last zs))\<rparr>)"
proof (induction rs arbitrary: gs n)
  case (Cons rc rs)
  show ?case
  proof (cases "rcMessage rc")
    case None
    with Cons show ?thesis by (simp add: inbox_Cons)
  next
    case (Some g)
    show ?thesis
    proof (cases "gRecipient g = mk \<and> moAfter opt < gSequence g")
      case False
      then have "gRecipient g \<noteq> mk \<or> gSequence g \<le> moAfter opt" by (auto simp: not_less)
      with False Some Cons show ?thesis by (auto simp: inbox_Cons)
    next
      case in_box: True
      then have nle: "\<not> gSequence g \<le> moAfter opt" by (simp add: not_le)
      show ?thesis
      proof (cases "len gs = moLimit opt")
        case True
        with in_box nle Some show ?thesis by simp
      next
        case False
        with Cons.prems have l: "len gs + 1 \<le> moLimit opt" by simp
        then have n: "nat (moLimit opt - len gs) = Suc (nat (moLimit opt - (len gs + 1)))" by simp
        have "mailboxPage mk opt gs n (rc # rs) = mailboxPage mk opt (gs @ [g]) (gSequence g) rs"
          using in_box nle Some False by simp
        also have "\<dots> = (let zs = take (nat (moLimit opt - (len gs + 1))) (inbox mk (moAfter opt) rs) in
            \<lparr>mpMessages = (gs @ [g]) @ zs, mpNext = (if zs = [] then gSequence g else gSequence (last zs))\<rparr>)"
          using Cons.IH [of "gs @ [g]" "gSequence g"] l by (simp only: len_snoc)
        finally show ?thesis using in_box Some l by (auto simp: n Let_def inbox_Cons add.commute)
      qed
    qed
  qed
qed (simp add: inbox_def)

lemma messages_length: "length (messagesOf rs) \<le> length rs"
  by (induction rs) (auto split: option.split)

lemma messages_sorted:
  assumes hist: "history_valid E k rs" and ok: "log_ok E k rs"
  shows "sorted_wrt (\<lambda>g h. gSequence g < gSequence h) (messagesOf rs)"
proof -
  have n: "length (messagesOf rs) < 2 ^ 64"
    using messages_length [of rs] log_ok_length(1) [OF ok] by linarith
  have "unat (gSequence (messagesOf rs ! i)) = Suc i" if "i < length (messagesOf rs)" for i
    using message_positions [OF hist] that n unat_position [of "Suc i"] by simp
  then show ?thesis by (simp add: sorted_wrt_iff_nth_less word_less_nat_alt)
qed

text \<open>A message's recipient still has it delivered in every later snapshot.\<close>

lemma message_delivered:
  assumes hist: "hist_ok E k rs" and ok: "log_ok E k rs" and g: "g \<in> set (messagesOf rs)"
    and m: "findMember (rcTeam (last rs)) (gRecipient g) = Some (m, j)"
  shows "gSequence g \<le> mDelivered m"
proof -
  obtain i where i: "i < length rs" and gi: "rcMessage (rs ! i) = Some g"
    using message_record [OF g] by (auto simp: in_set_conv_nth)
  let ?t = "rcTeam (rs ! i)" and ?u = "rcTeam (last rs)"
  have "rs ! i \<in> set rs" "last rs \<in> set rs" using i by (auto intro: last_in_set)
  with hist have inv: "team_inv E ?t" "team_inv E ?u" by (simp_all add: hist_ok_def)
  have rec: "validateRecord E (rs ! i) = None" by (rule log_ok_nth(1) [OF ok i])
  note r = record_message(15,16) [OF rec gi]
  obtain b where b: "b \<in> set (teMembers ?t)" "mID b = gRecipient g" using r(1) by auto
  then have db: "mDelivered b = gSequence g"
    using r(2) memberOrZero_mem [OF team_invD(2) [OF inv(1)] b(1)] by simp
  obtain n where n: "n < length (teMembers ?t)" "teMembers ?t ! n = b" using b(1) by (auto simp: in_set_conv_nth)
  have "rs \<noteq> []" using i by auto
  then have "team_kept ?t ?u" using history_kept [OF hist, of i "length rs - 1"] i by (simp add: last_conv_nth)
  then have kept: "n < length (teMembers ?u)" "member_kept b (teMembers ?u ! n)"
    using n by (auto simp: team_kept_def grows_def)
  note fm = findMemberD [OF m]
  have "mID (teMembers ?u ! n) = mID (teMembers ?u ! j)" using kept(2) b fm by (simp add: member_kept_def)
  then have "n = j" using team_invD(2) [OF inv(2)] kept(1) fm
    using nth_eq_iff_index_eq [of "map mID (teMembers ?u)" n j] by simp
  with kept fm db show ?thesis by (simp add: member_kept_def)
qed

lemma messagesLoop_sorted:
  assumes "sorted_wrt (\<lambda>g h. gSequence g < gSequence h) gs"
    and "\<forall>g \<in> set gs. gRecipient g = mk \<and> n < gSequence g \<and> gSequence g \<le> d \<and> validateStoredMessage g = None"
  shows "messagesLoop tid mk d n gs = None"
  using assms by (induction gs arbitrary: n) (auto simp: not_le not_less)

theorem mailbox_page:
  assumes sys: "system_ok E (mem_inv E) memLog s" and ne: "memLog s k \<noteq> []"
    and q: "\<And>p s. ceItf ce p s = s" "\<And>p. ceCtx ce p = None"
    and k: "validateSafeID k = None" "validateSafeID mk = None"
    and opt: "validateMailboxOptions opt = Inr opt'"
    and m: "findMember (rcTeam (last (memLog s k))) mk = Some (m, j)"
    and zs: "zs = take (nat (moLimit opt')) (inbox mk (moAfter opt) (memLog s k))"
  shows "engineMailbox E (memory_ops E) ce k mk opt s =
    Inr \<lparr>mpMessages = zs, mpNext = if zs = [] then moAfter opt else gSequence (last zs)\<rparr>"
proof -
  let ?rs = "memLog s k"
  let ?t = "rcTeam (last ?rs)"
  let ?p = "\<lparr>mpMessages = zs, mpNext = if zs = [] then moAfter opt else gSequence (last zs)\<rparr>"
  have hist: "hist_ok E k ?rs" and inv: "mem_inv E s" using sys by (auto simp: system_ok_def)
  have ok: "log_ok E k ?rs" by (rule mem.log_inv [OF inv ne])
  have o: "moAfter opt' = moAfter opt" "1 \<le> moLimit opt'" "validateMailboxOptions opt' = Inr opt'"
    using opt by (auto simp: validateMailboxOptions_def Let_def split: if_splits)
  obtain rs where rs: "map_of (msRecords s) k = Some rs" "rs = ?rs"
    using ne by (auto simp: memLog_def split: option.splits)
  have read: "opMailbox (memory_ops E) None k mk opt' s = Inr ?p"
    using rs o mailboxPage_take [of "[]" opt' mk "moAfter opt'" ?rs]
    by (simp add: memory_ops_def memMailbox_def Let_def zs len_def)
  have get: "engineGet E (memory_ops E) None k s = Inr ?t"
    using mem.loadRecord_Inr [OF inv, of None k "last ?rs"] ne k by (simp add: engineGet_def)
  have idx: "teMembers ?t ! memberIndex ?t mk = m" using m findMemberD [OF m] by (simp add: memberIndex_def)
  have each: "gRecipient g = mk \<and> moAfter opt < gSequence g \<and> gSequence g \<le> mDelivered m \<and>
      validateStoredMessage g = None" if g: "g \<in> set zs" for g
  proof -
    have "g \<in> set (inbox mk (moAfter opt) ?rs)" using g by (auto simp: zs dest: in_set_takeD)
    then have b: "g \<in> set (messagesOf ?rs)" "gRecipient g = mk" "moAfter opt < gSequence g"
      by (auto simp: inbox_def)
    with message_delivered [OF hist ok b(1)] stored_messages m hist show ?thesis
      by (auto simp: hist_ok_def)
  qed
  have "sorted_wrt (\<lambda>g h. gSequence g < gSequence h) (inbox mk (moAfter opt) ?rs)"
    using messages_sorted [OF _ ok] hist by (auto simp: inbox_def hist_ok_def intro: sorted_wrt_filter)
  then have "sorted_wrt (\<lambda>g h. gSequence g < gSequence h) zs" unfolding zs by (rule sorted_wrt_take)
  with each have "messagesLoop (teID ?t) mk (mDelivered m) (moAfter opt) zs = None"
    by (intro messagesLoop_sorted) auto
  moreover have "len zs \<le> moLimit opt'" using o by (simp add: zs len_def)
  ultimately have "validateMessagePage ?t mk ?p opt' = None"
    using o idx by (simp add: validateMessagePage_def Let_def)
  with read get opt k m q show ?thesis by (simp add: engineMailbox_def Let_def)
qed

subsection \<open>Listing\<close>

definition teamIDs :: "mem_store \<Rightarrow> string set" where
  "teamIDs s = {k. memLog s k \<noteq> []}"

lemma mem_inv_nonempty: "mem_inv E s \<Longrightarrow> map_of (msRecords s) k = Some rs \<Longrightarrow> rs \<noteq> []"
  by (auto dest!: mem_inv_Some simp: log_ok_def)

lemma teamIDs_keys: "mem_inv E s \<Longrightarrow> teamIDs s = set (map fst (msRecords s))"
  using mem_inv_nonempty [of E s]
  by (auto simp: teamIDs_def memLog_def map_of_eq_None_iff split: option.splits)

lemma pageTeams_eq:
  "mem_inv E s \<Longrightarrow> set ks \<subseteq> teamIDs s \<Longrightarrow>
     pageTeams s ks = Inr (map (\<lambda>k. rcTeam (last (memLog s k))) ks)"
  by (induction ks) (auto simp: lastRecord_def teamIDs_def memLog_def)

lemma listLoop_sorted:
  assumes "sorted_wrt (<) (prev # map teID ts)" "\<forall>t \<in> set ts. validateTeam E t = None"
  shows "listLoop E prev ts = None"
  using assms by (induction ts arbitrary: prev) (auto simp: not_le)

theorem list_page:
  assumes sys: "system_ok E (mem_inv E) memLog s"
    and opt: "validateListOptions opt 1000 = None" "loLimit opt \<le> MaxListPage (msLimits s)"
    and ids: "sorted_wrt (<) ids" "set ids = {k \<in> teamIDs s. loCursor opt < k}"
    and zs: "zs = take (nat (loLimit opt)) ids"
  shows "engineList E (memory_ops E) None opt s =
    Inr \<lparr>lpTeams = map (\<lambda>k. rcTeam (last (memLog s k))) zs,
         lpNext = if length zs < length ids then last zs else []\<rparr>"
proof -
  have hist: "hist_ok E k (memLog s k)" and inv: "mem_inv E s" for k using sys by (auto simp: system_ok_def)
  let ?is = "sort (filter (\<lambda>k. k > loCursor opt) (remdups (map fst (msRecords s))))"
  have "sorted ids" "distinct ids" using ids(1) by (simp_all add: strict_sorted_iff)
  then have sorted_ids: "?is = ids"
    using ids(2) teamIDs_keys [OF inv] by (intro sorted_distinct_set_unique) auto
  let ?T = "\<lambda>k. rcTeam (last (memLog s k))"
  have l: "1 \<le> loLimit opt" using opt(1) by (auto simp: validateListOptions_def split: if_splits)
  have sub: "set zs \<subseteq> teamIDs s" using ids(2) by (auto simp: zs dest: in_set_takeD)
  have n: "length zs = min (length ids) (nat (loLimit opt))" by (simp add: zs)
  have nx: "(if length ids > min (length ids) (nat (loLimit opt))
      then ids ! (min (length ids) (nat (loLimit opt)) - 1) else []) =
      (if length zs < length ids then last zs else [])"
  proof (cases "length zs < length ids")
    case True
    then have "nat (loLimit opt) < length ids" using n by auto
    moreover then have "last zs = zs ! (nat (loLimit opt) - 1)" using l n by (subst last_conv_nth) (auto simp: zs)
    ultimately show ?thesis using True l by (simp add: zs)
  qed (simp add: n)
  have tk: "take (min (length ids) (nat (loLimit opt))) ids = zs" by (simp add: zs min_def)
  let ?p = "\<lparr>lpTeams = map ?T zs, lpNext = if length zs < length ids then last zs else []\<rparr>"
  have "validateListOptions opt (MaxListPage (msLimits s)) = None"
    using opt l by (auto simp: validateListOptions_def split: if_splits)
  then have read: "opList (memory_ops E) None opt s = Inr ?p"
    unfolding memory_ops_def store_ops.simps memList_def guardE_None sorted_ids Let_def
    by (simp only: guardE_None tk pageTeams_eq [OF inv sub] bindE_simps nx)
  have t: "validateTeam E (?T k) = None \<and> teID (?T k) = k" if "k \<in> teamIDs s" for k
  proof -
    have "memLog s k \<noteq> []" using that by (simp add: teamIDs_def)
    then have "log_ok E k (memLog s k)" "last (memLog s k) \<in> set (memLog s k)"
      using mem.log_inv [OF inv] by auto
    from log_ok_mem [OF this] show ?thesis using validateRecordD(1) by blast
  qed
  then have tid: "map teID (map ?T zs) = zs" using sub by (simp add: map_idI subset_iff)
  have "sorted_wrt (<) (loCursor opt # zs)"
    using ids by (auto simp: zs intro: sorted_wrt_take dest: in_set_takeD)
  with tid t sub have "listLoop E (loCursor opt) (map ?T zs) = None" by (intro listLoop_sorted) auto
  moreover have "len zs \<le> loLimit opt" using l by (simp add: zs len_def)
  moreover have "zs \<noteq> [] \<Longrightarrow> teID (last (map ?T zs)) = last zs" using tid by (metis last_map list.map_disc_iff)
  moreover have "length zs < length ids \<Longrightarrow> zs \<noteq> []" using l by (auto simp: zs)
  ultimately have "validateListPage E ?p opt = None" by (auto simp: validateListPage_def len_def)
  with read opt show ?thesis by (simp add: engineList_def)
qed

end
