(* ===== verification/TeamClaims.thy ===== *)
theory TeamClaims
  imports TeamScenario TeamPages
begin

section \<open>Team: the properties\<close>

text \<open>
  The properties of the Team aggregate, each with a witness on the concrete run of \<open>TeamScenario\<close>
  where it has hypotheses. The store properties are stated of the in-memory store; they are the
  facts of the locale \<open>team_store\<close> at its interpretation \<open>mem\<close>.
\<close>

abbreviation memory_system :: "team_env \<Rightarrow> mem_store \<Rightarrow> bool" where
  "memory_system E \<equiv> system_ok E (mem_inv E) memLog"

subsection \<open>Snapshots\<close>

text \<open>
  C1. Every command, applied at a time not before the last update to a snapshot that satisfies the
  aggregate's invariant, either fails or makes a snapshot that satisfies it and that \<open>validateTeam\<close>
  accepts.
\<close>

theorem command_preserves_team:
  assumes "team_inv E t" "commandCheck cmd = None"
    and "commandMutation E cmd a load t now = Inr (t', f)" "later t now"
  shows "team_inv E (stamp now t') \<and> validateTeam E (stamp now t') = None"
  using command_inv [OF assms] team_inv_ok validateTeam_iff by blast

theorem command_preserves_team_witness:
  "validateTeam demoEnv (stamp (GTime 100 0) (fst (projr
     (demoOut (demoTeam 7) coordinator (FinishTaskAttempt demoFinish) 100)))) = None"
proof -
  have "\<not> isl (demoOut (demoTeam 7) coordinator (FinishTaskAttempt demoFinish) 100)" by code_simp
  note run = demoOut_ok [OF this]
  have c: "commandCheck (FinishTaskAttempt demoFinish) = None" by code_simp
  have l: "later (demoTeam 7) (GTime 100 0)"
    unfolding later_def less_eq_gtime_def by code_simp
  from command_preserves_team [OF demoTeam_inv c run l] show ?thesis by simp
qed

text \<open>
  C2. The snapshot validator, with its maps, loops and early returns, accepts exactly the snapshots
  that satisfy the declarative invariant \<open>team_ok\<close>.
\<close>

theorem validateTeam_exact: "validateTeam E t = None \<longleftrightarrow> team_ok E t"
  by (rule validateTeam_iff)

text \<open>
  C3. The dependency check, a depth-first search with three marks, fails exactly when the task
  dependencies have a cycle.
\<close>

theorem dependency_graph_exact: "validateDependencyGraph ts = None \<longleftrightarrow> acyclic (depRel ts)"
  by (rule validateDependencyGraph_iff)

text \<open>
  C4. Every command moves every existing task by one step of the task state machine \<open>task_next\<close>,
  keeps their order, and adds at most one new, unclaimed task at the end.
\<close>

theorem command_refines_machine:
  assumes "team_inv E t" "commandCheck cmd = None"
    and "commandMutation E cmd a load t now = Inr (t', f)"
  shows "\<exists>ys new. teTasks t' = ys @ new \<and> list_all2 (task_next now) (teTasks t) ys \<and>
    (new = [] \<or> (\<exists>x. new = [x] \<and> fresh_task now x))"
  using command_tasks [OF assms] by (simp add: tasks_next_def)

theorem command_refines_machine_witness:
  "\<exists>ys new. teTasks (fst (projr (demoOut (demoTeam 7) coordinator (CancelTeam ''stop'') 100))) = ys @ new \<and>
     list_all2 (task_next (GTime 100 0)) (teTasks (demoTeam 7)) ys \<and>
     (new = [] \<or> (\<exists>x. new = [x] \<and> fresh_task (GTime 100 0) x))"
proof -
  have "\<not> isl (demoOut (demoTeam 7) coordinator (CancelTeam ''stop'') 100)" by code_simp
  note run = demoOut_ok [OF this]
  have "commandCheck (CancelTeam ''stop'') = None" by code_simp
  from command_refines_machine [OF demoTeam_inv this run] show ?thesis .
qed

text \<open>
  C5. The in-place promotion loop promotes exactly the pending tasks all of whose dependencies
  were completed before it, and changes nothing else.
\<close>

theorem promotion_exact:
  assumes "distinct (map tID (teTasks t))"
  shows "promoteReadyTasks t now = t\<lparr>teTasks := map (\<lambda>x.
    if tStatus x = TaskStatusPending \<and>
       (\<forall>d \<in> set (tDeps x). \<exists>y \<in> set (teTasks t). tID y = d \<and> tStatus y = TaskStatusCompleted)
    then x\<lparr>tStatus := TaskStatusReady, tUpdatedAt := now\<rparr> else x) (teTasks t)\<rparr>"
proof -
  have "set ds \<subseteq> completedIDs xs \<longleftrightarrow>
      (\<forall>d \<in> set ds. \<exists>y \<in> set xs. tID y = d \<and> tStatus y = TaskStatusCompleted)" for ds xs
    by (auto simp: completedIDs_def)
  then show ?thesis by (simp add: promoteReadyTasks_map [OF assms] promoted_def)
qed

theorem promotion_exact_witness:
  "map tStatus (teTasks (promoteReadyTasks (setTask (demoTeam 7) 0
     (finishedTask demoFinish (GTime 90 0) (hd (teTasks (demoTeam 7))))) (GTime 90 0))) =
     [TaskStatusCompleted, TaskStatusReady]"
proof -
  have d: "distinct (map tID (teTasks (setTask (demoTeam 7) 0
     (finishedTask demoFinish (GTime 90 0) (hd (teTasks (demoTeam 7)))))))" by code_simp
  show ?thesis unfolding promotion_exact [OF d] by code_simp
qed

text \<open>
  Resolved limits are positive and within the hard bounds, and resolving them again changes
  nothing; so a stored Team's limits are always the resolved ones.
\<close>

theorem limits_resolved:
  assumes "resolveLimits l = Inr r"
  shows "limits_ok r \<and> resolveLimits r = Inr r"
  using resolveLimits_ok [OF assms] resolveLimits_fixed by blast

theorem limits_resolved_witness: "limits_ok default_limits \<and> resolveLimits default_limits = Inr default_limits"
proof -
  have "resolveLimits demoLimits = Inr default_limits" by code_simp
  from limits_resolved [OF this] show ?thesis .
qed

subsection \<open>The engine over the in-memory store\<close>

text \<open>
  C7. Any number of engines share the store. Whatever a command does, and whatever the others do
  to the store between its calls so long as they only append valid records, the logs only grow,
  every log still passes the history validator, and a record returned as committed is in the log,
  under the command's ID and the hash of its request.
\<close>

theorem command_linearizable:
  assumes "memory_system E s" "rely E (mem_inv E) memLog ce" "ctx_ok ce"
    and "execute E (memory_ops E) ce k cm cmd s = (r, s')"
  shows "memory_system E s' \<and> (\<forall>j. \<exists>ext. memLog s' j = memLog s j @ ext) \<and>
    (\<forall>j. memLog s' j \<noteq> [] \<longrightarrow> validateLoadedHistory E j (memLog s' j) = None) \<and>
    (\<forall>rc. r = Inr rc \<longrightarrow> rc \<in> set (memLog s' k) \<and> recCommand rc = cmdID cm \<and>
      commandHash E (commandOperation cmd) k (cmdActor cm) (commandSemantic cmd) =
        Inr (trCommandHash (rcTransition rc)))"
  using mem.execute_spec [OF assms] hist_ok_validate
  by (auto simp: extends_def system_ok_def committed_def)

theorem command_linearizable_witness:
  "validateLoadedHistory demoEnv ''team'' (memLog joinedStore ''team'') = None \<and>
     length (memLog joinedStore ''team'') = 2"
proof -
  have run: "execute demoEnv (memory_ops demoEnv) (quiet 20 ''e2'') ''team'' (meta ''c2'' coordinator 1)
      (RegisterMember (demoSpec ''w'')) createdStore =
      (fst (execute demoEnv (memory_ops demoEnv) (quiet 20 ''e2'') ''team'' (meta ''c2'' coordinator 1)
        (RegisterMember (demoSpec ''w'')) createdStore), joinedStore)"
    by (simp add: joinedStore_step)
  have "memLog joinedStore ''team'' \<noteq> []" by (simp add: joined_log)
  then have "validateLoadedHistory demoEnv ''team'' (memLog joinedStore ''team'') = None"
    using command_linearizable [OF createdStore_ok quiet_ok run] by blast
  then show ?thesis by (simp add: joined_log)
qed

text \<open>
  C8. Commands are idempotent. A command whose ID the log already holds returns the record it
  made, if the request is the same, and the command conflict if it is not; it writes nothing,
  whatever revision it expects and whatever has happened since.
\<close>

theorem command_idempotent:
  assumes "memory_system E s" "\<And>p s. ceItf ce p s = s" "\<And>p. ceCtx ce p = None"
    and "commandCheck cmd = None" "validateSafeID k = None" "validateCommand cm False = None"
    and "commandHash E (commandOperation cmd) k (cmdActor cm) (commandSemantic cmd) = Inr h"
    and "rc \<in> set (memLog s k)" "recCommand rc = cmdID cm"
  shows "execute E (memory_ops E) ce k cm cmd s =
    (if trCommandHash (rcTransition rc) = h then Inr rc else Inl ErrCommandConflict, s)"
  using mem.execute_replays [OF assms(1-9)] .

theorem command_idempotent_witness:
  "\<exists>rc. execute demoEnv (memory_ops demoEnv) (quiet 90 ''e9'') ''team'' (meta ''c2'' coordinator 7)
     (RegisterMember (demoSpec ''w'')) joinedStore = (Inr rc, joinedStore)"
proof -
  have "execute demoEnv (memory_ops demoEnv) (quiet 90 ''e9'') ''team'' (meta ''c2'' coordinator 7)
      demoJoin joinedStore = (Inr demoRec2, joinedStore)"
    using command_idempotent [OF joinedStore_ok, of "quiet 90 ''e9''" demoJoin "''team''"
        "meta ''c2'' coordinator 7" demoHash demoRec2] demoJoin_checks
    by (simp add: joined_log) (simp add: meta_def)
  then show ?thesis by blast
qed

text \<open>
  C9. Without interference a command that returns an error has written nothing.
\<close>

theorem failed_command_writes_nothing:
  assumes "memory_system E s" "\<And>p s. ceItf ce p s = s"
    and "execute E (memory_ops E) ce k cm cmd s = (Inl e, s')"
  shows "s' = s"
  using mem.execute_fails [OF assms] .

theorem failed_command_writes_nothing_witness:
  "execute demoEnv (memory_ops demoEnv) (quiet 20 ''e2'') ''team'' (meta ''c2'' coordinator 5)
     (RegisterMember (demoSpec ''w'')) createdStore = (Inl (ConflictError 5 1), createdStore)"
proof -
  let ?x = "execute demoEnv (memory_ops demoEnv) (quiet 20 ''e2'') ''team'' (meta ''c2'' coordinator 5)
     (RegisterMember (demoSpec ''w'')) createdStore"
  have "fst ?x = Inl (ConflictError 5 1)" by code_simp
  then have run: "?x = (Inl (ConflictError 5 1), snd ?x)" by (metis prod.collapse)
  from failed_command_writes_nothing [OF createdStore_ok _ run] have "snd ?x = createdStore" by simp
  with run show ?thesis by metis
qed

text \<open>
  C10. A command that passes its own checks against the current snapshot, at the expected revision,
  is committed: the engine appends exactly the record \<open>nextRecord\<close> builds and returns it. The
  validators between the mutation and the log refuse no record the mutations make, provided the
  clock has not gone back, the event ID is new and the store has room.
\<close>

theorem valid_command_commits:
  assumes "memory_system E s" "\<And>p s. ceItf ce p s = s" "\<And>p. ceCtx ce p = None" "hash_ok E"
    and "commandCheck cmd = None" "validateSafeID k = None" "validateCommand cm False = None"
    and "commandHash E (commandOperation cmd) k (cmdActor cm) (commandSemantic cmd) = Inr h"
    and "memLog s k \<noteq> []" "cmdID cm \<notin> recCommand ` set (memLog s k)"
    and "cur = last (memLog s k)" "recRevision cur = cmdExpected cm"
    and "commandMutation E cmd (cmdActor cm) (\<lambda>mk. of_opt ErrNotFound (recordMessage (memLog s k) mk))
      (rcTeam cur) (utc (ceNow ce)) = Inr (t', f)"
    and "ceIDs ce (utc (ceNow ce)) = Inr ev" "safeID ev" "ev \<notin> recEvent ` set (memLog s k)"
    and "later (rcTeam cur) (ceNow ce)"
    and "nx = nextRecord k cm h (rcTeam cur) (utc (ceNow ce)) t' f ev" "mem_room E s k nx"
  shows "\<exists>s'. execute E (memory_ops E) ce k cm cmd s = (Inr nx, s') \<and>
    memLog s' = (memLog s)(k := memLog s k @ [nx])"
  using mem.execute_commits [OF assms] .

theorem valid_command_commits_witness:
  "\<exists>s'. execute demoEnv (memory_ops demoEnv) (quiet 20 ''e2'') ''team'' (meta ''c2'' coordinator 1)
     demoJoin createdStore = (Inr demoRec2, s') \<and>
     memLog s' = (memLog createdStore)(''team'' := [demoRec1, demoRec2])"
  using valid_command_commits [OF createdStore_ok _ _ demo_hash_ok demoJoin_checks(2,3)
      demoJoin_checks(4) [of 1] demoJoin_checks(1), of "quiet 20 ''e2''" demoRec1 _ _ "''e2''" demoRec2]
    demoJoin_run demoJoin_checks(5,6) createdStore_room
  by (simp add: created_log demoRec2_def meta_def utc_def demoStart_def newTeam_def)

text \<open>
  A valid request to create a Team under a free ID creates it: the log of the ID is the one
  create record, which the validators accept.
\<close>

theorem valid_create_commits:
  assumes "memory_system E s" "\<And>p s. ceItf ce p s = s" "\<And>p. ceCtx ce p = None" "hash_ok E"
    and "createCheck cm r = Inr L" "memLog s (crID r) = []"
    and "commandHash E ''create_team'' (crID r) (cmdActor cm)
      (SemCreate (crObjective r) (crLead r) L) = Inr h"
    and "\<not> isZero (ceNow ce)" "ceIDs ce (utc (ceNow ce)) = Inr ev" "safeID ev"
    and "rc = createRecord cm r L h (utc (ceNow ce)) ev" "mem_room E s (crID r) rc"
  shows "\<exists>s'. engineCreate E (memory_ops E) ce cm r s = (Inr (newTeam r L (utc (ceNow ce))), s') \<and>
    memLog s' = (memLog s)(crID r := [rc])"
  using mem.create_commits [OF assms] .

theorem valid_create_commits_witness:
  "\<exists>s'. engineCreate demoEnv (memory_ops demoEnv) (quiet 10 ''e1'') (meta ''c1'' coordinator 0)
     demoRequest emptyStore = (Inr demoStart, s') \<and> memLog s' = (memLog emptyStore)(''team'' := [demoRec1])"
proof -
  have "safeID ''e1''" by code_simp
  with valid_create_commits [OF emptyStore_ok _ _ demo_hash_ok demo_create_check(1) emptyStore_log
      demo_create_check(2), of "quiet 10 ''e1''" "''e1''"] emptyStore_room
  show ?thesis by (simp add: demoStart_def isZero_def utc_def demoRec1_def demo_create_check(3))
qed

subsection \<open>Histories\<close>

text \<open>
  C12. Along the log of any Team: its identity, lead, limits and objective never change; members and
  tasks are never removed or reordered; a member's identity, role and registration are fixed and its
  mailbox cursors only move forward; a task's definition is fixed, its attempts are only appended,
  a finished attempt is never changed, and a completed or cancelled task is never changed at all.
\<close>

theorem history_append_only:
  assumes "memory_system E s" "i \<le> j" "j < length (memLog s k)"
  shows "team_kept (rcTeam (memLog s k ! i)) (rcTeam (memLog s k ! j))"
proof -
  have "hist_ok E k (memLog s k)" using assms(1) by (simp add: system_ok_def)
  from history_kept [OF this assms(2,3)] show ?thesis .
qed

theorem history_append_only_witness:
  "team_kept (rcTeam (memLog joinedStore ''team'' ! 0)) (rcTeam (memLog joinedStore ''team'' ! 1))"
proof -
  have "1 < length (memLog joinedStore ''team'')" by (simp add: joined_log)
  from history_append_only [OF joinedStore_ok _ this] show ?thesis by simp
qed

text \<open>
  A terminal Team is final: only the last record of a log can hold a Team that is not active.
\<close>

theorem terminal_is_last:
  assumes "memory_system E s" "Suc j < length (memLog s k)"
  shows "teStatus (rcTeam (memLog s k ! j)) = StatusActive"
proof -
  have "hist_ok E k (memLog s k)" using assms(1) by (simp add: system_ok_def)
  from history_active [OF this assms(2)] show ?thesis .
qed

theorem terminal_is_last_witness: "teStatus (rcTeam (memLog joinedStore ''team'' ! 0)) = StatusActive"
proof -
  have "Suc 0 < length (memLog joinedStore ''team'')" by (simp add: joined_log)
  from terminal_is_last [OF joinedStore_ok this] show ?thesis .
qed

text \<open>
  The revision of a record is its position in the log; logs are shorter than 2 to the 64, so a
  revision never wraps around and tells the whole log before it.
\<close>

theorem revision_is_position:
  assumes "memory_system E s" "i < length (memLog s k)"
  shows "recRevision (memLog s k ! i) = of_nat (Suc i) \<and> length (memLog s k) < 2 ^ 64 \<and>
    unat (recRevision (memLog s k ! i)) = Suc i"
proof -
  have "mem_inv E s" "memLog s k \<noteq> []" using assms by (auto simp: system_ok_def)
  then have "log_ok E k (memLog s k)" by (rule mem.log_inv)
  note ok = log_ok_nth(3) [OF this assms(2)] log_ok_length(1) [OF this]
  then have lt: "Suc i < 2 ^ 64" using assms(2) by linarith
  have "unat (of_nat (Suc i) :: u64) = Suc i mod 2 ^ 64" by (simp only: unat_of_nat) simp
  with ok lt show ?thesis by simp
qed

theorem revision_is_position_witness: "unat (recRevision (memLog joinedStore ''team'' ! 1)) = 2"
proof -
  have "1 < length (memLog joinedStore ''team'')" by (simp add: joined_log)
  from revision_is_position [OF joinedStore_ok this] show ?thesis by simp
qed

subsection \<open>Paged reads\<close>

text \<open>
  \<open>Changes\<close> after revision \<open>a\<close> returns the next records of the log, at most as many as the limit,
  and the cursor to continue from; so reading page after page returns the whole log, each change
  once. The page check refuses no page of a store the engines have written.
\<close>

theorem changes_are_log_slice:
  assumes "memory_system E s" "memLog s k \<noteq> []" "validateSafeID k = None"
    and "validateChangeOptions opt = Inr opt'" "unat (coAfter opt) \<le> length (memLog s k)"
    and "zs = take (nat (coLimit opt')) (drop (unat (coAfter opt)) (memLog s k))"
  shows "engineChanges (memory_ops E) None k opt s =
    Inr \<lparr>cpChanges = map changeOf zs, cpNext = coAfter opt + of_nat (length zs)\<rparr>"
  using changes_page [OF assms] .

theorem changes_are_log_slice_witness:
  "engineChanges (memory_ops demoEnv) None ''team'' \<lparr>coAfter = 1, coLimit = 5\<rparr> joinedStore =
     Inr \<lparr>cpChanges = [changeOf demoRec2], cpNext = 2\<rparr>"
proof -
  let ?o = "\<lparr>coAfter = 1, coLimit = 5\<rparr>"
  have o: "validateChangeOptions ?o = Inr ?o" by code_simp
  have z: "[demoRec2] = take (nat (coLimit ?o)) (drop (unat (coAfter ?o)) (memLog joinedStore ''team''))"
    by (simp add: joined_log)
  have "memLog joinedStore ''team'' \<noteq> []" "unat (coAfter ?o) \<le> length (memLog joinedStore ''team'')"
    by (simp_all add: joined_log)
  from changes_are_log_slice [OF joinedStore_ok this(1) demoJoin_checks(3) o this(2) z] show ?thesis by simp
qed

text \<open>
  \<open>Mailbox\<close> returns the messages of one recipient after a sequence number, in order, at most as
  many as the limit; the check against the latest snapshot's delivery cursor refuses none of them.
\<close>

theorem mailbox_is_inbox_slice:
  assumes "memory_system E s" "memLog s k \<noteq> []" "\<And>p s. ceItf ce p s = s" "\<And>p. ceCtx ce p = None"
    and "validateSafeID k = None" "validateSafeID mk = None"
    and "validateMailboxOptions opt = Inr opt'"
    and "findMember (rcTeam (last (memLog s k))) mk = Some (m, j)"
    and "zs = take (nat (moLimit opt')) (inbox mk (moAfter opt) (memLog s k))"
  shows "engineMailbox E (memory_ops E) ce k mk opt s =
    Inr \<lparr>mpMessages = zs, mpNext = if zs = [] then moAfter opt else gSequence (last zs)\<rparr>"
  using mailbox_page [OF assms] .

theorem mailbox_is_inbox_slice_witness:
  "engineMailbox demoEnv (memory_ops demoEnv) (quiet 30 ''x'') ''team'' ''lead'' \<lparr>moAfter = 0, moLimit = 0\<rparr>
     createdStore = Inr \<lparr>mpMessages = [], mpNext = 0\<rparr>"
proof -
  have f: "findMember demoStart ''lead'' = Some (newMember (demoSpec ''lead'') (GTime 10 0), 0)" by code_simp
  have k: "validateSafeID ''team'' = None" "validateSafeID ''lead'' = None" by code_simp+
  from mailbox_is_inbox_slice [OF createdStore_ok, of "''team''" "quiet 30 ''x''" "''lead''"
      "\<lparr>moAfter = 0, moLimit = 0\<rparr>" "\<lparr>moAfter = 0, moLimit = 100\<rparr>" _ 0 "[]"] f k
  show ?thesis by (simp add: created_log validateMailboxOptions_def inbox_def)
qed

text \<open>
  \<open>List\<close> returns, for the sorted IDs after the cursor, the latest snapshots of the first
  \<open>limit\<close> of them, and a next cursor exactly when some are left.
\<close>

theorem list_is_sorted_page:
  assumes "memory_system E s" "validateListOptions opt 1000 = None" "loLimit opt \<le> MaxListPage (msLimits s)"
    and "sorted_wrt (<) ids" "set ids = {k \<in> teamIDs s. loCursor opt < k}"
    and "zs = take (nat (loLimit opt)) ids"
  shows "engineList E (memory_ops E) None opt s =
    Inr \<lparr>lpTeams = map (\<lambda>k. rcTeam (last (memLog s k))) zs,
         lpNext = if length zs < length ids then last zs else []\<rparr>"
  using list_page [OF assms] .

theorem list_is_sorted_page_witness:
  "engineList demoEnv (memory_ops demoEnv) None \<lparr>loLimit = 2, loCursor = []\<rparr> createdStore =
     Inr \<lparr>lpTeams = [demoStart], lpNext = []\<rparr>"
proof -
  have "loLimit \<lparr>loLimit = 2, loCursor = []\<rparr> \<le> MaxListPage (msLimits createdStore)" by code_simp
  moreover have "{k \<in> teamIDs createdStore. [] < k} = {''team''}" by (auto simp: teamIDs_def created_logs)
  ultimately show ?thesis
    using list_is_sorted_page [OF createdStore_ok, of "\<lparr>loLimit = 2, loCursor = []\<rparr>" "[''team'']" "[''team'']"]
    by (simp add: validateListOptions_def created_log)
qed

end
