(* ===== verification/ContTypes.thy ===== *)
theory ContTypes
  imports GoBase
begin

section \<open>Continuation: data model, errors and limits\<close>

text \<open>
  The types of \<^verbatim>\<open>agent/continuation/types.go\<close>, \<^verbatim>\<open>errors.go\<close> and \<^verbatim>\<open>limits.go\<close>. As in the Team package
  the string enumerations are open: each datatype has a constructor for every other string, the
  empty string is \<open>...Other []\<close>. A nil pointer is \<open>None\<close>, nil JSON is \<open>None\<close>. Counters are Go
  \<open>int\<close>s, 64-bit and signed: sums that the code does not bound are wrapped with \<open>i64\<close>. A function
  whose name the Team package has too carries the suffix \<open>_c\<close>.
\<close>

subsection \<open>64-bit integers and durations\<close>

definition i64 :: "int \<Rightarrow> int" where
  "i64 n = (n + 2 ^ 63) mod 2 ^ 64 - 2 ^ 63"

lemma i64_id: "- (2 ^ 63) \<le> n \<Longrightarrow> n < 2 ^ 63 \<Longrightarrow> i64 n = n"
  by (simp add: i64_def)

lemma i64_range: "- (2 ^ 63) \<le> i64 n" "i64 n < 2 ^ 63"
  by (simp_all add: i64_def)

lemma i64_i64 [simp]: "i64 (i64 n) = i64 n"
  by (rule i64_id) (rule i64_range)+

text \<open>A sum of two 64-bit values that shows as nonnegative has not wrapped.\<close>

lemma i64_sum:
  assumes "0 \<le> a" "a < 2 ^ 63" "0 \<le> b" "b < 2 ^ 63" "0 \<le> i64 (a + b)"
  shows "i64 (a + b) = a + b"
proof (cases "a + b < 2 ^ 63")
  case True
  with assms show ?thesis by (intro i64_id) auto
next
  case False
  have e: "a + b + 2 ^ 63 = (a + b - 2 ^ 63) + 2 ^ 64" by simp
  have "(a + b + 2 ^ 63) mod 2 ^ 64 = a + b - 2 ^ 63"
    unfolding e mod_add_self2 using assms False by (intro mod_pos_pos_trivial) auto
  with assms False show ?thesis by (simp add: i64_def)
qed

text \<open>\<^verbatim>\<open>Time.Sub\<close> saturates at the largest and smallest duration.\<close>

definition durSub :: "gtime \<Rightarrow> gtime \<Rightarrow> int" where
  "durSub a b = max (- (2 ^ 63)) (min (2 ^ 63 - 1) (instant a - instant b))"

lemma durSub_range: "- (2 ^ 63) \<le> durSub a b" "durSub a b < 2 ^ 63"
  by (simp_all add: durSub_def)

lemma durSub_pos: "after a b \<Longrightarrow> 0 < durSub a b"
  by (simp add: durSub_def after_def)

subsection \<open>Enumerations\<close>

datatype status =
    StatusReady | StatusRunning | StatusWaiting | StatusPauseRequested | StatusPaused
  | StatusBlocked | StatusInterrupted | StatusCancelRequested | StatusCompleted
  | StatusFailed | StatusCancelled | StatusLimited | StatusOther string

datatype phase = PhaseWork | PhaseDecision | PhaseOther string

datatype action =
    ActionContinue | ActionWait | ActionBlock | ActionComplete | ActionFail | ActionCancel
  | ActionOther string

datatype progress = ProgressUnknown | ProgressChanged | ProgressUnchanged | ProgressOther string

datatype cause =
    CauseCreate | CauseStageStart | CauseWorkComplete | CauseStageInterrupted
  | CauseControllerAction | CausePauseRequested | CausePause | CauseResume | CauseRetryWork
  | CauseRetryDecision | CauseSignal | CauseTimeWake | CauseBlockResolved
  | CauseCancelRequested | CauseCancel | CauseFail | CauseLimit | CauseRecovery
  | CauseOther string

datatype yield_reason =
    YieldTerminal | YieldWaiting | YieldPaused | YieldBlocked | YieldInterrupted | YieldGate
  | YieldNoProgress | YieldQuantum | YieldContext | YieldError

datatype activation_source =
  ActivationInitial | ActivationSignal | ActivationTime | ActivationBlock | ActivationOther string

subsection \<open>Records\<close>

record handler_ref =
  hrKind :: string
  hrVersion :: string

record target =
  tgKind :: string
  tgID :: string

record activation =
  avSource :: activation_source
  avAt :: gtime
  avSignalID :: string
  avPayload :: "string option"

record wait_condition =
  wcNotBefore :: "gtime option"
  wcSignal :: "string option"

record signal =
  sgID :: string
  sgKey :: string
  sgPayload :: "string option"

record block =
  bkKind :: string
  bkData :: "string option"

record suspension =
  suStatus :: status
  suPhase :: phase
  suWait :: "wait_condition option"
  suBlock :: "block option"
  suRetryRequired :: bool
  suReason :: string

record stage_failure =
  sfCode :: string
  sfMessage :: string

record usage =
  InputTokens :: int
  OutputTokens :: int
  ReasoningTokens :: int
  CachedInputTokens :: int
  CacheWriteTokens :: int

definition zero_usage :: usage where
  "zero_usage = \<lparr>InputTokens = 0, OutputTokens = 0, ReasoningTokens = 0, CachedInputTokens = 0,
     CacheWriteTokens = 0\<rparr>"

definition usageAdd :: "usage \<Rightarrow> usage \<Rightarrow> usage" where
  "usageAdd u v = \<lparr>InputTokens = i64 (InputTokens u + InputTokens v),
     OutputTokens = i64 (OutputTokens u + OutputTokens v),
     ReasoningTokens = i64 (ReasoningTokens u + ReasoningTokens v),
     CachedInputTokens = i64 (CachedInputTokens u + CachedInputTokens v),
     CacheWriteTokens = i64 (CacheWriteTokens u + CacheWriteTokens v)\<rparr>"

record limits =
  liMaxAttempts :: int
  liMaxTurns :: int
  liMaxTokens :: int
  liMaxActiveDuration :: int
  liDeadline :: gtime

record accounting =
  acAttempts :: int
  acTurns :: int
  acUsage :: usage
  acActiveDuration :: int

definition tokens :: "accounting \<Rightarrow> int" where
  "tokens a = i64 (InputTokens (acUsage a) + OutputTokens (acUsage a))"

record remaining_budget =
  rmAttempts :: int
  rmTurns :: int
  rmTokens :: int
  rmActiveDuration :: int
  rmDeadline :: gtime

record work_request =
  wqExecution :: string
  wqAttemptID :: string
  wqAttempt :: int
  wqTarget :: target
  wqInput :: "string option"
  wqActivation :: "activation option"
  wqLimits :: limits
  wqAccounting :: accounting
  wqRemaining :: remaining_budget

record work_result =
  wrValue :: "string option"
  wrTurns :: int
  wrUsage :: usage
  wrProgress :: progress

record decision_request =
  dqExecution :: string
  dqAttemptID :: string
  dqAttempt :: int
  dqTarget :: target
  dqWork :: work_result
  dqActivation :: "activation option"
  dqState :: "string option"
  dqLimits :: limits
  dqAccounting :: accounting

record decision =
  dcAction :: action
  dcReason :: string
  dcState :: "string option"
  dcNextInput :: "string option"
  dcWait :: "wait_condition option"
  dcBlock :: "block option"
  dcOutput :: "string option"
  dcProgress :: progress
  dcUsage :: usage

record attempt =
  atID :: string
  atNumber :: int
  atPhase :: phase
  atActivation :: "activation option"
  atWorkStartedAt :: gtime
  atWorkCompletedAt :: gtime
  atDecisionStartedAt :: gtime
  atDecisionEndedAt :: gtime
  atWork :: "work_result option"
  atDecision :: "decision option"
  atFailure :: "stage_failure option"
  atInterrupted :: bool

record execution =
  exID :: string
  exRevision :: u64
  exStatus :: status
  exPhase :: phase
  exTarget :: target
  exWorker :: handler_ref
  exController :: handler_ref
  exControllerState :: "string option"
  exNextInput :: "string option"
  exActivation :: "activation option"
  exWait :: "wait_condition option"
  exBlock :: "block option"
  exSuspension :: "suspension option"
  exCurrentAttempt :: "attempt option"
  exLastAttempt :: "attempt option"
  exLimits :: limits
  exAccounting :: accounting
  exReason :: string
  exOutput :: "string option"
  exCreatedAt :: gtime
  exUpdatedAt :: gtime

record create_request =
  crID :: string
  crTarget :: target
  crWorker :: handler_ref
  crController :: handler_ref
  crControllerState :: "string option"
  crInput :: "string option"
  crLimits :: limits

record transition =
  trRevision :: u64
  trAt :: gtime
  trFrom :: status
  trTo :: status
  trPhase :: phase
  trCause :: cause
  trAttemptID :: string
  trSignalID :: string
  trReason :: string

record cont_record =
  rcExecution :: execution
  rcTransition :: transition

record list_options =
  loLimit :: int
  loCursor :: string

record list_page =
  lpExecutions :: "execution list"
  lpNextCursor :: string

definition terminal :: "status \<Rightarrow> bool" where
  "terminal s = (case s of
       StatusCompleted \<Rightarrow> True | StatusFailed \<Rightarrow> True | StatusCancelled \<Rightarrow> True | StatusLimited \<Rightarrow> True
     | _ \<Rightarrow> False)"

text \<open>The zero values Go returns beside an error.\<close>

definition zero_limits :: limits where
  "zero_limits = \<lparr>liMaxAttempts = 0, liMaxTurns = 0, liMaxTokens = 0, liMaxActiveDuration = 0,
     liDeadline = zero_time\<rparr>"

definition zero_accounting :: accounting where
  "zero_accounting = \<lparr>acAttempts = 0, acTurns = 0, acUsage = zero_usage, acActiveDuration = 0\<rparr>"

definition zero_execution :: execution where
  "zero_execution = \<lparr>exID = [], exRevision = 0, exStatus = StatusOther [], exPhase = PhaseOther [],
     exTarget = \<lparr>tgKind = [], tgID = []\<rparr>, exWorker = \<lparr>hrKind = [], hrVersion = []\<rparr>,
     exController = \<lparr>hrKind = [], hrVersion = []\<rparr>, exControllerState = None, exNextInput = None,
     exActivation = None, exWait = None, exBlock = None, exSuspension = None,
     exCurrentAttempt = None, exLastAttempt = None, exLimits = zero_limits,
     exAccounting = zero_accounting, exReason = [], exOutput = None,
     exCreatedAt = zero_time, exUpdatedAt = zero_time\<rparr>"

definition zero_record :: cont_record where
  "zero_record = \<lparr>rcExecution = zero_execution,
     rcTransition = \<lparr>trRevision = 0, trAt = zero_time, trFrom = StatusOther [], trTo = StatusOther [],
       trPhase = PhaseOther [], trCause = CauseOther [], trAttemptID = [], trSignalID = [], trReason = []\<rparr>\<rparr>"

subsection \<open>Errors\<close>

text \<open>
  \<open>Foreign t e\<close> is an error of a collaborator (a worker, a controller, a gate, an ID source), with
  its text and the error it wraps; \<open>Panic\<close> is a run-time panic of the Go program.
\<close>

datatype cont_error =
    ErrNotFound | ErrExists | ErrConflict | ErrBusy | ErrInvalid | ErrTooLarge
  | ErrHandlerMismatch | ErrNotRunnable | ErrTerminal | ErrRetryRequired | ErrNotWaiting
  | ErrNotDue | ErrSignalMismatch | ErrSignalExpired | ErrCorruptStore | ErrStoreFull
  | Canceled | DeadlineExceeded
  | ConflictError u64 u64
  | StateError string status phase cont_error
  | Foreign string "cont_error option"
  | Panic string

fun errorsIs_c :: "cont_error \<Rightarrow> cont_error \<Rightarrow> bool" where
  "errorsIs_c (ConflictError a b) t = (t = ConflictError a b \<or> t = ErrConflict)"
| "errorsIs_c (StateError op s p e) t = (t = StateError op s p e \<or> errorsIs_c e t)"
| "errorsIs_c (Foreign x (Some e)) t = (t = Foreign x (Some e) \<or> errorsIs_c e t)"
| "errorsIs_c e t = (t = e)"

text \<open>\<open>errors.As\<close> with a \<open>*ConflictError\<close> target.\<close>

fun asConflict :: "cont_error \<Rightarrow> bool" where
  "asConflict (ConflictError a b) = True"
| "asConflict (StateError op s p e) = asConflict e"
| "asConflict (Foreign x (Some e)) = asConflict e"
| "asConflict e = False"

lemma asConflict_is: "asConflict e \<Longrightarrow> errorsIs_c e ErrConflict"
  by (induction e rule: asConflict.induct) auto

subsection \<open>Limits\<close>

definition resolveLimits_c :: "limits \<Rightarrow> cont_error + limits" where
  "resolveLimits_c l =
     (let out = (if liMaxAttempts l = 0 then l\<lparr>liMaxAttempts := 25\<rparr> else l)
      in if liMaxAttempts out < -1 \<or> liMaxTurns out < 0 \<or> liMaxTokens out < 0 \<or> liMaxActiveDuration out < 0
         then Inl ErrInvalid
         else if liMaxAttempts out = -1 \<and> liMaxTurns out = 0 \<and> liMaxTokens out = 0 \<and>
             liMaxActiveDuration out = 0 \<and> isZero (liDeadline out)
         then Inl ErrInvalid
         else Inr out)"

definition remaining :: "limits \<Rightarrow> accounting \<Rightarrow> remaining_budget" where
  "remaining l a =
     \<lparr>rmAttempts = (if liMaxAttempts l > 0 then max (i64 (liMaxAttempts l - acAttempts a)) 0 else 0),
      rmTurns = (if liMaxTurns l > 0 then max (i64 (liMaxTurns l - acTurns a)) 0 else 0),
      rmTokens = (if liMaxTokens l > 0 then max (i64 (liMaxTokens l - tokens a)) 0 else 0),
      rmActiveDuration = (if liMaxActiveDuration l > 0
        then max (i64 (liMaxActiveDuration l - acActiveDuration a)) 0 else 0),
      rmDeadline = liDeadline l\<rparr>"

text \<open>The reason a limit is reached, empty when none is.\<close>

definition limitReason :: "limits \<Rightarrow> accounting \<Rightarrow> phase \<Rightarrow> gtime \<Rightarrow> string" where
  "limitReason l a p now =
     (if p = PhaseWork \<and> liMaxAttempts l > 0 \<and> acAttempts a \<ge> liMaxAttempts l
        then ''maximum attempts reached''
      else if liMaxTurns l > 0 \<and> acTurns a \<ge> liMaxTurns l then ''maximum turns reached''
      else if liMaxTokens l > 0 \<and> tokens a \<ge> liMaxTokens l then ''maximum tokens reached''
      else if liMaxActiveDuration l > 0 \<and> acActiveDuration a \<ge> liMaxActiveDuration l
        then ''maximum active duration reached''
      else if \<not> isZero (liDeadline l) \<and> \<not> before now (liDeadline l) then ''deadline reached''
      else '''')"

text \<open>A limit is reached when its resource is used up; attempts count only before Work.\<close>

definition limit_reached :: "limits \<Rightarrow> accounting \<Rightarrow> phase \<Rightarrow> gtime \<Rightarrow> bool" where
  "limit_reached l a p now \<longleftrightarrow>
     p = PhaseWork \<and> 0 < liMaxAttempts l \<and> liMaxAttempts l \<le> acAttempts a
   \<or> 0 < liMaxTurns l \<and> liMaxTurns l \<le> acTurns a
   \<or> 0 < liMaxTokens l \<and> liMaxTokens l \<le> tokens a
   \<or> 0 < liMaxActiveDuration l \<and> liMaxActiveDuration l \<le> acActiveDuration a
   \<or> \<not> isZero (liDeadline l) \<and> \<not> before now (liDeadline l)"

lemma limitReason_empty: "limitReason l a p now = [] \<longleftrightarrow> \<not> limit_reached l a p now"
  by (simp add: limitReason_def limit_reached_def del: not_before_le)

end
