(* ===== verification/ContValidate.thy ===== *)
theory ContValidate
  imports ContTypes
begin

section \<open>Continuation: validation\<close>

text \<open>
  \<^verbatim>\<open>agent/continuation/validate.go\<close>, one definition per validator, and the record checks of
  \<^verbatim>\<open>store.go\<close>. Two loops of the code range over a Go map; they are written in the order of the map
  literal, so where several entries are invalid the error is one of those the code may return.
\<close>

subsection \<open>Values\<close>

definition validateID :: "string \<Rightarrow> cont_error option" where
  "validateID k = fail_if (\<not> safeID k) ErrInvalid"

definition validateAttemptID :: "string \<Rightarrow> cont_error option" where
  "validateAttemptID k = fail_if (\<not> safeID k) ErrInvalid"

definition validateRef :: "handler_ref \<Rightarrow> cont_error option" where
  "validateRef r = fail_if (blank (hrKind r) \<or> len (hrKind r) > 128 \<or>
     blank (hrVersion r) \<or> len (hrVersion r) > 128) ErrInvalid"

definition validateTarget :: "target \<Rightarrow> cont_error option" where
  "validateTarget t = fail_if (blank (tgKind t) \<or> len (tgKind t) > 128 \<or>
     blank (tgID t) \<or> len (tgID t) > 128) ErrInvalid"

definition validateJSON_c :: "string option \<Rightarrow> int \<Rightarrow> cont_error option" where
  "validateJSON_c v maxBytes = (case v of None \<Rightarrow> None
     | Some s \<Rightarrow> first_err
         [fail_if (len s > maxBytes) ErrTooLarge, fail_if (\<not> json_valid s) ErrInvalid])"

definition validateReason_c :: "string \<Rightarrow> cont_error option" where
  "validateReason_c r = fail_if (len r > 4096) ErrTooLarge"

definition validateWait :: "wait_condition option \<Rightarrow> cont_error option" where
  "validateWait wait = (case wait of
       None \<Rightarrow> Some ErrInvalid
     | Some w \<Rightarrow> first_err
         [fail_if (wcNotBefore w = None \<and> wcSignal w = None) ErrInvalid,
          (case wcNotBefore w of None \<Rightarrow> None | Some t \<Rightarrow> fail_if (isZero t) ErrInvalid),
          (case wcSignal w of None \<Rightarrow> None | Some key \<Rightarrow> fail_if (blank key) ErrInvalid)])"

definition validateBlock :: "block option \<Rightarrow> cont_error option" where
  "validateBlock blk = (case blk of
       None \<Rightarrow> Some ErrInvalid
     | Some b \<Rightarrow> first_err
         [fail_if (blank (bkKind b)) ErrInvalid, validateJSON_c (bkData b) 262144])"

definition validUsage :: "usage \<Rightarrow> bool" where
  "validUsage u \<longleftrightarrow> InputTokens u \<ge> 0 \<and> OutputTokens u \<ge> 0 \<and> ReasoningTokens u \<ge> 0 \<and>
     CachedInputTokens u \<ge> 0 \<and> CacheWriteTokens u \<ge> 0"

definition validProgress :: "progress \<Rightarrow> bool" where
  "validProgress p = (case p of ProgressOther _ \<Rightarrow> False | _ \<Rightarrow> True)"

definition validStatus_c :: "status \<Rightarrow> bool" where
  "validStatus_c s = (case s of StatusOther _ \<Rightarrow> False | _ \<Rightarrow> True)"

definition validPhase :: "phase \<Rightarrow> bool" where
  "validPhase p \<longleftrightarrow> p = PhaseWork \<or> p = PhaseDecision"

definition validCause_c :: "cause \<Rightarrow> bool" where
  "validCause_c c = (case c of CauseOther _ \<Rightarrow> False | _ \<Rightarrow> True)"

subsection \<open>Stage results\<close>

definition validateWorkResult :: "work_result \<Rightarrow> cont_error option" where
  "validateWorkResult r = first_err
     [fail_if (wrTurns r < 0 \<or> \<not> validUsage (wrUsage r)) ErrInvalid,
      fail_if (\<not> validProgress (wrProgress r)) ErrInvalid,
      validateJSON_c (wrValue r) 262144]"

definition validateDecisionFields :: "decision \<Rightarrow> cont_error option" where
  "validateDecisionFields d = first_err
     [validateReason_c (dcReason d), fail_if (\<not> validUsage (dcUsage d)) ErrInvalid,
      validateJSON_c (dcState d) 262144, validateJSON_c (dcNextInput d) 262144,
      validateJSON_c (dcOutput d) 262144,
      fail_if (dcProgress d \<noteq> ProgressOther [] \<and> \<not> validProgress (dcProgress d)) ErrInvalid]"

definition validateDecisionAction :: "decision \<Rightarrow> cont_error option" where
  "validateDecisionAction d = (case dcAction d of
       ActionContinue \<Rightarrow> fail_if (dcWait d \<noteq> None \<or> dcBlock d \<noteq> None) ErrInvalid
     | ActionWait \<Rightarrow> first_err [fail_if (dcBlock d \<noteq> None) ErrInvalid, validateWait (dcWait d)]
     | ActionBlock \<Rightarrow> first_err [fail_if (dcWait d \<noteq> None) ErrInvalid, validateBlock (dcBlock d)]
     | ActionOther _ \<Rightarrow> Some ErrInvalid
     | _ \<Rightarrow> fail_if (dcWait d \<noteq> None \<or> dcBlock d \<noteq> None) ErrInvalid)"

definition validateDecision :: "decision \<Rightarrow> cont_error option" where
  "validateDecision d = first_err [validateDecisionFields d, validateDecisionAction d]"

subsection \<open>Parts of an execution\<close>

definition validateActivation :: "activation option \<Rightarrow> cont_error option" where
  "validateActivation v = (case v of None \<Rightarrow> None | Some a \<Rightarrow> first_err
     [fail_if (isZero (avAt a)) ErrInvalid,
      (case avSource a of
         ActivationSignal \<Rightarrow> fail_if (avSignalID a = [] \<or> len (avSignalID a) > 128) ErrInvalid
       | ActivationOther _ \<Rightarrow> Some ErrInvalid
       | _ \<Rightarrow> fail_if (avSignalID a \<noteq> []) ErrInvalid),
      validateJSON_c (avPayload a) 262144])"

definition validateSuspensionIdentity :: "suspension \<Rightarrow> cont_error option" where
  "validateSuspensionIdentity s =
     first_err [fail_if (\<not> validPhase (suPhase s)) ErrInvalid, validateReason_c (suReason s)]"

definition validateSuspensionState :: "suspension \<Rightarrow> cont_error option" where
  "validateSuspensionState s = (case suStatus s of
       StatusReady \<Rightarrow> fail_if (suWait s \<noteq> None \<or> suBlock s \<noteq> None) ErrInvalid
     | StatusWaiting \<Rightarrow> validateWait (suWait s)
     | StatusBlocked \<Rightarrow> validateBlock (suBlock s)
     | StatusInterrupted \<Rightarrow> fail_if (suWait s \<noteq> None \<or> suBlock s \<noteq> None) ErrInvalid
     | _ \<Rightarrow> Some ErrInvalid)"

definition validateSuspension :: "suspension option \<Rightarrow> cont_error option" where
  "validateSuspension v = (case v of None \<Rightarrow> None | Some s \<Rightarrow> first_err
     [validateSuspensionIdentity s, validateSuspensionState s,
      fail_if (suRetryRequired s \<and> suPhase s \<noteq> PhaseWork) ErrInvalid])"

definition validateAttemptIdentity :: "attempt \<Rightarrow> int \<Rightarrow> cont_error option" where
  "validateAttemptIdentity a n = first_err
     [validateAttemptID (atID a),
      fail_if (atNumber a \<le> 0 \<or> atNumber a > n \<or> \<not> validPhase (atPhase a) \<or>
        isZero (atWorkStartedAt a)) ErrInvalid]"

definition validateAttemptWork :: "attempt \<Rightarrow> cont_error option" where
  "validateAttemptWork a = (case atWork a of None \<Rightarrow> None
     | Some r \<Rightarrow> first_err
         [fail_if (isZero (atWorkCompletedAt a)) ErrInvalid, validateWorkResult r])"

definition validateAttemptDecision :: "attempt \<Rightarrow> cont_error option" where
  "validateAttemptDecision a = (case atDecision a of None \<Rightarrow> None
     | Some d \<Rightarrow> first_err
         [fail_if (isZero (atDecisionStartedAt a) \<or> isZero (atDecisionEndedAt a) \<or> atWork a = None) ErrInvalid,
          validateDecision d])"

definition validateStageFailure :: "stage_failure option \<Rightarrow> cont_error option" where
  "validateStageFailure v = (case v of None \<Rightarrow> None
     | Some f \<Rightarrow> fail_if (sfCode f = [] \<or> len (sfCode f) > 128 \<or> len (sfMessage f) > 4096) ErrInvalid)"

definition validateAttempt_c :: "attempt option \<Rightarrow> int \<Rightarrow> cont_error option" where
  "validateAttempt_c v n = (case v of None \<Rightarrow> None
     | Some a \<Rightarrow> first_err [validateAttemptIdentity a n, validateActivation (atActivation a),
         validateAttemptWork a, validateAttemptDecision a, validateStageFailure (atFailure a)])"

subsection \<open>States\<close>

definition validateReadyState :: "execution \<Rightarrow> cont_error option" where
  "validateReadyState e = first_err
     [fail_if (exWait e \<noteq> None \<or> exBlock e \<noteq> None \<or> exSuspension e \<noteq> None) ErrInvalid,
      fail_if (exPhase e = PhaseDecision \<and>
        (case exCurrentAttempt e of None \<Rightarrow> True | Some a \<Rightarrow> atWork a = None)) ErrInvalid]"

definition validateActiveState :: "execution \<Rightarrow> cont_error option" where
  "validateActiveState e = (case exCurrentAttempt e of None \<Rightarrow> Some ErrInvalid
     | Some a \<Rightarrow> first_err
         [fail_if (atPhase a \<noteq> exPhase e) ErrInvalid,
          fail_if (exPhase e = PhaseDecision \<and> atWork a = None) ErrInvalid])"

definition validateWaitingState :: "execution \<Rightarrow> cont_error option" where
  "validateWaitingState e = fail_if (exWait e = None \<or> exPhase e \<noteq> PhaseWork) ErrInvalid"

definition validateBlockedState :: "execution \<Rightarrow> cont_error option" where
  "validateBlockedState e = fail_if (exBlock e = None \<or> exPhase e \<noteq> PhaseWork) ErrInvalid"

definition validatePausedState :: "execution \<Rightarrow> cont_error option" where
  "validatePausedState e = fail_if (exSuspension e = None) ErrInvalid"

definition validateInterruptedState :: "execution \<Rightarrow> cont_error option" where
  "validateInterruptedState e = fail_if (exCurrentAttempt e = None) ErrInvalid"

definition validateStatusState :: "execution \<Rightarrow> cont_error option" where
  "validateStatusState e = (case exStatus e of
       StatusReady \<Rightarrow> validateReadyState e
     | StatusRunning \<Rightarrow> validateActiveState e
     | StatusPauseRequested \<Rightarrow> validateActiveState e
     | StatusCancelRequested \<Rightarrow> validateActiveState e
     | StatusWaiting \<Rightarrow> validateWaitingState e
     | StatusBlocked \<Rightarrow> validateBlockedState e
     | StatusPaused \<Rightarrow> validatePausedState e
     | StatusInterrupted \<Rightarrow> validateInterruptedState e
     | StatusOther _ \<Rightarrow> Some ErrInvalid
     | _ \<Rightarrow> None)"

subsection \<open>Executions and records\<close>

definition validateExecutionIdentity :: "execution \<Rightarrow> cont_error option" where
  "validateExecutionIdentity e = first_err
     [validateID (exID e), fail_if (\<not> validStatus_c (exStatus e) \<or> \<not> validPhase (exPhase e)) ErrInvalid,
      validateTarget (exTarget e), validateRef (exWorker e), validateRef (exController e),
      fail_if (isZero (exCreatedAt e) \<or> isZero (exUpdatedAt e)) ErrInvalid,
      err_of (resolveLimits_c (exLimits e)), validateReason_c (exReason e)]"

definition validateExecutionPayloads :: "execution \<Rightarrow> cont_error option" where
  "validateExecutionPayloads e = first_err
     [validateJSON_c (exControllerState e) 262144, validateJSON_c (exNextInput e) 262144,
      validateJSON_c (exOutput e) 262144,
      (if exWait e = None then None else validateWait (exWait e)),
      (if exBlock e = None then None else validateBlock (exBlock e)),
      validateActivation (exActivation e), validateSuspension (exSuspension e)]"

definition validateExecutionState :: "execution \<Rightarrow> cont_error option" where
  "validateExecutionState e =
     (let a = exAccounting e
      in first_err
        [validateAttempt_c (exCurrentAttempt e) (acAttempts a),
         validateAttempt_c (exLastAttempt e) (acAttempts a),
         fail_if (acAttempts a < 0 \<or> acTurns a < 0 \<or> acActiveDuration a < 0 \<or> \<not> validUsage (acUsage a))
           ErrInvalid,
         validateStatusState e])"

definition validateExecution :: "execution \<Rightarrow> cont_error option" where
  "validateExecution e = first_err
     [validateExecutionIdentity e, validateExecutionPayloads e, validateExecutionState e]"

definition validateRecord_c :: "cont_record \<Rightarrow> cont_error option" where
  "validateRecord_c rc =
     (let t = rcTransition rc; e = rcExecution rc
      in first_err
        [validateExecution e,
         fail_if (trRevision t = 0 \<or> trRevision t \<noteq> exRevision e \<or> isZero (trAt t) \<or>
           trTo t \<noteq> exStatus e \<or> trPhase t \<noteq> exPhase e \<or> \<not> validCause_c (trCause t)) ErrInvalid,
         fail_if (trFrom t \<noteq> StatusOther [] \<and> \<not> validStatus_c (trFrom t)) ErrInvalid,
         validateReason_c (trReason t)])"

definition validateCreateRecord_c :: "cont_record \<Rightarrow> cont_error option" where
  "validateCreateRecord_c rc = fail_if
     (exRevision (rcExecution rc) \<noteq> 1 \<or> trRevision (rcTransition rc) \<noteq> 1 \<or>
      trFrom (rcTransition rc) \<noteq> StatusOther [] \<or> trCause (rcTransition rc) \<noteq> CauseCreate) ErrInvalid"

definition validateNextRecord_c :: "cont_record \<Rightarrow> u64 \<Rightarrow> cont_record \<Rightarrow> cont_error option" where
  "validateNextRecord_c previous expected nx = first_err
     [fail_if (exRevision (rcExecution previous) \<noteq> expected)
        (ConflictError expected (exRevision (rcExecution previous))),
      fail_if (exID (rcExecution nx) \<noteq> exID (rcExecution previous) \<or>
        exRevision (rcExecution nx) \<noteq> expected + 1 \<or> trRevision (rcTransition nx) \<noteq> expected + 1 \<or>
        trFrom (rcTransition nx) \<noteq> exStatus (rcExecution previous)) ErrInvalid]"

definition validateListOptions_c :: "list_options \<Rightarrow> int \<Rightarrow> cont_error option" where
  "validateListOptions_c opt maxPage = first_err
     [fail_if (loLimit opt \<le> 0 \<or> loLimit opt > maxPage) ErrInvalid,
      fail_if (loCursor opt \<noteq> [] \<and> validateID (loCursor opt) \<noteq> None) ErrInvalid]"

definition validateSignal :: "signal \<Rightarrow> cont_error option" where
  "validateSignal sg = first_err
     [fail_if (sgID sg = [] \<or> sgKey sg = []) ErrInvalid,
      fail_if (len (sgID sg) > 128 \<or> len (sgKey sg) > 128) ErrTooLarge,
      validateJSON_c (sgPayload sg) 262144]"

end
