(* ===== verification/ContStages.thy ===== *)
theory ContStages
  imports ContValidate
begin

section \<open>Continuation: what the stages do to an execution\<close>

text \<open>
  The part of \<^verbatim>\<open>agent/continuation/advance.go\<close> and \<^verbatim>\<open>recovery.go\<close> that computes on values: the
  execution a stage starts from, the outcome of a Work and of a Decision stage, the effect of a
  limit and of a recovery, and the record made of it. The clock readings are arguments.
\<close>

definition nextRecord_c :: "cont_record \<Rightarrow> execution \<Rightarrow> cause \<Rightarrow> string \<Rightarrow> gtime \<Rightarrow> cont_record" where
  "nextRecord_c current e c reason clock =
     (let now = utc clock;
          e' = e\<lparr>exRevision := exRevision (rcExecution current) + 1, exUpdatedAt := now\<rparr>
      in \<lparr>rcExecution = e',
          rcTransition = \<lparr>trRevision = exRevision e', trAt = now, trFrom = exStatus (rcExecution current),
            trTo = exStatus e', trPhase = exPhase e', trCause = c,
            trAttemptID = (case exCurrentAttempt e' of
                Some a \<Rightarrow> atID a
              | None \<Rightarrow> (case exLastAttempt e' of Some a \<Rightarrow> atID a | None \<Rightarrow> [])),
            trSignalID = [], trReason = reason\<rparr>\<rparr>)"

subsection \<open>Accounting\<close>

definition addDuration :: "int \<Rightarrow> accounting \<Rightarrow> accounting" where
  "addDuration d a = a\<lparr>acActiveDuration := i64 (acActiveDuration a + d)\<rparr>"

definition chargeStage :: "accounting \<Rightarrow> gtime \<Rightarrow> gtime \<Rightarrow> accounting" where
  "chargeStage a started ended =
     (if \<not> isZero started \<and> after ended started then addDuration (durSub ended started) a else a)"

definition addWorkAccounting :: "accounting \<Rightarrow> work_result \<Rightarrow> accounting" where
  "addWorkAccounting a r =
     (let b = a\<lparr>acTurns := i64 (acTurns a + max (wrTurns r) 0)\<rparr>
      in if validUsage (wrUsage r) then b\<lparr>acUsage := usageAdd (acUsage b) (wrUsage r)\<rparr> else b)"

definition addDecisionAccounting :: "accounting \<Rightarrow> decision \<Rightarrow> accounting" where
  "addDecisionAccounting a d =
     (if validUsage (dcUsage d) then a\<lparr>acUsage := usageAdd (acUsage a) (dcUsage d)\<rparr> else a)"

definition sanitizedPartialResult :: "work_result \<Rightarrow> work_result" where
  "sanitizedPartialResult r =
     r\<lparr>wrTurns := (if wrTurns r < 0 then 0 else wrTurns r),
       wrUsage := (let u = wrUsage r in if validUsage u then u
         else \<lparr>InputTokens = max (InputTokens u) 0, OutputTokens = max (OutputTokens u) 0,
           ReasoningTokens = max (ReasoningTokens u) 0, CachedInputTokens = max (CachedInputTokens u) 0,
           CacheWriteTokens = max (CacheWriteTokens u) 0\<rparr>),
       wrProgress := (if validProgress (wrProgress r) then wrProgress r else ProgressUnknown),
       wrValue := (if validateJSON_c (wrValue r) 262144 \<noteq> None then None else wrValue r)\<rparr>"

definition normalizeWorkOutcome ::
    "work_result \<times> cont_error option \<Rightarrow> work_result \<times> cont_error option" where
  "normalizeWorkOutcome p = (case p of (r, workerErr) \<Rightarrow>
     (case validateWorkResult r of
        None \<Rightarrow> (r, workerErr)
      | Some validationErr \<Rightarrow>
          (sanitizedPartialResult r, case workerErr of None \<Rightarrow> Some validationErr | Some e \<Rightarrow> Some e)))"

text \<open>The text of an error is a function \<open>tx\<close>: the model keeps errors, not their formatting.\<close>

definition projectFailure :: "(cont_error \<Rightarrow> string) \<Rightarrow> string \<Rightarrow> cont_error option \<Rightarrow> stage_failure" where
  "projectFailure tx failure_code err =
     (let message = (case err of None \<Rightarrow> [] | Some e \<Rightarrow> tx e)
      in \<lparr>sfCode = failure_code, sfMessage = (if len message > 4096 then take 4096 message else message)\<rparr>)"

subsection \<open>Starting a stage\<close>

definition startWork :: "execution \<Rightarrow> string \<Rightarrow> gtime \<Rightarrow> execution" where
  "startWork e attemptID now =
     (let e1 = (case exCurrentAttempt e of None \<Rightarrow> e | Some a \<Rightarrow> e\<lparr>exLastAttempt := Some a\<rparr>);
          n = i64 (acAttempts (exAccounting e) + 1)
      in e1\<lparr>exCurrentAttempt := Some \<lparr>atID = attemptID, atNumber = n, atPhase = PhaseWork,
              atActivation = exActivation e, atWorkStartedAt = now, atWorkCompletedAt = zero_time,
              atDecisionStartedAt = zero_time, atDecisionEndedAt = zero_time, atWork = None,
              atDecision = None, atFailure = None, atInterrupted = False\<rparr>,
            exActivation := None, exStatus := StatusRunning, exPhase := PhaseWork,
            exAccounting := (exAccounting e)\<lparr>acAttempts := n\<rparr>\<rparr>)"

definition workRequest :: "execution \<Rightarrow> attempt \<Rightarrow> work_request" where
  "workRequest e a = \<lparr>wqExecution = exID e, wqAttemptID = atID a, wqAttempt = atNumber a,
     wqTarget = exTarget e, wqInput = exNextInput e, wqActivation = atActivation a,
     wqLimits = exLimits e, wqAccounting = exAccounting e,
     wqRemaining = remaining (exLimits e) (exAccounting e)\<rparr>"

definition startDecision :: "execution \<Rightarrow> attempt \<Rightarrow> gtime \<Rightarrow> execution" where
  "startDecision e a now = e\<lparr>exStatus := StatusRunning, exPhase := PhaseDecision,
     exCurrentAttempt := Some (a\<lparr>atPhase := PhaseDecision, atDecisionStartedAt := now\<rparr>)\<rparr>"

definition decisionRequest :: "execution \<Rightarrow> attempt \<Rightarrow> work_result \<Rightarrow> decision_request" where
  "decisionRequest e a w = \<lparr>dqExecution = exID e, dqAttemptID = atID a, dqAttempt = atNumber a,
     dqTarget = exTarget e, dqWork = w, dqActivation = atActivation a,
     dqState = exControllerState e, dqLimits = exLimits e, dqAccounting = exAccounting e\<rparr>"

subsection \<open>The outcome of a stage\<close>

text \<open>The attempt of a finished Work stage, before the status is looked at.\<close>

definition workedAttempt :: "attempt \<Rightarrow> work_result \<Rightarrow> gtime \<Rightarrow> attempt" where
  "workedAttempt a r now = a\<lparr>atPhase := PhaseWork, atWorkCompletedAt := now, atWork := Some r\<rparr>"

definition interruptedAttempt :: "attempt \<Rightarrow> stage_failure \<Rightarrow> attempt" where
  "interruptedAttempt a f = a\<lparr>atInterrupted := True, atFailure := Some f\<rparr>"

definition resumeAt :: "phase \<Rightarrow> bool \<Rightarrow> suspension" where
  "resumeAt p retry = \<lparr>suStatus = StatusReady, suPhase = p, suWait = None, suBlock = None,
     suRetryRequired = retry, suReason = []\<rparr>"

definition workOutcome ::
    "(cont_error \<Rightarrow> string) \<Rightarrow> execution \<Rightarrow> work_result \<Rightarrow> cont_error option \<Rightarrow> gtime \<Rightarrow> execution \<times> cause" where
  "workOutcome tx e r workerErr clock =
     (let now = utc clock in case exCurrentAttempt e of
        None \<Rightarrow> (e, CauseStageInterrupted)
      | Some a0 \<Rightarrow>
         (let a = workedAttempt a0 r now;
              f = projectFailure tx ''worker'' workerErr;
              e1 = e\<lparr>exAccounting := addWorkAccounting
                       (chargeStage (exAccounting e) (atWorkStartedAt a0) now) r\<rparr>
          in case exStatus e of
            StatusCancelRequested \<Rightarrow>
              (e1\<lparr>exStatus := StatusCancelled, exReason := ''cancelled during work'', exWait := None,
                 exBlock := None, exSuspension := None, exCurrentAttempt := Some a\<rparr>, CauseCancel)
          | StatusPauseRequested \<Rightarrow>
              (if workerErr = None
               then e1\<lparr>exStatus := StatusPaused, exPhase := PhaseDecision,
                      exCurrentAttempt := Some (a\<lparr>atPhase := PhaseDecision\<rparr>),
                      exSuspension := Some (resumeAt PhaseDecision False),
                      exReason := ''paused after work completion''\<rparr>
               else e1\<lparr>exStatus := StatusPaused, exPhase := PhaseWork,
                      exCurrentAttempt := Some (interruptedAttempt a f),
                      exSuspension := Some (resumeAt PhaseWork True),
                      exReason := ''work interrupted by pause''\<rparr>, CausePause)
          | StatusRunning \<Rightarrow>
              (if workerErr \<noteq> None
               then (e1\<lparr>exStatus := StatusInterrupted, exPhase := PhaseWork,
                       exCurrentAttempt := Some (interruptedAttempt a f),
                       exReason := ''worker interrupted''\<rparr>, CauseStageInterrupted)
               else (e1\<lparr>exStatus := StatusReady, exPhase := PhaseDecision,
                       exCurrentAttempt := Some (a\<lparr>atPhase := PhaseDecision, atFailure := None\<rparr>),
                       exReason := []\<rparr>, CauseWorkComplete))
          | _ \<Rightarrow> (e1\<lparr>exCurrentAttempt := Some a\<rparr>, CauseStageInterrupted)))"

text \<open>The effect of a valid Decision: the attempt becomes the last one, the action sets the status.\<close>

definition applyDecision :: "execution \<Rightarrow> decision \<Rightarrow> execution" where
  "applyDecision e d = (case dcAction d of
       ActionContinue \<Rightarrow> e\<lparr>exStatus := StatusReady, exPhase := PhaseWork\<rparr>
     | ActionWait \<Rightarrow> e\<lparr>exStatus := StatusWaiting, exPhase := PhaseWork, exWait := dcWait d\<rparr>
     | ActionBlock \<Rightarrow> e\<lparr>exStatus := StatusBlocked, exPhase := PhaseWork, exBlock := dcBlock d\<rparr>
     | ActionComplete \<Rightarrow> e\<lparr>exStatus := StatusCompleted, exPhase := PhaseDecision, exOutput := dcOutput d\<rparr>
     | ActionFail \<Rightarrow> e\<lparr>exStatus := StatusFailed, exPhase := PhaseDecision, exOutput := dcOutput d\<rparr>
     | ActionCancel \<Rightarrow> e\<lparr>exStatus := StatusCancelled, exPhase := PhaseDecision, exOutput := dcOutput d\<rparr>
     | ActionOther _ \<Rightarrow> e\<lparr>exStatus := StatusInterrupted, exPhase := PhaseDecision\<rparr>)"

definition decided :: "execution \<Rightarrow> attempt \<Rightarrow> decision \<Rightarrow> execution" where
  "decided e a d =
     applyDecision (e\<lparr>exAccounting := addDecisionAccounting (exAccounting e) d,
       exLastAttempt := Some (a\<lparr>atDecision := Some d, atFailure := None, atInterrupted := False\<rparr>),
       exCurrentAttempt := None,
       exControllerState := (if dcState d \<noteq> None then dcState d else exControllerState e),
       exNextInput := dcNextInput d, exReason := dcReason d, exWait := None, exBlock := None,
       exSuspension := None\<rparr>) d"

definition decisionOutcome ::
    "(cont_error \<Rightarrow> string) \<Rightarrow> execution \<Rightarrow> decision \<Rightarrow> cont_error option \<Rightarrow> gtime \<Rightarrow> execution \<times> cause" where
  "decisionOutcome tx e d controllerErr clock =
     (let now = utc clock in case exCurrentAttempt e of
        None \<Rightarrow> (e, CauseStageInterrupted)
      | Some a0 \<Rightarrow>
         (let a = a0\<lparr>atDecisionEndedAt := now\<rparr>;
              e1 = e\<lparr>exAccounting := chargeStage (exAccounting e) (atDecisionStartedAt a0) now\<rparr>
          in case exStatus e of
            StatusCancelRequested \<Rightarrow>
              (e1\<lparr>exStatus := StatusCancelled, exReason := ''cancelled during decision'',
                 exSuspension := None, exCurrentAttempt := Some a\<rparr>, CauseCancel)
          | StatusPauseRequested \<Rightarrow>
              (e1\<lparr>exStatus := StatusPaused, exPhase := PhaseDecision,
                 exSuspension := Some (resumeAt PhaseDecision False),
                 exReason := ''decision interrupted by pause'', exCurrentAttempt := Some a\<rparr>, CausePause)
          | StatusRunning \<Rightarrow>
              (if controllerErr \<noteq> None
               then (e1\<lparr>exStatus := StatusInterrupted, exPhase := PhaseDecision,
                       exCurrentAttempt := Some (interruptedAttempt a
                         (projectFailure tx ''controller'' controllerErr)),
                       exReason := ''controller interrupted''\<rparr>, CauseStageInterrupted)
               else (decided e1 a d, CauseControllerAction))
          | _ \<Rightarrow> (e1\<lparr>exCurrentAttempt := Some a\<rparr>, CauseStageInterrupted)))"

definition limitedExecution :: "execution \<Rightarrow> string \<Rightarrow> execution" where
  "limitedExecution e reason = e\<lparr>exStatus := StatusLimited, exReason := reason, exWait := None,
     exBlock := None, exSuspension := None\<rparr>"

subsection \<open>Recovery\<close>

definition recoverySuspension :: "execution \<Rightarrow> suspension" where
  "recoverySuspension e =
     \<lparr>suStatus = StatusReady, suPhase = exPhase e, suWait = exWait e, suBlock = exBlock e,
      suRetryRequired = (exPhase e = PhaseWork \<and>
        \<not> (case exCurrentAttempt e of Some a \<Rightarrow> atWork a \<noteq> None | None \<Rightarrow> False)),
      suReason = exReason e\<rparr>"

definition chargeOrphanDuration :: "execution \<Rightarrow> gtime \<Rightarrow> execution" where
  "chargeOrphanDuration e now = (case exCurrentAttempt e of None \<Rightarrow> e | Some a \<Rightarrow>
     (let started = (if exPhase e = PhaseDecision \<and> \<not> isZero (atDecisionStartedAt a)
            then atDecisionStartedAt a else atWorkStartedAt a)
      in e\<lparr>exAccounting := chargeStage (exAccounting e) started now\<rparr>))"

definition markAttemptInterrupted :: "execution \<Rightarrow> string \<Rightarrow> string \<Rightarrow> execution" where
  "markAttemptInterrupted e fcode message = (case exCurrentAttempt e of None \<Rightarrow> e | Some a \<Rightarrow>
     e\<lparr>exCurrentAttempt := Some (interruptedAttempt a \<lparr>sfCode = fcode, sfMessage = message\<rparr>)\<rparr>)"

definition recoverable :: "status \<Rightarrow> bool" where
  "recoverable s \<longleftrightarrow> s = StatusRunning \<or> s = StatusPauseRequested \<or> s = StatusCancelRequested"

definition recovered :: "execution \<Rightarrow> gtime \<Rightarrow> execution" where
  "recovered e0 now =
     (let e = chargeOrphanDuration e0 now
      in case exStatus e0 of
        StatusRunning \<Rightarrow> markAttemptInterrupted (e\<lparr>exStatus := StatusInterrupted\<rparr>)
          ''recovered'' ''active stage owner is no longer present''
      | StatusPauseRequested \<Rightarrow>
          markAttemptInterrupted (e\<lparr>exStatus := StatusPaused, exSuspension := Some (recoverySuspension (e\<lparr>exStatus := StatusPaused\<rparr>))\<rparr>)
            ''paused'' ''active stage stopped during pause''
      | StatusCancelRequested \<Rightarrow> e\<lparr>exStatus := StatusCancelled, exWait := None, exBlock := None,
          exActivation := None, exSuspension := None\<rparr>
      | _ \<Rightarrow> e0)"

end
