(* ===== verification/ContControl.thy ===== *)
theory ContControl
  imports ContStages
begin

section \<open>Continuation: the control operations on an execution\<close>

text \<open>
  What \<^verbatim>\<open>agent/continuation/control.go\<close> computes between loading a record and storing the next:
  each operation refuses the execution, leaves it unchanged, or changes it with a cause, a
  transition reason and, for \<open>Signal\<close>, a signal ID.
\<close>

datatype control_outcome =
    Refuse cont_error
  | Unchanged
  | Change execution cause string string

definition checkC :: "cont_error option \<Rightarrow> control_outcome \<Rightarrow> control_outcome" where
  "checkC c k = (case c of Some err \<Rightarrow> Refuse err | None \<Rightarrow> k)"

lemma checkC_simps [simp]: "checkC None k = k" "checkC (Some err) k = Refuse err"
  by (simp_all add: checkC_def)

lemma checkC_Change [okE, simp]: "checkC c k = Change e ca r sg \<longleftrightarrow> c = None \<and> k = Change e ca r sg"
  by (cases c) simp_all

definition stateError :: "string \<Rightarrow> execution \<Rightarrow> cont_error \<Rightarrow> cont_error" where
  "stateError operation e err = StateError operation (exStatus e) (exPhase e) err"

definition terminalCheck :: "string \<Rightarrow> execution \<Rightarrow> cont_error option" where
  "terminalCheck operation e = fail_if (terminal (exStatus e)) (stateError operation e ErrTerminal)"

definition pauseSuspension :: "execution \<Rightarrow> suspension" where
  "pauseSuspension e = \<lparr>suStatus = exStatus e, suPhase = exPhase e, suWait = exWait e, suBlock = exBlock e,
     suRetryRequired = (exStatus e = StatusInterrupted \<and> exPhase e = PhaseWork), suReason = exReason e\<rparr>"

definition pause :: "string \<Rightarrow> execution \<Rightarrow> control_outcome" where
  "pause reason e = checkC (validateReason_c reason)
     (if exStatus e = StatusPaused \<or> exStatus e = StatusPauseRequested then Unchanged
      else checkC (first_err [terminalCheck ''pause'' e,
          fail_if (exStatus e = StatusCancelRequested) (stateError ''pause'' e ErrNotRunnable)])
        (if exStatus e = StatusRunning
         then Change (e\<lparr>exStatus := StatusPauseRequested, exReason := reason\<rparr>) CausePauseRequested reason []
         else Change (e\<lparr>exSuspension := Some (pauseSuspension e), exStatus := StatusPaused,
             exWait := None, exBlock := None, exReason := reason\<rparr>) CausePause reason []))"

definition resume :: "string \<Rightarrow> execution \<Rightarrow> control_outcome" where
  "resume reason e = checkC (first_err [validateReason_c reason, terminalCheck ''resume'' e])
     (case exSuspension e of
        None \<Rightarrow> Refuse (stateError ''resume'' e ErrNotRunnable)
      | Some s \<Rightarrow> checkC (first_err
          [fail_if (exStatus e \<noteq> StatusPaused) (stateError ''resume'' e ErrNotRunnable),
           fail_if (suRetryRequired s) (stateError ''resume'' e ErrRetryRequired)])
          (Change (e\<lparr>exStatus := suStatus s, exPhase := suPhase s, exWait := suWait s,
             exBlock := suBlock s, exSuspension := None, exReason := reason\<rparr>) CauseResume reason []))"

definition retryable :: "execution \<Rightarrow> bool" where
  "retryable e = (case exSuspension e of
       Some s \<Rightarrow> if exStatus e = StatusPaused then suPhase s = PhaseWork \<and> suRetryRequired s
                 else exStatus e = StatusInterrupted \<and> exPhase e = PhaseWork
     | None \<Rightarrow> exStatus e = StatusInterrupted \<and> exPhase e = PhaseWork)"

definition retryWork :: "string \<Rightarrow> execution \<Rightarrow> control_outcome" where
  "retryWork reason e = checkC (first_err [validateReason_c reason, terminalCheck ''retry work'' e,
       fail_if (\<not> retryable e) (stateError ''retry work'' e ErrNotRunnable)])
     (let e1 = (case exCurrentAttempt e of None \<Rightarrow> e
                | Some a \<Rightarrow> e\<lparr>exLastAttempt := Some a, exCurrentAttempt := None\<rparr>)
      in Change (e1\<lparr>exStatus := StatusReady, exPhase := PhaseWork, exSuspension := None,
           exReason := reason\<rparr>) CauseRetryWork reason [])"

definition retryDecision :: "string \<Rightarrow> execution \<Rightarrow> control_outcome" where
  "retryDecision reason e = checkC (first_err [validateReason_c reason, terminalCheck ''retry decision'' e])
     (case exCurrentAttempt e of
        None \<Rightarrow> Refuse (stateError ''retry decision'' e ErrNotRunnable)
      | Some a \<Rightarrow> checkC (fail_if (exStatus e \<noteq> StatusInterrupted \<or> exPhase e \<noteq> PhaseDecision \<or> atWork a = None)
            (stateError ''retry decision'' e ErrNotRunnable))
          (Change (e\<lparr>exStatus := StatusReady, exPhase := PhaseDecision,
             exCurrentAttempt := Some (a\<lparr>atInterrupted := False, atFailure := None\<rparr>),
             exReason := reason\<rparr>) CauseRetryDecision reason []))"

definition resolveBlock :: "string option \<Rightarrow> gtime \<Rightarrow> execution \<Rightarrow> control_outcome" where
  "resolveBlock payload clock e = checkC (first_err
       [validateJSON_c payload 262144, terminalCheck ''resolve block'' e,
        fail_if (exStatus e \<noteq> StatusBlocked) (stateError ''resolve block'' e ErrNotRunnable)])
     (Change (e\<lparr>exStatus := StatusReady, exPhase := PhaseWork,
        exActivation := Some \<lparr>avSource = ActivationBlock, avAt = utc clock, avSignalID = [], avPayload = payload\<rparr>,
        exBlock := None, exReason := []\<rparr>) CauseBlockResolved [] [])"

definition validateSignalTarget :: "execution \<Rightarrow> string \<Rightarrow> cont_error option" where
  "validateSignalTarget e key = first_err [terminalCheck ''signal'' e,
     (case exWait e of
        None \<Rightarrow> Some (stateError ''signal'' e ErrNotWaiting)
      | Some w \<Rightarrow> first_err
          [fail_if (exStatus e \<noteq> StatusWaiting) (stateError ''signal'' e ErrNotWaiting),
           fail_if (wcSignal w \<noteq> Some key) ErrSignalMismatch])]"

definition deliverSignal :: "signal \<Rightarrow> gtime \<Rightarrow> execution \<Rightarrow> control_outcome" where
  "deliverSignal sg clock e = checkC (validateSignalTarget e (sgKey sg))
     (Change (e\<lparr>exStatus := StatusReady, exPhase := PhaseWork,
        exActivation := Some \<lparr>avSource = ActivationSignal, avAt = utc clock, avSignalID = sgID sg,
          avPayload = sgPayload sg\<rparr>, exWait := None, exReason := []\<rparr>) CauseSignal [] (sgID sg))"

definition resumeDue :: "gtime \<Rightarrow> execution \<Rightarrow> control_outcome" where
  "resumeDue clock e = checkC (terminalCheck ''resume due'' e)
     (case exWait e of
        None \<Rightarrow> Refuse (stateError ''resume due'' e ErrNotWaiting)
      | Some w \<Rightarrow> checkC (first_err
          [fail_if (exStatus e \<noteq> StatusWaiting) (stateError ''resume due'' e ErrNotWaiting),
           (case wcNotBefore w of None \<Rightarrow> Some ErrNotDue
            | Some t \<Rightarrow> fail_if (before (utc clock) t) ErrNotDue)])
          (Change (e\<lparr>exStatus := StatusReady, exPhase := PhaseWork,
             exActivation := Some \<lparr>avSource = ActivationTime, avAt = utc clock, avSignalID = [], avPayload = None\<rparr>,
             exWait := None, exReason := []\<rparr>) CauseTimeWake [] []))"

definition cancel :: "string \<Rightarrow> execution \<Rightarrow> control_outcome" where
  "cancel reason e = checkC (validateReason_c reason)
     (if exStatus e = StatusCancelled \<or> exStatus e = StatusCancelRequested then Unchanged
      else checkC (terminalCheck ''cancel'' e)
        (if exStatus e = StatusRunning \<or> exStatus e = StatusPauseRequested
         then Change (e\<lparr>exStatus := StatusCancelRequested, exReason := reason\<rparr>) CauseCancelRequested reason []
         else Change (e\<lparr>exStatus := StatusCancelled, exWait := None, exBlock := None,
             exActivation := None, exSuspension := None, exReason := reason\<rparr>) CauseCancel reason []))"

definition failExecution :: "string \<Rightarrow> execution \<Rightarrow> control_outcome" where
  "failExecution reason e = checkC (first_err [validateReason_c reason, terminalCheck ''fail'' e])
     (Change (e\<lparr>exStatus := StatusFailed, exReason := reason, exWait := None, exBlock := None,
        exActivation := None, exSuspension := None\<rparr>) CauseFail reason [])"

subsection \<open>One type of requests\<close>

datatype control =
    Pause string | Resume string | RetryWork string | RetryDecision string
  | ResolveBlock "string option" | ResumeDue | Cancel string | Fail string | DeliverSignal signal

text \<open>The method of each request; the second argument is the clock reading some of them take.\<close>

fun controlStep :: "control \<Rightarrow> gtime \<Rightarrow> execution \<Rightarrow> control_outcome" where
  "controlStep (Pause r) clock e = pause r e"
| "controlStep (Resume r) clock e = resume r e"
| "controlStep (RetryWork r) clock e = retryWork r e"
| "controlStep (RetryDecision r) clock e = retryDecision r e"
| "controlStep (ResolveBlock p) clock e = resolveBlock p clock e"
| "controlStep ResumeDue clock e = resumeDue clock e"
| "controlStep (Cancel r) clock e = cancel r e"
| "controlStep (Fail r) clock e = failExecution r e"
| "controlStep (DeliverSignal sg) clock e = deliverSignal sg clock e"

text \<open>The record of a change; only \<open>Signal\<close> fills in a signal ID.\<close>

definition controlRecordOf ::
    "cont_record \<Rightarrow> execution \<Rightarrow> cause \<Rightarrow> string \<Rightarrow> string \<Rightarrow> gtime \<Rightarrow> cont_record" where
  "controlRecordOf current e c reason sid clock =
     (let nx = nextRecord_c current e c reason clock
      in nx\<lparr>rcTransition := (rcTransition nx)\<lparr>trSignalID := sid\<rparr>\<rparr>)"

end
