(* ===== verification/ContStore.thy ===== *)
theory ContStore
  imports ContValidate
begin

section \<open>Continuation: the store interface and the in-memory store\<close>

text \<open>
  \<^verbatim>\<open>agent/continuation/store.go\<close> and \<^verbatim>\<open>memory_store.go\<close>. As for Team, the interface is a record of
  operations on a store state, a call's context is its error (\<open>None\<close> while it is live), and each
  operation, made under the mutex, is one step. The length of a record's JSON encoding (or the error
  of encoding it) is a parameter \<open>enc\<close>.

  The second half is the contract of a store, the locale \<open>cont_store\<close>: for each ID an append-only log
  whose revisions are its positions; and its interpretation on the in-memory store.
\<close>

type_synonym ctx = "cont_error option"
type_synonym encoding = "cont_record \<Rightarrow> cont_error + int"

record 'st cont_ops =
  opCreate :: "ctx \<Rightarrow> cont_record \<Rightarrow> 'st \<Rightarrow> cont_error option \<times> 'st"
  opLoad :: "ctx \<Rightarrow> string \<Rightarrow> 'st \<Rightarrow> cont_error + cont_record"
  opCas :: "ctx \<Rightarrow> string \<Rightarrow> u64 \<Rightarrow> cont_record \<Rightarrow> 'st \<Rightarrow> cont_error option \<times> 'st"
  opList :: "ctx \<Rightarrow> list_options \<Rightarrow> 'st \<Rightarrow> cont_error + list_page"
  opHistory :: "ctx \<Rightarrow> string \<Rightarrow> 'st \<Rightarrow> cont_error + cont_record list"

subsection \<open>Limits\<close>

record cont_store_limits =
  clMaxRecordBytes :: int
  clMaxFileBytes :: int
  clMaxTransitions :: int
  clMaxListPage :: int

definition withStoreLimits_c :: "cont_store_limits \<Rightarrow> cont_store_limits \<Rightarrow> cont_error + cont_store_limits" where
  "withStoreLimits_c l config =
     (if clMaxRecordBytes l \<le> 0 \<or> clMaxFileBytes l \<le> 0 \<or> clMaxTransitions l \<le> 0 \<or> clMaxListPage l \<le> 0
      then Inl ErrInvalid else Inr l)"

definition default_store_limits_c :: cont_store_limits where
  "default_store_limits_c = \<lparr>clMaxRecordBytes = 2097152, clMaxFileBytes = 67108864,
     clMaxTransitions = 10000, clMaxListPage = 1000\<rparr>"

type_synonym cont_store_option = "(cont_store_limits \<Rightarrow> cont_error + cont_store_limits) option"

fun storeOptions_c :: "cont_store_limits \<Rightarrow> cont_store_option list \<Rightarrow> cont_error + cont_store_limits" where
  "storeOptions_c c [] = Inr c"
| "storeOptions_c c (opt # opts) = (case opt of
       None \<Rightarrow> Inl ErrInvalid
     | Some f \<Rightarrow> bindE (f c) (\<lambda>c'. storeOptions_c c' opts))"

definition defaultStoreConfig_c :: "cont_store_option list \<Rightarrow> cont_error + cont_store_limits" where
  "defaultStoreConfig_c opts = storeOptions_c default_store_limits_c opts"

definition encodedRecord_c :: "encoding \<Rightarrow> cont_record \<Rightarrow> cont_store_limits \<Rightarrow> cont_error + int" where
  "encodedRecord_c enc rc l =
     guardE (validateRecord_c rc)
       (bindE (enc rc) (\<lambda>n. guardE (fail_if (n > clMaxRecordBytes l) ErrTooLarge) (Inr n)))"

subsection \<open>The in-memory store\<close>

record cont_mem =
  cmLimits :: cont_store_limits
  cmRecords :: "(string \<times> cont_record list) list"
  cmBytes :: "(string \<times> int) list"

definition newMemoryStore_c :: "cont_store_option list \<Rightarrow> cont_error + cont_mem" where
  "newMemoryStore_c opts = bindE (defaultStoreConfig_c opts)
     (\<lambda>l. Inr \<lparr>cmLimits = l, cmRecords = [], cmBytes = []\<rparr>)"

definition bytesOf_c :: "cont_mem \<Rightarrow> string \<Rightarrow> int" where
  "bytesOf_c s k = (case map_of (cmBytes s) k of None \<Rightarrow> 0 | Some n \<Rightarrow> n)"

definition memCreate_c ::
    "encoding \<Rightarrow> ctx \<Rightarrow> cont_record \<Rightarrow> cont_mem \<Rightarrow> cont_error option \<times> cont_mem" where
  "memCreate_c enc c rc s =
     (case c of Some e \<Rightarrow> (Some e, s) | None \<Rightarrow>
      (case encodedRecord_c enc rc (cmLimits s) of Inl e \<Rightarrow> (Some e, s) | Inr n \<Rightarrow>
       (case validateCreateRecord_c rc of Some e \<Rightarrow> (Some e, s) | None \<Rightarrow>
        (let k = exID (rcExecution rc)
         in if map_of (cmRecords s) k \<noteq> None then (Some ErrExists, s)
            else if n + 1 > clMaxFileBytes (cmLimits s) then (Some ErrStoreFull, s)
            else (None, s\<lparr>cmRecords := AList.update k [rc] (cmRecords s),
                   cmBytes := AList.update k (n + 1) (cmBytes s)\<rparr>)))))"

definition lastRecord_c :: "cont_record list \<Rightarrow> cont_error + cont_record" where
  "lastRecord_c rs = (if rs = [] then Inl (Panic ''index out of range'') else Inr (last rs))"

definition memLoad_c :: "ctx \<Rightarrow> string \<Rightarrow> cont_mem \<Rightarrow> cont_error + cont_record" where
  "memLoad_c c k s = guardE c
     (case map_of (cmRecords s) k of None \<Rightarrow> Inl ErrNotFound | Some rs \<Rightarrow> lastRecord_c rs)"

definition memCas_c ::
    "encoding \<Rightarrow> ctx \<Rightarrow> string \<Rightarrow> u64 \<Rightarrow> cont_record \<Rightarrow> cont_mem \<Rightarrow> cont_error option \<times> cont_mem" where
  "memCas_c enc c k expected nx s =
     (case c of Some e \<Rightarrow> (Some e, s) | None \<Rightarrow>
      (case encodedRecord_c enc nx (cmLimits s) of Inl e \<Rightarrow> (Some e, s) | Inr n \<Rightarrow>
       (case map_of (cmRecords s) k of None \<Rightarrow> (Some ErrNotFound, s) | Some rs \<Rightarrow>
        (case lastRecord_c rs of Inl e \<Rightarrow> (Some e, s) | Inr previous \<Rightarrow>
         (case validateNextRecord_c previous expected nx of Some e \<Rightarrow> (Some e, s) | None \<Rightarrow>
          (if len rs \<ge> clMaxTransitions (cmLimits s) \<or>
              bytesOf_c s k + (n + 1) > clMaxFileBytes (cmLimits s) then (Some ErrStoreFull, s)
           else (None, s\<lparr>cmRecords := AList.update k (rs @ [nx]) (cmRecords s),
                  cmBytes := AList.update k (bytesOf_c s k + (n + 1)) (cmBytes s)\<rparr>)))))))"

fun pageExecutions :: "cont_mem \<Rightarrow> string list \<Rightarrow> cont_error + execution list" where
  "pageExecutions s [] = Inr []"
| "pageExecutions s (k # ks) =
     bindE (lastRecord_c (case map_of (cmRecords s) k of None \<Rightarrow> [] | Some rs \<Rightarrow> rs))
       (\<lambda>rc. bindE (pageExecutions s ks) (\<lambda>ts. Inr (rcExecution rc # ts)))"

definition memList_c :: "ctx \<Rightarrow> list_options \<Rightarrow> cont_mem \<Rightarrow> cont_error + list_page" where
  "memList_c c opt s = guardE c (guardE (validateListOptions_c opt (clMaxListPage (cmLimits s)))
     (let ids = sort (filter (\<lambda>k. k > loCursor opt) (remdups (map fst (cmRecords s))));
          count = min (length ids) (nat (loLimit opt))
      in bindE (pageExecutions s (take count ids))
          (\<lambda>ts. Inr \<lparr>lpExecutions = ts, lpNextCursor = (if length ids > count then ids ! (count - 1) else [])\<rparr>)))"

definition memHistory_c :: "ctx \<Rightarrow> string \<Rightarrow> cont_mem \<Rightarrow> cont_error + cont_record list" where
  "memHistory_c c k s = guardE c (of_opt ErrNotFound (map_of (cmRecords s) k))"

definition cont_memory_ops :: "encoding \<Rightarrow> cont_mem cont_ops" where
  "cont_memory_ops enc = \<lparr>opCreate = memCreate_c enc, opLoad = memLoad_c, opCas = memCas_c enc,
     opList = memList_c, opHistory = memHistory_c\<rparr>"

subsection \<open>Logs\<close>

abbreviation rcRev :: "cont_record \<Rightarrow> u64" where
  "rcRev rc \<equiv> exRevision (rcExecution rc)"

definition clog_ok :: "string \<Rightarrow> cont_record list \<Rightarrow> bool" where
  "clog_ok k rs \<longleftrightarrow> rs \<noteq> [] \<and> (\<forall>rc \<in> set rs. validateRecord_c rc = None \<and> exID (rcExecution rc) = k) \<and>
     validateCreateRecord_c (hd rs) = None \<and>
     (\<forall>i. Suc i < length rs \<longrightarrow> validateNextRecord_c (rs ! i) (rcRev (rs ! i)) (rs ! Suc i) = None)"

lemma clog_ok_single:
  "clog_ok k [rc] \<longleftrightarrow> validateRecord_c rc = None \<and> exID (rcExecution rc) = k \<and> validateCreateRecord_c rc = None"
  by (auto simp: clog_ok_def)

lemma clog_ok_append:
  assumes "clog_ok k rs"
  shows "clog_ok k (rs @ [rc]) \<longleftrightarrow>
    validateNextRecord_c (last rs) (rcRev (last rs)) rc = None \<and> validateRecord_c rc = None"
proof -
  have ne: "rs \<noteq> []" using assms by (simp add: clog_ok_def)
  let ?P = "\<lambda>xs i. validateNextRecord_c (xs ! i) (rcRev (xs ! i)) (xs ! Suc i) = None"
  have "(\<forall>i. Suc i < length (rs @ [rc]) \<longrightarrow> ?P (rs @ [rc]) i) \<longleftrightarrow>
      (\<forall>i. Suc i < length rs \<longrightarrow> ?P rs i) \<and> ?P (rs @ [rc]) (length rs - 1)"
  proof -
    have "?P (rs @ [rc]) i = ?P rs i" if "Suc i < length rs" for i
      using that by (simp add: nth_append)
    moreover have "Suc i < length (rs @ [rc]) \<longleftrightarrow> Suc i < length rs \<or> i = length rs - 1" for i
      using ne by (cases rs) auto
    ultimately show ?thesis by metis
  qed
  moreover have "?P (rs @ [rc]) (length rs - 1) \<longleftrightarrow>
      validateNextRecord_c (last rs) (rcRev (last rs)) rc = None"
    using ne by (simp add: nth_append last_conv_nth)
  moreover have "validateNextRecord_c (last rs) (rcRev (last rs)) rc = None \<Longrightarrow> exID (rcExecution rc) = k"
    using assms ne by (simp add: clog_ok_def validateNextRecord_c_def)
  ultimately show ?thesis using assms ne by (auto simp: clog_ok_def)
qed

lemma clog_ok_nth:
  assumes ok: "clog_ok k rs" and i: "i < length rs"
  shows "rcRev (rs ! i) = of_nat (Suc i)" "rcRev (rs ! i) \<noteq> 0"
proof -
  show "rcRev (rs ! i) = of_nat (Suc i)"
    using i
  proof (induction i)
    case 0
    then show ?case using ok by (simp add: clog_ok_def hd_conv_nth [symmetric] validateCreateRecord_c_def)
  next
    case (Suc i)
    have "validateNextRecord_c (rs ! i) (rcRev (rs ! i)) (rs ! Suc i) = None"
      using ok Suc.prems unfolding clog_ok_def by blast
    with Suc show ?case by (simp add: validateNextRecord_c_def)
  qed
  have "validateRecord_c (rs ! i) = None" using ok i by (simp add: clog_ok_def)
  then show "rcRev (rs ! i) \<noteq> 0" by (auto simp: validateRecord_c_def Let_def)
qed

text \<open>A revision is a position: it never wraps around.\<close>

lemma clog_ok_length:
  assumes ok: "clog_ok k rs"
  shows "length rs < 2 ^ 64" "rcRev (last rs) = of_nat (length rs)"
proof -
  show "length rs < 2 ^ 64"
  proof (rule ccontr)
    assume "\<not> length rs < 2 ^ 64"
    then have "2 ^ 64 - 1 < length rs" by simp
    from clog_ok_nth [OF ok this] have "(of_nat (Suc (2 ^ 64 - 1)) :: u64) \<noteq> 0" by metis
    then show False by (simp only: word_of_nat_eq_0_iff) simp
  qed
  have "rs \<noteq> []" using ok by (simp add: clog_ok_def)
  then show "rcRev (last rs) = of_nat (length rs)"
    using clog_ok_nth [OF ok, of "length rs - 1"] by (simp add: last_conv_nth)
qed

lemma clog_revision_inj:
  assumes "clog_ok k rs" "clog_ok k (rs @ ext)" "rcRev (last (rs @ ext)) = rcRev (last rs)"
  shows "ext = []"
proof -
  have "(of_nat (length rs) :: u64) = of_nat (length (rs @ ext))"
    using assms clog_ok_length(2) by metis
  then have "length rs mod 2 ^ 64 = length (rs @ ext) mod 2 ^ 64"
    by (simp only: word_of_nat_eq_iff take_bit_eq_mod len_num0 len_bit0) simp
  then have "length rs = length (rs @ ext)"
    using clog_ok_length(1) [OF assms(1)] clog_ok_length(1) [OF assms(2)] by simp
  then show ?thesis by simp
qed

subsection \<open>The contract\<close>

locale cont_store =
  fixes S :: "'st cont_ops"
    and sinv :: "'st \<Rightarrow> bool"
    and log :: "'st \<Rightarrow> string \<Rightarrow> cont_record list"
    and room :: "'st \<Rightarrow> string \<Rightarrow> cont_record \<Rightarrow> bool"
  assumes log_inv: "sinv s \<Longrightarrow> log s k \<noteq> [] \<Longrightarrow> clog_ok k (log s k)"
    and load: "sinv s \<Longrightarrow> opLoad S c k s =
      guardE c (if log s k = [] then Inl ErrNotFound else Inr (last (log s k)))"
    and history: "sinv s \<Longrightarrow> opHistory S c k s =
      guardE c (if log s k = [] then Inl ErrNotFound else Inr (log s k))"
    and create_fail: "sinv s \<Longrightarrow> opCreate S c rc s = (Some e, s') \<Longrightarrow> s' = s"
    and create_ok: "sinv s \<Longrightarrow> opCreate S c rc s = (None, s') \<Longrightarrow>
      sinv s' \<and> log s (exID (rcExecution rc)) = [] \<and> log s' = (log s)(exID (rcExecution rc) := [rc])"
    and cas_fail: "sinv s \<Longrightarrow> opCas S c k n rc s = (Some e, s') \<Longrightarrow> s' = s"
    and cas_ok: "sinv s \<Longrightarrow> opCas S c k n rc s = (None, s') \<Longrightarrow>
      sinv s' \<and> log s k \<noteq> [] \<and> rcRev (last (log s k)) = n \<and> log s' = (log s)(k := log s k @ [rc])"
    and cas_accepts: "sinv s \<Longrightarrow> log s k \<noteq> [] \<Longrightarrow> clog_ok k (log s k @ [rc]) \<Longrightarrow>
      n = rcRev (last (log s k)) \<Longrightarrow> room s k rc \<Longrightarrow> fst (opCas S None k n rc s) = None"
    and cas_conflict: "sinv s \<Longrightarrow> opCas S None k n rc s = (Some e, s') \<Longrightarrow> log s k \<noteq> [] \<Longrightarrow>
      errorsIs_c e ErrConflict \<Longrightarrow> rcRev (last (log s k)) \<noteq> n"
    and create_accepts: "sinv s \<Longrightarrow> log s k = [] \<Longrightarrow> clog_ok k [rc] \<Longrightarrow> room s k rc \<Longrightarrow>
      fst (opCreate S None rc s) = None"


subsection \<open>Validation errors are plain\<close>

text \<open>The validators only return \<open>ErrInvalid\<close> and \<open>ErrTooLarge\<close>.\<close>

definition plain :: "cont_error option \<Rightarrow> bool" where
  "plain c \<longleftrightarrow> (\<forall>e. c = Some e \<longrightarrow> e = ErrInvalid \<or> e = ErrTooLarge)"

named_theorems plainI \<open>a check returns plain errors only\<close>

lemma plain_basic [plainI, simp]: "plain None" "plain (Some ErrInvalid)" "plain (Some ErrTooLarge)"
    "plain (fail_if b ErrInvalid)" "plain (fail_if b ErrTooLarge)"
  by (simp_all add: plain_def)

lemma plain_Nil [plainI]: "plain (first_err [])"
  by simp

lemma plain_Cons [plainI]: "plain c \<Longrightarrow> plain (first_err cs) \<Longrightarrow> plain (first_err (c # cs))"
  by (cases c) simp_all

lemma plain_if [plainI]: "plain a \<Longrightarrow> plain b \<Longrightarrow> plain (if P then a else b)"
  by simp

lemma plain_option [plainI]: "plain a \<Longrightarrow> (\<And>y. plain (f y)) \<Longrightarrow> plain (case x of None \<Rightarrow> a | Some y \<Rightarrow> f y)"
  by (cases x) simp_all

lemma plain_values [plainI]:
  "plain (validateID k)" "plain (validateAttemptID k)" "plain (validateRef r)" "plain (validateTarget t)"
  "plain (validateReason_c x)" "plain (validateJSON_c v n)" "plain (validateWait w)"
  "plain (validateBlock b)" "plain (err_of (resolveLimits_c l))"
  unfolding validateID_def validateAttemptID_def validateRef_def validateTarget_def validateReason_c_def
    validateJSON_c_def validateWait_def validateBlock_def resolveLimits_c_def Let_def
  by (auto intro!: plainI simp: err_of_def)

lemma plain_results [plainI]:
  "plain (validateWorkResult r)" "plain (validateDecisionFields d)" "plain (validateDecisionAction d)"
  unfolding validateWorkResult_def validateDecisionFields_def validateDecisionAction_def
  by (auto intro!: plainI split: action.splits)

lemma plain_parts [plainI]:
  "plain (validateDecision d)" "plain (validateActivation v)" "plain (validateSuspensionIdentity s)"
  "plain (validateSuspensionState s)" "plain (validateStageFailure sf)" "plain (validateAttemptIdentity a n)"
  unfolding validateDecision_def validateActivation_def validateSuspensionIdentity_def
    validateSuspensionState_def validateStageFailure_def validateAttemptIdentity_def
  by (auto intro!: plainI split: action.splits status.splits activation_source.splits)

lemma plain_attempt [plainI]:
  "plain (validateSuspension v)" "plain (validateAttemptWork a)" "plain (validateAttemptDecision a)"
  "plain (validateAttempt_c v' n)"
  unfolding validateSuspension_def validateAttemptWork_def validateAttemptDecision_def validateAttempt_c_def
  by (auto intro!: plainI)

lemma plain_status [plainI]: "plain (validateStatusState e)"
  unfolding validateStatusState_def validateReadyState_def validateActiveState_def
    validateWaitingState_def validateBlockedState_def validatePausedState_def validateInterruptedState_def
  by (auto intro!: plainI split: status.splits option.splits)

lemma plain_execution [plainI]:
  "plain (validateExecutionIdentity e)" "plain (validateExecutionPayloads e)" "plain (validateExecutionState e)"
  unfolding validateExecutionIdentity_def validateExecutionPayloads_def validateExecutionState_def Let_def
  by (auto intro!: plainI)

lemma plain_record [plainI]: "plain (validateRecord_c rc)"
  unfolding validateRecord_c_def validateExecution_def Let_def by (auto intro!: plainI)

lemma plain_not_conflict: "plain c \<Longrightarrow> c = Some e \<Longrightarrow> \<not> errorsIs_c e ErrConflict"
  by (auto simp: plain_def)

subsection \<open>The in-memory store keeps the contract\<close>

definition memLog_c :: "cont_mem \<Rightarrow> string \<Rightarrow> cont_record list" where
  "memLog_c s k = (case map_of (cmRecords s) k of None \<Rightarrow> [] | Some rs \<Rightarrow> rs)"

text \<open>An encoding error is not a revision conflict.\<close>

definition enc_ok :: "encoding \<Rightarrow> bool" where
  "enc_ok enc \<longleftrightarrow> (\<forall>rc e. enc rc = Inl e \<longrightarrow> \<not> errorsIs_c e ErrConflict)"

definition cmem_inv :: "encoding \<Rightarrow> cont_mem \<Rightarrow> bool" where
  "cmem_inv enc s \<longleftrightarrow> enc_ok enc \<and> (\<forall>k rs. map_of (cmRecords s) k = Some rs \<longrightarrow> clog_ok k rs)"

definition cmem_room :: "encoding \<Rightarrow> cont_mem \<Rightarrow> string \<Rightarrow> cont_record \<Rightarrow> bool" where
  "cmem_room enc s k rc \<longleftrightarrow> (\<exists>n. enc rc = Inr n \<and> n \<le> clMaxRecordBytes (cmLimits s) \<and>
     len (memLog_c s k) < clMaxTransitions (cmLimits s) \<and>
     (if memLog_c s k = [] then 0 else bytesOf_c s k) + (n + 1) \<le> clMaxFileBytes (cmLimits s))"

lemma memLog_c_cases:
  assumes "cmem_inv enc s"
  shows "memLog_c s k = [] \<longleftrightarrow> map_of (cmRecords s) k = None"
    "memLog_c s k \<noteq> [] \<Longrightarrow> map_of (cmRecords s) k = Some (memLog_c s k)"
  using assms by (auto simp: memLog_c_def cmem_inv_def clog_ok_def split: option.splits)

lemma memLog_c_inv: "cmem_inv enc s \<Longrightarrow> memLog_c s k \<noteq> [] \<Longrightarrow> clog_ok k (memLog_c s k)"
  using memLog_c_cases(2) by (auto simp: cmem_inv_def)

lemma memLog_c_update:
  "memLog_c (s\<lparr>cmRecords := AList.update k rs (cmRecords s), cmBytes := b\<rparr>) = (memLog_c s)(k := rs)"
  by (auto simp: memLog_c_def update_conv' fun_eq_iff)

lemma cmem_inv_update:
  "cmem_inv enc s \<Longrightarrow> clog_ok k rs \<Longrightarrow>
     cmem_inv enc (s\<lparr>cmRecords := AList.update k rs (cmRecords s), cmBytes := b\<rparr>)"
  by (auto simp: cmem_inv_def update_conv')

lemma memLoad_c_eq:
  assumes "cmem_inv enc s"
  shows "memLoad_c c k s = guardE c (if memLog_c s k = [] then Inl ErrNotFound else Inr (last (memLog_c s k)))"
  using memLog_c_cases [OF assms, of k] by (auto simp: memLoad_c_def lastRecord_c_def)

lemma memHistory_c_eq:
  assumes "cmem_inv enc s"
  shows "memHistory_c c k s = guardE c (if memLog_c s k = [] then Inl ErrNotFound else Inr (memLog_c s k))"
  using memLog_c_cases [OF assms, of k] by (auto simp: memHistory_c_def)

lemma memCas_c_eq:
  assumes "cmem_inv enc s" "memLog_c s k \<noteq> []"
  shows "memCas_c enc None k n rc s =
     (case encodedRecord_c enc rc (cmLimits s) of Inl e \<Rightarrow> (Some e, s) | Inr m \<Rightarrow>
      (case validateNextRecord_c (last (memLog_c s k)) n rc of Some e \<Rightarrow> (Some e, s) | None \<Rightarrow>
         (if len (memLog_c s k) \<ge> clMaxTransitions (cmLimits s) \<or>
              bytesOf_c s k + (m + 1) > clMaxFileBytes (cmLimits s) then (Some ErrStoreFull, s)
          else (None, s\<lparr>cmRecords := AList.update k (memLog_c s k @ [rc]) (cmRecords s),
                  cmBytes := AList.update k (bytesOf_c s k + (m + 1)) (cmBytes s)\<rparr>))))"
  using memLog_c_cases [OF assms(1), of k] assms(2)
  by (simp add: memCas_c_def lastRecord_c_def split: sum.splits)

lemma encodedRecord_c_Inr:
  "encodedRecord_c enc rc l = Inr n \<longleftrightarrow> validateRecord_c rc = None \<and> enc rc = Inr n \<and> n \<le> clMaxRecordBytes l"
  by (auto simp: encodedRecord_c_def bindE_Inr)

lemma encodedRecord_c_Inl:
  assumes "encodedRecord_c enc rc l = Inl e" "enc_ok enc"
  shows "\<not> errorsIs_c e ErrConflict"
proof (cases "validateRecord_c rc")
  case None
  with assms show ?thesis
    by (cases "enc rc") (auto simp: encodedRecord_c_def enc_ok_def guardE_def split: option.splits)
next
  case (Some e')
  with assms have "e' = e" by (simp add: encodedRecord_c_def)
  with Some plain_not_conflict [OF plain_record] show ?thesis by blast
qed

lemma validateNextRecord_c_rev: "validateNextRecord_c p n rc = None \<Longrightarrow> rcRev p = n"
  by (simp add: validateNextRecord_c_def)

lemma memCas_c_ok:
  assumes inv: "cmem_inv enc s" and run: "memCas_c enc c k n rc s = (None, s')"
  shows "cmem_inv enc s' \<and> memLog_c s k \<noteq> [] \<and> rcRev (last (memLog_c s k)) = n \<and>
    memLog_c s' = (memLog_c s)(k := memLog_c s k @ [rc])"
proof -
  have c: "c = None" and ne: "memLog_c s k \<noteq> []"
    using run memLog_c_cases(1) [OF inv, of k]
    by (auto simp: memCas_c_def split: option.splits sum.splits)
  from run [unfolded c memCas_c_eq [OF inv ne]] obtain m
    where enc: "encodedRecord_c enc rc (cmLimits s) = Inr m"
      and v: "validateNextRecord_c (last (memLog_c s k)) n rc = None"
      and s': "s' = s\<lparr>cmRecords := AList.update k (memLog_c s k @ [rc]) (cmRecords s),
                  cmBytes := AList.update k (bytesOf_c s k + (m + 1)) (cmBytes s)\<rparr>"
    by (auto split: sum.splits option.splits if_splits)
  note n = validateNextRecord_c_rev [OF v]
  have "clog_ok k (memLog_c s k @ [rc])"
    using clog_ok_append [OF memLog_c_inv [OF inv ne]] v n enc by (simp add: encodedRecord_c_Inr)
  with cmem_inv_update [OF inv this] n ne show ?thesis by (simp add: s' memLog_c_update)
qed

lemma memCas_c_accepts:
  assumes inv: "cmem_inv enc s" and ne: "memLog_c s k \<noteq> []" and ok: "clog_ok k (memLog_c s k @ [rc])"
    and n: "n = rcRev (last (memLog_c s k))" and room: "cmem_room enc s k rc"
  shows "fst (memCas_c enc None k n rc s) = None"
proof -
  from room ne obtain m where m: "enc rc = Inr m" "m \<le> clMaxRecordBytes (cmLimits s)"
      "len (memLog_c s k) < clMaxTransitions (cmLimits s)"
      "bytesOf_c s k + (m + 1) \<le> clMaxFileBytes (cmLimits s)"
    by (auto simp: cmem_room_def)
  have "encodedRecord_c enc rc (cmLimits s) = Inr m"
    using m ok by (simp add: encodedRecord_c_Inr clog_ok_def)
  with m ok n show ?thesis
    using clog_ok_append [OF memLog_c_inv [OF inv ne]] by (simp add: memCas_c_eq [OF inv ne])
qed

lemma memCas_c_conflict:
  assumes inv: "cmem_inv enc s" and run: "memCas_c enc None k n rc s = (Some e, s')"
    and ne: "memLog_c s k \<noteq> []" and e: "errorsIs_c e ErrConflict"
  shows "rcRev (last (memLog_c s k)) \<noteq> n"
proof
  assume n: "rcRev (last (memLog_c s k)) = n"
  have enc: "enc_ok enc" using inv by (simp add: cmem_inv_def)
  show False
    using run e n encodedRecord_c_Inl [OF _ enc]
    by (auto simp: memCas_c_eq [OF inv ne] validateNextRecord_c_def fail_if_def first_err.simps
        split: sum.splits option.splits if_splits)
qed

lemma memCreate_c_ok:
  assumes inv: "cmem_inv enc s" and run: "memCreate_c enc c rc s = (None, s')"
  shows "cmem_inv enc s' \<and> memLog_c s (exID (rcExecution rc)) = [] \<and>
    memLog_c s' = (memLog_c s)(exID (rcExecution rc) := [rc])"
proof -
  let ?k = "exID (rcExecution rc)"
  from run obtain m where enc: "encodedRecord_c enc rc (cmLimits s) = Inr m"
      and v: "validateCreateRecord_c rc = None" and new: "map_of (cmRecords s) ?k = None"
      and s': "s' = s\<lparr>cmRecords := AList.update ?k [rc] (cmRecords s),
                  cmBytes := AList.update ?k (m + 1) (cmBytes s)\<rparr>"
    by (auto simp: memCreate_c_def Let_def split: sum.splits option.splits if_splits)
  have "clog_ok ?k [rc]" using enc v by (simp add: clog_ok_single encodedRecord_c_Inr)
  from cmem_inv_update [OF inv this] new show ?thesis
    by (simp add: s' memLog_c_update memLog_c_cases(1) [OF inv])
qed

lemma memCreate_c_accepts:
  assumes inv: "cmem_inv enc s" and new: "memLog_c s k = []" and ok: "clog_ok k [rc]"
    and room: "cmem_room enc s k rc"
  shows "fst (memCreate_c enc None rc s) = None"
proof -
  have k: "exID (rcExecution rc) = k" and none: "map_of (cmRecords s) k = None"
    using ok memLog_c_cases(1) [OF inv, of k] new by (simp_all add: clog_ok_single)
  from room new obtain m where m: "enc rc = Inr m" "m \<le> clMaxRecordBytes (cmLimits s)"
      "m + 1 \<le> clMaxFileBytes (cmLimits s)"
    by (auto simp: cmem_room_def)
  have "encodedRecord_c enc rc (cmLimits s) = Inr m"
    using m ok by (simp add: encodedRecord_c_Inr clog_ok_single)
  with m ok k none show ?thesis by (simp add: memCreate_c_def clog_ok_single Let_def)
qed

interpretation cmem: cont_store "cont_memory_ops enc" "cmem_inv enc" memLog_c "cmem_room enc"
proof unfold_locales
  fix s :: cont_mem assume inv: "cmem_inv enc s"
  show "memLog_c s k \<noteq> [] \<Longrightarrow> clog_ok k (memLog_c s k)" for k by (rule memLog_c_inv [OF inv])
  show "opLoad (cont_memory_ops enc) c k s =
      guardE c (if memLog_c s k = [] then Inl ErrNotFound else Inr (last (memLog_c s k)))" for c k
    by (simp add: cont_memory_ops_def memLoad_c_eq [OF inv])
  show "opHistory (cont_memory_ops enc) c k s =
      guardE c (if memLog_c s k = [] then Inl ErrNotFound else Inr (memLog_c s k))" for c k
    by (simp add: cont_memory_ops_def memHistory_c_eq [OF inv])
  show "opCreate (cont_memory_ops enc) c rc s = (Some e, s') \<Longrightarrow> s' = s" for c rc e s'
    by (auto simp: cont_memory_ops_def memCreate_c_def Let_def split: option.splits sum.splits if_splits)
  show "opCas (cont_memory_ops enc) c k n rc s = (Some e, s') \<Longrightarrow> s' = s" for c k n rc e s'
    by (auto simp: cont_memory_ops_def memCas_c_def split: option.splits sum.splits if_splits)
  show "opCreate (cont_memory_ops enc) c rc s = (None, s') \<Longrightarrow>
      cmem_inv enc s' \<and> memLog_c s (exID (rcExecution rc)) = [] \<and>
      memLog_c s' = (memLog_c s)(exID (rcExecution rc) := [rc])" for c rc s'
    using memCreate_c_ok [OF inv] by (simp add: cont_memory_ops_def)
  show "opCas (cont_memory_ops enc) c k n rc s = (None, s') \<Longrightarrow>
      cmem_inv enc s' \<and> memLog_c s k \<noteq> [] \<and> rcRev (last (memLog_c s k)) = n \<and>
      memLog_c s' = (memLog_c s)(k := memLog_c s k @ [rc])" for c k n rc s'
    using memCas_c_ok [OF inv] by (simp add: cont_memory_ops_def)
  show "memLog_c s k \<noteq> [] \<Longrightarrow> clog_ok k (memLog_c s k @ [rc]) \<Longrightarrow> n = rcRev (last (memLog_c s k)) \<Longrightarrow>
      cmem_room enc s k rc \<Longrightarrow> fst (opCas (cont_memory_ops enc) None k n rc s) = None" for k rc n
    using memCas_c_accepts [OF inv] by (simp add: cont_memory_ops_def)
  show "opCas (cont_memory_ops enc) None k n rc s = (Some e, s') \<Longrightarrow> memLog_c s k \<noteq> [] \<Longrightarrow>
      errorsIs_c e ErrConflict \<Longrightarrow> rcRev (last (memLog_c s k)) \<noteq> n" for k n rc e s'
    using memCas_c_conflict [OF inv] by (simp add: cont_memory_ops_def)
  show "memLog_c s k = [] \<Longrightarrow> clog_ok k [rc] \<Longrightarrow> cmem_room enc s k rc \<Longrightarrow>
      fst (opCreate (cont_memory_ops enc) None rc s) = None" for k rc
    using memCreate_c_accepts [OF inv] by (simp add: cont_memory_ops_def)
qed

end
