(* ===== verification/ContEngine.thy ===== *)
theory ContEngine
  imports ContControl ContStore
begin

section \<open>Continuation: the engine\<close>

text \<open>
  \<^verbatim>\<open>agent/continuation/engine.go\<close>, \<^verbatim>\<open>advance.go\<close>, \<^verbatim>\<open>recovery.go\<close>, \<^verbatim>\<open>control.go\<close> and \<^verbatim>\<open>drive.go\<close> over a
  store. The state is the store and the engine's map of active stages. Other goroutines and other
  engines run between the steps of a call: \<open>ceItf\<close> says what they do before a step, where a step is
  named by the part of the call and a number. \<open>ceCtx\<close> is the state of the call's context at a step,
  \<open>ceNow\<close> the clock, \<open>ceIDs\<close> the ID source, \<open>ceText\<close> the text of an error. Cancelling the context of
  a running stage has no effect in the model beyond what its handler returns, which is arbitrary.
\<close>

subsection \<open>Engine state and environment\<close>

record active_stage =
  asPhase :: phase
  asAttempt :: string

record 'st eng =
  enStore :: 'st
  enActive :: "(string \<times> active_stage) list"

type_synonym point = "string \<times> nat"

record 'st call_env =
  ceCtx :: "point \<Rightarrow> ctx"
  ceNow :: "point \<Rightarrow> gtime"
  ceIDs :: "string \<Rightarrow> gtime \<Rightarrow> cont_error + string"
  ceText :: "cont_error \<Rightarrow> string"
  ceItf :: "point \<Rightarrow> 'st eng \<Rightarrow> 'st eng"

record handlers =
  haWorkerRef :: handler_ref
  haWorker :: "(work_request \<Rightarrow> work_result \<times> cont_error option) option"
  haControllerRef :: handler_ref
  haController :: "(decision_request \<Rightarrow> decision \<times> cont_error option) option"

definition activeStage :: "'st eng \<Rightarrow> string \<Rightarrow> active_stage option" where
  "activeStage s k = map_of (enActive s) k"

definition reserve :: "string \<Rightarrow> phase \<Rightarrow> string \<Rightarrow> 'st eng \<Rightarrow> cont_error + 'st eng" where
  "reserve k p attemptID s =
     (if activeStage s k \<noteq> None then Inl ErrBusy
      else Inr (s\<lparr>enActive := AList.update k \<lparr>asPhase = p, asAttempt = attemptID\<rparr> (enActive s)\<rparr>))"

definition release :: "string \<Rightarrow> 'st eng \<Rightarrow> 'st eng" where
  "release k s = s\<lparr>enActive := AList.delete k (enActive s)\<rparr>"

text \<open>One compare-and-swap of the engine, on the store part of the state.\<close>

definition casE ::
    "'st cont_ops \<Rightarrow> ctx \<Rightarrow> string \<Rightarrow> u64 \<Rightarrow> cont_record \<Rightarrow> 'st eng \<Rightarrow> cont_error option \<times> 'st eng" where
  "casE S c k expected nx s =
     (case opCas S c k expected nx (enStore s) of (r, st) \<Rightarrow> (r, s\<lparr>enStore := st\<rparr>))"

subsection \<open>Loading and recovery\<close>

definition loadExpected :: "'st cont_ops \<Rightarrow> ctx \<Rightarrow> string \<Rightarrow> u64 \<Rightarrow> 'st eng \<Rightarrow> cont_error + cont_record" where
  "loadExpected S c k expected s =
     bindE (opLoad S c k (enStore s))
       (\<lambda>rc. guardE (fail_if (rcRev rc \<noteq> expected) (ConflictError expected (rcRev rc))) (Inr rc))"

definition validateExpectedRevision :: "u64 \<Rightarrow> cont_error option" where
  "validateExpectedRevision expected = fail_if (expected = 0) ErrInvalid"

definition recoverRecord ::
    "'st cont_ops \<Rightarrow> 'st call_env \<Rightarrow> cont_record \<Rightarrow> 'st eng \<Rightarrow> (cont_error + cont_record) \<times> 'st eng" where
  "recoverRecord S ce cur s0 =
     (let e = rcExecution cur; k = exID e
      in if \<not> recoverable (exStatus e) then (Inr cur, s0)
         else (let s = ceItf ce (''recover'', 0) s0
           in if activeStage s k \<noteq> None then (Inr cur, s)
              else (let nx = nextRecord_c cur (recovered e (utc (ceNow ce (''recover'', 0)))) CauseRecovery
                        ''reconciled orphaned active stage'' (ceNow ce (''recover'', 1))
                in case casE S (ceCtx ce (''recover'', 1)) k (rcRev cur) nx (ceItf ce (''recover'', 1) s) of
                     (None, s') \<Rightarrow> (Inr nx, s')
                   | (Some err, s') \<Rightarrow>
                       if asConflict err
                       then (let s2 = ceItf ce (''recover'', 2) s'
                         in (opLoad S (ceCtx ce (''recover'', 2)) k (enStore s2), s2))
                       else (Inl err, s'))))"

definition controlExecution :: "cont_record \<Rightarrow> execution" where
  "controlExecution rc = (if exID (rcExecution rc) = [] then zero_execution else rcExecution rc)"

subsection \<open>Create, Get and List\<close>

definition createExecution :: "create_request \<Rightarrow> string \<Rightarrow> limits \<Rightarrow> gtime \<Rightarrow> execution" where
  "createExecution r k l now = zero_execution\<lparr>exID := k, exRevision := 1, exStatus := StatusReady,
     exPhase := PhaseWork, exTarget := crTarget r, exWorker := crWorker r, exController := crController r,
     exControllerState := crControllerState r, exNextInput := crInput r,
     exActivation := Some \<lparr>avSource = ActivationInitial, avAt = now, avSignalID = [], avPayload = None\<rparr>,
     exLimits := l, exCreatedAt := now, exUpdatedAt := now\<rparr>"

definition createRecord_c :: "execution \<Rightarrow> gtime \<Rightarrow> cont_record" where
  "createRecord_c e now = \<lparr>rcExecution = e, rcTransition = \<lparr>trRevision = 1, trAt = now,
     trFrom = StatusOther [], trTo = StatusReady, trPhase = PhaseWork, trCause = CauseCreate,
     trAttemptID = [], trSignalID = [], trReason = []\<rparr>\<rparr>"

definition createRequestCheck :: "create_request \<Rightarrow> cont_error + limits" where
  "createRequestCheck r = guardE (first_err
     [validateTarget (crTarget r), validateRef (crWorker r), validateRef (crController r),
      validateJSON_c (crControllerState r) 262144, validateJSON_c (crInput r) 262144])
     (resolveLimits_c (crLimits r))"

definition engineCreate_c ::
    "'st cont_ops \<Rightarrow> 'st call_env \<Rightarrow> create_request \<Rightarrow> 'st eng \<Rightarrow> (cont_error + execution) \<times> 'st eng" where
  "engineCreate_c S ce r s =
     (let now = utc (ceNow ce (''create'', 0))
      in case bindE (createRequestCheck r)
          (\<lambda>l. bindE (if crID r = [] then ceIDs ce ''exec'' now else Inr (crID r))
            (\<lambda>k. guardE (validateID k) (Inr (createExecution r k l now)))) of
        Inl err \<Rightarrow> (Inl err, s)
      | Inr e \<Rightarrow>
         (let s1 = ceItf ce (''create'', 0) s
          in case opCreate S (ceCtx ce (''create'', 0)) (createRecord_c e now) (enStore s1) of
               (None, st) \<Rightarrow> (Inr e, s1\<lparr>enStore := st\<rparr>)
             | (Some err, st) \<Rightarrow> (Inl err, s1\<lparr>enStore := st\<rparr>)))"

definition engineGet_c ::
    "'st cont_ops \<Rightarrow> 'st call_env \<Rightarrow> string \<Rightarrow> 'st eng \<Rightarrow> (cont_error + execution) \<times> 'st eng" where
  "engineGet_c S ce k s =
     (let s1 = ceItf ce (''get'', 0) s
      in case opLoad S (ceCtx ce (''get'', 0)) k (enStore s1) of
           Inl err \<Rightarrow> (Inl err, s1)
         | Inr rc \<Rightarrow> (case recoverRecord S ce rc s1 of
               (Inl err, s2) \<Rightarrow> (Inl err, s2)
             | (Inr rc', s2) \<Rightarrow> (Inr (rcExecution rc'), s2)))"

text \<open>Each element of a page is read again with \<open>Get\<close>; \<open>ces\<close> gives each of these calls its environment.\<close>

fun getAll ::
    "'st cont_ops \<Rightarrow> (nat \<Rightarrow> 'st call_env) \<Rightarrow> execution list \<Rightarrow> 'st eng
       \<Rightarrow> (cont_error + execution list) \<times> 'st eng" where
  "getAll S ces [] s = (Inr [], s)"
| "getAll S ces (e # es) s = (case engineGet_c S (ces 0) (exID e) s of
       (Inl err, s1) \<Rightarrow> (Inl err, s1)
     | (Inr e', s1) \<Rightarrow> (case getAll S (\<lambda>n. ces (Suc n)) es s1 of
           (Inl err, s2) \<Rightarrow> (Inl err, s2)
         | (Inr es', s2) \<Rightarrow> (Inr (e' # es'), s2)))"

definition engineList_c ::
    "'st cont_ops \<Rightarrow> ctx \<Rightarrow> (nat \<Rightarrow> 'st call_env) \<Rightarrow> list_options \<Rightarrow> 'st eng
       \<Rightarrow> (cont_error + list_page) \<times> 'st eng" where
  "engineList_c S c ces opt s = (case opList S c opt (enStore s) of
       Inl err \<Rightarrow> (Inl err, s)
     | Inr page \<Rightarrow> (case getAll S ces (lpExecutions page) s of
           (Inl err, s1) \<Rightarrow> (Inl err, s1)
         | (Inr es, s1) \<Rightarrow> (Inr (page\<lparr>lpExecutions := es\<rparr>), s1)))"

subsection \<open>Control operations\<close>

definition controlRecord ::
    "'st cont_ops \<Rightarrow> 'st call_env \<Rightarrow> string \<Rightarrow> u64 \<Rightarrow> 'st eng
       \<Rightarrow> (cont_record \<times> cont_error option) \<times> 'st eng" where
  "controlRecord S ce k expected s =
     (case validateExpectedRevision expected of
        Some err \<Rightarrow> ((zero_record, Some err), s)
      | None \<Rightarrow>
         (let s1 = ceItf ce (''load'', 0) s
          in case loadExpected S (ceCtx ce (''load'', 0)) k expected s1 of
               Inl err \<Rightarrow> ((zero_record, Some err), s1)
             | Inr cur \<Rightarrow> (case recoverRecord S ce cur s1 of
                   (Inl err, s2) \<Rightarrow> ((cur, Some err), s2)
                 | (Inr rc, s2) \<Rightarrow>
                     if rcRev rc \<noteq> expected
                     then ((rc, Some (ConflictError expected (rcRev rc))), s2)
                     else ((rc, None), s2))))"

text \<open>Every control method but \<open>Signal\<close>: load, step, compare-and-swap.\<close>

definition controlOp ::
    "'st cont_ops \<Rightarrow> 'st call_env \<Rightarrow> string \<Rightarrow> u64 \<Rightarrow> control \<Rightarrow> 'st eng
       \<Rightarrow> (execution \<times> cont_error option) \<times> 'st eng" where
  "controlOp S ce k expected c s =
     (case controlRecord S ce k expected s of
        ((rc, Some err), s1) \<Rightarrow> ((controlExecution rc, Some err), s1)
      | ((cur, None), s1) \<Rightarrow>
         (case controlStep c (ceNow ce (''control'', 0)) (rcExecution cur) of
            Refuse err \<Rightarrow> ((rcExecution cur, Some err), s1)
          | Unchanged \<Rightarrow> ((rcExecution cur, None), s1)
          | Change e ca reason sid \<Rightarrow>
             (let nx = controlRecordOf cur e ca reason sid (ceNow ce (''control'', 1))
              in case casE S (ceCtx ce (''control'', 1)) k expected nx (ceItf ce (''control'', 1) s1) of
                   (None, s2) \<Rightarrow> ((rcExecution nx, None), s2)
                 | (Some err, s2) \<Rightarrow> ((rcExecution cur, Some err), s2))))"

text \<open>\<open>Signal\<close> looks for an earlier delivery of the same ID, before it loads and after a conflict.\<close>

definition delivered :: "string \<Rightarrow> cont_record list \<Rightarrow> bool" where
  "delivered sid rs \<longleftrightarrow>
     (\<exists>rc \<in> set rs. trCause (rcTransition rc) = CauseSignal \<and> trSignalID (rcTransition rc) = sid)"

definition duplicateSignal ::
    "'st cont_ops \<Rightarrow> 'st call_env \<Rightarrow> string \<Rightarrow> string \<Rightarrow> 'st eng
       \<Rightarrow> (cont_error + execution option) \<times> 'st eng" where
  "duplicateSignal S ce k sid s =
     (let s1 = ceItf ce (''duplicate'', 0) s
      in case opHistory S (ceCtx ce (''duplicate'', 0)) k (enStore s1) of
           Inl err \<Rightarrow> (Inl err, s1)
         | Inr rs \<Rightarrow>
             if delivered sid rs
             then (let s2 = ceItf ce (''duplicate'', 1) s1
               in (bindE (opLoad S (ceCtx ce (''duplicate'', 1)) k (enStore s2))
                     (\<lambda>rc. Inr (Some (rcExecution rc))), s2))
             else (Inr None, s1))"

definition signalConflict ::
    "'st cont_ops \<Rightarrow> 'st call_env \<Rightarrow> string \<Rightarrow> string \<Rightarrow> cont_error \<Rightarrow> 'st eng
       \<Rightarrow> (execution \<times> cont_error option) \<times> 'st eng" where
  "signalConflict S ce k sid conflict s =
     (let s1 = ceItf ce (''conflict'', 0) s
      in case opHistory S (ceCtx ce (''conflict'', 0)) k (enStore s1) of
           Inl err \<Rightarrow> ((zero_execution, Some err), s1)
         | Inr rs \<Rightarrow>
             if rs = [] then ((zero_execution, Some (Panic ''index out of range'')), s1)
             else ((rcExecution (last rs), if delivered sid rs then None else Some conflict), s1))"

definition engineSignal ::
    "'st cont_ops \<Rightarrow> 'st call_env \<Rightarrow> string \<Rightarrow> u64 \<Rightarrow> signal \<Rightarrow> 'st eng
       \<Rightarrow> (execution \<times> cont_error option) \<times> 'st eng" where
  "engineSignal S ce k expected sg s =
     (case validateSignal sg of
        Some err \<Rightarrow> ((zero_execution, Some err), s)
      | None \<Rightarrow>
         (case duplicateSignal S ce k (sgID sg) s of
            (Inl err, s1) \<Rightarrow> ((zero_execution, Some err), s1)
          | (Inr (Some e), s1) \<Rightarrow> ((e, None), s1)
          | (Inr None, s1) \<Rightarrow>
             (case controlRecord S ce k expected s1 of
                ((rc, Some err), s2) \<Rightarrow> ((controlExecution rc, Some err), s2)
              | ((cur, None), s2) \<Rightarrow>
                 (case deliverSignal sg (ceNow ce (''control'', 0)) (rcExecution cur) of
                    Refuse err \<Rightarrow> ((rcExecution cur, Some err), s2)
                  | Unchanged \<Rightarrow> ((rcExecution cur, None), s2)
                  | Change e ca reason sid \<Rightarrow>
                     (let nx = controlRecordOf cur e ca reason sid (ceNow ce (''control'', 1))
                      in case casE S (ceCtx ce (''control'', 1)) k expected nx (ceItf ce (''control'', 1) s2) of
                           (None, s3) \<Rightarrow> ((rcExecution nx, None), s3)
                         | (Some err, s3) \<Rightarrow>
                             if errorsIs_c err ErrConflict then signalConflict S ce k (sgID sg) err s3
                             else ((rcExecution cur, Some err), s3))))))"

end
