(* ===== verification/ContInvariant.thy ===== *)
theory ContInvariant
  imports ContEngine
begin

section \<open>Continuation: the invariant of an execution and the steps that keep it\<close>

text \<open>
  \<open>validateExecution\<close> checks one snapshot. \<open>exec_inv\<close> adds what the operations keep between the
  fields: the current attempt is the last one counted and has no decision yet, a stage that is
  running has not recorded its result, waiting and blocked executions have no attempt under way, and
  a suspension holds a state that \<open>Resume\<close> can restore. \<open>exec_step\<close> collects the steps of the
  operations; each of them keeps the invariant.
\<close>

subsection \<open>What validation says of each status\<close>

lemma validateExecutionD:
  assumes "validateExecution e = None"
  shows "validateExecutionIdentity e = None" "validateExecutionPayloads e = None"
    "validateAttempt_c (exCurrentAttempt e) (acAttempts (exAccounting e)) = None"
    "validateAttempt_c (exLastAttempt e) (acAttempts (exAccounting e)) = None"
    "0 \<le> acAttempts (exAccounting e)" "0 \<le> acTurns (exAccounting e)"
    "0 \<le> acActiveDuration (exAccounting e)" "validUsage (acUsage (exAccounting e))"
    "validateStatusState e = None"
  using assms by (auto simp: validateExecution_def validateExecutionState_def Let_def)

lemma validate_Ready:
  "exStatus e = StatusReady \<Longrightarrow> validateStatusState e = None \<longleftrightarrow>
     exWait e = None \<and> exBlock e = None \<and> exSuspension e = None \<and>
     (exPhase e = PhaseDecision \<longrightarrow> (\<exists>a w. exCurrentAttempt e = Some a \<and> atWork a = Some w))"
  by (auto simp: validateStatusState_def validateReadyState_def split: option.splits)

lemma validate_active:
  "recoverable (exStatus e) \<Longrightarrow> validateStatusState e = None \<longleftrightarrow>
     (\<exists>a. exCurrentAttempt e = Some a \<and> atPhase a = exPhase e \<and>
       (exPhase e = PhaseDecision \<longrightarrow> (\<exists>w. atWork a = Some w)))"
  by (auto simp: recoverable_def validateStatusState_def validateActiveState_def split: option.splits)

lemma validate_other:
  "exStatus e = StatusWaiting \<Longrightarrow> validateStatusState e = None \<longleftrightarrow> exWait e \<noteq> None \<and> exPhase e = PhaseWork"
  "exStatus e = StatusBlocked \<Longrightarrow> validateStatusState e = None \<longleftrightarrow> exBlock e \<noteq> None \<and> exPhase e = PhaseWork"
  "exStatus e = StatusPaused \<Longrightarrow> validateStatusState e = None \<longleftrightarrow> exSuspension e \<noteq> None"
  "exStatus e = StatusInterrupted \<Longrightarrow> validateStatusState e = None \<longleftrightarrow> exCurrentAttempt e \<noteq> None"
  "terminal (exStatus e) \<Longrightarrow> validateStatusState e = None"
  by (auto simp: validateStatusState_def validateWaitingState_def validateBlockedState_def
      validatePausedState_def validateInterruptedState_def terminal_def split: status.splits)

lemma recoverable_simps [simp]:
  "recoverable StatusRunning" "recoverable StatusPauseRequested" "recoverable StatusCancelRequested"
  "\<not> recoverable StatusReady" "\<not> recoverable StatusWaiting" "\<not> recoverable StatusBlocked"
  "\<not> recoverable StatusPaused" "\<not> recoverable StatusInterrupted" "\<not> recoverable StatusCompleted"
  "\<not> recoverable StatusFailed" "\<not> recoverable StatusCancelled" "\<not> recoverable StatusLimited"
  "\<not> recoverable (StatusOther x)"
  by (simp_all add: recoverable_def)

lemma terminal_simps [simp]:
  "terminal StatusCompleted" "terminal StatusFailed" "terminal StatusCancelled" "terminal StatusLimited"
  "\<not> terminal StatusReady" "\<not> terminal StatusRunning" "\<not> terminal StatusWaiting"
  "\<not> terminal StatusPauseRequested" "\<not> terminal StatusPaused" "\<not> terminal StatusBlocked"
  "\<not> terminal StatusInterrupted" "\<not> terminal StatusCancelRequested" "\<not> terminal (StatusOther x)"
  by (simp_all add: terminal_def)

lemma recoverable_not_terminal: "recoverable s \<Longrightarrow> \<not> terminal s"
  by (auto simp: recoverable_def)

subsection \<open>The invariant\<close>

definition has_work :: "execution \<Rightarrow> bool" where
  "has_work e \<longleftrightarrow> (\<exists>a w. exCurrentAttempt e = Some a \<and> atWork a = Some w)"

definition idle :: "execution \<Rightarrow> bool" where
  "idle e \<longleftrightarrow> exWait e = None \<and> exBlock e = None \<and> exSuspension e = None"

definition attempts_inv :: "execution \<Rightarrow> bool" where
  "attempts_inv e \<longleftrightarrow>
     (\<forall>a. exCurrentAttempt e = Some a \<longrightarrow> atNumber a = acAttempts (exAccounting e) \<and> atDecision a = None \<and>
        (\<forall>b. exLastAttempt e = Some b \<longrightarrow> atNumber b < atNumber a))
   \<and> (0 < liMaxAttempts (exLimits e) \<longrightarrow> acAttempts (exAccounting e) \<le> liMaxAttempts (exLimits e))"

definition staged :: "execution \<Rightarrow> bool" where
  "staged e \<longleftrightarrow> (\<exists>a. exCurrentAttempt e = Some a \<and> atPhase a = exPhase e \<and>
     (exPhase e = PhaseDecision) = (atWork a \<noteq> None))"

definition suspension_inv :: "execution \<Rightarrow> suspension \<Rightarrow> bool" where
  "suspension_inv e s \<longleftrightarrow> suPhase s = exPhase e \<and> (case suStatus s of
       StatusReady \<Rightarrow> suWait s = None \<and> suBlock s = None \<and>
         (if suRetryRequired s then suPhase s = PhaseWork \<and> exCurrentAttempt e \<noteq> None
          else if suPhase s = PhaseDecision then has_work e else exCurrentAttempt e = None)
     | StatusWaiting \<Rightarrow> suPhase s = PhaseWork \<and> suWait s \<noteq> None \<and> suBlock s = None \<and>
         exCurrentAttempt e = None \<and> \<not> suRetryRequired s
     | StatusBlocked \<Rightarrow> suPhase s = PhaseWork \<and> suBlock s \<noteq> None \<and> suWait s = None \<and>
         exCurrentAttempt e = None \<and> \<not> suRetryRequired s
     | StatusInterrupted \<Rightarrow> suWait s = None \<and> suBlock s = None \<and> exCurrentAttempt e \<noteq> None \<and>
         (suPhase s = PhaseDecision \<longrightarrow> has_work e) \<and> suRetryRequired s = (suPhase s = PhaseWork)
     | _ \<Rightarrow> False)"

definition state_inv :: "execution \<Rightarrow> bool" where
  "state_inv e \<longleftrightarrow> (case exStatus e of
       StatusReady \<Rightarrow> idle e \<and> (if exPhase e = PhaseDecision then has_work e else exCurrentAttempt e = None)
     | StatusWaiting \<Rightarrow> exWait e \<noteq> None \<and> exBlock e = None \<and> exSuspension e = None \<and>
         exPhase e = PhaseWork \<and> exCurrentAttempt e = None
     | StatusBlocked \<Rightarrow> exBlock e \<noteq> None \<and> exWait e = None \<and> exSuspension e = None \<and>
         exPhase e = PhaseWork \<and> exCurrentAttempt e = None
     | StatusInterrupted \<Rightarrow> idle e \<and> exCurrentAttempt e \<noteq> None \<and>
         (exPhase e = PhaseDecision \<longrightarrow> has_work e)
     | StatusPaused \<Rightarrow> exWait e = None \<and> exBlock e = None \<and>
         (\<exists>s. exSuspension e = Some s \<and> suspension_inv e s)
     | StatusOther _ \<Rightarrow> False
     | st \<Rightarrow> terminal st \<or> idle e \<and> staged e)"

definition accounting_i64 :: "accounting \<Rightarrow> bool" where
  "accounting_i64 a \<longleftrightarrow> acAttempts a < 2 ^ 63 \<and> acTurns a < 2 ^ 63 \<and> acActiveDuration a < 2 ^ 63 \<and>
     InputTokens (acUsage a) < 2 ^ 63 \<and> OutputTokens (acUsage a) < 2 ^ 63 \<and>
     ReasoningTokens (acUsage a) < 2 ^ 63 \<and> CachedInputTokens (acUsage a) < 2 ^ 63 \<and>
     CacheWriteTokens (acUsage a) < 2 ^ 63"

definition exec_inv :: "execution \<Rightarrow> bool" where
  "exec_inv e \<longleftrightarrow> validateExecution e = None \<and> attempts_inv e \<and> state_inv e \<and>
     accounting_i64 (exAccounting e)"

lemma exec_invD:
  assumes "exec_inv e"
  shows "validateExecution e = None" "attempts_inv e" "state_inv e" "accounting_i64 (exAccounting e)"
  using assms by (simp_all add: exec_inv_def)

lemma state_inv_Ready: "state_inv e \<Longrightarrow> exStatus e = StatusReady \<Longrightarrow>
    idle e \<and> (if exPhase e = PhaseDecision then has_work e else exCurrentAttempt e = None)"
  by (simp add: state_inv_def)

lemma state_inv_active: "state_inv e \<Longrightarrow> recoverable (exStatus e) \<Longrightarrow>
    idle e \<and> staged e"
  by (auto simp: state_inv_def recoverable_def)

lemma state_inv_terminal: "terminal (exStatus e) \<Longrightarrow> state_inv e"
  by (auto simp: state_inv_def terminal_def split: status.splits)

subsection \<open>The steps\<close>

text \<open>
  One rule per way an operation makes the next record, with the conditions under which the
  operation reaches it. \<open>i64_result\<close> and \<open>i64_decision\<close> say that counters are Go integers.
\<close>

definition i64_usage :: "usage \<Rightarrow> bool" where
  "i64_usage u \<longleftrightarrow> InputTokens u < 2 ^ 63 \<and> OutputTokens u < 2 ^ 63 \<and> ReasoningTokens u < 2 ^ 63 \<and>
     CachedInputTokens u < 2 ^ 63 \<and> CacheWriteTokens u < 2 ^ 63"

inductive exec_step :: "execution \<Rightarrow> cause \<Rightarrow> execution \<Rightarrow> bool" where
  start_work: "exStatus e = StatusReady \<Longrightarrow> exPhase e = PhaseWork \<Longrightarrow>
     \<not> limit_reached (exLimits e) (exAccounting e) PhaseWork t \<Longrightarrow>
     exec_step e CauseStageStart (startWork e i now)"
| start_decision: "exStatus e = StatusReady \<Longrightarrow> exPhase e = PhaseDecision \<Longrightarrow>
     exCurrentAttempt e = Some a \<Longrightarrow> exec_step e CauseStageStart (startDecision e a now)"
| work_done: "recoverable (exStatus e) \<Longrightarrow> exPhase e = PhaseWork \<Longrightarrow>
     wrTurns r < 2 ^ 63 \<Longrightarrow> i64_usage (wrUsage r) \<Longrightarrow> workOutcome tx e r err clock = (e', c) \<Longrightarrow>
     exec_step e c e'"
| decision_done: "recoverable (exStatus e) \<Longrightarrow> exPhase e = PhaseDecision \<Longrightarrow>
     i64_usage (dcUsage d) \<Longrightarrow> err = None \<longrightarrow> validateDecision d = None \<Longrightarrow>
     decisionOutcome tx e d err clock = (e', c) \<Longrightarrow> exec_step e c e'"
| limited: "\<not> terminal (exStatus e) \<Longrightarrow> exStatus e = StatusReady \<Longrightarrow>
     reason = limitReason (exLimits e) (exAccounting e) (exPhase e) t \<Longrightarrow> reason \<noteq> [] \<Longrightarrow>
     exec_step e CauseLimit (limitedExecution e reason)"
| recovery: "recoverable (exStatus e) \<Longrightarrow> exec_step e CauseRecovery (recovered e now)"
| control: "controlStep c clock e = Change e' ca reason sid \<Longrightarrow> exec_step e ca e'"

text \<open>The steps other goroutines can take on an execution whose stage is reserved.\<close>

definition control_step :: "execution \<Rightarrow> execution \<Rightarrow> bool" where
  "control_step e e' \<longleftrightarrow> (\<exists>c clock ca reason sid. controlStep c clock e = Change e' ca reason sid)"


subsection \<open>Every step keeps the invariant\<close>

abbreviation stampE :: "u64 \<Rightarrow> gtime \<Rightarrow> execution \<Rightarrow> execution" where
  "stampE n t e \<equiv> e\<lparr>exRevision := n, exUpdatedAt := t\<rparr>"

lemma stamp_parts [simp]:
  "attempts_inv (stampE n t e) = attempts_inv e" "idle (stampE n t e) = idle e"
  "has_work (stampE n t e) = has_work e" "staged (stampE n t e) = staged e"
  by (simp_all add: attempts_inv_def idle_def has_work_def staged_def)

lemma stamp_suspension [simp]: "suspension_inv (stampE n t e) s = suspension_inv e s"
  by (cases "suStatus s") (simp_all add: suspension_inv_def)

lemma stamp_state [simp]: "state_inv (stampE n t e) = state_inv e"
  by (cases "exStatus e") (simp_all add: state_inv_def)

lemma nextRecord_execution [simp]:
  "rcExecution (nextRecord_c cur e c r clock) = stampE (exRevision (rcExecution cur) + 1) (utc clock) e"
  "rcExecution (controlRecordOf cur e c r sid clock) = stampE (exRevision (rcExecution cur) + 1) (utc clock) e"
  by (simp_all add: nextRecord_c_def controlRecordOf_def Let_def)

lemma chargeStage_simps [simp]:
  "acAttempts (chargeStage a t u) = acAttempts a" "acTurns (chargeStage a t u) = acTurns a"
  "acUsage (chargeStage a t u) = acUsage a"
  by (simp_all add: chargeStage_def addDuration_def)

lemma addAccounting_attempts [simp]:
  "acAttempts (addWorkAccounting a r) = acAttempts a" "acAttempts (addDecisionAccounting a d) = acAttempts a"
  by (simp_all add: addWorkAccounting_def addDecisionAccounting_def Let_def)

lemma charge_i64: "accounting_i64 a \<Longrightarrow> accounting_i64 (chargeStage a t u)"
  using i64_range by (auto simp: chargeStage_def addDuration_def accounting_i64_def)

lemma addWork_i64: "accounting_i64 a \<Longrightarrow> accounting_i64 (addWorkAccounting a r)"
  using i64_range by (auto simp: addWorkAccounting_def accounting_i64_def usageAdd_def Let_def)

lemma addDecision_i64: "accounting_i64 a \<Longrightarrow> accounting_i64 (addDecisionAccounting a d)"
  using i64_range by (auto simp: addDecisionAccounting_def accounting_i64_def usageAdd_def)

lemma applyDecision_simps [simp]:
  "exCurrentAttempt (applyDecision e d) = exCurrentAttempt e" "exLastAttempt (applyDecision e d) = exLastAttempt e"
  "exAccounting (applyDecision e d) = exAccounting e" "exLimits (applyDecision e d) = exLimits e"
  "exSuspension (applyDecision e d) = exSuspension e" "exNextInput (applyDecision e d) = exNextInput e"
  "exControllerState (applyDecision e d) = exControllerState e" "exID (applyDecision e d) = exID e"
  "exReason (applyDecision e d) = exReason e" "exActivation (applyDecision e d) = exActivation e"
  by (simp_all add: applyDecision_def split: action.splits)

lemma decided_simps [simp]:
  "exCurrentAttempt (decided e a d) = None" "exLimits (decided e a d) = exLimits e"
  "exAccounting (decided e a d) = addDecisionAccounting (exAccounting e) d" "exSuspension (decided e a d) = None"
  "exLastAttempt (decided e a d) = Some (a\<lparr>atDecision := Some d, atFailure := None, atInterrupted := False\<rparr>)"
  "exID (decided e a d) = exID e"
  by (simp_all add: decided_def)

lemma validate_some:
  "validateWait w = None \<Longrightarrow> w \<noteq> None" "validateBlock b = None \<Longrightarrow> b \<noteq> None"
  by (cases w; simp add: validateWait_def) (cases b; simp add: validateBlock_def)

lemma decided_state:
  assumes "validateDecision d = None"
  shows "state_inv (decided e a d)"
proof -
  have v: "validateDecisionAction d = None" using assms by (simp add: validateDecision_def)
  show ?thesis
  proof (cases "dcAction d")
    case (ActionOther x)
    with v show ?thesis by (simp add: validateDecisionAction_def)
  qed (use v in \<open>auto simp: state_inv_def decided_def applyDecision_def idle_def has_work_def
      validateDecisionAction_def dest: validate_some\<close>)
qed

text \<open>Starting Work: the attempt that starts is the next one, within the limit.\<close>

lemma start_work_inv:
  assumes inv: "exec_inv e" and st: "exStatus e = StatusReady" "exPhase e = PhaseWork"
    and lim: "\<not> limit_reached (exLimits e) (exAccounting e) PhaseWork t"
    and pos: "0 \<le> acAttempts (exAccounting (startWork e i now))"
  shows "attempts_inv (startWork e i now) \<and> state_inv (startWork e i now) \<and>
    accounting_i64 (exAccounting (startWork e i now))"
proof -
  note d = exec_invD [OF inv]
  note v = validateExecutionD [OF d(1)]
  let ?n = "acAttempts (exAccounting e)"
  have n: "i64 (?n + 1) = ?n + 1"
    using i64_sum [of ?n 1] v(5) d(4) pos by (auto simp: accounting_i64_def startWork_def Let_def)
  have none: "exCurrentAttempt e = None" using state_inv_Ready [OF d(3) st(1)] st(2) by simp
  have idle: "idle e" using state_inv_Ready [OF d(3) st(1)] by simp
  have "atNumber b \<le> ?n" if "exLastAttempt e = Some b" for b
    using v(4) that by (auto simp: validateAttempt_c_def validateAttemptIdentity_def)
  moreover have "?n < liMaxAttempts (exLimits e)" if "0 < liMaxAttempts (exLimits e)"
    using lim that by (auto simp: limit_reached_def)
  ultimately have "attempts_inv (startWork e i now)"
    using none n d(2) by (fastforce simp: attempts_inv_def startWork_def Let_def)
  moreover have "state_inv (startWork e i now)"
    using idle none by (simp add: state_inv_def startWork_def Let_def idle_def staged_def)
  moreover have "accounting_i64 (exAccounting (startWork e i now))"
    using d(4) i64_range by (auto simp: startWork_def Let_def accounting_i64_def)
  ultimately show ?thesis by blast
qed

lemma start_decision_inv:
  assumes inv: "exec_inv e" and st: "exStatus e = StatusReady" "exPhase e = PhaseDecision"
    and a: "exCurrentAttempt e = Some a"
  shows "attempts_inv (startDecision e a now) \<and> state_inv (startDecision e a now) \<and>
    accounting_i64 (exAccounting (startDecision e a now))"
  using exec_invD [OF inv] state_inv_Ready [of e] st a
  by (auto simp: startDecision_def attempts_inv_def state_inv_def idle_def has_work_def staged_def)

lemma work_done_inv:
  assumes inv: "exec_inv e" and st: "recoverable (exStatus e)" "exPhase e = PhaseWork"
    and run: "workOutcome tx e r err clock = (e', c)"
  shows "attempts_inv e' \<and> state_inv e' \<and> accounting_i64 (exAccounting e')"
proof -
  note d = exec_invD [OF inv]
  from state_inv_active [OF d(3) st(1)] obtain a where a: "exCurrentAttempt e = Some a" and idle: "idle e"
    by (auto simp: staged_def)
  have acc: "accounting_i64 (addWorkAccounting (chargeStage (exAccounting e) (atWorkStartedAt a) (utc clock)) r)"
    by (intro addWork_i64 charge_i64 d(4))
  from st(1) consider "exStatus e = StatusRunning" | "exStatus e = StatusPauseRequested"
    | "exStatus e = StatusCancelRequested" by (auto simp: recoverable_def)
  then show ?thesis
    using run a idle d(2) acc
    by cases (auto simp: workOutcome_def workedAttempt_def interruptedAttempt_def resumeAt_def Let_def
        attempts_inv_def state_inv_def idle_def has_work_def suspension_inv_def split: if_splits)
qed

lemma decision_done_inv:
  assumes inv: "exec_inv e" and st: "recoverable (exStatus e)" "exPhase e = PhaseDecision"
    and dec: "err = None \<longrightarrow> validateDecision d = None"
    and run: "decisionOutcome tx e d err clock = (e', c)"
  shows "attempts_inv e' \<and> state_inv e' \<and> accounting_i64 (exAccounting e')"
proof -
  note d = exec_invD [OF inv]
  from state_inv_active [OF d(3) st(1)] obtain a where a: "exCurrentAttempt e = Some a" and idle: "idle e"
    and w: "atWork a \<noteq> None" using st(2) by (auto simp: staged_def)
  have acc: "accounting_i64 (chargeStage (exAccounting e) t u)" for t u by (rule charge_i64 [OF d(4)])
  from st(1) consider "exStatus e = StatusRunning" | "exStatus e = StatusPauseRequested"
    | "exStatus e = StatusCancelRequested" by (auto simp: recoverable_def)
  then show ?thesis
  proof cases
    case 1
    show ?thesis
    proof (cases err)
      case None
      with 1 run a have e': "e' = decided (e\<lparr>exAccounting := chargeStage (exAccounting e) (atDecisionStartedAt a) (utc clock)\<rparr>)
          (a\<lparr>atDecisionEndedAt := utc clock\<rparr>) d"
        by (auto simp: decisionOutcome_def Let_def)
      show ?thesis using decided_state [of d] dec None d(2) addDecision_i64 [OF acc]
        by (simp add: e' attempts_inv_def)
    next
      case (Some x)
      with 1 run a idle w d(2) acc show ?thesis
        by (auto simp: decisionOutcome_def interruptedAttempt_def Let_def attempts_inv_def state_inv_def
            idle_def has_work_def)
    qed
  qed (use run a idle w d(2) acc in \<open>auto simp: decisionOutcome_def resumeAt_def Let_def attempts_inv_def
        state_inv_def idle_def has_work_def suspension_inv_def st(2)\<close>)
qed

lemma recovered_inv:
  assumes inv: "exec_inv e" and st: "recoverable (exStatus e)"
  shows "attempts_inv (recovered e now) \<and> state_inv (recovered e now) \<and>
    accounting_i64 (exAccounting (recovered e now))"
proof -
  note d = exec_invD [OF inv]
  from state_inv_active [OF d(3) st(1)] obtain a where a: "exCurrentAttempt e = Some a" and idle: "idle e"
    and w: "(exPhase e = PhaseDecision) = (atWork a \<noteq> None)" by (auto simp: staged_def)
  have ph: "exPhase e = PhaseWork \<or> exPhase e = PhaseDecision"
    using validateExecutionD(1) [OF d(1)] by (simp add: validateExecutionIdentity_def validPhase_def)
  have acc: "accounting_i64 (chargeStage (exAccounting e) t u)" for t u by (rule charge_i64 [OF d(4)])
  from st(1) consider "exStatus e = StatusRunning" | "exStatus e = StatusPauseRequested"
    | "exStatus e = StatusCancelRequested" by (auto simp: recoverable_def)
  then show ?thesis
    using a idle w ph d(2) acc
    by cases (auto simp: recovered_def chargeOrphanDuration_def markAttemptInterrupted_def
        interruptedAttempt_def recoverySuspension_def Let_def attempts_inv_def state_inv_def idle_def
        has_work_def suspension_inv_def split: option.splits)
qed


text \<open>The control operations.\<close>

lemmas control_defs = pause_def resume_def retryWork_def retryDecision_def resolveBlock_def
  deliverSignal_def resumeDue_def cancel_def failExecution_def terminalCheck_def

lemma control_Change:
  assumes "controlStep c clock e = Change e' ca r sid"
  shows "\<not> terminal (exStatus e)" "exAccounting e' = exAccounting e" "exLimits e' = exLimits e"
    "exID e' = exID e"
  using assms by (cases c; auto simp: control_defs validateSignalTarget_def terminal_def Let_def
      split: if_splits option.splits status.splits)+

lemma pause_inv:
  assumes "exec_inv e" "pause r e = Change e' ca r' sid"
  shows "attempts_inv e' \<and> state_inv e'"
proof -
  note d = exec_invD [OF assms(1)]
  have ph: "exPhase e = PhaseWork \<or> exPhase e = PhaseDecision"
    using validateExecutionD(1) [OF d(1)] by (simp add: validateExecutionIdentity_def validPhase_def)
  show ?thesis
    using d(2,3) ph assms(2)
    by (cases "exStatus e") (auto simp: pause_def terminalCheck_def pauseSuspension_def attempts_inv_def
        state_inv_def idle_def has_work_def staged_def suspension_inv_def split: if_splits)
qed

lemma resume_inv:
  assumes "exec_inv e" "resume r e = Change e' ca r' sid"
  shows "attempts_inv e' \<and> state_inv e'"
proof -
  note d = exec_invD [OF assms(1)]
  from assms(2) obtain s where s: "exSuspension e = Some s" "exStatus e = StatusPaused" "\<not> suRetryRequired s"
      and e': "e' = e\<lparr>exStatus := suStatus s, exPhase := suPhase s, exWait := suWait s,
             exBlock := suBlock s, exSuspension := None, exReason := r\<rparr>"
    by (auto simp: resume_def split: option.splits)
  have "suspension_inv e s" using d(3) s by (simp add: state_inv_def)
  with s d(2) show ?thesis
    by (cases "suStatus s") (auto simp: e' attempts_inv_def state_inv_def idle_def has_work_def
        suspension_inv_def)
qed

lemma retryWork_inv:
  assumes "exec_inv e" "retryWork r e = Change e' ca r' sid"
  shows "attempts_inv e' \<and> state_inv e'"
proof -
  note d = exec_invD [OF assms(1)]
  have st: "exStatus e = StatusInterrupted \<or> exStatus e = StatusPaused" "exWait e = None" "exBlock e = None"
    using assms(2) d(3) by (auto simp: retryWork_def retryable_def state_inv_def idle_def split: option.splits if_splits)
  then show ?thesis
    using d(2) assms(2) by (auto simp: retryWork_def Let_def attempts_inv_def state_inv_def idle_def
        split: option.splits)
qed

lemma retryDecision_inv:
  assumes "exec_inv e" "retryDecision r e = Change e' ca r' sid"
  shows "attempts_inv e' \<and> state_inv e'"
  using exec_invD [OF assms(1)] assms(2)
  by (auto simp: retryDecision_def attempts_inv_def state_inv_def idle_def has_work_def split: option.splits)

lemma wake_inv:
  assumes "exec_inv e" "controlStep c clock e = Change e' ca r' sid"
    "c = ResolveBlock p \<or> c = ResumeDue \<or> c = DeliverSignal sg"
  shows "attempts_inv e' \<and> state_inv e'"
proof -
  note d = exec_invD [OF assms(1)]
  have "exStatus e = StatusBlocked \<or> exStatus e = StatusWaiting"
    using assms(2,3) by (auto simp: control_defs validateSignalTarget_def split: option.splits)
  with d(2,3) assms(2,3) show ?thesis
    by (auto simp: control_defs validateSignalTarget_def attempts_inv_def state_inv_def idle_def
        split: option.splits)
qed

lemma stop_inv:
  assumes "exec_inv e" "controlStep c clock e = Change e' ca r' sid" "c = Cancel p \<or> c = Fail p"
  shows "attempts_inv e' \<and> state_inv e'"
  using exec_invD [OF assms(1)] assms(2,3)
  by (auto simp: control_defs attempts_inv_def state_inv_terminal state_inv_def idle_def staged_def split: if_splits)

lemma control_inv:
  assumes "exec_inv e" "controlStep c clock e = Change e' ca r' sid"
  shows "attempts_inv e' \<and> state_inv e'"
proof (cases c)
  case (Pause r) then show ?thesis using pause_inv [OF assms(1)] assms(2) by (simp only: controlStep.simps)
next
  case (Resume r) then show ?thesis using resume_inv [OF assms(1)] assms(2) by (simp only: controlStep.simps)
next
  case (RetryWork r) then show ?thesis using retryWork_inv [OF assms(1)] assms(2) by (simp only: controlStep.simps)
next
  case (RetryDecision r) then show ?thesis
    using retryDecision_inv [OF assms(1)] assms(2) by (simp only: controlStep.simps)
qed (use wake_inv [OF assms] stop_inv [OF assms] in blast)+

theorem step_inv:
  assumes inv: "exec_inv e" and step: "exec_step e c e'" and v: "validateExecution (stampE n t e') = None"
  shows "exec_inv (stampE n t e')"
proof -
  note acc = validateExecutionD(5) [OF v, simplified]
  have "attempts_inv e' \<and> state_inv e' \<and> accounting_i64 (exAccounting e')"
    using step inv acc
  proof (cases rule: exec_step.cases)
    case (start_work t i now)
    then show ?thesis using start_work_inv [OF inv] acc by blast
  next
    case (start_decision a now)
    then show ?thesis using start_decision_inv [OF inv] by blast
  next
    case (work_done r tx err clock)
    then show ?thesis using work_done_inv [OF inv] by blast
  next
    case (decision_done d err tx clock)
    then show ?thesis using decision_done_inv [OF inv] by blast
  next
    case (limited reason t)
    then show ?thesis using exec_invD [OF inv]
      by (auto simp: limitedExecution_def attempts_inv_def state_inv_terminal)
  next
    case (recovery now)
    then show ?thesis using recovered_inv [OF inv] by blast
  next
    case (control c clock reason sid)
    then show ?thesis using control_inv [OF inv] control_Change(2) exec_invD(4) [OF inv] by metis
  qed
  with v show ?thesis by (simp add: exec_inv_def)
qed

lemma step_not_terminal: "exec_step e c e' \<Longrightarrow> \<not> terminal (exStatus e)"
  by (cases rule: exec_step.cases) (auto simp: recoverable_not_terminal control_Change)

end
