(* ===== verification/ContHistory.thy ===== *)
theory ContHistory
  imports ContInvariant
begin

section \<open>Continuation: what the log of an execution says\<close>

text \<open>
  A record follows another when its execution is a step of the one before, stamped with the next
  revision. Along such a log identities and limits never change, the accounting only grows, the
  attempts are exactly the Work stages started, the result of a Work stage is never changed, and
  nothing follows a terminal record.
\<close>

subsection \<open>Growth along a step\<close>

definition usage_le :: "usage \<Rightarrow> usage \<Rightarrow> bool" where
  "usage_le u v \<longleftrightarrow> InputTokens u \<le> InputTokens v \<and> OutputTokens u \<le> OutputTokens v \<and>
     ReasoningTokens u \<le> ReasoningTokens v \<and> CachedInputTokens u \<le> CachedInputTokens v \<and>
     CacheWriteTokens u \<le> CacheWriteTokens v"

definition accounting_le :: "accounting \<Rightarrow> accounting \<Rightarrow> bool" where
  "accounting_le a b \<longleftrightarrow> acAttempts a \<le> acAttempts b \<and> acTurns a \<le> acTurns b \<and>
     acActiveDuration a \<le> acActiveDuration b \<and> usage_le (acUsage a) (acUsage b)"

definition accounting_nonneg :: "accounting \<Rightarrow> bool" where
  "accounting_nonneg a \<longleftrightarrow> 0 \<le> acAttempts a \<and> 0 \<le> acTurns a \<and> 0 \<le> acActiveDuration a \<and>
     validUsage (acUsage a)"

lemma accounting_le_refl [simp]: "accounting_le a a"
  by (simp add: accounting_le_def usage_le_def)

lemma accounting_le_trans: "accounting_le a b \<Longrightarrow> accounting_le b c \<Longrightarrow> accounting_le a c"
  by (auto simp: accounting_le_def usage_le_def)

lemma valid_nonneg: "validateExecution e = None \<Longrightarrow> accounting_nonneg (exAccounting e)"
  using validateExecutionD [of e] by (simp add: accounting_nonneg_def)

text \<open>
  A wrapped sum is negative, and validation refuses it: whatever the order of two charges, the
  nonnegative result is the mathematical sum.
\<close>

lemma i64_grow: "0 \<le> a \<Longrightarrow> a < 2 ^ 63 \<Longrightarrow> 0 \<le> b \<Longrightarrow> b < 2 ^ 63 \<Longrightarrow> 0 \<le> i64 (a + b) \<Longrightarrow> a \<le> i64 (a + b)"
  using i64_sum [of a b] by simp

lemma charge_le:
  assumes "accounting_i64 a" "0 \<le> acActiveDuration a" "0 \<le> acActiveDuration (chargeStage a t u)"
  shows "accounting_le a (chargeStage a t u)"
  using assms durSub_pos [of u t] durSub_range [of u t]
  by (auto simp: chargeStage_def addDuration_def accounting_le_def usage_le_def accounting_i64_def
      intro!: i64_grow split: if_splits)

lemma usageAdd_le:
  assumes "validUsage u" "i64_usage u" "validUsage v" "i64_usage v" "validUsage (usageAdd u v)"
  shows "usage_le u (usageAdd u v)"
  using assms by (auto simp: usage_le_def usageAdd_def validUsage_def i64_usage_def intro!: i64_grow)

lemma addWork_le:
  assumes "accounting_i64 a" "accounting_nonneg a" "wrTurns r < 2 ^ 63" "i64_usage (wrUsage r)"
    "accounting_nonneg (addWorkAccounting a r)"
  shows "accounting_le a (addWorkAccounting a r)"
proof -
  have "acTurns a \<le> i64 (acTurns a + max (wrTurns r) 0)"
    using assms by (intro i64_grow) (auto simp: accounting_i64_def accounting_nonneg_def
        addWorkAccounting_def Let_def split: if_splits)
  moreover have "usage_le (acUsage a) (usageAdd (acUsage a) (wrUsage r))" if "validUsage (wrUsage r)"
    using assms that by (intro usageAdd_le) (auto simp: accounting_i64_def accounting_nonneg_def
        i64_usage_def addWorkAccounting_def Let_def)
  ultimately show ?thesis
    by (auto simp: addWorkAccounting_def Let_def accounting_le_def usage_le_def)
qed

lemma addDecision_le:
  assumes "accounting_i64 a" "accounting_nonneg a" "i64_usage (dcUsage d)"
    "accounting_nonneg (addDecisionAccounting a d)"
  shows "accounting_le a (addDecisionAccounting a d)"
proof -
  have "usage_le (acUsage a) (usageAdd (acUsage a) (dcUsage d))" if "validUsage (dcUsage d)"
    using assms that by (intro usageAdd_le) (auto simp: accounting_i64_def accounting_nonneg_def
        i64_usage_def addDecisionAccounting_def)
  then show ?thesis by (auto simp: addDecisionAccounting_def accounting_le_def usage_le_def)
qed

lemma addWork_duration [simp]: "acActiveDuration (addWorkAccounting a r) = acActiveDuration a"
  by (simp add: addWorkAccounting_def Let_def)

lemma addDecision_simps [simp]: "acActiveDuration (addDecisionAccounting a d) = acActiveDuration a"
    "acTurns (addDecisionAccounting a d) = acTurns a"
  by (simp_all add: addDecisionAccounting_def)

lemma charge_nonneg: "accounting_nonneg a \<Longrightarrow> 0 \<le> acActiveDuration (chargeStage a t u) \<Longrightarrow>
    accounting_nonneg (chargeStage a t u)"
  by (simp add: accounting_nonneg_def)

text \<open>The fields no operation changes.\<close>

definition same_identity :: "execution \<Rightarrow> execution \<Rightarrow> bool" where
  "same_identity e e' \<longleftrightarrow> exID e' = exID e \<and> exTarget e' = exTarget e \<and> exWorker e' = exWorker e \<and>
     exController e' = exController e \<and> exLimits e' = exLimits e \<and> exCreatedAt e' = exCreatedAt e"

lemma applyDecision_identity: "same_identity e (applyDecision e d)"
  by (simp add: same_identity_def applyDecision_def split: action.splits)

lemma decided_identity: "same_identity e (decided e a d)"
  using applyDecision_identity by (simp add: decided_def same_identity_def)

lemma control_identity:
  assumes "controlStep c clock e = Change e' ca r sid"
  shows "same_identity e e'"
  using assms by (cases c; auto simp: control_defs same_identity_def Let_def
      split: if_splits option.splits)

lemma step_identity: "exec_step e c e' \<Longrightarrow> same_identity e e'"
proof (induction rule: exec_step.induct)
  case (work_done e r tx err clock e' c)
  then show ?case by (auto simp: workOutcome_def same_identity_def Let_def
        split: option.splits status.splits if_splits)
next
  case (decision_done e d err tx clock e' c)
  then show ?case using decided_identity
    by (auto simp: decisionOutcome_def same_identity_def Let_def split: option.splits status.splits if_splits)
next
  case (recovery e now)
  then show ?case by (auto simp: recovered_def chargeOrphanDuration_def markAttemptInterrupted_def
        same_identity_def Let_def recoverable_def split: option.splits)
qed (auto simp: startWork_def startDecision_def limitedExecution_def same_identity_def Let_def
    dest: control_identity split: option.splits)

subsection \<open>Accounting along a step\<close>

lemma work_accounting:
  "workOutcome tx e r err clock = (e', c) \<Longrightarrow> exCurrentAttempt e = Some a \<Longrightarrow>
     exAccounting e' = addWorkAccounting (chargeStage (exAccounting e) (atWorkStartedAt a) (utc clock)) r"
  by (auto simp: workOutcome_def Let_def split: status.splits if_splits)

lemma decision_accounting:
  "decisionOutcome tx e d err clock = (e', c) \<Longrightarrow> exCurrentAttempt e = Some a \<Longrightarrow>
     exAccounting e' = chargeStage (exAccounting e) (atDecisionStartedAt a) (utc clock)
   \<or> exAccounting e' = addDecisionAccounting (chargeStage (exAccounting e) (atDecisionStartedAt a) (utc clock)) d"
  by (auto simp: decisionOutcome_def Let_def split: status.splits if_splits)

lemma recovered_accounting:
  "\<exists>t. exAccounting (recovered e now) = chargeStage (exAccounting e) t now \<or>
     exAccounting (recovered e now) = exAccounting e"
  by (auto simp: recovered_def chargeOrphanDuration_def markAttemptInterrupted_def Let_def
      split: option.splits status.splits)

theorem step_accounting:
  assumes inv: "exec_inv e" and step: "exec_step e c e'" and v: "validateExecution (stampE n t e') = None"
  shows "accounting_le (exAccounting e) (exAccounting e')"
    and "acAttempts (exAccounting e') = acAttempts (exAccounting e) +
      (if c = CauseStageStart \<and> exPhase e' = PhaseWork then 1 else 0)"
proof -
  note i = exec_invD [OF inv]
  have nn: "accounting_nonneg (exAccounting e)" by (rule valid_nonneg [OF i(1)])
  have nn': "accounting_nonneg (exAccounting e')" using valid_nonneg [OF v] by simp
  have a0: "0 \<le> acAttempts (exAccounting e)" "acAttempts (exAccounting e) < 2 ^ 63" "0 \<le> acActiveDuration (exAccounting e)"
    using nn i(4) by (auto simp: accounting_nonneg_def accounting_i64_def)
  have charge: "accounting_le (exAccounting e) (chargeStage (exAccounting e) x y) \<and>
      accounting_nonneg (chargeStage (exAccounting e) x y)"
    if "0 \<le> acActiveDuration (chargeStage (exAccounting e) x y)" for x y
    using charge_le [OF i(4) a0(3) that] charge_nonneg [OF nn that] by blast
  have "accounting_le (exAccounting e) (exAccounting e') \<and>
    acAttempts (exAccounting e') = acAttempts (exAccounting e) +
      (if c = CauseStageStart \<and> exPhase e' = PhaseWork then 1 else 0)"
    using step
  proof (cases rule: exec_step.cases)
    case (start_work ts id now)
    have "0 \<le> i64 (acAttempts (exAccounting e) + 1)"
      using nn' start_work by (simp add: startWork_def Let_def accounting_nonneg_def)
    then have "i64 (acAttempts (exAccounting e) + 1) = acAttempts (exAccounting e) + 1"
      using i64_sum [of "acAttempts (exAccounting e)" 1] a0 by simp
    then show ?thesis using start_work
      by (simp add: startWork_def Let_def accounting_le_def usage_le_def)
  next
    case (start_decision a now)
    then show ?thesis by (simp add: startDecision_def)
  next
    case (work_done r tx err clock)
    from state_inv_active [OF i(3)] work_done obtain a where a: "exCurrentAttempt e = Some a"
      by (auto simp: staged_def)
    let ?ch = "chargeStage (exAccounting e) (atWorkStartedAt a) (utc clock)"
    have acc: "exAccounting e' = addWorkAccounting ?ch r"
      using work_accounting work_done(5) a by blast
    then have "0 \<le> acActiveDuration ?ch" using nn' by (simp add: accounting_nonneg_def)
    note ch = charge [OF this]
    have "accounting_le ?ch (addWorkAccounting ?ch r)"
      using addWork_le [OF charge_i64 [OF i(4)]] ch nn' acc work_done by simp
    moreover have "c \<noteq> CauseStageStart"
      using work_done by (auto simp: workOutcome_def Let_def split: option.splits status.splits if_splits)
    ultimately show ?thesis using ch acc accounting_le_trans by auto
  next
    case (decision_done d err tx clock)
    from state_inv_active [OF i(3)] decision_done obtain a where a: "exCurrentAttempt e = Some a"
      by (auto simp: staged_def)
    let ?ch = "chargeStage (exAccounting e) (atDecisionStartedAt a) (utc clock)"
    have acc: "exAccounting e' = ?ch \<or> exAccounting e' = addDecisionAccounting ?ch d"
      using decision_accounting decision_done(5) a by blast
    then have "0 \<le> acActiveDuration ?ch" using nn' by (auto simp: accounting_nonneg_def)
    note ch = charge [OF this]
    have "accounting_le ?ch (exAccounting e')"
      using acc addDecision_le [OF charge_i64 [OF i(4)]] ch nn' decision_done by auto
    moreover have "c \<noteq> CauseStageStart"
      using decision_done by (auto simp: decisionOutcome_def Let_def split: option.splits status.splits if_splits)
    ultimately show ?thesis using ch acc accounting_le_trans by auto
  next
    case (limited reason ts)
    then show ?thesis by (simp add: limitedExecution_def)
  next
    case (recovery now)
    from recovered_accounting [of e now] obtain ts where
      acc: "exAccounting e' = chargeStage (exAccounting e) ts now \<or> exAccounting e' = exAccounting e"
      using recovery by auto
    then show ?thesis using charge [of ts now] nn' recovery by (auto simp: accounting_nonneg_def)
  next
    case (control c' clock reason sid)
    have "c \<noteq> CauseStageStart" using control by (cases c'; auto simp: control_defs Let_def
          split: if_splits option.splits)
    then show ?thesis using control_Change(2) [OF control] by simp
  qed
  then show "accounting_le (exAccounting e) (exAccounting e')"
    "acAttempts (exAccounting e') = acAttempts (exAccounting e) +
      (if c = CauseStageStart \<and> exPhase e' = PhaseWork then 1 else 0)" by auto
qed

subsection \<open>Attempts keep what they record\<close>

text \<open>
  An attempt on record: the current or the last one. Its identity, its start and its Work result
  stay while it is on record; it leaves the record only when a later attempt replaces it.
\<close>

definition on_record :: "execution \<Rightarrow> attempt \<Rightarrow> bool" where
  "on_record e a \<longleftrightarrow> exCurrentAttempt e = Some a \<or> exLastAttempt e = Some a"

definition same_attempt :: "attempt \<Rightarrow> attempt \<Rightarrow> bool" where
  "same_attempt a b \<longleftrightarrow> atID b = atID a \<and> atNumber b = atNumber a \<and> atActivation b = atActivation a \<and>
     atWorkStartedAt b = atWorkStartedAt a \<and> (atWork a \<noteq> None \<longrightarrow> atWork b = atWork a)"

lemma same_attempt_refl [simp]: "same_attempt a a"
  by (simp add: same_attempt_def)

lemma control_attempt:
  assumes "controlStep c clock e = Change e' ca r sid" "exCurrentAttempt e = Some a"
  shows "\<exists>b. on_record e' b \<and> same_attempt a b"
  using assms by (cases c; auto simp: control_defs on_record_def same_attempt_def Let_def
      split: if_splits option.splits)

theorem step_keeps_attempt:
  assumes inv: "exec_inv e" and step: "exec_step e c e'" and a: "exCurrentAttempt e = Some a"
  shows "\<exists>b. on_record e' b \<and> same_attempt a b"
  using step
proof (cases rule: exec_step.cases)
  case (work_done r tx err clock)
  have "atWork a = None"
    using state_inv_active [OF exec_invD(3) [OF inv]] work_done a by (auto simp: staged_def)
  then show ?thesis using work_done a
    by (auto simp: workOutcome_def workedAttempt_def interruptedAttempt_def on_record_def
        same_attempt_def Let_def split: status.splits if_splits)
next
  case (decision_done d err tx clock)
  then show ?thesis using a
    by (auto simp: decisionOutcome_def interruptedAttempt_def on_record_def same_attempt_def Let_def
        split: status.splits if_splits)
next
  case (recovery now)
  then show ?thesis using a
    by (auto simp: recovered_def chargeOrphanDuration_def markAttemptInterrupted_def interruptedAttempt_def
        on_record_def same_attempt_def Let_def recoverable_def)
next
  case (control c' clock reason sid)
  then show ?thesis using control_attempt a by blast
qed (use a in \<open>auto simp: startWork_def startDecision_def limitedExecution_def on_record_def
    same_attempt_def Let_def\<close>)

subsection \<open>The control operations under a running stage\<close>

text \<open>
  While a stage runs, the control operations can only ask for a pause, ask for cancellation, or
  fail the execution, each at most once and in this order; the attempt is not touched.
\<close>

definition request_rank :: "status \<Rightarrow> nat" where
  "request_rank s = (case s of StatusRunning \<Rightarrow> 3 | StatusPauseRequested \<Rightarrow> 2 | StatusCancelRequested \<Rightarrow> 1 | _ \<Rightarrow> 0)"

lemma control_active:
  assumes "controlStep c clock e = Change e' ca r sid" "recoverable (exStatus e)" "state_inv e"
  shows "request_rank (exStatus e') < request_rank (exStatus e)"
    "terminal (exStatus e') \<or> recoverable (exStatus e')"
    "exPhase e' = exPhase e" "exCurrentAttempt e' = exCurrentAttempt e" "exLastAttempt e' = exLastAttempt e"
proof -
  have s: "exStatus e = StatusRunning \<or> exStatus e = StatusPauseRequested \<or> exStatus e = StatusCancelRequested"
    using assms(2) by (simp add: recoverable_def)
  have i: "idle e" using state_inv_active [OF assms(3,2)] by simp
  show "request_rank (exStatus e') < request_rank (exStatus e)"
    "terminal (exStatus e') \<or> recoverable (exStatus e')"
    "exPhase e' = exPhase e" "exCurrentAttempt e' = exCurrentAttempt e" "exLastAttempt e' = exLastAttempt e"
    using assms(1) s i by (cases c; auto simp: control_defs validateSignalTarget_def idle_def request_rank_def
        retryable_def split: if_splits option.splits)+
qed

subsection \<open>Logs\<close>

definition record_step :: "cont_record \<Rightarrow> cont_record \<Rightarrow> bool" where
  "record_step rc rc' \<longleftrightarrow> (\<exists>c e reason sid clock. exec_step (rcExecution rc) c e \<and>
     rc' = controlRecordOf rc e c reason sid clock)"

definition control_record_step :: "cont_record \<Rightarrow> cont_record \<Rightarrow> bool" where
  "control_record_step rc rc' \<longleftrightarrow> (\<exists>c t e ca reason sid clock.
     controlStep c t (rcExecution rc) = Change e ca reason sid \<and>
     rc' = controlRecordOf rc e ca reason sid clock)"

lemma controlRecordOf_nextRecord: "nextRecord_c rc e c reason clock = controlRecordOf rc e c reason [] clock"
  by (simp add: controlRecordOf_def nextRecord_c_def Let_def)

lemma record_step_next:
  "exec_step (rcExecution rc) c e \<Longrightarrow> record_step rc (nextRecord_c rc e c reason clock)"
  unfolding controlRecordOf_nextRecord record_step_def by blast

lemma record_step_control:
  "controlStep c t (rcExecution rc) = Change e ca reason sid \<Longrightarrow>
     record_step rc (controlRecordOf rc e ca reason sid clock)"
  unfolding record_step_def by (blast intro: exec_step.control)

lemma control_record_step_step: "control_record_step rc rc' \<Longrightarrow> record_step rc rc'"
  by (auto simp: control_record_step_def intro: record_step_control)

lemma control_record_stepI:
  "controlStep c t (rcExecution rc) = Change e ca reason sid \<Longrightarrow>
     control_record_step rc (controlRecordOf rc e ca reason sid clock)"
  unfolding control_record_step_def by blast

lemma controlRecordOf_transition [simp]:
  "trCause (rcTransition (controlRecordOf rc e c reason sid clock)) = c"
  "trSignalID (rcTransition (controlRecordOf rc e c reason sid clock)) = sid"
  "trFrom (rcTransition (controlRecordOf rc e c reason sid clock)) = exStatus (rcExecution rc)"
  "trTo (rcTransition (controlRecordOf rc e c reason sid clock)) = exStatus e"
  "trRevision (rcTransition (controlRecordOf rc e c reason sid clock)) = rcRev rc + 1"
  by (simp_all add: controlRecordOf_def nextRecord_c_def Let_def)

lemma record_stepD:
  assumes "record_step rc rc'" "exec_inv (rcExecution rc)" "validateExecution (rcExecution rc') = None"
  shows "exec_inv (rcExecution rc')" "\<not> terminal (exStatus (rcExecution rc))"
    "same_identity (rcExecution rc) (rcExecution rc')"
    "accounting_le (exAccounting (rcExecution rc)) (exAccounting (rcExecution rc'))"
    "acAttempts (exAccounting (rcExecution rc')) = acAttempts (exAccounting (rcExecution rc)) +
      (if trCause (rcTransition rc') = CauseStageStart \<and> exPhase (rcExecution rc') = PhaseWork then 1 else 0)"
    "exCurrentAttempt (rcExecution rc) = Some a \<Longrightarrow> \<exists>b. on_record (rcExecution rc') b \<and> same_attempt a b"
proof -
  from assms(1) obtain c e reason sid clock where st: "exec_step (rcExecution rc) c e"
    and rc': "rc' = controlRecordOf rc e c reason sid clock" by (auto simp: record_step_def)
  have ex: "rcExecution rc' = stampE (rcRev rc + 1) (utc clock) e" by (simp add: rc')
  have v: "validateExecution (stampE (rcRev rc + 1) (utc clock) e) = None" using assms(3) ex by simp
  show "exec_inv (rcExecution rc')" unfolding ex by (rule step_inv [OF assms(2) st v])
  show "\<not> terminal (exStatus (rcExecution rc))" by (rule step_not_terminal [OF st])
  show "same_identity (rcExecution rc) (rcExecution rc')"
    using step_identity [OF st] by (simp add: ex same_identity_def)
  show "accounting_le (exAccounting (rcExecution rc)) (exAccounting (rcExecution rc'))"
    using step_accounting(1) [OF assms(2) st v] by (simp add: ex)
  show "acAttempts (exAccounting (rcExecution rc')) = acAttempts (exAccounting (rcExecution rc)) +
      (if trCause (rcTransition rc') = CauseStageStart \<and> exPhase (rcExecution rc') = PhaseWork then 1 else 0)"
    using step_accounting(2) [OF assms(2) st v] by (simp add: rc')
  show "exCurrentAttempt (rcExecution rc) = Some a \<Longrightarrow> \<exists>b. on_record (rcExecution rc') b \<and> same_attempt a b"
    using step_keeps_attempt [OF assms(2) st] by (simp add: rc' on_record_def)
qed

definition chist_ok :: "cont_record list \<Rightarrow> bool" where
  "chist_ok rs \<longleftrightarrow> rs \<noteq> [] \<and> (\<forall>rc \<in> set rs. exec_inv (rcExecution rc)) \<and> successively record_step rs \<and>
     acAttempts (exAccounting (rcExecution (hd rs))) = 0 \<and> trCause (rcTransition (hd rs)) = CauseCreate"

lemma chist_ok_append:
  assumes ok: "chist_ok rs" and st: "record_step (last rs) rc" and v: "validateRecord_c rc = None"
  shows "chist_ok (rs @ [rc])"
proof -
  have "exec_inv (rcExecution (last rs))" using ok by (simp add: chist_ok_def)
  moreover have "validateExecution (rcExecution rc) = None" using v by (simp add: validateRecord_c_def Let_def)
  ultimately have "exec_inv (rcExecution rc)" using record_stepD(1) [OF st] by blast
  with ok st show ?thesis by (auto simp: chist_ok_def successively_append_iff)
qed

text \<open>From any record to any later one.\<close>

lemma chist_sorted:
  assumes ok: "chist_ok rs"
  shows "sorted_wrt (\<lambda>a b. same_identity (rcExecution a) (rcExecution b) \<and>
    accounting_le (exAccounting (rcExecution a)) (exAccounting (rcExecution b)) \<and>
    \<not> terminal (exStatus (rcExecution a))) rs" (is "sorted_wrt ?P rs")
proof -
  have "successively ?P rs"
  proof (rule successively_mono [of record_step])
    fix a b assume ab: "a \<in> set rs" "b \<in> set rs" "record_step a b"
    then have "exec_inv (rcExecution a)" "validateExecution (rcExecution b) = None"
      using ok by (auto simp: chist_ok_def exec_inv_def)
    from record_stepD(2-4) [OF ab(3) this] show "?P a b" by blast
  qed (use ok in \<open>simp add: chist_ok_def\<close>)
  moreover have "transp ?P"
    by (rule transpI) (auto simp: same_identity_def intro: accounting_le_trans)
  ultimately show ?thesis by (simp add: successively_conv_sorted_wrt)
qed

text \<open>The attempts counted are the Work stages started.\<close>

definition work_started :: "cont_record \<Rightarrow> bool" where
  "work_started rc \<longleftrightarrow> trCause (rcTransition rc) = CauseStageStart \<and> exPhase (rcExecution rc) = PhaseWork"

lemma chist_attempts:
  assumes "chist_ok rs"
  shows "acAttempts (exAccounting (rcExecution (last rs))) = len (filter work_started rs)"
  using assms
proof (induction rs rule: rev_induct)
  case Nil
  then show ?case by (simp add: chist_ok_def)
next
  case (snoc rc rs)
  show ?case
  proof (cases "rs = []")
    case True
    with snoc.prems show ?thesis by (simp add: chist_ok_def work_started_def)
  next
    case False
    with snoc.prems have ok: "chist_ok rs" "record_step (last rs) rc" "exec_inv (rcExecution (last rs))"
        "exec_inv (rcExecution rc)"
      by (simp_all add: chist_ok_def successively_append_iff)
    from record_stepD(5) [OF ok(2,3) exec_invD(1) [OF ok(4)]] snoc.IH [OF ok(1)]
    show ?thesis by (simp add: work_started_def)
  qed
qed

end
