(* ===== verification/ContAdvance.thy ===== *)
theory ContAdvance
  imports ContEngine
begin

section \<open>Continuation: Advance and Drive\<close>

text \<open>
  \<^verbatim>\<open>agent/continuation/advance.go\<close> and \<^verbatim>\<open>drive.go\<close> over the engine state. Both return an execution and
  an error together. The loop of \<open>finishStage\<close> counts its reconciliations down.
\<close>

type_synonym 'st result = "(execution \<times> cont_error option) \<times> 'st eng"
type_synonym 'st rec_result = "(cont_record \<times> cont_error option) \<times> 'st eng"

subsection \<open>Preparing\<close>

definition validateHandlers :: "handlers \<Rightarrow> cont_error option" where
  "validateHandlers h = first_err
     [fail_if (haWorker h = None \<or> haController h = None) ErrInvalid,
      validateRef (haWorkerRef h), validateRef (haControllerRef h)]"

definition validateAdvanceRequest :: "u64 \<Rightarrow> handlers \<Rightarrow> cont_error option" where
  "validateAdvanceRequest expected h = first_err [validateExpectedRevision expected, validateHandlers h]"

definition matchHandlers :: "execution \<Rightarrow> handlers \<Rightarrow> cont_error option" where
  "matchHandlers e h =
     fail_if (exWorker e \<noteq> haWorkerRef h \<or> exController e \<noteq> haControllerRef h) ErrHandlerMismatch"

definition runnableError :: "execution \<Rightarrow> cont_error" where
  "runnableError e =
     (if exStatus e = StatusInterrupted \<and> exPhase e = PhaseWork then ErrRetryRequired
      else if terminal (exStatus e) then ErrTerminal else ErrNotRunnable)"

definition advanceCheck :: "execution \<Rightarrow> handlers \<Rightarrow> cont_error option" where
  "advanceCheck e h = first_err
     [matchHandlers e h, terminalCheck ''advance'' e,
      fail_if (exStatus e \<noteq> StatusReady) (stateError ''advance'' e (runnableError e))]"

definition prepareAdvance ::
    "'st cont_ops \<Rightarrow> 'st call_env \<Rightarrow> string \<Rightarrow> u64 \<Rightarrow> handlers \<Rightarrow> 'st eng \<Rightarrow> 'st rec_result" where
  "prepareAdvance S ce k expected h s0 =
     (let s = ceItf ce (''prepare'', 0) s0
      in if activeStage s k \<noteq> None
         then (let s1 = ceItf ce (''prepare'', 1) s
           in case opLoad S (ceCtx ce (''prepare'', 1)) k (enStore s1) of
                Inl err \<Rightarrow> ((zero_record, Some err), s1)
              | Inr cur \<Rightarrow> ((cur, Some ErrBusy), s1))
         else (let s1 = ceItf ce (''prepare'', 2) s
           in case loadExpected S (ceCtx ce (''prepare'', 2)) k expected s1 of
                Inl err \<Rightarrow> ((zero_record, Some err), s1)
              | Inr cur \<Rightarrow> (case recoverRecord S ce cur s1 of
                    (Inl err, s2) \<Rightarrow> ((zero_record, Some err), s2)
                  | (Inr rc, s2) \<Rightarrow>
                     if rcRev rc \<noteq> expected then ((rc, Some (ConflictError expected (rcRev rc))), s2)
                     else ((rc, advanceCheck (rcExecution rc) h), s2))))"

subsection \<open>Limits\<close>

definition applyLimit ::
    "'st cont_ops \<Rightarrow> 'st call_env \<Rightarrow> string \<Rightarrow> ctx \<Rightarrow> cont_record \<Rightarrow> 'st eng \<Rightarrow> 'st rec_result" where
  "applyLimit S ce at c cur s =
     (let e = rcExecution cur;
          reason = limitReason (exLimits e) (exAccounting e) (exPhase e) (utc (ceNow ce (at, 0)))
      in if reason = [] \<or> terminal (exStatus e) then ((cur, None), s)
         else (let nx = nextRecord_c cur (limitedExecution e reason) CauseLimit reason (ceNow ce (at, 1))
           in case casE S c (exID e) (rcRev cur) nx (ceItf ce (at, 1) s) of
                (None, s') \<Rightarrow> ((nx, None), s')
              | (Some err, s') \<Rightarrow> ((cur, Some err), s')))"

subsection \<open>Finishing a stage\<close>

text \<open>\<open>n\<close> reconciliations are left; \<open>out\<close> computes the outcome from the execution and the clock.\<close>

fun finishStage ::
    "'st cont_ops \<Rightarrow> 'st call_env \<Rightarrow> string \<Rightarrow> string \<Rightarrow> (execution \<Rightarrow> gtime \<Rightarrow> execution \<times> cause) \<Rightarrow>
       nat \<Rightarrow> cont_record \<Rightarrow> 'st eng \<Rightarrow> 'st rec_result" where
  "finishStage S ce stage k out 0 current s = ((current, Some ErrConflict), s)"
| "finishStage S ce stage k out (Suc n) current s =
     (let s1 = ceItf ce (stage, 2 * n + 1) s
      in case opLoad S None k (enStore s1) of
           Inl err \<Rightarrow> ((current, Some err), s1)
         | Inr latest \<Rightarrow>
             if terminal (exStatus (rcExecution latest)) then ((latest, None), s1)
             else (case out (rcExecution latest) (ceNow ce (stage, 2 * n + 1)) of (e, c) \<Rightarrow>
               (let nx = nextRecord_c latest e c (exReason e) (ceNow ce (stage, 2 * n))
                in case casE S None (exID e) (rcRev latest) nx (ceItf ce (stage, 2 * n) s1) of
                     (None, s2) \<Rightarrow> ((nx, None), s2)
                   | (Some err, s2) \<Rightarrow>
                       if errorsIs_c err ErrConflict then finishStage S ce stage k out n latest s2
                       else ((latest, Some err), s2))))"

definition maxControlReconciliations :: nat where
  "maxControlReconciliations = 16"

definition finishWork ::
    "'st cont_ops \<Rightarrow> 'st call_env \<Rightarrow> cont_record \<Rightarrow> work_result \<Rightarrow> cont_error option \<Rightarrow> 'st eng \<Rightarrow> 'st rec_result" where
  "finishWork S ce running r workerErr s =
     finishStage S ce ''work'' (exID (rcExecution running))
       (\<lambda>e clock. workOutcome (ceText ce) e r workerErr clock) maxControlReconciliations running s"

definition finishDecision ::
    "'st cont_ops \<Rightarrow> 'st call_env \<Rightarrow> cont_record \<Rightarrow> decision \<Rightarrow> cont_error option \<Rightarrow> 'st eng \<Rightarrow> 'st rec_result" where
  "finishDecision S ce running d controllerErr s =
     finishStage S ce ''decision'' (exID (rcExecution running))
       (\<lambda>e clock. decisionOutcome (ceText ce) e d controllerErr clock) maxControlReconciliations running s"

subsection \<open>The Decision stage\<close>

text \<open>The handlers were checked not to be nil; a call through a nil one panics.\<close>

definition runWorker :: "handlers \<Rightarrow> work_request \<Rightarrow> work_result \<times> cont_error option" where
  "runWorker h q = (case haWorker h of Some w \<Rightarrow> w q
     | None \<Rightarrow> (\<lparr>wrValue = None, wrTurns = 0, wrUsage = zero_usage, wrProgress = ProgressOther []\<rparr>,
         Some (Panic ''nil worker'')))"

definition zero_decision :: decision where
  "zero_decision = \<lparr>dcAction = ActionOther [], dcReason = [], dcState = None, dcNextInput = None,
     dcWait = None, dcBlock = None, dcOutput = None, dcProgress = ProgressOther [], dcUsage = zero_usage\<rparr>"

definition runController :: "handlers \<Rightarrow> decision_request \<Rightarrow> decision \<times> cont_error option" where
  "runController h q = (case haController h of Some f \<Rightarrow> f q
     | None \<Rightarrow> (zero_decision, Some (Panic ''nil controller'')))"

text \<open>A decision that does not validate is an error of the controller.\<close>

definition checkedDecision :: "decision \<times> cont_error option \<Rightarrow> decision \<times> cont_error option" where
  "checkedDecision p = (case p of (d, err) \<Rightarrow>
     (d, case err of None \<Rightarrow> validateDecision d | Some e \<Rightarrow> Some e))"

text \<open>After the stage: the errors in the order the code looks at them, then the limits.\<close>

definition afterDecision ::
    "'st cont_ops \<Rightarrow> 'st call_env \<Rightarrow> cont_error option \<Rightarrow> 'st rec_result \<Rightarrow> 'st result" where
  "afterDecision S ce controllerErr p = (case p of ((finished, persistErr), s) \<Rightarrow>
     (case persistErr of Some err \<Rightarrow> ((rcExecution finished, Some err), s) | None \<Rightarrow>
      (case controllerErr of Some err \<Rightarrow> ((rcExecution finished, Some err), s) | None \<Rightarrow>
        if exStatus (rcExecution finished) \<noteq> StatusReady then ((rcExecution finished, None), s)
        else (case applyLimit S ce ''decision limit'' None finished s of
               ((limited, Some err), s') \<Rightarrow> ((rcExecution finished, Some err), s')
             | ((limited, None), s') \<Rightarrow> ((rcExecution limited, None), s')))))"

definition advanceDecision ::
    "'st cont_ops \<Rightarrow> 'st call_env \<Rightarrow> handlers \<Rightarrow> cont_record \<Rightarrow> 'st eng \<Rightarrow> 'st result" where
  "advanceDecision S ce h cur s0 =
     (let e0 = rcExecution cur; k = exID e0; s = ceItf ce (''decision reserve'', 0) s0
      in case exCurrentAttempt e0 of
           None \<Rightarrow> ((e0, Some ErrInvalid), s0)
         | Some a \<Rightarrow> (case atWork a of
             None \<Rightarrow> ((e0, Some ErrInvalid), s0)
           | Some w \<Rightarrow> (case reserve k PhaseDecision (atID a) s of
               Inl err \<Rightarrow> ((e0, Some err), s)
             | Inr s1 \<Rightarrow>
                (let now = utc (ceNow ce (''decision start'', 0));
                     e = startDecision e0 a now;
                     running = nextRecord_c cur e CauseStageStart [] (ceNow ce (''decision start'', 1))
                 in case casE S (ceCtx ce (''decision start'', 1)) k (rcRev cur) running
                        (ceItf ce (''decision start'', 1) s1) of
                      (Some err, s2) \<Rightarrow> ((e0, Some err), release k s2)
                    | (None, s2) \<Rightarrow>
                       (case checkedDecision (runController h (decisionRequest e a w)) of (d, controllerErr) \<Rightarrow>
                         (case afterDecision S ce controllerErr
                               (finishDecision S ce running d controllerErr (ceItf ce (''decision run'', 0) s2)) of
                            (r, s3) \<Rightarrow> (r, release k s3)))))))"

subsection \<open>The Work stage\<close>

definition afterWork ::
    "'st cont_ops \<Rightarrow> 'st call_env \<Rightarrow> handlers \<Rightarrow> cont_error option \<Rightarrow> 'st rec_result \<Rightarrow> 'st result" where
  "afterWork S ce h workerErr p = (case p of ((finished, persistErr), s) \<Rightarrow>
     (case persistErr of Some err \<Rightarrow> ((rcExecution finished, Some err), s) | None \<Rightarrow>
      (case workerErr of Some err \<Rightarrow> ((rcExecution finished, Some err), s) | None \<Rightarrow>
        if exStatus (rcExecution finished) \<noteq> StatusReady \<or> exPhase (rcExecution finished) \<noteq> PhaseDecision
        then ((rcExecution finished, None), s)
        else (case applyLimit S ce ''work limit'' None finished s of
               ((limited, Some err), s') \<Rightarrow> ((rcExecution finished, Some err), s')
             | ((limited, None), s') \<Rightarrow>
                 if exStatus (rcExecution limited) = StatusLimited then ((rcExecution limited, None), s')
                 else advanceDecision S ce h limited s'))))"

definition advanceWork ::
    "'st cont_ops \<Rightarrow> 'st call_env \<Rightarrow> handlers \<Rightarrow> cont_record \<Rightarrow> 'st eng \<Rightarrow> 'st result" where
  "advanceWork S ce h cur s0 =
     (let e0 = rcExecution cur; k = exID e0; now = utc (ceNow ce (''work start'', 0))
      in case bindE (ceIDs ce ''attempt'' now) (\<lambda>i. guardE (validateAttemptID i) (Inr i)) of
           Inl err \<Rightarrow> ((e0, Some err), s0)
         | Inr attemptID \<Rightarrow>
            (let s = ceItf ce (''work reserve'', 0) s0
             in case reserve k PhaseWork attemptID s of
                  Inl err \<Rightarrow> ((e0, Some err), s)
                | Inr s1 \<Rightarrow>
                   (let e = startWork e0 attemptID now;
                        running = nextRecord_c cur e CauseStageStart [] (ceNow ce (''work start'', 1))
                    in case casE S (ceCtx ce (''work start'', 1)) k (rcRev cur) running
                           (ceItf ce (''work start'', 1) s1) of
                         (Some err, s2) \<Rightarrow> ((e0, Some err), release k s2)
                       | (None, s2) \<Rightarrow>
                          (case normalizeWorkOutcome (runWorker h (workRequest e (the (exCurrentAttempt e)))) of
                             (r, workerErr) \<Rightarrow>
                              (case finishWork S ce running r workerErr (ceItf ce (''work run'', 0) s2) of
                                 (fin, s3) \<Rightarrow> afterWork S ce h workerErr (fin, release k s3))))))"

subsection \<open>Advance\<close>

definition advance ::
    "'st cont_ops \<Rightarrow> 'st call_env \<Rightarrow> string \<Rightarrow> u64 \<Rightarrow> handlers \<Rightarrow> 'st eng \<Rightarrow> 'st result" where
  "advance S ce k expected h s =
     (case validateAdvanceRequest expected h of
        Some err \<Rightarrow> ((zero_execution, Some err), s)
      | None \<Rightarrow>
         (case prepareAdvance S ce k expected h s of
            ((cur, Some err), s1) \<Rightarrow> ((controlExecution cur, Some err), s1)
          | ((cur, None), s1) \<Rightarrow>
             (case applyLimit S ce ''limit'' (ceCtx ce (''limit'', 1)) cur s1 of
                ((_, Some err), s2) \<Rightarrow> ((rcExecution cur, Some err), s2)
              | ((limited, None), s2) \<Rightarrow>
                  if exStatus (rcExecution limited) = StatusLimited then ((rcExecution limited, None), s2)
                  else (case exPhase (rcExecution limited) of
                      PhaseWork \<Rightarrow> advanceWork S ce h limited s2
                    | PhaseDecision \<Rightarrow> advanceDecision S ce h limited s2
                    | PhaseOther _ \<Rightarrow> ((rcExecution limited, Some ErrInvalid), s2)))))"

subsection \<open>Drive\<close>

record drive_result =
  drExecution :: execution
  drAdvances :: int
  drYield :: "yield_reason option"

definition statusYield :: "execution \<Rightarrow> yield_reason option" where
  "statusYield e = (case exStatus e of
       StatusCompleted \<Rightarrow> Some YieldTerminal | StatusFailed \<Rightarrow> Some YieldTerminal
     | StatusCancelled \<Rightarrow> Some YieldTerminal | StatusLimited \<Rightarrow> Some YieldTerminal
     | StatusWaiting \<Rightarrow> Some YieldWaiting
     | StatusPaused \<Rightarrow> Some YieldPaused | StatusPauseRequested \<Rightarrow> Some YieldPaused
     | StatusBlocked \<Rightarrow> Some YieldBlocked
     | StatusInterrupted \<Rightarrow> Some YieldInterrupted
     | StatusReady \<Rightarrow> None
     | StatusRunning \<Rightarrow> Some YieldError | StatusCancelRequested \<Rightarrow> Some YieldError
     | StatusOther _ \<Rightarrow> Some YieldError)"

definition noProgress :: "execution \<Rightarrow> bool" where
  "noProgress e = (exStatus e = StatusReady \<and>
     (case exLastAttempt e of None \<Rightarrow> False | Some a \<Rightarrow>
       (case atDecision a of None \<Rightarrow> False | Some d \<Rightarrow>
          dcAction d = ActionContinue \<and>
          (dcProgress d = ProgressUnchanged \<or>
           dcProgress d = ProgressOther [] \<and>
             (case atWork a of None \<Rightarrow> False | Some w \<Rightarrow> wrProgress w = ProgressUnchanged)))))"

definition advanceErrorYield :: "execution \<Rightarrow> cont_error \<Rightarrow> yield_reason" where
  "advanceErrorYield e err =
     (if errorsIs_c err Canceled \<or> errorsIs_c err DeadlineExceeded then YieldContext
      else if exStatus e = StatusInterrupted then YieldInterrupted else YieldError)"

text \<open>A gate is an optional function of the execution; \<open>ce\<close> is the environment of this step.\<close>

type_synonym gate = "(execution \<Rightarrow> cont_error + bool) option"

definition driveGate :: "gate \<Rightarrow> execution \<Rightarrow> cont_error + bool" where
  "driveGate g e = (case g of None \<Rightarrow> Inr True | Some f \<Rightarrow> f e)"

text \<open>The result is the new drive result, whether to stop, and the error.\<close>

definition driveStep ::
    "'st cont_ops \<Rightarrow> 'st call_env \<Rightarrow> string \<Rightarrow> handlers \<Rightarrow> gate \<Rightarrow> drive_result \<Rightarrow> 'st eng
       \<Rightarrow> (drive_result \<times> bool \<times> cont_error option) \<times> 'st eng" where
  "driveStep S ce k h g r s =
     (case statusYield (drExecution r) of
        Some y \<Rightarrow> ((r\<lparr>drYield := Some y\<rparr>, True, None), s)
      | None \<Rightarrow> (case ceCtx ce (''drive'', 0) of
          Some err \<Rightarrow> ((r\<lparr>drYield := Some YieldContext\<rparr>, True, Some err), s)
        | None \<Rightarrow> (case driveGate g (drExecution r) of
            Inl err \<Rightarrow> ((r\<lparr>drYield := Some YieldError\<rparr>, True, Some err), s)
          | Inr False \<Rightarrow> ((r\<lparr>drYield := Some YieldGate\<rparr>, True, None), s)
          | Inr True \<Rightarrow>
             (case advance S ce k (exRevision (drExecution r)) h s of
                ((nx, err), s1) \<Rightarrow>
                 (let r1 = r\<lparr>drExecution := nx, drAdvances := drAdvances r + 1\<rparr>
                  in case err of
                       Some x \<Rightarrow> ((r1\<lparr>drYield := Some (advanceErrorYield nx x)\<rparr>, True, Some x), s1)
                     | None \<Rightarrow> (case statusYield nx of
                         Some y \<Rightarrow> ((r1\<lparr>drYield := Some y\<rparr>, True, None), s1)
                       | None \<Rightarrow> if noProgress nx
                           then ((r1\<lparr>drYield := Some YieldNoProgress\<rparr>, True, None), s1)
                           else ((r1, False, None), s1)))))))"

text \<open>The loop runs \<open>n\<close> more steps at most; \<open>ces\<close> gives each step its environment.\<close>

fun driveLoop ::
    "'st cont_ops \<Rightarrow> (nat \<Rightarrow> 'st call_env) \<Rightarrow> string \<Rightarrow> handlers \<Rightarrow> gate \<Rightarrow> nat \<Rightarrow> drive_result \<Rightarrow> 'st eng
       \<Rightarrow> (drive_result \<times> cont_error option) \<times> 'st eng" where
  "driveLoop S ces k h g 0 r s = ((r\<lparr>drYield := Some YieldQuantum\<rparr>, None), s)"
| "driveLoop S ces k h g (Suc n) r s =
     (case driveStep S (ces n) k h g r s of
        ((r1, stop, err), s1) \<Rightarrow>
          if stop \<or> err \<noteq> None then ((r1, err), s1) else driveLoop S ces k h g n r1 s1)"

definition zero_drive :: drive_result where
  "zero_drive = \<lparr>drExecution = zero_execution, drAdvances = 0, drYield = None\<rparr>"

definition drive ::
    "'st cont_ops \<Rightarrow> 'st call_env \<Rightarrow> (nat \<Rightarrow> 'st call_env) \<Rightarrow> string \<Rightarrow> u64 \<Rightarrow> handlers \<Rightarrow> int \<Rightarrow> gate \<Rightarrow> 'st eng
       \<Rightarrow> (drive_result \<times> cont_error option) \<times> 'st eng" where
  "drive S ce ces k expected h maxAdvances g s =
     (case first_err [fail_if (maxAdvances \<le> 0) ErrInvalid, validateExpectedRevision expected,
         validateHandlers h] of
        Some err \<Rightarrow> ((zero_drive, Some err), s)
      | None \<Rightarrow> (case engineGet_c S ce k s of
          (Inl err, s1) \<Rightarrow> ((zero_drive, Some err), s1)
        | (Inr e, s1) \<Rightarrow>
            if exRevision e \<noteq> expected
            then ((zero_drive\<lparr>drExecution := e\<rparr>, Some (ConflictError expected (exRevision e))), s1)
            else driveLoop S ces k h g (nat maxAdvances) (zero_drive\<lparr>drExecution := e\<rparr>) s1))"

end
