(* ===== verification/ContSystem.thy ===== *)
theory ContSystem
  imports ContHistory ContAdvance
begin

section \<open>Continuation: the engine over any store, with other goroutines at work\<close>

text \<open>
  \<open>csys\<close>: the store keeps its invariant and every log is a history of steps. \<open>cext\<close>: logs only
  grew. \<open>cheld k\<close>: moreover the reservation of \<open>k\<close> is as it was and the log of \<open>k\<close> grew by control
  operations only. The rely \<open>crely\<close> of a call on \<open>k\<close> is \<open>cext\<close>, and \<open>cheld k\<close> while the call holds
  the reservation and runs or finishes a stage (from reserving to starting it, only the reservation
  is sure to stay): then other goroutines of the engine find the stage
  active, so they neither advance nor recover the execution. Engines of other processes are not
  covered; the package requires a lease for them.

  Every operation guarantees \<open>cext\<close>; and while \<open>k\<close> is reserved by another call, the operations on
  \<open>k\<close> guarantee \<open>cheld k\<close> (\<open>ContGuarantee\<close>).
\<close>

definition csys :: "('st \<Rightarrow> bool) \<Rightarrow> ('st \<Rightarrow> string \<Rightarrow> cont_record list) \<Rightarrow> 'st eng \<Rightarrow> bool" where
  "csys sinv log s \<longleftrightarrow> sinv (enStore s) \<and>
     (\<forall>k. log (enStore s) k \<noteq> [] \<longrightarrow> chist_ok (log (enStore s) k))"

definition cext ::
    "('st \<Rightarrow> bool) \<Rightarrow> ('st \<Rightarrow> string \<Rightarrow> cont_record list) \<Rightarrow> 'st eng \<Rightarrow> 'st eng \<Rightarrow> bool" where
  "cext sinv log s s' \<longleftrightarrow> csys sinv log s' \<and>
     (\<forall>k. \<exists>es. log (enStore s') k = log (enStore s) k @ es)"

definition cheld ::
    "('st \<Rightarrow> bool) \<Rightarrow> ('st \<Rightarrow> string \<Rightarrow> cont_record list) \<Rightarrow> string \<Rightarrow> 'st eng \<Rightarrow> 'st eng \<Rightarrow> bool" where
  "cheld sinv log k s s' \<longleftrightarrow> cext sinv log s s' \<and> activeStage s' k = activeStage s k \<and>
     (\<exists>es. log (enStore s') k = log (enStore s) k @ es \<and>
        (log (enStore s) k \<noteq> [] \<longrightarrow> successively control_record_step (last (log (enStore s) k) # es)))"

definition stage_point :: "point \<Rightarrow> bool" where
  "stage_point p \<longleftrightarrow> fst p \<in> {''work run'', ''work'', ''decision run'', ''decision''}"

definition start_point :: "point \<Rightarrow> bool" where
  "start_point p \<longleftrightarrow> fst p \<in> {''work start'', ''decision start''}"

definition crely ::
    "('st \<Rightarrow> bool) \<Rightarrow> ('st \<Rightarrow> string \<Rightarrow> cont_record list) \<Rightarrow> string \<Rightarrow> 'st call_env \<Rightarrow> bool" where
  "crely sinv log k ce \<longleftrightarrow> (\<forall>p s. csys sinv log s \<longrightarrow>
     cext sinv log s (ceItf ce p s) \<and>
     (start_point p \<and> activeStage s k \<noteq> None \<longrightarrow> activeStage (ceItf ce p s) k = activeStage s k) \<and>
     (stage_point p \<and> activeStage s k \<noteq> None \<longrightarrow> cheld sinv log k s (ceItf ce p s)))"

text \<open>Handlers return Go integers.\<close>

definition handlers_i64 :: "handlers \<Rightarrow> bool" where
  "handlers_i64 h \<longleftrightarrow>
     (\<forall>w q. haWorker h = Some w \<longrightarrow> wrTurns (fst (w q)) < 2 ^ 63 \<and> i64_usage (wrUsage (fst (w q)))) \<and>
     (\<forall>f q. haController h = Some f \<longrightarrow> i64_usage (dcUsage (fst (f q))))"

lemma clog_member_last:
  assumes "clog_ok k rs" "rc \<in> set rs" "rcRev rc = rcRev (last rs)"
  shows "rc = last rs"
proof -
  from assms(2) obtain i where i: "i < length rs" "rc = rs ! i" by (auto simp: in_set_conv_nth)
  have "(of_nat (Suc i) :: u64) = of_nat (length rs)"
    using clog_ok_nth(1) [OF assms(1) i(1)] clog_ok_length(2) [OF assms(1)] assms(3) i(2) by simp
  then have "Suc i mod 2 ^ 64 = length rs mod 2 ^ 64"
    by (simp only: word_of_nat_eq_iff take_bit_eq_mod len_num0 len_bit0) simp
  then have "Suc i = length rs"
    using clog_ok_length(1) [OF assms(1)] i(1) by simp
  with i show ?thesis by (metis diff_Suc_1 last_conv_nth list.size(3) nat.simps(3))
qed

context cont_store
begin

abbreviation "sys \<equiv> csys sinv log"
abbreviation "ext \<equiv> cext sinv log"
abbreviation "held \<equiv> cheld sinv log"
abbreviation "rely \<equiv> crely sinv log"
abbreviation "lg s \<equiv> log (enStore s)"

lemma sys_inv: "sys s \<Longrightarrow> sinv (enStore s)"
  by (simp add: csys_def)

lemma sys_hist: "sys s \<Longrightarrow> lg s k \<noteq> [] \<Longrightarrow> chist_ok (lg s k)"
  by (simp add: csys_def)

lemma sys_log: "sys s \<Longrightarrow> lg s k \<noteq> [] \<Longrightarrow> clog_ok k (lg s k)"
  using log_inv sys_inv by blast

lemma sys_mem:
  assumes "sys s" "rc \<in> set (lg s k)"
  shows "exec_inv (rcExecution rc)" "exID (rcExecution rc) = k" "validateRecord_c rc = None"
proof -
  have ne: "lg s k \<noteq> []" using assms(2) by auto
  show "exec_inv (rcExecution rc)" using sys_hist [OF assms(1) ne] assms(2) by (simp add: chist_ok_def)
  show "exID (rcExecution rc) = k" "validateRecord_c rc = None"
    using sys_log [OF assms(1) ne] assms(2) by (simp_all add: clog_ok_def)
qed

lemma ext_sys: "ext s s' \<Longrightarrow> sys s'"
  by (simp add: cext_def)

lemma ext_refl: "sys s \<Longrightarrow> ext s s"
  by (simp add: cext_def)

lemma ext_trans: "ext a b \<Longrightarrow> ext b c \<Longrightarrow> ext a c"
  unfolding cext_def by (metis append.assoc)

lemma ext_mem: "ext s s' \<Longrightarrow> rc \<in> set (lg s k) \<Longrightarrow> rc \<in> set (lg s' k)"
  unfolding cext_def by (metis Un_iff set_append)

lemma rely_ext: "rely k ce \<Longrightarrow> sys s \<Longrightarrow> ext s (ceItf ce p s)"
  unfolding crely_def by blast

lemma rely_held: "rely k ce \<Longrightarrow> sys s \<Longrightarrow> stage_point p \<Longrightarrow> activeStage s k \<noteq> None \<Longrightarrow>
    held k s (ceItf ce p s)"
  unfolding crely_def by blast

lemma rely_start: "rely k ce \<Longrightarrow> sys s \<Longrightarrow> start_point p \<Longrightarrow> activeStage s k \<noteq> None \<Longrightarrow>
    activeStage (ceItf ce p s) k = activeStage s k"
  unfolding crely_def by blast

lemma held_ext: "held k s s' \<Longrightarrow> ext s s'"
  by (simp add: cheld_def)

lemma held_active: "held k s s' \<Longrightarrow> activeStage s' k = activeStage s k"
  by (simp add: cheld_def)

text \<open>The active map is not part of the logs.\<close>

lemma ext_active [simp]:
  "sys (s\<lparr>enActive := x\<rparr>) = sys s" "ext s (s'\<lparr>enActive := x\<rparr>) = ext s s'" "ext (s\<lparr>enActive := x\<rparr>) s' = ext s s'"
  by (simp_all add: csys_def cext_def)

lemma release_ext [simp]: "sys (release k s) = sys s" "ext s (release k s') = ext s s'" "ext (release k s) s' = ext s s'"
    "lg (release k s) = lg s"
  by (simp_all add: release_def)

lemma reserve_Inr: "reserve k p a s = Inr s1 \<Longrightarrow>
    \<exists>x. s1 = s\<lparr>enActive := x\<rparr> \<and> activeStage s1 k = Some \<lparr>asPhase = p, asAttempt = a\<rparr>"
  by (auto simp: reserve_def activeStage_def update_conv' split: if_splits)

lemma load_mem:
  assumes "sys s" "opLoad S c k (enStore s) = Inr rc"
  shows "c = None" "lg s k \<noteq> []" "rc = last (lg s k)" "rc \<in> set (lg s k)"
  using assms load [OF sys_inv [OF assms(1)], of c k] by (auto split: if_splits)

text \<open>A successful compare-and-swap continues the record it was made from.\<close>

lemma commit:
  assumes sys: "sys s" and cur: "cur \<in> set (lg s k)" and e1: "ext s s1"
    and cas: "casE S c k (rcRev cur) nx s1 = (None, s2)" and st: "record_step cur nx"
  shows "cur = last (lg s1 k)" "lg s1 k \<noteq> []" "lg s2 = (lg s1)(k := lg s1 k @ [nx])" "ext s1 s2"
    "enActive s2 = enActive s1" "nx \<in> set (lg s2 k)" "exec_inv (rcExecution nx)"
proof -
  note sys1 = ext_sys [OF e1]
  from cas obtain st2 where c: "opCas S c k (rcRev cur) nx (enStore s1) = (None, st2)"
    and s2: "s2 = s1\<lparr>enStore := st2\<rparr>" by (auto simp: casE_def split: prod.splits)
  note ok = cas_ok [OF sys_inv [OF sys1] c]
  then show ne: "lg s1 k \<noteq> []" by blast
  show lst: "cur = last (lg s1 k)"
    using clog_member_last [OF sys_log [OF sys1 ne] ext_mem [OF e1 cur]] ok by simp
  show lg2: "lg s2 = (lg s1)(k := lg s1 k @ [nx])" using ok by (simp add: s2)
  have ok2: "clog_ok k (lg s1 k @ [nx])" using log_inv [of st2 k] ok lg2 s2 by simp
  then have v: "validateRecord_c nx = None" using clog_ok_append [OF sys_log [OF sys1 ne]] by blast
  have hist: "chist_ok (lg s1 k @ [nx])"
    using chist_ok_append [OF sys_hist [OF sys1 ne] _ v] st lst by simp
  then show "exec_inv (rcExecution nx)" by (simp add: chist_ok_def)
  show "ext s1 s2"
    using sys1 ok hist lg2 by (auto simp: cext_def csys_def s2)
  show "enActive s2 = enActive s1" "nx \<in> set (lg s2 k)" using lg2 by (simp_all add: s2)
qed

lemma cas_Some:
  assumes "sys s" "casE S c k n nx s = (Some err, s')"
  shows "s' = s" "opCas S c k n nx (enStore s) = (Some err, enStore s)"
proof -
  from assms(2) obtain st where "opCas S c k n nx (enStore s) = (Some err, st)" "s' = s\<lparr>enStore := st\<rparr>"
    by (auto simp: casE_def split: prod.splits)
  with cas_fail [OF sys_inv [OF assms(1)]] show "s' = s" "opCas S c k n nx (enStore s) = (Some err, enStore s)"
    by auto
qed

subsection \<open>Recovery and reading\<close>

lemma recover_spec:
  assumes sys: "sys s" and rc: "rc \<in> set (lg s k)" and rel: "rely k' ce"
    and run: "recoverRecord S ce rc s = (r, s')"
  shows "ext s s'" "r = Inr rc' \<Longrightarrow> rc' \<in> set (lg s' k)"
proof -
  have k: "exID (rcExecution rc) = k" by (rule sys_mem(2) [OF sys rc])
  let ?s1 = "ceItf ce (''recover'', 0) s"
  let ?s2 = "ceItf ce (''recover'', 1) ?s1"
  let ?nx = "nextRecord_c rc (recovered (rcExecution rc) (utc (ceNow ce (''recover'', 0)))) CauseRecovery
                        ''reconciled orphaned active stage'' (ceNow ce (''recover'', 1))"
  have e1: "ext s ?s1" by (rule rely_ext [OF rel sys])
  have e2: "ext s ?s2" by (rule ext_trans [OF e1 rely_ext [OF rel ext_sys [OF e1]]])
  note sys2 = ext_sys [OF e2]
  have "ext s s' \<and> (\<forall>rc'. r = Inr rc' \<longrightarrow> rc' \<in> set (lg s' k))"
  proof (cases "recoverable (exStatus (rcExecution rc)) \<and> activeStage ?s1 k = None")
    case False
    with run k ext_refl [OF sys] e1 ext_mem [OF e1 rc] rc show ?thesis
      by (auto simp: recoverRecord_def Let_def split: if_splits)
  next
    case True
    show ?thesis
    proof (cases "casE S (ceCtx ce (''recover'', 1)) k (rcRev rc) ?nx ?s2")
      case (Pair c s3)
      show ?thesis
      proof (cases c)
        case None
        with run True Pair k have "r = Inr ?nx" "s' = s3" by (auto simp: recoverRecord_def Let_def)
        moreover have "record_step rc ?nx" using True by (intro record_step_next exec_step.recovery) simp
        ultimately show ?thesis
          using commit [OF sys rc e2 Pair [unfolded None]] ext_trans [OF e2] by blast
      next
        case (Some err)
        have s3: "s3 = ?s2" by (rule cas_Some(1) [OF sys2 Pair [unfolded Some]])
        let ?s4 = "ceItf ce (''recover'', 2) ?s2"
        have e4: "ext s ?s4" by (rule ext_trans [OF e2 rely_ext [OF rel sys2]])
        from run True Pair Some k s3 have
          "(r, s') = (if asConflict err then (opLoad S (ceCtx ce (''recover'', 2)) k (enStore ?s4), ?s4) else (Inl err, ?s2))"
          by (auto simp: recoverRecord_def Let_def split: if_splits)
        with e2 e4 load_mem(4) [OF ext_sys [OF e4]] show ?thesis by (auto split: if_splits)
      qed
    qed
  qed
  then show "ext s s'" "r = Inr rc' \<Longrightarrow> rc' \<in> set (lg s' k)" by auto
qed

lemma get_spec:
  assumes sys: "sys s" and rel: "rely k' ce" and run: "engineGet_c S ce k s = (r, s')"
  shows "ext s s'" "r = Inr e \<Longrightarrow> \<exists>rc \<in> set (lg s' k). e = rcExecution rc"
proof -
  let ?s1 = "ceItf ce (''get'', 0) s"
  have e1: "ext s ?s1" by (rule rely_ext [OF rel sys])
  note sys1 = ext_sys [OF e1]
  have "ext s s' \<and> (\<forall>e. r = Inr e \<longrightarrow> (\<exists>rc \<in> set (lg s' k). e = rcExecution rc))"
  proof (cases "opLoad S (ceCtx ce (''get'', 0)) k (enStore ?s1)")
    case (Inl err)
    with run e1 show ?thesis by (auto simp: engineGet_c_def Let_def)
  next
    case (Inr rc)
    note rc = load_mem(4) [OF sys1 Inr]
    obtain q s2 where rec: "recoverRecord S ce rc ?s1 = (q, s2)" by fastforce
    note sp = recover_spec [OF sys1 rc rel rec]
    from run Inr rec ext_trans [OF e1 sp(1)] sp(2) show ?thesis
      by (auto simp: engineGet_c_def Let_def split: sum.splits)
  qed
  then show "ext s s'" "r = Inr e \<Longrightarrow> \<exists>rc \<in> set (lg s' k). e = rcExecution rc" by auto
qed

lemma getAll_spec:
  assumes "sys s" "\<And>n. rely k (ces n)" "getAll S ces es s = (r, s')"
  shows "ext s s'"
  using assms
proof (induction es arbitrary: ces s r s')
  case Nil
  then show ?case by (simp add: ext_refl)
next
  case (Cons e es)
  obtain q s1 where g: "engineGet_c S (ces 0) (exID e) s = (q, s1)" by fastforce
  note e1 = get_spec(1) [OF Cons.prems(1,2) g]
  obtain q2 s2 where a: "getAll S (\<lambda>n. ces (Suc n)) es s1 = (q2, s2)" by fastforce
  have "ext s1 s2" by (rule Cons.IH [OF ext_sys [OF e1] Cons.prems(2) a])
  with Cons.prems(3) g a e1 ext_trans [OF e1] show ?case by (auto split: sum.splits)
qed

subsection \<open>Control operations\<close>

lemma controlRecord_spec:
  assumes sys: "sys s" and rel: "rely k' ce" and run: "controlRecord S ce k expected s = ((rc, err), s')"
  shows "ext s s'" "err = None \<Longrightarrow> rc \<in> set (lg s' k) \<and> rcRev rc = expected"
proof -
  let ?s1 = "ceItf ce (''load'', 0) s"
  have e1: "ext s ?s1" by (rule rely_ext [OF rel sys])
  note sys1 = ext_sys [OF e1]
  have "ext s s' \<and> (err = None \<longrightarrow> rc \<in> set (lg s' k) \<and> rcRev rc = expected)"
  proof (cases "validateExpectedRevision expected")
    case (Some x)
    with run ext_refl [OF sys] show ?thesis by (auto simp: controlRecord_def)
  next
    case None
    show ?thesis
    proof (cases "loadExpected S (ceCtx ce (''load'', 0)) k expected ?s1")
      case (Inl x)
      with run None e1 show ?thesis by (auto simp: controlRecord_def Let_def)
    next
      case (Inr cur)
      then have "opLoad S (ceCtx ce (''load'', 0)) k (enStore ?s1) = Inr cur"
        by (auto simp: loadExpected_def bindE_Inr)
      note cur = load_mem(4) [OF sys1 this]
      obtain q s2 where rec: "recoverRecord S ce cur ?s1 = (q, s2)" by fastforce
      note sp = recover_spec [OF sys1 cur rel rec]
      from run None Inr rec ext_trans [OF e1 sp(1)] sp(2) show ?thesis
        by (auto simp: controlRecord_def Let_def split: sum.splits if_splits)
    qed
  qed
  then show "ext s s'" "err = None \<Longrightarrow> rc \<in> set (lg s' k) \<and> rcRev rc = expected" by auto
qed

lemma controlOp_spec:
  assumes sys: "sys s" and rel: "rely k' ce" and run: "controlOp S ce k expected c s = ((e, err), s')"
  shows "ext s s'" "err = None \<Longrightarrow> \<exists>rc \<in> set (lg s' k). e = rcExecution rc"
proof -
  obtain rc err1 s1 where cr: "controlRecord S ce k expected s = ((rc, err1), s1)" by (metis prod.exhaust)
  note sp = controlRecord_spec [OF sys rel cr]
  have "ext s s' \<and> (err = None \<longrightarrow> (\<exists>rc \<in> set (lg s' k). e = rcExecution rc))"
  proof (cases err1)
    case (Some x)
    with run cr sp(1) show ?thesis by (auto simp: controlOp_def)
  next
    case None
    with sp have rc: "rc \<in> set (lg s1 k)" "rcRev rc = expected" by auto
    let ?s2 = "ceItf ce (''control'', 1) s1"
    have e2: "ext s1 ?s2" by (rule rely_ext [OF rel ext_sys [OF sp(1)]])
    show ?thesis
    proof (cases "controlStep c (ceNow ce (''control'', 0)) (rcExecution rc)")
      case (Change e' ca reason sid)
      let ?nx = "controlRecordOf rc e' ca reason sid (ceNow ce (''control'', 1))"
      obtain q s3 where cas: "casE S (ceCtx ce (''control'', 1)) k expected ?nx ?s2 = (q, s3)" by fastforce
      show ?thesis
      proof (cases q)
        case None
        note cm = commit [OF ext_sys [OF sp(1)] rc(1) e2 _ record_step_control [OF Change], of "ceCtx ce (''control'', 1)"]
        from run cr \<open>err1 = None\<close> Change cas None have "e = rcExecution ?nx" "s' = s3"
          by (auto simp: controlOp_def Let_def)
        with cm [unfolded rc(2), OF cas [unfolded None]] ext_trans [OF sp(1) ext_trans [OF e2]] show ?thesis by blast
      next
        case (Some x)
        with run cr \<open>err1 = None\<close> Change cas cas_Some [OF ext_sys [OF e2]] have "s' = ?s2" "err = Some x"
          by (auto simp: controlOp_def Let_def)
        with ext_trans [OF sp(1) e2] show ?thesis by simp
      qed
    qed (use run cr None sp(1) rc in \<open>auto simp: controlOp_def\<close>)
  qed
  then show "ext s s'" "err = None \<Longrightarrow> \<exists>rc \<in> set (lg s' k). e = rcExecution rc" by auto
qed

end

end
