(* ===== verification/ContFinish.thy ===== *)
theory ContFinish
  imports ContSystem
begin

section \<open>Continuation: finishing a stage and advancing\<close>

text \<open>
  While a stage is reserved the other goroutines can only move the execution towards cancellation,
  three times at most; so the reconciliation loop of \<open>finishStage\<close> always ends by storing the outcome
  of this stage or by finding the execution failed, well before its bound. From this the whole of
  \<open>Advance\<close> and \<open>Drive\<close> only extends the log by steps.
\<close>

definition in_stage :: "phase \<Rightarrow> attempt \<Rightarrow> execution \<Rightarrow> bool" where
  "in_stage P a e \<longleftrightarrow> terminal (exStatus e) \<or>
     recoverable (exStatus e) \<and> exPhase e = P \<and> exCurrentAttempt e = Some a"

lemma stamp_stage [simp]: "in_stage P a (stampE n t e) = in_stage P a e"
  by (simp add: in_stage_def)

lemma control_stage:
  assumes "control_record_step x y" "exec_inv (rcExecution x)" "in_stage P a (rcExecution x)"
  shows "in_stage P a (rcExecution y)"
    "request_rank (exStatus (rcExecution y)) < request_rank (exStatus (rcExecution x))"
proof -
  from assms(1) obtain c t e ca reason sid clock where
    c: "controlStep c t (rcExecution x) = Change e ca reason sid"
    and y: "y = controlRecordOf x e ca reason sid clock" by (auto simp: control_record_step_def)
  have r: "recoverable (exStatus (rcExecution x))"
    using assms(3) control_Change(1) [OF c] by (auto simp: in_stage_def)
  note k = control_active [OF c r exec_invD(3) [OF assms(2)]]
  with assms(3) r show "in_stage P a (rcExecution y)"
    "request_rank (exStatus (rcExecution y)) < request_rank (exStatus (rcExecution x))"
    by (auto simp: in_stage_def y recoverable_not_terminal)
qed

lemma control_chain:
  assumes "successively control_record_step (x # ys)" "\<forall>rc \<in> set (x # ys). exec_inv (rcExecution rc)"
    "in_stage P a (rcExecution x)"
  shows "in_stage P a (rcExecution (last (x # ys))) \<and>
    (ys = [] \<or> request_rank (exStatus (rcExecution (last (x # ys)))) < request_rank (exStatus (rcExecution x)))"
  using assms
proof (induction ys arbitrary: x)
  case Nil
  then show ?case by simp
next
  case (Cons y ys)
  have st: "control_record_step x y" and i: "exec_inv (rcExecution x)" using Cons.prems by simp_all
  note cs = control_stage [OF st i Cons.prems(3)]
  have "successively control_record_step (y # ys)" using Cons.prems(1) by (simp add: successively_Cons)
  from Cons.IH [OF this _ cs(1)] Cons.prems(2) cs(2) show ?case by auto
qed

lemma request_rank_le: "request_rank s \<le> 3"
  by (simp add: request_rank_def split: status.splits)

lemma controller_i64: "handlers_i64 h \<Longrightarrow> i64_usage (dcUsage (fst (runController h q)))"
  by (cases "haController h") (simp_all add: runController_def handlers_i64_def zero_decision_def
      zero_usage_def i64_usage_def)

lemma worker_i64:
  "handlers_i64 h \<Longrightarrow> wrTurns (fst (runWorker h q)) < 2 ^ 63 \<and> i64_usage (wrUsage (fst (runWorker h q)))"
  by (cases "haWorker h") (simp_all add: runWorker_def handlers_i64_def zero_usage_def i64_usage_def)

lemma checkedDecision_D:
  "checkedDecision p = (d, err) \<Longrightarrow> d = fst p \<and> (err = None \<longrightarrow> validateDecision d = None)"
  by (cases p) (auto simp: checkedDecision_def split: option.splits)

lemma normalize_i64:
  assumes "normalizeWorkOutcome p = (r, err)" "wrTurns (fst p) < 2 ^ 63" "i64_usage (wrUsage (fst p))"
  shows "wrTurns r < 2 ^ 63" "i64_usage (wrUsage r)"
  using assms by (cases p; auto simp: normalizeWorkOutcome_def sanitizedPartialResult_def i64_usage_def
      Let_def split: option.splits)+

definition outcome_step :: "phase \<Rightarrow> attempt \<Rightarrow> (execution \<Rightarrow> gtime \<Rightarrow> execution \<times> cause) \<Rightarrow> bool" where
  "outcome_step P a out \<longleftrightarrow> (\<forall>e clock. recoverable (exStatus e) \<and> exPhase e = P \<and>
     exCurrentAttempt e = Some a \<longrightarrow> exec_step e (snd (out e clock)) (fst (out e clock)))"

definition finished_from ::
    "phase \<Rightarrow> attempt \<Rightarrow> (execution \<Rightarrow> gtime \<Rightarrow> execution \<times> cause) \<Rightarrow> cont_record list \<Rightarrow> cont_record \<Rightarrow> bool" where
  "finished_from P a out rs rc \<longleftrightarrow> (\<exists>latest clock clock'. latest \<in> set rs \<and>
     recoverable (exStatus (rcExecution latest)) \<and> exPhase (rcExecution latest) = P \<and>
     exCurrentAttempt (rcExecution latest) = Some a \<and>
     rc = (let (e, c) = out (rcExecution latest) clock in nextRecord_c latest e c (exReason e) clock'))"

context cont_store
begin

abbreviation "lastE s k \<equiv> rcExecution (last (lg s k))"

lemma held_stage:
  assumes sys: "sys s" and ne: "lg s k \<noteq> []" and st: "in_stage P a (lastE s k)" and h: "held k s s'"
  shows "lg s' k \<noteq> []" "in_stage P a (lastE s' k)"
    "lg s' k = lg s k \<or> request_rank (exStatus (lastE s' k)) < request_rank (exStatus (lastE s k))"
proof -
  from h obtain es where es: "lg s' k = lg s k @ es"
      "successively control_record_step (last (lg s k) # es)" using ne by (auto simp: cheld_def)
  show ne': "lg s' k \<noteq> []" using es ne by simp
  have "\<forall>rc \<in> set (lg s' k). exec_inv (rcExecution rc)"
    using sys_hist [OF ext_sys [OF held_ext [OF h]] ne'] by (simp add: chist_ok_def)
  then have "\<forall>rc \<in> set (last (lg s k) # es). exec_inv (rcExecution rc)" using es(1) ne by auto
  note ch = control_chain [OF es(2) this st]
  have "last (last (lg s k) # es) = last (lg s' k)" using es(1) ne by simp
  from ch [unfolded this] es(1) show "in_stage P a (lastE s' k)"
    "lg s' k = lg s k \<or> request_rank (exStatus (lastE s' k)) < request_rank (exStatus (lastE s k))" by auto
qed

text \<open>The outcome function is a step from any execution of the stage.\<close>

lemma finishStage_spec:
  assumes "sys s" "activeStage s k \<noteq> None" "rely k ce" "stage = ''work'' \<or> stage = ''decision''"
    and "lg s k \<noteq> []" "in_stage P a (lastE s k)" "outcome_step P a out"
    and "request_rank (exStatus (lastE s k)) < n"
    and "finishStage S ce stage k out n current s = ((rc, err), s')"
  shows "ext s s' \<and> activeStage s' k = activeStage s k \<and> rc \<in> set (lg s' k) \<and>
    (\<forall>x. err = Some x \<longrightarrow> \<not> errorsIs_c x ErrConflict) \<and>
    (err = None \<longrightarrow> terminal (exStatus (rcExecution rc)) \<or> finished_from P a out (lg s' k) rc)"
  using assms
proof (induction n arbitrary: s current)
  case 0
  then show ?case by simp
next
  case (Suc n)
  let ?s1 = "ceItf ce (stage, 2 * n + 1) s"
  have p: "stage_point (stage, m)" for m using Suc.prems(4) by (auto simp: stage_point_def)
  have h1: "held k s ?s1" by (rule rely_held [OF Suc.prems(3,1) p Suc.prems(2)])
  note e1 = held_ext [OF h1]
  note sys1 = ext_sys [OF e1]
  note st1 = held_stage [OF Suc.prems(1,5,6) h1]
  have act1: "activeStage ?s1 k = activeStage s k" by (rule held_active [OF h1])
  let ?l = "last (lg ?s1 k)"
  have ld: "opLoad S None k (enStore ?s1) = Inr ?l"
    using load [OF sys_inv [OF sys1], of None k] st1(1) by simp
  have l: "?l \<in> set (lg ?s1 k)" using st1(1) by simp
  show ?case
  proof (cases "terminal (exStatus (rcExecution ?l))")
    case True
    with Suc.prems(9) ld have "rc = ?l" "err = None" "s' = ?s1" by (auto simp: Let_def)
    with True e1 act1 l show ?thesis by simp
  next
    case False
    with st1(2) have r: "recoverable (exStatus (rcExecution ?l))" "exPhase (rcExecution ?l) = P"
        "exCurrentAttempt (rcExecution ?l) = Some a" by (auto simp: in_stage_def)
    obtain e c where out: "out (rcExecution ?l) (ceNow ce (stage, 2 * n + 1)) = (e, c)" by fastforce
    have step: "exec_step (rcExecution ?l) c e"
      using Suc.prems(7) r out unfolding outcome_step_def by (metis fst_conv snd_conv)
    have k: "exID e = k"
      using step_identity [OF step] sys_mem(2) [OF sys1 l] by (simp add: same_identity_def)
    let ?nx = "nextRecord_c ?l e c (exReason e) (ceNow ce (stage, 2 * n))"
    let ?s2 = "ceItf ce (stage, 2 * n) ?s1"
    have h2: "held k ?s1 ?s2" by (rule rely_held [OF Suc.prems(3) sys1 p]) (use act1 Suc.prems(2) in simp)
    note e2 = held_ext [OF h2]
    note sys2 = ext_sys [OF e2]
    note st2 = held_stage [OF sys1 st1(1,2) h2]
    have act2: "activeStage ?s2 k = activeStage s k" using held_active [OF h2] act1 by simp
    obtain q s3 where cas: "casE S None k (rcRev ?l) ?nx ?s2 = (q, s3)" by fastforce
    show ?thesis
    proof (cases q)
      case None
      note cm = commit [OF sys1 l e2 cas [unfolded None] record_step_next [OF step]]
      from Suc.prems(9) ld False out k cas None have "rc = ?nx" "err = None" "s' = s3" by (auto simp: Let_def)
      moreover have "finished_from P a out (lg s3 k) ?nx"
        unfolding finished_from_def using r out ext_mem [OF ext_trans [OF e2 cm(4)] l]
        by (intro exI [of _ ?l] exI [of _ "ceNow ce (stage, 2 * n + 1)"] exI [of _ "ceNow ce (stage, 2 * n)"]) simp
      moreover have "activeStage s3 k = activeStage s k" using cm(5) act2 by (simp add: activeStage_def)
      ultimately show ?thesis using ext_trans [OF e1 ext_trans [OF e2 cm(4)]] cm(6) by simp
    next
      case (Some x)
      have s3: "s3 = ?s2" by (rule cas_Some(1) [OF sys2 cas [unfolded Some]])
      show ?thesis
      proof (cases "errorsIs_c x ErrConflict")
        case False2: False
        with Suc.prems(9) ld False out k cas Some s3 have "rc = ?l" "err = Some x" "s' = ?s2" by (auto simp: Let_def)
        with False2 ext_trans [OF e1 e2] act2 ext_mem [OF e2 l] show ?thesis by auto
      next
        case True
        from cas_conflict [OF sys_inv [OF sys2] cas_Some(2) [OF sys2 cas [unfolded Some]] st2(1) True] have "lg ?s2 k \<noteq> lg ?s1 k" by auto
        with st1(3) st2(3) Suc.prems(8) have rank: "request_rank (exStatus (lastE ?s2 k)) < n" by auto
        have run: "finishStage S ce stage k out n ?l ?s2 = ((rc, err), s')"
          using Suc.prems(9) ld False out k cas Some s3 True by (simp add: Let_def)
        have a2: "activeStage ?s2 k \<noteq> None" using act2 Suc.prems(2) by simp
        note ih = Suc.IH [OF sys2 a2 Suc.prems(3,4) st2(1,2) Suc.prems(7) rank run]
        with act2 ext_trans [OF e1 e2] ext_trans show ?thesis by metis
      qed
    qed
  qed
qed

subsection \<open>Limits\<close>

lemma applyLimit_spec:
  assumes sys: "sys s" and cur: "cur \<in> set (lg s k)" "\<not> terminal (exStatus (rcExecution cur)) \<longrightarrow> exStatus (rcExecution cur) = StatusReady"
    and rel: "rely k' ce" and run: "applyLimit S ce at c cur s = ((rc, err), s')"
  shows "ext s s'" "rc \<in> set (lg s' k)"
    "err = None \<Longrightarrow> exStatus (rcExecution rc) \<noteq> StatusLimited \<Longrightarrow> rc = cur \<and> s' = s \<and>
      (\<not> terminal (exStatus (rcExecution cur)) \<longrightarrow> (\<exists>t. \<not> limit_reached (exLimits (rcExecution cur))
        (exAccounting (rcExecution cur)) (exPhase (rcExecution cur)) t))"
proof -
  have k: "exID (rcExecution cur) = k" by (rule sys_mem(2) [OF sys cur(1)])
  define t where "t = utc (ceNow ce (at, 0))"
  define reason where "reason = limitReason (exLimits (rcExecution cur)) (exAccounting (rcExecution cur))
     (exPhase (rcExecution cur)) t"
  let ?s1 = "ceItf ce (at, 1) s"
  let ?nx = "nextRecord_c cur (limitedExecution (rcExecution cur) reason) CauseLimit reason (ceNow ce (at, 1))"
  have e1: "ext s ?s1" by (rule rely_ext [OF rel sys])
  have "ext s s' \<and> rc \<in> set (lg s' k) \<and> (err = None \<longrightarrow> exStatus (rcExecution rc) \<noteq> StatusLimited \<longrightarrow>
      rc = cur \<and> s' = s \<and> (terminal (exStatus (rcExecution cur)) \<or> reason = []))"
  proof (cases "reason = [] \<or> terminal (exStatus (rcExecution cur))")
    case True
    with run ext_refl [OF sys] cur(1) show ?thesis
      by (auto simp: applyLimit_def Let_def reason_def t_def)
  next
    case False
    then have st: "exec_step (rcExecution cur) CauseLimit (limitedExecution (rcExecution cur) reason)"
      using cur(2) by (intro exec_step.limited) (auto simp: reason_def)
    obtain q s3 where cas: "casE S c k (rcRev cur) ?nx ?s1 = (q, s3)" by fastforce
    show ?thesis
    proof (cases q)
      case None
      note cm = commit [OF sys cur(1) e1 cas [unfolded None] record_step_next [OF st]]
      have "rc = ?nx" "s' = s3" using run False cas None k
        by (auto simp: applyLimit_def Let_def reason_def t_def)
      with cm ext_trans [OF e1] show ?thesis by (simp add: limitedExecution_def)
    next
      case (Some x)
      have "s3 = ?s1" by (rule cas_Some(1) [OF ext_sys [OF e1] cas [unfolded Some]])
      then have "rc = cur" "s' = ?s1" "err = Some x" using run False cas Some k
        by (auto simp: applyLimit_def Let_def reason_def t_def)
      with e1 ext_mem [OF e1 cur(1)] show ?thesis by simp
    qed
  qed
  then show "ext s s'" "rc \<in> set (lg s' k)"
    "err = None \<Longrightarrow> exStatus (rcExecution rc) \<noteq> StatusLimited \<Longrightarrow> rc = cur \<and> s' = s \<and>
      (\<not> terminal (exStatus (rcExecution cur)) \<longrightarrow> (\<exists>t. \<not> limit_reached (exLimits (rcExecution cur))
        (exAccounting (rcExecution cur)) (exPhase (rcExecution cur)) t))"
    using limitReason_empty unfolding reason_def by blast+
qed

subsection \<open>The stages\<close>

definition result_ok :: "string \<Rightarrow> 'st eng \<Rightarrow> 'st eng \<Rightarrow> execution \<Rightarrow> cont_error option \<Rightarrow> bool" where
  "result_ok k s s' e err \<longleftrightarrow> ext s s' \<and> (err = None \<longrightarrow> (\<exists>rc \<in> set (lg s' k). e = rcExecution rc))"

lemma decision_outcome_step:
  assumes "i64_usage (dcUsage d)" "err = None \<longrightarrow> validateDecision d = None"
  shows "outcome_step PhaseDecision a (\<lambda>e clock. decisionOutcome tx e d err clock)"
  using exec_step.decision_done [OF _ _ assms] unfolding outcome_step_def by (metis surjective_pairing)

lemma work_outcome_step:
  assumes "wrTurns r < 2 ^ 63" "i64_usage (wrUsage r)"
  shows "outcome_step PhaseWork a (\<lambda>e clock. workOutcome tx e r err clock)"
  using exec_step.work_done [OF _ _ assms] unfolding outcome_step_def by (metis surjective_pairing)

lemma afterDecision_spec:
  assumes sys: "sys s" and rc: "rc \<in> set (lg s k)" and rel: "rely k' ce"
    and run: "afterDecision S ce cerr ((rc, perr), s) = ((e, err), s')"
  shows "result_ok k s s' e err"
proof (cases "perr = None \<and> cerr = None \<and> exStatus (rcExecution rc) = StatusReady")
  case False
  with run ext_refl [OF sys] rc show ?thesis
    by (auto simp: afterDecision_def result_ok_def split: option.splits if_splits)
next
  case True
  obtain l lerr s2 where al: "applyLimit S ce ''decision limit'' None rc s = ((l, lerr), s2)"
    by (metis prod.exhaust)
  note sp = applyLimit_spec [OF sys rc _ rel al]
  from run True al sp(1,2) show ?thesis
    by (auto simp: afterDecision_def result_ok_def split: option.splits)
qed

lemma decision_reserved:
  assumes sys: "sys s1" and cur: "cur \<in> set (lg s1 k)"
    "exStatus (rcExecution cur) = StatusReady" "exPhase (rcExecution cur) = PhaseDecision"
    and a: "exCurrentAttempt (rcExecution cur) = Some a" "atWork a = Some w"
    and act: "activeStage s1 k \<noteq> None" and rel: "rely k ce" and h: "handlers_i64 h"
    and e: "e = startDecision (rcExecution cur) a now"
    and running: "running = nextRecord_c cur e CauseStageStart [] clock"
    and cas: "casE S c k (rcRev cur) running (ceItf ce (''decision start'', 1) s1) = (None, s2)"
    and dec: "checkedDecision (runController h (decisionRequest e a w)) = (d, cerr)"
    and run: "afterDecision S ce cerr (finishDecision S ce running d cerr
        (ceItf ce (''decision run'', 0) s2)) = ((e', err), s3)"
  shows "result_ok k s1 s3 e' err"
proof -
  let ?t = "ceItf ce (''decision start'', 1) s1"
  have e1: "ext s1 ?t" by (rule rely_ext [OF rel sys])
  have step: "record_step cur running"
    unfolding running e by (intro record_step_next exec_step.start_decision cur a)
  note cm = commit [OF sys cur(1) e1 cas step]
  have act1: "activeStage ?t k = activeStage s1 k"
    by (rule rely_start [OF rel sys _ act]) (simp add: start_point_def)
  then have act2: "activeStage s2 k \<noteq> None" using cm(5) act by (simp add: activeStage_def)
  note sys2 = ext_sys [OF cm(4)]
  have lst: "lg s2 k \<noteq> []" "last (lg s2 k) = running" using cm(3) by simp_all
  have st: "in_stage PhaseDecision (a\<lparr>atPhase := PhaseDecision, atDecisionStartedAt := now\<rparr>) (lastE s2 k)"
    using lst by (simp add: running e in_stage_def startDecision_def)
  let ?s2 = "ceItf ce (''decision run'', 0) s2"
  have hd: "held k s2 ?s2" by (rule rely_held [OF rel sys2 _ act2]) (simp add: stage_point_def)
  note st2 = held_stage [OF sys2 lst(1) st hd]
  note sysd = ext_sys [OF held_ext [OF hd]]
  have actd: "activeStage ?s2 k \<noteq> None" using held_active [OF hd] act2 by simp
  have k: "exID (rcExecution running) = k" by (rule sys_mem(2) [OF sys2 cm(6)])
  have d: "i64_usage (dcUsage d)" "cerr = None \<longrightarrow> validateDecision d = None"
    using checkedDecision_D [OF dec] controller_i64 [OF h] by auto
  obtain rc perr s4 where fin: "finishDecision S ce running d cerr ?s2 = ((rc, perr), s4)" by (metis prod.exhaust)
  have rank: "request_rank (exStatus (lastE ?s2 k)) < maxControlReconciliations"
    using request_rank_le [of "exStatus (lastE ?s2 k)"] by (simp add: maxControlReconciliations_def)
  note sp = finishStage_spec [OF sysd actd rel _ st2(1,2) decision_outcome_step [OF d] rank
      fin [unfolded finishDecision_def k]]
  then have sp1: "ext ?s2 s4" "rc \<in> set (lg s4 k)" by simp_all
  have "result_ok k s4 s3 e' err"
    by (rule afterDecision_spec [OF ext_sys [OF sp1(1)] sp1(2) rel run [unfolded fin]])
  moreover have "ext s1 s4" using ext_trans [OF e1 ext_trans [OF cm(4) ext_trans [OF held_ext [OF hd] sp1(1)]]] .
  ultimately show ?thesis using ext_trans by (auto simp: result_ok_def)
qed

lemma result_ok_trans: "ext a b \<Longrightarrow> result_ok k b c e err \<Longrightarrow> result_ok k a c e err"
  using ext_trans by (auto simp: result_ok_def)

lemma advanceDecision_spec:
  assumes sys: "sys s" and cur: "cur \<in> set (lg s k)"
    "exStatus (rcExecution cur) = StatusReady" "exPhase (rcExecution cur) = PhaseDecision"
    and rel: "rely k ce" and h: "handlers_i64 h" and run: "advanceDecision S ce h cur s = ((e, err), s')"
  shows "result_ok k s s' e err"
proof -
  have k: "exID (rcExecution cur) = k" by (rule sys_mem(2) [OF sys cur(1)])
  from state_inv_Ready [OF exec_invD(3) [OF sys_mem(1) [OF sys cur(1)]] cur(2)] cur(3)
  obtain a w where a: "exCurrentAttempt (rcExecution cur) = Some a" "atWork a = Some w"
    by (auto simp: has_work_def)
  let ?s0 = "ceItf ce (''decision reserve'', 0) s"
  have e0: "ext s ?s0" by (rule rely_ext [OF rel sys])
  show ?thesis
  proof (cases "reserve k PhaseDecision (atID a) ?s0")
    case (Inl x)
    with run a k e0 show ?thesis by (auto simp: advanceDecision_def Let_def result_ok_def)
  next
    case (Inr s1)
    from reserve_Inr [OF Inr] obtain x where s1: "s1 = ?s0\<lparr>enActive := x\<rparr>" and act: "activeStage s1 k \<noteq> None"
      by auto
    have e1: "ext s s1" using e0 by (simp add: s1)
    note sys1 = ext_sys [OF e1]
    define now where "now = utc (ceNow ce (''decision start'', 0))"
    let ?e = "startDecision (rcExecution cur) a now"
    let ?r = "nextRecord_c cur ?e CauseStageStart [] (ceNow ce (''decision start'', 1))"
    let ?t = "ceItf ce (''decision start'', 1) s1"
    have et: "ext s1 ?t" by (rule rely_ext [OF rel sys1])
    obtain q s2 where cas: "casE S (ceCtx ce (''decision start'', 1)) k (rcRev cur) ?r ?t = (q, s2)" by fastforce
    show ?thesis
    proof (cases q)
      case (Some x)
      from run a k Inr cas [unfolded Some] cas_Some(1) [OF ext_sys [OF et] cas [unfolded Some]]
      have "err = Some x" "s' = release k ?t" by (auto simp: advanceDecision_def Let_def now_def)
      with ext_trans [OF e1 et] show ?thesis by (simp add: result_ok_def)
    next
      case None
      obtain d cerr where dec: "checkedDecision (runController h (decisionRequest ?e a w)) = (d, cerr)" by fastforce
      obtain e' err' s3 where fin: "afterDecision S ce cerr (finishDecision S ce ?r d cerr
          (ceItf ce (''decision run'', 0) s2)) = ((e', err'), s3)" by (metis prod.exhaust)
      from run a k Inr cas None dec fin have "e = e'" "err = err'" "s' = release k s3"
        by (auto simp: advanceDecision_def Let_def now_def)
      moreover have "result_ok k s1 s3 e' err'"
        by (rule decision_reserved [OF sys1 ext_mem [OF e1 cur(1)] cur(2,3) a act rel h refl refl
            cas [unfolded None] dec fin])
      ultimately show ?thesis using result_ok_trans [OF e1] by (auto simp: result_ok_def)
    qed
  qed
qed

lemma afterWork_spec:
  assumes sys: "sys s" and rc: "rc \<in> set (lg s k)" and rel: "rely k ce" and h: "handlers_i64 h"
    and run: "afterWork S ce h werr ((rc, perr), s) = ((e, err), s')"
  shows "result_ok k s s' e err"
proof (cases "perr = None \<and> werr = None \<and> exStatus (rcExecution rc) = StatusReady \<and>
    exPhase (rcExecution rc) = PhaseDecision")
  case False
  with run ext_refl [OF sys] rc show ?thesis
    by (auto simp: afterWork_def result_ok_def split: option.splits if_splits)
next
  case True
  obtain l lerr s2 where al: "applyLimit S ce ''work limit'' None rc s = ((l, lerr), s2)"
    by (metis prod.exhaust)
  note sp = applyLimit_spec [OF sys rc _ rel al]
  show ?thesis
  proof (cases "lerr = None \<and> exStatus (rcExecution l) \<noteq> StatusLimited")
    case False
    with run True al sp(1,2) show ?thesis
      by (auto simp: afterWork_def result_ok_def split: option.splits)
  next
    case no: True
    with sp(3) True have "l = rc" "s2 = s" by auto
    with run True al no have "advanceDecision S ce h rc s = ((e, err), s')" by (auto simp: afterWork_def)
    with advanceDecision_spec [OF sys rc _ _ rel h] True show ?thesis by blast
  qed
qed

lemma work_reserved:
  assumes sys: "sys s1" and cur: "cur \<in> set (lg s1 k)"
    "exStatus (rcExecution cur) = StatusReady" "exPhase (rcExecution cur) = PhaseWork"
    and lim: "\<not> limit_reached (exLimits (rcExecution cur)) (exAccounting (rcExecution cur)) PhaseWork t"
    and act: "activeStage s1 k \<noteq> None" and rel: "rely k ce" and h: "handlers_i64 h"
    and e: "e = startWork (rcExecution cur) i now"
    and running: "running = nextRecord_c cur e CauseStageStart [] clock"
    and cas: "casE S c k (rcRev cur) running (ceItf ce (''work start'', 1) s1) = (None, s2)"
    and wk: "normalizeWorkOutcome (runWorker h q) = (r, werr)"
    and fin: "finishWork S ce running r werr (ceItf ce (''work run'', 0) s2) = ((rc, perr), s3)"
  shows "ext s1 s3" "rc \<in> set (lg s3 k)"
proof -
  let ?t = "ceItf ce (''work start'', 1) s1"
  have e1: "ext s1 ?t" by (rule rely_ext [OF rel sys])
  have step: "record_step cur running"
    unfolding running e by (rule record_step_next [OF exec_step.start_work [OF cur(2,3) lim]])
  note cm = commit [OF sys cur(1) e1 cas step]
  have act1: "activeStage ?t k = activeStage s1 k"
    by (rule rely_start [OF rel sys _ act]) (simp add: start_point_def)
  then have act2: "activeStage s2 k \<noteq> None" using cm(5) act by (simp add: activeStage_def)
  note sys2 = ext_sys [OF cm(4)]
  have lst: "lg s2 k \<noteq> []" "last (lg s2 k) = running" using cm(3) by simp_all
  have st: "in_stage PhaseWork (the (exCurrentAttempt e)) (lastE s2 k)"
    using lst by (simp add: running e in_stage_def startWork_def Let_def)
  let ?s2 = "ceItf ce (''work run'', 0) s2"
  have hd: "held k s2 ?s2" by (rule rely_held [OF rel sys2 _ act2]) (simp add: stage_point_def)
  note st2 = held_stage [OF sys2 lst(1) st hd]
  note sysd = ext_sys [OF held_ext [OF hd]]
  have actd: "activeStage ?s2 k \<noteq> None" using held_active [OF hd] act2 by simp
  have k: "exID (rcExecution running) = k" by (rule sys_mem(2) [OF sys2 cm(6)])
  have r: "wrTurns r < 2 ^ 63" "i64_usage (wrUsage r)"
    using normalize_i64 [OF wk] worker_i64 [OF h] by blast+
  have rank: "request_rank (exStatus (lastE ?s2 k)) < maxControlReconciliations"
    using request_rank_le [of "exStatus (lastE ?s2 k)"] by (simp add: maxControlReconciliations_def)
  note sp = finishStage_spec [OF sysd actd rel _ st2(1,2) work_outcome_step [OF r] rank
      fin [unfolded finishWork_def k]]
  then show "rc \<in> set (lg s3 k)" by simp
  from sp show "ext s1 s3" using ext_trans [OF e1 ext_trans [OF cm(4) ext_trans [OF held_ext [OF hd]]]] by simp
qed

lemma advanceWork_spec:
  assumes sys: "sys s" and cur: "cur \<in> set (lg s k)"
    "exStatus (rcExecution cur) = StatusReady" "exPhase (rcExecution cur) = PhaseWork"
    and lim: "\<not> limit_reached (exLimits (rcExecution cur)) (exAccounting (rcExecution cur)) PhaseWork t"
    and rel: "rely k ce" and h: "handlers_i64 h" and run: "advanceWork S ce h cur s = ((e, err), s')"
  shows "result_ok k s s' e err"
proof -
  have k: "exID (rcExecution cur) = k" by (rule sys_mem(2) [OF sys cur(1)])
  define now where "now = utc (ceNow ce (''work start'', 0))"
  let ?ids = "bindE (ceIDs ce ''attempt'' now) (\<lambda>i. guardE (validateAttemptID i) (Inr i))"
  show ?thesis
  proof (cases ?ids)
    case (Inl x)
    with run ext_refl [OF sys] show ?thesis by (auto simp: advanceWork_def Let_def now_def result_ok_def)
  next
    case (Inr i)
    note ids = Inr
    let ?s0 = "ceItf ce (''work reserve'', 0) s"
    have e0: "ext s ?s0" by (rule rely_ext [OF rel sys])
    show ?thesis
    proof (cases "reserve k PhaseWork i ?s0")
      case (Inl x)
      with run ids k e0 show ?thesis by (auto simp: advanceWork_def Let_def now_def result_ok_def)
    next
      case (Inr s1)
      from reserve_Inr [OF Inr] obtain x where s1: "s1 = ?s0\<lparr>enActive := x\<rparr>" and act: "activeStage s1 k \<noteq> None"
        by auto
      have e1: "ext s s1" using e0 by (simp add: s1)
      note sys1 = ext_sys [OF e1]
      let ?e = "startWork (rcExecution cur) i now"
      let ?r = "nextRecord_c cur ?e CauseStageStart [] (ceNow ce (''work start'', 1))"
      let ?t = "ceItf ce (''work start'', 1) s1"
      have et: "ext s1 ?t" by (rule rely_ext [OF rel sys1])
      obtain q s2 where cas: "casE S (ceCtx ce (''work start'', 1)) k (rcRev cur) ?r ?t = (q, s2)" by fastforce
      show ?thesis
      proof (cases q)
        case (Some x)
        from run ids k Inr cas [unfolded Some] cas_Some(1) [OF ext_sys [OF et] cas [unfolded Some]]
        have "err = Some x" "s' = release k ?t" by (auto simp: advanceWork_def Let_def now_def)
        with ext_trans [OF e1 et] show ?thesis by (simp add: result_ok_def)
      next
        case None
        let ?q = "workRequest ?e (the (exCurrentAttempt ?e))"
        obtain r werr where wk: "normalizeWorkOutcome (runWorker h ?q) = (r, werr)" by fastforce
        obtain rc perr s3 where fin: "finishWork S ce ?r r werr (ceItf ce (''work run'', 0) s2) = ((rc, perr), s3)"
          by (metis prod.exhaust)
        from run ids k Inr cas None wk fin have aw: "afterWork S ce h werr ((rc, perr), release k s3) = ((e, err), s')"
          by (auto simp: advanceWork_def Let_def now_def)
        note w = work_reserved [OF sys1 ext_mem [OF e1 cur(1)] cur(2,3) lim act rel h refl refl
            cas [unfolded None] wk fin]
        have e3: "ext s (release k s3)" using ext_trans [OF e1 w(1)] by simp
        have "result_ok k (release k s3) s' e err"
          by (rule afterWork_spec [OF ext_sys [OF e3] _ rel h aw]) (use w(2) in simp)
        with result_ok_trans [OF e3] show ?thesis by blast
      qed
    qed
  qed
qed

subsection \<open>Advance and Drive\<close>

lemma prepareAdvance_spec:
  assumes sys: "sys s" and rel: "rely k ce" and run: "prepareAdvance S ce k expected h s = ((rc, err), s')"
  shows "ext s s'" "err = None \<Longrightarrow> rc \<in> set (lg s' k) \<and> exStatus (rcExecution rc) = StatusReady"
proof -
  let ?s0 = "ceItf ce (''prepare'', 0) s"
  have e0: "ext s ?s0" by (rule rely_ext [OF rel sys])
  have "ext s s' \<and> (err = None \<longrightarrow> rc \<in> set (lg s' k) \<and> exStatus (rcExecution rc) = StatusReady)"
  proof (cases "activeStage ?s0 k")
    case (Some x)
    let ?s1 = "ceItf ce (''prepare'', 1) ?s0"
    have "ext s ?s1" by (rule ext_trans [OF e0 rely_ext [OF rel ext_sys [OF e0]]])
    with run Some show ?thesis by (auto simp: prepareAdvance_def Let_def split: sum.splits)
  next
    case None
    let ?s1 = "ceItf ce (''prepare'', 2) ?s0"
    have e1: "ext s ?s1" by (rule ext_trans [OF e0 rely_ext [OF rel ext_sys [OF e0]]])
    note sys1 = ext_sys [OF e1]
    show ?thesis
    proof (cases "loadExpected S (ceCtx ce (''prepare'', 2)) k expected ?s1")
      case (Inl x)
      with run None e1 show ?thesis by (auto simp: prepareAdvance_def Let_def)
    next
      case (Inr cur)
      then have "opLoad S (ceCtx ce (''prepare'', 2)) k (enStore ?s1) = Inr cur"
        by (auto simp: loadExpected_def bindE_Inr)
      note cur = load_mem(4) [OF sys1 this]
      obtain q s2 where rec: "recoverRecord S ce cur ?s1 = (q, s2)" by fastforce
      note sp = recover_spec [OF sys1 cur rel rec]
      from run None Inr rec ext_trans [OF e1 sp(1)] sp(2) show ?thesis
        by (auto simp: prepareAdvance_def Let_def advanceCheck_def split: sum.splits if_splits)
    qed
  qed
  then show "ext s s'" "err = None \<Longrightarrow> rc \<in> set (lg s' k) \<and> exStatus (rcExecution rc) = StatusReady" by auto
qed

theorem advance_spec:
  assumes sys: "sys s" and rel: "rely k ce" and h: "handlers_i64 h"
    and run: "advance S ce k expected h s = ((e, err), s')"
  shows "result_ok k s s' e err"
proof (cases "validateAdvanceRequest expected h")
  case (Some x)
  with run ext_refl [OF sys] show ?thesis by (auto simp: advance_def result_ok_def)
next
  case None
  obtain cur perr s1 where prep: "prepareAdvance S ce k expected h s = ((cur, perr), s1)" by (metis prod.exhaust)
  note pa = prepareAdvance_spec [OF sys rel prep]
  show ?thesis
  proof (cases perr)
    case (Some x)
    with run None prep pa(1) show ?thesis by (auto simp: advance_def result_ok_def)
  next
    case pnone: None
    with pa have cur: "cur \<in> set (lg s1 k)" "exStatus (rcExecution cur) = StatusReady" by auto
    note sys1 = ext_sys [OF pa(1)]
    obtain l lerr s2 where al: "applyLimit S ce ''limit'' (ceCtx ce (''limit'', 1)) cur s1 = ((l, lerr), s2)"
      by (metis prod.exhaust)
    note sp = applyLimit_spec [OF sys1 cur(1) _ rel al]
    show ?thesis
    proof (cases "lerr = None \<and> exStatus (rcExecution l) \<noteq> StatusLimited")
      case False
      with run None prep pnone al sp(1,2) cur(2) ext_trans [OF pa(1)] show ?thesis
        by (auto simp: advance_def result_ok_def split: option.splits)
    next
      case True
      with sp(3) cur(2) have l: "l = cur" "s2 = s1" and lim: "\<exists>t. \<not> limit_reached (exLimits (rcExecution cur))
          (exAccounting (rcExecution cur)) (exPhase (rcExecution cur)) t" by auto
      from run None prep pnone al True l have run':
        "(case exPhase (rcExecution cur) of
            PhaseWork \<Rightarrow> advanceWork S ce h cur s1
          | PhaseDecision \<Rightarrow> advanceDecision S ce h cur s1
          | PhaseOther _ \<Rightarrow> ((rcExecution cur, Some ErrInvalid), s1)) = ((e, err), s')"
        by (simp add: advance_def)
      have "result_ok k s1 s' e err"
      proof (cases "exPhase (rcExecution cur)")
        case PhaseWork
        with lim obtain t where "\<not> limit_reached (exLimits (rcExecution cur)) (exAccounting (rcExecution cur)) PhaseWork t"
          by auto
        from advanceWork_spec [OF sys1 cur PhaseWork this rel h] run' PhaseWork show ?thesis by simp
      next
        case PhaseDecision
        from advanceDecision_spec [OF sys1 cur PhaseDecision rel h] run' PhaseDecision show ?thesis by simp
      next
        case (PhaseOther x)
        with run' ext_refl [OF sys1] show ?thesis by (auto simp: result_ok_def)
      qed
      then show ?thesis by (rule result_ok_trans [OF pa(1)])
    qed
  qed
qed

lemma driveLoop_spec:
  assumes "sys s" "\<And>n. rely k (ces n)" "handlers_i64 h" "driveLoop S ces k h g n r s = ((r', err), s')"
  shows "ext s s'"
  using assms
proof (induction n arbitrary: r s)
  case 0
  then show ?case by (simp add: ext_refl)
next
  case (Suc n)
  obtain r1 stop err1 s1 where st: "driveStep S (ces n) k h g r s = ((r1, stop, err1), s1)"
    by (metis prod.exhaust)
  have e1: "ext s s1"
  proof (cases "statusYield (drExecution r) = None \<and> ceCtx (ces n) (''drive'', 0) = None \<and>
      driveGate g (drExecution r) = Inr True")
    case False
    with st ext_refl [OF Suc.prems(1)] show ?thesis
      by (auto simp: driveStep_def split: option.splits sum.splits bool.splits)
  next
    case True
    obtain nx aerr s2 where ad: "advance S (ces n) k (exRevision (drExecution r)) h s = ((nx, aerr), s2)"
      by (metis prod.exhaust)
    with st True have "s1 = s2" by (auto simp: driveStep_def Let_def split: option.splits if_splits)
    with advance_spec [OF Suc.prems(1,2,3) ad] show ?thesis by (simp add: result_ok_def)
  qed
  show ?case
  proof (cases "stop \<or> err1 \<noteq> None")
    case True
    with Suc.prems(4) st e1 show ?thesis by auto
  next
    case False
    with Suc.prems(4) st have "driveLoop S ces k h g n r1 s1 = ((r', err), s')" by auto
    from Suc.IH [OF ext_sys [OF e1] Suc.prems(2,3) this] ext_trans [OF e1] show ?thesis by blast
  qed
qed

theorem drive_spec:
  assumes sys: "sys s" and rel: "rely k ce" "\<And>n. rely k (ces n)" and h: "handlers_i64 h"
    and run: "drive S ce ces k expected h m g s = ((r, err), s')"
  shows "ext s s'"
proof -
  obtain q s1 where g: "engineGet_c S ce k s = (q, s1)" by fastforce
  note e1 = get_spec(1) [OF sys rel(1) g]
  have "ext s1 s'" if "driveLoop S ces k h g' n r0 s1 = ((r, err), s')" for g' n r0
    by (rule driveLoop_spec [OF ext_sys [OF e1] rel(2) h that])
  with run g e1 ext_refl [OF sys] ext_trans [OF e1] show ?thesis
    by (auto simp: drive_def split: option.splits sum.splits if_splits)
qed

end

end
