(* ===== verification/ContGuarantee.thy ===== *)
theory ContGuarantee
  imports ContFinish
begin

section \<open>Continuation: signals, creation and reserved executions\<close>

text \<open>
  The remaining operations over a store: \<open>Create\<close> and \<open>Signal\<close>; that a signal is delivered once; and
  the guarantee behind the rely of \<open>ContSystem\<close>: while a stage of \<open>k\<close> is reserved, the operations of
  other goroutines on \<open>k\<close> append control operations only and leave the reservation alone.
\<close>

definition signal_ids :: "cont_record list \<Rightarrow> string list" where
  "signal_ids rs = map (\<lambda>rc. trSignalID (rcTransition rc))
     (filter (\<lambda>rc. trCause (rcTransition rc) = CauseSignal) rs)"

lemma signal_ids_append [simp]: "signal_ids (rs @ rs') = signal_ids rs @ signal_ids rs'"
  by (simp add: signal_ids_def)

lemma delivered_ids: "delivered sid rs \<longleftrightarrow> sid \<in> set (signal_ids rs)"
  by (auto simp: delivered_def signal_ids_def)

lemma deliverSignal_Change:
  assumes "deliverSignal sg clock e = Change e' ca reason sid"
  shows "ca = CauseSignal" "sid = sgID sg" "controlStep (DeliverSignal sg) clock e = Change e' ca reason sid"
  using assms by (auto simp: deliverSignal_def)

lemma create_record_inv:
  assumes v: "validateRecord_c (createRecord_c (createExecution r k l now) now) = None"
  shows "chist_ok [createRecord_c (createExecution r k l now) now]"
proof -
  have "validateExecution (createExecution r k l now) = None"
    using v by (simp add: validateRecord_c_def createRecord_c_def Let_def)
  then have "exec_inv (createExecution r k l now)"
    by (simp add: exec_inv_def createExecution_def zero_execution_def zero_accounting_def zero_usage_def
        attempts_inv_def state_inv_def idle_def accounting_i64_def)
  then show ?thesis
    by (simp add: chist_ok_def createRecord_c_def createExecution_def zero_execution_def zero_accounting_def)
qed

definition creserved ::
    "('st \<Rightarrow> bool) \<Rightarrow> ('st \<Rightarrow> string \<Rightarrow> cont_record list) \<Rightarrow> string \<Rightarrow> 'st call_env \<Rightarrow> bool" where
  "creserved sinv log k ce \<longleftrightarrow> (\<forall>p s. csys sinv log s \<longrightarrow> activeStage s k \<noteq> None \<longrightarrow>
     cheld sinv log k s (ceItf ce p s))"

context cont_store
begin

subsection \<open>Create\<close>

lemma create_result:
  assumes sys: "sys s" and rel: "rely k' ce" and run: "engineCreate_c S ce r s = (q, s')"
  shows "ext s s'" "q = Inr e \<Longrightarrow> \<exists>rc \<in> set (lg s' (exID e)). e = rcExecution rc"
proof -
  let ?now = "utc (ceNow ce (''create'', 0))"
  let ?m = "bindE (createRequestCheck r)
          (\<lambda>l. bindE (if crID r = [] then ceIDs ce ''exec'' ?now else Inr (crID r))
            (\<lambda>k. guardE (validateID k) (Inr (createExecution r k l ?now))))"
  have "ext s s' \<and> (\<forall>e. q = Inr e \<longrightarrow> (\<exists>rc \<in> set (lg s' (exID e)). e = rcExecution rc))"
  proof (cases ?m)
    case (Inl x)
    with run ext_refl [OF sys] show ?thesis by (auto simp: engineCreate_c_def Let_def)
  next
    case (Inr e)
    then obtain l k where e: "e = createExecution r k l ?now" by (auto simp: bindE_Inr)
    let ?s1 = "ceItf ce (''create'', 0) s"
    let ?rc = "createRecord_c e ?now"
    have e1: "ext s ?s1" by (rule rely_ext [OF rel sys])
    note sys1 = ext_sys [OF e1]
    obtain c st where op: "opCreate S (ceCtx ce (''create'', 0)) ?rc (enStore ?s1) = (c, st)" by fastforce
    show ?thesis
    proof (cases c)
      case (Some x)
      with create_fail [OF sys_inv [OF sys1], of "ceCtx ce (''create'', 0)" ?rc x st] op have "st = enStore ?s1" by simp
      with run Inr op Some e1 show ?thesis by (auto simp: engineCreate_c_def Let_def)
    next
      case None
      note ok = create_ok [OF sys_inv [OF sys1] op [unfolded None]]
      have idk: "exID (rcExecution ?rc) = exID e" by (simp add: createRecord_c_def)
      have lg': "log st = (lg ?s1)(exID e := [?rc])" using ok idk by simp
      have "log st (exID e) = [?rc]" using lg' by simp
      then have "clog_ok (exID e) [?rc]" using log_inv [of st "exID e"] ok by simp
      then have "validateRecord_c ?rc = None" by (simp add: clog_ok_single)
      then have "chist_ok [?rc]" unfolding e by (rule create_record_inv)
      then have "sys (?s1\<lparr>enStore := st\<rparr>)" using sys1 ok lg' by (auto simp: csys_def)
      then have "ext ?s1 (?s1\<lparr>enStore := st\<rparr>)" using ok idk lg' by (auto simp: cext_def)
      moreover have "s' = ?s1\<lparr>enStore := st\<rparr>" "q = Inr e"
        using run Inr op None by (auto simp: engineCreate_c_def Let_def)
      ultimately show ?thesis using ext_trans [OF e1] lg' by (simp add: createRecord_c_def)
    qed
  qed
  then show "ext s s'" "q = Inr e \<Longrightarrow> \<exists>rc \<in> set (lg s' (exID e)). e = rcExecution rc" by auto
qed

subsection \<open>Signal\<close>

lemma history_eq: "sys s \<Longrightarrow> opHistory S c k (enStore s) =
    guardE c (if lg s k = [] then Inl ErrNotFound else Inr (lg s k))"
  using history sys_inv by blast

lemma signalConflict_spec:
  assumes sys: "sys s" and rel: "rely k' ce" and run: "signalConflict S ce k sid x s = ((e, err), s')"
  shows "result_ok k s s' e err" "s' = ceItf ce (''conflict'', 0) s"
proof -
  let ?s1 = "ceItf ce (''conflict'', 0) s"
  have e1: "ext s ?s1" by (rule rely_ext [OF rel sys])
  from run show "s' = ?s1" by (auto simp: signalConflict_def Let_def split: sum.splits if_splits)
  with run e1 history_eq [OF ext_sys [OF e1], of "ceCtx ce (''conflict'', 0)" k]
  show "result_ok k s s' e err"
    by (auto simp: signalConflict_def Let_def result_ok_def split: sum.splits if_splits)
qed

lemma duplicate_spec:
  assumes sys: "sys s" and rel: "rely k' ce" and run: "duplicateSignal S ce k sid s = (r, s1)"
  shows "ext s s1" "r = Inr (Some e) \<Longrightarrow> \<exists>rc \<in> set (lg s1 k). e = rcExecution rc"
    "r = Inr None \<Longrightarrow> \<not> delivered sid (lg s1 k)"
    "s1 = ceItf ce (''duplicate'', 0) s \<or> s1 = ceItf ce (''duplicate'', 1) (ceItf ce (''duplicate'', 0) s)"
proof -
  let ?s1 = "ceItf ce (''duplicate'', 0) s" and ?s2 = "ceItf ce (''duplicate'', 1) (ceItf ce (''duplicate'', 0) s)"
  have e1: "ext s ?s1" by (rule rely_ext [OF rel sys])
  have e2: "ext s ?s2" by (rule ext_trans [OF e1 rely_ext [OF rel ext_sys [OF e1]]])
  note h = history_eq [OF ext_sys [OF e1], of "ceCtx ce (''duplicate'', 0)" k]
  from run show s1: "s1 = ?s1 \<or> s1 = ?s2"
    by (auto simp: duplicateSignal_def Let_def split: sum.splits if_splits)
  with e1 e2 show "ext s s1" by auto
  show "r = Inr (Some e) \<Longrightarrow> \<exists>rc \<in> set (lg s1 k). e = rcExecution rc"
    using run load_mem(4) [OF ext_sys [OF e2]]
    by (auto simp: duplicateSignal_def Let_def bindE_Inr split: sum.splits if_splits)
  show "r = Inr None \<Longrightarrow> \<not> delivered sid (lg s1 k)"
    using run h by (auto simp: duplicateSignal_def Let_def bindE_Inr split: sum.splits if_splits)
qed

text \<open>What \<open>Signal\<close> does once it knows of no earlier delivery.\<close>

lemma signal_commit:
  assumes sys: "sys s" and rel: "rely k' ce" and nd: "\<not> delivered (sgID sg) (lg s k)"
    and old: "unat expected \<le> length (lg s k)"
    and keep: "\<And>p t. sys t \<Longrightarrow> distinct (signal_ids (lg t k)) \<Longrightarrow> distinct (signal_ids (lg (ceItf ce p t) k))"
    and dist: "distinct (signal_ids (lg s2 k))" and e2: "ext s s2" and rc: "rc \<in> set (lg s2 k)" "rcRev rc = expected"
    and ch: "deliverSignal sg clock (rcExecution rc) = Change e' ca reason sid"
    and cas: "casE S c k expected (controlRecordOf rc e' ca reason sid clock') (ceItf ce p s2) = (None, s3)"
  shows "ext s2 s3" "controlRecordOf rc e' ca reason sid clock' \<in> set (lg s3 k)"
    "distinct (signal_ids (lg s3 k))" "lg s3 k = lg s k @ [controlRecordOf rc e' ca reason sid clock']"
proof -
  let ?t = "ceItf ce p s2" and ?nx = "controlRecordOf rc e' ca reason sid clock'"
  note d = deliverSignal_Change [OF ch]
  note sys2 = ext_sys [OF e2]
  have et: "ext s2 ?t" by (rule rely_ext [OF rel sys2])
  note cm = commit [OF sys2 rc(1) et _ record_step_control [OF d(3)], of c clock' s3, unfolded rc(2), OF cas]
  from ext_trans [OF et cm(4)] show "ext s2 s3" .
  show "?nx \<in> set (lg s3 k)" by (rule cm(6))
  have "length (lg ?t k) < 2 ^ 64" "rcRev (last (lg ?t k)) = of_nat (length (lg ?t k))"
    using clog_ok_length [OF sys_log [OF ext_sys [OF et] cm(2)]] by auto
  with cm(1) rc(2) have "unat expected = length (lg ?t k)" by (auto simp: unat_position)
  moreover obtain es where "lg ?t k = lg s k @ es" using ext_trans [OF e2 et] by (auto simp: cext_def)
  ultimately have same: "lg ?t k = lg s k" using old by simp
  from cm(3) same show "lg s3 k = lg s k @ [?nx]" by simp
  from cm(3) have l3: "lg s3 k = lg ?t k @ [?nx]" by simp
  have "distinct (signal_ids (lg ?t k))" by (rule keep [OF sys2 dist])
  moreover have "signal_ids [?nx] = [sgID sg]" using d(1,2) by (simp add: signal_ids_def)
  ultimately show "distinct (signal_ids (lg s3 k))" using nd same by (simp add: l3 delivered_ids)
qed

definition signals_kept :: "string \<Rightarrow> 'st call_env \<Rightarrow> bool" where
  "signals_kept k ce \<longleftrightarrow> (\<forall>p t. sys t \<longrightarrow> distinct (signal_ids (lg t k)) \<longrightarrow>
     distinct (signal_ids (lg (ceItf ce p t) k)))"

text \<open>Recovery appends no delivery.\<close>

lemma recover_signals:
  assumes sys: "sys s" and rc: "rc \<in> set (lg s k)" and rel: "rely k' ce" and keep: "signals_kept k ce"
    and dist: "distinct (signal_ids (lg s k))" and run: "recoverRecord S ce rc s = (r, s')"
  shows "distinct (signal_ids (lg s' k))"
proof -
  have k: "exID (rcExecution rc) = k" by (rule sys_mem(2) [OF sys rc])
  have kept: "sys t \<Longrightarrow> distinct (signal_ids (lg t k)) \<Longrightarrow> distinct (signal_ids (lg (ceItf ce p t) k))" for p t
    using keep unfolding signals_kept_def by blast
  let ?s1 = "ceItf ce (''recover'', 0) s"
  let ?s2 = "ceItf ce (''recover'', 1) ?s1"
  let ?nx = "nextRecord_c rc (recovered (rcExecution rc) (utc (ceNow ce (''recover'', 0)))) CauseRecovery
                        ''reconciled orphaned active stage'' (ceNow ce (''recover'', 1))"
  have e1: "ext s ?s1" by (rule rely_ext [OF rel sys])
  have e2: "ext s ?s2" by (rule ext_trans [OF e1 rely_ext [OF rel ext_sys [OF e1]]])
  have d1: "distinct (signal_ids (lg ?s1 k))" by (rule kept [OF sys dist])
  have d2: "distinct (signal_ids (lg ?s2 k))" by (rule kept [OF ext_sys [OF e1] d1])
  have d3: "distinct (signal_ids (lg (ceItf ce p ?s2) k))" for p by (rule kept [OF ext_sys [OF e2] d2])
  show ?thesis
  proof (cases "recoverable (exStatus (rcExecution rc)) \<and> activeStage ?s1 k = None")
    case False
    with run k d1 dist show ?thesis by (auto simp: recoverRecord_def Let_def split: if_splits)
  next
    case True
    obtain c s3 where cas: "casE S (ceCtx ce (''recover'', 1)) k (rcRev rc) ?nx ?s2 = (c, s3)" by fastforce
    show ?thesis
    proof (cases c)
      case None
      have "record_step rc ?nx" using True by (intro record_step_next exec_step.recovery) simp
      note cm = commit [OF sys rc e2 cas [unfolded None] this]
      have "s' = s3" using run True cas None k by (auto simp: recoverRecord_def Let_def)
      moreover have "signal_ids [?nx] = []"
        by (simp add: signal_ids_def controlRecordOf_nextRecord)
      ultimately show ?thesis using cm(3) d2 by simp
    next
      case (Some x)
      have "s3 = ?s2" by (rule cas_Some(1) [OF ext_sys [OF e2] cas [unfolded Some]])
      with run True cas Some k d2 d3 show ?thesis by (auto simp: recoverRecord_def Let_def split: if_splits)
    qed
  qed
qed

lemma controlRecord_signals:
  assumes sys: "sys s" and rel: "rely k' ce" and dist: "distinct (signal_ids (lg s k))"
    and keep: "signals_kept k ce" and run: "controlRecord S ce k expected s = ((rc, err), s')"
  shows "distinct (signal_ids (lg s' k))"
proof -
  let ?s1 = "ceItf ce (''load'', 0) s"
  have e1: "ext s ?s1" by (rule rely_ext [OF rel sys])
  have d1: "distinct (signal_ids (lg ?s1 k))" using keep sys dist unfolding signals_kept_def by blast
  note sys1 = ext_sys [OF e1]
  have rec: "distinct (signal_ids (lg s2 k))"
    if "loadExpected S (ceCtx ce (''load'', 0)) k expected ?s1 = Inr cur"
      "recoverRecord S ce cur ?s1 = (q, s2)" for cur q s2
  proof -
    from that(1) have "opLoad S (ceCtx ce (''load'', 0)) k (enStore ?s1) = Inr cur"
      by (auto simp: loadExpected_def bindE_Inr)
    from recover_signals [OF sys1 load_mem(4) [OF sys1 this] rel keep d1 that(2)] show ?thesis .
  qed
  with run dist d1 show ?thesis
    by (auto simp: controlRecord_def Let_def split: option.splits sum.splits prod.splits if_splits)
qed

theorem signal_spec:
  assumes sys: "sys s" and rel: "rely k' ce" and keep: "signals_kept k ce"
    and old: "unat expected \<le> length (lg s k)" and dist: "distinct (signal_ids (lg s k))"
    and run: "engineSignal S ce k expected sg s = ((e, err), s')"
  shows "result_ok k s s' e err \<and> distinct (signal_ids (lg s' k))"
proof (cases "validateSignal sg")
  case (Some x)
  with run ext_refl [OF sys] dist show ?thesis by (auto simp: engineSignal_def result_ok_def)
next
  case None
  have kept: "sys t \<Longrightarrow> distinct (signal_ids (lg t k)) \<Longrightarrow> distinct (signal_ids (lg (ceItf ce p t) k))" for p t
    using keep unfolding signals_kept_def by blast
  obtain q s1 where du: "duplicateSignal S ce k (sgID sg) s = (q, s1)" by fastforce
  note sp = duplicate_spec [OF sys rel du]
  note sys0 = ext_sys [OF rely_ext [OF rel sys, of "(''duplicate'', 0)"]]
  have d1: "distinct (signal_ids (lg s1 k))" using sp(4) kept [OF sys dist] kept [OF sys0] by auto
  note sys1 = ext_sys [OF sp(1)]
  show ?thesis
  proof (cases "q = Inr None")
    case False
    then obtain x where "q = Inl x \<or> (\<exists>y. q = Inr (Some y))" by (cases q) auto
    with run None du sp(1,2) d1 show ?thesis by (auto simp: engineSignal_def result_ok_def)
  next
    case True
    obtain rc err1 s2 where cr: "controlRecord S ce k expected s1 = ((rc, err1), s2)" by (metis prod.exhaust)
    note cs = controlRecord_spec [OF sys1 rel cr]
    note e2 = ext_trans [OF sp(1) cs(1)]
    have d2: "distinct (signal_ids (lg s2 k))"
      by (rule controlRecord_signals [OF sys1 rel d1 keep cr])
    show ?thesis
    proof (cases err1)
      case (Some x)
      with run None du True cr e2 d2 show ?thesis by (auto simp: engineSignal_def result_ok_def)
    next
      case enone: None
      with cs have rc: "rc \<in> set (lg s2 k)" "rcRev rc = expected" by auto
      show ?thesis
      proof (cases "deliverSignal sg (ceNow ce (''control'', 0)) (rcExecution rc)")
        case (Change e' ca reason sid)
        note d = deliverSignal_Change [OF Change]
        let ?nx = "controlRecordOf rc e' ca reason sid (ceNow ce (''control'', 1))"
        let ?t = "ceItf ce (''control'', 1) s2"
        have et: "ext s2 ?t" by (rule rely_ext [OF rel ext_sys [OF e2]])
        obtain c s3 where cas: "casE S (ceCtx ce (''control'', 1)) k expected ?nx ?t = (c, s3)" by fastforce
        show ?thesis
        proof (cases c)
          case cnone: None
          have old1: "unat expected \<le> length (lg s1 k)"
            using old sp(1) by (metis cext_def le_trans length_append le_add1)
          have nd: "\<not> delivered (sgID sg) (lg s1 k)" using sp(3) True by blast
          from run None du True cr enone Change cas cnone have "e = rcExecution ?nx" "s' = s3"
            by (auto simp: engineSignal_def Let_def)
          with signal_commit [OF sys1 rel nd old1 kept d2 cs(1) rc Change cas [unfolded cnone]] ext_trans [OF e2]
          show ?thesis by (auto simp: result_ok_def)
        next
          case (Some x)
          note s3 = cas_Some(1) [OF ext_sys [OF et] cas [unfolded Some]]
          have e3: "ext s ?t" by (rule ext_trans [OF e2 et])
          have d3: "distinct (signal_ids (lg ?t k))" by (rule kept [OF ext_sys [OF e2] d2])
          show ?thesis
          proof (cases "errorsIs_c x ErrConflict")
            case True2: True
            from run None du True cr enone Change cas Some s3 True2
            have "signalConflict S ce k (sgID sg) x ?t = ((e, err), s')" by (auto simp: engineSignal_def Let_def)
            from signalConflict_spec [OF ext_sys [OF e3] rel this] kept [OF ext_sys [OF e3] d3]
              result_ok_trans [OF e3]
            show ?thesis by auto
          next
            case False
            with run None du True cr enone Change cas Some s3 have "err = Some x" "s' = ?t"
              by (auto simp: engineSignal_def Let_def)
            with e3 d3 show ?thesis by (simp add: result_ok_def)
          qed
        qed
      qed (use run None du True cr enone e2 d2 rc in \<open>auto simp: engineSignal_def result_ok_def\<close>)
    qed
  qed
qed

subsection \<open>What other goroutines do to a reserved execution\<close>

abbreviation "reserved \<equiv> creserved sinv log"

lemma held_refl: "sys s \<Longrightarrow> held k s s"
  by (auto simp: cheld_def ext_refl)

lemma chain_append:
  assumes "successively P (last xs # as)" "successively P (last (xs @ as) # bs)" "xs \<noteq> []"
  shows "successively P (last xs # as @ bs)"
  using assms by (cases "as = []") (auto simp: successively_append_iff successively_Cons)

lemma held_trans:
  assumes "held k a b" "held k b c"
  shows "held k a c"
proof -
  from assms obtain x y where x: "lg b k = lg a k @ x"
      "lg a k \<noteq> [] \<longrightarrow> successively control_record_step (last (lg a k) # x)"
    and y: "lg c k = lg b k @ y" "lg b k \<noteq> [] \<longrightarrow> successively control_record_step (last (lg b k) # y)"
    unfolding cheld_def by blast
  have "successively control_record_step (last (lg a k) # x @ y)" if "lg a k \<noteq> []"
    using chain_append [of control_record_step "lg a k" x y] x y that by simp
  moreover have "lg c k = lg a k @ x @ y" using x y by simp
  moreover have "ext a c" using ext_trans held_ext assms by blast
  ultimately show ?thesis using assms unfolding cheld_def by metis
qed

lemma reserved_held: "reserved k ce \<Longrightarrow> sys s \<Longrightarrow> activeStage s k \<noteq> None \<Longrightarrow> held k s (ceItf ce p s)"
  unfolding creserved_def by blast

text \<open>A step from one held state to the next.\<close>

lemma reserved_step:
  assumes "reserved k ce" "held k s t" "activeStage s k \<noteq> None"
  shows "held k s (ceItf ce p t)" "activeStage (ceItf ce p t) k \<noteq> None" "sys (ceItf ce p t)"
proof -
  have "held k t (ceItf ce p t)"
    by (rule reserved_held [OF assms(1) ext_sys [OF held_ext [OF assms(2)]]])
      (use held_active [OF assms(2)] assms(3) in simp)
  with held_trans [OF assms(2)] show h: "held k s (ceItf ce p t)" by blast
  show "activeStage (ceItf ce p t) k \<noteq> None" using held_active [OF h] assms(3) by simp
  show "sys (ceItf ce p t)" by (rule ext_sys [OF held_ext [OF h]])
qed

lemma recover_reserved:
  assumes res: "reserved k ce" and sys: "sys s" and act: "activeStage s k \<noteq> None"
    and rc: "rc \<in> set (lg s k)" and run: "recoverRecord S ce rc s = (r, s')"
  shows "r = Inr rc" "held k s s'"
  using run reserved_step [OF res held_refl [OF sys] act] sys_mem(2) [OF sys rc] held_refl [OF sys]
  by (auto simp: recoverRecord_def Let_def split: if_splits)

lemma controlRecord_reserved:
  assumes res: "reserved k ce" and sys: "sys s" and act: "activeStage s k \<noteq> None"
    and run: "controlRecord S ce k expected s = ((rc, err), s')"
  shows "held k s s'" "err = None \<Longrightarrow> rc \<in> set (lg s' k) \<and> rcRev rc = expected"
proof -
  let ?s1 = "ceItf ce (''load'', 0) s"
  note st = reserved_step [OF res held_refl [OF sys] act, of "(''load'', 0)"]
  have "held k s s' \<and> (err = None \<longrightarrow> rc \<in> set (lg s' k) \<and> rcRev rc = expected)"
  proof (cases "validateExpectedRevision expected")
    case (Some x)
    with run held_refl [OF sys] show ?thesis by (auto simp: controlRecord_def)
  next
    case None
    show ?thesis
    proof (cases "loadExpected S (ceCtx ce (''load'', 0)) k expected ?s1")
      case (Inl x)
      with run None st(1) show ?thesis by (auto simp: controlRecord_def Let_def)
    next
      case (Inr cur)
      then have "opLoad S (ceCtx ce (''load'', 0)) k (enStore ?s1) = Inr cur" "rcRev cur = expected"
        by (auto simp: loadExpected_def bindE_Inr)
      note cur = load_mem(4) [OF st(3) this(1)] this(2)
      obtain q s2 where rec: "recoverRecord S ce cur ?s1 = (q, s2)" by fastforce
      note r = recover_reserved [OF res st(3,2) cur(1) rec]
      have "held k s s2" using held_trans [OF st(1) r(2)] .
      with run None Inr rec r cur ext_mem [OF held_ext [OF r(2)] cur(1)] show ?thesis
        by (auto simp: controlRecord_def Let_def)
    qed
  qed
  then show "held k s s'" "err = None \<Longrightarrow> rc \<in> set (lg s' k) \<and> rcRev rc = expected" by auto
qed

lemma commit_reserved:
  assumes h: "held k s t" and act: "activeStage s k \<noteq> None" and res: "reserved k ce"
    and rc: "rc \<in> set (lg t k)" "rcRev rc = expected" and ch: "controlStep c t0 (rcExecution rc) = Change e' ca reason sid"
    and cas: "casE S cx k expected (controlRecordOf rc e' ca reason sid clock) (ceItf ce p t) = (q, s3)"
  shows "held k s s3"
proof -
  note st = reserved_step [OF res h act, of p]
  show ?thesis
  proof (cases q)
    case (Some x)
    with cas_Some(1) [OF st(3) cas [unfolded Some]] st(1) show ?thesis by simp
  next
    case None
    have et: "ext t (ceItf ce p t)"
      using reserved_held [OF res ext_sys [OF held_ext [OF h]]] held_active [OF h] act held_ext by metis
    note cm = commit [OF ext_sys [OF held_ext [OF h]] rc(1) et _ record_step_control [OF ch], of cx clock s3,
        unfolded rc(2), OF cas [unfolded None]]
    have "held k (ceItf ce p t) s3"
      using cm(1,3,4,5) control_record_stepI [OF ch] unfolding cheld_def
      by (auto simp: activeStage_def)
    with held_trans [OF st(1)] show ?thesis by blast
  qed
qed

lemma controlOp_reserved:
  assumes res: "reserved k ce" and sys: "sys s" and act: "activeStage s k \<noteq> None"
    and run: "controlOp S ce k expected c s = ((e, err), s')"
  shows "held k s s'"
proof -
  obtain rc err1 s1 where cr: "controlRecord S ce k expected s = ((rc, err1), s1)" by (metis prod.exhaust)
  note sp = controlRecord_reserved [OF res sys act cr]
  show ?thesis
  proof (cases "err1 = None \<and> (\<exists>e' ca reason sid. controlStep c (ceNow ce (''control'', 0)) (rcExecution rc) =
      Change e' ca reason sid)")
    case False
    with run cr sp(1) show ?thesis by (auto simp: controlOp_def split: option.splits control_outcome.splits)
  next
    case True
    then obtain e' ca reason sid where ch: "controlStep c (ceNow ce (''control'', 0)) (rcExecution rc) =
      Change e' ca reason sid" and "err1 = None" by blast
    with sp have rc: "rc \<in> set (lg s1 k)" "rcRev rc = expected" by auto
    let ?nx = "controlRecordOf rc e' ca reason sid (ceNow ce (''control'', 1))"
    obtain q s3 where cas: "casE S (ceCtx ce (''control'', 1)) k expected ?nx (ceItf ce (''control'', 1) s1) = (q, s3)"
      by fastforce
    from run cr \<open>err1 = None\<close> ch cas have "s' = s3" by (auto simp: controlOp_def Let_def split: option.splits)
    with commit_reserved [OF sp(1) act res rc ch cas] show ?thesis by simp
  qed
qed

lemma signal_reserved:
  assumes res: "reserved k ce" and sys: "sys s" and act: "activeStage s k \<noteq> None"
    and run: "engineSignal S ce k expected sg s = ((e, err), s')"
  shows "held k s s'"
proof -
  obtain q s1 where du: "duplicateSignal S ce k (sgID sg) s = (q, s1)" by fastforce
  note st0 = reserved_step [OF res held_refl [OF sys] act]
  have h1: "held k s s1" using du st0(1) reserved_step(1) [OF res st0(1) act]
    by (auto simp: duplicateSignal_def Let_def split: sum.splits if_splits)
  have act1: "activeStage s1 k \<noteq> None" using held_active [OF h1] act by simp
  note sys1 = ext_sys [OF held_ext [OF h1]]
  obtain rc err1 s2 where cr: "controlRecord S ce k expected s1 = ((rc, err1), s2)" by (metis prod.exhaust)
  note cs = controlRecord_reserved [OF res sys1 act1 cr]
  note h2 = held_trans [OF h1 cs(1)]
  show ?thesis
  proof (cases "validateSignal sg = None \<and> q = Inr None \<and> err1 = None \<and>
      (\<exists>e' ca reason sid. deliverSignal sg (ceNow ce (''control'', 0)) (rcExecution rc) = Change e' ca reason sid)")
    case False
    with run du cr h1 h2 held_refl [OF sys] show ?thesis
      by (auto simp: engineSignal_def split: option.splits sum.splits control_outcome.splits)
  next
    case True
    then obtain e' ca reason sid where ch: "deliverSignal sg (ceNow ce (''control'', 0)) (rcExecution rc) =
      Change e' ca reason sid" and "err1 = None" by blast
    with cs have rc: "rc \<in> set (lg s2 k)" "rcRev rc = expected" by auto
    let ?nx = "controlRecordOf rc e' ca reason sid (ceNow ce (''control'', 1))"
    obtain c s3 where cas: "casE S (ceCtx ce (''control'', 1)) k expected ?nx (ceItf ce (''control'', 1) s2) = (c, s3)"
      by fastforce
    note h3 = commit_reserved [OF h2 act res rc deliverSignal_Change(3) [OF ch] cas]
    from run du cr True ch cas have "s' = s3 \<or> s' = ceItf ce (''conflict'', 0) s3"
      by (auto simp: engineSignal_def signalConflict_def Let_def split: option.splits if_splits sum.splits)
    with h3 reserved_step(1) [OF res h3 act] show ?thesis by auto
  qed
qed

lemma get_reserved:
  assumes res: "reserved k ce" and sys: "sys s" and act: "activeStage s k \<noteq> None"
    and run: "engineGet_c S ce k s = (q, s')"
  shows "held k s s'"
proof -
  let ?s1 = "ceItf ce (''get'', 0) s"
  note st = reserved_step [OF res held_refl [OF sys] act, of "(''get'', 0)"]
  show ?thesis
  proof (cases "opLoad S (ceCtx ce (''get'', 0)) k (enStore ?s1)")
    case (Inl x)
    with run st(1) show ?thesis by (auto simp: engineGet_c_def Let_def)
  next
    case (Inr rc)
    obtain r s2 where rec: "recoverRecord S ce rc ?s1 = (r, s2)" by fastforce
    note rr = recover_reserved [OF res st(3,2) load_mem(4) [OF st(3) Inr] rec]
    from run Inr rec rr held_trans [OF st(1) rr(2)] show ?thesis by (auto simp: engineGet_c_def Let_def)
  qed
qed

lemma advance_reserved:
  assumes res: "reserved k ce" and sys: "sys s" and act: "activeStage s k \<noteq> None"
    and run: "advance S ce k expected h s = ((e, err), s')"
  shows "held k s s'" "err \<noteq> None"
proof -
  let ?s0 = "ceItf ce (''prepare'', 0) s"
  note st = reserved_step [OF res held_refl [OF sys] act, of "(''prepare'', 0)"]
  note st1 = reserved_step [OF res st(1) act, of "(''prepare'', 1)"]
  have "held k s s' \<and> err \<noteq> None"
  proof (cases "validateAdvanceRequest expected h")
    case (Some x)
    with run have "err = Some x" "s' = s" by (auto simp: advance_def)
    with held_refl [OF sys] show ?thesis by simp
  next
    case None
    with run st(2) st1(1) show ?thesis
      by (auto simp: advance_def prepareAdvance_def Let_def split: sum.splits)
  qed
  then show "held k s s'" "err \<noteq> None" by auto
qed

end

end
