(* ===== verification/ContAccept.thy ===== *)
theory ContAccept
  imports ContGuarantee
begin

section \<open>Continuation: validation refuses no step\<close>

text \<open>
  The converse of validation: the record a step makes from a valid execution passes
  \<open>validateRecord\<close>, whenever the arguments of the operation are valid, the clock is not the zero
  time and no counter overflows. So an operation without interference commits.
\<close>

lemma state_inv_status: "state_inv e \<Longrightarrow> validateStatusState e = None \<and> validStatus_c (exStatus e)"
  by (cases "exStatus e") (auto simp: state_inv_def validateStatusState_def validateReadyState_def
      validateActiveState_def validateWaitingState_def validateBlockedState_def validatePausedState_def
      validateInterruptedState_def idle_def has_work_def staged_def suspension_inv_def validStatus_c_def
      split: if_splits)

lemma inv_phase: "exec_inv e \<Longrightarrow> validPhase (exPhase e)"
  using validateExecutionD(1) [of e] by (simp add: exec_inv_def validateExecutionIdentity_def)

lemma stamp_payloads [simp]: "validateExecutionPayloads (stampE m t e) = validateExecutionPayloads e"
  by (simp add: validateExecutionPayloads_def)

text \<open>What is left to check for the next execution.\<close>

lemma accept:
  assumes inv: "exec_inv e" and id: "same_identity e e'" and st: "state_inv e'" and ph: "validPhase (exPhase e')"
    and r: "validateReason_c (exReason e') = None" and t: "\<not> isZero t"
    and p: "validateExecutionPayloads e' = None"
    and a: "validateAttempt_c (exCurrentAttempt e') (acAttempts (exAccounting e')) = None"
      "validateAttempt_c (exLastAttempt e') (acAttempts (exAccounting e')) = None"
    and n: "accounting_nonneg (exAccounting e')"
  shows "validateExecution (stampE m t e') = None"
proof -
  have i: "validateExecutionIdentity e = None"
    using validateExecutionD(1) exec_invD(1) [OF inv] by blast
  have "validateExecutionIdentity (stampE m t e') = None"
    using i id ph r t state_inv_status [OF st]
    by (simp add: validateExecutionIdentity_def same_identity_def)
  moreover have "validateExecutionPayloads (stampE m t e') = None"
    using p by simp
  moreover have "validateStatusState (stampE m t e') = None"
    using state_inv_status [of "stampE m t e'"] st by simp
  ultimately show ?thesis
    using a n by (auto simp: validateExecution_def validateExecutionState_def accounting_nonneg_def Let_def)
qed

lemma accept_record:
  assumes v: "validateExecution (stampE (rcRev rc + 1) (utc clock) e') = None" and t: "\<not> isZero clock"
    and rev: "rcRev rc + 1 \<noteq> 0" and r: "validateReason_c reason = None" and c: "validCause_c c"
    and st: "validStatus_c (exStatus (rcExecution rc))"
  shows "validateRecord_c (controlRecordOf rc e' c reason sid clock) = None"
  using assms by (simp add: validateRecord_c_def controlRecordOf_def nextRecord_c_def Let_def)

subsection \<open>Control operations\<close>

lemma payloadsD:
  assumes "validateExecutionPayloads e = None"
  shows "validateJSON_c (exControllerState e) 262144 = None" "validateJSON_c (exNextInput e) 262144 = None"
    "validateJSON_c (exOutput e) 262144 = None" "exWait e \<noteq> None \<Longrightarrow> validateWait (exWait e) = None"
    "exBlock e \<noteq> None \<Longrightarrow> validateBlock (exBlock e) = None" "validateActivation (exActivation e) = None"
    "validateSuspension (exSuspension e) = None"
  using assms by (auto simp: validateExecutionPayloads_def split: if_splits)

lemma payloadsI:
  assumes "validateJSON_c (exControllerState e) 262144 = None" "validateJSON_c (exNextInput e) 262144 = None"
    "validateJSON_c (exOutput e) 262144 = None" "exWait e = None \<or> validateWait (exWait e) = None"
    "exBlock e = None \<or> validateBlock (exBlock e) = None" "validateActivation (exActivation e) = None"
    "validateSuspension (exSuspension e) = None"
  shows "validateExecutionPayloads e = None"
  using assms by (auto simp: validateExecutionPayloads_def)

lemma suspension_payloads:
  assumes "validateSuspension (Some s) = None" "suspension_inv e s"
  shows "suWait s = None \<or> validateWait (suWait s) = None" "suBlock s = None \<or> validateBlock (suBlock s) = None"
  using assms by (cases "suStatus s"; simp add: validateSuspension_def validateSuspensionState_def suspension_inv_def)+

lemma empty_reason [simp]: "validateReason_c [] = None"
  by (simp add: validateReason_c_def)

lemma plain_activation:
  "validateActivation None = None"
  "\<not> isZero t \<Longrightarrow> validateJSON_c p 262144 = None \<Longrightarrow> src \<in> {ActivationInitial, ActivationTime, ActivationBlock} \<Longrightarrow>
     validateActivation (Some \<lparr>avSource = src, avAt = t, avSignalID = [], avPayload = p\<rparr>) = None"
  by (auto simp: validateActivation_def)

lemma signal_activation:
  "validateSignal sg = None \<Longrightarrow> \<not> isZero t \<Longrightarrow>
     validateActivation (Some \<lparr>avSource = ActivationSignal, avAt = t, avSignalID = sgID sg, avPayload = sgPayload sg\<rparr>) = None"
  by (auto simp: validateActivation_def validateSignal_def)

lemma pause_suspension:
  assumes inv: "exec_inv e" and st: "\<not> terminal (exStatus e)" "\<not> recoverable (exStatus e)" "exStatus e \<noteq> StatusPaused"
  shows "validateSuspension (Some (pauseSuspension e)) = None"
proof -
  note i = exec_invD [OF inv]
  note v = validateExecutionD [OF i(1)]
  note p = payloadsD [OF v(2)]
  have r: "validateReason_c (exReason e) = None" using v(1) by (simp add: validateExecutionIdentity_def)
  have s: "validateSuspensionState (pauseSuspension e) = None"
    using st i(3) p by (cases "exStatus e") (auto simp: validateSuspensionState_def pauseSuspension_def
        state_inv_def idle_def recoverable_def)
  show ?thesis using s r inv_phase [OF inv]
    by (auto simp: validateSuspension_def validateSuspensionIdentity_def pauseSuspension_def)
qed

lemma control_payloads:
  assumes inv: "exec_inv e" and ch: "controlStep c clock e = Change e' ca reason sid"
    and t: "\<not> isZero clock" and sg: "\<And>g. c = DeliverSignal g \<Longrightarrow> validateSignal g = None"
  shows "validateExecutionPayloads e' = None"
proof -
  note i = exec_invD [OF inv]
  note v = validateExecutionD [OF i(1)]
  note p = payloadsD [OF v(2)]
  have w: "exWait e = None \<or> validateWait (exWait e) = None" "exBlock e = None \<or> validateBlock (exBlock e) = None"
    using p(4,5) by fastforce+
  have none: "validateSuspension None = None" "validateActivation None = None"
    by (simp_all add: validateSuspension_def validateActivation_def)
  note base = payloadsI p(1-3,6,7) w none
  show ?thesis
  proof (cases c)
    case (Pause r)
    have "validateSuspension (Some (pauseSuspension e)) = None" if "exStatus e \<noteq> StatusRunning"
      using ch Pause that by (intro pause_suspension [OF inv])
        (auto simp: pause_def terminalCheck_def recoverable_def split: if_splits)
    then show ?thesis using ch Pause base by (auto simp: pause_def split: if_splits)
  next
    case (Resume r)
    from ch Resume obtain s where s: "exSuspension e = Some s" "exStatus e = StatusPaused"
      and e': "e' = e\<lparr>exStatus := suStatus s, exPhase := suPhase s, exWait := suWait s,
             exBlock := suBlock s, exSuspension := None, exReason := r\<rparr>"
      by (auto simp: resume_def split: option.splits)
    have "suspension_inv e s" using i(3) s by (simp add: state_inv_def)
    from suspension_payloads [OF _ this] p(7) s show ?thesis unfolding e' using base by (intro payloadsI) auto
  next
    case (RetryWork r)
    then show ?thesis using ch base by (auto simp: retryWork_def Let_def split: option.splits)
  next
    case (RetryDecision r)
    then show ?thesis using ch base by (auto simp: retryDecision_def split: option.splits)
  next
    case (ResolveBlock x)
    then show ?thesis using ch base plain_activation(2) t by (auto simp: resolveBlock_def intro!: payloadsI)
  next
    case ResumeDue
    have "validateJSON_c None 262144 = None" by (simp add: validateJSON_c_def)
    with ResumeDue show ?thesis using ch base plain_activation(2) t
      by (auto simp: resumeDue_def intro!: payloadsI split: option.splits)
  next
    case (DeliverSignal g)
    then show ?thesis using ch base signal_activation [OF sg] t
      by (auto simp: deliverSignal_def intro!: payloadsI)
  qed (use ch base in \<open>auto simp: cancel_def failExecution_def intro!: payloadsI split: if_splits\<close>)
qed

lemma control_attempts:
  assumes inv: "exec_inv e" and ch: "controlStep c clock e = Change e' ca reason sid"
  shows "validateAttempt_c (exCurrentAttempt e') (acAttempts (exAccounting e)) = None"
    "validateAttempt_c (exLastAttempt e') (acAttempts (exAccounting e)) = None"
proof -
  note v = validateExecutionD(3,4) [OF exec_invD(1) [OF inv]]
  have none: "validateAttempt_c None n = None" for n by (simp add: validateAttempt_c_def)
  have flags: "validateAttempt_c (Some (a\<lparr>atInterrupted := False, atFailure := None\<rparr>)) n = None"
    if "validateAttempt_c (Some a) n = None" for a n
    using that by (simp add: validateAttempt_c_def validateAttemptIdentity_def validateAttemptWork_def
        validateAttemptDecision_def validateStageFailure_def split: option.splits)
  show "validateAttempt_c (exCurrentAttempt e') (acAttempts (exAccounting e)) = None"
    "validateAttempt_c (exLastAttempt e') (acAttempts (exAccounting e)) = None"
    using ch v none flags by (cases c; auto simp: control_defs Let_def split: if_splits option.splits)+
qed

lemma control_phase:
  assumes inv: "exec_inv e" and ch: "controlStep c clock e = Change e' ca reason sid"
  shows "validPhase (exPhase e')" "validateReason_c (exReason e') = None" "validateReason_c reason = None"
    "validCause_c ca"
proof -
  have s: "validPhase (suPhase s)" if "exSuspension e = Some s" for s
    using payloadsD(7) [OF validateExecutionD(2) [OF exec_invD(1) [OF inv]]] that
    by (simp add: validateSuspension_def validateSuspensionIdentity_def)
  have w: "validPhase PhaseWork" "validPhase PhaseDecision" by (simp_all add: validPhase_def)
  show "validPhase (exPhase e')" "validateReason_c (exReason e') = None" "validateReason_c reason = None"
    "validCause_c ca"
    using ch inv_phase [OF inv] s w
    by (cases c; auto simp: control_defs validCause_c_def Let_def split: if_splits option.splits)+
qed

theorem control_accepted:
  assumes inv: "exec_inv (rcExecution rc)" and ch: "controlStep c clock (rcExecution rc) = Change e' ca reason sid"
    and t: "\<not> isZero clock" "\<not> isZero clock'" and sg: "\<And>g. c = DeliverSignal g \<Longrightarrow> validateSignal g = None"
    and rev: "rcRev rc + 1 \<noteq> 0"
  shows "validateRecord_c (controlRecordOf rc e' ca reason sid clock') = None"
proof (rule accept_record [OF _ t(2) rev])
  note i = exec_invD [OF inv]
  note cp = control_phase [OF inv ch]
  show "validateReason_c reason = None" "validCause_c ca" by (rule cp)+
  show "validStatus_c (exStatus (rcExecution rc))" using state_inv_status [OF i(3)] by simp
  show "validateExecution (stampE (rcRev rc + 1) (utc clock') e') = None"
    using control_attempts [OF inv ch] control_Change(2) [OF ch] valid_nonneg [OF i(1)] control_inv [OF inv ch]
    by (intro accept [OF inv control_identity [OF ch] _ cp(1,2) _ control_payloads [OF inv ch t(1) sg]])
      (use t(2) in simp_all)
qed


subsection \<open>Stages\<close>

lemma projectFailure_valid:
  "f = ''worker'' \<or> f = ''controller'' \<Longrightarrow> validateStageFailure (Some (projectFailure tx f err)) = None"
  by (auto simp: validateStageFailure_def projectFailure_def Let_def len_def)

lemma normalize_valid:
  assumes "normalizeWorkOutcome p = (r, err)"
  shows "validateWorkResult r = None"
proof -
  obtain r0 err0 where p: "p = (r0, err0)" by fastforce
  have "validateWorkResult (sanitizedPartialResult r0) = None"
    by (auto simp: validateWorkResult_def sanitizedPartialResult_def validUsage_def validProgress_def
        validateJSON_c_def Let_def split: progress.splits option.splits)
  with assms p show ?thesis by (auto simp: normalizeWorkOutcome_def split: option.splits)
qed

lemma attemptD:
  assumes "validateAttempt_c (Some a) n = None"
  shows "validateAttemptIdentity a n = None" "validateActivation (atActivation a) = None"
    "validateAttemptWork a = None" "validateAttemptDecision a = None" "validateStageFailure (atFailure a) = None"
  using assms by (simp_all add: validateAttempt_c_def)

lemma attempt_identity_phase:
  "validateAttemptIdentity a n = None \<Longrightarrow> validPhase p \<Longrightarrow> validateAttemptIdentity (a\<lparr>atPhase := p\<rparr>) n = None"
  by (simp add: validateAttemptIdentity_def)

text \<open>The attempt of a finished Work stage, up to its phase, failure and interruption.\<close>

definition worked_as :: "attempt \<Rightarrow> work_result \<Rightarrow> gtime \<Rightarrow> attempt \<Rightarrow> bool" where
  "worked_as a r t b \<longleftrightarrow> atID b = atID a \<and> atNumber b = atNumber a \<and> atActivation b = atActivation a \<and>
     atWorkStartedAt b = atWorkStartedAt a \<and> atDecision b = atDecision a \<and> atWork b = Some r \<and>
     atWorkCompletedAt b = t \<and> validPhase (atPhase b) \<and> validateStageFailure (atFailure b) = None"

lemma worked_valid:
  assumes a: "validateAttempt_c (Some a) n = None" "atDecision a = None" and r: "validateWorkResult r = None"
    and t: "\<not> isZero now" and b: "worked_as a r now b"
  shows "validateAttempt_c (Some b) n = None"
  using attemptD [OF a(1)] a(2) r t b
  by (simp add: worked_as_def validateAttempt_c_def validateAttemptIdentity_def validateAttemptWork_def
      validateAttemptDecision_def)

lemma active_inv:
  assumes inv: "exec_inv e" and st: "recoverable (exStatus e)"
  obtains a where "exCurrentAttempt e = Some a" "idle e" "atDecision a = None"
    "validateAttempt_c (Some a) (acAttempts (exAccounting e)) = None"
    "(exPhase e = PhaseDecision) = (atWork a \<noteq> None)"
proof -
  note i = exec_invD [OF inv]
  from state_inv_active [OF i(3) st] obtain a where "exCurrentAttempt e = Some a" "idle e"
    "(exPhase e = PhaseDecision) = (atWork a \<noteq> None)" by (auto simp: staged_def)
  with validateExecutionD(3) [OF i(1)] i(2) that show thesis by (auto simp: attempts_inv_def)
qed

lemma work_attempt:
  assumes "workOutcome tx e r err clock = (e', c)" "exCurrentAttempt e = Some a"
    "validateStageFailure (atFailure a) = None"
  shows "\<exists>b. exCurrentAttempt e' = Some b \<and> worked_as a r (utc clock) b"
  using assms projectFailure_valid [of "''worker''" tx err]
  by (auto simp: workOutcome_def workedAttempt_def interruptedAttempt_def worked_as_def validPhase_def
      validateStageFailure_def [of None] Let_def split: status.splits if_splits)

theorem work_accepted:
  assumes inv: "exec_inv e" and st: "recoverable (exStatus e)" "exPhase e = PhaseWork"
    and r: "validateWorkResult r = None" and t: "\<not> isZero clock" "\<not> isZero t"
    and run: "workOutcome tx e r err clock = (e', c)" and n: "accounting_nonneg (exAccounting e')"
    and i64: "wrTurns r < 2 ^ 63" "i64_usage (wrUsage r)"
  shows "validateExecution (stampE m t e') = None"
proof -
  note i = exec_invD [OF inv]
  from active_inv [OF inv st(1)] obtain a where a: "exCurrentAttempt e = Some a" and idle: "idle e"
    and nd: "atDecision a = None" and va: "validateAttempt_c (Some a) (acAttempts (exAccounting e)) = None" by metis
  note v = validateExecutionD [OF i(1)]
  note p = payloadsD [OF v(2)]
  have step: "exec_step e c e'" by (rule exec_step.work_done [OF st i64 run])
  have acc: "acAttempts (exAccounting e') = acAttempts (exAccounting e)"
    using work_accounting [OF run a] by simp
  have ph: "validPhase PhaseWork" "validPhase PhaseDecision" by (simp_all add: validPhase_def)
  have susp: "validateSuspension (Some (resumeAt PhaseDecision False)) = None"
    "validateSuspension (Some (resumeAt PhaseWork True)) = None" "validateSuspension None = None"
    by (simp_all add: validateSuspension_def validateSuspensionIdentity_def validateSuspensionState_def resumeAt_def ph)
  have fl: "validateStageFailure (atFailure a) = None" using attemptD(5) [OF va] .
  have lst: "exLastAttempt e' = exLastAttempt e" and rs: "validateReason_c (exReason e') = None"
    and pe: "validPhase (exPhase e')"
    using run a st ph by (auto simp: recoverable_def workOutcome_def Let_def validateReason_c_def split: if_splits)
  have py: "validateExecutionPayloads e' = None"
    using run a st(1) idle p susp
    by (intro payloadsI) (auto simp: recoverable_def workOutcome_def Let_def idle_def split: if_splits)
  from work_attempt [OF run a fl] obtain b where "exCurrentAttempt e' = Some b" "worked_as a r (utc clock) b" by blast
  with worked_valid [OF va nd r, of "utc clock" b] t(1)
  have ca: "validateAttempt_c (exCurrentAttempt e') (acAttempts (exAccounting e')) = None"
    using acc by simp
  have la: "validateAttempt_c (exLastAttempt e') (acAttempts (exAccounting e')) = None"
    using v(4) lst acc by simp
  show ?thesis
    by (rule accept [OF inv step_identity [OF step] _ pe rs t(2) py ca la n])
      (use work_done_inv [OF inv st run] in blast)
qed

lemma start_work_accepted:
  assumes inv: "exec_inv e" and st: "exStatus e = StatusReady" "exPhase e = PhaseWork"
    and lim: "\<not> limit_reached (exLimits e) (exAccounting e) PhaseWork u"
    and k: "safeID i" and t: "\<not> isZero now" "\<not> isZero t" and n: "acAttempts (exAccounting e) + 1 < 2 ^ 63"
  shows "validateExecution (stampE m t (startWork e i now)) = None"
proof -
  note d = exec_invD [OF inv]
  note v = validateExecutionD [OF d(1)]
  note p = payloadsD [OF v(2)]
  have n1: "i64 (acAttempts (exAccounting e) + 1) = acAttempts (exAccounting e) + 1"
    using v(5) n by (intro i64_id) auto
  have idle: "idle e" and none: "exCurrentAttempt e = None"
    using state_inv_Ready [OF d(3) st(1)] st(2) by simp_all
  let ?e = "startWork e i now"
  have ca: "validateAttempt_c (exCurrentAttempt ?e) (acAttempts (exAccounting ?e)) = None"
    using n1 v(5) k t p(6) by (simp add: startWork_def Let_def validateAttempt_c_def validateAttemptIdentity_def
        validateAttemptID_def validPhase_def validateAttemptWork_def validateAttemptDecision_def validateStageFailure_def)
  have la: "validateAttempt_c (exLastAttempt ?e) (acAttempts (exAccounting ?e)) = None"
    using v(4) none n1 by (auto simp: startWork_def Let_def validateAttempt_c_def validateAttemptIdentity_def
        split: option.splits)
  have py: "validateExecutionPayloads ?e = None" using p idle none
    by (intro payloadsI) (auto simp: startWork_def Let_def idle_def validateActivation_def)
  have nn: "accounting_nonneg (exAccounting ?e)"
    using v n1 by (simp add: startWork_def Let_def accounting_nonneg_def)
  have rs: "validateReason_c (exReason ?e) = None" using v(1) none
    by (simp add: startWork_def Let_def validateExecutionIdentity_def)
  have stt: "state_inv ?e"
    using start_work_inv [OF inv st lim] nn by (simp add: accounting_nonneg_def)
  show ?thesis
    by (rule accept [OF inv step_identity [OF exec_step.start_work [OF st lim]] stt _ rs t(2) py ca la nn])
      (simp add: startWork_def Let_def validPhase_def)
qed

lemma start_decision_accepted:
  assumes inv: "exec_inv e" and st: "exStatus e = StatusReady" "exPhase e = PhaseDecision"
    and a: "exCurrentAttempt e = Some a" and t: "\<not> isZero t"
  shows "validateExecution (stampE m t (startDecision e a now)) = None"
proof -
  note d = exec_invD [OF inv]
  note v = validateExecutionD [OF d(1)]
  note p = payloadsD [OF v(2)]
  have idle: "idle e" using state_inv_Ready [OF d(3) st(1)] by simp
  let ?e = "startDecision e a now"
  have nd: "atDecision a = None" using d(2) a by (simp add: attempts_inv_def)
  have "validateAttempt_c (Some a) (acAttempts (exAccounting e)) = None" using v(3) a by simp
  from attemptD [OF this] have ca: "validateAttempt_c (exCurrentAttempt ?e) (acAttempts (exAccounting ?e)) = None"
    using nd
    by (simp add: startDecision_def validateAttempt_c_def validateAttemptIdentity_def validPhase_def
        validateAttemptWork_def validateAttemptDecision_def split: option.splits)
  have la: "validateAttempt_c (exLastAttempt ?e) (acAttempts (exAccounting ?e)) = None"
    using v(4) by (simp add: startDecision_def)
  have py: "validateExecutionPayloads ?e = None" using p idle
    by (intro payloadsI) (auto simp: startDecision_def idle_def)
  have nn: "accounting_nonneg (exAccounting ?e)" using v by (simp add: startDecision_def accounting_nonneg_def)
  have rs: "validateReason_c (exReason ?e) = None" using v(1)
    by (simp add: startDecision_def validateExecutionIdentity_def)
  show ?thesis
    by (rule accept [OF inv step_identity [OF exec_step.start_decision [OF st a]] _ _ rs t py ca la nn])
      (use start_decision_inv [OF inv st a] in \<open>simp_all add: startDecision_def validPhase_def\<close>)
qed

lemma limitReason_short: "validateReason_c (limitReason l a p t) = None"
proof -
  have *: "validateReason_c (if b then x else y) = None"
    if "validateReason_c x = None" "validateReason_c y = None" for b x y
    using that by simp
  show ?thesis unfolding limitReason_def by (intro *) (simp_all add: validateReason_c_def)
qed

lemma limited_accepted:
  assumes inv: "exec_inv e" and st: "exStatus e = StatusReady" and t: "\<not> isZero t"
    and r: "reason = limitReason (exLimits e) (exAccounting e) (exPhase e) u" "reason \<noteq> []"
  shows "validateExecution (stampE m t (limitedExecution e reason)) = None"
proof -
  note d = exec_invD [OF inv]
  note v = validateExecutionD [OF d(1)]
  note p = payloadsD [OF v(2)]
  have "validateReason_c reason = None" unfolding r(1) by (rule limitReason_short)
  moreover have "validateExecutionPayloads (limitedExecution e reason) = None" using p
    by (intro payloadsI) (auto simp: limitedExecution_def validateSuspension_def)
  moreover have "exec_step e CauseLimit (limitedExecution e reason)"
    by (rule exec_step.limited) (use st r in simp_all)
  ultimately show ?thesis using v valid_nonneg [OF d(1)] inv_phase [OF inv]
    by (intro accept [OF inv step_identity _ _ _ t]) (auto simp: limitedExecution_def state_inv_terminal)
qed


text \<open>The outcome of a Decision stage: a decided execution, or one whose attempt goes on.\<close>

lemma decision_attempt:
  assumes "decisionOutcome tx e d err clock = (e', c)" "exCurrentAttempt e = Some a" "recoverable (exStatus e)"
    "validateAttempt_c (Some a) n = None" "atDecision a = None"
    "exStatus e = StatusRunning \<longrightarrow> err \<noteq> None"
  shows "validateAttempt_c (exCurrentAttempt e') n = None \<and> exLastAttempt e' = exLastAttempt e"
proof -
  have 0: "validateAttempt_c (Some (a\<lparr>atDecisionEndedAt := t\<rparr>)) n = None" for t
    using attemptD [OF assms(4)] assms(5)
    by (simp add: validateAttempt_c_def validateAttemptIdentity_def validateAttemptWork_def
        validateAttemptDecision_def split: option.splits)
  have 1: "validateAttempt_c (Some (interruptedAttempt (a\<lparr>atDecisionEndedAt := t\<rparr>)
      (projectFailure tx ''controller'' err))) n = None" for t
    using attemptD [OF assms(4)] assms(5) projectFailure_valid [of "''controller''" tx err]
    by (simp add: validateAttempt_c_def validateAttemptIdentity_def validateAttemptWork_def interruptedAttempt_def
        validateAttemptDecision_def split: option.splits)
  show ?thesis using assms(1-3,6) 0 1 unfolding recoverable_def
    by (auto simp: decisionOutcome_def Let_def split: if_splits)
qed

lemma decided_attempt:
  assumes "validateAttempt_c (Some a) n = None" "validateDecision d = None" "atWork a \<noteq> None"
    "\<not> isZero (atDecisionStartedAt a)" "\<not> isZero t"
  shows "validateAttempt_c (Some (a\<lparr>atDecisionEndedAt := t, atDecision := Some d, atFailure := None,
    atInterrupted := False\<rparr>)) n = None"
  using attemptD [OF assms(1)] assms(2-5)
  by (auto simp: validateAttempt_c_def validateAttemptIdentity_def validateAttemptWork_def
      validateAttemptDecision_def validateStageFailure_def split: option.splits)

lemma decided_payloads:
  assumes v: "validateDecision d = None" and p: "validateExecutionPayloads e = None"
  shows "validateExecutionPayloads (decided e a d) = None" "validPhase (exPhase (decided e a d))"
    "validateReason_c (exReason (decided e a d)) = None"
proof -
  note q = payloadsD [OF p]
  have f: "validateDecisionFields d = None" "validateDecisionAction d = None"
    using v by (simp_all add: validateDecision_def)
  have j: "validateJSON_c (dcState d) 262144 = None" "validateJSON_c (dcNextInput d) 262144 = None"
    "validateJSON_c (dcOutput d) 262144 = None" "validateReason_c (dcReason d) = None"
    using f(1) by (simp_all add: validateDecisionFields_def)
  show "validPhase (exPhase (decided e a d))"
    by (cases "dcAction d") (simp_all add: decided_def applyDecision_def validPhase_def)
  show "validateReason_c (exReason (decided e a d)) = None" using j by (simp add: decided_def)
  show "validateExecutionPayloads (decided e a d) = None"
    by (rule payloadsI; cases "dcAction d"; use q(1-3,6) j f(2) in
        \<open>simp add: decided_def applyDecision_def validateDecisionAction_def validateSuspension_def\<close>)
qed

lemma accounting_payloads: "validateExecutionPayloads (e\<lparr>exAccounting := a\<rparr>) = validateExecutionPayloads e"
  by (simp add: validateExecutionPayloads_def)

theorem decision_accepted:
  assumes inv: "exec_inv e" and st: "recoverable (exStatus e)" "exPhase e = PhaseDecision"
    and a: "exCurrentAttempt e = Some a" "\<not> isZero (atDecisionStartedAt a)"
    and d: "err = None \<longrightarrow> validateDecision d = None" "i64_usage (dcUsage d)"
    and t: "\<not> isZero clock" "\<not> isZero t"
    and run: "decisionOutcome tx e d err clock = (e', c)" and n: "accounting_nonneg (exAccounting e')"
  shows "validateExecution (stampE m t e') = None"
proof -
  note i = exec_invD [OF inv]
  from active_inv [OF inv st(1)] a(1) st(2) have idle: "idle e" and nd: "atDecision a = None"
    and va: "validateAttempt_c (Some a) (acAttempts (exAccounting e)) = None" and w: "atWork a \<noteq> None"
    by (metis option.inject)+
  note v = validateExecutionD [OF i(1)]
  note p = payloadsD [OF v(2)]
  have step: "exec_step e c e'" by (rule exec_step.decision_done [OF st d(2,1) run])
  have acc: "acAttempts (exAccounting e') = acAttempts (exAccounting e)"
    using decision_accounting [OF run a(1)] by auto
  have sti: "state_inv e'" using decision_done_inv [OF inv st d(1) run] by blast
  show ?thesis
  proof (cases "exStatus e = StatusRunning \<and> err = None")
    case True
    let ?e1 = "e\<lparr>exAccounting := chargeStage (exAccounting e) (atDecisionStartedAt a) (utc clock)\<rparr>"
    have e': "e' = decided ?e1 (a\<lparr>atDecisionEndedAt := utc clock\<rparr>) d"
      using run a(1) True by (auto simp: decisionOutcome_def Let_def)
    have vd: "validateDecision d = None" using d(1) True by simp
    have p1: "validateExecutionPayloads ?e1 = None" using v(2) by (simp only: accounting_payloads)
    note dp = decided_payloads [OF vd p1, of "a\<lparr>atDecisionEndedAt := utc clock\<rparr>", folded e']
    have la: "validateAttempt_c (exLastAttempt e') (acAttempts (exAccounting e')) = None"
      using decided_attempt [OF va vd w a(2), of "utc clock"] t(1) by (simp add: e')
    have ca: "validateAttempt_c (exCurrentAttempt e') (acAttempts (exAccounting e')) = None"
      by (simp add: e' validateAttempt_c_def)
    show ?thesis by (rule accept [OF inv step_identity [OF step] sti dp(2,3) t(2) dp(1) ca la n])
  next
    case False
    have at: "validateAttempt_c (exCurrentAttempt e') (acAttempts (exAccounting e')) = None"
        "validateAttempt_c (exLastAttempt e') (acAttempts (exAccounting e')) = None"
      using decision_attempt [OF run a(1) st(1) va nd] False v(4) acc by auto
    have susp: "validateSuspension (Some (resumeAt PhaseDecision False)) = None" "validateSuspension None = None"
      by (simp_all add: validateSuspension_def validateSuspensionIdentity_def validateSuspensionState_def
          resumeAt_def validPhase_def)
    have o: "validPhase (exPhase e')" "validateReason_c (exReason e') = None"
      using run a(1) st False by (auto simp: recoverable_def decisionOutcome_def Let_def validateReason_c_def
          validPhase_def split: if_splits)
    have py: "validateExecutionPayloads e' = None"
      using run a(1) st(1) idle p susp False
      by (intro payloadsI) (auto simp: recoverable_def decisionOutcome_def Let_def idle_def split: if_splits)
    show ?thesis by (rule accept [OF inv step_identity [OF step] sti o t(2) py at n])
  qed
qed

theorem recovered_accepted:
  assumes inv: "exec_inv e" and st: "recoverable (exStatus e)" and t: "\<not> isZero t"
    and n: "accounting_nonneg (exAccounting (recovered e now))"
  shows "validateExecution (stampE m t (recovered e now)) = None"
proof -
  note i = exec_invD [OF inv]
  from active_inv [OF inv st] obtain a where a: "exCurrentAttempt e = Some a" and idle: "idle e"
    and nd: "atDecision a = None" and va: "validateAttempt_c (Some a) (acAttempts (exAccounting e)) = None"
    and w: "(exPhase e = PhaseDecision) = (atWork a \<noteq> None)" by metis
  note v = validateExecutionD [OF i(1)]
  note p = payloadsD [OF v(2)]
  have r: "validateReason_c (exReason e) = None" using v(1) by (simp add: validateExecutionIdentity_def)
  have acc: "acAttempts (exAccounting (recovered e now)) = acAttempts (exAccounting e)"
    using recovered_accounting [of e now] by auto
  have marked: "validateAttempt_c (Some (interruptedAttempt a \<lparr>sfCode = f, sfMessage = g\<rparr>)) (acAttempts (exAccounting e)) = None"
    if "f \<noteq> []" "len f \<le> 128" "len g \<le> 4096" for f g
    using attemptD [OF va] nd that by (simp add: validateAttempt_c_def validateAttemptIdentity_def
        validateAttemptWork_def interruptedAttempt_def validateAttemptDecision_def validateStageFailure_def split: option.splits)
  have susp: "validateSuspension None = None" by (simp add: validateSuspension_def)
  have ca: "validateAttempt_c (exCurrentAttempt (recovered e now)) (acAttempts (exAccounting e)) = None"
    using st a va marked unfolding recoverable_def
    by (auto simp: recovered_def chargeOrphanDuration_def markAttemptInterrupted_def Let_def)
  have o: "exLastAttempt (recovered e now) = exLastAttempt e" "exPhase (recovered e now) = exPhase e"
    "exReason (recovered e now) = exReason e"
    using st a unfolding recoverable_def
    by (auto simp: recovered_def chargeOrphanDuration_def markAttemptInterrupted_def Let_def)
  have s2: "validateSuspension (Some (recoverySuspension f)) = None"
    if "exPhase f = exPhase e" "exWait f = None" "exBlock f = None" "exReason f = exReason e"
      "exCurrentAttempt f = Some a" for f
    using that inv_phase [OF inv] r w by (auto simp: validateSuspension_def validateSuspensionIdentity_def
        validateSuspensionState_def recoverySuspension_def validPhase_def)
  have py: "validateExecutionPayloads (recovered e now) = None"
    using st a idle p susp s2 unfolding recoverable_def
    by (intro payloadsI) (auto simp: recovered_def chargeOrphanDuration_def markAttemptInterrupted_def Let_def
        idle_def validateActivation_def)
  show ?thesis
    by (rule accept [OF inv step_identity [OF exec_step.recovery [OF st]] _ _ _ t py _ _ n])
      (use recovered_inv [OF inv st] inv_phase [OF inv] r v(4) ca acc o in simp_all)
qed

end
