(* ===== verification/ContProgress.thy ===== *)
theory ContProgress
  imports ContGuarantee ContAccept
begin

section \<open>Continuation: what a call does when nothing stands in its way\<close>

text \<open>
  \<open>ContFinish\<close> and \<open>ContGuarantee\<close> hold whatever other goroutines do. Here nobody else is at work
  (\<open>cquiet\<close>) and the store has room: then the operations do what they are for. The store's room is
  the locale \<open>cont_store_room\<close>: \<open>roomy rcs s k\<close> says that the records \<open>rcs\<close> fit behind the log of \<open>k\<close>,
  one after the other. It is asked for the records an operation writes, and for no other.
\<close>

locale cont_store_room = cont_store S sinv log room
  for S :: "'st cont_ops" and sinv :: "'st \<Rightarrow> bool" and log :: "'st \<Rightarrow> string \<Rightarrow> cont_record list"
    and room :: "'st \<Rightarrow> string \<Rightarrow> cont_record \<Rightarrow> bool" +
  fixes roomy :: "cont_record list \<Rightarrow> 'st \<Rightarrow> string \<Rightarrow> bool"
  assumes roomy_room: "sinv s \<Longrightarrow> log s k \<noteq> [] \<Longrightarrow> roomy (rc # rcs) s k \<Longrightarrow> room s k rc"
    and roomy_cas: "sinv s \<Longrightarrow> roomy (rc # rcs) s k \<Longrightarrow> opCas S c k m rc s = (None, s') \<Longrightarrow> roomy rcs s' k"
    and roomy_length: "sinv s \<Longrightarrow> roomy rcs s k \<Longrightarrow> length (log s k) + length rcs < 2 ^ 64"

definition cquiet :: "'st call_env \<Rightarrow> bool" where
  "cquiet ce \<longleftrightarrow> (\<forall>p s. ceItf ce p s = s) \<and> (\<forall>p. ceCtx ce p = None) \<and> (\<forall>p. \<not> isZero (ceNow ce p))"

lemma cquiet_simps [simp]:
  assumes "cquiet ce"
  shows "ceItf ce p s = s" "ceCtx ce p = None" "\<not> isZero (ceNow ce p)"
  using assms unfolding cquiet_def by blast+

lemma of_nat_Suc_nonzero: "Suc n < 2 ^ 64 \<Longrightarrow> (of_nat n + 1 :: u64) \<noteq> 0"
proof
  assume n: "Suc n < 2 ^ 64" and "(of_nat n + 1 :: u64) = 0"
  then have "(of_nat (Suc n) :: u64) = 0" by (simp only: of_nat_Suc add.commute)
  then have "2 ^ 64 dvd Suc n" by (simp only: word_of_nat_eq_0_iff) simp
  with n show False using dvd_imp_le [of "2 ^ 64" "Suc n"] by linarith
qed

lemma budget: "maxControlReconciliations = Suc 15"
  by (simp add: maxControlReconciliations_def)

text \<open>The records of the two stages.\<close>

definition workStarted :: "'st call_env \<Rightarrow> cont_record \<Rightarrow> string \<Rightarrow> cont_record" where
  "workStarted ce cur i =
     nextRecord_c cur (startWork (rcExecution cur) i (utc (ceNow ce (''work start'', 0)))) CauseStageStart []
       (ceNow ce (''work start'', 1))"

definition workFinished :: "'st call_env \<Rightarrow> cont_record \<Rightarrow> work_result \<Rightarrow> cont_error option \<Rightarrow> cont_record" where
  "workFinished ce run r err =
     (case workOutcome (ceText ce) (rcExecution run) r err (ceNow ce (''work'', 31)) of
       (e, c) \<Rightarrow> nextRecord_c run e c (exReason e) (ceNow ce (''work'', 30)))"

definition decisionStarted :: "'st call_env \<Rightarrow> cont_record \<Rightarrow> attempt \<Rightarrow> cont_record" where
  "decisionStarted ce cur a =
     nextRecord_c cur (startDecision (rcExecution cur) a (utc (ceNow ce (''decision start'', 0)))) CauseStageStart []
       (ceNow ce (''decision start'', 1))"

definition decisionFinished :: "'st call_env \<Rightarrow> cont_record \<Rightarrow> decision \<Rightarrow> cont_error option \<Rightarrow> cont_record" where
  "decisionFinished ce run d err =
     (case decisionOutcome (ceText ce) (rcExecution run) d err (ceNow ce (''decision'', 31)) of
       (e, c) \<Rightarrow> nextRecord_c run e c (exReason e) (ceNow ce (''decision'', 30)))"

definition decision_calm :: "'st call_env \<Rightarrow> cont_record \<Rightarrow> bool" where
  "decision_calm ce fin \<longleftrightarrow> exStatus (rcExecution fin) = StatusReady \<longrightarrow>
     \<not> limit_reached (exLimits (rcExecution fin)) (exAccounting (rcExecution fin))
       (exPhase (rcExecution fin)) (utc (ceNow ce (''decision limit'', 0)))"

context cont_store_room
begin

text \<open>Everything a write leaves as it was, apart from the log of \<open>k\<close>, which grows by \<open>rcs\<close>; the records \<open>n\<close> still fit.\<close>

definition wrote :: "string \<Rightarrow> cont_record list \<Rightarrow> cont_record list \<Rightarrow> 'st eng \<Rightarrow> 'st eng \<Rightarrow> bool" where
  "wrote k n rcs s s' \<longleftrightarrow> sys s' \<and> lg s' = (lg s)(k := lg s k @ rcs) \<and> activeStage s' = activeStage s \<and>
     roomy n (enStore s') k"

lemma wrote_trans: "wrote k m xs a b \<Longrightarrow> wrote k n ys b c \<Longrightarrow> wrote k n (xs @ ys) a c"
  by (simp add: wrote_def)

lemma last_facts:
  assumes "sys s" "lg s k \<noteq> []"
  shows "last (lg s k) \<in> set (lg s k)" "exec_inv (lastE s k)" "exID (lastE s k) = k"
    "opLoad S None k (enStore s) = Inr (last (lg s k))"
proof -
  show m: "last (lg s k) \<in> set (lg s k)" using assms(2) by simp
  show "exec_inv (lastE s k)" "exID (lastE s k) = k" using sys_mem [OF assms(1) m] by simp_all
  show "opLoad S None k (enStore s) = Inr (last (lg s k))"
    using load [OF sys_inv [OF assms(1)], of None k] assms(2) by simp
qed

text \<open>A write of an acceptable next record succeeds.\<close>

lemma quiet_write:
  assumes sys: "sys s" and ne: "lg s k \<noteq> []" and cur: "cur = last (lg s k)" and rm: "roomy (nx # n) (enStore s) k"
    and st: "exec_step (rcExecution cur) c e" and t: "\<not> isZero clock" and r: "validateReason_c reason = None"
    and cz: "validCause_c c" and v: "validateExecution (stampE (rcRev cur + 1) (utc clock) e) = None"
    and nx: "nx = controlRecordOf cur e c reason sid clock"
  obtains s' where "casE S None k (rcRev cur) nx s = (None, s')" "wrote k n [nx] s s'"
proof -
  note inv = sys_inv [OF sys]
  note cl = sys_log [OF sys ne]
  note lf = last_facts [OF sys ne, folded cur]
  have rev: "rcRev cur + 1 \<noteq> 0"
    using clog_ok_length(2) [OF cl] roomy_length [OF inv rm] of_nat_Suc_nonzero [of "length (lg s k)"] cur by simp
  have val: "validateRecord_c nx = None"
    unfolding nx using state_inv_status [OF exec_invD(3) [OF lf(2)]] by (intro accept_record v t rev r cz) simp
  have nv: "validateNextRecord_c cur (rcRev cur) nx = None"
    using step_identity [OF st] by (simp add: nx validateNextRecord_c_def same_identity_def)
  have ok: "clog_ok k (lg s k @ [nx])" using clog_ok_append [OF cl] nv val cur by simp
  have "fst (opCas S None k (rcRev cur) nx (enStore s)) = None"
    by (rule cas_accepts [OF inv ne ok _ roomy_room [OF inv ne rm]]) (simp add: cur)
  then obtain st' where c: "opCas S None k (rcRev cur) nx (enStore s) = (None, st')" by (metis prod.collapse)
  then have ce: "casE S None k (rcRev cur) nx s = (None, s\<lparr>enStore := st'\<rparr>)" by (simp add: casE_def)
  have rs: "record_step cur nx" unfolding record_step_def nx using st by blast
  note cm = commit [OF sys lf(1) ext_refl [OF sys] ce rs]
  have "wrote k n [nx] s (s\<lparr>enStore := st'\<rparr>)"
    using cm ext_sys [OF cm(4)] roomy_cas [OF inv rm c] by (simp add: wrote_def activeStage_def fun_eq_iff)
  with ce that show thesis by blast
qed

lemma wroteD:
  assumes "wrote k n (xs @ [rc]) s s'"
  shows "sys s'" "lg s' k \<noteq> []" "last (lg s' k) = rc" "roomy n (enStore s') k" "activeStage s' j = activeStage s j"
  using assms by (auto simp: wrote_def)

text \<open>Reserving a free execution and releasing it brackets the writes of a stage.\<close>

lemma reserve_free:
  assumes "activeStage s k = None"
  obtains s1 where "reserve k p i s = Inr s1" "sys s1 = sys s" "lg s1 = lg s" "enStore s1 = enStore s"
    "\<And>n rcs s'. wrote k n rcs s1 s' \<Longrightarrow> wrote k n rcs s (release k s')"
proof -
  let ?s1 = "s\<lparr>enActive := AList.update k \<lparr>asPhase = p, asAttempt = i\<rparr> (enActive s)\<rparr>"
  have "wrote k n rcs s (release k s')" if "wrote k n rcs ?s1 s'" for n rcs s'
  proof -
    have "activeStage s' = (activeStage s)(k \<mapsto> \<lparr>asPhase = p, asAttempt = i\<rparr>)"
      using that by (auto simp: wrote_def activeStage_def update_conv' fun_eq_iff)
    then have "activeStage (release k s') = activeStage s"
      using assms by (auto simp: activeStage_def release_def delete_conv' fun_eq_iff)
    with that show ?thesis by (simp add: wrote_def release_def)
  qed
  with assms that [of ?s1] show thesis by (simp add: reserve_def)
qed

lemma quiet_finish:
  assumes q: "cquiet ce" and sys: "sys s" and ne: "lg s k \<noteq> []" and cur: "cur = last (lg s k)"
    and rm: "roomy (nx # m) (enStore s) k" and nt: "\<not> terminal (exStatus (rcExecution cur))"
    and out: "out (rcExecution cur) (ceNow ce (stage, 2 * n + 1)) = (e, c)" and st: "exec_step (rcExecution cur) c e"
    and v: "validateExecution (stampE (rcRev cur + 1) (utc (ceNow ce (stage, 2 * n))) e) = None" and cz: "validCause_c c"
    and nx: "nx = nextRecord_c cur e c (exReason e) (ceNow ce (stage, 2 * n))"
  obtains s' where "finishStage S ce stage k out (Suc n) x s = ((nx, None), s')" "wrote k m [nx] s s'"
proof -
  note lf = last_facts [OF sys ne, folded cur]
  have r: "validateReason_c (exReason e) = None"
    using validateExecutionD(1) [OF v] by (simp add: validateExecutionIdentity_def)
  have k: "exID e = k" using step_identity [OF st] lf(3) by (simp add: same_identity_def)
  obtain s' where c: "casE S None k (rcRev cur) nx s = (None, s')" and w: "wrote k m [nx] s s'"
    by (rule quiet_write [OF sys ne cur rm st _ r cz v])
      (use q in \<open>simp_all add: nx controlRecordOf_nextRecord\<close>)
  have "finishStage S ce stage k out (Suc n) x s = ((nx, None), s')"
    using q nt out c k lf(4) by (simp add: nx [symmetric])
  with w that show thesis by blast
qed

lemma quiet_limit:
  assumes "\<not> limit_reached (exLimits (rcExecution cur)) (exAccounting (rcExecution cur))
    (exPhase (rcExecution cur)) (utc (ceNow ce (at, 0)))"
  shows "applyLimit S ce at c cur s = ((cur, None), s)"
  using assms by (simp add: applyLimit_def Let_def limitReason_empty)

subsection \<open>The Decision stage\<close>

lemma quiet_decision:
  assumes q: "cquiet ce" and sys: "sys s" and ne: "lg s k \<noteq> []" and cur: "cur = last (lg s k)"
    and rm: "roomy (run # fin # m) (enStore s) k" and st: "exStatus (rcExecution cur) = StatusReady" "exPhase (rcExecution cur) = PhaseDecision"
    and free: "activeStage s k = None" and a: "exCurrentAttempt (rcExecution cur) = Some a" "atWork a = Some w"
    and h: "handlers_i64 h"
    and now: "now = utc (ceNow ce (''decision start'', 0))"
    and dec: "checkedDecision (runController h (decisionRequest (startDecision (rcExecution cur) a now) a w)) = (d, cerr)"
    and run: "run = decisionStarted ce cur a" and fin: "fin = decisionFinished ce run d cerr"
    and nn: "accounting_nonneg (exAccounting (rcExecution fin))" and calm: "cerr = None \<longrightarrow> decision_calm ce fin"
  obtains s' where "advanceDecision S ce h cur s = ((rcExecution fin, cerr), s')" "wrote k m [run, fin] s s'"
proof -
  note lf = last_facts [OF sys ne, folded cur]
  let ?e = "startDecision (rcExecution cur) a now"
  obtain s1 where s1: "reserve k PhaseDecision (atID a) s = Inr s1" "sys s1 = sys s" "lg s1 = lg s" "enStore s1 = enStore s"
    and rel: "\<And>n rcs s'. wrote k n rcs s1 s' \<Longrightarrow> wrote k n rcs s (release k s')"
    by (rule reserve_free [where p = PhaseDecision and i = "atID a", OF free]) blast
  have run': "run = nextRecord_c cur ?e CauseStageStart [] (ceNow ce (''decision start'', 1))"
    by (simp add: run decisionStarted_def now)
  have step1: "exec_step (rcExecution cur) CauseStageStart ?e" by (rule exec_step.start_decision [OF st a(1)])
  obtain s2 where c1: "casE S None k (rcRev cur) run s1 = (None, s2)" and w1: "wrote k (fin # m) [run] s1 s2"
    by (rule quiet_write [OF _ _ _ _ step1, of s1 k run "fin # m" "ceNow ce (''decision start'', 1)" "[]" "[]"])
      (use q sys ne cur rm s1 start_decision_accepted [OF lf(2) st a(1)] run' in
        \<open>simp_all add: controlRecordOf_nextRecord validCause_c_def\<close>)
  note d1 = wroteD [of k "fin # m" "[]", simplified, OF w1]
  have a0: "exCurrentAttempt (rcExecution run) = Some (a\<lparr>atPhase := PhaseDecision, atDecisionStartedAt := now\<rparr>)"
      "exStatus (rcExecution run) = StatusRunning" "exPhase (rcExecution run) = PhaseDecision"
      "exID (rcExecution run) = k"
    using lf(3) by (simp_all add: run' startDecision_def)
  have inv: "exec_inv (rcExecution run)" using last_facts(2) [OF d1(1,2)] d1(3) by simp
  obtain e c where out: "decisionOutcome (ceText ce) (rcExecution run) d cerr (ceNow ce (''decision'', 31)) = (e, c)"
    by fastforce
  have ok: "i64_usage (dcUsage d)" "cerr = None \<longrightarrow> validateDecision d = None"
    using checkedDecision_D [OF dec] controller_i64 [OF h] by auto
  have step2: "exec_step (rcExecution run) c e"
    by (rule exec_step.decision_done [OF _ a0(3) ok out]) (simp add: a0(2))
  have fin': "fin = nextRecord_c run e c (exReason e) (ceNow ce (''decision'', 30))"
    by (simp add: fin decisionFinished_def out)
  have v2: "validateExecution (stampE (rcRev run + 1) (utc (ceNow ce (''decision'', 2 * 15))) e) = None"
    by (rule decision_accepted [OF inv _ a0(3,1) _ ok(2,1) _ _ out])
      (use q nn in \<open>simp_all add: a0(2) now fin'\<close>)
  have cz: "validCause_c c" using out a0 by (auto simp: decisionOutcome_def Let_def validCause_c_def split: if_splits)
  obtain s3 where c2: "finishDecision S ce run d cerr s2 = ((fin, None), s3)" and w2: "wrote k m [fin] s2 s3"
    unfolding finishDecision_def budget a0(4)
    by (rule quiet_finish [where n = 15 and stage = "''decision''" and out = "\<lambda>e clock. decisionOutcome (ceText ce) e d cerr clock" and x = run and nx = fin, OF q d1(1,2) d1(3) [symmetric] d1(4) _ _ step2 v2 cz])
      (use a0 out fin' in simp_all)
  have "afterDecision S ce cerr ((fin, None), s3) = ((rcExecution fin, cerr), s3)"
    using calm by (auto simp: afterDecision_def decision_calm_def quiet_limit split: option.splits)
  then have "advanceDecision S ce h cur s = ((rcExecution fin, cerr), release k s3)"
    using q a s1(1) c1 c2 dec lf(3) by (simp add: advanceDecision_def Let_def now [symmetric] run' [unfolded One_nat_def, symmetric])
  moreover have "wrote k m [run, fin] s (release k s3)" using rel wrote_trans [OF w1 w2] by simp
  ultimately show thesis by (rule that)
qed

subsection \<open>The Work stage\<close>

lemma quiet_work:
  assumes q: "cquiet ce" and sys: "sys s" and ne: "lg s k \<noteq> []" and cur: "cur = last (lg s k)"
    and rm: "roomy (run # fin # m) (enStore s) k" and st: "exStatus (rcExecution cur) = StatusReady" "exPhase (rcExecution cur) = PhaseWork"
    and lim: "\<not> limit_reached (exLimits (rcExecution cur)) (exAccounting (rcExecution cur)) PhaseWork t"
    and n64: "acAttempts (exAccounting (rcExecution cur)) + 1 < 2 ^ 63"
    and free: "activeStage s k = None" and h: "handlers_i64 h"
    and now: "now = utc (ceNow ce (''work start'', 0))"
    and i: "ceIDs ce ''attempt'' now = Inr i" "validateAttemptID i = None"
    and e: "e = startWork (rcExecution cur) i now"
    and wk: "normalizeWorkOutcome (runWorker h (workRequest e (the (exCurrentAttempt e)))) = (r, werr)"
    and run: "run = workStarted ce cur i" and fin: "fin = workFinished ce run r werr"
    and nn: "accounting_nonneg (exAccounting (rcExecution fin))"
  obtains s' where "advanceWork S ce h cur s = afterWork S ce h werr ((fin, None), s')" "wrote k m [run, fin] s s'"
    "exStatus (rcExecution fin) = (if werr = None then StatusReady else StatusInterrupted)"
    "exPhase (rcExecution fin) = (if werr = None then PhaseDecision else PhaseWork)"
    "\<exists>a. exCurrentAttempt (rcExecution fin) = Some a \<and> atWork a = Some r \<and> atID a = i"
proof -
  note lf = last_facts [OF sys ne, folded cur]
  obtain s1 where s1: "reserve k PhaseWork i s = Inr s1" "sys s1 = sys s" "lg s1 = lg s" "enStore s1 = enStore s"
    and rel: "\<And>n rcs s'. wrote k n rcs s1 s' \<Longrightarrow> wrote k n rcs s (release k s')"
    by (rule reserve_free [where p = PhaseWork and i = i, OF free]) blast
  have run': "run = nextRecord_c cur e CauseStageStart [] (ceNow ce (''work start'', 1))"
    by (simp add: run workStarted_def now e)
  have step1: "exec_step (rcExecution cur) CauseStageStart e" unfolding e by (rule exec_step.start_work [OF st lim])
  have i': "safeID i" using i(2) by (simp add: validateAttemptID_def split: if_splits)
  have v1: "validateExecution (stampE (rcRev cur + 1) (utc (ceNow ce (''work start'', 1))) e) = None"
    unfolding e by (rule start_work_accepted [OF lf(2) st lim i' _ _ n64]) (use q in \<open>simp_all add: now\<close>)
  obtain s2 where c1: "casE S None k (rcRev cur) run s1 = (None, s2)" and w1: "wrote k (fin # m) [run] s1 s2"
    by (rule quiet_write [OF _ _ _ _ step1, of s1 k run "fin # m" "ceNow ce (''work start'', 1)" "[]" "[]"])
      (use q sys ne cur rm s1 v1 run' in \<open>simp_all add: controlRecordOf_nextRecord validCause_c_def\<close>)
  note d1 = wroteD [of k "fin # m" "[]", simplified, OF w1]
  obtain a where a0: "exCurrentAttempt (rcExecution run) = Some a" "atID a = i"
      "exStatus (rcExecution run) = StatusRunning" "exPhase (rcExecution run) = PhaseWork"
      "exID (rcExecution run) = k"
    using lf(3) by (simp add: run' e startWork_def Let_def split: option.splits)
  have inv: "exec_inv (rcExecution run)" using last_facts(2) [OF d1(1,2)] d1(3) by simp
  obtain e2 c where out: "workOutcome (ceText ce) (rcExecution run) r werr (ceNow ce (''work'', 31)) = (e2, c)"
    by fastforce
  have ok: "wrTurns r < 2 ^ 63" "i64_usage (wrUsage r)"
    using normalize_i64 [OF wk] worker_i64 [OF h] by auto
  have step2: "exec_step (rcExecution run) c e2"
    by (rule exec_step.work_done [OF _ a0(4) ok out]) (simp add: a0(3))
  have fin': "fin = nextRecord_c run e2 c (exReason e2) (ceNow ce (''work'', 30))"
    by (simp add: fin workFinished_def out)
  have v2: "validateExecution (stampE (rcRev run + 1) (utc (ceNow ce (''work'', 2 * 15))) e2) = None"
    by (rule work_accepted [OF inv _ a0(4) normalize_valid [OF wk] _ _ out _ ok])
      (use q nn in \<open>simp_all add: a0(3) fin'\<close>)
  have cz: "validCause_c c" using out a0 by (auto simp: workOutcome_def Let_def validCause_c_def split: if_splits)
  obtain s3 where c2: "finishWork S ce run r werr s2 = ((fin, None), s3)" and w2: "wrote k m [fin] s2 s3"
    unfolding finishWork_def budget a0(5)
    by (rule quiet_finish [where n = 15 and stage = "''work''" and out = "\<lambda>e clock. workOutcome (ceText ce) e r werr clock" and x = run and nx = fin, OF q d1(1,2) d1(3) [symmetric] d1(4) _ _ step2 v2 cz])
      (use a0 out fin' in simp_all)
  have "advanceWork S ce h cur s = afterWork S ce h werr ((fin, None), release k s3)"
    using q i s1(1) c1 c2 wk lf(3) by (simp add: advanceWork_def Let_def now [symmetric] run' [unfolded One_nat_def, symmetric] e [symmetric])
  moreover have "wrote k m [run, fin] s (release k s3)" using rel wrote_trans [OF w1 w2] by simp
  moreover have "exStatus (rcExecution fin) = (if werr = None then StatusReady else StatusInterrupted)"
    "exPhase (rcExecution fin) = (if werr = None then PhaseDecision else PhaseWork)"
    "\<exists>a. exCurrentAttempt (rcExecution fin) = Some a \<and> atWork a = Some r \<and> atID a = i"
    using out a0 by (auto simp: fin' workOutcome_def Let_def workedAttempt_def interruptedAttempt_def split: if_splits)
  ultimately show thesis by (rule that)
qed

subsection \<open>Advance\<close>

lemma quiet_prepare:
  assumes q: "cquiet ce" and sys: "sys s" and ne: "lg s k \<noteq> []" and cur: "cur = last (lg s k)"
    and st: "exStatus (rcExecution cur) = StatusReady" and free: "activeStage s k = None"
    and m: "matchHandlers (rcExecution cur) h = None" and h: "validateHandlers h = None"
  shows "validateAdvanceRequest (rcRev cur) h = None" "prepareAdvance S ce k (rcRev cur) h s = ((cur, None), s)"
proof -
  note lf = last_facts [OF sys ne, folded cur]
  have "rcRev cur \<noteq> 0" using sys_mem(3) [OF sys lf(1)] by (auto simp: validateRecord_c_def Let_def)
  with h show "validateAdvanceRequest (rcRev cur) h = None"
    by (simp add: validateAdvanceRequest_def validateExpectedRevision_def)
  show "prepareAdvance S ce k (rcRev cur) h s = ((cur, None), s)"
    using q st free m lf(4) by (simp add: prepareAdvance_def Let_def loadExpected_def recoverRecord_def advanceCheck_def
        terminalCheck_def)
qed

text \<open>With a limit reached, the handlers play no part.\<close>

theorem quiet_advance_limit:
  assumes q: "cquiet ce" and sys: "sys s" and ne: "lg s k \<noteq> []" and cur: "cur = last (lg s k)"
    and rm: "roomy (nx # m) (enStore s) k" and st: "exStatus (rcExecution cur) = StatusReady"
    and free: "activeStage s k = None"
    and mh: "matchHandlers (rcExecution cur) h = None" and h: "validateHandlers h = None"
    and r: "reason = limitReason (exLimits (rcExecution cur)) (exAccounting (rcExecution cur))
      (exPhase (rcExecution cur)) (utc (ceNow ce (''limit'', 0)))" "reason \<noteq> []"
    and nx: "nx = nextRecord_c cur (limitedExecution (rcExecution cur) reason) CauseLimit reason (ceNow ce (''limit'', 1))"
  obtains s' where "advance S ce k (rcRev cur) h s = ((rcExecution nx, None), s')" "wrote k m [nx] s s'"
proof -
  note lf = last_facts [OF sys ne, folded cur]
  note p = quiet_prepare [OF q sys ne cur st free mh h]
  have step: "exec_step (rcExecution cur) CauseLimit (limitedExecution (rcExecution cur) reason)"
    by (rule exec_step.limited [OF _ st r]) (simp add: st)
  have v: "validateExecution (stampE n (utc (ceNow ce (''limit'', 1))) (limitedExecution (rcExecution cur) reason)) = None" for n
    by (rule limited_accepted [OF lf(2) st _ r]) (use q in simp)
  have vr: "validateReason_c reason = None" unfolding r(1) by (rule limitReason_short)
  obtain s' where c: "casE S None k (rcRev cur) nx s = (None, s')" and w: "wrote k m [nx] s s'"
    by (rule quiet_write [OF sys ne cur rm step _ vr _ v]) (use q in \<open>simp_all add: nx controlRecordOf_nextRecord validCause_c_def\<close>)
  have "advance S ce k (rcRev cur) h s = ((rcExecution nx, None), s')"
    using p q c st lf(3) r by (simp add: advance_def applyLimit_def Let_def nx [unfolded One_nat_def, symmetric] del: nextRecord_execution)
      (simp add: nx limitedExecution_def)
  with w that show thesis by blast
qed

theorem quiet_advance_decision:
  assumes q: "cquiet ce" and sys: "sys s" and ne: "lg s k \<noteq> []" and cur: "cur = last (lg s k)"
    and rm: "roomy (run # fin # m) (enStore s) k" and st: "exStatus (rcExecution cur) = StatusReady" "exPhase (rcExecution cur) = PhaseDecision"
    and free: "activeStage s k = None"
    and mh: "matchHandlers (rcExecution cur) h = None" and hv: "validateHandlers h = None"
    and lim: "\<not> limit_reached (exLimits (rcExecution cur)) (exAccounting (rcExecution cur)) PhaseDecision
      (utc (ceNow ce (''limit'', 0)))"
    and a: "exCurrentAttempt (rcExecution cur) = Some a" "atWork a = Some w"
    and h: "handlers_i64 h" and now: "now = utc (ceNow ce (''decision start'', 0))"
    and dec: "checkedDecision (runController h (decisionRequest (startDecision (rcExecution cur) a now) a w)) = (d, cerr)"
    and run: "run = decisionStarted ce cur a" and fin: "fin = decisionFinished ce run d cerr"
    and nn: "accounting_nonneg (exAccounting (rcExecution fin))" and calm: "cerr = None \<longrightarrow> decision_calm ce fin"
  obtains s' where "advance S ce k (rcRev cur) h s = ((rcExecution fin, cerr), s')" "wrote k m [run, fin] s s'"
proof -
  note p = quiet_prepare [OF q sys ne cur st(1) free mh hv]
  obtain s' where d: "advanceDecision S ce h cur s = ((rcExecution fin, cerr), s')" and w: "wrote k m [run, fin] s s'"
    by (rule quiet_decision [OF q sys ne cur rm st free a h now dec run fin nn calm])
  have "advance S ce k (rcRev cur) h s = ((rcExecution fin, cerr), s')"
    using p d st lim by (simp add: advance_def quiet_limit)
  with w that show thesis by blast
qed

theorem quiet_advance_work:
  assumes q: "cquiet ce" and sys: "sys s" and ne: "lg s k \<noteq> []" and cur: "cur = last (lg s k)"
    and rm: "roomy (run # fin # m) (enStore s) k" and st: "exStatus (rcExecution cur) = StatusReady" "exPhase (rcExecution cur) = PhaseWork"
    and free: "activeStage s k = None"
    and mh: "matchHandlers (rcExecution cur) h = None" and hv: "validateHandlers h = None"
    and lim: "\<not> limit_reached (exLimits (rcExecution cur)) (exAccounting (rcExecution cur)) PhaseWork
      (utc (ceNow ce (''limit'', 0)))"
    and n64: "acAttempts (exAccounting (rcExecution cur)) + 1 < 2 ^ 63"
    and h: "handlers_i64 h" and now: "now = utc (ceNow ce (''work start'', 0))"
    and i: "ceIDs ce ''attempt'' now = Inr i" "validateAttemptID i = None"
    and e: "e = startWork (rcExecution cur) i now"
    and wk: "normalizeWorkOutcome (runWorker h (workRequest e (the (exCurrentAttempt e)))) = (r, werr)"
    and run: "run = workStarted ce cur i" and fin: "fin = workFinished ce run r werr"
    and nn: "accounting_nonneg (exAccounting (rcExecution fin))"
  obtains s' where "advance S ce k (rcRev cur) h s = afterWork S ce h werr ((fin, None), s')" "wrote k m [run, fin] s s'"
    "exStatus (rcExecution fin) = (if werr = None then StatusReady else StatusInterrupted)"
    "exPhase (rcExecution fin) = (if werr = None then PhaseDecision else PhaseWork)"
    "\<exists>a. exCurrentAttempt (rcExecution fin) = Some a \<and> atWork a = Some r \<and> atID a = i"
proof -
  note p = quiet_prepare [OF q sys ne cur st(1) free mh hv]
  obtain s' where w: "advanceWork S ce h cur s = afterWork S ce h werr ((fin, None), s')" "wrote k m [run, fin] s s'"
    and f: "exStatus (rcExecution fin) = (if werr = None then StatusReady else StatusInterrupted)"
    "exPhase (rcExecution fin) = (if werr = None then PhaseDecision else PhaseWork)"
    "\<exists>a. exCurrentAttempt (rcExecution fin) = Some a \<and> atWork a = Some r \<and> atID a = i"
    by (rule quiet_work [OF q sys ne cur rm st lim n64 free h now i e wk run fin nn])
  have "advance S ce k (rcRev cur) h s = afterWork S ce h werr ((fin, None), s')"
    using p w st lim by (simp add: advance_def quiet_limit)
  with w f that show thesis by blast
qed

text \<open>After a Work stage that succeeded: a limit ends the execution, otherwise the Decision follows.\<close>

lemma quiet_after_limit:
  assumes q: "cquiet ce" and sys: "sys s" and ne: "lg s k \<noteq> []" and cur: "cur = last (lg s k)"
    and rm: "roomy (nx # m) (enStore s) k" and st: "exStatus (rcExecution cur) = StatusReady" "exPhase (rcExecution cur) = PhaseDecision"
    and r: "reason = limitReason (exLimits (rcExecution cur)) (exAccounting (rcExecution cur))
      PhaseDecision (utc (ceNow ce (''work limit'', 0)))" "reason \<noteq> []"
    and nx: "nx = nextRecord_c cur (limitedExecution (rcExecution cur) reason) CauseLimit reason (ceNow ce (''work limit'', 1))"
  obtains s' where "afterWork S ce h None ((cur, None), s) = ((rcExecution nx, None), s')" "wrote k m [nx] s s'"
proof -
  note lf = last_facts [OF sys ne, folded cur]
  have r': "reason = limitReason (exLimits (rcExecution cur)) (exAccounting (rcExecution cur))
      (exPhase (rcExecution cur)) (utc (ceNow ce (''work limit'', 0)))" using r(1) st(2) by simp
  have step: "exec_step (rcExecution cur) CauseLimit (limitedExecution (rcExecution cur) reason)"
    by (rule exec_step.limited [OF _ st(1) r' r(2)]) (simp add: st)
  have v: "validateExecution (stampE n (utc (ceNow ce (''work limit'', 1))) (limitedExecution (rcExecution cur) reason)) = None" for n
    by (rule limited_accepted [OF lf(2) st(1) _ r' r(2)]) (use q in simp)
  have vr: "validateReason_c reason = None" unfolding r(1) by (rule limitReason_short)
  obtain s' where c: "casE S None k (rcRev cur) nx s = (None, s')" and w: "wrote k m [nx] s s'"
    by (rule quiet_write [OF sys ne cur rm step _ vr _ v]) (use q in \<open>simp_all add: nx controlRecordOf_nextRecord validCause_c_def\<close>)
  have "afterWork S ce h None ((cur, None), s) = ((rcExecution nx, None), s')"
    using q c st lf(3) r by (simp add: afterWork_def applyLimit_def Let_def nx [unfolded One_nat_def, symmetric] del: nextRecord_execution)
      (simp add: nx limitedExecution_def)
  with w that show thesis by blast
qed

text \<open>The whole round: both stages in one call, four records.\<close>

theorem quiet_round:
  assumes q: "cquiet ce" and sys: "sys s" and ne: "lg s k \<noteq> []" and cur: "cur = last (lg s k)"
    and rm: "roomy (run1 # fin1 # run2 # fin2 # m) (enStore s) k"
    and st: "exStatus (rcExecution cur) = StatusReady" "exPhase (rcExecution cur) = PhaseWork"
    and free: "activeStage s k = None"
    and mh: "matchHandlers (rcExecution cur) h = None" and hv: "validateHandlers h = None"
    and lim: "\<not> limit_reached (exLimits (rcExecution cur)) (exAccounting (rcExecution cur)) PhaseWork
      (utc (ceNow ce (''limit'', 0)))"
    and n64: "acAttempts (exAccounting (rcExecution cur)) + 1 < 2 ^ 63"
    and h: "handlers_i64 h" and now: "now = utc (ceNow ce (''work start'', 0))"
    and i: "ceIDs ce ''attempt'' now = Inr i" "validateAttemptID i = None"
    and e: "e = startWork (rcExecution cur) i now"
    and wk: "normalizeWorkOutcome (runWorker h (workRequest e (the (exCurrentAttempt e)))) = (r, None)"
    and run1: "run1 = workStarted ce cur i" and fin1: "fin1 = workFinished ce run1 r None"
    and nn1: "accounting_nonneg (exAccounting (rcExecution fin1))"
    and lim1: "\<not> limit_reached (exLimits (rcExecution fin1)) (exAccounting (rcExecution fin1)) PhaseDecision
      (utc (ceNow ce (''work limit'', 0)))"
    and a: "exCurrentAttempt (rcExecution fin1) = Some a"
    and dec: "checkedDecision (runController h (decisionRequest (startDecision (rcExecution fin1) a
      (utc (ceNow ce (''decision start'', 0)))) a r)) = (d, cerr)"
    and run2: "run2 = decisionStarted ce fin1 a" and fin2: "fin2 = decisionFinished ce run2 d cerr"
    and nn2: "accounting_nonneg (exAccounting (rcExecution fin2))" and calm: "cerr = None \<longrightarrow> decision_calm ce fin2"
  obtains s' where "advance S ce k (rcRev cur) h s = ((rcExecution fin2, cerr), s')"
    "wrote k m [run1, fin1, run2, fin2] s s'"
proof -
  obtain s1 where w1: "advance S ce k (rcRev cur) h s = afterWork S ce h None ((fin1, None), s1)"
      "wrote k (run2 # fin2 # m) [run1, fin1] s s1"
    and f: "exStatus (rcExecution fin1) = StatusReady" "exPhase (rcExecution fin1) = PhaseDecision"
      "\<exists>a. exCurrentAttempt (rcExecution fin1) = Some a \<and> atWork a = Some r \<and> atID a = i"
    by (rule quiet_advance_work [OF q sys ne cur rm st free mh hv lim n64 h now i e wk run1 fin1 nn1]) simp
  have aw: "atWork a = Some r" using f(3) a by simp
  note d1 = wroteD [of k "run2 # fin2 # m" "[run1]" fin1, simplified, OF w1(2)]
  obtain s2 where w2: "advanceDecision S ce h fin1 s1 = ((rcExecution fin2, cerr), s2)" "wrote k m [run2, fin2] s1 s2"
    by (rule quiet_decision [OF q d1(1,2) d1(3) [symmetric] d1(4) f(1,2) _ a aw h refl dec run2 fin2 nn2 calm])
      (use d1(5) free in simp)
  have "advance S ce k (rcRev cur) h s = ((rcExecution fin2, cerr), s2)"
    using w1(1) w2(1) f(1,2) lim1 by (simp add: afterWork_def quiet_limit)
  moreover have "wrote k m [run1, fin1, run2, fin2] s s2" using wrote_trans [OF w1(2) w2(2)] by simp
  ultimately show thesis by (rule that)
qed

subsection \<open>Control and recovery\<close>

definition settled :: "'st eng \<Rightarrow> string \<Rightarrow> bool" where
  "settled s k \<longleftrightarrow> recoverable (exStatus (lastE s k)) \<longrightarrow> activeStage s k \<noteq> None"

lemma quiet_controlRecord:
  assumes q: "cquiet ce" and sys: "sys s" and ne: "lg s k \<noteq> []" and cur: "cur = last (lg s k)" and st: "settled s k"
  shows "controlRecord S ce k (rcRev cur) s = ((cur, None), s)"
proof -
  note lf = last_facts [OF sys ne, folded cur]
  have "rcRev cur \<noteq> 0" using sys_mem(3) [OF sys lf(1)] by (auto simp: validateRecord_c_def Let_def)
  with q st lf cur show ?thesis
    by (auto simp: controlRecord_def validateExpectedRevision_def loadExpected_def recoverRecord_def settled_def Let_def)
qed

theorem quiet_control:
  assumes q: "cquiet ce" and sys: "sys s" and ne: "lg s k \<noteq> []" and cur: "cur = last (lg s k)" and st: "settled s k"
    and rm: "roomy (nx # m) (enStore s) k"
    and ch: "controlStep c (ceNow ce (''control'', 0)) (rcExecution cur) = Change e ca reason sid"
    and sg: "\<And>g. c = DeliverSignal g \<Longrightarrow> validateSignal g = None"
    and nx: "nx = controlRecordOf cur e ca reason sid (ceNow ce (''control'', 1))"
  obtains s' where "controlOp S ce k (rcRev cur) c s = ((rcExecution nx, None), s')" "wrote k m [nx] s s'"
proof -
  note lf = last_facts [OF sys ne, folded cur]
  note i = exec_invD [OF lf(2)]
  note cp = control_phase [OF lf(2) ch]
  have v: "validateExecution (stampE (rcRev cur + 1) (utc (ceNow ce (''control'', 1))) e) = None"
    using control_attempts [OF lf(2) ch] control_Change(2) [OF ch] valid_nonneg [OF i(1)] control_inv [OF lf(2) ch] q
    by (intro accept [OF lf(2) control_identity [OF ch] _ cp(1,2) _ control_payloads [OF lf(2) ch _ sg]]) simp_all
  obtain s' where c: "casE S None k (rcRev cur) nx s = (None, s')" and w: "wrote k m [nx] s s'"
    by (rule quiet_write [OF sys ne cur rm exec_step.control [OF ch] _ cp(3,4) v nx]) (use q in simp)
  have "controlOp S ce k (rcRev cur) c s = ((rcExecution nx, None), s')"
    using quiet_controlRecord [OF q sys ne cur st] ch c q
    by (simp add: controlOp_def Let_def nx [unfolded One_nat_def, symmetric] del: nextRecord_execution)
  with w that show thesis by blast
qed

lemma recovery_reason: "validateReason_c ''reconciled orphaned active stage'' = None"
  by code_simp

theorem quiet_recovery:
  assumes q: "cquiet ce" and sys: "sys s" and ne: "lg s k \<noteq> []" and cur: "cur = last (lg s k)"
    and rec: "recoverable (exStatus (rcExecution cur))" and free: "activeStage s k = None"
    and rm: "roomy (nx # m) (enStore s) k"
    and e: "e = recovered (rcExecution cur) (utc (ceNow ce (''recover'', 0)))" and nn: "accounting_nonneg (exAccounting e)"
    and nx: "nx = nextRecord_c cur e CauseRecovery ''reconciled orphaned active stage'' (ceNow ce (''recover'', 1))"
  obtains s' where "engineGet_c S ce k s = (Inr (rcExecution nx), s')" "wrote k m [nx] s s'"
    "\<not> recoverable (exStatus (rcExecution nx))"
proof -
  note lf = last_facts [OF sys ne, folded cur]
  have v: "validateExecution (stampE n (utc (ceNow ce (''recover'', 1))) e) = None" for n
    unfolding e by (rule recovered_accepted [OF lf(2) rec]) (use q nn e in simp_all)
  obtain s' where c: "casE S None k (rcRev cur) nx s = (None, s')" and w: "wrote k m [nx] s s'"
    by (rule quiet_write [OF sys ne cur rm exec_step.recovery [OF rec] _ recovery_reason _ v [unfolded e]])
      (use q in \<open>simp_all add: nx e controlRecordOf_nextRecord validCause_c_def\<close>)
  have "engineGet_c S ce k s = (Inr (rcExecution nx), s')"
    using q c rec free lf(3,4)
    by (simp add: engineGet_c_def recoverRecord_def Let_def e [unfolded One_nat_def, symmetric] nx [unfolded One_nat_def, symmetric] del: nextRecord_execution)
  moreover have "\<not> recoverable (exStatus (rcExecution nx))"
    using rec unfolding recoverable_def
    by (auto simp: nx e recovered_def Let_def markAttemptInterrupted_def chargeOrphanDuration_def split: option.splits)
  ultimately show thesis using w that by blast
qed

end

subsection \<open>Room in the in-memory store\<close>

text \<open>The records \<open>rcs\<close> fit behind a log of \<open>n\<close> records and \<open>b\<close> bytes.\<close>

fun fits :: "encoding \<Rightarrow> cont_store_limits \<Rightarrow> int \<Rightarrow> int \<Rightarrow> cont_record list \<Rightarrow> bool" where
  "fits enc l n b [] \<longleftrightarrow> True"
| "fits enc l n b (rc # rcs) \<longleftrightarrow> (case enc rc of Inl e \<Rightarrow> False
     | Inr m \<Rightarrow> m \<le> clMaxRecordBytes l \<and> n < clMaxTransitions l \<and> b + (m + 1) \<le> clMaxFileBytes l \<and>
         fits enc l (n + 1) (b + (m + 1)) rcs)"

definition cmem_roomy :: "encoding \<Rightarrow> cont_record list \<Rightarrow> cont_mem \<Rightarrow> string \<Rightarrow> bool" where
  "cmem_roomy enc rcs s k \<longleftrightarrow> fits enc (cmLimits s) (len (memLog_c s k)) (bytesOf_c s k) rcs \<and>
     length (memLog_c s k) + length rcs < 2 ^ 64"

lemma cmem_roomy_cas:
  assumes inv: "cmem_inv enc s" and rm: "cmem_roomy enc (rc # rcs) s k" and run: "memCas_c enc c k m rc s = (None, s')"
  shows "cmem_roomy enc rcs s' k"
proof -
  have c: "c = None" and ne: "memLog_c s k \<noteq> []"
    using run memLog_c_cases(1) [OF inv, of k] by (auto simp: memCas_c_def split: option.splits sum.splits)
  from run [unfolded c memCas_c_eq [OF inv ne]] obtain j
    where enc: "enc rc = Inr j"
      and s': "s' = s\<lparr>cmRecords := AList.update k (memLog_c s k @ [rc]) (cmRecords s),
                  cmBytes := AList.update k (bytesOf_c s k + (j + 1)) (cmBytes s)\<rparr>"
    by (auto simp: encodedRecord_c_Inr split: sum.splits option.splits if_splits)
  have "memLog_c s' k = memLog_c s k @ [rc]" by (simp add: s' memLog_c_update)
  moreover have "bytesOf_c s' k = bytesOf_c s k + (j + 1)" by (simp add: s' bytesOf_c_def update_conv')
  moreover have "cmLimits s' = cmLimits s" by (simp add: s')
  ultimately show ?thesis using rm enc by (simp add: cmem_roomy_def len_def add.commute)
qed

interpretation cmemr: cont_store_room "cont_memory_ops enc" "cmem_inv enc" memLog_c "cmem_room enc" "cmem_roomy enc"
proof
  fix s :: cont_mem assume inv: "cmem_inv enc s"
  show "memLog_c s k \<noteq> [] \<Longrightarrow> cmem_roomy enc (rc # rcs) s k \<Longrightarrow> cmem_room enc s k rc" for k rc rcs
    by (auto simp: cmem_roomy_def cmem_room_def split: sum.splits)
  show "cmem_roomy enc (rc # rcs) s k \<Longrightarrow> opCas (cont_memory_ops enc) c k m rc s = (None, s') \<Longrightarrow> cmem_roomy enc rcs s' k"
    for k c m rc rcs s'
    using cmem_roomy_cas [OF inv] by (simp add: cont_memory_ops_def)
  show "cmem_roomy enc rcs s k \<Longrightarrow> length (memLog_c s k) + length rcs < 2 ^ 64" for rcs k
    by (simp add: cmem_roomy_def)
qed

end
