(* ===== verification/ContLaws.thy ===== *)
theory ContLaws
  imports ContProgress
begin

section \<open>Continuation: laws of single operations\<close>

subsection \<open>Pause and Resume\<close>

lemma pause_resume:
  assumes inv: "exec_inv e" and p: "pause r e = Change e1 c reason sid" and run: "exStatus e \<noteq> StatusRunning"
    and r2: "validateReason_c r2 = None"
  shows "resume r2 (stampE n t e1) =
    (if exStatus e = StatusInterrupted \<and> exPhase e = PhaseWork
     then Refuse (stateError ''resume'' e1 ErrRetryRequired)
     else Change (stampE n t (e\<lparr>exReason := r2\<rparr>)) CauseResume r2 [])"
proof -
  have st: "\<not> terminal (exStatus e)" "exStatus e \<noteq> StatusPaused" "exStatus e \<noteq> StatusPauseRequested"
      "exStatus e \<noteq> StatusCancelRequested"
    and e1: "e1 = e\<lparr>exSuspension := Some (pauseSuspension e), exStatus := StatusPaused,
             exWait := None, exBlock := None, exReason := r\<rparr>"
    using p run by (auto simp: pause_def terminalCheck_def split: if_splits)
  have sus: "exSuspension e = None"
    using exec_invD(3) [OF inv] st run
    by (auto simp: state_inv_def idle_def terminal_def split: status.splits)
  then have "stampE n t e\<lparr>exSuspension := None, exReason := r2\<rparr> = stampE n t (e\<lparr>exReason := r2\<rparr>)"
    by (cases e) simp
  then show ?thesis using r2
    by (auto simp: resume_def e1 pauseSuspension_def terminalCheck_def stateError_def)
qed

subsection \<open>Signals\<close>

text \<open>A wait for a key longer than 128 bytes is valid, but no valid signal has such a key.\<close>

lemma long_key:
  assumes "exWait e = Some w" "wcSignal w = Some key" "128 < len key" "validateSignal sg = None"
    "exStatus e = StatusWaiting"
  shows "deliverSignal sg clock e = Refuse ErrSignalMismatch"
proof -
  have "key \<noteq> sgKey sg" using assms(3,4) by (auto simp: validateSignal_def)
  with assms show ?thesis by (simp add: deliverSignal_def validateSignalTarget_def terminalCheck_def)
qed

context cont_store
begin

lemma signal_again:
  assumes q: "\<And>p t. ceItf ce p t = t" "\<And>p. ceCtx ce p = None" and sys: "sys s" and d: "delivered (sgID sg) (lg s k)"
    and v: "validateSignal sg = None"
  shows "engineSignal S ce k expected sg s = ((lastE s k, None), s)"
proof -
  have ne: "lg s k \<noteq> []" using d by (auto simp: delivered_def)
  have "opLoad S None k (enStore s) = Inr (last (lg s k))" using load [OF sys_inv [OF sys], of None k] ne by simp
  moreover have "opHistory S None k (enStore s) = Inr (lg s k)" using history_eq [OF sys, of None k] ne by simp
  ultimately have "duplicateSignal S ce k (sgID sg) s = (Inr (Some (lastE s k)), s)"
    using q d by (simp add: duplicateSignal_def Let_def)
  with v show ?thesis by (simp add: engineSignal_def)
qed

text \<open>A control operation that returns an error wrote nothing, when there was nothing to recover.\<close>

lemma control_error:
  assumes q: "\<And>p t. ceItf ce p t = t" and sys: "sys s"
    and st: "lg s k \<noteq> [] \<Longrightarrow> recoverable (exStatus (lastE s k)) \<Longrightarrow> activeStage s k \<noteq> None"
    and run: "controlOp S ce k expected c s = ((e, Some err), s')"
  shows "s' = s"
proof -
  obtain rc err1 s1 where cr: "controlRecord S ce k expected s = ((rc, err1), s1)" by (metis prod.exhaust)
  have s1: "s1 = s"
  proof (cases "loadExpected S (ceCtx ce (''load'', 0)) k expected s")
    case (Inl x)
    with cr q show ?thesis by (auto simp: controlRecord_def split: option.splits)
  next
    case (Inr cur)
    then have "opLoad S (ceCtx ce (''load'', 0)) k (enStore s) = Inr cur" by (auto simp: loadExpected_def bindE_Inr)
    note l = load_mem [OF sys this]
    have "recoverRecord S ce cur s = (Inr cur, s)"
      using q l st sys_mem(2) [OF sys l(4)] by (auto simp: recoverRecord_def Let_def)
    with cr q Inr show ?thesis by (auto simp: controlRecord_def split: option.splits if_splits)
  qed
  have "s2 = s" if "casE S cx k expected nx s = (Some x, s2)" for cx nx x s2
    by (rule cas_Some(1) [OF sys that])
  with run cr s1 q show ?thesis
    by (auto simp: controlOp_def Let_def split: option.splits control_outcome.splits prod.splits)
qed

end

context cont_store_room
begin

text \<open>Work that uses up a limit ends the execution; the controller is not asked.\<close>

lemma quiet_work_limited:
  assumes q: "cquiet ce" and sys: "sys s" and ne: "lg s k \<noteq> []" and cur: "cur = last (lg s k)"
    and rm: "roomy (run # fin # nx # m) (enStore s) k"
    and st: "exStatus (rcExecution cur) = StatusReady" "exPhase (rcExecution cur) = PhaseWork"
    and free: "activeStage s k = None"
    and mh: "matchHandlers (rcExecution cur) h = None" and hv: "validateHandlers h = None"
    and lim: "\<not> limit_reached (exLimits (rcExecution cur)) (exAccounting (rcExecution cur)) PhaseWork
      (utc (ceNow ce (''limit'', 0)))"
    and n64: "acAttempts (exAccounting (rcExecution cur)) + 1 < 2 ^ 63"
    and h: "handlers_i64 h" and now: "now = utc (ceNow ce (''work start'', 0))"
    and i: "ceIDs ce ''attempt'' now = Inr i" "validateAttemptID i = None"
    and e: "e = startWork (rcExecution cur) i now"
    and wk: "normalizeWorkOutcome (runWorker h (workRequest e (the (exCurrentAttempt e)))) = (r, None)"
    and run: "run = workStarted ce cur i" and fin: "fin = workFinished ce run r None"
    and nn: "accounting_nonneg (exAccounting (rcExecution fin))"
    and rs: "reason = limitReason (exLimits (rcExecution fin)) (exAccounting (rcExecution fin))
      PhaseDecision (utc (ceNow ce (''work limit'', 0)))" "reason \<noteq> []"
    and nx: "nx = nextRecord_c fin (limitedExecution (rcExecution fin) reason) CauseLimit reason (ceNow ce (''work limit'', 1))"
  obtains s' where "advance S ce k (rcRev cur) h s = ((rcExecution nx, None), s')" "wrote k m [run, fin, nx] s s'"
proof -
  obtain s1 where w1: "advance S ce k (rcRev cur) h s = afterWork S ce h None ((fin, None), s1)"
      "wrote k (nx # m) [run, fin] s s1"
    and f: "exStatus (rcExecution fin) = StatusReady" "exPhase (rcExecution fin) = PhaseDecision"
    by (rule quiet_advance_work [OF q sys ne cur rm st free mh hv lim n64 h now i e wk run fin nn]) simp
  note d1 = wroteD [of k "nx # m" "[run]" fin, simplified, OF w1(2)]
  obtain s2 where w2: "afterWork S ce h None ((fin, None), s1) = ((rcExecution nx, None), s2)" "wrote k m [nx] s1 s2"
    by (rule quiet_after_limit [OF q d1(1,2) d1(3) [symmetric] d1(4) f rs nx])
  have "wrote k m [run, fin, nx] s s2" using wrote_trans [OF w1(2) w2(2)] by simp
  with w1(1) w2(1) that show thesis by simp
qed

end

subsection \<open>Drive\<close>

lemma statusYield_None: "statusYield e = None \<longleftrightarrow> exStatus e = StatusReady"
  by (simp add: statusYield_def split: status.splits)

lemma statusYield_Some:
  "statusYield e = Some YieldTerminal \<longleftrightarrow> terminal (exStatus e)" "statusYield e \<noteq> Some YieldQuantum"
  by (simp_all add: statusYield_def terminal_def split: status.splits)

definition yields_right :: "drive_result \<Rightarrow> cont_error option \<Rightarrow> bool" where
  "yields_right r err \<longleftrightarrow>
     (drYield r = Some YieldTerminal \<longrightarrow> terminal (exStatus (drExecution r))) \<and>
     (err = None \<longrightarrow> drYield r = statusYield (drExecution r) \<or>
        exStatus (drExecution r) = StatusReady \<and>
          drYield r \<in> {Some YieldGate, Some YieldNoProgress, Some YieldQuantum})"

lemma driveStep_result:
  assumes "driveStep S ce k h g r s = ((r1, stop, err), s')"
  shows "drAdvances r1 = drAdvances r \<or> drAdvances r1 = drAdvances r + 1"
    "stop \<or> err \<noteq> None \<Longrightarrow> drYield r1 \<noteq> None \<and> drYield r1 \<noteq> Some YieldQuantum \<and> yields_right r1 err"
    "\<not> (stop \<or> err \<noteq> None) \<Longrightarrow> drAdvances r1 = drAdvances r + 1 \<and> exStatus (drExecution r1) = StatusReady"
  using assms
  by (auto simp: driveStep_def yields_right_def Let_def statusYield_None statusYield_Some advanceErrorYield_def
      split: option.splits sum.splits prod.splits bool.splits if_splits)

lemma driveLoop_result:
  assumes "driveLoop S ces k h g n r s = ((r', err), s')" "n = 0 \<longrightarrow> exStatus (drExecution r) = StatusReady"
  shows "drAdvances r \<le> drAdvances r' \<and> drAdvances r' \<le> drAdvances r + int n \<and> drYield r' \<noteq> None \<and>
    yields_right r' err \<and> (drYield r' = Some YieldQuantum \<longrightarrow> drAdvances r' = drAdvances r + int n \<and> err = None)"
  using assms
proof (induction n arbitrary: r s)
  case 0
  then show ?case by (auto simp: yields_right_def)
next
  case (Suc n)
  obtain r1 stop err1 s1 where st: "driveStep S (ces n) k h g r s = ((r1, stop, err1), s1)" by (metis prod.exhaust)
  note d = driveStep_result [OF st]
  show ?case
  proof (cases "stop \<or> err1 \<noteq> None")
    case True
    with Suc.prems st have "r' = r1" "err = err1" by auto
    with d(1,2) True show ?thesis by auto
  next
    case False
    with Suc.prems st have l: "driveLoop S ces k h g n r1 s1 = ((r', err), s')" by auto
    from Suc.IH [OF l] d(3) [OF False] show ?thesis by auto
  qed
qed

end
