(* ===== verification/ContScenario.thy ===== *)
theory ContScenario
  imports ContLaws
begin

section \<open>Continuation: a concrete run\<close>

text \<open>
  One execution on the in-memory store, alone, with a clock one can compute with: created at second
  10 and advanced at second 20 by a worker that uses two turns and a controller that continues. The
  witnesses of the properties evaluate the model on it.
\<close>

definition calm :: "int \<Rightarrow> string \<Rightarrow> 'st call_env" where
  "calm n i = \<lparr>ceCtx = (\<lambda>_. None), ceNow = (\<lambda>_. GTime n 0), ceIDs = (\<lambda>_ _. Inr i), ceText = (\<lambda>_. ''failed''),
     ceItf = (\<lambda>_ s. s)\<rparr>"

definition jobEnc :: encoding where
  "jobEnc = (\<lambda>_. Inr 100)"

abbreviation "jobOps \<equiv> cont_memory_ops jobEnc"

definition ref :: "string \<Rightarrow> handler_ref" where
  "ref x = \<lparr>hrKind = x, hrVersion = ''v1''\<rparr>"

definition jobLimits :: limits where
  "jobLimits = zero_limits\<lparr>liMaxAttempts := 3, liMaxTurns := 4\<rparr>"

definition jobRequest :: create_request where
  "jobRequest = \<lparr>crID = ''job'', crTarget = \<lparr>tgKind = ''report'', tgID = ''42''\<rparr>, crWorker = ref ''w'',
     crController = ref ''c'', crControllerState = None, crInput = Some ''1'', crLimits = jobLimits\<rparr>"

definition jobResult :: work_result where
  "jobResult = \<lparr>wrValue = Some ''2'', wrTurns = 2, wrUsage = zero_usage\<lparr>InputTokens := 5\<rparr>, wrProgress = ProgressChanged\<rparr>"

definition jobDecision :: "action \<Rightarrow> decision" where
  "jobDecision a = zero_decision\<lparr>dcAction := a, dcProgress := ProgressChanged,
     dcWait := (if a = ActionWait then Some \<lparr>wcNotBefore = None, wcSignal = Some ''go''\<rparr> else None),
     dcOutput := (if a = ActionComplete then Some ''3'' else None)\<rparr>"

definition jobHandlers :: "action \<Rightarrow> handlers" where
  "jobHandlers a = \<lparr>haWorkerRef = ref ''w'', haWorker = Some (\<lambda>q. (jobResult, None)),
     haControllerRef = ref ''c'', haController = Some (\<lambda>q. (jobDecision a, None))\<rparr>"

definition job0 :: "cont_mem eng" where
  "job0 = \<lparr>enStore = \<lparr>cmLimits = default_store_limits_c, cmRecords = [], cmBytes = []\<rparr>, enActive = []\<rparr>"

definition job1 :: "cont_mem eng" where
  "job1 = snd (engineCreate_c jobOps (calm 10 ''x'') jobRequest job0)"

definition job2 :: "action \<Rightarrow> cont_mem eng" where
  "job2 a = snd (advance jobOps (calm 20 ''a1'') ''job'' 1 (jobHandlers a) job1)"

definition jobExec :: "cont_mem eng \<Rightarrow> execution" where
  "jobExec s = rcExecution (last (memLog_c (enStore s) ''job''))"

lemma job1_status: "exStatus (jobExec job1) = StatusReady" "exRevision (jobExec job1) = 1"
  by code_simp+

lemma job2_status: "exStatus (jobExec (job2 ActionContinue)) = StatusReady" "exRevision (jobExec (job2 ActionContinue)) = 5"
  "exStatus (jobExec (job2 ActionWait)) = StatusWaiting" "exStatus (jobExec (job2 ActionComplete)) = StatusCompleted"
  by code_simp+

subsection \<open>The system along the run\<close>

abbreviation "jobSys \<equiv> csys (cmem_inv jobEnc) memLog_c"
abbreviation "jobRely \<equiv> crely (cmem_inv jobEnc) memLog_c"

lemma calm_quiet [simp]: "0 < n \<Longrightarrow> cquiet (calm n i)"
  by (simp add: cquiet_def calm_def isZero_def)

lemma calm_parts [simp]: "ceItf (calm n i) p s = s" "ceCtx (calm n i) p = None" "ceNow (calm n i) p = GTime n 0"
  "ceIDs (calm n i) x t = Inr i"
  by (simp_all add: calm_def)

lemma calm_rely: "jobRely k (calm n i)"
  by (simp add: crely_def cmem.ext_refl cmem.held_refl)

lemma calm_reserved: "creserved (cmem_inv jobEnc) memLog_c k (calm n i)"
  by (simp add: creserved_def cmem.held_refl)

lemma jobHandlers_i64: "handlers_i64 (jobHandlers a)"
  by (simp add: handlers_i64_def jobHandlers_def jobResult_def jobDecision_def zero_decision_def
      zero_usage_def i64_usage_def)

lemma job0_sys: "jobSys job0"
  by (simp add: csys_def job0_def cmem_inv_def enc_ok_def jobEnc_def memLog_c_def)

lemma job1_sys: "jobSys job1"
proof -
  obtain q where "engineCreate_c jobOps (calm 10 ''x'') jobRequest job0 = (q, job1)"
    unfolding job1_def by (metis prod.collapse)
  from cmem.ext_sys [OF cmem.create_result(1) [OF job0_sys calm_rely this]] show ?thesis .
qed

lemma job2_sys: "jobSys (job2 a)"
proof -
  obtain e err where "advance jobOps (calm 20 ''a1'') ''job'' 1 (jobHandlers a) job1 = ((e, err), job2 a)"
    unfolding job2_def by (metis prod.exhaust snd_conv)
  from cmem.advance_spec [OF job1_sys calm_rely jobHandlers_i64 this] show ?thesis
    by (auto simp: cmem.result_ok_def dest: cmem.ext_sys)
qed

lemma job1_log: "length (memLog_c (enStore job1) ''job'') = 1" "memLog_c (enStore job1) ''job'' \<noteq> []"
  "activeStage job1 ''job'' = None" "bytesOf_c (enStore job1) ''job'' = 101"
  "cmLimits (enStore job1) = default_store_limits_c"
  by code_simp+

lemma job2_log: "length (memLog_c (enStore (job2 ActionContinue)) ''job'') = 5"
  "memLog_c (enStore (job2 ActionContinue)) ''job'' \<noteq> []"
  "memLog_c (enStore (job2 ActionComplete)) ''job'' \<noteq> []" "memLog_c (enStore (job2 ActionWait)) ''job'' \<noteq> []"
  "activeStage (job2 ActionWait) ''job'' = None" "length (memLog_c (enStore (job2 ActionWait)) ''job'') = 5"
  "length (memLog_c (enStore (job2 ActionComplete)) ''job'') = 5"
  by code_simp+

lemma job_roomy:
  assumes "cmLimits (enStore s) = default_store_limits_c" "length (memLog_c (enStore s) ''job'') \<le> 10"
    "bytesOf_c (enStore s) ''job'' \<le> 2000" "length rcs \<le> 10"
  shows "cmem_roomy jobEnc rcs (enStore s) ''job''"
proof -
  have "fits jobEnc default_store_limits_c n b rcs" if "n + len rcs \<le> 100" "b + 101 * len rcs \<le> 100000" for n b
    using that
    by (induction rcs arbitrary: n b) (simp_all add: jobEnc_def default_store_limits_c_def len_def)
  with assms show ?thesis by (simp add: cmem_roomy_def len_def)
qed

text \<open>The same execution while its Work stage is reserved, and while it runs.\<close>

definition jobBusy :: "cont_mem eng" where
  "jobBusy = job1\<lparr>enActive := [(''job'', \<lparr>asPhase = PhaseWork, asAttempt = ''a1''\<rparr>)]\<rparr>"

definition jobStart :: cont_record where
  "jobStart = nextRecord_c (last (memLog_c (enStore job1) ''job'')) (startWork (jobExec job1) ''a1'' (GTime 20 0))
     CauseStageStart [] (GTime 20 0)"

definition jobRun :: "cont_mem eng" where
  "jobRun = snd (casE jobOps None ''job'' 1 jobStart jobBusy)"

definition jobAttempt :: attempt where
  "jobAttempt = the (exCurrentAttempt (jobExec jobRun))"

lemma jobBusy_sys: "jobSys jobBusy" "activeStage jobBusy ''job'' \<noteq> None"
  using job1_sys by (simp_all add: jobBusy_def activeStage_def)

lemma job1_inv: "exec_inv (jobExec job1)"
  unfolding jobExec_def using cmemr.last_facts [OF job1_sys job1_log(2)] by simp

lemma job1_ready: "exPhase (jobExec job1) = PhaseWork"
    "\<not> limit_reached (exLimits (jobExec job1)) (exAccounting (jobExec job1)) PhaseWork (GTime 20 0)"
    "validateExecution ((startWork (jobExec job1) ''a1'' (GTime 20 0))\<lparr>exRevision := 2, exUpdatedAt := GTime 20 0\<rparr>) = None"
  by code_simp+

lemma jobStart_step: "exec_step (jobExec job1) CauseStageStart (startWork (jobExec job1) ''a1'' (GTime 20 0))"
  by (rule exec_step.start_work [OF job1_status(1) job1_ready(1,2)])

lemma jobRun_run: "fst (casE jobOps None ''job'' 1 jobStart jobBusy) = None"
  by code_simp

lemma jobRun_sys: "jobSys jobRun"
proof -
  have c: "casE jobOps None ''job'' 1 jobStart jobBusy = (None, jobRun)"
    using jobRun_run by (metis jobRun_def prod.collapse)
  have l: "last (memLog_c (enStore job1) ''job'') \<in> set (memLog_c (enStore jobBusy) ''job'')"
    using job1_log(2) by (simp add: jobBusy_def)
  have rs: "record_step (last (memLog_c (enStore job1) ''job'')) jobStart"
    unfolding jobStart_def using record_step_next jobStart_step by (simp add: jobExec_def)
  have rev: "rcRev (last (memLog_c (enStore job1) ''job'')) = 1" using job1_status(2) by (simp add: jobExec_def)
  from cmem.ext_sys [OF cmem.commit(4) [OF jobBusy_sys(1) l cmem.ext_refl [OF jobBusy_sys(1)] _ rs]] c rev
  show ?thesis by simp
qed

lemma jobRun_state: "activeStage jobRun ''job'' \<noteq> None" "memLog_c (enStore jobRun) ''job'' \<noteq> []"
    "exCurrentAttempt (jobExec jobRun) = Some jobAttempt" "exStatus (jobExec jobRun) = StatusRunning"
    "exPhase (jobExec jobRun) = PhaseWork" "exID (jobExec jobRun) = ''job''"
  by code_simp+

text \<open>A signal to the execution that waits.\<close>

definition jobSignal :: signal where
  "jobSignal = \<lparr>sgID = ''s1'', sgKey = ''go'', sgPayload = None\<rparr>"

definition jobSignalled :: "cont_mem eng" where
  "jobSignalled = snd (engineSignal jobOps (calm 30 ''x'') ''job'' 5 jobSignal (job2 ActionWait))"

lemma jobSignalled_ids: "signal_ids (memLog_c (enStore (job2 ActionWait)) ''job'') = []"
  "signal_ids (memLog_c (enStore jobSignalled) ''job'') = [''s1'']" "exStatus (jobExec jobSignalled) = StatusReady"
  by code_simp+

lemma jobSignalled_run:
  obtains e err where "engineSignal jobOps (calm 30 ''x'') ''job'' 5 jobSignal (job2 ActionWait) = ((e, err), jobSignalled)"
  unfolding jobSignalled_def by (metis prod.exhaust snd_conv)

lemma jobSignalled_sys: "jobSys jobSignalled"
proof -
  obtain e err where r: "engineSignal jobOps (calm 30 ''x'') ''job'' 5 jobSignal (job2 ActionWait) = ((e, err), jobSignalled)"
    by (rule jobSignalled_run)
  have "cmem.signals_kept jobEnc ''job'' (calm 30 ''x'')" by (simp add: cmem.signals_kept_def)
  from cmem.signal_spec [OF job2_sys calm_rely this _ _ r] show ?thesis
    by (auto simp: job2_log jobSignalled_ids cmem.result_ok_def dest: cmem.ext_sys)
qed

end
