(* ===== verification/ContController.thy ===== *)
theory ContController
  imports ContAdvance
begin

section \<open>What the engine relies on in a controller\<close>

text \<open>
  The engine validates the decision of a controller and turns one that does not pass into an error of
  the stage. \<open>cont_controller\<close> is the promise a controller makes instead; the engine then finishes the
  stage with exactly what the controller returned.
\<close>

locale cont_controller =
  fixes decide :: "decision_request \<Rightarrow> decision \<times> cont_error option"
  assumes decision_valid: "decide q = (d, None) \<Longrightarrow> validateDecision d = None"
begin

lemma checked: "checkedDecision (decide q) = decide q"
  using decision_valid by (auto simp: checkedDecision_def split: prod.splits option.splits)

lemma runs: "haController h = Some decide \<Longrightarrow> checkedDecision (runController h q) = decide q"
  by (simp add: runController_def checked)

end

end
