(* ===== verification/GoText.thy ===== *)
theory GoText
  imports GoBase
begin

section \<open>Trimming and counting runes\<close>

text \<open>
  \<^verbatim>\<open>strings.TrimSpace\<close> and \<^verbatim>\<open>utf8.RuneCountInString\<close> on bytes. A rune of white space has one, two or
  three bytes; an invalid byte counts as one rune and is no white space.
\<close>

fun trimLeft :: "string \<Rightarrow> string" where
  "trimLeft [] = []"
| "trimLeft [c] = (if space1 c then [] else [c])"
| "trimLeft [c, d] = (if space1 c then trimLeft [d] else if space2 c d then [] else [c, d])"
| "trimLeft (c # d # e # s) =
     (if space1 c then trimLeft (d # e # s) else if space2 c d then trimLeft (e # s)
      else if space3 c d e then trimLeft s else c # d # e # s)"

text \<open>The same from the end, on the reversed string.\<close>

fun trimBack :: "string \<Rightarrow> string" where
  "trimBack [] = []"
| "trimBack [c] = (if space1 c then [] else [c])"
| "trimBack [d, c] = (if space1 d then trimBack [c] else if space2 c d then [] else [d, c])"
| "trimBack (e # d # c # s) =
     (if space1 e then trimBack (d # c # s) else if space2 d e then trimBack (c # s)
      else if space3 c d e then trimBack s else e # d # c # s)"

definition trimSpace :: "string \<Rightarrow> string" where
  "trimSpace s = rev (trimBack (rev (trimLeft s)))"

definition is_cont :: "char \<Rightarrow> bool" where
  "is_cont c \<longleftrightarrow> 0x80 \<le> code c \<and> code c \<le> 0xBF"

text \<open>The width of the first rune; \<open>None\<close> for an invalid byte.\<close>

definition rune_width :: "string \<Rightarrow> nat option" where
  "rune_width s = (case s of [] \<Rightarrow> None
     | c # t \<Rightarrow>
        if code c < 0x80 then Some 1
        else if 0xC2 \<le> code c \<and> code c \<le> 0xDF then
          (case t of d # _ \<Rightarrow> if is_cont d then Some 2 else None | [] \<Rightarrow> None)
        else if 0xE0 \<le> code c \<and> code c \<le> 0xEF then
          (case t of d # e # _ \<Rightarrow>
             if is_cont d \<and> is_cont e \<and> (code c = 0xE0 \<longrightarrow> 0xA0 \<le> code d) \<and> (code c = 0xED \<longrightarrow> code d \<le> 0x9F)
             then Some 3 else None
           | _ \<Rightarrow> None)
        else if 0xF0 \<le> code c \<and> code c \<le> 0xF4 then
          (case t of d # e # f # _ \<Rightarrow>
             if is_cont d \<and> is_cont e \<and> is_cont f \<and> (code c = 0xF0 \<longrightarrow> 0x90 \<le> code d) \<and> (code c = 0xF4 \<longrightarrow> code d \<le> 0x8F)
             then Some 4 else None
           | _ \<Rightarrow> None)
        else None)"

function runeCount :: "string \<Rightarrow> int" where
  "runeCount [] = 0"
| "runeCount (c # t) = 1 + runeCount (drop (case rune_width (c # t) of Some n \<Rightarrow> n - 1 | None \<Rightarrow> 0) t)"
  by pat_completeness auto
termination runeCount
  by (relation "measure length") auto

function utf8_ok :: "string \<Rightarrow> bool" where
  "utf8_ok [] = True"
| "utf8_ok (c # t) = (case rune_width (c # t) of Some n \<Rightarrow> utf8_ok (drop (n - 1) t) | None \<Rightarrow> False)"
  by pat_completeness auto
termination utf8_ok
  by (relation "measure length") auto

subsection \<open>Trimming twice is trimming once\<close>

definition starts_space :: "string \<Rightarrow> bool" where
  "starts_space s \<longleftrightarrow> (case s of [] \<Rightarrow> False | c # t \<Rightarrow> space1 c \<or>
     (case t of [] \<Rightarrow> False | d # u \<Rightarrow> space2 c d \<or> (case u of [] \<Rightarrow> False | e # _ \<Rightarrow> space3 c d e)))"

lemma trimLeft_id: "\<not> starts_space s \<Longrightarrow> trimLeft s = s"
  by (cases s rule: trimLeft.cases) (auto simp: starts_space_def)

lemma trimLeft_clean: "\<not> starts_space (trimLeft s)"
  by (induction s rule: trimLeft.induct) (auto simp: starts_space_def)

lemma starts_space_prefix: "starts_space p \<Longrightarrow> starts_space (p @ s)"
  by (auto simp: starts_space_def split: list.splits)

lemma trimBack_suffix: "\<exists>p. s = p @ trimBack s"
proof (induction s rule: trimBack.induct)
  case (3 d c)
  then show ?case by (cases "space1 d") (auto intro: exI [of _ "[d, c]"] exI [of _ "[d]"])
next
  case (4 e d c s)
  consider "space1 e" | "\<not> space1 e" "space2 d e" | "\<not> space1 e" "\<not> space2 d e" "space3 c d e"
    | "\<not> space1 e" "\<not> space2 d e" "\<not> space3 c d e" by blast
  then show ?case
  proof cases
    case 1
    with 4(1) obtain p where "d # c # s = p @ trimBack (d # c # s)" by blast
    with 1 show ?thesis by (intro exI [of _ "e # p"]) simp
  next
    case 2
    with 4(2) obtain p where "c # s = p @ trimBack (c # s)" by blast
    with 2 show ?thesis by (intro exI [of _ "e # d # p"]) simp
  next
    case 3
    with 4(3) obtain p where "s = p @ trimBack s" by blast
    with 3 show ?thesis by (intro exI [of _ "e # d # c # p"]) simp
  qed simp
qed auto

lemma trimBack_idem: "trimBack (trimBack s) = trimBack s"
  by (induction s rule: trimBack.induct) auto

lemma trimSpace_idem [simp]: "trimSpace (trimSpace s) = trimSpace s"
proof -
  obtain p where "rev (trimLeft s) = p @ trimBack (rev (trimLeft s))" using trimBack_suffix by blast
  then have "trimLeft s = trimSpace s @ rev p" unfolding trimSpace_def by (metis rev_append rev_rev_ident)
  then have "\<not> starts_space (trimSpace s)" using trimLeft_clean starts_space_prefix by metis
  then show ?thesis by (simp add: trimSpace_def [of "trimSpace s"] trimLeft_id)
    (simp add: trimSpace_def trimBack_idem)
qed

end
