(* ===== verification/GoJson.thy ===== *)
theory GoJson
  imports GoText
begin

section \<open>Encoding and decoding JSON texts\<close>

text \<open>
  What the source uses of \<^verbatim>\<open>encoding/json\<close> on flat structs: a string is quoted with its HTML, control
  and line-separator escapes, an \<^verbatim>\<open>int\<close> is decimal, a \<^verbatim>\<open>json.RawMessage\<close> is compacted, an object is its
  fields in the order of the struct. A text is decoded after \<open>json_valid\<close> has passed, so the reader
  below only splits it: a member is a key and the raw text of its value, and the type of the field
  the key names, exactly or up to case, decodes the raw text.
\<close>

subsection \<open>Strings\<close>

abbreviation quotC :: char where "quotC \<equiv> CHR 0x22"
abbreviation bslash :: char where "bslash \<equiv> CHR 0x5C"

definition hexDigit :: "nat \<Rightarrow> char" where
  "hexDigit n = char_of (if n < 10 then 48 + n else 87 + n)"

definition hexVal :: "char \<Rightarrow> nat" where
  "hexVal c = (if code c \<le> 57 then code c - 48 else if code c \<le> 70 then code c - 55 else code c - 87)"

definition escByte :: "char \<Rightarrow> string" where
  "escByte c =
     (if c = quotC \<or> c = bslash then [bslash, c]
      else if code c = 8 then [bslash, CHR ''b''] else if code c = 12 then [bslash, CHR ''f'']
      else if code c = 10 then [bslash, CHR ''n''] else if code c = 13 then [bslash, CHR ''r'']
      else if code c = 9 then [bslash, CHR ''t'']
      else if code c < 32 \<or> c = CHR ''<'' \<or> c = CHR ''>'' \<or> c = CHR ''&''
        then [bslash, CHR ''u'', CHR ''0'', CHR ''0'', hexDigit (code c div 16), hexDigit (code c mod 16)]
      else [c])"

definition escRune :: "string \<Rightarrow> string" where
  "escRune r =
     (if r = [CHR 0xE2, CHR 0x80, CHR 0xA8] then [bslash, CHR ''u'', CHR ''2'', CHR ''0'', CHR ''2'', CHR ''8'']
      else if r = [CHR 0xE2, CHR 0x80, CHR 0xA9] then [bslash, CHR ''u'', CHR ''2'', CHR ''0'', CHR ''2'', CHR ''9'']
      else r)"

definition replacement :: string where
  "replacement = [CHR 0xEF, CHR 0xBF, CHR 0xBD]"

text \<open>An invalid byte is written as the escape of the replacement character.\<close>

function esc :: "string \<Rightarrow> string" where
  "esc [] = []"
| "esc (c # t) =
     (if code c < 128 then escByte c @ esc t
      else (case rune_width (c # t) of
          None \<Rightarrow> [bslash, CHR ''u'', CHR ''f'', CHR ''f'', CHR ''f'', CHR ''d''] @ esc t
        | Some n \<Rightarrow> escRune (c # take (n - 1) t) @ esc (drop (n - 1) t)))"
  by pat_completeness auto
termination esc
  by (relation "measure length") auto

definition quote :: "string \<Rightarrow> string" where
  "quote s = quotC # esc s @ [quotC]"

definition getu4 :: "string \<Rightarrow> nat option" where
  "getu4 s = (case s of
       a # b # c # d # _ \<Rightarrow>
         if is_hex a \<and> is_hex b \<and> is_hex c \<and> is_hex d
         then Some (((hexVal a * 16 + hexVal b) * 16 + hexVal c) * 16 + hexVal d) else None
     | _ \<Rightarrow> None)"

definition is_surrogate :: "nat \<Rightarrow> bool" where
  "is_surrogate r \<longleftrightarrow> 0xD800 \<le> r \<and> r < 0xE000"

definition utf8 :: "nat \<Rightarrow> string" where
  "utf8 r =
     (if r < 0x80 then [char_of r]
      else if r < 0x800 then [char_of (0xC0 + r div 64), char_of (0x80 + r mod 64)]
      else if r < 0x10000 then
        [char_of (0xE0 + r div 4096), char_of (0x80 + (r div 64) mod 64), char_of (0x80 + r mod 64)]
      else [char_of (0xF0 + r div 262144), char_of (0x80 + (r div 4096) mod 64),
        char_of (0x80 + (r div 64) mod 64), char_of (0x80 + r mod 64)])"

text \<open>The rune of a \<^verbatim>\<open>\u\<close> escape and the text after it; the second half of a surrogate pair is read too.\<close>

definition unicodeEscape :: "string \<Rightarrow> (string \<times> nat) option" where
  "unicodeEscape u = (case getu4 u of None \<Rightarrow> None
     | Some r \<Rightarrow>
         if \<not> is_surrogate r then Some (utf8 r, 4)
         else (case (if take 2 (drop 4 u) = [bslash, CHR ''u''] then getu4 (drop 6 u) else None) of
             None \<Rightarrow> Some (replacement, 4)
           | Some r2 \<Rightarrow>
               if r < 0xDC00 \<and> 0xDC00 \<le> r2 \<and> r2 < 0xE000
               then Some (utf8 ((r - 0xD800) * 1024 + (r2 - 0xDC00) + 0x10000), 10)
               else Some (replacement, 4)))"

definition simpleEscape :: "char \<Rightarrow> char option" where
  "simpleEscape e =
     (if e = quotC \<or> e = bslash \<or> e = CHR ''/'' then Some e
      else if e = CHR ''b'' then Some (CHR 8) else if e = CHR ''f'' then Some (CHR 12)
      else if e = CHR ''n'' then Some (CHR 10) else if e = CHR ''r'' then Some (CHR 13)
      else if e = CHR ''t'' then Some (CHR 9) else None)"

function unesc :: "string \<Rightarrow> string option" where
  "unesc [] = Some []"
| "unesc (c # t) =
     (if c = bslash then
        (case t of [] \<Rightarrow> None
         | e # u \<Rightarrow>
            if e = CHR ''u'' then
              (case unicodeEscape u of None \<Rightarrow> None | Some (r, n) \<Rightarrow> map_option ((@) r) (unesc (drop n u)))
            else (case simpleEscape e of None \<Rightarrow> None | Some x \<Rightarrow> map_option ((#) x) (unesc u)))
      else if c = quotC \<or> code c < 32 then None
      else if code c < 128 then map_option ((#) c) (unesc t)
      else (case rune_width (c # t) of
          None \<Rightarrow> map_option ((@) replacement) (unesc t)
        | Some n \<Rightarrow> map_option ((@) (c # take (n - 1) t)) (unesc (drop (n - 1) t))))"
  by pat_completeness auto
termination unesc
  by (relation "measure length") auto

subsection \<open>Numbers and raw messages\<close>

fun showNat :: "nat \<Rightarrow> string" where
  "showNat n = (if n < 10 then [char_of (48 + n)] else showNat (n div 10) @ [char_of (48 + n mod 10)])"

declare showNat.simps [simp del]

definition showInt :: "int \<Rightarrow> string" where
  "showInt n = (if n < 0 then CHR ''-'' # showNat (nat (- n)) else showNat (nat n))"

definition readNat :: "string \<Rightarrow> nat" where
  "readNat s = foldl (\<lambda>a c. 10 * a + (code c - 48)) 0 s"

text \<open>\<open>compact b\<close> drops the white space outside strings; \<open>b\<close> tells whether it is inside one.\<close>

function compact :: "bool \<Rightarrow> string \<Rightarrow> string" where
  "compact b [] = []"
| "compact b (c # t) =
     (if \<not> b \<and> json_space c then compact b t
      else if c = CHR ''<'' \<or> c = CHR ''>'' \<or> c = CHR ''&'' then escByte c @ compact b t
      else if c = quotC then c # compact (\<not> b) t
      else if c = bslash then c # take 1 t @ compact b (drop 1 t)
      else if take 3 (c # t) = [CHR 0xE2, CHR 0x80, CHR 0xA8] \<or> take 3 (c # t) = [CHR 0xE2, CHR 0x80, CHR 0xA9]
        then escRune (take 3 (c # t)) @ compact b (drop 2 t)
      else c # compact b t)"
  by pat_completeness auto
termination compact
  by (relation "measure (length \<circ> snd)") auto

subsection \<open>Objects\<close>

definition member :: "string \<times> string \<Rightarrow> string" where
  "member p = quote (fst p) @ CHR '':'' # snd p"

fun commas :: "string list \<Rightarrow> string" where
  "commas [] = []"
| "commas [x] = x"
| "commas (x # y # xs) = x @ CHR '','' # commas (y # xs)"

definition encObj :: "(string \<times> string) list \<Rightarrow> string" where
  "encObj ms = CHR ''{'' # commas (map member ms) @ [CHR ''}'']"

text \<open>The content of a string literal up to its closing quote, and the text after it.\<close>

fun strlit :: "string \<Rightarrow> string \<times> string" where
  "strlit [] = ([], [])"
| "strlit [c] = (if c = quotC then ([], []) else ([c], []))"
| "strlit (c # d # t) =
     (if c = quotC then ([], d # t)
      else if c = bslash then (case strlit t of (a, b) \<Rightarrow> (c # d # a, b))
      else (case strlit (d # t) of (a, b) \<Rightarrow> (c # a, b)))"

lemma strlit_fold [simp]:
  "strlit (c # d # t) =
     (if c = quotC then ([], d # t)
      else if c = bslash then (c # d # fst (strlit t), snd (strlit t))
      else (c # fst (strlit (d # t)), snd (strlit (d # t))))"
  by (simp add: case_prod_beta)

declare strlit.simps(3) [simp del]

lemma strlit_length: "length (snd (strlit s)) \<le> length s"
  by (induction s rule: strlit.induct) auto

lemma strlit_rest: "(a, b) = strlit s \<Longrightarrow> length b \<le> length s"
  using strlit_length by (metis snd_conv)

text \<open>An object or array from after its opening bracket; \<open>d\<close> brackets are open.\<close>

function nest :: "nat \<Rightarrow> string \<Rightarrow> string \<times> string" where
  "nest d [] = ([], [])"
| "nest d (c # t) =
     (if c = quotC then (case strlit t of (a, b) \<Rightarrow> case nest d b of (x, y) \<Rightarrow> (c # a @ quotC # x, y))
      else if c = CHR ''{'' \<or> c = CHR ''['' then (case nest (Suc d) t of (x, y) \<Rightarrow> (c # x, y))
      else if c = CHR ''}'' \<or> c = CHR '']'' then
        (if d \<le> 1 then ([c], t) else (case nest (d - 1) t of (x, y) \<Rightarrow> (c # x, y)))
      else (case nest d t of (x, y) \<Rightarrow> (c # x, y)))"
  by pat_completeness auto
termination nest
  by (relation "measure (length \<circ> snd)") (auto simp: le_imp_less_Suc strlit_rest)

lemma nest_fold [simp]:
  "nest d (c # t) =
     (if c = quotC then
        (c # fst (strlit t) @ quotC # fst (nest d (snd (strlit t))), snd (nest d (snd (strlit t))))
      else if c = CHR ''{'' \<or> c = CHR ''['' then (c # fst (nest (Suc d) t), snd (nest (Suc d) t))
      else if c = CHR ''}'' \<or> c = CHR '']'' then
        (if d \<le> 1 then ([c], t) else (c # fst (nest (d - 1) t), snd (nest (d - 1) t)))
      else (c # fst (nest d t), snd (nest d t)))"
  by (simp add: case_prod_beta)

declare nest.simps(2) [simp del]

lemma nest_length: "length (snd (nest d s)) \<le> length s"
proof (induction s arbitrary: d rule: length_induct)
  case (1 s)
  show ?case
  proof (cases s)
    case (Cons c t)
    have l: "length (snd (strlit t)) \<le> length t" by (rule strlit_length)
    have ih: "length (snd (nest k u)) \<le> Suc (length t)" if "length u \<le> length t" for k u
    proof -
      have "length (snd (nest k u)) \<le> length u" using 1 Cons that by simp
      with that show ?thesis by simp
    qed
    show ?thesis using Cons ih [OF l] ih [OF order_refl] by simp
  qed simp
qed

definition lit_char :: "char \<Rightarrow> bool" where
  "lit_char c \<longleftrightarrow> \<not> json_space c \<and> c \<noteq> CHR '','' \<and> c \<noteq> CHR ''}'' \<and> c \<noteq> CHR '']''"

definition takeValue :: "string \<Rightarrow> string \<times> string" where
  "takeValue s = (case s of [] \<Rightarrow> ([], [])
     | c # t \<Rightarrow>
        if c = quotC then (case strlit t of (a, b) \<Rightarrow> (c # a @ [quotC], b))
        else if c = CHR ''{'' \<or> c = CHR ''['' then (case nest 1 t of (a, b) \<Rightarrow> (c # a, b))
        else (takeWhile lit_char s, dropWhile lit_char s))"

lemma takeValue_length: "length (snd (takeValue s)) \<le> length s"
  using strlit_length nest_length
  by (auto simp: takeValue_def length_dropWhile_le case_prod_beta intro: le_SucI split: list.splits)

abbreviation skip_space :: "string \<Rightarrow> string" where
  "skip_space \<equiv> dropWhile json_space"

text \<open>One member at the head of a text, and the text after its value.\<close>

definition readMember :: "string \<Rightarrow> ((string \<times> string) \<times> string) option" where
  "readMember s = (case skip_space s of [] \<Rightarrow> None
     | c # t \<Rightarrow>
        if c = quotC then
          (case strlit t of (k, r) \<Rightarrow>
             case takeValue (skip_space (drop 1 (skip_space r))) of (v, r') \<Rightarrow> Some ((k, v), skip_space r'))
        else None)"

lemma readMember_length: "readMember s = Some (m, r) \<Longrightarrow> length r < length s"
proof -
  assume a: "readMember s = Some (m, r)"
  then obtain c t where s: "skip_space s = c # t" and
      r: "r = skip_space (snd (takeValue (skip_space (drop 1 (skip_space (snd (strlit t)))))))"
    by (auto simp: readMember_def case_prod_beta split: list.splits if_splits)
  have "length r \<le> length (snd (takeValue (skip_space (drop 1 (skip_space (snd (strlit t)))))))"
    unfolding r by (rule length_dropWhile_le)
  also have "\<dots> \<le> length (skip_space (drop 1 (skip_space (snd (strlit t)))))" by (rule takeValue_length)
  also have "\<dots> \<le> length (drop 1 (skip_space (snd (strlit t))))" by (rule length_dropWhile_le)
  also have "\<dots> \<le> length (skip_space (snd (strlit t)))" by simp
  also have "\<dots> \<le> length (snd (strlit t))" by (rule length_dropWhile_le)
  also have "\<dots> \<le> length t" by (rule strlit_length)
  also have "\<dots> < length s" using s length_dropWhile_le [of json_space s] by simp
  finally show ?thesis .
qed

function members :: "string \<Rightarrow> (string \<times> string) list" where
  "members s = (case readMember s of None \<Rightarrow> []
     | Some (m, r) \<Rightarrow> m # (case r of [] \<Rightarrow> [] | c # u \<Rightarrow> if c = CHR '','' then members u else []))"
  by pat_completeness auto
termination members
  by (relation "measure length") (auto dest!: readMember_length)

declare members.simps [simp del]

subsection \<open>Fields\<close>

text \<open>
  A key names the field with its exact name, else the one that is equal after case folding; two
  letters outside ASCII fold to \<^verbatim>\<open>S\<close> and \<^verbatim>\<open>K\<close>.
\<close>

fun foldKey :: "string \<Rightarrow> string" where
  "foldKey [] = []"
| "foldKey (c # t) =
     (if c = CHR 0xC5 \<and> take 1 t = [CHR 0xBF] then CHR ''S'' # foldKey (tl t)
      else if c = CHR 0xE2 \<and> take 2 t = [CHR 0x84, CHR 0xAA] then CHR ''K'' # foldKey (tl (tl t))
      else (if 97 \<le> code c \<and> code c \<le> 122 then char_of (code c - 32) else c) # foldKey t)"

definition fieldName :: "string list \<Rightarrow> string \<Rightarrow> string option" where
  "fieldName names k =
     (if k \<in> set names then Some k else find (\<lambda>n. foldKey n = foldKey k) names)"

definition setField ::
    "string list \<Rightarrow> (string \<Rightarrow> string \<Rightarrow> 'a \<Rightarrow> 'a option) \<Rightarrow> 'a option \<Rightarrow> string \<times> string \<Rightarrow> 'a option" where
  "setField names put a p = (case a of None \<Rightarrow> None
     | Some x \<Rightarrow>
        (case unesc (fst p) of None \<Rightarrow> None
         | Some k \<Rightarrow> (case fieldName names k of None \<Rightarrow> Some x | Some n \<Rightarrow> put n (snd p) x)))"

text \<open>A struct is decoded into the value it has before; \<^verbatim>\<open>null\<close> leaves that value.\<close>

definition decObj ::
    "string list \<Rightarrow> (string \<Rightarrow> string \<Rightarrow> 'a \<Rightarrow> 'a option) \<Rightarrow> string \<Rightarrow> 'a \<Rightarrow> 'a option" where
  "decObj names put raw x =
     (if raw = ''null'' then Some x
      else case raw of [] \<Rightarrow> None
        | c # t \<Rightarrow> if c = CHR ''{'' then foldl (setField names put) (Some x) (members t) else None)"

definition decStr :: "string \<Rightarrow> string \<Rightarrow> string option" where
  "decStr raw x =
     (if raw = ''null'' then Some x
      else case raw of [] \<Rightarrow> None | c # t \<Rightarrow> if c = quotC then unesc (butlast t) else None)"

definition decInt :: "string \<Rightarrow> int \<Rightarrow> int option" where
  "decInt raw x =
     (if raw = ''null'' then Some x
      else
        (let neg = take 1 raw = ''-''; ds = (if neg then drop 1 raw else raw); n = int (readNat ds)
         in if ds \<noteq> [] \<and> list_all is_digit ds \<and> (if neg then n \<le> 2 ^ 63 else n < 2 ^ 63)
            then Some (if neg then - n else n) else None))"

definition decBool :: "string \<Rightarrow> bool \<Rightarrow> bool option" where
  "decBool raw x =
     (if raw = ''null'' then Some x else if raw = ''true'' then Some True
      else if raw = ''false'' then Some False else None)"

text \<open>A pointer to a struct: \<^verbatim>\<open>null\<close> clears it, an object is decoded into what it points to.\<close>

definition decPtr :: "(string \<Rightarrow> 'a \<Rightarrow> 'a option) \<Rightarrow> 'a \<Rightarrow> string \<Rightarrow> 'a option \<Rightarrow> 'a option option" where
  "decPtr dec zero raw x =
     (if raw = ''null'' then Some None
      else map_option Some (dec raw (case x of None \<Rightarrow> zero | Some y \<Rightarrow> y)))"

text \<open>The top-level value of a valid text, without the white space around it.\<close>

definition rawValue :: "string \<Rightarrow> string" where
  "rawValue s = fst (takeValue (skip_space s))"

end
