(* ===== verification/GoalPolicy.thy ===== *)
theory GoalPolicy
  imports ContController GoJson
begin

section \<open>The goal controller\<close>

text \<open>
  \<^verbatim>\<open>agent/goal/types.go\<close> and \<^verbatim>\<open>controller.go\<close>: the durable state of a Goal and its JSON, and the
  controller that maps one evaluation onto a decision of the continuation engine. The evaluator is
  an argument, a function of the evaluation it is given. The package's errors are the two sentinels
  below; a function whose name the continuation package has too carries the suffix \<open>_g\<close>.
\<close>

subsection \<open>Types\<close>

definition goalInvalid :: cont_error where
  "goalInvalid = Foreign ''goal: invalid value'' None"

definition goalTooLarge :: cont_error where
  "goalTooLarge = Foreign ''goal: value too large'' None"

datatype outcome = OutcomeContinue | OutcomeComplete | OutcomeBlocked | OutcomeOther string

fun outcomeText :: "outcome \<Rightarrow> string" where
  "outcomeText OutcomeContinue = ''continue''"
| "outcomeText OutcomeComplete = ''candidate_complete''"
| "outcomeText OutcomeBlocked = ''blocked''"
| "outcomeText (OutcomeOther s) = s"

definition outcomeOf :: "string \<Rightarrow> outcome" where
  "outcomeOf s =
     (if s = ''continue'' then OutcomeContinue else if s = ''candidate_complete'' then OutcomeComplete
      else if s = ''blocked'' then OutcomeBlocked else OutcomeOther s)"

record evaluation_record =
  erOutcome :: outcome
  erReason :: string
  erNextStep :: string
  erBlockerKey :: string

record goal_state =
  gsVersion :: int
  gsCondition :: string
  gsEvaluations :: int
  gsLast :: "evaluation_record option"
  gsBlockerKey :: string
  gsBlockerStreak :: int

record goal_input =
  giKind :: string
  giCondition :: string
  giEvaluation :: int
  giReason :: string
  giFeedback :: "string option"

record goal_setup =
  guControllerState :: "string option"
  guWorkInput :: "string option"

record evaluation =
  evCondition :: string
  evEvidence :: "string option"
  evTranscript :: string
  evPlan :: string
  evAttempt :: int
  evActivation :: "activation option"
  evLimits :: limits
  evAccounting :: accounting
  evPrevious :: "evaluation_record option"

record evaluation_result =
  eoOutcome :: outcome
  eoReason :: string
  eoNextStep :: string
  eoBlockerKey :: string
  eoFeedback :: "string option"
  eoOutput :: "string option"
  eoBlock :: "block option"
  eoUsage :: usage

type_synonym evaluator = "evaluation \<Rightarrow> evaluation_result \<times> cont_error option"

definition zero_evaluation_record :: evaluation_record where
  "zero_evaluation_record = \<lparr>erOutcome = OutcomeOther [], erReason = [], erNextStep = [], erBlockerKey = []\<rparr>"

definition zero_goal_state :: goal_state where
  "zero_goal_state = \<lparr>gsVersion = 0, gsCondition = [], gsEvaluations = 0, gsLast = None,
     gsBlockerKey = [], gsBlockerStreak = 0\<rparr>"

definition zero_goal_input :: goal_input where
  "zero_goal_input = \<lparr>giKind = [], giCondition = [], giEvaluation = 0, giReason = [], giFeedback = None\<rparr>"

definition zero_evaluation_result :: evaluation_result where
  "zero_evaluation_result = \<lparr>eoOutcome = OutcomeOther [], eoReason = [], eoNextStep = [], eoBlockerKey = [],
     eoFeedback = None, eoOutput = None, eoBlock = None, eoUsage = zero_usage\<rparr>"

subsection \<open>Validation\<close>

definition validateCondition :: "string \<Rightarrow> cont_error + string" where
  "validateCondition condition =
     (let c = trimSpace condition
      in if c = [] then Inl goalInvalid
         else if runeCount c > 4000 then Inl goalTooLarge
         else Inr c)"

definition validateCounts :: "goal_state \<Rightarrow> cont_error option" where
  "validateCounts st = first_err
     [fail_if (gsEvaluations st < 0) goalInvalid, fail_if (gsBlockerStreak st < 0) goalInvalid]"

definition validOutcome :: "outcome \<Rightarrow> bool" where
  "validOutcome x = (case x of OutcomeOther _ \<Rightarrow> False | _ \<Rightarrow> True)"

definition validateReason_g :: "string \<Rightarrow> bool \<Rightarrow> cont_error option" where
  "validateReason_g reason required = first_err
     [fail_if (required \<and> blank reason) goalInvalid, fail_if (len reason > 4096) goalTooLarge]"

definition validateJSON_g :: "string option \<Rightarrow> cont_error option" where
  "validateJSON_g v = (case v of None \<Rightarrow> None
     | Some s \<Rightarrow> first_err
         [fail_if (len s > 262144) goalTooLarge, fail_if (\<not> json_valid s) goalInvalid])"

definition validateBlock_g :: "block \<Rightarrow> cont_error option" where
  "validateBlock_g b = first_err [fail_if (blank (bkKind b)) goalInvalid, validateJSON_g (bkData b)]"

definition validateRecord_g :: "evaluation_record \<Rightarrow> cont_error option" where
  "validateRecord_g r =
     first_err [fail_if (\<not> validOutcome (erOutcome r)) goalInvalid, validateReason_g (erReason r) True]"

definition blockedMessage :: "evaluation_result \<Rightarrow> string" where
  "blockedMessage r =
     (if blank (eoNextStep r) then eoReason r
      else eoReason r @ [CHR 10] @ ''Next user action: '' @ eoNextStep r)"

definition validateResultFields :: "evaluation_result \<Rightarrow> cont_error option" where
  "validateResultFields r = first_err
     [fail_if (\<not> validOutcome (eoOutcome r)) goalInvalid,
      validateReason_g (eoReason r) True,
      fail_if (\<not> validUsage (eoUsage r)) goalInvalid,
      validateJSON_g (eoFeedback r),
      validateJSON_g (eoOutput r)]"

definition validateResultOutcome :: "evaluation_result \<Rightarrow> cont_error option" where
  "validateResultOutcome r = (case eoOutcome r of
       OutcomeContinue \<Rightarrow> fail_if (eoBlock r \<noteq> None \<or> eoOutput r \<noteq> None) goalInvalid
     | OutcomeComplete \<Rightarrow> fail_if (eoBlock r \<noteq> None \<or> eoFeedback r \<noteq> None) goalInvalid
     | OutcomeBlocked \<Rightarrow> first_err
         [fail_if (eoOutput r \<noteq> None) goalInvalid,
          validateReason_g (blockedMessage r) True,
          (case eoBlock r of None \<Rightarrow> None | Some b \<Rightarrow> validateBlock_g b)]
     | OutcomeOther _ \<Rightarrow> None)"

definition validateResult :: "evaluation_result \<Rightarrow> cont_error option" where
  "validateResult r = first_err [validateResultFields r, validateResultOutcome r]"

definition validAccounting_g :: "accounting \<Rightarrow> bool" where
  "validAccounting_g a \<longleftrightarrow> acAttempts a \<ge> 0 \<and> acTurns a \<ge> 0 \<and> acActiveDuration a \<ge> 0 \<and> validUsage (acUsage a)"

subsection \<open>JSON\<close>

text \<open>
  The fields of each struct in its order, those tagged \<^verbatim>\<open>omitempty\<close> only when not empty. A raw message
  is compacted, and fails to encode when it is not valid.
\<close>

definition unless_empty :: "string \<Rightarrow> string \<Rightarrow> (string \<times> string) list" where
  "unless_empty k s = (if s = [] then [] else [(k, quote s)])"

definition unless_zero :: "string \<Rightarrow> int \<Rightarrow> (string \<times> string) list" where
  "unless_zero k n = (if n = 0 then [] else [(k, showInt n)])"

definition rawField :: "string \<Rightarrow> string option \<Rightarrow> (string \<times> string) list option" where
  "rawField k v = (case v of None \<Rightarrow> Some []
     | Some s \<Rightarrow> if s = [] then Some [] else if json_valid s then Some [(k, compact False s)] else None)"

definition marshalRecord_g :: "evaluation_record \<Rightarrow> string" where
  "marshalRecord_g r = encObj
     ([(''outcome'', quote (outcomeText (erOutcome r))), (''reason'', quote (erReason r))] @
      unless_empty ''next_step'' (erNextStep r) @ unless_empty ''blocker_key'' (erBlockerKey r))"

definition stateMembers :: "goal_state \<Rightarrow> (string \<times> string) list" where
  "stateMembers st =
     [(''version'', showInt (gsVersion st)), (''condition'', quote (gsCondition st)),
      (''evaluations'', showInt (gsEvaluations st))] @
     (case gsLast st of None \<Rightarrow> [] | Some r \<Rightarrow> [(''last'', marshalRecord_g r)]) @
     unless_empty ''blocker_key'' (gsBlockerKey st) @ unless_zero ''blocker_streak'' (gsBlockerStreak st)"

definition marshalState_g :: "goal_state \<Rightarrow> string" where
  "marshalState_g st = encObj (stateMembers st)"

definition marshalInput :: "goal_input \<Rightarrow> string option" where
  "marshalInput w = (case rawField ''feedback'' (giFeedback w) of None \<Rightarrow> None
     | Some f \<Rightarrow> Some (encObj
         ([(''kind'', quote (giKind w)), (''condition'', quote (giCondition w)),
           (''evaluation'', showInt (giEvaluation w))] @ unless_empty ''reason'' (giReason w) @ f)))"

definition marshalSummary_g :: "goal_state \<Rightarrow> evaluation_record \<Rightarrow> string" where
  "marshalSummary_g st r = encObj
     [(''condition'', quote (gsCondition st)), (''evaluations'', showInt (gsEvaluations st)),
      (''outcome'', quote (outcomeText (erOutcome r))), (''reason'', quote (erReason r))]"

text \<open>\<^verbatim>\<open>encodeJSON\<close>: marshal, then check the size and the text.\<close>

definition encodeJSON_g :: "string \<Rightarrow> string option \<Rightarrow> cont_error + string" where
  "encodeJSON_g name data = (case data of
       None \<Rightarrow> Inl (Foreign (''goal: encode '' @ name) None)
     | Some s \<Rightarrow> guardE (validateJSON_g (Some s)) (Inr s))"

definition putRecord_g :: "string \<Rightarrow> string \<Rightarrow> evaluation_record \<Rightarrow> evaluation_record option" where
  "putRecord_g k raw r =
     (if k = ''outcome'' then map_option (\<lambda>s. r\<lparr>erOutcome := outcomeOf s\<rparr>) (decStr raw (outcomeText (erOutcome r)))
      else if k = ''reason'' then map_option (\<lambda>s. r\<lparr>erReason := s\<rparr>) (decStr raw (erReason r))
      else if k = ''next_step'' then map_option (\<lambda>s. r\<lparr>erNextStep := s\<rparr>) (decStr raw (erNextStep r))
      else map_option (\<lambda>s. r\<lparr>erBlockerKey := s\<rparr>) (decStr raw (erBlockerKey r)))"

definition unmarshalRecord_g :: "string \<Rightarrow> evaluation_record \<Rightarrow> evaluation_record option" where
  "unmarshalRecord_g raw r = decObj [''outcome'', ''reason'', ''next_step'', ''blocker_key''] putRecord_g raw r"

definition putState_g :: "string \<Rightarrow> string \<Rightarrow> goal_state \<Rightarrow> goal_state option" where
  "putState_g k raw st =
     (if k = ''version'' then map_option (\<lambda>n. st\<lparr>gsVersion := n\<rparr>) (decInt raw (gsVersion st))
      else if k = ''condition'' then map_option (\<lambda>s. st\<lparr>gsCondition := s\<rparr>) (decStr raw (gsCondition st))
      else if k = ''evaluations'' then map_option (\<lambda>n. st\<lparr>gsEvaluations := n\<rparr>) (decInt raw (gsEvaluations st))
      else if k = ''last'' then map_option (\<lambda>p. st\<lparr>gsLast := p\<rparr>)
        (decPtr unmarshalRecord_g zero_evaluation_record raw (gsLast st))
      else if k = ''blocker_key'' then map_option (\<lambda>s. st\<lparr>gsBlockerKey := s\<rparr>) (decStr raw (gsBlockerKey st))
      else map_option (\<lambda>n. st\<lparr>gsBlockerStreak := n\<rparr>) (decInt raw (gsBlockerStreak st)))"

definition unmarshalState_g :: "string \<Rightarrow> goal_state option" where
  "unmarshalState_g s =
     decObj [''version'', ''condition'', ''evaluations'', ''last'', ''blocker_key'', ''blocker_streak'']
       putState_g (rawValue s) zero_goal_state"

definition putInput :: "string \<Rightarrow> string \<Rightarrow> goal_input \<Rightarrow> goal_input option" where
  "putInput k raw w =
     (if k = ''kind'' then map_option (\<lambda>s. w\<lparr>giKind := s\<rparr>) (decStr raw (giKind w))
      else if k = ''condition'' then map_option (\<lambda>s. w\<lparr>giCondition := s\<rparr>) (decStr raw (giCondition w))
      else if k = ''evaluation'' then map_option (\<lambda>n. w\<lparr>giEvaluation := n\<rparr>) (decInt raw (giEvaluation w))
      else if k = ''reason'' then map_option (\<lambda>s. w\<lparr>giReason := s\<rparr>) (decStr raw (giReason w))
      else Some (w\<lparr>giFeedback := Some raw\<rparr>))"

definition unmarshalInput :: "string \<Rightarrow> goal_input option" where
  "unmarshalInput s = decObj [''kind'', ''condition'', ''evaluation'', ''reason'', ''feedback'']
     putInput (rawValue s) zero_goal_input"

subsection \<open>Prepare and decode\<close>

definition prepareGoal :: "string \<Rightarrow> cont_error + goal_setup" where
  "prepareGoal condition =
     bindE (validateCondition condition) (\<lambda>c.
     bindE (encodeJSON_g ''controller state'' (Some (marshalState_g (zero_goal_state\<lparr>gsVersion := 1, gsCondition := c\<rparr>)))) (\<lambda>st.
     bindE (encodeJSON_g ''input'' (marshalInput (zero_goal_input\<lparr>giKind := ''goal'', giCondition := c\<rparr>))) (\<lambda>inp.
       Inr \<lparr>guControllerState = Some st, guWorkInput = Some inp\<rparr>)))"

text \<open>A stored outcome may have the spelling of an older version.\<close>

definition currentOutcome :: "evaluation_record \<Rightarrow> evaluation_record" where
  "currentOutcome r = (if erOutcome r = OutcomeOther ''complete'' then r\<lparr>erOutcome := OutcomeComplete\<rparr> else r)"

definition checkState_g :: "goal_state \<Rightarrow> cont_error + goal_state" where
  "checkState_g st =
     guardE (fail_if (gsVersion st \<noteq> 1) goalInvalid)
     (bindE (validateCondition (gsCondition st)) (\<lambda>c.
        let st1 = st\<lparr>gsCondition := c\<rparr>
        in guardE (first_err
             [validateCounts st1,
              fail_if (gsLast st1 = None \<and> gsEvaluations st1 \<noteq> 0 \<or> gsLast st1 \<noteq> None \<and> gsEvaluations st1 = 0) goalInvalid])
           (case gsLast st1 of
              None \<Rightarrow> Inr st1
            | Some r \<Rightarrow> guardE (validateRecord_g (currentOutcome r)) (Inr (st1\<lparr>gsLast := Some (currentOutcome r)\<rparr>)))))"

definition decodeState_g :: "string option \<Rightarrow> cont_error + goal_state" where
  "decodeState_g data =
     guardE (validateJSON_g data)
     (case data of None \<Rightarrow> Inl goalInvalid
      | Some s \<Rightarrow> bindE (of_opt goalInvalid (unmarshalState_g s)) checkState_g)"

definition decodeWorkInput :: "string option \<Rightarrow> cont_error + goal_input" where
  "decodeWorkInput data =
     guardE (validateJSON_g data)
     (case data of None \<Rightarrow> Inl goalInvalid
      | Some s \<Rightarrow> bindE (of_opt goalInvalid (unmarshalInput s)) (\<lambda>w.
          guardE (fail_if (giKind w \<noteq> ''goal'') goalInvalid)
          (bindE (validateCondition (giCondition w)) (\<lambda>c.
            guardE (first_err
              [fail_if (giEvaluation w < 0) goalInvalid, validateReason_g (giReason w) False,
               validateJSON_g (giFeedback w)])
            (Inr (w\<lparr>giCondition := c\<rparr>))))))"

subsection \<open>The controller\<close>

definition recordBlocker :: "goal_state \<Rightarrow> evaluation_result \<Rightarrow> activation option \<Rightarrow> goal_state" where
  "recordBlocker st r av =
     (if eoOutcome r \<noteq> OutcomeBlocked then st\<lparr>gsBlockerKey := [], gsBlockerStreak := 0\<rparr>
      else if av \<noteq> None \<or> gsBlockerKey st \<noteq> eoBlockerKey r
        then st\<lparr>gsBlockerKey := eoBlockerKey r, gsBlockerStreak := 1\<rparr>
      else if gsBlockerStreak st < 2 ^ 63 - 1 then st\<lparr>gsBlockerStreak := gsBlockerStreak st + 1\<rparr>
      else st)"

definition encodeWorkInput :: "goal_state \<Rightarrow> evaluation_result \<Rightarrow> cont_error + string" where
  "encodeWorkInput st r = encodeJSON_g ''input'' (marshalInput
     \<lparr>giKind = ''goal'', giCondition = gsCondition st, giEvaluation = gsEvaluations st,
      giReason = eoReason r, giFeedback = eoFeedback r\<rparr>)"

definition encodeSummary_g :: "goal_state \<Rightarrow> cont_error + string" where
  "encodeSummary_g st = (case gsLast st of
       None \<Rightarrow> Inl (Panic ''nil dereference'')
     | Some r \<Rightarrow> encodeJSON_g ''summary'' (Some (marshalSummary_g st r)))"

definition blockOnRepeatedBlocker ::
    "goal_state \<Rightarrow> evaluation_result \<Rightarrow> decision \<Rightarrow> cont_error + decision" where
  "blockOnRepeatedBlocker st r d =
     bindE (encodeWorkInput st r) (\<lambda>inp.
       let d1 = d\<lparr>dcNextInput := Some inp\<rparr>
       in if gsBlockerStreak st < 3 then Inr (d1\<lparr>dcAction := ActionContinue\<rparr>)
          else (let d2 = d1\<lparr>dcAction := ActionBlock, dcReason := blockedMessage r, dcBlock := eoBlock r\<rparr>
            in if eoBlock r \<noteq> None then Inr d2
               else bindE (encodeSummary_g st) (\<lambda>data.
                 Inr (d2\<lparr>dcBlock := Some \<lparr>bkKind = ''gate'', bkData = Some data\<rparr>\<rparr>))))"

definition evaluationOf :: "goal_state \<Rightarrow> decision_request \<Rightarrow> evaluation" where
  "evaluationOf st q =
     \<lparr>evCondition = gsCondition st, evEvidence = wrValue (dqWork q), evTranscript = [], evPlan = [],
      evAttempt = dqAttempt q, evActivation = dqActivation q, evLimits = dqLimits q,
      evAccounting = dqAccounting q, evPrevious = gsLast st\<rparr>"

text \<open>The state one accepted evaluation leads to.\<close>

definition evaluatedState :: "goal_state \<Rightarrow> evaluation_result \<Rightarrow> activation option \<Rightarrow> goal_state" where
  "evaluatedState st r av = recordBlocker
     (st\<lparr>gsEvaluations := gsEvaluations st + 1,
         gsLast := Some \<lparr>erOutcome = eoOutcome r, erReason = eoReason r,
           erNextStep = eoNextStep r, erBlockerKey = eoBlockerKey r\<rparr>\<rparr>) r av"

definition outcomeDecision :: "goal_state \<Rightarrow> evaluation_result \<Rightarrow> decision \<Rightarrow> cont_error + decision" where
  "outcomeDecision st r d = (case eoOutcome r of
       OutcomeContinue \<Rightarrow> bindE (encodeWorkInput st r) (\<lambda>inp.
         Inr (d\<lparr>dcAction := ActionContinue, dcNextInput := Some inp\<rparr>))
     | OutcomeComplete \<Rightarrow> (case eoOutput r of
           Some x \<Rightarrow> Inr (d\<lparr>dcAction := ActionComplete, dcOutput := Some x\<rparr>)
         | None \<Rightarrow> bindE (encodeSummary_g st) (\<lambda>x. Inr (d\<lparr>dcAction := ActionComplete, dcOutput := Some x\<rparr>)))
     | OutcomeBlocked \<Rightarrow> blockOnRepeatedBlocker st r d
     | OutcomeOther _ \<Rightarrow> Inr d)"

definition decideOn :: "goal_state \<Rightarrow> evaluation_result \<Rightarrow> activation option \<Rightarrow> cont_error + decision" where
  "decideOn st r av =
     guardE (first_err [validateResult r, fail_if (gsEvaluations st = 2 ^ 63 - 1) goalInvalid])
     (let st1 = evaluatedState st r av
      in bindE (encodeJSON_g ''controller state'' (Some (marshalState_g st1))) (\<lambda>data.
           outcomeDecision st1 r (zero_decision\<lparr>dcReason := eoReason r, dcState := Some data, dcUsage := eoUsage r\<rparr>)))"

definition goalDecision :: "evaluator \<Rightarrow> decision_request \<Rightarrow> cont_error + decision" where
  "goalDecision ev q =
     bindE (decodeState_g (dqState q)) (\<lambda>st.
       case ev (evaluationOf st q) of (r, err) \<Rightarrow>
         guardE (map_option (\<lambda>e. Foreign ''goal: evaluate condition'' (Some e)) err)
         (decideOn st r (dqActivation q)))"

text \<open>The two results of \<^verbatim>\<open>Controller.Decide\<close>: beside an error the decision is the zero value.\<close>

definition goalDecide :: "evaluator \<Rightarrow> decision_request \<Rightarrow> decision \<times> cont_error option" where
  "goalDecide ev q = (case goalDecision ev q of Inl e \<Rightarrow> (zero_decision, Some e) | Inr d \<Rightarrow> (d, None))"

definition newGoalController :: "evaluator option \<Rightarrow> cont_error + (decision_request \<Rightarrow> decision \<times> cont_error option)" where
  "newGoalController ev = (case ev of None \<Rightarrow> Inl goalInvalid | Some f \<Rightarrow> Inr (goalDecide f))"

end
