(* ===== verification/LoopPolicy.thy ===== *)
theory LoopPolicy
  imports GoalPolicy
begin

section \<open>The loop controller\<close>

text \<open>
  \<^verbatim>\<open>agent/loop/types.go\<close>, \<^verbatim>\<open>controller.go\<close> and \<^verbatim>\<open>model_planner.go\<close>: the durable state of a Loop and its
  JSON, the controller that maps a plan onto a wait of the continuation engine, the fixed-interval
  planner and the planner that asks a model. A planner is a function of its request; the clock is the
  time the controller reads. A function whose name another package has carries the suffix \<open>_l\<close>.
\<close>

subsection \<open>Types\<close>

definition loopInvalid :: cont_error where
  "loopInvalid = Foreign ''loop: invalid value'' None"

definition loopTooLarge :: cont_error where
  "loopTooLarge = Foreign ''loop: value too large'' None"

record plan_record =
  prStop :: bool
  prAfter :: int
  prSignalKey :: string
  prReason :: string

record loop_state =
  lsVersion :: int
  lsIterations :: int
  lsWorkInput :: "string option"
  lsPlannerState :: "string option"
  lsLast :: "plan_record option"

record plan_request =
  pqIteration :: int
  pqWorkInput :: "string option"
  pqEvidence :: "string option"
  pqPlannerState :: "string option"
  pqAttempt :: int
  pqActivation :: "activation option"
  pqLimits :: limits
  pqAccounting :: accounting
  pqPrevious :: "plan_record option"

record plan =
  plStop :: bool
  plAfter :: int
  plSignalKey :: string
  plReason :: string
  plPlannerState :: "string option"
  plNextWorkInput :: "string option"
  plOutput :: "string option"
  plUsage :: usage

type_synonym planner = "plan_request \<Rightarrow> plan \<times> cont_error option"

definition zero_plan_record :: plan_record where
  "zero_plan_record = \<lparr>prStop = False, prAfter = 0, prSignalKey = [], prReason = []\<rparr>"

definition zero_loop_state :: loop_state where
  "zero_loop_state = \<lparr>lsVersion = 0, lsIterations = 0, lsWorkInput = None, lsPlannerState = None, lsLast = None\<rparr>"

definition zero_plan :: plan where
  "zero_plan = \<lparr>plStop = False, plAfter = 0, plSignalKey = [], plReason = [], plPlannerState = None,
     plNextWorkInput = None, plOutput = None, plUsage = zero_usage\<rparr>"

subsection \<open>Validation\<close>

definition validateReason_l :: "string \<Rightarrow> bool \<Rightarrow> cont_error option" where
  "validateReason_l reason required = first_err
     [fail_if (required \<and> blank reason) loopInvalid, fail_if (len reason > 4096) loopTooLarge]"

definition validateJSON_l :: "string option \<Rightarrow> cont_error option" where
  "validateJSON_l v = (case v of None \<Rightarrow> None
     | Some s \<Rightarrow> first_err
         [fail_if (len s > 262144) loopTooLarge, fail_if (\<not> json_valid s) loopInvalid])"

definition validateSignalKey :: "string \<Rightarrow> cont_error option" where
  "validateSignalKey key = first_err
     [fail_if (len key > 256) loopTooLarge, fail_if (key \<noteq> [] \<and> blank key) loopInvalid]"

text \<open>The code ranges over a map of the three payloads; the order here is that of its literal.\<close>

definition validatePlanFields :: "plan \<Rightarrow> cont_error option" where
  "validatePlanFields p = first_err
     [validateReason_l (plReason p) True, fail_if (\<not> validUsage (plUsage p)) loopInvalid,
      validateJSON_l (plPlannerState p), validateJSON_l (plNextWorkInput p), validateJSON_l (plOutput p),
      validateSignalKey (plSignalKey p)]"

definition validatePlanAction :: "plan \<Rightarrow> cont_error option" where
  "validatePlanAction p =
     (if plStop p
      then fail_if (plAfter p \<noteq> 0 \<or> plSignalKey p \<noteq> [] \<or> plNextWorkInput p \<noteq> None) loopInvalid
      else first_err
        [fail_if (plOutput p \<noteq> None) loopInvalid, fail_if (plAfter p < 0) loopInvalid,
         fail_if (plAfter p = 0 \<and> plSignalKey p = []) loopInvalid])"

definition validatePlan :: "plan \<Rightarrow> cont_error option" where
  "validatePlan p = first_err [validatePlanFields p, validatePlanAction p]"

definition planOfRecord :: "plan_record \<Rightarrow> plan" where
  "planOfRecord r = zero_plan\<lparr>plStop := prStop r, plAfter := prAfter r, plSignalKey := prSignalKey r, plReason := prReason r\<rparr>"

definition validateRecord_l :: "plan_record \<Rightarrow> cont_error option" where
  "validateRecord_l r = first_err
     [validateReason_l (prReason r) True, validateSignalKey (prSignalKey r), validatePlanAction (planOfRecord r)]"

definition validAccounting_l :: "accounting \<Rightarrow> bool" where
  "validAccounting_l a \<longleftrightarrow> acAttempts a \<ge> 0 \<and> acTurns a \<ge> 0 \<and> acActiveDuration a \<ge> 0 \<and> validUsage (acUsage a)"

subsection \<open>JSON\<close>

definition boolText :: "bool \<Rightarrow> string" where
  "boolText b = (if b then ''true'' else ''false'')"

definition recordMembers_l :: "plan_record \<Rightarrow> (string \<times> string) list" where
  "recordMembers_l r = [(''stop'', boolText (prStop r))] @ unless_zero ''after'' (prAfter r) @
     unless_empty ''signal_key'' (prSignalKey r) @ [(''reason'', quote (prReason r))]"

definition marshalState_l :: "loop_state \<Rightarrow> string option" where
  "marshalState_l st = (case (rawField ''input'' (lsWorkInput st), rawField ''planner_state'' (lsPlannerState st)) of
       (Some w, Some p) \<Rightarrow> Some (encObj
         ([(''version'', showInt (lsVersion st)), (''iterations'', showInt (lsIterations st))] @ w @ p @
          (case lsLast st of None \<Rightarrow> [] | Some r \<Rightarrow> [(''last'', encObj (recordMembers_l r))])))
     | _ \<Rightarrow> None)"

definition marshalSummary_l :: "loop_state \<Rightarrow> plan_record \<Rightarrow> string" where
  "marshalSummary_l st r = encObj [(''iterations'', showInt (lsIterations st)), (''reason'', quote (prReason r))]"

definition encodeJSON_l :: "string \<Rightarrow> string option \<Rightarrow> cont_error + string" where
  "encodeJSON_l name data = (case data of
       None \<Rightarrow> Inl (Foreign (''loop: encode '' @ name) None)
     | Some s \<Rightarrow> guardE (validateJSON_l (Some s)) (Inr s))"

definition putRecord_l :: "string \<Rightarrow> string \<Rightarrow> plan_record \<Rightarrow> plan_record option" where
  "putRecord_l k raw r =
     (if k = ''stop'' then map_option (\<lambda>b. r\<lparr>prStop := b\<rparr>) (decBool raw (prStop r))
      else if k = ''after'' then map_option (\<lambda>n. r\<lparr>prAfter := n\<rparr>) (decInt raw (prAfter r))
      else if k = ''signal_key'' then map_option (\<lambda>s. r\<lparr>prSignalKey := s\<rparr>) (decStr raw (prSignalKey r))
      else map_option (\<lambda>s. r\<lparr>prReason := s\<rparr>) (decStr raw (prReason r)))"

definition unmarshalRecord_l :: "string \<Rightarrow> plan_record \<Rightarrow> plan_record option" where
  "unmarshalRecord_l raw r = decObj [''stop'', ''after'', ''signal_key'', ''reason''] putRecord_l raw r"

definition putState_l :: "string \<Rightarrow> string \<Rightarrow> loop_state \<Rightarrow> loop_state option" where
  "putState_l k raw st =
     (if k = ''version'' then map_option (\<lambda>n. st\<lparr>lsVersion := n\<rparr>) (decInt raw (lsVersion st))
      else if k = ''iterations'' then map_option (\<lambda>n. st\<lparr>lsIterations := n\<rparr>) (decInt raw (lsIterations st))
      else if k = ''input'' then Some (st\<lparr>lsWorkInput := Some raw\<rparr>)
      else if k = ''planner_state'' then Some (st\<lparr>lsPlannerState := Some raw\<rparr>)
      else map_option (\<lambda>p. st\<lparr>lsLast := p\<rparr>) (decPtr unmarshalRecord_l zero_plan_record raw (lsLast st)))"

definition unmarshalState_l :: "string \<Rightarrow> loop_state option" where
  "unmarshalState_l s = decObj [''version'', ''iterations'', ''input'', ''planner_state'', ''last'']
     putState_l (rawValue s) zero_loop_state"

subsection \<open>Prepare and decode\<close>

definition prepareLoop :: "string option \<Rightarrow> cont_error + (string \<times> string option)" where
  "prepareLoop input =
     guardE (validateJSON_l input)
     (bindE (encodeJSON_l ''controller state'' (marshalState_l (zero_loop_state\<lparr>lsVersion := 1, lsWorkInput := input\<rparr>)))
       (\<lambda>st. Inr (st, input)))"

definition checkState_l :: "loop_state \<Rightarrow> cont_error option" where
  "checkState_l st = first_err
     [fail_if (lsVersion st \<noteq> 1) loopInvalid, fail_if (lsIterations st < 0) loopInvalid,
      fail_if (lsLast st = None \<and> lsIterations st \<noteq> 0 \<or> lsLast st \<noteq> None \<and> lsIterations st = 0) loopInvalid,
      validateJSON_l (lsWorkInput st), validateJSON_l (lsPlannerState st),
      (case lsLast st of None \<Rightarrow> None | Some r \<Rightarrow> validateRecord_l r)]"

definition decodeState_l :: "string option \<Rightarrow> cont_error + loop_state" where
  "decodeState_l data =
     guardE (validateJSON_l data)
     (case data of None \<Rightarrow> Inl loopInvalid
      | Some s \<Rightarrow> bindE (of_opt loopInvalid (unmarshalState_l s)) (\<lambda>st. guardE (checkState_l st) (Inr st)))"

subsection \<open>The controller\<close>

definition fixedPlanner :: "int \<Rightarrow> planner" where
  "fixedPlanner interval _ = (zero_plan\<lparr>plAfter := interval, plReason := ''waiting for fixed interval''\<rparr>, None)"

text \<open>
  The wait of a plan. A year below 0 or above 9999 is an instant before or after the two bounds, in
  nanoseconds after the start of year 1; year 0 has 366 days.
\<close>

definition outsideYears :: "gtime \<Rightarrow> bool" where
  "outsideYears t \<longleftrightarrow> instant t < - (366 * 86400 * 10 ^ 9) \<or> instant t \<ge> 3652059 * 86400 * 10 ^ 9"

definition waitCondition :: "gtime \<Rightarrow> plan \<Rightarrow> cont_error + wait_condition" where
  "waitCondition clock p =
     (let notBefore = GTime (instant clock + plAfter p) 0
      in if plAfter p > 0 \<and> outsideYears notBefore then Inl loopInvalid
         else Inr \<lparr>wcNotBefore = (if plAfter p > 0 then Some notBefore else None),
           wcSignal = (if plSignalKey p \<noteq> [] then Some (plSignalKey p) else None)\<rparr>)"

definition encodeSummary_l :: "loop_state \<Rightarrow> cont_error + string" where
  "encodeSummary_l st = (case lsLast st of
       None \<Rightarrow> Inl (Panic ''nil dereference'')
     | Some r \<Rightarrow> encodeJSON_l ''summary'' (Some (marshalSummary_l st r)))"

definition planRequestOf :: "loop_state \<Rightarrow> decision_request \<Rightarrow> plan_request" where
  "planRequestOf st q =
     \<lparr>pqIteration = lsIterations st + 1, pqWorkInput = lsWorkInput st, pqEvidence = wrValue (dqWork q),
      pqPlannerState = lsPlannerState st, pqAttempt = dqAttempt q, pqActivation = dqActivation q,
      pqLimits = dqLimits q, pqAccounting = dqAccounting q, pqPrevious = lsLast st\<rparr>"

definition plannedState :: "loop_state \<Rightarrow> plan \<Rightarrow> loop_state" where
  "plannedState st p =
     st\<lparr>lsIterations := lsIterations st + 1,
        lsLast := Some \<lparr>prStop = plStop p, prAfter = plAfter p, prSignalKey = plSignalKey p, prReason = plReason p\<rparr>,
        lsPlannerState := (if plPlannerState p \<noteq> None then plPlannerState p else lsPlannerState st),
        lsWorkInput := (if plNextWorkInput p \<noteq> None then plNextWorkInput p else lsWorkInput st)\<rparr>"

text \<open>A stopping plan may return a decision beside the error of its summary.\<close>

definition planDecision :: "gtime \<Rightarrow> loop_state \<Rightarrow> plan \<Rightarrow> decision \<Rightarrow> decision \<times> cont_error option" where
  "planDecision clock st p d =
     (if plStop p then
        (let d1 = d\<lparr>dcAction := ActionComplete, dcOutput := plOutput p\<rparr>
         in if plOutput p \<noteq> None then (d1, None)
            else case encodeSummary_l st of
                Inl e \<Rightarrow> (d1, Some e)
              | Inr x \<Rightarrow> (d1\<lparr>dcOutput := Some x\<rparr>, None))
      else case waitCondition clock p of
          Inl e \<Rightarrow> (zero_decision, Some e)
        | Inr w \<Rightarrow> (d\<lparr>dcAction := ActionWait, dcNextInput := lsWorkInput st, dcWait := Some w\<rparr>, None))"

definition planOn :: "gtime \<Rightarrow> loop_state \<Rightarrow> plan \<Rightarrow> decision \<times> cont_error option" where
  "planOn clock st p = (case validatePlan p of
       Some e \<Rightarrow> (zero_decision, Some e)
     | None \<Rightarrow>
        (let st1 = plannedState st p
         in case encodeJSON_l ''controller state'' (marshalState_l st1) of
              Inl e \<Rightarrow> (zero_decision, Some e)
            | Inr data \<Rightarrow> planDecision clock st1 p
                (zero_decision\<lparr>dcReason := plReason p, dcState := Some data, dcUsage := plUsage p\<rparr>)))"

definition loopDecide :: "planner \<Rightarrow> gtime \<Rightarrow> decision_request \<Rightarrow> decision \<times> cont_error option" where
  "loopDecide pl clock q = (case decodeState_l (dqState q) of
       Inl e \<Rightarrow> (zero_decision, Some e)
     | Inr st \<Rightarrow>
        (if lsIterations st = 2 ^ 63 - 1 then (zero_decision, Some loopInvalid)
         else case pl (planRequestOf st q) of (p, err) \<Rightarrow>
           (case err of
              Some e \<Rightarrow> (zero_decision, Some (Foreign ''loop: plan next activation'' (Some e)))
            | None \<Rightarrow> planOn clock st p)))"

text \<open>A constructor option replaces the clock; a nil clock or option is refused.\<close>

type_synonym 'c controller_option = "'c \<Rightarrow> cont_error + 'c"

definition withClock :: "'c option \<Rightarrow> 'c controller_option" where
  "withClock clock config = of_opt loopInvalid clock"

fun controllerOptions :: "'c controller_option option list \<Rightarrow> 'c \<Rightarrow> cont_error + 'c" where
  "controllerOptions [] config = Inr config"
| "controllerOptions (opt # opts) config = (case opt of
       None \<Rightarrow> Inl loopInvalid
     | Some f \<Rightarrow> bindE (f config) (controllerOptions opts))"

definition newLoopController :: "gtime \<Rightarrow> planner option \<Rightarrow> gtime controller_option option list \<Rightarrow>
    cont_error + (decision_request \<Rightarrow> decision \<times> cont_error option)" where
  "newLoopController system pl opts = (case pl of None \<Rightarrow> Inl loopInvalid
     | Some f \<Rightarrow> bindE (controllerOptions opts system) (\<lambda>clock. Inr (loopDecide f clock)))"

definition every :: "gtime \<Rightarrow> int \<Rightarrow> gtime controller_option option list \<Rightarrow>
    cont_error + (decision_request \<Rightarrow> decision \<times> cont_error option)" where
  "every system interval opts =
     (if interval \<le> 0 then Inl loopInvalid else newLoopController system (Some (fixedPlanner interval)) opts)"

subsection \<open>The model planner\<close>

record model_config =
  mcMinimumDelay :: int
  mcMaximumDelay :: int
  mcMaxTokens :: int

definition default_model_config :: model_config where
  "default_model_config = \<lparr>mcMinimumDelay = 60 * 10 ^ 9, mcMaximumDelay = 3600 * 10 ^ 9, mcMaxTokens = 0\<rparr>"

definition withDelayBounds :: "int \<Rightarrow> int \<Rightarrow> model_config \<Rightarrow> cont_error + model_config" where
  "withDelayBounds minimum maximum config =
     guardE (fail_if (minimum \<le> 0 \<or> maximum < minimum \<or> minimum mod 10 ^ 9 \<noteq> 0 \<or> maximum mod 10 ^ 9 \<noteq> 0) loopInvalid)
     (Inr (config\<lparr>mcMinimumDelay := minimum, mcMaximumDelay := maximum\<rparr>))"

definition withMaxTokens_l :: "int \<Rightarrow> model_config \<Rightarrow> cont_error + model_config" where
  "withMaxTokens_l maxTokens config = guardE (fail_if (maxTokens \<le> 0) loopInvalid) (Inr (config\<lparr>mcMaxTokens := maxTokens\<rparr>))"

record plan_output =
  poStop :: bool
  poDelaySeconds :: int
  poReason :: string

text \<open>The request as the model reads it; a nil payload without \<^verbatim>\<open>omitempty\<close> is \<^verbatim>\<open>null\<close>.\<close>

definition rawOrNull :: "string option \<Rightarrow> string option" where
  "rawOrNull v = (case v of None \<Rightarrow> Some ''null'' | Some s \<Rightarrow> if json_valid s then Some (compact False s) else None)"

definition marshalAccounting :: "accounting \<Rightarrow> string" where
  "marshalAccounting a = encObj
     [(''attempts'', showInt (acAttempts a)), (''turns'', showInt (acTurns a)),
      (''usage'', encObj
        [(''InputTokens'', showInt (InputTokens (acUsage a))), (''OutputTokens'', showInt (OutputTokens (acUsage a))),
         (''ReasoningTokens'', showInt (ReasoningTokens (acUsage a))),
         (''CachedInputTokens'', showInt (CachedInputTokens (acUsage a))),
         (''CacheWriteTokens'', showInt (CacheWriteTokens (acUsage a)))]),
      (''active_duration'', showInt (acActiveDuration a))]"

definition marshalPlanInput :: "model_config \<Rightarrow> plan_request \<Rightarrow> string option" where
  "marshalPlanInput config q =
     (case (rawOrNull (pqWorkInput q), rawOrNull (pqEvidence q), rawOrNull (pqPlannerState q)) of
        (Some w, Some e, Some p) \<Rightarrow> Some (encObj
          ([(''iteration'', showInt (pqIteration q)), (''input'', w), (''evidence'', e), (''planner_state'', p),
            (''accounting'', marshalAccounting (pqAccounting q))] @
           (case pqPrevious q of None \<Rightarrow> [] | Some r \<Rightarrow> [(''previous'', encObj (recordMembers_l r))]) @
           [(''minimum_delay_seconds'', showInt (mcMinimumDelay config div 10 ^ 9)),
            (''maximum_delay_seconds'', showInt (mcMaximumDelay config div 10 ^ 9))]))
      | _ \<Rightarrow> None)"

definition planRequestCheck :: "plan_request \<Rightarrow> cont_error option" where
  "planRequestCheck q = first_err
     [fail_if (pqIteration q \<le> 0) loopInvalid,
      (case pqPrevious q of None \<Rightarrow> None | Some r \<Rightarrow> validateRecord_l r),
      fail_if (\<not> validAccounting_l (pqAccounting q)) loopInvalid,
      fail_if (liMaxTokens (pqLimits q) < 0) loopInvalid,
      validateJSON_l (pqWorkInput q), validateJSON_l (pqEvidence q), validateJSON_l (pqPlannerState q)]"

definition encodeRequest :: "model_config \<Rightarrow> plan_request \<Rightarrow> cont_error + string" where
  "encodeRequest config q =
     guardE (planRequestCheck q)
     (case marshalPlanInput config q of
        None \<Rightarrow> Inl (Foreign ''loop: encode model plan input'' None)
      | Some s \<Rightarrow> guardE (fail_if (len s > 786432) loopTooLarge) (Inr s))"

definition responseMaxTokens_l :: "model_config \<Rightarrow> plan_request \<Rightarrow> cont_error + int option" where
  "responseMaxTokens_l config q =
     (if mcMaxTokens config = 0 then Inr None
      else if liMaxTokens (pqLimits q) = 0 then Inr (Some (mcMaxTokens config))
      else (let left = i64 (liMaxTokens (pqLimits q) - tokens (pqAccounting q))
        in if left \<le> 0 then Inl loopInvalid else Inr (Some (min (mcMaxTokens config) left))))"

definition planFromOutput :: "model_config \<Rightarrow> plan_output \<Rightarrow> usage \<Rightarrow> plan \<times> cont_error option" where
  "planFromOutput config out u =
     (let p = zero_plan\<lparr>plStop := poStop out, plReason := poReason out, plUsage := u\<rparr>
      in case validateReason_l (poReason out) True of
           Some e \<Rightarrow> (p, Some e)
         | None \<Rightarrow>
            if poStop out then (p, fail_if (poDelaySeconds out \<noteq> 0) loopInvalid)
            else if poDelaySeconds out \<le> 0 \<or> poDelaySeconds out > (2 ^ 63 - 1) div 10 ^ 9 then (p, Some loopInvalid)
            else (let p1 = p\<lparr>plAfter := poDelaySeconds out * 10 ^ 9\<rparr>
              in (p1, fail_if (plAfter p1 < mcMinimumDelay config \<or> plAfter p1 > mcMaximumDelay config) loopInvalid)))"

text \<open>The call of the model, \<^verbatim>\<open>ai.GenerateTyped\<close> with the fixed schema and system prompt.\<close>

type_synonym plan_call = "string \<Rightarrow> int option \<Rightarrow> plan_output \<times> usage option \<times> cont_error option"

definition modelPlan :: "plan_call \<Rightarrow> model_config \<Rightarrow> planner" where
  "modelPlan gen config q =
     (case bindE (encodeRequest config q) (\<lambda>s. bindE (responseMaxTokens_l config q) (\<lambda>cap. Inr (s, cap))) of
        Inl e \<Rightarrow> (zero_plan, Some e)
      | Inr (s, cap) \<Rightarrow>
         (case gen s cap of (out, response, err) \<Rightarrow>
            (case err of
               Some e \<Rightarrow> (zero_plan\<lparr>plUsage := (case response of None \<Rightarrow> zero_usage | Some u \<Rightarrow> u)\<rparr>,
                 Some (Foreign ''loop: generate plan'' (Some e)))
             | None \<Rightarrow> (case response of None \<Rightarrow> (zero_plan, Some (Panic ''nil response''))
                 | Some u \<Rightarrow> planFromOutput config out u))))"

fun modelOptions :: "(model_config \<Rightarrow> cont_error + model_config) option list \<Rightarrow> model_config \<Rightarrow> cont_error + model_config" where
  "modelOptions [] config = Inr config"
| "modelOptions (opt # opts) config = (case opt of
       None \<Rightarrow> Inl loopInvalid
     | Some f \<Rightarrow> bindE (f config) (modelOptions opts))"

definition newModelPlanner ::
    "plan_call option \<Rightarrow> (model_config \<Rightarrow> cont_error + model_config) option list \<Rightarrow> cont_error + planner" where
  "newModelPlanner model opts = (case model of None \<Rightarrow> Inl loopInvalid
     | Some gen \<Rightarrow> bindE (modelOptions opts default_model_config) (\<lambda>config. Inr (modelPlan gen config)))"

subsection \<open>What the loop controller guarantees\<close>

lemma validateJSON_l_c [chk]: "validateJSON_l v = None \<longleftrightarrow> validateJSON_c v 262144 = None"
  by (cases v) (simp_all add: validateJSON_l_def validateJSON_c_def)

lemma encodeJSON_l_ok: "encodeJSON_l name data = Inr s \<Longrightarrow> validateJSON_c (Some s) 262144 = None \<and> data = Some s"
  by (auto simp: encodeJSON_l_def validateJSON_l_c split: option.splits)

lemma blank_Nil: "s = [] \<Longrightarrow> blank s"
  by simp

text \<open>
  A wait has a time or a signal; the time is not the zero time unless the clock is as far before it
  as the delay is long.
\<close>

lemma planDecision_valid:
  assumes "planDecision clock st p d = (e, None)" "validatePlan p = None" "validateDecisionFields d = None"
    "dcWait d = None" "dcBlock d = None" "validateJSON_l (lsWorkInput st) = None"
    "plAfter p > 0 \<longrightarrow> instant clock + plAfter p \<noteq> 0"
  shows "validateDecision e = None"
proof (cases "plStop p")
  case True
  with assms show ?thesis
    by (auto simp: planDecision_def Let_def encodeSummary_l_def validateDecision_def validateDecisionFields_def
        validateDecisionAction_def validatePlan_def validatePlanFields_def validateJSON_l_c
        split: if_splits sum.splits option.splits dest!: encodeJSON_l_ok)
next
  case False
  with assms obtain w where w: "waitCondition clock p = Inr w"
    "e = d\<lparr>dcAction := ActionWait, dcNextInput := lsWorkInput st, dcWait := Some w\<rparr>"
    by (auto simp: planDecision_def split: sum.splits)
  have p: "plAfter p > 0 \<or> plSignalKey p \<noteq> []" "plSignalKey p \<noteq> [] \<longrightarrow> \<not> blank (plSignalKey p)"
    using assms(2) False by (auto simp: validatePlan_def validatePlanAction_def validatePlanFields_def validateSignalKey_def)
  then have "validateWait (Some w) = None"
    using w(1) assms(7) by (auto simp: waitCondition_def Let_def validateWait_def isZero_def split: if_splits)
  with assms w(2) show ?thesis
    by (auto simp: validateDecision_def validateDecisionFields_def validateDecisionAction_def validateJSON_l_c)
qed

lemma loopDecide_valid:
  assumes "loopDecide pl clock q = (d, None)" "\<And>st. let p = fst (pl (planRequestOf st q))
      in plAfter p > 0 \<longrightarrow> instant clock + plAfter p \<noteq> 0"
  shows "validateDecision d = None"
proof -
  from assms(1) obtain st p where st: "decodeState_l (dqState q) = Inr st" "pl (planRequestOf st q) = (p, None)"
    and p: "planOn clock st p = (d, None)"
    by (auto simp: loopDecide_def split: sum.splits if_splits prod.splits option.splits)
  from p obtain data where v: "validatePlan p = None"
    and e: "encodeJSON_l ''controller state'' (marshalState_l (plannedState st p)) = Inr data"
    and o: "planDecision clock (plannedState st p) p
      (zero_decision\<lparr>dcReason := plReason p, dcState := Some data, dcUsage := plUsage p\<rparr>) = (d, None)"
    by (auto simp: planOn_def Let_def split: option.splits sum.splits)
  have w: "validateJSON_l (lsWorkInput (plannedState st p)) = None"
    using v st(1) by (auto simp: plannedState_def validatePlan_def validatePlanFields_def decodeState_l_def checkState_l_def okE
        split: option.splits)
  have z: "validateReason_c (plReason p) = None" "validUsage (plUsage p)"
    using v by (auto simp: validatePlan_def validatePlanFields_def validateReason_l_def validateReason_c_def)
  have "instant clock + plAfter p \<noteq> 0" if "plAfter p > 0" using assms(2) [of st] st(2) that by simp
  then show ?thesis
    using planDecision_valid [OF o v _ _ _ w] z encodeJSON_l_ok [OF e]
    by (simp add: zero_decision_def validateDecisionFields_def validateJSON_c_def)
qed

lemma loop_controller: "0 \<le> instant clock \<Longrightarrow> cont_controller (loopDecide pl clock)"
  by unfold_locales (auto simp: Let_def intro: loopDecide_valid)

interpretation everyc: cont_controller "loopDecide (fixedPlanner n) (GTime (int t) 0)" for n t
  by (rule loop_controller) simp

lemma wait_key:
  assumes "loopDecide pl clock q = (d, None)" "dcWait d = Some w" "wcSignal w = Some k"
  shows "\<exists>st. decodeState_l (dqState q) = Inr st \<and> k = plSignalKey (fst (pl (planRequestOf st q))) \<and> k \<noteq> [] \<and> len k \<le> 256"
proof -
  from assms(1) obtain st p where st: "decodeState_l (dqState q) = Inr st" "pl (planRequestOf st q) = (p, None)"
    and p: "planOn clock st p = (d, None)"
    by (auto simp: loopDecide_def split: sum.splits if_splits prod.splits option.splits)
  from p assms(2,3) show ?thesis using st
    by (auto simp: planOn_def planDecision_def waitCondition_def zero_decision_def Let_def validatePlan_def validatePlanFields_def
        validateSignalKey_def split: option.splits sum.splits if_splits)
qed

text \<open>A model plan without an error is one the controller accepts, with a delay within the bounds.\<close>

lemma planFromOutput_ok:
  assumes "planFromOutput config out u = (p, None)" "validUsage u" "0 < mcMinimumDelay config"
  shows "validatePlan p = None" "plStop p \<or> mcMinimumDelay config \<le> plAfter p \<and> plAfter p \<le> mcMaximumDelay config \<and> plAfter p < 2 ^ 63"
proof -
  have "plAfter p < 2 ^ 63" if "plStop p = False"
  proof -
    have "poDelaySeconds out \<le> (2 ^ 63 - 1) div 10 ^ 9" "plAfter p = poDelaySeconds out * 10 ^ 9"
      using assms(1) that by (auto simp: planFromOutput_def Let_def zero_plan_def split: option.splits if_splits)
    then show ?thesis by simp
  qed
  with assms show "plStop p \<or> mcMinimumDelay config \<le> plAfter p \<and> plAfter p \<le> mcMaximumDelay config \<and> plAfter p < 2 ^ 63"
    by (auto simp: planFromOutput_def Let_def split: option.splits if_splits)
  show "validatePlan p = None"
    using assms by (auto simp: planFromOutput_def Let_def zero_plan_def validatePlan_def validatePlanFields_def
      validatePlanAction_def validateSignalKey_def validateJSON_l_def split: option.splits if_splits)
qed

end
