(* ===== verification/GoJsonLaws.thy ===== *)
theory GoJsonLaws
  imports GoJson
begin

section \<open>What is encoded is decoded\<close>

text \<open>
  A quoted string decodes to itself when it is valid UTF-8, an encoded integer to itself, and the
  members of an encoded object are its fields; an encoded object is a valid JSON text.
\<close>

subsection \<open>Runes\<close>

lemma rune_width_bounds: "rune_width (c # t) = Some n \<Longrightarrow> 1 \<le> n \<and> n \<le> Suc (length t)"
  by (auto simp: rune_width_def split: if_splits list.splits)

lemma rune_width_prefix:
  "rune_width (c # t) = Some n \<Longrightarrow> rune_width (c # take (n - 1) t @ r) = Some n"
  by (auto simp: rune_width_def numeral_2_eq_2 split: if_splits list.splits)

lemma rune_width_ascii: "code c < 128 \<Longrightarrow> rune_width (c # t) = Some 1"
  by (simp add: rune_width_def)

text \<open>Every byte of a rune of two or more bytes is above ASCII.\<close>

lemma rune_bytes:
  "rune_width (c # t) = Some n \<Longrightarrow> 128 \<le> code c \<Longrightarrow> x \<in> set (c # take (n - 1) t) \<Longrightarrow> 128 \<le> code x"
  by (auto simp: rune_width_def is_cont_def numeral_2_eq_2 split: if_splits list.splits)

text \<open>The string with every invalid byte replaced.\<close>

function clean :: "string \<Rightarrow> string" where
  "clean [] = []"
| "clean (c # t) = (case rune_width (c # t) of
       None \<Rightarrow> replacement @ clean t
     | Some n \<Rightarrow> c # take (n - 1) t @ clean (drop (n - 1) t))"
  by pat_completeness auto
termination clean
  by (relation "measure length") auto

lemma clean_ok: "utf8_ok s \<Longrightarrow> clean s = s"
  by (induction s rule: clean.induct) (auto split: option.splits)

subsection \<open>A quoted string\<close>

lemma hex_digit: "n < 16 \<Longrightarrow> is_hex (hexDigit n) \<and> hexVal (hexDigit n) = n"
  by (auto simp: is_hex_def is_digit_def hexVal_def hexDigit_def)

lemma getu4_byte:
  "code c < 256 \<Longrightarrow> getu4 (CHR ''0'' # CHR ''0'' # hexDigit (code c div 16) # hexDigit (code c mod 16) # r) = Some (code c)"
  by (simp add: getu4_def hex_digit less_mult_imp_div_less, simp add: is_hex_def is_digit_def hexVal_def)

lemma unesc_byte:
  assumes "code c < 128"
  shows "unesc (escByte c @ r) = map_option ((#) c) (unesc r)"
proof (cases "c = quotC \<or> c = bslash \<or> code c \<in> {8, 9, 10, 12, 13}")
  case True
  then have "c \<in> {quotC, bslash, CHR 8, CHR 9, CHR 10, CHR 12, CHR 13}"
    by (simp flip: of_char_eq_iff [where 'a = nat])
  then show ?thesis by (elim insertE emptyE) (simp_all add: escByte_def simpleEscape_def)
next
  case False
  show ?thesis
  proof (cases "code c < 32 \<or> c = CHR ''<'' \<or> c = CHR ''>'' \<or> c = CHR ''&''")
    case True
    have u: "unicodeEscape (CHR ''0'' # CHR ''0'' # hexDigit (code c div 16) # hexDigit (code c mod 16) # r) = Some ([c], 4)"
      using assms by (simp add: unicodeEscape_def getu4_byte is_surrogate_def utf8_def)
    have "escByte c = [bslash, CHR ''u'', CHR ''0'', CHR ''0'', hexDigit (code c div 16), hexDigit (code c mod 16)]"
      using True False by (simp add: escByte_def)
    moreover have "(@) [c] = (#) c" by auto
    ultimately show ?thesis by (simp add: u)
  next
    case c: False
    then have "escByte c = [c]" using False by (simp add: escByte_def)
    then show ?thesis using c False assms by simp
  qed
qed

lemma utf8_separators: "utf8 0x2028 = [CHR 0xE2, CHR 0x80, CHR 0xA8]" "utf8 0x2029 = [CHR 0xE2, CHR 0x80, CHR 0xA9]"
  "utf8 0xFFFD = replacement"
  by (simp_all add: utf8_def replacement_def char_of_def bit_0)

lemma line_separators:
  "unicodeEscape (''2028'' @ r) = Some ([CHR 0xE2, CHR 0x80, CHR 0xA8], 4)"
  "unicodeEscape (''2029'' @ r) = Some ([CHR 0xE2, CHR 0x80, CHR 0xA9], 4)"
  "unicodeEscape (''fffd'' @ r) = Some (replacement, 4)"
  by (simp_all add: unicodeEscape_def getu4_def is_hex_def is_digit_def hexVal_def is_surrogate_def utf8_separators)

lemma unesc_rune:
  assumes "rune_width (c # t) = Some n" "128 \<le> code c"
  shows "unesc (escRune (c # take (n - 1) t) @ r) = map_option ((@) (c # take (n - 1) t)) (unesc r)"
proof -
  have "length (take (n - 1) t) = n - 1" using rune_width_bounds [OF assms(1)] by auto
  then have "unesc (c # take (n - 1) t @ r) = map_option ((@) (c # take (n - 1) t)) (unesc r)"
    using assms by (simp add: rune_width_prefix [simplified]) (auto dest: arg_cong [of _ _ of_char])
  moreover have "unesc (bslash # CHR ''u'' # ''2028'' @ r) = map_option ((@) [CHR 0xE2, CHR 0x80, CHR 0xA8]) (unesc r)"
    "unesc (bslash # CHR ''u'' # ''2029'' @ r) = map_option ((@) [CHR 0xE2, CHR 0x80, CHR 0xA9]) (unesc r)"
    by (simp_all add: line_separators [simplified])
  ultimately show ?thesis by (simp add: escRune_def)
qed

lemma unesc_esc: "unesc (esc s) = Some (clean s)"
proof (induction s rule: esc.induct)
  case (2 c t)
  show ?case
  proof (cases "code c < 128")
    case True
    then show ?thesis using 2(1) by (simp add: unesc_byte rune_width_ascii)
  next
    case False
    show ?thesis
    proof (cases "rune_width (c # t)")
      case None
      then show ?thesis using False 2(2) line_separators(3) by simp
    next
      case (Some n)
      then show ?thesis using False 2(3) by (simp add: unesc_rune [simplified])
    qed
  qed
qed simp

subsection \<open>A quoted string is read as one value\<close>

text \<open>The pieces an escaped string is made of leave a reader inside the string.\<close>

definition inside :: "string \<Rightarrow> bool" where
  "inside p \<longleftrightarrow> (\<forall>r. strlit (p @ r) = (p @ fst (strlit r), snd (strlit r))) \<and>
     (\<forall>st. foldl scan_step (SInString, st) p = (SInString, st))"

lemma inside_Nil: "inside []"
  by (simp add: inside_def)

lemma inside_append: "inside p \<Longrightarrow> inside q \<Longrightarrow> inside (p @ q)"
  by (simp add: inside_def)

lemma strlit_plain: "c \<noteq> quotC \<Longrightarrow> c \<noteq> bslash \<Longrightarrow> strlit (c # t) = (c # fst (strlit t), snd (strlit t))"
  by (cases t) simp_all

lemma inside_plain: "(\<And>c. c \<in> set p \<Longrightarrow> c \<noteq> quotC \<and> c \<noteq> bslash \<and> 32 \<le> code c) \<Longrightarrow> inside p"
proof (induction p)
  case (Cons c p)
  then have "inside p" "c \<noteq> quotC" "c \<noteq> bslash" "32 \<le> code c" by auto
  moreover have "code c \<noteq> 34" "code c \<noteq> 92" using \<open>c \<noteq> quotC\<close> \<open>c \<noteq> bslash\<close>
    by (simp_all flip: of_char_eq_iff [where 'a = nat])
  ultimately show ?case by (simp add: inside_def strlit_plain)
qed (rule inside_Nil)

lemma escape_step:
  "e \<in> {quotC, bslash, CHR ''b'', CHR ''f'', CHR ''n'', CHR ''r'', CHR ''t''} \<Longrightarrow>
     scan_step (SInStringEsc, st) e = (SInString, st)"
  by (elim insertE emptyE) simp_all

lemma backslash_step: "scan_step (SInString, st) bslash = (SInStringEsc, st)"
  by simp

lemma inside_escape:
  assumes "e \<in> {quotC, bslash, CHR ''b'', CHR ''f'', CHR ''n'', CHR ''r'', CHR ''t''}"
  shows "inside [bslash, e]"
  unfolding inside_def foldl_Cons foldl_Nil backslash_step escape_step [OF assms] by simp

lemma inside_unicode:
  assumes "is_hex a" "is_hex b" "is_hex c" "is_hex d"
  shows "inside [bslash, CHR ''u'', a, b, c, d]"
proof -
  have n: "x \<noteq> quotC \<and> x \<noteq> bslash" if "is_hex x" for x using that by (auto simp: is_hex_def is_digit_def)
  have "strlit ([a, b, c, d] @ r) = ([a, b, c, d] @ fst (strlit r), snd (strlit r))" for r
    using n [OF assms(1)] n [OF assms(2)] n [OF assms(3)] n [OF assms(4)] by (simp add: strlit_plain)
  then have "strlit ([bslash, CHR ''u'', a, b, c, d] @ r) = ([bslash, CHR ''u'', a, b, c, d] @ fst (strlit r), snd (strlit r))" for r
    by simp
  moreover have "foldl scan_step (SInString, st) [bslash, CHR ''u'', a, b, c, d] = (SInString, st)" for st
    using assms by (simp add: eval_nat_numeral)
  ultimately show ?thesis by (simp add: inside_def)
qed

lemma inside_byte:
  assumes "code c < 128" shows "inside (escByte c)"
proof -
  consider "c = quotC \<or> c = bslash" | "code c \<in> {8, 9, 10, 12, 13}"
    | "escByte c = [bslash, CHR ''u'', CHR ''0'', CHR ''0'', hexDigit (code c div 16), hexDigit (code c mod 16)]"
    | "escByte c = [c]" "c \<noteq> quotC" "c \<noteq> bslash" "32 \<le> code c"
    by (cases "c = quotC \<or> c = bslash"; cases "code c \<in> {8, 9, 10, 12, 13}";
      cases "code c < 32 \<or> c = CHR ''<'' \<or> c = CHR ''>'' \<or> c = CHR ''&''") (simp_all add: escByte_def)
  then show ?thesis
  proof cases
    case 1
    then show ?thesis by (auto simp: escByte_def intro: inside_escape)
  next
    case 2
    then show ?thesis by (auto simp: escByte_def intro: inside_escape)
  next
    case 3
    then show ?thesis using assms by (auto intro!: inside_unicode simp: hex_digit less_mult_imp_div_less)
      (simp_all add: is_hex_def is_digit_def)
  next
    case 4
    then show ?thesis by (auto intro: inside_plain)
  qed
qed

lemma inside_rune:
  assumes "rune_width (c # t) = Some n" "128 \<le> code c"
  shows "inside (escRune (c # take (n - 1) t))"
proof -
  have "inside (c # take (n - 1) t)" using rune_bytes [OF assms] by (intro inside_plain) force
  moreover have "inside (bslash # CHR ''u'' # ''2028'')" "inside (bslash # CHR ''u'' # ''2029'')"
    by (intro inside_unicode; simp add: is_hex_def is_digit_def)+
  ultimately show ?thesis by (simp add: escRune_def)
qed

lemma inside_esc: "inside (esc s)"
proof (induction s rule: esc.induct)
  case (2 c t)
  have f: "inside (bslash # CHR ''u'' # ''fffd'')" by (intro inside_unicode; simp add: is_hex_def is_digit_def)
  from 2 inside_append [OF inside_byte [of c]] inside_append [OF inside_rune [of c t]] inside_append [OF f]
  show ?case by (auto split: option.splits)
qed (simp add: inside_Nil)

lemma strlit_esc: "strlit (esc s @ quotC # r) = (esc s, r)"
  using inside_esc [of s] by (cases r) (simp_all add: inside_def)

subsection \<open>A value among the members of an object\<close>

text \<open>
  \<open>jval n v\<close>: \<open>v\<close> is the text of one value, of nesting depth at most \<open>n\<close>. It is taken whole from
  the head of a text, it leaves the count of open brackets, and the scanner passes over it.
\<close>

definition jval :: "nat \<Rightarrow> string \<Rightarrow> bool" where
  "jval n v \<longleftrightarrow> v \<noteq> [] \<and> \<not> json_space (hd v) \<and>
     (\<forall>c r. c \<in> {CHR '','', CHR ''}''} \<longrightarrow> takeValue (v @ c # r) = (v, c # r)) \<and>
     (\<forall>d c r. c \<in> {CHR '','', CHR ''}''} \<longrightarrow> 1 \<le> d \<longrightarrow>
        nest d (v @ c # r) = (v @ fst (nest d (c # r)), snd (nest d (c # r)))) \<and>
     (\<forall>st c. c \<in> {CHR '','', CHR ''}''} \<longrightarrow> st \<noteq> [] \<longrightarrow> length st + n \<le> 10000 \<longrightarrow>
        scan_step (foldl scan_step (SBeginValue, st) v) c = end_value st c)"

lemma jval_quote: "jval n (quote s)"
proof -
  have "strlit (esc s @ quotC # c # r) = (esc s, c # r)" for c r by (rule strlit_esc)
  then show ?thesis using inside_esc [of s]
    by (auto simp: jval_def quote_def takeValue_def case_prod_beta inside_def json_space_def begin_value_def)
qed

subsection \<open>Integers\<close>

lemma showNat_digits: "showNat n \<noteq> [] \<and> list_all is_digit (showNat n)"
proof (induction n rule: showNat.induct)
  case (1 n)
  have d: "is_digit (char_of (48 + k))" if "k < 10" for k :: nat using that by (simp add: is_digit_def)
  show ?case
  proof (cases "n < 10")
    case True
    then show ?thesis by (simp add: showNat.simps [of n] d)
  next
    case False
    then show ?thesis using 1 d [of "n mod 10"] by (simp add: showNat.simps [of n])
  qed
qed

lemma readNat_show [simp]: "readNat (showNat n) = n"
proof (induction n rule: showNat.induct)
  case (1 n)
  then show ?case by (subst showNat.simps) (auto simp: readNat_def)
qed

lemma digit_facts: "is_digit c \<Longrightarrow> c \<noteq> quotC \<and> c \<noteq> CHR ''-'' \<and> c \<noteq> CHR ''n'' \<and> c \<noteq> CHR ''{'' \<and> c \<noteq> CHR ''}''
    \<and> c \<noteq> CHR ''['' \<and> c \<noteq> CHR '']'' \<and> c \<noteq> CHR '','' \<and> \<not> json_space c \<and> lit_char c"
  by (auto simp: is_digit_def json_space_def lit_char_def)

lemma showNat_head: "\<exists>c t. showNat n = c # t \<and> is_digit c"
  using showNat_digits [of n] by (cases "showNat n") auto

lemma decInt_show: "0 \<le> n \<Longrightarrow> n < 2 ^ 63 \<Longrightarrow> decInt (showInt n) x = Some n"
proof -
  assume n: "0 \<le> n" "n < 2 ^ 63"
  obtain c t where c: "showNat (nat n) = c # t" "is_digit c" using showNat_head by blast
  then have "showNat (nat n) \<noteq> ''null''" "take 1 (showNat (nat n)) \<noteq> ''-''" by (auto dest: digit_facts)
  then show ?thesis using n showNat_digits [of "nat n"] by (simp add: decInt_def showInt_def Let_def)
qed

text \<open>A number has no leading zero: the scanner reads it in its integer states.\<close>

lemma scan_digits: "list_all is_digit ds \<Longrightarrow> foldl scan_step (SInt, st) ds = (SInt, st)"
  by (induction ds) auto

lemma showNat_first: "n \<noteq> 0 \<Longrightarrow> \<exists>c t. showNat n = c # t \<and> is_digit c \<and> c \<noteq> CHR ''0''"
proof (induction n rule: showNat.induct)
  case (1 n)
  show ?case
  proof (cases "n < 10")
    case True
    have "char_of (48 + n) \<noteq> CHR ''0''" using True 1(2)
      by (simp add: is_digit_def flip: of_char_eq_iff [where 'a = nat])
    moreover have "is_digit (char_of (48 + n))" using True by (simp add: is_digit_def)
    ultimately show ?thesis using True by (simp add: showNat.simps [of n])
  next
    case False
    then have "n div 10 \<noteq> 0" by simp
    with 1(1) [OF False this] False show ?thesis by (force simp: showNat.simps [of n])
  qed
qed

lemma scan_showNat:
  assumes "c \<in> {CHR '','', CHR ''}''}"
  shows "scan_step (foldl scan_step (SBeginValue, st) (showNat n)) c = end_value st c"
proof (cases "n = 0")
  case True
  then have "showNat n = ''0''" by (simp add: showNat.simps [of 0] char_of_def bit_0)
  then show ?thesis using assms by (auto simp: begin_value_def json_space_def scan_zero_def)
next
  case False
  then obtain d t where d: "showNat n = d # t" "is_digit d" "d \<noteq> CHR ''0''" using showNat_first by blast
  have t: "list_all is_digit t" using showNat_digits [of n] d by simp
  have "scan_step (SBeginValue, st) d = (SInt, st)" using d digit_facts [OF d(2)] by (auto simp: begin_value_def is_digit_def)
  then show ?thesis using assms d scan_digits [OF t] by (auto simp: scan_zero_def is_digit_def)
qed

lemma nest_lit:
  "list_all is_digit ds \<Longrightarrow> nest d (ds @ r) = (ds @ fst (nest d r), snd (nest d r))"
  by (induction ds) (auto simp: digit_facts)

lemma take_digits: "list_all is_digit ds \<Longrightarrow> c \<in> {CHR '','', CHR ''}''} \<Longrightarrow>
    takeWhile lit_char (ds @ c # r) = ds \<and> dropWhile lit_char (ds @ c # r) = c # r"
  by (induction ds) (auto simp: digit_facts, auto simp: lit_char_def)

lemma jval_showInt: "0 \<le> n \<Longrightarrow> jval k (showInt n)"
proof -
  assume n: "0 \<le> n"
  obtain c t where c: "showNat (nat n) = c # t" "is_digit c" using showNat_head by blast
  have "takeValue (showNat (nat n) @ e # r) = (showNat (nat n), e # r)" if "e \<in> {CHR '','', CHR ''}''}" for e r
    using take_digits [OF conjunct2 [OF showNat_digits] that, of "nat n" r] c digit_facts [OF c(2)]
    by (auto simp: takeValue_def case_prod_beta)
  then show ?thesis using n c digit_facts [OF c(2)] scan_showNat [of _ _ "nat n"] nest_lit [OF conjunct2 [OF showNat_digits], of _ "nat n"]
    by (auto simp: jval_def showInt_def simp del: nest_fold)
qed

subsection \<open>Objects\<close>

lemma jval_take: "jval n v \<Longrightarrow> c \<in> {CHR '','', CHR ''}''} \<Longrightarrow> takeValue (v @ c # r) = (v, c # r)"
  unfolding jval_def by (elim conjE) (erule allE, erule allE, erule (1) impE)

lemma jval_nest: "jval n v \<Longrightarrow> c \<in> {CHR '','', CHR ''}''} \<Longrightarrow> 1 \<le> d \<Longrightarrow>
    nest d (v @ c # r) = (v @ fst (nest d (c # r)), snd (nest d (c # r)))"
  unfolding jval_def by blast

lemma jval_scan: "jval n v \<Longrightarrow> c \<in> {CHR '','', CHR ''}''} \<Longrightarrow> st \<noteq> [] \<Longrightarrow> length st + n \<le> 10000 \<Longrightarrow>
    scan_step (foldl scan_step (SBeginValue, st) v) c = end_value st c"
  unfolding jval_def by blast

lemma jval_skip: "jval n v \<Longrightarrow> skip_space (v @ r) = v @ r"
  by (cases v) (auto simp: jval_def)

lemma member_split: "member (k, v) @ r = quotC # esc k @ quotC # CHR '':'' # v @ r"
  by (simp add: member_def quote_def)

lemma separator: "c \<in> {CHR '','', CHR ''}''} \<Longrightarrow> \<not> json_space c" "\<not> json_space quotC" "\<not> json_space (CHR '':'')"
  by (auto simp: json_space_def)

lemma readMember_member:
  assumes "jval n v" "c \<in> {CHR '','', CHR ''}''}"
  shows "readMember (member (k, v) @ c # r) = Some ((esc k, v), c # r)"
  unfolding member_split readMember_def
  using assms by (simp add: case_prod_beta strlit_esc jval_skip [OF assms(1)] jval_take [OF assms] separator(1) [OF assms(2)] separator(2,3))

lemma members_commas:
  assumes "ms \<noteq> []" "\<forall>p \<in> set ms. jval n (snd p)"
  shows "members (commas (map member ms) @ CHR ''}'' # r) = map (\<lambda>p. (esc (fst p), snd p)) ms"
  using assms
proof (induction ms)
  case (Cons p ps)
  obtain k v where p: "p = (k, v)" by (cases p)
  with Cons.prems have v: "jval n v" by simp
  show ?case
  proof (cases ps)
    case Nil
    then show ?thesis using readMember_member [OF v, of "CHR ''}''" k r] p by (simp add: members.simps)
  next
    case (Cons q qs)
    then have "members (commas (map member ps) @ CHR ''}'' # r) = map (\<lambda>p. (esc (fst p), snd p)) ps"
      using Cons.IH Cons.prems by simp
    then show ?thesis using readMember_member [OF v, of "CHR '',''" k "commas (map member ps) @ CHR ''}'' # r"] p Cons
      by (subst members.simps) simp
  qed
qed simp

lemma nest_member:
  assumes "jval n v" "c \<in> {CHR '','', CHR ''}''}" "1 \<le> d"
  shows "nest d (member (k, v) @ c # r) = (member (k, v) @ fst (nest d (c # r)), snd (nest d (c # r)))"
proof -
  have "nest d (CHR '':'' # v @ c # r) = (CHR '':'' # v @ fst (nest d (c # r)), snd (nest d (c # r)))"
    using jval_nest [OF assms] by simp
  then show ?thesis by (simp add: member_def quote_def strlit_esc)
qed

lemma nest_commas:
  assumes "\<forall>p \<in> set ms. jval n (snd p)" "1 \<le> d"
  shows "nest d (commas (map member ms) @ CHR ''}'' # r)
    = (commas (map member ms) @ fst (nest d (CHR ''}'' # r)), snd (nest d (CHR ''}'' # r)))"
  using assms
proof (induction ms)
  case (Cons p ps)
  obtain k v where p: "p = (k, v)" by (cases p)
  with Cons.prems have v: "jval n v" by simp
  show ?case
  proof (cases ps)
    case Nil
    then show ?thesis using nest_member [OF v, of "CHR ''}''" d k r] p Cons.prems(2) by (simp del: nest_fold)
  next
    case (Cons q qs)
    let ?r = "commas (map member ps) @ CHR ''}'' # r"
    have "nest d ?r = (commas (map member ps) @ fst (nest d (CHR ''}'' # r)), snd (nest d (CHR ''}'' # r)))"
      using Cons.IH Cons.prems by simp
    moreover have "nest d (CHR '','' # ?r) = (CHR '','' # fst (nest d ?r), snd (nest d ?r))" by simp
    ultimately show ?thesis
      using nest_member [OF v, of "CHR '',''" d k ?r] p Cons Cons.prems(2) by (simp del: nest_fold)
  qed
qed simp

lemma scan_member:
  assumes "s \<in> {SBeginStringOrEmpty, SBeginString}" "jval n v" "c \<in> {CHR '','', CHR ''}''}" "length st + 1 + n \<le> 10000"
  shows "scan_step (foldl scan_step (s, ParseObjectKey # st) (member (k, v))) c = end_value (ParseObjectValue # st) c"
proof -
  have q: "scan_step (s, ParseObjectKey # st) quotC = (SInString, ParseObjectKey # st)"
    using assms(1) by (auto simp: begin_string_def json_space_def)
  have "foldl scan_step (s, ParseObjectKey # st) (member (k, v)) = foldl scan_step (SBeginValue, ParseObjectValue # st) v"
    using inside_esc [of k] q by (simp add: member_def quote_def inside_def end_value_def json_space_def)
  then show ?thesis using jval_scan [OF assms(2,3), of "ParseObjectValue # st"] assms(4) by simp
qed

lemma scan_commas:
  assumes "s \<in> {SBeginStringOrEmpty, SBeginString}" "\<forall>p \<in> set ms. jval n (snd p)" "ms \<noteq> []" "length st + 1 + n \<le> 10000"
  shows "foldl scan_step (s, ParseObjectKey # st) (commas (map member ms) @ ''}'') = pop_state (ParseObjectValue # st)"
  using assms
proof (induction ms arbitrary: s)
  case (Cons p ps)
  obtain k v where p: "p = (k, v)" by (cases p)
  with Cons.prems have v: "jval n v" by simp
  show ?case
  proof (cases ps)
    case Nil
    then show ?thesis using scan_member [OF Cons.prems(1) v, of "CHR ''}''" st k] p Cons.prems(4)
      by (simp add: end_value_def json_space_def)
  next
    case (Cons q qs)
    have "scan_step (foldl scan_step (s, ParseObjectKey # st) (member p)) (CHR '','') = (SBeginString, ParseObjectKey # st)"
      using scan_member [OF Cons.prems(1) v, of "CHR '',''" st k] p Cons.prems(4) by (simp add: end_value_def json_space_def)
    moreover have "foldl scan_step (SBeginString, ParseObjectKey # st) (commas (map member ps) @ ''}'') = pop_state (ParseObjectValue # st)"
      using Cons.IH [of SBeginString] Cons.prems Cons by simp
    ultimately show ?thesis using Cons by simp
  qed
qed simp

lemma scan_object:
  assumes "\<forall>p \<in> set ms. jval n (snd p)" "ms \<noteq> []" "length st + 1 + n \<le> 10000"
  shows "foldl scan_step (SBeginValue, st) (encObj ms) = pop_state (ParseObjectValue # st)"
proof -
  have "scan_step (SBeginValue, st) (CHR ''{'') = (SBeginStringOrEmpty, ParseObjectKey # st)"
    using assms(3) by (simp add: begin_value_def json_space_def push_state_def)
  then show ?thesis using scan_commas [OF _ assms, of SBeginStringOrEmpty] by (simp add: encObj_def)
qed

lemma encObj_valid: "\<forall>p \<in> set ms. jval n (snd p) \<Longrightarrow> ms \<noteq> [] \<Longrightarrow> n < 10000 \<Longrightarrow> json_valid (encObj ms)"
  unfolding json_valid_def using scan_object [of ms n "[]"] by (simp add: pop_state_def json_space_def)

lemma takeValue_object:
  assumes "\<forall>p \<in> set ms. jval n (snd p)"
  shows "takeValue (encObj ms @ r) = (encObj ms, r)"
proof -
  have "nest 1 (commas (map member ms) @ CHR ''}'' # r) = (commas (map member ms) @ ''}'', r)"
    using nest_commas [OF assms, of 1 r] by simp
  then show ?thesis by (simp add: takeValue_def case_prod_beta encObj_def)
qed

lemma jval_object:
  assumes "\<forall>p \<in> set ms. jval n (snd p)" "ms \<noteq> []"
  shows "jval (Suc n) (encObj ms)"
proof -
  have "nest d (encObj ms @ c # r) = (encObj ms @ fst (nest d (c # r)), snd (nest d (c # r)))" if "1 \<le> d" for d c r
  proof -
    have "nest (Suc d) (commas (map member ms) @ CHR ''}'' # c # r)
      = (commas (map member ms) @ CHR ''}'' # fst (nest d (c # r)), snd (nest d (c # r)))"
      using nest_commas [OF assms(1), of "Suc d" "c # r"] that by simp
    then show ?thesis by (simp add: encObj_def)
  qed
  moreover have "scan_step (foldl scan_step (SBeginValue, st) (encObj ms)) c = end_value st c"
    if "st \<noteq> []" "length st + Suc n \<le> 10000" for st c
    using scan_object [OF assms, of st] that by (cases st) (simp_all add: pop_state_def)
  moreover have "encObj ms \<noteq> []" "\<not> json_space (hd (encObj ms))" by (simp_all add: encObj_def json_space_def)
  ultimately show ?thesis unfolding jval_def using takeValue_object [OF assms(1)] by blast
qed

lemma rawValue_object: "\<forall>p \<in> set ms. jval n (snd p) \<Longrightarrow> rawValue (encObj ms) = encObj ms"
  using takeValue_object [of ms n "[]"] by (simp add: rawValue_def encObj_def json_space_def)

text \<open>The fields of an encoded object are put one after another.\<close>

lemma decObj_encObj:
  assumes "\<forall>p \<in> set ms. jval n (snd p)" "ms \<noteq> []" "\<forall>p \<in> set ms. utf8_ok (fst p) \<and> fst p \<in> set names"
  shows "decObj names put (encObj ms) x =
    foldl (\<lambda>a p. case a of None \<Rightarrow> None | Some y \<Rightarrow> put (fst p) (snd p) y) (Some x) ms"
proof -
  have s: "foldl (setField names put) a (map (\<lambda>p. (esc (fst p), snd p)) ps)
    = foldl (\<lambda>a p. case a of None \<Rightarrow> None | Some y \<Rightarrow> put (fst p) (snd p) y) a ps" if "set ps \<subseteq> set ms" for a ps
    using that
  proof (induction ps arbitrary: a)
    case (Cons p ps)
    then have "setField names put a (esc (fst p), snd p) = (case a of None \<Rightarrow> None | Some y \<Rightarrow> put (fst p) (snd p) y)"
      using assms(3) by (auto simp: setField_def unesc_esc clean_ok fieldName_def split: option.splits)
    then show ?case using Cons by simp
  qed simp
  have "encObj ms \<noteq> ''null''" by (simp add: encObj_def)
  then show ?thesis using members_commas [OF assms(2,1), of "[]"] s [OF order_refl]
    by (simp add: decObj_def encObj_def)
qed

lemma decStr_quote: "decStr (quote s) x = Some (clean s)"
  by (simp add: decStr_def quote_def butlast_append unesc_esc)

end
