(* ===== verification/GoalLaws.thy ===== *)
theory GoalLaws
  imports GoalPolicy GoJsonLaws
begin

section \<open>What the goal controller guarantees\<close>

text \<open>
  Every decision the controller returns is one the continuation engine accepts. A Goal state survives
  its encoding, so a run of decisions, each fed the state of the one before, counts its blockers as
  the list of its evaluations says.
\<close>

subsection \<open>Decisions pass the engine's validation\<close>

lemma validateJSON_g_c [chk]: "validateJSON_g v = None \<longleftrightarrow> validateJSON_c v 262144 = None"
  by (cases v) (simp_all add: validateJSON_g_def validateJSON_c_def)

lemma encodeJSON_g_ok: "encodeJSON_g name data = Inr s \<Longrightarrow> validateJSON_c (Some s) 262144 = None \<and> data = Some s"
  by (auto simp: encodeJSON_g_def validateJSON_g_c split: option.splits)

lemma validateReason_g_ok: "validateReason_g r b = None \<Longrightarrow> validateReason_c r = None"
  by (simp add: validateReason_g_def validateReason_c_def)

definition plain_decision :: "decision \<Rightarrow> bool" where
  "plain_decision d \<longleftrightarrow> validateDecisionFields d = None \<and> dcWait d = None \<and> dcBlock d = None"

lemma outcomeDecision_valid:
  assumes "outcomeDecision st r d = Inr e" "validateResult r = None" "plain_decision d"
  shows "validateDecision e = None"
proof -
  have f: "validateReason_c (dcReason d) = None" "validUsage (dcUsage d)" "validateJSON_c (dcState d) 262144 = None"
    "validateJSON_c (dcOutput d) 262144 = None" "validateJSON_c (dcNextInput d) 262144 = None"
    "dcProgress d = ProgressOther [] \<or> validProgress (dcProgress d)" "dcWait d = None" "dcBlock d = None"
    using assms(3) by (auto simp: plain_decision_def validateDecisionFields_def)
  show ?thesis
  proof (cases "eoOutcome r")
    case OutcomeContinue
    with assms(1) f show ?thesis
      by (auto simp: outcomeDecision_def okE encodeWorkInput_def validateDecision_def validateDecisionFields_def
          validateDecisionAction_def dest!: encodeJSON_g_ok)
  next
    case OutcomeComplete
    have "validateJSON_c (eoOutput r) 262144 = None"
      using assms(2) by (auto simp: validateResult_def validateResultFields_def validateJSON_g_c)
    with assms(1) f OutcomeComplete show ?thesis
      by (auto simp: outcomeDecision_def okE encodeSummary_g_def validateDecision_def validateDecisionFields_def
          validateDecisionAction_def dest!: encodeJSON_g_ok split: option.splits)
  next
    case OutcomeBlocked
    then have b: "blockOnRepeatedBlocker st r d = Inr e" using assms(1) by (simp add: outcomeDecision_def)
    have m: "validateReason_c (blockedMessage r) = None"
      using assms(2) OutcomeBlocked by (auto simp: validateResult_def validateResultOutcome_def dest: validateReason_g_ok)
    have k: "validateBlock (eoBlock r) = None" if "eoBlock r \<noteq> None"
      using assms(2) OutcomeBlocked that
      by (auto simp: validateResult_def validateResultOutcome_def validateBlock_g_def validateBlock_def validateJSON_g_c)
    have g: "\<not> blank ''gate''" by (simp add: space1_def space2_def space3_def)
    obtain inp where i: "encodeWorkInput st r = Inr inp" using b by (auto simp: blockOnRepeatedBlocker_def okE)
    then have v: "validateJSON_c (Some inp) 262144 = None" by (auto simp: encodeWorkInput_def dest: encodeJSON_g_ok)
    show ?thesis
    proof (cases "gsBlockerStreak st < 3")
      case True
      with b i have "e = d\<lparr>dcNextInput := Some inp, dcAction := ActionContinue\<rparr>"
        by (simp add: blockOnRepeatedBlocker_def)
      with f v show ?thesis by (simp add: validateDecision_def validateDecisionFields_def validateDecisionAction_def)
    next
      case False
      show ?thesis
      proof (cases "eoBlock r")
        case None
        with b i False obtain data where "encodeSummary_g st = Inr data" and e: "e = d\<lparr>dcNextInput := Some inp, dcAction := ActionBlock,
            dcReason := blockedMessage r, dcBlock := Some \<lparr>bkKind = ''gate'', bkData = Some data\<rparr>\<rparr>"
          by (auto simp: blockOnRepeatedBlocker_def okE)
        then have "validateJSON_c (Some data) 262144 = None"
          by (auto simp: encodeSummary_g_def dest: encodeJSON_g_ok split: option.splits)
        with f v m g e show ?thesis
          by (simp add: validateDecision_def validateDecisionFields_def validateDecisionAction_def validateBlock_def)
      next
        case (Some x)
        with b i False have "e = d\<lparr>dcNextInput := Some inp, dcAction := ActionBlock,
            dcReason := blockedMessage r, dcBlock := Some x\<rparr>"
          by (simp add: blockOnRepeatedBlocker_def)
        with f v m k Some show ?thesis
          by (simp add: validateDecision_def validateDecisionFields_def validateDecisionAction_def)
      qed
    qed
  next
    case OutcomeOther
    with assms(2) show ?thesis by (simp add: validateResult_def validateResultFields_def validOutcome_def)
  qed
qed

lemma decideOn_valid: "decideOn st r av = Inr d \<Longrightarrow> validateDecision d = None"
proof -
  assume a: "decideOn st r av = Inr d"
  define st1 where "st1 = evaluatedState st r av"
  from a obtain data where r: "validateResult r = None"
    and e: "encodeJSON_g ''controller state'' (Some (marshalState_g st1)) = Inr data"
    and o: "outcomeDecision st1 r (zero_decision\<lparr>dcReason := eoReason r, dcState := Some data, dcUsage := eoUsage r\<rparr>) = Inr d"
    by (auto simp: decideOn_def Let_def okE st1_def)
  have "plain_decision (zero_decision\<lparr>dcReason := eoReason r, dcState := Some data, dcUsage := eoUsage r\<rparr>)"
    using r encodeJSON_g_ok [OF e]
    by (auto simp: plain_decision_def zero_decision_def validateDecisionFields_def validateJSON_c_def validateResult_def
        validateResultFields_def dest: validateReason_g_ok)
  then show ?thesis using outcomeDecision_valid [OF o r] by blast
qed

lemma goalDecide_ok: "goalDecide ev q = (d, None) \<longleftrightarrow> goalDecision ev q = Inr d"
  by (auto simp: goalDecide_def split: sum.splits)

lemma goalDecide_valid: "goalDecide ev q = (d, None) \<Longrightarrow> validateDecision d = None"
  unfolding goalDecide_ok goalDecision_def
  by (auto simp: okE case_prod_beta dest: decideOn_valid)

interpretation goalc: cont_controller "goalDecide ev" for ev
  by unfold_locales (rule goalDecide_valid)

text \<open>Beside an error there is no decision, and so no usage, whatever the evaluator used.\<close>

lemma goalDecide_error: "goalDecide ev q = (d, Some e) \<Longrightarrow> d = zero_decision"
  by (auto simp: goalDecide_def split: sum.splits)

subsection \<open>A state survives its encoding\<close>

definition record_utf8 :: "evaluation_record \<Rightarrow> bool" where
  "record_utf8 r \<longleftrightarrow> utf8_ok (outcomeText (erOutcome r)) \<and> utf8_ok (erReason r) \<and> utf8_ok (erNextStep r) \<and> utf8_ok (erBlockerKey r)"

definition outcome_known :: "outcome \<Rightarrow> bool" where
  "outcome_known x \<longleftrightarrow> outcomeOf (outcomeText x) = x"

lemma record_members_utf8:
  "\<forall>p \<in> set ([(''outcome'', a), (''reason'', b)] @ unless_empty ''next_step'' c @ unless_empty ''blocker_key'' d).
     utf8_ok (fst p) \<and> fst p \<in> set [''outcome'', ''reason'', ''next_step'', ''blocker_key'']"
  by (auto simp: unless_empty_def rune_width_def)

lemma unmarshalRecord_marshal:
  assumes "record_utf8 r" "outcome_known (erOutcome r)"
  shows "unmarshalRecord_g (marshalRecord_g r) zero_evaluation_record = Some r"
proof -
  let ?ms = "[(''outcome'', quote (outcomeText (erOutcome r))), (''reason'', quote (erReason r))] @
      unless_empty ''next_step'' (erNextStep r) @ unless_empty ''blocker_key'' (erBlockerKey r)"
  have j: "\<forall>p \<in> set ?ms. jval 0 (snd p)" by (auto simp: unless_empty_def jval_quote)
  have "decObj [''outcome'', ''reason'', ''next_step'', ''blocker_key''] putRecord_g (encObj ?ms) zero_evaluation_record
    = foldl (\<lambda>a p. case a of None \<Rightarrow> None | Some y \<Rightarrow> putRecord_g (fst p) (snd p) y) (Some zero_evaluation_record) ?ms"
    by (rule decObj_encObj [OF j _ record_members_utf8]) simp
  also have "\<dots> = Some r"
    using assms by (cases r) (auto simp: unless_empty_def putRecord_g_def decStr_quote clean_ok record_utf8_def
      outcome_known_def zero_evaluation_record_def)
  finally show ?thesis by (simp add: unmarshalRecord_g_def marshalRecord_g_def)
qed

lemma jval_record: "jval (Suc 0) (marshalRecord_g r)"
  unfolding marshalRecord_g_def by (rule jval_object) (auto simp: unless_empty_def jval_quote)

text \<open>The states the controller writes.\<close>

definition state_ok :: "goal_state \<Rightarrow> bool" where
  "state_ok st \<longleftrightarrow> gsVersion st = 1 \<and> utf8_ok (gsCondition st) \<and> validateCondition (gsCondition st) = Inr (gsCondition st)
     \<and> 0 \<le> gsEvaluations st \<and> gsEvaluations st < 2 ^ 63 \<and> utf8_ok (gsBlockerKey st)
     \<and> 0 \<le> gsBlockerStreak st \<and> gsBlockerStreak st < 2 ^ 63
     \<and> (gsLast st = None \<longleftrightarrow> gsEvaluations st = 0)
     \<and> (case gsLast st of None \<Rightarrow> True | Some r \<Rightarrow> record_utf8 r \<and> validateRecord_g r = None)"

lemma state_members_jval:
  "0 \<le> gsVersion st \<Longrightarrow> 0 \<le> gsEvaluations st \<Longrightarrow> 0 \<le> gsBlockerStreak st \<Longrightarrow> \<forall>p \<in> set (stateMembers st). jval 1 (snd p)"
  by (auto simp: stateMembers_def unless_empty_def unless_zero_def jval_quote jval_showInt jval_record split: option.splits)

lemma state_members_utf8:
  "\<forall>p \<in> set (stateMembers st). utf8_ok (fst p) \<and>
     fst p \<in> set [''version'', ''condition'', ''evaluations'', ''last'', ''blocker_key'', ''blocker_streak'']"
  by (auto simp: stateMembers_def unless_empty_def unless_zero_def rune_width_def split: option.splits)

lemma unmarshalState_marshal:
  assumes "state_ok st"
  shows "unmarshalState_g (marshalState_g st) = Some st"
proof -
  have n: "0 \<le> gsVersion st" "0 \<le> gsEvaluations st" "0 \<le> gsBlockerStreak st" "stateMembers st \<noteq> []"
    using assms by (simp_all add: state_ok_def stateMembers_def)
  note j = state_members_jval [OF n(1-3)]
  have r: "decPtr unmarshalRecord_g zero_evaluation_record (marshalRecord_g x) None = Some (Some x)"
    if "gsLast st = Some x" for x
  proof -
    have "validOutcome (erOutcome x)" using assms that by (simp add: state_ok_def validateRecord_g_def)
    then have "outcome_known (erOutcome x)"
      by (cases "erOutcome x") (simp_all add: validOutcome_def outcome_known_def outcomeOf_def)
    moreover have "record_utf8 x" using assms that by (simp add: state_ok_def)
    moreover have "marshalRecord_g x \<noteq> ''null''" by (simp add: marshalRecord_g_def encObj_def)
    ultimately show ?thesis by (simp add: decPtr_def unmarshalRecord_marshal)
  qed
  have "decObj [''version'', ''condition'', ''evaluations'', ''last'', ''blocker_key'', ''blocker_streak'']
      putState_g (encObj (stateMembers st)) zero_goal_state
    = foldl (\<lambda>a p. case a of None \<Rightarrow> None | Some y \<Rightarrow> putState_g (fst p) (snd p) y) (Some zero_goal_state) (stateMembers st)"
    by (rule decObj_encObj [OF j n(4) state_members_utf8])
  also have "\<dots> = Some st"
    using assms r by (cases st; cases "gsLast st") (auto simp: stateMembers_def unless_empty_def unless_zero_def putState_g_def
      decStr_quote decInt_show clean_ok state_ok_def zero_goal_state_def)
  finally show ?thesis using rawValue_object [OF j] by (simp add: unmarshalState_g_def marshalState_g_def)
qed

lemma decodeState_encode:
  assumes "state_ok st" "encodeJSON_g name (Some (marshalState_g st)) = Inr data"
  shows "decodeState_g (Some data) = Inr st"
proof -
  have d: "data = marshalState_g st" "validateJSON_g (Some data) = None"
    using encodeJSON_g_ok [OF assms(2)] by (auto simp: validateJSON_g_c)
  have "checkState_g st = Inr st"
  proof (cases "gsLast st")
    case None
    with assms(1) show ?thesis by (auto simp: checkState_g_def state_ok_def validateCounts_def)
  next
    case (Some r)
    with assms(1) have "currentOutcome r = r"
      by (auto simp: state_ok_def validateRecord_g_def validOutcome_def currentOutcome_def)
    with assms(1) Some show ?thesis by (auto simp: checkState_g_def state_ok_def validateCounts_def)
  qed
  then show ?thesis using d unmarshalState_marshal [OF assms(1)] by (simp add: decodeState_g_def)
qed

subsection \<open>What Prepare accepts\<close>

lemma esc_length: "len (esc s) \<le> 6 * runeCount s"
proof (induction s rule: esc.induct)
  case (2 c t)
  have b: "len (escByte c) \<le> 6" by (simp add: escByte_def)
  show ?case
  proof (cases "code c < 128")
    case True
    then have "runeCount (c # t) = 1 + runeCount t" by (simp add: rune_width_ascii)
    then show ?thesis using 2(1) [OF True] True b by simp
  next
    case False
    show ?thesis
    proof (cases "rune_width (c # t)")
      case None
      then show ?thesis using 2(2) [OF False] False by simp
    next
      case (Some n)
      have "n \<le> 4" using Some by (auto simp: rune_width_def split: if_splits list.splits)
      then have "len (c # take (n - 1) t) \<le> 4" by (simp add: len_def)
      then have "len (escRune (c # take (n - 1) t)) \<le> 6" by (simp add: escRune_def)
      then show ?thesis using Some 2(3) [OF False Some] False by simp
    qed
  qed
qed simp

lemma goal_texts_length:
  "len (marshalState_g (zero_goal_state\<lparr>gsVersion := 1, gsCondition := c\<rparr>)) \<le> len (esc c) + 100"
  "len (the (marshalInput (zero_goal_input\<lparr>giKind := ''goal'', giCondition := c\<rparr>))) \<le> len (esc c) + 100"
proof -
  have i: "showInt 0 = ''0''" "showInt 1 = ''1''" by code_simp+
  have k: "quote ''version'' = quotC # ''version'' @ [quotC]" "quote ''condition'' = quotC # ''condition'' @ [quotC]"
    "quote ''evaluations'' = quotC # ''evaluations'' @ [quotC]" "quote ''evaluation'' = quotC # ''evaluation'' @ [quotC]"
    "quote ''kind'' = quotC # ''kind'' @ [quotC]" "quote ''goal'' = quotC # ''goal'' @ [quotC]"
    by code_simp+
  show "len (marshalState_g (zero_goal_state\<lparr>gsVersion := 1, gsCondition := c\<rparr>)) \<le> len (esc c) + 100"
    unfolding marshalState_g_def stateMembers_def encObj_def
    by (simp add: zero_goal_state_def unless_empty_def unless_zero_def member_def i k, simp add: quote_def)
  show "len (the (marshalInput (zero_goal_input\<lparr>giKind := ''goal'', giCondition := c\<rparr>))) \<le> len (esc c) + 100"
    unfolding marshalInput_def encObj_def
    by (simp add: zero_goal_input_def unless_empty_def rawField_def member_def i k, simp add: quote_def)
qed

lemma prepareGoal_accepts:
  assumes "validateCondition s = Inr c"
  shows "\<exists>su. prepareGoal s = Inr su"
proof -
  have c: "runeCount c \<le> 4000" using assms by (auto simp: validateCondition_def Let_def split: if_splits)
  have l: "len (esc c) + 100 \<le> 262144" using esc_length [of c] c by simp
  let ?st = "zero_goal_state\<lparr>gsVersion := 1, gsCondition := c\<rparr>"
  have j: "\<forall>p \<in> set (stateMembers ?st). jval 1 (snd p)"
    by (rule state_members_jval) (simp_all add: zero_goal_state_def)
  have v: "json_valid (marshalState_g ?st)"
    unfolding marshalState_g_def by (rule encObj_valid [OF j]) (simp_all add: stateMembers_def)
  obtain inp where i: "marshalInput (zero_goal_input\<lparr>giKind := ''goal'', giCondition := c\<rparr>) = Some inp" "json_valid inp"
  proof -
    let ?ms = "[(''kind'', quote ''goal''), (''condition'', quote c), (''evaluation'', showInt 0)]"
    have "json_valid (encObj ?ms)" by (rule encObj_valid [of _ 0]) (auto simp: jval_quote jval_showInt)
    then show ?thesis by (intro that [of "encObj ?ms"]) (simp_all add: marshalInput_def rawField_def zero_goal_input_def unless_empty_def)
  qed
  have "len inp \<le> len (esc c) + 100" "len (marshalState_g ?st) \<le> len (esc c) + 100"
    using goal_texts_length [of c] i(1) by simp_all
  then have "validateJSON_g (Some (marshalState_g ?st)) = None" "validateJSON_g (Some inp) = None"
    using l v i(2) by (simp_all add: validateJSON_g_def)
  then show ?thesis using assms i(1) by (simp add: prepareGoal_def encodeJSON_g_def)
qed

lemma validateCondition_again: "validateCondition s = Inr c \<Longrightarrow> validateCondition c = Inr c"
  by (auto simp: validateCondition_def Let_def split: if_splits)

lemma decode_prepared:
  assumes "prepareGoal s = Inr su" "utf8_ok (trimSpace s)"
  shows "decodeState_g (guControllerState su) = Inr (zero_goal_state\<lparr>gsVersion := 1, gsCondition := trimSpace s\<rparr>)"
    "decodeWorkInput (guWorkInput su) = Inr (zero_goal_input\<lparr>giKind := ''goal'', giCondition := trimSpace s\<rparr>)"
proof -
  let ?st = "zero_goal_state\<lparr>gsVersion := 1, gsCondition := trimSpace s\<rparr>"
  let ?in = "zero_goal_input\<lparr>giKind := ''goal'', giCondition := trimSpace s\<rparr>"
  from assms(1) obtain c st inp where c: "validateCondition s = Inr c"
    and st: "encodeJSON_g ''controller state'' (Some (marshalState_g (zero_goal_state\<lparr>gsVersion := 1, gsCondition := c\<rparr>))) = Inr st"
    and inp: "encodeJSON_g ''input'' (marshalInput (zero_goal_input\<lparr>giKind := ''goal'', giCondition := c\<rparr>)) = Inr inp"
    and su: "su = \<lparr>guControllerState = Some st, guWorkInput = Some inp\<rparr>"
    by (auto simp: prepareGoal_def okE)
  have ct: "c = trimSpace s" using c by (auto simp: validateCondition_def Let_def split: if_splits)
  have v: "validateCondition (trimSpace s) = Inr (trimSpace s)" using validateCondition_again [OF c] ct by simp
  have "state_ok ?st" using v assms(2) by (simp add: state_ok_def zero_goal_state_def)
  from decodeState_encode [OF this] st ct su
  show "decodeState_g (guControllerState su) = Inr ?st" by simp
  let ?ms = "[(''kind'', quote ''goal''), (''condition'', quote (trimSpace s)), (''evaluation'', showInt 0)]"
  have j: "\<forall>p \<in> set ?ms. jval 0 (snd p)" by (auto simp: jval_quote jval_showInt)
  have m: "marshalInput ?in = Some (encObj ?ms)"
    by (simp add: marshalInput_def rawField_def zero_goal_input_def unless_empty_def)
  have u: "\<forall>p \<in> set ?ms. utf8_ok (fst p) \<and> fst p \<in> set [''kind'', ''condition'', ''evaluation'', ''reason'', ''feedback'']"
    by (auto simp: rune_width_def)
  have g: "clean ''goal'' = ''goal''" by (rule clean_ok) (simp add: rune_width_def)
  have "decObj [''kind'', ''condition'', ''evaluation'', ''reason'', ''feedback''] putInput (encObj ?ms) zero_goal_input = Some ?in"
    by (subst decObj_encObj [OF j _ u])
      (simp_all add: putInput_def decStr_quote decInt_show clean_ok assms(2) g zero_goal_input_def del: clean.simps)
  then have "unmarshalInput inp = Some ?in"
    using encodeJSON_g_ok [OF inp] ct m rawValue_object [OF j] by (simp add: unmarshalInput_def)
  then show "decodeWorkInput (guWorkInput su) = Inr ?in"
    using encodeJSON_g_ok [OF inp] su v
    by (simp add: decodeWorkInput_def validateJSON_g_c zero_goal_input_def validateReason_g_def validateJSON_c_def)
qed

subsection \<open>Repeated blockers\<close>

text \<open>
  A run of the controller: each round has an evaluation and a request, and the state of its request is
  the state of the decision before, as the engine keeps it.
\<close>

type_synonym goal_round = "evaluation_result \<times> decision_request"

definition goalRound :: "cont_error + decision \<Rightarrow> goal_round \<Rightarrow> cont_error + decision" where
  "goalRound a x = bindE a (\<lambda>d. goalDecision (\<lambda>_. (fst x, None)) ((snd x)\<lparr>dqState := dcState d\<rparr>))"

definition goalRun :: "string option \<Rightarrow> goal_round list \<Rightarrow> cont_error + decision" where
  "goalRun s xs = foldl goalRound (Inr (zero_decision\<lparr>dcState := s\<rparr>)) xs"

definition blockedRound :: "goal_round \<Rightarrow> bool" where
  "blockedRound x \<longleftrightarrow> eoOutcome (fst x) = OutcomeBlocked"

definition sameRun :: "goal_round \<Rightarrow> goal_round \<Rightarrow> bool" where
  "sameRun x y \<longleftrightarrow> eoBlockerKey (fst x) = eoBlockerKey (fst y) \<and> dqActivation (snd y) = None"

text \<open>The last three rounds are blocked on one key, and nothing woke the Goal between them.\<close>

definition repeatedBlocker :: "goal_round list \<Rightarrow> bool" where
  "repeatedBlocker xs = (case rev xs of
       z # y # x # _ \<Rightarrow> blockedRound x \<and> blockedRound y \<and> blockedRound z \<and> sameRun x y \<and> sameRun y z
     | _ \<Rightarrow> False)"

definition round_utf8 :: "goal_round \<Rightarrow> bool" where
  "round_utf8 x \<longleftrightarrow> utf8_ok (eoReason (fst x)) \<and> utf8_ok (eoNextStep (fst x)) \<and> utf8_ok (eoBlockerKey (fst x))"

text \<open>What the state counts of the rounds so far, the last one first.\<close>

definition tallies :: "goal_state \<Rightarrow> goal_round list \<Rightarrow> bool" where
  "tallies st ys \<longleftrightarrow>
     (1 \<le> gsBlockerStreak st \<longleftrightarrow> (\<exists>x zs. ys = x # zs \<and> blockedRound x)) \<and>
     (1 \<le> gsBlockerStreak st \<longrightarrow> gsBlockerKey st = eoBlockerKey (fst (hd ys))) \<and>
     (2 \<le> gsBlockerStreak st \<longleftrightarrow> (\<exists>y x zs. ys = y # x # zs \<and> blockedRound x \<and> blockedRound y \<and> sameRun x y)) \<and>
     (3 \<le> gsBlockerStreak st \<longleftrightarrow> repeatedBlocker (rev ys))"

lemma tallies_step:
  assumes "tallies st ys" "0 \<le> gsBlockerStreak st" "dqActivation (snd x) = av"
  shows "tallies (evaluatedState st (fst x) av) (x # ys)"
proof (cases "blockedRound x")
  case False
  then show ?thesis
    by (auto simp: tallies_def evaluatedState_def recordBlocker_def blockedRound_def repeatedBlocker_def split: list.splits)
next
  case True
  let ?same = "av = None \<and> gsBlockerKey st = eoBlockerKey (fst x)"
  have b: "eoOutcome (fst x) = OutcomeBlocked" using True by (simp add: blockedRound_def)
  show ?thesis
  proof (cases ?same)
    case False
    have "\<not> (1 \<le> gsBlockerStreak st \<and> sameRun (hd ys) x)"
      using False assms(1,3) by (auto simp: tallies_def sameRun_def)
    then have no: "\<not> (\<exists>y zs. ys = y # zs \<and> blockedRound y \<and> sameRun y x)"
      using assms(1) by (auto simp: tallies_def)
    have "gsBlockerStreak (evaluatedState st (fst x) av) = 1" "gsBlockerKey (evaluatedState st (fst x) av) = eoBlockerKey (fst x)"
      using False b by (auto simp: evaluatedState_def recordBlocker_def)
    with no True show ?thesis
      by (auto simp: tallies_def repeatedBlocker_def split: list.splits)
  next
    case same: True
    have k: "gsBlockerKey (evaluatedState st (fst x) av) = eoBlockerKey (fst x)"
      using same b by (simp add: evaluatedState_def recordBlocker_def)
    have n: "1 \<le> gsBlockerStreak (evaluatedState st (fst x) av)"
      "2 \<le> gsBlockerStreak (evaluatedState st (fst x) av) \<longleftrightarrow> 1 \<le> gsBlockerStreak st"
      "3 \<le> gsBlockerStreak (evaluatedState st (fst x) av) \<longleftrightarrow> 2 \<le> gsBlockerStreak st"
      using same b assms(2) by (auto simp: evaluatedState_def recordBlocker_def)
    have two: "1 \<le> gsBlockerStreak st \<longleftrightarrow> (\<exists>y zs. ys = y # zs \<and> blockedRound y \<and> sameRun y x)"
      using same assms(1,3) by (auto simp: tallies_def sameRun_def)
    have three: "2 \<le> gsBlockerStreak st \<longleftrightarrow> repeatedBlocker (rev (x # ys))"
      using two assms(1) True by (auto simp: tallies_def repeatedBlocker_def split: list.splits)
    show ?thesis using k n two three True by (auto simp: tallies_def)
  qed
qed

lemma evaluatedState_ok:
  assumes "state_ok st" "validateResult r = None" "gsEvaluations st \<noteq> 2 ^ 63 - 1"
    "utf8_ok (eoReason r)" "utf8_ok (eoNextStep r)" "utf8_ok (eoBlockerKey r)"
  shows "state_ok (evaluatedState st r av)" "gsEvaluations (evaluatedState st r av) = gsEvaluations st + 1"
proof -
  have o: "validOutcome (eoOutcome r)" "validateReason_g (eoReason r) True = None"
    using assms(2) by (auto simp: validateResult_def validateResultFields_def)
  then have "utf8_ok (outcomeText (eoOutcome r))"
    by (cases "eoOutcome r") (simp_all add: validOutcome_def rune_width_def)
  with o assms show "state_ok (evaluatedState st r av)"
    by (auto simp: state_ok_def evaluatedState_def recordBlocker_def record_utf8_def validateRecord_g_def)
  show "gsEvaluations (evaluatedState st r av) = gsEvaluations st + 1"
    by (simp add: evaluatedState_def recordBlocker_def)
qed

lemma decision_state: "outcomeDecision st r d = Inr e \<Longrightarrow> dcState e = dcState d"
  by (auto simp: outcomeDecision_def blockOnRepeatedBlocker_def Let_def okE split: outcome.splits option.splits if_splits)

lemma decision_action:
  "outcomeDecision st r d = Inr e \<Longrightarrow> validOutcome (eoOutcome r) \<Longrightarrow>
     dcAction e = ActionBlock \<longleftrightarrow> eoOutcome r = OutcomeBlocked \<and> 3 \<le> gsBlockerStreak st"
  by (cases "gsBlockerStreak st < 3") (auto simp: outcomeDecision_def blockOnRepeatedBlocker_def validOutcome_def Let_def okE
      split: outcome.splits option.splits if_splits)

lemma goalRun_state:
  assumes "goalRun (guControllerState su) xs = Inr d" "prepareGoal s = Inr su" "utf8_ok (trimSpace s)" "\<forall>x \<in> set xs. round_utf8 x"
  shows "\<exists>st. decodeState_g (dcState d) = Inr st \<and> state_ok st \<and> tallies st (rev xs) \<and> gsEvaluations st = int (length xs)
    \<and> (xs \<noteq> [] \<longrightarrow> (dcAction d = ActionBlock \<longleftrightarrow> repeatedBlocker xs))"
  using assms(1,4)
proof (induction xs arbitrary: d rule: rev_induct)
  case Nil
  let ?st = "zero_goal_state\<lparr>gsVersion := 1, gsCondition := trimSpace s\<rparr>"
  have "validateCondition (trimSpace s) = Inr (trimSpace s)"
    using assms(2) validateCondition_again by (auto simp: prepareGoal_def okE validateCondition_def Let_def split: if_splits)
  then have "state_ok ?st" using assms(3) by (simp add: state_ok_def zero_goal_state_def)
  moreover have "tallies ?st []" by (simp add: tallies_def zero_goal_state_def repeatedBlocker_def)
  moreover have "gsEvaluations ?st = 0" by (simp add: zero_goal_state_def)
  moreover have "decodeState_g (dcState d) = Inr ?st"
    using Nil(1) decode_prepared(1) [OF assms(2,3)] by (auto simp: goalRun_def)
  ultimately show ?case by auto
next
  case (snoc x xs)
  from snoc.prems(1) obtain c where c: "goalRun (guControllerState su) xs = Inr c"
    and d: "goalDecision (\<lambda>_. (fst x, None)) ((snd x)\<lparr>dqState := dcState c\<rparr>) = Inr d"
    by (auto simp: goalRun_def goalRound_def okE)
  from snoc.IH [OF c] snoc.prems(2) obtain st where st: "decodeState_g (dcState c) = Inr st" "state_ok st"
    "tallies st (rev xs)" "gsEvaluations st = int (length xs)" by auto
  let ?st = "evaluatedState st (fst x) (dqActivation (snd x))"
  from d st(1) obtain data where r: "validateResult (fst x) = None" "gsEvaluations st \<noteq> 2 ^ 63 - 1"
    and e: "encodeJSON_g ''controller state'' (Some (marshalState_g ?st)) = Inr data"
    and o: "outcomeDecision ?st (fst x)
      (zero_decision\<lparr>dcReason := eoReason (fst x), dcState := Some data, dcUsage := eoUsage (fst x)\<rparr>) = Inr d"
    by (auto simp: goalDecision_def decideOn_def Let_def okE)
  have u: "utf8_ok (eoReason (fst x))" "utf8_ok (eoNextStep (fst x))" "utf8_ok (eoBlockerKey (fst x))"
    using snoc.prems(2) by (simp_all add: round_utf8_def)
  note ok = evaluatedState_ok [OF st(2) r u, of "dqActivation (snd x)"]
  have t: "tallies ?st (rev (xs @ [x]))"
    using tallies_step [OF st(3) _ refl, of x] st(2) by (simp add: state_ok_def)
  have "dcAction d = ActionBlock \<longleftrightarrow> eoOutcome (fst x) = OutcomeBlocked \<and> 3 \<le> gsBlockerStreak ?st"
    using decision_action [OF o] r(1) by (simp add: validateResult_def validateResultFields_def)
  also have "\<dots> \<longleftrightarrow> repeatedBlocker (xs @ [x])"
    using t by (auto simp: tallies_def repeatedBlocker_def blockedRound_def)
  finally have "dcAction d = ActionBlock \<longleftrightarrow> repeatedBlocker (xs @ [x])" .
  moreover have "decodeState_g (dcState d) = Inr ?st"
    using decodeState_encode [OF ok(1) e] decision_state [OF o] by simp
  ultimately show ?case using ok t st(4) by auto
qed

end
