(* ===== verification/GoalEvaluator.thy ===== *)
theory GoalEvaluator
  imports GoalLaws
begin

section \<open>The model evaluator of a Goal\<close>

text \<open>
  \<^verbatim>\<open>agent/goal/model_evaluator.go\<close>. The model call, \<^verbatim>\<open>ai.GenerateTypedAdaptive\<close> with the fixed schema and
  system prompt, is an argument: of the number of the try, the payload and the token cap it gives the
  decoded document, the usage of the response, if there is one, and an error.
\<close>

subsection \<open>Types\<close>

record evaluation_output =
  moDecision :: string
  moEvidence :: string
  moNextStep :: string
  moBlockerKey :: string

type_synonym evaluation_call = "nat \<Rightarrow> string \<Rightarrow> int option \<Rightarrow> evaluation_output \<times> usage option \<times> cont_error option"

definition malformedOutput :: cont_error where
  "malformedOutput = Foreign ''ai: structured output is not one JSON object'' None"

text \<open>The configuration is the cap on a response, zero for none.\<close>

definition withMaxTokens_g :: "int \<Rightarrow> int \<Rightarrow> cont_error + int" where
  "withMaxTokens_g maxTokens config = guardE (fail_if (maxTokens \<le> 0) goalInvalid) (Inr maxTokens)"

fun evaluatorOptions :: "(int \<Rightarrow> cont_error + int) option list \<Rightarrow> int \<Rightarrow> cont_error + int" where
  "evaluatorOptions [] config = Inr config"
| "evaluatorOptions (opt # opts) config = (case opt of
       None \<Rightarrow> Inl goalInvalid
     | Some f \<Rightarrow> bindE (f config) (evaluatorOptions opts))"

subsection \<open>Validation\<close>

definition outcomeFor :: "string \<Rightarrow> outcome" where
  "outcomeFor d =
     (if d = ''continue'' then OutcomeContinue else if d = ''candidate_complete'' then OutcomeComplete
      else if d = ''blocked'' then OutcomeBlocked else OutcomeOther [])"

text \<open>A range over a string yields runes; a byte outside ASCII starts none of the permitted ones.\<close>

definition isBlockerKeyCharacter :: "char \<Rightarrow> bool" where
  "isBlockerKeyCharacter c \<longleftrightarrow> 97 \<le> code c \<and> code c \<le> 122 \<or> 48 \<le> code c \<and> code c \<le> 57 \<or> c = CHR ''_''"

definition validateBlockerKey :: "string \<Rightarrow> string \<Rightarrow> cont_error option" where
  "validateBlockerKey d key =
     (if d = ''blocked'' then first_err
        [fail_if (key = []) goalInvalid, fail_if (\<not> list_all isBlockerKeyCharacter key) goalInvalid]
      else fail_if (key \<noteq> []) goalInvalid)"

definition validateNextStep :: "string \<Rightarrow> cont_error option" where
  "validateNextStep s = first_err [fail_if (blank s) goalInvalid, fail_if (len s > 4096) goalTooLarge]"

definition validateEvaluationRequest :: "evaluation \<Rightarrow> cont_error + string" where
  "validateEvaluationRequest e =
     guardE (fail_if (evAttempt e \<le> 0) goalInvalid)
     (bindE (validateCondition (evCondition e)) (\<lambda>c.
       guardE (first_err
         [validateJSON_g (evEvidence e),
          (case evPrevious e of None \<Rightarrow> None | Some r \<Rightarrow> validateRecord_g r),
          fail_if (\<not> validAccounting_g (evAccounting e)) goalInvalid,
          fail_if (liMaxTokens (evLimits e) < 0) goalInvalid])
       (Inr c)))"

definition responseMaxTokens_g :: "int \<Rightarrow> evaluation \<Rightarrow> cont_error + int option" where
  "responseMaxTokens_g cap e =
     (if cap = 0 then Inr None
      else if liMaxTokens (evLimits e) = 0 then Inr (Some cap)
      else (let left = i64 (liMaxTokens (evLimits e) - tokens (evAccounting e))
        in if left \<le> 0 then Inl goalInvalid else Inr (Some (min cap left))))"

subsection \<open>One assessment\<close>

text \<open>The result of an answer, whether it is unusable, and its error.\<close>

definition outputResult :: "evaluation_output \<Rightarrow> usage \<Rightarrow> evaluation_result" where
  "outputResult out u = zero_evaluation_result\<lparr>eoUsage := u, eoOutcome := outcomeFor (moDecision out),
     eoReason := moEvidence out, eoNextStep := moNextStep out, eoBlockerKey := trimSpace (moBlockerKey out)\<rparr>"

definition checkOutput :: "evaluation_output \<Rightarrow> evaluation_result \<Rightarrow> cont_error option" where
  "checkOutput out r = first_err
     [fail_if (eoOutcome r = OutcomeOther []) goalInvalid,
      validateReason_g (moEvidence out) True,
      validateNextStep (moNextStep out),
      validateBlockerKey (moDecision out) (eoBlockerKey r),
      fail_if (eoOutcome r = OutcomeBlocked \<and> len (blockedMessage r) > 4096) goalTooLarge]"

definition assess :: "evaluation_call \<Rightarrow> string \<Rightarrow> int option \<Rightarrow> nat \<Rightarrow> evaluation_result \<times> bool \<times> cont_error option" where
  "assess gen payload cap i = (case gen i payload cap of (out, response, err) \<Rightarrow>
     (let r = zero_evaluation_result\<lparr>eoUsage := (case response of None \<Rightarrow> zero_usage | Some u \<Rightarrow> u)\<rparr>
      in case err of
           Some e \<Rightarrow> (r, errorsIs_c e malformedOutput, Some e)
         | None \<Rightarrow>
             if response = None \<or> response = Some zero_usage then (r, True, Some goalInvalid)
             else (let s = outputResult out (eoUsage r); e = checkOutput out s in (s, e \<noteq> None, e))))"

text \<open>Two tries at most; the usage of both is added up.\<close>

fun assessLoop :: "evaluation_call \<Rightarrow> string \<Rightarrow> int option \<Rightarrow> nat \<Rightarrow> nat \<Rightarrow> usage \<Rightarrow>
    evaluation_result \<times> bool \<times> cont_error option \<Rightarrow> evaluation_result \<times> bool \<times> cont_error option" where
  "assessLoop gen payload cap i 0 observed (r, unusable, err) = (r\<lparr>eoUsage := observed\<rparr>, unusable, err)"
| "assessLoop gen payload cap i (Suc n) observed _ =
     (case assess gen payload cap i of (r, unusable, err) \<Rightarrow>
        (let seen = usageAdd observed (eoUsage r)
         in if err = None \<or> \<not> unusable then (r\<lparr>eoUsage := seen\<rparr>, unusable, err)
            else assessLoop gen payload cap (Suc i) n seen (r, unusable, err)))"

definition evaluationPayload :: "string \<Rightarrow> evaluation \<Rightarrow> string" where
  "evaluationPayload c e = encObj
     [(''objective'', quote c), (''transcript'', quote (evTranscript e)), (''plan'', quote (evPlan e))]"

definition prepareEvaluation :: "int \<Rightarrow> evaluation \<Rightarrow> cont_error + (string \<times> int option)" where
  "prepareEvaluation cap e =
     bindE (validateEvaluationRequest e) (\<lambda>c.
       guardE (fail_if (len (evaluationPayload c e) > 524288) goalTooLarge)
       (bindE (responseMaxTokens_g cap e) (\<lambda>mx. Inr (evaluationPayload c e, mx))))"

definition modelEvaluate :: "evaluation_call \<Rightarrow> int \<Rightarrow> evaluator" where
  "modelEvaluate gen cap e = (case prepareEvaluation cap e of
       Inl err \<Rightarrow> (zero_evaluation_result, Some err)
     | Inr (payload, mx) \<Rightarrow>
        (case assessLoop gen payload mx 0 2 zero_usage (zero_evaluation_result, False, None) of (r, unusable, err) \<Rightarrow>
          (case err of None \<Rightarrow> (r, None)
           | Some x \<Rightarrow>
              (r, Some (Foreign (if unusable then ''goal: the assessment answer was unusable after a bounded retry''
                 else ''goal: generate evaluation'') (Some x))))))"

definition newModelEvaluator :: "evaluation_call option \<Rightarrow> (int \<Rightarrow> cont_error + int) option list \<Rightarrow> cont_error + evaluator" where
  "newModelEvaluator model opts = (case model of None \<Rightarrow> Inl goalInvalid
     | Some gen \<Rightarrow> bindE (evaluatorOptions opts 0) (\<lambda>cap. Inr (modelEvaluate gen cap)))"

subsection \<open>What the model evaluator guarantees\<close>

text \<open>
  A result without an error is one the controller accepts, when the usage is not negative; and its
  blocker key is lower snake case for a blocked outcome and empty for the others.
\<close>

lemma blank_chars: "blank s \<Longrightarrow> c \<in> set s \<Longrightarrow> space1 c \<or> 128 \<le> code c"
  by (induction s rule: blank.induct) (auto simp: space2_def space3_def)

lemma blockedMessage_nonblank: "\<not> blank (eoReason r) \<Longrightarrow> \<not> blank (blockedMessage r)"
  by (auto simp: blockedMessage_def space1_def dest: blank_chars [of _ "CHR ''N''"])

lemma outcomeFor_valid: "outcomeFor d = OutcomeOther [] \<or> validOutcome (outcomeFor d)"
  by (simp add: outcomeFor_def validOutcome_def)

lemma outputResult_simps [simp]:
  "eoOutcome (outputResult out u) = outcomeFor (moDecision out)" "eoReason (outputResult out u) = moEvidence out"
  "eoNextStep (outputResult out u) = moNextStep out" "eoBlockerKey (outputResult out u) = trimSpace (moBlockerKey out)"
  "eoFeedback (outputResult out u) = None" "eoOutput (outputResult out u) = None" "eoBlock (outputResult out u) = None"
  "eoUsage (outputResult out u) = u"
  by (simp_all add: outputResult_def zero_evaluation_result_def)

lemma checkOutput_result:
  assumes "checkOutput out (outputResult out u) = None" "validUsage v"
  shows "validateResult ((outputResult out u)\<lparr>eoUsage := v\<rparr>) = None"
proof -
  let ?r = "(outputResult out u)\<lparr>eoUsage := v\<rparr>"
  have c: "outcomeFor (moDecision out) \<noteq> OutcomeOther []" "validateReason_g (moEvidence out) True = None"
    "outcomeFor (moDecision out) = OutcomeBlocked \<Longrightarrow> len (blockedMessage (outputResult out u)) \<le> 4096"
    using assms(1) by (auto simp: checkOutput_def)
  have o: "validOutcome (eoOutcome ?r)" using outcomeFor_valid [of "moDecision out"] c(1) by simp
  have "\<not> blank (eoReason ?r)" using c(2) by (simp add: validateReason_g_def)
  moreover have "blockedMessage ?r = blockedMessage (outputResult out u)" by (simp add: blockedMessage_def)
  ultimately have m: "outcomeFor (moDecision out) = OutcomeBlocked \<Longrightarrow> validateReason_g (blockedMessage ?r) True = None"
    using c(3) blockedMessage_nonblank [of ?r] by (simp add: validateReason_g_def)
  show ?thesis
    using o c(2) m assms(2)
    by (cases "outcomeFor (moDecision out)")
      (auto simp: validateResult_def validateResultFields_def validateResultOutcome_def validateJSON_g_def validOutcome_def)
qed

definition usage_small :: "usage \<Rightarrow> bool" where
  "usage_small u \<longleftrightarrow> (\<forall>x \<in> {InputTokens u, OutputTokens u, ReasoningTokens u, CachedInputTokens u, CacheWriteTokens u}.
     0 \<le> x \<and> x < 2 ^ 61)"

definition calls_small :: "evaluation_call \<Rightarrow> bool" where
  "calls_small gen \<longleftrightarrow> (\<forall>i p c. case fst (snd (gen i p c)) of None \<Rightarrow> True | Some u \<Rightarrow> usage_small u)"

lemma assess_usage: "calls_small gen \<Longrightarrow> usage_small (eoUsage (fst (assess gen payload cap i)))"
proof -
  assume a: "calls_small gen"
  obtain out response err where g: "gen i payload cap = (out, response, err)" by (metis prod_cases3)
  have "case response of None \<Rightarrow> True | Some u \<Rightarrow> usage_small u"
    using a g unfolding calls_small_def by (metis fst_conv snd_conv)
  moreover have "usage_small zero_usage" by (simp add: usage_small_def zero_usage_def)
  ultimately show ?thesis
    by (simp add: assess_def g Let_def zero_evaluation_result_def split: option.splits)
qed

lemma two_usages:
  assumes "usage_small u" "usage_small v"
  shows "validUsage (usageAdd (usageAdd zero_usage u) v)" "validUsage (usageAdd zero_usage u)"
  using assms by (auto simp: usage_small_def validUsage_def usageAdd_def zero_usage_def i64_id)

lemma assess_ok:
  "assess gen payload cap i = (r, b, None) \<Longrightarrow> \<exists>out u. r = outputResult out u \<and> checkOutput out r = None"
  by (auto simp: assess_def Let_def split: prod.splits option.splits if_splits)

text \<open>The second try happens exactly after an unusable answer, and its result is the one reported.\<close>

definition assessTwice :: "evaluation_call \<Rightarrow> string \<Rightarrow> int option \<Rightarrow> evaluation_result \<times> bool \<times> cont_error option" where
  "assessTwice gen payload cap =
     (case (assess gen payload cap 0, assess gen payload cap 1) of ((r0, b0, e0), (r1, b1, e1)) \<Rightarrow>
        if e0 \<noteq> None \<and> b0 then (r1\<lparr>eoUsage := usageAdd (usageAdd zero_usage (eoUsage r0)) (eoUsage r1)\<rparr>, b1, e1)
        else (r0\<lparr>eoUsage := usageAdd zero_usage (eoUsage r0)\<rparr>, b0, e0))"

lemma assessLoop_twice: "assessLoop gen payload cap 0 2 zero_usage x = assessTwice gen payload cap"
  by (auto simp: assessTwice_def numeral_2_eq_2 Let_def split: prod.splits)

lemma assessTwice_ok:
  assumes "assessTwice gen payload cap = (r, b, None)" "calls_small gen"
  shows "validateResult r = None"
proof -
  obtain r0 b0 e0 r1 b1 e1 where a: "assess gen payload cap 0 = (r0, b0, e0)" "assess gen payload cap 1 = (r1, b1, e1)"
    by (metis prod_cases3)
  have u: "usage_small (eoUsage r0)" "usage_small (eoUsage r1)"
    using assess_usage [OF assms(2), of payload cap 0] assess_usage [OF assms(2), of payload cap 1] a by simp_all
  show ?thesis
  proof (cases "e0 \<noteq> None \<and> b0")
    case True
    with assms(1) a have r: "r = r1\<lparr>eoUsage := usageAdd (usageAdd zero_usage (eoUsage r0)) (eoUsage r1)\<rparr>" "e1 = None"
      by (auto simp: assessTwice_def)
    with a assess_ok [of gen payload cap 1 r1 b1] obtain out w where "r1 = outputResult out w" "checkOutput out r1 = None"
      by blast
    with r(1) two_usages(1) [OF u] show ?thesis using checkOutput_result by simp
  next
    case False
    with assms(1) a have r: "r = r0\<lparr>eoUsage := usageAdd zero_usage (eoUsage r0)\<rparr>" "e0 = None"
      by (auto simp: assessTwice_def)
    with a assess_ok [of gen payload cap 0 r0 b0] obtain out w where "r0 = outputResult out w" "checkOutput out r0 = None"
      by blast
    with r(1) two_usages(2) [OF u(1) u(1)] show ?thesis using checkOutput_result by simp
  qed
qed

lemma modelEvaluate_ok:
  assumes "modelEvaluate gen cap e = (r, None)" "calls_small gen"
  shows "validateResult r = None"
  using assms assessTwice_ok
  by (auto simp: modelEvaluate_def assessLoop_twice split: sum.splits prod.splits option.splits)

text \<open>An error of the evaluator leaves no usage in the decision, though its result has one.\<close>

lemma goalDecide_evaluator_error:
  assumes "decodeState_g (dqState q) = Inr st" "snd (ev (evaluationOf st q)) = Some e"
  shows "goalDecide ev q = (zero_decision, Some (Foreign ''goal: evaluate condition'' (Some e)))"
  using assms by (simp add: goalDecide_def goalDecision_def case_prod_beta)

end
