(* ===== verification/GoalProgress.thy ===== *)
theory GoalProgress
  imports GoalEvaluator
begin

section \<open>The goal controller decides\<close>

text \<open>
  Encoding is the only step of a decision that can still fail after the checks. The lengths of the
  encoded texts are bounded here, so a result with bounded fields and no feedback always leads to a
  decision.
\<close>

subsection \<open>Lengths of encoded texts\<close>

lemma runeCount_len: "runeCount s \<le> len s"
proof (induction s rule: runeCount.induct)
  case (2 c t)
  then show ?case by (auto simp: len_def split: option.splits)
qed simp

lemma quote_length: "len (quote s) \<le> 6 * runeCount s + 2" "len (quote s) \<le> 6 * len s + 2"
  using esc_length [of s] runeCount_len [of s] by (simp_all add: quote_def)

lemma showNat_length: "n < 10 ^ k \<Longrightarrow> 0 < k \<Longrightarrow> length (showNat n) \<le> k"
proof (induction k arbitrary: n)
  case (Suc k)
  show ?case
  proof (cases "n < 10")
    case True
    then show ?thesis by (simp add: showNat.simps [of n])
  next
    case False
    then have k: "0 < k" using Suc.prems by (cases k) auto
    have "n div 10 < 10 ^ k" using Suc.prems by (simp add: less_mult_imp_div_less)
    from Suc.IH [OF this k] False show ?thesis by (simp add: showNat.simps [of n])
  qed
qed simp

lemma showInt_length: "0 \<le> n \<Longrightarrow> n < 2 ^ 63 \<Longrightarrow> len (showInt n) \<le> 19"
  using showNat_length [of "nat n" 19] by (simp add: showInt_def len_def)

lemma commas_length: "len (commas xs) \<le> (\<Sum>x \<leftarrow> xs. len x + 1)"
  by (induction xs rule: commas.induct) auto

lemma encObj_length: "len (encObj ms) \<le> 2 + (\<Sum>p \<leftarrow> ms. 6 * len (fst p) + len (snd p) + 4)"
proof -
  have m: "len (member p) + 1 \<le> 6 * len (fst p) + len (snd p) + 4" for p
    using quote_length(2) [of "fst p"] by (simp add: member_def)
  have "(\<Sum>x \<leftarrow> map member ms. len x + 1) \<le> (\<Sum>p \<leftarrow> ms. 6 * len (fst p) + len (snd p) + 4)"
    using sum_list_mono [of ms "\<lambda>p. len (member p) + 1"] m by (simp add: comp_def)
  then show ?thesis using commas_length [of "map member ms"] by (simp add: encObj_def)
qed

subsection \<open>A decoded state is in range\<close>

lemma decObj_invariant:
  assumes "decObj names put raw x = Some y" "P x" "\<And>k v a b. put k v a = Some b \<Longrightarrow> P a \<Longrightarrow> P b"
  shows "P y"
proof -
  have "P b" if "foldl (setField names put) a ms = Some b" "\<And>c. a = Some c \<Longrightarrow> P c" for a ms b
    using that
  proof (induction ms arbitrary: a)
    case (Cons m ms)
    show ?case
    proof (rule Cons.IH)
      show "foldl (setField names put) (setField names put a m) ms = Some b" using Cons.prems(1) by simp
      fix c
      assume "setField names put a m = Some c"
      then show "P c" using Cons.prems(2) assms(3) by (auto simp: setField_def split: option.splits)
    qed
  qed auto
  then show ?thesis using assms(1,2) by (auto simp: decObj_def split: if_splits list.splits)
qed

definition in_range :: "goal_state \<Rightarrow> bool" where
  "in_range st \<longleftrightarrow> gsEvaluations st < 2 ^ 63 \<and> gsBlockerStreak st < 2 ^ 63"

lemma decInt_range: "decInt raw x = Some n \<Longrightarrow> x < 2 ^ 63 \<Longrightarrow> n < 2 ^ 63"
  by (auto simp: decInt_def Let_def split: if_splits)

lemma decodeState_facts:
  assumes "decodeState_g data = Inr st"
  shows "gsVersion st = 1" "validateCondition (gsCondition st) = Inr (gsCondition st)"
    "0 \<le> gsEvaluations st" "0 \<le> gsBlockerStreak st" "in_range st"
proof -
  from assms obtain s u where u: "unmarshalState_g s = Some u" "checkState_g u = Inr st"
    by (auto simp: decodeState_g_def okE split: option.splits)
  have "in_range u"
    by (rule decObj_invariant [OF u(1) [unfolded unmarshalState_g_def]])
      (auto simp: in_range_def zero_goal_state_def putState_g_def dest: decInt_range split: if_splits)
  with u(2) show "in_range st" by (auto simp: checkState_g_def in_range_def Let_def okE split: option.splits)
  from u(2) show "gsVersion st = 1" "0 \<le> gsEvaluations st" "0 \<le> gsBlockerStreak st"
    by (auto simp: checkState_g_def validateCounts_def Let_def okE split: option.splits)
  from u(2) show "validateCondition (gsCondition st) = Inr (gsCondition st)"
    by (auto simp: checkState_g_def Let_def okE validateCondition_again [of "gsCondition u"] split: option.splits)
qed

subsection \<open>Every encoding succeeds\<close>

text \<open>What the encodings need of the state after an evaluation.\<close>

definition encodable :: "goal_state \<Rightarrow> bool" where
  "encodable st \<longleftrightarrow> gsVersion st = 1 \<and> runeCount (gsCondition st) \<le> 4000 \<and> 0 \<le> gsEvaluations st \<and>
     0 \<le> gsBlockerStreak st \<and> in_range st \<and> len (gsBlockerKey st) \<le> 4096 \<and>
     (case gsLast st of None \<Rightarrow> False | Some r \<Rightarrow> validOutcome (erOutcome r) \<and> len (erReason r) \<le> 4096 \<and>
        len (erNextStep r) \<le> 4096 \<and> len (erBlockerKey r) \<le> 4096)"

lemma outcome_length: "validOutcome x \<Longrightarrow> len (quote (outcomeText x)) \<le> 110"
  using quote_length(2) [of "outcomeText x"] by (cases x) (simp_all add: validOutcome_def)

lemma encodeState_ok:
  assumes "encodable st"
  shows "\<exists>data. encodeJSON_g name (Some (marshalState_g st)) = Inr data"
proof -
  obtain r where r: "gsLast st = Some r" using assms by (auto simp: encodable_def split: option.splits)
  let ?rec = "[(''outcome'', quote (outcomeText (erOutcome r))), (''reason'', quote (erReason r))] @
      unless_empty ''next_step'' (erNextStep r) @ unless_empty ''blocker_key'' (erBlockerKey r)"
  have "len (quote (erReason r)) \<le> 24578" "len (quote (erNextStep r)) \<le> 24578" "len (quote (erBlockerKey r)) \<le> 24578"
    "len (quote (outcomeText (erOutcome r))) \<le> 110"
    using assms r quote_length(2) [of "erReason r"] quote_length(2) [of "erNextStep r"] quote_length(2) [of "erBlockerKey r"]
      outcome_length [of "erOutcome r"] by (simp_all add: encodable_def)
  then have rec: "len (marshalRecord_g r) \<le> 75000"
    using encObj_length [of ?rec] unfolding marshalRecord_g_def by (simp add: unless_empty_def split: if_splits)
  have "len (quote (gsCondition st)) \<le> 24002" "len (quote (gsBlockerKey st)) \<le> 24578" "len (showInt (gsVersion st)) \<le> 19"
    "len (showInt (gsEvaluations st)) \<le> 19" "len (showInt (gsBlockerStreak st)) \<le> 19"
    using assms quote_length(1) [of "gsCondition st"] quote_length(2) [of "gsBlockerKey st"]
      showInt_length [of "gsEvaluations st"] showInt_length [of "gsBlockerStreak st"] showInt_length [of 1]
    by (simp_all add: encodable_def in_range_def)
  then have "len (marshalState_g st) \<le> 262144"
    using encObj_length [of "stateMembers st"] rec r unfolding marshalState_g_def
    by (simp add: stateMembers_def unless_empty_def unless_zero_def split: if_splits)
  moreover have "json_valid (marshalState_g st)"
    unfolding marshalState_g_def using assms
    by (intro encObj_valid [OF state_members_jval]) (simp_all add: encodable_def stateMembers_def)
  ultimately show ?thesis by (simp add: encodeJSON_g_def validateJSON_g_def)
qed

lemma encodeInput_ok:
  assumes "encodable st" "len (eoReason r) \<le> 4096" "eoFeedback r = None"
  shows "\<exists>data. encodeWorkInput st r = Inr data"
proof -
  let ?ms = "[(''kind'', quote ''goal''), (''condition'', quote (gsCondition st)), (''evaluation'', showInt (gsEvaluations st))]
      @ unless_empty ''reason'' (eoReason r)"
  have "len (quote (gsCondition st)) \<le> 24002" "len (quote (eoReason r)) \<le> 24578" "len (showInt (gsEvaluations st)) \<le> 19"
    "len (quote ''goal'') \<le> 26"
    using assms quote_length(1) [of "gsCondition st"] quote_length(2) [of "eoReason r"] quote_length(2) [of "''goal''"]
      showInt_length [of "gsEvaluations st"] by (simp_all add: encodable_def in_range_def)
  then have "len (encObj ?ms) \<le> 262144"
    using encObj_length [of ?ms] by (simp add: unless_empty_def split: if_splits)
  moreover have "json_valid (encObj ?ms)"
    using assms by (intro encObj_valid [of _ 0]) (auto simp: unless_empty_def jval_quote jval_showInt encodable_def)
  ultimately show ?thesis
    using assms by (simp add: encodeWorkInput_def encodeJSON_g_def marshalInput_def rawField_def validateJSON_g_def)
qed

lemma encodeSummary_ok:
  assumes "encodable st"
  shows "\<exists>data. encodeSummary_g st = Inr data"
proof -
  obtain r where r: "gsLast st = Some r" using assms by (auto simp: encodable_def split: option.splits)
  let ?ms = "[(''condition'', quote (gsCondition st)), (''evaluations'', showInt (gsEvaluations st)),
      (''outcome'', quote (outcomeText (erOutcome r))), (''reason'', quote (erReason r))]"
  have "len (quote (gsCondition st)) \<le> 24002" "len (quote (erReason r)) \<le> 24578" "len (showInt (gsEvaluations st)) \<le> 19"
    "len (quote (outcomeText (erOutcome r))) \<le> 110"
    using assms r quote_length(1) [of "gsCondition st"] quote_length(2) [of "erReason r"] outcome_length [of "erOutcome r"]
      showInt_length [of "gsEvaluations st"] by (simp_all add: encodable_def in_range_def)
  then have "len (encObj ?ms) \<le> 262144" using encObj_length [of ?ms] by simp
  moreover have "json_valid (encObj ?ms)"
    using assms by (intro encObj_valid [of _ 0]) (auto simp: jval_quote jval_showInt encodable_def)
  ultimately show ?thesis
    using r by (simp add: encodeSummary_g_def encodeJSON_g_def marshalSummary_g_def validateJSON_g_def)
qed

definition small_result :: "evaluation_result \<Rightarrow> bool" where
  "small_result r \<longleftrightarrow> validateResult r = None \<and> eoFeedback r = None \<and> len (eoNextStep r) \<le> 4096 \<and> len (eoBlockerKey r) \<le> 4096"

lemma decideOn_succeeds:
  assumes "decodeState_g data = Inr st" "small_result r" "gsEvaluations st \<noteq> 2 ^ 63 - 1"
  shows "\<exists>d. decideOn st r av = Inr d"
proof -
  note f = decodeState_facts [OF assms(1)]
  have v: "validateResult r = None" "validOutcome (eoOutcome r)" "len (eoReason r) \<le> 4096"
    using assms(2) by (auto simp: small_result_def validateResult_def validateResultFields_def validateReason_g_def)
  have c: "runeCount (gsCondition st) \<le> 4000" using f(2) by (auto simp: validateCondition_def Let_def split: if_splits)
  let ?st = "evaluatedState st r av"
  have key: "gsBlockerKey st = eoBlockerKey r \<Longrightarrow> len (gsBlockerKey st) \<le> 4096" using assms(2) by (simp add: small_result_def)
  have e: "encodable ?st"
    using f c v assms(2,3) key
    by (auto simp: encodable_def evaluatedState_def recordBlocker_def in_range_def small_result_def)
  obtain s where s: "encodeJSON_g ''controller state'' (Some (marshalState_g ?st)) = Inr s" using encodeState_ok [OF e] by blast
  obtain w where w: "encodeWorkInput ?st r = Inr w" using encodeInput_ok [OF e v(3)] assms(2) by (auto simp: small_result_def)
  obtain y where y: "encodeSummary_g ?st = Inr y" using encodeSummary_ok [OF e] by blast
  have "\<exists>d. outcomeDecision ?st r x = Inr d" for x
    using v(2) w y by (cases "eoOutcome r") (auto simp: outcomeDecision_def blockOnRepeatedBlocker_def Let_def validOutcome_def
        split: option.splits)
  then show ?thesis using v(1) assms(3) s by (auto simp: decideOn_def Let_def)
qed

lemma goalRun_accepts:
  assumes "prepareGoal s = Inr su" "utf8_ok (trimSpace s)" "\<forall>x \<in> set xs. round_utf8 x \<and> small_result (fst x)" "length xs < 2 ^ 63 - 1"
  shows "\<exists>d. goalRun (guControllerState su) xs = Inr d"
  using assms(3,4)
proof (induction xs rule: rev_induct)
  case Nil
  then show ?case by (simp add: goalRun_def)
next
  case (snoc x xs)
  then obtain c where c: "goalRun (guControllerState su) xs = Inr c" by auto
  from goalRun_state [OF c assms(1,2)] snoc.prems(1)
  obtain st where st: "decodeState_g (dcState c) = Inr st" "gsEvaluations st = int (length xs)" by auto
  have "int (length xs) \<noteq> 2 ^ 63 - 1" using snoc.prems(2) by simp
  with decideOn_succeeds [OF st(1), of "fst x"] snoc.prems(1) st(2)
  obtain d where "decideOn st (fst x) (dqActivation (snd x)) = Inr d" by auto
  then show ?case using c st(1) by (auto simp: goalRun_def goalRound_def goalDecision_def)
qed

text \<open>With the model evaluator only the length of the blocker key is left to bound.\<close>

lemma assessTwice_small:
  assumes "assessTwice gen payload cap = (r, b, None)" "calls_small gen" "len (eoBlockerKey r) \<le> 4096"
  shows "small_result r"
proof -
  obtain r0 b0 e0 r1 b1 e1 where a: "assess gen payload cap 0 = (r0, b0, e0)" "assess gen payload cap 1 = (r1, b1, e1)"
    by (metis prod_cases3)
  have "\<exists>x v. r = x\<lparr>eoUsage := v\<rparr> \<and> (\<exists>out w. x = outputResult out w \<and> checkOutput out x = None)"
    using assms(1) a assess_ok [of gen payload cap 0 r0 b0] assess_ok [of gen payload cap 1 r1 b1]
    by (auto simp: assessTwice_def split: if_splits)
  then obtain out w v where "r = (outputResult out w)\<lparr>eoUsage := v\<rparr>" "checkOutput out (outputResult out w) = None" by blast
  then have "eoFeedback r = None" "len (eoNextStep r) \<le> 4096" by (auto simp: checkOutput_def validateNextStep_def)
  then show ?thesis using assessTwice_ok [OF assms(1,2)] assms(3) by (simp add: small_result_def)
qed

lemma modelEvaluate_small:
  "modelEvaluate gen cap e = (r, None) \<Longrightarrow> calls_small gen \<Longrightarrow> len (eoBlockerKey r) \<le> 4096 \<Longrightarrow> small_result r"
  using assessTwice_small
  by (auto simp: modelEvaluate_def assessLoop_twice split: sum.splits prod.splits option.splits)

end
