(* ===== verification/LoopLaws.thy ===== *)
theory LoopLaws
  imports LoopPolicy GoalProgress
begin

section \<open>A loop without payloads\<close>

text \<open>
  The state of a Loop that carries no raw payload survives its encoding, so such a Loop can be run
  from what \<^verbatim>\<open>Prepare\<close> writes.
\<close>

definition plain_loop :: "loop_state \<Rightarrow> bool" where
  "plain_loop st \<longleftrightarrow> lsVersion st = 1 \<and> 0 \<le> lsIterations st \<and> lsIterations st < 2 ^ 63 \<and>
     lsWorkInput st = None \<and> lsPlannerState st = None \<and> (lsLast st = None \<longleftrightarrow> lsIterations st = 0) \<and>
     (case lsLast st of None \<Rightarrow> True | Some r \<Rightarrow> validateRecord_l r = None \<and> 0 \<le> prAfter r \<and> prAfter r < 2 ^ 63 \<and>
        utf8_ok (prSignalKey r) \<and> utf8_ok (prReason r))"

lemma jval_bool: "jval 0 (boolText b)"
proof -
  have n: "nest d (''true'' @ r) = (''true'' @ fst (nest d r), snd (nest d r))"
    "nest d (''false'' @ r) = (''false'' @ fst (nest d r), snd (nest d r))" for d r
    by simp_all
  have t: "takeValue (''true'' @ c # r) = (''true'', c # r)" "takeValue (''false'' @ c # r) = (''false'', c # r)"
    if "c \<in> {CHR '','', CHR ''}''}" for c r
    using that by (auto simp: takeValue_def lit_char_def json_space_def)
  have s: "foldl scan_step (SBeginValue, st) ''true'' = (SEndValue, st)"
    "foldl scan_step (SBeginValue, st) ''false'' = (SEndValue, st)" for st
    by (simp_all add: begin_value_def json_space_def is_digit_def)
  have h: "\<not> json_space (CHR ''t'')" "\<not> json_space (CHR ''f'')" by (simp_all add: json_space_def)
  show ?thesis
  proof (cases b)
    case True
    then show ?thesis unfolding jval_def boolText_def using n(1) t(1) s(1) h(1) by (simp del: nest_fold foldl_Cons append_Cons)
  next
    case False
    then show ?thesis unfolding jval_def boolText_def using n(2) t(2) s(2) h(2) by (simp del: nest_fold foldl_Cons append_Cons)
  qed
qed

lemma record_members_l:
  assumes "0 \<le> prAfter r"
  shows "\<forall>p \<in> set (recordMembers_l r). jval 0 (snd p)"
    "\<forall>p \<in> set (recordMembers_l r). utf8_ok (fst p) \<and> fst p \<in> set [''stop'', ''after'', ''signal_key'', ''reason'']"
    "recordMembers_l r \<noteq> []"
  using assms by (auto simp: recordMembers_l_def unless_zero_def unless_empty_def jval_bool jval_quote jval_showInt rune_width_def)

lemma unmarshalRecord_l_marshal:
  assumes "0 \<le> prAfter r" "prAfter r < 2 ^ 63" "utf8_ok (prSignalKey r)" "utf8_ok (prReason r)"
  shows "unmarshalRecord_l (encObj (recordMembers_l r)) zero_plan_record = Some r"
  unfolding unmarshalRecord_l_def decObj_encObj [OF record_members_l(1) [OF assms(1)] record_members_l(3) [OF assms(1)]
      record_members_l(2) [OF assms(1)]]
  using assms by (cases r) (auto simp: recordMembers_l_def unless_zero_def unless_empty_def putRecord_l_def zero_plan_record_def
    decStr_quote decInt_show clean_ok decBool_def boolText_def)

definition loopMembers :: "loop_state \<Rightarrow> (string \<times> string) list" where
  "loopMembers st = [(''version'', showInt (lsVersion st)), (''iterations'', showInt (lsIterations st))] @
     (case lsLast st of None \<Rightarrow> [] | Some r \<Rightarrow> [(''last'', encObj (recordMembers_l r))])"

lemma loop_members:
  assumes "plain_loop st"
  shows "marshalState_l st = Some (encObj (loopMembers st))" "\<forall>p \<in> set (loopMembers st). jval (Suc 0) (snd p)"
    "\<forall>p \<in> set (loopMembers st). utf8_ok (fst p) \<and> fst p \<in> set [''version'', ''iterations'', ''input'', ''planner_state'', ''last'']"
    "loopMembers st \<noteq> []"
proof -
  show "marshalState_l st = Some (encObj (loopMembers st))"
    using assms by (simp add: marshalState_l_def rawField_def loopMembers_def plain_loop_def)
  show "loopMembers st \<noteq> []" by (simp add: loopMembers_def)
  have "jval (Suc 0) (encObj (recordMembers_l r))" if "lsLast st = Some r" for r
    using assms that by (intro jval_object record_members_l(1,3)) (simp_all add: plain_loop_def)
  then show "\<forall>p \<in> set (loopMembers st). jval (Suc 0) (snd p)"
    using assms by (auto simp: loopMembers_def jval_showInt plain_loop_def split: option.splits)
  show "\<forall>p \<in> set (loopMembers st). utf8_ok (fst p) \<and> fst p \<in> set [''version'', ''iterations'', ''input'', ''planner_state'', ''last'']"
    by (auto simp: loopMembers_def rune_width_def split: option.splits)
qed

lemma decodeLoop_encode:
  assumes "plain_loop st" "encodeJSON_l name (marshalState_l st) = Inr data"
  shows "decodeState_l (Some data) = Inr st"
proof -
  note m = loop_members [OF assms(1)]
  have d: "data = encObj (loopMembers st)" "validateJSON_l (Some data) = None"
    using encodeJSON_l_ok [OF assms(2)] m(1) by (auto simp: validateJSON_l_c)
  have r: "decPtr unmarshalRecord_l zero_plan_record (encObj (recordMembers_l x)) None = Some (Some x)" if "lsLast st = Some x" for x
  proof -
    have "encObj (recordMembers_l x) \<noteq> ''null''" by (simp add: encObj_def)
    then show ?thesis using assms(1) that unmarshalRecord_l_marshal [of x] by (simp add: decPtr_def plain_loop_def)
  qed
  have "unmarshalState_l data = Some st"
    unfolding unmarshalState_l_def d(1) rawValue_object [OF m(2)] decObj_encObj [OF m(2) m(4) m(3)]
    using assms(1) r by (cases st; cases "lsLast st")
      (auto simp: loopMembers_def putState_l_def zero_loop_state_def decInt_show plain_loop_def)
  moreover have "checkState_l st = None"
    using assms(1) by (auto simp: checkState_l_def plain_loop_def validateJSON_l_def split: option.splits)
  ultimately show ?thesis using d(2) by (simp add: decodeState_l_def)
qed

lemma encodeLoop_ok:
  assumes "plain_loop st"
  shows "\<exists>data. encodeJSON_l name (marshalState_l st) = Inr data"
proof -
  note m = loop_members [OF assms]
  have rec: "len (encObj (recordMembers_l r)) \<le> 30000" if "lsLast st = Some r" for r
  proof -
    have "len (quote (prReason r)) \<le> 24578" "len (quote (prSignalKey r)) \<le> 1538" "len (showInt (prAfter r)) \<le> 19" "len (boolText (prStop r)) \<le> 5"
      using assms that quote_length(2) [of "prReason r"] quote_length(2) [of "prSignalKey r"] showInt_length [of "prAfter r"]
      by (simp_all add: plain_loop_def validateRecord_l_def validateReason_l_def validateSignalKey_def boolText_def)
    then show ?thesis using encObj_length [of "recordMembers_l r"]
      by (simp add: recordMembers_l_def unless_zero_def unless_empty_def split: if_splits)
  qed
  have "len (showInt (lsIterations st)) \<le> 19" "len (showInt (lsVersion st)) \<le> 19"
    using assms showInt_length [of "lsIterations st"] showInt_length [of 1] by (simp_all add: plain_loop_def)
  then have "len (encObj (loopMembers st)) \<le> 262144"
    using encObj_length [of "loopMembers st"] rec by (cases "lsLast st") (auto simp: loopMembers_def)
  then show ?thesis using encObj_valid [OF m(2) m(4)] m(1) by (simp add: encodeJSON_l_def validateJSON_l_def)
qed

lemma prepareLoop_plain:
  "\<exists>data. prepareLoop None = Inr (data, None) \<and> decodeState_l (Some data) = Inr (zero_loop_state\<lparr>lsVersion := 1\<rparr>)"
proof -
  have p: "plain_loop (zero_loop_state\<lparr>lsVersion := 1\<rparr>)" by (simp add: plain_loop_def zero_loop_state_def)
  obtain data where d: "encodeJSON_l ''controller state'' (marshalState_l (zero_loop_state\<lparr>lsVersion := 1\<rparr>)) = Inr data"
    using encodeLoop_ok [OF p] by blast
  have "zero_loop_state\<lparr>lsVersion := 1, lsWorkInput := None\<rparr> = zero_loop_state\<lparr>lsVersion := 1\<rparr>" by (simp add: zero_loop_state_def)
  with d decodeLoop_encode [OF p d] show ?thesis by (auto simp: prepareLoop_def validateJSON_l_def)
qed

text \<open>A plan with valid fields and no payload is decided; the wait is the plan's.\<close>

lemma planOn_waits:
  assumes "plain_loop st" "lsIterations st + 1 < 2 ^ 63" "validatePlan p = None" "\<not> plStop p" "plAfter p = 0"
    "plPlannerState p = None" "plNextWorkInput p = None" "utf8_ok (plSignalKey p)" "utf8_ok (plReason p)"
  shows "\<exists>d. planOn clock st p = (d, None) \<and> dcWait d = Some \<lparr>wcNotBefore = None, wcSignal = Some (plSignalKey p)\<rparr>
    \<and> dcAction d = ActionWait"
proof -
  have v: "validateReason_l (plReason p) True = None" "validateSignalKey (plSignalKey p) = None" "plSignalKey p \<noteq> []"
    using assms(3-5) by (auto simp: validatePlan_def validatePlanFields_def validatePlanAction_def)
  have "plain_loop (plannedState st p)"
    using assms v by (simp add: plain_loop_def plannedState_def validateRecord_l_def validatePlanAction_def planOfRecord_def zero_plan_def)
  then obtain data where "encodeJSON_l ''controller state'' (marshalState_l (plannedState st p)) = Inr data"
    using encodeLoop_ok by blast
  then show ?thesis using assms v(3) by (simp add: planOn_def Let_def planDecision_def waitCondition_def)
qed

end
