(* ===== verification/PolicyClaims.thy ===== *)
theory PolicyClaims
  imports ContScenario LoopLaws
begin

section \<open>The properties of the policies\<close>

text \<open>
  What the goal and the loop controller promise the continuation engine and their users. The
  witnesses run both controllers from the state their own \<^verbatim>\<open>Prepare\<close> writes.
\<close>

subsection \<open>Concrete rounds\<close>

definition askOf :: "string option \<Rightarrow> activation option \<Rightarrow> decision_request" where
  "askOf st av = \<lparr>dqExecution = ''job'', dqAttemptID = ''a1'', dqAttempt = 1, dqTarget = \<lparr>tgKind = ''report'', tgID = ''42''\<rparr>,
     dqWork = jobResult, dqActivation = av, dqState = st, dqLimits = jobLimits, dqAccounting = zero_accounting\<rparr>"

definition stuck :: evaluation_result where
  "stuck = zero_evaluation_result\<lparr>eoOutcome := OutcomeBlocked, eoReason := ''no key'', eoNextStep := ''add it'',
     eoBlockerKey := ''api_key''\<rparr>"

definition keyedPlan :: "string \<Rightarrow> plan" where
  "keyedPlan key = zero_plan\<lparr>plSignalKey := key, plReason := ''wait''\<rparr>"

definition longKey :: string where
  "longKey = replicate 129 (CHR ''k'')"

lemma nonblank: "c \<in> set s \<Longrightarrow> code c < 128 \<Longrightarrow> \<not> space1 c \<Longrightarrow> \<not> blank s"
  using blank_chars by fastforce

lemma stuck_small: "small_result stuck"
proof -
  have b: "\<not> blank ''no key''" "\<not> blank ''add it''" "\<not> blank (''no key'' @ t)" for t
    by (rule nonblank [of "CHR ''n''"] nonblank [of "CHR ''d''"]; simp add: space1_def)+
  have o: "eoOutcome stuck = OutcomeBlocked" "eoReason stuck = ''no key''" "eoNextStep stuck = ''add it''"
    "eoBlockerKey stuck = ''api_key''" "eoFeedback stuck = None" "eoOutput stuck = None" "eoBlock stuck = None"
    "eoUsage stuck = zero_usage"
    by (simp_all add: stuck_def zero_evaluation_result_def)
  have "validateReason_g (blockedMessage stuck) True = None" "validateReason_g (eoReason stuck) True = None"
    unfolding blockedMessage_def o validateReason_g_def using b by (simp_all del: blank.simps append_Cons)
  then show ?thesis unfolding small_result_def validateResult_def validateResultFields_def validateResultOutcome_def o
    by (simp add: validOutcome_def validateJSON_g_def validUsage_def zero_usage_def)
qed

lemma stuck_utf8: "round_utf8 (stuck, askOf None None)"
  by (simp add: round_utf8_def stuck_def zero_evaluation_result_def rune_width_def)

lemma ship_it: "trimSpace '' ship it '' = ''ship it''" "utf8_ok ''ship it''" "runeCount ''ship it'' \<le> 4000"
  by (simp_all add: trimSpace_def space1_def space2_def space3_def rune_width_def)

lemma ship_prepared: "\<exists>su. prepareGoal '' ship it '' = Inr su"
  by (rule prepareGoal_accepts [of _ "''ship it''"]) (use ship_it in \<open>simp add: validateCondition_def Let_def\<close>)

text \<open>A model that always says the work goes on.\<close>

definition goingOn :: evaluation_call where
  "goingOn _ _ _ = (\<lparr>moDecision = ''continue'', moEvidence = ''half done'', moNextStep = ''go on'', moBlockerKey = []\<rparr>,
     Some (zero_usage\<lparr>InputTokens := 5\<rparr>), None)"

lemma goingOn_small: "calls_small goingOn"
  by (simp add: calls_small_def goingOn_def usage_small_def zero_usage_def)

lemma goingOn_answer:
  "\<exists>r. modelEvaluate goingOn 0 (evaluationOf (zero_goal_state\<lparr>gsVersion := 1, gsCondition := ''ship it''\<rparr>) (askOf x None)) = (r, None)
     \<and> eoBlockerKey r = []"
proof -
  let ?e = "evaluationOf (zero_goal_state\<lparr>gsVersion := 1, gsCondition := ''ship it''\<rparr>) (askOf x None)"
  have e: "evCondition ?e = ''ship it''" "evTranscript ?e = []" "evPlan ?e = []" "evAttempt ?e = 1" "evEvidence ?e = Some ''2''"
    "evPrevious ?e = None" "evAccounting ?e = zero_accounting" "evLimits ?e = jobLimits"
    by (simp_all add: evaluationOf_def askOf_def zero_goal_state_def jobResult_def)
  have c: "validateCondition ''ship it'' = Inr ''ship it''"
    using validateCondition_again [of "'' ship it ''" "''ship it''"] ship_it by (simp add: validateCondition_def Let_def)
  have "json_valid ''2''" by code_simp
  then have v: "validateEvaluationRequest ?e = Inr ''ship it''"
    unfolding validateEvaluationRequest_def e
    by (simp add: c validateJSON_g_def validAccounting_g_def zero_accounting_def validUsage_def zero_usage_def jobLimits_def zero_limits_def)
  have "len (quote ''ship it'') \<le> 44" "len (quote []) \<le> 2"
    using quote_length(2) [of "''ship it''"] quote_length(2) [of "[]"] by simp_all
  then have "len (evaluationPayload ''ship it'' ?e) \<le> 524288"
    using encObj_length [of "[(''objective'', quote ''ship it''), (''transcript'', quote []), (''plan'', quote [])]"]
    unfolding evaluationPayload_def e by simp
  then have p: "prepareEvaluation 0 ?e = Inr (evaluationPayload ''ship it'' ?e, None)"
    by (simp add: prepareEvaluation_def v responseMaxTokens_g_def)
  have b: "\<not> blank ''half done''" "\<not> blank ''go on''"
    by (rule nonblank [of "CHR ''o''"]; simp add: space1_def)+
  have "assessTwice goingOn payload None = ((outputResult (fst (goingOn 0 [] None)) (zero_usage\<lparr>InputTokens := 5\<rparr>))
      \<lparr>eoUsage := usageAdd zero_usage (zero_usage\<lparr>InputTokens := 5\<rparr>)\<rparr>, False, None)" for payload
    using b by (simp add: assessTwice_def assess_def goingOn_def Let_def zero_evaluation_result_def zero_usage_def checkOutput_def
        outcomeFor_def validateReason_g_def validateNextStep_def validateBlockerKey_def trimSpace_def del: blank.simps)
  then show ?thesis
    by (simp add: modelEvaluate_def p assessLoop_twice goingOn_def trimSpace_def)
qed

lemma longKey_facts: "utf8_ok longKey" "len longKey = 129" "\<not> blank longKey" "longKey \<noteq> []"
proof -
  have "utf8_ok (replicate n (CHR ''k''))" for n by (induction n) (simp_all add: rune_width_def)
  then show "utf8_ok longKey" by (simp add: longKey_def)
  show "len longKey = 129" "longKey \<noteq> []" by (simp_all add: longKey_def len_def)
  have "CHR ''k'' \<in> set longKey" by (simp add: longKey_def)
  then show "\<not> blank longKey" using blank_chars [of longKey "CHR ''k''"] by (auto simp: space1_def)
qed

lemma loop_keyed: "\<exists>data d. prepareLoop None = Inr (data, None) \<and>
    loopDecide (\<lambda>_. (keyedPlan longKey, None)) (GTime 5 0) (askOf (Some data) None) = (d, None) \<and>
    dcWait d = Some \<lparr>wcNotBefore = None, wcSignal = Some longKey\<rparr>"
proof -
  let ?st = "zero_loop_state\<lparr>lsVersion := 1\<rparr>"
  obtain data where data: "prepareLoop None = Inr (data, None)" "decodeState_l (Some data) = Inr ?st"
    using prepareLoop_plain by blast
  have wait: "\<not> blank ''wait''" by (rule nonblank [of "CHR ''w''"]) (simp_all add: space1_def)
  have "validatePlan (keyedPlan longKey) = None"
    using longKey_facts by (simp add: validatePlan_def validatePlanFields_def validatePlanAction_def keyedPlan_def zero_plan_def
        validateReason_l_def validateSignalKey_def validateJSON_l_def validUsage_def zero_usage_def wait del: blank.simps)
  moreover have "plain_loop ?st" "lsIterations ?st = 0" by (simp_all add: plain_loop_def zero_loop_state_def)
  moreover have "utf8_ok ''wait''" by (simp add: rune_width_def)
  ultimately obtain d where "planOn (GTime 5 0) ?st (keyedPlan longKey) = (d, None)"
    "dcWait d = Some \<lparr>wcNotBefore = None, wcSignal = Some longKey\<rparr>"
    using planOn_waits [of ?st "keyedPlan longKey" "GTime 5 0"] longKey_facts(1)
    by (auto simp: keyedPlan_def zero_plan_def simp del: utf8_ok.simps)
  with data show ?thesis by (auto simp: loopDecide_def askOf_def zero_loop_state_def)
qed

subsection \<open>The contract with the engine\<close>

text \<open>
  C35. Neither controller is ever the reason a Decision stage fails validation: with the goal
  controller, whatever its evaluator answers, or the loop controller, whatever its planner answers and
  on any clock from the zero time on, the engine's check of the decision changes nothing, so the stage
  ends with exactly what the controller returned.
\<close>

theorem controllers_pass_validation:
  assumes "haController h = Some (goalDecide ev)" "haController h' = Some (loopDecide pl clock)" "0 \<le> instant clock"
  shows "checkedDecision (runController h q) = goalDecide ev q \<and> checkedDecision (runController h' q) = loopDecide pl clock q"
  using goalc.runs [OF assms(1)] cont_controller.runs [OF loop_controller [OF assms(3)] assms(2)] by simp

theorem controllers_pass_validation_witness:
  "\<exists>data d. checkedDecision (runController ((jobHandlers ActionWait)\<lparr>haController := Some (loopDecide (\<lambda>_. (keyedPlan longKey, None)) (GTime 5 0))\<rparr>)
     (askOf (Some data) None)) = (d, None) \<and> dcWait d = Some \<lparr>wcNotBefore = None, wcSignal = Some longKey\<rparr>"
proof -
  let ?l = "loopDecide (\<lambda>_. (keyedPlan longKey, None)) (GTime 5 0)" and ?g = "goalDecide (\<lambda>_. (stuck, None))"
  obtain data d where d: "?l (askOf (Some data) None) = (d, None)" "dcWait d = Some \<lparr>wcNotBefore = None, wcSignal = Some longKey\<rparr>"
    using loop_keyed by blast
  have h: "haController ((jobHandlers ActionWait)\<lparr>haController := Some ?g\<rparr>) = Some ?g"
    "haController ((jobHandlers ActionWait)\<lparr>haController := Some ?l\<rparr>) = Some ?l" by simp_all
  from controllers_pass_validation [OF h, of "askOf (Some data) None"] d show ?thesis by auto
qed

subsection \<open>The goal\<close>

text \<open>
  C36. \<^verbatim>\<open>Prepare\<close> accepts exactly the conditions that are not empty after trimming and have at most 4000
  runes, and what it writes reads back: \<^verbatim>\<open>DecodeState\<close> of the controller state is the fresh state of
  the trimmed condition, \<^verbatim>\<open>DecodeWorkInput\<close> of the Work input its envelope. (JSON cannot carry invalid
  UTF-8, so the condition must be valid.)
\<close>

theorem goal_prepare_roundtrip:
  assumes "utf8_ok (trimSpace s)"
  shows "((\<exists>su. prepareGoal s = Inr su) \<longleftrightarrow> trimSpace s \<noteq> [] \<and> runeCount (trimSpace s) \<le> 4000) \<and>
    (\<forall>su. prepareGoal s = Inr su \<longrightarrow>
       decodeState_g (guControllerState su) = Inr (zero_goal_state\<lparr>gsVersion := 1, gsCondition := trimSpace s\<rparr>) \<and>
       decodeWorkInput (guWorkInput su) = Inr (zero_goal_input\<lparr>giKind := ''goal'', giCondition := trimSpace s\<rparr>))"
proof -
  have "(\<exists>c. validateCondition s = Inr c) \<longleftrightarrow> trimSpace s \<noteq> [] \<and> runeCount (trimSpace s) \<le> 4000"
    by (simp add: validateCondition_def Let_def)
  moreover have "(\<exists>su. prepareGoal s = Inr su) \<longleftrightarrow> (\<exists>c. validateCondition s = Inr c)"
    using prepareGoal_accepts by (auto simp: prepareGoal_def okE)
  ultimately show ?thesis using decode_prepared [OF _ assms] by blast
qed

theorem goal_prepare_roundtrip_witness:
  "\<exists>su. prepareGoal '' ship it '' = Inr su \<and>
     decodeState_g (guControllerState su) = Inr (zero_goal_state\<lparr>gsVersion := 1, gsCondition := ''ship it''\<rparr>)"
  using goal_prepare_roundtrip [of "'' ship it ''"] ship_it by (simp del: utf8_ok.simps runeCount.simps) blast

text \<open>
  C37. In a run of decisions from a prepared Goal, each fed the state of the one before, the last
  decision blocks exactly when the last three evaluations were blocked, named the same blocker, and
  neither of the last two rounds began with an activation (the creation, a wake, or the resolution of
  a block).
\<close>

theorem goal_blocks_on_repeated_blocker:
  assumes "prepareGoal s = Inr su" "utf8_ok (trimSpace s)"
    and "goalRun (guControllerState su) xs = Inr d" "xs \<noteq> []" "\<forall>x \<in> set xs. round_utf8 x"
  shows "dcAction d = ActionBlock \<longleftrightarrow> repeatedBlocker xs"
  using goalRun_state [OF assms(3,1,2,5)] assms(4) by blast

theorem goal_blocks_on_repeated_blocker_witness:
  "\<exists>su d. prepareGoal '' ship it '' = Inr su \<and>
     goalRun (guControllerState su) (replicate 3 (stuck, askOf None None)) = Inr d \<and> dcAction d = ActionBlock"
proof -
  let ?xs = "replicate 3 (stuck, askOf None None)"
  obtain su where su: "prepareGoal '' ship it '' = Inr su" using ship_prepared by blast
  have u: "utf8_ok (trimSpace '' ship it '')" using ship_it by simp
  have x: "\<forall>x \<in> set ?xs. round_utf8 x \<and> small_result (fst x)" using stuck_utf8 stuck_small by simp
  obtain d where d: "goalRun (guControllerState su) ?xs = Inr d" using goalRun_accepts [OF su u x] by auto
  have "repeatedBlocker ?xs"
    by (simp add: repeatedBlocker_def numeral_3_eq_3 blockedRound_def sameRun_def stuck_def askOf_def)
  with goal_blocks_on_repeated_blocker [OF su u d] x su d show ?thesis by auto
qed

text \<open>
  C38. A Goal whose state decodes and whose model evaluator answers reaches a decision, and one the
  engine accepts: its result passes the controller's checks, and state, envelope and summary fit their
  256 KiB. The evaluations must not be exhausted, the blocker key is at most 4 KiB and the token
  counts of a call are below 2^61.
\<close>

theorem model_goal_decides:
  assumes "decodeState_g (dqState q) = Inr st" "gsEvaluations st \<noteq> 2 ^ 63 - 1" "calls_small gen"
    and "modelEvaluate gen cap (evaluationOf st q) = (r, None)" "len (eoBlockerKey r) \<le> 4096"
  shows "\<exists>d. goalDecide (modelEvaluate gen cap) q = (d, None) \<and> validateDecision d = None"
proof -
  have "small_result r" by (rule modelEvaluate_small [OF assms(4,3,5)])
  from decideOn_succeeds [OF assms(1) this assms(2)]
  obtain d where "decideOn st r (dqActivation q) = Inr d" by blast
  then have "goalDecide (modelEvaluate gen cap) q = (d, None)"
    using assms(1,4) by (simp add: goalDecide_def goalDecision_def)
  then show ?thesis using goalDecide_valid by blast
qed

theorem model_goal_decides_witness:
  "\<exists>su d. prepareGoal '' ship it '' = Inr su \<and>
     goalDecide (modelEvaluate goingOn 0) (askOf (guControllerState su) None) = (d, None) \<and> validateDecision d = None"
proof -
  obtain su where su: "prepareGoal '' ship it '' = Inr su" using ship_prepared by blast
  have u: "utf8_ok (trimSpace '' ship it '')" using ship_it by simp
  let ?st = "zero_goal_state\<lparr>gsVersion := 1, gsCondition := ''ship it''\<rparr>"
  have st: "decodeState_g (dqState (askOf (guControllerState su) None)) = Inr ?st"
    using decode_prepared(1) [OF su u] ship_it by (simp add: askOf_def)
  obtain r where r: "modelEvaluate goingOn 0 (evaluationOf ?st (askOf (guControllerState su) None)) = (r, None)" "eoBlockerKey r = []"
    using goingOn_answer by blast
  have "gsEvaluations ?st \<noteq> 2 ^ 63 - 1" by (simp add: zero_goal_state_def)
  from model_goal_decides [OF st this goingOn_small r(1)] r(2) su show ?thesis by auto
qed

text \<open>
  When the evaluator fails, the tokens it used are lost: its result carries them, but the decision
  beside the error is the zero value, so the accounting of the execution does not grow, and a token
  limit is never charged for evaluations that fail.
\<close>

theorem goal_error_drops_usage:
  assumes "decodeState_g (dqState q) = Inr st" "ev (evaluationOf st q) = (r, Some e)" "accounting_i64 a" "accounting_nonneg a"
  shows "goalDecide ev q = (zero_decision, Some (Foreign ''goal: evaluate condition'' (Some e))) \<and>
    addDecisionAccounting a (fst (goalDecide ev q)) = a"
proof -
  have g: "goalDecide ev q = (zero_decision, Some (Foreign ''goal: evaluate condition'' (Some e)))"
    by (rule goalDecide_evaluator_error [OF assms(1)]) (simp add: assms(2))
  have "usageAdd (acUsage a) zero_usage = acUsage a"
    using assms(3,4) by (cases "acUsage a")
      (simp add: usageAdd_def zero_usage_def accounting_i64_def accounting_nonneg_def validUsage_def i64_id)
  then show ?thesis unfolding g by (simp add: addDecisionAccounting_def zero_decision_def)
qed

theorem goal_error_drops_usage_witness:
  "\<exists>su. prepareGoal '' ship it '' = Inr su \<and>
     addDecisionAccounting zero_accounting (fst (goalDecide (\<lambda>_. (stuck\<lparr>eoUsage := zero_usage\<lparr>InputTokens := 900\<rparr>\<rparr>, Some DeadlineExceeded))
       (askOf (guControllerState su) None))) = zero_accounting"
proof -
  obtain su where su: "prepareGoal '' ship it '' = Inr su" using ship_prepared by blast
  have u: "utf8_ok (trimSpace '' ship it '')" using ship_it by simp
  have st: "decodeState_g (dqState (askOf (guControllerState su) None)) = Inr (zero_goal_state\<lparr>gsVersion := 1, gsCondition := ''ship it''\<rparr>)"
    using decode_prepared(1) [OF su u] ship_it by (simp add: askOf_def)
  have "accounting_i64 zero_accounting" "accounting_nonneg zero_accounting"
    by (simp_all add: accounting_i64_def accounting_nonneg_def validUsage_def zero_accounting_def zero_usage_def)
  from goal_error_drops_usage [OF st _ this, of "\<lambda>_. (stuck\<lparr>eoUsage := zero_usage\<lparr>InputTokens := 900\<rparr>\<rparr>, Some DeadlineExceeded)"] su
  show ?thesis by blast
qed

subsection \<open>The loop\<close>

text \<open>
  C40. A Loop can wait for ever. The loop controller accepts signal keys of up to 256 bytes and the
  engine accepts the wait, but \<open>Signal\<close> refuses keys of more than 128 bytes: a wait for such a key alone
  is not ended by any signal the engine accepts.
\<close>

theorem loop_signal_key_never_matches:
  assumes "loopDecide pl clock q = (d, None)" "dcWait d = Some w" "wcNotBefore w = None" "wcSignal w = Some key" "128 < len key"
    and "exStatus e = StatusWaiting" "exWait e = dcWait d" "0 \<le> instant clock"
  shows "validateDecision d = None \<and> len key \<le> 256 \<and>
    (\<forall>sg now. validateSignal sg = None \<longrightarrow> deliverSignal sg now e = Refuse ErrSignalMismatch)"
proof -
  have "validateDecision d = None" by (rule loopDecide_valid [OF assms(1)]) (use assms(8) in \<open>auto simp: Let_def\<close>)
  moreover have "len key \<le> 256" using wait_key [OF assms(1,2,4)] by blast
  ultimately show ?thesis using long_key [OF _ assms(4,5) _ assms(6)] assms(2,7) by simp
qed

theorem loop_signal_key_never_matches_witness:
  "\<exists>data d. prepareLoop None = Inr (data, None) \<and>
     loopDecide (\<lambda>_. (keyedPlan longKey, None)) (GTime 5 0) (askOf (Some data) None) = (d, None) \<and>
     deliverSignal jobSignal (GTime 30 0) ((jobExec (job2 ActionWait))\<lparr>exWait := dcWait d\<rparr>) = Refuse ErrSignalMismatch"
proof -
  obtain data d where d: "prepareLoop None = Inr (data, None)"
    "loopDecide (\<lambda>_. (keyedPlan longKey, None)) (GTime 5 0) (askOf (Some data) None) = (d, None)"
    "dcWait d = Some \<lparr>wcNotBefore = None, wcSignal = Some longKey\<rparr>" using loop_keyed by blast
  let ?e = "(jobExec (job2 ActionWait))\<lparr>exWait := dcWait d\<rparr>"
  have st: "exStatus ?e = StatusWaiting" "exWait ?e = dcWait d" using job2_status(3) by simp_all
  have b: "validateSignal jobSignal = None" by code_simp
  from loop_signal_key_never_matches [OF d(2,3) _ _ _ st, of longKey] b longKey_facts(2) d(1,2) show ?thesis by auto
qed

end
