(* ===== verification/ContClaims.thy ===== *)
theory ContClaims
  imports ContScenario
begin

section \<open>Continuation: the properties\<close>

text \<open>
  Each property is stated for the in-memory store with any record encoding \<open>enc\<close>, and followed by a
  witness on the run of \<open>ContScenario\<close>. \<open>cont_system\<close>: every log of the store is a history of steps;
  \<open>cont_grew\<close>: logs only grew, and still are; \<open>cont_others\<close>: what other goroutines may do.
\<close>

abbreviation "cont_system enc \<equiv> csys (cmem_inv enc) memLog_c"
abbreviation "cont_grew enc \<equiv> cext (cmem_inv enc) memLog_c"
abbreviation "cont_others enc \<equiv> crely (cmem_inv enc) memLog_c"
abbreviation "cont_log s k \<equiv> memLog_c (enStore s) k"
abbreviation "on_log s k e \<equiv> \<exists>rc \<in> set (cont_log s k). e = rcExecution rc"

subsection \<open>Refinement of the step machine\<close>

text \<open>
  C18. \<open>Advance\<close> refines the step machine: whatever other goroutines of the engine do meanwhile, the
  log of every execution only grows, by records that are steps of the machine and keep the
  invariant; and an \<open>Advance\<close> without an error returns an execution that is on record.
\<close>

theorem advance_refines_machine:
  assumes "cont_system enc s" "cont_others enc k ce" "handlers_i64 h"
    and "advance (cont_memory_ops enc) ce k expected h s = ((e, err), s')"
  shows "cont_grew enc s s' \<and> (err = None \<longrightarrow> on_log s' k e)"
  using cmem.advance_spec [OF assms] by (simp add: cmem.result_ok_def)

theorem advance_refines_machine_witness: "cont_grew jobEnc job1 (job2 ActionContinue)"
proof -
  obtain e err where "advance jobOps (calm 20 ''a1'') ''job'' 1 (jobHandlers ActionContinue) job1 =
      ((e, err), job2 ActionContinue)" unfolding job2_def by (metis prod.exhaust snd_conv)
  from advance_refines_machine [OF job1_sys calm_rely jobHandlers_i64 this] show ?thesis by blast
qed

text \<open>
  C19. So do the control operations, \<open>Get\<close> with its recovery, \<open>Create\<close> and \<open>Drive\<close>.
\<close>

theorem operations_refine_machine:
  assumes sys: "cont_system enc s" and rel: "\<And>n. cont_others enc k (ces n)" and h: "handlers_i64 h"
  shows "(controlOp (cont_memory_ops enc) (ces 0) k expected c s = ((e, err), s1) \<longrightarrow>
      cont_grew enc s s1 \<and> (err = None \<longrightarrow> on_log s1 k e)) \<and>
    (engineGet_c (cont_memory_ops enc) (ces 0) k s = (g, s2) \<longrightarrow>
      cont_grew enc s s2 \<and> (\<forall>e. g = Inr e \<longrightarrow> on_log s2 k e)) \<and>
    (engineCreate_c (cont_memory_ops enc) (ces 0) r s = (q, s3) \<longrightarrow>
      cont_grew enc s s3 \<and> (\<forall>e. q = Inr e \<longrightarrow> on_log s3 (exID e) e)) \<and>
    (drive (cont_memory_ops enc) (ces 0) ces k expected h m gt s = ((d, derr), s4) \<longrightarrow> cont_grew enc s s4)"
  (is "?control \<and> ?get \<and> ?create \<and> ?drive")
proof (intro conjI)
  show ?control using cmem.controlOp_spec [OF sys rel] by metis
  show ?get using cmem.get_spec [OF sys rel] by metis
  show ?create using cmem.create_result [OF sys rel] by metis
  show ?drive using cmem.drive_spec [where ces = ces, OF sys rel [of 0] rel h] by blast
qed

theorem operations_refine_machine_witness: "cont_grew jobEnc job0 job1"
proof -
  obtain q where "engineCreate_c jobOps (calm 10 ''x'') jobRequest job0 = (q, job1)"
    unfolding job1_def by (metis prod.collapse)
  with operations_refine_machine [where ces = "\<lambda>_. calm 10 ''x''", OF job0_sys calm_rely jobHandlers_i64]
  show ?thesis by blast
qed

text \<open>
  C20. Every step of the machine keeps the invariant: beside what \<open>validateExecution\<close> checks, the
  current attempt is the last one counted and undecided, a running stage has no result yet, a waiting
  or blocked execution has no attempt under way, and a suspension can be resumed. The hypothesis on
  \<open>validateExecution\<close> is what the store checks of every record it writes.
\<close>

theorem steps_keep_invariant:
  assumes "exec_inv e" "exec_step e c e'" "validateExecution (e'\<lparr>exRevision := n, exUpdatedAt := t\<rparr>) = None"
  shows "exec_inv (e'\<lparr>exRevision := n, exUpdatedAt := t\<rparr>)"
  using step_inv [OF assms] .

theorem steps_keep_invariant_witness:
  "exec_inv ((startWork (jobExec job1) ''a1'' (GTime 20 0))\<lparr>exRevision := 2, exUpdatedAt := GTime 20 0\<rparr>)"
  by (rule steps_keep_invariant [OF job1_inv jobStart_step job1_ready(3)])

text \<open>
  C21. While a stage of an execution is reserved, other calls of the same engine cannot disturb it:
  \<open>Advance\<close> is refused, and \<open>Advance\<close>, the control operations, \<open>Signal\<close> and \<open>Get\<close> leave the reservation
  and append nothing but control operations (never a recovery or another stage).
\<close>

theorem reserved_stage_is_undisturbed:
  assumes sys: "cont_system enc s" and res: "creserved (cmem_inv enc) memLog_c k ce" and act: "activeStage s k \<noteq> None"
  shows "(advance (cont_memory_ops enc) ce k expected h s = ((e, err), s1) \<longrightarrow>
      cheld (cmem_inv enc) memLog_c k s s1 \<and> err \<noteq> None) \<and>
    (controlOp (cont_memory_ops enc) ce k expected c s = ((e, err), s2) \<longrightarrow> cheld (cmem_inv enc) memLog_c k s s2) \<and>
    (engineSignal (cont_memory_ops enc) ce k expected sg s = ((e, err), s3) \<longrightarrow> cheld (cmem_inv enc) memLog_c k s s3) \<and>
    (engineGet_c (cont_memory_ops enc) ce k s = (g, s4) \<longrightarrow> cheld (cmem_inv enc) memLog_c k s s4)"
  (is "?advance \<and> ?control \<and> ?signal \<and> ?get")
proof (intro conjI)
  show ?advance using cmem.advance_reserved [OF res sys act] by metis
  show ?control using cmem.controlOp_reserved [OF res sys act] by metis
  show ?signal using cmem.signal_reserved [OF res sys act] by metis
  show ?get using cmem.get_reserved [OF res sys act] by metis
qed

theorem reserved_stage_is_undisturbed_witness:
  "snd (fst (advance jobOps (calm 20 ''a2'') ''job'' 2 (jobHandlers ActionContinue) jobRun)) \<noteq> None"
proof -
  obtain e err s1 where r: "advance jobOps (calm 20 ''a2'') ''job'' 2 (jobHandlers ActionContinue) jobRun = ((e, err), s1)"
    by (metis prod.exhaust)
  from reserved_stage_is_undisturbed [OF jobRun_sys calm_reserved jobRun_state(1), of 20 "''a2''"] r
  have "err \<noteq> None" by blast
  with r show ?thesis by simp
qed

text \<open>
  C22. Finishing a Work stage reconciles with at most sixteen versions of the record, and that is
  always enough: under a reservation only three control operations can come between, so it never
  ends in a conflict. Without an error the record it returns is on record, and is terminal or the
  outcome of the stage computed from a record of the running attempt.
\<close>

theorem work_outcome_is_recorded:
  assumes "cont_system enc s" "activeStage s k \<noteq> None" "cont_others enc k ce" "cont_log s k \<noteq> []"
    and "in_stage PhaseWork a (rcExecution (last (cont_log s k)))"
    and "wrTurns r < 2 ^ 63" "i64_usage (wrUsage r)" "exID (rcExecution running) = k"
    and "finishWork (cont_memory_ops enc) ce running r werr s = ((rc, err), s')"
  shows "rc \<in> set (cont_log s' k) \<and> (\<forall>x. err = Some x \<longrightarrow> \<not> errorsIs_c x ErrConflict) \<and>
    (err = None \<longrightarrow> terminal (exStatus (rcExecution rc)) \<or>
       finished_from PhaseWork a (\<lambda>e clock. workOutcome (ceText ce) e r werr clock) (cont_log s' k) rc)"
proof -
  have "request_rank (exStatus (rcExecution (last (cont_log s k)))) < maxControlReconciliations"
    using request_rank_le [of "exStatus (rcExecution (last (cont_log s k)))"] by (simp add: maxControlReconciliations_def)
  from cmem.finishStage_spec [OF assms(1-3) _ assms(4,5) cmem.work_outcome_step [OF assms(6,7)] this
      assms(9) [unfolded finishWork_def assms(8)]]
  show ?thesis by blast
qed

theorem work_outcome_is_recorded_witness:
  "\<exists>rc. fst (fst (finishWork jobOps (calm 30 ''x'') jobStart jobResult None jobRun)) = rc \<and>
     rc \<in> set (cont_log (snd (finishWork jobOps (calm 30 ''x'') jobStart jobResult None jobRun)) ''job'')"
proof -
  obtain rc err s' where r: "finishWork jobOps (calm 30 ''x'') jobStart jobResult None jobRun = ((rc, err), s')"
    by (metis prod.exhaust)
  have st: "in_stage PhaseWork jobAttempt (rcExecution (last (cont_log jobRun ''job'')))"
    using jobRun_state by (simp add: in_stage_def jobExec_def recoverable_def)
  have w: "wrTurns jobResult < 2 ^ 63" "i64_usage (wrUsage jobResult)" "exID (rcExecution jobStart) = ''job''"
    by (simp_all add: jobResult_def zero_usage_def i64_usage_def) code_simp
  from work_outcome_is_recorded [OF jobRun_sys jobRun_state(1) calm_rely jobRun_state(2) st w r] r show ?thesis by simp
qed

subsection \<open>Histories\<close>

text \<open>
  C23. Along the log of an execution its identity, target, handlers, limits and creation time stay, its
  accounting never shrinks, and nothing follows a terminal record.
\<close>

theorem history_is_ordered:
  assumes "cont_system enc s" "i < j" "j < length (cont_log s k)"
  shows "same_identity (rcExecution (cont_log s k ! i)) (rcExecution (cont_log s k ! j)) \<and>
    accounting_le (exAccounting (rcExecution (cont_log s k ! i))) (exAccounting (rcExecution (cont_log s k ! j))) \<and>
    \<not> terminal (exStatus (rcExecution (cont_log s k ! i)))"
proof -
  have "cont_log s k \<noteq> []" using assms(3) by auto
  with assms(1) have "chist_ok (cont_log s k)" by (simp add: csys_def)
  from sorted_wrt_nth_less [OF chist_sorted [OF this] assms(2,3)] show ?thesis .
qed

theorem history_is_ordered_witness:
  "same_identity (rcExecution (cont_log (job2 ActionContinue) ''job'' ! 0)) (rcExecution (cont_log (job2 ActionContinue) ''job'' ! 4))"
proof -
  have "(4::nat) < length (cont_log (job2 ActionContinue) ''job'')" by (simp add: job2_log)
  from history_is_ordered [OF job2_sys _ this, of 0] show ?thesis by simp
qed

text \<open>
  C24. The attempts counted are the Work stages started, and there are never more than the limit.
\<close>

theorem attempts_are_bounded:
  assumes "cont_system enc s" "cont_log s k \<noteq> []" "e = rcExecution (last (cont_log s k))"
  shows "acAttempts (exAccounting e) = len (filter work_started (cont_log s k)) \<and>
    (0 < liMaxAttempts (exLimits e) \<longrightarrow> acAttempts (exAccounting e) \<le> liMaxAttempts (exLimits e))"
proof -
  have ok: "chist_ok (cont_log s k)" using assms by (simp add: csys_def)
  then have "exec_inv e" using assms(2,3) by (simp add: chist_ok_def)
  then show ?thesis using chist_attempts [OF ok] assms(3) by (simp add: exec_inv_def attempts_inv_def)
qed

theorem attempts_are_bounded_witness:
  "acAttempts (exAccounting (jobExec (job2 ActionContinue))) = len (filter work_started (cont_log (job2 ActionContinue) ''job''))"
  using attempts_are_bounded [OF job2_sys job2_log(2), of "jobExec (job2 ActionContinue)"] by (simp add: jobExec_def)

text \<open>
  C25. The attempt under way at one record is still on record at the next, as the current or the last
  attempt, with its identity, its start and, once it has one, its Work result: deciding again never
  repeats or replaces the Work.
\<close>

theorem work_result_is_kept:
  assumes "cont_system enc s" "Suc i < length (cont_log s k)" "exCurrentAttempt (rcExecution (cont_log s k ! i)) = Some a"
  shows "\<exists>b. on_record (rcExecution (cont_log s k ! Suc i)) b \<and> same_attempt a b"
proof -
  have "cont_log s k \<noteq> []" using assms(2) by auto
  with assms(1) have ok: "chist_ok (cont_log s k)" by (simp add: csys_def)
  then have "record_step (cont_log s k ! i) (cont_log s k ! Suc i)"
    using assms(2) by (simp add: chist_ok_def successively_conv_nth)
  moreover have "exec_inv (rcExecution (cont_log s k ! i))" "validateExecution (rcExecution (cont_log s k ! Suc i)) = None"
    using ok assms(2) by (auto simp: chist_ok_def exec_inv_def)
  ultimately show ?thesis using record_stepD(6) assms(3) by blast
qed

theorem work_result_is_kept_witness:
  "\<exists>b. on_record (rcExecution (cont_log (job2 ActionContinue) ''job'' ! 4)) b \<and>
     same_attempt (the (exCurrentAttempt (rcExecution (cont_log (job2 ActionContinue) ''job'' ! 3)))) b"
proof -
  have "exCurrentAttempt (rcExecution (cont_log (job2 ActionContinue) ''job'' ! 3)) \<noteq> None" by code_simp
  then have a: "exCurrentAttempt (rcExecution (cont_log (job2 ActionContinue) ''job'' ! 3)) =
      Some (the (exCurrentAttempt (rcExecution (cont_log (job2 ActionContinue) ''job'' ! 3))))" by simp
  have "Suc 3 < length (cont_log (job2 ActionContinue) ''job'')" by (simp add: job2_log)
  from work_result_is_kept [OF job2_sys this a] show ?thesis by simp
qed

subsection \<open>Control operations\<close>

text \<open>
  C26. A signal is delivered at most once: when the other goroutines keep the delivered signal IDs
  distinct, so does \<open>Signal\<close>, although its look-up and its write are separate steps. \<open>expected\<close> is a
  revision the caller can have seen.
\<close>

theorem signal_delivered_once:
  assumes "cont_system enc s" "cont_others enc k' ce"
    and "\<And>p t. cont_system enc t \<Longrightarrow> distinct (signal_ids (cont_log t k)) \<Longrightarrow>
      distinct (signal_ids (cont_log (ceItf ce p t) k))"
    and "unat expected \<le> length (cont_log s k)" "distinct (signal_ids (cont_log s k))"
    and "engineSignal (cont_memory_ops enc) ce k expected sg s = ((e, err), s')"
  shows "cont_grew enc s s' \<and> distinct (signal_ids (cont_log s' k)) \<and> (err = None \<longrightarrow> on_log s' k e)"
proof -
  have "cmem.signals_kept enc k ce" using assms(3) by (simp add: cmem.signals_kept_def)
  from cmem.signal_spec [OF assms(1,2) this assms(4-6)] show ?thesis by (simp add: cmem.result_ok_def)
qed

theorem signal_delivered_once_witness: "cont_grew jobEnc (job2 ActionWait) jobSignalled"
proof -
  obtain e err where r: "engineSignal jobOps (calm 30 ''x'') ''job'' 5 jobSignal (job2 ActionWait) = ((e, err), jobSignalled)"
    by (rule jobSignalled_run)
  from signal_delivered_once [OF job2_sys calm_rely _ _ _ r] show ?thesis by (simp add: job2_log jobSignalled_ids)
qed

text \<open>
  Delivering a signal again, at whatever expected revision, succeeds, returns the latest execution
  and writes nothing.
\<close>

theorem signal_again_is_idempotent:
  assumes "\<And>p t. ceItf ce p t = t" "\<And>p. ceCtx ce p = None" "cont_system enc s"
    and "delivered (sgID sg) (cont_log s k)" "validateSignal sg = None"
  shows "engineSignal (cont_memory_ops enc) ce k expected sg s = ((rcExecution (last (cont_log s k)), None), s)"
  using cmem.signal_again [OF assms] .

theorem signal_again_is_idempotent_witness:
  "engineSignal jobOps (calm 40 ''x'') ''job'' 9 jobSignal jobSignalled = ((jobExec jobSignalled, None), jobSignalled)"
proof -
  have d: "delivered (sgID jobSignal) (cont_log jobSignalled ''job'')"
    by (simp add: delivered_ids jobSignalled_ids jobSignal_def)
  have v: "validateSignal jobSignal = None" by code_simp
  from signal_again_is_idempotent [OF _ _ jobSignalled_sys d v, of "calm 40 ''x''" 9] show ?thesis by (simp add: jobExec_def)
qed

text \<open>
  C28. \<open>Pause\<close> of an execution that is not running and then \<open>Resume\<close> give the execution back as it was,
  but for the reason; except that interrupted Work cannot be resumed, it has to be retried.
\<close>

theorem pause_resume_roundtrip:
  assumes "exec_inv e" "pause r e = Change e1 c reason sid" "exStatus e \<noteq> StatusRunning" "validateReason_c r2 = None"
  shows "resume r2 (e1\<lparr>exRevision := n, exUpdatedAt := t\<rparr>) =
    (if exStatus e = StatusInterrupted \<and> exPhase e = PhaseWork
     then Refuse (stateError ''resume'' e1 ErrRetryRequired)
     else Change (e\<lparr>exReason := r2, exRevision := n, exUpdatedAt := t\<rparr>) CauseResume r2 [])"
  using pause_resume [OF assms] by simp

theorem pause_resume_roundtrip_witness:
  "\<exists>e1. pause ''p'' (jobExec job1) = Change e1 CausePause ''p'' [] \<and>
     resume [] (e1\<lparr>exRevision := 2, exUpdatedAt := GTime 20 0\<rparr>) =
       Change ((jobExec job1)\<lparr>exReason := [], exRevision := 2, exUpdatedAt := GTime 20 0\<rparr>) CauseResume [] []"
proof -
  have v: "validateReason_c ''p'' = None" by code_simp
  obtain e1 where p: "pause ''p'' (jobExec job1) = Change e1 CausePause ''p'' []"
    using v by (simp add: pause_def job1_status terminalCheck_def)
  from pause_resume_roundtrip [where ?r2.0 = "[]" and n = 2 and t = "GTime 20 0", OF job1_inv p] show ?thesis using p by (simp add: job1_status)
qed

text \<open>
  C29. A control operation commits: alone, at the current revision of an execution that needs no recovery, an
  operation its preconditions allow appends exactly the record it computes, and returns its execution, when
  that record has an encoding and fits behind the log. No validation of the new record can fail.
\<close>

theorem control_commits:
  assumes "cquiet ce" "cont_system enc s" "cont_log s k \<noteq> []" "cur = last (cont_log s k)"
    and "recoverable (exStatus (rcExecution cur)) \<Longrightarrow> activeStage s k \<noteq> None" "cmem_roomy enc [nx] (enStore s) k"
    and "controlStep c (ceNow ce (''control'', 0)) (rcExecution cur) = Change e ca reason sid"
    and "\<And>g. c = DeliverSignal g \<Longrightarrow> validateSignal g = None"
    and "nx = controlRecordOf cur e ca reason sid (ceNow ce (''control'', 1))"
  shows "\<exists>s'. controlOp (cont_memory_ops enc) ce k (rcRev cur) c s = ((rcExecution nx, None), s') \<and>
    cont_log s' = (cont_log s)(k := cont_log s k @ [nx]) \<and> cont_system enc s'"
proof -
  have "cmemr.settled s k" using assms(4,5) by (simp add: cmemr.settled_def)
  from cmemr.quiet_control [OF assms(1-4) this assms(6-9)] show ?thesis
    unfolding cmemr.wrote_def by metis
qed

theorem control_commits_witness:
  "\<exists>s'. controlOp jobOps (calm 20 ''x'') ''job'' 1 (Cancel []) job1 =
     ((rcExecution (last (cont_log s' ''job'')), None), s') \<and> length (cont_log s' ''job'') = 2"
proof -
  let ?e = "(jobExec job1)\<lparr>exStatus := StatusCancelled, exWait := None, exBlock := None,
             exActivation := None, exSuspension := None, exReason := []\<rparr>"
  let ?nx = "controlRecordOf (last (cont_log job1 ''job'')) ?e CauseCancel [] [] (ceNow (calm 20 ''x'' :: cont_mem call_env) (''control'', 1))"
  have ch: "controlStep (Cancel []) (ceNow (calm 20 ''x'') (''control'', 0)) (rcExecution (last (cont_log job1 ''job''))) =
      Change ?e CauseCancel [] []"
    using job1_status by (simp add: cancel_def jobExec_def terminalCheck_def validateReason_c_def)
  have rm: "cmem_roomy jobEnc [?nx] (enStore job1) ''job''" by (rule job_roomy) (simp_all add: job1_log)
  have nr: "recoverable (exStatus (rcExecution (last (cont_log job1 ''job'')))) \<Longrightarrow> activeStage job1 ''job'' \<noteq> None"
    using job1_status by (simp add: jobExec_def)
  from control_commits [OF _ job1_sys job1_log(2) refl nr rm ch _ refl]
  obtain s' where "controlOp jobOps (calm 20 ''x'') ''job'' (rcRev (last (cont_log job1 ''job''))) (Cancel []) job1 =
     ((rcExecution (controlRecordOf (last (cont_log job1 ''job'')) ?e CauseCancel [] [] (GTime 20 0)), None), s')"
     "cont_log s' = (cont_log job1)(''job'' := cont_log job1 ''job'' @
        [controlRecordOf (last (cont_log job1 ''job'')) ?e CauseCancel [] [] (GTime 20 0)])"
    by auto
  then show ?thesis using job1_status(2) by (intro exI [of _ s']) (simp add: jobExec_def job1_log)
qed

text \<open>
  C30. An execution left in a stage by a crash is recovered by the next read: \<open>Get\<close>, alone, appends the
  recovery record it computes, when that record has an encoding and fits behind the log. After it the execution
  is interrupted, paused or cancelled, and can be acted on again.
\<close>

theorem orphan_is_recovered:
  assumes "cquiet ce" "cont_system enc s" "cont_log s k \<noteq> []" "cur = last (cont_log s k)"
    and "recoverable (exStatus (rcExecution cur))" "activeStage s k = None" "cmem_roomy enc [nx] (enStore s) k"
    and "e = recovered (rcExecution cur) (utc (ceNow ce (''recover'', 0)))" "accounting_nonneg (exAccounting e)"
    and "nx = nextRecord_c cur e CauseRecovery ''reconciled orphaned active stage'' (ceNow ce (''recover'', 1))"
  shows "\<exists>s'. engineGet_c (cont_memory_ops enc) ce k s = (Inr (rcExecution nx), s') \<and>
    cont_log s' = (cont_log s)(k := cont_log s k @ [nx]) \<and> cont_system enc s' \<and>
    \<not> recoverable (exStatus (rcExecution nx)) \<and> exStatus (rcExecution nx) = exStatus e"
proof -
  have st: "exStatus (rcExecution nx) = exStatus e" by (simp add: assms(10))
  obtain s' where "engineGet_c (cont_memory_ops enc) ce k s = (Inr (rcExecution nx), s')"
    "cmemr.wrote enc k [] [nx] s s'" "\<not> recoverable (exStatus (rcExecution nx))"
    by (rule cmemr.quiet_recovery [OF assms])
  then show ?thesis using st unfolding cmemr.wrote_def by metis
qed

text \<open>The running execution of \<open>jobRun\<close> after the process has lost its reservations.\<close>

definition jobOrphan :: "cont_mem eng" where
  "jobOrphan = jobRun\<lparr>enActive := []\<rparr>"

theorem orphan_is_recovered_witness:
  "\<exists>s' (nx :: cont_record). engineGet_c jobOps (calm 30 ''x'') ''job'' jobOrphan = (Inr (rcExecution nx), s') \<and>
     exStatus (rcExecution nx) = StatusInterrupted"
proof -
  have sys: "jobSys jobOrphan" using jobRun_sys by (simp add: jobOrphan_def)
  have l: "cont_log jobOrphan ''job'' \<noteq> []" using jobRun_state(2) by (simp add: jobOrphan_def)
  have st: "recoverable (exStatus (rcExecution (last (cont_log jobOrphan ''job''))))"
    using jobRun_state(4) by (simp add: jobOrphan_def jobExec_def)
  have f: "activeStage jobOrphan ''job'' = None" by (simp add: jobOrphan_def activeStage_def)
  have b: "cmLimits (enStore jobOrphan) = default_store_limits_c" "length (cont_log jobOrphan ''job'') \<le> 10"
      "bytesOf_c (enStore jobOrphan) ''job'' \<le> 2000" by code_simp+
  let ?e = "recovered (rcExecution (last (cont_log jobOrphan ''job''))) (utc (ceNow (calm 30 ''x'' :: cont_mem call_env) (''recover'', 0)))"
  have e: "accounting_nonneg (exAccounting ?e)" "exStatus ?e = StatusInterrupted" by code_simp+
  let ?nx = "nextRecord_c (last (cont_log jobOrphan ''job'')) ?e CauseRecovery ''reconciled orphaned active stage''
    (ceNow (calm 30 ''x'' :: cont_mem call_env) (''recover'', 1))"
  have rm: "cmem_roomy jobEnc [?nx] (enStore jobOrphan) ''job''" by (rule job_roomy [OF b]) simp
  have q: "cquiet (calm 30 ''x'' :: cont_mem call_env)" by simp
  from orphan_is_recovered [OF q sys l refl st f rm refl e(1) refl]
  obtain s' where "engineGet_c jobOps (calm 30 ''x'') ''job'' jobOrphan = (Inr (rcExecution ?nx), s')"
    "exStatus (rcExecution ?nx) = exStatus ?e" by blast
  with e(2) show ?thesis by metis
qed

subsection \<open>Advance and Drive\<close>

text \<open>
  C31. A whole round: alone and with no limit reached, \<open>Advance\<close> on an execution that is Ready for Work runs
  the worker once and then the controller once on the worker's result, and appends exactly the four records
  of the two stages, each computed from the one before, when these four have encodings and fit behind the log. An error of the
  controller (or an invalid decision) is returned with the execution the fourth record holds.
\<close>

theorem advance_runs_both_stages:
  assumes "cquiet ce" "cont_system enc s" "cont_log s k \<noteq> []" "cur = last (cont_log s k)"
    and "cmem_roomy enc [run1, fin1, run2, fin2] (enStore s) k"
    and "exStatus (rcExecution cur) = StatusReady" "exPhase (rcExecution cur) = PhaseWork" "activeStage s k = None"
    and "matchHandlers (rcExecution cur) h = None" "validateHandlers h = None"
    and "\<not> limit_reached (exLimits (rcExecution cur)) (exAccounting (rcExecution cur)) PhaseWork
      (utc (ceNow ce (''limit'', 0)))"
    and "acAttempts (exAccounting (rcExecution cur)) + 1 < 2 ^ 63" "handlers_i64 h"
    and "now = utc (ceNow ce (''work start'', 0))" "ceIDs ce ''attempt'' now = Inr i" "validateAttemptID i = None"
    and "e = startWork (rcExecution cur) i now"
    and "normalizeWorkOutcome (runWorker h (workRequest e (the (exCurrentAttempt e)))) = (r, None)"
    and "run1 = workStarted ce cur i" "fin1 = workFinished ce run1 r None"
    and "accounting_nonneg (exAccounting (rcExecution fin1))"
    and "\<not> limit_reached (exLimits (rcExecution fin1)) (exAccounting (rcExecution fin1)) PhaseDecision
      (utc (ceNow ce (''work limit'', 0)))"
    and "exCurrentAttempt (rcExecution fin1) = Some a"
    and "checkedDecision (runController h (decisionRequest (startDecision (rcExecution fin1) a
      (utc (ceNow ce (''decision start'', 0)))) a r)) = (d, cerr)"
    and "run2 = decisionStarted ce fin1 a" "fin2 = decisionFinished ce run2 d cerr"
    and "accounting_nonneg (exAccounting (rcExecution fin2))" "cerr = None \<longrightarrow> decision_calm ce fin2"
  shows "\<exists>s'. advance (cont_memory_ops enc) ce k (rcRev cur) h s = ((rcExecution fin2, cerr), s') \<and>
    cont_log s' = (cont_log s)(k := cont_log s k @ [run1, fin1, run2, fin2]) \<and> cont_system enc s'"
  using cmemr.quiet_round [OF assms] unfolding cmemr.wrote_def by metis

theorem advance_runs_both_stages_witness:
  "\<exists>s' e. advance jobOps (calm 20 ''a1'') ''job'' 1 (jobHandlers ActionContinue) job1 = ((e, None), s') \<and>
     length (cont_log s' ''job'') = 5"
proof -
  let ?ce = "calm 20 ''a1'' :: cont_mem call_env" and ?h = "jobHandlers ActionContinue"
  let ?cur = "last (cont_log job1 ''job'')"
  let ?e = "startWork (rcExecution ?cur) ''a1'' (utc (ceNow ?ce (''work start'', 0)))"
  let ?f1 = "workFinished ?ce (workStarted ?ce ?cur ''a1'') jobResult None"
  let ?a = "the (exCurrentAttempt (rcExecution ?f1))"
  let ?f2 = "decisionFinished ?ce (decisionStarted ?ce ?f1 ?a) (jobDecision ActionContinue) None"
  have q: "cquiet ?ce" by simp
  let ?run1 = "workStarted ?ce ?cur ''a1''"
  have rm: "cmem_roomy jobEnc [?run1, ?f1, decisionStarted ?ce ?f1 ?a, ?f2] (enStore job1) ''job''"
    by (rule job_roomy) (simp_all add: job1_log)
  have st: "exStatus (rcExecution ?cur) = StatusReady" "exPhase (rcExecution ?cur) = PhaseWork"
    using job1_status job1_ready by (simp_all add: jobExec_def)
  have mh: "matchHandlers (rcExecution ?cur) ?h = None" "validateHandlers ?h = None" by code_simp+
  have l: "\<not> limit_reached (exLimits (rcExecution ?cur)) (exAccounting (rcExecution ?cur)) PhaseWork
      (utc (ceNow ?ce (''limit'', 0)))" by code_simp
  have n: "acAttempts (exAccounting (rcExecution ?cur)) + 1 < 2 ^ 63" by code_simp
  have i: "ceIDs ?ce ''attempt'' (utc (ceNow ?ce (''work start'', 0))) = Inr ''a1''" by simp
  have i2: "validateAttemptID ''a1'' = None" by code_simp
  have w: "normalizeWorkOutcome (runWorker ?h (workRequest ?e (the (exCurrentAttempt ?e)))) = (jobResult, None)" by code_simp
  have f1: "accounting_nonneg (exAccounting (rcExecution ?f1))" by code_simp
  have l1: "\<not> limit_reached (exLimits (rcExecution ?f1)) (exAccounting (rcExecution ?f1)) PhaseDecision
      (utc (ceNow ?ce (''work limit'', 0)))" by code_simp
  have "exCurrentAttempt (rcExecution ?f1) \<noteq> None" by code_simp
  then have a: "exCurrentAttempt (rcExecution ?f1) = Some ?a" by simp
  have d: "checkedDecision (runController ?h (decisionRequest (startDecision (rcExecution ?f1) ?a
      (utc (ceNow ?ce (''decision start'', 0)))) ?a jobResult)) = (jobDecision ActionContinue, None)" by code_simp
  have f2: "accounting_nonneg (exAccounting (rcExecution ?f2))" by code_simp
  have c: "None = None \<longrightarrow> decision_calm ?ce ?f2" unfolding decision_calm_def by code_simp
  have rv: "rcRev ?cur = 1" using job1_status(2) by (simp add: jobExec_def)
  from advance_runs_both_stages [OF q job1_sys job1_log(2) refl rm st job1_log(3) mh l n jobHandlers_i64 refl i i2 refl
      w refl refl f1 l1 a d refl refl f2 c]
  obtain s' where "advance jobOps ?ce ''job'' 1 ?h job1 = ((rcExecution ?f2, None), s')"
    "length (cont_log s' ''job'') = 5" unfolding rv by (auto simp: job1_log simp del: calm_parts)
  then show ?thesis by blast
qed

text \<open>
  A limit that is already reached ends the execution before anything runs: \<open>Advance\<close> appends the one
  record of the limit; the worker and the controller play no part in it.
\<close>

theorem limit_stops_before_work:
  assumes "cquiet ce" "cont_system enc s" "cont_log s k \<noteq> []" "cur = last (cont_log s k)"
    and "cmem_roomy enc [nx] (enStore s) k" "exStatus (rcExecution cur) = StatusReady" "activeStage s k = None"
    and "matchHandlers (rcExecution cur) h = None" "validateHandlers h = None"
    and "reason = limitReason (exLimits (rcExecution cur)) (exAccounting (rcExecution cur))
      (exPhase (rcExecution cur)) (utc (ceNow ce (''limit'', 0)))" "reason \<noteq> []"
    and "nx = nextRecord_c cur (limitedExecution (rcExecution cur) reason) CauseLimit reason (ceNow ce (''limit'', 1))"
  shows "\<exists>s'. advance (cont_memory_ops enc) ce k (rcRev cur) h s = ((rcExecution nx, None), s') \<and>
    cont_log s' = (cont_log s)(k := cont_log s k @ [nx]) \<and> cont_system enc s'"
  using cmemr.quiet_advance_limit [OF assms] unfolding cmemr.wrote_def by metis

text \<open>An execution whose deadline passed before it was ever advanced.\<close>

definition jobLate :: "cont_mem eng" where
  "jobLate = snd (engineCreate_c jobOps (calm 10 ''x'') (jobRequest\<lparr>crLimits := jobLimits\<lparr>liDeadline := GTime 15 0\<rparr>\<rparr>) job0)"

theorem limit_stops_before_work_witness:
  "\<exists>s'. cont_log s' ''job'' = cont_log jobLate ''job'' @ [last (cont_log s' ''job'')] \<and>
     (\<exists>e. advance jobOps (calm 20 ''a1'') ''job'' (rcRev (last (cont_log jobLate ''job''))) (jobHandlers ActionContinue) jobLate =
       ((e, None), s') \<and> exStatus e = StatusLimited)"
proof -
  let ?ce = "calm 20 ''a1'' :: cont_mem call_env" and ?cur = "last (cont_log jobLate ''job'')" and ?h = "jobHandlers ActionContinue"
  obtain q where "engineCreate_c jobOps (calm 10 ''x'') (jobRequest\<lparr>crLimits := jobLimits\<lparr>liDeadline := GTime 15 0\<rparr>\<rparr>) job0 = (q, jobLate)"
    unfolding jobLate_def by (metis prod.collapse)
  note sys = cmem.ext_sys [OF cmem.create_result(1) [OF job0_sys calm_rely this]]
  have q: "cquiet ?ce" by simp
  have ne: "cont_log jobLate ''job'' \<noteq> []" by code_simp
  have b: "cmLimits (enStore jobLate) = default_store_limits_c" "length (cont_log jobLate ''job'') \<le> 10"
      "bytesOf_c (enStore jobLate) ''job'' \<le> 2000" by code_simp+
  have rm: "cmem_roomy jobEnc [nx] (enStore jobLate) ''job''" for nx by (rule job_roomy [OF b]) simp
  have st: "exStatus (rcExecution ?cur) = StatusReady" "activeStage jobLate ''job'' = None"
      "matchHandlers (rcExecution ?cur) ?h = None" "validateHandlers ?h = None" by code_simp+
  have r: "limitReason (exLimits (rcExecution ?cur)) (exAccounting (rcExecution ?cur))
      (exPhase (rcExecution ?cur)) (utc (ceNow ?ce (''limit'', 0))) \<noteq> []" by code_simp
  from limit_stops_before_work [OF q sys ne refl rm st refl r refl] show ?thesis
    by (elim exE conjE) (auto simp: limitedExecution_def)
qed

text \<open>
  A limit that Work uses up ends the execution right after it: the log gets the start and the
  result of the Work and the limit, and the controller is not asked about that Work.
\<close>

theorem limit_after_work_skips_decision:
  assumes "cquiet ce" "cont_system enc s" "cont_log s k \<noteq> []" "cur = last (cont_log s k)"
    and "cmem_roomy enc [run, fin, nx] (enStore s) k"
    and "exStatus (rcExecution cur) = StatusReady" "exPhase (rcExecution cur) = PhaseWork" "activeStage s k = None"
    and "matchHandlers (rcExecution cur) h = None" "validateHandlers h = None"
    and "\<not> limit_reached (exLimits (rcExecution cur)) (exAccounting (rcExecution cur)) PhaseWork
      (utc (ceNow ce (''limit'', 0)))"
    and "acAttempts (exAccounting (rcExecution cur)) + 1 < 2 ^ 63" "handlers_i64 h"
    and "now = utc (ceNow ce (''work start'', 0))" "ceIDs ce ''attempt'' now = Inr i" "validateAttemptID i = None"
    and "e = startWork (rcExecution cur) i now"
    and "normalizeWorkOutcome (runWorker h (workRequest e (the (exCurrentAttempt e)))) = (r, None)"
    and "run = workStarted ce cur i" "fin = workFinished ce run r None"
    and "accounting_nonneg (exAccounting (rcExecution fin))"
    and "reason = limitReason (exLimits (rcExecution fin)) (exAccounting (rcExecution fin))
      PhaseDecision (utc (ceNow ce (''work limit'', 0)))" "reason \<noteq> []"
    and "nx = nextRecord_c fin (limitedExecution (rcExecution fin) reason) CauseLimit reason (ceNow ce (''work limit'', 1))"
  shows "\<exists>s'. advance (cont_memory_ops enc) ce k (rcRev cur) h s = ((rcExecution nx, None), s') \<and>
    cont_log s' = (cont_log s)(k := cont_log s k @ [run, fin, nx]) \<and> cont_system enc s'"
  using cmemr.quiet_work_limited [OF assms] unfolding cmemr.wrote_def by metis

theorem limit_after_work_skips_decision_witness:
  "\<exists>s' e. advance jobOps (calm 30 ''a2'') ''job'' (rcRev (last (cont_log (job2 ActionContinue) ''job'')))
     (jobHandlers ActionContinue) (job2 ActionContinue) = ((e, None), s') \<and> exStatus e = StatusLimited \<and>
     length (cont_log s' ''job'') = 8"
proof -
  let ?ce = "calm 30 ''a2'' :: cont_mem call_env" and ?h = "jobHandlers ActionContinue" and ?s = "job2 ActionContinue"
  let ?cur = "last (cont_log ?s ''job'')"
  let ?e = "startWork (rcExecution ?cur) ''a2'' (utc (ceNow ?ce (''work start'', 0)))"
  let ?f1 = "workFinished ?ce (workStarted ?ce ?cur ''a2'') jobResult None"
  have q: "cquiet ?ce" by simp
  have b: "cmLimits (enStore ?s) = default_store_limits_c" "length (cont_log ?s ''job'') \<le> 10"
      "bytesOf_c (enStore ?s) ''job'' \<le> 2000" by code_simp+
  have rm: "cmem_roomy jobEnc [run, fin, nx] (enStore ?s) ''job''" for run fin nx by (rule job_roomy [OF b]) simp
  have st: "exStatus (rcExecution ?cur) = StatusReady" "exPhase (rcExecution ?cur) = PhaseWork"
      "activeStage ?s ''job'' = None" "matchHandlers (rcExecution ?cur) ?h = None" "validateHandlers ?h = None" by code_simp+
  have l: "\<not> limit_reached (exLimits (rcExecution ?cur)) (exAccounting (rcExecution ?cur)) PhaseWork
      (utc (ceNow ?ce (''limit'', 0)))" "acAttempts (exAccounting (rcExecution ?cur)) + 1 < 2 ^ 63" by code_simp+
  have i: "ceIDs ?ce ''attempt'' (utc (ceNow ?ce (''work start'', 0))) = Inr ''a2''" by simp
  have i2: "validateAttemptID ''a2'' = None" by code_simp
  have w: "normalizeWorkOutcome (runWorker ?h (workRequest ?e (the (exCurrentAttempt ?e)))) = (jobResult, None)" by code_simp
  have f1: "accounting_nonneg (exAccounting (rcExecution ?f1))" by code_simp
  have r: "limitReason (exLimits (rcExecution ?f1)) (exAccounting (rcExecution ?f1))
      PhaseDecision (utc (ceNow ?ce (''work limit'', 0))) \<noteq> []" by code_simp
  from limit_after_work_skips_decision [OF q job2_sys job2_log(2) refl rm st l jobHandlers_i64 refl i i2 refl w refl refl f1 refl r refl]
  show ?thesis by (elim exE conjE) (auto simp: limitedExecution_def job2_log)
qed

text \<open>
  C34. \<open>Drive\<close> is bounded: it makes at most \<open>MaxAdvances\<close> advances, exactly that many when it yields the
  quantum; it always names a reason to yield, and without an error the reason is the one its
  execution's status asks for, or the execution is Ready and a gate, no progress or the quantum stopped it.
\<close>

theorem drive_is_bounded:
  assumes "drive S ce ces k expected h m gt s = ((r, err), s')"
    and "0 < m" "validateExpectedRevision expected = None" "validateHandlers h = None"
    and "engineGet_c S ce k s = (Inr e, s1)" "exRevision e = expected"
  shows "0 \<le> drAdvances r \<and> drAdvances r \<le> m \<and> (drYield r = Some YieldQuantum \<longrightarrow> drAdvances r = m \<and> err = None) \<and>
    drYield r \<noteq> None \<and> yields_right r err"
proof -
  have l: "driveLoop S ces k h gt (nat m) (zero_drive\<lparr>drExecution := e\<rparr>) s1 = ((r, err), s')"
    using assms by (simp add: drive_def)
  from driveLoop_result [OF l] assms(2) show ?thesis by (simp add: zero_drive_def)
qed

theorem drive_is_bounded_witness:
  "drAdvances (fst (fst (drive jobOps (calm 20 ''x'') (\<lambda>n. calm 20 ''a1'') ''job'' 1 (jobHandlers ActionComplete) 3 None job1))) \<le> 3"
proof -
  obtain r err s' where d: "drive jobOps (calm 20 ''x'') (\<lambda>n. calm 20 ''a1'') ''job'' 1 (jobHandlers ActionComplete) 3 None job1
      = ((r, err), s')" by (metis prod.exhaust)
  have v: "validateExpectedRevision 1 = None" "validateHandlers (jobHandlers ActionComplete) = None" by code_simp+
  have "opLoad jobOps None ''job'' (enStore job1) = Inr (last (cont_log job1 ''job''))"
    by (rule cmemr.last_facts(4) [OF job1_sys job1_log(2)])
  then have g: "engineGet_c jobOps (calm 20 ''x'') ''job'' job1 = (Inr (jobExec job1), job1)"
    using job1_status by (simp add: engineGet_c_def recoverRecord_def Let_def jobExec_def)
  from drive_is_bounded [OF d _ v g job1_status(2)] d show ?thesis by simp
qed

end
