(* ===== verification/ContJsonl.thy ===== *)
theory ContJsonl
  imports ContStore GoJson
begin

section \<open>Continuation: the JSONL store\<close>

text \<open>
  \<^verbatim>\<open>agent/continuation/jsonl.go\<close>. A directory has a file per execution: a header line and a line per
  record, each ended by a newline. A line is committed by its newline; what follows the last newline
  is the rest of an interrupted append, which reading skips and the next append cuts off.

  The directory maps file names to files and folders. \<open>io\<close> says which step of a call the operating
  system fails and where a write stops short. A crash during a write leaves the file a failed write
  leaves, with nothing done after it. \<^verbatim>\<open>encoding/json\<close> on headers and records is the parameter \<open>codec\<close>;
  \<open>json.Valid\<close> is \<open>json_valid\<close>. Each operation is one step, as the mutex makes it.
\<close>

datatype node = File string | Folder

type_synonym dir = "(string \<times> node) list"

record io =
  ioFail :: "string \<Rightarrow> bool"
  ioShort :: "nat option"

record header =
  hdType :: string
  hdVersion :: int
  hdID :: string
  hdCreatedAt :: gtime

record codec =
  cdHeader :: "header \<Rightarrow> cont_error + string"
  cdReadHeader :: "string \<Rightarrow> header option"
  cdRecord :: "cont_record \<Rightarrow> cont_error + string"
  cdReadRecord :: "string \<Rightarrow> cont_record option"

record cont_jsonl =
  cjFiles :: dir
  cjLimits :: cont_store_limits

definition continuationHeaderType :: string where
  "continuationHeaderType = ''continuation_execution''"

definition continuationVersion :: int where
  "continuationVersion = 1"

definition continuationFileExt :: string where
  "continuationFileExt = ''.jsonl''"

definition newline :: char where
  "newline = CHR 0x0A"

text \<open>A \<^verbatim>\<open>CorruptStoreError\<close>: its text, and that it is an \<open>ErrCorruptStore\<close>.\<close>

definition corrupt :: "string \<Rightarrow> nat \<Rightarrow> string \<Rightarrow> cont_error" where
  "corrupt path line reason = Foreign
     (path @ (if line > 0 then '':'' @ showNat line else []) @ '': '' @ reason) (Some ErrCorruptStore)"

definition osError :: "string \<Rightarrow> cont_error" where
  "osError what = Foreign (''continuation: '' @ what) None"

definition newJSONLStore :: "io \<Rightarrow> string \<Rightarrow> dir \<Rightarrow> cont_store_option list \<Rightarrow> cont_error + cont_jsonl" where
  "newJSONLStore os name files opts =
     guardE (fail_if (blank name) ErrInvalid)
       (bindE (defaultStoreConfig_c opts)
         (\<lambda>l. guardE (fail_if (ioFail os ''mkdir'') (osError ''create control directory''))
           (Inr \<lparr>cjFiles = files, cjLimits = l\<rparr>)))"

subsection \<open>Reading\<close>

fun splitLines :: "string \<Rightarrow> string list" where
  "splitLines [] = [[]]"
| "splitLines (c # cs) = (if c = newline then [] # splitLines cs
     else (case splitLines cs of [] \<Rightarrow> [[c]] | l # ls \<Rightarrow> (c # l) # ls))"

definition committedLines :: "string \<Rightarrow> string \<Rightarrow> cont_error + (string list \<times> int)" where
  "committedLines path data =
     (if data = [] then Inl (corrupt path 0 ''empty file'')
      else (let lines = splitLines data; tail = last lines
        in bindE (if last data = newline then Inr (butlast lines, len data)
             else if json_valid tail
               then Inl (corrupt path (length lines) ''valid record lacks newline commit marker'')
             else Inr (butlast lines, len data - len tail))
           (\<lambda>(ls, n). if length ls < 2 then Inl (corrupt path 0 ''missing header or initial record'')
              else Inr (ls, n))))"

definition validateExecutionHeader :: "codec \<Rightarrow> string \<Rightarrow> string \<Rightarrow> string \<Rightarrow> cont_error option" where
  "validateExecutionHeader J path k line = (case cdReadHeader J line of
       None \<Rightarrow> Some (corrupt path 1 ''invalid header'')
     | Some h \<Rightarrow> first_err
         [fail_if (hdType h \<noteq> continuationHeaderType \<or> hdID h \<noteq> k) (corrupt path 1 ''foreign header or ID mismatch''),
          fail_if (hdVersion h \<noteq> continuationVersion) (corrupt path 1 ''unsupported version'')])"

definition decodeRecordLine :: "codec \<Rightarrow> string \<Rightarrow> string \<Rightarrow> string \<Rightarrow> nat \<Rightarrow> int \<Rightarrow> cont_error + cont_record" where
  "decodeRecordLine J path k line n maxBytes =
     (if line = [] \<or> len line > maxBytes then Inl (corrupt path n ''empty or oversized record'')
      else (case cdReadRecord J line of
          None \<Rightarrow> Inl (corrupt path n ''invalid record'')
        | Some rc \<Rightarrow> guardE (fail_if (validateRecord_c rc \<noteq> None) (corrupt path n ''record validation failed''))
            (guardE (fail_if (exID (rcExecution rc) \<noteq> k) (corrupt path n ''execution ID changed'')) (Inr rc))))"

definition validateRecordSequence :: "string \<Rightarrow> nat \<Rightarrow> cont_record list \<Rightarrow> cont_record \<Rightarrow> cont_error option" where
  "validateRecordSequence path n records rc =
     (if records = [] then fail_if (validateCreateRecord_c rc \<noteq> None) (corrupt path n ''invalid initial record'')
      else fail_if (validateNextRecord_c (last records) (rcRev (last records)) rc \<noteq> None)
        (corrupt path n ''revision gap''))"

fun recordLines :: "codec \<Rightarrow> string \<Rightarrow> string \<Rightarrow> cont_store_limits \<Rightarrow> cont_record list \<Rightarrow> nat \<Rightarrow> string list
    \<Rightarrow> cont_error + cont_record list" where
  "recordLines J path k l records n [] = Inr records"
| "recordLines J path k l records n (line # lines) =
     bindE (decodeRecordLine J path k line n (clMaxRecordBytes l))
       (\<lambda>rc. guardE (validateRecordSequence path n records rc)
         (recordLines J path k l (records @ [rc]) (Suc n) lines))"

definition decodeRecordLines :: "codec \<Rightarrow> string \<Rightarrow> string \<Rightarrow> string list \<Rightarrow> cont_store_limits \<Rightarrow> cont_error + cont_record list" where
  "decodeRecordLines J path k lines l =
     bindE (recordLines J path k l [] 2 lines)
       (\<lambda>records. guardE (fail_if (len records > clMaxTransitions l) ErrStoreFull) (Inr records))"

definition decodeExecutionFile ::
    "codec \<Rightarrow> string \<Rightarrow> string \<Rightarrow> string \<Rightarrow> cont_store_limits \<Rightarrow> cont_error + (cont_record list \<times> int)" where
  "decodeExecutionFile J path k data l =
     bindE (committedLines path data)
       (\<lambda>(ls, n). guardE (validateExecutionHeader J path k (hd ls))
         (bindE (decodeRecordLines J path k (tl ls) l) (\<lambda>records. Inr (records, n))))"

definition jsonlPath :: "string \<Rightarrow> cont_error + string" where
  "jsonlPath k = guardE (validateID k) (Inr (k @ continuationFileExt))"

definition jsonlRead :: "codec \<Rightarrow> io \<Rightarrow> string \<Rightarrow> cont_jsonl \<Rightarrow> cont_error + (cont_record list \<times> int)" where
  "jsonlRead J os k s =
     bindE (jsonlPath k) (\<lambda>path. case map_of (cjFiles s) path of
         None \<Rightarrow> Inl ErrNotFound
       | Some Folder \<Rightarrow> Inl (osError ''read execution file'')
       | Some (File data) \<Rightarrow>
           if ioFail os ''read'' then Inl (osError ''read execution file'')
           else guardE (fail_if (len data > clMaxFileBytes (cjLimits s)) ErrStoreFull)
             (decodeExecutionFile J path k data (cjLimits s)))"

definition jsonlLoad :: "codec \<Rightarrow> io \<Rightarrow> ctx \<Rightarrow> string \<Rightarrow> cont_jsonl \<Rightarrow> cont_error + cont_record" where
  "jsonlLoad J os c k s = guardE c (bindE (jsonlRead J os k s) (\<lambda>(rs, n). lastRecord_c rs))"

definition jsonlHistory :: "codec \<Rightarrow> io \<Rightarrow> ctx \<Rightarrow> string \<Rightarrow> cont_jsonl \<Rightarrow> cont_error + cont_record list" where
  "jsonlHistory J os c k s = guardE c (bindE (jsonlRead J os k s) (\<lambda>(rs, n). Inr rs))"

subsection \<open>Writing\<close>

definition encodedLine :: "codec \<Rightarrow> cont_record \<Rightarrow> cont_store_limits \<Rightarrow> cont_error + string" where
  "encodedLine J rc l = guardE (validateRecord_c rc)
     (bindE (cdRecord J rc) (\<lambda>b. guardE (fail_if (len b > clMaxRecordBytes l) ErrTooLarge) (Inr b)))"

definition putFile :: "string \<Rightarrow> string \<Rightarrow> cont_jsonl \<Rightarrow> cont_jsonl" where
  "putFile path data s = s\<lparr>cjFiles := AList.update path (File data) (cjFiles s)\<rparr>"

text \<open>What a write leaves of the data, and whether it fails.\<close>

definition written :: "io \<Rightarrow> string \<Rightarrow> string" where
  "written os data = (case ioShort os of None \<Rightarrow> data | Some n \<Rightarrow> take n data)"

text \<open>The file \<^verbatim>\<open>Create\<close> wants to write: its name and its two lines.\<close>

definition createFile :: "codec \<Rightarrow> ctx \<Rightarrow> cont_record \<Rightarrow> cont_store_limits \<Rightarrow> cont_error + (string \<times> string)" where
  "createFile J c rc l =
     guardE (first_err [c, validateCreateRecord_c rc])
       (bindE (encodedLine J rc l) (\<lambda>b.
         bindE (cdHeader J \<lparr>hdType = continuationHeaderType, hdVersion = continuationVersion,
             hdID = exID (rcExecution rc), hdCreatedAt = exCreatedAt (rcExecution rc)\<rparr>) (\<lambda>hb.
           guardE (fail_if (len hb + len b + 2 > clMaxFileBytes l) ErrStoreFull)
             (bindE (jsonlPath (exID (rcExecution rc))) (\<lambda>path. Inr (path, hb @ newline # b @ [newline]))))))"

text \<open>\<^verbatim>\<open>Create\<close> removes its file on failure, unless that fails too, as it does after a crash.\<close>

definition jsonlCreate :: "codec \<Rightarrow> io \<Rightarrow> ctx \<Rightarrow> cont_record \<Rightarrow> cont_jsonl \<Rightarrow> cont_error option \<times> cont_jsonl" where
  "jsonlCreate J os c rc s = (case createFile J c rc (cjLimits s) of
       Inl e \<Rightarrow> (Some e, s)
     | Inr (path, data) \<Rightarrow>
         if map_of (cjFiles s) path \<noteq> None then (Some ErrExists, s)
         else if ioFail os ''open'' then (Some (osError ''create execution file''), s)
         else (let s1 = putFile path (written os data) s;
                   failed = (if ioFail os ''remove'' then s1 else s\<lparr>cjFiles := AList.delete path (cjFiles s)\<rparr>)
           in if ioShort os \<noteq> None then (Some (osError ''write execution file''), failed)
              else if ioFail os ''sync'' then (Some (osError ''sync execution file''), failed)
              else (None, s1)))"

definition jsonlAppend :: "io \<Rightarrow> string \<Rightarrow> int \<Rightarrow> string \<Rightarrow> cont_jsonl \<Rightarrow> cont_error option \<times> cont_jsonl" where
  "jsonlAppend os path sz b s = (case map_of (cjFiles s) path of
       Some (File data) \<Rightarrow>
         if ioFail os ''open'' then (Some (osError ''open execution for append''), s)
         else if ioFail os ''truncate'' then (Some (osError ''truncate uncommitted execution tail''), s)
         else (let s1 = putFile path (take (nat sz) data @ written os (b @ [newline])) s
           in if ioShort os \<noteq> None then (Some (osError ''append execution record''), s1)
              else if ioFail os ''sync'' then (Some (osError ''sync execution record''), s1)
              else (None, s1))
     | _ \<Rightarrow> (Some (osError ''open execution for append''), s))"

definition jsonlCas ::
    "codec \<Rightarrow> io \<Rightarrow> ctx \<Rightarrow> string \<Rightarrow> u64 \<Rightarrow> cont_record \<Rightarrow> cont_jsonl \<Rightarrow> cont_error option \<times> cont_jsonl" where
  "jsonlCas J os c k expected nx s =
     (case guardE c (bindE (encodedLine J nx (cjLimits s)) (\<lambda>b. bindE (jsonlRead J os k s) (\<lambda>(rs, sz).
         bindE (lastRecord_c rs) (\<lambda>previous. guardE (validateNextRecord_c previous expected nx)
           (guardE (fail_if (len rs \<ge> clMaxTransitions (cjLimits s) \<or>
               sz + (len b + 1) > clMaxFileBytes (cjLimits s)) ErrStoreFull)
             (bindE (jsonlPath k) (\<lambda>path. Inr (path, sz, b)))))))) of
        Inl e \<Rightarrow> (Some e, s)
      | Inr (path, sz, b) \<Rightarrow> jsonlAppend os path sz b s)"

subsection \<open>Listing\<close>

definition trimSuffix :: "string \<Rightarrow> string \<Rightarrow> string" where
  "trimSuffix suf x = take (length x - length suf) x"

definition hasSuffix :: "string \<Rightarrow> string \<Rightarrow> bool" where
  "hasSuffix suf x \<longleftrightarrow> length suf \<le> length x \<and> drop (length x - length suf) x = suf"

definition listedIDs :: "list_options \<Rightarrow> dir \<Rightarrow> string list" where
  "listedIDs opt files = sort (filter (\<lambda>k. k > loCursor opt)
     (map (\<lambda>(name, _). trimSuffix continuationFileExt name)
       (filter (\<lambda>(name, node). node \<noteq> Folder \<and> hasSuffix continuationFileExt name) files)))"

fun jsonlPage :: "codec \<Rightarrow> io \<Rightarrow> cont_jsonl \<Rightarrow> string list \<Rightarrow> cont_error + execution list" where
  "jsonlPage J os s [] = Inr []"
| "jsonlPage J os s (k # ks) =
     bindE (jsonlRead J os k s) (\<lambda>(rs, n). bindE (lastRecord_c rs)
       (\<lambda>rc. bindE (jsonlPage J os s ks) (\<lambda>es. Inr (rcExecution rc # es))))"

definition jsonlList :: "codec \<Rightarrow> io \<Rightarrow> ctx \<Rightarrow> list_options \<Rightarrow> cont_jsonl \<Rightarrow> cont_error + list_page" where
  "jsonlList J os c opt s = guardE c (guardE (validateListOptions_c opt (clMaxListPage (cjLimits s)))
     (guardE (fail_if (ioFail os ''readdir'') (osError ''list execution files''))
       (let ids = listedIDs opt (cjFiles s); count = min (length ids) (nat (loLimit opt))
        in bindE (jsonlPage J os s (take count ids))
          (\<lambda>es. Inr \<lparr>lpExecutions = es, lpNextCursor = (if length ids > count then ids ! (count - 1) else [])\<rparr>))))"

definition jsonl_ops :: "codec \<Rightarrow> io \<Rightarrow> cont_jsonl cont_ops" where
  "jsonl_ops J os = \<lparr>opCreate = jsonlCreate J os, opLoad = jsonlLoad J os, opCas = jsonlCas J os,
     opList = jsonlList J os, opHistory = jsonlHistory J os\<rparr>"

end
