(* ===== verification/ContJsonlLaws.thy ===== *)
theory ContJsonlLaws
  imports ContJsonl GoJsonLaws
begin

section \<open>Continuation: files, interrupted writes and the memory store\<close>

subsection \<open>A proper prefix of an object is not valid JSON\<close>

text \<open>
  The scanner of an object has a nonempty stack until the closing brace; then only spaces may follow.
\<close>

definition inside :: "scanner \<Rightarrow> bool" where
  "inside q \<longleftrightarrow> fst q = SEndTop \<or> fst q = SError \<or> (snd q \<noteq> [] \<and> fst q \<noteq> SEndTop)"

lemma end_value_stack:
  "st \<noteq> [] \<Longrightarrow> fst (end_value st c) \<noteq> SEndTop \<Longrightarrow> fst (end_value st c) \<noteq> SError \<Longrightarrow> snd (end_value st c) \<noteq> []"
  by (auto simp: end_value_def pop_state_def split: list.splits parse_state.splits if_splits)

lemma begin_value_stack:
  "st \<noteq> [] \<Longrightarrow> fst (begin_value st c) \<noteq> SError \<Longrightarrow> snd (begin_value st c) \<noteq> [] \<and> fst (begin_value st c) \<noteq> SEndTop"
  by (auto simp: begin_value_def push_state_def)

lemma inside_step: "inside q \<Longrightarrow> inside (scan_step q c)"
  by (cases "(q, c)" rule: scan_step.cases)
    (auto simp: begin_string_def scan_zero_def inside_def split: list.splits
      dest: end_value_stack begin_value_stack end_value_stack [of "ParseObjectValue # tl st" for st, simplified])

lemma inside_foldl: "inside q \<Longrightarrow> inside (foldl scan_step q xs)"
  by (induction xs arbitrary: q) (simp_all add: inside_step)

lemma inside_space:
  assumes "inside q" "fst (scan_step q (CHR '' '')) = SEndTop"
  shows "fst q = SEndTop"
proof (rule ccontr)
  assume n: "fst q \<noteq> SEndTop"
  have sp: "json_space (CHR '' '')" by (simp add: json_space_def)
  from n assms show False
    by (cases "(q, CHR '' '')" rule: scan_step.cases)
      (auto simp: inside_def end_value_def begin_value_def begin_string_def scan_zero_def sp split: list.splits if_splits)
qed

lemma end_top_spaces:
  "fst (foldl scan_step (SEndTop, st) xs) = SEndTop \<Longrightarrow> \<forall>x \<in> set xs. json_space x"
proof (induction xs arbitrary: st)
  case (Cons x xs)
  have "fst (foldl scan_step (SError, st) xs) = SError" by (induction xs) simp_all
  with Cons show ?case by (auto split: if_splits)
qed simp

definition object_text :: "string \<Rightarrow> bool" where
  "object_text b \<longleftrightarrow> json_valid b \<and> b \<noteq> [] \<and> hd b = CHR ''{'' \<and> last b = CHR ''}'' \<and> newline \<notin> set b"

lemma object_prefix:
  assumes b: "object_text b" and p: "p \<noteq> []" "r \<noteq> []" "b = p @ r"
  shows "\<not> json_valid p"
proof
  assume v: "json_valid p"
  obtain q where q: "p = CHR ''{'' # q" using b p by (cases p) (auto simp: object_text_def)
  have s: "scan_step (SBeginValue, []) (CHR ''{'') = (SBeginStringOrEmpty, [ParseObjectKey])"
    by (simp add: begin_value_def json_space_def push_state_def)
  let ?p = "foldl scan_step (SBeginStringOrEmpty, [ParseObjectKey]) q"
  have i: "inside ?p" by (rule inside_foldl) (simp add: inside_def)
  have "fst ?p = SEndTop" using v s by (intro inside_space [OF i]) (simp add: json_valid_def q)
  moreover have "fst (scan_step (foldl scan_step ?p r) (CHR '' '')) = SEndTop"
    using b s p(3) by (simp add: object_text_def json_valid_def q)
  then have "fst (foldl scan_step ?p r) = SEndTop" by (rule inside_space [OF inside_foldl [OF i]])
  ultimately have "\<forall>x \<in> set r. json_space x" using end_top_spaces [of "snd ?p" r] by (metis prod.collapse)
  moreover have "last b \<in> set r" using p by simp
  ultimately have "json_space (last b)" by blast
  with b show False by (simp add: object_text_def json_space_def)
qed

subsection \<open>Lines\<close>

definition fileOf :: "string list \<Rightarrow> string \<Rightarrow> string" where
  "fileOf ls tail = concat (map (\<lambda>b. b @ [newline]) ls) @ tail"

lemma splitLines_plain: "newline \<notin> set b \<Longrightarrow> splitLines b = [b]"
  by (induction b) auto

lemma splitLines_line: "newline \<notin> set b \<Longrightarrow> splitLines (b @ newline # r) = b # splitLines r"
  by (induction b) auto

lemma splitLines_file:
  "\<forall>b \<in> set ls. newline \<notin> set b \<Longrightarrow> newline \<notin> set tail \<Longrightarrow> splitLines (fileOf ls tail) = ls @ [tail]"
  by (induction ls) (simp_all add: fileOf_def splitLines_plain splitLines_line)

lemma fileOf_last: "ls \<noteq> [] \<Longrightarrow> newline \<notin> set tail \<Longrightarrow> last (fileOf ls tail) = newline \<longleftrightarrow> tail = []"
  by (cases ls rule: rev_cases) (auto simp: fileOf_def last_append dest: last_in_set)

lemma fileOf_simps [simp]: "fileOf ls [] @ t = fileOf ls t" "fileOf (ls @ [b]) t = fileOf ls (b @ newline # t)"
  "take (length (fileOf ls [])) (fileOf ls t) = fileOf ls []"
  "ls \<noteq> [] \<Longrightarrow> fileOf ls t \<noteq> []"
  by (auto simp: fileOf_def)

lemma fileOf_length: "length (fileOf ls t) = length (fileOf ls []) + length t"
  by (simp add: fileOf_def)

lemma committedLines_file:
  assumes "2 \<le> length ls" "\<forall>b \<in> set ls. newline \<notin> set b" "newline \<notin> set tail"
  shows "committedLines path (fileOf ls tail) =
    (if tail \<noteq> [] \<and> json_valid tail
     then Inl (corrupt path (Suc (length ls)) ''valid record lacks newline commit marker'')
     else Inr (ls, len (fileOf ls [])))"
proof -
  have "ls \<noteq> []" using assms(1) by auto
  with assms fileOf_last [OF this assms(3)] show ?thesis
    by (simp add: committedLines_def splitLines_file Let_def len_def fileOf_length [of ls tail])
qed

subsection \<open>A file that holds a log\<close>

definition line_ok :: "codec \<Rightarrow> cont_store_limits \<Rightarrow> string \<Rightarrow> cont_record \<Rightarrow> bool" where
  "line_ok J l b rc \<longleftrightarrow> cdReadRecord J b = Some rc \<and> b \<noteq> [] \<and> len b \<le> clMaxRecordBytes l \<and> newline \<notin> set b"

definition header_ok :: "codec \<Rightarrow> string \<Rightarrow> string \<Rightarrow> bool" where
  "header_ok J k h \<longleftrightarrow> newline \<notin> set h \<and> (\<exists>x. cdReadHeader J h = Some x \<and> hdType x = continuationHeaderType \<and>
     hdID x = k \<and> hdVersion x = continuationVersion)"

text \<open>The file has the log \<open>rs\<close>, and behind its \<open>n\<close> committed bytes what an interrupted append left.\<close>

definition stored :: "codec \<Rightarrow> cont_store_limits \<Rightarrow> string \<Rightarrow> cont_record list \<Rightarrow> nat \<Rightarrow> string \<Rightarrow> bool" where
  "stored J l k rs n data \<longleftrightarrow> (\<exists>h bs tail. data = fileOf (h # bs) tail \<and> n = length (fileOf (h # bs) []) \<and>
     header_ok J k h \<and> list_all2 (line_ok J l) bs rs \<and> newline \<notin> set tail \<and> (tail = [] \<or> \<not> json_valid tail) \<and>
     clog_ok k rs \<and> len rs \<le> clMaxTransitions l \<and> len data \<le> clMaxFileBytes l)"

lemma clog_ok_parts:
  assumes "clog_ok k rs"
  shows "rs \<noteq> []" "rc \<in> set rs \<Longrightarrow> validateRecord_c rc = None" "rc \<in> set rs \<Longrightarrow> exID (rcExecution rc) = k"
    "validateCreateRecord_c (hd rs) = None"
    "Suc i < length rs \<Longrightarrow> validateNextRecord_c (rs ! i) (rcRev (rs ! i)) (rs ! Suc i) = None"
  using assms unfolding clog_ok_def by blast+

lemma list_all2_left: "list_all2 P xs ys \<Longrightarrow> x \<in> set xs \<Longrightarrow> \<exists>y. P x y"
  by (induction rule: list_all2_induct) auto

lemma recordLines_stored:
  assumes "list_all2 (line_ok J l) bs rs" "clog_ok k (acc @ rs) \<or> rs = []"
  shows "recordLines J path k l acc n bs = Inr (acc @ rs)"
  using assms
proof (induction bs rs arbitrary: acc n rule: list_all2_induct)
  case (Cons b bs rc rs)
  from Cons.prems have ok: "clog_ok k ((acc @ [rc]) @ rs)" by simp
  note parts = clog_ok_parts [OF ok]
  have v: "validateRecord_c rc = None" "exID (rcExecution rc) = k" using parts(2,3) by simp_all
  have "validateRecordSequence path n acc rc = None"
  proof (cases "acc = []")
    case True
    with parts(4) show ?thesis by (simp add: validateRecordSequence_def)
  next
    case False
    have "Suc (length acc - 1) < length ((acc @ [rc]) @ rs)" using False by (cases acc) auto
    then have "validateNextRecord_c (((acc @ [rc]) @ rs) ! (length acc - 1)) (rcRev (((acc @ [rc]) @ rs) ! (length acc - 1)))
        (((acc @ [rc]) @ rs) ! Suc (length acc - 1)) = None"
      by (rule parts(5))
    with False show ?thesis by (simp add: validateRecordSequence_def nth_append last_conv_nth)
  qed
  moreover have "decodeRecordLine J path k b n (clMaxRecordBytes l) = Inr rc"
    using Cons.hyps(1) v by (simp add: decodeRecordLine_def line_ok_def)
  moreover have "recordLines J path k l (acc @ [rc]) (Suc n) bs = Inr ((acc @ [rc]) @ rs)"
    using Cons.IH ok by blast
  ultimately show ?case by simp
qed simp

lemma stored_lines:
  assumes "header_ok J k h" "list_all2 (line_ok J l) bs rs"
  shows "\<forall>b \<in> set (h # bs). newline \<notin> set b"
proof -
  have "newline \<notin> set b" if "b \<in> set bs" for b
    using list_all2_left [OF assms(2) that] by (auto simp: line_ok_def)
  with assms(1) show ?thesis by (simp add: header_ok_def)
qed

lemma stored_two: "list_all2 P bs rs \<Longrightarrow> clog_ok k rs \<Longrightarrow> 2 \<le> length (h # bs)"
  using clog_ok_parts(1) by (cases bs; cases rs) auto

lemma decode_stored:
  assumes "stored J l k rs n data"
  shows "decodeExecutionFile J path k data l = Inr (rs, int n)"
proof -
  obtain h bs tail where d: "data = fileOf (h # bs) tail" "n = length (fileOf (h # bs) [])" "header_ok J k h"
    "list_all2 (line_ok J l) bs rs" "newline \<notin> set tail" "tail = [] \<or> \<not> json_valid tail" "clog_ok k rs"
    "len rs \<le> clMaxTransitions l" using assms unfolding stored_def by blast
  have "committedLines path data = Inr (h # bs, int n)"
    using committedLines_file [OF stored_two [OF d(4,7)] stored_lines [OF d(3,4)] d(5), of path] d(1,2,6)
    by (auto simp: len_def)
  moreover have "recordLines J path k l [] 2 bs = Inr rs" using recordLines_stored [OF d(4)] d(7) by simp
  moreover have "validateExecutionHeader J path k h = None" using d(3) by (auto simp: validateExecutionHeader_def header_ok_def)
  ultimately show ?thesis using d(8) by (simp add: decodeExecutionFile_def decodeRecordLines_def)
qed

definition holds :: "codec \<Rightarrow> string \<Rightarrow> cont_record list \<Rightarrow> cont_jsonl \<Rightarrow> bool" where
  "holds J k rs s \<longleftrightarrow> (\<exists>data n. map_of (cjFiles s) (k @ continuationFileExt) = Some (File data) \<and>
     stored J (cjLimits s) k rs n data)"

lemma read_stored:
  assumes "map_of (cjFiles s) (k @ continuationFileExt) = Some (File data)" "stored J (cjLimits s) k rs n data"
    and "validateID k = None" "\<not> ioFail os ''read''"
  shows "jsonlRead J os k s = Inr (rs, int n)"
  using assms decode_stored [OF assms(2)] by (auto simp: jsonlRead_def jsonlPath_def stored_def)

lemma holds_read:
  assumes "holds J k rs s" "validateID k = None" "\<not> ioFail os ''read''"
  shows "jsonlHistory J os None k s = Inr rs" "jsonlLoad J os None k s = Inr (last rs)"
proof -
  obtain data n where d: "map_of (cjFiles s) (k @ continuationFileExt) = Some (File data)"
    "stored J (cjLimits s) k rs n data" using assms(1) unfolding holds_def by blast
  have "rs \<noteq> []" using d(2) clog_ok_parts(1) unfolding stored_def by blast
  with read_stored [OF d assms(2,3)] show "jsonlHistory J os None k s = Inr rs" "jsonlLoad J os None k s = Inr (last rs)"
    by (simp_all add: jsonlHistory_def jsonlLoad_def lastRecord_c_def)
qed

text \<open>
  What the store relies on in \<^verbatim>\<open>encoding/json\<close>, asked of single records only: an encoded struct is an
  object on one line, and what was encoded decodes to itself. Of a record it holds when its raw values are compact
  and its texts are UTF-8. Of the header that \<^verbatim>\<open>Create\<close> writes it holds whenever the identifier is one that
  \<^verbatim>\<open>validateID\<close> accepts, which is ASCII.
\<close>

definition canonical :: "codec \<Rightarrow> cont_record \<Rightarrow> bool" where
  "canonical J rc \<longleftrightarrow> (\<forall>b. cdRecord J rc = Inr b \<longrightarrow> object_text b \<and> cdReadRecord J b = Some rc)"

definition headerFor :: "cont_record \<Rightarrow> header" where
  "headerFor rc = \<lparr>hdType = continuationHeaderType, hdVersion = continuationVersion, hdID = exID (rcExecution rc),
     hdCreatedAt = exCreatedAt (rcExecution rc)\<rparr>"

definition header_kept :: "codec \<Rightarrow> cont_record \<Rightarrow> bool" where
  "header_kept J rc \<longleftrightarrow> (\<forall>b. cdHeader J (headerFor rc) = Inr b \<longrightarrow> object_text b \<and> (\<exists>x. cdReadHeader J b = Some x \<and>
     hdType x = hdType (headerFor rc) \<and> hdVersion x = hdVersion (headerFor rc) \<and> hdID x = hdID (headerFor rc)))"

lemma header_kept_ok:
  "header_kept J rc \<Longrightarrow> cdHeader J \<lparr>hdType = continuationHeaderType, hdVersion = continuationVersion,
     hdID = exID (rcExecution rc), hdCreatedAt = exCreatedAt (rcExecution rc)\<rparr> = Inr b \<Longrightarrow> header_ok J (exID (rcExecution rc)) b"
  by (auto simp: header_kept_def header_ok_def headerFor_def object_text_def)

subsection \<open>Appending\<close>

lemma object_textD: "object_text b \<Longrightarrow> b \<noteq> [] \<and> newline \<notin> set b \<and> json_valid b"
  by (simp add: object_text_def)

text \<open>
  A write that stops after \<open>m\<close> bytes of the line leaves the old log, unless all but the newline was
  written: then the file is refused.
\<close>

lemma stored_append:
  assumes st: "stored J l k rs n data" and b: "object_text b" "cdReadRecord J b = Some nx" "len b \<le> clMaxRecordBytes l"
    and ok: "clog_ok k (rs @ [nx])" and room: "len rs < clMaxTransitions l" "int n + (len b + 1) \<le> clMaxFileBytes l"
  shows "m < length b \<Longrightarrow> stored J l k rs n (take n data @ take m (b @ [newline]))"
    and "decodeExecutionFile J path k (take n data @ take (length b) (b @ [newline])) l =
      Inl (corrupt path (length rs + 2) ''valid record lacks newline commit marker'')"
    and "length b < m \<Longrightarrow> stored J l k (rs @ [nx]) (n + length b + 1) (take n data @ take m (b @ [newline]))"
proof -
  obtain h bs tail where d: "data = fileOf (h # bs) tail" "n = length (fileOf (h # bs) [])" "header_ok J k h"
    "list_all2 (line_ok J l) bs rs" "clog_ok k rs" "len rs \<le> clMaxTransitions l" "len data \<le> clMaxFileBytes l"
    using st unfolding stored_def by blast
  have t: "take n data = fileOf (h # bs) []" by (simp add: d(1,2))
  have lb: "length bs = length rs" using d(4) by (rule list_all2_lengthD)
  note bo = object_textD [OF b(1)]
  { assume m: "m < length b"
    have tk: "take m (b @ [newline]) = take m b" using m by simp
    have v: "take m b = [] \<or> \<not> json_valid (take m b)"
      using object_prefix [OF b(1), of "take m b" "drop m b"] m by auto
    have nn: "newline \<notin> set (take m b)" using bo by (auto dest: in_set_takeD)
    have "len (take n data @ take m (b @ [newline])) \<le> clMaxFileBytes l"
      using room(2) m by (simp add: len_def t d(2))
    then show "stored J l k rs n (take n data @ take m (b @ [newline]))"
      using d(2-6) v nn unfolding stored_def t tk fileOf_simps(1) by blast }
  { have "committedLines path (fileOf (h # bs) b) = Inl (corrupt path (Suc (length (h # bs)))
        ''valid record lacks newline commit marker'')"
      using committedLines_file [OF stored_two [OF d(4,5)] stored_lines [OF d(3,4)]] bo by simp
    then show "decodeExecutionFile J path k (take n data @ take (length b) (b @ [newline])) l =
      Inl (corrupt path (length rs + 2) ''valid record lacks newline commit marker'')"
      by (simp add: decodeExecutionFile_def t lb) }
  { assume m: "length b < m"
    then have tk: "take m (b @ [newline]) = b @ [newline]" by simp
    have f: "take n data @ take m (b @ [newline]) = fileOf (h # bs @ [b]) []"
      using fileOf_simps(2) [of "h # bs" b "[]"] unfolding t tk fileOf_simps(1) by simp
    have "line_ok J l b nx" using b bo by (simp add: line_ok_def)
    then have "list_all2 (line_ok J l) (bs @ [b]) (rs @ [nx])" using d(4) by (simp add: list_all2_appendI)
    moreover have len: "length (fileOf (h # bs @ [b]) []) = n + length b + 1"
      by (simp add: fileOf_def d(2))
    moreover have "len (fileOf (h # bs @ [b]) []) \<le> clMaxFileBytes l" using len room(2) by (simp add: len_def)
    moreover have "len (rs @ [nx]) \<le> clMaxTransitions l" using room(1) by (simp add: len_def)
    ultimately show "stored J l k (rs @ [nx]) (n + length b + 1) (take n data @ take m (b @ [newline]))"
      unfolding stored_def f using d(3) ok by (metis append_Cons empty_iff list.set(1)) }
qed

text \<open>What an append finds before it writes.\<close>

definition casReady :: "codec \<Rightarrow> io \<Rightarrow> ctx \<Rightarrow> string \<Rightarrow> u64 \<Rightarrow> cont_record \<Rightarrow> cont_jsonl \<Rightarrow> cont_record list \<Rightarrow> nat \<Rightarrow> cont_error + string" where
  "casReady J os c k expected nx s rs n = guardE c (bindE (encodedLine J nx (cjLimits s)) (\<lambda>b.
     guardE (fail_if (ioFail os ''read'') (osError ''read execution file''))
     (guardE (validateNextRecord_c (last rs) expected nx)
       (guardE (fail_if (len rs \<ge> clMaxTransitions (cjLimits s) \<or> int n + (len b + 1) > clMaxFileBytes (cjLimits s)) ErrStoreFull)
         (Inr b)))))"

lemma jsonlCas_stored:
  assumes f: "map_of (cjFiles s) (k @ continuationFileExt) = Some (File data)" and st: "stored J (cjLimits s) k rs n data"
    and k: "validateID k = None"
  shows "jsonlCas J os c k v nx s = (case casReady J os c k v nx s rs n of
     Inl e \<Rightarrow> (Some e, s) | Inr b \<Rightarrow> jsonlAppend os (k @ continuationFileExt) (int n) b s)"
proof -
  have ne: "rs \<noteq> []" using st clog_ok_parts(1) unfolding stored_def by blast
  have r: "jsonlRead J os k s = (if ioFail os ''read'' then Inl (osError ''read execution file'') else Inr (rs, int n))"
    using read_stored [OF f st k, of os] f k by (auto simp: jsonlRead_def jsonlPath_def)
  show ?thesis using ne k
    by (cases c; cases "encodedLine J nx (cjLimits s)"; cases "validateNextRecord_c (last rs) v nx")
      (auto simp: jsonlCas_def casReady_def r lastRecord_c_def jsonlPath_def guardE_def split: option.splits)
qed

lemma casReady_Inr:
  "casReady J os c k v nx s rs n = Inr b \<longleftrightarrow> c = None \<and> validateRecord_c nx = None \<and> cdRecord J nx = Inr b \<and>
     len b \<le> clMaxRecordBytes (cjLimits s) \<and> \<not> ioFail os ''read'' \<and> validateNextRecord_c (last rs) v nx = None \<and>
     len rs < clMaxTransitions (cjLimits s) \<and> int n + (len b + 1) \<le> clMaxFileBytes (cjLimits s)"
  by (auto simp: casReady_def encodedLine_def okE)

lemma putFile_get [simp]: "map_of (cjFiles (putFile p x s)) q = (if q = p then Some (File x) else map_of (cjFiles s) q)"
  "cjLimits (putFile p x s) = cjLimits s"
  by (auto simp: putFile_def update_conv')

lemma casReady_log:
  assumes "stored J l k rs n data" "validateNextRecord_c (last rs) v nx = None" "validateRecord_c nx = None"
  shows "clog_ok k (rs @ [nx])"
proof -
  have ok: "clog_ok k rs" using assms(1) unfolding stored_def by blast
  have "rcRev (last rs) = v" using assms(2) by (simp add: validateNextRecord_c_def)
  with assms(2,3) clog_ok_append [OF ok] show ?thesis by simp
qed

text \<open>Whatever fails, and wherever the append is interrupted.\<close>

theorem append_atomic:
  assumes h: "holds J k rs s" and k: "validateID k = None" and c: "canonical J nx"
    and run: "jsonlCas J os ctx k v nx s = (err, s')"
  shows "(\<forall>p. p \<noteq> k @ continuationFileExt \<longrightarrow> map_of (cjFiles s') p = map_of (cjFiles s) p) \<and>
    (holds J k rs s' \<and> err \<noteq> None \<or>
     holds J k (rs @ [nx]) s' \<or>
     ioShort os = Some (length (projr (cdRecord J nx))) \<and> err \<noteq> None \<and>
       (\<forall>os'. \<not> ioFail os' ''read'' \<longrightarrow> (\<exists>e. jsonlHistory J os' None k s' = Inl e \<and> errorsIs_c e ErrCorruptStore)))"
proof -
  let ?p = "k @ continuationFileExt"
  obtain data n where d: "map_of (cjFiles s) ?p = Some (File data)" and st: "stored J (cjLimits s) k rs n data"
    using h unfolding holds_def by blast
  note run' = run [unfolded jsonlCas_stored [OF d st k]]
  show ?thesis
  proof (cases "casReady J os ctx k v nx s rs n")
    case (Inl e)
    with run' h show ?thesis by auto
  next
    case (Inr b)
    note rdy = Inr [unfolded casReady_Inr]
    have b: "object_text b" "cdReadRecord J b = Some nx" using c rdy by (auto simp: canonical_def)
    have ok: "clog_ok k (rs @ [nx])" using casReady_log [OF st] rdy by blast
    note ap = stored_append [OF st b _ ok]
    have ap1: "m < length b \<Longrightarrow> stored J (cjLimits s) k rs n (take n data @ take m (b @ [newline]))" for m
      using ap(1) rdy by blast
    have ap2: "decodeExecutionFile J ?p k (take n data @ take (length b) (b @ [newline])) (cjLimits s) =
        Inl (corrupt ?p (length rs + 2) ''valid record lacks newline commit marker'')"
      using ap(2) rdy by blast
    have ap3: "length b < m \<Longrightarrow> stored J (cjLimits s) k (rs @ [nx]) (n + length b + 1) (take n data @ take m (b @ [newline]))" for m
      using ap(3) rdy by blast
    let ?w = "putFile ?p (take n data @ written os (b @ [newline])) s"
    have other: "\<forall>p. p \<noteq> ?p \<longrightarrow> map_of (cjFiles s') p = map_of (cjFiles s) p"
      using run' Inr d by (auto simp: jsonlAppend_def Let_def split: if_splits)
    show ?thesis
    proof (cases "ioFail os ''open'' \<or> ioFail os ''truncate''")
      case True
      with run' Inr d have "s' = s" "err \<noteq> None" by (auto simp: jsonlAppend_def split: if_splits)
      with h show ?thesis by blast
    next
      case False
      with run' Inr d have w: "s' = ?w" and e: "ioShort os \<noteq> None \<Longrightarrow> err \<noteq> None"
        by (auto simp: jsonlAppend_def Let_def split: if_splits)
      have hold: "holds J k rs' s'" if "stored J (cjLimits s) k rs' n' (take n data @ written os (b @ [newline]))" for rs' n'
        using that unfolding holds_def w by (intro exI conjI) simp_all
      show ?thesis
      proof (cases "ioShort os")
        case None
        then have "written os (b @ [newline]) = take (length b + 1) (b @ [newline])" by (simp add: written_def)
        with hold ap3 [of "length b + 1"] other show ?thesis by simp
      next
        case (Some m)
        then have wr: "written os (b @ [newline]) = take m (b @ [newline])" by (simp add: written_def)
        consider "m < length b" | "m = length b" | "length b < m" by linarith
        then show ?thesis
        proof cases
          case 1
          then have "holds J k rs s'" using hold [of rs n] ap1 [of m] unfolding wr by blast
          with e Some other show ?thesis by blast
        next
          case 2
          have mn: "int (min (length data) n) \<le> int n" by simp
          have "len (take n data @ take m (b @ [newline])) \<le> clMaxFileBytes (cjLimits s)"
            using rdy 2 mn by (auto simp: len_def)
          then have "jsonlHistory J os' None k s' =
              Inl (corrupt ?p (length rs + 2) ''valid record lacks newline commit marker'')" if "\<not> ioFail os' ''read''" for os'
            using ap2 2 wr k that by (simp add: w jsonlHistory_def jsonlRead_def jsonlPath_def)
          moreover have "errorsIs_c (corrupt ?p (length rs + 2) ''valid record lacks newline commit marker'') ErrCorruptStore"
            by (simp add: corrupt_def)
          moreover have "ioShort os = Some (length (projr (cdRecord J nx)))" using 2 Some rdy by simp
          ultimately have "\<forall>os'. \<not> ioFail os' ''read'' \<longrightarrow> (\<exists>e. jsonlHistory J os' None k s' = Inl e \<and> errorsIs_c e ErrCorruptStore)"
            "ioShort os = Some (length (projr (cdRecord J nx)))" "err \<noteq> None" using e Some by auto
          with other show ?thesis by blast
        next
          case 3
          then have "holds J k (rs @ [nx]) s'" using hold [of "rs @ [nx]" "n + length b + 1"] ap3 [of m] unfolding wr by blast
          with other show ?thesis by blast
        qed
      qed
    qed
  qed
qed

subsection \<open>An interrupted create\<close>

lemma splitLines_cut:
  assumes hb: "newline \<notin> set hb" and b: "newline \<notin> set b" and m: "m < length (hb @ newline # b @ [newline])"
  shows "splitLines (take m (hb @ newline # b @ [newline])) =
    (if m \<le> length hb then [take m hb] else [hb, take (m - length hb - 1) b])"
proof (cases "m \<le> length hb")
  case True
  then have "newline \<notin> set (take m hb)" using hb by (auto dest: in_set_takeD)
  with True show ?thesis by (simp add: splitLines_plain)
next
  case False
  then obtain j where j: "m = length hb + Suc j" using less_iff_Suc_add [of "length hb" m] by auto
  have "newline \<notin> set (take j b)" using b by (auto dest: in_set_takeD)
  with m j show ?thesis by (simp add: splitLines_line [OF hb] splitLines_plain)
qed

text \<open>A file cut anywhere within its first two lines is refused.\<close>

lemma torn_create_corrupt:
  assumes hb: "newline \<notin> set hb" and b: "newline \<notin> set b" and m: "m < length (hb @ newline # b @ [newline])"
  shows "\<exists>e. committedLines path (take m (hb @ newline # b @ [newline])) = Inl e \<and> errorsIs_c e ErrCorruptStore"
proof -
  let ?d = "take m (hb @ newline # b @ [newline])"
  have s: "length (butlast (splitLines ?d)) < 2" unfolding splitLines_cut [OF assms] by simp
  show ?thesis
    using s by (auto simp: committedLines_def Let_def corrupt_def bindE_def guardE_def simp del: take_append split: sum.splits)
qed

lemma createFile_Inr:
  "createFile J c rc l = Inr (path, data) \<longleftrightarrow> c = None \<and> validateCreateRecord_c rc = None \<and> validateRecord_c rc = None \<and>
     validateID (exID (rcExecution rc)) = None \<and> path = exID (rcExecution rc) @ continuationFileExt \<and>
     (\<exists>hb b. cdHeader J \<lparr>hdType = continuationHeaderType, hdVersion = continuationVersion, hdID = exID (rcExecution rc),
        hdCreatedAt = exCreatedAt (rcExecution rc)\<rparr> = Inr hb \<and> cdRecord J rc = Inr b \<and>
        len b \<le> clMaxRecordBytes l \<and> len hb + len b + 2 \<le> clMaxFileBytes l \<and> data = hb @ newline # b @ [newline])"
  by (auto simp: createFile_def encodedLine_def jsonlPath_def okE first_err_None)

lemma page_error:
  assumes "k \<in> set ks" "jsonlRead J os k s = Inl e"
  shows "\<exists>e'. jsonlPage J os s ks = Inl e'"
  using assms
proof (induction ks)
  case (Cons x xs)
  show ?case
  proof (cases "jsonlPage J os s (x # xs)")
    case (Inr es)
    with Cons have False by (auto simp: okE)
    then show ?thesis ..
  qed blast
qed simp

theorem torn_create:
  assumes J: "header_kept J rc" "canonical J rc" and cf: "createFile J None rc (cjLimits s) = Inr (path, data)"
    and new: "map_of (cjFiles s) path = None" and os: "\<not> ioFail os ''open''" "ioFail os ''remove''" "ioShort os = Some m"
    and m: "m < length data" and run: "jsonlCreate J os None rc s = (err, s')" and rd: "\<not> ioFail os' ''read''"
  shows "\<exists>e. jsonlLoad J os' None (exID (rcExecution rc)) s' = Inl e \<and> errorsIs_c e ErrCorruptStore"
    and "jsonlCreate J os' None rc s' = (Some ErrExists, s')"
    and "exID (rcExecution rc) \<in> set (take (nat (loLimit opt)) (listedIDs opt (cjFiles s'))) \<Longrightarrow>
      \<exists>e. jsonlList J os' None opt s' = Inl e"
proof -
  let ?k = "exID (rcExecution rc)"
  obtain hb b where d: "cdRecord J rc = Inr b" "data = hb @ newline # b @ [newline]" "validateID ?k = None"
      "path = ?k @ continuationFileExt" "len hb + len b + 2 \<le> clMaxFileBytes (cjLimits s)"
    and h: "cdHeader J \<lparr>hdType = continuationHeaderType, hdVersion = continuationVersion, hdID = ?k,
        hdCreatedAt = exCreatedAt (rcExecution rc)\<rparr> = Inr hb"
    using cf unfolding createFile_Inr by blast
  have nn: "newline \<notin> set hb" "newline \<notin> set b"
    using header_kept_ok [OF J(1) h] J(2) d(1) object_textD by (auto simp: header_ok_def canonical_def)
  have s': "s' = putFile path (take m data) s"
    using run cf new os by (simp add: jsonlCreate_def Let_def written_def)
  obtain e where e: "committedLines path (take m data) = Inl e" "errorsIs_c e ErrCorruptStore"
    using torn_create_corrupt [OF nn] m unfolding d(2) by blast
  have "len (take m data) \<le> clMaxFileBytes (cjLimits s)" using d(2,5) m by (auto simp: len_def)
  then have r: "jsonlRead J os' ?k s' = Inl e"
    using e d(3,4) rd by (simp add: s' jsonlRead_def jsonlPath_def decodeExecutionFile_def)
  then show "\<exists>e. jsonlLoad J os' None ?k s' = Inl e \<and> errorsIs_c e ErrCorruptStore"
    using e(2) by (simp add: jsonlLoad_def)
  show "jsonlCreate J os' None rc s' = (Some ErrExists, s')"
    using cf by (simp add: jsonlCreate_def s')
  assume k: "?k \<in> set (take (nat (loLimit opt)) (listedIDs opt (cjFiles s')))"
  then have "?k \<in> set (take (min (length (listedIDs opt (cjFiles s'))) (nat (loLimit opt))) (listedIDs opt (cjFiles s')))"
    by (auto simp: min_def dest: in_set_takeD)
  from page_error [OF this r] show "\<exists>e. jsonlList J os' None opt s' = Inl e"
    by (cases "jsonlList J os' None opt s'") (auto simp: jsonlList_def Let_def okE)
qed

subsection \<open>Against the memory store\<close>

text \<open>A machine whose operating system fails nothing.\<close>

definition soundIO :: io where
  "soundIO = \<lparr>ioFail = (\<lambda>_. False), ioShort = None\<rparr>"

lemma soundIO_simps [simp]: "\<not> ioFail soundIO x" "ioShort soundIO = None" "written soundIO b = b"
  by (simp_all add: soundIO_def written_def)

text \<open>The length of the encoding is what the memory store asks of a record.\<close>

definition lengthOf :: "codec \<Rightarrow> encoding" where
  "lengthOf J rc = (case cdRecord J rc of Inl e \<Rightarrow> Inl e | Inr b \<Rightarrow> Inr (len b))"

definition mirrors :: "codec \<Rightarrow> cont_jsonl \<Rightarrow> cont_mem \<Rightarrow> bool" where
  "mirrors J s m \<longleftrightarrow> cjLimits s = cmLimits m \<and> distinct (map fst (cjFiles s)) \<and>
     (\<forall>k rs. map_of (cmRecords m) k = Some rs \<longrightarrow> validateID k = None \<and> holds J k rs s) \<and>
     (\<forall>p x. map_of (cjFiles s) p = Some x \<and> hasSuffix continuationFileExt p \<longrightarrow>
        (\<exists>k. p = k @ continuationFileExt \<and> map_of (cmRecords m) k \<noteq> None))"

datatype store_call = CallCreate cont_record | CallLoad string | CallCas string u64 cont_record
  | CallList list_options | CallHistory string

datatype store_answer = Wrote "cont_error option" | Loaded "cont_error + cont_record"
  | Listed "cont_error + list_page" | Recalled "cont_error + cont_record list"

fun callStore :: "'st cont_ops \<Rightarrow> ctx \<Rightarrow> store_call \<Rightarrow> 'st \<Rightarrow> store_answer \<times> 'st" where
  "callStore S c (CallCreate rc) s = (case opCreate S c rc s of (e, s') \<Rightarrow> (Wrote e, s'))"
| "callStore S c (CallLoad k) s = (Loaded (opLoad S c k s), s)"
| "callStore S c (CallCas k v rc) s = (case opCas S c k v rc s of (e, s') \<Rightarrow> (Wrote e, s'))"
| "callStore S c (CallList opt) s = (Listed (opList S c opt s), s)"
| "callStore S c (CallHistory k) s = (Recalled (opHistory S c k s), s)"

text \<open>
  What keeps a call away from the differences of the two: its identifier is one the engine may pass, its
  record is canonical and its header has an encoding that keeps it, and the file's bounds, which count the header, leave room.
\<close>

definition fileBytes :: "cont_jsonl \<Rightarrow> string \<Rightarrow> int" where
  "fileBytes s k = (case map_of (cjFiles s) (k @ continuationFileExt) of Some (File data) \<Rightarrow> len data | _ \<Rightarrow> 0)"

fun callFits :: "codec \<Rightarrow> store_call \<Rightarrow> cont_jsonl \<Rightarrow> cont_mem \<Rightarrow> bool" where
  "callFits J (CallCreate rc) s m \<longleftrightarrow> canonical J rc \<and> header_kept J rc \<and> validateID (exID (rcExecution rc)) = None \<and>
     validateCreateRecord_c rc = None \<and>
     (\<exists>hb. cdHeader J \<lparr>hdType = continuationHeaderType, hdVersion = continuationVersion,
        hdID = exID (rcExecution rc), hdCreatedAt = exCreatedAt (rcExecution rc)\<rparr> = Inr hb \<and>
        (\<forall>b. cdRecord J rc = Inr b \<longrightarrow> len hb + len b + 2 \<le> clMaxFileBytes (cjLimits s) \<and> 1 \<le> clMaxTransitions (cjLimits s)))"
| "callFits J (CallLoad k) s m \<longleftrightarrow> validateID k = None"
| "callFits J (CallCas k v rc) s m \<longleftrightarrow> canonical J rc \<and> validateID k = None \<and>
     (\<forall>b. cdRecord J rc = Inr b \<longrightarrow> fileBytes s k + (len b + 1) \<le> clMaxFileBytes (cjLimits s) \<and>
        bytesOf_c m k + (len b + 1) \<le> clMaxFileBytes (cjLimits s))"
| "callFits J (CallList opt) s m \<longleftrightarrow> True"
| "callFits J (CallHistory k) s m \<longleftrightarrow> validateID k = None"

lemma encoded_both: "encodedRecord_c (lengthOf J) rc l = (case encodedLine J rc l of Inl e \<Rightarrow> Inl e | Inr b \<Rightarrow> Inr (len b))"
  by (auto simp: encodedRecord_c_def encodedLine_def lengthOf_def guardE_def bindE_def split: sum.splits option.splits)

lemma mirrors_read:
  assumes "mirrors J s m" "validateID k = None"
  shows "map_of (cmRecords m) k = None \<Longrightarrow> jsonlRead J soundIO k s = Inl ErrNotFound"
    and "map_of (cmRecords m) k = Some rs \<Longrightarrow> \<exists>n. jsonlRead J soundIO k s = Inr (rs, int n)"
proof -
  { assume n: "map_of (cmRecords m) k = None"
    have "hasSuffix continuationFileExt (k @ continuationFileExt)" by (simp add: hasSuffix_def)
    with assms(1) n have "map_of (cjFiles s) (k @ continuationFileExt) = None"
      unfolding mirrors_def by (metis append_same_eq not_Some_eq)
    then show "jsonlRead J soundIO k s = Inl ErrNotFound" using assms(2) by (simp add: jsonlRead_def jsonlPath_def) }
  { assume "map_of (cmRecords m) k = Some rs"
    then have "holds J k rs s" using assms(1) unfolding mirrors_def by blast
    then show "\<exists>n. jsonlRead J soundIO k s = Inr (rs, int n)"
      using read_stored assms(2) unfolding holds_def by (metis soundIO_simps(1)) }
qed

lemma holds_other:
  "map_of (cjFiles s') (k @ continuationFileExt) = map_of (cjFiles s) (k @ continuationFileExt) \<Longrightarrow>
     cjLimits s' = cjLimits s \<Longrightarrow> holds J k rs s' = holds J k rs s"
  by (simp add: holds_def)

text \<open>Both stores gain the record of one execution.\<close>

lemma mirrors_put:
  assumes mi: "mirrors J s m" and k: "validateID k = None" and h: "holds J k rs (putFile (k @ continuationFileExt) data s)"
  shows "mirrors J (putFile (k @ continuationFileExt) data s)
    (m\<lparr>cmRecords := AList.update k rs (cmRecords m), cmBytes := bs\<rparr>)"
proof -
  let ?s = "putFile (k @ continuationFileExt) data s"
  have "holds J k' rs' ?s" if "k' \<noteq> k" "map_of (cmRecords m) k' = Some rs'" for k' rs'
    using mi that holds_other [of ?s k' s J rs'] by (simp add: mirrors_def)
  moreover have "distinct (map fst (cjFiles ?s))" using mi by (simp add: mirrors_def putFile_def distinct_update)
  moreover have "\<exists>k'. p = k' @ continuationFileExt \<and> map_of (AList.update k rs (cmRecords m)) k' \<noteq> None"
    if p: "map_of (cjFiles ?s) p = Some x" "hasSuffix continuationFileExt p" for p x
  proof (cases "p = k @ continuationFileExt")
    case False
    with p have "map_of (cjFiles s) p = Some x" by simp
    with p(2) mi obtain k' where "p = k' @ continuationFileExt" "map_of (cmRecords m) k' \<noteq> None"
      unfolding mirrors_def by blast
    then show ?thesis by (auto simp: update_conv')
  qed (auto simp: update_conv')
  ultimately show ?thesis using mi k h unfolding mirrors_def by (simp add: update_conv')
qed

lemma stored_size: "stored J l k rs n data \<Longrightarrow> int n \<le> len data"
proof -
  assume "stored J l k rs n data"
  then obtain ls tail where "data = fileOf ls tail" "n = length (fileOf ls [])" unfolding stored_def by blast
  then show ?thesis using fileOf_length [of ls tail] by (simp add: len_def)
qed

lemma cas_mirrors:
  assumes mi: "mirrors J s m" and fit: "callFits J (CallCas k v nx) s m"
    and run: "jsonlCas J soundIO c k v nx s = (e, s')"
  shows "\<exists>m'. memCas_c (lengthOf J) c k v nx m = (e, m') \<and> mirrors J s' m'"
proof (cases "c = None \<and> (\<exists>b. encodedLine J nx (cjLimits s) = Inr b)")
  case False
  then show ?thesis using run mi
    by (auto simp: jsonlCas_def memCas_c_def encoded_both mirrors_def split: option.splits sum.splits)
next
  case True
  then obtain b where c: "c = None" and b: "encodedLine J nx (cjLimits s) = Inr b" by blast
  have l: "cjLimits s = cmLimits m" using mi by (simp add: mirrors_def)
  have enc: "encodedRecord_c (lengthOf J) nx (cmLimits m) = Inr (len b)" using b l by (simp add: encoded_both)
  have k: "validateID k = None" and cb: "cdRecord J nx = Inr b" "validateRecord_c nx = None" and can: "canonical J nx"
    using fit b by (auto simp: encodedLine_def okE)
  show ?thesis
  proof (cases "map_of (cmRecords m) k")
    case None
    with run mirrors_read(1) [OF mi k] c b enc mi show ?thesis by (auto simp: jsonlCas_def memCas_c_def)
  next
    case (Some rs)
    then have "holds J k rs s" using mi unfolding mirrors_def by blast
    then obtain data n where d: "map_of (cjFiles s) (k @ continuationFileExt) = Some (File data)"
        and st: "stored J (cjLimits s) k rs n data" unfolding holds_def by blast
    have ne: "rs \<noteq> []" using st clog_ok_parts(1) unfolding stored_def by blast
    have nd: "int n \<le> len data" by (rule stored_size [OF st])
    have room: "int n + (len b + 1) \<le> clMaxFileBytes (cjLimits s)" "bytesOf_c m k + (len b + 1) \<le> clMaxFileBytes (cmLimits m)"
      using fit cb d nd l by (auto simp: fileBytes_def)
    note run' = run [unfolded jsonlCas_stored [OF d st k]]
    show ?thesis
    proof (cases "validateNextRecord_c (last rs) v nx = None \<and> len rs < clMaxTransitions (cjLimits s)")
      case False
      with run' c b room mi Some ne enc l show ?thesis
        by (auto simp: casReady_def memCas_c_def lastRecord_c_def split: option.splits)
    next
      case True
      then have rdy: "casReady J soundIO c k v nx s rs n = Inr b" using c b room(1) by (simp add: casReady_def)
      let ?w = "putFile (k @ continuationFileExt) (take n data @ b @ [newline]) s"
      have s': "e = None" "s' = ?w" using run' rdy d by (simp_all add: jsonlAppend_def Let_def)
      have run2: "jsonlCas J soundIO None k v nx s = (None, ?w)" using run c s' by simp
      have "holds J k (rs @ [nx]) ?w"
        using append_atomic [OF \<open>holds J k rs s\<close> k can run2] by simp
      from mirrors_put [OF mi k this] True c room(2) enc Some ne l s' show ?thesis
        by (simp add: memCas_c_def lastRecord_c_def not_le)
    qed
  qed
qed

lemma create_mirrors:
  assumes mi: "mirrors J s m" and fit: "callFits J (CallCreate rc) s m"
    and run: "jsonlCreate J soundIO c rc s = (e, s')"
  shows "\<exists>m'. memCreate_c (lengthOf J) c rc m = (e, m') \<and> mirrors J s' m'"
proof -
  let ?k = "exID (rcExecution rc)"
  let ?p = "?k @ continuationFileExt"
  let ?h = "\<lparr>hdType = continuationHeaderType, hdVersion = continuationVersion, hdID = ?k,
        hdCreatedAt = exCreatedAt (rcExecution rc)\<rparr>"
  have l: "cjLimits s = cmLimits m" using mi by (simp add: mirrors_def)
  obtain hb where hb: "cdHeader J ?h = Inr hb" and fb: "\<And>b. cdRecord J rc = Inr b \<Longrightarrow> len hb + len b + 2 \<le> clMaxFileBytes (cjLimits s) \<and>
      1 \<le> clMaxTransitions (cjLimits s)" and k: "validateID ?k = None" "validateCreateRecord_c rc = None" "canonical J rc"
    and J: "header_kept J rc" using fit by auto
  show ?thesis
  proof (cases "c = None \<and> (\<exists>b. encodedLine J rc (cjLimits s) = Inr b)")
    case False
    then show ?thesis using run mi k
      by (auto simp: jsonlCreate_def createFile_def memCreate_c_def encoded_both mirrors_def split: option.splits sum.splits)
  next
    case True
    then obtain b where c: "c = None" and b: "encodedLine J rc (cjLimits s) = Inr b" by blast
    have cb: "cdRecord J rc = Inr b" "validateRecord_c rc = None" "len b \<le> clMaxRecordBytes (cjLimits s)"
      using b by (auto simp: encodedLine_def okE)
    have enc: "encodedRecord_c (lengthOf J) rc (cmLimits m) = Inr (len b)" using b l by (simp add: encoded_both)
    have cf: "createFile J c rc (cjLimits s) = Inr (?p, hb @ newline # b @ [newline])"
      using b c hb k fb [OF cb(1)] by (simp add: createFile_def jsonlPath_def)
    have full: "len b + 1 \<le> clMaxFileBytes (cmLimits m)" using fb [OF cb(1)] l by (simp add: len_def)
    have ex: "map_of (cjFiles s) ?p \<noteq> None \<longleftrightarrow> map_of (cmRecords m) ?k \<noteq> None"
    proof
      have "hasSuffix continuationFileExt ?p" by (simp add: hasSuffix_def)
      then show "map_of (cjFiles s) ?p \<noteq> None \<Longrightarrow> map_of (cmRecords m) ?k \<noteq> None"
        using mi unfolding mirrors_def by (metis append_same_eq not_Some_eq)
      show "map_of (cmRecords m) ?k \<noteq> None \<Longrightarrow> map_of (cjFiles s) ?p \<noteq> None"
        using mi unfolding mirrors_def holds_def by fastforce
    qed
    show ?thesis
    proof (cases "map_of (cmRecords m) ?k")
      case (Some rs)
      with run cf ex mi enc k c show ?thesis by (auto simp: jsonlCreate_def memCreate_c_def Let_def)
    next
      case None
      let ?data = "hb @ newline # b @ [newline]"
      have s': "e = None" "s' = putFile ?p ?data s" using run cf ex None by (simp_all add: jsonlCreate_def Let_def)
      have "clog_ok ?k [rc]" using cb(2) k(2) by (simp add: clog_ok_single)
      moreover have "header_ok J ?k hb"
        by (rule header_kept_ok [OF J hb])
      moreover have "line_ok J (cjLimits s) b rc"
        using k(3) cb object_textD unfolding canonical_def line_ok_def by blast
      moreover have "?data = fileOf [hb, b] []" by (simp add: fileOf_def)
      moreover have "len ?data \<le> clMaxFileBytes (cjLimits s)" using fb [OF cb(1)] by (simp add: len_def)
      moreover have "len [rc] \<le> clMaxTransitions (cjLimits s)" using fb [OF cb(1)] by (simp add: len_def)
      ultimately have "stored J (cjLimits s) ?k [rc] (length (fileOf [hb, b] [])) ?data"
        unfolding stored_def by (intro exI [of _ hb] exI [of _ "[b]"] exI [of _ "[]"]) simp
      then have "holds J ?k [rc] (putFile ?p ?data s)" by (auto simp: holds_def)
      from mirrors_put [OF mi k(1) this] None c enc k(2) full s' show ?thesis
        by (simp add: memCreate_c_def Let_def)
    qed
  qed
qed

lemma trim_ext [simp]: "trimSuffix continuationFileExt (k @ continuationFileExt) = k"
    "hasSuffix continuationFileExt (k @ continuationFileExt)"
  by (simp_all add: trimSuffix_def hasSuffix_def)

lemma trim_join: "hasSuffix continuationFileExt p \<Longrightarrow> p = trimSuffix continuationFileExt p @ continuationFileExt"
  by (simp add: hasSuffix_def trimSuffix_def) (metis append_take_drop_id)

lemma listedIDs_eq:
  assumes mi: "mirrors J s m"
  shows "listedIDs opt (cjFiles s) = sort (filter (\<lambda>k. k > loCursor opt) (remdups (map fst (cmRecords m))))"
proof -
  let ?fs = "filter (\<lambda>(name, node). node \<noteq> Folder \<and> hasSuffix continuationFileExt name) (cjFiles s)"
  let ?ids = "map (\<lambda>(name, _). trimSuffix continuationFileExt name) ?fs"
  have d: "distinct (map fst (cjFiles s))" using mi by (simp add: mirrors_def)
  have e: "?ids = map (trimSuffix continuationFileExt) (map fst ?fs)" by (simp add: case_prod_beta)
  have dn: "distinct (map fst ?fs)" by (rule distinct_map_filter [OF d])
  have inj: "inj_on (trimSuffix continuationFileExt) (set (map fst ?fs))"
  proof (rule inj_onI)
    fix p q assume pq: "p \<in> set (map fst ?fs)" "q \<in> set (map fst ?fs)"
      "trimSuffix continuationFileExt p = trimSuffix continuationFileExt q"
    then have "hasSuffix continuationFileExt p" "hasSuffix continuationFileExt q" by auto
    from trim_join [OF this(1)] trim_join [OF this(2)] pq(3) show "p = q" by simp
  qed
  have dist: "distinct ?ids" unfolding e by (subst distinct_map) (intro conjI dn inj)
  have sets: "set ?ids = set (map fst (cmRecords m))"
  proof (intro set_eqI iffI)
    fix k assume "k \<in> set ?ids"
    then obtain p x where p: "(p, x) \<in> set (cjFiles s)" "hasSuffix continuationFileExt p" "k = trimSuffix continuationFileExt p"
      by auto
    then have "map_of (cjFiles s) p = Some x" using d by simp
    with p(2) mi obtain k' where "p = k' @ continuationFileExt" "map_of (cmRecords m) k' \<noteq> None"
      unfolding mirrors_def by blast
    with p(3) show "k \<in> set (map fst (cmRecords m))" by (simp add: map_of_eq_None_iff)
  next
    fix k assume "k \<in> set (map fst (cmRecords m))"
    then obtain rs where "map_of (cmRecords m) k = Some rs" by (metis map_of_eq_None_iff not_Some_eq set_map)
    then obtain data where "map_of (cjFiles s) (k @ continuationFileExt) = Some (File data)"
      using mi unfolding mirrors_def holds_def by blast
    then have "(k @ continuationFileExt, File data) \<in> set ?fs" by (auto dest: map_of_SomeD)
    then show "k \<in> set ?ids" by (force simp: image_iff)
  qed
  show ?thesis unfolding listedIDs_def
    by (rule sorted_distinct_set_unique) (use dist sets in auto)
qed

lemma page_mirrors:
  assumes mi: "mirrors J s m" and ks: "set ks \<subseteq> set (map fst (cmRecords m))"
  shows "jsonlPage J soundIO s ks = pageExecutions m ks"
  using ks
proof (induction ks)
  case (Cons k ks)
  then obtain rs where r: "map_of (cmRecords m) k = Some rs" by (metis list.set_intros(1) map_of_eq_None_iff not_Some_eq set_map subsetD)
  then have "validateID k = None" using mi unfolding mirrors_def by blast
  from mirrors_read(2) [OF mi this r] r Cons show ?case by auto
qed simp

text \<open>Call by call the two stores answer alike.\<close>

theorem call_mirrors:
  assumes mi: "mirrors J s m" and fit: "callFits J call s m"
  shows "fst (callStore (jsonl_ops J soundIO) c call s) = fst (callStore (cont_memory_ops (lengthOf J)) c call m) \<and>
    mirrors J (snd (callStore (jsonl_ops J soundIO) c call s)) (snd (callStore (cont_memory_ops (lengthOf J)) c call m))"
proof (cases call)
  case (CallCreate rc)
  obtain e s' where r: "jsonlCreate J soundIO c rc s = (e, s')" by fastforce
  from create_mirrors [OF mi _ this] fit CallCreate r show ?thesis
    by (auto simp: jsonl_ops_def cont_memory_ops_def)
next
  case (CallLoad k)
  then have k: "validateID k = None" using fit by simp
  show ?thesis
  proof (cases "map_of (cmRecords m) k")
    case None
    with mirrors_read(1) [OF mi k None] mi CallLoad show ?thesis
      by (simp add: jsonl_ops_def cont_memory_ops_def jsonlLoad_def memLoad_c_def)
  next
    case (Some rs)
    obtain n where "jsonlRead J soundIO k s = Inr (rs, int n)" using mirrors_read(2) [OF mi k Some] by blast
    with Some mi CallLoad show ?thesis by (simp add: jsonl_ops_def cont_memory_ops_def jsonlLoad_def memLoad_c_def)
  qed
next
  case (CallCas k v rc)
  obtain e s' where r: "jsonlCas J soundIO c k v rc s = (e, s')" by fastforce
  from cas_mirrors [OF mi _ this] fit CallCas r show ?thesis
    by (auto simp: jsonl_ops_def cont_memory_ops_def)
next
  case (CallList opt)
  have l: "cjLimits s = cmLimits m" using mi by (simp add: mirrors_def)
  let ?ids = "listedIDs opt (cjFiles s)"
  have "set (take n ?ids) \<subseteq> set (map fst (cmRecords m))" for n
    unfolding listedIDs_eq [OF mi] by (auto dest: in_set_takeD)
  from page_mirrors [OF mi this] show ?thesis using mi CallList l
    by (simp add: jsonl_ops_def cont_memory_ops_def jsonlList_def memList_c_def Let_def listedIDs_eq [OF mi])
next
  case (CallHistory k)
  then have k: "validateID k = None" using fit by simp
  show ?thesis
  proof (cases "map_of (cmRecords m) k")
    case None
    with mirrors_read(1) [OF mi k None] mi CallHistory show ?thesis
      by (simp add: jsonl_ops_def cont_memory_ops_def jsonlHistory_def memHistory_c_def)
  next
    case (Some rs)
    obtain n where "jsonlRead J soundIO k s = Inr (rs, int n)" using mirrors_read(2) [OF mi k Some] by blast
    with Some mi CallHistory show ?thesis by (simp add: jsonl_ops_def cont_memory_ops_def jsonlHistory_def memHistory_c_def)
  qed
qed

end
