(* ===== verification/ContFileClaims.thy ===== *)
theory ContFileClaims
  imports ContJsonlLaws ContScenario
begin

section \<open>Continuation: properties of the JSONL store\<close>

text \<open>
  The properties of \<^verbatim>\<open>jsonl.go\<close>, with a small codec and the first records of \<open>ContScenario\<close> for the witnesses.
\<close>

subsection \<open>A concrete file\<close>

definition jobRecord :: "nat \<Rightarrow> cont_record" where
  "jobRecord i = memLog_c (enStore (job2 ActionComplete)) ''job'' ! i"

definition spaced :: "nat \<Rightarrow> string" where
  "spaced n = ''{'' @ replicate n (CHR '' '') @ ''}''"

definition jobHeader :: header where
  "jobHeader = \<lparr>hdType = continuationHeaderType, hdVersion = 1, hdID = ''job'', hdCreatedAt = GTime 10 0\<rparr>"

text \<open>A record is told by its revision; only the header of this execution has an encoding.\<close>

definition jobCodec :: codec where
  "jobCodec = \<lparr>cdHeader = (\<lambda>h. if h = jobHeader then Inr (spaced 0) else Inl ErrInvalid),
     cdReadHeader = (\<lambda>b. if b = spaced 0 then Some jobHeader else None),
     cdRecord = (\<lambda>rc. Inr (spaced (unat (rcRev rc)))),
     cdReadRecord = (\<lambda>b. if b = spaced 1 then Some (jobRecord 0) else if b = spaced 2 then Some (jobRecord 1) else None)\<rparr>"

definition jobFiles :: "string \<Rightarrow> cont_jsonl" where
  "jobFiles tail = \<lparr>cjFiles = [(''job.jsonl'', File (fileOf [spaced 0, spaced 1] tail))], cjLimits = default_store_limits_c\<rparr>"

definition emptyFiles :: cont_jsonl where
  "emptyFiles = \<lparr>cjFiles = [], cjLimits = default_store_limits_c\<rparr>"

definition jobMemory :: cont_mem where
  "jobMemory = \<lparr>cmLimits = default_store_limits_c, cmRecords = [(''job'', [jobRecord 0])], cmBytes = [(''job'', 4)]\<rparr>"

text \<open>A write that stops after \<open>n\<close> bytes, and a crash there.\<close>

definition cutAfter :: "nat \<Rightarrow> bool \<Rightarrow> io" where
  "cutAfter n crash = \<lparr>ioFail = (\<lambda>x. crash \<and> x = ''remove''), ioShort = Some n\<rparr>"

lemma job_records:
  "validateRecord_c (jobRecord 0) = None" "validateCreateRecord_c (jobRecord 0) = None" "exID (rcExecution (jobRecord 0)) = ''job''"
  "validateRecord_c (jobRecord 1) = None" "validateNextRecord_c (jobRecord 0) 1 (jobRecord 1) = None"
  "rcRev (jobRecord 0) = 1" "rcRev (jobRecord 1) = 2" "exCreatedAt (rcExecution (jobRecord 0)) = GTime 10 0"
  by code_simp+

lemma spaced_text: "object_text (spaced 0)" "object_text (spaced 1)" "object_text (spaced 2)"
  by code_simp+

lemma spaced_inj: "spaced i = spaced j \<longleftrightarrow> i = j"
proof
  assume "spaced i = spaced j"
  then have "length (spaced i) = length (spaced j)" by simp
  then show "i = j" by (simp add: spaced_def)
qed simp

lemma job_header_kept: "header_kept jobCodec rc"
  using spaced_text(1) by (auto simp: header_kept_def jobCodec_def split: if_splits)

lemma job_canonical: "canonical jobCodec (jobRecord 0)" "canonical jobCodec (jobRecord (Suc 0))"
  using spaced_text job_records(6,7) by (simp_all add: canonical_def jobCodec_def spaced_inj)

lemma jobFiles_holds:
  assumes "newline \<notin> set tail" "tail = [] \<or> \<not> json_valid tail" "length tail \<le> 1000"
  shows "holds jobCodec ''job'' [jobRecord 0] (jobFiles tail)"
proof -
  have "clog_ok ''job'' [jobRecord 0]" using job_records by (simp add: clog_ok_single)
  moreover have "header_ok jobCodec ''job'' (spaced 0)"
    using spaced_text(1) object_textD by (simp add: header_ok_def jobCodec_def jobHeader_def continuationVersion_def)
  moreover have "line_ok jobCodec default_store_limits_c (spaced 1) (jobRecord 0)"
    using spaced_text(2) object_textD [OF spaced_text(2)]
    by (simp add: line_ok_def jobCodec_def spaced_inj default_store_limits_c_def) (simp add: spaced_def len_def)
  moreover have "len (fileOf [spaced 0, spaced 1] tail) \<le> clMaxFileBytes default_store_limits_c"
    using assms(3) by (simp add: fileOf_def spaced_def len_def default_store_limits_c_def)
  ultimately have "stored jobCodec default_store_limits_c ''job'' [jobRecord 0] (length (fileOf [spaced 0, spaced 1] []))
      (fileOf [spaced 0, spaced 1] tail)"
    unfolding stored_def using assms(1,2)
    by (intro exI [of _ "spaced 0"] exI [of _ "[spaced 1]"] exI [of _ tail])
      (simp add: len_def default_store_limits_c_def)
  then show ?thesis by (auto simp: holds_def jobFiles_def continuationFileExt_def)
qed

subsection \<open>Properties\<close>

text \<open>
  C13. Appending to a file is atomic under interruption. Let a file hold the log \<open>rs\<close>, behind whose committed
  bytes an earlier append may have left a part of a line. Whichever step of \<open>CompareAndSwap\<close> the operating
  system fails, and wherever the write stops, the file afterwards holds either \<open>rs\<close>, and then an error was
  returned, or \<open>rs\<close> with the new record; with one exception, a write that stops exactly before the newline,
  after which every read refuses the file as corrupt. No other file changes, and a file that holds a log
  reads as that log. (No proper prefix of a line is valid JSON, by the scanner of \<^verbatim>\<open>encoding/json\<close>.)
\<close>

theorem append_is_atomic:
  assumes "holds J k rs s" and "validateID k = None" and "canonical J nx"
    and "jsonlCas J os ctx k v nx s = (err, s')"
  shows "(\<forall>p. p \<noteq> k @ continuationFileExt \<longrightarrow> map_of (cjFiles s') p = map_of (cjFiles s) p) \<and>
    (holds J k rs s' \<and> err \<noteq> None \<or>
     holds J k (rs @ [nx]) s' \<or>
     ioShort os = Some (length (projr (cdRecord J nx))) \<and> err \<noteq> None \<and>
       (\<forall>os'. \<not> ioFail os' ''read'' \<longrightarrow> (\<exists>e. jsonlHistory J os' None k s' = Inl e \<and> errorsIs_c e ErrCorruptStore))) \<and>
    (\<forall>rs' os'. holds J k rs' s' \<and> \<not> ioFail os' ''read'' \<longrightarrow> jsonlHistory J os' None k s' = Inr rs')"
  using append_atomic [OF assms] holds_read(1) assms(2) by blast

theorem append_is_atomic_witness:
  "\<exists>err s'. jsonlCas jobCodec (cutAfter 2 False) None ''job'' 1 (jobRecord (Suc 0)) (jobFiles ''{'') = (err, s') \<and>
     (holds jobCodec ''job'' [jobRecord 0] s' \<or> holds jobCodec ''job'' [jobRecord 0, jobRecord (Suc 0)] s')"
proof -
  obtain err s' where run: "jsonlCas jobCodec (cutAfter 2 False) None ''job'' 1 (jobRecord (Suc 0)) (jobFiles ''{'') = (err, s')"
    by fastforce
  have t: "newline \<notin> set ''{''" "\<not> json_valid ''{''" "validateID ''job'' = None" by code_simp+
  have h: "holds jobCodec ''job'' [jobRecord 0] (jobFiles ''{'')" by (rule jobFiles_holds) (use t in simp_all)
  have "length (projr (cdRecord jobCodec (jobRecord (Suc 0)))) = 4"
    using job_records(7) by (simp add: jobCodec_def spaced_def)
  with append_is_atomic [OF h t(3) job_canonical(2) run] run show ?thesis by (auto simp: cutAfter_def)
qed

text \<open>
  C27. A crash during \<open>Create\<close> that leaves any proper part of the file's two lines, each an object that decodes to
  what was encoded, leaves a file that is neither absent nor readable: loading the execution is an \<open>ErrCorruptStore\<close>, creating it again is \<open>ErrExists\<close>, and
  a page of \<open>List\<close> that reaches it fails as a whole.
\<close>

theorem torn_create_stays:
  assumes "header_kept J rc" and "canonical J rc" and "createFile J None rc (cjLimits s) = Inr (path, data)"
    and "map_of (cjFiles s) path = None" and "\<not> ioFail os ''open''" and "ioFail os ''remove''"
    and "ioShort os = Some m" and "m < length data" and "jsonlCreate J os None rc s = (err, s')" and "\<not> ioFail os' ''read''"
  shows "(\<exists>e. jsonlLoad J os' None (exID (rcExecution rc)) s' = Inl e \<and> errorsIs_c e ErrCorruptStore) \<and>
    jsonlCreate J os' None rc s' = (Some ErrExists, s') \<and>
    (\<forall>opt. exID (rcExecution rc) \<in> set (take (nat (loLimit opt)) (listedIDs opt (cjFiles s'))) \<longrightarrow>
       (\<exists>e. jsonlList J os' None opt s' = Inl e))"
  using torn_create [OF assms] by blast

theorem torn_create_stays_witness:
  "jsonlCreate jobCodec soundIO None (jobRecord 0) (snd (jsonlCreate jobCodec (cutAfter 4 True) None (jobRecord 0) emptyFiles)) =
     (Some ErrExists, snd (jsonlCreate jobCodec (cutAfter 4 True) None (jobRecord 0) emptyFiles))"
proof -
  have k: "validateID ''job'' = None" by code_simp
  have f: "createFile jobCodec None (jobRecord 0) (cjLimits emptyFiles) = Inr (''job.jsonl'', spaced 0 @ newline # spaced 1 @ [newline])"
    unfolding createFile_Inr using job_records k
    by (simp add: jobCodec_def jobHeader_def emptyFiles_def default_store_limits_c_def continuationVersion_def
        continuationFileExt_def len_def) (simp add: spaced_def)
  obtain err s' where run: "jsonlCreate jobCodec (cutAfter 4 True) None (jobRecord 0) emptyFiles = (err, s')" by fastforce
  have "map_of (cjFiles emptyFiles) ''job.jsonl'' = None" "\<not> ioFail (cutAfter 4 True) ''open''" "ioFail (cutAfter 4 True) ''remove''"
    "ioShort (cutAfter 4 True) = Some 4" "4 < length (spaced 0 @ newline # spaced 1 @ [newline])"
    by (simp_all add: emptyFiles_def cutAfter_def spaced_def)
  from torn_create_stays [OF job_header_kept job_canonical(1) f this run soundIO_simps(1)] run show ?thesis by simp
qed

text \<open>
  C32. Without failures the JSONL store is the memory store: on a directory that mirrors a memory store, every
  operation gives the same answer, errors included, and the two mirror each other again. Calls that the
  two tell apart are left out: identifiers the engine refuses, a record that does not decode to what was encoded, as
  when its raw JSON is not compact, and a header that does not, and a file with room for a record but not for its header.
\<close>

theorem jsonl_mirrors_memory:
  assumes "mirrors J s m" and "callFits J call s m"
  shows "fst (callStore (jsonl_ops J soundIO) c call s) = fst (callStore (cont_memory_ops (lengthOf J)) c call m) \<and>
    mirrors J (snd (callStore (jsonl_ops J soundIO) c call s)) (snd (callStore (cont_memory_ops (lengthOf J)) c call m))"
  by (rule call_mirrors [OF assms])

theorem jsonl_mirrors_memory_witness:
  "fst (callStore (jsonl_ops jobCodec soundIO) None (CallCas ''job'' 1 (jobRecord (Suc 0))) (jobFiles [])) =
     fst (callStore (cont_memory_ops (lengthOf jobCodec)) None (CallCas ''job'' 1 (jobRecord (Suc 0))) jobMemory)"
proof -
  have k: "validateID ''job'' = None" by code_simp
  have "holds jobCodec ''job'' [jobRecord 0] (jobFiles [])" by (rule jobFiles_holds) simp_all
  then have m: "mirrors jobCodec (jobFiles []) jobMemory"
    using k by (auto simp: mirrors_def jobMemory_def jobFiles_def continuationFileExt_def split: if_splits)
  have f: "callFits jobCodec (CallCas ''job'' 1 (jobRecord (Suc 0))) (jobFiles []) jobMemory"
    using k job_canonical(2) job_records(7)
    by (simp add: fileBytes_def jobFiles_def continuationFileExt_def jobCodec_def jobMemory_def bytesOf_c_def
        default_store_limits_c_def) (simp add: fileOf_def spaced_def len_def)
  from jsonl_mirrors_memory [OF m f] show ?thesis by blast
qed

end
