(* ===== verification/RuntimeModel.thy ===== *)
theory RuntimeModel
  imports TeamEngine ContAdvance
begin

section \<open>The attempt runtime\<close>

text \<open>
  \<^verbatim>\<open>agent/team/attempt_runtime.go\<close>: one synchronous run of a Team task attempt. It claims and starts the
  task in the Team engine, creates or finds the child execution in the continuation engine, drives it,
  and commits what a projector makes of the terminal child to the Team.

  The state is the store of the Team engine and the state of the continuation engine. Each call into an
  engine has a label and an environment (the context, the clock, the identifiers, and what others do to
  the store meanwhile). Worker factory, projector and command identifiers belong to the application
  and are arguments. Names the two packages share are qualified.
\<close>

subsection \<open>Types\<close>

text \<open>
  An error of either package, of the application, or one the runtime wraps: a failed command
  identifier and the conflict limit.
\<close>

datatype run_error =
    TeamFail team_error
  | ContFail cont_error
  | AppFail string
  | DeriveFail string run_error
  | ConflictLimitFail "run_error option"

fun isConflict :: "run_error \<Rightarrow> bool" where
  "isConflict (TeamFail e) = errorsIs e TeamTypes.ErrConflict"
| "isConflict (DeriveFail a e) = isConflict e"
| "isConflict (ConflictLimitFail (Some e)) = isConflict e"
| "isConflict e = False"

record attempt_input =
  aiDispatch :: dispatch
  aiMailbox :: message_page

type_synonym worker = "work_request \<Rightarrow> work_result \<times> cont_error option"
type_synonym controller = "decision_request \<Rightarrow> decision \<times> cont_error option"

record prepared_attempt =
  paWorker :: "worker option"
  paInput :: "string option"

type_synonym worker_factory = "attempt_input \<Rightarrow> run_error + prepared_attempt"

record attempt_message =
  amID :: string
  amRecipientID :: string
  amReplyToID :: string
  amBody :: "string option"

record attempt_completion =
  apOutcome :: attempt_outcome
  apResult :: "string option"
  apArtifacts :: "artifact list"
  apReason :: string
  apAcknowledge :: bool
  apMessages :: "attempt_message list"

type_synonym projector = "attempt_input \<Rightarrow> execution \<Rightarrow> run_error + attempt_completion"

record attempt_command =
  acAction :: string
  acTeamID :: string
  acTaskID :: string
  acAttemptID :: string
  acContinuationID :: string
  acMessageID :: string

type_synonym command_source = "attempt_command \<Rightarrow> run_error + string"

record runtime_config =
  rcoCoordinator :: actor
  rcoWorkerRef :: handler_ref
  rcoControllerRef :: handler_ref
  rcoController :: "controller option"
  rcoLimits :: limits
  rcoMaxAdvances :: int
  rcoGate :: gate
  rcoCommands :: command_source
  rcoTargetKind :: string

record run_request =
  rqTeamID :: string
  rqTaskID :: string
  rqAttemptID :: string
  rqContinuationID :: string

record run_result =
  rrTeam :: team
  rrDispatch :: dispatch
  rrMailbox :: message_page
  rrExecution :: execution
  rrAdvances :: int
  rrYield :: "yield_reason option"
  rrFinished :: bool

subsection \<open>The default controller\<close>

definition completeAfterWork :: controller where
  "completeAfterWork q = (zero_decision\<lparr>dcAction := ActionComplete, dcOutput := wrValue (dqWork q)\<rparr>, None)"

definition defaultAttemptControllerRef :: handler_ref where
  "defaultAttemptControllerRef = \<lparr>hrKind = ''team_complete_after_work'', hrVersion = ''v1''\<rparr>"

subsection \<open>Configuration\<close>

definition validAttemptHandlerRef :: "handler_ref \<Rightarrow> bool" where
  "validAttemptHandlerRef r \<longleftrightarrow> \<not> blank (hrKind r) \<and> len (hrKind r) \<le> 128 \<and>
     \<not> blank (hrVersion r) \<and> len (hrVersion r) \<le> 128"

definition validAttemptLimits :: "limits \<Rightarrow> bool" where
  "validAttemptLimits l \<longleftrightarrow>
     \<not> (liMaxAttempts l < -1 \<or> liMaxTurns l < 0 \<or> liMaxTokens l < 0 \<or> liMaxActiveDuration l < 0) \<and>
     (liMaxAttempts l \<noteq> -1 \<or> liMaxTurns l > 0 \<or> liMaxTokens l > 0 \<or> liMaxActiveDuration l > 0 \<or>
        \<not> isZero (liDeadline l))"

abbreviation teamInvalid :: run_error where "teamInvalid \<equiv> TeamFail TeamTypes.ErrInvalid"

definition coordinator_ok :: "actor \<Rightarrow> bool" where
  "coordinator_ok a \<longleftrightarrow> acKind a = ActorKindCoordinator \<and> validateActor a = None"

type_synonym runtime_option = "runtime_config \<Rightarrow> run_error + runtime_config"

definition withAttemptCoordinator :: "actor \<Rightarrow> runtime_option" where
  "withAttemptCoordinator a config =
     guardE (fail_if (\<not> coordinator_ok a) teamInvalid) (Inr (config\<lparr>rcoCoordinator := a\<rparr>))"

definition withAttemptHandlers :: "handler_ref \<Rightarrow> handler_ref \<Rightarrow> controller option \<Rightarrow> runtime_option" where
  "withAttemptHandlers w c f config =
     guardE (fail_if (\<not> validAttemptHandlerRef w \<or> \<not> validAttemptHandlerRef c \<or> f = None) teamInvalid)
     (Inr (config\<lparr>rcoWorkerRef := w, rcoControllerRef := c, rcoController := f\<rparr>))"

definition withAttemptLimits :: "limits \<Rightarrow> runtime_option" where
  "withAttemptLimits l config =
     guardE (fail_if (\<not> validAttemptLimits l) teamInvalid) (Inr (config\<lparr>rcoLimits := l\<rparr>))"

definition withAttemptDriveOptions :: "int \<Rightarrow> gate \<Rightarrow> runtime_option" where
  "withAttemptDriveOptions m g config =
     guardE (fail_if (m \<le> 0) teamInvalid) (Inr (config\<lparr>rcoMaxAdvances := m, rcoGate := g\<rparr>))"

definition withAttemptCommandIDSource :: "command_source option \<Rightarrow> runtime_option" where
  "withAttemptCommandIDSource src config =
     bindE (of_opt teamInvalid src) (\<lambda>f. Inr (config\<lparr>rcoCommands := f\<rparr>))"

definition withAttemptTargetKind :: "string \<Rightarrow> runtime_option" where
  "withAttemptTargetKind kind config =
     guardE (fail_if (blank kind \<or> len kind > 128) teamInvalid) (Inr (config\<lparr>rcoTargetKind := kind\<rparr>))"

fun runtimeOptions :: "runtime_option option list \<Rightarrow> runtime_config \<Rightarrow> run_error + runtime_config" where
  "runtimeOptions [] config = Inr config"
| "runtimeOptions (opt # opts) config = (case opt of
       None \<Rightarrow> Inl teamInvalid
     | Some f \<Rightarrow> bindE (f config) (runtimeOptions opts))"

text \<open>The default command identifier hashes the six fields; SHA-256 in hex is the argument \<open>sha\<close>.\<close>

definition defaultAttemptCommandID :: "(string \<Rightarrow> string) \<Rightarrow> command_source" where
  "defaultAttemptCommandID sha c = Inr (''attempt-'' @ sha
     (acAction c @ [CHR 0x00] @ acTeamID c @ [CHR 0x00] @ acTaskID c @ [CHR 0x00] @ acAttemptID c @ [CHR 0x00] @
      acContinuationID c @ [CHR 0x00] @ acMessageID c))"

definition default_runtime_config :: "(string \<Rightarrow> string) \<Rightarrow> runtime_config" where
  "default_runtime_config sha =
     \<lparr>rcoCoordinator = \<lparr>acKind = ActorKindOther [], acID = []\<rparr>, rcoWorkerRef = \<lparr>hrKind = [], hrVersion = []\<rparr>,
      rcoControllerRef = \<lparr>hrKind = [], hrVersion = []\<rparr>, rcoController = None, rcoLimits = zero_limits,
      rcoMaxAdvances = 4, rcoGate = None, rcoCommands = defaultAttemptCommandID sha,
      rcoTargetKind = ''team_task_attempt''\<rparr>"

definition newAttemptRuntime :: "(string \<Rightarrow> string) \<Rightarrow> runtime_option option list \<Rightarrow> run_error + runtime_config" where
  "newAttemptRuntime sha opts =
     bindE (runtimeOptions opts (default_runtime_config sha)) (\<lambda>config.
       guardE (fail_if (\<not> coordinator_ok (rcoCoordinator config) \<or> \<not> validAttemptHandlerRef (rcoWorkerRef config) \<or>
           \<not> validAttemptHandlerRef (rcoControllerRef config) \<or> rcoController config = None) teamInvalid)
       (Inr config))"

subsection \<open>Calls\<close>

text \<open>
  The label of a call: its name, the index of a message, and the number of a try. The calls of
  \<^verbatim>\<open>Drive\<close> on an execution have numbers instead: those of its steps, and \<open>MaxAdvances\<close> for its read.
\<close>

type_synonym label = "string \<times> nat \<times> nat"

record ('ts, 'cs) backend =
  beEnv :: team_env
  beTeams :: "'ts store_ops"
  beConts :: "'cs cont_ops"
  beTeam :: "label \<Rightarrow> 'ts TeamEngine.call_env"
  beCont :: "label \<Rightarrow> 'cs ContEngine.call_env"
  beDrive :: "string \<Rightarrow> nat \<Rightarrow> 'cs ContEngine.call_env"

record ('ts, 'cs) world =
  woTeams :: 'ts
  woConts :: "'cs eng"

type_synonym ('a, 'ts, 'cs) run = "('ts, 'cs) world \<Rightarrow> (run_error + 'a) \<times> ('ts, 'cs) world"

definition runThen :: "('a, 'ts, 'cs) run \<Rightarrow> ('a \<Rightarrow> ('b, 'ts, 'cs) run) \<Rightarrow> ('b, 'ts, 'cs) run" where
  "runThen m f w = (case m w of (Inl e, w1) \<Rightarrow> (Inl e, w1) | (Inr x, w1) \<Rightarrow> f x w1)"

definition runPure :: "run_error + 'a \<Rightarrow> ('a, 'ts, 'cs) run" where
  "runPure r w = (r, w)"

definition onTeam :: "team_error + 'a \<Rightarrow> run_error + 'a" where
  "onTeam r = (case r of Inl e \<Rightarrow> Inl (TeamFail e) | Inr x \<Rightarrow> Inr x)"

definition onCont :: "cont_error + 'a \<Rightarrow> run_error + 'a" where
  "onCont r = (case r of Inl e \<Rightarrow> Inl (ContFail e) | Inr x \<Rightarrow> Inr x)"

definition teamGet :: "('ts, 'cs) backend \<Rightarrow> label \<Rightarrow> string \<Rightarrow> (team, 'ts, 'cs) run" where
  "teamGet B p k w =
     (let ce = beTeam B p; s = TeamEngine.ceItf ce PLoad (woTeams w)
      in (onTeam (engineGet (beEnv B) (beTeams B) (TeamEngine.ceCtx ce PLoad) k s), w\<lparr>woTeams := s\<rparr>))"

definition teamExecute ::
    "('ts, 'cs) backend \<Rightarrow> label \<Rightarrow> string \<Rightarrow> command_metadata \<Rightarrow> team_command \<Rightarrow> (team_record, 'ts, 'cs) run" where
  "teamExecute B p k c cmd w =
     (case execute (beEnv B) (beTeams B) (beTeam B p) k c cmd (woTeams w) of
        (r, s) \<Rightarrow> (onTeam r, w\<lparr>woTeams := s\<rparr>))"

text \<open>\<^verbatim>\<open>Mailbox\<close> reads three times; the store is then in the state of the last.\<close>

definition teamMailbox ::
    "('ts, 'cs) backend \<Rightarrow> label \<Rightarrow> string \<Rightarrow> string \<Rightarrow> mailbox_options \<Rightarrow> (message_page, 'ts, 'cs) run" where
  "teamMailbox B p k mk opt w =
     (let ce = beTeam B p
      in (onTeam (engineMailbox (beEnv B) (beTeams B) ce k mk opt (woTeams w)),
          w\<lparr>woTeams := TeamEngine.ceItf ce PRead2 (TeamEngine.ceItf ce PRead (TeamEngine.ceItf ce PLoad (woTeams w)))\<rparr>))"

definition contGet :: "('ts, 'cs) backend \<Rightarrow> label \<Rightarrow> string \<Rightarrow> (execution, 'ts, 'cs) run" where
  "contGet B p k w = (case engineGet_c (beConts B) (beCont B p) k (woConts w) of
       (r, s) \<Rightarrow> (onCont r, w\<lparr>woConts := s\<rparr>))"

definition contCreate :: "('ts, 'cs) backend \<Rightarrow> label \<Rightarrow> ContTypes.create_request \<Rightarrow> (execution, 'ts, 'cs) run" where
  "contCreate B p r w = (case engineCreate_c (beConts B) (beCont B p) r (woConts w) of
       (q, s) \<Rightarrow> (onCont q, w\<lparr>woConts := s\<rparr>))"

subsection \<open>Starting the attempt\<close>

definition attemptCommand ::
    "runtime_config \<Rightarrow> string \<Rightarrow> run_request \<Rightarrow> string \<Rightarrow> u64 \<Rightarrow> actor \<Rightarrow> run_error + command_metadata" where
  "attemptCommand cfg act q mk revision a =
     (case rcoCommands cfg \<lparr>acAction = act, acTeamID = rqTeamID q, acTaskID = rqTaskID q,
         acAttemptID = rqAttemptID q, acContinuationID = rqContinuationID q, acMessageID = mk\<rparr> of
        Inl e \<Rightarrow> Inl (DeriveFail act e)
      | Inr k \<Rightarrow> Inr \<lparr>cmdID = k, cmdExpected = revision, cmdActor = a\<rparr>)"

definition memberActor :: "string \<Rightarrow> actor" where
  "memberActor k = \<lparr>acKind = ActorKindMember, acID = k\<rparr>"

definition claimAssigned :: "('ts, 'cs) backend \<Rightarrow> runtime_config \<Rightarrow> run_request \<Rightarrow> team \<Rightarrow> task \<Rightarrow> (team, 'ts, 'cs) run" where
  "claimAssigned B cfg q t x =
     (if tStatus x = TaskStatusReady then
        (if tAssigned x = [] then runPure (Inl teamInvalid)
         else runThen (runPure (attemptCommand cfg ''claim'' q [] (teRevision t) (memberActor (tAssigned x))))
           (\<lambda>c. runThen (teamExecute B (''claim'', 0, 0) (rqTeamID q) c (ClaimTask (rqTaskID q)))
             (\<lambda>rc. runPure (Inr (rcTeam rc)))))
      else if tStatus x \<noteq> TaskStatusClaimed then runPure (Inl (TeamFail (taskStateError ''run task attempt'' t x)))
      else runPure (Inr t))"

definition startAttempt :: "('ts, 'cs) backend \<Rightarrow> runtime_config \<Rightarrow> run_request \<Rightarrow> team \<Rightarrow> (dispatch \<times> team, 'ts, 'cs) run" where
  "startAttempt B cfg q t =
     runThen (runPure (attemptCommand cfg ''start'' q [] (teRevision t) (rcoCoordinator cfg)))
     (\<lambda>c. runThen (teamExecute B (''start'', 0, 0) (rqTeamID q) c
         (StartTaskAttempt (rqTaskID q) (rqAttemptID q) (rqContinuationID q)))
       (\<lambda>rc. runPure (bindE (onTeam (startResult (rqTaskID q) (rqAttemptID q) rc)) (\<lambda>p. Inr (snd p, fst p)))))"

definition startOrResume :: "('ts, 'cs) backend \<Rightarrow> runtime_config \<Rightarrow> run_request \<Rightarrow> (dispatch \<times> team, 'ts, 'cs) run" where
  "startOrResume B cfg q =
     runThen (teamGet B (''get'', 0, 0) (rqTeamID q))
     (\<lambda>t. case findTask t (rqTaskID q) of
        None \<Rightarrow> runPure (Inl (TeamFail TeamTypes.ErrNotFound))
      | Some (x, _) \<Rightarrow>
          if tStatus x = TaskStatusRunning then
            runPure (case findAttempt x (rqAttemptID q) of
               None \<Rightarrow> Inl (TeamFail ErrStaleAttempt)
             | Some a \<Rightarrow>
                 if atContinuation a \<noteq> rqContinuationID q \<or> atStatus a \<noteq> AttemptStatusRunning
                 then Inl (TeamFail ErrStaleAttempt) else Inr (dispatchFor t x a, t))
          else runThen (claimAssigned B cfg q t x) (startAttempt B cfg q))"

subsection \<open>The child\<close>

definition prepareAttempt :: "worker_factory \<Rightarrow> attempt_input \<Rightarrow> run_error + prepared_attempt" where
  "prepareAttempt fac inp = bindE (fac inp) (\<lambda>p. guardE (fail_if (paWorker p = None) teamInvalid) (Inr p))"

definition createMissingChild ::
    "('ts, 'cs) backend \<Rightarrow> runtime_config \<Rightarrow> dispatch \<Rightarrow> prepared_attempt \<Rightarrow> (execution, 'ts, 'cs) run" where
  "createMissingChild B cfg d p w =
     (case contCreate B (''create'', 0, 0)
         \<lparr>crID = dpContinuationID d, crTarget = \<lparr>tgKind = rcoTargetKind cfg, tgID = dpAttemptID d\<rparr>,
          crWorker = rcoWorkerRef cfg, crController = rcoControllerRef cfg, crControllerState = None,
          crInput = paInput p, crLimits = rcoLimits cfg\<rparr> w of
        (Inl (ContFail e), w1) \<Rightarrow>
          if errorsIs_c e ContTypes.ErrExists then contGet B (''get again'', 0, 0) (dpContinuationID d) w1
          else (Inl (ContFail e), w1)
      | r \<Rightarrow> r)"

text \<open>The execution of the child, and what was prepared for it when it was missing.\<close>

definition findChild ::
    "('ts, 'cs) backend \<Rightarrow> runtime_config \<Rightarrow> worker_factory \<Rightarrow> attempt_input
       \<Rightarrow> (execution \<times> prepared_attempt option, 'ts, 'cs) run" where
  "findChild B cfg fac inp w =
     (case contGet B (''child'', 0, 0) (dpContinuationID (aiDispatch inp)) w of
        (Inl (ContFail e), w1) \<Rightarrow>
          if errorsIs_c e ContTypes.ErrNotFound then
            runThen (runPure (prepareAttempt fac inp))
              (\<lambda>p. runThen (createMissingChild B cfg (aiDispatch inp) p) (\<lambda>e. runPure (Inr (e, Some p)))) w1
          else (Inl (ContFail e), w1)
      | (Inl e, w1) \<Rightarrow> (Inl e, w1)
      | (Inr e, w1) \<Rightarrow> (Inr (e, None), w1))"

definition attemptHandlers :: "runtime_config \<Rightarrow> prepared_attempt \<Rightarrow> handlers" where
  "attemptHandlers cfg p = \<lparr>haWorkerRef = rcoWorkerRef cfg, haWorker = paWorker p,
     haControllerRef = rcoControllerRef cfg, haController = rcoController cfg\<rparr>"

text \<open>A result and an error together; \<open>None\<close> is the zero result.\<close>

type_synonym ('ts, 'cs) run_outcome = "(run_result option \<times> run_error option) \<times> ('ts, 'cs) world"

definition driveChild ::
    "('ts, 'cs) backend \<Rightarrow> runtime_config \<Rightarrow> worker_factory \<Rightarrow> attempt_input \<Rightarrow> prepared_attempt option \<Rightarrow> run_result
       \<Rightarrow> ('ts, 'cs) world \<Rightarrow> (run_result \<times> run_error option) \<times> ('ts, 'cs) world" where
  "driveChild B cfg fac inp prepared r w =
     (if terminal (exStatus (rrExecution r)) then ((r, None), w)
      else case (case prepared of Some p \<Rightarrow> Inr p | None \<Rightarrow> prepareAttempt fac inp) of
          Inl e \<Rightarrow> ((r, Some e), w)
        | Inr p \<Rightarrow>
           (case drive (beConts B) (beDrive B (exID (rrExecution r)) (nat (rcoMaxAdvances cfg)))
               (beDrive B (exID (rrExecution r))) (exID (rrExecution r)) (exRevision (rrExecution r)) (attemptHandlers cfg p) (rcoMaxAdvances cfg) (rcoGate cfg) (woConts w) of
              ((d, err), s) \<Rightarrow>
                ((r\<lparr>rrExecution := drExecution d, rrAdvances := drAdvances d, rrYield := drYield d\<rparr>,
                  map_option ContFail err), w\<lparr>woConts := s\<rparr>)))"

subsection \<open>Committing the completion\<close>

text \<open>
  A completion command is computed from the latest Team and tried again when it loses a race, 32
  times; \<open>i\<close> counts the tries.
\<close>

fun commitLoop :: "nat \<Rightarrow> nat \<Rightarrow> run_error option \<Rightarrow> (nat \<Rightarrow> (team, 'ts, 'cs) run) \<Rightarrow>
    (nat \<Rightarrow> team \<Rightarrow> (team, 'ts, 'cs) run) \<Rightarrow> (team, 'ts, 'cs) run" where
  "commitLoop 0 i conflict get commit w = (Inl (ConflictLimitFail conflict), w)"
| "commitLoop (Suc n) i conflict get commit w =
     (case get i w of (Inl e, w1) \<Rightarrow> (Inl e, w1)
      | (Inr current, w1) \<Rightarrow>
         (case commit i current w1 of
            (Inl e, w2) \<Rightarrow>
              if isConflict e then commitLoop n (Suc i) (Some e) get commit w2 else (Inl e, w2)
          | (Inr t, w2) \<Rightarrow> (Inr t, w2)))"

definition attemptCompletionConflictLimit :: nat where
  "attemptCompletionConflictLimit = 32"

definition commitCompletionCommand ::
    "('ts, 'cs) backend \<Rightarrow> string \<Rightarrow> nat \<Rightarrow> string \<Rightarrow> (nat \<Rightarrow> team \<Rightarrow> (team, 'ts, 'cs) run) \<Rightarrow> (team, 'ts, 'cs) run" where
  "commitCompletionCommand B name j teamID commit =
     commitLoop attemptCompletionConflictLimit 0 None (\<lambda>i. teamGet B (name @ '' get'', j, i) teamID) commit"

definition requestOf :: "dispatch \<Rightarrow> run_request" where
  "requestOf d = \<lparr>rqTeamID = dpTeamID d, rqTaskID = dpTaskID d, rqAttemptID = dpAttemptID d,
     rqContinuationID = dpContinuationID d\<rparr>"

definition acknowledge ::
    "('ts, 'cs) backend \<Rightarrow> runtime_config \<Rightarrow> dispatch \<Rightarrow> message_page \<Rightarrow> nat \<Rightarrow> team \<Rightarrow> (team, 'ts, 'cs) run" where
  "acknowledge B cfg d page i t =
     (case findMember t (dpMemberID d) of
        None \<Rightarrow> runPure (Inl (TeamFail TeamTypes.ErrCorruptStore))
      | Some (m, _) \<Rightarrow>
          if mAcknowledged m \<ge> mpNext page then runPure (Inr t)
          else runThen (runPure (attemptCommand cfg ''ack'' (requestOf d) [] (teRevision t) (memberActor (dpMemberID d))))
            (\<lambda>c. runThen (teamExecute B (''ack'', 0, i) (dpTeamID d) c (AcknowledgeMessages (mpNext page)))
              (\<lambda>rc. runPure (Inr (rcTeam rc)))))"

definition sendOne ::
    "('ts, 'cs) backend \<Rightarrow> runtime_config \<Rightarrow> dispatch \<Rightarrow> nat \<Rightarrow> attempt_message \<Rightarrow> nat \<Rightarrow> team \<Rightarrow> (team, 'ts, 'cs) run" where
  "sendOne B cfg d j m i t =
     runThen (runPure (attemptCommand cfg ''message'' (requestOf d) (amID m) (teRevision t) (memberActor (dpMemberID d))))
     (\<lambda>c. runThen (teamExecute B (''message'', j, i) (dpTeamID d) c
         (SendMessage \<lparr>srMessageID = amID m, srRecipientID = amRecipientID m, srTaskID = dpTaskID d,
            srReplyToID = amReplyToID m, srBody = amBody m\<rparr>))
       (\<lambda>rc. runPure (bindE (onTeam (sendResult (amID m) rc)) (\<lambda>p. Inr (fst p)))))"

fun sendAll ::
    "('ts, 'cs) backend \<Rightarrow> runtime_config \<Rightarrow> dispatch \<Rightarrow> nat \<Rightarrow> attempt_message list \<Rightarrow> (unit, 'ts, 'cs) run" where
  "sendAll B cfg d j [] = runPure (Inr ())"
| "sendAll B cfg d j (m # ms) =
     runThen (commitCompletionCommand B ''message'' j (dpTeamID d) (sendOne B cfg d j m))
     (\<lambda>_. sendAll B cfg d (Suc j) ms)"

definition finishRequest :: "dispatch \<Rightarrow> attempt_completion \<Rightarrow> finish_request" where
  "finishRequest d c = \<lparr>frTaskID = dpTaskID d, frAttemptID = dpAttemptID d, frContinuationID = dpContinuationID d,
     frOutcome = apOutcome c, frResult = apResult c, frArtifacts = apArtifacts c, frReason = apReason c\<rparr>"

definition finishOne ::
    "('ts, 'cs) backend \<Rightarrow> runtime_config \<Rightarrow> dispatch \<Rightarrow> attempt_completion \<Rightarrow> nat \<Rightarrow> team \<Rightarrow> (team, 'ts, 'cs) run" where
  "finishOne B cfg d c i t =
     runThen (runPure (attemptCommand cfg ''finish'' (requestOf d) [] (teRevision t) (rcoCoordinator cfg)))
     (\<lambda>cm. runThen (teamExecute B (''finish'', 0, i) (dpTeamID d) cm (FinishTaskAttempt (finishRequest d c)))
       (\<lambda>rc. runPure (Inr (rcTeam rc))))"

definition acknowledgeAll ::
    "('ts, 'cs) backend \<Rightarrow> runtime_config \<Rightarrow> dispatch \<Rightarrow> message_page \<Rightarrow> attempt_completion \<Rightarrow> (unit, 'ts, 'cs) run" where
  "acknowledgeAll B cfg d page c =
     (if apAcknowledge c \<and> mpNext page > 0
      then runThen (commitCompletionCommand B ''ack'' 0 (dpTeamID d) (acknowledge B cfg d page)) (\<lambda>_. runPure (Inr ()))
      else runPure (Inr ()))"

definition commitCompletion ::
    "('ts, 'cs) backend \<Rightarrow> runtime_config \<Rightarrow> dispatch \<Rightarrow> message_page \<Rightarrow> attempt_completion \<Rightarrow> (team, 'ts, 'cs) run" where
  "commitCompletion B cfg d page c =
     runThen (acknowledgeAll B cfg d page c)
     (\<lambda>_. runThen (sendAll B cfg d 0 (apMessages c))
       (\<lambda>_. commitCompletionCommand B ''finish'' 0 (dpTeamID d) (finishOne B cfg d c)))"

subsection \<open>Run\<close>

definition finishRun ::
    "('ts, 'cs) backend \<Rightarrow> runtime_config \<Rightarrow> projector \<Rightarrow> attempt_input \<Rightarrow> run_result \<Rightarrow> ('ts, 'cs) world
       \<Rightarrow> (run_result \<times> run_error option) \<times> ('ts, 'cs) world" where
  "finishRun B cfg proj inp r w =
     (if \<not> terminal (exStatus (rrExecution r)) then ((r, None), w)
      else case proj inp (rrExecution r) of
          Inl e \<Rightarrow> ((r, Some e), w)
        | Inr c \<Rightarrow> (case commitCompletion B cfg (aiDispatch inp) (aiMailbox inp) c w of
              (Inl e, w1) \<Rightarrow> ((r, Some e), w1)
            | (Inr t, w1) \<Rightarrow> ((r\<lparr>rrTeam := t, rrFinished := True\<rparr>, None), w1)))"

text \<open>The part of \<^verbatim>\<open>Run\<close> before it has a result to return: attempt, mailbox and child.\<close>

definition beginRun ::
    "('ts, 'cs) backend \<Rightarrow> runtime_config \<Rightarrow> worker_factory \<Rightarrow> run_request
       \<Rightarrow> (team \<times> attempt_input \<times> execution \<times> prepared_attempt option, 'ts, 'cs) run" where
  "beginRun B cfg fac q =
     runThen (startOrResume B cfg q) (\<lambda>(d, t).
       case findMember t (dpMemberID d) of
         None \<Rightarrow> runPure (Inl (TeamFail TeamTypes.ErrCorruptStore))
       | Some (m, _) \<Rightarrow>
          runThen (teamMailbox B (''mailbox'', 0, 0) (rqTeamID q) (dpMemberID d)
            \<lparr>moAfter = mAcknowledged m, moLimit = min (MaxMessages (teLimits t)) 1000\<rparr>) (\<lambda>page.
          let inp = \<lparr>aiDispatch = d, aiMailbox = page\<rparr>
          in runThen (findChild B cfg fac inp) (\<lambda>(e, p). runPure (Inr (t, inp, e, p)))))"

definition attemptRun ::
    "('ts, 'cs) backend \<Rightarrow> runtime_config \<Rightarrow> worker_factory \<Rightarrow> projector \<Rightarrow> run_request \<Rightarrow> ('ts, 'cs) world
       \<Rightarrow> ('ts, 'cs) run_outcome" where
  "attemptRun B cfg fac proj q w =
     (case beginRun B cfg fac q w of
        (Inl e, w1) \<Rightarrow> ((None, Some e), w1)
      | (Inr (t, inp, e, p), w1) \<Rightarrow>
         (let r = \<lparr>rrTeam = t, rrDispatch = aiDispatch inp, rrMailbox = aiMailbox inp, rrExecution = e,
            rrAdvances = 0, rrYield = None, rrFinished = False\<rparr>
          in case driveChild B cfg fac inp p r w1 of
               ((r1, Some err), w2) \<Rightarrow> ((Some r1, Some err), w2)
             | ((r1, None), w2) \<Rightarrow> (case finishRun B cfg proj inp r1 w2 of
                   ((r2, err), w3) \<Rightarrow> ((Some r2, err), w3))))"

subsection \<open>Inspecting the active attempts\<close>

text \<open>
  \<^verbatim>\<open>InspectActiveAttempts\<close> of \<^verbatim>\<open>attempt.go\<close>: one lookup of the child per active dispatch. The reader is
  an argument, of the number of the lookup.
\<close>

datatype inspection_state = AttemptInspectionMissing | AttemptInspectionNonterminal | AttemptInspectionTerminal

record attempt_inspection =
  isDispatch :: dispatch
  isState :: inspection_state
  isExecution :: "execution option"

type_synonym execution_reader = "nat \<Rightarrow> string \<Rightarrow> cont_error + execution"

definition terminalExecutionStatus :: "status \<Rightarrow> bool" where
  "terminalExecutionStatus s \<longleftrightarrow>
     s = ContTypes.StatusCompleted \<or> s = ContTypes.StatusFailed \<or> s = ContTypes.StatusCancelled \<or> s = StatusLimited"

fun inspectLoop :: "execution_reader \<Rightarrow> nat \<Rightarrow> dispatch list \<Rightarrow> run_error + attempt_inspection list" where
  "inspectLoop reader i [] = Inr []"
| "inspectLoop reader i (d # ds) =
     bindE (case reader i (dpContinuationID d) of
         Inl e \<Rightarrow> if errorsIs_c e ContTypes.ErrNotFound
           then Inr \<lparr>isDispatch = d, isState = AttemptInspectionMissing, isExecution = None\<rparr> else Inl (ContFail e)
       | Inr e \<Rightarrow> Inr \<lparr>isDispatch = d, isState = (if terminalExecutionStatus (exStatus e)
           then AttemptInspectionTerminal else AttemptInspectionNonterminal), isExecution = Some e\<rparr>)
     (\<lambda>x. bindE (inspectLoop reader (Suc i) ds) (\<lambda>xs. Inr (x # xs)))"

definition inspectActiveAttempts ::
    "('ts, 'cs) backend \<Rightarrow> TeamStore.ctx \<Rightarrow> string \<Rightarrow> execution_reader option \<Rightarrow> 'ts \<Rightarrow> run_error + attempt_inspection list" where
  "inspectActiveAttempts B c k reader s = (case reader of
       None \<Rightarrow> Inl teamInvalid
     | Some f \<Rightarrow> bindE (onTeam (engineActiveDispatches (beEnv B) (beTeams B) c k s)) (inspectLoop f 0))"

end
