(* ===== verification/RuntimeLaws.thy ===== *)
theory RuntimeLaws
  imports RuntimeModel TeamEngineSpec ContGuarantee
begin

section \<open>The attempt runtime over any two stores\<close>

text \<open>
  What one run leaves behind when others work on both stores, its commands lose races and its
  handlers fail: both stores only grew, and a run that says it finished has on the continuation's
  log the terminal execution it returns and on the Team's log the finish command it projected from it.
\<close>

definition world_ok where
  "world_ok E tinv tlog cinv clog w \<longleftrightarrow>
     system_ok E tinv tlog (woTeams w) \<and> csys cinv clog (woConts w)"

definition world_ext where
  "world_ext E tinv tlog cinv clog w w' \<longleftrightarrow>
     extends E tinv tlog (woTeams w) (woTeams w') \<and> cext cinv clog (woConts w) (woConts w')"

text \<open>
  What others do during the calls is within the rely of each engine, and no application error of the
  handlers is out of the range of Go integers.
\<close>

definition backend_ok where
  "backend_ok E TS tinv tlog CS cinv clog B \<longleftrightarrow>
     beEnv B = E \<and> beTeams B = TS \<and> beConts B = CS \<and>
     (\<forall>p. TeamEngineLaws.rely E tinv tlog (beTeam B p) \<and> ctx_ok (beTeam B p)) \<and>
     (\<forall>p. \<exists>k. crely cinv clog k (beCont B p)) \<and> (\<forall>k n. crely cinv clog k (beDrive B k n))"

text \<open>Nobody else is at work on the Teams, and no context ends.\<close>

definition still_teams where
  "still_teams B \<longleftrightarrow> (\<forall>p pt s. TeamEngine.ceItf (beTeam B p) pt s = s \<and> TeamEngine.ceCtx (beTeam B p) pt = None)"

lemma stillD:
  assumes "still_teams B"
  shows "TeamEngine.ceItf (beTeam B p) pt s = s" "TeamEngine.ceCtx (beTeam B p) pt = None"
  using assms unfolding still_teams_def by blast+

definition workers_i64 :: "runtime_config \<Rightarrow> worker_factory \<Rightarrow> bool" where
  "workers_i64 cfg fac \<longleftrightarrow> (\<forall>inp p. fac inp = Inr p \<longrightarrow> handlers_i64 (attemptHandlers cfg p))"

definition addresses :: "run_request \<Rightarrow> dispatch \<Rightarrow> bool" where
  "addresses q d \<longleftrightarrow> dpTeamID d = rqTeamID q \<and> dpTaskID d = rqTaskID q \<and> dpAttemptID d = rqAttemptID q"

text \<open>The execution of a result is on the log of its continuation.\<close>

definition child_on where
  "child_on clog e w \<longleftrightarrow> (\<exists>rc \<in> set (clog (enStore (woConts w)) (exID e)). rcExecution rc = e)"

text \<open>The finish command of a completion is on the log of the Team, and made the Team \<open>t\<close>.\<close>

definition finish_committed where
  "finish_committed E tlog cfg d c t w \<longleftrightarrow> (\<exists>cm h rc.
     attemptCommand cfg ''finish'' (requestOf d) [] (cmdExpected cm) (rcoCoordinator cfg) = Inr cm \<and>
     commandHash E (commandOperation (FinishTaskAttempt (finishRequest d c))) (dpTeamID d) (cmdActor cm)
       (commandSemantic (FinishTaskAttempt (finishRequest d c))) = Inr h \<and>
     committed (tlog (woTeams w)) (dpTeamID d) (cmdID cm) h rc \<and> rcTeam rc = t)"

text \<open>What a result says of the world it was returned in.\<close>

definition result_true where
  "result_true E tlog clog cfg proj q r w \<longleftrightarrow>
     addresses q (rrDispatch r) \<and>
     (rrFinished r \<longrightarrow> terminal (exStatus (rrExecution r)) \<and> child_on clog (rrExecution r) w \<and>
        (\<exists>c. proj \<lparr>aiDispatch = rrDispatch r, aiMailbox = rrMailbox r\<rparr> (rrExecution r) = Inr c \<and>
           finish_committed E tlog cfg (rrDispatch r) c (rrTeam r) w))"

definition does ::
    "('w \<Rightarrow> bool) \<Rightarrow> ('w \<Rightarrow> 'w \<Rightarrow> bool) \<Rightarrow> ('w \<Rightarrow> (run_error + 'a) \<times> 'w) \<Rightarrow> ('a \<Rightarrow> 'w \<Rightarrow> bool) \<Rightarrow> bool" where
  "does ok ext m Q \<longleftrightarrow> (\<forall>w r w'. ok w \<longrightarrow> m w = (r, w') \<longrightarrow> ext w w' \<and> (\<forall>x. r = Inr x \<longrightarrow> Q x w'))"

lemma doesD: "does ok ext m Q \<Longrightarrow> ok w \<Longrightarrow> m w = (r, w') \<Longrightarrow> ext w w' \<and> (\<forall>x. r = Inr x \<longrightarrow> Q x w')"
  by (simp add: does_def)

lemma does_mono: "does ok ext m Q \<Longrightarrow> (\<And>x w. Q x w \<Longrightarrow> Q' x w) \<Longrightarrow> does ok ext m Q'"
  by (simp add: does_def)

lemma onTeam_Inr [simp]: "onTeam r = Inr x \<longleftrightarrow> r = Inr x"
  by (simp add: onTeam_def split: sum.splits)

lemma onCont_Inr [simp]: "onCont r = Inr x \<longleftrightarrow> r = Inr x"
  by (simp add: onCont_def split: sum.splits)

lemma addresses_dispatch:
  "findTask t (rqTaskID q) = Some (x, i) \<Longrightarrow> findAttempt x (rqAttemptID q) = Some a \<Longrightarrow> teID t = rqTeamID q \<Longrightarrow>
     addresses q (dispatchFor t x a)"
  by (auto simp: addresses_def dispatchFor_def findTask_def findAttempt_def find_Some_iff Let_def dest!: find_idx_SomeD)

lemma startResult_addresses:
  "startResult (rqTaskID q) (rqAttemptID q) rc = Inr (t, d) \<Longrightarrow> teID (rcTeam rc) = rqTeamID q \<Longrightarrow> addresses q d"
  by (auto simp: startResult_def addresses_dispatch split: option.splits)

subsection \<open>What a drive returns is on the log\<close>

context cont_store
begin

lemma driveStep_on:
  assumes sys: "sys s" and rel: "rely k ce" and h: "handlers_i64 h"
    and on: "\<exists>rc \<in> set (lg s k). drExecution r = rcExecution rc"
    and run: "driveStep S ce k h g r s = ((r', stop, err), s')"
  shows "ext s s' \<and> (err = None \<longrightarrow> (\<exists>rc \<in> set (lg s' k). drExecution r' = rcExecution rc))"
proof (cases "statusYield (drExecution r) = None \<and> ceCtx ce (''drive'', 0) = None \<and>
    driveGate g (drExecution r) = Inr True")
  case False
  with run on ext_refl [OF sys] show ?thesis
    by (auto simp: driveStep_def split: option.splits sum.splits bool.splits)
next
  case True
  obtain nx aerr s2 where ad: "advance S ce k (exRevision (drExecution r)) h s = ((nx, aerr), s2)"
    by (metis prod.exhaust)
  with run True have "s2 = s'" "drExecution r' = nx" "err = aerr"
    by (auto simp: driveStep_def Let_def split: option.splits if_splits)
  with advance_spec [OF sys rel h ad] show ?thesis by (simp add: result_ok_def)
qed

lemma driveLoop_on:
  assumes "sys s" "\<And>n. rely k (ces n)" "handlers_i64 h" "\<exists>rc \<in> set (lg s k). drExecution r = rcExecution rc"
    and "driveLoop S ces k h g n r s = ((r', None), s')"
  shows "\<exists>rc \<in> set (lg s' k). drExecution r' = rcExecution rc"
  using assms
proof (induction n arbitrary: r s)
  case 0
  then show ?case by auto
next
  case (Suc n)
  obtain r1 stop err s1 where st: "driveStep S (ces n) k h g r s = ((r1, stop, err), s1)"
    by (metis prod.exhaust)
  note on = driveStep_on [OF Suc.prems(1,2,3,4) st]
  show ?case
  proof (cases "stop \<or> err \<noteq> None")
    case True
    with Suc.prems(5) st on show ?thesis by auto
  next
    case False
    with Suc.prems(5) st have "driveLoop S ces k h g n r1 s1 = ((r', None), s')" by auto
    from Suc.IH [OF _ Suc.prems(2,3) _ this] on False show ?thesis by (blast dest: ext_sys)
  qed
qed

lemma drive_on:
  assumes sys: "sys s" and rel: "rely k ce" "\<And>n. rely k (ces n)" and h: "handlers_i64 h"
    and run: "drive S ce ces k expected h m g s = ((r, None), s')"
  shows "\<exists>rc \<in> set (lg s' k). drExecution r = rcExecution rc"
proof -
  obtain q s1 where get: "engineGet_c S ce k s = (q, s1)" by fastforce
  note gs = get_spec [OF sys rel(1) get]
  from run get obtain e where q: "q = Inr e"
      "driveLoop S ces k h g (nat m) (zero_drive\<lparr>drExecution := e\<rparr>) s1 = ((r, None), s')"
    by (auto simp: drive_def split: option.splits sum.splits if_splits)
  from driveLoop_on [OF ext_sys [OF gs(1)] rel(2) h _ q(2)] gs(2) [OF q(1)] show ?thesis by auto
qed

end

locale attempt_runtime = team: team_store E TS tinv tlog troom + cont: cont_store CS cinv clog croom
  for E TS tinv tlog troom CS cinv clog croom
begin

abbreviation "wok \<equiv> world_ok E tinv tlog cinv clog"
abbreviation "wext \<equiv> world_ext E tinv tlog cinv clog"
abbreviation "bok \<equiv> backend_ok E TS tinv tlog CS cinv clog"
abbreviation "run_does m Q \<equiv> does wok wext m Q"

lemma wext_refl: "wok w \<Longrightarrow> wext w w"
  by (simp add: world_ok_def world_ext_def extends_refl cont.ext_refl)

lemma wext_trans: "wext a b \<Longrightarrow> wext b c \<Longrightarrow> wext a c"
  unfolding world_ext_def by (elim conjE, intro conjI) (rule extends_trans cont.ext_trans, assumption+)+

lemma wext_ok: "wext a b \<Longrightarrow> wok b"
  unfolding world_ext_def world_ok_def by (elim conjE, intro conjI) (erule extends_sys cont.ext_sys)+

lemma does_pure: "(\<And>x w. r = Inr x \<Longrightarrow> Q x w) \<Longrightarrow> run_does (runPure r) Q"
  by (simp add: does_def runPure_def wext_refl)

lemma does_then:
  assumes m: "run_does m (\<lambda>x _. P x)" and f: "\<And>x. P x \<Longrightarrow> run_does (f x) Q"
  shows "run_does (runThen m f) Q"
  unfolding does_def
proof (intro allI impI)
  fix w r w' assume w: "wok w" and run: "runThen m f w = (r, w')"
  obtain q w1 where q: "m w = (q, w1)" by fastforce
  note s = doesD [OF m w q]
  show "wext w w' \<and> (\<forall>x. r = Inr x \<longrightarrow> Q x w')"
  proof (cases q)
    case (Inl e)
    with run q s show ?thesis by (auto simp: runThen_def)
  next
    case (Inr x)
    with run q have "f x w1 = (r, w')" by (simp add: runThen_def)
    from Inr s have P: "P x" and e1: "wext w w1" by auto
    from doesD [OF f [OF P] wext_ok [OF e1] \<open>f x w1 = (r, w')\<close>] wext_trans [OF e1] show ?thesis by blast
  qed
qed

lemma backendD:
  assumes "bok B"
  shows "beEnv B = E" "beTeams B = TS" "beConts B = CS"
    and "TeamEngineLaws.rely E tinv tlog (beTeam B p)" "ctx_ok (beTeam B p)"
    and "\<exists>k. crely cinv clog k (beCont B p)" "crely cinv clog k (beDrive B k n)"
  using assms unfolding backend_ok_def by blast+

lemma wext_team: "wok w \<Longrightarrow> extends E tinv tlog (woTeams w) s \<Longrightarrow> wext w (w\<lparr>woTeams := s\<rparr>)"
  by (simp add: world_ok_def world_ext_def cont.ext_refl)

lemma wext_cont: "wok w \<Longrightarrow> cext cinv clog (woConts w) s \<Longrightarrow> wext w (w\<lparr>woConts := s\<rparr>)"
  by (simp add: world_ok_def world_ext_def extends_refl)

subsection \<open>The calls\<close>

lemma teamGet_does:
  assumes B: "bok B"
  shows "run_does (teamGet B p k) (\<lambda>t _. teID t = k)"
  unfolding does_def
proof (intro allI impI)
  fix w r w' assume w: "wok w" and run: "teamGet B p k w = (r, w')"
  let ?ce = "beTeam B p"
  let ?s = "TeamEngine.ceItf ?ce PLoad (woTeams w)"
  have e: "extends E tinv tlog (woTeams w) ?s"
    using backendD(4) [OF B, of p] w unfolding world_ok_def TeamEngineLaws.rely_def by blast
  have t: "teID x = k" if "engineGet E TS (TeamEngine.ceCtx ?ce PLoad) k ?s = Inr x" for x
  proof -
    note si = team.sys_inv [OF extends_sys [OF e]]
    from that have ne: "tlog ?s k \<noteq> []" and x: "x = rcTeam (last (tlog ?s k))"
      by (auto simp: engineGet_def okE team.loadRecord_Inr [OF si])
    from log_ok_mem(2) [OF team.log_inv [OF si ne], of "last (tlog ?s k)"] ne x show ?thesis by simp
  qed
  from run B t wext_team [OF w e] show "wext w w' \<and> (\<forall>x. r = Inr x \<longrightarrow> teID x = k)"
    by (auto simp: teamGet_def Let_def backendD [OF B])
qed

lemma teamExecute_does:
  assumes B: "bok B"
  shows "run_does (teamExecute B p k c cmd) (\<lambda>rc w. teID (rcTeam rc) = k \<and>
    (\<exists>h. commandHash E (commandOperation cmd) k (cmdActor c) (commandSemantic cmd) = Inr h \<and>
      committed (tlog (woTeams w)) k (cmdID c) h rc))"
  unfolding does_def
proof (intro allI impI)
  fix w r w' assume w: "wok w" and run: "teamExecute B p k c cmd w = (r, w')"
  obtain q s where ex: "execute E TS (beTeam B p) k c cmd (woTeams w) = (q, s)" by fastforce
  have "system_ok E tinv tlog (woTeams w)" using w by (simp add: world_ok_def)
  note sp = team.execute_spec [OF this backendD(4,5) [OF B] ex]
  have "teID (rcTeam rc) = k" if "committed (tlog s) k c' h rc" for c' h rc
  proof -
    from that have m: "rc \<in> set (tlog s k)" by (simp add: committed_def)
    then have "tlog s k \<noteq> []" by auto
    from log_ok_mem(2) [OF team.log_inv [OF team.sys_inv this] m] sp show ?thesis by (blast dest: extends_sys)
  qed
  with run B ex sp wext_team [OF w, of s] show "wext w w' \<and> (\<forall>rc. r = Inr rc \<longrightarrow> teID (rcTeam rc) = k \<and>
      (\<exists>h. commandHash E (commandOperation cmd) k (cmdActor c) (commandSemantic cmd) = Inr h \<and>
        committed (tlog (woTeams w')) k (cmdID c) h rc))"
    by (auto simp: teamExecute_def backendD [OF B])
qed

lemma teamMailbox_does:
  assumes B: "bok B"
  shows "run_does (teamMailbox B p k mk opt) (\<lambda>_ _. True)"
  unfolding does_def
proof (intro allI impI)
  fix w r w' assume w: "wok w" and run: "teamMailbox B p k mk opt w = (r, w')"
  let ?i = "TeamEngine.ceItf (beTeam B p)"
  have i: "team.sys s \<Longrightarrow> team.ext s (?i pt s)" for s pt
    using backendD(4) [OF B, of p] unfolding TeamEngineLaws.rely_def by blast
  have "team.sys (woTeams w)" using w by (simp add: world_ok_def)
  note e1 = i [OF this, of PLoad]
  note e2 = i [OF extends_sys [OF e1], of PRead]
  note e3 = i [OF extends_sys [OF e2], of PRead2]
  from run wext_team [OF w extends_trans [OF e1 extends_trans [OF e2 e3]]]
  show "wext w w' \<and> (\<forall>x. r = Inr x \<longrightarrow> True)" by (auto simp: teamMailbox_def Let_def)
qed

lemma contGet_does:
  assumes B: "bok B"
  shows "run_does (contGet B p k) (\<lambda>e w. child_on clog e w \<and> exID e = k)"
  unfolding does_def
proof (intro allI impI)
  fix w r w' assume w: "wok w" and run: "contGet B p k w = (r, w')"
  obtain q s where g: "engineGet_c CS (beCont B p) k (woConts w) = (q, s)" by fastforce
  obtain k' where rel: "crely cinv clog k' (beCont B p)" using backendD(6) [OF B] by blast
  have "cont.sys (woConts w)" using w by (simp add: world_ok_def)
  note sp = cont.get_spec [OF this rel g]
  have "\<exists>rc \<in> set (cont.lg s (exID e)). rcExecution rc = e" "exID e = k" if "q = Inr e" for e
    using sp(2) [OF that] cont.sys_mem(2) [OF cont.ext_sys [OF sp(1)]] by auto
  with run g wext_cont [OF w sp(1)] show "wext w w' \<and> (\<forall>e. r = Inr e \<longrightarrow> child_on clog e w' \<and> exID e = k)"
    by (auto simp: contGet_def backendD [OF B] child_on_def)
qed

lemma contCreate_does:
  assumes B: "bok B"
  shows "run_does (contCreate B p q) (\<lambda>e w. child_on clog e w)"
  unfolding does_def
proof (intro allI impI)
  fix w r w' assume w: "wok w" and run: "contCreate B p q w = (r, w')"
  obtain x s where g: "engineCreate_c CS (beCont B p) q (woConts w) = (x, s)" by fastforce
  obtain k' where rel: "crely cinv clog k' (beCont B p)" using backendD(6) [OF B] by blast
  have "cont.sys (woConts w)" using w by (simp add: world_ok_def)
  note sp = cont.create_result [OF this rel g]
  with run g wext_cont [OF w sp(1)] show "wext w w' \<and> (\<forall>e. r = Inr e \<longrightarrow> child_on clog e w')"
    by (auto simp: contCreate_def backendD [OF B] child_on_def)
qed

subsection \<open>Attempt and child\<close>

lemma startOrResume_does:
  assumes B: "bok B"
  shows "run_does (startOrResume B cfg q) (\<lambda>p _. addresses q (fst p))"
proof -
  have claim: "run_does (claimAssigned B cfg q t x) (\<lambda>_ _. True)" for t x
    unfolding claimAssigned_def
    by (auto intro!: does_pure does_then [where P = "\<lambda>_. True"] does_mono [OF teamExecute_does [OF B]])
  have start: "run_does (startAttempt B cfg q t) (\<lambda>p _. addresses q (fst p))" for t
    unfolding startAttempt_def
    by (rule does_then [where P = "\<lambda>_. True"], rule does_pure, simp,
        rule does_then [where P = "\<lambda>rc. teID (rcTeam rc) = rqTeamID q"], rule does_mono [OF teamExecute_does [OF B]],
        simp, rule does_pure) (auto simp: okE dest: startResult_addresses)
  show ?thesis unfolding startOrResume_def
    by (rule does_then [OF teamGet_does [OF B]])
      (auto intro!: does_pure does_then [OF claim start] dest: addresses_dispatch split: option.splits if_splits)
qed

text \<open>A call whose error one branch of the caller takes up.\<close>

lemma does_or:
  assumes m: "run_does m Q" and h: "\<And>e. run_does (h e) Q"
    and n: "\<And>w. n w = (case m w of (Inl (ContFail e), w1) \<Rightarrow> if c e then h e w1 else (Inl (ContFail e), w1) | r \<Rightarrow> r)"
  shows "run_does n Q"
  unfolding does_def
proof (intro allI impI)
  fix w r w' assume w: "wok w" and run: "n w = (r, w')"
  obtain q w1 where q: "m w = (q, w1)" by fastforce
  note s = doesD [OF m w q]
  have "wext w w2 \<and> (\<forall>x. r' = Inr x \<longrightarrow> Q x w2)" if "h e w1 = (r', w2)" for e r' w2
    using doesD [OF h wext_ok that] s wext_trans by blast
  with run n [of w] q s show "wext w w' \<and> (\<forall>x. r = Inr x \<longrightarrow> Q x w')"
    by (auto split: sum.splits run_error.splits if_splits)
qed

lemma createMissingChild_does:
  assumes B: "bok B"
  shows "run_does (createMissingChild B cfg d p) (\<lambda>e w. child_on clog e w)"
  by (rule does_or [OF contCreate_does [OF B] does_mono [OF contGet_does [OF B]]])
    (auto simp: createMissingChild_def split: sum.splits run_error.splits)

lemma findChild_does:
  assumes B: "bok B"
  shows "run_does (findChild B cfg fac inp) (\<lambda>(e, p) w. child_on clog e w \<and> (\<forall>x. p = Some x \<longrightarrow> fac inp = Inr x))"
proof -
  let ?Q = "\<lambda>(e, p) w. child_on clog e w \<and> (\<forall>x. p = Some x \<longrightarrow> fac inp = Inr x)"
  have get: "run_does (\<lambda>w. case contGet B l k w of (Inl e, w1) \<Rightarrow> (Inl e, w1) | (Inr e, w1) \<Rightarrow> (Inr (e, None), w1)) ?Q" for l k
    using contGet_does [OF B, of l k] by (auto simp: does_def split: prod.splits sum.splits)
  have new: "run_does (runThen (createMissingChild B cfg (aiDispatch inp) p) (\<lambda>e. runPure (Inr (e, Some p)))) ?Q"
    if "fac inp = Inr p" for p
    using createMissingChild_does [OF B, of cfg "aiDispatch inp" p] that
    by (auto simp: does_def runThen_def runPure_def split: prod.splits sum.splits)
  have "run_does (runThen (runPure (prepareAttempt fac inp))
      (\<lambda>p. runThen (createMissingChild B cfg (aiDispatch inp) p) (\<lambda>e. runPure (Inr (e, Some p))))) ?Q"
    by (rule does_then [where P = "\<lambda>p. fac inp = Inr p"], rule does_pure, simp add: prepareAttempt_def okE)
      (rule new)
  then show ?thesis
    by (rule does_or [OF get [of "(''child'', 0, 0)" "dpContinuationID (aiDispatch inp)"],
        where c = "\<lambda>e. errorsIs_c e ContTypes.ErrNotFound"]) (auto simp: findChild_def split: prod.splits sum.splits run_error.splits)
qed

lemma driveChild_does:
  assumes B: "bok B" and h: "workers_i64 cfg fac" and w: "wok w" and on: "child_on clog (rrExecution r) w"
    and p: "\<And>x. prepared = Some x \<Longrightarrow> fac inp = Inr x"
    and run: "driveChild B cfg fac inp prepared r w = ((r', err), w')"
  shows "wext w w' \<and> (err = None \<longrightarrow> child_on clog (rrExecution r') w') \<and> rrTeam r' = rrTeam r \<and>
    rrDispatch r' = rrDispatch r \<and> rrMailbox r' = rrMailbox r \<and> rrFinished r' = rrFinished r"
proof (cases "terminal (exStatus (rrExecution r))")
  case True
  with run on wext_refl [OF w] show ?thesis by (simp add: driveChild_def)
next
  case False
  show ?thesis
  proof (cases "case prepared of Some p \<Rightarrow> Inr p | None \<Rightarrow> prepareAttempt fac inp")
    case (Inl e)
    with run False wext_refl [OF w] show ?thesis by (auto simp: driveChild_def)
  next
    case (Inr x)
    then have "fac inp = Inr x" using p by (auto simp: prepareAttempt_def okE split: option.splits)
    then have i64: "handlers_i64 (attemptHandlers cfg x)" using h by (simp add: workers_i64_def)
    let ?e = "rrExecution r"
    obtain d derr s where dr: "drive CS (beDrive B (exID ?e) (nat (rcoMaxAdvances cfg))) (beDrive B (exID ?e)) (exID ?e)
        (exRevision ?e) (attemptHandlers cfg x) (rcoMaxAdvances cfg) (rcoGate cfg) (woConts w) = ((d, derr), s)"
      by (metis prod.exhaust)
    have sys: "cont.sys (woConts w)" using w by (simp add: world_ok_def)
    note e = cont.drive_spec [OF sys backendD(7,7) [OF B] i64 dr]
    have "\<exists>rc \<in> set (cont.lg s (exID (drExecution d))). rcExecution rc = drExecution d" if "derr = None"
      using cont.drive_on [OF sys backendD(7,7) [OF B] i64 dr [unfolded that]]
        cont.sys_mem(2) [OF cont.ext_sys [OF e]] by force
    with run False Inr dr wext_cont [OF w e] show ?thesis
      by (auto simp: driveChild_def backendD [OF B] child_on_def)
  qed
qed

subsection \<open>The completion\<close>

text \<open>What a command's callback establishes, the loop around it establishes too.\<close>

lemma commitLoop_does:
  assumes g: "\<And>i. run_does (get i) (\<lambda>_ _. True)" and c: "\<And>i t. run_does (commit i t) Q"
  shows "run_does (commitLoop n i conflict get commit) Q"
proof (induction n arbitrary: i conflict)
  case 0
  show ?case by (simp add: does_def wext_refl)
next
  case (Suc n)
  show ?case unfolding does_def
  proof (intro allI impI)
    fix w r w' assume w: "wok w" and run: "commitLoop (Suc n) i conflict get commit w = (r, w')"
    obtain q w1 where q: "get i w = (q, w1)" by fastforce
    note e1 = conjunct1 [OF doesD [OF g w q]]
    show "wext w w' \<and> (\<forall>x. r = Inr x \<longrightarrow> Q x w')"
    proof (cases q)
      case (Inl e)
      with run q e1 show ?thesis by auto
    next
      case (Inr t)
      obtain q2 w2 where q2: "commit i t w1 = (q2, w2)" by fastforce
      note s2 = doesD [OF c wext_ok [OF e1] q2]
      note e2 = wext_trans [OF e1 conjunct1 [OF s2]]
      have "wext w w'' \<and> (\<forall>x. r' = Inr x \<longrightarrow> Q x w'')"
        if "commitLoop n j f get commit w2 = (r', w'')" for j f r' w''
        using doesD [OF Suc.IH wext_ok [OF e2] that] wext_trans [OF e2] by blast
      with run q Inr q2 s2 e2 show ?thesis by (auto split: sum.splits if_splits)
    qed
  qed
qed

lemma completion_does:
  assumes B: "bok B" and c: "\<And>i t. run_does (commit i t) Q"
  shows "run_does (commitCompletionCommand B name j k commit) Q"
  unfolding commitCompletionCommand_def
  by (rule commitLoop_does [OF does_mono [OF teamGet_does [OF B]] c]) simp

lemma acknowledgeAll_does:
  assumes B: "bok B"
  shows "run_does (acknowledgeAll B cfg d page c) (\<lambda>_ _. True)"
proof -
  have "run_does (acknowledge B cfg d page i t) (\<lambda>_ _. True)" for i t
    unfolding acknowledge_def
    by (auto intro!: does_pure does_then [where P = "\<lambda>_. True"] does_mono [OF teamExecute_does [OF B]]
        split: option.splits)
  from completion_does [OF B this] show ?thesis unfolding acknowledgeAll_def
    by (auto intro!: does_pure does_then [where P = "\<lambda>_. True"])
qed

lemma sendAll_does:
  assumes B: "bok B"
  shows "run_does (sendAll B cfg d j ms) (\<lambda>_ _. True)"
proof (induction ms arbitrary: j)
  case Nil
  show ?case by (simp add: does_pure)
next
  case (Cons m ms)
  have "run_does (sendOne B cfg d j m i t) (\<lambda>_ _. True)" for i t
    unfolding sendOne_def
    by (auto intro!: does_pure does_then [where P = "\<lambda>_. True"] does_mono [OF teamExecute_does [OF B]])
  from completion_does [OF B this] Cons show ?case
    by (auto intro!: does_then [where P = "\<lambda>_. True"])
qed

lemma finishOne_does:
  assumes B: "bok B"
  shows "run_does (finishOne B cfg d c i t) (\<lambda>t' w. finish_committed E tlog cfg d c t' w)"
proof -
  have "run_does (runThen (teamExecute B l (dpTeamID d) cm (FinishTaskAttempt (finishRequest d c)))
      (\<lambda>rc. runPure (Inr (rcTeam rc)))) (\<lambda>t' w. finish_committed E tlog cfg d c t' w)"
    if "attemptCommand cfg ''finish'' (requestOf d) [] v (rcoCoordinator cfg) = Inr cm" for l v cm
  proof -
    have "cmdExpected cm = v" using that by (auto simp: attemptCommand_def split: sum.splits)
    with that teamExecute_does [OF B, of l "dpTeamID d" cm "FinishTaskAttempt (finishRequest d c)"] show ?thesis
      unfolding does_def runThen_def runPure_def finish_committed_def by (fastforce split: prod.splits sum.splits)
  qed
  then show ?thesis unfolding finishOne_def by (rule does_then [OF does_pure])
qed

lemma commitCompletion_does:
  assumes B: "bok B"
  shows "run_does (commitCompletion B cfg d page c) (\<lambda>t w. finish_committed E tlog cfg d c t w)"
  unfolding commitCompletion_def
  by (rule does_then [OF acknowledgeAll_does [OF B]], rule does_then [OF sendAll_does [OF B]])
    (rule completion_does [OF B finishOne_does [OF B]])

lemma finishRun_does:
  assumes B: "bok B" and w: "wok w" and on: "child_on clog (rrExecution r) w" and f: "\<not> rrFinished r"
    and d: "rrDispatch r = aiDispatch inp" "rrMailbox r = aiMailbox inp" "addresses q (rrDispatch r)"
    and run: "finishRun B cfg proj inp r w = ((r', err), w')"
  shows "wext w w' \<and> result_true E tlog clog cfg proj q r' w' \<and> (rrFinished r' \<longrightarrow> err = None)"
proof (cases "terminal (exStatus (rrExecution r))")
  case False
  with run f d wext_refl [OF w] show ?thesis by (auto simp: finishRun_def result_true_def)
next
  case True
  show ?thesis
  proof (cases "proj inp (rrExecution r)")
    case (Inl e)
    with run True f d wext_refl [OF w] show ?thesis by (auto simp: finishRun_def result_true_def)
  next
    case (Inr c)
    obtain x s where cc: "commitCompletion B cfg (aiDispatch inp) (aiMailbox inp) c w = (x, s)" by fastforce
    note sp = doesD [OF commitCompletion_does [OF B] w cc]
    have on': "child_on clog (rrExecution r) s"
      using on conjunct1 [OF sp] unfolding child_on_def world_ext_def by (blast dest: cont.ext_mem)
    have eta: "\<lparr>aiDispatch = aiDispatch inp, aiMailbox = aiMailbox inp\<rparr> = inp" by simp
    with run True Inr cc sp on' f d show ?thesis
      by (auto simp: finishRun_def result_true_def eta split: sum.splits)
  qed
qed

text \<open>The specification of a run.\<close>

theorem run_spec:
  assumes B: "bok B" and h: "workers_i64 cfg fac" and w: "wok w"
    and run: "attemptRun B cfg fac proj q w = ((ro, err), w')"
  shows "wext w w' \<and> (\<forall>r. ro = Some r \<longrightarrow> result_true E tlog clog cfg proj q r w' \<and> (rrFinished r \<longrightarrow> err = None))"
proof -
  let ?P = "\<lambda>(t, inp, e, p) w. child_on clog e w \<and> addresses q (aiDispatch inp) \<and> (\<forall>x. p = Some x \<longrightarrow> fac inp = Inr x)"
  have "run_does (beginRun B cfg fac q) ?P"
  proof -
    have child: "run_does (runThen (findChild B cfg fac inp) (\<lambda>(e, p). runPure (Inr (t, inp, e, p)))) ?P"
      if "addresses q (aiDispatch inp)" for inp t
      using findChild_does [OF B, of cfg fac inp] that
      by (auto simp: does_def runThen_def runPure_def split: prod.splits sum.splits)
    show ?thesis unfolding beginRun_def
      by (auto intro!: child does_then [OF startOrResume_does [OF B]] does_pure does_then [OF teamMailbox_does [OF B]]
          simp: Let_def split: option.splits)
  qed
  note bg = doesD [OF this w]
  obtain b w1 where b: "beginRun B cfg fac q w = (b, w1)" by fastforce
  show ?thesis
  proof (cases b)
    case (Inl e)
    with run b bg [OF b] show ?thesis by (auto simp: attemptRun_def)
  next
    case (Inr x)
    obtain t inp e p where x: "x = (t, inp, e, p)" by (metis prod.exhaust)
    let ?r = "\<lparr>rrTeam = t, rrDispatch = aiDispatch inp, rrMailbox = aiMailbox inp, rrExecution = e,
            rrAdvances = 0, rrYield = None, rrFinished = False\<rparr>"
    from bg [OF b] Inr x have e1: "wext w w1" and on: "child_on clog (rrExecution ?r) w1"
      and ad: "addresses q (aiDispatch inp)" and p: "\<And>x. p = Some x \<Longrightarrow> fac inp = Inr x" by auto
    obtain r1 derr w2 where dr: "driveChild B cfg fac inp p ?r w1 = ((r1, derr), w2)" by (metis prod.exhaust)
    note ds = driveChild_does [OF B h wext_ok [OF e1] on p dr]
    have e2: "wext w w2" using ds wext_trans [OF e1] by blast
    have r1: "rrDispatch r1 = aiDispatch inp" "rrMailbox r1 = aiMailbox inp" "\<not> rrFinished r1" using ds by auto
    show ?thesis
    proof (cases derr)
      case (Some y)
      with run b Inr x dr e2 r1 ad show ?thesis by (auto simp: attemptRun_def Let_def result_true_def)
    next
      case None
      obtain r2 ferr w3 where fr: "finishRun B cfg proj inp r1 w2 = ((r2, ferr), w3)" by (metis prod.exhaust)
      have "wext w2 w3 \<and> result_true E tlog clog cfg proj q r2 w3 \<and> (rrFinished r2 \<longrightarrow> ferr = None)"
        by (rule finishRun_does [OF B wext_ok [OF e2] _ r1(3,1,2) _ fr]) (use ds None r1 ad in auto)
      with run b Inr x dr None fr wext_trans [OF e2] show ?thesis
        by (auto simp: attemptRun_def Let_def)
    qed
  qed
qed

subsection \<open>The acknowledgement command\<close>

lemma teamGet_still:
  assumes B: "bok B" and q: "still_teams B" and w: "wok w" and k: "validateSafeID k = None"
    and ne: "tlog (woTeams w) k \<noteq> []"
  shows "teamGet B p k w = (Inr (rcTeam (last (tlog (woTeams w) k))), w)"
proof -
  have si: "tinv (woTeams w)" using w by (simp add: world_ok_def team.sys_inv)
  have "loadRecord E TS None k (woTeams w) = Inr (last (tlog (woTeams w) k))"
    using team.loadRecord_Inr [OF si] ne by simp
  with k show ?thesis by (simp add: teamGet_def stillD [OF q] backendD [OF B] engineGet_def onTeam_def Let_def)
qed

text \<open>
  Its identifier names the attempt alone. When the log holds it for another sequence, a second
  acknowledgement is a conflict of commands, which is not tried again: nothing is written, and the
  attempt stays as it is.
\<close>

theorem ack_conflict:
  assumes B: "bok B" and q: "still_teams B" and w: "wok w" and k: "validateSafeID (dpTeamID d) = None"
    and cur: "tlog (woTeams w) (dpTeamID d) \<noteq> []" "t = rcTeam (last (tlog (woTeams w) (dpTeamID d)))"
    and m: "findMember t (dpMemberID d) = Some (m, i)" "mAcknowledged m < mpNext page"
    and cm: "attemptCommand cfg ''ack'' (requestOf d) [] (teRevision t) (memberActor (dpMemberID d)) = Inr cm"
      "validateCommand cm False = None"
    and h: "commandHash E (commandOperation (AcknowledgeMessages (mpNext page))) (dpTeamID d) (cmdActor cm)
      (commandSemantic (AcknowledgeMessages (mpNext page))) = Inr h"
    and rc: "rc \<in> set (tlog (woTeams w) (dpTeamID d))" "recCommand rc = cmdID cm" "trCommandHash (team_record.rcTransition rc) \<noteq> h"
    and c: "apAcknowledge c"
  shows "commitCompletion B cfg d page c w = (Inl (TeamFail ErrCommandConflict), w)"
proof -
  have sys: "team.sys (woTeams w)" using w by (simp add: world_ok_def)
  have n: "mpNext page > 0" using m(2) by (rule order_le_less_trans [OF word_zero_le])
  have "execute E TS (beTeam B p) (dpTeamID d) cm (AcknowledgeMessages (mpNext page)) (woTeams w) =
      (Inl ErrCommandConflict, woTeams w)" for p
    using team.execute_replays [OF sys _ _ _ k cm(2) h rc(1,2), of "beTeam B p"] rc(3)
    by (simp add: stillD [OF q])
  then have ex: "teamExecute B p (dpTeamID d) cm (AcknowledgeMessages (mpNext page)) w =
      (Inl (TeamFail ErrCommandConflict), w)" for p
    by (simp add: teamExecute_def backendD [OF B] onTeam_def)
  have "acknowledge B cfg d page j t w = (Inl (TeamFail ErrCommandConflict), w)" for j
    using m cm(1) ex by (simp add: acknowledge_def runThen_def runPure_def not_le)
  then have "commitCompletionCommand B ''ack'' 0 (dpTeamID d) (acknowledge B cfg d page) w =
      (Inl (TeamFail ErrCommandConflict), w)"
    using teamGet_still [OF B q w k cur(1)] cur(2)
    by (simp add: commitCompletionCommand_def attemptCompletionConflictLimit_def numeral_eq_Suc)
  then show ?thesis using c n by (simp add: commitCompletion_def acknowledgeAll_def runThen_def)
qed

end

interpretation memrt: attempt_runtime E "memory_ops E" "mem_inv E" memLog "mem_room E"
    "cont_memory_ops enc" "cmem_inv enc" memLog_c "cmem_room enc" for E enc
  by (intro attempt_runtime.intro mem.team_store_axioms cmem.cont_store_axioms)

end
