(* ===== verification/TeamScript.thy ===== *)
theory TeamScript
  imports TeamScenario
begin

section \<open>Team: the log of a scripted run\<close>

text \<open>
  The log of a list of commands on the in-memory store, computed from the snapshots alone: the checks
  of \<open>scriptsOk\<close> are those of \<open>execute_commits\<close>, so the store holds exactly the records of \<open>logRun\<close>.
\<close>

context team_store
begin

lemma execute_cas:
  assumes q: "\<And>p s. ceItf ce p s = s" "\<And>p. ceCtx ce p = None"
    and run: "execute E S ce k cm cmd s = (r, s')"
  shows "s' = s \<or> (\<exists>n rc. s' = snd (opCas S None k n rc s))"
proof -
  have c: "s2 = snd (opCas S None k (cmdExpected cm) nx s)" if "commitRecord E S ce k cm h nx s = (r2, s2)" for h nx r2 s2
    using that q by (auto simp: commitRecord_def Let_def split: prod.splits option.splits if_splits sum.splits)
  from run q show ?thesis
    by (auto simp: execute_def applyCommand_def Let_def dest!: c split: option.splits sum.splits if_splits)
qed

end

subsection \<open>The log after a list of commands\<close>

definition roomy_demo :: "mem_store \<Rightarrow> bool" where
  "roomy_demo s \<longleftrightarrow> msLimits s = default_store_limits \<and> bytesOf s ''team'' = 101 * len (memLog s ''team'')"

lemma roomy_demo_cas:
  assumes inv: "mem_inv demoEnv s" and r: "roomy_demo s"
  shows "roomy_demo (snd (opCas (memory_ops demoEnv) None ''team'' n rc s))"
proof (cases "fst (memCas demoEnv None ''team'' n rc s)")
  case (Some e)
  then have "snd (memCas demoEnv None ''team'' n rc s) = s"
    using memCas_fail [of demoEnv None "''team''" n rc s e] by (cases "memCas demoEnv None ''team'' n rc s") auto
  with r show ?thesis by (simp add: memory_ops_def)
next
  case None
  then obtain s' where c: "memCas demoEnv None ''team'' n rc s = (None, s')"
    by (cases "memCas demoEnv None ''team'' n rc s") auto
  have "msLimits s' = msLimits s \<and> bytesOf s' ''team'' = bytesOf s ''team'' + 101"
    using c by (auto simp: memCas_def Let_def demoEnv_def encodedRecord_def bytesOf_def update_conv'
        split: option.splits sum.splits if_splits)
  with memCas_ok [OF inv c] r c show ?thesis
    by (simp add: memory_ops_def roomy_demo_def len_def)
qed

lemma roomy_demo_room: "roomy_demo s \<Longrightarrow> len (memLog s ''team'') \<le> 1000 \<Longrightarrow> mem_room demoEnv s ''team'' rc"
  by (simp add: roomy_demo_def mem_room_def demoEnv_def default_store_limits_def)

type_synonym scripted = "string \<times> string \<times> actor \<times> team_command"

definition recOf :: "int \<Rightarrow> u64 \<Rightarrow> scripted \<Rightarrow> team \<Rightarrow> team_record" where
  "recOf n v x t = (case x of (c, ev, a, cmd) \<Rightarrow>
     nextRecord ''team'' (meta c a v) (projr (commandHash demoEnv (commandOperation cmd) ''team'' a (commandSemantic cmd)))
       t (GTime n 0) (fst (projr (demoOut t a cmd n))) (snd (projr (demoOut t a cmd n))) ev)"

text \<open>
  The checks of one command, with the identifiers the log already has. A message that answers none is
  only looked up itself.
\<close>

definition plainSend :: "team_command \<Rightarrow> string list \<Rightarrow> bool" where
  "plainSend cmd ms = (case cmd of SendMessage r \<Rightarrow> srReplyToID r = [] \<and> srMessageID r \<notin> set ms | _ \<Rightarrow> True)"

definition scriptOk :: "int \<Rightarrow> u64 \<Rightarrow> scripted \<Rightarrow> team \<Rightarrow> string list \<Rightarrow> string list \<Rightarrow> string list \<Rightarrow> bool" where
  "scriptOk n v x t cs es ms = (case x of (c, ev, a, cmd) \<Rightarrow>
     plainSend cmd ms \<and> commandCheck cmd = None \<and> validateCommand (meta c a v) False = None \<and> teRevision t = v \<and>
     c \<notin> set cs \<and> ev \<notin> set es \<and> safeID ev \<and> teRevision t + 1 \<noteq> 0 \<and> instant (teUpdatedAt t) \<le> n \<and> 0 < n \<and>
     \<not> isl (commandHash demoEnv (commandOperation cmd) ''team'' a (commandSemantic cmd)) \<and> \<not> isl (demoOut t a cmd n))"

lemma plainSend_mutation:
  assumes "plainSend cmd ms" "\<And>mk. mk \<notin> set ms \<Longrightarrow> load mk = Inl ErrNotFound"
  shows "commandMutation E cmd a load = commandMutation E cmd a (\<lambda>mk. Inl ErrNotFound)"
  using assms by (cases cmd)
    (auto simp: sendMessage_def fun_eq_iff plainSend_def messageFresh_def replyTarget_def cong: option.case_cong)

lemma script_commit:
  assumes sys: "system_ok demoEnv (mem_inv demoEnv) memLog s" and log: "memLog s ''team'' = rs" "rs \<noteq> []"
    and t: "rcTeam (last rs) = t" and ids: "map recCommand rs = cs" "map recEvent rs = es" "map gID (messagesOf rs) = ms"
    and ok: "scriptOk n v (c, ev, a, cmd) t cs es ms" and room: "roomy_demo s" "length rs \<le> 100"
  shows "\<exists>s'. execute demoEnv (memory_ops demoEnv) (quiet n ev) ''team'' (meta c a v) cmd s =
      (Inr (recOf n v (c, ev, a, cmd) t), s') \<and>
    memLog s' = (memLog s)(''team'' := rs @ [recOf n v (c, ev, a, cmd) t]) \<and> roomy_demo s' \<and>
    system_ok demoEnv (mem_inv demoEnv) memLog s'"
proof -
  let ?nx = "recOf n v (c, ev, a, cmd) t"
  let ?h = "projr (commandHash demoEnv (commandOperation cmd) ''team'' a (commandSemantic cmd))"
  let ?load = "\<lambda>mk. of_opt ErrNotFound (recordMessage (memLog s ''team'') mk)"
  note k = ok [unfolded scriptOk_def, simplified]
  have h: "commandHash demoEnv (commandOperation cmd) ''team'' (cmdActor (meta c a v)) (commandSemantic cmd) = Inr ?h"
    using k by (cases "commandHash demoEnv (commandOperation cmd) ''team'' a (commandSemantic cmd)") (auto simp: meta_def)
  have "mk \<notin> set ms \<Longrightarrow> ?load mk = Inl ErrNotFound" for mk
    using recordMessage_None [of rs mk] ids(3) by (auto simp: log simp flip: set_map)
  from plainSend_mutation [OF conjunct1 [OF k] this]
  have mu: "commandMutation demoEnv cmd (cmdActor (meta c a v)) ?load (rcTeam (last rs)) (utc (TeamEngine.ceNow (quiet n ev))) =
      Inr (fst (projr (demoOut t a cmd n)), snd (projr (demoOut t a cmd n)))"
    using demoOut_ok [of t a cmd n] k by (simp add: meta_def t utc_def)
  have l: "later (rcTeam (last rs)) (TeamEngine.ceNow (quiet n ev))"
    using k by (auto simp: later_def t isZero_def less_eq_gtime_def)
  have rm: "mem_room demoEnv s ''team'' ?nx"
    using roomy_demo_room [OF room(1)] room(2) by (simp add: log len_def)
  have new: "c \<notin> recCommand ` set rs" "ev \<notin> recEvent ` set rs" using k ids by (auto simp flip: set_map)
  let ?cm = "meta c a v"
  have cm: "cmdID ?cm = c" "cmdExpected ?cm = v" by (simp_all add: meta_def)
  have "\<exists>s'. execute demoEnv (memory_ops demoEnv) (quiet n ev) ''team'' ?cm cmd s = (Inr ?nx, s') \<and>
      memLog s' = (memLog s)(''team'' := memLog s ''team'' @ [?nx])"
    by (rule mem.execute_commits [OF sys _ _ demo_hash_ok _ demoJoin_checks(3) _ h, where cur = "last rs", OF _ _ _ _ _ _ _ _ mu])
      (use k log new l rm cm in \<open>auto simp: recOf_def utc_def t\<close>)
  then obtain s' where run: "execute demoEnv (memory_ops demoEnv) (quiet n ev) ''team'' ?cm cmd s = (Inr ?nx, s')"
    and ml: "memLog s' = (memLog s)(''team'' := memLog s ''team'' @ [?nx])" by blast
  moreover have "roomy_demo s'"
    using mem.execute_cas [OF _ _ run] roomy_demo_cas [OF mem.sys_inv [OF sys] room(1)] room(1) by auto
  moreover have "system_ok demoEnv (mem_inv demoEnv) memLog s'"
    using mem.execute_spec [OF sys quiet_ok run] by (elim conjE) (rule extends_sys)
  ultimately show ?thesis using log by auto
qed

text \<open>The scripted run on the log, and its checks.\<close>

definition sentID :: "int \<Rightarrow> scripted \<Rightarrow> team \<Rightarrow> string list" where
  "sentID n x t = (case x of (c, ev, a, cmd) \<Rightarrow>
     (case tfDelta (snd (projr (demoOut t a cmd n))) of None \<Rightarrow> [] | Some g \<Rightarrow> [gID g]))"

definition afterTeam :: "int \<Rightarrow> scripted \<Rightarrow> team \<Rightarrow> team" where
  "afterTeam n x t = (case x of (c, ev, a, cmd) \<Rightarrow> nextTeam t (fst (projr (demoOut t a cmd n))) (GTime n 0))"

fun logRun :: "int \<Rightarrow> u64 \<Rightarrow> scripted list \<Rightarrow> team \<Rightarrow> team_record list" where
  "logRun n v [] t = []"
| "logRun n v (x # xs) t = recOf n v x t # logRun (n + 10) (v + 1) xs (afterTeam n x t)"

fun teamRun :: "int \<Rightarrow> scripted list \<Rightarrow> team \<Rightarrow> team" where
  "teamRun n [] t = t"
| "teamRun n (x # xs) t = teamRun (n + 10) xs (afterTeam n x t)"

fun scriptsOk :: "int \<Rightarrow> u64 \<Rightarrow> scripted list \<Rightarrow> team \<Rightarrow> string list \<Rightarrow> string list \<Rightarrow> string list \<Rightarrow> bool" where
  "scriptsOk n v [] t cs es ms \<longleftrightarrow> True"
| "scriptsOk n v (x # xs) t cs es ms \<longleftrightarrow> scriptOk n v x t cs es ms \<and>
     scriptsOk (n + 10) (v + 1) xs (afterTeam n x t) (cs @ [fst x]) (es @ [fst (snd x)]) (ms @ sentID n x t)"

lemma recOf_simps [simp]:
  "rcTeam (recOf n v x t) = afterTeam n x t" "recCommand (recOf n v x t) = fst x"
  "recEvent (recOf n v x t) = fst (snd x)"
  "map gID (messagesOf (rs @ [recOf n v x t])) = map gID (messagesOf rs) @ sentID n x t"
  by (auto simp: recOf_def afterTeam_def sentID_def meta_def split: prod.splits option.splits)

theorem script_log:
  assumes "system_ok demoEnv (mem_inv demoEnv) memLog s" "memLog s ''team'' = rs" "rs \<noteq> []"
    and "rcTeam (last rs) = t" "map recCommand rs = cs" "map recEvent rs = es" "map gID (messagesOf rs) = ms"
    and "scriptsOk n v xs t cs es ms" "roomy_demo s" "length rs + length xs \<le> 100"
  shows "memLog (demoRun n v xs s) ''team'' = rs @ logRun n v xs t \<and> roomy_demo (demoRun n v xs s) \<and>
    rcTeam (last (rs @ logRun n v xs t)) = teamRun n xs t"
  using assms
proof (induction xs arbitrary: n v s t rs cs es ms)
  case Nil
  then show ?case by simp
next
  case (Cons x xs)
  obtain c ev a cmd where x: "x = (c, ev, a, cmd)" by (metis prod.exhaust)
  let ?nx = "recOf n v x t"
  have "scriptOk n v (c, ev, a, cmd) t cs es ms" "length rs \<le> 100" using Cons.prems(8,10) x by auto
  from script_commit [OF Cons.prems(1-7) this(1) Cons.prems(9) this(2)]
  obtain s' where ex: "execute demoEnv (memory_ops demoEnv) (quiet n ev) ''team'' (meta c a v) cmd s = (Inr ?nx, s')"
    and ml: "memLog s' ''team'' = rs @ [?nx]" and ok: "roomy_demo s'" "system_ok demoEnv (mem_inv demoEnv) memLog s'"
    by (auto simp: x)
  have "memLog (demoRun (n + 10) (v + 1) xs s') ''team'' = (rs @ [?nx]) @ logRun (n + 10) (v + 1) xs (afterTeam n x t) \<and>
      roomy_demo (demoRun (n + 10) (v + 1) xs s') \<and>
      rcTeam (last ((rs @ [?nx]) @ logRun (n + 10) (v + 1) xs (afterTeam n x t))) = teamRun (n + 10) xs (afterTeam n x t)"
    by (rule Cons.IH [OF ok(2) ml _ _ _ _ recOf_simps(4) _ ok(1)]) (use Cons.prems in auto)
  then show ?case using ex by (simp add: x)
qed

end
