(* ===== verification/RuntimeScenario.thy ===== *)
theory RuntimeScenario
  imports RuntimeLaws TeamPages TeamScript ContScenario
begin

section \<open>The attempt runtime: a concrete world\<close>

text \<open>
  The Team of \<open>TeamScenario\<close> with one running attempt, two messages to its worker of which the first is
  acknowledged, by the command \<open>ack\<close>; its child is the completed execution of \<open>ContScenario\<close>.
\<close>

definition attemptCommands :: "scripted list" where
  "attemptCommands =
    [(''c3'', ''e3'', asMember ''lead'', CreateTask (taskRequest ''a'' [])),
     (''c4'', ''e4'', asMember ''w'', ClaimTask ''a''),
     (''c5'', ''e5'', coordinator, StartTaskAttempt ''a'' ''a1'' ''job''),
     (''c6'', ''e6'', asMember ''lead'', SendMessage demoMessage),
     (''ack'', ''e7'', asMember ''w'', AcknowledgeMessages 1),
     (''c8'', ''e8'', asMember ''lead'', SendMessage (demoMessage\<lparr>srMessageID := ''m2''\<rparr>))]"

definition attemptStore :: mem_store where
  "attemptStore = demoRun 30 2 attemptCommands joinedStore"

definition attemptTeam :: team where
  "attemptTeam = teamRun 30 attemptCommands (demoTeam 1)"

definition attemptWorld :: "(mem_store, cont_mem) world" where
  "attemptWorld = \<lparr>woTeams = attemptStore, woConts = job2 ActionComplete\<rparr>"

definition attemptBackend :: "(mem_store, cont_mem) backend" where
  "attemptBackend = \<lparr>beEnv = demoEnv, beTeams = memory_ops demoEnv, beConts = jobOps,
     beTeam = (\<lambda>_. quiet 90 ''e9''), beCont = (\<lambda>_. calm 90 ''x''), beDrive = (\<lambda>_ _. calm 90 ''x'')\<rparr>"

definition attemptConfig :: runtime_config where
  "attemptConfig = \<lparr>rcoCoordinator = coordinator, rcoWorkerRef = ref ''w'', rcoControllerRef = ref ''c'',
     rcoController = Some completeAfterWork, rcoLimits = jobLimits, rcoMaxAdvances = 4, rcoGate = None,
     rcoCommands = (\<lambda>c. Inr (acAction c)), rcoTargetKind = ''team_task_attempt''\<rparr>"

definition attemptRequest :: run_request where
  "attemptRequest = \<lparr>rqTeamID = ''team'', rqTaskID = ''a'', rqAttemptID = ''a1'', rqContinuationID = ''job''\<rparr>"

definition attemptWorkers :: worker_factory where
  "attemptWorkers inp = Inr \<lparr>paWorker = Some (\<lambda>q. (jobResult, None)), paInput = Some ''1''\<rparr>"

definition attemptCompletion :: "bool \<Rightarrow> attempt_completion" where
  "attemptCompletion b = \<lparr>apOutcome = AttemptOutcomeCompleted, apResult = Some ''2'', apArtifacts = [], apReason = [],
     apAcknowledge = b, apMessages = []\<rparr>"

definition attemptProjector :: "bool \<Rightarrow> projector" where
  "attemptProjector b inp e = Inr (attemptCompletion b)"

subsection \<open>The Team's log\<close>

lemma joined_roomy: "roomy_demo joinedStore"
proof -
  have c: "roomy_demo createdStore" unfolding roomy_demo_def len_def
    by (simp add: created_log) code_simp
  obtain r where run: "execute demoEnv (memory_ops demoEnv) (quiet 20 ''e2'') ''team''
    (meta ''c2'' coordinator 1) demoJoin createdStore = (r, joinedStore)"
    unfolding joinedStore_step by (metis prod.collapse)
  have "joinedStore = createdStore \<or> (\<exists>n rc. joinedStore = snd (TeamStore.opCas (memory_ops demoEnv) None ''team'' n rc createdStore))"
    by (rule mem.execute_cas [OF _ _ run]) simp_all
  then show ?thesis
  proof (elim disjE exE)
    fix n rc
    assume j: "joinedStore = snd (TeamStore.opCas (memory_ops demoEnv) None ''team'' n rc createdStore)"
    show ?thesis unfolding j by (rule roomy_demo_cas [OF mem.sys_inv [OF createdStore_ok] c])
  qed (simp add: c)
qed

lemma attempt_script: "scriptsOk 30 2 attemptCommands (demoTeam 1) [''c1'', ''c2''] [''e1'', ''e2''] []"
  by code_simp

lemma demoRec2_facts: "rcTeam demoRec2 = demoTeam 1" "rcMessage demoRec2 = None"
  by code_simp+

lemma attempt_log: "memLog attemptStore ''team'' = [demoRec1, demoRec2] @ logRun 30 2 attemptCommands (demoTeam 1)"
  "rcTeam (last (memLog attemptStore ''team'')) = attemptTeam" "roomy_demo attemptStore"
proof -
  have "length [demoRec1, demoRec2] + length attemptCommands \<le> 100" by (simp add: attemptCommands_def)
  from script_log [OF joinedStore_ok joined_log _ _ _ _ _ _ joined_roomy this, of "demoTeam 1"] attempt_script
  show "memLog attemptStore ''team'' = [demoRec1, demoRec2] @ logRun 30 2 attemptCommands (demoTeam 1)"
    "rcTeam (last (memLog attemptStore ''team'')) = attemptTeam" "roomy_demo attemptStore"
    by (simp_all add: demoRec2_facts attemptStore_def attemptTeam_def)
qed

lemma attemptStore_ok: "system_ok demoEnv (mem_inv demoEnv) memLog attemptStore"
  unfolding attemptStore_def by (rule demoRun_ok [OF joinedStore_ok])

lemma attemptWorld_ok: "world_ok demoEnv (mem_inv demoEnv) memLog (cmem_inv jobEnc) memLog_c attemptWorld"
  by (simp add: world_ok_def attemptWorld_def attemptStore_ok job2_sys)

subsection \<open>The run up to the completion\<close>

definition attemptTask :: task where
  "attemptTask = hd (teTasks attemptTeam)"

definition attemptDispatch :: dispatch where
  "attemptDispatch = dispatchFor attemptTeam attemptTask (hd (tAttempts attemptTask))"

definition attemptPage :: message_page where
  "attemptPage = \<lparr>mpMessages = inbox ''w'' 1 (memLog attemptStore ''team''), mpNext = 2\<rparr>"

definition attemptMember :: member where
  "attemptMember = fst (the (findMember attemptTeam ''w''))"

lemma attemptTeam_facts:
  "findTask attemptTeam ''a'' = Some (attemptTask, 0)" "tStatus attemptTask = TaskStatusRunning"
  "findAttempt attemptTask ''a1'' = Some (hd (tAttempts attemptTask))"
  "atContinuation (hd (tAttempts attemptTask)) = ''job''" "atStatus (hd (tAttempts attemptTask)) = AttemptStatusRunning"
  "findMember attemptTeam ''w'' = Some (attemptMember, 1)" "mAcknowledged attemptMember = 1"
  "dpMemberID attemptDispatch = ''w''" "dpTeamID attemptDispatch = ''team''"
  "dpContinuationID attemptDispatch = ''job''" "teRevision attemptTeam = 8"
  by code_simp+

lemma attempt_inbox: "map gSequence (inbox ''w'' 1 ([demoRec1, demoRec2] @ logRun 30 2 attemptCommands (demoTeam 1))) = [2]"
  by code_simp

lemma attempt_child: "engineGet_c jobOps (calm 90 ''x'') ''job'' (job2 ActionComplete) =
    (Inr (jobExec (job2 ActionComplete)), job2 ActionComplete)"
  by code_simp

lemma attemptBackend_simps [simp]: "beEnv attemptBackend = demoEnv" "beTeams attemptBackend = memory_ops demoEnv"
  "beConts attemptBackend = jobOps" "beTeam attemptBackend p = quiet 90 ''e9''" "beCont attemptBackend p = calm 90 ''x''"
  "beDrive attemptBackend k n = calm 90 ''x''"
  by (simp_all add: attemptBackend_def)

lemma attemptBackend_ok:
  "backend_ok demoEnv (memory_ops demoEnv) (mem_inv demoEnv) memLog jobOps (cmem_inv jobEnc) memLog_c attemptBackend"
  unfolding backend_ok_def by (simp add: quiet_ok calm_rely)

lemma attempt_still: "still_teams attemptBackend"
  by (simp add: still_teams_def)

lemma attempt_i64: "workers_i64 attemptConfig attemptWorkers"
  by (simp add: workers_i64_def handlers_i64_def attemptHandlers_def attemptConfig_def attemptWorkers_def jobResult_def
      completeAfterWork_def zero_decision_def zero_usage_def i64_usage_def)

lemma attempt_get: "teamGet attemptBackend p ''team'' attemptWorld = (Inr attemptTeam, attemptWorld)"
proof -
  have "memLog (woTeams attemptWorld) ''team'' \<noteq> []" by (simp add: attemptWorld_def attempt_log(1))
  from memrt.teamGet_still [OF attemptBackend_ok attempt_still attemptWorld_ok demoJoin_checks(3) this]
  show ?thesis by (simp add: attemptWorld_def attempt_log(2) del: attemptBackend_simps)
qed

lemma attempt_start: "startOrResume attemptBackend attemptConfig attemptRequest attemptWorld =
    (Inr (attemptDispatch, attemptTeam), attemptWorld)"
  by (simp add: startOrResume_def runThen_def runPure_def attemptRequest_def attempt_get attemptTeam_facts attemptDispatch_def)

lemma attempt_mailbox: "teamMailbox attemptBackend p ''team'' ''w'' \<lparr>moAfter = 1, moLimit = min (MaxMessages (teLimits attemptTeam)) 1000\<rparr>
    attemptWorld = (Inr attemptPage, attemptWorld)"
proof -
  let ?o = "\<lparr>moAfter = 1, moLimit = min (MaxMessages (teLimits attemptTeam)) 1000\<rparr>"
  let ?in = "inbox ''w'' 1 (memLog attemptStore ''team'')"
  have ne: "memLog attemptStore ''team'' \<noteq> []" by (simp add: attempt_log(1))
  have w: "validateSafeID ''w'' = None" by code_simp
  have o: "validateMailboxOptions ?o = Inr ?o" "1 \<le> moLimit ?o" by code_simp+
  have m: "map gSequence ?in = [2]" unfolding attempt_log(1) by (rule attempt_inbox)
  then obtain g where g: "?in = [g]" "gSequence g = 2" by (auto simp: map_eq_Cons_conv)
  have z: "[g] = take (nat (moLimit ?o)) (inbox ''w'' (moAfter ?o) (memLog attemptStore ''team''))" using g o(2) by simp
  have "findMember (rcTeam (last (memLog attemptStore ''team''))) ''w'' = Some (attemptMember, 1)"
    by (simp add: attempt_log(2) attemptTeam_facts)
  from mailbox_page [OF attemptStore_ok ne quiet_simps(4,1) demoJoin_checks(3) w o(1) this z]
  have "engineMailbox demoEnv (memory_ops demoEnv) (quiet 90 ''e9'') ''team'' ''w'' ?o attemptStore = Inr attemptPage"
    by (simp add: attemptPage_def g)
  then show ?thesis by (simp add: teamMailbox_def attemptWorld_def onTeam_def)
qed

lemma attempt_begin: "beginRun attemptBackend attemptConfig attemptWorkers attemptRequest attemptWorld =
    (Inr (attemptTeam, \<lparr>aiDispatch = attemptDispatch, aiMailbox = attemptPage\<rparr>, jobExec (job2 ActionComplete), None), attemptWorld)"
proof -
  have c: "contGet attemptBackend p ''job'' attemptWorld = (Inr (jobExec (job2 ActionComplete)), attemptWorld)" for p
    by (simp add: contGet_def attemptWorld_def attempt_child onCont_def)
  have "findChild attemptBackend attemptConfig attemptWorkers \<lparr>aiDispatch = attemptDispatch, aiMailbox = attemptPage\<rparr> attemptWorld =
      (Inr (jobExec (job2 ActionComplete), None), attemptWorld)"
    by (simp add: findChild_def c attemptTeam_facts)
  then show ?thesis unfolding beginRun_def
    by (simp add: runThen_def attempt_start attemptTeam_facts attempt_mailbox runPure_def Let_def)
       (simp add: attemptRequest_def attempt_mailbox runThen_def runPure_def)
qed

subsection \<open>The completion\<close>

lemma attempt_terminal: "terminal (exStatus (jobExec (job2 ActionComplete)))"
  by code_simp

lemma attempt_finish_ok: "scriptOk 90 8 (''finish'', ''e9'', coordinator,
    FinishTaskAttempt (finishRequest attemptDispatch (attemptCompletion False))) attemptTeam
    [''c1'', ''c2'', ''c3'', ''c4'', ''c5'', ''c6'', ''ack'', ''c8''] [''e1'', ''e2'', ''e3'', ''e4'', ''e5'', ''e6'', ''e7'', ''e8'']
    [''m1'', ''m2'']"
  by code_simp

lemma attempt_ids: "map recCommand (memLog attemptStore ''team'') = [''c1'', ''c2'', ''c3'', ''c4'', ''c5'', ''c6'', ''ack'', ''c8'']"
  "map recEvent (memLog attemptStore ''team'') = [''e1'', ''e2'', ''e3'', ''e4'', ''e5'', ''e6'', ''e7'', ''e8'']"
  "map gID (messagesOf (memLog attemptStore ''team'')) = [''m1'', ''m2'']"
  unfolding attempt_log(1) by code_simp+

text \<open>Without acknowledgement the run finishes; the record of its finish command is the last.\<close>

definition attemptResult :: run_result where
  "attemptResult = \<lparr>rrTeam = afterTeam 90 (''finish'', ''e9'', coordinator,
      FinishTaskAttempt (finishRequest attemptDispatch (attemptCompletion False))) attemptTeam,
     rrDispatch = attemptDispatch, rrMailbox = attemptPage, rrExecution = jobExec (job2 ActionComplete),
     rrAdvances = 0, rrYield = None, rrFinished = True\<rparr>"

lemma attempt_run_finishes:
  "\<exists>w. attemptRun attemptBackend attemptConfig attemptWorkers (attemptProjector False) attemptRequest attemptWorld =
     ((Some attemptResult, None), w)"
proof -
  let ?f = "(''finish'', ''e9'', coordinator, FinishTaskAttempt (finishRequest attemptDispatch (attemptCompletion False)))"
  have ne: "memLog attemptStore ''team'' \<noteq> []" by (simp add: attempt_log(1))
  have "length (memLog attemptStore ''team'') \<le> 100"
    using arg_cong [OF attempt_ids(1), of length] by simp
  from script_commit [OF attemptStore_ok refl ne attempt_log(2) attempt_ids attempt_finish_ok attempt_log(3) this]
  obtain s where ex: "execute demoEnv (memory_ops demoEnv) (quiet 90 ''e9'') ''team'' (meta ''finish'' coordinator 8)
      (FinishTaskAttempt (finishRequest attemptDispatch (attemptCompletion False))) attemptStore =
      (Inr (recOf 90 8 ?f attemptTeam), s)" by blast
  have coo: "rcoCoordinator attemptConfig = coordinator" by (simp add: attemptConfig_def)
  have cm: "attemptCommand attemptConfig ''finish'' (requestOf attemptDispatch) [] 8 coordinator =
      Inr (meta ''finish'' coordinator 8)"
    by (simp add: attemptCommand_def attemptConfig_def meta_def)
  have "finishOne attemptBackend attemptConfig attemptDispatch (attemptCompletion False) i attemptTeam attemptWorld =
      (Inr (afterTeam 90 ?f attemptTeam), attemptWorld\<lparr>woTeams := s\<rparr>)" for i
    using cm ex coo by (simp add: finishOne_def runThen_def runPure_def attemptTeam_facts)
      (simp add: runThen_def runPure_def teamExecute_def onTeam_def attemptWorld_def)
  then have "commitCompletion attemptBackend attemptConfig attemptDispatch attemptPage (attemptCompletion False) attemptWorld =
      (Inr (afterTeam 90 ?f attemptTeam), attemptWorld\<lparr>woTeams := s\<rparr>)"
    by (simp add: commitCompletion_def runThen_def runPure_def acknowledgeAll_def attemptCompletion_def
        commitCompletionCommand_def attemptCompletionConflictLimit_def numeral_eq_Suc attemptTeam_facts attempt_get)
  then show ?thesis
    by (simp add: attemptRun_def attempt_begin driveChild_def attempt_terminal finishRun_def attemptProjector_def
        attemptResult_def Let_def)
qed

text \<open>The acknowledgement on the log was for the first message.\<close>

lemma attempt_ack:
  "validateSafeID (dpTeamID attemptDispatch) = None" "memLog (woTeams attemptWorld) (dpTeamID attemptDispatch) \<noteq> []"
  "attemptTeam = rcTeam (last (memLog (woTeams attemptWorld) (dpTeamID attemptDispatch)))"
  "findMember attemptTeam (dpMemberID attemptDispatch) = Some (attemptMember, Suc 0)"
  "mAcknowledged attemptMember < mpNext attemptPage" "apAcknowledge (attemptCompletion True)"
  "attemptCommand attemptConfig ''ack'' (requestOf attemptDispatch) [] (teRevision attemptTeam)
     (memberActor (dpMemberID attemptDispatch)) = Inr (meta ''ack'' (asMember ''w'') 8)"
  "validateCommand (meta ''ack'' (asMember ''w'') 8) False = None"
  "commandHash demoEnv ''acknowledge_messages'' (dpTeamID attemptDispatch) (cmdActor (meta ''ack'' (asMember ''w'') 8))
     (SemAck (mpNext attemptPage)) = Inr (replicate 64 (CHR ''1''))"
  "memLog attemptStore ''team'' ! 6 \<in> set (memLog (woTeams attemptWorld) (dpTeamID attemptDispatch))"
  "recCommand (memLog attemptStore ''team'' ! 6) = cmdID (meta ''ack'' (asMember ''w'') 8)"
  "trCommandHash (team_record.rcTransition (memLog attemptStore ''team'' ! 6)) \<noteq> replicate 64 (CHR ''1'')"
proof -
  note f = attemptTeam_facts attempt_log(2) attemptWorld_def
  have l: "length (memLog attemptStore ''team'') = 8" using arg_cong [OF attempt_ids(1), of length] by simp
  show "validateSafeID (dpTeamID attemptDispatch) = None" using demoJoin_checks(3) by (simp add: f)
  show "memLog (woTeams attemptWorld) (dpTeamID attemptDispatch) \<noteq> []" using l by (auto simp: f)
  show "attemptTeam = rcTeam (last (memLog (woTeams attemptWorld) (dpTeamID attemptDispatch)))" by (simp add: f)
  show "findMember attemptTeam (dpMemberID attemptDispatch) = Some (attemptMember, Suc 0)" by (simp add: f)
  show "mAcknowledged attemptMember < mpNext attemptPage" by (simp add: f attemptPage_def)
  show "apAcknowledge (attemptCompletion True)" by (simp add: attemptCompletion_def)
  show "attemptCommand attemptConfig ''ack'' (requestOf attemptDispatch) [] (teRevision attemptTeam)
     (memberActor (dpMemberID attemptDispatch)) = Inr (meta ''ack'' (asMember ''w'') 8)"
    by (simp add: f attemptCommand_def attemptConfig_def meta_def memberActor_def asMember_def)
  show "validateCommand (meta ''ack'' (asMember ''w'') 8) False = None" by code_simp
  show "commandHash demoEnv ''acknowledge_messages'' (dpTeamID attemptDispatch) (cmdActor (meta ''ack'' (asMember ''w'') 8))
     (SemAck (mpNext attemptPage)) = Inr (replicate 64 (CHR ''1''))"
    by (simp add: f attemptPage_def) code_simp
  show "memLog attemptStore ''team'' ! 6 \<in> set (memLog (woTeams attemptWorld) (dpTeamID attemptDispatch))"
    using l by (simp add: f)
  show "recCommand (memLog attemptStore ''team'' ! 6) = cmdID (meta ''ack'' (asMember ''w'') 8)"
    using nth_map [of 6 "memLog attemptStore ''team''" recCommand] l by (simp add: attempt_ids(1) meta_def)
  show "trCommandHash (team_record.rcTransition (memLog attemptStore ''team'' ! 6)) \<noteq> replicate 64 (CHR ''1'')"
    unfolding attempt_log(1) by code_simp
qed

end
