(* ===== verification/RuntimeClaims.thy ===== *)
theory RuntimeClaims
  imports RuntimeScenario
begin

section \<open>The attempt runtime: properties\<close>

text \<open>
  The properties of \<^verbatim>\<open>attempt_runtime.go\<close> over the two in-memory stores; they are the facts of the
  locale \<open>attempt_runtime\<close> at its interpretation \<open>memrt\<close>. The witnesses run \<open>RuntimeScenario\<close>.
\<close>

text \<open>
  C6. Whatever others do to the two stores while \<open>Run\<close> is under way, and whether or not it returns an
  error, both logs only grew, by valid records. A result it returns names the requested Team, task and
  attempt; and when it says \<open>Finished\<close>, the execution in it is terminal and a record of the
  continuation's log, and its Team is the one a record of the Team's log holds that the derived
  finish command wrote, with the hash of exactly the completion the projector made of that execution.
\<close>

theorem run_result_is_durable:
  assumes "backend_ok E (memory_ops E) (mem_inv E) memLog (cont_memory_ops enc) (cmem_inv enc) memLog_c B"
    and "workers_i64 cfg fac" and "world_ok E (mem_inv E) memLog (cmem_inv enc) memLog_c w"
    and "attemptRun B cfg fac proj q w = ((ro, err), w')"
  shows "world_ext E (mem_inv E) memLog (cmem_inv enc) memLog_c w w' \<and>
    (\<forall>r. ro = Some r \<longrightarrow> result_true E memLog memLog_c cfg proj q r w' \<and> (rrFinished r \<longrightarrow> err = None))"
  using assms by (rule memrt.run_spec)

text \<open>A run that finishes: the child is complete, and the finish command is the next record of the Team.\<close>

theorem run_result_is_durable_witness:
  "\<exists>w. attemptRun attemptBackend attemptConfig attemptWorkers (attemptProjector False) attemptRequest attemptWorld =
     ((Some attemptResult, None), w) \<and>
     finish_committed demoEnv memLog attemptConfig attemptDispatch (attemptCompletion False) (rrTeam attemptResult) w \<and>
     child_on memLog_c (jobExec (job2 ActionComplete)) w"
proof -
  obtain w where run: "attemptRun attemptBackend attemptConfig attemptWorkers (attemptProjector False) attemptRequest
      attemptWorld = ((Some attemptResult, None), w)" using attempt_run_finishes by blast
  from run_result_is_durable [OF attemptBackend_ok attempt_i64 attemptWorld_ok run]
  have "result_true demoEnv memLog memLog_c attemptConfig (attemptProjector False) attemptRequest attemptResult w" by simp
  with run show ?thesis by (auto simp: result_true_def attemptResult_def attemptProjector_def)
qed

text \<open>
  C17. The identifier of the acknowledgement command names the attempt and not the sequence. When the
  Team's log holds that identifier with the hash of another request, as after a run that acknowledged
  an earlier message and was then interrupted, completing the attempt fails with \<open>ErrCommandConflict\<close>
  before anything is written, although nobody else is at work: the conflict of commands is none the loop
  tries again, and since logs only grow, every later completion of the attempt fails too.
\<close>

theorem second_acknowledgement_conflicts:
  assumes "backend_ok E (memory_ops E) (mem_inv E) memLog (cont_memory_ops enc) (cmem_inv enc) memLog_c B"
    and "still_teams B" and "world_ok E (mem_inv E) memLog (cmem_inv enc) memLog_c w"
    and "validateSafeID (dpTeamID d) = None" and "memLog (woTeams w) (dpTeamID d) \<noteq> []"
    and "t = rcTeam (last (memLog (woTeams w) (dpTeamID d)))"
    and "findMember t (dpMemberID d) = Some (m, i)" and "mAcknowledged m < mpNext page" and "apAcknowledge c"
    and "attemptCommand cfg ''ack'' (requestOf d) [] (teRevision t) (memberActor (dpMemberID d)) = Inr cm"
    and "validateCommand cm False = None"
    and "commandHash E (commandOperation (AcknowledgeMessages (mpNext page))) (dpTeamID d) (cmdActor cm)
      (commandSemantic (AcknowledgeMessages (mpNext page))) = Inr h"
    and "rc \<in> set (memLog (woTeams w) (dpTeamID d))" and "recCommand rc = cmdID cm"
    and "trCommandHash (team_record.rcTransition rc) \<noteq> h"
  shows "commitCompletion B cfg d page c w = (Inl (TeamFail ErrCommandConflict), w)"
  using assms by (intro memrt.ack_conflict)

theorem second_acknowledgement_conflicts_witness:
  "commitCompletion attemptBackend attemptConfig attemptDispatch attemptPage (attemptCompletion True) attemptWorld =
     (Inl (TeamFail ErrCommandConflict), attemptWorld)"
  by (rule second_acknowledgement_conflicts [OF attemptBackend_ok attempt_still attemptWorld_ok, where t = attemptTeam
        and m = attemptMember and i = "Suc 0" and rc = "memLog attemptStore ''team'' ! 6" and h = "replicate 64 (CHR ''1'')"
        and cm = "meta ''ack'' (asMember ''w'') 8"])
    (rule attempt_ack | simp add: attempt_ack(9))+

end
