(* ===== verification/FlowTypes.thy ===== *)
theory FlowTypes
  imports Prelude
begin

section \<open>Workflow: definitions, nodes and plans\<close>

text \<open>
  What the compiler and the scheduler of \<^verbatim>\<open>workflow\<close> share. A value is its canonical JSON, a schema its
  canonical text (\<^verbatim>\<open>value.go\<close>, \<^verbatim>\<open>schema.go\<close>); the schema library and the reading of JSON are in
  \<open>flow_env\<close>. A Go map of ports is an association list with distinct keys. A compiler diagnostic keeps
  its code, its place and its format string, without the values printed into it.
\<close>

type_synonym ports = "(string \<times> string) list"

datatype binding_source =
  BindingLiteral | BindingWorkflowInput | BindingNodeOutput | BindingNodeError | BindingLoopVariable
| BindingOther string

record flow_binding =
  fbSource :: binding_source
  fbNode :: string
  fbPort :: string
  fbPath :: "string list"
  fbValue :: "string option"

datatype error_action = ErrorStop | ErrorRoute | ErrorContinueWithDefault | ErrorOther string

record node_policy =
  npTimeout :: int
  npMaxAttempts :: int
  npBackoff :: int
  npError :: error_action
  npDefaults :: "ports option"

datatype merge_mode = MergeExclusive | MergeParallel | MergeOther string

text \<open>The configuration of a compiled Merge: its outputs with their schema and sources.\<close>

record merge_config =
  mcVersion :: string
  mcMode :: merge_mode
  mcOutputs :: "(string \<times> string \<times> string list) list"

text \<open>\<^verbatim>\<open>NodeSpec\<close>, and a node of a definition with what its type compiled it to.\<close>

record node_spec =
  nsInputs :: ports
  nsOutputs :: ports
  nsRoutes :: "string list"

record node_definition =
  ndID :: string
  ndName :: string
  ndType :: string
  ndVersion :: string
  ndConfig :: string
  ndInputs :: "(string \<times> flow_binding) list"
  ndPolicy :: node_policy

record plan_node =
  pnDefinition :: node_definition
  pnSpec :: node_spec
  pnBindings :: "(string \<times> flow_binding) list"
  pnMerge :: "merge_config option"

record plan_edge =
  peFrom :: nat
  peTo :: nat
  peRoute :: string

record control_edge =
  ceFrom :: string
  ceRoute :: string
  ceTo :: string

record workflow_input =
  wiSchema :: string
  wiRequired :: bool
  wiDefault :: "string option"

record flow_limits =
  flMaxConcurrency :: int
  flMaxSteps :: int

record workflow_definition =
  dfSchema :: string
  dfID :: string
  dfRevision :: string
  dfName :: string
  dfInputs :: "(string \<times> workflow_input) list"
  dfOutputs :: "(string \<times> string \<times> flow_binding) list"
  dfNodes :: "node_definition list"
  dfEdges :: "control_edge list"
  dfLimits :: flow_limits

record flow_plan =
  plDefinition :: workflow_definition
  plNodes :: "plan_node list"
  plEdges :: "plan_edge list"
  plIncoming :: "nat list list"
  plOutgoing :: "nat list list"
  plStart :: nat
  plEnd :: nat
  plBefore :: "nat list"
  plAfter :: "nat list"

definition RouteSuccess :: string where "RouteSuccess = ''success''"
definition RouteError :: string where "RouteError = ''error''"
definition NodeTypeStart :: string where "NodeTypeStart = ''start''"
definition NodeTypeEnd :: string where "NodeTypeEnd = ''end''"
definition NodeTypeMerge :: string where "NodeTypeMerge = ''merge''"
definition MergeNodeVersionV2 :: string where "MergeNodeVersionV2 = ''v2''"

text \<open>Compiler diagnostics.\<close>

datatype issue_code =
  InvalidDefinition | InvalidInterrupt | InvalidReference | UnknownNodeType | InvalidNodeConfig | InvalidNodeSpec | InvalidControlPath | InvalidGraph | InvalidBinding

datatype issue_place = AtDefinition | AtNode string | AtPath string string string

record flow_issue =
  isCode :: issue_code
  isPlace :: issue_place
  isText :: string

definition nodeFailure :: "issue_code \<Rightarrow> string \<Rightarrow> string \<Rightarrow> flow_issue list" where
  "nodeFailure c n x = [\<lparr>isCode = c, isPlace = AtNode n, isText = x\<rparr>]"

definition definitionFailure :: "issue_code \<Rightarrow> string \<Rightarrow> flow_issue list" where
  "definitionFailure c x = [\<lparr>isCode = c, isPlace = AtDefinition, isText = x\<rparr>]"

definition controlPathFailure :: "issue_code \<Rightarrow> control_edge \<Rightarrow> string \<Rightarrow> flow_issue list" where
  "controlPathFailure c e x = [\<lparr>isCode = c, isPlace = AtPath (ceFrom e) (ceRoute e) (ceTo e), isText = x\<rparr>]"

text \<open>A diagnostic made only under a condition; a collector concatenates diagnostics.\<close>

definition issue_if :: "bool \<Rightarrow> flow_issue list \<Rightarrow> flow_issue list" where
  "issue_if b xs = (if b then xs else [])"

lemma issue_if_Nil [chk, simp]: "issue_if b xs = [] \<longleftrightarrow> b \<longrightarrow> xs = []"
  by (simp add: issue_if_def)

lemma failure_not_Nil [simp]: "nodeFailure c n x \<noteq> []" "definitionFailure c x \<noteq> []" "controlPathFailure c e x \<noteq> []"
  by (simp_all add: nodeFailure_def definitionFailure_def controlPathFailure_def)

text \<open>What a plan keeps outside the definition, written as the code reads it.\<close>

abbreviation nodeID :: "plan_node \<Rightarrow> string" where
  "nodeID nd \<equiv> ndID (pnDefinition nd)"

abbreviation nodeType :: "plan_node \<Rightarrow> string" where
  "nodeType nd \<equiv> ndType (pnDefinition nd)"

abbreviation nodePolicy :: "plan_node \<Rightarrow> node_policy" where
  "nodePolicy nd \<equiv> ndPolicy (pnDefinition nd)"

abbreviation isMerge :: "plan_node \<Rightarrow> bool" where
  "isMerge nd \<equiv> nodeType nd = NodeTypeMerge"

abbreviation nodeCount :: "flow_plan \<Rightarrow> nat" where
  "nodeCount p \<equiv> length (plNodes p)"

abbreviation nodeAt :: "flow_plan \<Rightarrow> nat \<Rightarrow> plan_node" where
  "nodeAt p i \<equiv> plNodes p ! i"

abbreviation edgeAt :: "flow_plan \<Rightarrow> nat \<Rightarrow> plan_edge" where
  "edgeAt p j \<equiv> plEdges p ! j"

text \<open>\<^verbatim>\<open>Plan.nodeIndex\<close>, a map that keeps the last node with an identifier.\<close>

definition nodeIndex :: "flow_plan \<Rightarrow> string \<Rightarrow> nat option" where
  "nodeIndex p k = map_of (rev (zip (map nodeID (plNodes p)) [0..<nodeCount p])) k"

text \<open>Values and schemas by their text.\<close>

definition isNull :: "string \<Rightarrow> bool" where
  "isNull v \<longleftrightarrow> (case v of [] \<Rightarrow> False | c # _ \<Rightarrow> c = CHR ''n'')"

definition schemaCompatible :: "string \<Rightarrow> string \<Rightarrow> bool" where
  "schemaCompatible source target \<longleftrightarrow> target \<noteq> [] \<and> target = source \<or> target = ''true''"

end
