(* ===== verification/FlowDefinition.thy ===== *)
theory FlowDefinition
  imports FlowTypes GoText
begin

section \<open>Workflow: the shape of a definition\<close>

text \<open>
  \<^verbatim>\<open>workflow/definition.go\<close>: the checks \<^verbatim>\<open>DecodeDefinition\<close> makes on a decoded definition, and
  \<^verbatim>\<open>input.go\<close>: how the inputs of a run are completed with their defaults. An error is its text without
  the values printed into it. Decoding makes absent collections nil; here they are empty lists, so
  the check that they are present is not modelled. \<open>validate\<close> is \<^verbatim>\<open>PortSchema.Validate\<close>.
\<close>

definition maxDefinitionNodes :: int where "maxDefinitionNodes = 256"
definition maxDefinitionEdges :: int where "maxDefinitionEdges = 1024"
definition maxConfigBytes :: int where "maxConfigBytes = 256 * 1024"
definition SchemaV1Alpha1 :: string where "SchemaV1Alpha1 = ''pips.workflow/v1alpha1''"
definition SchemaV1Alpha2 :: string where "SchemaV1Alpha2 = ''pips.workflow/v1alpha2''"

text \<open>The pattern of an identifier: a letter or digit, then at most 127 of these, dots, underscores, slashes, dashes.\<close>

definition isAlnum :: "char \<Rightarrow> bool" where
  "isAlnum c \<longleftrightarrow> c \<in> {CHR ''A''..CHR ''Z''} \<or> c \<in> {CHR ''a''..CHR ''z''} \<or> c \<in> {CHR ''0''..CHR ''9''}"

definition validIdentifier :: "string \<Rightarrow> bool" where
  "validIdentifier k \<longleftrightarrow> (case k of [] \<Rightarrow> False
     | c # cs \<Rightarrow> isAlnum c \<and> length cs \<le> 127 \<and> list_all (\<lambda>x. isAlnum x \<or> x \<in> set ''._/-'') cs)"

subsection \<open>Bindings\<close>

definition validNodeErrorPort :: "string \<Rightarrow> bool" where
  "validNodeErrorPort q \<longleftrightarrow> q = ''error_message'' \<or> q = ''error_type''"

definition validateBindingPath :: "string list \<Rightarrow> string option" where
  "validateBindingPath path =
     fail_if (\<exists>x \<in> set path. x = [] \<or> length x > 128) ''invalid path segment''"

definition validateBindingSource :: "flow_binding \<Rightarrow> string option" where
  "validateBindingSource b = (case fbSource b of
       BindingLiteral \<Rightarrow> fail_if (fbValue b = None \<or> fbValue b = Some [] \<or> fbNode b \<noteq> [] \<or> fbPort b \<noteq> [])
         ''literal binding requires only value''
     | BindingWorkflowInput \<Rightarrow> fail_if (fbValue b \<noteq> None \<or> fbNode b \<noteq> [] \<or> \<not> validIdentifier (fbPort b))
         ''workflow input binding requires only port''
     | BindingNodeOutput \<Rightarrow> fail_if (fbValue b \<noteq> None \<or> \<not> validIdentifier (fbNode b) \<or> \<not> validIdentifier (fbPort b))
         ''node output binding requires node and port''
     | BindingNodeError \<Rightarrow> fail_if (fbValue b \<noteq> None \<or> \<not> validIdentifier (fbNode b) \<or> \<not> validNodeErrorPort (fbPort b))
         ''node error binding requires node and a known error port''
     | BindingLoopVariable \<Rightarrow> fail_if (fbValue b \<noteq> None \<or> fbNode b \<noteq> [] \<or> \<not> validIdentifier (fbPort b))
         ''loop variable binding requires only port''
     | BindingOther _ \<Rightarrow> Some ''unknown binding source'')"

definition validateBinding :: "flow_binding \<Rightarrow> string option" where
  "validateBinding b = first_err [validateBindingPath (fbPath b), validateBindingSource b]"

subsection \<open>Policies and limits\<close>

definition validateNodePolicyBounds :: "node_policy \<Rightarrow> string option" where
  "validateNodePolicyBounds q = first_err
     [fail_if (npTimeout q < 0 \<or> npTimeout q > 86400000) ''timeout_ms must be between 0 and 86400000'',
      fail_if (npMaxAttempts q < 0 \<or> npMaxAttempts q > 10) ''max_attempts must be between 0 and 10'',
      fail_if (npBackoff q < 0 \<or> npBackoff q > 3600000) ''backoff_ms must be between 0 and 3600000'']"

definition defaultPorts :: "node_policy \<Rightarrow> ports" where
  "defaultPorts q = (case npDefaults q of None \<Rightarrow> [] | Some d \<Rightarrow> d)"

definition validateNodeErrorAction :: "node_policy \<Rightarrow> string option" where
  "validateNodeErrorAction q = (case npError q of
       ErrorOther x \<Rightarrow> if x = [] then fail_if (defaultPorts q \<noteq> []) ''default outputs require continue_with_default''
         else Some ''unknown error action''
     | ErrorContinueWithDefault \<Rightarrow> fail_if (defaultPorts q = []) ''continue_with_default requires default outputs''
     | _ \<Rightarrow> fail_if (defaultPorts q \<noteq> []) ''default outputs require continue_with_default'')"

definition validateNodePolicy :: "node_policy \<Rightarrow> string option" where
  "validateNodePolicy q = first_err
     [validateNodePolicyBounds q, validateNodeErrorAction q,
      fail_if (\<exists>(n, v) \<in> set (defaultPorts q). \<not> validIdentifier n \<or> v = []) ''invalid default output'']"

definition validateLimits :: "flow_limits \<Rightarrow> string option" where
  "validateLimits l = first_err
     [fail_if (flMaxConcurrency l \<le> 0 \<or> flMaxConcurrency l > maxDefinitionNodes) ''max concurrency must be between 1 and 256'',
      fail_if (flMaxSteps l \<le> 0 \<or> flMaxSteps l > 1000000) ''max steps must be between 1 and 1000000'']"

subsection \<open>Inputs\<close>

text \<open>\<^verbatim>\<open>effectiveWorkflowInputDefault\<close>: a null default is none.\<close>

definition effectiveDefault :: "workflow_input \<Rightarrow> string option" where
  "effectiveDefault w = (case wiDefault w of Some v \<Rightarrow> if isNull v then None else Some v | None \<Rightarrow> None)"

definition nullValue :: string where "nullValue = ''null''"

definition validateWorkflowInputContract ::
    "(string \<Rightarrow> string \<Rightarrow> string option) \<Rightarrow> string \<Rightarrow> string \<Rightarrow> workflow_input \<Rightarrow> string option" where
  "validateWorkflowInputContract validate schema name w = first_err
     [fail_if (\<not> validIdentifier name \<or> wiSchema w = []) ''invalid input'',
      fail_if (schema = SchemaV1Alpha1 \<and> (\<not> wiRequired w \<or> effectiveDefault w \<noteq> None)) ''v1alpha1 input must be required without a default'',
      (case effectiveDefault w of Some v \<Rightarrow> fail_if (validate (wiSchema w) v \<noteq> None) ''input default'' | None \<Rightarrow> None),
      fail_if (\<not> wiRequired w \<and> effectiveDefault w = None \<and> validate (wiSchema w) nullValue \<noteq> None)
        ''optional input without a default must accept null'']"

definition inputValueIsEmpty :: "string \<Rightarrow> bool" where
  "inputValueIsEmpty v \<longleftrightarrow> v = [CHR 0x22, CHR 0x22] \<or> v = ''[]'' \<or> v = ''{}''"

text \<open>\<^verbatim>\<open>Value.Kind\<close>, as the byte that decides it.\<close>

datatype value_kind = ValueInvalid | ValueNull | ValueBool | ValueNumber | ValueString | ValueArray | ValueObject

definition kindOf :: "string \<Rightarrow> value_kind" where
  "kindOf v = (case v of [] \<Rightarrow> ValueInvalid | c # _ \<Rightarrow>
     if c = CHR ''n'' then ValueNull
     else if c = CHR ''t'' \<or> c = CHR ''f'' then ValueBool
     else if c = CHR 0x22 then ValueString
     else if c = CHR ''['' then ValueArray
     else if c = CHR ''{'' then ValueObject
     else ValueNumber)"

definition normalizeWorkflowInputValue :: "workflow_input \<Rightarrow> string option \<Rightarrow> string + string" where
  "normalizeWorkflowInputValue w value = (case value of
       None \<Rightarrow> if wiRequired w then Inl ''is missing''
         else Inr (case effectiveDefault w of None \<Rightarrow> nullValue | Some d \<Rightarrow> d)
     | Some v \<Rightarrow> (case effectiveDefault w of
           Some d \<Rightarrow> Inr (if inputValueIsEmpty v \<and> kindOf v = kindOf d then d else v)
         | None \<Rightarrow> Inr v))"

fun normalizeInputs :: "(string \<times> workflow_input) list \<Rightarrow> ports \<Rightarrow> string + ports" where
  "normalizeInputs [] values = Inr []"
| "normalizeInputs ((name, w) # cs) values =
     bindE (normalizeWorkflowInputValue w (map_of values name))
       (\<lambda>v. bindE (normalizeInputs cs values) (\<lambda>vs. Inr ((name, v) # vs)))"

text \<open>
  \<^verbatim>\<open>normalizeWorkflowInputs\<close> with every input in scope: a value is given for declared ports only, then
  every port gets its value or its default, which its schema must accept.
\<close>

definition normalizeWorkflowInputs ::
    "(string \<Rightarrow> string \<Rightarrow> string option) \<Rightarrow> (string \<times> workflow_input) list \<Rightarrow> ports option \<Rightarrow> string + ports" where
  "normalizeWorkflowInputs validate contracts given = (case given of
       None \<Rightarrow> Inl ''nil values''
     | Some values \<Rightarrow>
         guardE (fail_if (\<exists>(n, v) \<in> set values. map_of contracts n = None) ''unknown port'')
           (guardE (fail_if (\<exists>(n, v) \<in> set values. v = []) ''invalid value'')
             (bindE (normalizeInputs contracts values) (\<lambda>vs.
               guardE (fail_if (\<exists>(n, v) \<in> set vs. \<exists>w. map_of contracts n = Some w \<and> validate (wiSchema w) v \<noteq> None) ''schema violation'')
                 (Inr vs)))))"

subsection \<open>Definitions\<close>

definition validateDefinitionIdentity :: "workflow_definition \<Rightarrow> string option" where
  "validateDefinitionIdentity d = first_err
     [fail_if (dfSchema d \<noteq> SchemaV1Alpha1 \<and> dfSchema d \<noteq> SchemaV1Alpha2) ''unsupported schema'',
      fail_if (\<not> validIdentifier (dfID d)) ''invalid definition id'',
      fail_if (\<not> validIdentifier (dfRevision d)) ''invalid revision'',
      fail_if (blank (dfName d) \<or> length (dfName d) > 256) ''invalid name'']"

definition validateDefinitionSize :: "workflow_definition \<Rightarrow> string option" where
  "validateDefinitionSize d = first_err
     [fail_if (dfNodes d = [] \<or> int (length (dfNodes d)) > maxDefinitionNodes) ''node count must be between 1 and 256'',
      fail_if (int (length (dfEdges d)) > maxDefinitionEdges) ''edge count exceeds 1024'']"

definition validateDefinitionPorts :: "(string \<Rightarrow> string \<Rightarrow> string option) \<Rightarrow> workflow_definition \<Rightarrow> string option" where
  "validateDefinitionPorts validate d = first_err
     (map (\<lambda>(n, w). validateWorkflowInputContract validate (dfSchema d) n w) (dfInputs d) @
      map (\<lambda>(n, s, b). first_err [fail_if (\<not> validIdentifier n \<or> s = []) ''invalid output'', validateBinding b]) (dfOutputs d))"

definition validateNodeDefinition :: "node_definition \<Rightarrow> string option" where
  "validateNodeDefinition nd = first_err
     ([fail_if (\<not> validIdentifier (ndID nd) \<or> \<not> validIdentifier (ndType nd) \<or> \<not> validIdentifier (ndVersion nd)) ''invalid node identity'',
       fail_if (length (ndName nd) > 256 \<or> int (length (ndConfig nd)) > maxConfigBytes) ''node name or config exceeds limit''] @
      map (\<lambda>(n, b). first_err [fail_if (\<not> validIdentifier n) ''node has invalid input'', validateBinding b]) (ndInputs nd) @
      [validateNodePolicy (ndPolicy nd)])"

fun validateNodeList :: "node_definition list \<Rightarrow> string list \<Rightarrow> string option" where
  "validateNodeList [] seen = None"
| "validateNodeList (nd # nds) seen = first_err
     [fail_if (ndID nd \<in> set seen) ''duplicate node id'', validateNodeDefinition nd, validateNodeList nds (ndID nd # seen)]"

definition validateDefinitionEdges :: "control_edge list \<Rightarrow> string option" where
  "validateDefinitionEdges es =
     fail_if (\<exists>e \<in> set es. \<not> validIdentifier (ceFrom e) \<or> \<not> validIdentifier (ceRoute e) \<or> \<not> validIdentifier (ceTo e)) ''invalid control edge''"

definition validateDefinitionNodes :: "workflow_definition \<Rightarrow> string option" where
  "validateDefinitionNodes d = first_err [validateNodeList (dfNodes d) [], validateDefinitionEdges (dfEdges d)]"

definition validateDefinitionShape :: "(string \<Rightarrow> string \<Rightarrow> string option) \<Rightarrow> workflow_definition \<Rightarrow> string option" where
  "validateDefinitionShape validate d = first_err
     [validateDefinitionIdentity d, validateDefinitionSize d, validateLimits (dfLimits d),
      validateDefinitionPorts validate d, validateDefinitionNodes d]"

subsection \<open>What an accepted definition has\<close>

lemma validateNodeList_None:
  "validateNodeList nds seen = None \<longleftrightarrow>
     distinct (map ndID nds) \<and> set (map ndID nds) \<inter> set seen = {} \<and> (\<forall>nd \<in> set nds. validateNodeDefinition nd = None)"
  by (induction nds arbitrary: seen) auto

lemma definition_shape:
  assumes "validateDefinitionShape V d = None"
  shows "distinct (map ndID (dfNodes d))" "0 < flMaxConcurrency (dfLimits d)" "0 < flMaxSteps (dfLimits d)"
    "\<And>nd. nd \<in> set (dfNodes d) \<Longrightarrow> validateNodePolicy (ndPolicy nd) = None"
proof -
  have n: "validateNodeList (dfNodes d) [] = None" and l: "validateLimits (dfLimits d) = None"
    using assms by (simp_all add: validateDefinitionShape_def validateDefinitionNodes_def)
  show "distinct (map ndID (dfNodes d))" using n by (simp add: validateNodeList_None)
  show "0 < flMaxConcurrency (dfLimits d)" "0 < flMaxSteps (dfLimits d)"
    using l by (simp_all add: validateLimits_def)
  fix nd assume "nd \<in> set (dfNodes d)"
  with n have "validateNodeDefinition nd = None" by (simp add: validateNodeList_None)
  then show "validateNodePolicy (ndPolicy nd) = None"
    by (simp add: validateNodeDefinition_def first_err_None)
qed

lemma normalizeInputs_keys: "normalizeInputs cs values = Inr vs \<Longrightarrow> map fst vs = map fst cs"
  by (induction cs arbitrary: vs) (auto simp: okE)

end
