(* ===== verification/FlowGraph.thy ===== *)
theory FlowGraph
  imports FlowDefinition
begin

section \<open>Workflow: the control graph of a plan\<close>

text \<open>
  \<^verbatim>\<open>workflow/compiler_graph.go\<close>, the edges and end points of \<^verbatim>\<open>compiler_node.go\<close>, and the searches of
  \<^verbatim>\<open>compiler_binding.go\<close>. The checks return their diagnostics, none when they pass. An index out of
  range would panic in the searches; edges made by \<open>compileEdges\<close> have none, and the searches here
  pass over them.
\<close>

subsection \<open>Edges\<close>

definition routeAllowed :: "flow_plan \<Rightarrow> nat \<Rightarrow> string \<Rightarrow> bool" where
  "routeAllowed p i r \<longleftrightarrow> (if r = RouteError then npError (nodePolicy (nodeAt p i)) = ErrorRoute
     else r \<in> set (nsRoutes (pnSpec (nodeAt p i))))"

text \<open>The key under which \<^verbatim>\<open>compileEdges\<close> looks for duplicates.\<close>

definition edgeIdentity :: "control_edge \<Rightarrow> string" where
  "edgeIdentity e = ceFrom e @ ''/'' @ ceRoute e @ ''/'' @ ceTo e"

fun compileEdgeList :: "flow_plan \<Rightarrow> control_edge list \<Rightarrow> string list \<Rightarrow> plan_edge list \<Rightarrow> flow_issue list \<times> plan_edge list" where
  "compileEdgeList p [] seen acc = ([], acc)"
| "compileEdgeList p (e # es) seen acc = (case (nodeIndex p (ceFrom e), nodeIndex p (ceTo e)) of
     (Some a, Some b) \<Rightarrow>
       let (issues, edges) = compileEdgeList p es (edgeIdentity e # seen) (acc @ [\<lparr>peFrom = a, peTo = b, peRoute = ceRoute e\<rparr>])
       in (issue_if (a = b) (controlPathFailure InvalidControlPath e ''node has a self edge'') @
           issue_if (\<not> routeAllowed p a (ceRoute e)) (controlPathFailure InvalidControlPath e ''unknown route'') @
           issue_if (edgeIdentity e \<in> set seen) (controlPathFailure InvalidControlPath e ''duplicate control edge'') @ issues, edges)
   | (a, b) \<Rightarrow>
       let (issues, edges) = compileEdgeList p es seen acc
       in (issue_if (a = None) (controlPathFailure InvalidControlPath e ''references unknown source node'') @
           issue_if (b = None) (controlPathFailure InvalidControlPath e ''references unknown target node'') @ issues, edges))"

definition edgeIndexes :: "(plan_edge \<Rightarrow> nat) \<Rightarrow> plan_edge list \<Rightarrow> nat \<Rightarrow> nat list list" where
  "edgeIndexes side edges n = map (\<lambda>i. filter (\<lambda>j. side (edges ! j) = i) [0..<length edges]) [0..<n]"

definition compileEdges :: "flow_plan \<Rightarrow> flow_issue list + flow_plan" where
  "compileEdges p = (let (issues, edges) = compileEdgeList p (dfEdges (plDefinition p)) [] []
     in if issues \<noteq> [] then Inl issues
        else Inr (p\<lparr>plEdges := edges, plIncoming := edgeIndexes peTo edges (nodeCount p),
          plOutgoing := edgeIndexes peFrom edges (nodeCount p)\<rparr>))"

subsection \<open>Degrees and routes\<close>

definition incoming :: "flow_plan \<Rightarrow> nat \<Rightarrow> nat list" where
  "incoming p i = plIncoming p ! i"

definition outgoing :: "flow_plan \<Rightarrow> nat \<Rightarrow> nat list" where
  "outgoing p i = plOutgoing p ! i"

definition hasOutgoingRoute :: "flow_plan \<Rightarrow> nat \<Rightarrow> string \<Rightarrow> bool" where
  "hasOutgoingRoute p i r \<longleftrightarrow> (\<exists>j \<in> set (outgoing p i). peRoute (edgeAt p j) = r)"

definition validateEndpointDegree :: "flow_plan \<Rightarrow> nat \<Rightarrow> flow_issue list" where
  "validateEndpointDegree p i = (let k = nodeID (nodeAt p i); ins = length (incoming p i); outs = length (outgoing p i)
     in if i = plStart p \<and> ins \<noteq> 0 then nodeFailure InvalidGraph k ''Start must not have incoming edges''
        else if i \<noteq> plStart p \<and> ins = 0 then nodeFailure InvalidGraph k ''non-Start node requires an incoming edge''
        else if i = plEnd p \<and> outs \<noteq> 0 then nodeFailure InvalidGraph k ''End must not have outgoing edges''
        else issue_if (i \<noteq> plEnd p \<and> outs = 0) (nodeFailure InvalidGraph k ''non-End node requires an outgoing edge''))"

definition validateFanIn :: "flow_plan \<Rightarrow> nat \<Rightarrow> flow_issue list" where
  "validateFanIn p i = (let nd = nodeAt p i; k = nodeID nd; ins = length (incoming p i)
     in if isMerge nd \<and> ins < 2 then nodeFailure InvalidGraph k ''Merge requires at least two incoming edges''
        else issue_if (\<not> isMerge nd \<and> ins > 1) (nodeFailure InvalidGraph k ''multiple incoming edges require Merge''))"

definition validateNodeDegree :: "flow_plan \<Rightarrow> nat \<Rightarrow> flow_issue list" where
  "validateNodeDegree p i = validateEndpointDegree p i @ validateFanIn p i"

definition validateGraphNode :: "flow_plan \<Rightarrow> nat \<Rightarrow> flow_issue list" where
  "validateGraphNode p i = (let nd = nodeAt p i; k = nodeID nd
     in validateNodeDegree p i @
        issue_if (npError (nodePolicy nd) = ErrorRoute \<and> \<not> hasOutgoingRoute p i RouteError)
          (nodeFailure InvalidGraph k ''route_error requires an error edge'') @
        concat (map (\<lambda>r. issue_if (i \<noteq> plEnd p \<and> \<not> hasOutgoingRoute p i r)
          (nodeFailure InvalidGraph k ''route has no outgoing edge'')) (nsRoutes (pnSpec nd))))"

subsection \<open>The topological order\<close>

text \<open>The inner loop: the edges out of a node take one off the degree of their targets.\<close>

fun lowerDegrees :: "flow_plan \<Rightarrow> nat list \<Rightarrow> int list \<Rightarrow> nat list \<Rightarrow> int list \<times> nat list" where
  "lowerDegrees p [] degrees ready = (degrees, ready)"
| "lowerDegrees p (j # js) degrees ready =
     (let b = peTo (edgeAt p j); d = degrees ! b - 1
      in lowerDegrees p js (degrees[b := d]) (if b < length degrees \<and> d = 0 then ready @ [b] else ready))"

definition positives :: "int list \<Rightarrow> nat" where
  "positives ds = length (filter (\<lambda>d. 0 < d) ds)"

lemma positives_update:
  "i < length ds \<Longrightarrow> positives (ds[i := d]) + (if 0 < ds ! i then 1 else 0) = positives ds + (if 0 < d then 1 else 0)"
proof (induction ds arbitrary: i)
  case Nil
  then show ?case by simp
next
  case (Cons x xs)
  then show ?case by (cases i) (auto simp: positives_def)
qed

lemma lowerDegrees_measure:
  "lowerDegrees p js degrees ready = (degrees', ready') \<Longrightarrow>
     positives degrees' + length ready' \<le> positives degrees + length ready"
proof (induction p js degrees ready rule: lowerDegrees.induct)
  case (1 p degrees ready)
  then show ?case by simp
next
  case (2 p j js degrees ready)
  define b d where "b = peTo (edgeAt p j)" and "d = degrees ! b - 1"
  from "2.prems" have r: "lowerDegrees p js (degrees[b := d]) (if b < length degrees \<and> d = 0 then ready @ [b] else ready) = (degrees', ready')"
    by (simp only: lowerDegrees.simps Let_def b_def d_def)
  from "2.IH" [OF b_def d_def r]
  have "positives degrees' + length ready' \<le> positives (degrees[b := d]) + length (if b < length degrees \<and> d = 0 then ready @ [b] else ready)" .
  also have "\<dots> \<le> positives degrees + length ready"
  proof (cases "b < length degrees")
    case True
    have "0 < degrees ! b \<longleftrightarrow> 0 < d \<or> d = 0" by (auto simp: d_def)
    with positives_update [OF True, of d] show ?thesis by (auto split: if_splits)
  next
    case False
    then show ?thesis by (simp add: list_update_beyond)
  qed
  finally show ?case .
qed

text \<open>The ready list is sorted in every round; its head is the next node of the order.\<close>

function topologicalLoop :: "flow_plan \<Rightarrow> int list \<Rightarrow> nat list \<Rightarrow> nat list \<Rightarrow> nat list" where
  "topologicalLoop p degrees [] order = order"
| "topologicalLoop p degrees (r # rs) order =
     (let i = hd (sort (r # rs)); (degrees', ready) = lowerDegrees p (outgoing p i) degrees (tl (sort (r # rs)))
      in topologicalLoop p degrees' ready (order @ [i]))"
  by pat_completeness auto

termination
proof (relation "measure (\<lambda>(p, degrees, ready, order). positives degrees + length ready)", goal_cases)
  case 1
  show ?case by simp
next
  case (2 p degrees r rs order i x degrees' ready)
  have "positives degrees' + length ready \<le> positives degrees + length (tl (sort (r # rs)))"
    using lowerDegrees_measure 2 by metis
  then show ?case by simp
qed

definition startDegrees :: "flow_plan \<Rightarrow> int list" where
  "startDegrees p = map (\<lambda>i. int (length (incoming p i))) [0..<nodeCount p]"

definition topologicalOrder :: "flow_plan \<Rightarrow> nat list option" where
  "topologicalOrder p =
     (let order = topologicalLoop p (startDegrees p) (filter (\<lambda>i. length (incoming p i) = 0) [0..<nodeCount p]) []
      in if length order \<noteq> nodeCount p then None else Some order)"

subsection \<open>Searches\<close>

text \<open>
  The breadth-first searches. \<open>visited\<close> lists the nodes marked so far; a node is marked when it enters
  the queue, except in \<open>routeSearch\<close>, which marks it when it leaves.
\<close>

fun enqueue :: "nat \<Rightarrow> nat list \<Rightarrow> nat list \<Rightarrow> nat list \<Rightarrow> nat list \<times> nat list" where
  "enqueue n [] visited queue = (visited, queue)"
| "enqueue n (v # vs) visited queue =
     (if v < n \<and> v \<notin> set visited then enqueue n vs (v # visited) (queue @ [v]) else enqueue n vs visited queue)"

definition unseen :: "nat \<Rightarrow> nat list \<Rightarrow> nat" where
  "unseen n visited = card ({..<n} - set visited)"

lemma unseen_Cons: "v < n \<Longrightarrow> v \<notin> set visited \<Longrightarrow> Suc (unseen n (v # visited)) = unseen n visited"
  unfolding unseen_def by (simp add: card_Diff_insert card_gt_0_iff) (metis DiffI Suc_pred card_gt_0_iff empty_iff finite_Diff finite_lessThan lessThan_iff)

lemma enqueue_measure:
  "enqueue n vs visited queue = (visited', queue') \<Longrightarrow>
     unseen n visited' + length queue' = unseen n visited + length queue"
proof (induction vs arbitrary: visited queue)
  case Nil
  then show ?case by simp
next
  case (Cons v vs)
  show ?case
  proof (cases "v < n \<and> v \<notin> set visited")
    case True
    with Cons.prems have "enqueue n vs (v # visited) (queue @ [v]) = (visited', queue')" by simp
    from Cons.IH [OF this] unseen_Cons [of v n visited] True show ?thesis by simp
  next
    case False
    with Cons show ?thesis by (simp split: if_splits)
  qed
qed

text \<open>The nodes one edge away, along the edges or against them.\<close>

definition nexts :: "flow_plan \<Rightarrow> nat \<Rightarrow> nat list" where
  "nexts p i = map (\<lambda>j. peTo (edgeAt p j)) (outgoing p i)"

definition prevs :: "flow_plan \<Rightarrow> nat \<Rightarrow> nat list" where
  "prevs p i = map (\<lambda>j. peFrom (edgeAt p j)) (incoming p i)"

function walkLoop :: "nat \<Rightarrow> (nat \<Rightarrow> nat list) \<Rightarrow> nat list \<Rightarrow> nat list \<Rightarrow> nat list" where
  "walkLoop n adjacent visited [] = visited"
| "walkLoop n adjacent visited (c # queue) =
     (let (visited', queue') = enqueue n (adjacent c) visited queue in walkLoop n adjacent visited' queue')"
  by pat_completeness auto

termination
proof (relation "measure (\<lambda>(n, a, visited, queue). unseen n visited + length queue)", goal_cases)
  case 1
  show ?case by simp
next
  case (2 n adjacent visited c queue x visited' queue')
  then have "enqueue n (adjacent c) visited queue = (visited', queue')" by simp
  from enqueue_measure [OF this] show ?case by simp
qed

definition walk :: "flow_plan \<Rightarrow> nat \<Rightarrow> (nat \<Rightarrow> nat list) \<Rightarrow> nat \<Rightarrow> bool" where
  "walk p start adjacent i \<longleftrightarrow> i \<in> set (walkLoop (nodeCount p) adjacent [start] [start])"

text \<open>\<^verbatim>\<open>reachable\<close> returns as soon as an edge leads to the target.\<close>

function reachableLoop :: "nat \<Rightarrow> (nat \<Rightarrow> nat list) \<Rightarrow> nat \<Rightarrow> nat list \<Rightarrow> nat list \<Rightarrow> bool" where
  "reachableLoop n adjacent target visited [] = False"
| "reachableLoop n adjacent target visited (c # queue) =
     (target \<in> set (adjacent c) \<or>
      (let (visited', queue') = enqueue n (adjacent c) visited queue in reachableLoop n adjacent target visited' queue'))"
  by pat_completeness auto

termination
proof (relation "measure (\<lambda>(n, a, t, visited, queue). unseen n visited + length queue)", goal_cases)
  case 1
  show ?case by simp
next
  case (2 n adjacent target visited c queue x visited' queue')
  then have "enqueue n (adjacent c) visited queue = (visited', queue')" by simp
  from enqueue_measure [OF this] show ?case by simp
qed

definition reachable :: "flow_plan \<Rightarrow> nat \<Rightarrow> nat \<Rightarrow> bool" where
  "reachable p source target \<longleftrightarrow> source = target \<or> reachableLoop (nodeCount p) (nexts p) target [source] [source]"

function routeSearch :: "nat \<Rightarrow> (nat \<Rightarrow> nat list) \<Rightarrow> nat \<Rightarrow> nat list \<Rightarrow> nat list \<Rightarrow> bool" where
  "routeSearch n adjacent target visited [] = False"
| "routeSearch n adjacent target visited (c # queue) =
     (if c = target then True
      else if \<not> c < n \<or> c \<in> set visited then routeSearch n adjacent target visited queue
      else routeSearch n adjacent target (c # visited) (queue @ adjacent c))"
  by pat_completeness auto

termination
proof (relation "measures [\<lambda>(n, a, t, visited, queue). unseen n visited, \<lambda>(n, a, t, visited, queue). length queue]", goal_cases)
  case 1
  show ?case by simp
next
  case 2
  then show ?case by simp
next
  case (3 n adjacent target visited c queue)
  then have "Suc (unseen n (c # visited)) = unseen n visited" by (intro unseen_Cons) auto
  then show ?case by simp
qed

definition reachableFromRoute :: "flow_plan \<Rightarrow> nat \<Rightarrow> string \<Rightarrow> nat \<Rightarrow> bool" where
  "reachableFromRoute p source route target \<longleftrightarrow> hasOutgoingRoute p source route \<and>
     routeSearch (nodeCount p) (nexts p) target []
       (map (\<lambda>j. peTo (edgeAt p j)) (filter (\<lambda>j. peRoute (edgeAt p j) = route) (outgoing p source)))"

subsection \<open>Dominators\<close>

definition dominatorRow :: "flow_plan \<Rightarrow> bool list list \<Rightarrow> nat \<Rightarrow> bool list" where
  "dominatorRow p doms i =
     (map (\<lambda>c. list_all (\<lambda>j. doms ! peFrom (edgeAt p j) ! c) (incoming p i)) [0..<nodeCount p])[i := True]"

definition startDominators :: "flow_plan \<Rightarrow> bool list list" where
  "startDominators p = map (\<lambda>i. map (\<lambda>c. i = plStart p \<and> c = plStart p) [0..<nodeCount p]) [0..<nodeCount p]"

definition dominators :: "flow_plan \<Rightarrow> nat list \<Rightarrow> bool list list" where
  "dominators p order = foldl (\<lambda>doms i. if i = plStart p then doms else doms[i := dominatorRow p doms i]) (startDominators p) order"

subsection \<open>The whole graph\<close>

definition validateReachability :: "flow_plan \<Rightarrow> flow_issue list" where
  "validateReachability p = concat (map (\<lambda>i.
     issue_if (\<not> walk p (plStart p) (nexts p) i \<or> \<not> walk p (plEnd p) (prevs p) i)
       (nodeFailure InvalidGraph (nodeID (nodeAt p i)) ''node is not on a Start-to-End path'')) [0..<nodeCount p])"

definition cycleIssues :: "flow_plan \<Rightarrow> flow_issue list" where
  "cycleIssues p = (let issues = concat (map (\<lambda>e. issue_if (reachable p (peTo e) (peFrom e))
       (controlPathFailure InvalidGraph \<lparr>ceFrom = nodeID (nodeAt p (peFrom e)), ceRoute = peRoute e, ceTo = nodeID (nodeAt p (peTo e))\<rparr>
         ''participates in a cycle; root graph must be a DAG'')) (plEdges p))
     in if issues \<noteq> [] then issues else definitionFailure InvalidGraph ''root graph must be a DAG'')"

text \<open>A root plan has no loop scope, so \<^verbatim>\<open>validateLoopControlEdges\<close> has nothing to check in it.\<close>

definition validateGraph :: "flow_plan \<Rightarrow> flow_issue list + nat list" where
  "validateGraph p = (let issues = concat (map (validateGraphNode p) [0..<nodeCount p])
     in if issues \<noteq> [] then Inl issues
        else (case topologicalOrder p of
            None \<Rightarrow> Inl (cycleIssues p)
          | Some order \<Rightarrow> if validateReachability p \<noteq> [] then Inl (validateReachability p) else Inr order))"

end
