(* ===== verification/FlowCompile.thy ===== *)
theory FlowCompile
  imports FlowGraph
begin

section \<open>Workflow: compiling a definition\<close>

text \<open>
  \<^verbatim>\<open>compiler.go\<close>, \<^verbatim>\<open>compiler_node.go\<close> and the binding checks of \<^verbatim>\<open>compiler_binding.go\<close>, for a root plan:
  no enclosing Loop. \<open>flow_types\<close> is what the registry knows: whether a node type is registered, what
  its \<^verbatim>\<open>Compile\<close> makes of a definition, the schema library. Interrupts name nodes of the root; paths
  into composite nodes, fingerprints and the nesting of definitions are not modelled.
\<close>

record flow_types =
  ftRegistered :: "node_definition \<Rightarrow> bool"
  ftCompile :: "node_definition \<Rightarrow> flow_issue list + (node_spec \<times> merge_config option)"
  ftValidate :: "string \<Rightarrow> string \<Rightarrow> string option"
  ftSubschema :: "string \<Rightarrow> string list \<Rightarrow> string option"

subsection \<open>Nodes\<close>

definition countType :: "string \<Rightarrow> node_definition list \<Rightarrow> nat" where
  "countType t nds = length (filter (\<lambda>nd. ndType nd = t) nds)"

definition preflightNodes :: "flow_types \<Rightarrow> workflow_definition \<Rightarrow> string list \<Rightarrow> flow_issue list" where
  "preflightNodes T d interrupts = (let nds = dfNodes d
     in concat (map (\<lambda>nd. issue_if (\<not> ftRegistered T nd) (nodeFailure UnknownNodeType (ndID nd) ''unknown node type'')) nds) @
        issue_if (countType NodeTypeStart nds \<noteq> 1) (definitionFailure InvalidDefinition ''want exactly one Start node'') @
        issue_if (countType NodeTypeEnd nds \<noteq> 1) (definitionFailure InvalidDefinition ''want exactly one End node'') @
        concat (map (\<lambda>k. issue_if (k \<notin> set (map ndID nds))
          (nodeFailure InvalidInterrupt k ''interrupt path references unknown node'')) (sort interrupts)))"

definition validateNodeSpec :: "node_spec \<Rightarrow> string option" where
  "validateNodeSpec sp = first_err
     [fail_if (nsRoutes sp = []) ''node spec requires inputs, outputs, and routes'',
      fail_if (\<exists>(n, s) \<in> set (nsInputs sp). \<not> validIdentifier n \<or> s = []) ''invalid node input'',
      fail_if (\<exists>(n, s) \<in> set (nsOutputs sp). \<not> validIdentifier n \<or> s = []) ''invalid node output'',
      fail_if (\<exists>r \<in> set (nsRoutes sp). \<not> validIdentifier r) ''invalid node route'',
      fail_if (\<not> distinct (nsRoutes sp)) ''duplicate node route'']"

definition nodeBindings :: "workflow_definition \<Rightarrow> node_definition \<Rightarrow> node_spec \<Rightarrow> (string \<times> flow_binding) list" where
  "nodeBindings d nd sp =
     (if ndType nd = NodeTypeStart
      then map (\<lambda>(n, s). (n, \<lparr>fbSource = BindingWorkflowInput, fbNode = [], fbPort = n, fbPath = [], fbValue = None\<rparr>)) (nsInputs sp)
      else if ndType nd = NodeTypeEnd then map (\<lambda>(n, s, b). (n, b)) (dfOutputs d)
      else ndInputs nd)"

definition compileNode :: "flow_types \<Rightarrow> workflow_definition \<Rightarrow> node_definition \<Rightarrow> flow_issue list + plan_node" where
  "compileNode T d nd =
     guardE (if ftRegistered T nd then None else Some (nodeFailure UnknownNodeType (ndID nd) ''unknown node type''))
       (bindE (ftCompile T nd) (\<lambda>(sp, merge).
         guardE (if validateNodeSpec sp = None then None else Some (nodeFailure InvalidNodeSpec (ndID nd) ''invalid compiled spec''))
           (Inr \<lparr>pnDefinition = nd, pnSpec = sp, pnBindings = nodeBindings d nd sp, pnMerge = merge\<rparr>)))"

fun compileNodeList :: "flow_types \<Rightarrow> workflow_definition \<Rightarrow> node_definition list \<Rightarrow> flow_issue list + plan_node list" where
  "compileNodeList T d [] = Inr []"
| "compileNodeList T d (nd # nds) =
     bindE (compileNode T d nd) (\<lambda>x. bindE (compileNodeList T d nds) (\<lambda>xs. Inr (x # xs)))"

text \<open>The place of the first node of a type: \<^verbatim>\<open>recordEndpoint\<close> after a preflight that found one.\<close>

definition endpoint :: "string \<Rightarrow> node_definition list \<Rightarrow> nat" where
  "endpoint t nds = length (takeWhile (\<lambda>nd. ndType nd \<noteq> t) nds)"

definition interruptIndexes :: "node_definition list \<Rightarrow> string list \<Rightarrow> nat list" where
  "interruptIndexes nds ks = filter (\<lambda>i. ndID (nds ! i) \<in> set ks) [0..<length nds]"

definition compileNodes :: "flow_types \<Rightarrow> workflow_definition \<Rightarrow> string list \<Rightarrow> string list \<Rightarrow> flow_issue list + flow_plan" where
  "compileNodes T d pre post =
     (let issues = preflightNodes T d (remdups (pre @ post)) in
      if issues \<noteq> [] then Inl issues
      else bindE (compileNodeList T d (dfNodes d)) (\<lambda>nodes. Inr
        \<lparr>plDefinition = d, plNodes = nodes, plEdges = [], plIncoming = [], plOutgoing = [],
         plStart = endpoint NodeTypeStart (dfNodes d), plEnd = endpoint NodeTypeEnd (dfNodes d),
         plBefore = interruptIndexes (dfNodes d) pre, plAfter = interruptIndexes (dfNodes d) post\<rparr>))"

subsection \<open>The shape of bindings\<close>

definition bindingFailure :: "plan_node \<Rightarrow> string \<Rightarrow> flow_issue list" where
  "bindingFailure nd x = nodeFailure InvalidBinding (nodeID nd) x"

definition sortedNames :: "(string \<times> 'a) list \<Rightarrow> string list" where
  "sortedNames xs = sort (map fst xs)"

definition validateNodeBindingShape :: "plan_node \<Rightarrow> flow_issue list" where
  "validateNodeBindingShape nd =
     (if nodeType nd = NodeTypeStart
      then issue_if (ndInputs (pnDefinition nd) \<noteq> []) (bindingFailure nd ''Start inputs are declared by the Workflow'')
      else if nodeType nd = NodeTypeEnd
      then issue_if (ndInputs (pnDefinition nd) \<noteq> []) (bindingFailure nd ''End inputs are declared by Workflow outputs'')
      else concat (map (\<lambda>n. issue_if (map_of (pnBindings nd) n = None) (bindingFailure nd ''missing input binding''))
             (sortedNames (nsInputs (pnSpec nd)))) @
           concat (map (\<lambda>n. issue_if (map_of (nsInputs (pnSpec nd)) n = None) (bindingFailure nd ''unknown input binding''))
             (sortedNames (pnBindings nd))))"

definition validateDefaultOutputs :: "flow_types \<Rightarrow> plan_node \<Rightarrow> flow_issue list" where
  "validateDefaultOutputs T nd = (let outputs = nsOutputs (pnSpec nd) in
     if npError (nodePolicy nd) \<noteq> ErrorContinueWithDefault then []
     else (case npDefaults (nodePolicy nd) of
         None \<Rightarrow> bindingFailure nd ''default outputs: nil values''
       | Some values \<Rightarrow>
           if length values \<noteq> length outputs then bindingFailure nd ''default outputs: wrong number of ports''
           else concat (map (\<lambda>n. case map_of values n of
               None \<Rightarrow> bindingFailure nd ''default outputs: missing port''
             | Some v \<Rightarrow> issue_if (ftValidate T (the (map_of outputs n)) v \<noteq> None) (bindingFailure nd ''default outputs: port''))
             (sortedNames outputs))))"

subsection \<open>Availability\<close>

definition isDirectPredecessor :: "flow_plan \<Rightarrow> nat \<Rightarrow> nat \<Rightarrow> bool" where
  "isDirectPredecessor p source target \<longleftrightarrow> source \<in> set (prevs p target)"

definition isDirectPredecessorRoute :: "flow_plan \<Rightarrow> nat \<Rightarrow> nat \<Rightarrow> string \<Rightarrow> bool" where
  "isDirectPredecessorRoute p source target r \<longleftrightarrow>
     (\<exists>j \<in> set (incoming p target). peFrom (edgeAt p j) = source \<and> peRoute (edgeAt p j) = r)"

definition nodeErrorGuaranteed :: "flow_plan \<Rightarrow> nat \<Rightarrow> nat \<Rightarrow> bool list list \<Rightarrow> bool" where
  "nodeErrorGuaranteed p source target doms \<longleftrightarrow>
     doms ! target ! source \<and> reachableFromRoute p source RouteError target \<and>
     (\<forall>r \<in> set (nsRoutes (pnSpec (nodeAt p source))). \<not> reachableFromRoute p source r target)"

definition normalRouteReaches :: "flow_plan \<Rightarrow> nat \<Rightarrow> nat \<Rightarrow> bool" where
  "normalRouteReaches p source target \<longleftrightarrow>
     (\<exists>r \<in> set (nsRoutes (pnSpec (nodeAt p source))). reachableFromRoute p source r target)"

definition isV2ExclusiveMerge :: "plan_node \<Rightarrow> bool" where
  "isV2ExclusiveMerge nd \<longleftrightarrow> (case pnMerge nd of
     Some m \<Rightarrow> mcVersion m = MergeNodeVersionV2 \<and> mcMode m = MergeExclusive | None \<Rightarrow> False)"

definition validateNodeOutputAvailability :: "flow_plan \<Rightarrow> nat \<Rightarrow> nat \<Rightarrow> bool list list \<Rightarrow> flow_issue list" where
  "validateNodeOutputAvailability p target source doms = (let nd = nodeAt p target in
     if isMerge nd then
       if isV2ExclusiveMerge nd
       then issue_if (\<not> normalRouteReaches p source target) (bindingFailure nd ''merge input is not from a route-relevant upstream node'')
       else issue_if (\<not> isDirectPredecessor p source target) (bindingFailure nd ''merge input is not from an incoming node'')
     else issue_if (\<not> doms ! target ! source \<or> reachableFromRoute p source RouteError target)
       (bindingFailure nd ''input is not guaranteed to be available''))"

definition validateMergeErrorAvailability :: "flow_plan \<Rightarrow> nat \<Rightarrow> nat \<Rightarrow> bool list list \<Rightarrow> flow_issue list" where
  "validateMergeErrorAvailability p target source doms = (let nd = nodeAt p target in
     case pnMerge nd of
       None \<Rightarrow> bindingFailure nd ''built-in Merge executor has unexpected type''
     | Some m \<Rightarrow>
         if mcVersion m = MergeNodeVersionV2 \<and> mcMode m = MergeExclusive
         then issue_if (\<not> reachableFromRoute p source RouteError target)
           (bindingFailure nd ''merge input is not from a route-relevant upstream error route'')
         else if \<not> isDirectPredecessorRoute p source target RouteError
         then bindingFailure nd ''merge input is not from an incoming error route''
         else issue_if (mcMode m \<noteq> MergeExclusive \<and> \<not> nodeErrorGuaranteed p source target doms)
           (bindingFailure nd ''input is not guaranteed to have node error data''))"

definition validateNodeErrorAvailability :: "flow_plan \<Rightarrow> nat \<Rightarrow> nat \<Rightarrow> bool list list \<Rightarrow> flow_issue list" where
  "validateNodeErrorAvailability p target source doms = (let nd = nodeAt p target in
     if isMerge nd then validateMergeErrorAvailability p target source doms
     else issue_if (\<not> nodeErrorGuaranteed p source target doms)
       (bindingFailure nd ''input is not guaranteed to have node error data''))"

subsection \<open>Schemas\<close>

text \<open>The canonical texts of the schemas of the two error ports.\<close>

definition nodeErrorPortSchema :: "string \<Rightarrow> string" where
  "nodeErrorPortSchema q =
     (if q = ''error_type''
      then ''{'' @ [CHR 0x22] @ ''enum'' @ [CHR 0x22] @ '':['' @
        concat (map (\<lambda>k. [CHR 0x22] @ k @ [CHR 0x22, CHR '','']) [''error'', ''timeout'', ''panic'', ''canceled'']) @
        [CHR 0x22] @ ''limit'' @ [CHR 0x22] @ ''],'' @ [CHR 0x22] @ ''type'' @ [CHR 0x22, CHR '':'', CHR 0x22] @ ''string'' @ [CHR 0x22] @ ''}''
      else ''{'' @ [CHR 0x22] @ ''type'' @ [CHR 0x22, CHR '':'', CHR 0x22] @ ''string'' @ [CHR 0x22] @ ''}'')"

text \<open>The schema a binding delivers, before its path, and the node it reads.\<close>

definition sourceSchema :: "flow_plan \<Rightarrow> flow_binding \<Rightarrow> string + (string \<times> nat option)" where
  "sourceSchema p b = (case fbSource b of
       BindingLiteral \<Rightarrow> Inr ([], None)
     | BindingWorkflowInput \<Rightarrow> of_opt ''unknown Workflow input''
         (map_option (\<lambda>w. (wiSchema w, None)) (map_of (dfInputs (plDefinition p)) (fbPort b)))
     | BindingNodeOutput \<Rightarrow> bindE (of_opt ''unknown source node'' (nodeIndex p (fbNode b)))
         (\<lambda>i. of_opt ''unknown node output'' (map_option (\<lambda>s. (s, Some i)) (map_of (nsOutputs (pnSpec (nodeAt p i))) (fbPort b))))
     | BindingNodeError \<Rightarrow> bindE (of_opt ''unknown source node'' (nodeIndex p (fbNode b)))
         (\<lambda>i. guardE (fail_if (npError (nodePolicy (nodeAt p i)) \<noteq> ErrorRoute) ''source node does not use error routing'')
           (guardE (fail_if (\<not> validNodeErrorPort (fbPort b)) ''unknown node error port'') (Inr (nodeErrorPortSchema (fbPort b), Some i))))
     | BindingLoopVariable \<Rightarrow> Inl ''loop variable is unavailable outside a direct Loop body''
     | BindingOther _ \<Rightarrow> Inl ''unknown binding source'')"

definition bindingSchema :: "flow_types \<Rightarrow> flow_plan \<Rightarrow> flow_binding \<Rightarrow> string + (string \<times> nat option)" where
  "bindingSchema T p b = bindE (sourceSchema p b) (\<lambda>(s, i).
     if fbPath b = [] \<or> fbSource b = BindingLiteral then Inr (s, i)
     else bindE (of_opt ''schema path is not declared'' (ftSubschema T s (fbPath b))) (\<lambda>s'. Inr (s', i)))"

text \<open>\<^verbatim>\<open>node.spec.Inputs[name]\<close> of an absent port is the zero schema, which nothing satisfies.\<close>

definition targetSchema :: "plan_node \<Rightarrow> string \<Rightarrow> string" where
  "targetSchema nd n = (case map_of (nsInputs (pnSpec nd)) n of None \<Rightarrow> [] | Some s \<Rightarrow> s)"

definition literalValue :: "flow_binding \<Rightarrow> string" where
  "literalValue b = (case fbValue b of None \<Rightarrow> [] | Some v \<Rightarrow> v)"

definition validateBindingContract :: "flow_types \<Rightarrow> flow_plan \<Rightarrow> nat \<Rightarrow> bool list list \<Rightarrow> string \<times> flow_binding \<Rightarrow> flow_issue list" where
  "validateBindingContract T p target doms nb = (let nd = nodeAt p target; b = snd nb in
     case bindingSchema T p b of
       Inl e \<Rightarrow> bindingFailure nd e
     | Inr (s, source) \<Rightarrow>
         if fbSource b = BindingLiteral
         then issue_if (ftValidate T (targetSchema nd (fst nb)) (literalValue b) \<noteq> None) (bindingFailure nd ''input'')
         else if \<not> schemaCompatible s (targetSchema nd (fst nb)) then bindingFailure nd ''input has incompatible schema''
         else (case (fbSource b, source) of
             (BindingNodeOutput, Some i) \<Rightarrow> validateNodeOutputAvailability p target i doms
           | (BindingNodeError, Some i) \<Rightarrow> validateNodeErrorAvailability p target i doms
           | _ \<Rightarrow> []))"

definition validateNodeBindings :: "flow_types \<Rightarrow> flow_plan \<Rightarrow> nat \<Rightarrow> bool list list \<Rightarrow> flow_issue list" where
  "validateNodeBindings T p target doms =
     concat (map (validateBindingContract T p target doms) (sort_key fst (pnBindings (nodeAt p target))))"

subsection \<open>Merge sources\<close>

definition bindingAt :: "plan_node \<Rightarrow> string \<Rightarrow> flow_binding" where
  "bindingAt nd n = (case map_of (pnBindings nd) n of Some b \<Rightarrow> b
     | None \<Rightarrow> \<lparr>fbSource = BindingOther [], fbNode = [], fbPort = [], fbPath = [], fbValue = None\<rparr>)"

text \<open>The diagnostics of one source, and the direct predecessor it uses.\<close>

definition validateMergeSource :: "flow_types \<Rightarrow> flow_plan \<Rightarrow> nat \<Rightarrow> string \<Rightarrow> string \<Rightarrow> flow_issue list \<times> nat list" where
  "validateMergeSource T p target outputSchema n = (let nd = nodeAt p target; b = bindingAt nd n in
     if fbSource b \<noteq> BindingNodeOutput \<and> fbSource b \<noteq> BindingNodeError
     then (bindingFailure nd ''merge source must bind node output or error data'', [])
     else (case bindingSchema T p b of
         Inl e \<Rightarrow> (bindingFailure nd ''merge source'', [])
       | Inr (s, source) \<Rightarrow>
           let direct = (case source of Some i \<Rightarrow> isDirectPredecessor p i target | None \<Rightarrow> False)
           in if \<not> isV2ExclusiveMerge nd \<and> \<not> direct then (bindingFailure nd ''merge source is not an incoming node'', [])
              else (issue_if (\<not> schemaCompatible s outputSchema) (bindingFailure nd ''merge output source has incompatible schema''),
                    if direct then [the source] else [])))"

definition validateMergeNode :: "flow_types \<Rightarrow> flow_plan \<Rightarrow> nat \<Rightarrow> flow_issue list" where
  "validateMergeNode T p target = (let nd = nodeAt p target in
     case pnMerge nd of
       None \<Rightarrow> bindingFailure nd ''built-in Merge executor has unexpected type''
     | Some m \<Rightarrow>
         let checks = concat (map (\<lambda>(out, s, sources). map (validateMergeSource T p target s) sources) (sort_key fst (mcOutputs m)));
             used = remdups (concat (map snd checks))
         in concat (map fst checks) @
            issue_if (\<not> isV2ExclusiveMerge nd \<and> length used \<noteq> length (remdups (prevs p target)))
              (bindingFailure nd ''every incoming node must provide a mapped source''))"

subsection \<open>Bindings of a plan, and the compiler\<close>

definition validateBindings :: "flow_types \<Rightarrow> flow_plan \<Rightarrow> nat list \<Rightarrow> flow_issue list" where
  "validateBindings T p order = (let doms = dominators p order;
       shape = concat (map (\<lambda>i. validateNodeBindingShape (nodeAt p i) @ validateDefaultOutputs T (nodeAt p i)) order)
     in if shape \<noteq> [] then shape
        else concat (map (\<lambda>i. let issues = validateNodeBindings T p i doms in
          issues @ issue_if (isMerge (nodeAt p i) \<and> issues = []) (validateMergeNode T p i)) order))"

definition finishCompilation :: "flow_types \<Rightarrow> workflow_definition \<Rightarrow> string list \<Rightarrow> string list \<Rightarrow> flow_issue list + flow_plan" where
  "finishCompilation T d pre post =
     bindE (compileNodes T d pre post) (\<lambda>p0.
       bindE (compileEdges p0) (\<lambda>p.
         bindE (validateGraph p) (\<lambda>order.
           if validateBindings T p order \<noteq> [] then Inl (validateBindings T p order) else Inr p)))"

text \<open>\<^verbatim>\<open>Compile\<close>: the shape of the definition first, then its plan.\<close>

definition compileWorkflow :: "flow_types \<Rightarrow> workflow_definition \<Rightarrow> string list \<Rightarrow> string list \<Rightarrow> flow_issue list + flow_plan" where
  "compileWorkflow T d pre post =
     guardE (map_option (\<lambda>e. [\<lparr>isCode = InvalidDefinition, isPlace = AtDefinition, isText = e\<rparr>]) (validateDefinitionShape (ftValidate T) d))
       (finishCompilation T d pre post)"

end
