(* ===== verification/FlowRun.thy ===== *)
theory FlowRun
  imports FlowCompile
begin

section \<open>Workflow: running a plan\<close>

text \<open>
  \<^verbatim>\<open>runner.go\<close>, \<^verbatim>\<open>runner_execution.go\<close>, \<^verbatim>\<open>runner_invoke.go\<close>, \<^verbatim>\<open>runner_binding.go\<close> and
  \<^verbatim>\<open>runner_checkpoint.go\<close>: the scheduler of one execution of a root plan whose nodes are not composite
  and do not interrupt themselves. A run is a list of turns. Each turn is one round of the scheduler's
  loop with what its surroundings do in it: whether the host's interrupt or a cancellation is seen,
  and which goroutine goes on. A goroutine that invokes a node starts an attempt (and counts a step) or
  ends one; the end of its last attempt is received by the loop in the same turn. A turn that ends no
  node repeats the top of the loop, which then changes nothing.

  Leaf tokens are not modelled: there are as many as nodes in flight at most, so none waits for one.
  Clocks, the recorder of node executions, Node Debug, Partial Run and the grace time of a host
  interrupt are not modelled. The executor of a node is \<open>feInvoke\<close>, with its error classified, a function of the node, its inputs and the
  attempt. A run is resumed from the checkpoint it has made; the checks of a decoded one are not modelled.
\<close>

datatype edge_state = edgePending | edgeTaken | edgeSkipped

datatype node_status =
  NodePending | NodeReady | NodeRunning | NodeSucceeded | NodeException | NodeFailed | NodeSkipped | NodeInterrupted

datatype run_status = RunSucceeded | RunPartialSucceeded | RunFailed | RunCanceled | RunInterrupted

datatype failure_kind = FailureError | FailureTimeout | FailurePanic | FailureCanceled | FailureLimit

record flow_env =
  feValidate :: "string \<Rightarrow> string \<Rightarrow> string option"
  feLookup :: "string \<Rightarrow> string list \<Rightarrow> string option"
  feInvoke :: "nat \<Rightarrow> ports \<Rightarrow> nat \<Rightarrow> (failure_kind \<times> string) + (ports option \<times> string)"
  feText :: "string \<Rightarrow> string option"

record node_run =
  nrStatus :: node_status
  nrAttempts :: nat
  nrFailure :: "failure_kind option"

datatype phase = Unavailable string | Starting ports nat | Invoking ports nat

record completion =
  cpIndex :: nat
  cpValues :: ports
  cpRoute :: string
  cpErr :: "string option"
  cpAttempts :: nat
  cpFailure :: "failure_kind option"

record pause_info =
  piBefore :: "nat list"
  piAfter :: "nat list"
  piRerun :: "nat list"

datatype flow_event =
  EvRunStarted | EvRunResumed | EvRunCompleted | EvRunFailed | EvRunCanceled | EvRunInterrupted
| EvNodeReady nat | EvNodeStarted nat nat | EvNodeCompleted nat nat | EvNodeFailed nat nat failure_kind
| EvNodeRetrying nat nat | EvNodeSkipped nat

record exec_state =
  xsEdges :: "edge_state list"
  xsNodes :: "node_run list"
  xsOutputs :: "ports option list"
  xsFailures :: "ports option list"
  xsReady :: "nat list"
  xsInflight :: "(nat \<times> phase) list"
  xsDone :: nat
  xsSteps :: int
  xsTotal :: int
  xsHandled :: bool
  xsBeforePassed :: "nat list"
  xsPause :: pause_info
  xsPauseRequested :: bool
  xsHost :: bool
  xsSignal :: bool
  xsInput :: ports
  xsEvents :: "flow_event list"

record exec_checkpoint =
  xcEdges :: "edge_state list"
  xcNodes :: "node_run list"
  xcOutputs :: "ports option list"
  xcFailures :: "ports option list"
  xcReady :: "nat list"
  xcDone :: nat
  xcSteps :: int
  xcTotal :: int
  xcHandled :: bool
  xcBeforePassed :: "nat list"
  xcInput :: ports

datatype run_error = RunError "nat option" nat string | RunCause string | InterruptError

record run_result =
  rrStatus :: run_status
  rrOutputs :: ports
  rrNodes :: "node_run list"
  rrInterruption :: "pause_info option"

record run_outcome =
  roResult :: run_result
  roError :: "run_error option"
  roCheckpoint :: "exec_checkpoint option"
  roEvents :: "flow_event list"

datatype choice = Pick nat | Signal | Cancel string

record turn =
  tuSignal :: bool
  tuCancel :: "string option"
  tuCancelLaunch :: "nat option"
  tuChoice :: choice
  tuLate :: bool
  tuDrain :: "nat \<Rightarrow> completion"
  tuStore :: "string option"

subsection \<open>Nodes becoming ready or skipped\<close>

definition emit :: "flow_event \<Rightarrow> exec_state \<Rightarrow> exec_state" where
  "emit ev s = s\<lparr>xsEvents := xsEvents s @ [ev]\<rparr>"

definition statusAt :: "exec_state \<Rightarrow> nat \<Rightarrow> node_status" where
  "statusAt s i = nrStatus (xsNodes s ! i)"

definition setStatus :: "nat \<Rightarrow> node_status \<Rightarrow> exec_state \<Rightarrow> exec_state" where
  "setStatus i st s = s\<lparr>xsNodes := (xsNodes s)[i := (xsNodes s ! i)\<lparr>nrStatus := st\<rparr>]\<rparr>"

definition markReady :: "nat \<Rightarrow> exec_state \<Rightarrow> exec_state" where
  "markReady i s = emit (EvNodeReady i) ((setStatus i NodeReady s)\<lparr>xsReady := xsReady s @ [i]\<rparr>)"

definition setEdges :: "nat list \<Rightarrow> (nat \<Rightarrow> edge_state) \<Rightarrow> exec_state \<Rightarrow> exec_state" where
  "setEdges js f s = s\<lparr>xsEdges := foldl (\<lambda>es j. es[j := f j]) (xsEdges s) js\<rparr>"

definition skipNode :: "flow_plan \<Rightarrow> nat \<Rightarrow> exec_state \<Rightarrow> exec_state" where
  "skipNode p i s = emit (EvNodeSkipped i)
     ((setEdges (outgoing p i) (\<lambda>_. edgeSkipped) (setStatus i NodeSkipped s))\<lparr>xsDone := xsDone s + 1\<rparr>)"

definition resolveOutgoing :: "flow_plan \<Rightarrow> nat \<Rightarrow> string \<Rightarrow> exec_state \<Rightarrow> exec_state" where
  "resolveOutgoing p i route s =
     setEdges (outgoing p i) (\<lambda>j. if peRoute (edgeAt p j) = route then edgeTaken else edgeSkipped) s"

definition incomingResolved :: "flow_plan \<Rightarrow> exec_state \<Rightarrow> nat \<Rightarrow> bool" where
  "incomingResolved p s i \<longleftrightarrow> i \<noteq> plStart p \<and> list_all (\<lambda>j. xsEdges s ! j \<noteq> edgePending) (incoming p i)"

definition anyIncomingTaken :: "flow_plan \<Rightarrow> exec_state \<Rightarrow> nat \<Rightarrow> bool" where
  "anyIncomingTaken p s i \<longleftrightarrow> list_ex (\<lambda>j. xsEdges s ! j = edgeTaken) (incoming p i)"

definition settles :: "flow_plan \<Rightarrow> exec_state \<Rightarrow> nat \<Rightarrow> bool" where
  "settles p s i \<longleftrightarrow> statusAt s i = NodePending \<and> incomingResolved p s i"

definition settle :: "flow_plan \<Rightarrow> nat \<Rightarrow> exec_state \<Rightarrow> exec_state" where
  "settle p i s = (if anyIncomingTaken p s i then markReady i s else skipNode p i s)"

text \<open>One pass of \<^verbatim>\<open>advance\<close> over the nodes, and whether it made progress.\<close>

fun advancePass :: "flow_plan \<Rightarrow> nat list \<Rightarrow> exec_state \<times> bool \<Rightarrow> exec_state \<times> bool" where
  "advancePass p [] (s, progressed) = (s, progressed)"
| "advancePass p (i # is) (s, progressed) =
     (if settles p s i then advancePass p is (settle p i s, True) else advancePass p is (s, progressed))"

definition pendings :: "exec_state \<Rightarrow> nat" where
  "pendings s = length (filter (\<lambda>nd. nrStatus nd = NodePending) (xsNodes s))"

lemma settle_nodes:
  "xsNodes (settle p i s) = (xsNodes s)[i := (xsNodes s ! i)\<lparr>nrStatus := (if anyIncomingTaken p s i then NodeReady else NodeSkipped)\<rparr>]"
  by (simp add: settle_def markReady_def skipNode_def setEdges_def setStatus_def emit_def)

lemma filter_update_less:
  "i < length xs \<Longrightarrow> P (xs ! i) \<Longrightarrow> \<not> P x \<Longrightarrow> Suc (length (filter P (xs[i := x]))) = length (filter P xs)"
proof (induction xs arbitrary: i)
  case Nil
  then show ?case by simp
next
  case (Cons a xs)
  then show ?case by (cases i) auto
qed

lemma settle_pendings: "i < length (xsNodes s) \<Longrightarrow> settles p s i \<Longrightarrow> Suc (pendings (settle p i s)) = pendings s"
  unfolding pendings_def settle_nodes
  by (rule filter_update_less) (auto simp: settles_def statusAt_def)

lemma advancePass_pendings:
  assumes "advancePass p is (s, b) = (s', b')" "\<forall>i \<in> set is. i < length (xsNodes s)"
  shows "pendings s' \<le> pendings s \<and> (b' \<noteq> b \<longrightarrow> pendings s' < pendings s) \<and> (b \<longrightarrow> b')"
  using assms
proof (induction p "is" "(s, b)" arbitrary: s b rule: advancePass.induct)
  case (1 p s b)
  then show ?case by simp
next
  case (2 p i "is" s b)
  show ?case
  proof (cases "settles p s i")
    case True
    with "2.prems" have "advancePass p is (settle p i s, True) = (s', b')" by simp
    from "2.hyps"(1) [OF True this] "2.prems"(2) settle_pendings [of i s p] True show ?thesis
      by (auto simp: settle_nodes)
  next
    case False
    with "2.prems" "2.hyps"(2) show ?thesis by simp
  qed
qed

function advance_x :: "flow_plan \<Rightarrow> exec_state \<Rightarrow> exec_state" where
  "advance_x p s = (case advancePass p [0..<length (xsNodes s)] (s, False) of
     (s', progressed) \<Rightarrow> if progressed then advance_x p s' else s')"
  by pat_completeness auto

termination
proof (relation "measure (\<lambda>(p, s). pendings s)", goal_cases)
  case 1
  show ?case by simp
next
  case (2 p s s' b)
  then have "advancePass p [0..<length (xsNodes s)] (s, False) = (s', True)" by simp
  from advancePass_pendings [OF this] show ?case by simp
qed

declare advance_x.simps [simp del]

subsection \<open>Inputs\<close>

definition portOf :: "ports option \<Rightarrow> string \<Rightarrow> string option" where
  "portOf vs n = (case vs of None \<Rightarrow> None | Some ps \<Rightarrow> map_of ps n)"

text \<open>The value a binding reads, from the outputs and the failures of the nodes so far.\<close>

definition sourceValue :: "flow_plan \<Rightarrow> ports \<Rightarrow> (nat \<Rightarrow> ports option) \<Rightarrow> (nat \<Rightarrow> ports option) \<Rightarrow> flow_binding \<Rightarrow> string option" where
  "sourceValue p input outputs failures b = (case fbSource b of
       BindingLiteral \<Rightarrow> fbValue b
     | BindingWorkflowInput \<Rightarrow> map_of input (fbPort b)
     | BindingNodeOutput \<Rightarrow> (case nodeIndex p (fbNode b) of Some i \<Rightarrow> portOf (outputs i) (fbPort b) | None \<Rightarrow> None)
     | BindingNodeError \<Rightarrow> (case nodeIndex p (fbNode b) of Some i \<Rightarrow> portOf (failures i) (fbPort b) | None \<Rightarrow> None)
     | _ \<Rightarrow> None)"

definition resolveBinding ::
    "flow_plan \<Rightarrow> flow_env \<Rightarrow> ports \<Rightarrow> (nat \<Rightarrow> ports option) \<Rightarrow> (nat \<Rightarrow> ports option) \<Rightarrow> flow_binding \<Rightarrow> string option" where
  "resolveBinding p E input outputs failures b = (case sourceValue p input outputs failures b of
       None \<Rightarrow> None
     | Some v \<Rightarrow> if fbPath b = [] then Some v else feLookup E v (fbPath b))"

text \<open>
  \<^verbatim>\<open>resolveInputs\<close> ranges over a map: the list of bindings is the order of one such range, and decides which of
  several inputs that fail is reported. A port name is an identifier, so \<^verbatim>\<open>%q\<close> puts it between quotation marks.
\<close>

definition inputText :: "string \<Rightarrow> string" where
  "inputText n = ''input '' @ [CHR 0x22] @ n @ [CHR 0x22]"

fun resolveList ::
    "plan_node \<Rightarrow> flow_env \<Rightarrow> (flow_binding \<Rightarrow> string option) \<Rightarrow> (string \<times> flow_binding) list \<Rightarrow> string + ports" where
  "resolveList nd E read [] = Inr []"
| "resolveList nd E read ((n, b) # nbs) = (case read b of
       None \<Rightarrow> if isMerge nd then resolveList nd E read nbs else Inl (inputText n @ '' is unavailable'')
     | Some v \<Rightarrow> (case feValidate E (targetSchema nd n) v of
           Some e \<Rightarrow> Inl (inputText n @ '': '' @ e)
         | None \<Rightarrow> bindE (resolveList nd E read nbs) (\<lambda>vs. Inr ((n, v) # vs))))"

definition resolveInputs ::
    "flow_plan \<Rightarrow> flow_env \<Rightarrow> ports \<Rightarrow> (nat \<Rightarrow> ports option) \<Rightarrow> (nat \<Rightarrow> ports option) \<Rightarrow> nat \<Rightarrow> string + ports" where
  "resolveInputs p E input outputs failures i =
     resolveList (nodeAt p i) E (resolveBinding p E input outputs failures) (pnBindings (nodeAt p i))"

subsection \<open>Attempts\<close>

definition validatePortValues :: "flow_env \<Rightarrow> ports option \<Rightarrow> ports \<Rightarrow> string option" where
  "validatePortValues E values schemas = (case values of
       None \<Rightarrow> Some ''nil values''
     | Some vs \<Rightarrow> if length vs \<noteq> length schemas then Some ''wrong number of ports''
         else first_err (map (\<lambda>(n, s). case map_of vs n of None \<Rightarrow> Some ''missing port'' | Some v \<Rightarrow> feValidate E s v) schemas))"

definition invokeAttempt :: "flow_plan \<Rightarrow> flow_env \<Rightarrow> nat \<Rightarrow> ports \<Rightarrow> nat \<Rightarrow> (failure_kind \<times> string) + (ports \<times> string)" where
  "invokeAttempt p E i inputs a = (case feInvoke E i inputs a of
       Inl f \<Rightarrow> Inl f
     | Inr (values, route) \<Rightarrow> (case validatePortValues E values (nsOutputs (pnSpec (nodeAt p i))) of
           Some e \<Rightarrow> Inl (FailureError, ''node output: '' @ e)
         | None \<Rightarrow> if route \<notin> set (nsRoutes (pnSpec (nodeAt p i))) then Inl (FailureError, ''node selected unknown route'')
             else Inr (the values, route)))"

definition maximumAttempts :: "flow_plan \<Rightarrow> nat \<Rightarrow> nat" where
  "maximumAttempts p i = nat (max (npMaxAttempts (nodePolicy (nodeAt p i))) 1)"

definition terminalAttempt :: "nat \<Rightarrow> nat \<Rightarrow> failure_kind \<Rightarrow> bool" where
  "terminalAttempt a maximum k \<longleftrightarrow> a = maximum \<or> k = FailureCanceled \<or> k = FailureTimeout \<or> k = FailureLimit"

definition failed :: "nat \<Rightarrow> string \<Rightarrow> failure_kind \<Rightarrow> nat \<Rightarrow> completion" where
  "failed i e k a = \<lparr>cpIndex = i, cpValues = [], cpRoute = [], cpErr = Some e, cpAttempts = a, cpFailure = Some k\<rparr>"

definition succeeded :: "nat \<Rightarrow> ports \<Rightarrow> string \<Rightarrow> nat \<Rightarrow> completion" where
  "succeeded i vs r a = \<lparr>cpIndex = i, cpValues = vs, cpRoute = r, cpErr = None, cpAttempts = a, cpFailure = None\<rparr>"

text \<open>\<^verbatim>\<open>stepLimitExceeded\<close>: every started attempt counts, in the execution and in the run.\<close>

definition stepLimitExceeded :: "flow_plan \<Rightarrow> exec_state \<Rightarrow> bool" where
  "stepLimitExceeded p s \<longleftrightarrow> (let l = flMaxSteps (dfLimits (plDefinition p)) in xsSteps s + 1 > l \<or> xsTotal s + 1 > l)"

text \<open>What the goroutine of a node does next: go on in a new phase, or send its completion.\<close>

definition goOn :: "flow_plan \<Rightarrow> flow_env \<Rightarrow> nat \<Rightarrow> phase \<Rightarrow> exec_state \<Rightarrow> (phase + completion) \<times> exec_state" where
  "goOn p E i ph s = (case ph of
       Unavailable e \<Rightarrow> (Inr (failed i e FailureError 0), s)
     | Starting inputs a \<Rightarrow>
         let s1 = s\<lparr>xsSteps := xsSteps s + 1, xsTotal := xsTotal s + 1\<rparr>
         in if stepLimitExceeded p s
            then (Inr (failed i ''workflow step limit exceeded'' FailureLimit a), emit (EvNodeFailed i a FailureLimit) s1)
            else (Inl (Invoking inputs a), emit (EvNodeStarted i a) s1)
     | Invoking inputs a \<Rightarrow> (case invokeAttempt p E i inputs a of
           Inr (vs, r) \<Rightarrow> (Inr (succeeded i vs r a), emit (EvNodeCompleted i a) s)
         | Inl (k, e) \<Rightarrow>
             let s1 = emit (EvNodeFailed i a k) s
             in if terminalAttempt a (maximumAttempts p i) k then (Inr (failed i e k a), s1)
                else (Inl (Starting inputs (a + 1)), emit (EvNodeRetrying i (a + 1)) s1)))"

subsection \<open>Launching\<close>

definition outputsOf :: "exec_state \<Rightarrow> nat \<Rightarrow> ports option" where
  "outputsOf s i = xsOutputs s ! i"

definition failuresOf :: "exec_state \<Rightarrow> nat \<Rightarrow> ports option" where
  "failuresOf s i = xsFailures s ! i"

definition maxConcurrency :: "flow_plan \<Rightarrow> nat" where
  "maxConcurrency p = nat (flMaxConcurrency (dfLimits (plDefinition p)))"

definition launch :: "flow_plan \<Rightarrow> flow_env \<Rightarrow> nat \<Rightarrow> exec_state \<Rightarrow> exec_state" where
  "launch p E i s = (case resolveInputs p E (xsInput s) (outputsOf s) (failuresOf s) i of
       Inl e \<Rightarrow> s\<lparr>xsInflight := xsInflight s @ [(i, Unavailable e)]\<rparr>
     | Inr vs \<Rightarrow> (setStatus i NodeRunning s)\<lparr>xsInflight := xsInflight s @ [(i, Starting vs 1)]\<rparr>)"

lemma launch_ready [simp]: "xsReady (launch p E i s) = xsReady s"
  by (simp add: launch_def setStatus_def split: sum.splits)

text \<open>The context is looked at before each launch; it is found canceled once \<open>c\<close> nodes have been launched, if it is.\<close>

function launchReady :: "flow_plan \<Rightarrow> flow_env \<Rightarrow> nat option \<Rightarrow> exec_state \<Rightarrow> exec_state" where
  "launchReady p E c s = (case xsReady s of
       [] \<Rightarrow> s
     | i # rs \<Rightarrow> if length (xsInflight s) < maxConcurrency p
         then (if c = Some 0 then s\<lparr>xsReady := rs\<rparr>
           else launchReady p E (map_option (\<lambda>n. n - 1) c) (launch p E i (s\<lparr>xsReady := rs\<rparr>)))
         else s)"
  by pat_completeness auto

termination launchReady
  by (relation "measure (\<lambda>(p, E, c, s). length (xsReady s))") simp_all

declare launchReady.simps [simp del]

subsection \<open>Interrupts\<close>

definition appendRerun :: "exec_state \<Rightarrow> nat \<Rightarrow> exec_state" where
  "appendRerun s i = (if i \<in> set (piRerun (xsPause s)) then s
     else s\<lparr>xsPause := (xsPause s)\<lparr>piRerun := piRerun (xsPause s) @ [i]\<rparr>\<rparr>)"

definition requestHostInterrupt :: "exec_state \<Rightarrow> exec_state" where
  "requestHostInterrupt s = (if xsHost s then s
     else foldl appendRerun (s\<lparr>xsHost := True, xsPauseRequested := True\<rparr>) (xsReady s))"

definition poll :: "bool \<Rightarrow> exec_state \<Rightarrow> exec_state" where
  "poll seen s = (if seen \<and> xsSignal s then requestHostInterrupt (s\<lparr>xsSignal := False\<rparr>) else s)"

definition beforeMatches :: "flow_plan \<Rightarrow> exec_state \<Rightarrow> nat list" where
  "beforeMatches p s = filter (\<lambda>i. i \<in> set (plBefore p) \<and> i \<notin> set (xsBeforePassed s)) (xsReady s)"

text \<open>A node is on the ready list once, so a match does not hide a later one.\<close>

definition requestBeforeInterrupt :: "flow_plan \<Rightarrow> exec_state \<Rightarrow> exec_state" where
  "requestBeforeInterrupt p s = (let ms = beforeMatches p s in
     if ms = [] then s
     else s\<lparr>xsBeforePassed := xsBeforePassed s @ ms, xsPause := (xsPause s)\<lparr>piBefore := piBefore (xsPause s) @ ms\<rparr>,
       xsPauseRequested := True\<rparr>)"

definition interruptInfoEmpty :: "pause_info \<Rightarrow> bool" where
  "interruptInfoEmpty i \<longleftrightarrow> piBefore i = [] \<and> piAfter i = [] \<and> piRerun i = []"

subsection \<open>Completions\<close>

definition recordNodeCompletion :: "completion \<Rightarrow> exec_state \<Rightarrow> exec_state" where
  "recordNodeCompletion c s = (let i = cpIndex c; nd = (xsNodes s ! i)\<lparr>nrAttempts := cpAttempts c\<rparr>
     in if cpErr c = None
        then s\<lparr>xsNodes := (xsNodes s)[i := nd\<lparr>nrStatus := NodeSucceeded\<rparr>], xsOutputs := (xsOutputs s)[i := Some (cpValues c)]\<rparr>
        else s\<lparr>xsNodes := (xsNodes s)[i := nd\<lparr>nrStatus := NodeFailed, nrFailure := cpFailure c\<rparr>]\<rparr>)"

definition kindText :: "failure_kind \<Rightarrow> string" where
  "kindText k = (case k of FailureError \<Rightarrow> ''error'' | FailureTimeout \<Rightarrow> ''timeout'' | FailurePanic \<Rightarrow> ''panic''
     | FailureCanceled \<Rightarrow> ''canceled'' | FailureLimit \<Rightarrow> ''limit'')"

definition newNodeFailureData :: "flow_env \<Rightarrow> string \<Rightarrow> failure_kind option \<Rightarrow> ports option" where
  "newNodeFailureData E message k = (case feText E message of
       None \<Rightarrow> None
     | Some v \<Rightarrow> Some [(''error_message'', v),
         (''error_type'', [CHR 0x22] @ (case k of Some x \<Rightarrow> kindText x | None \<Rightarrow> []) @ [CHR 0x22])])"

definition handled :: "flow_plan \<Rightarrow> nat \<Rightarrow> ports \<Rightarrow> string \<Rightarrow> exec_state \<Rightarrow> exec_state" where
  "handled p i data route s = (resolveOutgoing p i route
     ((setStatus i NodeException s)\<lparr>xsFailures := (xsFailures s)[i := Some data], xsHandled := True\<rparr>))\<lparr>xsDone := xsDone s + 1\<rparr>"

definition completeFailedNode :: "flow_plan \<Rightarrow> flow_env \<Rightarrow> completion \<Rightarrow> exec_state \<Rightarrow> run_error option \<times> exec_state" where
  "completeFailedNode p E c s =
     (let i = cpIndex c; policy = nodePolicy (nodeAt p i); message = the (cpErr c);
          stop = RunError (Some i) (cpAttempts c)
      in if npError policy = ErrorRoute then (case newNodeFailureData E message (cpFailure c) of
             None \<Rightarrow> (Some (stop (message @ [CHR 0x0A] @ ''materialize node error message'')), s)
           | Some data \<Rightarrow> (None, handled p i data RouteError s))
         else if npError policy = ErrorContinueWithDefault then (case newNodeFailureData E message (cpFailure c) of
             None \<Rightarrow> (Some (stop (message @ [CHR 0x0A] @ ''materialize node error message'')), s)
           | Some data \<Rightarrow>
               (None, handled p i data RouteSuccess (s\<lparr>xsOutputs := (xsOutputs s)[i := Some (defaultPorts policy)]\<rparr>)))
         else (Some (stop message), s))"

definition completeNode :: "flow_plan \<Rightarrow> flow_env \<Rightarrow> completion \<Rightarrow> exec_state \<Rightarrow> run_error option \<times> exec_state" where
  "completeNode p E c s = (let i = cpIndex c; s1 = recordNodeCompletion c s
     in if cpErr c \<noteq> None then completeFailedNode p E c s1
        else (let s2 = resolveOutgoing p i (cpRoute c) s1;
                  s3 = s2\<lparr>xsDone := xsDone s2 + 1, xsBeforePassed := filter (\<lambda>k. k \<noteq> i) (xsBeforePassed s2)\<rparr>
          in (None, if i \<in> set (plAfter p) \<or> xsHost s3
              then s3\<lparr>xsPause := (xsPause s3)\<lparr>piAfter := piAfter (xsPause s3) @ [i]\<rparr>, xsPauseRequested := True\<rparr>
              else s3)))"

subsection \<open>The end of a run\<close>

definition finish :: "run_status \<Rightarrow> ports \<Rightarrow> pause_info option \<Rightarrow> run_error option \<Rightarrow> exec_checkpoint option \<Rightarrow> flow_event \<Rightarrow>
    exec_state \<Rightarrow> run_outcome" where
  "finish st outs info err cp ev s = \<lparr>roResult = \<lparr>rrStatus = st, rrOutputs = outs, rrNodes = xsNodes s, rrInterruption = info\<rparr>,
     roError = err, roCheckpoint = cp, roEvents = xsEvents s @ [ev]\<rparr>"

definition finishSucceeded :: "flow_plan \<Rightarrow> exec_state \<Rightarrow> run_outcome" where
  "finishSucceeded p s = finish (if xsHandled s then RunPartialSucceeded else RunSucceeded)
     (case xsOutputs s ! plEnd p of None \<Rightarrow> [] | Some vs \<Rightarrow> vs) None None None EvRunCompleted s"

definition finishFailed :: "run_error \<Rightarrow> exec_state \<Rightarrow> run_outcome" where
  "finishFailed e s = finish RunFailed [] None (Some e) None EvRunFailed s"

definition finishCanceled :: "string \<Rightarrow> exec_state \<Rightarrow> run_outcome" where
  "finishCanceled e s = finish RunCanceled [] None (Some (RunCause e)) None EvRunCanceled s"

definition checkpointOf :: "exec_state \<Rightarrow> exec_checkpoint" where
  "checkpointOf s = \<lparr>xcEdges = xsEdges s, xcNodes = xsNodes s, xcOutputs = xsOutputs s, xcFailures = xsFailures s,
     xcReady = xsReady s, xcDone = xsDone s, xcSteps = xsSteps s, xcTotal = xsTotal s, xcHandled = xsHandled s,
     xcBeforePassed = sort (xsBeforePassed s), xcInput = xsInput s\<rparr>"

text \<open>\<open>store\<close> is the error of encoding or storing the checkpoint.\<close>

definition finishInterrupted :: "string option \<Rightarrow> exec_state \<Rightarrow> run_outcome" where
  "finishInterrupted store s =
     (if interruptInfoEmpty (xsPause s) then finishFailed (RunError None 0 ''scheduler interruption has no context'') s
      else (case store of
          Some e \<Rightarrow> finishFailed (RunCause e) s
        | None \<Rightarrow> finish RunInterrupted [] (Some (xsPause s)) (Some InterruptError) (Some (checkpointOf s)) EvRunInterrupted s))"

text \<open>After a cancellation or an error every goroutine left sends its completion.\<close>

definition drain :: "(nat \<Rightarrow> completion) \<Rightarrow> exec_state \<Rightarrow> exec_state" where
  "drain f s = foldl (\<lambda>s i. recordNodeCompletion ((f i)\<lparr>cpIndex := i\<rparr>) s) (s\<lparr>xsInflight := []\<rparr>) (map fst (xsInflight s))"

subsection \<open>The scheduler's loop\<close>

text \<open>The loop receives a completion.\<close>

definition receive :: "flow_plan \<Rightarrow> flow_env \<Rightarrow> turn \<Rightarrow> completion \<Rightarrow> exec_state \<Rightarrow> run_outcome + exec_state" where
  "receive p E t c s = (let (err, s1) = completeNode p E c (poll (tuLate t) s)
     in case err of
          Some e \<Rightarrow> Inl (finishFailed e (drain (tuDrain t) s1))
        | None \<Rightarrow> Inr (if xsPauseRequested s1 then s1 else advance_x p s1))"

definition dropNth :: "nat \<Rightarrow> 'a list \<Rightarrow> 'a list" where
  "dropNth k xs = take k xs @ drop (Suc k) xs"

definition select :: "flow_plan \<Rightarrow> flow_env \<Rightarrow> turn \<Rightarrow> exec_state \<Rightarrow> run_outcome + exec_state" where
  "select p E t s = (case tuChoice t of
       Cancel e \<Rightarrow> Inl (finishCanceled e (drain (tuDrain t) s))
     | Signal \<Rightarrow> Inr (poll True s)
     | Pick n \<Rightarrow>
         let k = n mod length (xsInflight s); (i, ph) = xsInflight s ! k
         in (case goOn p E i ph s of
             (Inl ph', s') \<Rightarrow> Inr (s'\<lparr>xsInflight := (xsInflight s')[k := (i, ph')]\<rparr>)
           | (Inr c, s') \<Rightarrow> receive p E t c (s'\<lparr>xsInflight := dropNth k (xsInflight s')\<rparr>)))"

definition turnRun :: "flow_plan \<Rightarrow> flow_env \<Rightarrow> turn \<Rightarrow> exec_state \<Rightarrow> run_outcome + exec_state" where
  "turnRun p E t s0 = (let s = poll (tuSignal t) s0 in
     case tuCancel t of
       Some e \<Rightarrow> Inl (finishCanceled e (drain (tuDrain t) s))
     | None \<Rightarrow>
         if xsPauseRequested s \<and> xsInflight s = [] then Inl (finishInterrupted (tuStore t) s)
         else if xsDone s = nodeCount p then Inl (finishSucceeded p s)
         else (let s1 = (if xsPauseRequested s then s else requestBeforeInterrupt p s) in
           if xsPauseRequested s1 \<and> xsInflight s1 = [] then Inl (finishInterrupted (tuStore t) s1)
           else (let s2 = (if xsPauseRequested s1 then s1 else launchReady p E (tuCancelLaunch t) s1) in
             if xsInflight s2 = [] then Inl (finishFailed (RunError None 0 ''scheduler made no progress'') s2)
             else select p E t s2)))"

fun runTurns :: "flow_plan \<Rightarrow> flow_env \<Rightarrow> turn list \<Rightarrow> exec_state \<Rightarrow> run_outcome + exec_state" where
  "runTurns p E [] s = Inr s"
| "runTurns p E (t # ts) s = (case turnRun p E t s of Inl out \<Rightarrow> Inl out | Inr s' \<Rightarrow> runTurns p E ts s')"

definition newExecution :: "flow_plan \<Rightarrow> ports \<Rightarrow> bool \<Rightarrow> exec_state" where
  "newExecution p input signal = \<lparr>xsEdges = replicate (length (plEdges p)) edgePending,
     xsNodes = replicate (nodeCount p) \<lparr>nrStatus = NodePending, nrAttempts = 0, nrFailure = None\<rparr>,
     xsOutputs = replicate (nodeCount p) None, xsFailures = replicate (nodeCount p) None,
     xsReady = [], xsInflight = [], xsDone = 0, xsSteps = 0, xsTotal = 0, xsHandled = False, xsBeforePassed = [],
     xsPause = \<lparr>piBefore = [], piAfter = [], piRerun = []\<rparr>, xsPauseRequested = False, xsHost = False,
     xsSignal = signal, xsInput = input, xsEvents = []\<rparr>"

definition startRun :: "flow_plan \<Rightarrow> ports \<Rightarrow> bool \<Rightarrow> exec_state" where
  "startRun p input signal = markReady (plStart p) (emit EvRunStarted (newExecution p input signal))"

definition restoreExecution :: "flow_plan \<Rightarrow> exec_checkpoint \<Rightarrow> bool \<Rightarrow> exec_state" where
  "restoreExecution p cp signal = (newExecution p (xcInput cp) signal)\<lparr>xsEdges := xcEdges cp, xsNodes := xcNodes cp,
     xsOutputs := xcOutputs cp, xsFailures := xcFailures cp, xsReady := xcReady cp, xsDone := xcDone cp,
     xsSteps := xcSteps cp, xsTotal := xcTotal cp, xsHandled := xcHandled cp, xsBeforePassed := xcBeforePassed cp\<rparr>"

definition resumeRun :: "flow_plan \<Rightarrow> exec_checkpoint \<Rightarrow> bool \<Rightarrow> exec_state" where
  "resumeRun p cp signal = advance_x p (emit EvRunResumed (restoreExecution p cp signal))"

text \<open>\<^verbatim>\<open>Run\<close>: the inputs completed with their defaults, then the loop.\<close>

definition workflowRun :: "flow_plan \<Rightarrow> flow_env \<Rightarrow> ports option \<Rightarrow> bool \<Rightarrow> turn list \<Rightarrow> string + (run_outcome + exec_state)" where
  "workflowRun p E given signal ts = bindE (normalizeWorkflowInputs (feValidate E) (dfInputs (plDefinition p)) given)
     (\<lambda>input. Inr (runTurns p E ts (startRun p input signal)))"

end
