(* ===== verification/FlowGraphLaws.thy ===== *)
theory FlowGraphLaws
  imports FlowCompile
begin

section \<open>Workflow: what the graph searches compute\<close>

text \<open>
  The order of Kahn's loop exists exactly for acyclic graphs and is topological; the breadth-first
  searches compute reachability; the dominator table says on which nodes every path from Start passes.
\<close>

subsection \<open>Indexed edges\<close>

definition edges_ok :: "flow_plan \<Rightarrow> bool" where
  "edges_ok p \<longleftrightarrow> (\<forall>e \<in> set (plEdges p). peFrom e < nodeCount p \<and> peTo e < nodeCount p) \<and>
     plIncoming p = edgeIndexes peTo (plEdges p) (nodeCount p) \<and>
     plOutgoing p = edgeIndexes peFrom (plEdges p) (nodeCount p)"

definition flow_rel :: "flow_plan \<Rightarrow> (nat \<times> nat) set" where
  "flow_rel p = (\<lambda>e. (peFrom e, peTo e)) ` set (plEdges p)"

lemma edge_range: "edges_ok p \<Longrightarrow> j < length (plEdges p) \<Longrightarrow> peFrom (edgeAt p j) < nodeCount p \<and> peTo (edgeAt p j) < nodeCount p"
  by (simp add: edges_ok_def)

lemma incoming_eq: "edges_ok p \<Longrightarrow> i < nodeCount p \<Longrightarrow> incoming p i = filter (\<lambda>j. peTo (edgeAt p j) = i) [0..<length (plEdges p)]"
  by (simp add: edges_ok_def incoming_def edgeIndexes_def)

lemma outgoing_eq: "edges_ok p \<Longrightarrow> i < nodeCount p \<Longrightarrow> outgoing p i = filter (\<lambda>j. peFrom (edgeAt p j) = i) [0..<length (plEdges p)]"
  by (simp add: edges_ok_def outgoing_def edgeIndexes_def)

lemma incoming_set: "edges_ok p \<Longrightarrow> i < nodeCount p \<Longrightarrow> j \<in> set (incoming p i) \<longleftrightarrow> j < length (plEdges p) \<and> peTo (edgeAt p j) = i"
  by (auto simp: incoming_eq)

lemma outgoing_set: "edges_ok p \<Longrightarrow> i < nodeCount p \<Longrightarrow> j \<in> set (outgoing p i) \<longleftrightarrow> j < length (plEdges p) \<and> peFrom (edgeAt p j) = i"
  by (auto simp: outgoing_eq)

lemma flow_rel_edge: "(a, b) \<in> flow_rel p \<longleftrightarrow> (\<exists>j < length (plEdges p). peFrom (edgeAt p j) = a \<and> peTo (edgeAt p j) = b)"
  by (auto simp: flow_rel_def set_conv_nth image_iff)

lemma flow_rel_range: "edges_ok p \<Longrightarrow> (a, b) \<in> flow_rel p \<Longrightarrow> a < nodeCount p \<and> b < nodeCount p"
  using edge_range by (auto simp: flow_rel_edge)

lemma nexts_set: "edges_ok p \<Longrightarrow> i < nodeCount p \<Longrightarrow> b \<in> set (nexts p i) \<longleftrightarrow> (i, b) \<in> flow_rel p"
  by (auto simp: nexts_def outgoing_set flow_rel_edge)

lemma prevs_set: "edges_ok p \<Longrightarrow> i < nodeCount p \<Longrightarrow> a \<in> set (prevs p i) \<longleftrightarrow> (a, i) \<in> flow_rel p"
  by (auto simp: prevs_def incoming_set flow_rel_edge)

lemma rel_trancl_range: "(a, b) \<in> (flow_rel p)\<^sup>* \<Longrightarrow> edges_ok p \<Longrightarrow> a < nodeCount p \<Longrightarrow> b < nodeCount p"
  by (induction rule: rtrancl_induct) (auto dest: flow_rel_range)

subsection \<open>Kahn's order\<close>

definition hits :: "flow_plan \<Rightarrow> nat list \<Rightarrow> nat \<Rightarrow> nat" where
  "hits p js v = length (filter (\<lambda>j. peTo (edgeAt p j) = v) js)"

lemma lowerDegrees_spec:
  assumes "lowerDegrees p js degrees ready = (degrees', ready')"
    and "\<And>v. v < length degrees \<Longrightarrow> int (hits p js v) \<le> degrees ! v"
    and "distinct ready" and "\<And>v. v \<in> set ready \<Longrightarrow> v < length degrees \<and> degrees ! v = 0"
  shows "length degrees' = length degrees \<and> (\<forall>v < length degrees. degrees' ! v = degrees ! v - int (hits p js v)) \<and>
    distinct ready' \<and> set ready' = set ready \<union> {v. v < length degrees \<and> 0 < hits p js v \<and> degrees ! v = int (hits p js v)}"
  using assms
proof (induction p js degrees ready rule: lowerDegrees.induct)
  case (1 p degrees ready)
  then show ?case by (simp add: hits_def)
next
  case (2 p j js degrees ready)
  define b d where "b = peTo (edgeAt p j)" and "d = degrees ! b - 1"
  define ds rs where "ds = degrees[b := d]" and "rs = (if b < length degrees \<and> d = 0 then ready @ [b] else ready)"
  have r: "lowerDegrees p js ds rs = (degrees', ready')"
    using "2.prems"(1) by (simp only: lowerDegrees.simps Let_def b_def d_def ds_def rs_def)
  have h: "hits p (j # js) v = (if v = b then Suc (hits p js v) else hits p js v)" for v
    by (simp add: hits_def b_def)
  have le: "int (hits p js v) \<le> ds ! v" if "v < length ds" for v
    using "2.prems"(2) [of v] that by (cases "v = b") (auto simp: ds_def d_def h)
  have dis: "distinct rs"
  proof (cases "b \<in> set ready \<and> b < length degrees")
    case True
    then have "degrees ! b = 0" using "2.prems"(4) by blast
    then show ?thesis using "2.prems"(3) by (simp add: rs_def d_def)
  next
    case False
    then show ?thesis using "2.prems"(3) by (auto simp: rs_def)
  qed
  have zero: "v < length ds \<and> ds ! v = 0" if "v \<in> set rs" for v
  proof (cases "v = b")
    case True
    with that have *: "b < length degrees \<and> d = 0 \<or> b \<in> set ready" by (auto simp: rs_def split: if_splits)
    moreover have "b \<notin> set ready" if "b < length degrees"
      using "2.prems"(2) [OF that] "2.prems"(4) [of b] by (auto simp: h)
    ultimately show ?thesis using True "2.prems"(4) by (auto simp: ds_def)
  next
    case False
    with that have "v \<in> set ready" by (auto simp: rs_def split: if_splits)
    from "2.prems"(4) [OF this] False show ?thesis by (simp add: ds_def)
  qed
  from "2.IH" [OF b_def d_def r [unfolded ds_def rs_def] le [unfolded ds_def] dis [unfolded rs_def] zero [unfolded ds_def rs_def]]
  have ih: "length degrees' = length ds" "\<forall>v < length ds. degrees' ! v = ds ! v - int (hits p js v)"
    "distinct ready'" "set ready' = set rs \<union> {v. v < length ds \<and> 0 < hits p js v \<and> ds ! v = int (hits p js v)}"
    by (simp_all add: ds_def rs_def)
  have at: "ds ! v - int (hits p js v) = degrees ! v - int (hits p (j # js) v)" if "v < length degrees" for v
    using that by (simp add: ds_def d_def h nth_list_update)
  have fresh: "b \<notin> set ready \<and> int (hits p js b) \<le> d" if "b < length degrees"
    using "2.prems"(2) [OF that] "2.prems"(4) [of b] by (auto simp: h d_def)
  have "v \<in> set ready' \<longleftrightarrow> v \<in> set ready \<or> v < length degrees \<and> 0 < hits p (j # js) v \<and> degrees ! v = int (hits p (j # js) v)" for v
  proof (cases "v = b \<and> b < length degrees")
    case True
    then have "v \<in> set ready' \<longleftrightarrow> d = 0 \<or> 0 < hits p js b \<and> d = int (hits p js b)"
      using ih(4) fresh by (auto simp: rs_def ds_def)
    moreover have "v \<in> set ready \<or> v < length degrees \<and> 0 < hits p (j # js) v \<and> degrees ! v = int (hits p (j # js) v) \<longleftrightarrow>
        d = int (hits p js b)"
      using True fresh by (auto simp: h d_def)
    ultimately show ?thesis using True fresh by auto
  next
    case False
    then have "v \<in> set rs \<longleftrightarrow> v \<in> set ready" and "v < length degrees \<Longrightarrow> ds ! v = degrees ! v"
      by (auto simp: rs_def ds_def)
    with False ih(4) show ?thesis by (auto simp: h ds_def)
  qed
  then have "set ready' = set ready \<union> {v. v < length degrees \<and> 0 < hits p (j # js) v \<and> degrees ! v = int (hits p (j # js) v)}"
    by auto
  with ih at show ?case by (simp add: ds_def)
qed

text \<open>The loop keeps an order whose nodes come after their predecessors, and the degrees over the rest.\<close>

definition left_in :: "flow_plan \<Rightarrow> nat list \<Rightarrow> nat \<Rightarrow> nat" where
  "left_in p order v = length (filter (\<lambda>j. peFrom (edgeAt p j) \<notin> set order) (incoming p v))"

definition precedes :: "flow_plan \<Rightarrow> nat list \<Rightarrow> bool" where
  "precedes p order \<longleftrightarrow> (\<forall>k < length order. \<forall>j \<in> set (incoming p (order ! k)). peFrom (edgeAt p j) \<in> set (take k order))"

definition kahn :: "flow_plan \<Rightarrow> int list \<Rightarrow> nat list \<Rightarrow> nat list \<Rightarrow> bool" where
  "kahn p degrees ready order \<longleftrightarrow> distinct order \<and> set order \<subseteq> {..<nodeCount p} \<and> precedes p order \<and>
     length degrees = nodeCount p \<and> (\<forall>v < nodeCount p. degrees ! v = int (left_in p order v)) \<and> distinct ready \<and>
     set ready = {v. v < nodeCount p \<and> v \<notin> set order \<and> left_in p order v = 0}"

lemma precedes_snoc:
  "precedes p order \<Longrightarrow> left_in p order i = 0 \<Longrightarrow> precedes p (order @ [i])"
  by (auto simp: precedes_def left_in_def nth_append less_Suc_eq filter_empty_conv)

lemma left_in_snoc:
  assumes "edges_ok p" "v < nodeCount p" "i < nodeCount p" "i \<notin> set order"
  shows "left_in p order v = left_in p (order @ [i]) v + hits p (outgoing p i) v"
proof -
  have "length (filter P xs) = length (filter (\<lambda>x. P x \<and> \<not> Q x) xs) + length (filter (\<lambda>x. Q x) xs)"
    if "\<And>x. Q x \<Longrightarrow> P x" for P Q :: "nat \<Rightarrow> bool" and xs
    using that by (induction xs) auto
  from this [of "\<lambda>j. peFrom (edgeAt p j) = i" "\<lambda>j. peFrom (edgeAt p j) \<notin> set order" "incoming p v"] assms(4)
  have "left_in p order v = length (filter (\<lambda>j. peFrom (edgeAt p j) \<notin> set order \<and> peFrom (edgeAt p j) \<noteq> i) (incoming p v)) +
      length (filter (\<lambda>j. peFrom (edgeAt p j) = i) (incoming p v))"
    unfolding left_in_def by blast
  moreover have "length (filter (\<lambda>j. peFrom (edgeAt p j) = i) (incoming p v)) = hits p (outgoing p i) v"
    by (simp add: hits_def incoming_eq [OF assms(1,2)] outgoing_eq [OF assms(1,3)] conj_commute)
  moreover have "left_in p (order @ [i]) v = length (filter (\<lambda>j. peFrom (edgeAt p j) \<notin> set order \<and> peFrom (edgeAt p j) \<noteq> i) (incoming p v))"
    unfolding left_in_def by (rule arg_cong [of _ _ length], rule filter_cong) auto
  ultimately show ?thesis by simp
qed

lemma kahn_step:
  assumes "edges_ok p" "kahn p degrees ready order" "i \<in> set ready" "set rest = set ready - {i}" "distinct rest"
    and "lowerDegrees p (outgoing p i) degrees rest = (degrees', ready')"
  shows "kahn p degrees' ready' (order @ [i])"
proof -
  have k: "distinct order" "set order \<subseteq> {..<nodeCount p}" "precedes p order" "length degrees = nodeCount p"
    "\<And>v. v < nodeCount p \<Longrightarrow> degrees ! v = int (left_in p order v)"
    "set ready = {v. v < nodeCount p \<and> v \<notin> set order \<and> left_in p order v = 0}"
    using assms(2) by (auto simp: kahn_def)
  have i: "i < nodeCount p" "i \<notin> set order" "left_in p order i = 0" using assms(3) k(6) by auto
  note snoc = left_in_snoc [OF assms(1) _ i(1,2)]
  have z: "hits p (outgoing p i) v = 0" if "v \<in> set rest" for v
    using that assms(4) k(6) snoc [of v] by auto
  have "length degrees' = length degrees \<and> (\<forall>v < length degrees. degrees' ! v = degrees ! v - int (hits p (outgoing p i) v)) \<and>
    distinct ready' \<and> set ready' = set rest \<union> {v. v < length degrees \<and> 0 < hits p (outgoing p i) v \<and> degrees ! v = int (hits p (outgoing p i) v)}"
  proof (rule lowerDegrees_spec [OF assms(6) _ assms(5)])
    show "int (hits p (outgoing p i) v) \<le> degrees ! v" if "v < length degrees" for v
      using that k(4,5) snoc [of v] by simp
    show "v < length degrees \<and> degrees ! v = 0" if "v \<in> set rest" for v
      using that assms(4) k(4,5,6) by auto
  qed
  then have l: "length degrees' = nodeCount p" "\<And>v. v < nodeCount p \<Longrightarrow> degrees' ! v = int (left_in p (order @ [i]) v)" "distinct ready'"
    "set ready' = set rest \<union> {v. v < nodeCount p \<and> 0 < hits p (outgoing p i) v \<and> left_in p order v = hits p (outgoing p i) v}"
    using k(4,5) snoc by auto
  have self: "hits p (outgoing p i) i = 0" using snoc [OF i(1)] i(3) by simp
  have "set ready' = {v. v < nodeCount p \<and> v \<notin> set (order @ [i]) \<and> left_in p (order @ [i]) v = 0}" (is "_ = ?R")
  proof (intro equalityI subsetI)
    fix v assume v: "v \<in> set ready'"
    show "v \<in> ?R"
    proof (cases "v \<in> set rest")
      case True
      with assms(4) k(6) snoc [of v] show ?thesis by auto
    next
      case False
      with v l(4) have h: "v < nodeCount p" "0 < hits p (outgoing p i) v" "left_in p order v = hits p (outgoing p i) v" by auto
      have "v \<notin> set order"
      proof
        assume "v \<in> set order"
        then obtain n where n: "n < length order" "order ! n = v" by (auto simp: in_set_conv_nth)
        have "left_in p order v = 0"
          using k(3) n set_take_subset [of n order] by (auto simp: precedes_def left_in_def filter_empty_conv)
        with h show False by simp
      qed
      with h self snoc [OF h(1)] show ?thesis by auto
    qed
  next
    fix v assume v: "v \<in> ?R"
    show "v \<in> set ready'"
    proof (cases "hits p (outgoing p i) v = 0")
      case True
      with v snoc [of v] k(6) assms(4) l(4) show ?thesis by auto
    next
      case False
      with v snoc [of v] l(4) show ?thesis by auto
    qed
  qed
  with l k i precedes_snoc show ?thesis by (simp add: kahn_def)
qed

lemma topologicalLoop_kahn:
  assumes "edges_ok p" "kahn p degrees ready order"
  shows "\<exists>degrees'. kahn p degrees' [] (topologicalLoop p degrees ready order)"
  using assms
proof (induction p degrees ready order rule: topologicalLoop.induct)
  case (1 p degrees order)
  then show ?case by auto
next
  case (2 p degrees r rs order)
  define i rest where "i = hd (sort (r # rs))" and "rest = tl (sort (r # rs))"
  obtain degrees' ready' where l: "lowerDegrees p (outgoing p i) degrees rest = (degrees', ready')" by fastforce
  have s: "sort (r # rs) = i # rest" unfolding i_def rest_def by (metis list.collapse list.discI set_empty set_sort)
  have d: "distinct (i # rest)" using "2.prems"(2) by (metis distinct_sort kahn_def s)
  have e: "set (i # rest) = set (r # rs)" by (metis s set_sort)
  have "kahn p degrees' ready' (order @ [i])"
    by (rule kahn_step [OF "2.prems" _ _ _ l]) (use d e in auto)
  from "2.IH" [OF i_def l [unfolded rest_def, symmetric] refl "2.prems"(1) this] l s show ?case by (simp add: rest_def i_def)
qed

definition topo_sorted :: "flow_plan \<Rightarrow> nat list \<Rightarrow> bool" where
  "topo_sorted p order \<longleftrightarrow> distinct order \<and> set order = {..<nodeCount p} \<and> precedes p order"

lemma topologicalOrder_kahn:
  assumes "edges_ok p"
  obtains order degrees where "kahn p degrees [] order"
    and "topologicalOrder p = (if length order \<noteq> nodeCount p then None else Some order)"
proof -
  have "kahn p (startDegrees p) (filter (\<lambda>i. length (incoming p i) = 0) [0..<nodeCount p]) []"
    by (auto simp: kahn_def precedes_def startDegrees_def left_in_def filter_empty_conv)
  from topologicalLoop_kahn [OF assms this] that show ?thesis
    by (auto simp: topologicalOrder_def Let_def)
qed

lemma kahn_end:
  assumes "kahn p degrees [] order"
  shows "length order = nodeCount p \<longleftrightarrow> set order = {..<nodeCount p}"
    "v < nodeCount p \<Longrightarrow> v \<notin> set order \<Longrightarrow> \<exists>j \<in> set (incoming p v). peFrom (edgeAt p j) \<notin> set order"
proof -
  have k: "distinct order" "set order \<subseteq> {..<nodeCount p}"
    "{} = {v. v < nodeCount p \<and> v \<notin> set order \<and> left_in p order v = 0}"
    using assms by (simp_all add: kahn_def)
  show "length order = nodeCount p \<longleftrightarrow> set order = {..<nodeCount p}"
    using k(1,2) by (metis card_lessThan card_subset_eq distinct_card finite_lessThan)
  show "\<exists>j \<in> set (incoming p v). peFrom (edgeAt p j) \<notin> set order" if "v < nodeCount p" "v \<notin> set order"
    using k(3) that by (auto simp: left_in_def filter_empty_conv)
qed

lemma topologicalOrder_Some:
  assumes "edges_ok p" "topologicalOrder p = Some order"
  shows "topo_sorted p order"
proof -
  obtain order' degrees where k: "kahn p degrees [] order'"
    "topologicalOrder p = (if length order' \<noteq> nodeCount p then None else Some order')"
    by (rule topologicalOrder_kahn [OF assms(1)])
  with assms(2) have "order' = order" "length order = nodeCount p" by (auto split: if_splits)
  with k(1) kahn_end(1) [OF k(1)] show ?thesis by (auto simp: topo_sorted_def kahn_def)
qed

text \<open>In a topological order every edge goes forward, so the places of the nodes measure the graph.\<close>

definition place :: "nat list \<Rightarrow> nat \<Rightarrow> nat" where
  "place order i = length (takeWhile (\<lambda>x. x \<noteq> i) order)"

lemma place_nth:
  assumes "distinct order" "k < length order"
  shows "place order (order ! k) = k"
proof -
  have "takeWhile (\<lambda>x. x \<noteq> order ! k) order = take k order"
    by (rule takeWhile_eq_take_P_nth) (use assms in \<open>auto simp: nth_eq_iff_index_eq\<close>)
  with assms show ?thesis by (simp add: place_def)
qed

lemma topo_forward:
  assumes "edges_ok p" "topo_sorted p order" "(a, b) \<in> flow_rel p"
  shows "place order a < place order b"
proof -
  from assms(2) have d: "distinct order" "set order = {..<nodeCount p}" "precedes p order" by (auto simp: topo_sorted_def)
  from flow_rel_range [OF assms(1,3)] d(2) obtain k where k: "k < length order" "order ! k = b"
    by (metis in_set_conv_nth lessThan_iff)
  from assms(3) obtain j where j: "j < length (plEdges p)" "peFrom (edgeAt p j) = a" "peTo (edgeAt p j) = b"
    by (auto simp: flow_rel_edge)
  then have "j \<in> set (incoming p b)" using assms(1) flow_rel_range [OF assms(1,3)] by (simp add: incoming_set)
  with d(3) k j have "a \<in> set (take k order)" by (auto simp: precedes_def)
  then obtain i where "i < k" "order ! i = a" using k(1) by (auto simp: in_set_conv_nth)
  with place_nth [OF d(1)] k show ?thesis by auto
qed

lemma topo_acyclic:
  assumes "edges_ok p" "topo_sorted p order"
  shows "acyclic (flow_rel p)"
proof -
  have "flow_rel p \<subseteq> measure (place order)" using topo_forward [OF assms] by auto
  then show ?thesis by (meson acyclic_subset wf_acyclic wf_measure)
qed

lemma topologicalOrder_None:
  assumes "edges_ok p"
  shows "topologicalOrder p = None \<longleftrightarrow> \<not> acyclic (flow_rel p)"
proof
  assume none: "topologicalOrder p = None"
  obtain order degrees where k: "kahn p degrees [] order"
    "topologicalOrder p = (if length order \<noteq> nodeCount p then None else Some order)"
    by (rule topologicalOrder_kahn [OF assms])
  have sub: "set order \<subseteq> {..<nodeCount p}" using k(1) by (simp add: kahn_def)
  with none k(2) kahn_end(1) [OF k(1)] obtain v where v: "v < nodeCount p" "v \<notin> set order"
    by (auto split: if_splits)
  show "\<not> acyclic (flow_rel p)"
  proof
    assume "acyclic (flow_rel p)"
    moreover have "finite (flow_rel p)" by (simp add: flow_rel_def)
    ultimately have "wf (flow_rel p)" by (simp add: finite_acyclic_wf)
    then obtain z where z: "z \<in> {..<nodeCount p} - set order" "\<And>y. (y, z) \<in> flow_rel p \<Longrightarrow> y \<notin> {..<nodeCount p} - set order"
      using wfE_min [of "flow_rel p" v "{..<nodeCount p} - set order"] v by auto
    then obtain j where "j \<in> set (incoming p z)" "peFrom (edgeAt p j) \<notin> set order"
      using kahn_end(2) [OF k(1), of z] by auto
    moreover then have "(peFrom (edgeAt p j), z) \<in> flow_rel p"
      using z(1) assms by (auto simp: incoming_set flow_rel_edge)
    ultimately show False using z(2) flow_rel_range [OF assms] by auto
  qed
next
  assume "\<not> acyclic (flow_rel p)"
  with topologicalOrder_Some [OF assms] topo_acyclic [OF assms] show "topologicalOrder p = None"
    by (cases "topologicalOrder p") auto
qed

text \<open>Induction along a topological order.\<close>

lemma topo_induct [consumes 3, case_names node]:
  assumes "edges_ok p" "topo_sorted p order" "i < nodeCount p"
    and "\<And>i. i < nodeCount p \<Longrightarrow> (\<And>f. (f, i) \<in> flow_rel p \<Longrightarrow> Q f) \<Longrightarrow> Q i"
  shows "Q i"
  using assms(3)
proof (induction i rule: measure_induct_rule [of "place order"])
  case (less i)
  show ?case
  proof (rule assms(4) [OF less.prems])
    fix f assume f: "(f, i) \<in> flow_rel p"
    from less.IH [OF topo_forward [OF assms(1,2) f]] flow_rel_range [OF assms(1) f] show "Q f" by simp
  qed
qed

subsection \<open>Breadth-first searches\<close>

definition adj_rel :: "nat \<Rightarrow> (nat \<Rightarrow> nat list) \<Rightarrow> (nat \<times> nat) set" where
  "adj_rel n adj = {(a, b). b \<in> set (adj a) \<and> b < n}"

lemma enqueue_spec:
  "enqueue n vs visited queue = (visited', queue') \<Longrightarrow>
     set visited' = set visited \<union> {v \<in> set vs. v < n} \<and> set queue' = set queue \<union> ({v \<in> set vs. v < n} - set visited)"
proof (induction vs arbitrary: visited queue)
  case Nil
  then show ?case by simp
next
  case (Cons v vs)
  show ?case
  proof (cases "v < n \<and> v \<notin> set visited")
    case True
    with Cons.prems have "enqueue n vs (v # visited) (queue @ [v]) = (visited', queue')" by simp
    from Cons.IH [OF this] True show ?thesis by auto
  next
    case False
    with Cons.prems have "enqueue n vs visited queue = (visited', queue')" by (simp split: if_splits)
    from Cons.IH [OF this] False show ?thesis by auto
  qed
qed

lemma walkLoop_spec:
  assumes "set queue \<subseteq> set visited" "\<And>a. a \<in> set visited - set queue \<Longrightarrow> adj_rel n adj `` {a} \<subseteq> set visited"
  shows "set visited \<subseteq> set (walkLoop n adj visited queue) \<and>
    adj_rel n adj `` set (walkLoop n adj visited queue) \<subseteq> set (walkLoop n adj visited queue) \<and>
    set (walkLoop n adj visited queue) \<subseteq> (adj_rel n adj)\<^sup>* `` set visited"
  using assms
proof (induction n adj visited queue rule: walkLoop.induct)
  case (1 n adj visited)
  then show ?case by auto
next
  case (2 n adj visited c queue)
  obtain visited' queue' where e: "enqueue n (adj c) visited queue = (visited', queue')" by fastforce
  note sp = enqueue_spec [OF e]
  have v': "set visited' = set visited \<union> adj_rel n adj `` {c}" using sp by (auto simp: adj_rel_def)
  have 1: "set queue' \<subseteq> set visited'" using sp "2.prems"(1) by auto
  have 2: "adj_rel n adj `` {a} \<subseteq> set visited'" if "a \<in> set visited' - set queue'" for a
  proof (cases "a = c")
    case False
    with that sp have "a \<in> set visited - set (c # queue)" by auto
    with "2.prems"(2) [of a] v' show ?thesis by auto
  qed (use v' in auto)
  from "2.IH" [OF e [symmetric] refl 1 2] have ih: "set visited' \<subseteq> set (walkLoop n adj visited' queue')"
    "adj_rel n adj `` set (walkLoop n adj visited' queue') \<subseteq> set (walkLoop n adj visited' queue')"
    "set (walkLoop n adj visited' queue') \<subseteq> (adj_rel n adj)\<^sup>* `` set visited'" by auto
  have "(adj_rel n adj)\<^sup>* `` set visited' \<subseteq> (adj_rel n adj)\<^sup>* `` set visited"
    using v' "2.prems"(1) by (auto intro: converse_rtrancl_into_rtrancl)
  with ih v' e show ?case by auto
qed

lemma walkLoop_reach: "set (walkLoop n adj [s] [s]) = (adj_rel n adj)\<^sup>* `` {s}"
proof -
  have "set [s] \<subseteq> set (walkLoop n adj [s] [s])" "adj_rel n adj `` set (walkLoop n adj [s] [s]) \<subseteq> set (walkLoop n adj [s] [s])"
    "set (walkLoop n adj [s] [s]) \<subseteq> (adj_rel n adj)\<^sup>* `` set [s]"
    using walkLoop_spec [of "[s]" "[s]" n adj] by auto
  then show ?thesis by (metis Image_closed_trancl Image_mono empty_set list.simps(15) order_refl subset_antisym)
qed

lemma routeSearch_spec:
  assumes "\<And>a. a \<in> set visited \<Longrightarrow> a \<noteq> t \<and> adj_rel n adj `` {a} \<subseteq> set visited \<union> set queue" "\<And>a. a \<in> set queue \<Longrightarrow> a < n"
    and "\<And>a b. a < n \<Longrightarrow> b \<in> set (adj a) \<Longrightarrow> b < n"
  shows "routeSearch n adj t visited queue \<longleftrightarrow> (\<exists>q \<in> set queue. (q, t) \<in> (adj_rel n adj)\<^sup>*)"
  using assms
proof (induction n adj t visited queue rule: routeSearch.induct)
  case (1 n adj t visited)
  then show ?case by simp
next
  case (2 n adj t visited c queue)
  consider "c = t" | "c \<noteq> t" "c \<in> set visited" | "c \<noteq> t" "c \<notin> set visited" by blast
  then show ?case
  proof cases
    case 1
    then show ?thesis by auto
  next
    case 2
    have "\<exists>q \<in> set queue. (q, t) \<in> (adj_rel n adj)\<^sup>*" if "(a, t) \<in> (adj_rel n adj)\<^sup>*" "a \<in> set visited" for a
      using that
    proof (induction rule: converse_rtrancl_induct)
      case base
      with "2.prems"(1) show ?case by auto
    next
      case (step a b)
      with "2.prems"(1) [of a] 2 show ?case by auto
    qed
    moreover have "routeSearch n adj t visited queue \<longleftrightarrow> (\<exists>q \<in> set queue. (q, t) \<in> (adj_rel n adj)\<^sup>*)"
      by (rule "2.IH"(1)) (use "2.prems" 2 in auto)
    ultimately show ?thesis using 2 by auto
  next
    case 3
    have c: "c < n" using "2.prems"(2) by simp
    have "routeSearch n adj t (c # visited) (queue @ adj c) \<longleftrightarrow> (\<exists>q \<in> set (queue @ adj c). (q, t) \<in> (adj_rel n adj)\<^sup>*)"
    proof (rule "2.IH"(2))
      show "c \<noteq> t" "\<not> (\<not> c < n \<or> c \<in> set visited)" using 3 c by auto
      show "a \<noteq> t \<and> adj_rel n adj `` {a} \<subseteq> set (c # visited) \<union> set (queue @ adj c)" if "a \<in> set (c # visited)" for a
        using that "2.prems"(1) [of a] 3 by (auto simp: adj_rel_def)
    qed (use "2.prems" c in auto)
    moreover have "(c, t) \<in> (adj_rel n adj)\<^sup>* \<longleftrightarrow> (\<exists>q \<in> set (adj c). (q, t) \<in> (adj_rel n adj)\<^sup>*)"
      using 3 c "2.prems"(3) [of c] by (auto simp: adj_rel_def elim: converse_rtranclE intro: converse_rtrancl_into_rtrancl)
    ultimately show ?thesis using 3 c by auto
  qed
qed

lemma adj_nexts: "edges_ok p \<Longrightarrow> a < nodeCount p \<Longrightarrow> (a, b) \<in> adj_rel (nodeCount p) (nexts p) \<longleftrightarrow> (a, b) \<in> flow_rel p"
  using flow_rel_range by (auto simp: adj_rel_def nexts_set)

lemma adj_prevs: "edges_ok p \<Longrightarrow> a < nodeCount p \<Longrightarrow> (a, b) \<in> adj_rel (nodeCount p) (prevs p) \<longleftrightarrow> (b, a) \<in> flow_rel p"
  using flow_rel_range by (auto simp: adj_rel_def prevs_set)

lemma rtrancl_on:
  assumes "(a, b) \<in> R\<^sup>*" "a < n" "\<And>x y. x < n \<Longrightarrow> (x, y) \<in> R \<Longrightarrow> (x, y) \<in> S \<and> y < n"
  shows "(a, b) \<in> S\<^sup>* \<and> b < (n :: nat)"
  using assms(1)
proof (induction rule: rtrancl_induct)
  case base
  with assms(2) show ?case by simp
next
  case (step y z)
  with assms(3) [of y z] show ?case by (auto intro: rtrancl_into_rtrancl)
qed

lemma adj_nexts_star:
  assumes "edges_ok p" "a < nodeCount p"
  shows "(a, b) \<in> (adj_rel (nodeCount p) (nexts p))\<^sup>* \<longleftrightarrow> (a, b) \<in> (flow_rel p)\<^sup>*"
proof
  assume "(a, b) \<in> (adj_rel (nodeCount p) (nexts p))\<^sup>*"
  then have "(a, b) \<in> (flow_rel p)\<^sup>* \<and> b < nodeCount p"
    by (rule rtrancl_on) (use assms adj_nexts flow_rel_range in auto)
  then show "(a, b) \<in> (flow_rel p)\<^sup>*" by blast
next
  assume "(a, b) \<in> (flow_rel p)\<^sup>*"
  then have "(a, b) \<in> (adj_rel (nodeCount p) (nexts p))\<^sup>* \<and> b < nodeCount p"
    by (rule rtrancl_on) (use assms adj_nexts flow_rel_range in auto)
  then show "(a, b) \<in> (adj_rel (nodeCount p) (nexts p))\<^sup>*" by blast
qed

lemma adj_prevs_star:
  assumes "edges_ok p" "b < nodeCount p"
  shows "(b, a) \<in> (adj_rel (nodeCount p) (prevs p))\<^sup>* \<longleftrightarrow> (a, b) \<in> (flow_rel p)\<^sup>*"
proof
  assume "(b, a) \<in> (adj_rel (nodeCount p) (prevs p))\<^sup>*"
  then have "(b, a) \<in> ((flow_rel p)\<inverse>)\<^sup>* \<and> a < nodeCount p"
    by (rule rtrancl_on) (use assms adj_prevs flow_rel_range in auto)
  then show "(a, b) \<in> (flow_rel p)\<^sup>*" by (simp add: rtrancl_converse)
next
  assume "(a, b) \<in> (flow_rel p)\<^sup>*"
  then have "(b, a) \<in> ((flow_rel p)\<inverse>)\<^sup>*" by (simp add: rtrancl_converse)
  then have "(b, a) \<in> (adj_rel (nodeCount p) (prevs p))\<^sup>* \<and> a < nodeCount p"
    by (rule rtrancl_on) (use assms adj_prevs flow_rel_range in auto)
  then show "(b, a) \<in> (adj_rel (nodeCount p) (prevs p))\<^sup>*" by blast
qed

lemma walk_nexts: "edges_ok p \<Longrightarrow> a < nodeCount p \<Longrightarrow> walk p a (nexts p) i \<longleftrightarrow> (a, i) \<in> (flow_rel p)\<^sup>*"
  by (simp only: walk_def walkLoop_reach Image_singleton mem_Collect_eq adj_nexts_star)

lemma walk_prevs: "edges_ok p \<Longrightarrow> b < nodeCount p \<Longrightarrow> walk p b (prevs p) i \<longleftrightarrow> (i, b) \<in> (flow_rel p)\<^sup>*"
  by (simp only: walk_def walkLoop_reach Image_singleton mem_Collect_eq adj_prevs_star)

lemma reachableFromRoute_edge:
  assumes "edges_ok p" "i < nodeCount p"
  shows "reachableFromRoute p i r t \<longleftrightarrow>
    (\<exists>j < length (plEdges p). peFrom (edgeAt p j) = i \<and> peRoute (edgeAt p j) = r \<and> (peTo (edgeAt p j), t) \<in> (flow_rel p)\<^sup>*)"
proof -
  let ?q = "map (\<lambda>j. peTo (edgeAt p j)) (filter (\<lambda>j. peRoute (edgeAt p j) = r) (outgoing p i))"
  have "routeSearch (nodeCount p) (nexts p) t [] ?q \<longleftrightarrow> (\<exists>q \<in> set ?q. (q, t) \<in> (adj_rel (nodeCount p) (nexts p))\<^sup>*)"
  proof (rule routeSearch_spec)
    show "a < nodeCount p" if "a \<in> set ?q" for a using that assms edge_range by (auto simp: outgoing_set)
    show "b < nodeCount p" if "a < nodeCount p" "b \<in> set (nexts p a)" for a b
      using that assms(1) flow_rel_range by (auto simp: nexts_set)
  qed simp
  moreover have "(q, t) \<in> (adj_rel (nodeCount p) (nexts p))\<^sup>* \<longleftrightarrow> (q, t) \<in> (flow_rel p)\<^sup>*" if "q \<in> set ?q" for q
    by (rule adj_nexts_star) (use that assms edge_range in \<open>auto simp: outgoing_set\<close>)
  ultimately have "routeSearch (nodeCount p) (nexts p) t [] ?q \<longleftrightarrow> (\<exists>q \<in> set ?q. (q, t) \<in> (flow_rel p)\<^sup>*)" by blast
  then have "reachableFromRoute p i r t \<longleftrightarrow> (\<exists>j \<in> set (outgoing p i). peRoute (edgeAt p j) = r) \<and> (\<exists>q \<in> set ?q. (q, t) \<in> (flow_rel p)\<^sup>*)"
    by (simp only: reachableFromRoute_def hasOutgoingRoute_def)
  also have "\<dots> \<longleftrightarrow> (\<exists>j \<in> set (outgoing p i). peRoute (edgeAt p j) = r \<and> (peTo (edgeAt p j), t) \<in> (flow_rel p)\<^sup>*)" by auto
  finally show ?thesis by (simp add: outgoing_set [OF assms] Bex_def conj_assoc)
qed

lemma reachableFromRoute_trancl:
  "edges_ok p \<Longrightarrow> i < nodeCount p \<Longrightarrow> reachableFromRoute p i r t \<Longrightarrow> (i, t) \<in> (flow_rel p)\<^sup>+"
  unfolding reachableFromRoute_edge using flow_rel_edge by (metis rtrancl_into_trancl2)

subsection \<open>Dominators\<close>

lemma dominatorRow_length [simp]: "length (dominatorRow p doms i) = nodeCount p"
  by (simp add: dominatorRow_def)

lemma dominatorRow_nth:
  "c < nodeCount p \<Longrightarrow> dominatorRow p doms i ! c \<longleftrightarrow> c = i \<or> (\<forall>j \<in> set (incoming p i). doms ! peFrom (edgeAt p j) ! c)"
  by (cases "c = i") (auto simp: dominatorRow_def list_all_iff)

definition dominatorStep :: "flow_plan \<Rightarrow> bool list list \<Rightarrow> nat \<Rightarrow> bool list list" where
  "dominatorStep p doms i = (if i = plStart p then doms else doms[i := dominatorRow p doms i])"

lemma dominators_step: "dominators p order = foldl (dominatorStep p) (startDominators p) order"
proof -
  have "(\<lambda>doms i. if i = plStart p then doms else doms[i := dominatorRow p doms i]) = dominatorStep p"
    by (intro ext) (simp add: dominatorStep_def)
  then show ?thesis by (simp add: dominators_def)
qed

lemma dominatorFold_length [simp]: "length (foldl (dominatorStep p) doms order) = length doms"
  by (induction order arbitrary: doms) (simp_all add: dominatorStep_def)

lemma dominatorFold_other: "i \<notin> set order \<Longrightarrow> foldl (dominatorStep p) doms order ! i = doms ! i"
  by (induction order arbitrary: doms) (auto simp: dominatorStep_def)

text \<open>The table is the fixpoint of its rows.\<close>

lemma dominators_row:
  assumes "edges_ok p" "topo_sorted p order" "i < nodeCount p" "i \<noteq> plStart p"
  shows "dominators p order ! i = dominatorRow p (dominators p order) i"
proof -
  have d: "distinct order" "i \<in> set order" using assms(2,3) by (auto simp: topo_sorted_def)
  then obtain k where k: "k < length order" "order ! k = i" by (auto simp: in_set_conv_nth)
  define as bs where "as = take k order" and "bs = drop (Suc k) order"
  have o: "order = as @ i # bs" using k id_take_nth_drop [OF k(1)] by (simp add: as_def bs_def)
  let ?a = "foldl (dominatorStep p) (startDominators p) as"
  have len: "length (startDominators p) = nodeCount p" by (simp add: startDominators_def)
  have "dominators p order = foldl (dominatorStep p) (dominatorStep p ?a i) bs" by (simp add: dominators_step o)
  moreover have "i \<notin> set bs" using d(1) o by auto
  ultimately have row: "dominators p order ! i = dominatorRow p ?a i"
    using assms(3,4) len by (simp add: dominatorFold_other dominatorStep_def)
  have "dominators p order ! peFrom (edgeAt p j) = ?a ! peFrom (edgeAt p j)" if "j \<in> set (incoming p i)" for j
  proof -
    have "peFrom (edgeAt p j) \<in> set as" using assms(2) k that by (auto simp: topo_sorted_def precedes_def as_def)
    then have "peFrom (edgeAt p j) \<notin> set (i # bs)" using d(1) o by auto
    then show ?thesis by (simp add: dominators_step o dominatorFold_other del: foldl.simps)
  qed
  then show ?thesis unfolding row dominatorRow_def
    by (intro arg_cong [of _ _ "\<lambda>xs. xs[i := True]"] map_cong refl) (simp add: list_all_iff)
qed

lemma dominators_start: "plStart p < nodeCount p \<Longrightarrow> c < nodeCount p \<Longrightarrow> dominators p order ! plStart p ! c \<longleftrightarrow> c = plStart p"
proof -
  assume a: "plStart p < nodeCount p" "c < nodeCount p"
  have "foldl (dominatorStep p) doms order ! plStart p = doms ! plStart p" for doms
    by (induction order arbitrary: doms) (auto simp: dominatorStep_def)
  with a show ?thesis by (simp add: dominators_step startDominators_def)
qed

text \<open>Edges between nodes other than \<open>c\<close>.\<close>

definition avoiding :: "flow_plan \<Rightarrow> nat \<Rightarrow> (nat \<times> nat) set" where
  "avoiding p c = {(a, b) \<in> flow_rel p. a \<noteq> c \<and> b \<noteq> c}"

theorem dominators_paths:
  assumes "edges_ok p" "topo_sorted p order" "plStart p < nodeCount p" "c < nodeCount p" "t < nodeCount p"
    and "incoming p (plStart p) = []"
  shows "dominators p order ! t ! c \<longleftrightarrow> c = t \<or> (plStart p, t) \<notin> (avoiding p c)\<^sup>*"
  using assms(1,2,5)
proof (induction t rule: topo_induct)
  case (node i)
  show ?case
  proof (cases "i = plStart p")
    case True
    then show ?thesis using dominators_start assms(3,4) by auto
  next
    case False
    have p: "(f, i) \<in> flow_rel p \<longleftrightarrow> (\<exists>j \<in> set (incoming p i). peFrom (edgeAt p j) = f)" for f
      using assms(1) node.hyps by (auto simp: incoming_set flow_rel_edge)
    have "dominators p order ! i ! c \<longleftrightarrow> c = i \<or> (\<forall>f. (f, i) \<in> flow_rel p \<longrightarrow> dominators p order ! f ! c)"
      by (subst dominators_row [OF assms(1,2) node.hyps False]) (auto simp: dominatorRow_nth assms(4) p)
    also have "\<dots> \<longleftrightarrow> c = i \<or> (\<forall>f. (f, i) \<in> flow_rel p \<longrightarrow> c = f \<or> (plStart p, f) \<notin> (avoiding p c)\<^sup>*)"
      using node.IH flow_rel_range [OF assms(1)] by metis
    also have "\<dots> \<longleftrightarrow> c = i \<or> (plStart p, i) \<notin> (avoiding p c)\<^sup>*"
    proof -
      have "(plStart p, i) \<in> (avoiding p c)\<^sup>* \<longleftrightarrow> (\<exists>f. (plStart p, f) \<in> (avoiding p c)\<^sup>* \<and> (f, i) \<in> avoiding p c)"
        using False by (metis rtrancl.rtrancl_into_rtrancl rtranclE)
      then show ?thesis by (auto simp: avoiding_def)
    qed
    finally show ?thesis .
  qed
qed

end
