(* ===== verification/FlowPlanLaws.thy ===== *)
theory FlowPlanLaws
  imports FlowGraphLaws
begin

section \<open>Workflow: what a compiled plan has\<close>

text \<open>The facts about a plan that the compiler has checked, in the form the scheduler needs them.\<close>

definition edge_of :: "flow_plan \<Rightarrow> nat \<Rightarrow> string \<Rightarrow> bool" where
  "edge_of p i r \<longleftrightarrow> (\<exists>j < length (plEdges p). peFrom (edgeAt p j) = i \<and> peRoute (edgeAt p j) = r)"

definition plan_ok :: "flow_types \<Rightarrow> flow_plan \<Rightarrow> nat list \<Rightarrow> bool" where
  "plan_ok T p order \<longleftrightarrow> edges_ok p \<and> distinct (map nodeID (plNodes p)) \<and> topo_sorted p order \<and>
     plStart p < nodeCount p \<and> plEnd p < nodeCount p \<and>
     (\<forall>i < nodeCount p. incoming p i = [] \<longleftrightarrow> i = plStart p) \<and> (\<forall>i < nodeCount p. outgoing p i = [] \<longleftrightarrow> i = plEnd p) \<and>
     (\<forall>i < nodeCount p. i \<noteq> plEnd p \<longrightarrow> (\<forall>r \<in> set (nsRoutes (pnSpec (nodeAt p i))). edge_of p i r)) \<and>
     (\<forall>i < nodeCount p. npError (nodePolicy (nodeAt p i)) = ErrorRoute \<longrightarrow> edge_of p i RouteError) \<and>
     (\<forall>i < nodeCount p. (plStart p, i) \<in> (flow_rel p)\<^sup>* \<and> (i, plEnd p) \<in> (flow_rel p)\<^sup>*) \<and>
     (\<forall>i < nodeCount p. validateNodeBindings T p i (dominators p order) = []) \<and>
     (\<forall>i < nodeCount p. validateNodeBindingShape (nodeAt p i) = [] \<and> validateDefaultOutputs T (nodeAt p i) = []) \<and>
     (\<forall>i < nodeCount p. validateNodePolicy (nodePolicy (nodeAt p i)) = None) \<and>
     0 < flMaxConcurrency (dfLimits (plDefinition p)) \<and> 0 < flMaxSteps (dfLimits (plDefinition p))"

subsection \<open>Compiling\<close>

lemma concat_Nil [chk]: "concat xss = [] \<longleftrightarrow> (\<forall>xs \<in> set xss. xs = [])"
  by (induction xss) auto

lemma compileEdgeList_range:
  assumes "compileEdgeList p es seen acc = (issues, edges)"
    and "\<forall>e \<in> set acc. peFrom e < nodeCount p \<and> peTo e < nodeCount p"
  shows "\<forall>e \<in> set edges. peFrom e < nodeCount p \<and> peTo e < nodeCount p"
  using assms
proof (induction es arbitrary: seen acc issues)
  case Nil
  then show ?case by simp
next
  case (Cons e es)
  have at: "nodeIndex p k = Some i \<Longrightarrow> i < nodeCount p" for k i
    unfolding nodeIndex_def by (drule map_of_SomeD) (auto dest: set_zip_rightD)
  show ?case
  proof (cases "\<exists>a b. nodeIndex p (ceFrom e) = Some a \<and> nodeIndex p (ceTo e) = Some b")
    case True
    then obtain a b where ab: "nodeIndex p (ceFrom e) = Some a" "nodeIndex p (ceTo e) = Some b" by blast
    then obtain i' where "compileEdgeList p es (edgeIdentity e # seen) (acc @ [\<lparr>peFrom = a, peTo = b, peRoute = ceRoute e\<rparr>]) = (i', edges)"
      using Cons.prems(1) by (auto split: prod.splits)
    from Cons.IH [OF this] ab at Cons.prems(2) show ?thesis by auto
  next
    case False
    then obtain i' where "compileEdgeList p es seen acc = (i', edges)"
      using Cons.prems(1) by (auto split: prod.splits option.splits)
    from Cons.IH [OF this Cons.prems(2)] show ?thesis .
  qed
qed

lemma compileEdges_Inr:
  assumes "compileEdges p0 = Inr p"
  shows "edges_ok p" "plNodes p = plNodes p0" "plDefinition p = plDefinition p0" "plStart p = plStart p0" "plEnd p = plEnd p0"
proof -
  obtain issues edges where e: "compileEdgeList p0 (dfEdges (plDefinition p0)) [] [] = (issues, edges)" by fastforce
  with assms have p: "p = p0\<lparr>plEdges := edges, plIncoming := edgeIndexes peTo edges (nodeCount p0),
      plOutgoing := edgeIndexes peFrom edges (nodeCount p0)\<rparr>"
    by (auto simp: compileEdges_def split: if_splits)
  from compileEdgeList_range [OF e] show "edges_ok p" by (simp add: edges_ok_def p)
  show "plNodes p = plNodes p0" "plDefinition p = plDefinition p0" "plStart p = plStart p0" "plEnd p = plEnd p0" by (simp_all add: p)
qed

lemma compileNodeList_Inr:
  "compileNodeList T d nds = Inr nodes \<Longrightarrow> map pnDefinition nodes = nds \<and> (\<forall>nd \<in> set nodes. nsRoutes (pnSpec nd) \<noteq> [])"
proof (induction T d nds arbitrary: nodes rule: compileNodeList.induct)
  case (1 T d)
  then show ?case by simp
next
  case (2 T d nd nds)
  then obtain x xs where x: "compileNode T d nd = Inr x" "compileNodeList T d nds = Inr xs" "nodes = x # xs"
    by (auto simp: okE)
  from x(1) have "pnDefinition x = nd" "nsRoutes (pnSpec x) \<noteq> []"
    by (auto simp: compileNode_def okE validateNodeSpec_def split: if_splits)
  with "2.IH" x show ?case by auto
qed

lemma endpoint_range: "countType t nds = 1 \<Longrightarrow> endpoint t nds < length nds"
proof -
  assume "countType t nds = 1"
  then have "filter (\<lambda>nd. ndType nd = t) nds \<noteq> []" by (auto simp: countType_def)
  then have "\<exists>nd \<in> set nds. ndType nd = t" by (simp add: filter_empty_conv)
  then show ?thesis unfolding endpoint_def by (induction nds) auto
qed

lemma degree_cases:
  assumes "f1 \<noteq> []" "f2 \<noteq> []" "f3 \<noteq> []" "f4 \<noteq> []"
  shows "(if s \<and> a \<noteq> 0 then f1 else if \<not> s \<and> a = 0 then f2 else if e \<and> b \<noteq> 0 then f3 else issue_if (\<not> e \<and> b = 0) f4) = [] \<longleftrightarrow>
    (a = (0 :: nat) \<longleftrightarrow> s) \<and> (b = (0 :: nat) \<longleftrightarrow> e)"
  using assms by auto

lemma validateEndpointDegree_Nil:
  "validateEndpointDegree p i = [] \<longleftrightarrow> (incoming p i = [] \<longleftrightarrow> i = plStart p) \<and> (outgoing p i = [] \<longleftrightarrow> i = plEnd p)"
  unfolding validateEndpointDegree_def Let_def
  by (subst degree_cases) simp_all

lemma hasOutgoingRoute_edge: "edges_ok p \<Longrightarrow> i < nodeCount p \<Longrightarrow> hasOutgoingRoute p i r \<longleftrightarrow> edge_of p i r"
  by (auto simp: hasOutgoingRoute_def edge_of_def outgoing_set)

lemma validateGraph_Inr:
  assumes "edges_ok p" "plStart p < nodeCount p" "plEnd p < nodeCount p" "validateGraph p = Inr order"
  shows "topo_sorted p order"
    "\<And>i. i < nodeCount p \<Longrightarrow> (incoming p i = [] \<longleftrightarrow> i = plStart p) \<and> (outgoing p i = [] \<longleftrightarrow> i = plEnd p) \<and>
       (i \<noteq> plEnd p \<longrightarrow> (\<forall>r \<in> set (nsRoutes (pnSpec (nodeAt p i))). edge_of p i r)) \<and>
       (npError (nodePolicy (nodeAt p i)) = ErrorRoute \<longrightarrow> edge_of p i RouteError)"
    "\<And>i. i < nodeCount p \<Longrightarrow> (plStart p, i) \<in> (flow_rel p)\<^sup>* \<and> (i, plEnd p) \<in> (flow_rel p)\<^sup>*"
proof -
  from assms(4) have g: "\<forall>i < nodeCount p. validateGraphNode p i = []" "topologicalOrder p = Some order" "validateReachability p = []"
    by (auto simp: validateGraph_def Let_def concat_Nil split: if_splits option.splits)
  from topologicalOrder_Some [OF assms(1) g(2)] show "topo_sorted p order" .
  fix i assume i: "i < nodeCount p"
  from g(1) i show "(incoming p i = [] \<longleftrightarrow> i = plStart p) \<and> (outgoing p i = [] \<longleftrightarrow> i = plEnd p) \<and>
       (i \<noteq> plEnd p \<longrightarrow> (\<forall>r \<in> set (nsRoutes (pnSpec (nodeAt p i))). edge_of p i r)) \<and>
       (npError (nodePolicy (nodeAt p i)) = ErrorRoute \<longrightarrow> edge_of p i RouteError)"
    by (simp add: validateGraphNode_def Let_def validateNodeDegree_def validateEndpointDegree_Nil concat_Nil hasOutgoingRoute_edge assms(1)) blast
  from g(3) i show "(plStart p, i) \<in> (flow_rel p)\<^sup>* \<and> (i, plEnd p) \<in> (flow_rel p)\<^sup>*"
    by (simp add: validateReachability_def concat_Nil walk_nexts walk_prevs assms(1-3))
qed

theorem compiled_plan_ok:
  assumes "compileWorkflow T d pre post = Inr p"
  obtains order where "plan_ok T p order" and "topologicalOrder p = Some order" and "plDefinition p = d" and "map pnDefinition (plNodes p) = dfNodes d"
    and "\<And>nd. nd \<in> set (plNodes p) \<Longrightarrow> nsRoutes (pnSpec nd) \<noteq> []"
proof -
  from assms have shape: "validateDefinitionShape (ftValidate T) d = None" and f: "finishCompilation T d pre post = Inr p"
    by (auto simp: compileWorkflow_def okE)
  from f obtain p0 order where n: "compileNodes T d pre post = Inr p0" and e: "compileEdges p0 = Inr p"
    and g: "validateGraph p = Inr order" and b: "validateBindings T p order = []"
    by (auto simp: finishCompilation_def okE split: if_splits)
  from n have pre: "preflightNodes T d (remdups (pre @ post)) = []"
    and "\<exists>nodes. compileNodeList T d (dfNodes d) = Inr nodes \<and> plNodes p0 = nodes"
    and p0: "plDefinition p0 = d" "plStart p0 = endpoint NodeTypeStart (dfNodes d)" "plEnd p0 = endpoint NodeTypeEnd (dfNodes d)"
    by (auto simp: compileNodes_def Let_def okE split: if_splits)
  then have l: "map pnDefinition (plNodes p0) = dfNodes d" "\<forall>nd \<in> set (plNodes p0). nsRoutes (pnSpec nd) \<noteq> []"
    using compileNodeList_Inr by auto
  from pre have c: "countType NodeTypeStart (dfNodes d) = 1" "countType NodeTypeEnd (dfNodes d) = 1"
    by (auto simp: preflightNodes_def Let_def)
  note ce = compileEdges_Inr [OF e]
  have len: "nodeCount p = length (dfNodes d)" using l(1) ce(2) by (metis length_map)
  have se: "plStart p < nodeCount p" "plEnd p < nodeCount p" using endpoint_range [OF c(1)] endpoint_range [OF c(2)] by (simp_all add: ce(4,5) p0(2,3) len)
  note gr = validateGraph_Inr [OF ce(1) se g]
  have dn: "pnDefinition (nodeAt p i) \<in> set (dfNodes d)" if "i < nodeCount p" for i
    using that l(1) ce(2) len by (metis length_map nth_map nth_mem)
  have ids: "map nodeID (plNodes p) = map ndID (dfNodes d)" by (simp add: l(1) [symmetric] ce(2) comp_def)
  from gr(1) have all: "set order = {..<nodeCount p}" by (simp add: topo_sorted_def)
  from b all have bi: "validateNodeBindings T p i (dominators p order) = []" "validateNodeBindingShape (nodeAt p i) = []"
    "validateDefaultOutputs T (nodeAt p i) = []" if "i < nodeCount p" for i
    using that by (auto simp: validateBindings_def Let_def concat_Nil split: if_splits)
  have "plan_ok T p order"
    unfolding plan_ok_def
    using ce(1) se gr bi definition_shape [OF shape] dn by (auto simp: ids ce(3) p0(1))
  moreover have "topologicalOrder p = Some order"
    using g by (auto simp: validateGraph_def Let_def split: if_splits option.splits)
  moreover have "\<And>nd. nd \<in> set (plNodes p) \<Longrightarrow> nsRoutes (pnSpec nd) \<noteq> []" using l(2) ce(2) by simp
  ultimately show ?thesis using that ce(2,3) p0(1) l(1) by simp
qed

subsection \<open>Bindings read from upstream\<close>

text \<open>A binding reads from a node before its own, or from its own node, which the compiler does not refuse.\<close>

definition nodeSource :: "flow_plan \<Rightarrow> flow_binding \<Rightarrow> nat option" where
  "nodeSource p b = (if fbSource b = BindingNodeOutput \<or> fbSource b = BindingNodeError then nodeIndex p (fbNode b) else None)"

definition upstream :: "flow_plan \<Rightarrow> bool" where
  "upstream p \<longleftrightarrow> (\<forall>i < nodeCount p. \<forall>(n, b) \<in> set (pnBindings (nodeAt p i)). \<forall>k. nodeSource p b = Some k \<longrightarrow>
     k = i \<or> (k, i) \<in> (flow_rel p)\<^sup>+)"

lemma nodeIndex_range: "nodeIndex p k = Some i \<Longrightarrow> i < nodeCount p"
  unfolding nodeIndex_def by (drule map_of_SomeD) (auto dest: set_zip_rightD)

lemma dominator_upstream:
  assumes "edges_ok p" "(plStart p, i) \<in> (flow_rel p)\<^sup>*" "(plStart p, i) \<notin> (avoiding p c)\<^sup>*"
  shows "(c, i) \<in> (flow_rel p)\<^sup>*"
proof (rule ccontr)
  assume no: "(c, i) \<notin> (flow_rel p)\<^sup>*"
  have "(plStart p, i) \<in> (avoiding p c)\<^sup>*"
    using assms(2)
  proof (induction rule: converse_rtrancl_induct)
    case base
    show ?case by simp
  next
    case (step x y)
    then have "x \<noteq> c" "y \<noteq> c" using no by (auto intro: converse_rtrancl_into_rtrancl)
    with step show ?case by (auto simp: avoiding_def intro: converse_rtrancl_into_rtrancl)
  qed
  with assms(3) show False by simp
qed

lemma bindingSchema_source:
  assumes "bindingSchema T p b = Inr (s, source)" "fbSource b = BindingNodeOutput \<or> fbSource b = BindingNodeError"
  shows "\<exists>k. source = Some k \<and> nodeSource p b = Some k \<and> k < nodeCount p \<and>
    (fbSource b = BindingNodeOutput \<longrightarrow> map_of (nsOutputs (pnSpec (nodeAt p k))) (fbPort b) \<noteq> None)"
proof -
  from assms(1) obtain s0 where s0: "sourceSchema p b = Inr (s0, source)"
    by (auto simp: bindingSchema_def okE split: if_splits)
  from assms(2) show ?thesis
  proof
    assume b: "fbSource b = BindingNodeOutput"
    with s0 obtain k where "nodeIndex p (fbNode b) = Some k" "source = Some k" "map_of (nsOutputs (pnSpec (nodeAt p k))) (fbPort b) = Some s0"
      by (auto simp: sourceSchema_def okE)
    with b nodeIndex_range show ?thesis by (auto simp: nodeSource_def)
  next
    assume b: "fbSource b = BindingNodeError"
    with s0 obtain k where "nodeIndex p (fbNode b) = Some k" "source = Some k"
      by (auto simp: sourceSchema_def okE)
    with b nodeIndex_range show ?thesis by (auto simp: nodeSource_def)
  qed
qed

text \<open>The availability check of one binding of a compiled plan.\<close>

definition available :: "flow_plan \<Rightarrow> nat list \<Rightarrow> nat \<Rightarrow> flow_binding \<Rightarrow> nat \<Rightarrow> bool" where
  "available p order i b k \<longleftrightarrow> k < nodeCount p \<and>
     (if fbSource b = BindingNodeOutput
      then validateNodeOutputAvailability p i k (dominators p order) = [] \<and> map_of (nsOutputs (pnSpec (nodeAt p k))) (fbPort b) \<noteq> None
      else validateNodeErrorAvailability p i k (dominators p order) = [])"

lemma binding_available:
  assumes "plan_ok T p order" "i < nodeCount p" "(n, b) \<in> set (pnBindings (nodeAt p i))" "nodeSource p b = Some k"
  shows "available p order i b k"
proof -
  have "validateNodeBindings T p i (dominators p order) = []" using assms(1,2) by (simp add: plan_ok_def)
  then have c: "validateBindingContract T p i (dominators p order) (n, b) = []"
    using assms(3) by (auto simp: validateNodeBindings_def concat_Nil)
  have src: "fbSource b = BindingNodeOutput \<or> fbSource b = BindingNodeError" using assms(4) by (auto simp: nodeSource_def split: if_splits)
  from c obtain s source where s: "bindingSchema T p b = Inr (s, source)"
    by (auto simp: validateBindingContract_def Let_def bindingFailure_def split: sum.splits)
  from bindingSchema_source [OF s src] assms(4) have k: "source = Some k" "k < nodeCount p"
    "fbSource b = BindingNodeOutput \<Longrightarrow> map_of (nsOutputs (pnSpec (nodeAt p k))) (fbPort b) \<noteq> None" by auto
  with c s src show ?thesis
    by (auto simp: validateBindingContract_def Let_def bindingFailure_def available_def split: if_splits)
qed

lemma available_upstream:
  assumes "plan_ok T p order" "i < nodeCount p" "available p order i b k" "k \<noteq> i"
  shows "(k, i) \<in> (flow_rel p)\<^sup>+"
proof -
  have ok: "edges_ok p" "topo_sorted p order" "plStart p < nodeCount p" "incoming p (plStart p) = []"
    "(plStart p, i) \<in> (flow_rel p)\<^sup>*" using assms(1,2) by (auto simp: plan_ok_def)
  have k: "k < nodeCount p" using assms(3) by (simp add: available_def)
  have dom: "(k, i) \<in> (flow_rel p)\<^sup>+" if "dominators p order ! i ! k"
    using dominator_upstream [OF ok(1,5)] dominators_paths [OF ok(1-3) k assms(2) ok(4)] that assms(4)
    by (metis rtranclD)
  have direct: "(k, i) \<in> (flow_rel p)\<^sup>+" if "k \<in> set (prevs p i)" using that ok(1) assms(2) by (auto simp: prevs_set)
  have route: "(k, i) \<in> (flow_rel p)\<^sup>+" if "isDirectPredecessorRoute p k i r" for r
    using that ok(1) assms(2) by (metis flow_rel_edge incoming_set isDirectPredecessorRoute_def r_into_trancl')
  note reach = reachableFromRoute_trancl [OF ok(1) k]
  show ?thesis
    using assms(3) dom direct route reach
    by (auto simp: available_def validateNodeOutputAvailability_def validateNodeErrorAvailability_def validateMergeErrorAvailability_def
        normalRouteReaches_def isDirectPredecessor_def nodeErrorGuaranteed_def Let_def bindingFailure_def split: if_splits option.splits)
qed

lemma plan_upstream: "plan_ok T p order \<Longrightarrow> upstream p"
proof -
  assume p: "plan_ok T p order"
  show "upstream p"
    unfolding upstream_def
  proof (intro allI impI ballI, clarify)
    fix i n b k assume b: "i < nodeCount p" "(n, b) \<in> set (pnBindings (nodeAt p i))" "nodeSource p b = Some k" "(k, i) \<notin> (flow_rel p)\<^sup>+"
    with available_upstream [OF p b(1) binding_available [OF p b(1-3)]] show "k = i" by blast
  qed
qed

end
