(* ===== verification/FlowReference.thy ===== *)
theory FlowReference
  imports FlowRun FlowPlanLaws
begin

section \<open>Workflow: the reference evaluation of a plan\<close>

text \<open>
  The specification of the scheduler: the nodes of a plan evaluated one after the other in topological
  order, with no concurrency, no step limit and no interrupt. A node runs when an edge into it is taken; its
  fate is its output and route, a failure its policy handles, a skip, or a failure that stops the run. A node
  that reads its own output finds none.
\<close>

datatype fate = FSkipped | FDone (doneOutputs: "ports option") (doneFailure: "ports option") (doneRoute: string) (doneAttempts: nat) | FFailed nat string

fun fateOutputs :: "fate option \<Rightarrow> ports option" where
  "fateOutputs (Some (FDone out d r a)) = out"
| "fateOutputs _ = None"

fun fateFailures :: "fate option \<Rightarrow> ports option" where
  "fateFailures (Some (FDone out d r a)) = d"
| "fateFailures _ = None"

fun fateStatus :: "fate \<Rightarrow> node_status" where
  "fateStatus FSkipped = NodeSkipped"
| "fateStatus (FDone out None r a) = NodeSucceeded"
| "fateStatus (FDone out (Some d) r a) = NodeException"
| "fateStatus (FFailed a e) = NodeFailed"

text \<open>The attempts of a node, \<open>k\<close> of them left after attempt \<open>a\<close>.\<close>

fun attempts :: "flow_plan \<Rightarrow> flow_env \<Rightarrow> nat \<Rightarrow> ports \<Rightarrow> nat \<Rightarrow> nat \<Rightarrow> completion" where
  "attempts p E i inputs k a = (case invokeAttempt p E i inputs a of
       Inr (vs, r) \<Rightarrow> succeeded i vs r a
     | Inl (kd, e) \<Rightarrow> if terminalAttempt a (maximumAttempts p i) kd then failed i e kd a
         else (case k of 0 \<Rightarrow> failed i e kd a | Suc k' \<Rightarrow> attempts p E i inputs k' (a + 1)))"

declare attempts.simps [simp del]

definition runNode :: "flow_plan \<Rightarrow> flow_env \<Rightarrow> ports \<Rightarrow> (nat \<Rightarrow> fate option) \<Rightarrow> nat \<Rightarrow> completion" where
  "runNode p E input F i =
     (case resolveInputs p E input (\<lambda>k. fateOutputs ((F(i := None)) k)) (\<lambda>k. fateFailures ((F(i := None)) k)) i of
        Inl e \<Rightarrow> failed i e FailureError 0
      | Inr vs \<Rightarrow> attempts p E i vs (maximumAttempts p i - 1) 1)"

definition conclude :: "flow_plan \<Rightarrow> flow_env \<Rightarrow> completion \<Rightarrow> fate" where
  "conclude p E c = (let i = cpIndex c; policy = nodePolicy (nodeAt p i) in
     case cpErr c of
       None \<Rightarrow> FDone (Some (cpValues c)) None (cpRoute c) (cpAttempts c)
     | Some e \<Rightarrow>
         if npError policy = ErrorRoute \<or> npError policy = ErrorContinueWithDefault then
           (case newNodeFailureData E e (cpFailure c) of
              None \<Rightarrow> FFailed (cpAttempts c) (e @ [CHR 0x0A] @ ''materialize node error message'')
            | Some d \<Rightarrow> if npError policy = ErrorRoute then FDone None (Some d) RouteError (cpAttempts c)
                else FDone (Some (defaultPorts policy)) (Some d) RouteSuccess (cpAttempts c))
         else FFailed (cpAttempts c) e)"

definition edgeFate :: "flow_plan \<Rightarrow> (nat \<Rightarrow> fate option) \<Rightarrow> nat \<Rightarrow> edge_state" where
  "edgeFate p F j = (case F (peFrom (edgeAt p j)) of
     Some (FDone out d r a) \<Rightarrow> if peRoute (edgeAt p j) = r then edgeTaken else edgeSkipped | _ \<Rightarrow> edgeSkipped)"

definition runs :: "flow_plan \<Rightarrow> (nat \<Rightarrow> fate option) \<Rightarrow> nat \<Rightarrow> bool" where
  "runs p F i \<longleftrightarrow> i = plStart p \<or> (\<exists>j \<in> set (incoming p i). edgeFate p F j = edgeTaken)"

definition fateOf :: "flow_plan \<Rightarrow> flow_env \<Rightarrow> ports \<Rightarrow> (nat \<Rightarrow> fate option) \<Rightarrow> nat \<Rightarrow> fate" where
  "fateOf p E input F i = (if runs p F i then conclude p E (runNode p E input F i) else FSkipped)"

definition evaluate :: "flow_plan \<Rightarrow> flow_env \<Rightarrow> ports \<Rightarrow> nat list \<Rightarrow> nat \<Rightarrow> fate option" where
  "evaluate p E input order = foldl (\<lambda>F i. F(i := Some (fateOf p E input F i))) Map.empty order"

subsection \<open>The reference is the fixpoint of its equation\<close>

lemma resolveBinding_cong:
  assumes "\<And>k. nodeSource p b = Some k \<Longrightarrow> outs k = outs' k \<and> fails k = fails' k"
  shows "resolveBinding p E input outs fails b = resolveBinding p E input outs' fails' b"
proof -
  have "sourceValue p input outs fails b = sourceValue p input outs' fails' b"
    using assms by (cases "fbSource b") (auto simp: sourceValue_def nodeSource_def split: option.splits)
  then show ?thesis by (simp add: resolveBinding_def)
qed

lemma resolveList_cong:
  "(\<And>n b. (n, b) \<in> set nbs \<Longrightarrow> read b = read' b) \<Longrightarrow> resolveList nd E read nbs = resolveList nd E read' nbs"
proof (induction nbs)
  case Nil
  then show ?case by simp
next
  case (Cons nb nbs)
  obtain n b where nb: "nb = (n, b)" by (cases nb)
  from Cons.prems nb have "read b = read' b" by auto
  moreover from Cons have "resolveList nd E read nbs = resolveList nd E read' nbs" by auto
  ultimately show ?case by (simp add: nb split: option.splits)
qed

lemma resolveInputs_cong:
  assumes "upstream p" "i < nodeCount p" "\<And>k. k = i \<or> (k, i) \<in> (flow_rel p)\<^sup>+ \<Longrightarrow> outs k = outs' k \<and> fails k = fails' k"
  shows "resolveInputs p E input outs fails i = resolveInputs p E input outs' fails' i"
  unfolding resolveInputs_def
proof (rule resolveList_cong)
  fix n b assume b: "(n, b) \<in> set (pnBindings (nodeAt p i))"
  show "resolveBinding p E input outs fails b = resolveBinding p E input outs' fails' b"
  proof (rule resolveBinding_cong)
    fix k assume "nodeSource p b = Some k"
    with assms(1,2) b have "k = i \<or> (k, i) \<in> (flow_rel p)\<^sup>+" by (fastforce simp: upstream_def)
    with assms(3) show "outs k = outs' k \<and> fails k = fails' k" by blast
  qed
qed

lemma fateOf_cong:
  assumes "upstream p" "edges_ok p" "i < nodeCount p" "\<And>k. (k, i) \<in> (flow_rel p)\<^sup>+ \<Longrightarrow> F k = G k"
  shows "fateOf p E input F i = fateOf p E input G i"
proof -
  have "edgeFate p F j = edgeFate p G j" if "j \<in> set (incoming p i)" for j
  proof -
    have "(peFrom (edgeAt p j), i) \<in> flow_rel p" using that assms(2,3) by (auto simp: incoming_set flow_rel_edge)
    with assms(4) have "F (peFrom (edgeAt p j)) = G (peFrom (edgeAt p j))" by blast
    then show ?thesis by (simp add: edgeFate_def)
  qed
  then have "runs p F i \<longleftrightarrow> runs p G i" by (auto simp: runs_def)
  moreover have "runNode p E input F i = runNode p E input G i"
  proof -
    have "(F(i := None)) k = (G(i := None)) k" if "k = i \<or> (k, i) \<in> (flow_rel p)\<^sup>+" for k
      using that assms(4) by auto
    then have "resolveInputs p E input (\<lambda>k. fateOutputs ((F(i := None)) k)) (\<lambda>k. fateFailures ((F(i := None)) k)) i =
        resolveInputs p E input (\<lambda>k. fateOutputs ((G(i := None)) k)) (\<lambda>k. fateFailures ((G(i := None)) k)) i"
      by (intro resolveInputs_cong [OF assms(1,3)]) metis
    then show ?thesis by (simp only: runNode_def)
  qed
  ultimately show ?thesis by (simp add: fateOf_def)
qed

lemma evaluate_fold_other:
  "k \<notin> set order \<Longrightarrow> foldl (\<lambda>F i. F(i := Some (fateOf p E input F i))) F0 order k = F0 k"
  by (induction order arbitrary: F0) auto

theorem evaluate_fixpoint:
  assumes "upstream p" "edges_ok p" "topo_sorted p order" "i < nodeCount p"
  shows "evaluate p E input order i = Some (fateOf p E input (evaluate p E input order) i)"
proof -
  let ?fold = "foldl (\<lambda>F i. F(i := Some (fateOf p E input F i)))"
  have d: "distinct order" "i \<in> set order" using assms(3,4) by (auto simp: topo_sorted_def)
  then obtain n where n: "n < length order" "order ! n = i" by (auto simp: in_set_conv_nth)
  define as bs where "as = take n order" and "bs = drop (Suc n) order"
  have o: "order = as @ i # bs" using n id_take_nth_drop [OF n(1)] by (simp add: as_def bs_def)
  let ?F = "?fold Map.empty as"
  have ev: "evaluate p E input order = ?fold (?F(i := Some (fateOf p E input ?F i))) bs" by (simp add: evaluate_def o)
  have "i \<notin> set bs" using d(1) o by auto
  then have at: "evaluate p E input order i = Some (fateOf p E input ?F i)" by (simp add: ev evaluate_fold_other)
  have "?F k = evaluate p E input order k" if "(k, i) \<in> (flow_rel p)\<^sup>+" for k
  proof -
    have "place order k < place order i"
      using that by (induction rule: trancl_induct) (auto dest: topo_forward [OF assms(2,3)] intro: less_trans)
    then have "place order k < n" using place_nth [OF d(1) n(1)] n(2) by simp
    moreover have "k \<in> set order"
    proof -
      from that obtain k' where "(k, k') \<in> flow_rel p" by (auto dest: tranclD)
      with flow_rel_range [OF assms(2)] assms(3) show ?thesis by (auto simp: topo_sorted_def)
    qed
    ultimately have "k \<in> set as"
      using place_nth [OF d(1)] n(1) by (metis as_def in_set_conv_nth length_take min.absorb4 nth_take)
    then have "k \<notin> set (i # bs)" using d(1) o by auto
    then show ?thesis by (auto simp: ev evaluate_fold_other)
  qed
  then have "fateOf p E input ?F i = fateOf p E input (evaluate p E input order) i"
    by (rule fateOf_cong [OF assms(1,2,4)])
  with at show ?thesis by simp
qed

lemma attempts_index [simp]: "cpIndex (attempts p E i inputs k a) = i"
  by (induction p E i inputs k a rule: attempts.induct)
    (subst attempts.simps, auto simp: succeeded_def failed_def split: sum.splits nat.splits)

lemma runNode_index [simp]: "cpIndex (runNode p E input F i) = i"
  by (simp add: runNode_def failed_def split: sum.splits)

end
