(* ===== verification/FlowInvariant.thy ===== *)
theory FlowInvariant
  imports FlowReference
begin

section \<open>Workflow: the scheduler against the reference\<close>

text \<open>
  The invariant of the scheduler: a node that has finished has the fate the reference gives it, its edges
  are resolved accordingly, and what is in flight will come to the fate the reference gives. It mentions
  neither the order of completions nor the interrupts, so every schedule ends in the same fates.
\<close>

subsection \<open>The invariant\<close>

definition finished :: "node_status \<Rightarrow> bool" where
  "finished st \<longleftrightarrow> st = NodeSucceeded \<or> st = NodeException \<or> st = NodeSkipped"

definition queued :: "node_status \<Rightarrow> bool" where
  "queued st \<longleftrightarrow> st = NodeReady \<or> st = NodeRunning"

lemma status_simps [simp]:
  "finished NodeSucceeded" "finished NodeException" "finished NodeSkipped"
  "\<not> finished NodePending" "\<not> finished NodeReady" "\<not> finished NodeRunning" "\<not> finished NodeFailed" "\<not> finished NodeInterrupted"
  "queued NodeReady" "queued NodeRunning" "\<not> queued NodePending" "\<not> queued NodeSucceeded" "\<not> queued NodeException"
  "\<not> queued NodeSkipped" "\<not> queued NodeFailed" "\<not> queued NodeInterrupted"
  by (simp_all add: finished_def queued_def)

definition shaped :: "flow_plan \<Rightarrow> ports \<Rightarrow> exec_state \<Rightarrow> bool" where
  "shaped p input s \<longleftrightarrow> length (xsNodes s) = nodeCount p \<and> length (xsEdges s) = length (plEdges p) \<and>
     length (xsOutputs s) = nodeCount p \<and> length (xsFailures s) = nodeCount p \<and> xsInput s = input"

text \<open>What finished nodes have left, given the fates \<open>F\<close>.\<close>

definition settled :: "flow_plan \<Rightarrow> (nat \<Rightarrow> fate option) \<Rightarrow> exec_state \<Rightarrow> bool" where
  "settled p F s \<longleftrightarrow> (\<forall>i < nodeCount p.
       (finished (statusAt s i) \<longrightarrow> (\<exists>f. F i = Some f \<and> statusAt s i = fateStatus f)) \<and>
       outputsOf s i = (if finished (statusAt s i) then fateOutputs (F i) else None) \<and>
       failuresOf s i = (if finished (statusAt s i) then fateFailures (F i) else None)) \<and>
     (\<forall>j < length (plEdges p). xsEdges s ! j = (if finished (statusAt s (peFrom (edgeAt p j))) then edgeFate p F j else edgePending))"

definition frontier :: "flow_plan \<Rightarrow> (nat \<Rightarrow> fate option) \<Rightarrow> exec_state \<Rightarrow> bool" where
  "frontier p F s \<longleftrightarrow> statusAt s (plStart p) \<noteq> NodePending \<and> (\<forall>i < nodeCount p.
     (statusAt s i = NodePending \<or> queued (statusAt s i) \<or> finished (statusAt s i)) \<and>
     (statusAt s i \<noteq> NodePending \<longrightarrow> (\<forall>j \<in> set (incoming p i). finished (statusAt s (peFrom (edgeAt p j))))) \<and>
     (queued (statusAt s i) \<longrightarrow> runs p F i))"

fun phase_ok :: "flow_plan \<Rightarrow> flow_env \<Rightarrow> ports \<Rightarrow> (nat \<Rightarrow> fate option) \<Rightarrow> nat \<Rightarrow> phase \<Rightarrow> bool" where
  "phase_ok p E input F i (Unavailable e) \<longleftrightarrow> runNode p E input F i = failed i e FailureError 0"
| "phase_ok p E input F i (Starting vs a) \<longleftrightarrow> 1 \<le> a \<and> a \<le> maximumAttempts p i \<and>
     runNode p E input F i = attempts p E i vs (maximumAttempts p i - a) a"
| "phase_ok p E input F i (Invoking vs a) \<longleftrightarrow> 1 \<le> a \<and> a \<le> maximumAttempts p i \<and>
     runNode p E input F i = attempts p E i vs (maximumAttempts p i - a) a"

definition queues :: "flow_plan \<Rightarrow> flow_env \<Rightarrow> ports \<Rightarrow> (nat \<Rightarrow> fate option) \<Rightarrow> exec_state \<Rightarrow> bool" where
  "queues p E input F s \<longleftrightarrow> distinct (xsReady s @ map fst (xsInflight s)) \<and>
     (\<forall>k. k \<in> set (xsReady s) \<or> k \<in> fst ` set (xsInflight s) \<longleftrightarrow> k < nodeCount p \<and> queued (statusAt s k)) \<and>
     (\<forall>(i, ph) \<in> set (xsInflight s). phase_ok p E input F i ph) \<and> length (xsInflight s) \<le> maxConcurrency p"

definition finishedSet :: "flow_plan \<Rightarrow> exec_state \<Rightarrow> nat set" where
  "finishedSet p s = {i. i < nodeCount p \<and> finished (statusAt s i)}"

definition counts :: "flow_plan \<Rightarrow> exec_state \<Rightarrow> bool" where
  "counts p s \<longleftrightarrow> xsDone s = card (finishedSet p s) \<and> (xsHandled s \<longleftrightarrow> (\<exists>i < nodeCount p. statusAt s i = NodeException))"

text \<open>The steps taken, and those the nodes still may take.\<close>

fun left :: "flow_plan \<Rightarrow> nat \<times> phase \<Rightarrow> int" where
  "left p (i, Unavailable e) = 0"
| "left p (i, Starting vs a) = int (maximumAttempts p i) - int a + 1"
| "left p (i, Invoking vs a) = int (maximumAttempts p i) - int a"

definition waiting :: "flow_plan \<Rightarrow> exec_state \<Rightarrow> nat set" where
  "waiting p s = {i. i < nodeCount p \<and> (statusAt s i = NodePending \<or> i \<in> set (xsReady s))}"

definition in_budget :: "flow_plan \<Rightarrow> exec_state \<Rightarrow> bool" where
  "in_budget p s \<longleftrightarrow> xsSteps s = xsTotal s \<and>
     xsSteps s + (\<Sum>i \<in> waiting p s. int (maximumAttempts p i)) + (\<Sum>x \<leftarrow> xsInflight s. left p x) \<le> flMaxSteps (dfLimits (plDefinition p))"

definition flow_inv :: "flow_plan \<Rightarrow> flow_env \<Rightarrow> ports \<Rightarrow> (nat \<Rightarrow> fate option) \<Rightarrow> exec_state \<Rightarrow> bool" where
  "flow_inv p E input F s \<longleftrightarrow> shaped p input s \<and> settled p F s \<and> frontier p F s \<and> queues p E input F s \<and> counts p s \<and> in_budget p s"

text \<open>A plan the compiler accepts, and the fates of its nodes.\<close>

definition sound :: "flow_types \<Rightarrow> flow_plan \<Rightarrow> flow_env \<Rightarrow> ports \<Rightarrow> nat list \<Rightarrow> (nat \<Rightarrow> fate option) \<Rightarrow> bool" where
  "sound T p E input order F \<longleftrightarrow> plan_ok T p order \<and> F = evaluate p E input order"

lemma sound_facts:
  assumes "sound T p E input order F"
  shows "edges_ok p" "topo_sorted p order" "plStart p < nodeCount p" "plEnd p < nodeCount p" "upstream p"
    "incoming p (plStart p) = []" "\<And>i. i < nodeCount p \<Longrightarrow> i \<noteq> plStart p \<Longrightarrow> incoming p i \<noteq> []"
    "\<And>i. i < nodeCount p \<Longrightarrow> F i = Some (fateOf p E input F i)" "0 < maxConcurrency p"
proof -
  from assms have p: "plan_ok T p order" "F = evaluate p E input order" by (simp_all add: sound_def)
  then show *: "edges_ok p" "topo_sorted p order" "plStart p < nodeCount p" "plEnd p < nodeCount p"
    "incoming p (plStart p) = []" "\<And>i. i < nodeCount p \<Longrightarrow> i \<noteq> plStart p \<Longrightarrow> incoming p i \<noteq> []" "0 < maxConcurrency p"
    by (simp_all add: plan_ok_def maxConcurrency_def)
  show up: "upstream p" by (rule plan_upstream [OF p(1)])
  show "F i = Some (fateOf p E input F i)" if "i < nodeCount p" for i
    unfolding p(2) by (rule evaluate_fixpoint [OF up *(1,2) that])
qed

subsection \<open>Reading the state\<close>

lemma frontier_ancestors:
  assumes "sound T p E input order F" "frontier p F s" "(k, i) \<in> (flow_rel p)\<^sup>+" "statusAt s i \<noteq> NodePending"
  shows "finished (statusAt s k)"
  using assms(3,4)
proof (induction rule: converse_trancl_induct)
  case (base k)
  note sf = sound_facts [OF assms(1)]
  from base(1) obtain j where "j \<in> set (incoming p i)" "peFrom (edgeAt p j) = k" "i < nodeCount p"
    using sf(1) flow_rel_range by (metis flow_rel_edge incoming_set)
  with base(2) assms(2) show ?case by (auto simp: frontier_def)
next
  case (step k k')
  note sf = sound_facts [OF assms(1)]
  from step(1) obtain j where "j \<in> set (incoming p k')" "peFrom (edgeAt p j) = k" "k' < nodeCount p"
    using sf(1) flow_rel_range by (metis flow_rel_edge incoming_set)
  moreover from step have "statusAt s k' \<noteq> NodePending" by auto
  ultimately show ?case using assms(2) by (auto simp: frontier_def)
qed

lemma inputs_as_reference:
  assumes "sound T p E input order F" "frontier p F s" "settled p F s" "i < nodeCount p" "statusAt s i \<noteq> NodePending"
    "\<not> finished (statusAt s i)"
  shows "resolveInputs p E input (outputsOf s) (failuresOf s) i =
    resolveInputs p E input (\<lambda>k. fateOutputs ((F(i := None)) k)) (\<lambda>k. fateFailures ((F(i := None)) k)) i"
proof (rule resolveInputs_cong [OF sound_facts(5) [OF assms(1)] assms(4)])
  fix k assume k: "k = i \<or> (k, i) \<in> (flow_rel p)\<^sup>+"
  show "outputsOf s k = fateOutputs ((F(i := None)) k) \<and> failuresOf s k = fateFailures ((F(i := None)) k)"
  proof (cases "k = i")
    case True
    with assms(3,4,6) show ?thesis by (simp add: settled_def)
  next
    case False
    with k have ki: "(k, i) \<in> (flow_rel p)\<^sup>+" by simp
    then obtain k' where "(k, k') \<in> flow_rel p" by (auto dest: tranclD)
    then have "k < nodeCount p" using flow_rel_range sound_facts(1) [OF assms(1)] by blast
    with assms(3) frontier_ancestors [OF assms(1,2) ki assms(5)] False show ?thesis by (auto simp: settled_def)
  qed
qed

lemma statusAt_setStatus [simp]:
  "i < length (xsNodes s) \<Longrightarrow> statusAt (setStatus i st s) k = (if k = i then st else statusAt s k)"
  by (simp add: statusAt_def setStatus_def nth_list_update)

lemma statusAt_fields [simp]:
  "statusAt (s\<lparr>xsReady := a\<rparr>) = statusAt s" "statusAt (s\<lparr>xsInflight := b\<rparr>) = statusAt s" "statusAt (s\<lparr>xsDone := c\<rparr>) = statusAt s"
  "statusAt (s\<lparr>xsSteps := d\<rparr>) = statusAt s" "statusAt (s\<lparr>xsTotal := d\<rparr>) = statusAt s" "statusAt (s\<lparr>xsHandled := e\<rparr>) = statusAt s"
  "statusAt (s\<lparr>xsOutputs := f\<rparr>) = statusAt s" "statusAt (s\<lparr>xsFailures := f\<rparr>) = statusAt s" "statusAt (s\<lparr>xsPause := g\<rparr>) = statusAt s"
  "statusAt (s\<lparr>xsPauseRequested := e\<rparr>) = statusAt s" "statusAt (s\<lparr>xsBeforePassed := a\<rparr>) = statusAt s"
  by (simp_all add: statusAt_def [abs_def])

lemma setStatus_simps [simp]:
  "xsEdges (setStatus i st s) = xsEdges s" "xsOutputs (setStatus i st s) = xsOutputs s" "xsFailures (setStatus i st s) = xsFailures s"
  "xsReady (setStatus i st s) = xsReady s" "xsInflight (setStatus i st s) = xsInflight s" "xsDone (setStatus i st s) = xsDone s"
  "xsSteps (setStatus i st s) = xsSteps s" "xsTotal (setStatus i st s) = xsTotal s" "xsHandled (setStatus i st s) = xsHandled s"
  "xsInput (setStatus i st s) = xsInput s" "length (xsNodes (setStatus i st s)) = length (xsNodes s)"
  "xsPauseRequested (setStatus i st s) = xsPauseRequested s" "xsPause (setStatus i st s) = xsPause s" "xsHost (setStatus i st s) = xsHost s"
  "xsSignal (setStatus i st s) = xsSignal s" "xsBeforePassed (setStatus i st s) = xsBeforePassed s" "xsEvents (setStatus i st s) = xsEvents s"
  by (simp_all add: setStatus_def)

lemma emit_simps [simp]:
  "xsEdges (emit ev s) = xsEdges s" "xsOutputs (emit ev s) = xsOutputs s" "xsFailures (emit ev s) = xsFailures s"
  "xsReady (emit ev s) = xsReady s" "xsInflight (emit ev s) = xsInflight s" "xsDone (emit ev s) = xsDone s"
  "xsSteps (emit ev s) = xsSteps s" "xsTotal (emit ev s) = xsTotal s" "xsHandled (emit ev s) = xsHandled s"
  "xsInput (emit ev s) = xsInput s" "xsNodes (emit ev s) = xsNodes s" "statusAt (emit ev s) = statusAt s"
  "xsPauseRequested (emit ev s) = xsPauseRequested s" "xsPause (emit ev s) = xsPause s" "xsHost (emit ev s) = xsHost s"
  "xsSignal (emit ev s) = xsSignal s" "xsBeforePassed (emit ev s) = xsBeforePassed s"
  by (simp_all add: emit_def statusAt_def [abs_def])

lemma foldl_update_nth:
  "k < length es \<Longrightarrow> foldl (\<lambda>es j. es[j := f j]) es js ! k = (if k \<in> set js then f k else es ! k)"
  by (induction js arbitrary: es) (auto simp: nth_list_update)

lemma foldl_update_length [simp]: "length (foldl (\<lambda>es j. es[j := f j]) es js) = length es"
  by (induction js arbitrary: es) auto

lemma setEdges_simps [simp]:
  "xsNodes (setEdges js f s) = xsNodes s" "xsOutputs (setEdges js f s) = xsOutputs s" "xsFailures (setEdges js f s) = xsFailures s"
  "xsReady (setEdges js f s) = xsReady s" "xsInflight (setEdges js f s) = xsInflight s" "xsDone (setEdges js f s) = xsDone s"
  "xsSteps (setEdges js f s) = xsSteps s" "xsTotal (setEdges js f s) = xsTotal s" "xsHandled (setEdges js f s) = xsHandled s"
  "xsInput (setEdges js f s) = xsInput s" "length (xsEdges (setEdges js f s)) = length (xsEdges s)" "statusAt (setEdges js f s) = statusAt s"
  "xsPauseRequested (setEdges js f s) = xsPauseRequested s" "xsPause (setEdges js f s) = xsPause s" "xsHost (setEdges js f s) = xsHost s"
  "xsSignal (setEdges js f s) = xsSignal s" "xsBeforePassed (setEdges js f s) = xsBeforePassed s" "xsEvents (setEdges js f s) = xsEvents s"
  by (simp_all add: setEdges_def statusAt_def [abs_def])

lemma setEdges_nth: "k < length (xsEdges s) \<Longrightarrow> xsEdges (setEdges js f s) ! k = (if k \<in> set js then f k else xsEdges s ! k)"
  by (simp add: setEdges_def foldl_update_nth)

text \<open>The invariant reads these fields only.\<close>

definition core :: "exec_state \<Rightarrow> exec_state" where
  "core s = s\<lparr>xsBeforePassed := [], xsPause := \<lparr>piBefore = [], piAfter = [], piRerun = []\<rparr>, xsPauseRequested := False,
     xsHost := False, xsSignal := False, xsEvents := []\<rparr>"

lemma flow_inv_core: "flow_inv p E input F (core s) = flow_inv p E input F s"
proof -
  have [simp]: "statusAt (core s) = statusAt s" "outputsOf (core s) = outputsOf s" "failuresOf (core s) = failuresOf s"
    by (simp_all add: core_def statusAt_def [abs_def] outputsOf_def [abs_def] failuresOf_def [abs_def])
  have [simp]: "xsEdges (core s) = xsEdges s" "xsNodes (core s) = xsNodes s" "xsOutputs (core s) = xsOutputs s" "xsFailures (core s) = xsFailures s"
    "xsReady (core s) = xsReady s" "xsInflight (core s) = xsInflight s" "xsDone (core s) = xsDone s" "xsSteps (core s) = xsSteps s"
    "xsTotal (core s) = xsTotal s" "xsHandled (core s) = xsHandled s" "xsInput (core s) = xsInput s"
    by (simp_all add: core_def)
  show ?thesis
    by (simp add: flow_inv_def shaped_def settled_def frontier_def queues_def counts_def finishedSet_def in_budget_def waiting_def)
qed

lemma flow_inv_same_core: "core s' = core s \<Longrightarrow> flow_inv p E input F s' = flow_inv p E input F s"
  using flow_inv_core by metis

lemma core_emit [simp]: "core (emit ev s) = core s"
  by (simp add: core_def emit_def)

lemma flow_inv_emit [simp]: "flow_inv p E input F (emit ev s) = flow_inv p E input F s"
  by (rule flow_inv_same_core) simp

subsection \<open>Nodes becoming ready or skipped\<close>

lemma finishedSet_finite [simp]: "finite (finishedSet p s)"
  by (simp add: finishedSet_def)

lemma waiting_finite [simp]: "finite (waiting p s)"
  by (simp add: waiting_def)

lemma outputsOf_same: "xsOutputs s' = xsOutputs s \<Longrightarrow> outputsOf s' = outputsOf s"
  by (simp add: outputsOf_def [abs_def])

lemma failuresOf_same: "xsFailures s' = xsFailures s \<Longrightarrow> failuresOf s' = failuresOf s"
  by (simp add: failuresOf_def [abs_def])

lemma pending_out:
  assumes "flow_inv p E input F s" "i < nodeCount p" "\<not> finished (statusAt s i)"
  shows "fateOutputs (if finished (statusAt s i) then F i else None) = None" "outputsOf s i = None" "failuresOf s i = None"
  using assms by (auto simp: flow_inv_def settled_def)

lemma queues_mem:
  assumes "queues p E input F s"
  shows "k \<in> set (xsReady s) \<or> k \<in> fst ` set (xsInflight s) \<longleftrightarrow> k < nodeCount p \<and> queued (statusAt s k)"
  using assms by (simp add: queues_def)

lemma markReady_inv:
  assumes "sound T p E input order F" "flow_inv p E input F s" "i < nodeCount p" "statusAt s i = NodePending"
    and "\<forall>j \<in> set (incoming p i). finished (statusAt s (peFrom (edgeAt p j)))" "runs p F i"
  shows "flow_inv p E input F (markReady i s)"
proof -
  define s' where "s' = (setStatus i NodeReady s)\<lparr>xsReady := xsReady s @ [i]\<rparr>"
  note i = assms(3,4)
  from assms(2) have inv: "shaped p input s" "settled p F s" "frontier p F s" "queues p E input F s" "counts p s" "in_budget p s"
    by (simp_all add: flow_inv_def)
  have len: "i < length (xsNodes s)" using inv(1) i by (simp add: shaped_def)
  have st: "statusAt s' k = (if k = i then NodeReady else statusAt s k)" for k
    using len by (simp add: s'_def)
  have o: "outputsOf s' = outputsOf s" "failuresOf s' = failuresOf s"
    by (rule outputsOf_same failuresOf_same, simp add: s'_def)+
  have f: "xsEdges s' = xsEdges s" "xsInflight s' = xsInflight s"
    "xsReady s' = xsReady s @ [i]" "xsDone s' = xsDone s" "xsHandled s' = xsHandled s" "xsSteps s' = xsSteps s" "xsTotal s' = xsTotal s"
    "xsInput s' = xsInput s"
    by (simp_all add: s'_def)
  have fin: "finished (statusAt s' k) = finished (statusAt s k)" for k using i by (simp add: st)
  have exc: "statusAt s' k = NodeException \<longleftrightarrow> statusAt s k = NodeException" for k using i by (simp add: st)
  have "shaped p input s'" using inv(1) by (simp add: shaped_def s'_def)
  moreover have "settled p F s'" using inv(2) i by (auto simp: settled_def o f fin st)
  moreover have "frontier p F s'" unfolding frontier_def fin using inv(3) assms(5,6) i by (auto simp: frontier_def st)
  moreover have "queues p E input F s'"
  proof -
    have "i \<notin> set (xsReady s)" "i \<notin> fst ` set (xsInflight s)" using queues_mem [OF inv(4), of i] i(2) by auto
    with inv(4) i show ?thesis unfolding queues_def f st by auto
  qed
  moreover have "counts p s'" using inv(5) by (simp add: counts_def finishedSet_def fin f exc)
  moreover have "waiting p s' = waiting p s" using i by (auto simp: waiting_def st f)
  then have "in_budget p s'" using inv(6) by (simp add: in_budget_def f)
  ultimately have "flow_inv p E input F s'" by (simp add: flow_inv_def)
  moreover have "markReady i s = emit (EvNodeReady i) s'" by (simp add: markReady_def s'_def)
  ultimately show ?thesis by simp
qed

lemma finishedSet_add:
  assumes "i < nodeCount p" "\<not> finished (statusAt s i)" "\<And>k. finished (statusAt s' k) \<longleftrightarrow> k = i \<or> finished (statusAt s k)"
  shows "card (finishedSet p s') = card (finishedSet p s) + 1"
proof -
  have "finishedSet p s' = insert i (finishedSet p s)" using assms by (auto simp: finishedSet_def)
  moreover have "i \<notin> finishedSet p s" using assms(2) by (simp add: finishedSet_def)
  ultimately show ?thesis by simp
qed

lemma skipNode_inv:
  assumes "sound T p E input order F" "flow_inv p E input F s" "i < nodeCount p" "statusAt s i = NodePending"
    and "\<forall>j \<in> set (incoming p i). finished (statusAt s (peFrom (edgeAt p j)))" "\<not> runs p F i"
  shows "flow_inv p E input F (skipNode p i s)"
proof -
  define s' where "s' = (setEdges (outgoing p i) (\<lambda>_. edgeSkipped) (setStatus i NodeSkipped s))\<lparr>xsDone := xsDone s + 1\<rparr>"
  note i = assms(3,4)
  note sf = sound_facts [OF assms(1)]
  from assms(2) have inv: "shaped p input s" "settled p F s" "frontier p F s" "queues p E input F s" "counts p s" "in_budget p s"
    by (simp_all add: flow_inv_def)
  have len: "i < length (xsNodes s)" using inv(1) i by (simp add: shaped_def)
  have st: "statusAt s' k = (if k = i then NodeSkipped else statusAt s k)" for k
    using len by (simp add: s'_def)
  have o: "outputsOf s' = outputsOf s" "failuresOf s' = failuresOf s"
    by (rule outputsOf_same failuresOf_same, simp add: s'_def)+
  have f: "xsInflight s' = xsInflight s"
    "xsReady s' = xsReady s" "xsDone s' = xsDone s + 1" "xsHandled s' = xsHandled s" "xsSteps s' = xsSteps s" "xsTotal s' = xsTotal s"
    "xsInput s' = xsInput s"
    by (simp_all add: s'_def)
  have ed: "xsEdges s' ! j = (if peFrom (edgeAt p j) = i then edgeSkipped else xsEdges s ! j)" if "j < length (plEdges p)" for j
    using that inv(1) i(1) sf(1) by (simp add: s'_def setEdges_nth shaped_def outgoing_set)
  have fin: "finished (statusAt s' k) \<longleftrightarrow> k = i \<or> finished (statusAt s k)" for k by (simp add: st)
  have Fi: "F i = Some FSkipped" using sf(8) [OF i(1)] assms(6) by (simp add: fateOf_def)
  have ef: "edgeFate p F j = edgeSkipped" if "peFrom (edgeAt p j) = i" for j using that by (simp add: edgeFate_def Fi)
  have exc: "statusAt s' k = NodeException \<longleftrightarrow> statusAt s k = NodeException" for k using i by (simp add: st)
  have "shaped p input s'" using inv(1) by (simp add: shaped_def s'_def)
  moreover have "settled p F s'" using inv(2) i Fi ef by (auto simp: settled_def o f st ed)
  moreover have "frontier p F s'" unfolding frontier_def fin using inv(3) assms(5) i by (auto simp: frontier_def st)
  moreover have "queues p E input F s'"
  proof -
    have "i \<notin> set (xsReady s)" "i \<notin> fst ` set (xsInflight s)" using queues_mem [OF inv(4), of i] i(2) by auto
    with inv(4) i show ?thesis unfolding queues_def f st by auto
  qed
  moreover have "counts p s'" using inv(5) finishedSet_add [OF i(1) _ fin] i(2) by (simp add: counts_def f exc)
  moreover have "in_budget p s'"
  proof -
    have "i \<notin> set (xsReady s)" using queues_mem [OF inv(4), of i] i(2) by auto
    then have "waiting p s' = waiting p s - {i}" by (auto simp: waiting_def st f)
    then have "(\<Sum>k \<in> waiting p s'. int (maximumAttempts p k)) \<le> (\<Sum>k \<in> waiting p s. int (maximumAttempts p k))"
      by (intro sum_mono2) auto
    with inv(6) show ?thesis by (simp add: in_budget_def f)
  qed
  ultimately have "flow_inv p E input F s'" by (simp add: flow_inv_def)
  moreover have "skipNode p i s = emit (EvNodeSkipped i) s'" by (simp add: skipNode_def s'_def)
  ultimately show ?thesis by simp
qed

lemma settle_inv:
  assumes "sound T p E input order F" "flow_inv p E input F s" "i < nodeCount p" "settles p s i"
  shows "flow_inv p E input F (settle p i s)"
proof -
  note sf = sound_facts [OF assms(1)]
  from assms(4) have i: "statusAt s i = NodePending" "i \<noteq> plStart p" "\<And>j. j \<in> set (incoming p i) \<Longrightarrow> xsEdges s ! j \<noteq> edgePending"
    by (auto simp: settles_def incomingResolved_def list_all_iff)
  have e: "xsEdges s ! j = (if finished (statusAt s (peFrom (edgeAt p j))) then edgeFate p F j else edgePending)"
    if "j \<in> set (incoming p i)" for j
    using assms(2) that sf(1) assms(3) by (auto simp: flow_inv_def settled_def incoming_set)
  have fin: "\<forall>j \<in> set (incoming p i). finished (statusAt s (peFrom (edgeAt p j)))" using i(3) e by (metis (full_types))
  have "anyIncomingTaken p s i \<longleftrightarrow> runs p F i" using e fin i(2) by (auto simp: anyIncomingTaken_def list_ex_iff runs_def)
  with markReady_inv [OF assms(1-3) i(1) fin] skipNode_inv [OF assms(1-3) i(1) fin] show ?thesis by (simp add: settle_def)
qed

lemma advancePass_inv:
  assumes "sound T p E input order F" "flow_inv p E input F s" "\<forall>i \<in> set is. i < nodeCount p"
  shows "flow_inv p E input F (fst (advancePass p is (s, b)))"
  using assms(2,3)
proof (induction "is" arbitrary: s b)
  case Nil
  then show ?case by simp
next
  case (Cons i "is")
  then show ?case using settle_inv [OF assms(1) Cons.prems(1), of i] by simp
qed

lemma advancePass_stuck:
  "advancePass p is (s, False) = (s', False) \<Longrightarrow> s' = s \<and> (\<forall>i \<in> set is. \<not> settles p s i)"
proof (induction "is" arbitrary: s)
  case Nil
  then show ?case by simp
next
  case (Cons i "is")
  have "snd (advancePass p is (x, True))" for x by (induction "is" arbitrary: x) auto
  then show ?case using Cons by (auto split: if_splits) (metis snd_conv)+
qed

lemma advance_inv:
  assumes "sound T p E input order F" "flow_inv p E input F s"
  shows "flow_inv p E input F (advance_x p s) \<and> (\<forall>i < nodeCount p. \<not> settles p (advance_x p s) i)"
  using assms
proof (induction p s rule: advance_x.induct)
  case (1 p s)
  have n: "length (xsNodes s) = nodeCount p" using "1.prems"(2) by (simp add: flow_inv_def shaped_def)
  obtain s' b where a: "advancePass p [0..<length (xsNodes s)] (s, False) = (s', b)" by fastforce
  have inv: "flow_inv p E input F s'" using advancePass_inv [OF "1.prems", of "[0..<length (xsNodes s)]" False] a n by simp
  show ?case
  proof (cases b)
    case True
    from "1.IH" [OF a [symmetric] _ "1.prems"(1) inv] a True show ?thesis by (subst (1 2) advance_x.simps) simp
  next
    case False
    with advancePass_stuck a have "s' = s" "\<forall>i < nodeCount p. \<not> settles p s i" using n by auto
    with inv a False show ?thesis by (subst (1 2) advance_x.simps) simp
  qed
qed

subsection \<open>Launching\<close>

lemma maximumAttempts_pos: "1 \<le> maximumAttempts p i"
  by (simp add: maximumAttempts_def)

lemma ready_node:
  assumes "flow_inv p E input F s" "i \<in> set (xsReady s)"
  shows "i < nodeCount p" "queued (statusAt s i)" "statusAt s i \<noteq> NodePending" "\<not> finished (statusAt s i)"
proof -
  have "queues p E input F s" using assms(1) by (simp add: flow_inv_def)
  from queues_mem [OF this, of i] assms(2) show "i < nodeCount p" "queued (statusAt s i)" by auto
  then show "statusAt s i \<noteq> NodePending" "\<not> finished (statusAt s i)" by (auto simp: queued_def)
qed

lemma launch_inv:
  assumes "sound T p E input order F" "flow_inv p E input F s" "xsReady s = i # rs" "length (xsInflight s) < maxConcurrency p"
  shows "flow_inv p E input F (launch p E i (s\<lparr>xsReady := rs\<rparr>))"
proof -
  from assms(2) have inv: "shaped p input s" "settled p F s" "frontier p F s" "queues p E input F s" "counts p s" "in_budget p s"
    by (simp_all add: flow_inv_def)
  have mem: "i \<in> set (xsReady s)" using assms(3) by simp
  note i = ready_node [OF assms(2) mem]
  have dist: "i \<notin> set rs" "i \<notin> fst ` set (xsInflight s)" "distinct (rs @ map fst (xsInflight s))"
    using inv(4) assms(3) by (auto simp: queues_def)
  have wait: "waiting p s = insert i {k. k < nodeCount p \<and> (statusAt s k = NodePending \<or> k \<in> set rs)}"
    using i(1) assms(3) by (auto simp: waiting_def)
  have fresh: "i \<notin> {k. k < nodeCount p \<and> (statusAt s k = NodePending \<or> k \<in> set rs)}" using i(3) dist(1) by auto
  have sum: "(\<Sum>k \<in> waiting p s. int (maximumAttempts p k)) =
      int (maximumAttempts p i) + (\<Sum>k | k < nodeCount p \<and> (statusAt s k = NodePending \<or> k \<in> set rs). int (maximumAttempts p k))"
    unfolding wait using fresh by simp
  have res: "resolveInputs p E (xsInput s) (outputsOf (s\<lparr>xsReady := rs\<rparr>)) (failuresOf (s\<lparr>xsReady := rs\<rparr>)) i =
      resolveInputs p E input (\<lambda>k. fateOutputs ((F(i := None)) k)) (\<lambda>k. fateFailures ((F(i := None)) k)) i"
    using inputs_as_reference [OF assms(1) inv(3,2) i(1,3,4)] inv(1)
    by (simp add: shaped_def outputsOf_def [abs_def] failuresOf_def [abs_def])
  show ?thesis
  proof (cases "resolveInputs p E input (\<lambda>k. fateOutputs ((F(i := None)) k)) (\<lambda>k. fateFailures ((F(i := None)) k)) i")
    case (Inl e)
    define s' where "s' = s\<lparr>xsReady := rs, xsInflight := xsInflight s @ [(i, Unavailable e)]\<rparr>"
    have l: "launch p E i (s\<lparr>xsReady := rs\<rparr>) = s'" using res Inl by (simp add: launch_def s'_def)
    have ph: "phase_ok p E input F i (Unavailable e)" using Inl by (simp add: runNode_def)
    have f: "statusAt s' = statusAt s" "outputsOf s' = outputsOf s" "failuresOf s' = failuresOf s"
      by (simp_all add: s'_def outputsOf_def [abs_def] failuresOf_def [abs_def])
    have g: "xsInflight s' = xsInflight s @ [(i, Unavailable e)]" "xsReady s' = rs" by (simp_all add: s'_def)
    have w: "waiting p s' = {k. k < nodeCount p \<and> (statusAt s k = NodePending \<or> k \<in> set rs)}" by (simp add: waiting_def f g)
    have "shaped p input s'" "settled p F s'" "frontier p F s'" "counts p s'"
      using inv by (simp_all add: shaped_def settled_def frontier_def counts_def finishedSet_def f) (simp_all add: s'_def)
    moreover have "queues p E input F s'"
      using inv(4) assms(3,4) ph dist unfolding queues_def f g by auto
    moreover have "in_budget p s'" using inv(6) sum maximumAttempts_pos [of p i] by (simp add: in_budget_def w) (simp add: s'_def)
    ultimately show ?thesis by (simp add: flow_inv_def l)
  next
    case (Inr vs)
    define s' where "s' = (setStatus i NodeRunning s)\<lparr>xsReady := rs, xsInflight := xsInflight s @ [(i, Starting vs 1)]\<rparr>"
    have l: "launch p E i (s\<lparr>xsReady := rs\<rparr>) = s'" using res Inr by (simp add: launch_def s'_def setStatus_def)
    have ph: "phase_ok p E input F i (Starting vs 1)" using Inr maximumAttempts_pos [of p i] by (simp add: runNode_def)
    have len: "i < length (xsNodes s)" using inv(1) i by (simp add: shaped_def)
    have st: "statusAt s' k = (if k = i then NodeRunning else statusAt s k)" for k using len by (simp add: s'_def)
    have fin: "finished (statusAt s' k) = finished (statusAt s k)" and que: "queued (statusAt s' k) = queued (statusAt s k)"
      and pen: "statusAt s' k = NodePending \<longleftrightarrow> statusAt s k = NodePending" and exc: "statusAt s' k = NodeException \<longleftrightarrow> statusAt s k = NodeException" for k
      using i by (auto simp: st)
    have f: "outputsOf s' = outputsOf s" "failuresOf s' = failuresOf s"
      by (simp_all add: s'_def outputsOf_def [abs_def] failuresOf_def [abs_def])
    have g: "xsEdges s' = xsEdges s" "xsInflight s' = xsInflight s @ [(i, Starting vs 1)]" "xsReady s' = rs" "xsDone s' = xsDone s"
      "xsHandled s' = xsHandled s" "xsSteps s' = xsSteps s" "xsTotal s' = xsTotal s" by (simp_all add: s'_def)
    have w: "waiting p s' = {k. k < nodeCount p \<and> (statusAt s k = NodePending \<or> k \<in> set rs)}" by (simp add: waiting_def pen g)
    have "shaped p input s'" using inv(1) by (simp add: shaped_def s'_def)
    moreover have "settled p F s'" unfolding settled_def fin f g using inv(2) i by (auto simp: settled_def st)
    moreover have "frontier p F s'" unfolding frontier_def fin que pen using inv(3) by (simp add: frontier_def)
    moreover have "counts p s'" using inv(5) by (simp add: counts_def finishedSet_def fin exc g)
    moreover have "queues p E input F s'"
      using inv(4) assms(3,4) ph dist unfolding queues_def que g by auto
    moreover have "in_budget p s'" using inv(6) sum by (simp add: in_budget_def w g)
    ultimately show ?thesis by (simp add: flow_inv_def l)
  qed
qed

lemma launchReady_inv:
  assumes "sound T p E input order F" "flow_inv p E input F s"
  shows "flow_inv p E input F (launchReady p E None s) \<and>
    (xsReady (launchReady p E None s) = [] \<or> length (xsInflight (launchReady p E None s)) = maxConcurrency p)"
  using assms(2)
proof (induction "length (xsReady s)" arbitrary: s)
  case 0
  then show ?case by (simp add: launchReady.simps [of p E None s])
next
  case (Suc n)
  then obtain i rs where r: "xsReady s = i # rs" by (cases "xsReady s") auto
  show ?case
  proof (cases "length (xsInflight s) < maxConcurrency p")
    case True
    have "flow_inv p E input F (launch p E i (s\<lparr>xsReady := rs\<rparr>))" by (rule launch_inv [OF assms(1) Suc.prems r True])
    with Suc.hyps(1) [of "launch p E i (s\<lparr>xsReady := rs\<rparr>)"] Suc.hyps(2) r True show ?thesis
      by (simp add: launchReady.simps [of p E None s])
  next
    case False
    moreover have "length (xsInflight s) \<le> maxConcurrency p" using Suc.prems by (simp add: flow_inv_def queues_def)
    ultimately show ?thesis using Suc.prems r by (simp add: launchReady.simps [of p E None s])
  qed
qed

end
