(* ===== verification/FlowComplete.thy ===== *)
theory FlowComplete
  imports FlowInvariant
begin

section \<open>Workflow: attempts and completions against the reference\<close>

text \<open>
  A goroutine's step keeps the invariant, and the completion it sends is the one the reference has. The
  step limit is never hit while the budget covers every attempt of every node.
\<close>

lemma left_nonneg: "phase_ok p E input F i ph \<Longrightarrow> 0 \<le> left p (i, ph)"
  by (cases ph) auto

lemma queues_left_nonneg: "queues p E input F s \<Longrightarrow> x \<in> set (xsInflight s) \<Longrightarrow> 0 \<le> left p x"
  using left_nonneg by (cases x) (fastforce simp: queues_def)

lemma waiting_nonneg: "0 \<le> (\<Sum>k \<in> waiting p s. int (maximumAttempts p k))"
  by (rule sum_nonneg) simp

lemma sum_list_ge: "(\<And>x. x \<in> set xs \<Longrightarrow> 0 \<le> f x) \<Longrightarrow> k < length xs \<Longrightarrow> f (xs ! k) \<le> (\<Sum>x \<leftarrow> xs. f x :: int)"
proof (induction xs arbitrary: k)
  case Nil
  then show ?case by simp
next
  case (Cons a xs)
  have "0 \<le> (\<Sum>x \<leftarrow> xs. f x)" by (rule sum_list_nonneg) (use Cons.prems in auto)
  moreover have "0 \<le> f a" using Cons.prems by simp
  ultimately show ?case using Cons by (cases k) fastforce+
qed

lemma sum_list_replace: "k < length xs \<Longrightarrow> (\<Sum>x \<leftarrow> xs[k := y]. f x :: int) = (\<Sum>x \<leftarrow> xs. f x) - f (xs ! k) + f y"
proof (induction xs arbitrary: k)
  case Nil
  then show ?case by simp
next
  case (Cons a xs)
  then show ?case by (cases k) simp_all
qed

lemma dropNth_split: "k < length xs \<Longrightarrow> xs = take k xs @ xs ! k # drop (Suc k) xs"
  by (rule id_take_nth_drop)

lemma sum_list_dropNth: "k < length xs \<Longrightarrow> (\<Sum>x \<leftarrow> dropNth k xs. f x :: int) = (\<Sum>x \<leftarrow> xs. f x) - f (xs ! k)"
  by (subst (2) dropNth_split [of k xs]) (simp_all add: dropNth_def)

lemma dropNth_fst:
  assumes "k < length xs" "xs ! k = (i, ph)" "distinct (rs @ map fst xs)"
  shows "distinct (rs @ map fst (dropNth k xs))" "i \<notin> set rs" "i \<notin> fst ` set (dropNth k xs)"
    "fst ` set xs = insert i (fst ` set (dropNth k xs))"
proof -
  define ys zs where "ys = take k xs" and "zs = drop (Suc k) xs"
  have x: "xs = ys @ (i, ph) # zs" "dropNth k xs = ys @ zs"
    using dropNth_split [OF assms(1)] assms(2) by (auto simp: ys_def zs_def dropNth_def)
  with assms(3) show "distinct (rs @ map fst (dropNth k xs))" "i \<notin> set rs" "i \<notin> fst ` set (dropNth k xs)"
    "fst ` set xs = insert i (fst ` set (dropNth k xs))" by auto
qed

text \<open>The state with the node at place \<open>k\<close> of the flight in a new phase.\<close>

lemma rephase_inv:
  assumes "flow_inv p E input F s" "k < length (xsInflight s)" "xsInflight s ! k = (i, ph)" "phase_ok p E input F i ph'"
    and "xsSteps s' = xsSteps s + d" "xsTotal s' = xsTotal s + d" "left p (i, ph') + d = left p (i, ph)"
    and "xsInflight s' = (xsInflight s)[k := (i, ph')]" "xsNodes s' = xsNodes s" "xsEdges s' = xsEdges s" "xsOutputs s' = xsOutputs s"
    "xsFailures s' = xsFailures s" "xsReady s' = xsReady s" "xsDone s' = xsDone s" "xsHandled s' = xsHandled s" "xsInput s' = xsInput s"
  shows "flow_inv p E input F s'"
proof -
  from assms(1) have inv: "shaped p input s" "settled p F s" "frontier p F s" "queues p E input F s" "counts p s" "in_budget p s"
    by (simp_all add: flow_inv_def)
  have f: "statusAt s' = statusAt s" "outputsOf s' = outputsOf s" "failuresOf s' = failuresOf s"
    using assms(9,11,12) by (simp_all add: statusAt_def [abs_def] outputsOf_def [abs_def] failuresOf_def [abs_def])
  have w: "waiting p s' = waiting p s" by (simp add: waiting_def f assms(13))
  have fst: "map fst (xsInflight s') = map fst (xsInflight s)"
    using assms(2,3) by (simp add: assms(8) map_update list_update_same_conv)
  then have fsts: "fst ` set (xsInflight s') = fst ` set (xsInflight s)" by (metis set_map)
  have "shaped p input s'" "settled p F s'" "frontier p F s'" "counts p s'"
    using inv by (simp_all add: shaped_def settled_def frontier_def counts_def finishedSet_def f assms(9-12,14-16))
  moreover have "queues p E input F s'"
  proof -
    have "\<forall>x \<in> set (xsInflight s'). case x of (i, ph) \<Rightarrow> phase_ok p E input F i ph"
      using inv(4) assms(4) set_update_subset_insert [of "xsInflight s" k "(i, ph')"] by (auto simp: queues_def assms(8))
    with inv(4) show ?thesis by (simp add: queues_def f assms(8,13) fst [unfolded assms(8)] fsts [unfolded assms(8)])
  qed
  moreover have "in_budget p s'"
    using inv(6) assms(2,3,7) by (simp add: in_budget_def w assms(5,6,8) sum_list_replace)
  ultimately show ?thesis by (simp add: flow_inv_def)
qed

lemma step_allowed:
  assumes "flow_inv p E input F s" "k < length (xsInflight s)" "xsInflight s ! k = (i, Starting vs a)"
  shows "\<not> stepLimitExceeded p s"
proof -
  from assms(1) have inv: "queues p E input F s" "in_budget p s" by (simp_all add: flow_inv_def)
  have mem: "(i, Starting vs a) \<in> set (xsInflight s)" using assms(2,3) by (metis nth_mem)
  then have "1 \<le> left p (i, Starting vs a)" using inv(1) by (fastforce simp: queues_def)
  moreover have "left p (i, Starting vs a) \<le> (\<Sum>x \<leftarrow> xsInflight s. left p x)"
    using sum_list_ge [of "xsInflight s" "left p", OF _ assms(2)] queues_left_nonneg [OF inv(1)] assms(3) by simp
  ultimately show ?thesis using inv(2) waiting_nonneg [of p s] by (simp add: in_budget_def stepLimitExceeded_def Let_def)
qed

text \<open>The two outcomes of a goroutine's step.\<close>

lemma goOn_inv:
  assumes "flow_inv p E input F s" "k < length (xsInflight s)" "xsInflight s ! k = (i, ph)" "goOn p E i ph s = (r, s')"
  shows "case r of
      Inl ph' \<Rightarrow> flow_inv p E input F (s'\<lparr>xsInflight := (xsInflight s')[k := (i, ph')]\<rparr>)
    | Inr c \<Rightarrow> c = runNode p E input F i \<and> core s' = core s"
proof -
  have ph: "phase_ok p E input F i ph"
    using assms(1-3) nth_mem [OF assms(2)] by (fastforce simp: flow_inv_def queues_def)
  show ?thesis
  proof (cases ph)
    case (Unavailable e)
    with ph assms(4) show ?thesis by (auto simp: goOn_def)
  next
    case (Starting vs a)
    have n: "\<not> stepLimitExceeded p s" using step_allowed assms(1-3) Starting by blast
    with assms(4) Starting have r: "r = Inl (Invoking vs a)" "s' = emit (EvNodeStarted i a) (s\<lparr>xsSteps := xsSteps s + 1, xsTotal := xsTotal s + 1\<rparr>)"
      by (auto simp: goOn_def Let_def)
    have "flow_inv p E input F (s'\<lparr>xsInflight := (xsInflight s')[k := (i, Invoking vs a)]\<rparr>)"
      by (rule rephase_inv [OF assms(1-3), of "Invoking vs a" _ 1]) (use ph Starting r(2) in simp_all)
    then show ?thesis by (simp add: r(1))
  next
    case (Invoking vs a)
    note at = attempts.simps [of p E i vs "maximumAttempts p i - a" a]
    from ph Invoking have a: "1 \<le> a" "a \<le> maximumAttempts p i" "runNode p E input F i = attempts p E i vs (maximumAttempts p i - a) a"
      by simp_all
    show ?thesis
    proof (cases "invokeAttempt p E i vs a")
      case (Inr vr)
      obtain out rt where vr: "vr = (out, rt)" by (cases vr)
      from assms(4) Invoking Inr vr have "r = Inr (succeeded i out rt a)" "s' = emit (EvNodeCompleted i a) s" by (auto simp: goOn_def)
      with a(3) at Inr vr show ?thesis by simp
    next
      case (Inl kde)
      obtain kd e where kde: "kde = (kd, e)" by (cases kde)
      show ?thesis
      proof (cases "terminalAttempt a (maximumAttempts p i) kd")
        case True
        with assms(4) Invoking Inl kde have "r = Inr (failed i e kd a)" "s' = emit (EvNodeFailed i a kd) s" by (auto simp: goOn_def Let_def)
        with a(3) at Inl kde True show ?thesis by simp
      next
        case False
        with assms(4) Invoking Inl kde have r: "r = Inl (Starting vs (a + 1))"
          "s' = emit (EvNodeRetrying i (a + 1)) (emit (EvNodeFailed i a kd) s)" by (auto simp: goOn_def Let_def)
        have lt: "a < maximumAttempts p i" using False a(2) by (auto simp: terminalAttempt_def)
        then obtain m where m: "maximumAttempts p i - a = Suc m" by (metis Suc_diff_Suc)
        have next_left: "maximumAttempts p i - Suc a = m" using m by simp
        from m have "runNode p E input F i = attempts p E i vs (maximumAttempts p i - (a + 1)) (a + 1)"
          using a(3) at Inl kde False by (simp add: next_left)
        then have "flow_inv p E input F (s'\<lparr>xsInflight := (xsInflight s')[k := (i, Starting vs (a + 1))]\<rparr>)"
          by (intro rephase_inv [OF assms(1-3), of "Starting vs (a + 1)" _ 0]) (use Invoking lt r(2) in simp_all)
        then show ?thesis by (simp add: r(1))
      qed
    qed
  qed
qed

subsection \<open>Completions\<close>

text \<open>A node leaves the flight with the fate the reference gives it.\<close>

lemma finish_inv:
  assumes "sound T p E input order F" "flow_inv p E input F s" "k < length (xsInflight s)" "xsInflight s ! k = (i, ph)"
    and "F i = Some (FDone out d r a)"
    and "\<And>n. n < nodeCount p \<Longrightarrow> statusAt s' n = (if n = i then fateStatus (FDone out d r a) else statusAt s n)"
    and "\<And>n. n < nodeCount p \<Longrightarrow> outputsOf s' n = (if n = i then out else outputsOf s n)"
    and "\<And>n. n < nodeCount p \<Longrightarrow> failuresOf s' n = (if n = i then d else failuresOf s n)"
    and "\<And>j. j < length (plEdges p) \<Longrightarrow> xsEdges s' ! j = (if peFrom (edgeAt p j) = i
        then (if peRoute (edgeAt p j) = r then edgeTaken else edgeSkipped) else xsEdges s ! j)"
    and "shaped p input s'" "xsInflight s' = dropNth k (xsInflight s)" "xsReady s' = xsReady s" "xsDone s' = xsDone s + 1"
    and "xsSteps s' = xsSteps s" "xsTotal s' = xsTotal s" "xsHandled s' \<longleftrightarrow> xsHandled s \<or> d \<noteq> None"
  shows "flow_inv p E input F s'"
proof -
  from assms(2) have inv: "shaped p input s" "settled p F s" "frontier p F s" "queues p E input F s" "counts p s" "in_budget p s"
    by (simp_all add: flow_inv_def)
  note sf = sound_facts [OF assms(1)]
  have mem: "(i, ph) \<in> set (xsInflight s)" using assms(3,4) by (metis nth_mem)
  then have mem': "i \<in> fst ` set (xsInflight s)" by force
  then have i: "i < nodeCount p" "queued (statusAt s i)" using queues_mem [OF inv(4), of i] by auto
  have i': "\<not> finished (statusAt s i)" "statusAt s i \<noteq> NodePending" "statusAt s i \<noteq> NodeException" using i(2) by (auto simp: queued_def)
  have fs: "finished (fateStatus (FDone out d r a))" "\<not> queued (fateStatus (FDone out d r a))" "fateStatus (FDone out d r a) \<noteq> NodePending"
    by (cases d; simp)+
  have fin: "finished (statusAt s' n) \<longleftrightarrow> n = i \<or> finished (statusAt s n)" and pen: "statusAt s' n = NodePending \<longleftrightarrow> statusAt s n = NodePending"
    and que: "queued (statusAt s' n) \<longleftrightarrow> n \<noteq> i \<and> queued (statusAt s n)" if "n < nodeCount p" for n
    using fs i' by (simp_all add: assms(6) [OF that])
  have exc: "statusAt s' n = NodeException \<longleftrightarrow> statusAt s n = NodeException \<or> n = i \<and> d \<noteq> None" if "n < nodeCount p" for n
    using i' by (cases d) (auto simp: assms(6) [OF that])
  have dist: "distinct (xsReady s' @ map fst (xsInflight s'))" "i \<notin> set (xsReady s)" "i \<notin> fst ` set (dropNth k (xsInflight s))"
    "fst ` set (xsInflight s) = insert i (fst ` set (xsInflight s'))"
    using dropNth_fst [OF assms(3,4), of "xsReady s"] inv(4) by (simp_all add: queues_def assms(11,12))
  have sub: "set (xsInflight s') \<subseteq> set (xsInflight s)" by (auto simp: assms(11) dropNth_def dest: in_set_takeD in_set_dropD)
  have "settled p F s'"
    unfolding settled_def
  proof (intro conjI allI impI)
    fix n assume n: "n < nodeCount p"
    show "\<exists>f. F n = Some f \<and> statusAt s' n = fateStatus f" if "finished (statusAt s' n)"
      using that n inv(2) assms(5) by (cases "n = i") (auto simp: assms(6) settled_def)
    show "outputsOf s' n = (if finished (statusAt s' n) then fateOutputs (F n) else None)"
      using n inv(2) assms(5) by (cases "n = i") (auto simp: assms(7) fin settled_def)
    show "failuresOf s' n = (if finished (statusAt s' n) then fateFailures (F n) else None)"
      using n inv(2) assms(5) by (cases "n = i") (auto simp: assms(8) fin settled_def)
  next
    fix j assume j: "j < length (plEdges p)"
    have "peFrom (edgeAt p j) < nodeCount p" using edge_range [OF sf(1) j] by simp
    then show "xsEdges s' ! j = (if finished (statusAt s' (peFrom (edgeAt p j))) then edgeFate p F j else edgePending)"
      using j inv(2) assms(5) by (auto simp: assms(9) fin settled_def edgeFate_def)
  qed
  moreover have "frontier p F s'"
    unfolding frontier_def
  proof (intro conjI allI impI ballI)
    show "statusAt s' (plStart p) \<noteq> NodePending" using inv(3) pen [OF sf(3)] by (simp add: frontier_def)
    fix n assume n: "n < nodeCount p"
    show "statusAt s' n = NodePending \<or> queued (statusAt s' n) \<or> finished (statusAt s' n)"
      using inv(3) n by (auto simp: frontier_def pen que fin)
    show "runs p F n" if "queued (statusAt s' n)" using that inv(3) n by (simp add: frontier_def que)
    fix j assume j: "statusAt s' n \<noteq> NodePending" "j \<in> set (incoming p n)"
    then have "peFrom (edgeAt p j) < nodeCount p" using edge_range [OF sf(1)] incoming_set [OF sf(1) n] by blast
    with j inv(3) n show "finished (statusAt s' (peFrom (edgeAt p j)))" by (auto simp: frontier_def pen fin)
  qed
  moreover have "queues p E input F s'"
    unfolding queues_def
  proof (intro conjI allI)
    show "distinct (xsReady s' @ map fst (xsInflight s'))" by (rule dist(1))
    show "k \<in> set (xsReady s') \<or> k \<in> fst ` set (xsInflight s') \<longleftrightarrow> k < nodeCount p \<and> queued (statusAt s' k)" for k
      using queues_mem [OF inv(4), of k] dist(2-4) que [of k] by (auto simp: assms(12) assms(11))
    show "\<forall>(i, ph) \<in> set (xsInflight s'). phase_ok p E input F i ph" using inv(4) sub by (auto simp: queues_def)
    show "length (xsInflight s') \<le> maxConcurrency p" using inv(4) assms(3) by (auto simp: queues_def assms(11) dropNth_def)
  qed
  moreover have "counts p s'"
  proof -
    have "finishedSet p s' = insert i (finishedSet p s)" using i(1) by (auto simp: finishedSet_def fin)
    moreover have "i \<notin> finishedSet p s" using i' by (simp add: finishedSet_def)
    ultimately have "card (finishedSet p s') = card (finishedSet p s) + 1" by simp
    moreover have "(\<exists>n < nodeCount p. statusAt s' n = NodeException) \<longleftrightarrow> (\<exists>n < nodeCount p. statusAt s n = NodeException) \<or> d \<noteq> None"
      using i(1) exc by blast
    ultimately show ?thesis using inv(5) by (simp add: counts_def assms(13,16))
  qed
  moreover have "in_budget p s'"
  proof -
    have "waiting p s' = waiting p s" using pen by (auto simp: waiting_def assms(12))
    moreover have "0 \<le> left p (i, ph)" by (rule queues_left_nonneg [OF inv(4) mem])
    ultimately show ?thesis using inv(6) by (simp add: in_budget_def assms(11,14,15) sum_list_dropNth assms(3,4))
  qed
  ultimately show ?thesis using assms(10) by (simp add: flow_inv_def)
qed

lemma core_eq_fields:
  assumes "core t = core s"
  shows "xsEdges t = xsEdges s" "xsNodes t = xsNodes s" "xsOutputs t = xsOutputs s" "xsFailures t = xsFailures s"
    "xsReady t = xsReady s" "xsInflight t = xsInflight s" "xsDone t = xsDone s" "xsSteps t = xsSteps s" "xsTotal t = xsTotal s"
    "xsHandled t = xsHandled s" "xsInput t = xsInput s"
proof -
  have f: "xsEdges (core u) = xsEdges u" "xsNodes (core u) = xsNodes u" "xsOutputs (core u) = xsOutputs u" "xsFailures (core u) = xsFailures u"
    "xsReady (core u) = xsReady u" "xsInflight (core u) = xsInflight u" "xsDone (core u) = xsDone u" "xsSteps (core u) = xsSteps u"
    "xsTotal (core u) = xsTotal u" "xsHandled (core u) = xsHandled u" "xsInput (core u) = xsInput u" for u
    by (simp_all add: core_def)
  show "xsEdges t = xsEdges s" "xsNodes t = xsNodes s" "xsOutputs t = xsOutputs s" "xsFailures t = xsFailures s"
    "xsReady t = xsReady s" "xsInflight t = xsInflight s" "xsDone t = xsDone s" "xsSteps t = xsSteps s" "xsTotal t = xsTotal s"
    "xsHandled t = xsHandled s" "xsInput t = xsInput s"
    using assms f [of t] f [of s] by simp_all
qed

text \<open>The node at place \<open>k\<close> has left the flight and its edges are resolved along \<open>r\<close>.\<close>

lemma resolved_inv:
  assumes "sound T p E input order F" "flow_inv p E input F s" "k < length (xsInflight s)" "xsInflight s ! k = (i, ph)"
    and "core t = core (s\<lparr>xsInflight := dropNth k (xsInflight s)\<rparr>)" "F i = Some (FDone out d r a)"
    and "s' = (resolveOutgoing p i r u)\<lparr>xsDone := xsDone t + 1\<rparr>"
    and "nrStatus nd = fateStatus (FDone out d r a)" "xsNodes u = (xsNodes t)[i := nd]"
    and "xsOutputs u = (xsOutputs t)[i := out]" "xsFailures u = (xsFailures t)[i := d]"
    and "xsHandled u \<longleftrightarrow> xsHandled t \<or> d \<noteq> None" "xsEdges u = xsEdges t" "xsReady u = xsReady t" "xsInflight u = xsInflight t"
    and "xsSteps u = xsSteps t" "xsTotal u = xsTotal t" "xsInput u = xsInput t"
  shows "flow_inv p E input F s'"
proof (rule finish_inv [OF assms(1-4,6)])
  have sh: "shaped p input s" and sf: "edges_ok p" using assms(2) sound_facts [OF assms(1)] by (simp_all add: flow_inv_def)
  note t = core_eq_fields [OF assms(5)]
  have "(i, ph) \<in> set (xsInflight s)" using assms(3,4) by (metis nth_mem)
  then have "i \<in> fst ` set (xsInflight s)" by force
  then have i: "i < nodeCount p" using queues_mem [of p E input F s i] assms(2) by (auto simp: flow_inv_def)
  fix n assume n: "n < nodeCount p"
  show "statusAt s' n = (if n = i then fateStatus (FDone out d r a) else statusAt s n)"
    using n sh by (simp add: assms(7-9) statusAt_def resolveOutgoing_def t shaped_def nth_list_update)
  show "outputsOf s' n = (if n = i then out else outputsOf s n)"
    using n sh by (simp add: assms(7,10) outputsOf_def resolveOutgoing_def t shaped_def nth_list_update)
  show "failuresOf s' n = (if n = i then d else failuresOf s n)"
    using n sh by (simp add: assms(7,11) failuresOf_def resolveOutgoing_def t shaped_def nth_list_update)
next
  have sh: "shaped p input s" and sf: "edges_ok p" using assms(2) sound_facts [OF assms(1)] by (simp_all add: flow_inv_def)
  note t = core_eq_fields [OF assms(5)]
  have "(i, ph) \<in> set (xsInflight s)" using assms(3,4) by (metis nth_mem)
  then have "i \<in> fst ` set (xsInflight s)" by force
  then have i: "i < nodeCount p" using queues_mem [of p E input F s i] assms(2) by (auto simp: flow_inv_def)
  fix j assume j: "j < length (plEdges p)"
  show "xsEdges s' ! j = (if peFrom (edgeAt p j) = i then (if peRoute (edgeAt p j) = r then edgeTaken else edgeSkipped) else xsEdges s ! j)"
    using j sh i sf by (simp add: assms(7,13) resolveOutgoing_def t shaped_def setEdges_nth outgoing_set)
next
  note t = core_eq_fields [OF assms(5)]
  show "shaped p input s'" using assms(2)
    by (simp add: flow_inv_def shaped_def assms(7,9-11,13,18) resolveOutgoing_def t)
  show "xsInflight s' = dropNth k (xsInflight s)" "xsReady s' = xsReady s" "xsDone s' = xsDone s + 1" "xsSteps s' = xsSteps s"
    "xsTotal s' = xsTotal s" "xsHandled s' \<longleftrightarrow> xsHandled s \<or> d \<noteq> None"
    by (simp_all add: assms(7,12,14-17) resolveOutgoing_def t)
qed

lemma flying_fate:
  assumes "sound T p E input order F" "flow_inv p E input F s" "k < length (xsInflight s)" "xsInflight s ! k = (i, ph)"
  shows "i < nodeCount p" "queued (statusAt s i)" "F i = Some (conclude p E (runNode p E input F i))"
proof -
  have "(i, ph) \<in> set (xsInflight s)" using assms(3,4) by (metis nth_mem)
  then have "i \<in> fst ` set (xsInflight s)" by force
  then show i: "i < nodeCount p" "queued (statusAt s i)" using queues_mem [of p E input F s i] assms(2) by (auto simp: flow_inv_def)
  then have "runs p F i" using assms(2) by (simp add: flow_inv_def frontier_def)
  with sound_facts(8) [OF assms(1) i(1)] show "F i = Some (conclude p E (runNode p E input F i))" by (simp add: fateOf_def)
qed

lemma resolveOutgoing_simps [simp]:
  "xsNodes (resolveOutgoing p i r s) = xsNodes s" "xsOutputs (resolveOutgoing p i r s) = xsOutputs s"
  "xsFailures (resolveOutgoing p i r s) = xsFailures s" "xsReady (resolveOutgoing p i r s) = xsReady s"
  "xsInflight (resolveOutgoing p i r s) = xsInflight s" "xsDone (resolveOutgoing p i r s) = xsDone s"
  "xsPause (resolveOutgoing p i r s) = xsPause s" "xsHost (resolveOutgoing p i r s) = xsHost s"
  "xsPauseRequested (resolveOutgoing p i r s) = xsPauseRequested s" "xsSignal (resolveOutgoing p i r s) = xsSignal s"
  "xsBeforePassed (resolveOutgoing p i r s) = xsBeforePassed s"
  by (simp_all add: resolveOutgoing_def)

lemma recordNodeCompletion_simps [simp]:
  "xsReady (recordNodeCompletion c s) = xsReady s" "xsInflight (recordNodeCompletion c s) = xsInflight s"
  "xsDone (recordNodeCompletion c s) = xsDone s" "xsPause (recordNodeCompletion c s) = xsPause s"
  "xsHost (recordNodeCompletion c s) = xsHost s" "xsPauseRequested (recordNodeCompletion c s) = xsPauseRequested s"
  "xsSignal (recordNodeCompletion c s) = xsSignal s" "xsBeforePassed (recordNodeCompletion c s) = xsBeforePassed s"
  by (simp_all add: recordNodeCompletion_def Let_def)

text \<open>A node that succeeds: its edges are resolved, and a static interrupt after it is noted.\<close>

lemma completeNode_ok:
  assumes "cpErr c = None"
  shows "\<exists>b ps pr. completeNode p E c t = (None, (resolveOutgoing p (cpIndex c) (cpRoute c) (recordNodeCompletion c t))
    \<lparr>xsDone := xsDone t + 1, xsBeforePassed := b, xsPause := ps, xsPauseRequested := pr\<rparr>)"
proof -
  define r where "r = resolveOutgoing p (cpIndex c) (cpRoute c) (recordNodeCompletion c t)"
  have "\<exists>b ps pr. completeNode p E c t = (None, r\<lparr>xsDone := xsDone r + 1, xsBeforePassed := b, xsPause := ps, xsPauseRequested := pr\<rparr>)"
  proof (cases "cpIndex c \<in> set (plAfter p) \<or> xsHost t")
    case True
    have h: "xsHost r = xsHost t" by (simp add: r_def)
    from assms True show ?thesis
      unfolding completeNode_def Let_def r_def [symmetric] by (intro exI [of _ "filter (\<lambda>k. k \<noteq> cpIndex c) (xsBeforePassed r)"] exI) (auto simp: h)
  next
    case False
    have h: "xsHost r = xsHost t" by (simp add: r_def)
    from assms False show ?thesis
      unfolding completeNode_def Let_def r_def [symmetric]
      by (intro exI [of _ "filter (\<lambda>k. k \<noteq> cpIndex c) (xsBeforePassed r)"] exI [of _ "xsPause r"] exI [of _ "xsPauseRequested r"]) (auto simp: h)
  qed
  moreover have "xsDone r = xsDone t" by (simp add: r_def)
  ultimately show ?thesis by (simp add: r_def)
qed

lemma completeNode_inv:
  assumes "sound T p E input order F" "flow_inv p E input F s" "k < length (xsInflight s)" "xsInflight s ! k = (i, ph)"
    and "core t = core (s\<lparr>xsInflight := dropNth k (xsInflight s)\<rparr>)" "c = runNode p E input F i" "completeNode p E c t = (err, s')"
  shows "case err of None \<Rightarrow> flow_inv p E input F s' \<and> (\<exists>out d r a. F i = Some (FDone out d r a))
    | Some e \<Rightarrow> \<exists>a m. F i = Some (FFailed a m) \<and> e = RunError (Some i) a m"
proof -
  note i = flying_fate [OF assms(1-4), folded assms(6)]
  note goal = resolved_inv [OF assms(1-5)]
  have ci: "cpIndex c = i" using assms(6) by simp
  have nf: "\<not> finished (statusAt s i)" using i(2) by (auto simp: queued_def)
  note t = core_eq_fields [OF assms(5)]
  have none: "xsOutputs t ! i = None" "xsFailures t ! i = None"
    using pending_out [OF assms(2) i(1) nf] by (simp_all add: t outputsOf_def failuresOf_def)
  then have same: "(xsOutputs t)[i := None] = xsOutputs t" "(xsFailures t)[i := None] = xsFailures t"
    by (metis list_update_id)+
  show ?thesis
  proof (cases "cpErr c")
    case None
    let ?u = "recordNodeCompletion c t"
    let ?v = "(resolveOutgoing p i (cpRoute c) ?u)\<lparr>xsDone := xsDone t + 1\<rparr>"
    have F: "F i = Some (FDone (Some (cpValues c)) None (cpRoute c) (cpAttempts c))" using i(3) None by (simp add: conclude_def ci)
    have "flow_inv p E input F ?v"
      by (rule goal [OF F refl, where nd = "(xsNodes t ! i)\<lparr>nrAttempts := cpAttempts c, nrStatus := NodeSucceeded\<rparr>"])
        (simp_all add: recordNodeCompletion_def Let_def None ci same)
    moreover have "err = None" using assms(7) None by (simp add: completeNode_def Let_def)
    moreover have "core s' = core ?v" using completeNode_ok [OF None, of p E t] assms(7) ci by (auto simp: core_def)
    ultimately show ?thesis using flow_inv_same_core [of s' ?v] F by simp
  next
    case (Some e)
    let ?nd = "(xsNodes t ! i)\<lparr>nrAttempts := cpAttempts c, nrFailure := cpFailure c, nrStatus := NodeException\<rparr>"
    let ?pol = "nodePolicy (nodeAt p i)"
    have cn: "completeNode p E c t = completeFailedNode p E c (recordNodeCompletion c t)" using Some by (simp add: completeNode_def)
    have len: "i < length (xsNodes t)" using i(1) assms(2) by (simp add: t flow_inv_def shaped_def)
    consider (route) d where "npError ?pol = ErrorRoute" "newNodeFailureData E e (cpFailure c) = Some d"
      | (default) d where "npError ?pol = ErrorContinueWithDefault" "newNodeFailureData E e (cpFailure c) = Some d"
      | (lost) "npError ?pol = ErrorRoute \<or> npError ?pol = ErrorContinueWithDefault" "newNodeFailureData E e (cpFailure c) = None"
      | (stop) "npError ?pol \<noteq> ErrorRoute" "npError ?pol \<noteq> ErrorContinueWithDefault" by fastforce
    then show ?thesis
    proof cases
      case route
      have F: "F i = Some (FDone None (Some d) RouteError (cpAttempts c))" using i(3) Some route by (simp add: conclude_def ci)
      let ?u = "(setStatus i NodeException (recordNodeCompletion c t))\<lparr>xsFailures := (xsFailures t)[i := Some d], xsHandled := True\<rparr>"
      have e: "err = None" "s' = (resolveOutgoing p i RouteError ?u)\<lparr>xsDone := xsDone t + 1\<rparr>"
        using assms(7) cn Some route by (simp_all add: completeFailedNode_def Let_def ci handled_def recordNodeCompletion_def)
      have "flow_inv p E input F s'"
        by (rule goal [OF F e(2), where nd = ?nd])
          (simp_all add: recordNodeCompletion_def Let_def Some ci same setStatus_def len)
      with F e(1) show ?thesis by simp
    next
      case default
      have F: "F i = Some (FDone (Some (defaultPorts ?pol)) (Some d) RouteSuccess (cpAttempts c))"
        using i(3) Some default by (simp add: conclude_def ci)
      let ?u = "(setStatus i NodeException ((recordNodeCompletion c t)\<lparr>xsOutputs := (xsOutputs t)[i := Some (defaultPorts ?pol)]\<rparr>))
        \<lparr>xsFailures := (xsFailures t)[i := Some d], xsHandled := True\<rparr>"
      have e: "err = None" "s' = (resolveOutgoing p i RouteSuccess ?u)\<lparr>xsDone := xsDone t + 1\<rparr>"
        using assms(7) cn Some default by (simp_all add: completeFailedNode_def Let_def ci handled_def recordNodeCompletion_def)
      have "flow_inv p E input F s'"
        by (rule goal [OF F e(2), where nd = ?nd])
          (simp_all add: recordNodeCompletion_def Let_def Some ci same setStatus_def len)
      with F e(1) show ?thesis by simp
    next
      case lost
      then have "F i = Some (FFailed (cpAttempts c) (e @ [CHR 0x0A] @ ''materialize node error message''))"
        using i(3) Some by (auto simp: conclude_def ci)
      moreover have "err = Some (RunError (Some i) (cpAttempts c) (e @ [CHR 0x0A] @ ''materialize node error message''))"
        using assms(7) cn Some lost by (auto simp: completeFailedNode_def Let_def ci split: if_splits)
      ultimately show ?thesis by simp
    next
      case stop
      then have "F i = Some (FFailed (cpAttempts c) e)" using i(3) Some by (simp add: conclude_def ci)
      moreover have "err = Some (RunError (Some i) (cpAttempts c) e)"
        using assms(7) cn Some stop by (simp add: completeFailedNode_def Let_def ci)
      ultimately show ?thesis by simp
    qed
  qed
qed

end
