(* ===== verification/FlowTurns.thy ===== *)
theory FlowTurns
  imports FlowComplete
begin

section \<open>Workflow: turns of the scheduler\<close>

text \<open>
  What a turn keeps: the invariant against the reference, that no node waits to be settled unless the
  run is pausing, and that a pause the run asked for itself has something to report. Each turn in which a
  goroutine goes on uses up credit, so a run ends; and no turn of a run that nobody cancels finds the
  scheduler without a node to run.
\<close>

definition steady :: "flow_plan \<Rightarrow> exec_state \<Rightarrow> bool" where
  "steady p s \<longleftrightarrow> xsPauseRequested s \<or> (\<forall>i < nodeCount p. \<not> settles p s i)"

definition noted :: "exec_state \<Rightarrow> bool" where
  "noted s \<longleftrightarrow> (xsPauseRequested s \<longrightarrow> xsHost s \<or> \<not> interruptInfoEmpty (xsPause s))"

definition quiet :: "exec_state \<Rightarrow> bool" where
  "quiet s \<longleftrightarrow> \<not> xsSignal s \<and> \<not> xsHost s"

definition good :: "flow_plan \<Rightarrow> flow_env \<Rightarrow> ports \<Rightarrow> (nat \<Rightarrow> fate option) \<Rightarrow> exec_state \<Rightarrow> bool" where
  "good p E input F s \<longleftrightarrow> flow_inv p E input F s \<and> steady p s \<and> noted s"

definition calm :: "turn \<Rightarrow> bool" where
  "calm t \<longleftrightarrow> tuCancel t = None \<and> tuCancelLaunch t = None \<and> (\<forall>e. tuChoice t \<noteq> Cancel e)"

definition pauseView :: "exec_state \<Rightarrow> bool \<times> bool \<times> pause_info \<times> bool" where
  "pauseView s = (xsSignal s, xsHost s, xsPause s, xsPauseRequested s)"

lemma pauseView_same: "pauseView s' = pauseView s \<Longrightarrow>
    noted s' = noted s \<and> quiet s' = quiet s \<and> xsPauseRequested s' = xsPauseRequested s \<and> xsHost s' = xsHost s"
  by (simp add: pauseView_def noted_def quiet_def)

subsection \<open>Credit\<close>

fun weight :: "flow_plan \<Rightarrow> nat \<times> phase \<Rightarrow> nat" where
  "weight p (i, Unavailable e) = 1"
| "weight p (i, Starting vs a) = 2 * (maximumAttempts p i - a) + 2"
| "weight p (i, Invoking vs a) = 2 * (maximumAttempts p i - a) + 1"

definition idle :: "flow_plan \<Rightarrow> exec_state \<Rightarrow> nat set" where
  "idle p s = {i. i < nodeCount p \<and> \<not> finished (statusAt s i) \<and> i \<notin> fst ` set (xsInflight s)}"

definition credit :: "flow_plan \<Rightarrow> exec_state \<Rightarrow> nat" where
  "credit p s = (\<Sum>i \<in> idle p s. 2 * maximumAttempts p i) + (\<Sum>x \<leftarrow> xsInflight s. weight p x)"

lemma idle_finite [simp]: "finite (idle p s)"
  by (simp add: idle_def)

lemma weight_pos: "0 < weight p x"
  by (cases x; cases "snd x") auto

lemma credit_core: "core s' = core s \<Longrightarrow> credit p s' = credit p s"
  using core_eq_fields [of s' s] by (simp add: credit_def idle_def statusAt_def)

lemma credit_idle_mono: "idle p s' \<subseteq> idle p s \<Longrightarrow> xsInflight s' = xsInflight s \<Longrightarrow> credit p s' \<le> credit p s"
  unfolding credit_def by (intro add_mono sum_mono2) auto

lemma settle_credit:
  assumes "i < length (xsNodes s)" "\<not> finished (statusAt s i)"
  shows "credit p (settle p i s) \<le> credit p s"
proof (rule credit_idle_mono)
  show "idle p (settle p i s) \<subseteq> idle p s"
    using assms by (auto simp: idle_def settle_def markReady_def skipNode_def split: if_splits)
  show "xsInflight (settle p i s) = xsInflight s" by (simp add: settle_def markReady_def skipNode_def)
qed

lemma settle_pauseView: "pauseView (settle p i s) = pauseView s"
  by (simp add: pauseView_def settle_def markReady_def skipNode_def)

lemma advancePass_frame:
  assumes "\<forall>i \<in> set is. i < length (xsNodes s)"
  shows "credit p (fst (advancePass p is (s, b))) \<le> credit p s \<and> pauseView (fst (advancePass p is (s, b))) = pauseView s \<and>
    xsInflight (fst (advancePass p is (s, b))) = xsInflight s \<and> length (xsNodes (fst (advancePass p is (s, b)))) = length (xsNodes s)"
  using assms
proof (induction "is" arbitrary: s b)
  case Nil
  then show ?case by simp
next
  case (Cons i "is")
  show ?case
  proof (cases "settles p s i")
    case True
    then have "\<not> finished (statusAt s i)" by (simp add: settles_def)
    with Cons.prems have c: "credit p (settle p i s) \<le> credit p s" by (intro settle_credit) auto
    have l: "length (xsNodes (settle p i s)) = length (xsNodes s)" "xsInflight (settle p i s) = xsInflight s"
      by (simp_all add: settle_nodes) (simp add: settle_def markReady_def skipNode_def)
    from Cons.IH [of "settle p i s" True] Cons.prems l settle_pauseView [of p i s] c True show ?thesis by auto
  next
    case False
    with Cons show ?thesis by simp
  qed
qed

lemma advance_frame:
  "credit p (advance_x p s) \<le> credit p s \<and> pauseView (advance_x p s) = pauseView s \<and> xsInflight (advance_x p s) = xsInflight s"
proof (induction p s rule: advance_x.induct)
  case (1 p s)
  obtain s' b where a: "advancePass p [0..<length (xsNodes s)] (s, False) = (s', b)" by fastforce
  have f: "credit p s' \<le> credit p s" "pauseView s' = pauseView s" "xsInflight s' = xsInflight s"
    using advancePass_frame [of "[0..<length (xsNodes s)]" s p False] a by simp_all
  show ?case
  proof (cases b)
    case True
    from "1.IH" [OF a [symmetric]] a True f show ?thesis by (subst (1 2 3) advance_x.simps) simp
  next
    case False
    with a f show ?thesis by (subst (1 2 3) advance_x.simps) simp
  qed
qed

subsection \<open>Interrupt requests\<close>

lemma appendRerun_core [simp]: "core (appendRerun s i) = core s"
  by (simp add: appendRerun_def core_def)

lemma foldl_appendRerun:
  "core (foldl appendRerun s is) = core s \<and> xsHost (foldl appendRerun s is) = xsHost s \<and>
    xsPauseRequested (foldl appendRerun s is) = xsPauseRequested s"
proof (induction "is" arbitrary: s)
  case Nil
  then show ?case by simp
next
  case (Cons i "is")
  have "xsHost (appendRerun s i) = xsHost s" "xsPauseRequested (appendRerun s i) = xsPauseRequested s"
    by (simp_all add: appendRerun_def)
  with Cons show ?case by simp
qed

lemma poll_core [simp]: "core (poll b s) = core s"
proof -
  have "core (s\<lparr>xsSignal := False\<rparr>) = core s" "core (s\<lparr>xsSignal := False, xsHost := True, xsPauseRequested := True\<rparr>) = core s"
    by (simp_all add: core_def)
  then show ?thesis by (simp add: poll_def requestHostInterrupt_def foldl_appendRerun)
qed

lemma poll_quiet: "quiet s \<Longrightarrow> poll b s = s"
  by (simp add: poll_def quiet_def)

lemma poll_paused: "xsPauseRequested s \<Longrightarrow> xsPauseRequested (poll b s)"
  by (simp add: poll_def requestHostInterrupt_def foldl_appendRerun)

lemma poll_noted: "noted s \<Longrightarrow> noted (poll b s)"
  by (simp add: poll_def requestHostInterrupt_def foldl_appendRerun noted_def)

lemma settles_fields:
  assumes "xsEdges s' = xsEdges s" "\<And>k. k < nodeCount p \<Longrightarrow> statusAt s' k = NodePending \<Longrightarrow> statusAt s k = NodePending"
    and "xsPauseRequested s \<Longrightarrow> xsPauseRequested s'" "steady p s"
  shows "steady p s'"
  using assms by (auto simp: steady_def settles_def incomingResolved_def)

lemma steady_core: "core s' = core s \<Longrightarrow> (xsPauseRequested s \<Longrightarrow> xsPauseRequested s') \<Longrightarrow> steady p s \<Longrightarrow> steady p s'"
  using core_eq_fields [of s' s] by (intro settles_fields [of s' s]) (simp_all add: statusAt_def)

lemma poll_good: "good p E input F s \<Longrightarrow> good p E input F (poll b s)"
  using flow_inv_same_core [of "poll b s" s] steady_core [of "poll b s" s] poll_noted [of s b] poll_paused [of s b]
  by (simp add: good_def)

lemma before_core [simp]: "core (requestBeforeInterrupt p s) = core s"
  by (simp add: requestBeforeInterrupt_def core_def Let_def)

lemma before_good:
  assumes "good p E input F s"
  shows "good p E input F (requestBeforeInterrupt p s)" "quiet s \<Longrightarrow> quiet (requestBeforeInterrupt p s)"
proof -
  let ?s = "requestBeforeInterrupt p s"
  have "xsPauseRequested s \<Longrightarrow> xsPauseRequested ?s" by (simp add: requestBeforeInterrupt_def Let_def)
  moreover have "noted ?s"
    using assms by (simp add: good_def noted_def requestBeforeInterrupt_def Let_def interruptInfoEmpty_def)
  ultimately show "good p E input F ?s"
    using assms flow_inv_same_core [of ?s s] steady_core [of ?s s] by (simp add: good_def)
  show "quiet ?s" if "quiet s" using that by (simp add: quiet_def requestBeforeInterrupt_def Let_def)
qed

subsection \<open>Launching\<close>

lemma weight_first: "weight p (i, Starting vs (Suc 0)) = 2 * maximumAttempts p i"
  using maximumAttempts_pos [of p i] by simp

lemma launch_good:
  assumes "sound T p E input order F" "good p E input F s" "xsReady s = i # rs" "length (xsInflight s) < maxConcurrency p"
  shows "good p E input F (launch p E i (s\<lparr>xsReady := rs\<rparr>))" "pauseView (launch p E i (s\<lparr>xsReady := rs\<rparr>)) = pauseView s"
    "credit p (launch p E i (s\<lparr>xsReady := rs\<rparr>)) \<le> credit p s"
proof -
  let ?s = "launch p E i (s\<lparr>xsReady := rs\<rparr>)"
  have inv: "flow_inv p E input F s" using assms(2) by (simp add: good_def)
  have i: "i < nodeCount p" "\<not> finished (statusAt s i)" "statusAt s i \<noteq> NodePending" using ready_node [OF inv, of i] assms(3) by simp_all
  have fresh: "i \<notin> fst ` set (xsInflight s)" using inv assms(3) by (auto simp: flow_inv_def queues_def)
  have len: "i < length (xsNodes s)" using inv i by (simp add: flow_inv_def shaped_def)
  then have st: "statusAt ?s k = statusAt s k \<or> k = i \<and> statusAt ?s k = NodeRunning" for k
    by (simp add: launch_def statusAt_def setStatus_def nth_list_update split: sum.splits)
  show pv: "pauseView ?s = pauseView s" by (simp add: launch_def pauseView_def split: sum.splits)
  have "steady p ?s"
  proof (rule settles_fields [where s = s])
    show "xsEdges ?s = xsEdges s" by (simp add: launch_def split: sum.splits)
    show "statusAt s k = NodePending" if "statusAt ?s k = NodePending" for k using st [of k] that by auto
    show "xsPauseRequested ?s" if "xsPauseRequested s" using that pauseView_same [OF pv] by simp
    show "steady p s" using assms(2) by (simp add: good_def)
  qed
  with launch_inv [OF assms(1) inv assms(3,4)] assms(2) pauseView_same [OF pv] show "good p E input F ?s" by (simp add: good_def)
  obtain ph where ph: "xsInflight ?s = xsInflight s @ [(i, ph)]" "weight p (i, ph) \<le> 2 * maximumAttempts p i"
    using maximumAttempts_pos [of p i] weight_first by (fastforce simp: launch_def split: sum.splits)
  have "idle p s = insert i (idle p s - {i})" using i fresh by (auto simp: idle_def)
  then have "(\<Sum>k \<in> idle p s. 2 * maximumAttempts p k) = 2 * maximumAttempts p i + (\<Sum>k \<in> idle p s - {i}. 2 * maximumAttempts p k)"
    by (metis Diff_iff finite_Diff idle_finite insert_iff singletonI sum.insert)
  moreover have "idle p ?s \<subseteq> idle p s - {i}"
    using st ph(1) by (force simp: idle_def)
  then have "(\<Sum>k \<in> idle p ?s. 2 * maximumAttempts p k) \<le> (\<Sum>k \<in> idle p s - {i}. 2 * maximumAttempts p k)"
    by (intro sum_mono2) auto
  ultimately show "credit p ?s \<le> credit p s" using ph by (simp add: credit_def)
qed

lemma launchReady_good:
  assumes "sound T p E input order F" "good p E input F s"
  shows "good p E input F (launchReady p E None s) \<and> pauseView (launchReady p E None s) = pauseView s \<and>
    credit p (launchReady p E None s) \<le> credit p s"
  using assms(2)
proof (induction "length (xsReady s)" arbitrary: s)
  case 0
  then show ?case by (simp add: launchReady.simps [of p E None s])
next
  case (Suc n)
  then obtain i rs where r: "xsReady s = i # rs" by (cases "xsReady s") auto
  show ?case
  proof (cases "length (xsInflight s) < maxConcurrency p")
    case True
    note l = launch_good [OF assms(1) Suc.prems r True]
    from Suc.hyps(1) [of "launch p E i (s\<lparr>xsReady := rs\<rparr>)"] Suc.hyps(2) r True l show ?thesis
      by (simp add: launchReady.simps [of p E None s])
  next
    case False
    then show ?thesis using Suc.prems r by (simp add: launchReady.simps [of p E None s])
  qed
qed

subsection \<open>A goroutine goes on\<close>

lemma goOn_frame: "goOn p E i ph s = (r, s') \<Longrightarrow> pauseView s' = pauseView s \<and> xsInflight s' = xsInflight s \<and> xsEdges s' = xsEdges s \<and>
    xsNodes s' = xsNodes s"
  by (auto simp: goOn_def Let_def pauseView_def split: phase.splits sum.splits if_splits)

lemma goOn_weight: "goOn p E i ph s = (Inl ph', s') \<Longrightarrow> phase_ok p E input F i ph \<Longrightarrow> weight p (i, ph') < weight p (i, ph)"
  by (auto simp: goOn_def Let_def terminalAttempt_def split: phase.splits sum.splits if_splits)

lemma sum_list_replace_nat:
  "k < length xs \<Longrightarrow> (\<Sum>x \<leftarrow> xs[k := y]. f x :: nat) + f (xs ! k) = (\<Sum>x \<leftarrow> xs. f x) + f y"
proof (induction xs arbitrary: k)
  case Nil
  then show ?case by simp
next
  case (Cons a xs)
  then show ?case by (cases k) (simp_all add: algebra_simps)
qed

lemma sum_list_dropNth_nat: "k < length xs \<Longrightarrow> (\<Sum>x \<leftarrow> dropNth k xs. f x :: nat) + f (xs ! k) = (\<Sum>x \<leftarrow> xs. f x)"
  by (subst (3) dropNth_split [of k xs]) (simp_all add: dropNth_def)

lemma flying_phase:
  assumes "flow_inv p E input F s" "k < length (xsInflight s)" "xsInflight s ! k = (i, ph)"
  shows "phase_ok p E input F i ph"
  using assms nth_mem [OF assms(2)] by (fastforce simp: flow_inv_def queues_def)

lemma rephase_good:
  assumes "good p E input F s" "k < length (xsInflight s)" "xsInflight s ! k = (i, ph)" "goOn p E i ph s = (Inl ph', s1)"
    and "s' = s1\<lparr>xsInflight := (xsInflight s1)[k := (i, ph')]\<rparr>"
  shows "good p E input F s'" "pauseView s' = pauseView s" "credit p s' < credit p s"
proof -
  note f = goOn_frame [OF assms(4)]
  from assms(1) have inv: "flow_inv p E input F s" by (simp add: good_def)
  show pv: "pauseView s' = pauseView s" using f by (simp add: pauseView_def assms(5))
  have "flow_inv p E input F s'" using goOn_inv [OF inv assms(2-4)] by (simp add: assms(5))
  moreover have st: "statusAt s' = statusAt s" using f by (simp add: assms(5) statusAt_def [abs_def])
  moreover have "steady p s'"
    by (rule settles_fields [where s = s]) (use f assms(1) pauseView_same [OF pv] in \<open>simp_all add: assms(5) st good_def statusAt_def\<close>)
  ultimately show "good p E input F s'" using assms(1) pauseView_same [OF pv] by (simp add: good_def)
  have fl: "xsInflight s' = (xsInflight s)[k := (i, ph')]" using f by (simp add: assms(5))
  have "map fst (xsInflight s') = map fst (xsInflight s)"
    using assms(2,3) by (simp add: fl map_update list_update_same_conv)
  then have "fst ` set (xsInflight s') = fst ` set (xsInflight s)" by (metis set_map)
  then have "idle p s' = idle p s" by (simp add: idle_def st)
  moreover have "weight p (i, ph') < weight p (i, ph)" by (rule goOn_weight [OF assms(4) flying_phase [OF inv assms(2,3)]])
  ultimately show "credit p s' < credit p s"
    using sum_list_replace_nat [OF assms(2), of "weight p" "(i, ph')"] assms(3) by (simp add: credit_def fl)
qed

subsection \<open>A completion is received\<close>

lemma handled_nodes:
  "xsNodes (handled p i d r s) = (xsNodes s)[i := (xsNodes s ! i)\<lparr>nrStatus := NodeException\<rparr>]"
  "pauseView (handled p i d r s) = pauseView s" "xsInflight (handled p i d r s) = xsInflight s"
  by (simp_all add: handled_def pauseView_def) (simp add: setStatus_def)

lemma record_pauseView [simp]: "pauseView (recordNodeCompletion c s) = pauseView s"
  by (simp add: pauseView_def)

lemma record_nodes:
  "\<exists>nd. xsNodes (recordNodeCompletion c s) = (xsNodes s)[cpIndex c := nd] \<and> (cpErr c = None \<longrightarrow> finished (nrStatus nd))"
  by (auto simp: recordNodeCompletion_def Let_def)

lemma completeNode_frame:
  assumes "completeNode p E c t = (None, s')"
  shows "\<exists>nd. xsNodes s' = (xsNodes t)[cpIndex c := nd] \<and> finished (nrStatus nd)"
    and "xsInflight s' = xsInflight t \<and> xsSignal s' = xsSignal t \<and> xsHost s' = xsHost t"
    and "pauseView s' = pauseView t \<or> \<not> interruptInfoEmpty (xsPause s')"
proof -
  let ?goal = "(\<exists>nd. xsNodes s' = (xsNodes t)[cpIndex c := nd] \<and> finished (nrStatus nd)) \<and>
    (xsInflight s' = xsInflight t \<and> xsSignal s' = xsSignal t \<and> xsHost s' = xsHost t) \<and>
    (pauseView s' = pauseView t \<or> \<not> interruptInfoEmpty (xsPause s'))"
  let ?r = "recordNodeCompletion c t"
  obtain nd where nd: "xsNodes ?r = (xsNodes t)[cpIndex c := nd]" "cpErr c = None \<Longrightarrow> finished (nrStatus nd)"
    using record_nodes by blast
  have ?goal if err: "cpErr c \<noteq> None"
  proof -
    from err assms have "\<exists>d r u. s' = handled p (cpIndex c) d r u \<and> xsNodes u = xsNodes ?r \<and> xsInflight u = xsInflight ?r \<and> pauseView u = pauseView ?r"
      by (auto simp: completeNode_def completeFailedNode_def Let_def pauseView_def split: if_splits option.splits)
        ((intro exI conjI, rule refl, simp_all) [1])+
    then obtain d r u where u: "s' = handled p (cpIndex c) d r u" "xsNodes u = xsNodes ?r" "xsInflight u = xsInflight ?r" "pauseView u = pauseView ?r"
      by blast
    have "xsNodes s' = (xsNodes t)[cpIndex c := ((xsNodes t)[cpIndex c := nd] ! cpIndex c)\<lparr>nrStatus := NodeException\<rparr>]"
      by (simp add: u(1,2) handled_nodes nd)
    moreover have "xsInflight s' = xsInflight t" "pauseView s' = pauseView t" by (simp_all add: u(1,3,4) handled_nodes)
    ultimately show ?goal by (auto simp: pauseView_def)
  qed
  moreover have ?goal if ok: "cpErr c = None"
  proof -
    define r where "r = resolveOutgoing p (cpIndex c) (cpRoute c) ?r"
    have r: "xsNodes r = (xsNodes t)[cpIndex c := nd]" "xsInflight r = xsInflight t" "pauseView r = pauseView t"
      by (simp_all add: r_def nd pauseView_def)
    from assms ok have "s' = (let q = r\<lparr>xsDone := xsDone r + 1, xsBeforePassed := filter (\<lambda>k. k \<noteq> cpIndex c) (xsBeforePassed r)\<rparr> in
        if cpIndex c \<in> set (plAfter p) \<or> xsHost q then q\<lparr>xsPause := (xsPause q)\<lparr>piAfter := piAfter (xsPause q) @ [cpIndex c]\<rparr>, xsPauseRequested := True\<rparr> else q)"
      unfolding completeNode_def Let_def r_def [symmetric] by auto
    then show ?goal using r nd(2) ok by (auto simp: Let_def pauseView_def interruptInfoEmpty_def)
  qed
  ultimately show "\<exists>nd. xsNodes s' = (xsNodes t)[cpIndex c := nd] \<and> finished (nrStatus nd)"
    "xsInflight s' = xsInflight t \<and> xsSignal s' = xsSignal t \<and> xsHost s' = xsHost t"
    "pauseView s' = pauseView t \<or> \<not> interruptInfoEmpty (xsPause s')" by blast+
qed

end
