(* ===== verification/FlowSchedule.thy ===== *)
theory FlowSchedule
  imports FlowTurns
begin

section \<open>Workflow: whole runs\<close>

text \<open>
  A turn keeps the invariant or ends the run, and how it ends is given by the reference; a run that gets
  enough turns ends. The theorems are stated of the compiled plan and of the list of turns.
\<close>

text \<open>How a run that nobody cancels may end.\<close>

definition allDone :: "flow_plan \<Rightarrow> flow_env \<Rightarrow> ports \<Rightarrow> (nat \<Rightarrow> fate option) \<Rightarrow> run_outcome \<Rightarrow> bool" where
  "allDone p E input F out \<longleftrightarrow> (\<exists>s. flow_inv p E input F s \<and> xsDone s = nodeCount p \<and> out = finishSucceeded p s)"

definition nodeStops :: "flow_plan \<Rightarrow> (nat \<Rightarrow> fate option) \<Rightarrow> run_outcome \<Rightarrow> bool" where
  "nodeStops p F out \<longleftrightarrow> (\<exists>i a m s. i < nodeCount p \<and> F i = Some (FFailed a m) \<and> out = finishFailed (RunError (Some i) a m) s)"

definition pauses :: "flow_plan \<Rightarrow> flow_env \<Rightarrow> ports \<Rightarrow> (nat \<Rightarrow> fate option) \<Rightarrow> run_outcome \<Rightarrow> bool \<Rightarrow> string option set \<Rightarrow> bool" where
  "pauses p E input F out static stores \<longleftrightarrow> (\<exists>s. \<exists>store \<in> stores. flow_inv p E input F s \<and> xsInflight s = [] \<and> xsPauseRequested s \<and>
     (static \<longrightarrow> \<not> interruptInfoEmpty (xsPause s)) \<and> out = finishInterrupted store s)"

lemma receive_good:
  assumes "sound T p E input order F" "good p E input F s" "k < length (xsInflight s)" "xsInflight s ! k = (i, ph)"
    and "goOn p E i ph s = (Inr c, s1)" "receive p E t c (s1\<lparr>xsInflight := dropNth k (xsInflight s1)\<rparr>) = res"
  shows "case res of Inl out \<Rightarrow> nodeStops p F out
    | Inr s' \<Rightarrow> good p E input F s' \<and> credit p s' < credit p s \<and> (quiet s \<longrightarrow> quiet s')"
proof -
  from assms(2) have inv: "flow_inv p E input F s" by (simp add: good_def)
  note f = goOn_frame [OF assms(5)]
  define t0 where "t0 = s1\<lparr>xsInflight := dropNth k (xsInflight s1)\<rparr>"
  define t1 where "t1 = poll (tuLate t) t0"
  have c: "c = runNode p E input F i" "core s1 = core s" using goOn_inv [OF inv assms(3-5)] by simp_all
  have "core t0 = core (s\<lparr>xsInflight := dropNth k (xsInflight s)\<rparr>)"
  proof -
    have "core t0 = (core s1)\<lparr>xsInflight := dropNth k (xsInflight s1)\<rparr>" by (simp add: core_def t0_def)
    also have "\<dots> = core (s\<lparr>xsInflight := dropNth k (xsInflight s)\<rparr>)" using f by (simp add: c(2)) (simp add: core_def)
    finally show ?thesis .
  qed
  then have core: "core t1 = core (s\<lparr>xsInflight := dropNth k (xsInflight s)\<rparr>)" by (simp add: t1_def)
  have pv0: "pauseView t0 = pauseView s" using f by (simp add: t0_def pauseView_def)
  then have noted: "noted t1" "quiet s \<longrightarrow> quiet t1"
    using assms(2) pauseView_same [OF pv0] poll_noted [of t0 "tuLate t"] poll_quiet [of t0 "tuLate t"] by (auto simp: t1_def good_def)
  obtain err s2 where cn: "completeNode p E c t1 = (err, s2)" by fastforce
  note cnv = completeNode_inv [OF assms(1) inv assms(3,4) core c(1) cn]
  note fl = flying_fate [OF assms(1) inv assms(3,4)]
  show ?thesis
  proof (cases err)
    case (Some e)
    then obtain a m where "F i = Some (FFailed a m)" "e = RunError (Some i) a m" using cnv by auto
    moreover have "res = Inl (finishFailed e (drain (tuDrain t) s2))"
      using assms(6) cn Some by (simp add: receive_def t1_def t0_def)
    ultimately show ?thesis using fl(1) by (auto simp: nodeStops_def)
  next
    case None
    then have inv2: "flow_inv p E input F s2" using cnv by simp
    note fr = completeNode_frame [OF cn [unfolded None]]
    obtain nd where nd: "xsNodes s2 = (xsNodes t1)[cpIndex c := nd]" "finished (nrStatus nd)" using fr(1) by blast
    have ci: "cpIndex c = i" by (simp add: c(1))
    have t1n: "xsNodes t1 = xsNodes s" "xsInflight t1 = dropNth k (xsInflight s)" using core_eq_fields [OF core] by simp_all
    have "noted s2"
      using fr(2,3) noted(1) pauseView_same [of s2 t1] by (auto simp: noted_def)
    moreover have q: "quiet s \<longrightarrow> quiet s2" using fr(2) noted(2) by (simp add: quiet_def)
    have len: "i < length (xsNodes s)" using inv fl(1) by (simp add: flow_inv_def shaped_def)
    have "credit p s2 < credit p s"
    proof -
      have fl2: "xsInflight s2 = dropNth k (xsInflight s)" using fr(2) t1n by simp
      have "distinct (map fst (xsInflight s))" using inv by (simp add: flow_inv_def queues_def)
      then have "fst ` set (xsInflight s) = insert i (fst ` set (xsInflight s2))"
        using dropNth_fst(4) [OF assms(3,4), of "[]"] fl2 by simp
      then have "idle p s2 \<subseteq> idle p s" using nd len by (auto simp: idle_def statusAt_def t1n ci nth_list_update split: if_splits)
      then have "(\<Sum>k \<in> idle p s2. 2 * maximumAttempts p k) \<le> (\<Sum>k \<in> idle p s. 2 * maximumAttempts p k)" by (intro sum_mono2) auto
      moreover have "(\<Sum>x \<leftarrow> xsInflight s2. weight p x) < (\<Sum>x \<leftarrow> xsInflight s. weight p x)"
        using sum_list_dropNth_nat [OF assms(3), of "weight p"] weight_pos [of p "xsInflight s ! k"] by (simp add: fl2)
      ultimately show ?thesis by (simp add: credit_def)
    qed
    moreover have "res = Inr (if xsPauseRequested s2 then s2 else advance_x p s2)"
      using assms(6) cn None by (simp add: receive_def t1_def t0_def)
    moreover have "good p E input F s2" if "xsPauseRequested s2"
      using that inv2 \<open>noted s2\<close> by (simp add: good_def steady_def)
    moreover have "good p E input F (advance_x p s2) \<and> quiet (advance_x p s2) = quiet s2 \<and> credit p (advance_x p s2) \<le> credit p s2"
    proof -
      have pv: "pauseView (advance_x p s2) = pauseView s2" using advance_frame by blast
      from advance_inv [OF assms(1) inv2] pauseView_same [OF pv] \<open>noted s2\<close> advance_frame [of p s2]
      show ?thesis by (simp add: good_def steady_def)
    qed
    ultimately show ?thesis using q by auto
  qed
qed

subsection \<open>A turn\<close>

lemma all_finished:
  assumes "flow_inv p E input F s" "xsDone s = nodeCount p" "i < nodeCount p"
  shows "finished (statusAt s i)"
proof -
  have "counts p s" using assms(1) by (simp add: flow_inv_def)
  then have "card (finishedSet p s) = xsDone s" by (simp add: counts_def)
  also have "\<dots> = card {0..<nodeCount p}" unfolding assms(2) by simp
  finally have "card (finishedSet p s) = card {0..<nodeCount p}" .
  moreover have "finishedSet p s \<subseteq> {0..<nodeCount p}" by (auto simp: finishedSet_def)
  ultimately have "finishedSet p s = {0..<nodeCount p}" by (metis card_subset_eq finite_atLeastLessThan)
  with assms(3) have "i \<in> finishedSet p s" by simp
  then show ?thesis by (simp add: finishedSet_def)
qed

lemma never_stuck:
  assumes "sound T p E input order F" "good p E input F s" "\<not> xsPauseRequested s" "xsDone s \<noteq> nodeCount p"
  shows "xsInflight (launchReady p E None s) \<noteq> []"
proof
  assume empty: "xsInflight (launchReady p E None s) = []"
  note sf = sound_facts [OF assms(1)]
  define s' where "s' = launchReady p E None s"
  note l = launchReady_good [OF assms(1,2), folded s'_def]
  from assms(2) have inv: "flow_inv p E input F s" by (simp add: good_def)
  from launchReady_inv [OF assms(1) inv, folded s'_def] empty sf(9)
  have inv': "flow_inv p E input F s'" and r: "xsReady s' = []" by (auto simp: s'_def)
  have np: "\<not> xsPauseRequested s'" using l assms(3) pauseView_same by blast
  have "xsDone s' = xsDone s"
  proof -
    have "xsDone (launchReady p E None s) = xsDone s"
    proof (induction "length (xsReady s)" arbitrary: s)
      case 0
      then show ?case by (simp add: launchReady.simps [of p E None s])
    next
      case (Suc n)
      then obtain i rs where r: "xsReady s = i # rs" by (cases "xsReady s") auto
      have "xsDone (launch p E i (s\<lparr>xsReady := rs\<rparr>)) = xsDone s" by (simp add: launch_def split: sum.splits)
      with Suc.hyps(1) [of "launch p E i (s\<lparr>xsReady := rs\<rparr>)"] Suc.hyps(2) r show ?case
        by (simp add: launchReady.simps [of p E None s])
    qed
    then show ?thesis by (simp add: s'_def)
  qed
  moreover have "counts p s'" using inv' by (simp add: flow_inv_def)
  ultimately have "card (finishedSet p s') \<noteq> nodeCount p" using assms(4) by (metis counts_def)
  moreover have "finishedSet p s' = {0..<nodeCount p}" if "\<forall>i < nodeCount p. finished (statusAt s' i)"
    using that by (auto simp: finishedSet_def)
  ultimately obtain i0 where i0: "i0 < nodeCount p" "\<not> finished (statusAt s' i0)" by fastforce
  have nq: "\<not> queued (statusAt s' i)" if "i < nodeCount p" for i
    using queues_mem [of p E input F s' i] inv' that r empty by (simp add: flow_inv_def s'_def)
  then have pf: "statusAt s' i = NodePending \<or> finished (statusAt s' i)" if "i < nodeCount p" for i
    using inv' that by (auto simp: flow_inv_def frontier_def)
  have "finished (statusAt s' i)" if "i < nodeCount p" for i
    using sf(1,2) that
  proof (induction i rule: topo_induct)
    case (node i)
    show ?case
    proof (rule ccontr)
      assume "\<not> finished (statusAt s' i)"
      then have p: "statusAt s' i = NodePending" using pf node by blast
      then have ns: "i \<noteq> plStart p" using inv' by (auto simp: flow_inv_def frontier_def)
      have "xsEdges s' ! j \<noteq> edgePending" if "j \<in> set (incoming p i)" for j
      proof -
        have j: "j < length (plEdges p)" "peTo (edgeAt p j) = i" using that sf(1) node by (auto simp: incoming_set)
        then have "finished (statusAt s' (peFrom (edgeAt p j)))" using node by (auto simp: flow_rel_edge)
        with j inv' have "xsEdges s' ! j = edgeFate p F j" by (auto simp: flow_inv_def settled_def)
        then show ?thesis by (auto simp: edgeFate_def split: option.splits fate.splits)
      qed
      then have "settles p s' i" using p ns by (simp add: settles_def incomingResolved_def list_all_iff)
      with l np node show False by (auto simp: good_def steady_def)
    qed
  qed
  with i0 show False by blast
qed

lemma turn_good:
  assumes "sound T p E input order F" "good p E input F s0" "calm t"
  shows "case turnRun p E t s0 of
      Inl out \<Rightarrow> allDone p E input F out \<or> nodeStops p F out \<or> pauses p E input F out (quiet s0) {tuStore t}
    | Inr s' \<Rightarrow> good p E input F s' \<and> (quiet s0 \<longrightarrow> quiet s') \<and> credit p s' \<le> credit p s0 \<and>
        ((\<exists>n. tuChoice t = Pick n) \<longrightarrow> credit p s' < credit p s0)"
proof -
  define s where "s = poll (tuSignal t) s0"
  define s1 where "s1 = (if xsPauseRequested s then s else requestBeforeInterrupt p s)"
  define s2 where "s2 = (if xsPauseRequested s1 then s1 else launchReady p E None s1)"
  have g: "good p E input F s" "quiet s0 \<Longrightarrow> quiet s" "credit p s = credit p s0"
    using poll_good [OF assms(2)] poll_quiet [of s0] credit_core [of s s0] by (simp_all add: s_def)
  have g1: "good p E input F s1" "quiet s0 \<Longrightarrow> quiet s1" "credit p s1 = credit p s0"
    using g before_good [OF g(1)] credit_core [of "requestBeforeInterrupt p s" s] by (simp_all add: s1_def)
  have g2: "good p E input F s2" "quiet s0 \<Longrightarrow> quiet s2" "credit p s2 \<le> credit p s0"
    using g1 launchReady_good [OF assms(1) g1(1)] pauseView_same [of s2 s1] by (auto simp: s2_def)
  have done1: "xsDone s1 = xsDone s" using core_eq_fields(7) [of s1 s] by (simp add: s1_def)
  have paused: "pauses p E input F (finishInterrupted (tuStore t) u) (quiet s0) {tuStore t}"
    if "good p E input F u" "quiet s0 \<Longrightarrow> quiet u" "xsPauseRequested u" "xsInflight u = []" for u
    using that by (auto simp: pauses_def good_def noted_def quiet_def intro!: exI [of _ u])
  have t: "turnRun p E t s0 = (
      if xsPauseRequested s \<and> xsInflight s = [] then Inl (finishInterrupted (tuStore t) s)
      else if xsDone s = nodeCount p then Inl (finishSucceeded p s)
      else if xsPauseRequested s1 \<and> xsInflight s1 = [] then Inl (finishInterrupted (tuStore t) s1)
      else if xsInflight s2 = [] then Inl (finishFailed (RunError None 0 ''scheduler made no progress'') s2)
      else select p E t s2)"
    using assms(3) unfolding turnRun_def Let_def s2_def s1_def s_def by (simp add: calm_def)
  consider (interrupted) "xsPauseRequested s" "xsInflight s = []"
    | (ended) "\<not> (xsPauseRequested s \<and> xsInflight s = [])" "xsDone s = nodeCount p"
    | (before) "\<not> (xsPauseRequested s \<and> xsInflight s = [])" "xsDone s \<noteq> nodeCount p" "xsPauseRequested s1" "xsInflight s1 = []"
    | (on) "\<not> (xsPauseRequested s \<and> xsInflight s = [])" "xsDone s \<noteq> nodeCount p" "\<not> (xsPauseRequested s1 \<and> xsInflight s1 = [])"
    by blast
  then show ?thesis
  proof cases
    case interrupted
    with t paused g show ?thesis by simp
  next
    case ended
    with t have "turnRun p E t s0 = Inl (finishSucceeded p s)" by (simp only: if_False if_True simp_thms)
    with ended g(1) show ?thesis by (auto simp: allDone_def good_def)
  next
    case before
    with t have "turnRun p E t s0 = Inl (finishInterrupted (tuStore t) s1)" by (simp only: if_False if_True simp_thms)
    with before paused g1 show ?thesis by simp
  next
    case on
    have some: "xsInflight s2 \<noteq> []"
      using on(2,3) never_stuck [OF assms(1) g1(1)] done1 by (auto simp: s2_def)
    with on t have r: "turnRun p E t s0 = select p E t s2" by (simp only: if_False)
    show ?thesis
    proof (cases "tuChoice t")
      case (Cancel e)
      with assms(3) show ?thesis by (simp add: calm_def)
    next
      case Signal
      with r poll_good [OF g2(1), of True] poll_quiet [of s2 True] g2 credit_core [of "poll True s2" s2] show ?thesis by (auto simp: select_def)
    next
      case (Pick n)
      define k where "k = n mod length (xsInflight s2)"
      have k: "k < length (xsInflight s2)" using some by (simp add: k_def)
      obtain i ph where i: "xsInflight s2 ! k = (i, ph)" by fastforce
      obtain x s3 where x: "goOn p E i ph s2 = (x, s3)" by fastforce
      show ?thesis
      proof (cases x)
        case (Inl ph')
        from r Pick k_def i x Inl have "turnRun p E t s0 = Inr (s3\<lparr>xsInflight := (xsInflight s3)[k := (i, ph')]\<rparr>)"
          by (simp add: select_def Let_def)
        moreover note rp = rephase_good [OF g2(1) k i x [unfolded Inl] refl]
        ultimately show ?thesis using pauseView_same [OF rp(2)] g2(2,3) by simp
      next
        case (Inr c)
        from r Pick k_def i x Inr have e: "turnRun p E t s0 = receive p E t c (s3\<lparr>xsInflight := dropNth k (xsInflight s3)\<rparr>)"
          by (simp add: select_def Let_def)
        note rc = receive_good [OF assms(1) g2(1) k i x [unfolded Inr] e [symmetric]]
        show ?thesis
        proof (cases "turnRun p E t s0")
          case (Inl out)
          with rc show ?thesis by simp
        next
          case (Inr s')
          with rc g2 show ?thesis by auto
        qed
      qed
    qed
  qed
qed

subsection \<open>Runs of turns\<close>

lemma runTurns_good:
  assumes "sound T p E input order F" "good p E input F s" "\<forall>t \<in> set ts. calm t"
  shows "case runTurns p E ts s of
      Inl out \<Rightarrow> allDone p E input F out \<or> nodeStops p F out \<or> pauses p E input F out (quiet s) (tuStore ` set ts)
    | Inr s' \<Rightarrow> good p E input F s' \<and> (quiet s \<longrightarrow> quiet s')"
  using assms(2,3)
proof (induction ts arbitrary: s)
  case Nil
  then show ?case by simp
next
  case (Cons t ts)
  note step = turn_good [OF assms(1) Cons.prems(1), of t]
  show ?case
  proof (cases "turnRun p E t s")
    case (Inl out)
    with step Cons.prems show ?thesis by (auto simp: pauses_def)
  next
    case (Inr s')
    with step Cons.prems have g: "good p E input F s'" "quiet s \<longrightarrow> quiet s'" by simp_all
    have w: "pauses p E input F out (quiet s') (tuStore ` set ts) \<Longrightarrow> pauses p E input F out (quiet s) (tuStore ` set (t # ts))" for out
      using g(2) by (auto simp: pauses_def)
    have "case runTurns p E ts s' of
        Inl out \<Rightarrow> allDone p E input F out \<or> nodeStops p F out \<or> pauses p E input F out (quiet s') (tuStore ` set ts)
      | Inr s'' \<Rightarrow> good p E input F s'' \<and> (quiet s' \<longrightarrow> quiet s'')" using Cons.IH [OF g(1)] Cons.prems(2) by simp
    then show ?thesis using w g(2) Inr by (cases "runTurns p E ts s'") auto
  qed
qed

definition picks :: "turn list \<Rightarrow> nat" where
  "picks ts = length (filter (\<lambda>t. \<exists>n. tuChoice t = Pick n) ts)"

lemma runTurns_end:
  assumes "sound T p E input order F" "good p E input F s" "\<forall>t \<in> set ts. calm t" "credit p s < picks ts"
  shows "\<exists>out. runTurns p E ts s = Inl out"
  using assms(2-4)
proof (induction ts arbitrary: s)
  case Nil
  then show ?case by (simp add: picks_def)
next
  case (Cons t ts)
  note step = turn_good [OF assms(1) Cons.prems(1), of t]
  show ?case
  proof (cases "turnRun p E t s")
    case (Inl out)
    then show ?thesis by simp
  next
    case (Inr s')
    with step Cons.prems have g: "good p E input F s'" "credit p s' \<le> credit p s" "(\<exists>n. tuChoice t = Pick n) \<longrightarrow> credit p s' < credit p s"
      by simp_all
    from g Cons.prems(3) have "credit p s' < picks ts" by (auto simp: picks_def split: if_splits)
    with Cons.IH [OF g(1)] Cons.prems Inr show ?thesis by simp
  qed
qed

subsection \<open>Beginnings\<close>

text \<open>The step limit covers every attempt of every node.\<close>

definition budgeted :: "flow_plan \<Rightarrow> bool" where
  "budgeted p \<longleftrightarrow> (\<Sum>i \<leftarrow> [0..<nodeCount p]. int (maximumAttempts p i)) \<le> flMaxSteps (dfLimits (plDefinition p))"

definition fullCredit :: "flow_plan \<Rightarrow> nat" where
  "fullCredit p = (\<Sum>i \<leftarrow> [0..<nodeCount p]. 2 * maximumAttempts p i)"

lemma newExecution_fields [simp]:
  "xsInflight (newExecution p input b) = []" "xsReady (newExecution p input b) = []" "xsDone (newExecution p input b) = 0"
  "xsSteps (newExecution p input b) = 0" "xsTotal (newExecution p input b) = 0" "\<not> xsHandled (newExecution p input b)"
  "\<not> xsPauseRequested (newExecution p input b)" "\<not> xsHost (newExecution p input b)" "xsSignal (newExecution p input b) = b"
  "xsBeforePassed (newExecution p input b) = []" "length (xsNodes (newExecution p input b)) = nodeCount p"
  "j < length (plEdges p) \<Longrightarrow> xsEdges (newExecution p input b) ! j = edgePending"
  "i < nodeCount p \<Longrightarrow> statusAt (newExecution p input b) i = NodePending"
  "i < nodeCount p \<Longrightarrow> outputsOf (newExecution p input b) i = None" "i < nodeCount p \<Longrightarrow> failuresOf (newExecution p input b) i = None"
  by (simp_all add: newExecution_def statusAt_def outputsOf_def failuresOf_def)

lemma startRun_good:
  assumes "sound T p E input order F" "budgeted p"
  shows "good p E input F (startRun p input b)" "credit p (startRun p input b) = fullCredit p" "quiet (startRun p input False)"
proof -
  note sf = sound_facts [OF assms(1)]
  let ?n = "nodeCount p" and ?st = "plStart p"
  define s where "s = startRun p input b"
  have st: "statusAt s i = (if i = ?st then NodeReady else NodePending)" if "i < ?n" for i
    using that sf(3) by (simp add: s_def startRun_def markReady_def)
  have f: "xsInflight s = []" "xsReady s = [?st]" "xsDone s = 0" "xsSteps s = 0" "xsTotal s = 0" "\<not> xsHandled s" "\<not> xsPauseRequested s"
    "\<And>j. j < length (plEdges p) \<Longrightarrow> xsEdges s ! j = edgePending"
    by (simp_all add: s_def startRun_def markReady_def)
  have g: "outputsOf s i = None" "failuresOf s i = None" if "i < ?n" for i
    using that outputsOf_same [of s "newExecution p input b"] failuresOf_same [of s "newExecution p input b"]
    by (simp_all add: s_def startRun_def markReady_def)
  have fin: "\<not> finished (statusAt s i)" if "i < ?n" for i using st [OF that] by simp
  have fr: "peFrom (edgeAt p j) < ?n" if "j < length (plEdges p)" for j using edge_range [OF sf(1) that] by simp
  have "shaped p input s" by (simp add: shaped_def s_def startRun_def markReady_def) (simp add: newExecution_def)
  moreover have "settled p F s" using fin fr f(8) g by (simp add: settled_def)
  moreover have "frontier p F s" using st sf(3,6) by (auto simp: frontier_def runs_def)
  moreover have "queues p E input F s" using st sf(3) f(1,2) by (auto simp: queues_def split: if_splits)
  moreover have "counts p s" using fin st f by (auto simp: counts_def finishedSet_def split: if_splits)
  moreover have "in_budget p s"
  proof -
    have "waiting p s = set [0..<?n]" using st f(2) sf(3) by (auto simp: waiting_def split: if_splits)
    then have "(\<Sum>i \<in> waiting p s. int (maximumAttempts p i)) = (\<Sum>i \<leftarrow> [0..<?n]. int (maximumAttempts p i))"
      by (simp add: sum_list_distinct_conv_sum_set)
    then show ?thesis using assms(2) f by (simp add: in_budget_def budgeted_def)
  qed
  moreover have "steady p s"
    unfolding steady_def
  proof (intro disjI2 allI impI)
    fix i assume i: "i < ?n"
    show "\<not> settles p s i"
    proof (cases "i = ?st")
      case True
      then show ?thesis by (simp add: settles_def incomingResolved_def)
    next
      case False
      then obtain j where "j \<in> set (incoming p i)" using sf(7) [OF i] by (cases "incoming p i") auto
      with f(8) incoming_set [OF sf(1) i] show ?thesis by (auto simp: settles_def incomingResolved_def list_all_iff)
    qed
  qed
  ultimately show "good p E input F (startRun p input b)" using f(7) by (simp add: good_def flow_inv_def noted_def s_def)
  have "idle p s = set [0..<?n]" using fin f(1) by (auto simp: idle_def)
  then show "credit p (startRun p input b) = fullCredit p"
    using f(1) by (simp add: credit_def fullCredit_def s_def [symmetric] sum_list_distinct_conv_sum_set)
  show "quiet (startRun p input False)" by (simp add: quiet_def startRun_def markReady_def)
qed

text \<open>A checkpoint restores the state that was interrupted.\<close>

lemma restore_core: "xsInflight s = [] \<Longrightarrow> core (restoreExecution p (checkpointOf s) b) = core s"
  by (simp add: restoreExecution_def checkpointOf_def newExecution_def core_def)

lemma resumeRun_good:
  assumes "sound T p E input order F" "flow_inv p E input F s" "xsInflight s = []"
  shows "good p E input F (resumeRun p (checkpointOf s) b)" "credit p (resumeRun p (checkpointOf s) b) \<le> credit p s"
    "quiet (resumeRun p (checkpointOf s) False)"
proof -
  let ?r = "emit EvRunResumed (restoreExecution p (checkpointOf s) b)"
  have c: "core ?r = core s" using restore_core [OF assms(3)] by simp
  then have inv: "flow_inv p E input F ?r" using flow_inv_same_core assms(2) by blast
  have pv: "pauseView (advance_x p u) = pauseView u" for u using advance_frame by blast
  have n: "\<not> xsPauseRequested (restoreExecution p (checkpointOf s) b)" "quiet (restoreExecution p (checkpointOf s) False)" for b
    by (simp_all add: restoreExecution_def newExecution_def quiet_def)
  have "noted (advance_x p ?r)" using pauseView_same [OF pv] n(1) by (simp add: noted_def)
  then show "good p E input F (resumeRun p (checkpointOf s) b)"
    using advance_inv [OF assms(1) inv] by (simp add: good_def resumeRun_def steady_def)
  have "credit p (advance_x p ?r) \<le> credit p ?r" using advance_frame by blast
  with credit_core [OF c] show "credit p (resumeRun p (checkpointOf s) b) \<le> credit p s" by (simp add: resumeRun_def)
  show "quiet (resumeRun p (checkpointOf s) False)"
    using pauseView_same [OF pv [of "emit EvRunResumed (restoreExecution p (checkpointOf s) False)"]] n(2)
    by (simp add: resumeRun_def quiet_def)
qed

subsection \<open>Ends\<close>

text \<open>What a run that is not interrupted reports, given the fates of the nodes.\<close>

definition stopping :: "flow_plan \<Rightarrow> (nat \<Rightarrow> fate option) \<Rightarrow> nat \<Rightarrow> nat \<Rightarrow> string \<Rightarrow> bool" where
  "stopping p F i a m \<longleftrightarrow> i < nodeCount p \<and> F i = Some (FFailed a m)"

definition agrees :: "flow_plan \<Rightarrow> (nat \<Rightarrow> fate option) \<Rightarrow> run_outcome \<Rightarrow> bool" where
  "agrees p F out \<longleftrightarrow> rrInterruption (roResult out) = None \<and> roCheckpoint out = None \<and>
     (if \<exists>i a m. stopping p F i a m
      then rrStatus (roResult out) = RunFailed \<and> rrOutputs (roResult out) = [] \<and>
        (\<exists>i a m. stopping p F i a m \<and> roError out = Some (RunError (Some i) a m))
      else roError out = None \<and>
        rrStatus (roResult out) = (if \<exists>i < nodeCount p. fateFailures (F i) \<noteq> None then RunPartialSucceeded else RunSucceeded) \<and>
        rrOutputs (roResult out) = (case fateOutputs (F (plEnd p)) of None \<Rightarrow> [] | Some vs \<Rightarrow> vs) \<and>
        map nrStatus (rrNodes (roResult out)) = map (\<lambda>i. fateStatus (the (F i))) [0..<nodeCount p])"

lemma exception_fate: "fateStatus f = NodeException \<longleftrightarrow> fateFailures (Some f) \<noteq> None"
proof (cases f)
  case (FDone out d r a)
  then show ?thesis by (cases d) simp_all
qed simp_all

lemma allDone_agrees:
  assumes "sound T p E input order F" "allDone p E input F out"
  shows "agrees p F out" "\<not> stopping p F i a m"
proof -
  note sf = sound_facts [OF assms(1)]
  from assms(2) obtain s where s: "flow_inv p E input F s" "xsDone s = nodeCount p" "out = finishSucceeded p s"
    by (auto simp: allDone_def)
  have fin: "finished (statusAt s i)" if "i < nodeCount p" for i using all_finished [OF s(1,2) that] .
  have inv: "shaped p input s" "settled p F s" "counts p s" using s(1) by (simp_all add: flow_inv_def)
  have F: "\<exists>f. F i = Some f \<and> statusAt s i = fateStatus f" if "i < nodeCount p" for i using inv(2) fin that by (auto simp: settled_def)
  have ns: "\<not> stopping p F i a m" for i a m
  proof
    assume "stopping p F i a m"
    then have "i < nodeCount p" "F i = Some (FFailed a m)" by (simp_all add: stopping_def)
    with F [of i] fin [of i] show False by auto
  qed
  then show "\<not> stopping p F i a m" .
  have "map nrStatus (xsNodes s) = map (\<lambda>i. fateStatus (the (F i))) [0..<nodeCount p]"
    using inv(1) F by (intro nth_equalityI) (auto simp: shaped_def statusAt_def [symmetric] dest!: F)
  moreover have "xsHandled s \<longleftrightarrow> (\<exists>i < nodeCount p. fateFailures (F i) \<noteq> None)"
    using inv(3) F exception_fate by (fastforce simp: counts_def)
  moreover have "xsOutputs s ! plEnd p = fateOutputs (F (plEnd p))"
    using inv(2) fin [OF sf(4)] sf(4) by (simp add: settled_def outputsOf_def)
  ultimately show "agrees p F out" using ns by (simp add: agrees_def s(3) finishSucceeded_def finish_def)
qed

lemma nodeStops_agrees: "nodeStops p F out \<Longrightarrow> agrees p F out"
  by (auto simp: nodeStops_def agrees_def stopping_def finishFailed_def finish_def)

end
