(* ===== verification/FlowSessions.thy ===== *)
theory FlowSessions
  imports FlowSchedule
begin

section \<open>Workflow: interrupted runs that are resumed\<close>

text \<open>
  A session is a run and its resumptions, each from the checkpoint of the interruption before. A static
  breakpoint stops a session a bounded number of times, at most twice for each node, and the run that is
  not stopped any more reports what the reference gives.
\<close>

fun session :: "flow_plan \<Rightarrow> flow_env \<Rightarrow> turn list list \<Rightarrow> exec_state \<Rightarrow> run_outcome option" where
  "session p E [] s = None"
| "session p E (ts # legs) s = (case runTurns p E ts s of
       Inr s' \<Rightarrow> None
     | Inl out \<Rightarrow> (case roCheckpoint out of
           None \<Rightarrow> Some out
         | Some cp \<Rightarrow> session p E legs (resumeRun p cp False)))"

subsection \<open>Stops are bounded\<close>

definition unfinished :: "flow_plan \<Rightarrow> exec_state \<Rightarrow> nat set" where
  "unfinished p s = {i. i < nodeCount p \<and> \<not> finished (statusAt s i)}"

definition stops :: "flow_plan \<Rightarrow> exec_state \<Rightarrow> nat" where
  "stops p s = card (unfinished p s) + card (unfinished p s - set (xsBeforePassed s))"

text \<open>No more stops than \<open>m\<close> remain, and fewer once the run is pausing.\<close>

definition fresh :: "nat \<Rightarrow> flow_plan \<Rightarrow> exec_state \<Rightarrow> bool" where
  "fresh m p s \<longleftrightarrow> stops p s \<le> m \<and> (xsPauseRequested s \<longrightarrow> stops p s < m)"

lemma unfinished_finite [simp]: "finite (unfinished p s)"
  by (simp add: unfinished_def)

lemma stops_mono:
  assumes "unfinished p s' \<subseteq> unfinished p s" "unfinished p s' - set (xsBeforePassed s') \<subseteq> unfinished p s - set (xsBeforePassed s)"
  shows "stops p s' \<le> stops p s"
  unfolding stops_def using assms by (intro add_mono card_mono) auto

lemma stops_same: "statusAt s' = statusAt s \<Longrightarrow> set (xsBeforePassed s') = set (xsBeforePassed s) \<Longrightarrow> stops p s' = stops p s"
  by (simp add: stops_def unfinished_def)

lemma advancePass_passed:
  assumes "\<forall>i \<in> set is. i < length (xsNodes s)"
  shows "stops p (fst (advancePass p is (s, b))) \<le> stops p s"
  using assms
proof (induction "is" arbitrary: s b)
  case Nil
  then show ?case by simp
next
  case (Cons i "is")
  show ?case
  proof (cases "settles p s i")
    case True
    have "xsBeforePassed (settle p i s) = xsBeforePassed s" by (simp add: settle_def markReady_def skipNode_def)
    moreover have "unfinished p (settle p i s) \<subseteq> unfinished p s"
      using True Cons.prems by (auto simp: unfinished_def settle_def markReady_def skipNode_def settles_def split: if_splits)
    ultimately have m: "stops p (settle p i s) \<le> stops p s" by (intro stops_mono) auto
    have "length (xsNodes (settle p i s)) = length (xsNodes s)" by (simp add: settle_nodes)
    with Cons.IH [of "settle p i s" True] Cons.prems m True show ?thesis by auto
  next
    case False
    with Cons show ?thesis by simp
  qed
qed

lemma advance_stops: "stops p (advance_x p s) \<le> stops p s"
proof (induction p s rule: advance_x.induct)
  case (1 p s)
  obtain s' b where a: "advancePass p [0..<length (xsNodes s)] (s, False) = (s', b)" by fastforce
  then have "stops p s' \<le> stops p s" using advancePass_passed [of "[0..<length (xsNodes s)]" s p False] by simp
  with "1.IH" [OF a [symmetric]] a show ?case by (cases b) (subst advance_x.simps, simp)+
qed

lemma launchReady_stops:
  "flow_inv p E input F s \<Longrightarrow> sound T p E input order F \<Longrightarrow> stops p (launchReady p E None s) = stops p s"
proof (induction "length (xsReady s)" arbitrary: s)
  case 0
  then show ?case by (simp add: launchReady.simps [of p E None s])
next
  case (Suc n)
  then obtain i rs where r: "xsReady s = i # rs" by (cases "xsReady s") auto
  show ?case
  proof (cases "length (xsInflight s) < maxConcurrency p")
    case True
    let ?s = "launch p E i (s\<lparr>xsReady := rs\<rparr>)"
    have i: "i < nodeCount p" "\<not> finished (statusAt s i)" using ready_node [OF Suc.prems(1), of i] r by simp_all
    then have "i < length (xsNodes s)" using Suc.prems(1) by (simp add: flow_inv_def shaped_def)
    then have "finished (statusAt ?s k) = finished (statusAt s k)" for k
      using i by (auto simp: launch_def statusAt_def setStatus_def nth_list_update split: sum.splits)
    moreover have "xsBeforePassed ?s = xsBeforePassed s" by (simp add: launch_def split: sum.splits)
    ultimately have "stops p ?s = stops p s" by (simp add: stops_def unfinished_def)
    moreover have "flow_inv p E input F ?s" by (rule launch_inv [OF Suc.prems(2,1) r True])
    ultimately show ?thesis using Suc.hyps(1) [of ?s] Suc.hyps(2) Suc.prems(2) r True by (simp add: launchReady.simps [of p E None s])
  next
    case False
    then show ?thesis using r by (simp add: launchReady.simps [of p E None s])
  qed
qed

lemma before_stops:
  assumes "flow_inv p E input F s"
  shows "requestBeforeInterrupt p s = s \<or> stops p (requestBeforeInterrupt p s) < stops p s"
proof (cases "beforeMatches p s = []")
  case True
  then show ?thesis by (simp add: requestBeforeInterrupt_def)
next
  case False
  let ?s = "requestBeforeInterrupt p s"
  obtain i where i: "i \<in> set (beforeMatches p s)" using False by (cases "beforeMatches p s") auto
  then have "i \<in> unfinished p s - set (xsBeforePassed s)"
    using ready_node [OF assms, of i] by (auto simp: beforeMatches_def unfinished_def)
  moreover have s: "statusAt ?s = statusAt s" "xsBeforePassed ?s = xsBeforePassed s @ beforeMatches p s"
    using False by (simp_all add: requestBeforeInterrupt_def Let_def)
  ultimately have "unfinished p ?s - set (xsBeforePassed ?s) \<subset> unfinished p s - set (xsBeforePassed s)"
    using i by (auto simp: unfinished_def)
  then have "card (unfinished p ?s - set (xsBeforePassed ?s)) < card (unfinished p s - set (xsBeforePassed s))"
    by (intro psubset_card_mono) auto
  with s show ?thesis by (simp add: stops_def unfinished_def)
qed

lemma fresh_le: "fresh m p s \<Longrightarrow> stops p s' \<le> stops p s \<Longrightarrow> (xsPauseRequested s' \<Longrightarrow> xsPauseRequested s) \<Longrightarrow> fresh m p s'"
  by (auto simp: fresh_def)

lemma goOn_passed: "goOn p E i ph s = (r, s') \<Longrightarrow> xsBeforePassed s' = xsBeforePassed s"
  by (auto simp: goOn_def Let_def split: phase.splits sum.splits if_splits)

lemma completeNode_passed:
  assumes "completeNode p E c t = (None, s')"
  shows "set (xsBeforePassed t) - {cpIndex c} \<subseteq> set (xsBeforePassed s')"
proof (cases "cpErr c")
  case None
  with assms show ?thesis by (auto simp: completeNode_def Let_def split: if_splits)
next
  case (Some e)
  with assms show ?thesis
    by (auto simp: completeNode_def completeFailedNode_def Let_def handled_def split: if_splits option.splits)
qed

lemma receive_stops:
  assumes "sound T p E input order F" "good p E input F s" "quiet s" "k < length (xsInflight s)" "xsInflight s ! k = (i, ph)"
    and "goOn p E i ph s = (Inr c, s1)" "receive p E t c (s1\<lparr>xsInflight := dropNth k (xsInflight s1)\<rparr>) = Inr s'"
  shows "stops p s' < stops p s"
proof -
  from assms(2) have inv: "flow_inv p E input F s" by (simp add: good_def)
  note f = goOn_frame [OF assms(6)]
  define t0 where "t0 = s1\<lparr>xsInflight := dropNth k (xsInflight s1)\<rparr>"
  have c: "c = runNode p E input F i" using goOn_inv [OF inv assms(4-6)] by simp
  have pv: "pauseView t0 = pauseView s" using f by (simp add: t0_def pauseView_def)
  then have "poll (tuLate t) t0 = t0" using assms(3) pauseView_same poll_quiet by blast
  then obtain s2 where cn: "completeNode p E c t0 = (None, s2)" and s': "s' = (if xsPauseRequested s2 then s2 else advance_x p s2)"
    using assms(7) by (auto simp: receive_def t0_def [symmetric] split: prod.splits option.splits)
  obtain nd where nd: "xsNodes s2 = (xsNodes t0)[i := nd]" "finished (nrStatus nd)"
    using completeNode_frame(1) [OF cn] by (auto simp: c)
  have i: "i < nodeCount p" "queued (statusAt s i)" using flying_fate [OF assms(1) inv assms(4,5)] by simp_all
  have len: "i < length (xsNodes s)" using inv i by (simp add: flow_inv_def shaped_def)
  have t0: "xsNodes t0 = xsNodes s" "xsBeforePassed t0 = xsBeforePassed s" using f goOn_passed [OF assms(6)] by (simp_all add: t0_def)
  have fin: "finished (statusAt s2 n) \<longleftrightarrow> n = i \<or> finished (statusAt s n)" for n
    using nd len by (auto simp: statusAt_def t0 nth_list_update)
  have u: "unfinished p s2 = unfinished p s - {i}" by (auto simp: unfinished_def fin)
  have "i \<in> unfinished p s" using i by (auto simp: unfinished_def queued_def)
  then have "card (unfinished p s2) < card (unfinished p s)" unfolding u by (intro psubset_card_mono) auto
  moreover have "card (unfinished p s2 - set (xsBeforePassed s2)) \<le> card (unfinished p s - set (xsBeforePassed s))"
    using completeNode_passed [OF cn] c t0(2) u by (intro card_mono) auto
  ultimately have "stops p s2 < stops p s" by (simp add: stops_def)
  moreover have "stops p s' \<le> stops p s2" using advance_stops s' by simp
  ultimately show ?thesis by simp
qed

subsection \<open>A turn of a session\<close>

definition stopped :: "flow_plan \<Rightarrow> flow_env \<Rightarrow> ports \<Rightarrow> (nat \<Rightarrow> fate option) \<Rightarrow> nat \<Rightarrow> run_outcome \<Rightarrow> bool" where
  "stopped p E input F m out \<longleftrightarrow> (\<exists>s. roCheckpoint out = Some (checkpointOf s) \<and> rrStatus (roResult out) = RunInterrupted \<and>
     flow_inv p E input F s \<and> xsInflight s = [] \<and> stops p s < m)"

lemma pause_stopped:
  assumes "good p E input F s" "quiet s" "fresh m p s" "xsPauseRequested s" "xsInflight s = []"
  shows "stopped p E input F m (finishInterrupted None s)"
  using assms by (auto simp: stopped_def finishInterrupted_def finish_def good_def noted_def quiet_def fresh_def intro!: exI [of _ s])

lemma turn_stopped:
  assumes "sound T p E input order F" "good p E input F s" "quiet s" "fresh m p s" "calm t" "tuStore t = None"
  shows "case turnRun p E t s of
      Inl out \<Rightarrow> allDone p E input F out \<or> nodeStops p F out \<or> stopped p E input F m out
    | Inr s' \<Rightarrow> fresh m p s'"
proof -
  define s1 where "s1 = (if xsPauseRequested s then s else requestBeforeInterrupt p s)"
  define s2 where "s2 = (if xsPauseRequested s1 then s1 else launchReady p E None s1)"
  have g1: "good p E input F s1" "quiet s1" using assms(2,3) before_good [OF assms(2)] by (simp_all add: s1_def)
  then have inv1: "flow_inv p E input F s1" by (simp add: good_def)
  have g2: "good p E input F s2" "quiet s2"
    using g1 launchReady_good [OF assms(1) g1(1)] pauseView_same [of s2 s1] by (auto simp: s2_def)
  have f1: "fresh m p s1"
    using before_stops [of p E input F s] assms(2,4) by (auto simp: s1_def good_def fresh_def)
  have f2: "fresh m p s2"
  proof (cases "xsPauseRequested s1")
    case True
    with f1 show ?thesis by (simp add: s2_def)
  next
    case False
    have "\<not> xsPauseRequested (launchReady p E None s1)"
      using False launchReady_good [OF assms(1) g1(1)] pauseView_same by blast
    with False f1 launchReady_stops [OF inv1 assms(1)] show ?thesis by (simp add: s2_def fresh_def)
  qed
  have t: "turnRun p E t s = (
      if xsPauseRequested s \<and> xsInflight s = [] then Inl (finishInterrupted None s)
      else if xsDone s = nodeCount p then Inl (finishSucceeded p s)
      else if xsPauseRequested s1 \<and> xsInflight s1 = [] then Inl (finishInterrupted None s1)
      else if xsInflight s2 = [] then Inl (finishFailed (RunError None 0 ''scheduler made no progress'') s2)
      else select p E t s2)"
    using assms(5,6) poll_quiet [OF assms(3)] unfolding turnRun_def Let_def s2_def s1_def by (simp add: calm_def)
  have done1: "xsDone s1 = xsDone s" using core_eq_fields(7) [of s1 s] by (simp add: s1_def)
  consider (interrupted) "xsPauseRequested s" "xsInflight s = []"
    | (ended) "\<not> (xsPauseRequested s \<and> xsInflight s = [])" "xsDone s = nodeCount p"
    | (before) "\<not> (xsPauseRequested s \<and> xsInflight s = [])" "xsDone s \<noteq> nodeCount p" "xsPauseRequested s1" "xsInflight s1 = []"
    | (on) "\<not> (xsPauseRequested s \<and> xsInflight s = [])" "xsDone s \<noteq> nodeCount p" "\<not> (xsPauseRequested s1 \<and> xsInflight s1 = [])"
    by blast
  then show ?thesis
  proof cases
    case interrupted
    with t pause_stopped [OF assms(2-4)] show ?thesis by simp
  next
    case ended
    with t have "turnRun p E t s = Inl (finishSucceeded p s)" by (simp only: if_False if_True simp_thms)
    with ended assms(2) show ?thesis by (auto simp: allDone_def good_def)
  next
    case before
    with t have "turnRun p E t s = Inl (finishInterrupted None s1)" by (simp only: if_False if_True simp_thms)
    with before pause_stopped [OF g1 f1] show ?thesis by simp
  next
    case on
    have ne: "xsInflight s2 \<noteq> []"
      using on(2,3) never_stuck [OF assms(1) g1(1)] done1 by (auto simp: s2_def)
    with on t have r: "turnRun p E t s = select p E t s2" by (simp only: if_False)
    show ?thesis
    proof (cases "tuChoice t")
      case (Cancel e)
      with assms(5) show ?thesis by (simp add: calm_def)
    next
      case Signal
      with r f2 poll_quiet [OF g2(2)] show ?thesis by (simp add: select_def)
    next
      case (Pick n)
      define k where "k = n mod length (xsInflight s2)"
      have k: "k < length (xsInflight s2)" using ne by (simp add: k_def)
      obtain i ph where i: "xsInflight s2 ! k = (i, ph)" by fastforce
      obtain x s3 where x: "goOn p E i ph s2 = (x, s3)" by fastforce
      show ?thesis
      proof (cases x)
        case (Inl ph')
        define s' where "s' = s3\<lparr>xsInflight := (xsInflight s3)[k := (i, ph')]\<rparr>"
        have "turnRun p E t s = Inr s'" using r Pick k_def i x Inl by (simp add: select_def Let_def s'_def)
        have "stops p s' = stops p s2"
          using goOn_frame [OF x] goOn_passed [OF x] by (intro stops_same) (simp_all add: s'_def statusAt_def [abs_def])
        moreover have "xsPauseRequested s' = xsPauseRequested s2"
          using rephase_good(2) [OF g2(1) k i x [unfolded Inl] s'_def] pauseView_same by blast
        moreover note \<open>turnRun p E t s = Inr s'\<close>
        ultimately show ?thesis using f2 by (simp add: fresh_def)
      next
        case (Inr c)
        from r Pick k_def i x Inr have e: "turnRun p E t s = receive p E t c (s3\<lparr>xsInflight := dropNth k (xsInflight s3)\<rparr>)"
          by (simp add: select_def Let_def)
        note rc = receive_good [OF assms(1) g2(1) k i x [unfolded Inr] e [symmetric]]
        show ?thesis
        proof (cases "turnRun p E t s")
          case (Inl out)
          with rc show ?thesis by simp
        next
          case (Inr s')
          then have "stops p s' < stops p s2"
            using receive_stops [OF assms(1) g2 k i x [unfolded \<open>x = Inr c\<close>], of t s'] e by simp
          then have "fresh m p s'" using f2 by (simp add: fresh_def)
          with Inr show ?thesis by simp
        qed
      qed
    qed
  qed
qed

subsection \<open>Sessions\<close>

definition ready_leg :: "flow_plan \<Rightarrow> turn list \<Rightarrow> bool" where
  "ready_leg p ts \<longleftrightarrow> (\<forall>t \<in> set ts. calm t \<and> tuStore t = None) \<and> fullCredit p < picks ts"

lemma leg_stopped:
  assumes "sound T p E input order F" "good p E input F s" "quiet s" "fresh m p s" "\<forall>t \<in> set ts. calm t \<and> tuStore t = None"
    and "runTurns p E ts s = Inl out"
  shows "allDone p E input F out \<or> nodeStops p F out \<or> stopped p E input F m out"
  using assms(2-6)
proof (induction ts arbitrary: s)
  case Nil
  then show ?case by simp
next
  case (Cons t ts)
  have t: "calm t" "tuStore t = None" using Cons.prems by simp_all
  note step = turn_stopped [OF assms(1) Cons.prems(1-3) t]
  show ?case
  proof (cases "turnRun p E t s")
    case (Inl out')
    with step Cons.prems show ?thesis by simp
  next
    case (Inr s')
    with turn_good [OF assms(1) Cons.prems(1) t(1)] Cons.prems(2) have "good p E input F s'" "quiet s'" by simp_all
    with Cons.IH [of s'] step Cons.prems Inr show ?thesis by simp
  qed
qed

lemma stopped_resumes:
  assumes "sound T p E input order F" "stopped p E input F m out"
  obtains s where "roCheckpoint out = Some (checkpointOf s)" "good p E input F (resumeRun p (checkpointOf s) False)"
    "quiet (resumeRun p (checkpointOf s) False)" "credit p (resumeRun p (checkpointOf s) False) \<le> credit p s"
    "flow_inv p E input F s" "fresh (m - 1) p (resumeRun p (checkpointOf s) False)" "0 < m"
proof -
  from assms(2) obtain s where s: "roCheckpoint out = Some (checkpointOf s)" "flow_inv p E input F s" "xsInflight s = []" "stops p s < m"
    by (auto simp: stopped_def)
  let ?r = "emit EvRunResumed (restoreExecution p (checkpointOf s) False)"
  have "core ?r = core s" using restore_core [OF s(3)] by simp
  then have "statusAt ?r = statusAt s" using core_eq_fields(2) [of ?r s] by (simp add: statusAt_def [abs_def])
  moreover have "set (xsBeforePassed ?r) = set (xsBeforePassed s)" by (simp add: restoreExecution_def checkpointOf_def)
  ultimately have "stops p ?r = stops p s" by (rule stops_same)
  then have "stops p (resumeRun p (checkpointOf s) False) \<le> m - 1"
    using s(4) advance_stops [of p ?r] by (simp add: resumeRun_def)
  moreover have "\<not> xsPauseRequested (resumeRun p (checkpointOf s) False)"
  proof -
    have "pauseView (advance_x p ?r) = pauseView ?r" using advance_frame by blast
    from pauseView_same [OF this] show ?thesis by (simp add: resumeRun_def restoreExecution_def newExecution_def)
  qed
  ultimately have "fresh (m - 1) p (resumeRun p (checkpointOf s) False)" by (simp add: fresh_def)
  with that s resumeRun_good [OF assms(1) s(2,3)] show ?thesis by simp
qed

lemma credit_le_full:
  assumes "flow_inv p E input F s"
  shows "credit p s \<le> fullCredit p"
proof -
  let ?f = "\<lambda>i. 2 * maximumAttempts p i" and ?fl = "fst ` set (xsInflight s)"
  have q: "queues p E input F s" using assms by (simp add: flow_inv_def)
  have "weight p x \<le> ?f (fst x)" if "x \<in> set (xsInflight s)" for x
  proof (cases x)
    case (Pair i ph)
    then have "phase_ok p E input F i ph" using q that by (auto simp: queues_def)
    then show ?thesis using maximumAttempts_pos [of p i] Pair by (cases ph) auto
  qed
  then have "(\<Sum>x \<leftarrow> xsInflight s. weight p x) \<le> (\<Sum>x \<leftarrow> xsInflight s. ?f (fst x))" by (rule sum_list_mono)
  also have "\<dots> = (\<Sum>i \<leftarrow> map fst (xsInflight s). ?f i)" by (simp add: comp_def)
  also have "\<dots> = (\<Sum>i \<in> ?fl. ?f i)"
    using q by (subst sum_list_distinct_conv_sum_set) (simp_all add: queues_def)
  finally have "credit p s \<le> (\<Sum>i \<in> idle p s. ?f i) + (\<Sum>i \<in> ?fl. ?f i)" by (simp add: credit_def)
  also have "\<dots> = (\<Sum>i \<in> idle p s \<union> ?fl. ?f i)" by (rule sum.union_disjoint [symmetric]) (auto simp: idle_def)
  also have "\<dots> \<le> (\<Sum>i \<in> set [0..<nodeCount p]. ?f i)"
  proof (rule sum_mono2)
    have "?fl \<subseteq> set [0..<nodeCount p]"
    proof
      fix k assume "k \<in> ?fl"
      then show "k \<in> set [0..<nodeCount p]" using queues_mem [OF q, of k] by simp
    qed
    moreover have "idle p s \<subseteq> set [0..<nodeCount p]" by (auto simp: idle_def)
    ultimately show "idle p s \<union> ?fl \<subseteq> set [0..<nodeCount p]" by simp
  qed simp_all
  also have "\<dots> = fullCredit p" by (simp add: fullCredit_def sum_list_distinct_conv_sum_set)
  finally show ?thesis .
qed

lemma session_agrees:
  assumes "sound T p E input order F" "good p E input F s" "quiet s" "fresh m p s" "\<forall>ts \<in> set legs. ready_leg p ts" "m < length legs"
  shows "\<exists>out. session p E legs s = Some out \<and> agrees p F out"
  using assms(2-6)
proof (induction legs arbitrary: s m)
  case Nil
  then show ?case by simp
next
  case (Cons ts legs)
  have leg: "ready_leg p ts" using Cons.prems by simp
  have "credit p s \<le> fullCredit p" using Cons.prems(1) credit_le_full [of p E input F s] by (simp add: good_def)
  then obtain out where out: "runTurns p E ts s = Inl out"
    using runTurns_end [OF assms(1) Cons.prems(1), of ts] leg by (auto simp: ready_leg_def)
  from leg_stopped [OF assms(1) Cons.prems(1-3) _ out] leg
  consider "allDone p E input F out \<or> nodeStops p F out" | "stopped p E input F m out" by (auto simp: ready_leg_def)
  then show ?case
  proof cases
    case 1
    then have "agrees p F out" using allDone_agrees [OF assms(1)] nodeStops_agrees by blast
    with out show ?thesis by (simp add: agrees_def)
  next
    case 2
    from stopped_resumes [OF assms(1) 2] obtain s' where s': "roCheckpoint out = Some (checkpointOf s')"
      "good p E input F (resumeRun p (checkpointOf s') False)" "quiet (resumeRun p (checkpointOf s') False)"
      "fresh (m - 1) p (resumeRun p (checkpointOf s') False)" "0 < m" by metis
    from Cons.IH [OF s'(2-4)] Cons.prems(4,5) s'(5) out s'(1) show ?thesis by simp
  qed
qed

end
