(* ===== verification/FlowSafety.thy ===== *)
theory FlowSafety
  imports FlowTurns
begin

section \<open>Workflow: what every run keeps\<close>

text \<open>
  The invariants of the scheduler that hold of every run: whatever the step limit, the executor of the nodes,
  the cancellations and interrupts, and however often it is resumed from a checkpoint. They say what is in
  flight, how many attempts have been started, and that a node which has been left along an edge has left the
  values the edge stands for. No reference to another run is needed for them.
\<close>

subsection \<open>The invariants\<close>

definition completed :: "node_status \<Rightarrow> bool" where
  "completed st \<longleftrightarrow> st = NodeSucceeded \<or> st = NodeException"

definition sized :: "flow_plan \<Rightarrow> exec_state \<Rightarrow> bool" where
  "sized p s \<longleftrightarrow> length (xsNodes s) = nodeCount p \<and> length (xsEdges s) = length (plEdges p) \<and>
     length (xsOutputs s) = nodeCount p \<and> length (xsFailures s) = nodeCount p"

definition flight_inv :: "flow_plan \<Rightarrow> exec_state \<Rightarrow> bool" where
  "flight_inv p s \<longleftrightarrow> sized p s \<and> distinct (xsReady s @ map fst (xsInflight s)) \<and>
     (\<forall>k \<in> set (xsReady s) \<union> fst ` set (xsInflight s). k < nodeCount p \<and> queued (statusAt s k)) \<and>
     length (xsInflight s) \<le> maxConcurrency p"

text \<open>The node has been left along a route with what the route stands for: all its outputs, or the data of its failure.\<close>

definition carries :: "ports \<Rightarrow> ports option \<Rightarrow> bool" where
  "carries schemas values \<longleftrightarrow> (\<exists>vs. values = Some vs \<and> (\<forall>n \<in> fst ` set schemas. map_of vs n \<noteq> None))"

definition leaves :: "flow_plan \<Rightarrow> exec_state \<Rightarrow> nat \<Rightarrow> string \<Rightarrow> bool" where
  "leaves p s k r \<longleftrightarrow>
     statusAt s k = NodeSucceeded \<and> r \<in> set (nsRoutes (pnSpec (nodeAt p k))) \<and> carries (nsOutputs (pnSpec (nodeAt p k))) (outputsOf s k) \<or>
     statusAt s k = NodeException \<and> npError (nodePolicy (nodeAt p k)) = ErrorContinueWithDefault \<and>
       carries (nsOutputs (pnSpec (nodeAt p k))) (outputsOf s k) \<or>
     statusAt s k = NodeException \<and> npError (nodePolicy (nodeAt p k)) = ErrorRoute \<and> r = RouteError \<and>
       (\<exists>d. failuresOf s k = Some d \<and> (\<forall>n. validNodeErrorPort n \<longrightarrow> map_of d n \<noteq> None))"

definition entered :: "flow_plan \<Rightarrow> exec_state \<Rightarrow> nat \<Rightarrow> bool" where
  "entered p s i \<longleftrightarrow> i = plStart p \<or> (\<exists>j \<in> set (incoming p i). xsEdges s ! j = edgeTaken)"

definition value_inv :: "flow_plan \<Rightarrow> exec_state \<Rightarrow> bool" where
  "value_inv p s \<longleftrightarrow>
     (\<forall>i < nodeCount p. statusAt s i \<noteq> NodePending \<and> statusAt s i \<noteq> NodeSkipped \<longrightarrow> entered p s i) \<and>
     (\<forall>j < length (plEdges p). xsEdges s ! j = edgeTaken \<longrightarrow> leaves p s (peFrom (edgeAt p j)) (peRoute (edgeAt p j)))"

text \<open>The attempts started, by the events of this leg of the run and of the legs before it.\<close>

fun isStart :: "flow_event \<Rightarrow> bool" where
  "isStart (EvNodeStarted i a) \<longleftrightarrow> True"
| "isStart _ \<longleftrightarrow> False"

definition starts :: "flow_event list \<Rightarrow> nat" where
  "starts evs = length (filter isStart evs)"

lemma starts_simps [simp]: "starts [] = 0" "starts (xs @ ys) = starts xs + starts ys" "starts (ev # xs) = (if isStart ev then 1 else 0) + starts xs"
  by (simp_all add: starts_def)

definition maxSteps :: "flow_plan \<Rightarrow> int" where
  "maxSteps p = flMaxSteps (dfLimits (plDefinition p))"

definition steps_inv :: "flow_plan \<Rightarrow> flow_event list \<Rightarrow> exec_state \<Rightarrow> bool" where
  "steps_inv p past s \<longleftrightarrow> xsTotal s = xsSteps s \<and> int (starts (past @ xsEvents s)) = min (xsSteps s) (maxSteps p)"

definition safe :: "flow_plan \<Rightarrow> flow_event list \<Rightarrow> exec_state \<Rightarrow> bool" where
  "safe p past s \<longleftrightarrow> flight_inv p s \<and> value_inv p s \<and> steps_inv p past s"

text \<open>What the invariants need of a plan.\<close>

definition runnable :: "flow_plan \<Rightarrow> bool" where
  "runnable p \<longleftrightarrow> edges_ok p \<and> plStart p < nodeCount p \<and> 0 \<le> maxSteps p \<and> (\<forall>i < nodeCount p.
     npError (nodePolicy (nodeAt p i)) = ErrorContinueWithDefault \<longrightarrow>
     carries (nsOutputs (pnSpec (nodeAt p i))) (Some (defaultPorts (nodePolicy (nodeAt p i)))))"

subsection \<open>One node changes\<close>

definition node_change :: "nat \<Rightarrow> node_status \<Rightarrow> exec_state \<Rightarrow> exec_state \<Rightarrow> bool" where
  "node_change i st s s' \<longleftrightarrow> (\<forall>k. statusAt s' k = (if k = i then st else statusAt s k)) \<and>
     (\<forall>k. k \<noteq> i \<longrightarrow> outputsOf s' k = outputsOf s k \<and> failuresOf s' k = failuresOf s k)"

lemma leaves_completed: "leaves p s k r \<Longrightarrow> completed (statusAt s k)"
  by (auto simp: leaves_def completed_def)

lemma leaves_change: "node_change i st s s' \<Longrightarrow> k \<noteq> i \<Longrightarrow> leaves p s' k r = leaves p s k r"
  by (simp add: node_change_def leaves_def)

lemma value_change:
  assumes "edges_ok p" "value_inv p s" "node_change i st s s'" "i < nodeCount p" "\<not> completed (statusAt s i)"
    and "\<And>j. j < length (plEdges p) \<Longrightarrow> peFrom (edgeAt p j) \<noteq> i \<Longrightarrow> xsEdges s' ! j = xsEdges s ! j"
    and "\<And>j. j < length (plEdges p) \<Longrightarrow> peFrom (edgeAt p j) = i \<Longrightarrow> xsEdges s' ! j = edgeTaken \<Longrightarrow> leaves p s' i (peRoute (edgeAt p j))"
    and "st \<noteq> NodePending \<Longrightarrow> st \<noteq> NodeSkipped \<Longrightarrow> entered p s i"
  shows "value_inv p s'"
  unfolding value_inv_def
proof (intro conjI allI impI)
  have kept: "entered p s' k" if k: "entered p s k" "k < nodeCount p" for k
  proof (cases "k = plStart p")
    case False
    with k obtain j where j: "j \<in> set (incoming p k)" "xsEdges s ! j = edgeTaken" by (auto simp: entered_def)
    then have l: "j < length (plEdges p)" using assms(1) k(2) by (auto simp: incoming_set)
    with j(2) assms(2) have "completed (statusAt s (peFrom (edgeAt p j)))"
      using leaves_completed by (auto simp: value_inv_def)
    with assms(5) have "peFrom (edgeAt p j) \<noteq> i" by auto
    then have "xsEdges s' ! j = edgeTaken" using assms(6) l j(2) by simp
    with j(1) show ?thesis by (auto simp: entered_def)
  qed (simp add: entered_def)
  fix k assume k: "k < nodeCount p" "statusAt s' k \<noteq> NodePending \<and> statusAt s' k \<noteq> NodeSkipped"
  show "entered p s' k"
  proof (rule kept [OF _ k(1)])
    show "entered p s k"
      using k assms(2,3,8) by (cases "k = i") (auto simp: node_change_def value_inv_def)
  qed
next
  fix j assume j: "j < length (plEdges p)" "xsEdges s' ! j = edgeTaken"
  show "leaves p s' (peFrom (edgeAt p j)) (peRoute (edgeAt p j))"
  proof (cases "peFrom (edgeAt p j) = i")
    case True
    with assms(7) j show ?thesis by simp
  next
    case False
    with assms(2,6) j have "leaves p s (peFrom (edgeAt p j)) (peRoute (edgeAt p j))" by (simp add: value_inv_def)
    with leaves_change [OF assms(3) False] show ?thesis by simp
  qed
qed

lemma value_same_edges:
  assumes "edges_ok p" "value_inv p s" "node_change i st s s'" "i < nodeCount p" "\<not> completed (statusAt s i)"
    and "xsEdges s' = xsEdges s" "st \<noteq> NodePending \<Longrightarrow> st \<noteq> NodeSkipped \<Longrightarrow> entered p s i"
  shows "value_inv p s'"
proof (rule value_change [OF assms(1-5)])
  show "leaves p s' i (peRoute (edgeAt p j))"
    if "j < length (plEdges p)" "peFrom (edgeAt p j) = i" "xsEdges s' ! j = edgeTaken" for j
    using that assms(2,5,6) leaves_completed by (auto simp: value_inv_def)
qed (use assms(6,7) in simp_all)

lemma value_inv_fields:
  assumes "xsNodes s' = xsNodes s" "xsEdges s' = xsEdges s" "xsOutputs s' = xsOutputs s" "xsFailures s' = xsFailures s"
  shows "value_inv p s' = value_inv p s"
  using assms by (simp add: value_inv_def entered_def leaves_def statusAt_def outputsOf_def failuresOf_def)

lemma sized_fields:
  assumes "length (xsNodes s') = length (xsNodes s)" "length (xsEdges s') = length (xsEdges s)"
    "length (xsOutputs s') = length (xsOutputs s)" "length (xsFailures s') = length (xsFailures s)"
  shows "sized p s' = sized p s"
  using assms by (simp add: sized_def)

text \<open>The interrupt requests change no field the invariants read, and no event.\<close>

lemma place_core:
  assumes "core s' = core s"
  shows "flight_inv p s' = flight_inv p s" "value_inv p s' = value_inv p s"
proof -
  note f = core_eq_fields [OF assms(1)]
  have "statusAt s' = statusAt s" using f by (simp add: statusAt_def [abs_def])
  then show "flight_inv p s' = flight_inv p s" "value_inv p s' = value_inv p s"
    using f value_inv_fields [of s' s p] sized_fields [of s' s p] by (simp_all add: flight_inv_def)
qed

lemma safe_core: "core s' = core s \<Longrightarrow> xsEvents s' = xsEvents s \<Longrightarrow> safe p past s' = safe p past s"
  using place_core [of s' s] core_eq_fields(8,9) [of s' s] by (simp add: safe_def steps_inv_def)

lemma appendRerun_events: "xsEvents (foldl appendRerun s is) = xsEvents s"
proof (induction "is" arbitrary: s)
  case (Cons i "is")
  have "xsEvents (appendRerun s i) = xsEvents s" by (simp add: appendRerun_def)
  with Cons show ?case by simp
qed simp

lemma poll_safe [simp]: "safe p past (poll b s) = safe p past s"
  by (rule safe_core [OF poll_core]) (simp add: poll_def requestHostInterrupt_def appendRerun_events)

lemma before_safe [simp]: "safe p past (requestBeforeInterrupt p s) = safe p past s"
  by (rule safe_core [OF before_core]) (simp add: requestBeforeInterrupt_def Let_def)

subsection \<open>Settling nodes\<close>

text \<open>A step that starts no attempt.\<close>

definition stepView :: "exec_state \<Rightarrow> int \<times> int \<times> nat" where
  "stepView s = (xsSteps s, xsTotal s, starts (xsEvents s))"

lemma steps_same: "stepView s' = stepView s \<Longrightarrow> steps_inv p past s' = steps_inv p past s"
  by (simp add: stepView_def steps_inv_def)

lemma settle_stepView: "stepView (settle p i s) = stepView s"
  by (simp add: settle_def markReady_def skipNode_def stepView_def) (simp add: emit_def setEdges_def setStatus_def)

lemma settle_change:
  assumes "i < length (xsNodes s)"
  shows "node_change i (if anyIncomingTaken p s i then NodeReady else NodeSkipped) s (settle p i s)"
  using assms by (simp add: node_change_def settle_def markReady_def skipNode_def outputsOf_def failuresOf_def)

lemma settle_edges:
  "j < length (xsEdges s) \<Longrightarrow> xsEdges (settle p i s) ! j =
    (if \<not> anyIncomingTaken p s i \<and> j \<in> set (outgoing p i) then edgeSkipped else xsEdges s ! j)"
  by (simp add: settle_def markReady_def skipNode_def setEdges_nth)

lemma settle_safe:
  assumes "runnable p" "safe p past s" "i < nodeCount p" "settles p s i"
  shows "safe p past (settle p i s)"
proof -
  have ok: "edges_ok p" using assms(1) by (simp add: runnable_def)
  have inv: "flight_inv p s" "value_inv p s" "steps_inv p past s" using assms(2) by (simp_all add: safe_def)
  then have len: "i < length (xsNodes s)" "length (xsEdges s) = length (plEdges p)"
    using assms(3) by (simp_all add: flight_inv_def sized_def)
  have st: "statusAt s i = NodePending" "i \<noteq> plStart p" using assms(4) by (auto simp: settles_def incomingResolved_def)
  note ch = settle_change [OF len(1), of p]
  have "value_inv p (settle p i s)"
  proof (rule value_change [OF ok inv(2) ch assms(3)])
    show "\<not> completed (statusAt s i)" by (simp add: st completed_def)
    show "xsEdges (settle p i s) ! j = xsEdges s ! j" if "j < length (plEdges p)" "peFrom (edgeAt p j) \<noteq> i" for j
      using that len(2) ok assms(3) by (simp add: settle_edges outgoing_set)
    show "leaves p (settle p i s) i (peRoute (edgeAt p j))"
      if "j < length (plEdges p)" "peFrom (edgeAt p j) = i" "xsEdges (settle p i s) ! j = edgeTaken" for j
    proof -
      have "xsEdges s ! j = edgeTaken" using that len(2) by (auto simp: settle_edges split: if_splits)
      with that inv(2) have "completed (statusAt s i)" using leaves_completed by (auto simp: value_inv_def)
      then show ?thesis by (simp add: st completed_def)
    qed
    show "entered p s i" if "(if anyIncomingTaken p s i then NodeReady else NodeSkipped) \<noteq> NodeSkipped"
      using that by (auto simp: entered_def anyIncomingTaken_def list_ex_iff split: if_splits)
  qed
  moreover have "flight_inv p (settle p i s)"
  proof -
    have "\<not> queued (statusAt s i)" by (simp add: st)
    then have free: "i \<notin> set (xsReady s) \<union> fst ` set (xsInflight s)" using inv(1) unfolding flight_inv_def by blast
    have f: "xsReady (settle p i s) = xsReady s @ (if anyIncomingTaken p s i then [i] else [])" "xsInflight (settle p i s) = xsInflight s"
      by (simp_all add: settle_def markReady_def skipNode_def)
    have "sized p (settle p i s) = sized p s"
      by (rule sized_fields) (simp_all add: settle_def markReady_def skipNode_def)
    with inv(1) free ch assms(3) show ?thesis by (auto simp: flight_inv_def f node_change_def)
  qed
  moreover have "steps_inv p past (settle p i s)" using inv(3) steps_same [OF settle_stepView] by simp
  ultimately show ?thesis by (simp add: safe_def)
qed

lemma safe_size: "safe p past s \<Longrightarrow> length (xsNodes s) = nodeCount p"
  by (simp add: safe_def flight_inv_def sized_def)

lemma advancePass_safe:
  assumes "runnable p" "safe p past s" "\<forall>i \<in> set is. i < nodeCount p"
  shows "safe p past (fst (advancePass p is (s, b)))"
  using assms(2,3)
proof (induction "is" arbitrary: s b)
  case (Cons i "is")
  then show ?case using settle_safe [OF assms(1) Cons.prems(1), of i] by simp
qed simp

lemma advance_safe: "runnable p \<Longrightarrow> safe p past s \<Longrightarrow> safe p past (advance_x p s)"
proof (induction p s rule: advance_x.induct)
  case (1 p s)
  obtain s' b where a: "advancePass p [0..<length (xsNodes s)] (s, False) = (s', b)" by fastforce
  have "safe p past s'"
    using advancePass_safe [OF "1.prems", of "[0..<length (xsNodes s)]" False] a safe_size [OF "1.prems"(2)] by simp
  with "1.IH" [OF a [symmetric]] "1.prems" a show ?case by (subst advance_x.simps) (cases b; simp)
qed

subsection \<open>Launching\<close>

lemma launch_safe:
  assumes "runnable p" "safe p past s" "xsReady s = i # rs" "length (xsInflight s) < maxConcurrency p"
  shows "safe p past (launch p E i (s\<lparr>xsReady := rs\<rparr>))"
proof -
  let ?s = "launch p E i (s\<lparr>xsReady := rs\<rparr>)"
  have inv: "flight_inv p s" "value_inv p s" "steps_inv p past s" using assms(2) by (simp_all add: safe_def)
  have i: "i < nodeCount p" "queued (statusAt s i)" "i < length (xsNodes s)"
    using inv(1) assms(3) by (auto simp: flight_inv_def sized_def)
  obtain ph where f: "xsInflight ?s = xsInflight s @ [(i, ph)]" "xsReady ?s = rs"
    by (cases "resolveInputs p E (xsInput (s\<lparr>xsReady := rs\<rparr>)) (outputsOf (s\<lparr>xsReady := rs\<rparr>)) (failuresOf (s\<lparr>xsReady := rs\<rparr>)) i")
      (auto simp: launch_def)
  have ch: "\<exists>st. queued st \<and> node_change i st s ?s"
  proof (cases "resolveInputs p E (xsInput s) (outputsOf (s\<lparr>xsReady := rs\<rparr>)) (failuresOf (s\<lparr>xsReady := rs\<rparr>)) i")
    case (Inl e)
    then have "node_change i (statusAt s i) s ?s" by (simp add: launch_def node_change_def outputsOf_def failuresOf_def)
    with i(2) show ?thesis by blast
  next
    case (Inr vs)
    then have "node_change i NodeRunning s ?s"
      using i(3) by (simp add: launch_def node_change_def outputsOf_def failuresOf_def)
    then show ?thesis by (intro exI [of _ NodeRunning]) simp
  qed
  then obtain st where st: "queued st" "node_change i st s ?s" by blast
  have "value_inv p ?s"
  proof (rule value_same_edges [OF _ inv(2) st(2) i(1)])
    show "entered p s i" using inv(2) i(1,2) by (auto simp: value_inv_def queued_def)
  qed (use assms(1) i(2) in \<open>auto simp: runnable_def completed_def queued_def launch_def split: sum.splits\<close>)
  moreover have "flight_inv p ?s"
  proof -
    define s' where "s' = ?s"
    have f': "xsInflight s' = xsInflight s @ [(i, ph)]" "xsReady s' = rs" by (simp_all add: s'_def f)
    have sz: "sized p s' = sized p s" unfolding s'_def by (rule sized_fields) (simp_all add: launch_def split: sum.splits)
    have q: "queued (statusAt s' k)" if "queued (statusAt s k)" for k using that st by (simp add: node_change_def s'_def)
    have "flight_inv p s'" using inv(1) assms(3,4) q unfolding flight_inv_def f' sz by simp
    then show ?thesis by (simp add: s'_def)
  qed
  moreover have "stepView ?s = stepView s" by (simp add: launch_def stepView_def split: sum.splits)
  then have "steps_inv p past ?s" using steps_same inv(3) by blast
  ultimately show ?thesis by (simp add: safe_def)
qed

lemma safe_drop_ready:
  assumes "safe p past s" "xsReady s = i # rs"
  shows "safe p past (s\<lparr>xsReady := rs\<rparr>)"
proof -
  have "sized p (s\<lparr>xsReady := rs\<rparr>) = sized p s" "value_inv p (s\<lparr>xsReady := rs\<rparr>) = value_inv p s"
    by (rule sized_fields value_inv_fields, simp_all)+
  with assms show ?thesis by (auto simp: safe_def flight_inv_def steps_inv_def)
qed

lemma launchReady_safe:
  assumes "runnable p" "safe p past s"
  shows "safe p past (launchReady p E c s)"
  using assms(2)
proof (induction "length (xsReady s)" arbitrary: s c)
  case 0
  then show ?case by (simp add: launchReady.simps [of p E c s])
next
  case (Suc n)
  then obtain i rs where r: "xsReady s = i # rs" by (cases "xsReady s") auto
  show ?case
  proof (cases "length (xsInflight s) < maxConcurrency p")
    case True
    have "safe p past (launch p E i (s\<lparr>xsReady := rs\<rparr>))" by (rule launch_safe [OF assms(1) Suc.prems r True])
    with Suc.hyps(1) [of "launch p E i (s\<lparr>xsReady := rs\<rparr>)"] Suc.hyps(2) r True safe_drop_ready [OF Suc.prems r] show ?thesis
      by (simp add: launchReady.simps [of p E c s])
  next
    case False
    then show ?thesis using Suc.prems r by (simp add: launchReady.simps [of p E c s])
  qed
qed

subsection \<open>A goroutine goes on\<close>

lemma goOn_stepView:
  assumes "goOn p E i ph s = (r, s')" "steps_inv p past s"
  shows "steps_inv p past s'"
  using assms
  by (auto simp: goOn_def Let_def stepLimitExceeded_def steps_inv_def maxSteps_def emit_def split: phase.splits sum.splits if_splits)

lemma goOn_fields:
  assumes "goOn p E i ph s = (r, s')"
  shows "xsNodes s' = xsNodes s" "xsEdges s' = xsEdges s" "xsOutputs s' = xsOutputs s" "xsFailures s' = xsFailures s"
    "xsReady s' = xsReady s" "xsInflight s' = xsInflight s"
  using assms by (auto simp: goOn_def Let_def split: phase.splits sum.splits if_splits)

lemma goOn_safe:
  assumes "safe p past s" "goOn p E i ph s = (r, s')"
  shows "safe p past s'"
proof -
  note f = goOn_fields [OF assms(2)]
  have "statusAt s' = statusAt s" using f by (simp add: statusAt_def [abs_def])
  then show ?thesis
    using assms(1) f goOn_stepView [OF assms(2)] value_inv_fields [of s' s p] sized_fields [of s' s p]
    by (simp add: safe_def flight_inv_def)
qed

lemma validatePortValues_None: "validatePortValues E values schemas = None \<Longrightarrow> carries schemas values"
  by (fastforce simp: validatePortValues_def carries_def first_err_map_None split: option.splits if_splits)

text \<open>What the completion of a node carries.\<close>

definition sends :: "flow_plan \<Rightarrow> nat \<Rightarrow> completion \<Rightarrow> bool" where
  "sends p i c \<longleftrightarrow> cpIndex c = i \<and> (cpErr c = None \<longrightarrow> cpRoute c \<in> set (nsRoutes (pnSpec (nodeAt p i))) \<and>
     carries (nsOutputs (pnSpec (nodeAt p i))) (Some (cpValues c)))"

lemma goOn_sends:
  assumes "goOn p E i ph s = (Inr c, s')"
  shows "sends p i c"
proof -
  have "carries (nsOutputs (pnSpec (nodeAt p i))) (Some vs) \<and> r \<in> set (nsRoutes (pnSpec (nodeAt p i)))"
    if "invokeAttempt p E i inputs a = Inr (vs, r)" for inputs a vs r
  proof -
    from that obtain vals where v: "validatePortValues E vals (nsOutputs (pnSpec (nodeAt p i))) = None" "vs = the vals"
      "r \<in> set (nsRoutes (pnSpec (nodeAt p i)))"
      by (auto simp: invokeAttempt_def split: sum.splits option.splits if_splits)
    with validatePortValues_None [OF v(1)] show ?thesis by (auto simp: carries_def)
  qed
  with assms show ?thesis
    by (auto simp: goOn_def Let_def sends_def succeeded_def failed_def split: phase.splits sum.splits if_splits)
qed

lemma rephase_safe:
  assumes "safe p past s" "k < length (xsInflight s)" "xsInflight s ! k = (i, ph)" "goOn p E i ph s = (Inl ph', s1)"
  shows "safe p past (s1\<lparr>xsInflight := (xsInflight s1)[k := (i, ph')]\<rparr>)"
proof -
  let ?s = "s1\<lparr>xsInflight := (xsInflight s1)[k := (i, ph')]\<rparr>"
  have s1: "safe p past s1" by (rule goOn_safe [OF assms(1,4)])
  note f = goOn_fields [OF assms(4)]
  have m: "map fst (xsInflight ?s) = map fst (xsInflight s1)"
    using assms(2,3) by (simp add: f map_update list_update_same_conv)
  then have "fst ` set (xsInflight ?s) = fst ` set (xsInflight s1)" by (metis set_map)
  with m s1 sized_fields [of ?s s1 p] value_inv_fields [of ?s s1 p] show ?thesis
    by (simp add: safe_def flight_inv_def steps_inv_def)
qed

text \<open>The node that has sent its completion, out of the flight.\<close>

lemma landed_safe:
  assumes "safe p past s" "k < length (xsInflight s)" "xsInflight s ! k = (i, ph)"
  shows "safe p past (s\<lparr>xsInflight := dropNth k (xsInflight s)\<rparr>)" "i < nodeCount p" "queued (statusAt s i)"
    "i \<notin> set (xsReady s) \<union> fst ` set (dropNth k (xsInflight s))"
proof -
  have fl: "flight_inv p s" using assms(1) by (simp add: safe_def)
  then have d: "distinct (xsReady s @ map fst (xsInflight s))" by (simp add: flight_inv_def)
  note dn = dropNth_fst [OF assms(2,3) d]
  have "i \<in> fst ` set (xsInflight s)" using dn(4) by simp
  with fl show "i < nodeCount p" "queued (statusAt s i)" by (auto simp: flight_inv_def)
  show "i \<notin> set (xsReady s) \<union> fst ` set (dropNth k (xsInflight s))" using dn(2,3) by simp
  let ?s = "s\<lparr>xsInflight := dropNth k (xsInflight s)\<rparr>"
  have sub: "fst ` set (xsInflight ?s) \<subseteq> fst ` set (xsInflight s)" using dn(4) by auto
  have len: "length (xsInflight ?s) \<le> length (xsInflight s)" using assms(2) by (simp add: dropNth_def)
  have "flight_inv p ?s"
    unfolding flight_inv_def
  proof (intro conjI ballI)
    show "sized p ?s" using fl sized_fields [of ?s s p] by (simp add: flight_inv_def)
    show "distinct (xsReady ?s @ map fst (xsInflight ?s))" using dn(1) by simp
    fix k assume "k \<in> set (xsReady ?s) \<union> fst ` set (xsInflight ?s)"
    then have "k \<in> set (xsReady s) \<union> fst ` set (xsInflight s)" using sub by auto
    then have "k < nodeCount p \<and> queued (statusAt s k)" using fl unfolding flight_inv_def by blast
    then show "k < nodeCount p" "queued (statusAt ?s k)" by simp_all
  next
    show "length (xsInflight ?s) \<le> maxConcurrency p" using len fl unfolding flight_inv_def by linarith
  qed
  with assms(1) value_inv_fields [of ?s s p] show "safe p past ?s" by (simp add: safe_def steps_inv_def)
qed

subsection \<open>A completion is received\<close>

lemma newNodeFailureData_ports:
  "newNodeFailureData E m k = Some d \<Longrightarrow> validNodeErrorPort n \<Longrightarrow> map_of d n \<noteq> None"
  by (auto simp: newNodeFailureData_def validNodeErrorPort_def split: option.splits)

text \<open>A completion that does not stop the run resolves the edges of its node along a route it has left by.\<close>

lemma completeNode_left:
  assumes "runnable p" "sends p i c" "i < nodeCount p" "sized p t" "completeNode p E c t = (None, s')"
  shows "\<exists>st r. completed st \<and> node_change i st t s' \<and> leaves p s' i r \<and>
    (\<forall>j < length (plEdges p). xsEdges s' ! j =
      (if j \<in> set (outgoing p i) then (if peRoute (edgeAt p j) = r then edgeTaken else edgeSkipped) else xsEdges t ! j))"
proof -
  have ci: "cpIndex c = i" using assms(2) by (simp add: sends_def)
  have len: "i < length (xsNodes t)" "i < length (xsOutputs t)" "i < length (xsFailures t)" "length (xsEdges t) = length (plEdges p)"
    using assms(3,4) by (simp_all add: sized_def)
  show ?thesis
  proof (cases "cpErr c")
    case None
    obtain b ps pr where s': "s' = (resolveOutgoing p i (cpRoute c) (recordNodeCompletion c t))
        \<lparr>xsDone := xsDone t + 1, xsBeforePassed := b, xsPause := ps, xsPauseRequested := pr\<rparr>"
      using completeNode_ok [OF None, of p E t] assms(5) ci by auto
    have f: "xsNodes s' = (xsNodes t)[i := (xsNodes t ! i)\<lparr>nrAttempts := cpAttempts c, nrStatus := NodeSucceeded\<rparr>]"
      "xsOutputs s' = (xsOutputs t)[i := Some (cpValues c)]" "xsFailures s' = xsFailures t"
      by (simp_all add: s' recordNodeCompletion_def Let_def None ci)
    have "node_change i NodeSucceeded t s'"
      using len by (simp add: node_change_def statusAt_def outputsOf_def failuresOf_def f nth_list_update)
    moreover have "leaves p s' i (cpRoute c)"
      using assms(2) len None by (simp add: leaves_def statusAt_def outputsOf_def f sends_def)
    moreover have "\<forall>j < length (plEdges p). xsEdges s' ! j =
      (if j \<in> set (outgoing p i) then (if peRoute (edgeAt p j) = cpRoute c then edgeTaken else edgeSkipped) else xsEdges t ! j)"
      using len by (simp add: s' resolveOutgoing_def setEdges_nth recordNodeCompletion_def Let_def)
    ultimately show ?thesis by (intro exI [of _ NodeSucceeded] exI [of _ "cpRoute c"]) (simp add: completed_def)
  next
    case (Some e)
    let ?pol = "nodePolicy (nodeAt p i)"
    from assms(5) Some obtain d where d: "newNodeFailureData E e (cpFailure c) = Some d"
      "npError ?pol = ErrorRoute \<and> s' = handled p i d RouteError (recordNodeCompletion c t) \<or>
       npError ?pol = ErrorContinueWithDefault \<and> s' = handled p i d RouteSuccess
         ((recordNodeCompletion c t)\<lparr>xsOutputs := (xsOutputs (recordNodeCompletion c t))[i := Some (defaultPorts ?pol)]\<rparr>)"
      by (auto simp: completeNode_def completeFailedNode_def Let_def ci split: if_splits option.splits)
    then obtain out r where r: "s' = handled p i d r ((recordNodeCompletion c t)\<lparr>xsOutputs := (xsOutputs t)[i := out]\<rparr>)"
      "npError ?pol = ErrorRoute \<and> r = RouteError \<and> out = xsOutputs t ! i \<or>
       npError ?pol = ErrorContinueWithDefault \<and> out = Some (defaultPorts ?pol)"
      by (auto simp: recordNodeCompletion_def Let_def Some ci)
    have f: "xsNodes s' = (xsNodes t)[i := (xsNodes t ! i)\<lparr>nrAttempts := cpAttempts c, nrFailure := cpFailure c, nrStatus := NodeException\<rparr>]"
      "xsOutputs s' = (xsOutputs t)[i := out]" "xsFailures s' = (xsFailures t)[i := Some d]"
      using len by (simp_all add: r handled_def recordNodeCompletion_def Let_def Some ci setStatus_def)
    have "node_change i NodeException t s'"
      using len by (simp add: node_change_def statusAt_def outputsOf_def failuresOf_def f nth_list_update)
    moreover have "leaves p s' i r"
      using r(2) len assms(1,3) newNodeFailureData_ports [OF d(1)]
      by (auto simp: leaves_def statusAt_def outputsOf_def failuresOf_def f runnable_def)
    moreover have "\<forall>j < length (plEdges p). xsEdges s' ! j =
      (if j \<in> set (outgoing p i) then (if peRoute (edgeAt p j) = r then edgeTaken else edgeSkipped) else xsEdges t ! j)"
      using len by (simp add: r(1) handled_def resolveOutgoing_def setEdges_nth recordNodeCompletion_def Let_def)
    ultimately show ?thesis by (intro exI [of _ NodeException] exI [of _ r]) (simp add: completed_def)
  qed
qed

lemma completeNode_events:
  assumes "completeNode p E c t = (err, s')"
  shows "xsEvents s' = xsEvents t" "xsSteps s' = xsSteps t" "xsTotal s' = xsTotal t"
  using assms
  by (auto simp: completeNode_def completeFailedNode_def Let_def handled_def recordNodeCompletion_def resolveOutgoing_def
      split: if_splits option.splits)

lemma completeNode_queue:
  assumes "completeNode p E c t = (None, s')"
  shows "xsReady s' = xsReady t" "xsInflight s' = xsInflight t" "sized p s' = sized p t"
proof -
  show "xsReady s' = xsReady t" "xsInflight s' = xsInflight t"
    using assms by (auto simp: completeNode_def completeFailedNode_def Let_def handled_def split: if_splits option.splits)
  show "sized p s' = sized p t"
    by (rule sized_fields) (use assms in \<open>auto simp: completeNode_def completeFailedNode_def Let_def handled_def
      recordNodeCompletion_def resolveOutgoing_def split: if_splits option.splits\<close>)
qed

lemma completeNode_safe:
  assumes "runnable p" "safe p past t" "sends p i c" "i < nodeCount p" "queued (statusAt t i)"
    and "i \<notin> set (xsReady t) \<union> fst ` set (xsInflight t)" "completeNode p E c t = (None, s')"
  shows "safe p past s'"
proof -
  have inv: "flight_inv p t" "value_inv p t" "steps_inv p past t" using assms(2) by (simp_all add: safe_def)
  have sz: "sized p t" and ok: "edges_ok p" using inv(1) assms(1) by (simp_all add: flight_inv_def runnable_def)
  obtain st r where st: "completed st" "node_change i st t s'" "leaves p s' i r"
    and ed: "\<And>j. j < length (plEdges p) \<Longrightarrow> xsEdges s' ! j =
      (if j \<in> set (outgoing p i) then (if peRoute (edgeAt p j) = r then edgeTaken else edgeSkipped) else xsEdges t ! j)"
    using completeNode_left [OF assms(1,3,4) sz assms(7)] by blast
  have out: "j \<in> set (outgoing p i) \<longleftrightarrow> peFrom (edgeAt p j) = i" if "j < length (plEdges p)" for j
    using that ok assms(4) by (simp add: outgoing_set)
  note q = completeNode_queue [OF assms(7)]
  have "value_inv p s'"
  proof (rule value_change [OF ok inv(2) st(2) assms(4)])
    show "\<not> completed (statusAt t i)" using assms(5) by (auto simp: queued_def completed_def)
    show "entered p t i" using inv(2) assms(4,5) by (auto simp: value_inv_def queued_def)
  qed (use ed out st(3) in \<open>auto split: if_splits\<close>)
  moreover have "flight_inv p s'"
    using inv(1) st(2) assms(6) q unfolding flight_inv_def node_change_def by auto
  moreover have "steps_inv p past s'" using inv(3) completeNode_events [OF assms(7)] by (simp add: steps_inv_def)
  ultimately show ?thesis by (simp add: safe_def)
qed

subsection \<open>How a leg ends\<close>

text \<open>A leg of a run ends within the step limit, and its checkpoint is of a state that has the invariants.\<close>

definition legEnds :: "flow_plan \<Rightarrow> flow_event list \<Rightarrow> run_outcome \<Rightarrow> bool" where
  "legEnds p past out \<longleftrightarrow> int (starts (past @ roEvents out)) \<le> maxSteps p \<and>
     (\<forall>cp. roCheckpoint out = Some cp \<longrightarrow> (\<exists>u. safe p past u \<and> xsInflight u = [] \<and> cp = checkpointOf u \<and>
        starts (roEvents out) = starts (xsEvents u)))"

lemma legEnds_plain:
  assumes "steps_inv p past s" "roEvents out = xsEvents s @ [ev]" "\<not> isStart ev" "roCheckpoint out = None"
  shows "legEnds p past out"
  using assms by (simp add: legEnds_def steps_inv_def)

lemma drain_steps: "xsEvents (drain f s) = xsEvents s \<and> xsSteps (drain f s) = xsSteps s \<and> xsTotal (drain f s) = xsTotal s"
proof -
  have "xsEvents (foldl (\<lambda>s i. recordNodeCompletion ((f i)\<lparr>cpIndex := i\<rparr>) s) s is) = xsEvents s \<and>
      xsSteps (foldl (\<lambda>s i. recordNodeCompletion ((f i)\<lparr>cpIndex := i\<rparr>) s) s is) = xsSteps s \<and>
      xsTotal (foldl (\<lambda>s i. recordNodeCompletion ((f i)\<lparr>cpIndex := i\<rparr>) s) s is) = xsTotal s" for s "is"
    by (induction "is" arbitrary: s) (simp_all add: recordNodeCompletion_def Let_def)
  then show ?thesis by (simp add: drain_def)
qed

lemma drained_ends:
  assumes "steps_inv p past s"
  shows "legEnds p past (finishCanceled e (drain f s))" "legEnds p past (finishFailed e' (drain f s))" "legEnds p past (finishFailed e' s)"
    "legEnds p past (finishSucceeded p s)"
  using assms drain_steps [of f s]
  by (auto simp: legEnds_def finishCanceled_def finishFailed_def finishSucceeded_def finish_def steps_inv_def)

lemma interrupted_ends:
  assumes "safe p past s" "xsInflight s = []"
  shows "legEnds p past (finishInterrupted store s)"
proof -
  have st: "steps_inv p past s" using assms(1) by (simp add: safe_def)
  show ?thesis
  proof (cases "interruptInfoEmpty (xsPause s) \<or> store \<noteq> None")
    case True
    with drained_ends(3) [OF st] show ?thesis by (auto simp: finishInterrupted_def)
  next
    case False
    with assms st show ?thesis
      by (auto simp: legEnds_def finishInterrupted_def finish_def steps_inv_def intro!: exI [of _ s])
  qed
qed

lemma receive_safe:
  assumes "runnable p" "safe p past s" "k < length (xsInflight s)" "xsInflight s ! k = (i, ph)" "goOn p E i ph s = (Inr c, s1)"
  shows "case receive p E t c (s1\<lparr>xsInflight := dropNth k (xsInflight s1)\<rparr>) of Inl out \<Rightarrow> legEnds p past out | Inr s' \<Rightarrow> safe p past s'"
proof -
  note f = goOn_fields [OF assms(5)]
  have s1: "safe p past s1" by (rule goOn_safe [OF assms(2,5)])
  have k: "k < length (xsInflight s1)" "xsInflight s1 ! k = (i, ph)" using assms(3,4) f by simp_all
  define t0 where "t0 = s1\<lparr>xsInflight := dropNth k (xsInflight s1)\<rparr>"
  define u where "u = poll (tuLate t) t0"
  note l = landed_safe [OF s1 k, folded t0_def]
  have u: "safe p past u" by (simp add: u_def l(1))
  have c: "core u = core t0" by (simp add: u_def)
  have q: "queued (statusAt u i)" "i \<notin> set (xsReady u) \<union> fst ` set (xsInflight u)"
    using core_eq_fields(2,5,6) [OF c] l(3,4) by (simp_all add: statusAt_def t0_def)
  obtain err s2 where cn: "completeNode p E c u = (err, s2)" by fastforce
  have st: "steps_inv p past s2" using u completeNode_events [OF cn] by (simp add: safe_def steps_inv_def)
  have r: "receive p E t c t0 = (case err of Some e \<Rightarrow> Inl (finishFailed e (drain (tuDrain t) s2))
      | None \<Rightarrow> Inr (if xsPauseRequested s2 then s2 else advance_x p s2))"
    using cn by (simp add: receive_def u_def)
  show ?thesis
  proof (cases err)
    case (Some e)
    with r drained_ends(2) [OF st] show ?thesis by (simp add: t0_def)
  next
    case None
    have "safe p past s2" by (rule completeNode_safe [OF assms(1) u goOn_sends [OF assms(5)] l(2) q cn [unfolded None]])
    with r None advance_safe [OF assms(1)] show ?thesis by (simp add: t0_def)
  qed
qed

lemma select_safe:
  assumes "runnable p" "safe p past s" "xsInflight s \<noteq> []"
  shows "case select p E t s of Inl out \<Rightarrow> legEnds p past out | Inr s' \<Rightarrow> safe p past s'"
proof (cases "tuChoice t")
  case (Cancel e)
  with drained_ends(1) assms(2) show ?thesis by (simp add: select_def safe_def)
next
  case Signal
  with assms(2) show ?thesis by (simp add: select_def)
next
  case (Pick n)
  define k where "k = n mod length (xsInflight s)"
  have k: "k < length (xsInflight s)" using assms(3) by (simp add: k_def)
  obtain i ph where i: "xsInflight s ! k = (i, ph)" by fastforce
  obtain x s1 where x: "goOn p E i ph s = (x, s1)" by fastforce
  show ?thesis
  proof (cases x)
    case (Inl ph')
    with rephase_safe [OF assms(2) k i x [unfolded Inl]] Pick k_def i x show ?thesis by (simp add: select_def Let_def)
  next
    case (Inr c)
    with receive_safe [OF assms(1,2) k i x [unfolded Inr], of t] Pick k_def i x show ?thesis by (simp add: select_def Let_def)
  qed
qed

theorem turn_safe:
  assumes "runnable p" "safe p past s0"
  shows "case turnRun p E t s0 of Inl out \<Rightarrow> legEnds p past out | Inr s' \<Rightarrow> safe p past s'"
proof -
  define s where "s = poll (tuSignal t) s0"
  define s1 where "s1 = (if xsPauseRequested s then s else requestBeforeInterrupt p s)"
  define s2 where "s2 = (if xsPauseRequested s1 then s1 else launchReady p E (tuCancelLaunch t) s1)"
  have g: "safe p past s" using assms(2) by (simp add: s_def)
  then have g1: "safe p past s1" by (simp add: s1_def)
  then have g2: "safe p past s2" using launchReady_safe [OF assms(1)] by (simp add: s2_def)
  have st: "steps_inv p past s" "steps_inv p past s2" using g g2 by (simp_all add: safe_def)
  have t: "turnRun p E t s0 = (case tuCancel t of
      Some e \<Rightarrow> Inl (finishCanceled e (drain (tuDrain t) s))
    | None \<Rightarrow>
        if xsPauseRequested s \<and> xsInflight s = [] then Inl (finishInterrupted (tuStore t) s)
        else if xsDone s = nodeCount p then Inl (finishSucceeded p s)
        else if xsPauseRequested s1 \<and> xsInflight s1 = [] then Inl (finishInterrupted (tuStore t) s1)
        else if xsInflight s2 = [] then Inl (finishFailed (RunError None 0 ''scheduler made no progress'') s2)
        else select p E t s2)"
    unfolding turnRun_def Let_def s2_def s1_def s_def ..
  consider (cancel) e where "turnRun p E t s0 = Inl (finishCanceled e (drain (tuDrain t) s))"
    | (paused) u where "turnRun p E t s0 = Inl (finishInterrupted (tuStore t) u)" "safe p past u" "xsInflight u = []"
    | (ended) "turnRun p E t s0 = Inl (finishSucceeded p s)"
    | (stuck) e where "turnRun p E t s0 = Inl (finishFailed e s2)"
    | (on) "turnRun p E t s0 = select p E t s2" "xsInflight s2 \<noteq> []"
    using t g g1 by (auto split: option.splits if_splits)
  then show ?thesis
    by cases (use drained_ends [OF st(1)] drained_ends [OF st(2)] interrupted_ends select_safe [OF assms(1) g2] in auto)
qed

subsection \<open>The states of a run\<close>

text \<open>
  The states a run goes through, over all its legs: it begins, makes turns, is interrupted with a checkpoint and
  resumed from it, any number of times. \<open>past\<close> are the events of the legs before the present one.
\<close>

inductive reaches :: "flow_plan \<Rightarrow> flow_env \<Rightarrow> flow_event list \<Rightarrow> exec_state \<Rightarrow> bool" for p :: flow_plan and E :: flow_env where
  begins: "reaches p E [] (startRun p input signal)"
| turns: "reaches p E past s \<Longrightarrow> turnRun p E t s = Inr s' \<Longrightarrow> reaches p E past s'"
| resumes: "reaches p E past s \<Longrightarrow> turnRun p E t s = Inl out \<Longrightarrow> roCheckpoint out = Some cp \<Longrightarrow>
    reaches p E (past @ roEvents out) (resumeRun p cp signal)"

lemma reaches_turns: "reaches p E past s \<Longrightarrow> runTurns p E ts s = Inr s' \<Longrightarrow> reaches p E past s'"
  by (induction ts arbitrary: s) (auto split: sum.splits intro: reaches.turns)

lemma start_safe: "runnable p \<Longrightarrow> safe p [] (startRun p input signal)"
proof -
  assume p: "runnable p"
  have n: "plStart p < nodeCount p" "0 \<le> maxSteps p" using p by (simp_all add: runnable_def)
  let ?s = "startRun p input signal"
  have st: "statusAt ?s k = (if k = plStart p then NodeReady else NodePending)" if "k < nodeCount p" for k
    using that by (simp add: startRun_def markReady_def newExecution_def statusAt_def setStatus_def emit_def nth_list_update)
  have f: "xsReady ?s = [plStart p]" "xsInflight ?s = []" "xsEdges ?s = replicate (length (plEdges p)) edgePending"
    "xsSteps ?s = 0" "xsTotal ?s = 0" "starts (xsEvents ?s) = 0" "sized p ?s"
    by (simp_all add: startRun_def markReady_def newExecution_def setStatus_def emit_def sized_def)
  have "value_inv p ?s" by (auto simp: value_inv_def st f entered_def)
  moreover have "flight_inv p ?s" using n by (simp add: flight_inv_def f st)
  moreover have "steps_inv p [] ?s" using n by (simp add: steps_inv_def f)
  ultimately show ?thesis by (simp add: safe_def)
qed

lemma resume_safe:
  assumes "runnable p" "safe p past u" "xsInflight u = []" "starts evs = starts (xsEvents u)"
  shows "safe p (past @ evs) (resumeRun p (checkpointOf u) signal)"
proof -
  let ?r = "emit EvRunResumed (restoreExecution p (checkpointOf u) signal)"
  have c: "core ?r = core u" using assms(3) by (simp add: core_def restoreExecution_def checkpointOf_def newExecution_def emit_def)
  have "starts (xsEvents ?r) = 0" by (simp add: restoreExecution_def newExecution_def emit_def)
  then have "safe p (past @ evs) ?r"
    using assms(2,4) place_core [OF c] core_eq_fields(8,9) [OF c] by (simp add: safe_def steps_inv_def)
  from advance_safe [OF assms(1) this] show ?thesis by (simp add: resumeRun_def)
qed

theorem reaches_safe: "reaches p E past s \<Longrightarrow> runnable p \<Longrightarrow> safe p past s"
proof (induction rule: reaches.induct)
  case (begins input signal)
  then show ?case by (rule start_safe)
next
  case (turns past s t s')
  with turn_safe [of p past s E t] show ?case by simp
next
  case (resumes past s t out cp signal)
  with turn_safe [of p past s E t] have "legEnds p past out" by simp
  with resumes(3) obtain u where "safe p past u" "xsInflight u = []" "cp = checkpointOf u" "starts (roEvents out) = starts (xsEvents u)"
    by (auto simp: legEnds_def)
  with resume_safe [OF resumes.prems] show ?case by simp
qed

end
