(* ===== verification/FlowTyping.thy ===== *)
theory FlowTyping
  imports FlowSafety
begin

section \<open>Workflow: a compiled plan never reads a value that is not there\<close>

text \<open>
  The availability checks of the compiler are sound: when a node that is not a Merge is ready, each other node
  its bindings read from has been left along an edge, with the value, or the failure, that the binding names. The
  proof follows the taken edges from the Start node through the dominators, in any state a run reaches.
\<close>

subsection \<open>A compiled plan\<close>

lemma defaults_complete:
  assumes "validateDefaultOutputs T nd = []" "npError (nodePolicy nd) = ErrorContinueWithDefault" "n \<in> fst ` set (nsOutputs (pnSpec nd))"
  shows "map_of (defaultPorts (nodePolicy nd)) n \<noteq> None"
  using assms
  by (fastforce simp: validateDefaultOutputs_def Let_def concat_Nil sortedNames_def defaultPorts_def bindingFailure_def split: option.splits if_splits)

lemma plan_runnable:
  assumes "plan_ok T p order"
  shows "runnable p"
proof -
  have d: "validateDefaultOutputs T (nodeAt p i) = []" if "i < nodeCount p" for i using assms that by (simp add: plan_ok_def)
  have "carries (nsOutputs (pnSpec (nodeAt p i))) (Some (defaultPorts (nodePolicy (nodeAt p i))))"
    if "i < nodeCount p" "npError (nodePolicy (nodeAt p i)) = ErrorContinueWithDefault" for i
    using defaults_complete [OF d [OF that(1)] that(2)] by (simp add: carries_def)
  moreover have "edges_ok p" "plStart p < nodeCount p" "0 \<le> maxSteps p" using assms by (simp_all add: plan_ok_def maxSteps_def)
  ultimately show ?thesis by (simp add: runnable_def)
qed

subsection \<open>Along the taken edges\<close>

definition taken_rel :: "flow_plan \<Rightarrow> exec_state \<Rightarrow> (nat \<times> nat) set" where
  "taken_rel p s = {(a, b). \<exists>j < length (plEdges p). peFrom (edgeAt p j) = a \<and> peTo (edgeAt p j) = b \<and> xsEdges s ! j = edgeTaken}"

lemma taken_flow: "edges_ok p \<Longrightarrow> taken_rel p s \<subseteq> flow_rel p"
  by (auto simp: taken_rel_def flow_rel_edge)

lemma entered_path:
  assumes "edges_ok p" "topo_sorted p order" "value_inv p s" "i < nodeCount p" "entered p s i"
  shows "(plStart p, i) \<in> (taken_rel p s)\<^sup>*"
  using assms(1,2,4,5)
proof (induction i rule: topo_induct)
  case (node i)
  show ?case
  proof (cases "i = plStart p")
    case False
    with node.prems obtain j where j: "j \<in> set (incoming p i)" "xsEdges s ! j = edgeTaken" by (auto simp: entered_def)
    then have e: "j < length (plEdges p)" "peTo (edgeAt p j) = i" using assms(1) node.hyps by (auto simp: incoming_set)
    let ?k = "peFrom (edgeAt p j)"
    have f: "?k < nodeCount p" "(?k, i) \<in> flow_rel p" using e edge_range [OF assms(1)] by (auto simp: flow_rel_edge)
    have "completed (statusAt s ?k)" using assms(3) e(1) j(2) leaves_completed by (auto simp: value_inv_def)
    then have "entered p s ?k" using assms(3) f(1) by (auto simp: value_inv_def completed_def)
    from node.IH [OF f(2) this] have "(plStart p, ?k) \<in> (taken_rel p s)\<^sup>*" .
    moreover have "(?k, i) \<in> taken_rel p s" using e j(2) by (auto simp: taken_rel_def)
    ultimately show ?thesis by (rule rtrancl_into_rtrancl)
  qed simp
qed

lemma path_through:
  assumes "(a, i) \<in> R\<^sup>*" "(a, i) \<notin> {(x, y) \<in> R. x \<noteq> c \<and> y \<noteq> c}\<^sup>*" "i \<noteq> c"
  shows "\<exists>b. (c, b) \<in> R \<and> (b, i) \<in> R\<^sup>*"
  using assms
proof (induction rule: rtrancl_induct)
  case base
  then show ?case by simp
next
  case (step y z)
  show ?case
  proof (cases "y = c")
    case True
    with step show ?thesis by blast
  next
    case False
    then have "(a, y) \<notin> {(x, y) \<in> R. x \<noteq> c \<and> y \<noteq> c}\<^sup>*"
      using step by (auto intro: rtrancl_into_rtrancl)
    with step False show ?thesis by (meson rtrancl_into_rtrancl)
  qed
qed

text \<open>A dominator of a node that has been entered has been left along an edge that leads to the node.\<close>

lemma dominator_left:
  assumes "plan_ok T p order" "value_inv p s" "i < nodeCount p" "k < nodeCount p" "k \<noteq> i" "entered p s i" "dominators p order ! i ! k"
  shows "\<exists>r. leaves p s k r \<and> reachableFromRoute p k r i"
proof -
  have ok: "edges_ok p" "topo_sorted p order" "plStart p < nodeCount p" "incoming p (plStart p) = []"
    using assms(1) by (auto simp: plan_ok_def)
  have av: "{(x, y) \<in> taken_rel p s. x \<noteq> k \<and> y \<noteq> k} \<subseteq> avoiding p k" using taken_flow [OF ok(1)] by (auto simp: avoiding_def)
  have "(plStart p, i) \<notin> (avoiding p k)\<^sup>*"
    using dominators_paths [OF ok(1-3) assms(4,3) ok(4)] assms(5,7) by simp
  then have "(plStart p, i) \<notin> {(x, y) \<in> taken_rel p s. x \<noteq> k \<and> y \<noteq> k}\<^sup>*" using rtrancl_mono [OF av] by blast
  from path_through [OF entered_path [OF ok(1,2) assms(2,3,6)] this] assms(5)
  obtain b where b: "(k, b) \<in> taken_rel p s" "(b, i) \<in> (taken_rel p s)\<^sup>*" by auto
  then obtain j where j: "j < length (plEdges p)" "peFrom (edgeAt p j) = k" "peTo (edgeAt p j) = b" "xsEdges s ! j = edgeTaken"
    by (auto simp: taken_rel_def)
  moreover have "(b, i) \<in> (flow_rel p)\<^sup>*" using b(2) rtrancl_mono [OF taken_flow [OF ok(1)]] by blast
  ultimately have "reachableFromRoute p k (peRoute (edgeAt p j)) i" using ok(1) assms(4) by (auto simp: reachableFromRoute_edge)
  with j assms(2) show ?thesis by (auto simp: value_inv_def)
qed

subsection \<open>Bindings\<close>

lemma error_binding:
  assumes "bindingSchema T p b = Inr (s, source)" "fbSource b = BindingNodeError" "nodeSource p b = Some k"
  shows "npError (nodePolicy (nodeAt p k)) = ErrorRoute \<and> validNodeErrorPort (fbPort b)"
proof -
  from assms(1) obtain s0 where "sourceSchema p b = Inr (s0, source)"
    by (auto simp: bindingSchema_def okE split: if_splits)
  with assms(2,3) show ?thesis by (auto simp: sourceSchema_def nodeSource_def okE)
qed

lemma binding_schema:
  assumes "plan_ok T p order" "i < nodeCount p" "(n, b) \<in> set (pnBindings (nodeAt p i))"
  shows "\<exists>s source. bindingSchema T p b = Inr (s, source)"
proof -
  have "validateNodeBindings T p i (dominators p order) = []" using assms(1,2) by (simp add: plan_ok_def)
  then have "validateBindingContract T p i (dominators p order) (n, b) = []"
    using assms(3) by (auto simp: validateNodeBindings_def concat_Nil)
  then show ?thesis by (auto simp: validateBindingContract_def Let_def bindingFailure_def split: sum.splits)
qed

lemma source_present:
  assumes "plan_ok T p order" "value_inv p s" "i < nodeCount p" "entered p s i" "\<not> isMerge (nodeAt p i)"
    and "(n, b) \<in> set (pnBindings (nodeAt p i))" "nodeSource p b = Some k" "k \<noteq> i"
  shows "sourceValue p input (outputsOf s) (failuresOf s) b \<noteq> None"
proof -
  have k: "k < nodeCount p" "nodeIndex p (fbNode b) = Some k" using assms(7) nodeIndex_range by (auto simp: nodeSource_def split: if_splits)
  have av: "available p order i b k" by (rule binding_available [OF assms(1,3,6,7)])
  show ?thesis
  proof (cases "fbSource b = BindingNodeOutput")
    case True
    with av assms(5) have "dominators p order ! i ! k" and ne: "\<not> reachableFromRoute p k RouteError i"
      and port: "map_of (nsOutputs (pnSpec (nodeAt p k))) (fbPort b) \<noteq> None"
      by (auto simp: available_def validateNodeOutputAvailability_def Let_def issue_if_Nil bindingFailure_def)
    from dominator_left [OF assms(1-3) k(1) assms(8,4) this(1)] obtain r
      where r: "leaves p s k r" "reachableFromRoute p k r i" by blast
    with ne have "carries (nsOutputs (pnSpec (nodeAt p k))) (outputsOf s k)" by (auto simp: leaves_def)
    moreover have "fbPort b \<in> fst ` set (nsOutputs (pnSpec (nodeAt p k)))" using port by (metis map_of_eq_None_iff)
    ultimately show ?thesis using True k(2) by (auto simp: sourceValue_def portOf_def carries_def)
  next
    case False
    then have b: "fbSource b = BindingNodeError" using assms(7) by (auto simp: nodeSource_def split: if_splits)
    with av assms(5) have "nodeErrorGuaranteed p k i (dominators p order)"
      by (auto simp: available_def validateNodeErrorAvailability_def Let_def issue_if_Nil bindingFailure_def)
    then have g: "dominators p order ! i ! k" "\<forall>r \<in> set (nsRoutes (pnSpec (nodeAt p k))). \<not> reachableFromRoute p k r i"
      by (simp_all add: nodeErrorGuaranteed_def)
    from dominator_left [OF assms(1-3) k(1) assms(8,4) g(1)] obtain r
      where r: "leaves p s k r" "reachableFromRoute p k r i" by blast
    obtain sc source where "bindingSchema T p b = Inr (sc, source)" using binding_schema [OF assms(1,3,6)] by blast
    from error_binding [OF this b assms(7)] have "npError (nodePolicy (nodeAt p k)) = ErrorRoute" "validNodeErrorPort (fbPort b)" by simp_all
    with r g(2) have "\<exists>d. failuresOf s k = Some d \<and> map_of d (fbPort b) \<noteq> None" by (auto simp: leaves_def)
    with b k(2) show ?thesis by (auto simp: sourceValue_def portOf_def)
  qed
qed

lemma safe_ready:
  assumes "safe p past s" "i \<in> set (xsReady s)"
  shows "i < nodeCount p" "queued (statusAt s i)" "entered p s i"
proof -
  have "flight_inv p s" using assms(1) by (simp add: safe_def)
  with assms(2) show i: "i < nodeCount p" "queued (statusAt s i)" unfolding flight_inv_def by blast+
  with assms(1) show "entered p s i" by (auto simp: safe_def value_inv_def queued_def)
qed

end
