(* ===== verification/FlowScenario.thy ===== *)
theory FlowScenario
  imports FlowSessions FlowTyping
begin

section \<open>Workflow: a concrete workflow\<close>

text \<open>
  Two branches from the Start node meet in a Merge: a call that is tried twice and whose failure goes to a
  handler, and a log. The handler reads the message of the failure. The witnesses of the theorems are runs
  of it, with a breakpoint before the log and one after the Start node.
\<close>

definition from_node :: "string \<Rightarrow> string \<Rightarrow> flow_binding" where
  "from_node n q = \<lparr>fbSource = BindingNodeOutput, fbNode = n, fbPort = q, fbPath = [], fbValue = None\<rparr>"

definition from_error :: "string \<Rightarrow> string \<Rightarrow> flow_binding" where
  "from_error n q = \<lparr>fbSource = BindingNodeError, fbNode = n, fbPort = q, fbPath = [], fbValue = None\<rparr>"

definition plain_policy :: node_policy where
  "plain_policy = \<lparr>npTimeout = 0, npMaxAttempts = 0, npBackoff = 0, npError = ErrorStop, npDefaults = None\<rparr>"

definition retry_policy :: node_policy where
  "retry_policy = plain_policy\<lparr>npMaxAttempts := 2, npError := ErrorRoute\<rparr>"

definition sample_node :: "string \<Rightarrow> string \<Rightarrow> (string \<times> flow_binding) list \<Rightarrow> node_policy \<Rightarrow> node_definition" where
  "sample_node k t bs q = \<lparr>ndID = k, ndName = [], ndType = t, ndVersion = ''v1'', ndConfig = [], ndInputs = bs, ndPolicy = q\<rparr>"

definition sample_definition :: workflow_definition where
  "sample_definition = \<lparr>dfSchema = SchemaV1Alpha2, dfID = ''w'', dfRevision = ''r'', dfName = ''w'',
     dfInputs = [(''x'', \<lparr>wiSchema = ''true'', wiRequired = True, wiDefault = None\<rparr>)],
     dfOutputs = [(''x'', ''true'', from_node ''s'' ''x'')],
     dfNodes = [sample_node ''s'' ''start'' [] plain_policy,
       sample_node ''c'' ''call'' [(''v'', from_node ''s'' ''x'')] retry_policy,
       sample_node ''h'' ''call'' [(''v'', from_error ''c'' ''error_message'')] plain_policy,
       sample_node ''l'' ''call'' [(''v'', from_node ''s'' ''x'')] plain_policy,
       sample_node ''m'' ''merge'' [(''a'', from_node ''c'' ''y''), (''b'', from_node ''h'' ''y''), (''d'', from_node ''l'' ''y'')] plain_policy,
       sample_node ''e'' ''end'' [] plain_policy],
     dfEdges = [\<lparr>ceFrom = ''s'', ceRoute = ''success'', ceTo = ''c''\<rparr>, \<lparr>ceFrom = ''s'', ceRoute = ''success'', ceTo = ''l''\<rparr>,
       \<lparr>ceFrom = ''c'', ceRoute = ''success'', ceTo = ''m''\<rparr>, \<lparr>ceFrom = ''c'', ceRoute = ''error'', ceTo = ''h''\<rparr>,
       \<lparr>ceFrom = ''h'', ceRoute = ''success'', ceTo = ''m''\<rparr>, \<lparr>ceFrom = ''l'', ceRoute = ''success'', ceTo = ''m''\<rparr>,
       \<lparr>ceFrom = ''m'', ceRoute = ''success'', ceTo = ''e''\<rparr>],
     dfLimits = \<lparr>flMaxConcurrency = 2, flMaxSteps = 100\<rparr>\<rparr>"

text \<open>The registry: the Start and End nodes have the port x, a call has an input v and an output y.\<close>

definition sample_spec :: "string \<Rightarrow> node_spec" where
  "sample_spec t = \<lparr>nsInputs = (if t = ''call'' then [(''v'', ''true'')]
       else if t = ''merge'' then [(''a'', ''true''), (''b'', ''true''), (''d'', ''true'')] else [(''x'', ''true'')]),
     nsOutputs = (if t = ''call'' \<or> t = ''merge'' then [(''y'', ''true'')] else [(''x'', ''true'')]), nsRoutes = [''success'']\<rparr>"

definition sample_merge :: "string \<Rightarrow> merge_config option" where
  "sample_merge t = (if t = ''merge''
     then Some \<lparr>mcVersion = ''v1'', mcMode = MergeParallel, mcOutputs = [(''y'', ''true'', [''a'', ''b'', ''d''])]\<rparr> else None)"

definition sample_types :: flow_types where
  "sample_types = \<lparr>ftRegistered = (\<lambda>nd. True), ftCompile = (\<lambda>nd. Inr (sample_spec (ndType nd), sample_merge (ndType nd))),
     ftValidate = (\<lambda>s v. None), ftSubschema = (\<lambda>s path. None)\<rparr>"

definition sample_plan_node :: "node_definition \<Rightarrow> (string \<times> flow_binding) list \<Rightarrow> plan_node" where
  "sample_plan_node nd bs = \<lparr>pnDefinition = nd, pnSpec = sample_spec (ndType nd), pnBindings = bs, pnMerge = sample_merge (ndType nd)\<rparr>"

definition sample_plan :: flow_plan where
  "sample_plan = \<lparr>plDefinition = sample_definition,
     plNodes = map2 sample_plan_node (dfNodes sample_definition)
       [[(''x'', \<lparr>fbSource = BindingWorkflowInput, fbNode = [], fbPort = ''x'', fbPath = [], fbValue = None\<rparr>)],
        [(''v'', from_node ''s'' ''x'')], [(''v'', from_error ''c'' ''error_message'')], [(''v'', from_node ''s'' ''x'')],
        [(''a'', from_node ''c'' ''y''), (''b'', from_node ''h'' ''y''), (''d'', from_node ''l'' ''y'')], [(''x'', from_node ''s'' ''x'')]],
     plEdges = [\<lparr>peFrom = 0, peTo = 1, peRoute = ''success''\<rparr>, \<lparr>peFrom = 0, peTo = 3, peRoute = ''success''\<rparr>,
       \<lparr>peFrom = 1, peTo = 4, peRoute = ''success''\<rparr>, \<lparr>peFrom = 1, peTo = 2, peRoute = ''error''\<rparr>,
       \<lparr>peFrom = 2, peTo = 4, peRoute = ''success''\<rparr>, \<lparr>peFrom = 3, peTo = 4, peRoute = ''success''\<rparr>,
       \<lparr>peFrom = 4, peTo = 5, peRoute = ''success''\<rparr>],
     plIncoming = [[], [0], [3], [1], [2, 4, 5], [6]], plOutgoing = [[0, 1], [2, 3], [4], [5], [6], []],
     plStart = 0, plEnd = 5, plBefore = [3], plAfter = [0]\<rparr>"

text \<open>The same workflow compiled without breakpoints.\<close>

definition plain_plan :: flow_plan where
  "plain_plan = sample_plan\<lparr>plBefore := [], plAfter := []\<rparr>"

lemmas sample_defs = sample_definition_def sample_node_def plain_policy_def retry_policy_def from_node_def from_error_def
  sample_types_def sample_spec_def sample_merge_def sample_plan_def sample_plan_node_def

lemma sample_identifiers:
  "validIdentifier ''s''" "validIdentifier ''c''" "validIdentifier ''h''" "validIdentifier ''l''" "validIdentifier ''m''" "validIdentifier ''e''"
  "validIdentifier ''a''" "validIdentifier ''b''" "validIdentifier ''d''" "validIdentifier ''x''" "validIdentifier ''y''" "validIdentifier ''v''"
  "validIdentifier ''w''" "validIdentifier ''r''" "validIdentifier ''v1''" "validIdentifier ''success''" "validIdentifier ''error''"
  "validIdentifier ''start''" "validIdentifier ''call''" "validIdentifier ''merge''" "validIdentifier ''end''" "validIdentifier ''error_message''"
  by (simp_all add: validIdentifier_def isAlnum_def)

lemma sample_shape: "validateDefinitionShape (ftValidate sample_types) sample_definition = None"
  by (simp add: validateDefinitionShape_def validateDefinitionIdentity_def validateDefinitionSize_def validateDefinitionPorts_def
      validateWorkflowInputContract_def effectiveDefault_def validateDefinitionNodes_def validateDefinitionEdges_def
      validateNodeList_None validateNodeDefinition_def validateNodePolicy_def validateNodePolicyBounds_def validateNodeErrorAction_def
      validateBinding_def validateBindingPath_def validateBindingSource_def validNodeErrorPort_def validateLimits_def defaultPorts_def
      maxDefinitionNodes_def maxDefinitionEdges_def maxConfigBytes_def SchemaV1Alpha1_def SchemaV1Alpha2_def sample_identifiers space1_def sample_defs)

lemma sample_specs: "validateNodeSpec (sample_spec t) = None"
  by (simp add: validateNodeSpec_def sample_spec_def sample_identifiers)

lemma compileNodeList_all: "(\<And>nd. compileNode T d nd = Inr (g nd)) \<Longrightarrow> compileNodeList T d nds = Inr (map g nds)"
  by (induction nds) simp_all

lemma sample_node_compiles:
  "compileNode sample_types d nd = Inr (sample_plan_node nd (nodeBindings d nd (sample_spec (ndType nd))))"
  by (simp add: compileNode_def sample_types_def sample_plan_node_def sample_specs)

lemma sample_nodes:
  "compileNodes sample_types sample_definition [''l''] [''s''] = Inr (sample_plan\<lparr>plEdges := [], plIncoming := [], plOutgoing := []\<rparr>)"
  "compileNodes sample_types sample_definition [] [] = Inr (plain_plan\<lparr>plEdges := [], plIncoming := [], plOutgoing := []\<rparr>)"
proof -
  have pre: "preflightNodes sample_types sample_definition (remdups ([''l''] @ [''s''])) = []"
    "preflightNodes sample_types sample_definition (remdups ([] @ [])) = []" by code_simp+
  have index: "interruptIndexes (dfNodes sample_definition) [''l''] = [3]" "interruptIndexes (dfNodes sample_definition) [''s''] = [0]"
    "interruptIndexes (dfNodes sample_definition) [] = []"
    "endpoint NodeTypeStart (dfNodes sample_definition) = 0" "endpoint NodeTypeEnd (dfNodes sample_definition) = 5" by code_simp+
  have "map (\<lambda>nd. sample_plan_node nd (nodeBindings sample_definition nd (sample_spec (ndType nd)))) (dfNodes sample_definition) =
      plNodes sample_plan" by code_simp
  then have nodes: "compileNodeList sample_types sample_definition (dfNodes sample_definition) = Inr (plNodes sample_plan)"
    using compileNodeList_all [OF sample_node_compiles] by simp
  show "compileNodes sample_types sample_definition [''l''] [''s''] = Inr (sample_plan\<lparr>plEdges := [], plIncoming := [], plOutgoing := []\<rparr>)"
    "compileNodes sample_types sample_definition [] [] = Inr (plain_plan\<lparr>plEdges := [], plIncoming := [], plOutgoing := []\<rparr>)"
    using pre by (simp_all add: compileNodes_def Let_def nodes index) (simp_all add: plain_plan_def sample_plan_def)
qed

lemma sample_edges: "compileEdges (sample_plan\<lparr>plEdges := [], plIncoming := [], plOutgoing := []\<rparr>) = Inr sample_plan"
  "compileEdges (plain_plan\<lparr>plEdges := [], plIncoming := [], plOutgoing := []\<rparr>) = Inr plain_plan"
  by code_simp+

lemma sample_graph: "validateGraph sample_plan = Inr [0, 1, 2, 3, 4, 5]" "validateGraph plain_plan = Inr [0, 1, 2, 3, 4, 5]"
  by code_simp+

lemma sample_order: "topologicalOrder sample_plan = Some [0, 1, 2, 3, 4, 5]" "topologicalOrder plain_plan = Some [0, 1, 2, 3, 4, 5]"
  by code_simp+

lemma sample_bindings: "validateBindings sample_types sample_plan [0, 1, 2, 3, 4, 5] = []"
  "validateBindings sample_types plain_plan [0, 1, 2, 3, 4, 5] = []"
  by code_simp+

lemma sample_compiles: "compileWorkflow sample_types sample_definition [''l''] [''s''] = Inr sample_plan"
  "compileWorkflow sample_types sample_definition [] [] = Inr plain_plan"
  by (simp_all add: compileWorkflow_def finishCompilation_def sample_shape sample_nodes sample_edges sample_graph sample_bindings
      del: One_nat_def)

subsection \<open>Its nodes and its turns\<close>

text \<open>The call fails each time; the other nodes give the port they declare. A text is its JSON string.\<close>

definition sample_env :: flow_env where
  "sample_env = \<lparr>feValidate = (\<lambda>s v. None), feLookup = (\<lambda>v path. None),
     feInvoke = (\<lambda>i vs a. if i = 1 then Inl (FailureError, ''refused'')
       else if i = 0 \<or> i = 5 then Inr (Some [(''x'', ''1'')], ''success'') else Inr (Some [(''y'', ''2'')], ''success'')),
     feText = (\<lambda>x. Some ([CHR 0x22] @ x @ [CHR 0x22]))\<rparr>"

definition go :: "nat \<Rightarrow> turn" where
  "go n = \<lparr>tuSignal = False, tuCancel = None, tuCancelLaunch = None, tuChoice = Pick n, tuLate = False,
     tuDrain = (\<lambda>i. failed i ''canceled'' FailureCanceled 1), tuStore = None\<rparr>"

lemma go_calm [simp]: "calm (go n)" "tuStore (go n) = None" "\<exists>m. tuChoice (go n) = Pick m"
  by (simp_all add: calm_def go_def)

lemma sample_budget: "budgeted sample_plan" "budgeted plain_plan"
  by code_simp+

lemma sample_credit: "fullCredit sample_plan = 14" "fullCredit plain_plan = 14"
  by code_simp+

lemma sample_size: "nodeCount sample_plan = 6" "nodeCount plain_plan = 6"
  by code_simp+

end
