(* ===== verification/FlowClaims.thy ===== *)
theory FlowClaims
  imports FlowScenario
begin

section \<open>Workflow: properties\<close>

text \<open>
  The properties of the compiler and the scheduler, each with a witness on the concrete workflow, and the
  defects the model shows.
\<close>

lemma compiled_sound:
  assumes "compileWorkflow T d pre post = Inr p" "topologicalOrder p = Some order"
  shows "sound T p E input order (evaluate p E input order)"
proof -
  from compiled_plan_ok [OF assms(1)] obtain order' where "plan_ok T p order'" "topologicalOrder p = Some order'" by metis
  with assms(2) show ?thesis by (simp add: sound_def)
qed

lemma compiled_order:
  assumes "compileWorkflow T d pre post = Inr p"
  obtains order where "topologicalOrder p = Some order" "plan_ok T p order"
  using compiled_plan_ok [OF assms] by metis

lemma compiled_safe: "compileWorkflow T d pre post = Inr p \<Longrightarrow> reaches p E past s \<Longrightarrow> safe p past s"
  using compiled_order plan_runnable reaches_safe by metis

lemma go_leg: "14 < n \<Longrightarrow> ready_leg sample_plan (replicate n (go k))"
  by (simp add: ready_leg_def picks_def sample_credit)

lemma picks_go [simp]: "picks (replicate n (go k)) = n"
  by (simp add: picks_def)

subsection \<open>Schedules and interruptions do not matter\<close>

text \<open>
  C11. Take a compiled workflow whose step limit covers the attempts its policies allow (\<open>budgeted\<close>: the sum over
  its nodes of their maximal attempts is at most \<^verbatim>\<open>MaxSteps\<close>; the compiler does not ask for it), and an executor
  that is a function of the node, its inputs and the attempt. Whatever the order in which goroutines go on, and
  wherever breakpoints interrupt the run, a session that nobody cancels, whose checkpoints are stored and which is
  resumed from each of them comes to an end, after at most two interruptions for each node, and reports what the
  sequential evaluation of the graph gives: the same status, outputs and node statuses, or the failure of a node
  that fails in the sequential evaluation.
\<close>

theorem session_follows_reference:
  assumes "compileWorkflow T d pre post = Inr p" "topologicalOrder p = Some order" "budgeted p"
    and "\<forall>ts \<in> set legs. ready_leg p ts" "2 * nodeCount p < length legs"
  shows "\<exists>out. session p E legs (startRun p input False) = Some out \<and> agrees p (evaluate p E input order) out"
proof -
  note s = compiled_sound [OF assms(1,2), of E input]
  note g = startRun_good(1) [OF s assms(3), of False] startRun_good(3) [OF s assms(3)]
  have "card (unfinished p (startRun p input False)) \<le> nodeCount p"
    using card_mono [of "{..<nodeCount p}" "unfinished p (startRun p input False)"] by (auto simp: unfinished_def)
  moreover have "card (unfinished p (startRun p input False) - set (xsBeforePassed (startRun p input False))) \<le>
      card (unfinished p (startRun p input False))"
    by (intro card_mono) auto
  ultimately have "fresh (2 * nodeCount p) p (startRun p input False)"
    by (simp add: fresh_def stops_def startRun_def markReady_def)
  from session_agrees [OF s g this assms(4,5)] show ?thesis .
qed

theorem session_follows_reference_witness:
  "\<exists>out. session sample_plan sample_env (replicate 13 (replicate 15 (go 0))) (startRun sample_plan [(''x'', ''1'')] False) = Some out \<and>
    agrees sample_plan (evaluate sample_plan sample_env [(''x'', ''1'')] [0, 1, 2, 3, 4, 5]) out"
  by (rule session_follows_reference [OF sample_compiles(1) sample_order(1) sample_budget(1)])
    (simp_all add: go_leg sample_size)

subsection \<open>Runs end\<close>

text \<open>
  C33. A run of a compiled workflow that nobody cancels, whose step limit covers the attempts its policies
  allow, ends once its goroutines have gone on twice for each of these attempts, with host interrupts or without:
  the scheduler never stays without a node to run. It ends as the sequential evaluation, or interrupted with a
  checkpoint, or because the checkpoint could not be stored, or because a host interrupt came with nothing left
  to report. The executor is a function of the node, its inputs and the attempt.
\<close>

theorem run_ends:
  assumes "compileWorkflow T d pre post = Inr p" "topologicalOrder p = Some order" "budgeted p"
    and "\<forall>t \<in> set ts. calm t" "fullCredit p < picks ts"
  shows "\<exists>out. runTurns p E ts (startRun p input signal) = Inl out \<and>
    (agrees p (evaluate p E input order) out \<or>
     rrStatus (roResult out) = RunInterrupted \<and> roError out = Some InterruptError \<and> roCheckpoint out \<noteq> None \<or>
     (\<exists>e. Some e \<in> tuStore ` set ts \<and> roError out = Some (RunCause e)) \<or>
     signal \<and> roError out = Some (RunError None 0 ''scheduler interruption has no context''))"
proof -
  note s = compiled_sound [OF assms(1,2), of E input]
  note g = startRun_good(1,2) [OF s assms(3), of signal] startRun_good(3) [OF s assms(3)]
  have "credit p (startRun p input signal) < picks ts" using g(2) assms(5) by simp
  from runTurns_end [OF s g(1) assms(4) this] obtain out where out: "runTurns p E ts (startRun p input signal) = Inl out" by blast
  with runTurns_good [OF s g(1) assms(4)]
  consider "allDone p E input (evaluate p E input order) out" | "nodeStops p (evaluate p E input order) out"
    | "pauses p E input (evaluate p E input order) out (quiet (startRun p input signal)) (tuStore ` set ts)" by auto
  then show ?thesis
  proof cases
    case 3
    then obtain u store where u: "store \<in> tuStore ` set ts" "quiet (startRun p input signal) \<longrightarrow> \<not> interruptInfoEmpty (xsPause u)"
      "out = finishInterrupted store u" by (auto simp: pauses_def)
    have "signal" if "interruptInfoEmpty (xsPause u)" using that u(2) g(3) by (cases signal) simp_all
    with out u(1,3) show ?thesis by (auto simp: finishInterrupted_def finish_def finishFailed_def split: option.splits)
  qed (use out allDone_agrees [OF s] nodeStops_agrees in blast)+
qed

theorem run_ends_witness:
  "\<exists>out. runTurns plain_plan sample_env (replicate 15 (go 1)) (startRun plain_plan [(''x'', ''1'')] False) = Inl out \<and>
    (agrees plain_plan (evaluate plain_plan sample_env [(''x'', ''1'')] [0, 1, 2, 3, 4, 5]) out \<or>
     rrStatus (roResult out) = RunInterrupted \<and> roError out = Some InterruptError \<and> roCheckpoint out \<noteq> None)"
  using run_ends [OF sample_compiles(2) sample_order(2) sample_budget(2), of "replicate 15 (go 1)" sample_env "[(''x'', ''1'')]" False]
  by (simp add: sample_credit)

subsection \<open>Types\<close>

text \<open>
  C15. Bindings are sound: when a node of a compiled workflow that is not a Merge is ready, every output and every
  failure that its bindings read from another node is there, in every state a run reaches: whatever the
  executor of the nodes does, whatever is canceled or interrupted, however often the run was resumed, and also
  when a limit fails nodes. (A node that reads its own output compiles and finds none: \<open>self_binding_compiles\<close>.)
\<close>

theorem bindings_available:
  assumes "compileWorkflow T d pre post = Inr p" "reaches p E past s"
    and "i \<in> set (xsReady s)" "\<not> isMerge (nodeAt p i)" "(n, b) \<in> set (pnBindings (nodeAt p i))" "nodeSource p b = Some k" "k \<noteq> i"
  shows "sourceValue p (xsInput s) (outputsOf s) (failuresOf s) b \<noteq> None"
proof -
  obtain order where "plan_ok T p order" by (rule compiled_order [OF assms(1)])
  moreover have "safe p past s" by (rule compiled_safe [OF assms(1,2)])
  ultimately show ?thesis
    using source_present safe_ready [of p past s i] assms(3-7) unfolding safe_def by blast
qed

theorem bindings_available_witness:
  "\<exists>s. runTurns plain_plan sample_env (replicate 2 (go 0)) (startRun plain_plan [(''x'', ''1'')] False) = Inr s \<and> 1 \<in> set (xsReady s) \<and>
    sourceValue plain_plan (xsInput s) (outputsOf s) (failuresOf s) (from_node ''s'' ''x'') \<noteq> None"
proof -
  define r where "r = runTurns plain_plan sample_env (replicate 2 (go 0)) (startRun plain_plan [(''x'', ''1'')] False)"
  have "case r of Inr s \<Rightarrow> list_ex (\<lambda>k. k = 1) (xsReady s) | Inl out \<Rightarrow> False" unfolding r_def by code_simp
  then obtain s where rs: "r = Inr s" "1 \<in> set (xsReady s)" by (cases r) (auto simp: list_ex_iff)
  then have s: "runTurns plain_plan sample_env (replicate 2 (go 0)) (startRun plain_plan [(''x'', ''1'')] False) = Inr s"
    "1 \<in> set (xsReady s)" by (simp_all only: r_def)
  have b: "\<not> isMerge (nodeAt plain_plan 1)" "pnBindings (nodeAt plain_plan 1) = [(''v'', from_node ''s'' ''x'')]"
    "nodeSource plain_plan (from_node ''s'' ''x'') = Some 0" by code_simp+
  then have m: "(''v'', from_node ''s'' ''x'') \<in> set (pnBindings (nodeAt plain_plan 1))" by (metis list.set_intros(1))
  note r = reaches_turns [OF reaches.begins s(1)]
  have "sourceValue plain_plan (xsInput s) (outputsOf s) (failuresOf s) (from_node ''s'' ''x'') \<noteq> None"
    by (rule bindings_available [OF sample_compiles(2) r s(2) b(1) m b(3)]) simp
  with s show ?thesis by blast
qed

subsection \<open>The graph\<close>

text \<open>
  C16. The topological order is exact: it is refused exactly for the graphs with a cycle, and otherwise it
  lists each node once with every edge leading forward.
\<close>

theorem graph_order_exact:
  assumes "compileEdges p0 = Inr p"
  shows "case topologicalOrder p of
      None \<Rightarrow> \<not> acyclic (flow_rel p)
    | Some order \<Rightarrow> acyclic (flow_rel p) \<and> distinct order \<and> set order = {..<nodeCount p} \<and>
        (\<forall>(a, b) \<in> flow_rel p. place order a < place order b)"
proof -
  note ok = compileEdges_Inr(1) [OF assms]
  show ?thesis
  proof (cases "topologicalOrder p")
    case None
    with topologicalOrder_None [OF ok] show ?thesis by simp
  next
    case (Some order)
    from topologicalOrder_Some [OF ok Some] have t: "topo_sorted p order" .
    with topo_acyclic [OF ok t] topo_forward [OF ok t] Some show ?thesis by (auto simp: topo_sorted_def)
  qed
qed

theorem graph_order_exact_witness:
  "acyclic (flow_rel sample_plan) \<and> topologicalOrder sample_plan = Some [0, 1, 2, 3, 4, 5]"
  using graph_order_exact [OF sample_edges(1)] by (simp add: sample_order del: One_nat_def)

text \<open>
  C39. The dominator table of the compiler is exact: a node dominates another exactly when it is on every
  path from the Start node to it.
\<close>

theorem dominators_exact:
  assumes "compileWorkflow T d pre post = Inr p" "topologicalOrder p = Some order" "c < nodeCount p" "t < nodeCount p"
  shows "dominators p order ! t ! c \<longleftrightarrow> c = t \<or> (plStart p, t) \<notin> {(a, b) \<in> flow_rel p. a \<noteq> c \<and> b \<noteq> c}\<^sup>*"
proof -
  obtain order' where o: "topologicalOrder p = Some order'" "plan_ok T p order'" by (rule compiled_order [OF assms(1)])
  with assms(2) have "plan_ok T p order" by simp
  then have "edges_ok p" "topo_sorted p order" "plStart p < nodeCount p" "incoming p (plStart p) = []" by (auto simp: plan_ok_def)
  from dominators_paths [OF this(1-3) assms(3,4) this(4)] show ?thesis by (simp add: avoiding_def)
qed

theorem dominators_exact_witness:
  "(plStart sample_plan, 2) \<notin> {(a, b) \<in> flow_rel sample_plan. a \<noteq> 1 \<and> b \<noteq> 1}\<^sup>*"
proof -
  have "dominators sample_plan [0, 1, 2, 3, 4, 5] ! 2 ! 1" by code_simp
  then show ?thesis
    using dominators_exact [OF sample_compiles(1) sample_order(1), of 1 2] by (simp add: sample_size del: One_nat_def)
qed

subsection \<open>Bounds\<close>



subsection \<open>Defects\<close>

text \<open>
  A host interrupt that is seen when the last node has completed, before the loop notices that the run is
  done, fails the run although every node has succeeded.
\<close>

theorem late_host_interrupt_fails:
  "case runTurns plain_plan sample_env (replicate 14 (go 0) @ [(go 0)\<lparr>tuSignal := True\<rparr>]) (startRun plain_plan [(''x'', ''1'')] True) of
     Inr s \<Rightarrow> False
   | Inl out \<Rightarrow> rrStatus (roResult out) = RunFailed \<and> roError out = Some (RunError None 0 ''scheduler interruption has no context'') \<and>
       list_all (\<lambda>nd. finished (nrStatus nd)) (rrNodes (roResult out))"
  by code_simp

text \<open>
  A cancellation seen between the top of the loop and the launch of the first node is reported as a
  scheduler without progress, and the run as failed instead of canceled.
\<close>

theorem cancel_before_launch_fails:
  "case runTurns plain_plan sample_env [(go 0)\<lparr>tuCancelLaunch := Some 0\<rparr>] (startRun plain_plan [(''x'', ''1'')] False) of
     Inr s \<Rightarrow> False
   | Inl out \<Rightarrow> rrStatus (roResult out) = RunFailed \<and> roError out = Some (RunError None 0 ''scheduler made no progress'')"
  by code_simp

text \<open>Two distinct edges have one identity, since an identifier may contain the separator: the second is refused as a duplicate.\<close>

theorem edge_identity_collides:
  "edgeIdentity \<lparr>ceFrom = ''a'', ceRoute = ''b/c'', ceTo = ''d''\<rparr> = edgeIdentity \<lparr>ceFrom = ''a/b'', ceRoute = ''c'', ceTo = ''d''\<rparr> \<and>
    validIdentifier ''a'' \<and> validIdentifier ''b/c'' \<and> validIdentifier ''a/b'' \<and> validIdentifier ''c'' \<and> validIdentifier ''d''"
  by (simp add: edgeIdentity_def validIdentifier_def isAlnum_def)

text \<open>The compiler accepts a node that reads its own output, since each node dominates itself; the run then fails.\<close>

definition loop_definition :: workflow_definition where
  "loop_definition = sample_definition\<lparr>dfNodes := [sample_node ''s'' ''start'' [] plain_policy,
       sample_node ''c'' ''call'' [(''v'', from_node ''c'' ''y'')] plain_policy, sample_node ''e'' ''end'' [] plain_policy],
     dfEdges := [\<lparr>ceFrom = ''s'', ceRoute = ''success'', ceTo = ''c''\<rparr>, \<lparr>ceFrom = ''c'', ceRoute = ''success'', ceTo = ''e''\<rparr>]\<rparr>"

definition loop_plan :: flow_plan where
  "loop_plan = \<lparr>plDefinition = loop_definition,
     plNodes = map2 sample_plan_node (dfNodes loop_definition)
       [[(''x'', \<lparr>fbSource = BindingWorkflowInput, fbNode = [], fbPort = ''x'', fbPath = [], fbValue = None\<rparr>)],
        [(''v'', from_node ''c'' ''y'')], [(''x'', from_node ''s'' ''x'')]],
     plEdges = [\<lparr>peFrom = 0, peTo = 1, peRoute = ''success''\<rparr>, \<lparr>peFrom = 1, peTo = 2, peRoute = ''success''\<rparr>],
     plIncoming = [[], [0], [1]], plOutgoing = [[0], [1], []], plStart = 0, plEnd = 2, plBefore = [], plAfter = []\<rparr>"

lemma loop_shape: "validateDefinitionShape (ftValidate sample_types) loop_definition = None"
  by (simp add: validateDefinitionShape_def validateDefinitionIdentity_def validateDefinitionSize_def validateDefinitionPorts_def
      validateWorkflowInputContract_def effectiveDefault_def validateDefinitionNodes_def validateDefinitionEdges_def
      validateNodeList_None validateNodeDefinition_def validateNodePolicy_def validateNodePolicyBounds_def validateNodeErrorAction_def
      validateBinding_def validateBindingPath_def validateBindingSource_def validNodeErrorPort_def validateLimits_def defaultPorts_def
      maxDefinitionNodes_def maxDefinitionEdges_def maxConfigBytes_def SchemaV1Alpha1_def SchemaV1Alpha2_def sample_identifiers space1_def
      loop_definition_def sample_defs)

lemma loop_nodes: "compileNodes sample_types loop_definition [] [] = Inr (loop_plan\<lparr>plEdges := [], plIncoming := [], plOutgoing := []\<rparr>)"
proof -
  have pre: "preflightNodes sample_types loop_definition (remdups ([] @ [])) = []" by code_simp
  have index: "interruptIndexes (dfNodes loop_definition) [] = []"
    "endpoint NodeTypeStart (dfNodes loop_definition) = 0" "endpoint NodeTypeEnd (dfNodes loop_definition) = 2" by code_simp+
  have "map (\<lambda>nd. sample_plan_node nd (nodeBindings loop_definition nd (sample_spec (ndType nd)))) (dfNodes loop_definition) =
      plNodes loop_plan" by code_simp
  then have nodes: "compileNodeList sample_types loop_definition (dfNodes loop_definition) = Inr (plNodes loop_plan)"
    using compileNodeList_all [OF sample_node_compiles] by simp
  show ?thesis using pre by (simp add: compileNodes_def Let_def nodes index) (simp add: loop_plan_def)
qed

theorem self_binding_compiles:
  "compileWorkflow sample_types loop_definition [] [] = Inr loop_plan \<and>
   (case runTurns loop_plan sample_env (replicate 3 (go 0)) (startRun loop_plan [(''x'', ''1'')] False) of
      Inr s \<Rightarrow> False
    | Inl out \<Rightarrow> rrStatus (roResult out) = RunFailed \<and> roError out = Some (RunError (Some 1) 0 (inputText ''v'' @ '' is unavailable'')))"
proof
  have "compileEdges (loop_plan\<lparr>plEdges := [], plIncoming := [], plOutgoing := []\<rparr>) = Inr loop_plan"
    "validateGraph loop_plan = Inr [0, 1, 2]" "validateBindings sample_types loop_plan [0, 1, 2] = []" by code_simp+
  then show "compileWorkflow sample_types loop_definition [] [] = Inr loop_plan"
    by (simp add: compileWorkflow_def finishCompilation_def loop_shape loop_nodes del: One_nat_def)
  show "case runTurns loop_plan sample_env (replicate 3 (go 0)) (startRun loop_plan [(''x'', ''1'')] False) of
      Inr s \<Rightarrow> False
    | Inl out \<Rightarrow> rrStatus (roResult out) = RunFailed \<and> roError out = Some (RunError (Some 1) 0 (inputText ''v'' @ '' is unavailable''))"
    by code_simp
qed

end
