(* ===== verification/Spec2Isabelle.thy ===== *)
theory Spec2Isabelle
  imports TeamClaims PolicyClaims ContClaims ContFileClaims RuntimeClaims FlowClaims
begin

text \<open>
  Pips is a Go program: model clients (\<^verbatim>\<open>ai/\<close>), an agent loop with durable engines under it
  (\<^verbatim>\<open>agent/\<close>), a workflow engine (\<^verbatim>\<open>workflow/\<close>) and a coding application (\<^verbatim>\<open>internal/coding/\<close>).
  This library models the durable engines and the workflow engine, where the program's guarantees are.

  Team (\<^verbatim>\<open>agent/team\<close>). A Team is an aggregate of members, tasks, attempts and mailboxes, written as
  an append-only log of records, each a full snapshot with the transition that made it. Commands
  are applied optimistically: replay by command ID, load, check the expected revision, mutate a
  copy, compare-and-swap.
  \<^item> \<open>TeamTypes\<close>: \<^verbatim>\<open>types.go\<close>, \<^verbatim>\<open>errors.go\<close>, \<^verbatim>\<open>limits.go\<close>. \<open>TeamGraph\<close>, \<open>TeamValidate\<close>: \<^verbatim>\<open>authority.go\<close> and
    the snapshot validators of \<^verbatim>\<open>validate.go\<close>. \<open>TeamRecord\<close>: the record, page and history validators
    of \<^verbatim>\<open>validate.go\<close> and \<^verbatim>\<open>store_validation.go\<close>.
  \<^item> \<open>TeamMember\<close>, \<open>TeamTask\<close>, \<open>TeamAttempt\<close>: the mutations of \<^verbatim>\<open>member.go\<close>, \<^verbatim>\<open>task.go\<close>, \<^verbatim>\<open>attempt.go\<close>,
    \<^verbatim>\<open>mailbox.go\<close> and \<^verbatim>\<open>lifecycle.go\<close>, each with the checks made before it.
  \<^item> \<open>TeamStore\<close>: \<^verbatim>\<open>store.go\<close>, \<^verbatim>\<open>memory_store.go\<close>. \<open>TeamEngine\<close>: \<^verbatim>\<open>engine.go\<close> and the methods over it.
  \<^item> \<open>TeamInvariant\<close> states the invariant behind \<open>validateTeam\<close>; \<open>TeamPreserve\<close>, \<open>TeamPreserveTask\<close>,
    \<open>TeamPromote\<close> show every mutation keeps it; \<open>TeamTransition\<close> shows that the record a command
    makes passes the record validators; \<open>TeamHistory\<close> that the log with it passes the history
    validator; \<open>TeamMachine\<close> that tasks and members move along two small state machines.
  \<^item> \<open>TeamStoreLaws\<close>: the contract of a store, the locale \<open>team_store\<close>, kept by the in-memory store.
    \<open>TeamEngineLaws\<close>, \<open>TeamEngineSpec\<close>, \<open>TeamCreate\<close>: the engine over any store with the contract,
    with other engines interfering between its store calls (rely and guarantee).
  \<^item> \<open>TeamPages\<close>: the pages of changes, messages and Teams are slices of the log, of the inbox and of
    the sorted identifiers.
  \<^item> \<open>TeamScenario\<close> is a concrete run for the witnesses, \<open>TeamClaims\<close> states the properties.

  Continuation (\<^verbatim>\<open>agent/continuation\<close>). An execution alternates Work (a worker does a bounded piece of
  work) and Decision (a controller looks at its result) under cumulative limits; its log has a record
  per transition. The engine reserves a stage in memory, runs the handler, and writes the outcome
  against the latest record; an execution found in a stage nobody has reserved is recovered.
  \<^item> \<open>ContTypes\<close>: \<^verbatim>\<open>types.go\<close>, \<^verbatim>\<open>errors.go\<close>, \<^verbatim>\<open>limits.go\<close>. \<open>ContValidate\<close>: \<^verbatim>\<open>validate.go\<close>. \<open>ContStages\<close>,
    \<open>ContControl\<close>: what \<^verbatim>\<open>advance.go\<close>, \<^verbatim>\<open>recovery.go\<close> and \<^verbatim>\<open>control.go\<close> compute on an execution.
  \<^item> \<open>ContStore\<close>: \<^verbatim>\<open>store.go\<close>, \<^verbatim>\<open>memory_store.go\<close>, and the contract of a store, the locale \<open>cont_store\<close>.
    \<open>ContEngine\<close>, \<open>ContAdvance\<close>: \<^verbatim>\<open>engine.go\<close>, \<^verbatim>\<open>recovery.go\<close>, \<^verbatim>\<open>control.go\<close>, \<^verbatim>\<open>advance.go\<close>, \<^verbatim>\<open>drive.go\<close>.
  \<^item> \<open>ContInvariant\<close>: the step relation \<open>exec_step\<close> and the invariant it keeps; \<open>ContHistory\<close>: what
    follows along a log. \<open>ContSystem\<close>, \<open>ContFinish\<close>, \<open>ContGuarantee\<close>: the engine over any store refines
    the step machine while other goroutines act between its steps. The loop of \<open>finishStage\<close> counts
    its sixteen reconciliations down; three control operations at most can come between, so four
    would be enough.
  \<^item> \<open>ContAccept\<close>: no validator refuses a record the engine computes; \<open>ContProgress\<close>, \<open>ContLaws\<close>: what
    each call does when it is alone and the store has room for the records it writes, each with an encoding
    of its own (\<open>cont_store_room\<close>; nothing is asked of other records). \<open>ContScenario\<close> is a concrete run, \<open>ContClaims\<close> states the properties.
  \<^item> \<open>ContJsonl\<close>: \<^verbatim>\<open>jsonl.go\<close>, the store with a file per execution, over a directory whose calls the
    operating system may fail and whose writes may stop short. \<open>ContJsonlLaws\<close>: no proper prefix of an
    encoded object is valid JSON, so a torn line is never taken for a record; an append is atomic, and
    without failures the store mirrors the memory store. Of \<^verbatim>\<open>encoding/json\<close> they ask that the one record or
    header written decodes to itself (\<open>canonical\<close>, \<open>header_kept\<close>). \<open>ContFileClaims\<close> states the properties.

  Policies (\<^verbatim>\<open>agent/goal\<close>, \<^verbatim>\<open>agent/loop\<close>): the two controllers a continuation execution can have. Each keeps
  a versioned state in the execution as JSON, asks an evaluator or a planner, and maps the answer onto
  a decision.
  \<^item> \<open>GoText\<close>, \<open>GoJson\<close>: trimming, runes, and what the source uses of \<^verbatim>\<open>encoding/json\<close> on flat structs,
    encoder and decoder on bytes; \<open>GoJsonLaws\<close>: strings, integers and objects survive the round trip
    and an encoded object is valid.
  \<^item> \<open>ContController\<close>: what the engine relies on in a controller, a locale. \<open>GoalPolicy\<close>: \<^verbatim>\<open>types.go\<close> and
    \<^verbatim>\<open>controller.go\<close> of the goal; \<open>GoalLaws\<close>: its decisions pass validation, and along a run the state
    counts blockers as the list of evaluations says. \<open>GoalEvaluator\<close>: \<^verbatim>\<open>model_evaluator.go\<close>.
    \<open>GoalProgress\<close>: every encoding of a decision fits its bound, so the controller decides.
  \<^item> \<open>LoopPolicy\<close>: \<^verbatim>\<open>types.go\<close>, \<^verbatim>\<open>controller.go\<close> and \<^verbatim>\<open>model_planner.go\<close> of the loop; \<open>LoopLaws\<close>: its state
    without payloads survives its encoding. \<open>PolicyClaims\<close> states the properties.

  Attempt runtime (\<^verbatim>\<open>agent/team/attempt_runtime.go\<close>): one run of a task attempt over both engines.
  \<^item> \<open>RuntimeModel\<close>: the run as a chain of calls on a world of the two stores, each call with its own
    environment; the conflict loop counts its 32 tries down. \<open>RuntimeLaws\<close>: the locale
    \<open>attempt_runtime\<close> joins a \<open>team_store\<close> and a \<open>cont_store\<close>; its triples \<open>does\<close> say that a call only
    extends both logs and what its result says of them. \<open>TeamScript\<close>: the log a list of commands leaves,
    computed from the snapshots. \<open>RuntimeScenario\<close> is a concrete world, \<open>RuntimeClaims\<close> states the
    properties.

  Workflow (\<^verbatim>\<open>workflow\<close>): a compiler from definitions to plans, graphs of nodes with routes and bindings, and a
  scheduler that runs the nodes of a plan concurrently.
  \<^item> \<open>FlowTypes\<close>: definitions, nodes, plans, diagnostics. \<open>FlowDefinition\<close>: the shape checks of
    \<^verbatim>\<open>definition.go\<close>, and \<^verbatim>\<open>input.go\<close>. \<open>FlowGraph\<close>: \<^verbatim>\<open>compiler_graph.go\<close> with the edges of
    \<^verbatim>\<open>compiler_node.go\<close> and the searches of \<^verbatim>\<open>compiler_binding.go\<close>. \<open>FlowCompile\<close>: the nodes, the bindings and
    \<^verbatim>\<open>compiler.go\<close>, for a root plan.
  \<^item> \<open>FlowRun\<close>: \<^verbatim>\<open>runner.go\<close>, \<^verbatim>\<open>runner_execution.go\<close>, \<^verbatim>\<open>runner_invoke.go\<close>, \<^verbatim>\<open>runner_binding.go\<close> and
    \<^verbatim>\<open>runner_checkpoint.go\<close>. A run is a list of turns of the scheduler's loop; a turn says what the loop's
    surroundings do in it, so that every interleaving of goroutines, host interrupt and cancellation is a list.
  \<^item> \<open>FlowGraphLaws\<close>: the topological order, the searches and the dominators are exact. \<open>FlowPlanLaws\<close>: what a
    compiled plan has. \<open>FlowReference\<close>: the sequential evaluation of a plan, the specification of a run.
  \<^item> \<open>FlowInvariant\<close>, \<open>FlowComplete\<close>, \<open>FlowTurns\<close>: every state of the scheduler is a partial evaluation in which
    each finished node has the fate of the reference; each turn keeps this and uses up credit, twice the
    attempts that are left. \<open>FlowSchedule\<close>: runs end, and how. \<open>FlowSessions\<close>: runs that breakpoints
    interrupt and checkpoints resume. These theorems are about runs whose step limit covers the attempts the
    policies allow (\<open>budgeted\<close>, which the compiler does not ask for) and about executors that are a function of
    the node, its inputs and the attempt: otherwise the schedule decides which node meets the limit.
  \<^item> \<open>FlowSafety\<close>: what every state of every run has, under any limit, cancellation and interrupt, and over all the
    legs of a run that is resumed (\<open>reaches\<close>): the bounds on the flight and on the attempts started, and the
    values that nodes have left. \<open>FlowTyping\<close>: from these, bindings read what is there. \<open>FlowScenario\<close> is a
    concrete workflow, \<open>FlowClaims\<close> states the properties and the defects.

  Strings are byte lists, JSON values are their bytes (\<open>None\<close> for nil), revisions and sequence
  numbers are 64-bit words, times are an instant and a zone offset. \<open>strings.EqualFold\<close>, the
  SHA-256 command hash and the length of a record's encoding are parameters (\<open>team_env\<close>). Errors
  are values; an index out of range is the error \<open>Panic\<close>. Loops are over
  lists or count down; the graph search has a termination proof. Go's \<open>int\<close> sums in the accounting wrap
  at 64 bits (\<open>i64\<close>).

  Not modelled in the workflow engine: composite nodes (Loop, Batch, sub-workflows) and the executors of the node
  types, behind \<open>feInvoke\<close>; interrupts that a node raises and the grace time of a host interrupt; the decoding of
  definitions, and of checkpoints with its checks: a run is resumed from the checkpoint as it was made; fingerprints, clocks and the recorder; Node Debug and Partial Run.

  Not modelled: the Team JSONL store (file I/O behind the same interface), engines of several processes
  on one continuation store (the package asks for a lease), the agent tools, copying of values (they are immutable here), and the packages listed as such in the
  manifest.
\<close>

end
